(* ===== verification/Go_Prelude.thy ===== *)
theory Go_Prelude
  imports Main "HOL-Library.State_Monad" "HOL-Library.Word" "HOL-Library.AList" "HOL-Library.Multiset"
begin

text \<open>
  What the other theories share: the error values of the program, Go's strings, bytes,
  instants and durations, the state monad with Go-style error results, and the triples
  (\<open>triple\<close>, \<open>keeps\<close>) the component proofs are written in.

  A Go call \<open>x, err := f(ctx, \<dots>)\<close> is a computation of type \<open>('w, err + 'a) state\<close>
  (HOL-Library.State_Monad): it takes the world \<open>'w\<close> and returns \<open>Inl err\<close> or \<open>Inr x\<close>
  with the new world. The idiom \<open>if err != nil { return err }\<close> is \<open>check\<close>; a call
  followed by it is \<open>bindE\<close>.
\<close>

named_theorems keeps_rules "rules that an operation keeps a predicate of the state"
named_theorems triple_rules "rules for triples of state-monad programs"
named_theorems run_simps "equations for the runs of the primitive operations"

section \<open>Errors\<close>

text \<open>
  The sentinel errors of the packages (auth, plugin, schema, adapter, store, cache,
  password). Wrapping with \<open>%w\<close> keeps the sentinel, so \<open>errors.Is\<close> is equality
  of constructors and the message text is left out. \<open>PluginErr p e\<close> is the sentinel \<open>e\<close> of the
  package of a plugin, \<open>CtxErr\<close> is the error of a
  cancelled context, \<open>ExtErr\<close> any error that comes from outside (a hook, a hasher, a
  driver, an email sender).
\<close>

datatype err =
    ErrAdapterRequired | ErrInvalidEmail | ErrInvalidPassword | ErrEmailAlreadyExists
  | ErrInvalidCredentials | ErrEmailNotVerified | ErrUnauthenticated | ErrUserNotFound
  | ErrInvalidToken | ErrEmailNotConfigured | ErrPluginDependency | ErrSchemaExportUnsupported
  | ErrPasswordPolicyConfig | ErrIssueTokenArgs | ErrNilModule
  | PluginNotFound | PluginDuplicate
  | SchemaModelNotFound | SchemaModelExists | SchemaFieldExists | SchemaInvalidField
  | SchemaInvalidModel | SchemaInvalidReference | SchemaNil
  | AdapterNotFound | AdapterConflict
  | StoreNotFound | StoreConflict
  | CacheMiss | CacheInvalidTTL
  | PasswordMismatch | PasswordInvalidHash | PasswordIncompatibleVersion
  | UserInvalidEmail
  | RateLimitExceeded | RateLimiterUnavailable | RateLimitInvalidPolicy | RateLimitActionRequired
  | PluginErr string string
  | CtxErr string
  | ExtErr string

text \<open>A call that may panic.\<close>

datatype 'a call = Panic | Returned "err + 'a"

section \<open>Instants and durations\<close>

text \<open>
  \<open>time.Time\<close> is the number of nanoseconds since Go's zero time, so \<open>IsZero\<close> is
  \<open>t = 0\<close>. \<open>time.Duration\<close> is a signed 64-bit number of nanoseconds, kept as an
  \<open>int\<close>; \<open>Sub\<close> saturates at its bounds as Go's does.
\<close>

type_synonym time = int
type_synonym duration = int

definition max_duration :: duration where
  "max_duration = 2 ^ 63 - 1"

definition min_duration :: duration where
  "min_duration = - (2 ^ 63)"

definition nanosecond :: duration where "nanosecond = 1"

definition millisecond :: duration where "millisecond = 1000000"

definition second :: duration where "second = 1000000000"

definition minute :: duration where "minute = 60 * second"

definition hour :: duration where "hour = 60 * minute"

lemmas duration_units = nanosecond_def millisecond_def second_def minute_def hour_def

definition time_sub :: "time \<Rightarrow> time \<Rightarrow> duration" where
  "time_sub t u = max min_duration (min max_duration (t - u))"

text \<open>Arithmetic on \<open>int64\<close> wraps.\<close>

definition wrap64 :: "int \<Rightarrow> int" where
  "wrap64 n = sint (word_of_int n :: 64 word)"

lemma wrap64_range: "- (2 ^ 63) \<le> wrap64 n" "wrap64 n < 2 ^ 63"
  using sint_ge [of "word_of_int n :: 64 word"] sint_lt [of "word_of_int n :: 64 word"] by (simp_all add: wrap64_def)

lemma wrap64_small: "- (2 ^ 63) \<le> n \<Longrightarrow> n < 2 ^ 63 \<Longrightarrow> wrap64 n = n"
  using signed_take_bit_int_eq_self [of 63 n] by (simp add: wrap64_def sint_sbintrunc')

lemma time_sub_pos: "0 < time_sub t u \<longleftrightarrow> u < t"
  by (auto simp: time_sub_def max_duration_def min_duration_def)

lemma time_sub_le: "min_duration \<le> t - u \<Longrightarrow> time_sub t u \<le> t - u"
  by (auto simp: time_sub_def)

lemma time_sub_le_of_pos: "0 < time_sub t u \<Longrightarrow> time_sub t u \<le> t - u"
  by (auto simp: time_sub_def max_duration_def min_duration_def)

section \<open>Bytes and strings\<close>

type_synonym byte = "8 word"

definition hex_digit :: "nat \<Rightarrow> char" where
  "hex_digit n = ''0123456789abcdef'' ! n"

fun hex_encode :: "byte list \<Rightarrow> string" where
  "hex_encode [] = []"
| "hex_encode (b # bs) = hex_digit (unat b div 16) # hex_digit (unat b mod 16) # hex_encode bs"

definition b64_alphabet :: "string" where
  "b64_alphabet = ''ABCDEFGHIJKLMNOPQRSTUVWXYZabcdefghijklmnopqrstuvwxyz0123456789+/''"

definition b64url_alphabet :: "string" where
  "b64url_alphabet = ''ABCDEFGHIJKLMNOPQRSTUVWXYZabcdefghijklmnopqrstuvwxyz0123456789-_''"

text \<open>Base64: groups of three bytes to four letters; \<open>pad\<close> says whether \<open>=\<close> is written.\<close>

fun b64_encode :: "string \<Rightarrow> bool \<Rightarrow> byte list \<Rightarrow> string" where
  "b64_encode al pad [] = []"
| "b64_encode al pad [a] =
     [al ! (unat a div 4), al ! (unat a mod 4 * 16)] @ (if pad then ''=='' else [])"
| "b64_encode al pad [a, b] =
     [al ! (unat a div 4), al ! (unat a mod 4 * 16 + unat b div 16), al ! (unat b mod 16 * 4)]
       @ (if pad then ''='' else [])"
| "b64_encode al pad (a # b # c # bs) =
     [al ! (unat a div 4), al ! (unat a mod 4 * 16 + unat b div 16),
      al ! (unat b mod 16 * 4 + unat c div 64), al ! (unat c mod 64)] @ b64_encode al pad bs"

definition b64_std :: "byte list \<Rightarrow> string" where
  "b64_std = b64_encode b64_alphabet True"

definition b64_rawurl :: "byte list \<Rightarrow> string" where
  "b64_rawurl = b64_encode b64url_alphabet False"

text \<open>\<open>string(b)\<close>, Go's conversion of bytes to a string.\<close>

definition string_of_bytes :: "byte list \<Rightarrow> string" where
  "string_of_bytes bs = map (\<lambda>b. char_of (unat b)) bs"

text \<open>
  \<open>strings.ToLower\<close>, \<open>ToUpper\<close>, \<open>TrimSpace\<close> on ASCII text; a byte above 127 is
  passed through unchanged.
\<close>

definition lower_char :: "char \<Rightarrow> char" where
  "lower_char c = (let n = of_char c :: nat in if 65 \<le> n \<and> n \<le> 90 then char_of (n + 32) else c)"

definition upper_char :: "char \<Rightarrow> char" where
  "upper_char c = (let n = of_char c :: nat in if 97 \<le> n \<and> n \<le> 122 then char_of (n - 32) else c)"

definition to_lower :: "string \<Rightarrow> string" where
  "to_lower s = map lower_char s"

definition to_upper :: "string \<Rightarrow> string" where
  "to_upper s = map upper_char s"

definition space_char :: "char \<Rightarrow> bool" where
  "space_char c = (let n = of_char c :: nat in n = 32 \<or> 9 \<le> n \<and> n \<le> 13)"

definition trim_space :: "string \<Rightarrow> string" where
  "trim_space s = rev (dropWhile space_char (rev (dropWhile space_char s)))"

text \<open>\<open>strings.ReplaceAll(s, old, new)\<close> for a one-byte \<open>old\<close>.\<close>

definition replace_char :: "char \<Rightarrow> string \<Rightarrow> string \<Rightarrow> string" where
  "replace_char c new s = concat (map (\<lambda>x. if x = c then new else [x]) s)"

text \<open>\<open>strings.Join(parts, sep)\<close> for a one-byte \<open>sep\<close>, and \<open>strings.Split\<close>.\<close>

fun join_with :: "char \<Rightarrow> string list \<Rightarrow> string" where
  "join_with c [] = []"
| "join_with c [p] = p"
| "join_with c (p # q # ps) = p @ c # join_with c (q # ps)"

fun split_on :: "char \<Rightarrow> string \<Rightarrow> string list" where
  "split_on c [] = [[]]"
| "split_on c (x # xs) =
     (if x = c then [] # split_on c xs
      else (case split_on c xs of [] \<Rightarrow> [[x]] | p # ps \<Rightarrow> (x # p) # ps))"

lemma split_on_append: "c \<notin> set p \<Longrightarrow> split_on c (p @ c # s) = p # split_on c s"
  by (induction p) auto

lemma split_on_single: "c \<notin> set p \<Longrightarrow> split_on c p = [p]"
  by (induction p) auto

lemma split_on_not_Nil [simp]: "split_on c s \<noteq> []"
  by (induction s) (auto split: list.splits)

lemma split_on_append_any: "split_on c (a @ c # b) = split_on c a @ split_on c b"
  by (induction a) (auto split: list.splits)

lemma join_split [simp]: "join_with c (split_on c s) = s"
proof (induction s)
  case (Cons x xs)
  obtain p ps where ps: "split_on c xs = p # ps" by (cases "split_on c xs") auto
  show ?case
  proof (cases ps)
    case Nil
    with ps Cons show ?thesis by simp
  next
    case (Cons q qs)
    with ps Cons.IH show ?thesis by simp
  qed
qed simp

lemma split_join: "ps \<noteq> [] \<Longrightarrow> \<forall>p \<in> set ps. c \<notin> set p \<Longrightarrow> split_on c (join_with c ps) = ps"
  by (induction c ps rule: join_with.induct) (auto simp: split_on_append split_on_single)

lemma split_on_free: "p \<in> set (split_on c s) \<Longrightarrow> c \<notin> set p"
proof (induction s arbitrary: p)
  case (Cons x xs)
  obtain q ps where "split_on c xs = q # ps" by (cases "split_on c xs") auto
  with Cons show ?case by (auto split: if_splits)
qed simp

text \<open>\<open>HasPrefix\<close>, \<open>HasSuffix\<close>, \<open>Contains\<close>.\<close>

definition has_prefix :: "string \<Rightarrow> string \<Rightarrow> bool" where
  "has_prefix s p \<longleftrightarrow> take (length p) s = p"

definition has_suffix :: "string \<Rightarrow> string \<Rightarrow> bool" where
  "has_suffix s p \<longleftrightarrow> length p \<le> length s \<and> drop (length s - length p) s = p"

fun str_contains :: "string \<Rightarrow> string \<Rightarrow> bool" where
  "str_contains [] p \<longleftrightarrow> p = []"
| "str_contains (x # xs) p \<longleftrightarrow> has_prefix (x # xs) p \<or> str_contains xs p"

lemma has_prefix_iff: "has_prefix s p \<longleftrightarrow> (\<exists>t. s = p @ t)"
  unfolding has_prefix_def by (metis append_eq_conv_conj append_take_drop_id)

lemma str_contains_iff: "str_contains s p \<longleftrightarrow> (\<exists>a b. s = a @ p @ b)"
proof (induction s)
  case (Cons x s)
  show ?case
  proof
    assume "str_contains (x # s) p"
    then consider "has_prefix (x # s) p" | "str_contains s p" by auto
    then show "\<exists>a b. x # s = a @ p @ b"
    proof cases
      case 1
      then show ?thesis by (metis append_Nil has_prefix_iff)
    next
      case 2
      then show ?thesis using Cons.IH by (metis append_Cons)
    qed
  next
    assume "\<exists>a b. x # s = a @ p @ b"
    then obtain a b where ab: "x # s = a @ p @ b" by blast
    show "str_contains (x # s) p"
    proof (cases a)
      case Nil
      with ab have "has_prefix (x # s) p" by (metis append_Nil has_prefix_iff)
      then show ?thesis by simp
    next
      case (Cons y ys)
      with ab Cons.IH show ?thesis by auto
    qed
  qed
qed simp

text \<open>The verb \<open>%q\<close> on ASCII text; a byte above 127 is passed through unchanged.\<close>

definition quote_char :: "char \<Rightarrow> string" where
  "quote_char c = (let n = of_char c :: nat in
     if n = 34 then [char_of (92 :: nat), c] else if n = 92 then [c, c]
     else if n = 7 then [char_of (92 :: nat), CHR ''a''] else if n = 8 then [char_of (92 :: nat), CHR ''b'']
     else if n = 9 then [char_of (92 :: nat), CHR ''t''] else if n = 10 then [char_of (92 :: nat), CHR ''n'']
     else if n = 11 then [char_of (92 :: nat), CHR ''v''] else if n = 12 then [char_of (92 :: nat), CHR ''f'']
     else if n = 13 then [char_of (92 :: nat), CHR ''r'']
     else if n < 32 \<or> n = 127 then [char_of (92 :: nat), CHR ''x'', hex_digit (n div 16), hex_digit (n mod 16)]
     else [c])"

definition go_quote :: "string \<Rightarrow> string" where
  "go_quote s = char_of (34 :: nat) # concat (map quote_char s) @ [char_of (34 :: nat)]"

text \<open>Decimal representation, \<open>%d\<close>.\<close>

fun show_nat :: "nat \<Rightarrow> string" where
  "show_nat n = (if n < 10 then [hex_digit n] else show_nat (n div 10) @ [hex_digit (n mod 10)])"

declare show_nat.simps [simp del]

definition show_int :: "int \<Rightarrow> string" where
  "show_int i = (if i < 0 then CHR ''-'' # show_nat (nat (- i)) else show_nat (nat i))"

definition hex_chars :: "char set" where
  "hex_chars = set ''0123456789abcdef''"

lemma hex_digit_in: "n < 16 \<Longrightarrow> hex_digit n \<in> hex_chars"
proof -
  assume "n < 16"
  then have "''0123456789abcdef'' ! n \<in> set ''0123456789abcdef''"
    by (intro nth_mem) simp
  then show ?thesis by (simp only: hex_digit_def hex_chars_def)
qed

lemma unat_byte_div: "unat (b :: byte) div 16 < 16"
  using unsigned_less [of b, where ?'a = nat] by simp

lemma set_hex_encode: "set (hex_encode bs) \<subseteq> hex_chars"
  by (induction bs) (auto intro: hex_digit_in simp: unat_byte_div)

lemma length_hex_encode [simp]: "length (hex_encode bs) = 2 * length bs"
  by (induction bs) auto

lemma hex_encode_colon: "CHR '':'' \<notin> set (hex_encode bs)"
  using set_hex_encode [of bs] by (auto simp: hex_chars_def)

lemma lower_char_space: "space_char (lower_char c) = space_char c"
proof -
  have "(of_char (char_of (n + 32 :: nat)) :: nat) = n + 32" if "n \<le> 90" for n
    using that by (simp add: of_char_of)
  then show ?thesis by (simp add: space_char_def lower_char_def Let_def)
qed

lemma lower_char_idem [simp]: "lower_char (lower_char c) = lower_char c"
  by (simp add: lower_char_def Let_def)

lemma to_lower_idem [simp]: "to_lower (to_lower s) = to_lower s"
  by (simp add: to_lower_def)

lemma dropWhile_space_lower:
  "dropWhile space_char (map lower_char s) = map lower_char (dropWhile space_char s)"
  by (simp add: dropWhile_map comp_def lower_char_space)

lemma to_lower_trim: "to_lower (trim_space s) = trim_space (to_lower s)"
  by (simp add: to_lower_def trim_space_def dropWhile_space_lower rev_map)

lemma dropWhile_idem: "dropWhile P (dropWhile P xs) = dropWhile P xs"
  by (induction xs) auto

lemma dropWhile_rev_dropWhile:
  assumes "dropWhile P xs = xs"
  shows "dropWhile P (rev (dropWhile P (rev xs))) = rev (dropWhile P (rev xs))"
proof (cases xs)
  case (Cons y ys)
  with assms have "\<not> P y" by (metis hd_dropWhile list.distinct(1) list.sel(1))
  then have "dropWhile P (rev ys @ [y]) \<noteq> []" by (simp add: dropWhile_eq_Nil_conv)
  moreover have "dropWhile P (rev ys @ [y]) = dropWhile P (rev ys) @ [y]"
    using \<open>\<not> P y\<close> by (rule dropWhile_append3)
  ultimately show ?thesis using Cons \<open>\<not> P y\<close> by simp
qed simp

lemma trim_space_idem [simp]: "trim_space (trim_space s) = trim_space s"
proof -
  have "dropWhile space_char (trim_space s) = trim_space s"
    unfolding trim_space_def by (rule dropWhile_rev_dropWhile) (rule dropWhile_idem)
  then show ?thesis by (simp add: trim_space_def dropWhile_idem)
qed

section \<open>The state monad with Go-style errors\<close>

type_synonym ('w, 'a) op = "('w, err + 'a) state"

definition ok :: "'a \<Rightarrow> ('w, err + 'a) state" where
  "ok x = State_Monad.return (Inr x)"

definition fail :: "err \<Rightarrow> ('w, err + 'a) state" where
  "fail e = State_Monad.return (Inl e)"

definition check :: "err + 'a \<Rightarrow> ('a \<Rightarrow> ('w, err + 'b) state) \<Rightarrow> ('w, err + 'b) state" where
  "check r k = (case r of Inl e \<Rightarrow> fail e | Inr x \<Rightarrow> k x)"

definition bindE :: "('w, err + 'a) state \<Rightarrow> ('a \<Rightarrow> ('w, err + 'b) state) \<Rightarrow> ('w, err + 'b) state" where
  "bindE m k = State_Monad.bind m (\<lambda>r. check r k)"

text \<open>\<open>f(x); return\<close> for a call whose result is dropped.\<close>

definition skip :: "('w, unit) state" where
  "skip = State_Monad.return ()"

fun for_each :: "('a \<Rightarrow> ('w, unit) state) \<Rightarrow> 'a list \<Rightarrow> ('w, unit) state" where
  "for_each f [] = skip"
| "for_each f (x # xs) = State_Monad.bind (f x) (\<lambda>_. for_each f xs)"

text \<open>A loop that returns at the first error.\<close>

fun for_eachE :: "('a \<Rightarrow> ('w, err + unit) state) \<Rightarrow> 'a list \<Rightarrow> ('w, err + unit) state" where
  "for_eachE f [] = ok ()"
| "for_eachE f (x # xs) = bindE (f x) (\<lambda>_. for_eachE f xs)"

text \<open>Running a computation on a part of the state.\<close>

definition zoom :: "('w \<Rightarrow> 's) \<Rightarrow> ('s \<Rightarrow> 'w \<Rightarrow> 'w) \<Rightarrow> ('s, 'a) state \<Rightarrow> ('w, 'a) state" where
  "zoom g p m = State (\<lambda>w. case run_state m (g w) of (r, s) \<Rightarrow> (r, p s w))"

lemma run_State [run_simps, simp]: "run_state (State f) w = f w"
  by simp

lemma run_ok [run_simps, simp]: "run_state (ok x) w = (Inr x, w)"
  by (simp add: ok_def)

lemma run_fail [run_simps, simp]: "run_state (fail e) w = (Inl e, w)"
  by (simp add: fail_def)

lemma run_skip [run_simps, simp]: "run_state skip w = ((), w)"
  by (simp add: skip_def)

lemma check_Inl [run_simps, simp]: "check (Inl e) k = fail e"
  by (simp add: check_def)

lemma check_Inr [run_simps, simp]: "check (Inr x) k = k x"
  by (simp add: check_def)

lemma run_bindE [run_simps, simp]:
  "run_state (bindE m k) w =
     (case run_state m w of (Inl e, w') \<Rightarrow> (Inl e, w') | (Inr x, w') \<Rightarrow> run_state (k x) w')"
  by (simp add: bindE_def check_def split: prod.splits sum.splits)

lemma run_zoom [run_simps, simp]:
  "run_state (zoom g p m) w = (case run_state m (g w) of (r, s) \<Rightarrow> (r, p s w))"
  by (simp add: zoom_def)

section \<open>Triples\<close>

definition triple :: "('w \<Rightarrow> bool) \<Rightarrow> ('w, 'a) state \<Rightarrow> ('a \<Rightarrow> 'w \<Rightarrow> bool) \<Rightarrow> bool" where
  "triple P m Q \<longleftrightarrow> (\<forall>w r w'. P w \<longrightarrow> run_state m w = (r, w') \<longrightarrow> Q r w')"

definition keeps :: "('w \<Rightarrow> bool) \<Rightarrow> ('w, 'a) state \<Rightarrow> bool" where
  "keeps P m \<longleftrightarrow> (\<forall>w. P w \<longrightarrow> P (snd (run_state m w)))"

lemma tripleI: "(\<And>w r w'. P w \<Longrightarrow> run_state m w = (r, w') \<Longrightarrow> Q r w') \<Longrightarrow> triple P m Q"
  by (auto simp: triple_def)

lemma tripleD: "triple P m Q \<Longrightarrow> P w \<Longrightarrow> run_state m w = (r, w') \<Longrightarrow> Q r w'"
  by (auto simp: triple_def)

lemma keepsI: "(\<And>w r w'. P w \<Longrightarrow> run_state m w = (r, w') \<Longrightarrow> P w') \<Longrightarrow> keeps P m"
  unfolding keeps_def by (metis prod.collapse)

lemma keepsD: "keeps P m \<Longrightarrow> P w \<Longrightarrow> run_state m w = (r, w') \<Longrightarrow> P w'"
  unfolding keeps_def by (metis snd_conv)

lemma keeps_triple: "keeps P m \<longleftrightarrow> triple P m (\<lambda>_. P)"
  by (auto intro!: keepsI tripleI dest: keepsD tripleD)

lemma triple_conseq:
  "triple P' m Q' \<Longrightarrow> (\<And>w. P w \<Longrightarrow> P' w) \<Longrightarrow> (\<And>r w. Q' r w \<Longrightarrow> Q r w) \<Longrightarrow> triple P m Q"
  unfolding triple_def by blast

lemma triple_return [triple_rules]:
  "(\<And>w. P w \<Longrightarrow> Q x w) \<Longrightarrow> triple P (State_Monad.return x) Q"
  by (auto simp: triple_def)

lemma triple_bind:
  "triple P m R \<Longrightarrow> (\<And>x. triple (R x) (k x) Q) \<Longrightarrow> triple P (State_Monad.bind m k) Q"
  unfolding triple_def by (fastforce split: prod.splits)

lemma triple_bindE:
  assumes "triple P m (\<lambda>r w. case r of Inl e \<Rightarrow> Q (Inl e) w | Inr x \<Rightarrow> R x w)"
    and "\<And>x. triple (R x) (k x) Q"
  shows "triple P (bindE m k) Q"
  using assms unfolding triple_def
  by (fastforce split: prod.splits sum.splits)

lemma keeps_return [keeps_rules]: "keeps P (State_Monad.return x)"
  by (auto simp: keeps_def)

lemma keeps_ok [keeps_rules]: "keeps P (ok x)"
  by (auto simp: keeps_def)

lemma keeps_fail [keeps_rules]: "keeps P (fail e)"
  by (auto simp: keeps_def)

lemma keeps_skip [keeps_rules]: "keeps P skip"
  by (auto simp: keeps_def)

lemma keeps_bind [keeps_rules]:
  "keeps P m \<Longrightarrow> (\<And>x. keeps P (k x)) \<Longrightarrow> keeps P (State_Monad.bind m k)"
  unfolding keeps_triple by (rule triple_bind)

lemma keeps_check [keeps_rules]: "(\<And>x. keeps P (k x)) \<Longrightarrow> keeps P (check r k)"
  by (cases r) (auto intro: keeps_rules)

lemma keeps_bindE [keeps_rules]:
  "keeps P m \<Longrightarrow> (\<And>x. keeps P (k x)) \<Longrightarrow> keeps P (bindE m k)"
  unfolding bindE_def by (intro keeps_rules) auto

lemma keeps_if [keeps_rules]: "keeps P m \<Longrightarrow> keeps P n \<Longrightarrow> keeps P (if b then m else n)"
  by simp

lemma keeps_case_option [keeps_rules]:
  "keeps P m \<Longrightarrow> (\<And>x. keeps P (k x)) \<Longrightarrow> keeps P (case o' of None \<Rightarrow> m | Some x \<Rightarrow> k x)"
  by (cases o') auto

lemma keeps_case_sum [keeps_rules]:
  "(\<And>e. keeps P (m e)) \<Longrightarrow> (\<And>x. keeps P (k x)) \<Longrightarrow> keeps P (case r of Inl e \<Rightarrow> m e | Inr x \<Rightarrow> k x)"
  by (cases r) auto

lemma keeps_for_each [keeps_rules]:
  "(\<And>x. x \<in> set xs \<Longrightarrow> keeps P (f x)) \<Longrightarrow> keeps P (for_each f xs)"
  by (induction xs) (auto intro: keeps_rules)

lemma keeps_for_eachE [keeps_rules]:
  "(\<And>x. x \<in> set xs \<Longrightarrow> keeps P (f x)) \<Longrightarrow> keeps P (for_eachE f xs)"
  by (induction xs) (auto intro: keeps_rules)

lemma run_check [run_simps]:
  "run_state (check r k) w = (case r of Inl e \<Rightarrow> (Inl e, w) | Inr x \<Rightarrow> run_state (k x) w)"
  by (cases r) auto

lemma run_case_sum [run_simps]:
  "run_state (case r of Inl e \<Rightarrow> f e | Inr x \<Rightarrow> g x) w =
     (case r of Inl e \<Rightarrow> run_state (f e) w | Inr x \<Rightarrow> run_state (g x) w)"
  by (cases r) auto

lemma run_case_option [run_simps]:
  "run_state (case r of None \<Rightarrow> f | Some x \<Rightarrow> g x) w =
     (case r of None \<Rightarrow> run_state f w | Some x \<Rightarrow> run_state (g x) w)"
  by (cases r) auto

lemma run_if [run_simps]:
  "run_state (if b then m else n) w = (if b then run_state m w else run_state n w)"
  by simp

text \<open>Elimination rules for the runs of compound computations.\<close>

lemma run_bind_E:
  assumes "run_state (State_Monad.bind m k) w = (r, w')"
  obtains x w1 where "run_state m w = (x, w1)" "run_state (k x) w1 = (r, w')"
  using assms by (auto split: prod.splits)

lemma run_bindE_E:
  assumes "run_state (bindE m k) w = (r, w')"
  obtains e where "run_state m w = (Inl e, w')" "r = Inl e"
    | x w1 where "run_state m w = (Inr x, w1)" "run_state (k x) w1 = (r, w')"
  using assms by (auto split: prod.splits sum.splits)

end
