(* ===== verification/Schema.thy ===== *)
theory Schema
  imports Go_Prelude
begin

text \<open>
  The declarative schema (\<open>schema/schema.go\<close>, \<open>schema/core_models.go\<close>): fields, indexes,
  models, the registry of models with \<open>AddModel\<close>, \<open>ExtendModel\<close>, \<open>Validate\<close> and
  \<open>Clone\<close>, and the five core models.

  A Go map is an association list with distinct keys; its order stands for the iteration
  order the Go runtime happens to pick, and what is proved does not depend on it. The lock
  of \<open>Schema\<close> makes each method atomic, so a method is one step on the schema.
\<close>

section \<open>Values stored in rows\<close>

text \<open>
  Values of type \<open>any\<close> that the program stores in rows and conditions. \<open>VTimePtr\<close> is a
  \<open>*time.Time\<close> (\<open>None\<close> is the nil pointer), \<open>VBytes\<close> a non-nil \<open>[]byte\<close>, \<open>VList\<close> a
  non-nil slice, \<open>VInt\<close> one of Go's integer types, \<open>VFloat\<close> a \<open>float64\<close> as the fraction it is, in
  lowest terms with a positive denominator, \<open>VMap\<close> a non-nil \<open>map[string]any\<close>. A value of a named string type counts as \<open>VStr\<close>.
\<close>

datatype gval =
    VNil
  | VStr string
  | VBool bool
  | VInt int
  | VTime time
  | VTimePtr "time option"
  | VBytes "byte list"
  | VList "gval list"
  | VFloat int int
  | VMap "(string \<times> gval) list"

type_synonym row = "string \<rightharpoonup> gval"

section \<open>Fields, indexes, models\<close>

type_synonym data_type = string

definition TypeString :: data_type where "TypeString = ''string''"
definition TypeInt64 :: data_type where "TypeInt64 = ''int64''"
definition TypeFloat64 :: data_type where "TypeFloat64 = ''float64''"
definition TypeBool :: data_type where "TypeBool = ''bool''"
definition TypeTime :: data_type where "TypeTime = ''time''"
definition TypeBytes :: data_type where "TypeBytes = ''bytes''"
definition TypeJSON :: data_type where "TypeJSON = ''json''"

lemmas data_types = TypeString_def TypeInt64_def TypeFloat64_def TypeBool_def TypeTime_def
  TypeBytes_def TypeJSON_def

definition data_type_valid :: "data_type \<Rightarrow> bool" where
  "data_type_valid dt \<longleftrightarrow>
     dt \<in> {TypeString, TypeInt64, TypeFloat64, TypeBool, TypeTime, TypeBytes, TypeJSON}"

record reference =
  ref_model :: string
  ref_field :: string
  ref_on_delete :: string

record field =
  f_name :: string
  f_dbname :: string
  f_type :: data_type
  f_required :: bool
  f_unique :: bool
  f_indexed :: bool
  f_default :: "gval option"
  f_references :: "reference option"

record index =
  idx_name :: string
  idx_fields :: "string list"
  idx_unique :: bool

record model =
  m_name :: string
  m_table_name :: string
  m_primary_key :: string
  m_fields :: "(string \<times> field) list"
  m_indexes :: "index list"

type_synonym schema = "(string \<times> model) list"

definition effective_db_name :: "field \<Rightarrow> string" where
  "effective_db_name f = (if f_dbname f \<noteq> [] then f_dbname f else f_name f)"

definition new_model :: "string \<Rightarrow> string \<Rightarrow> string \<Rightarrow> model" where
  "new_model name table_name pk =
     \<lparr>m_name = name, m_table_name = table_name, m_primary_key = pk, m_fields = [], m_indexes = []\<rparr>"

definition add_field :: "model \<Rightarrow> field \<Rightarrow> err + model" where
  "add_field m f =
     (if f_name f = [] then Inl SchemaInvalidField
      else if \<not> data_type_valid (f_type f) then Inl SchemaInvalidField
      else if map_of (m_fields m) (f_name f) \<noteq> None then Inl SchemaFieldExists
      else Inr (m\<lparr>m_fields := m_fields m @ [(f_name f, f)]\<rparr>))"

definition get_field :: "model \<Rightarrow> string \<Rightarrow> field option" where
  "get_field m name = map_of (m_fields m) name"

definition clone_model :: "model \<Rightarrow> model" where
  "clone_model m =
     \<lparr>m_name = m_name m, m_table_name = m_table_name m, m_primary_key = m_primary_key m,
      m_fields = m_fields m, m_indexes = m_indexes m\<rparr>"

section \<open>The schema\<close>

definition schema_new :: schema where
  "schema_new = []"

text \<open>\<open>AddModel\<close>: the argument is a pointer, \<open>None\<close> the nil one.\<close>

definition add_model :: "schema \<Rightarrow> model option \<Rightarrow> err + schema" where
  "add_model s mo =
     (case mo of
        None \<Rightarrow> Inl SchemaInvalidModel
      | Some m \<Rightarrow>
          if m_name m = [] then Inl SchemaInvalidModel
          else
            let m' = (if m_table_name m = [] then m\<lparr>m_table_name := to_lower (m_name m)\<rparr> else m) in
            if m_primary_key m' = [] then Inl SchemaInvalidModel
            else if map_of s (m_name m') \<noteq> None then Inl SchemaModelExists
            else Inr (s @ [(m_name m', clone_model m')]))"

definition get_model :: "schema \<Rightarrow> string \<Rightarrow> model option" where
  "get_model s name = map_option clone_model (map_of s name)"

definition schema_models :: "schema \<Rightarrow> (string \<times> model) list" where
  "schema_models s = map (\<lambda>(k, m). (k, clone_model m)) s"

text \<open>
  \<open>ExtendModel\<close> adds the fields one by one to the stored model and returns at the first
  error, leaving the fields before it in place: its effect is a state change and a result.
\<close>

fun add_fields :: "model \<Rightarrow> field list \<Rightarrow> (err + unit) \<times> model" where
  "add_fields m [] = (Inr (), m)"
| "add_fields m (f # fs) =
     (case add_field m f of Inl e \<Rightarrow> (Inl e, m) | Inr m' \<Rightarrow> add_fields m' fs)"

definition extend_model :: "string \<Rightarrow> field list \<Rightarrow> (schema, err + unit) state" where
  "extend_model name flds = State (\<lambda>s.
     case map_of s name of
       None \<Rightarrow> (Inl SchemaModelNotFound, s)
     | Some m \<Rightarrow> (case add_fields m flds of (r, m') \<Rightarrow> (r, AList.update name m' s)))"

text \<open>\<open>Validate\<close>: the loop over the models, with the two inner loops, stops at the first error.\<close>

fun first_error :: "('a \<Rightarrow> err option) \<Rightarrow> 'a list \<Rightarrow> err option" where
  "first_error f [] = None"
| "first_error f (x # xs) = (case f x of Some e \<Rightarrow> Some e | None \<Rightarrow> first_error f xs)"

definition check_field :: "schema \<Rightarrow> string \<times> field \<Rightarrow> err option" where
  "check_field s nf =
     (let f = snd nf in
      if \<not> data_type_valid (f_type f) then Some SchemaInvalidField
      else case f_references f of
        None \<Rightarrow> None
      | Some r \<Rightarrow>
          (case map_of s (ref_model r) of
             None \<Rightarrow> Some SchemaInvalidReference
           | Some tm \<Rightarrow>
               if map_of (m_fields tm) (ref_field r) = None then Some SchemaInvalidReference
               else None))"

definition check_index :: "model \<Rightarrow> index \<Rightarrow> err option" where
  "check_index m idx =
     first_error (\<lambda>fn. if map_of (m_fields m) fn = None then Some SchemaInvalidModel else None)
       (idx_fields idx)"

definition check_model :: "schema \<Rightarrow> string \<times> model \<Rightarrow> err option" where
  "check_model s nm =
     (let m = snd nm in
      if m_primary_key m = [] then Some SchemaInvalidModel
      else case map_of (m_fields m) (m_primary_key m) of
        None \<Rightarrow> Some SchemaInvalidModel
      | Some pk \<Rightarrow>
          if \<not> f_required pk then Some SchemaInvalidModel
          else case first_error (check_field s) (m_fields m) of
            Some e \<Rightarrow> Some e
          | None \<Rightarrow> first_error (check_index m) (m_indexes m))"

definition validate :: "schema \<Rightarrow> err + unit" where
  "validate s = (case first_error (check_model s) s of Some e \<Rightarrow> Inl e | None \<Rightarrow> Inr ())"

fun clone_into :: "schema \<Rightarrow> model list \<Rightarrow> schema" where
  "clone_into acc [] = acc"
| "clone_into acc (m # ms) =
     clone_into (case add_model acc (Some (clone_model m)) of Inl _ \<Rightarrow> acc | Inr acc' \<Rightarrow> acc') ms"

definition clone_schema :: "schema \<Rightarrow> schema" where
  "clone_schema s = clone_into schema_new (map snd s)"

section \<open>The core models\<close>

definition ModelUsers :: string where "ModelUsers = ''users''"
definition ModelAccounts :: string where "ModelAccounts = ''accounts''"
definition ModelCredentials :: string where "ModelCredentials = ''credentials''"
definition ModelSessions :: string where "ModelSessions = ''sessions''"
definition ModelVerifications :: string where "ModelVerifications = ''verifications''"

lemmas model_names = ModelUsers_def ModelAccounts_def ModelCredentials_def ModelSessions_def
  ModelVerifications_def

text \<open>\<open>_ = m.AddField(f)\<close>: the error is dropped.\<close>

definition add_field' :: "field \<Rightarrow> model \<Rightarrow> model" where
  "add_field' f m = (case add_field m f of Inl _ \<Rightarrow> m | Inr m' \<Rightarrow> m')"

definition mk_field :: "string \<Rightarrow> data_type \<Rightarrow> bool \<Rightarrow> field" where
  "mk_field name ty req =
     \<lparr>f_name = name, f_dbname = [], f_type = ty, f_required = req, f_unique = False,
      f_indexed = False, f_default = None, f_references = None\<rparr>"

definition with_db :: "field \<Rightarrow> field" where
  "with_db f = f\<lparr>f_dbname := f_name f\<rparr>"

definition cascade_ref :: "string \<Rightarrow> reference" where
  "cascade_ref m = \<lparr>ref_model = m, ref_field = ''id'', ref_on_delete = ''CASCADE''\<rparr>"

definition mk_index :: "string \<Rightarrow> string list \<Rightarrow> bool \<Rightarrow> index" where
  "mk_index name fs u = \<lparr>idx_name = name, idx_fields = fs, idx_unique = u\<rparr>"

definition user_model :: model where
  "user_model = fold add_field'
     [mk_field ''id'' TypeString True,
      (mk_field ''email'' TypeString True)\<lparr>f_unique := True\<rparr>,
      (with_db (mk_field ''email_verified'' TypeBool False))\<lparr>f_default := Some (VBool False)\<rparr>,
      with_db (mk_field ''created_at'' TypeTime True),
      with_db (mk_field ''updated_at'' TypeTime True)]
     (new_model ModelUsers ''users'' ''id'')"

definition account_model :: model where
  "account_model =
     (let m = fold add_field'
        [mk_field ''id'' TypeString True,
         (with_db (mk_field ''user_id'' TypeString True))
           \<lparr>f_references := Some (cascade_ref ModelUsers)\<rparr>,
         mk_field ''provider'' TypeString True,
         with_db (mk_field ''provider_id'' TypeString True),
         with_db (mk_field ''created_at'' TypeTime True),
         with_db (mk_field ''updated_at'' TypeTime True)]
        (new_model ModelAccounts ''accounts'' ''id'')
      in m\<lparr>m_indexes := m_indexes m @
        [mk_index ''uq_accounts_provider'' [''provider'', ''provider_id''] True,
         mk_index ''idx_accounts_user_id'' [''user_id''] False]\<rparr>)"

definition credential_model :: model where
  "credential_model =
     (let m = fold add_field'
        [mk_field ''id'' TypeString True,
         (with_db (mk_field ''user_id'' TypeString True))
           \<lparr>f_references := Some (cascade_ref ModelUsers)\<rparr>,
         (with_db (mk_field ''account_id'' TypeString True))
           \<lparr>f_references := Some (cascade_ref ModelAccounts)\<rparr>,
         mk_field ''type'' TypeString True,
         mk_field ''secret'' TypeString True,
         with_db (mk_field ''created_at'' TypeTime True),
         with_db (mk_field ''updated_at'' TypeTime True),
         with_db (mk_field ''revoked_at'' TypeTime False)]
        (new_model ModelCredentials ''credentials'' ''id'')
      in m\<lparr>m_indexes := m_indexes m @
        [mk_index ''idx_credentials_account_type'' [''account_id'', ''type''] False,
         mk_index ''idx_credentials_user_id'' [''user_id''] False]\<rparr>)"

definition session_model :: model where
  "session_model =
     (let m = fold add_field'
        [mk_field ''id'' TypeString True,
         (with_db (mk_field ''user_id'' TypeString True))
           \<lparr>f_references := Some (cascade_ref ModelUsers)\<rparr>,
         (with_db (mk_field ''token_hash'' TypeString True))\<lparr>f_unique := True\<rparr>,
         with_db (mk_field ''ip_address'' TypeString False),
         with_db (mk_field ''user_agent'' TypeString False),
         with_db (mk_field ''expires_at'' TypeTime True),
         with_db (mk_field ''revoked_at'' TypeTime False),
         with_db (mk_field ''created_at'' TypeTime True)]
        (new_model ModelSessions ''sessions'' ''id'')
      in m\<lparr>m_indexes := m_indexes m @
        [mk_index ''idx_sessions_user_id'' [''user_id''] False,
         mk_index ''idx_sessions_token_hash'' [''token_hash''] True]\<rparr>)"

definition verification_model :: model where
  "verification_model =
     (let m = fold add_field'
        [mk_field ''id'' TypeString True,
         mk_field ''purpose'' TypeString True,
         mk_field ''subject'' TypeString True,
         (with_db (mk_field ''token_hash'' TypeString True))\<lparr>f_unique := True\<rparr>,
         with_db (mk_field ''expires_at'' TypeTime True),
         with_db (mk_field ''used_at'' TypeTime False),
         with_db (mk_field ''created_at'' TypeTime True)]
        (new_model ModelVerifications ''verifications'' ''id'')
      in m\<lparr>m_indexes := m_indexes m @
        [mk_index ''idx_verifications_token_hash'' [''token_hash''] True,
         mk_index ''idx_verifications_purpose_subject'' [''purpose'', ''subject''] False]\<rparr>)"

fun add_models :: "schema \<Rightarrow> model list \<Rightarrow> err + schema" where
  "add_models s [] = Inr s"
| "add_models s (m # ms) =
     (case add_model s (Some m) of Inl e \<Rightarrow> Inl e | Inr s' \<Rightarrow> add_models s' ms)"

definition default_core_schema :: "err + schema" where
  "default_core_schema =
     (case add_models schema_new
        [user_model, account_model, credential_model, session_model, verification_model] of
        Inl e \<Rightarrow> Inl e
      | Inr s \<Rightarrow> (case validate s of Inl e \<Rightarrow> Inl e | Inr _ \<Rightarrow> Inr s))"

text \<open>
  What the core relies on in any schema it runs with: the five models are there with \<open>id\<close>
  as primary key, and the field tuples of \<open>core_unique\<close> are declared unique.
\<close>

definition core_models :: "string list" where
  "core_models = [ModelUsers, ModelAccounts, ModelCredentials, ModelSessions, ModelVerifications]"

definition core_unique :: "string \<Rightarrow> string list list" where
  "core_unique m =
     (if m = ModelUsers then [[''id''], [''email'']]
      else if m = ModelAccounts then [[''id''], [''provider'', ''provider_id'']]
      else if m = ModelSessions \<or> m = ModelVerifications then [[''id''], [''token_hash'']]
      else [[''id'']])"

definition declares_unique :: "model \<Rightarrow> string list \<Rightarrow> bool" where
  "declares_unique mo fs \<longleftrightarrow>
     fs = [m_primary_key mo] \<or>
     list_ex (\<lambda>(n, f). fs = [n] \<and> f_unique f) (m_fields mo) \<or>
     list_ex (\<lambda>idx. idx_fields idx = fs \<and> idx_unique idx) (m_indexes mo)"

definition core_ready :: "schema \<Rightarrow> bool" where
  "core_ready s \<longleftrightarrow>
     list_all (\<lambda>m. case map_of s m of
         None \<Rightarrow> False
       | Some mo \<Rightarrow> m_primary_key mo = ''id'' \<and> list_all (declares_unique mo) (core_unique m))
       core_models"

section \<open>Lemmas\<close>

text \<open>
  What a valid schema promises: every primary key is a required field of its model, every
  field has a supported type, every foreign key and every index names an existing field.
\<close>

definition field_ok :: "schema \<Rightarrow> field \<Rightarrow> bool" where
  "field_ok s f \<longleftrightarrow> data_type_valid (f_type f) \<and>
     (\<forall>r. f_references f = Some r \<longrightarrow>
        (\<exists>tm. map_of s (ref_model r) = Some tm \<and> map_of (m_fields tm) (ref_field r) \<noteq> None))"

definition model_ok :: "schema \<Rightarrow> model \<Rightarrow> bool" where
  "model_ok s m \<longleftrightarrow> m_primary_key m \<noteq> [] \<and>
     (\<exists>pk. map_of (m_fields m) (m_primary_key m) = Some pk \<and> f_required pk) \<and>
     (\<forall>nf \<in> set (m_fields m). field_ok s (snd nf)) \<and>
     (\<forall>idx \<in> set (m_indexes m). \<forall>fn \<in> set (idx_fields idx). map_of (m_fields m) fn \<noteq> None)"

definition schema_ok :: "schema \<Rightarrow> bool" where
  "schema_ok s \<longleftrightarrow> (\<forall>nm \<in> set s. model_ok s (snd nm))"

lemma first_error_None [simp]: "first_error f xs = None \<longleftrightarrow> (\<forall>x \<in> set xs. f x = None)"
  by (induction xs) (auto split: option.splits)

lemma case_option_None_iff:
  "(case x of None \<Rightarrow> y | Some e \<Rightarrow> Some e) = None \<longleftrightarrow> x = None \<and> y = None"
  by (cases x) auto

lemma case_option_Inr_iff:
  "(case x of None \<Rightarrow> Inr u | Some e \<Rightarrow> Inl e) = Inr u \<longleftrightarrow> x = None"
  by (cases x) auto

lemma check_field_None: "check_field s nf = None \<longleftrightarrow> field_ok s (snd nf)"
  by (auto simp: check_field_def field_ok_def Let_def split: option.splits)

lemma check_index_None:
  "check_index m idx = None \<longleftrightarrow> (\<forall>fn \<in> set (idx_fields idx). map_of (m_fields m) fn \<noteq> None)"
  by (auto simp: check_index_def)

lemma check_model_None: "check_model s nm = None \<longleftrightarrow> model_ok s (snd nm)"
  by (simp add: check_model_def model_ok_def Let_def case_option_None_iff check_field_None
      check_index_None split: option.split)

lemma validate_ok_iff: "validate s = Inr () \<longleftrightarrow> schema_ok s"
  by (simp add: validate_def schema_ok_def case_option_Inr_iff check_model_None)

lemma clone_model_id [simp]: "clone_model m = m"
  by (simp add: clone_model_def)

lemma add_field_Inr:
  "add_field m f = Inr m' \<longleftrightarrow>
     f_name f \<noteq> [] \<and> data_type_valid (f_type f) \<and> map_of (m_fields m) (f_name f) = None \<and>
     m' = m\<lparr>m_fields := m_fields m @ [(f_name f, f)]\<rparr>"
  by (auto simp: add_field_def)

text \<open>The stored models are keyed by their names, which are not empty, and have a primary key.\<close>

definition schema_keyed :: "schema \<Rightarrow> bool" where
  "schema_keyed s \<longleftrightarrow> distinct (map fst s) \<and>
     (\<forall>(n, m) \<in> set s. n = m_name m \<and> n \<noteq> [] \<and> m_primary_key m \<noteq> [] \<and> m_table_name m \<noteq> [])"

lemma add_model_keyed: "schema_keyed s \<Longrightarrow> add_model s mo = Inr s' \<Longrightarrow> schema_keyed s'"
  by (auto simp: add_model_def schema_keyed_def Let_def to_lower_def map_of_eq_None_iff
      split: option.splits if_splits)

lemma clone_into_app:
  "schema_keyed (acc @ s) \<Longrightarrow> clone_into acc (map snd s) = acc @ s"
proof (induction s arbitrary: acc)
  case (Cons nm s)
  obtain n m where nm: "nm = (n, m)" by (cases nm)
  with Cons.prems have "n = m_name m" "n \<noteq> []" "m_primary_key m \<noteq> []" "m_table_name m \<noteq> []"
    and "n \<notin> fst ` set acc"
    by (auto simp: schema_keyed_def)
  then have "add_model acc (Some (clone_model m)) = Inr (acc @ [(n, m)])"
    by (auto simp: add_model_def Let_def map_of_eq_None_iff)
  moreover have "schema_keyed ((acc @ [(n, m)]) @ s)" using Cons.prems nm by simp
  ultimately show ?case using Cons.IH nm by simp
qed simp

lemma clone_schema_id: "schema_keyed s \<Longrightarrow> clone_schema s = s"
  using clone_into_app [of "[]" s] by (simp add: clone_schema_def schema_new_def)

lemma map_of_append_Some: "map_of xs k = Some v \<Longrightarrow> map_of (xs @ ys) k = Some v"
  by (simp add: map_add_Some_iff)

lemma add_fields_keeps:
  "add_fields m fs = (r, m') \<Longrightarrow>
     m_name m' = m_name m \<and> m_table_name m' = m_table_name m \<and>
     m_primary_key m' = m_primary_key m \<and> m_indexes m' = m_indexes m \<and>
     (\<exists>xs. m_fields m' = m_fields m @ xs \<and> (\<forall>(n, f) \<in> set xs. f \<in> set fs \<and> data_type_valid (f_type f)))"
proof (induction fs arbitrary: m)
  case (Cons f fs)
  show ?case
  proof (cases "add_field m f")
    case (Inl e)
    with Cons.prems show ?thesis by auto
  next
    case (Inr m1)
    with Cons.prems have "add_fields m1 fs = (r, m')" by simp
    from Cons.IH [OF this] obtain xs where
      "m_fields m' = m_fields m1 @ xs" "\<forall>(n, f') \<in> set xs. f' \<in> set fs \<and> data_type_valid (f_type f')"
      "m_name m' = m_name m1" "m_table_name m' = m_table_name m1"
      "m_primary_key m' = m_primary_key m1" "m_indexes m' = m_indexes m1"
      by blast
    moreover from Inr have "m1 = m\<lparr>m_fields := m_fields m @ [(f_name f, f)]\<rparr>"
      "data_type_valid (f_type f)"
      by (auto simp: add_field_Inr)
    ultimately show ?thesis by (intro conjI exI [of _ "(f_name f, f) # xs"]) auto
  qed
qed simp

lemma map_of_update: "map_of (AList.update k v s) k' = (if k' = k then Some v else map_of s k')"
  by (simp add: update_conv')

text \<open>
  Extending a model never drops a field, so what resolved before still does; the new fields
  must resolve themselves, in the schema as it was or in the extended model.
\<close>

definition fields_grow :: "schema \<Rightarrow> schema \<Rightarrow> bool" where
  "fields_grow s s' \<longleftrightarrow> (\<forall>n m. map_of s n = Some m \<longrightarrow>
     (\<exists>m'. map_of s' n = Some m' \<and> dom (map_of (m_fields m)) \<subseteq> dom (map_of (m_fields m'))))"

lemma field_ok_mono: "field_ok s f \<Longrightarrow> fields_grow s s' \<Longrightarrow> field_ok s' f"
  unfolding field_ok_def fields_grow_def dom_def by blast

lemma set_update_cases: "x \<in> set (AList.update k v s) \<Longrightarrow> x = (k, v) \<or> x \<in> set s"
  by (induction s) (auto split: if_splits)

lemma extend_model_ok:
  assumes ok: "schema_ok s" and dist: "distinct (map fst s)"
    and fs: "\<And>f. f \<in> set flds \<Longrightarrow> data_type_valid (f_type f) \<Longrightarrow> field_ok s f"
    and run: "run_state (extend_model name flds) s = (r, s')"
  shows "schema_ok s'"
proof (cases "map_of s name")
  case None
  with run ok show ?thesis by (simp add: extend_model_def)
next
  case (Some m)
  obtain r' m' where af: "add_fields m flds = (r', m')" by (cases "add_fields m flds")
  with Some run have s': "s' = AList.update name m' s" by (simp add: extend_model_def)
  obtain xs where fld: "m_fields m' = m_fields m @ xs" "m_primary_key m' = m_primary_key m"
    "m_indexes m' = m_indexes m"
    and xs: "\<forall>(n, f) \<in> set xs. f \<in> set flds \<and> data_type_valid (f_type f)"
    using add_fields_keeps [OF af] by blast
  have grow: "fields_grow s s'"
    using Some fld(1) by (auto simp: fields_grow_def s' map_of_update)
  have okm: "model_ok s m1" if "(n, m1) \<in> set s" for n m1
    using ok that by (auto simp: schema_ok_def)
  have "model_ok s m" using okm map_of_SomeD [OF Some] by simp
  have new: "field_ok s' f" if "(n, f) \<in> set (m_fields m')" for n f
  proof (rule field_ok_mono [OF _ grow])
    from that fld(1) consider "(n, f) \<in> set (m_fields m)" | "(n, f) \<in> set xs" by auto
    then show "field_ok s f"
      using \<open>model_ok s m\<close> xs fs by cases (auto simp: model_ok_def)
  qed
  have "model_ok s' m'"
    using \<open>model_ok s m\<close> fld new unfolding model_ok_def by (fastforce simp: map_add_Some_iff)
  moreover have "model_ok s' m1" if "(n, m1) \<in> set s" for n m1
    using okm [OF that] grow unfolding model_ok_def by (blast intro: field_ok_mono)
  ultimately show ?thesis
    using set_update_cases [of _ name m' s] unfolding schema_ok_def s' by fastforce
qed

text \<open>The core schema, computed.\<close>

lemma default_core_schema_ready:
  "case default_core_schema of
     Inl e \<Rightarrow> False
   | Inr s \<Rightarrow> validate s = Inr () \<and> core_ready s \<and> map fst s = core_models"
  by code_simp

lemma core_ready_extend:
  assumes "core_ready s" "run_state (extend_model name flds) s = (r, s')"
  shows "core_ready s'"
proof (cases "map_of s name")
  case None
  with assms show ?thesis by (simp add: extend_model_def)
next
  case (Some m)
  obtain r' m' where af: "add_fields m flds = (r', m')" by (cases "add_fields m flds")
  with Some assms(2) have s': "s' = AList.update name m' s" by (simp add: extend_model_def)
  from add_fields_keeps [OF af] obtain xs where
    "m_fields m' = m_fields m @ xs" "m_primary_key m' = m_primary_key m" "m_indexes m' = m_indexes m"
    by blast
  then have "declares_unique m fs \<Longrightarrow> declares_unique m' fs" for fs
    by (auto simp: declares_unique_def)
  with assms(1) Some \<open>m_primary_key m' = m_primary_key m\<close> show ?thesis
    by (auto simp: core_ready_def s' map_of_update list_all_iff split: option.splits)
qed

end
