(* ===== verification/Adapter.thy ===== *)
theory Adapter
  imports Schema
begin

text \<open>
  The storage interface (\<open>adapter/adapter.go\<close>): conditions, queries and the operations of
  an \<open>Adapter\<close> as a record of functions over the adapter's own state \<open>'s\<close>, with the
  contract its clients rely on as the locale \<open>adapter_contract\<close>.
\<close>

section \<open>Conditions and queries\<close>

datatype operator =
    OpEq | OpNe | OpGt | OpGte | OpLt | OpLte | OpIn | OpLike | OpIsNull | OpIsNotNull

record condition =
  c_field :: string
  c_operator :: operator
  c_value :: gval

definition Eq :: "string \<Rightarrow> gval \<Rightarrow> condition" where
  "Eq f v = \<lparr>c_field = f, c_operator = OpEq, c_value = v\<rparr>"

definition Ne :: "string \<Rightarrow> gval \<Rightarrow> condition" where
  "Ne f v = \<lparr>c_field = f, c_operator = OpNe, c_value = v\<rparr>"

definition Gt :: "string \<Rightarrow> gval \<Rightarrow> condition" where
  "Gt f v = \<lparr>c_field = f, c_operator = OpGt, c_value = v\<rparr>"

definition Gte :: "string \<Rightarrow> gval \<Rightarrow> condition" where
  "Gte f v = \<lparr>c_field = f, c_operator = OpGte, c_value = v\<rparr>"

definition Lt :: "string \<Rightarrow> gval \<Rightarrow> condition" where
  "Lt f v = \<lparr>c_field = f, c_operator = OpLt, c_value = v\<rparr>"

definition Lte :: "string \<Rightarrow> gval \<Rightarrow> condition" where
  "Lte f v = \<lparr>c_field = f, c_operator = OpLte, c_value = v\<rparr>"

definition In :: "string \<Rightarrow> gval list \<Rightarrow> condition" where
  "In f vs = \<lparr>c_field = f, c_operator = OpIn, c_value = VList vs\<rparr>"

definition IsNull :: "string \<Rightarrow> condition" where
  "IsNull f = \<lparr>c_field = f, c_operator = OpIsNull, c_value = VNil\<rparr>"

definition IsNotNull :: "string \<Rightarrow> condition" where
  "IsNotNull f = \<lparr>c_field = f, c_operator = OpIsNotNull, c_value = VNil\<rparr>"

lemmas condition_defs = Eq_def Ne_def Gt_def Gte_def Lt_def Lte_def In_def IsNull_def IsNotNull_def

record query =
  q_model :: string
  q_where :: "condition list"
  q_limit :: int
  q_offset :: int
  q_sort_by :: string
  q_desc :: bool

text \<open>\<open>adapter.Query{Model: m, Where: w}\<close>.\<close>

definition query_where :: "string \<Rightarrow> condition list \<Rightarrow> query" where
  "query_where m w =
     \<lparr>q_model = m, q_where = w, q_limit = 0, q_offset = 0, q_sort_by = [], q_desc = False\<rparr>"

section \<open>The interface\<close>

text \<open>
  \<open>Transaction(ctx, fn)\<close> runs \<open>fn\<close> on the adapter itself and undoes its effect when it
  fails. What differs between adapters is the undo: \<open>ad_rollback s0 s1\<close> is the state after
  a transaction that began in \<open>s0\<close> and failed in \<open>s1\<close>.
\<close>

record 's adapter =
  ad_register_schema :: "schema \<Rightarrow> ('s, err + unit) state"
  ad_create :: "string \<Rightarrow> row \<Rightarrow> ('s, err + row) state"
  ad_find_one :: "string \<Rightarrow> condition list \<Rightarrow> ('s, err + row) state"
  ad_find_many :: "query \<Rightarrow> ('s, err + row list) state"
  ad_update :: "string \<Rightarrow> condition list \<Rightarrow> row \<Rightarrow> ('s, err + int) state"
  ad_delete :: "string \<Rightarrow> condition list \<Rightarrow> ('s, err + int) state"
  ad_count :: "string \<Rightarrow> condition list \<Rightarrow> ('s, err + int) state"
  ad_rollback :: "'s \<Rightarrow> 's \<Rightarrow> 's"

text \<open>
  The contract: \<open>tbl s m\<close> is the multiset of rows of model \<open>m\<close>, \<open>sat c r\<close> says that row
  \<open>r\<close> satisfies condition \<open>c\<close>, \<open>plain\<close> holds of the strings that are compared as
  strings, \<open>inv\<close> is the adapter's own invariant. The laws are about the core models; an
  insert keeps their unique tuples unique, and no caller changes an \<open>id\<close>. An operation may fail for reasons of its
  own (a broken connection), but then it changes nothing, and \<open>AdapterNotFound\<close> is only
  answered when no row matches.
\<close>

definition sats :: "(condition \<Rightarrow> row \<Rightarrow> bool) \<Rightarrow> condition list \<Rightarrow> row \<Rightarrow> bool" where
  "sats sat w r \<longleftrightarrow> (\<forall>c \<in> set w. sat c r)"

lemma sats_Nil [simp]: "sats sat [] r"
  by (simp add: sats_def)

lemma sats_Cons [simp]: "sats sat (c # w) r \<longleftrightarrow> sat c r \<and> sats sat w r"
  by (auto simp: sats_def)

text \<open>Two rows hold the same strings in all the fields.\<close>

definition same_strings :: "string list \<Rightarrow> row \<Rightarrow> row \<Rightarrow> bool" where
  "same_strings fs r1 r2 \<longleftrightarrow> (\<forall>f \<in> set fs. \<exists>a. r1 f = Some (VStr a) \<and> r2 f = Some (VStr a))"

locale adapter_contract =
  fixes ad :: "'s adapter"
    and inv :: "'s \<Rightarrow> bool"
    and tbl :: "'s \<Rightarrow> string \<Rightarrow> row multiset"
    and sat :: "condition \<Rightarrow> row \<Rightarrow> bool"
    and plain :: "string \<Rightarrow> bool"
  assumes create_Inr: "inv s \<Longrightarrow> m \<in> set core_models \<Longrightarrow> run_state (ad_create ad m d) s = (Inr r, s') \<Longrightarrow>
      inv s' \<and> r = d \<and> tbl s' = (tbl s)(m := add_mset d (tbl s m)) \<and>
      (\<forall>fs \<in> set (core_unique m). \<forall>r' \<in># tbl s m. \<not> same_strings fs r' d)"
    and create_Inl: "inv s \<Longrightarrow> m \<in> set core_models \<Longrightarrow> run_state (ad_create ad m d) s = (Inl e, s') \<Longrightarrow>
      inv s' \<and> tbl s' = tbl s"
    and find_one_Inr: "inv s \<Longrightarrow> run_state (ad_find_one ad m w) s = (Inr r, s') \<Longrightarrow>
      s' = s \<and> r \<in># tbl s m \<and> sats sat w r"
    and find_one_Inl: "inv s \<Longrightarrow> run_state (ad_find_one ad m w) s = (Inl e, s') \<Longrightarrow>
      s' = s \<and> (e = AdapterNotFound \<or> e = StoreNotFound \<longrightarrow> (\<forall>r \<in># tbl s m. \<not> sats sat w r))"
    and find_many_Inr: "inv s \<Longrightarrow> run_state (ad_find_many ad (query_where m w)) s = (Inr rs, s') \<Longrightarrow>
      s' = s \<and> mset rs = filter_mset (sats sat w) (tbl s m)"
    and find_many_Inl: "inv s \<Longrightarrow> run_state (ad_find_many ad q) s = (Inl e, s') \<Longrightarrow> s' = s"
    and update_Inr: "inv s \<Longrightarrow> m \<in> set core_models \<Longrightarrow> u ''id'' = None \<Longrightarrow> run_state (ad_update ad m w u) s = (Inr n, s') \<Longrightarrow>
      inv s' \<and> n = int (size (filter_mset (sats sat w) (tbl s m))) \<and>
      tbl s' = (tbl s)(m := image_mset (\<lambda>r. if sats sat w r then r ++ u else r) (tbl s m))"
    and update_Inl: "inv s \<Longrightarrow> run_state (ad_update ad m w u) s = (Inl e, s') \<Longrightarrow>
      inv s' \<and> tbl s' = tbl s"
    and delete_Inr: "inv s \<Longrightarrow> run_state (ad_delete ad m w) s = (Inr n, s') \<Longrightarrow>
      inv s' \<and> n = int (size (filter_mset (sats sat w) (tbl s m))) \<and>
      tbl s' = (tbl s)(m := filter_mset (\<lambda>r. \<not> sats sat w r) (tbl s m))"
    and delete_Inl: "inv s \<Longrightarrow> run_state (ad_delete ad m w) s = (Inl e, s') \<Longrightarrow>
      inv s' \<and> tbl s' = tbl s"
    and rollback: "inv s0 \<Longrightarrow> inv s1 \<Longrightarrow>
      inv (ad_rollback ad s0 s1) \<and> tbl (ad_rollback ad s0 s1) = tbl s0"
    and sat_eq: "r k = Some (VStr a) \<Longrightarrow> plain a \<or> plain b \<Longrightarrow> sat (Eq k (VStr b)) r \<longleftrightarrow> a = b"
    and sat_eq_refl: "r k = Some (VStr a) \<Longrightarrow> sat (Eq k (VStr a)) r"
    and sat_null: "sat (IsNull k) r \<longleftrightarrow> r k \<in> {None, Some VNil, Some (VTimePtr None)}"
    and sat_lt: "r k = Some (VTime t) \<Longrightarrow> sat (Lt k (VTime t0)) r \<longleftrightarrow> t < t0"
begin

text \<open>Reads do not change the state.\<close>

lemma find_one_state: "inv s \<Longrightarrow> run_state (ad_find_one ad m w) s = (r, s') \<Longrightarrow> s' = s"
  using find_one_Inr find_one_Inl by (cases r) blast+

lemma find_many_state:
  "inv s \<Longrightarrow> run_state (ad_find_many ad (query_where m w)) s = (r, s') \<Longrightarrow> s' = s"
  using find_many_Inr find_many_Inl by (cases r) blast+

text \<open>A row that satisfies the conditions is never reported missing.\<close>

lemma find_one_total:
  "inv s \<Longrightarrow> r \<in># tbl s m \<Longrightarrow> sats sat w r \<Longrightarrow>
   run_state (ad_find_one ad m w) s \<noteq> (Inl AdapterNotFound, s')"
  using find_one_Inl by blast

text \<open>An update or deletion that reports no row has changed none.\<close>

lemma none_sat: "size (filter_mset P M) = 0 \<longleftrightarrow> (\<forall>x \<in># M. \<not> P x)"
  by (auto simp: filter_mset_eq_conv)

lemma update_zero:
  assumes "inv s" "m \<in> set core_models" "u ''id'' = None" "run_state (ad_update ad m w u) s = (Inr 0, s')"
  shows "tbl s' = tbl s" and "\<forall>r \<in># tbl s m. \<not> sats sat w r"
proof -
  from update_Inr [OF assms] show no: "\<forall>r \<in># tbl s m. \<not> sats sat w r"
    by (simp add: none_sat)
  then have "image_mset (\<lambda>r. if sats sat w r then r ++ u else r) (tbl s m) = image_mset id (tbl s m)"
    by (intro image_mset_cong) simp
  with update_Inr [OF assms] show "tbl s' = tbl s" by simp
qed

end

end
