(* ===== verification/Memory_Adapter.thy ===== *)
theory Memory_Adapter
  imports Adapter
begin

text \<open>
  The in-memory adapter (\<open>adapter/memory/memory.go\<close>): tables of rows keyed by the printed
  primary key, the comparison of dynamically typed values, and the CRUD operations.

  A table is an association list with distinct keys. Where the code ranges over a table,
  the runtime picks the order: \<open>map_order\<close> of the runtime parameter gives, for the keys of a
  table, the positions in the order in which they are visited.
  The mutexes make every operation one atomic step.
\<close>

section \<open>The runtime the code relies on\<close>

text \<open>
  Functions of Go's runtime and standard library that the model keeps as parameters: the
  iteration order of maps, \<open>time.Parse\<close> with the two layouts, \<open>Time.String\<close>,
  \<open>sha256.Sum256\<close>, \<open>mail.ParseAddress\<close> (name and address), the \<open>%v\<close> format of a \<open>float64\<close>, and
  \<open>Time.MarshalJSON\<close> and \<open>Time.UnmarshalJSON\<close> on the text between the quotes. What the documentation
  says of the first three is built into how they are used: an iteration visits every entry
  once (\<open>iterate\<close> is a permutation whatever the parameter is, and every permutation is
  reached), and only a text of the characters of RFC 3339 with a colon in it is a time.
\<close>

record runtime =
  map_order :: "string list \<Rightarrow> nat list"
  rfc3339nano :: "string \<Rightarrow> time option"
  rfc3339 :: "string \<Rightarrow> time option"
  show_time :: "time \<Rightarrow> string"
  sha256 :: "string \<Rightarrow> byte list"
  parse_address :: "string \<Rightarrow> (string \<times> string) option"
  show_float :: "int \<Rightarrow> int \<Rightarrow> string"
  format_time :: "time \<Rightarrow> string"
  read_time :: "string \<Rightarrow> time option"

definition iterate :: "runtime \<Rightarrow> (string \<times> row) list \<Rightarrow> (string \<times> row) list" where
  "iterate rt xs =
     (let p = map_order rt (map fst xs) in
      if mset p = mset [0..<length xs] then map ((!) xs) p else xs)"

lemma mset_iterate [simp]: "mset (iterate rt xs) = mset xs"
proof -
  have "mset (map ((!) xs) p) = mset xs" if "mset p = mset [0..<length xs]" for p
    using that by (metis map_nth mset_map)
  then show ?thesis by (simp add: iterate_def Let_def)
qed

lemma set_iterate [simp]: "set (iterate rt xs) = set xs"
  using mset_eq_setD [OF mset_iterate] .

definition rfc3339_shape :: "string \<Rightarrow> bool" where
  "rfc3339_shape s \<longleftrightarrow> CHR '':'' \<in> set s \<and> set s \<subseteq> set ''0123456789-+T:.,Z''"

definition parse_layout :: "(string \<Rightarrow> time option) \<Rightarrow> string \<Rightarrow> time option" where
  "parse_layout p s = (if rfc3339_shape s then p s else None)"

section \<open>Comparing values\<close>

fun is_nil :: "gval \<Rightarrow> bool" where
  "is_nil VNil = True"
| "is_nil (VTimePtr None) = True"
| "is_nil _ = False"

fun parse_time :: "runtime \<Rightarrow> gval \<Rightarrow> time option" where
  "parse_time rt (VTime t) = Some t"
| "parse_time rt (VStr s) =
     (case parse_layout (rfc3339nano rt) s of
        Some t \<Rightarrow> Some t
      | None \<Rightarrow> parse_layout (rfc3339 rt) s)"
| "parse_time rt _ = None"

text \<open>\<open>float64(n)\<close> of an integer: round to 53 bits, ties to even. The result is an integer.\<close>

fun bit_length :: "nat \<Rightarrow> nat" where
  "bit_length n = (if n = 0 then 0 else Suc (bit_length (n div 2)))"

declare bit_length.simps [simp del]

definition round_shift :: "nat \<Rightarrow> nat \<Rightarrow> nat" where
  "round_shift k n =
     (let q = n div 2 ^ k; r = n mod 2 ^ k; h = 2 ^ (k - 1) in
      (if r > h \<or> r = h \<and> odd q then q + 1 else q) * 2 ^ k)"

definition f64_of_int :: "int \<Rightarrow> int" where
  "f64_of_int n =
     (let a = nat \<bar>n\<bar>; k = bit_length a - 53 in
      if k = 0 then n else sgn n * int (round_shift k a))"

text \<open>A number as numerator and denominator, and the comparisons of two numbers.\<close>

fun parse_number :: "gval \<Rightarrow> (int \<times> int) option" where
  "parse_number (VInt n) = Some (f64_of_int n, 1)"
| "parse_number (VFloat p q) = Some (p, q)"
| "parse_number _ = None"

definition num_eq :: "int \<times> int \<Rightarrow> int \<times> int \<Rightarrow> bool" where
  "num_eq x y \<longleftrightarrow> fst x * snd y = fst y * snd x"

definition num_less :: "int \<times> int \<Rightarrow> int \<times> int \<Rightarrow> bool" where
  "num_less x y \<longleftrightarrow> fst x * snd y < fst y * snd x"

text \<open>Go compares strings byte by byte.\<close>

fun str_less :: "string \<Rightarrow> string \<Rightarrow> bool" where
  "str_less xs [] = False"
| "str_less [] (y # ys) = True"
| "str_less (x # xs) (y # ys) =
     ((of_char x :: nat) < of_char y \<or> x = y \<and> str_less xs ys)"

fun insert_by :: "('a \<Rightarrow> 'a \<Rightarrow> bool) \<Rightarrow> 'a \<Rightarrow> 'a list \<Rightarrow> 'a list" where
  "insert_by lt x [] = [x]"
| "insert_by lt x (y # ys) = (if lt y x then y # insert_by lt x ys else x # y # ys)"

definition sort_rows :: "('a \<Rightarrow> 'a \<Rightarrow> bool) \<Rightarrow> 'a list \<Rightarrow> 'a list" where
  "sort_rows lt xs = foldr (insert_by lt) xs []"

text \<open>\<open>fmt.Sprintf("%v", v)\<close>.\<close>

fun sprint :: "runtime \<Rightarrow> gval \<Rightarrow> string" where
  "sprint rt VNil = ''<nil>''"
| "sprint rt (VFloat p q) = show_float rt p q"
| "sprint rt (VMap kvs) = ''map['' @ join_with (CHR '' '')
     (map snd (sort_rows (\<lambda>x y. str_less (fst x) (fst y))
       (map (\<lambda>kv. (fst kv, fst kv @ '':'' @ sprint rt (snd kv))) kvs))) @ '']''"
| "sprint rt (VStr s) = s"
| "sprint rt (VBool b) = (if b then ''true'' else ''false'')"
| "sprint rt (VInt n) = show_int n"
| "sprint rt (VTime t) = show_time rt t"
| "sprint rt (VTimePtr p) = (case p of None \<Rightarrow> ''<nil>'' | Some t \<Rightarrow> show_time rt t)"
| "sprint rt (VBytes bs) =
     ''['' @ join_with (CHR '' '') (map (\<lambda>b. show_nat (unat b)) bs) @ '']''"
| "sprint rt (VList vs) = ''['' @ join_with (CHR '' '') (map (sprint rt) vs) @ '']''"

definition bytes_match_string :: "byte list \<Rightarrow> string \<Rightarrow> bool" where
  "bytes_match_string b s \<longleftrightarrow> string_of_bytes b = s \<or> b64_std b = s \<or> b64_rawurl b = s"

definition match_scalar :: "runtime \<Rightarrow> gval \<Rightarrow> gval \<Rightarrow> bool" where
  "match_scalar rt v1 v2 =
     (case (parse_time rt v1, parse_time rt v2) of
        (Some t1, Some t2) \<Rightarrow> t1 = t2
      | _ \<Rightarrow>
        (case (parse_number v1, parse_number v2) of
           (Some n1, Some n2) \<Rightarrow> num_eq n1 n2
         | _ \<Rightarrow> sprint rt v1 = sprint rt v2))"

definition match_equal :: "runtime \<Rightarrow> gval \<Rightarrow> gval \<Rightarrow> bool" where
  "match_equal rt v1 v2 =
     (if is_nil v1 \<and> is_nil v2 then True
      else if is_nil v1 \<or> is_nil v2 then False
      else case (v1, v2) of
        (VBytes b1, VBytes b2) \<Rightarrow> b1 = b2
      | (VBytes b1, VStr s2) \<Rightarrow> bytes_match_string b1 s2
      | (VStr s1, VBytes b2) \<Rightarrow> bytes_match_string b2 s1
      | _ \<Rightarrow> match_scalar rt v1 v2)"

definition match_less :: "runtime \<Rightarrow> gval \<Rightarrow> gval \<Rightarrow> bool" where
  "match_less rt v1 v2 =
     (case (parse_time rt v1, parse_time rt v2) of
        (Some t1, Some t2) \<Rightarrow> t1 < t2
      | _ \<Rightarrow>
        (case (parse_number v1, parse_number v2) of
           (Some n1, Some n2) \<Rightarrow> num_less n1 n2
         | _ \<Rightarrow> str_less (sprint rt v1) (sprint rt v2)))"

definition match_greater :: "runtime \<Rightarrow> gval \<Rightarrow> gval \<Rightarrow> bool" where
  "match_greater rt v1 v2 =
     (case (parse_time rt v1, parse_time rt v2) of
        (Some t1, Some t2) \<Rightarrow> t1 > t2
      | _ \<Rightarrow>
        (case (parse_number v1, parse_number v2) of
           (Some n1, Some n2) \<Rightarrow> num_less n2 n1
         | _ \<Rightarrow> str_less (sprint rt v2) (sprint rt v1)))"

text \<open>A missing key of a Go map reads as nil.\<close>

definition row_get :: "row \<Rightarrow> string \<Rightarrow> gval" where
  "row_get r k = (case r k of None \<Rightarrow> VNil | Some v \<Rightarrow> v)"

definition match_condition :: "runtime \<Rightarrow> condition \<Rightarrow> row \<Rightarrow> bool" where
  "match_condition rt c r =
     (let ex = (r (c_field c) \<noteq> None); val = row_get r (c_field c); cv = c_value c in
      case c_operator c of
        OpEq \<Rightarrow> \<not> (\<not> ex \<or> \<not> match_equal rt val cv)
      | OpNe \<Rightarrow> \<not> (ex \<and> match_equal rt val cv)
      | OpIsNull \<Rightarrow> \<not> (ex \<and> \<not> is_nil val)
      | OpIsNotNull \<Rightarrow> \<not> (\<not> ex \<or> is_nil val)
      | OpLt \<Rightarrow> \<not> (\<not> ex \<or> \<not> match_less rt val cv)
      | OpLte \<Rightarrow> \<not> (\<not> ex \<or> \<not> match_less rt val cv \<and> \<not> match_equal rt val cv)
      | OpGt \<Rightarrow> \<not> (\<not> ex \<or> \<not> match_greater rt val cv)
      | OpGte \<Rightarrow> \<not> (\<not> ex \<or> \<not> match_greater rt val cv \<and> \<not> match_equal rt val cv)
      | OpIn \<Rightarrow> (case cv of VList vs \<Rightarrow> list_ex (match_equal rt val) vs | _ \<Rightarrow> False)
      | OpLike \<Rightarrow> sprint rt val = sprint rt cv)"

definition match_conditions :: "runtime \<Rightarrow> condition list \<Rightarrow> row \<Rightarrow> bool" where
  "match_conditions rt w r = list_all (\<lambda>c. match_condition rt c r) w"

section \<open>The adapter\<close>

type_synonym table = "(string \<times> row) list"

record mem =
  mem_schema :: "schema option"
  mem_tables :: "string \<rightharpoonup> table"

definition mem_new :: mem where
  "mem_new = \<lparr>mem_schema = None, mem_tables = Map.empty\<rparr>"

definition ensure_table :: "string \<Rightarrow> (string \<rightharpoonup> table) \<Rightarrow> (string \<rightharpoonup> table)" where
  "ensure_table m ts = (if ts m = None then ts(m \<mapsto> []) else ts)"

text \<open>\<open>s\<close> is a pointer; the callers pass a schema, never nil.\<close>

definition mem_register_schema :: "schema \<Rightarrow> (mem, err + unit) state" where
  "mem_register_schema s = State (\<lambda>a.
     case validate s of
       Inl e \<Rightarrow> (Inl e, a)
     | Inr _ \<Rightarrow>
         let sc = clone_schema s in
         (Inr (), a\<lparr>mem_schema := Some sc,
                    mem_tables := fold ensure_table (map fst (schema_models sc)) (mem_tables a)\<rparr>))"

definition fallback_model :: "string \<Rightarrow> model" where
  "fallback_model name =
     \<lparr>m_name = name, m_table_name = [], m_primary_key = ''id'', m_fields = [], m_indexes = []\<rparr>"

definition mem_get_model :: "mem \<Rightarrow> string \<Rightarrow> model option" where
  "mem_get_model a name =
     (case mem_schema a of None \<Rightarrow> Some (fallback_model name) | Some s \<Rightarrow> get_model s name)"

definition field_conflict :: "runtime \<Rightarrow> table \<Rightarrow> row \<Rightarrow> string \<times> field \<Rightarrow> bool" where
  "field_conflict rt t d nf =
     (f_unique (snd nf) \<and>
      (case d (fst nf) of
         None \<Rightarrow> False
       | Some v \<Rightarrow> v \<noteq> VNil \<and>
           list_ex (\<lambda>(pk, r). case r (fst nf) of None \<Rightarrow> False | Some ev \<Rightarrow> match_equal rt ev v) t))"

definition index_conflict :: "runtime \<Rightarrow> table \<Rightarrow> row \<Rightarrow> index \<Rightarrow> bool" where
  "index_conflict rt t d idx =
     (idx_unique idx \<and>
      list_ex (\<lambda>(pk, r). list_all (\<lambda>f.
         case (d f, r f) of (Some v1, Some v2) \<Rightarrow> match_equal rt v1 v2 | _ \<Rightarrow> False)
         (idx_fields idx)) t)"

definition table_of :: "mem \<Rightarrow> string \<Rightarrow> table" where
  "table_of a m = (case mem_tables a m of None \<Rightarrow> [] | Some t \<Rightarrow> t)"

definition mem_create :: "runtime \<Rightarrow> string \<Rightarrow> row \<Rightarrow> (mem, err + row) state" where
  "mem_create rt m d = State (\<lambda>a.
     case mem_get_model a m of
       None \<Rightarrow> (Inl SchemaModelNotFound, a)
     | Some mo \<Rightarrow>
         let pkv = row_get d (m_primary_key mo) in
         if d (m_primary_key mo) = None \<or> pkv = VNil \<or> sprint rt pkv = [] then (Inl AdapterConflict, a)
         else
           let pk = sprint rt pkv;
               a1 = a\<lparr>mem_tables := ensure_table m (mem_tables a)\<rparr>;
               t = table_of a m in
           if map_of t pk \<noteq> None then (Inl AdapterConflict, a1)
           else if list_ex (field_conflict rt t d) (m_fields mo) then (Inl AdapterConflict, a1)
           else if list_ex (index_conflict rt t d) (m_indexes mo) then (Inl AdapterConflict, a1)
           else (Inr d, a1\<lparr>mem_tables := (mem_tables a1)(m \<mapsto> t @ [(pk, d)])\<rparr>))"

definition mem_find_one :: "runtime \<Rightarrow> string \<Rightarrow> condition list \<Rightarrow> (mem, err + row) state" where
  "mem_find_one rt m w = State (\<lambda>a.
     case mem_tables a m of
       None \<Rightarrow> (Inl AdapterNotFound, a)
     | Some t \<Rightarrow>
         (case List.find (match_conditions rt w) (map snd (iterate rt t)) of
            Some r \<Rightarrow> (Inr r, a)
          | None \<Rightarrow> (Inl AdapterNotFound, a)))"

text \<open>
  \<open>slices.SortFunc\<close> leaves the order of equal keys open; a stable sort of an arbitrary
  permutation covers every order it may give.
\<close>

definition sort_before :: "runtime \<Rightarrow> query \<Rightarrow> row \<Rightarrow> row \<Rightarrow> bool" where
  "sort_before rt q r1 r2 =
     (let k1 = sprint rt (row_get r1 (q_sort_by q)); k2 = sprint rt (row_get r2 (q_sort_by q)) in
      if q_desc q then str_less k2 k1 else str_less k1 k2)"

definition mem_find_many :: "runtime \<Rightarrow> query \<Rightarrow> (mem, err + row list) state" where
  "mem_find_many rt q = State (\<lambda>a.
     case mem_tables a (q_model q) of
       None \<Rightarrow> (Inr [], a)
     | Some t \<Rightarrow>
         let results = filter (match_conditions rt (q_where q)) (map snd (iterate rt t));
             sorted = (if q_sort_by q \<noteq> [] then sort_rows (sort_before rt q) results else results) in
         if 0 < q_offset q \<and> int (length sorted) \<le> q_offset q then (Inr [], a)
         else
           let rest = (if 0 < q_offset q then drop (nat (q_offset q)) sorted else sorted) in
           (Inr (if 0 < q_limit q \<and> q_limit q < int (length rest)
                 then take (nat (q_limit q)) rest else rest), a))"

definition mem_update :: "runtime \<Rightarrow> string \<Rightarrow> condition list \<Rightarrow> row \<Rightarrow> (mem, err + int) state" where
  "mem_update rt m w u = State (\<lambda>a.
     case mem_tables a m of
       None \<Rightarrow> (Inr 0, a)
     | Some t \<Rightarrow>
         (Inr (int (length (filter (\<lambda>(pk, r). match_conditions rt w r) t))),
          a\<lparr>mem_tables := (mem_tables a)(m \<mapsto>
             map (\<lambda>(pk, r). (pk, if match_conditions rt w r then r ++ u else r)) t)\<rparr>))"

definition mem_delete :: "runtime \<Rightarrow> string \<Rightarrow> condition list \<Rightarrow> (mem, err + int) state" where
  "mem_delete rt m w = State (\<lambda>a.
     case mem_tables a m of
       None \<Rightarrow> (Inr 0, a)
     | Some t \<Rightarrow>
         let to_delete = map fst (filter (\<lambda>(pk, r). match_conditions rt w r) (iterate rt t)) in
         (Inr (int (length to_delete)),
          a\<lparr>mem_tables := (mem_tables a)(m \<mapsto> filter (\<lambda>(pk, r). pk \<notin> set to_delete) t)\<rparr>))"

definition mem_count :: "runtime \<Rightarrow> string \<Rightarrow> condition list \<Rightarrow> (mem, err + int) state" where
  "mem_count rt m w = State (\<lambda>a.
     case mem_tables a m of
       None \<Rightarrow> (Inr 0, a)
     | Some t \<Rightarrow> (Inr (int (length (filter (\<lambda>(pk, r). match_conditions rt w r) t))), a))"

text \<open>
  \<open>cloneTables\<close> copies tables and rows, which in a model without aliasing is the identity;
  a failed transaction puts the copy back and keeps the schema.
\<close>

definition clone_tables :: "mem \<Rightarrow> (string \<rightharpoonup> table)" where
  "clone_tables a = mem_tables a"

definition mem_rollback :: "mem \<Rightarrow> mem \<Rightarrow> mem" where
  "mem_rollback a0 a1 = a1\<lparr>mem_tables := clone_tables a0\<rparr>"

definition memory_adapter :: "runtime \<Rightarrow> mem adapter" where
  "memory_adapter rt =
     \<lparr>ad_register_schema = mem_register_schema,
      ad_create = mem_create rt, ad_find_one = mem_find_one rt, ad_find_many = mem_find_many rt,
      ad_update = mem_update rt, ad_delete = mem_delete rt, ad_count = mem_count rt,
      ad_rollback = mem_rollback\<rparr>"

section \<open>Lemmas\<close>

definition plain_string :: "string \<Rightarrow> bool" where
  "plain_string s \<longleftrightarrow> \<not> rfc3339_shape s"

declare parse_time.simps(2) [simp del]

lemma plain_no_colon: "CHR '':'' \<notin> set s \<Longrightarrow> plain_string s"
  by (simp add: plain_string_def rfc3339_shape_def)

lemma parse_time_plain [simp]: "plain_string s \<Longrightarrow> parse_time rt (VStr s) = None"
  by (simp add: plain_string_def parse_layout_def parse_time.simps(2))

lemma match_equal_str:
  "plain_string a \<or> plain_string b \<Longrightarrow> match_equal rt (VStr a) (VStr b) \<longleftrightarrow> a = b"
  by (auto simp: match_equal_def match_scalar_def split: option.split)

lemma match_equal_refl: "match_equal rt (VStr a) (VStr a)"
  by (auto simp: match_equal_def match_scalar_def split: option.split)

lemma match_conditions_sats: "match_conditions rt w r = sats (match_condition rt) w r"
  by (simp add: match_conditions_def sats_def list_all_iff)

lemma is_nil_iff: "is_nil v \<longleftrightarrow> v = VNil \<or> v = VTimePtr None"
  by (cases v rule: is_nil.cases) auto

text \<open>
  The adapter's invariant: the rows of a table have distinct keys, as in a Go map, the
  registered schema has what the core needs, and in the core models the key of a row is its
  printed \<open>id\<close>.
\<close>

definition keyed_by_id :: "runtime \<Rightarrow> string \<times> row \<Rightarrow> bool" where
  "keyed_by_id rt kr \<longleftrightarrow> (\<exists>v. snd kr ''id'' = Some v \<and> sprint rt v = fst kr)"

definition mem_inv :: "runtime \<Rightarrow> mem \<Rightarrow> bool" where
  "mem_inv rt a \<longleftrightarrow>
     (\<forall>m. distinct (map fst (table_of a m))) \<and>
     (\<exists>s. mem_schema a = Some s \<and> core_ready s) \<and>
     (\<forall>m \<in> set core_models. \<forall>kr \<in> set (table_of a m). keyed_by_id rt kr)"

lemma core_ready_model:
  assumes "core_ready s" "m \<in> set core_models"
  obtains mo where "map_of s m = Some mo" "m_primary_key mo = ''id''"
    "\<And>fs. fs \<in> set (core_unique m) \<Longrightarrow> declares_unique mo fs"
  using assms by (fastforce simp: core_ready_def list_all_iff split: option.splits)

definition rows_of :: "table \<Rightarrow> row multiset" where
  "rows_of t = image_mset snd (mset t)"

definition mem_tbl :: "mem \<Rightarrow> string \<Rightarrow> row multiset" where
  "mem_tbl a m = rows_of (table_of a m)"

lemma mset_rows: "mset (filter P (map snd (iterate rt t))) = filter_mset P (rows_of t)"
  by (simp add: rows_of_def)

lemma rows_of_snoc: "rows_of (t @ [(pk, d)]) = add_mset d (rows_of t)"
  by (simp add: rows_of_def)

lemma set_rows_of: "set_mset (rows_of t) = snd ` set t"
  by (simp add: rows_of_def)

lemma rows_of_Nil [simp]: "rows_of [] = {#}"
  by (simp add: rows_of_def)

lemma table_of_ensure: "table_of (a\<lparr>mem_tables := ensure_table m ts\<rparr>) = table_of (a\<lparr>mem_tables := ts\<rparr>)"
  by (auto simp: table_of_def ensure_table_def fun_eq_iff)

lemma table_of_upd:
  "table_of (a\<lparr>mem_tables := ts(m \<mapsto> t)\<rparr>) = (table_of (a\<lparr>mem_tables := ts\<rparr>))(m := t)"
  by (auto simp: table_of_def fun_eq_iff)

lemma mem_tables_self [simp]: "a\<lparr>mem_tables := mem_tables a\<rparr> = a"
  by simp

lemma length_filter_rows:
  "length (filter (\<lambda>(pk, r). P r) t) = size (filter_mset P (rows_of t))"
  unfolding rows_of_def by (induction t) auto

lemma find_Some_mem: "List.find P xs = Some x \<Longrightarrow> x \<in> set xs \<and> P x"
  by (induction xs) (auto split: if_splits)

lemma rows_of_upd: "rows_of (map (\<lambda>(pk, r). (pk, f r)) t) = image_mset f (rows_of t)"
  unfolding rows_of_def by (induction t) auto

lemma map_fst_rows_upd: "map fst (map (\<lambda>(pk, r). (pk, f r)) t) = map fst t"
  by (induction t) auto

lemma filter_keys:
  assumes "distinct (map fst t)"
  shows "filter (\<lambda>(pk, r). pk \<notin> fst ` {x \<in> set t. P (snd x)}) t = filter (\<lambda>(pk, r). \<not> P r) t"
proof (rule filter_cong [OF refl])
  fix x assume x: "x \<in> set t"
  obtain pk r where pr: "x = (pk, r)" by (cases x)
  have "pk \<in> fst ` {x \<in> set t. P (snd x)} \<longleftrightarrow> P r"
  proof
    assume "pk \<in> fst ` {x \<in> set t. P (snd x)}"
    then obtain r' where "(pk, r') \<in> set t" "P r'" by auto
    with eq_key_imp_eq_value [OF assms] x pr show "P r" by blast
  next
    assume "P r"
    with x pr show "pk \<in> fst ` {x \<in> set t. P (snd x)}" by (auto intro!: image_eqI [of _ _ x])
  qed
  with pr show "(case x of (pk, r) \<Rightarrow> pk \<notin> fst ` {x \<in> set t. P (snd x)}) =
    (case x of (pk, r) \<Rightarrow> \<not> P r)"
    by simp
qed

lemma filter_rows:
  "rows_of (filter (\<lambda>(pk, r). P r) t) = filter_mset P (rows_of t)"
  unfolding rows_of_def by (induction t) auto

lemma insert_by_mset: "mset (insert_by lt x ys) = add_mset x (mset ys)"
  by (induction ys) auto

lemma sort_rows_mset [simp]: "mset (sort_rows lt xs) = mset xs"
  unfolding sort_rows_def by (induction xs) (auto simp: insert_by_mset)

text \<open>A clash with a stored row on a unique tuple is found by one of the three checks.\<close>

lemma unique_clash:
  assumes pk: "m_primary_key mo = ''id''" and du: "declares_unique mo fs"
    and keyed: "\<forall>kr \<in> set (table_of a m). keyed_by_id rt kr"
    and r': "r' \<in># mem_tbl a m" and same: "same_strings fs r' d"
  shows "map_of (table_of a m) (sprint rt (row_get d (m_primary_key mo))) \<noteq> None \<or>
    list_ex (field_conflict rt (table_of a m) d) (m_fields mo) \<or>
    list_ex (index_conflict rt (table_of a m) d) (m_indexes mo)"
proof -
  from r' obtain k where k: "(k, r') \<in> set (table_of a m)"
    by (auto simp: mem_tbl_def set_rows_of)
  with keyed have key: "keyed_by_id rt (k, r')" by auto
  from du consider "fs = [''id'']" | n f where "(n, f) \<in> set (m_fields mo)" "fs = [n]" "f_unique f"
    | idx where "idx \<in> set (m_indexes mo)" "idx_fields idx = fs" "idx_unique idx"
    by (auto simp: declares_unique_def list_ex_iff pk)
  then show ?thesis
  proof cases
    case 1
    with same key obtain i where "d ''id'' = Some (VStr i)" "k = i"
      by (auto simp: same_strings_def keyed_by_id_def)
    with k pk have "map_of (table_of a m) (sprint rt (row_get d (m_primary_key mo))) \<noteq> None"
      by (auto simp: row_get_def map_of_eq_None_iff intro!: image_eqI [of _ fst])
    then show ?thesis by blast
  next
    case (2 n f)
    with same obtain x where "d n = Some (VStr x)" "r' n = Some (VStr x)"
      by (auto simp: same_strings_def)
    with k 2 have "field_conflict rt (table_of a m) d (n, f)"
      by (auto simp: field_conflict_def list_ex_iff match_equal_refl intro!: bexI [of _ "(k, r')"])
    with 2 show ?thesis by (auto simp: list_ex_iff)
  next
    case (3 idx)
    have "case (d f, r' f) of (Some v1, Some v2) \<Rightarrow> match_equal rt v1 v2 | _ \<Rightarrow> False"
      if f: "f \<in> set (idx_fields idx)" for f
    proof -
      from same 3 f obtain x where "r' f = Some (VStr x)" "d f = Some (VStr x)"
        by (auto simp: same_strings_def)
      then show ?thesis by (simp add: match_equal_refl)
    qed
    then have "list_all (\<lambda>f. case (d f, r' f) of (Some v1, Some v2) \<Rightarrow> match_equal rt v1 v2 | _ \<Rightarrow> False)
        (idx_fields idx)"
      by (simp only: list_all_iff) blast
    with k 3 have "index_conflict rt (table_of a m) d idx"
      by (auto simp: index_conflict_def list_ex_iff intro!: bexI [of _ "(k, r')"])
    with 3 show ?thesis by (auto simp: list_ex_iff)
  qed
qed

text \<open>
  What the adapter's state has to satisfy for one model \<open>m\<close> with the unique tuples \<open>uq\<close>, of the core
  or of a plugin, and what the operations on the model do to the tables.
\<close>

definition model_inv :: "runtime \<Rightarrow> string \<Rightarrow> string list list \<Rightarrow> mem \<Rightarrow> bool" where
  "model_inv rt m uq a \<longleftrightarrow>
     distinct (map fst (table_of a m)) \<and>
     (\<exists>s mo. mem_schema a = Some s \<and> map_of s m = Some mo \<and> m_primary_key mo = ''id'' \<and>
       list_all (declares_unique mo) uq) \<and>
     (\<forall>kr \<in> set (table_of a m). keyed_by_id rt kr)"

lemma mem_inv_model: "mem_inv rt a \<Longrightarrow> m \<in> set core_models \<Longrightarrow> model_inv rt m (core_unique m) a"
  by (auto simp: mem_inv_def model_inv_def core_ready_def list_all_iff split: option.splits)

lemma mem_create_run:
  assumes inv: "model_inv rt m uq a" and run: "run_state (mem_create rt m d) a = (Inr r, a')"
  obtains k where "r = d" "keyed_by_id rt (k, d)" "k \<notin> fst ` set (table_of a m)"
    "table_of a' = (table_of a)(m := table_of a m @ [(k, d)])" "mem_schema a' = mem_schema a"
    "\<forall>fs \<in> set uq. \<forall>r' \<in># mem_tbl a m. \<not> same_strings fs r' d"
proof -
  from run obtain mo where mo: "mem_get_model a m = Some mo" and r: "r = d"
    and dpk: "d (m_primary_key mo) \<noteq> None"
    and new: "map_of (table_of a m) (sprint rt (row_get d (m_primary_key mo))) = None"
    and nf: "\<not> list_ex (field_conflict rt (table_of a m) d) (m_fields mo)"
    and ni: "\<not> list_ex (index_conflict rt (table_of a m) d) (m_indexes mo)"
    and a': "a' = a\<lparr>mem_tables := (ensure_table m (mem_tables a))(m \<mapsto>
      table_of a m @ [(sprint rt (row_get d (m_primary_key mo)), d)])\<rparr>"
    by (auto simp: mem_create_def Let_def split: option.splits if_splits)
  have tb: "table_of a' = (table_of a)(m := table_of a m @ [(sprint rt (row_get d (m_primary_key mo)), d)])"
    unfolding a' table_of_upd table_of_ensure by simp
  from inv mo have pk: "m_primary_key mo = ''id''" and du: "list_all (declares_unique mo) uq"
    and keyed: "\<forall>kr \<in> set (table_of a m). keyed_by_id rt kr"
    by (auto simp: model_inv_def mem_get_model_def get_model_def)
  from dpk pk have "keyed_by_id rt (sprint rt (row_get d (m_primary_key mo)), d)"
    by (auto simp: keyed_by_id_def row_get_def)
  moreover have "\<forall>fs \<in> set uq. \<forall>r' \<in># mem_tbl a m. \<not> same_strings fs r' d"
    using unique_clash [OF pk _ keyed, of _ _ d] du new nf ni unfolding list_all_iff by blast
  ultimately show thesis
    using that r tb new a' by (simp add: map_of_eq_None_iff)
qed

lemma mem_create_model:
  assumes "model_inv rt m uq a" "run_state (mem_create rt m d) a = (Inr r, a')"
  shows "model_inv rt m uq a' \<and> r = d \<and> mem_tbl a' = (mem_tbl a)(m := add_mset d (mem_tbl a m)) \<and>
    (\<forall>fs \<in> set uq. \<forall>r' \<in># mem_tbl a m. \<not> same_strings fs r' d)"
proof (rule mem_create_run [OF assms])
  fix k
  assume "r = d" "keyed_by_id rt (k, d)" "k \<notin> fst ` set (table_of a m)"
    and a': "table_of a' = (table_of a)(m := table_of a m @ [(k, d)])" "mem_schema a' = mem_schema a"
    and "\<forall>fs \<in> set uq. \<forall>r' \<in># mem_tbl a m. \<not> same_strings fs r' d"
  moreover have "mem_tbl a' = (mem_tbl a)(m := add_mset d (mem_tbl a m))"
    using a' by (auto simp: mem_tbl_def fun_eq_iff rows_of_snoc)
  ultimately show ?thesis using assms(1) by (auto simp: model_inv_def)
qed

lemma mem_create_Inr:
  assumes inv: "mem_inv rt a" "m \<in> set core_models" and run: "run_state (mem_create rt m d) a = (Inr r, a')"
  shows "mem_inv rt a' \<and> r = d \<and> mem_tbl a' = (mem_tbl a)(m := add_mset d (mem_tbl a m)) \<and>
    (\<forall>fs \<in> set (core_unique m). \<forall>r' \<in># mem_tbl a m. \<not> same_strings fs r' d)"
proof (rule mem_create_run [OF mem_inv_model [OF inv] run])
  fix k
  assume "keyed_by_id rt (k, d)" "k \<notin> fst ` set (table_of a m)"
    and "table_of a' = (table_of a)(m := table_of a m @ [(k, d)])" "mem_schema a' = mem_schema a"
  then have "mem_inv rt a'" using inv by (auto simp: mem_inv_def)
  then show ?thesis using mem_create_model [OF mem_inv_model [OF inv] run] by blast
qed

lemma mem_inv_same:
  "mem_inv rt a \<Longrightarrow> table_of a' = table_of a \<Longrightarrow> mem_schema a' = mem_schema a \<Longrightarrow>
   mem_inv rt a' \<and> mem_tbl a' = mem_tbl a"
  by (simp add: mem_inv_def mem_tbl_def fun_eq_iff)

lemma mem_create_Inl:
  assumes "mem_inv rt a" "run_state (mem_create rt m d) a = (Inl e, a')"
  shows "mem_inv rt a' \<and> mem_tbl a' = mem_tbl a"
proof -
  from assms(2) have "a' = a \<or> a' = a\<lparr>mem_tables := ensure_table m (mem_tables a)\<rparr>"
    by (auto simp: mem_create_def Let_def split: option.splits if_splits)
  then show ?thesis using mem_inv_same [OF assms(1), of a'] by (auto simp: table_of_ensure)
qed

lemma mem_find_one_Inr:
  "run_state (mem_find_one rt m w) a = (Inr r, a') \<Longrightarrow>
   a' = a \<and> r \<in># mem_tbl a m \<and> sats (match_condition rt) w r"
  by (auto simp: mem_find_one_def mem_tbl_def table_of_def match_conditions_sats set_rows_of
      split: option.splits dest!: find_Some_mem)

lemma mem_find_one_Inl:
  "run_state (mem_find_one rt m w) a = (Inl e, a') \<Longrightarrow>
   a' = a \<and> e = AdapterNotFound \<and> (\<forall>r \<in># mem_tbl a m. \<not> sats (match_condition rt) w r)"
  by (auto simp: mem_find_one_def mem_tbl_def table_of_def match_conditions_sats find_None_iff
      set_rows_of split: option.splits)

lemma match_conditions_eta: "match_conditions rt w = sats (match_condition rt) w"
  by (simp add: match_conditions_sats fun_eq_iff)

lemma mem_find_many_Inr:
  assumes "run_state (mem_find_many rt (query_where m w)) a = (Inr rs, a')"
  shows "a' = a \<and> mset rs = filter_mset (sats (match_condition rt) w) (mem_tbl a m)"
proof (cases "mem_tables a m")
  case None
  with assms show ?thesis by (simp add: mem_find_many_def query_where_def mem_tbl_def table_of_def)
next
  case (Some t)
  then have "mem_tbl a m = rows_of t" by (simp add: mem_tbl_def table_of_def)
  with assms Some show ?thesis
    using mset_rows [of "sats (match_condition rt) w" rt t]
    by (simp add: mem_find_many_def query_where_def match_conditions_eta del: mset_filter mset_map)
qed

lemma mem_update_run:
  assumes "run_state (mem_update rt m w u) a = (r, a')"
  shows "r = Inr (int (size (filter_mset (sats (match_condition rt) w) (mem_tbl a m)))) \<and>
    table_of a' = (table_of a)(m := map (\<lambda>(pk, r). (pk, if sats (match_condition rt) w r then r ++ u else r))
      (table_of a m)) \<and> mem_schema a' = mem_schema a"
proof (cases "mem_tables a m")
  case None
  with assms show ?thesis
    by (auto simp: mem_update_def mem_tbl_def table_of_def fun_eq_iff)
next
  case (Some t)
  then have t: "table_of a m = t" by (simp add: table_of_def)
  from assms Some have "r = Inr (int (size (filter_mset (sats (match_condition rt) w) (mem_tbl a m))))"
    and a': "a' = a\<lparr>mem_tables := (mem_tables a)(m \<mapsto>
      map (\<lambda>(pk, r). (pk, if sats (match_condition rt) w r then r ++ u else r)) t)\<rparr>"
    by (simp_all add: mem_update_def match_conditions_eta length_filter_rows mem_tbl_def t)
  then show ?thesis by (simp add: a' table_of_upd t)
qed

lemma keyed_update: "u ''id'' = None \<Longrightarrow> keyed_by_id rt (pk, r) \<Longrightarrow> keyed_by_id rt (pk, if P then r ++ u else r)"
  by (auto simp: keyed_by_id_def map_add_def)

lemma mem_tbl_update:
  "table_of a' = (table_of a)(m := map (\<lambda>(pk, r). (pk, f r)) (table_of a m)) \<Longrightarrow>
   mem_tbl a' = (mem_tbl a)(m := image_mset f (mem_tbl a m))"
  by (auto simp: mem_tbl_def fun_eq_iff rows_of_upd)

lemma mem_update_model:
  assumes "model_inv rt m uq a" "u ''id'' = None" and run: "run_state (mem_update rt m w u) a = (r, a')"
  shows "model_inv rt m uq a' \<and> r = Inr (int (size (filter_mset (sats (match_condition rt) w) (mem_tbl a m)))) \<and>
    mem_tbl a' = (mem_tbl a)(m := image_mset
      (\<lambda>r. if sats (match_condition rt) w r then r ++ u else r) (mem_tbl a m))"
  using assms(1,2) mem_update_run [OF run]
  by (auto simp: model_inv_def map_fst_rows_upd mem_tbl_update keyed_update simp del: map_map)

lemma mem_update_Inr:
  assumes "mem_inv rt a" "u ''id'' = None" and run: "run_state (mem_update rt m w u) a = (Inr n, a')"
  shows "mem_inv rt a' \<and> n = int (size (filter_mset (sats (match_condition rt) w) (mem_tbl a m))) \<and>
    mem_tbl a' = (mem_tbl a)(m := image_mset
      (\<lambda>r. if sats (match_condition rt) w r then r ++ u else r) (mem_tbl a m))"
  using assms(1,2) mem_update_run [OF run]
  by (auto simp: mem_inv_def map_fst_rows_upd mem_tbl_update keyed_update simp del: map_map)

lemma mem_delete_run:
  assumes dist: "distinct (map fst (table_of a m))" and run: "run_state (mem_delete rt m w) a = (r, a')"
  shows "r = Inr (int (size (filter_mset (sats (match_condition rt) w) (mem_tbl a m)))) \<and>
    table_of a' = (table_of a)(m := filter (\<lambda>(pk, r). \<not> sats (match_condition rt) w r) (table_of a m)) \<and>
    mem_schema a' = mem_schema a"
proof (cases "mem_tables a m")
  case None
  with run show ?thesis
    by (auto simp: mem_delete_def mem_tbl_def table_of_def fun_eq_iff)
next
  case (Some t)
  define P where "P = sats (match_condition rt) w"
  define ks where "ks = map fst (filter (\<lambda>(pk, r). P r) (iterate rt t))"
  from Some have t: "table_of a m = t" by (simp add: table_of_def)
  have len: "length ks = size (filter_mset P (mem_tbl a m))"
    by (simp add: ks_def length_filter_rows mem_tbl_def t rows_of_def)
  have "set ks = fst ` {x \<in> set t. P (snd x)}"
    unfolding ks_def by force
  with filter_keys [of t P] dist t
  have keep: "filter (\<lambda>(pk, r). pk \<notin> set ks) t = filter (\<lambda>(pk, r). \<not> P r) t" by simp
  from run Some have "r = Inr (int (size (filter_mset P (mem_tbl a m))))"
    and a': "a' = a\<lparr>mem_tables := (mem_tables a)(m \<mapsto> filter (\<lambda>(pk, r). \<not> P r) t)\<rparr>"
    unfolding len [symmetric] keep [symmetric]
    by (simp_all add: mem_delete_def match_conditions_eta Let_def ks_def P_def)
  then show ?thesis by (simp add: a' table_of_upd t P_def)
qed

lemma mem_tbl_delete:
  "table_of a' = (table_of a)(m := filter (\<lambda>(pk, r). \<not> P r) (table_of a m)) \<Longrightarrow>
   mem_tbl a' = (mem_tbl a)(m := filter_mset (\<lambda>r. \<not> P r) (mem_tbl a m))"
  by (auto simp: mem_tbl_def fun_eq_iff filter_rows)

lemma mem_delete_model:
  assumes inv: "model_inv rt m uq a" and run: "run_state (mem_delete rt m w) a = (r, a')"
  shows "model_inv rt m uq a' \<and> r = Inr (int (size (filter_mset (sats (match_condition rt) w) (mem_tbl a m)))) \<and>
    mem_tbl a' = (mem_tbl a)(m := filter_mset (\<lambda>r. \<not> sats (match_condition rt) w r) (mem_tbl a m))"
  using inv mem_delete_run [OF _ run] by (auto simp: model_inv_def mem_tbl_delete distinct_map_filter)

lemma mem_delete_Inr:
  assumes inv: "mem_inv rt a" and run: "run_state (mem_delete rt m w) a = (Inr n, a')"
  shows "mem_inv rt a' \<and> n = int (size (filter_mset (sats (match_condition rt) w) (mem_tbl a m))) \<and>
    mem_tbl a' = (mem_tbl a)(m := filter_mset (\<lambda>r. \<not> sats (match_condition rt) w r) (mem_tbl a m))"
  using inv mem_delete_run [OF _ run] by (auto simp: mem_inv_def mem_tbl_delete distinct_map_filter)

lemma mem_count_run:
  "run_state (mem_count rt m w) a = (Inr (int (size (filter_mset (sats (match_condition rt) w) (mem_tbl a m)))), a)"
  by (simp add: mem_count_def match_conditions_eta length_filter_rows mem_tbl_def table_of_def
      split: option.split)

interpretation mem: adapter_contract "memory_adapter rt" "mem_inv rt" mem_tbl "match_condition rt" plain_string
  for rt
proof (unfold_locales, goal_cases)
  case (1 s m d r s') then show ?case using mem_create_Inr by (simp add: memory_adapter_def)
next
  case (2 s m d e s') then show ?case using mem_create_Inl by (simp add: memory_adapter_def)
next
  case (3 s m w r s') then show ?case using mem_find_one_Inr by (simp add: memory_adapter_def)
next
  case (4 s m w e s') then show ?case using mem_find_one_Inl by (simp add: memory_adapter_def)
next
  case (5 s m w rs s') then show ?case using mem_find_many_Inr by (simp add: memory_adapter_def)
next
  case (6 s q e s') then show ?case
    by (auto simp: memory_adapter_def mem_find_many_def Let_def split: option.splits if_splits)
next
  case (7 s m w u n s') then show ?case using mem_update_Inr by (simp add: memory_adapter_def)
next
  case (8 s m w u e s') then show ?case
    by (auto simp: memory_adapter_def mem_update_def split: option.splits)
next
  case (9 s m w n s') then show ?case using mem_delete_Inr by (simp add: memory_adapter_def)
next
  case (10 s m w e s') then show ?case
    by (auto simp: memory_adapter_def mem_delete_def Let_def split: option.splits)
next
  case (11 s0 s1) then show ?case
    by (auto simp: memory_adapter_def mem_rollback_def clone_tables_def mem_inv_def mem_tbl_def
        table_of_def fun_eq_iff)
next
  case (12 r k a b) then show ?case
    by (simp add: match_condition_def Eq_def row_get_def match_equal_str)
next
  case (13 r k a) then show ?case
    by (simp add: match_condition_def Eq_def row_get_def match_equal_refl)
next
  case (14 k r) then show ?case
    by (auto simp: match_condition_def IsNull_def row_get_def is_nil_iff split: option.splits)
next
  case (15 r k t t0) then show ?case
    by (simp add: match_condition_def Lt_def row_get_def match_less_def)
qed

text \<open>A fresh adapter with the core schema registered satisfies the invariant.\<close>

lemma table_of_fold_ensure:
  "table_of (a\<lparr>mem_tables := fold ensure_table ms ts\<rparr>) = table_of (a\<lparr>mem_tables := ts\<rparr>)"
proof (induction ms arbitrary: ts)
  case (Cons m ms)
  then show ?case using table_of_ensure by simp
qed simp

lemma mem_register_inv:
  assumes "schema_keyed s" "core_ready s" "validate s = Inr ()"
    and run: "run_state (mem_register_schema s) mem_new = (r, a)"
  shows "r = Inr () \<and> mem_inv rt a \<and> mem_tbl a = (\<lambda>_. {#})"
proof -
  from run assms(3) obtain ts where a: "r = Inr ()" "a = mem_new\<lparr>mem_schema := Some (clone_schema s),
      mem_tables := fold ensure_table ts (mem_tables mem_new)\<rparr>"
    by (auto simp: mem_register_schema_def Let_def)
  then have "table_of a = (\<lambda>_. [])"
    using table_of_fold_ensure [where a = "mem_new\<lparr>mem_schema := Some (clone_schema s)\<rparr>"
        and ms = ts and ts = "mem_tables mem_new"]
    by (simp add: mem_new_def table_of_def fun_eq_iff)
  with a assms(1,2) show ?thesis
    by (auto simp: mem_inv_def mem_tbl_def clone_schema_id fun_eq_iff)
qed

end
