(* ===== verification/Entities.thy ===== *)
theory Entities
  imports Memory_Adapter
begin

text \<open>
  The entities of the core (\<open>user\<close>, \<open>account\<close>, \<open>credential\<close>, \<open>session\<close>, \<open>verification\<close>
  packages) and the primitives of \<open>internal/secure\<close>: identifiers, opaque tokens and the hash
  under which a token is stored.
\<close>

section \<open>Entities\<close>

record user =
  user_id :: string
  user_email :: string
  user_email_verified :: bool
  user_created_at :: time
  user_updated_at :: time

record account =
  acc_id :: string
  acc_user_id :: string
  acc_provider :: string
  acc_provider_id :: string
  acc_created_at :: time
  acc_updated_at :: time

record credential =
  cred_id :: string
  cred_user_id :: string
  cred_account_id :: string
  cred_type :: string
  cred_secret :: string
  cred_created_at :: time
  cred_updated_at :: time
  cred_revoked_at :: "time option"

record session =
  sess_id :: string
  sess_user_id :: string
  sess_token_hash :: string
  sess_ip_address :: string
  sess_user_agent :: string
  sess_expires_at :: time
  sess_revoked_at :: "time option"
  sess_created_at :: time

record token =
  tok_id :: string
  tok_purpose :: string
  tok_subject :: string
  tok_token_hash :: string
  tok_expires_at :: time
  tok_used_at :: "time option"
  tok_created_at :: time

definition ProviderPassword :: string where "ProviderPassword = ''password''"
definition TypePassword :: string where "TypePassword = ''password''"
definition PurposeEmailVerification :: string where
  "PurposeEmailVerification = ''email_verification''"
definition PurposePasswordReset :: string where "PurposePasswordReset = ''password_reset''"

definition cred_active :: "credential \<Rightarrow> bool" where
  "cred_active c \<longleftrightarrow> cred_revoked_at c = None"

text \<open>\<open>!now.Before(s.ExpiresAt)\<close>.\<close>

definition sess_expired :: "session \<Rightarrow> time \<Rightarrow> bool" where
  "sess_expired s now \<longleftrightarrow> \<not> now < sess_expires_at s"

definition sess_revoked :: "session \<Rightarrow> bool" where
  "sess_revoked s \<longleftrightarrow> sess_revoked_at s \<noteq> None"

definition sess_valid :: "session \<Rightarrow> time \<Rightarrow> bool" where
  "sess_valid s now \<longleftrightarrow> \<not> sess_revoked s \<and> \<not> sess_expired s now"

definition tok_used :: "token \<Rightarrow> bool" where
  "tok_used t \<longleftrightarrow> tok_used_at t \<noteq> None"

definition tok_expired :: "token \<Rightarrow> time \<Rightarrow> bool" where
  "tok_expired t now \<longleftrightarrow> \<not> now < tok_expires_at t"

lemmas entity_status_defs = cred_active_def sess_expired_def sess_revoked_def sess_valid_def
  tok_used_def tok_expired_def

section \<open>Emails\<close>

text \<open>\<open>mail.ParseAddress\<close>: an address without an at sign is an error.\<close>

definition mail_parse_address :: "runtime \<Rightarrow> string \<Rightarrow> (string \<times> string) option" where
  "mail_parse_address rt s = (if CHR ''@'' \<in> set s then parse_address rt s else None)"

definition normalize_email :: "runtime \<Rightarrow> string \<Rightarrow> err + string" where
  "normalize_email rt email =
     (let e = to_lower (trim_space email) in
      if e = [] then Inl UserInvalidEmail
      else case mail_parse_address rt e of
        None \<Rightarrow> Inl UserInvalidEmail
      | Some (name, addr) \<Rightarrow>
          if addr \<noteq> e \<or> name \<noteq> [] then Inl UserInvalidEmail else Inr e)"

lemma normalize_email_Inr:
  "normalize_email rt email = Inr e \<longleftrightarrow>
     e = to_lower (trim_space email) \<and> e \<noteq> [] \<and> mail_parse_address rt e = Some ([], e)"
  by (auto simp: normalize_email_def Let_def split: option.splits prod.splits if_splits)

lemma normalize_email_canonical:
  "normalize_email rt email = Inr e \<Longrightarrow> to_lower e = e \<and> trim_space e = e"
  by (auto simp: normalize_email_Inr to_lower_trim)

lemma normalize_email_fixed: "normalize_email rt email = Inr e \<Longrightarrow> normalize_email rt e = Inr e"
  using normalize_email_canonical [of rt email e] by (auto simp: normalize_email_Inr)

lemma plain_email: "normalize_email rt email = Inr e \<Longrightarrow> plain_string e"
  by (auto simp: normalize_email_Inr mail_parse_address_def plain_string_def rfc3339_shape_def
      split: if_splits)

section \<open>Identifiers, tokens, hashes\<close>

definition TokenBytes :: nat where "TokenBytes = 32"
definition IDBytes :: nat where "IDBytes = 16"

text \<open>
  \<open>randomBytes(n)\<close> reads the next \<open>n\<close> bytes of the entropy source; \<open>src\<close> is one draw of it,
  an infinite sequence of bytes. A failing source panics and is not modelled.
\<close>

definition random_bytes :: "(nat \<Rightarrow> byte) \<Rightarrow> nat \<Rightarrow> byte list" where
  "random_bytes src n = map src [0..<n]"

definition new_id :: "(nat \<Rightarrow> byte) \<Rightarrow> string" where
  "new_id src = hex_encode (random_bytes src IDBytes)"

definition new_token :: "(nat \<Rightarrow> byte) \<Rightarrow> string" where
  "new_token src = b64_rawurl (random_bytes src TokenBytes)"

definition hash_token :: "runtime \<Rightarrow> string \<Rightarrow> string" where
  "hash_token rt s = hex_encode (sha256 rt s)"

text \<open>\<open>subtle.ConstantTimeCompare\<close> answers 1 when the contents are equal.\<close>

definition secure_equal :: "string \<Rightarrow> string \<Rightarrow> bool" where
  "secure_equal a b \<longleftrightarrow> a = b"

lemma plain_hex: "plain_string (hex_encode bs)"
  by (rule plain_no_colon) (rule hex_encode_colon)

lemma plain_hash [simp]: "plain_string (hash_token rt s)"
  by (simp add: hash_token_def plain_hex)

lemma plain_new_id [simp]: "plain_string (new_id src)"
  by (simp add: new_id_def plain_hex)

lemma length_new_id: "length (new_id src) = 32"
  by (simp add: new_id_def random_bytes_def IDBytes_def)

lemma new_id_nonempty [simp]: "new_id src \<noteq> []"
  using length_new_id [of src] by auto

lemma b64_encode_nonempty: "bs \<noteq> [] \<Longrightarrow> b64_encode al pad bs \<noteq> []"
  by (cases "(al, pad, bs)" rule: b64_encode.cases) auto

lemma new_token_nonempty [simp]: "new_token src \<noteq> []"
  by (simp add: new_token_def b64_rawurl_def random_bytes_def TokenBytes_def b64_encode_nonempty)

end
