(* ===== verification/Store.thy ===== *)
theory Store
  imports Entities
begin

text \<open>
  The persistence contract of the core (\<open>store/store.go\<close>): the typed operations as a record
  of functions over the state \<open>'s\<close> of the store, and what the core relies on as the locale
  \<open>store_contract\<close>, in terms of the entities that are stored (\<open>view\<close>).
\<close>

section \<open>The interface\<close>

record 's store =
  users_create :: "user \<Rightarrow> ('s, err + unit) state"
  users_get_by_id :: "string \<Rightarrow> ('s, err + user) state"
  users_get_by_email :: "string \<Rightarrow> ('s, err + user) state"
  users_update :: "user \<Rightarrow> ('s, err + unit) state"
  users_delete :: "string \<Rightarrow> ('s, err + unit) state"
  accounts_create :: "account \<Rightarrow> ('s, err + unit) state"
  accounts_get_by_id :: "string \<Rightarrow> ('s, err + account) state"
  accounts_get_by_provider :: "string \<Rightarrow> string \<Rightarrow> ('s, err + account) state"
  accounts_list_by_user :: "string \<Rightarrow> ('s, err + account list) state"
  accounts_delete :: "string \<Rightarrow> ('s, err + unit) state"
  credentials_create :: "credential \<Rightarrow> ('s, err + unit) state"
  credentials_get_by_id :: "string \<Rightarrow> ('s, err + credential) state"
  credentials_get_active :: "string \<Rightarrow> string \<Rightarrow> ('s, err + credential) state"
  credentials_list_by_user :: "string \<Rightarrow> ('s, err + credential list) state"
  credentials_update :: "credential \<Rightarrow> ('s, err + unit) state"
  credentials_revoke :: "string \<Rightarrow> time \<Rightarrow> ('s, err + unit) state"
  sessions_create :: "session \<Rightarrow> ('s, err + unit) state"
  sessions_get_by_id :: "string \<Rightarrow> ('s, err + session) state"
  sessions_get_by_hash :: "string \<Rightarrow> ('s, err + session) state"
  sessions_list_by_user :: "string \<Rightarrow> ('s, err + session list) state"
  sessions_revoke :: "string \<Rightarrow> time \<Rightarrow> ('s, err + unit) state"
  sessions_revoke_by_user :: "string \<Rightarrow> time \<Rightarrow> ('s, err + session list) state"
  sessions_delete_expired :: "time \<Rightarrow> ('s, err + int) state"
  tokens_create :: "token \<Rightarrow> ('s, err + unit) state"
  tokens_get_by_hash :: "string \<Rightarrow> ('s, err + token) state"
  tokens_mark_used :: "string \<Rightarrow> time \<Rightarrow> ('s, err + unit) state"
  tokens_delete_by_subject :: "string \<Rightarrow> string \<Rightarrow> ('s, err + unit) state"
  tokens_delete_expired :: "time \<Rightarrow> ('s, err + int) state"
  store_rollback :: "'s \<Rightarrow> 's \<Rightarrow> 's"

section \<open>What is stored\<close>

record db =
  db_users :: "user multiset"
  db_accounts :: "account multiset"
  db_credentials :: "credential multiset"
  db_sessions :: "session multiset"
  db_tokens :: "token multiset"

definition uniq :: "('a \<Rightarrow> 'k) \<Rightarrow> 'a multiset \<Rightarrow> bool" where
  "uniq f M \<longleftrightarrow> (\<forall>k. size {#x \<in># M. f x = k#} \<le> 1)"

lemma uniq_empty [simp]: "uniq f {#}"
  by (simp add: uniq_def)

lemma uniq_add: "uniq f M \<Longrightarrow> (\<And>x. x \<in># M \<Longrightarrow> f x \<noteq> f a) \<Longrightarrow> uniq f (add_mset a M)"
proof -
  assume u: "uniq f M" and "\<And>x. x \<in># M \<Longrightarrow> f x \<noteq> f a"
  then have "{#x \<in># M. f x = f a#} = {#}" by (auto simp: filter_mset_eq_conv)
  with u show "uniq f (add_mset a M)" by (auto simp: uniq_def)
qed

lemma uniq_image: "uniq f M \<Longrightarrow> (\<And>x. x \<in># M \<Longrightarrow> f (g x) = f x) \<Longrightarrow> uniq f (image_mset g M)"
proof -
  assume u: "uniq f M" and g: "\<And>x. x \<in># M \<Longrightarrow> f (g x) = f x"
  have "{#x \<in># image_mset g M. f x = k#} = image_mset g {#x \<in># M. f x = k#}" for k
    using g by (induction M) auto
  with u show ?thesis by (simp add: uniq_def)
qed

lemma uniq_filter: "uniq f M \<Longrightarrow> uniq f (filter_mset P M)"
proof -
  assume u: "uniq f M"
  have "size {#x \<in># filter_mset P M. f x = k#} \<le> size {#x \<in># M. f x = k#}" for k
    by (rule size_mset_mono) (rule multiset_filter_mono [OF multiset_filter_subset])
  with u show ?thesis unfolding uniq_def by (meson le_trans)
qed

lemma uniq_eq:
  assumes "uniq f M" "x \<in># M" "y \<in># M" "f x = f y"
  shows "x = y"
proof (rule ccontr)
  assume "x \<noteq> y"
  with assms obtain N where "M = add_mset x (add_mset y N)"
    by (metis insert_noteq_member mset_add)
  then have "size {#z \<in># M. f z = f y#} \<ge> 2" using assms(4) by simp
  with assms(1) show False unfolding uniq_def by (metis Suc_1 not_less_eq_eq)
qed

definition db_empty :: db where
  "db_empty = \<lparr>db_users = {#}, db_accounts = {#}, db_credentials = {#}, db_sessions = {#}, db_tokens = {#}\<rparr>"

text \<open>What every state of the store satisfies: identifiers and token hashes are unique.\<close>

definition db_ok :: "db \<Rightarrow> bool" where
  "db_ok v \<longleftrightarrow>
     uniq user_id (db_users v) \<and> uniq acc_id (db_accounts v) \<and>
     uniq cred_id (db_credentials v) \<and> uniq sess_id (db_sessions v) \<and>
     uniq sess_token_hash (db_sessions v) \<and> uniq tok_id (db_tokens v) \<and>
     uniq tok_token_hash (db_tokens v) \<and>
     uniq (\<lambda>a. (acc_provider a, acc_provider_id a)) (db_accounts v)"

lemma db_ok_empty [simp]: "db_ok db_empty"
  by (simp add: db_ok_def db_empty_def)

section \<open>The contract\<close>

text \<open>
  \<open>got v P x r\<close> is the answer of a lookup: a member of \<open>v\<close> with \<open>P\<close>, or not found only
  when there is none.
\<close>

definition got :: "'a multiset \<Rightarrow> ('a \<Rightarrow> bool) \<Rightarrow> ('a \<Rightarrow> bool) \<Rightarrow> err + 'a \<Rightarrow> bool" where
  "got M P Q r \<longleftrightarrow> (case r of
     Inl e \<Rightarrow> e = StoreNotFound \<longrightarrow> (\<forall>x \<in># M. \<not> P x)
   | Inr x \<Rightarrow> x \<in># M \<and> Q x)"

text \<open>Updating the members with a property.\<close>

definition upd_where :: "('a \<Rightarrow> bool) \<Rightarrow> ('a \<Rightarrow> 'a) \<Rightarrow> 'a multiset \<Rightarrow> 'a multiset" where
  "upd_where P g M = image_mset (\<lambda>x. if P x then g x else x) M"

definition revoke_session :: "time \<Rightarrow> session \<Rightarrow> session" where
  "revoke_session at x = x\<lparr>sess_revoked_at := Some at\<rparr>"

definition revoke_credential :: "time \<Rightarrow> credential \<Rightarrow> credential" where
  "revoke_credential at x = x\<lparr>cred_revoked_at := Some at\<rparr>"

definition use_token :: "time \<Rightarrow> token \<Rightarrow> token" where
  "use_token at x = x\<lparr>tok_used_at := Some at\<rparr>"

definition set_user :: "user \<Rightarrow> user \<Rightarrow> user" where
  "set_user u x = x\<lparr>user_email := user_email u, user_email_verified := user_email_verified u,
     user_updated_at := user_updated_at u\<rparr>"

definition set_credential :: "credential \<Rightarrow> credential \<Rightarrow> credential" where
  "set_credential c x = x\<lparr>cred_secret := cred_secret c, cred_updated_at := cred_updated_at c,
     cred_revoked_at := cred_revoked_at c\<rparr>"

definition active_of :: "string \<Rightarrow> session \<Rightarrow> bool" where
  "active_of uid x \<longleftrightarrow> sess_user_id x = uid \<and> sess_revoked_at x = None"

text \<open>
  In the laws \<open>v\<close> is the view before the call and \<open>r\<close> the result. A failed operation
  changes nothing. The zero time is not an instant of a revocation or a use: in a row it
  stands for no value.
\<close>

locale store_contract =
  fixes st :: "'s store"
    and inv :: "'s \<Rightarrow> bool"
    and view :: "'s \<Rightarrow> db"
    and plain :: "string \<Rightarrow> bool"
  assumes inv_db_ok: "inv s \<Longrightarrow> db_ok (view s)"
    and inv_plain_user: "inv s \<Longrightarrow> u \<in># db_users (view s) \<Longrightarrow> plain (user_id u)"
    and inv_plain_account: "inv s \<Longrightarrow> a \<in># db_accounts (view s) \<Longrightarrow> plain (acc_id a)"
    and users_create: "inv s \<Longrightarrow> plain (user_id u) \<Longrightarrow> run_state (users_create st u) s = (r, s') \<Longrightarrow>
      inv s' \<and> (case r of Inl e \<Rightarrow> view s' = view s | Inr _ \<Rightarrow>
        view s' = (view s)\<lparr>db_users := add_mset u (db_users (view s))\<rparr> \<and>
        (\<forall>x \<in># db_users (view s). user_id x \<noteq> user_id u \<and> user_email x \<noteq> user_email u))"
    and users_get_by_id: "inv s \<Longrightarrow> run_state (users_get_by_id st i) s = (r0, s') \<Longrightarrow>
      s' = s \<and> got (db_users (view s)) (\<lambda>x. user_id x = i) (\<lambda>x. user_id x = i) r0"
    and users_get_by_email: "inv s \<Longrightarrow> run_state (users_get_by_email st e) s = (r0, s') \<Longrightarrow>
      s' = s \<and> got (db_users (view s)) (\<lambda>x. user_email x = e) (\<lambda>x. plain e \<longrightarrow> user_email x = e) r0"
    and users_update: "inv s \<Longrightarrow> run_state (users_update st u) s = (r, s') \<Longrightarrow>
      inv s' \<and> (case r of Inl _ \<Rightarrow> view s' = view s | Inr _ \<Rightarrow>
        view s' = (view s)\<lparr>db_users := upd_where (\<lambda>x. user_id x = user_id u) (set_user u) (db_users (view s))\<rparr>)"
    and users_delete: "inv s \<Longrightarrow> run_state (users_delete st i) s = (r, s') \<Longrightarrow>
      inv s' \<and> (case r of Inl _ \<Rightarrow> view s' = view s | Inr _ \<Rightarrow>
        view s' = (view s)\<lparr>db_users := filter_mset (\<lambda>x. user_id x \<noteq> i) (db_users (view s))\<rparr>)"
    and accounts_create: "inv s \<Longrightarrow> plain (acc_id a) \<Longrightarrow> run_state (accounts_create st a) s = (r, s') \<Longrightarrow>
      inv s' \<and> (case r of Inl e \<Rightarrow> view s' = view s | Inr _ \<Rightarrow>
        view s' = (view s)\<lparr>db_accounts := add_mset a (db_accounts (view s))\<rparr>)"
    and accounts_get_by_id: "inv s \<Longrightarrow> run_state (accounts_get_by_id st i) s = (r1, s') \<Longrightarrow>
      s' = s \<and> got (db_accounts (view s)) (\<lambda>x. acc_id x = i) (\<lambda>x. acc_id x = i) r1"
    and accounts_get_by_provider:
      "inv s \<Longrightarrow> run_state (accounts_get_by_provider st p i) s = (r1, s') \<Longrightarrow>
      s' = s \<and> got (db_accounts (view s)) (\<lambda>x. acc_provider x = p \<and> acc_provider_id x = i)
        (\<lambda>x. (plain p \<longrightarrow> acc_provider x = p) \<and> (plain i \<longrightarrow> acc_provider_id x = i)) r1"
    and accounts_list: "inv s \<Longrightarrow> run_state (accounts_list_by_user st i) s = (r2, s') \<Longrightarrow>
      s' = s \<and> (case r2 of Inl _ \<Rightarrow> True | Inr xs \<Rightarrow>
        plain i \<longrightarrow> mset xs = {#x \<in># db_accounts (view s). acc_user_id x = i#})"
    and accounts_delete: "inv s \<Longrightarrow> run_state (accounts_delete st i) s = (r, s') \<Longrightarrow>
      inv s' \<and> (case r of Inl _ \<Rightarrow> view s' = view s | Inr _ \<Rightarrow>
        view s' = (view s)\<lparr>db_accounts := filter_mset (\<lambda>x. acc_id x \<noteq> i) (db_accounts (view s))\<rparr>)"
    and credentials_create: "inv s \<Longrightarrow> plain (cred_id c) \<Longrightarrow> cred_revoked_at c \<noteq> Some 0 \<Longrightarrow>
      run_state (credentials_create st c) s = (r, s') \<Longrightarrow>
      inv s' \<and> (case r of Inl e \<Rightarrow> view s' = view s | Inr _ \<Rightarrow>
        view s' = (view s)\<lparr>db_credentials := add_mset c (db_credentials (view s))\<rparr>)"
    and credentials_get_by_id: "inv s \<Longrightarrow> run_state (credentials_get_by_id st i) s = (r3, s') \<Longrightarrow>
      s' = s \<and> got (db_credentials (view s)) (\<lambda>x. cred_id x = i) (\<lambda>x. cred_id x = i) r3"
    and credentials_get_active:
      "inv s \<Longrightarrow> run_state (credentials_get_active st i ty) s = (r3, s') \<Longrightarrow>
      s' = s \<and> got (db_credentials (view s))
        (\<lambda>x. cred_account_id x = i \<and> cred_type x = ty \<and> cred_revoked_at x = None)
        (\<lambda>x. (plain i \<longrightarrow> cred_account_id x = i) \<and> (plain ty \<longrightarrow> cred_type x = ty) \<and>
          cred_revoked_at x = None) r3"
    and credentials_list: "inv s \<Longrightarrow> run_state (credentials_list_by_user st i) s = (r4, s') \<Longrightarrow>
      s' = s \<and> (case r4 of Inl _ \<Rightarrow> True | Inr xs \<Rightarrow>
        plain i \<longrightarrow> mset xs = {#x \<in># db_credentials (view s). cred_user_id x = i#})"
    and credentials_update: "inv s \<Longrightarrow> cred_revoked_at c \<noteq> Some 0 \<Longrightarrow>
      run_state (credentials_update st c) s = (r, s') \<Longrightarrow>
      inv s' \<and> (case r of Inl _ \<Rightarrow> view s' = view s | Inr _ \<Rightarrow>
        view s' = (view s)\<lparr>db_credentials :=
          upd_where (\<lambda>x. cred_id x = cred_id c) (set_credential c) (db_credentials (view s))\<rparr>)"
    and credentials_revoke: "inv s \<Longrightarrow> at \<noteq> 0 \<Longrightarrow> run_state (credentials_revoke st i at) s = (r, s') \<Longrightarrow>
      inv s' \<and> (case r of Inl _ \<Rightarrow> view s' = view s | Inr _ \<Rightarrow>
        view s' = (view s)\<lparr>db_credentials :=
          upd_where (\<lambda>x. cred_id x = i) (revoke_credential at) (db_credentials (view s))\<rparr>)"
    and sessions_create: "inv s \<Longrightarrow> plain (sess_id x) \<Longrightarrow> sess_revoked_at x \<noteq> Some 0 \<Longrightarrow>
      run_state (sessions_create st x) s = (r, s') \<Longrightarrow>
      inv s' \<and> (case r of Inl e \<Rightarrow> view s' = view s | Inr _ \<Rightarrow>
        view s' = (view s)\<lparr>db_sessions := add_mset x (db_sessions (view s))\<rparr> \<and>
        (\<forall>y \<in># db_sessions (view s). sess_id y \<noteq> sess_id x \<and> sess_token_hash y \<noteq> sess_token_hash x))"
    and sessions_get_by_id: "inv s \<Longrightarrow> run_state (sessions_get_by_id st i) s = (r5, s') \<Longrightarrow>
      s' = s \<and> got (db_sessions (view s)) (\<lambda>x. sess_id x = i) (\<lambda>x. sess_id x = i) r5"
    and sessions_get_by_hash: "inv s \<Longrightarrow> run_state (sessions_get_by_hash st h) s = (r5, s') \<Longrightarrow>
      s' = s \<and> got (db_sessions (view s)) (\<lambda>x. sess_token_hash x = h)
        (\<lambda>x. plain h \<longrightarrow> sess_token_hash x = h) r5"
    and sessions_list: "inv s \<Longrightarrow> run_state (sessions_list_by_user st i) s = (r6, s') \<Longrightarrow>
      s' = s \<and> (case r6 of Inl _ \<Rightarrow> True | Inr xs \<Rightarrow>
        plain i \<longrightarrow> mset xs = {#x \<in># db_sessions (view s). sess_user_id x = i#})"
    and sessions_revoke: "inv s \<Longrightarrow> at \<noteq> 0 \<Longrightarrow> run_state (sessions_revoke st i at) s = (r, s') \<Longrightarrow>
      inv s' \<and> (case r of Inl _ \<Rightarrow> view s' = view s | Inr _ \<Rightarrow>
        view s' = (view s)\<lparr>db_sessions :=
          upd_where (\<lambda>x. sess_id x = i) (revoke_session at) (db_sessions (view s))\<rparr>)"
    and sessions_revoke_by_user: "inv s \<Longrightarrow> at \<noteq> 0 \<Longrightarrow> plain i \<Longrightarrow>
      run_state (sessions_revoke_by_user st i at) s = (r6, s') \<Longrightarrow>
      inv s' \<and> (case r6 of Inl _ \<Rightarrow> view s' = view s | Inr xs \<Rightarrow>
        mset xs = image_mset (revoke_session at) (filter_mset (active_of i) (db_sessions (view s))) \<and>
        (\<exists>I \<subseteq> sess_id ` set xs. view s' = (view s)\<lparr>db_sessions :=
          upd_where (\<lambda>x. sess_id x \<in> I) (revoke_session at) (db_sessions (view s))\<rparr>))"
    and sessions_delete_expired: "inv s \<Longrightarrow> run_state (sessions_delete_expired st t) s = (r7, s') \<Longrightarrow>
      inv s' \<and> (case r7 of Inl _ \<Rightarrow> view s' = view s | Inr n \<Rightarrow>
        n = int (size {#x \<in># db_sessions (view s). sess_expires_at x < t#}) \<and>
        view s' = (view s)\<lparr>db_sessions := {#x \<in># db_sessions (view s). \<not> sess_expires_at x < t#}\<rparr>)"
    and tokens_create: "inv s \<Longrightarrow> plain (tok_id k) \<Longrightarrow> tok_used_at k \<noteq> Some 0 \<Longrightarrow>
      run_state (tokens_create st k) s = (r, s') \<Longrightarrow>
      inv s' \<and> (case r of Inl e \<Rightarrow> view s' = view s | Inr _ \<Rightarrow>
        view s' = (view s)\<lparr>db_tokens := add_mset k (db_tokens (view s))\<rparr> \<and>
        (\<forall>y \<in># db_tokens (view s). tok_id y \<noteq> tok_id k \<and> tok_token_hash y \<noteq> tok_token_hash k))"
    and tokens_get_by_hash: "inv s \<Longrightarrow> run_state (tokens_get_by_hash st h) s = (r8, s') \<Longrightarrow>
      s' = s \<and> got (db_tokens (view s)) (\<lambda>x. tok_token_hash x = h)
        (\<lambda>x. plain h \<longrightarrow> tok_token_hash x = h) r8"
    and tokens_mark_used: "inv s \<Longrightarrow> at \<noteq> 0 \<Longrightarrow> run_state (tokens_mark_used st i at) s = (r, s') \<Longrightarrow>
      inv s' \<and> (case r of Inl _ \<Rightarrow> view s' = view s | Inr _ \<Rightarrow>
        (\<exists>x \<in># db_tokens (view s). tok_id x = i \<and> tok_used_at x = None) \<and>
        view s' = (view s)\<lparr>db_tokens :=
          upd_where (\<lambda>x. tok_id x = i \<and> tok_used_at x = None) (use_token at) (db_tokens (view s))\<rparr>)"
    and tokens_delete_by_subject:
      "inv s \<Longrightarrow> plain p \<Longrightarrow> plain i \<Longrightarrow> run_state (tokens_delete_by_subject st p i) s = (r, s') \<Longrightarrow>
      inv s' \<and> (case r of Inl _ \<Rightarrow> view s' = view s | Inr _ \<Rightarrow>
        view s' = (view s)\<lparr>db_tokens :=
          {#x \<in># db_tokens (view s). \<not> (tok_purpose x = p \<and> tok_subject x = i)#}\<rparr>)"
    and tokens_delete_expired: "inv s \<Longrightarrow> run_state (tokens_delete_expired st t) s = (r7, s') \<Longrightarrow>
      inv s' \<and> (case r7 of Inl _ \<Rightarrow> view s' = view s | Inr n \<Rightarrow>
        n = int (size {#x \<in># db_tokens (view s). tok_expires_at x < t#}) \<and>
        view s' = (view s)\<lparr>db_tokens := {#x \<in># db_tokens (view s). \<not> tok_expires_at x < t#}\<rparr>)"
    and store_rollback: "inv s0 \<Longrightarrow> inv s1 \<Longrightarrow>
      inv (store_rollback st s0 s1) \<and> view (store_rollback st s0 s1) = view s0"

text \<open>
  With a store whose updates never fail for reasons of their own, revoking by user revokes
  every session it reports.
\<close>

locale reliable_store = store_contract +
  assumes revoke_by_user_all: "inv s \<Longrightarrow> at \<noteq> 0 \<Longrightarrow> plain i \<Longrightarrow>
      run_state (sessions_revoke_by_user st i at) s = (Inr xs, s') \<Longrightarrow>
      db_sessions (view s') = upd_where (active_of i) (revoke_session at) (db_sessions (view s))"

end
