(* ===== verification/Bridge.thy ===== *)
theory Bridge
  imports Store
begin

text \<open>
  The bridge (\<open>adapter/bridge/bridge.go\<close>): a store on top of any adapter. Entities become
  rows and rows become entities again, and the adapter's errors become the store's. For
  any adapter with the contract \<open>adapter_contract\<close> the bridge is a store with the contract
  \<open>store_contract\<close>; the in-memory adapter gives a concrete one.
\<close>

section \<open>Reading rows\<close>

definition get_string :: "row \<Rightarrow> string \<Rightarrow> string" where
  "get_string r k = (case r k of Some (VStr s) \<Rightarrow> s | _ \<Rightarrow> [])"

definition get_time :: "runtime \<Rightarrow> row \<Rightarrow> string \<Rightarrow> time" where
  "get_time rt r k =
     (case r k of
        None \<Rightarrow> 0
      | Some VNil \<Rightarrow> 0
      | Some (VTime t) \<Rightarrow> t
      | Some (VTimePtr (Some t)) \<Rightarrow> t
      | Some (VStr s) \<Rightarrow>
          (case parse_layout (rfc3339nano rt) s of
             Some t \<Rightarrow> t
           | None \<Rightarrow> (case parse_layout (rfc3339 rt) s of Some t \<Rightarrow> t | None \<Rightarrow> 0))
      | _ \<Rightarrow> 0)"

definition get_optional_time :: "runtime \<Rightarrow> row \<Rightarrow> string \<Rightarrow> time option" where
  "get_optional_time rt r k =
     (case r k of
        None \<Rightarrow> None
      | Some VNil \<Rightarrow> None
      | Some _ \<Rightarrow> (let t = get_time rt r k in if t = 0 then None else Some t))"

definition not_found_err :: "err \<Rightarrow> err" where
  "not_found_err e = (if e = AdapterNotFound then StoreNotFound else e)"

definition conflict_err :: "err \<Rightarrow> err" where
  "conflict_err e = (if e = AdapterConflict then StoreConflict else e)"

section \<open>Users\<close>

definition user_row :: "user \<Rightarrow> row" where
  "user_row u = [
     ''id'' \<mapsto> VStr (user_id u),
     ''email'' \<mapsto> VStr (user_email u),
     ''email_verified'' \<mapsto> VBool (user_email_verified u),
     ''created_at'' \<mapsto> VTime (user_created_at u),
     ''updated_at'' \<mapsto> VTime (user_updated_at u)]"

definition to_user :: "row \<Rightarrow> user" where
  "to_user r =
     \<lparr>user_id = get_string r ''id'',
      user_email = get_string r ''email'',
      user_email_verified = (case r ''email_verified'' of Some (VBool b) \<Rightarrow> b | _ \<Rightarrow> False),
      user_created_at = (case r ''created_at'' of Some (VTime t) \<Rightarrow> t | _ \<Rightarrow> 0),
      user_updated_at = (case r ''updated_at'' of Some (VTime t) \<Rightarrow> t | _ \<Rightarrow> 0)\<rparr>"

definition user_create :: "'s adapter \<Rightarrow> user \<Rightarrow> ('s, err + unit) state" where
  "user_create ad u = do {
     r \<leftarrow> ad_create ad ModelUsers (user_row u);
     State_Monad.return (map_sum conflict_err (\<lambda>_. ()) r)
   }"

definition user_get_by_id :: "'s adapter \<Rightarrow> string \<Rightarrow> ('s, err + user) state" where
  "user_get_by_id ad i = do {
     r \<leftarrow> ad_find_one ad ModelUsers [Eq ''id'' (VStr i)];
     State_Monad.return (map_sum not_found_err to_user r)
   }"

definition user_get_by_email :: "'s adapter \<Rightarrow> string \<Rightarrow> ('s, err + user) state" where
  "user_get_by_email ad email = do {
     r \<leftarrow> ad_find_one ad ModelUsers [Eq ''email'' (VStr email)];
     State_Monad.return (map_sum not_found_err to_user r)
   }"

definition user_update :: "'s adapter \<Rightarrow> user \<Rightarrow> ('s, err + unit) state" where
  "user_update ad u = do {
     r \<leftarrow> ad_update ad ModelUsers [Eq ''id'' (VStr (user_id u))]
            [''email'' \<mapsto> VStr (user_email u),
             ''email_verified'' \<mapsto> VBool (user_email_verified u),
             ''updated_at'' \<mapsto> VTime (user_updated_at u)];
     check (map_sum conflict_err id r) (\<lambda>n. if n = 0 then fail StoreNotFound else ok ())
   }"

definition user_delete :: "'s adapter \<Rightarrow> string \<Rightarrow> ('s, err + unit) state" where
  "user_delete ad i = do {
     r \<leftarrow> ad_delete ad ModelUsers [Eq ''id'' (VStr i)];
     check r (\<lambda>n. if n = 0 then fail StoreNotFound else ok ())
   }"

section \<open>Accounts\<close>

definition account_row :: "account \<Rightarrow> row" where
  "account_row a = [
     ''id'' \<mapsto> VStr (acc_id a),
     ''user_id'' \<mapsto> VStr (acc_user_id a),
     ''provider'' \<mapsto> VStr (acc_provider a),
     ''provider_id'' \<mapsto> VStr (acc_provider_id a),
     ''created_at'' \<mapsto> VTime (acc_created_at a),
     ''updated_at'' \<mapsto> VTime (acc_updated_at a)]"

definition to_account :: "runtime \<Rightarrow> row \<Rightarrow> account" where
  "to_account rt r =
     \<lparr>acc_id = get_string r ''id'',
      acc_user_id = get_string r ''user_id'',
      acc_provider = get_string r ''provider'',
      acc_provider_id = get_string r ''provider_id'',
      acc_created_at = get_time rt r ''created_at'',
      acc_updated_at = get_time rt r ''updated_at''\<rparr>"

definition account_create :: "'s adapter \<Rightarrow> account \<Rightarrow> ('s, err + unit) state" where
  "account_create ad a = do {
     r \<leftarrow> ad_create ad ModelAccounts (account_row a);
     State_Monad.return (map_sum conflict_err (\<lambda>_. ()) r)
   }"

definition account_get_by_id :: "runtime \<Rightarrow> 's adapter \<Rightarrow> string \<Rightarrow> ('s, err + account) state" where
  "account_get_by_id rt ad i = do {
     r \<leftarrow> ad_find_one ad ModelAccounts [Eq ''id'' (VStr i)];
     State_Monad.return (map_sum not_found_err (to_account rt) r)
   }"

definition account_get_by_provider ::
  "runtime \<Rightarrow> 's adapter \<Rightarrow> string \<Rightarrow> string \<Rightarrow> ('s, err + account) state" where
  "account_get_by_provider rt ad provider pid = do {
     r \<leftarrow> ad_find_one ad ModelAccounts
            [Eq ''provider'' (VStr provider), Eq ''provider_id'' (VStr pid)];
     State_Monad.return (map_sum not_found_err (to_account rt) r)
   }"

definition account_list_by_user :: "runtime \<Rightarrow> 's adapter \<Rightarrow> string \<Rightarrow> ('s, err + account list) state" where
  "account_list_by_user rt ad uid = do {
     r \<leftarrow> ad_find_many ad (query_where ModelAccounts [Eq ''user_id'' (VStr uid)]);
     State_Monad.return (map_sum id (map (to_account rt)) r)
   }"

definition account_delete :: "'s adapter \<Rightarrow> string \<Rightarrow> ('s, err + unit) state" where
  "account_delete ad i = do {
     r \<leftarrow> ad_delete ad ModelAccounts [Eq ''id'' (VStr i)];
     check r (\<lambda>n. if n = 0 then fail StoreNotFound else ok ())
   }"

section \<open>Credentials\<close>

definition credential_row :: "credential \<Rightarrow> row" where
  "credential_row c = [
     ''id'' \<mapsto> VStr (cred_id c),
     ''user_id'' \<mapsto> VStr (cred_user_id c),
     ''account_id'' \<mapsto> VStr (cred_account_id c),
     ''type'' \<mapsto> VStr (cred_type c),
     ''secret'' \<mapsto> VStr (cred_secret c),
     ''created_at'' \<mapsto> VTime (cred_created_at c),
     ''updated_at'' \<mapsto> VTime (cred_updated_at c),
     ''revoked_at'' \<mapsto> VTimePtr (cred_revoked_at c)]"

definition to_credential :: "runtime \<Rightarrow> row \<Rightarrow> credential" where
  "to_credential rt r =
     \<lparr>cred_id = get_string r ''id'',
      cred_user_id = get_string r ''user_id'',
      cred_account_id = get_string r ''account_id'',
      cred_type = get_string r ''type'',
      cred_secret = get_string r ''secret'',
      cred_created_at = get_time rt r ''created_at'',
      cred_updated_at = get_time rt r ''updated_at'',
      cred_revoked_at = get_optional_time rt r ''revoked_at''\<rparr>"

definition credential_create :: "'s adapter \<Rightarrow> credential \<Rightarrow> ('s, err + unit) state" where
  "credential_create ad c = do {
     r \<leftarrow> ad_create ad ModelCredentials (credential_row c);
     State_Monad.return (map_sum conflict_err (\<lambda>_. ()) r)
   }"

definition credential_get_by_id :: "runtime \<Rightarrow> 's adapter \<Rightarrow> string \<Rightarrow> ('s, err + credential) state" where
  "credential_get_by_id rt ad i = do {
     r \<leftarrow> ad_find_one ad ModelCredentials [Eq ''id'' (VStr i)];
     State_Monad.return (map_sum not_found_err (to_credential rt) r)
   }"

definition credential_get_active ::
  "runtime \<Rightarrow> 's adapter \<Rightarrow> string \<Rightarrow> string \<Rightarrow> ('s, err + credential) state" where
  "credential_get_active rt ad aid ty = do {
     r \<leftarrow> ad_find_one ad ModelCredentials
            [Eq ''account_id'' (VStr aid), Eq ''type'' (VStr ty), IsNull ''revoked_at''];
     State_Monad.return (map_sum not_found_err (to_credential rt) r)
   }"

definition credential_list_by_user ::
  "runtime \<Rightarrow> 's adapter \<Rightarrow> string \<Rightarrow> ('s, err + credential list) state" where
  "credential_list_by_user rt ad uid = do {
     r \<leftarrow> ad_find_many ad (query_where ModelCredentials [Eq ''user_id'' (VStr uid)]);
     State_Monad.return (map_sum id (map (to_credential rt)) r)
   }"

definition credential_update :: "'s adapter \<Rightarrow> credential \<Rightarrow> ('s, err + unit) state" where
  "credential_update ad c = do {
     r \<leftarrow> ad_update ad ModelCredentials [Eq ''id'' (VStr (cred_id c))]
            [''secret'' \<mapsto> VStr (cred_secret c),
             ''updated_at'' \<mapsto> VTime (cred_updated_at c),
             ''revoked_at'' \<mapsto> VTimePtr (cred_revoked_at c)];
     check r (\<lambda>n. if n = 0 then fail StoreNotFound else ok ())
   }"

definition credential_revoke :: "'s adapter \<Rightarrow> string \<Rightarrow> time \<Rightarrow> ('s, err + unit) state" where
  "credential_revoke ad i at = do {
     r \<leftarrow> ad_update ad ModelCredentials [Eq ''id'' (VStr i)] [''revoked_at'' \<mapsto> VTime at];
     check r (\<lambda>n. if n = 0 then fail StoreNotFound else ok ())
   }"

section \<open>Sessions\<close>

definition session_row :: "session \<Rightarrow> row" where
  "session_row x = [
     ''id'' \<mapsto> VStr (sess_id x),
     ''user_id'' \<mapsto> VStr (sess_user_id x),
     ''token_hash'' \<mapsto> VStr (sess_token_hash x),
     ''ip_address'' \<mapsto> VStr (sess_ip_address x),
     ''user_agent'' \<mapsto> VStr (sess_user_agent x),
     ''expires_at'' \<mapsto> VTime (sess_expires_at x),
     ''revoked_at'' \<mapsto> VTimePtr (sess_revoked_at x),
     ''created_at'' \<mapsto> VTime (sess_created_at x)]"

definition to_session :: "runtime \<Rightarrow> row \<Rightarrow> session" where
  "to_session rt r =
     \<lparr>sess_id = get_string r ''id'',
      sess_user_id = get_string r ''user_id'',
      sess_token_hash = get_string r ''token_hash'',
      sess_ip_address = get_string r ''ip_address'',
      sess_user_agent = get_string r ''user_agent'',
      sess_expires_at = get_time rt r ''expires_at'',
      sess_revoked_at = get_optional_time rt r ''revoked_at'',
      sess_created_at = get_time rt r ''created_at''\<rparr>"

definition session_create :: "'s adapter \<Rightarrow> session \<Rightarrow> ('s, err + unit) state" where
  "session_create ad x = do {
     r \<leftarrow> ad_create ad ModelSessions (session_row x);
     State_Monad.return (map_sum conflict_err (\<lambda>_. ()) r)
   }"

definition session_get_by_id :: "runtime \<Rightarrow> 's adapter \<Rightarrow> string \<Rightarrow> ('s, err + session) state" where
  "session_get_by_id rt ad i = do {
     r \<leftarrow> ad_find_one ad ModelSessions [Eq ''id'' (VStr i)];
     State_Monad.return (map_sum not_found_err (to_session rt) r)
   }"

definition session_get_by_hash :: "runtime \<Rightarrow> 's adapter \<Rightarrow> string \<Rightarrow> ('s, err + session) state" where
  "session_get_by_hash rt ad h = do {
     r \<leftarrow> ad_find_one ad ModelSessions [Eq ''token_hash'' (VStr h)];
     State_Monad.return (map_sum not_found_err (to_session rt) r)
   }"

definition session_list_by_user :: "runtime \<Rightarrow> 's adapter \<Rightarrow> string \<Rightarrow> ('s, err + session list) state" where
  "session_list_by_user rt ad uid = do {
     r \<leftarrow> ad_find_many ad (query_where ModelSessions [Eq ''user_id'' (VStr uid)]);
     State_Monad.return (map_sum id (map (to_session rt)) r)
   }"

definition session_revoke :: "'s adapter \<Rightarrow> string \<Rightarrow> time \<Rightarrow> ('s, err + unit) state" where
  "session_revoke ad i at = do {
     r \<leftarrow> ad_update ad ModelSessions [Eq ''id'' (VStr i)] [''revoked_at'' \<mapsto> VTime at];
     check r (\<lambda>n. if n = 0 then fail StoreNotFound else ok ())
   }"

text \<open>The loop of \<open>RevokeByUser\<close>: the error of each \<open>Revoke\<close> is dropped.\<close>

fun session_revoke_each :: "'s adapter \<Rightarrow> time \<Rightarrow> session list \<Rightarrow> ('s, session list) state" where
  "session_revoke_each ad at [] = State_Monad.return []"
| "session_revoke_each ad at (x # xs) =
     (if sess_revoked_at x = None then do {
        _ \<leftarrow> session_revoke ad (sess_id x) at;
        rest \<leftarrow> session_revoke_each ad at xs;
        State_Monad.return (x\<lparr>sess_revoked_at := Some at\<rparr> # rest)
      } else session_revoke_each ad at xs)"

definition session_revoke_by_user ::
  "runtime \<Rightarrow> 's adapter \<Rightarrow> string \<Rightarrow> time \<Rightarrow> ('s, err + session list) state" where
  "session_revoke_by_user rt ad uid at =
     bindE (session_list_by_user rt ad uid) (\<lambda>xs. do {
       rs \<leftarrow> session_revoke_each ad at xs;
       ok rs
     })"

definition session_delete_expired :: "'s adapter \<Rightarrow> time \<Rightarrow> ('s, err + int) state" where
  "session_delete_expired ad cutoff = ad_delete ad ModelSessions [Lt ''expires_at'' (VTime cutoff)]"

section \<open>Verification tokens\<close>

definition token_row :: "token \<Rightarrow> row" where
  "token_row t = [
     ''id'' \<mapsto> VStr (tok_id t),
     ''purpose'' \<mapsto> VStr (tok_purpose t),
     ''subject'' \<mapsto> VStr (tok_subject t),
     ''token_hash'' \<mapsto> VStr (tok_token_hash t),
     ''expires_at'' \<mapsto> VTime (tok_expires_at t),
     ''used_at'' \<mapsto> VTimePtr (tok_used_at t),
     ''created_at'' \<mapsto> VTime (tok_created_at t)]"

definition to_token :: "runtime \<Rightarrow> row \<Rightarrow> token" where
  "to_token rt r =
     \<lparr>tok_id = get_string r ''id'',
      tok_purpose = get_string r ''purpose'',
      tok_subject = get_string r ''subject'',
      tok_token_hash = get_string r ''token_hash'',
      tok_expires_at = get_time rt r ''expires_at'',
      tok_used_at = get_optional_time rt r ''used_at'',
      tok_created_at = get_time rt r ''created_at''\<rparr>"

definition token_create :: "'s adapter \<Rightarrow> token \<Rightarrow> ('s, err + unit) state" where
  "token_create ad t = do {
     r \<leftarrow> ad_create ad ModelVerifications (token_row t);
     State_Monad.return (map_sum conflict_err (\<lambda>_. ()) r)
   }"

definition token_get_by_hash :: "runtime \<Rightarrow> 's adapter \<Rightarrow> string \<Rightarrow> ('s, err + token) state" where
  "token_get_by_hash rt ad h = do {
     r \<leftarrow> ad_find_one ad ModelVerifications [Eq ''token_hash'' (VStr h)];
     State_Monad.return (map_sum not_found_err (to_token rt) r)
   }"

definition token_mark_used :: "'s adapter \<Rightarrow> string \<Rightarrow> time \<Rightarrow> ('s, err + unit) state" where
  "token_mark_used ad i at = do {
     r \<leftarrow> ad_update ad ModelVerifications [Eq ''id'' (VStr i), IsNull ''used_at'']
            [''used_at'' \<mapsto> VTime at];
     check r (\<lambda>n. if n = 0 then fail StoreConflict else ok ())
   }"

definition token_delete_by_subject :: "'s adapter \<Rightarrow> string \<Rightarrow> string \<Rightarrow> ('s, err + unit) state" where
  "token_delete_by_subject ad purpose subject = do {
     r \<leftarrow> ad_delete ad ModelVerifications
            [Eq ''purpose'' (VStr purpose), Eq ''subject'' (VStr subject)];
     State_Monad.return (map_sum id (\<lambda>_. ()) r)
   }"

definition token_delete_expired :: "'s adapter \<Rightarrow> time \<Rightarrow> ('s, err + int) state" where
  "token_delete_expired ad cutoff =
     ad_delete ad ModelVerifications [Lt ''expires_at'' (VTime cutoff)]"

section \<open>The store\<close>

definition bridge_new :: "runtime \<Rightarrow> 's adapter \<Rightarrow> 's store" where
  "bridge_new rt ad =
     \<lparr>users_create = user_create ad, users_get_by_id = user_get_by_id ad,
      users_get_by_email = user_get_by_email ad, users_update = user_update ad,
      users_delete = user_delete ad,
      accounts_create = account_create ad, accounts_get_by_id = account_get_by_id rt ad,
      accounts_get_by_provider = account_get_by_provider rt ad,
      accounts_list_by_user = account_list_by_user rt ad, accounts_delete = account_delete ad,
      credentials_create = credential_create ad, credentials_get_by_id = credential_get_by_id rt ad,
      credentials_get_active = credential_get_active rt ad,
      credentials_list_by_user = credential_list_by_user rt ad,
      credentials_update = credential_update ad, credentials_revoke = credential_revoke ad,
      sessions_create = session_create ad, sessions_get_by_id = session_get_by_id rt ad,
      sessions_get_by_hash = session_get_by_hash rt ad,
      sessions_list_by_user = session_list_by_user rt ad, sessions_revoke = session_revoke ad,
      sessions_revoke_by_user = session_revoke_by_user rt ad,
      sessions_delete_expired = session_delete_expired ad,
      tokens_create = token_create ad, tokens_get_by_hash = token_get_by_hash rt ad,
      tokens_mark_used = token_mark_used ad,
      tokens_delete_by_subject = token_delete_by_subject ad,
      tokens_delete_expired = token_delete_expired ad,
      store_rollback = ad_rollback ad\<rparr>"

section \<open>What is stored, as entities\<close>

text \<open>
  The columns of the core models that conditions and unique constraints speak of: strings,
  instants, and optional instants, in which the zero time does not occur.
\<close>

definition string_columns :: "string \<Rightarrow> string list" where
  "string_columns m =
     (if m = ModelUsers then [''id'', ''email'']
      else if m = ModelAccounts then [''id'', ''user_id'', ''provider'', ''provider_id'']
      else if m = ModelCredentials then [''id'', ''user_id'', ''account_id'', ''type'']
      else if m = ModelSessions then [''id'', ''user_id'', ''token_hash'']
      else [''id'', ''purpose'', ''subject'', ''token_hash''])"

definition time_columns :: "string \<Rightarrow> string list" where
  "time_columns m = (if m = ModelSessions \<or> m = ModelVerifications then [''expires_at''] else [])"

definition optional_columns :: "string \<Rightarrow> string list" where
  "optional_columns m =
     (if m = ModelCredentials \<or> m = ModelSessions then [''revoked_at'']
      else if m = ModelVerifications then [''used_at''] else [])"

lemmas column_defs = string_columns_def time_columns_def optional_columns_def

definition optional_value :: "gval option \<Rightarrow> bool" where
  "optional_value v \<longleftrightarrow> v = Some (VTimePtr None) \<or>
     (\<exists>t. t \<noteq> 0 \<and> (v = Some (VTime t) \<or> v = Some (VTimePtr (Some t))))"

definition row_ok :: "(string \<Rightarrow> bool) \<Rightarrow> string \<Rightarrow> row \<Rightarrow> bool" where
  "row_ok plain m r \<longleftrightarrow>
     (\<forall>k \<in> set (string_columns m). \<exists>a. r k = Some (VStr a)) \<and>
     (\<forall>k \<in> set (time_columns m). \<exists>t. r k = Some (VTime t)) \<and>
     (\<forall>k \<in> set (optional_columns m). optional_value (r k)) \<and>
     plain (get_string r ''id'')"

text \<open>The unique tuples that no update changes: all but the email of a user.\<close>

definition kept_unique :: "string \<Rightarrow> string list list" where
  "kept_unique m = filter (\<lambda>fs. fs \<noteq> [''email'']) (core_unique m)"

definition tuple :: "string list \<Rightarrow> row \<Rightarrow> string list" where
  "tuple fs r = map (get_string r) fs"

definition table_ok :: "(string \<Rightarrow> bool) \<Rightarrow> string \<Rightarrow> row multiset \<Rightarrow> bool" where
  "table_ok plain m M \<longleftrightarrow>
     (\<forall>r \<in># M. row_ok plain m r) \<and> (\<forall>fs \<in> set (kept_unique m). uniq (tuple fs) M)"

definition view_of :: "runtime \<Rightarrow> (string \<Rightarrow> row multiset) \<Rightarrow> db" where
  "view_of rt t =
     \<lparr>db_users = image_mset to_user (t ModelUsers),
      db_accounts = image_mset (to_account rt) (t ModelAccounts),
      db_credentials = image_mset (to_credential rt) (t ModelCredentials),
      db_sessions = image_mset (to_session rt) (t ModelSessions),
      db_tokens = image_mset (to_token rt) (t ModelVerifications)\<rparr>"

lemma model_names_distinct [simp]:
  "ModelUsers \<noteq> ModelAccounts" "ModelUsers \<noteq> ModelCredentials" "ModelUsers \<noteq> ModelSessions"
  "ModelUsers \<noteq> ModelVerifications" "ModelAccounts \<noteq> ModelCredentials"
  "ModelAccounts \<noteq> ModelSessions" "ModelAccounts \<noteq> ModelVerifications"
  "ModelCredentials \<noteq> ModelSessions" "ModelCredentials \<noteq> ModelVerifications"
  "ModelSessions \<noteq> ModelVerifications"
  "ModelAccounts \<noteq> ModelUsers" "ModelCredentials \<noteq> ModelUsers" "ModelSessions \<noteq> ModelUsers"
  "ModelVerifications \<noteq> ModelUsers" "ModelCredentials \<noteq> ModelAccounts"
  "ModelSessions \<noteq> ModelAccounts" "ModelVerifications \<noteq> ModelAccounts"
  "ModelSessions \<noteq> ModelCredentials" "ModelVerifications \<noteq> ModelCredentials"
  "ModelVerifications \<noteq> ModelSessions"
  by (simp_all add: model_names)

lemma core_models_simps [simp]:
  "ModelUsers \<in> set core_models" "ModelAccounts \<in> set core_models"
  "ModelCredentials \<in> set core_models" "ModelSessions \<in> set core_models"
  "ModelVerifications \<in> set core_models"
  by (simp_all add: core_models_def)

lemma get_string_VStr [simp]: "r k = Some (VStr a) \<Longrightarrow> get_string r k = a"
  by (simp add: get_string_def)

lemma get_time_VTime [simp]: "r k = Some (VTime t) \<Longrightarrow> get_time rt r k = t"
  by (simp add: get_time_def)

lemma get_optional_simps [simp]:
  "r k = Some (VTimePtr None) \<Longrightarrow> get_optional_time rt r k = None"
  "r k = Some (VTimePtr (Some t)) \<Longrightarrow> get_optional_time rt r k = (if t = 0 then None else Some t)"
  "r k = Some (VTime t) \<Longrightarrow> get_optional_time rt r k = (if t = 0 then None else Some t)"
  by (simp_all add: get_optional_time_def get_time_def Let_def)

lemma get_upd [simp]:
  "k \<noteq> k' \<Longrightarrow> get_string (r(k' \<mapsto> v)) k = get_string r k"
  "k \<noteq> k' \<Longrightarrow> get_time rt (r(k' \<mapsto> v)) k = get_time rt r k"
  "k \<noteq> k' \<Longrightarrow> get_optional_time rt (r(k' \<mapsto> v)) k = get_optional_time rt r k"
  by (simp_all add: get_string_def get_time_def get_optional_time_def Let_def
      split: option.splits gval.splits)

lemma get_upd_same [simp]:
  "get_string (r(k \<mapsto> VStr a)) k = a"
  "get_time rt (r(k \<mapsto> VTime t)) k = t"
  "t \<noteq> 0 \<Longrightarrow> get_optional_time rt (r(k \<mapsto> VTime t)) k = Some t"
  "p \<noteq> Some 0 \<Longrightarrow> get_optional_time rt (r(k \<mapsto> VTimePtr p)) k = p"
  by (cases p; simp add: get_string_def get_time_def get_optional_time_def Let_def)+

text \<open>An entity that is written as a row is read back as it was.\<close>

lemma to_user_row: "to_user (user_row u) = u"
  by (simp add: to_user_def user_row_def)

lemma to_account_row: "to_account rt (account_row a) = a"
  by (simp add: to_account_def account_row_def)

lemma to_credential_row:
  "cred_revoked_at c \<noteq> Some 0 \<Longrightarrow> to_credential rt (credential_row c) = c"
  by (simp add: to_credential_def credential_row_def)

lemma to_session_row: "sess_revoked_at x \<noteq> Some 0 \<Longrightarrow> to_session rt (session_row x) = x"
  by (simp add: to_session_def session_row_def)

lemma to_token_row: "tok_used_at t \<noteq> Some 0 \<Longrightarrow> to_token rt (token_row t) = t"
  by (simp add: to_token_def token_row_def)

lemma optional_ptr: "p \<noteq> Some 0 \<Longrightarrow> optional_value (Some (VTimePtr p))"
  by (cases p) (auto simp: optional_value_def)

lemma optional_time: "t \<noteq> 0 \<Longrightarrow> optional_value (Some (VTime t))"
  by (auto simp: optional_value_def)

lemma row_ok_rows:
  "plain (user_id u) \<Longrightarrow> row_ok plain ModelUsers (user_row u)"
  "plain (acc_id a) \<Longrightarrow> row_ok plain ModelAccounts (account_row a)"
  "plain (cred_id c) \<Longrightarrow> cred_revoked_at c \<noteq> Some 0 \<Longrightarrow> row_ok plain ModelCredentials (credential_row c)"
  "plain (sess_id x) \<Longrightarrow> sess_revoked_at x \<noteq> Some 0 \<Longrightarrow> row_ok plain ModelSessions (session_row x)"
  "plain (tok_id k) \<Longrightarrow> tok_used_at k \<noteq> Some 0 \<Longrightarrow> row_ok plain ModelVerifications (token_row k)"
  by (simp_all add: row_ok_def column_defs user_row_def account_row_def credential_row_def
      session_row_def token_row_def optional_ptr)

lemma table_ok_add:
  assumes "table_ok plain m M" "row_ok plain m d"
    and "\<forall>fs \<in> set (core_unique m). \<forall>r \<in># M. tuple fs r \<noteq> tuple fs d"
  shows "table_ok plain m (add_mset d M)"
  using assms by (auto simp: table_ok_def kept_unique_def intro!: uniq_add)

lemma table_ok_filter: "table_ok plain m M \<Longrightarrow> table_ok plain m (filter_mset P M)"
  by (auto simp: table_ok_def intro: uniq_filter)

lemma table_ok_update:
  assumes "table_ok plain m M" "\<And>r. row_ok plain m r \<Longrightarrow> row_ok plain m (r ++ u)"
    and "\<forall>fs \<in> set (kept_unique m). \<forall>f \<in> set fs. u f = None"
  shows "table_ok plain m (image_mset (\<lambda>r. if P r then r ++ u else r) M)"
proof -
  have "tuple fs (r ++ u) = tuple fs r" if "fs \<in> set (kept_unique m)" for fs r
    using assms(3) that by (auto simp: tuple_def get_string_def map_add_def)
  with assms(1,2) show ?thesis by (auto simp: table_ok_def intro!: uniq_image)
qed

lemma image_upd:
  assumes "\<And>r. r \<in># M \<Longrightarrow> P r \<longleftrightarrow> Q (f r)" "\<And>r. r \<in># M \<Longrightarrow> f (h r) = g (f r)"
  shows "image_mset f (image_mset (\<lambda>r. if P r then h r else r) M) = upd_where Q g (image_mset f M)"
  using assms by (induction M) (auto simp: upd_where_def)

lemma image_filter:
  assumes "\<And>r. r \<in># M \<Longrightarrow> P r \<longleftrightarrow> Q (f r)"
  shows "image_mset f (filter_mset P M) = filter_mset Q (image_mset f M)"
  using assms by (induction M) auto

lemma uniq_image_mset: "uniq f (image_mset g M) \<longleftrightarrow> uniq (\<lambda>x. f (g x)) M"
proof -
  have "size {#x \<in># image_mset g M. f x = k#} = size {#x \<in># M. f (g x) = k#}" for k
    by (induction M) auto
  then show ?thesis by (simp add: uniq_def)
qed

lemma uniq_inj:
  assumes h: "\<And>x y. g x = g y \<longleftrightarrow> f x = f y" and u: "uniq g M"
  shows "uniq f M"
proof -
  have "size {#x \<in># M. f x = k#} \<le> 1" for k
  proof (cases "\<exists>y. f y = k")
    case True
    then obtain y where "f y = k" by blast
    then have "f x = k \<longleftrightarrow> g x = g y" for x using h by metis
    with u show ?thesis by (simp add: uniq_def)
  next
    case False
    then show ?thesis by (simp add: filter_mset_eq_conv filter_mset_False)
  qed
  then show ?thesis by (simp add: uniq_def)
qed

end
