(* ===== verification/Bridge_Correct.thy ===== *)
theory Bridge_Correct
  imports Bridge
begin

text \<open>
  The bridge keeps the contract of a store on every adapter that keeps the contract of an
  adapter (\<open>bridged_adapter\<close>, a sublocale of \<open>store_contract\<close>), in particular on the
  in-memory adapter (interpretation \<open>membridge\<close>).
\<close>

locale bridged_adapter = adapter_contract ad inv tbl sat plain
  for ad :: "'s adapter" and inv tbl sat plain +
  fixes rt :: runtime
begin

definition binv :: "'s \<Rightarrow> bool" where
  "binv s \<longleftrightarrow> inv s \<and> (\<forall>m \<in> set core_models. table_ok plain m (tbl s m))"

definition bview :: "'s \<Rightarrow> db" where
  "bview s = view_of rt (tbl s)"

lemma binv_inv: "binv s \<Longrightarrow> inv s"
  by (simp add: binv_def)

lemma binv_row: "binv s \<Longrightarrow> m \<in> set core_models \<Longrightarrow> r \<in># tbl s m \<Longrightarrow> row_ok plain m r"
  by (simp add: binv_def table_ok_def)

lemma binv_upd:
  "binv s \<Longrightarrow> inv s' \<Longrightarrow> tbl s' = (tbl s)(m := M) \<Longrightarrow> table_ok plain m M \<Longrightarrow> binv s'"
  by (auto simp: binv_def)

lemma binv_same: "binv s \<Longrightarrow> inv s' \<Longrightarrow> tbl s' = tbl s \<Longrightarrow> binv s' \<and> bview s' = bview s"
  by (simp add: binv_def bview_def)

lemma view_same: "tbl s' = tbl s \<Longrightarrow> bview s' = bview s"
  by (simp add: bview_def)

text \<open>Conditions on well-formed rows.\<close>

lemma sat_string:
  assumes "row_ok plain m r" "k \<in> set (string_columns m)"
  shows "plain b \<or> plain (get_string r k) \<Longrightarrow> sat (Eq k (VStr b)) r \<longleftrightarrow> get_string r k = b"
    and "sat (Eq k (VStr (get_string r k))) r"
proof -
  from assms obtain a where a: "r k = Some (VStr a)" by (auto simp: row_ok_def)
  show "plain b \<or> plain (get_string r k) \<Longrightarrow> sat (Eq k (VStr b)) r \<longleftrightarrow> get_string r k = b"
    using sat_eq [of r k a b] a by auto
  show "sat (Eq k (VStr (get_string r k))) r"
    using sat_eq_refl [of r k a] a by simp
qed

lemma id_column: "m \<in> set core_models \<Longrightarrow> ''id'' \<in> set (string_columns m)"
  by (auto simp: string_columns_def)

lemma sat_id:
  "m \<in> set core_models \<Longrightarrow> row_ok plain m r \<Longrightarrow> sat (Eq ''id'' (VStr b)) r \<longleftrightarrow> get_string r ''id'' = b"
  using sat_string(1) [OF _ id_column] by (auto simp: row_ok_def)

lemma sat_optional:
  "row_ok plain m r \<Longrightarrow> k \<in> set (optional_columns m) \<Longrightarrow>
   sat (IsNull k) r \<longleftrightarrow> get_optional_time rt r k = None"
  unfolding row_ok_def sat_null optional_value_def by fastforce

lemma sat_time:
  assumes "row_ok plain m r" "k \<in> set (time_columns m)"
  shows "sat (Lt k (VTime t0)) r \<longleftrightarrow> get_time rt r k < t0"
proof -
  from assms obtain t where "r k = Some (VTime t)" by (auto simp: row_ok_def)
  then show ?thesis using sat_lt by auto
qed

lemma same_strings_tuple:
  assumes "row_ok plain m r" "row_ok plain m d" "set fs \<subseteq> set (string_columns m)"
  shows "same_strings fs r d \<longleftrightarrow> tuple fs r = tuple fs d"
proof -
  have "(\<exists>a. r f = Some (VStr a) \<and> d f = Some (VStr a)) \<longleftrightarrow> get_string r f = get_string d f"
    if "f \<in> set fs" for f
  proof -
    from assms that obtain a b where "r f = Some (VStr a)" "d f = Some (VStr b)"
      unfolding row_ok_def by blast
    then show ?thesis by auto
  qed
  then show ?thesis by (simp add: same_strings_def tuple_def)
qed

lemma core_unique_strings:
  "m \<in> set core_models \<Longrightarrow> fs \<in> set (core_unique m) \<Longrightarrow> set fs \<subseteq> set (string_columns m)"
  by (auto simp: core_unique_def string_columns_def core_models_def split: if_splits)

text \<open>The shapes of the bridge's operations.\<close>

lemma create_op:
  assumes b: "binv s" and m: "m \<in> set core_models" and d: "row_ok plain m d"
    and V: "\<And>s' M. tbl s' = (tbl s)(m := M) \<Longrightarrow> bview s' = V M"
    and run: "run_state (do { r \<leftarrow> ad_create ad m d;
      State_Monad.return (map_sum conflict_err (\<lambda>_. ()) r) }) s = (r, s')"
  shows "binv s' \<and> (case r of Inl _ \<Rightarrow> bview s' = bview s | Inr _ \<Rightarrow>
    bview s' = V (add_mset d (tbl s m)) \<and>
    (\<forall>fs \<in> set (core_unique m). \<forall>x \<in># tbl s m. tuple fs x \<noteq> tuple fs d))"
proof -
  obtain r0 where r0: "run_state (ad_create ad m d) s = (r0, s')" "r = map_sum conflict_err (\<lambda>_. ()) r0"
    using run by (auto split: prod.splits)
  show ?thesis
  proof (cases r0)
    case (Inl e)
    with r0 create_Inl [OF binv_inv [OF b] m] have "inv s'" "tbl s' = tbl s" by blast+
    with binv_same [OF b] Inl r0 show ?thesis by simp
  next
    case (Inr x)
    with r0 create_Inr [OF binv_inv [OF b] m] have *: "inv s'" "tbl s' = (tbl s)(m := add_mset d (tbl s m))"
      "\<forall>fs \<in> set (core_unique m). \<forall>r' \<in># tbl s m. \<not> same_strings fs r' d"
      by blast+
    then have new: "\<forall>fs \<in> set (core_unique m). \<forall>r' \<in># tbl s m. tuple fs r' \<noteq> tuple fs d"
      using same_strings_tuple [OF binv_row [OF b m] d core_unique_strings [OF m]] by blast
    have "table_ok plain m (add_mset d (tbl s m))"
      using b m d new by (intro table_ok_add) (auto simp: binv_def)
    with binv_upd [OF b *(1,2)] V [OF *(2)] new Inr r0 show ?thesis by simp
  qed
qed

lemma find_op:
  assumes b: "binv s"
    and run: "run_state (do { r \<leftarrow> ad_find_one ad m w;
      State_Monad.return (map_sum not_found_err f r) }) s = (r, s')"
    and P: "\<And>x. x \<in># tbl s m \<Longrightarrow> P (f x) \<Longrightarrow> sats sat w x"
    and Q: "\<And>x. x \<in># tbl s m \<Longrightarrow> sats sat w x \<Longrightarrow> Q (f x)"
  shows "s' = s \<and> got (image_mset f (tbl s m)) P Q r"
proof -
  obtain r0 where r0: "run_state (ad_find_one ad m w) s = (r0, s')" "r = map_sum not_found_err f r0"
    using run by (auto split: prod.splits)
  show ?thesis
  proof (cases r0)
    case (Inl e)
    with r0 find_one_Inl [OF binv_inv [OF b]] have "s' = s"
      "e = AdapterNotFound \<or> e = StoreNotFound \<Longrightarrow> (\<forall>r \<in># tbl s m. \<not> sats sat w r)" by blast+
    with Inl r0 P show ?thesis by (auto simp: got_def not_found_err_def)
  next
    case (Inr x)
    with r0 find_one_Inr [OF binv_inv [OF b]] Q show ?thesis by (auto simp: got_def)
  qed
qed

lemma list_op:
  assumes b: "binv s"
    and run: "run_state (do { r \<leftarrow> ad_find_many ad (query_where m w);
      State_Monad.return (map_sum id (map f) r) }) s = (r, s')"
    and P: "\<And>x. p \<Longrightarrow> x \<in># tbl s m \<Longrightarrow> sats sat w x \<longleftrightarrow> P (f x)"
  shows "s' = s \<and> (case r of Inl _ \<Rightarrow> True | Inr xs \<Rightarrow>
    p \<longrightarrow> mset xs = filter_mset P (image_mset f (tbl s m)))"
proof -
  obtain r0 where r0: "run_state (ad_find_many ad (query_where m w)) s = (r0, s')"
    "r = map_sum id (map f) r0"
    using run by (auto split: prod.splits)
  show ?thesis
  proof (cases r0)
    case (Inl e)
    with r0 find_many_Inl [OF binv_inv [OF b]] show ?thesis by simp
  next
    case (Inr x)
    with r0 find_many_Inr [OF binv_inv [OF b]] have *: "s' = s" "mset x = filter_mset (sats sat w) (tbl s m)"
      by blast+
    have "p \<Longrightarrow> image_mset f (filter_mset (sats sat w) (tbl s m)) = filter_mset P (image_mset f (tbl s m))"
      using P by (intro image_filter) auto
    with * Inr r0 show ?thesis by simp
  qed
qed

lemma update_op:
  assumes b: "binv s" and m: "m \<in> set core_models"
    and u: "u ''id'' = None" "\<And>r. row_ok plain m r \<Longrightarrow> row_ok plain m (r ++ u)"
      "\<forall>fs \<in> set (kept_unique m). \<forall>f \<in> set fs. u f = None"
    and run: "run_state (do { r \<leftarrow> ad_update ad m w u;
      check (map_sum fe id r) (\<lambda>n. if n = 0 then fail ze else ok ()) }) s = (r, s')"
    and V: "\<And>s' M. tbl s' = (tbl s)(m := M) \<Longrightarrow> bview s' = V (image_mset f M)"
    and P: "\<And>x. x \<in># tbl s m \<Longrightarrow> sats sat w x \<longleftrightarrow> P (f x)"
    and g: "\<And>x. x \<in># tbl s m \<Longrightarrow> f (x ++ u) = g (f x)"
  shows "binv s' \<and> (case r of Inl _ \<Rightarrow> bview s' = bview s | Inr _ \<Rightarrow>
    (\<exists>x \<in># image_mset f (tbl s m). P x) \<and> bview s' = V (upd_where P g (image_mset f (tbl s m))))"
proof -
  obtain r0 where r0: "run_state (ad_update ad m w u) s = (r0, s')"
    "r = (case r0 of Inl e \<Rightarrow> Inl (fe e) | Inr n \<Rightarrow> if n = 0 then Inl ze else Inr ())"
    using run by (cases "fst (run_state (ad_update ad m w u) s)")
      (auto split: prod.splits if_splits)
  show ?thesis
  proof (cases r0)
    case (Inl e)
    with r0 update_Inl [OF binv_inv [OF b]] have "inv s'" "tbl s' = tbl s" by blast+
    with binv_same [OF b] Inl r0 show ?thesis by simp
  next
    case (Inr n)
    with r0 have run': "run_state (ad_update ad m w u) s = (Inr n, s')" by simp
    from update_Inr [OF binv_inv [OF b] m u(1) run'] have *: "inv s'"
      "n = int (size (filter_mset (sats sat w) (tbl s m)))"
      "tbl s' = (tbl s)(m := image_mset (\<lambda>r. if sats sat w r then r ++ u else r) (tbl s m))"
      by blast+
    have "table_ok plain m (image_mset (\<lambda>r. if sats sat w r then r ++ u else r) (tbl s m))"
      using b m u(2,3) by (intro table_ok_update) (auto simp: binv_def)
    with binv_upd [OF b *(1,3)] have "binv s'" .
    moreover have "n = 0 \<Longrightarrow> tbl s' = tbl s"
      using update_zero(1) [of s m u w s'] binv_inv [OF b] m u(1) run' by blast
    moreover have "n \<noteq> 0 \<Longrightarrow> \<exists>x \<in># tbl s m. sats sat w x"
      using * none_sat [of "sats sat w" "tbl s m"] by auto
    moreover have "bview s' = V (upd_where P g (image_mset f (tbl s m)))"
      using V [OF *(3)] image_upd [of "tbl s m" "sats sat w" P f "\<lambda>r. r ++ u" g] P g by simp
    moreover have "n = 0 \<Longrightarrow> bview s' = bview s"
      using view_same calculation(2) by blast
    moreover have "n \<noteq> 0 \<Longrightarrow> \<exists>x \<in># image_mset f (tbl s m). P x"
      using calculation(3) P by auto
    moreover have "r = (if n = 0 then Inl ze else Inr ())"
      using Inr r0 by simp
    ultimately show ?thesis by simp
  qed
qed

lemma delete_raw:
  assumes b: "binv s" and run: "run_state (ad_delete ad m w) s = (r0, s')"
    and V: "\<And>s' M. tbl s' = (tbl s)(m := M) \<Longrightarrow> bview s' = V (image_mset f M)"
    and P: "\<And>x. x \<in># tbl s m \<Longrightarrow> sats sat w x \<longleftrightarrow> P (f x)"
  shows "binv s' \<and> (case r0 of Inl _ \<Rightarrow> bview s' = bview s | Inr n \<Rightarrow>
    n = int (size (filter_mset P (image_mset f (tbl s m)))) \<and>
    bview s' = V (filter_mset (\<lambda>x. \<not> P x) (image_mset f (tbl s m))))"
proof (cases r0)
  case (Inl e)
  with run delete_Inl [OF binv_inv [OF b]] have "inv s'" "tbl s' = tbl s" by blast+
  with binv_same [OF b] Inl show ?thesis by simp
next
  case (Inr n)
  with run delete_Inr [OF binv_inv [OF b]] have *: "inv s'"
    "n = int (size (filter_mset (sats sat w) (tbl s m)))"
    "tbl s' = (tbl s)(m := filter_mset (\<lambda>r. \<not> sats sat w r) (tbl s m))" by blast+
  have "binv s'"
    using b * table_ok_filter by (auto simp: binv_def)
  moreover have "size (filter_mset P (image_mset f (tbl s m))) = size (filter_mset (sats sat w) (tbl s m))"
    using image_filter [of "tbl s m" "sats sat w" P f] P by (metis size_image_mset)
  moreover have "bview s' = V (filter_mset (\<lambda>x. \<not> P x) (image_mset f (tbl s m)))"
    using V [OF *(3)] image_filter [of "tbl s m" "\<lambda>r. \<not> sats sat w r" "\<lambda>x. \<not> P x" f] P by simp
  ultimately show ?thesis using *(2) Inr by simp
qed

lemma delete_op:
  assumes b: "binv s"
    and run: "run_state (do { r \<leftarrow> ad_delete ad m w;
      check r (\<lambda>n. if n = 0 then fail ze else ok ()) }) s = (r, s')"
    and V: "\<And>s' M. tbl s' = (tbl s)(m := M) \<Longrightarrow> bview s' = V (image_mset f M)"
    and P: "\<And>x. x \<in># tbl s m \<Longrightarrow> sats sat w x \<longleftrightarrow> P (f x)"
  shows "binv s' \<and> (case r of Inl _ \<Rightarrow> bview s' = bview s | Inr _ \<Rightarrow>
    bview s' = V (filter_mset (\<lambda>x. \<not> P x) (image_mset f (tbl s m))))"
proof -
  obtain r0 where r0: "run_state (ad_delete ad m w) s = (r0, s')"
    "r = (case r0 of Inl e \<Rightarrow> Inl e | Inr n \<Rightarrow> if n = 0 then Inl ze else Inr ())"
    using run by (auto simp: check_def split: prod.splits sum.splits if_splits)
  have "filter_mset (\<lambda>x. \<not> P x) (image_mset f (tbl s m)) = image_mset f (tbl s m)"
    if "size (filter_mset P (image_mset f (tbl s m))) = 0"
    using that unfolding none_sat by (simp add: filter_mset_eq_conv)
  moreover have "bview s = V (image_mset f (tbl s m))"
    using V [of s "tbl s m"] by simp
  ultimately show ?thesis
    using delete_raw [where f = f and V = V and P = P, OF b r0(1) V P] r0(2) by (auto split: sum.splits)
qed

text \<open>The view after a change of one table.\<close>

lemma view_upd:
  "tbl s' = (tbl s)(ModelUsers := M) \<Longrightarrow> bview s' = (bview s)\<lparr>db_users := image_mset to_user M\<rparr>"
  "tbl s' = (tbl s)(ModelAccounts := M) \<Longrightarrow> bview s' = (bview s)\<lparr>db_accounts := image_mset (to_account rt) M\<rparr>"
  "tbl s' = (tbl s)(ModelCredentials := M) \<Longrightarrow>
     bview s' = (bview s)\<lparr>db_credentials := image_mset (to_credential rt) M\<rparr>"
  "tbl s' = (tbl s)(ModelSessions := M) \<Longrightarrow> bview s' = (bview s)\<lparr>db_sessions := image_mset (to_session rt) M\<rparr>"
  "tbl s' = (tbl s)(ModelVerifications := M) \<Longrightarrow> bview s' = (bview s)\<lparr>db_tokens := image_mset (to_token rt) M\<rparr>"
  by (simp_all add: bview_def view_of_def)

lemma bview_sel:
  "db_users (bview s) = image_mset to_user (tbl s ModelUsers)"
  "db_accounts (bview s) = image_mset (to_account rt) (tbl s ModelAccounts)"
  "db_credentials (bview s) = image_mset (to_credential rt) (tbl s ModelCredentials)"
  "db_sessions (bview s) = image_mset (to_session rt) (tbl s ModelSessions)"
  "db_tokens (bview s) = image_mset (to_token rt) (tbl s ModelVerifications)"
  by (simp_all add: bview_def view_of_def)

lemma uniq_col:
  assumes "binv s" "m \<in> set core_models" "fs \<in> set (kept_unique m)"
    and "\<And>x y. tuple fs x = tuple fs y \<longleftrightarrow> h (f x) = h (f y)"
  shows "uniq h (image_mset f (tbl s m))"
proof -
  have "uniq (tuple fs) (tbl s m)" using assms(1-3) by (simp add: binv_def table_ok_def)
  then have "uniq (\<lambda>x. h (f x)) (tbl s m)" using uniq_inj [of "tuple fs" "\<lambda>x. h (f x)"] assms(4) by blast
  then show ?thesis by (simp add: uniq_image_mset)
qed

lemma kept_unique_simps:
  "m \<in> set core_models \<Longrightarrow> [''id''] \<in> set (kept_unique m)"
  "[''token_hash''] \<in> set (kept_unique ModelSessions)"
  "[''token_hash''] \<in> set (kept_unique ModelVerifications)"
  "[''provider'', ''provider_id''] \<in> set (kept_unique ModelAccounts)"
  by (auto simp: kept_unique_def core_unique_def)

lemma tuple_eqs:
  "tuple [''id''] x = tuple [''id''] y \<longleftrightarrow> user_id (to_user x) = user_id (to_user y)"
  "tuple [''id''] x = tuple [''id''] y \<longleftrightarrow> acc_id (to_account rt x) = acc_id (to_account rt y)"
  "tuple [''id''] x = tuple [''id''] y \<longleftrightarrow> cred_id (to_credential rt x) = cred_id (to_credential rt y)"
  "tuple [''id''] x = tuple [''id''] y \<longleftrightarrow> sess_id (to_session rt x) = sess_id (to_session rt y)"
  "tuple [''id''] x = tuple [''id''] y \<longleftrightarrow> tok_id (to_token rt x) = tok_id (to_token rt y)"
  "tuple [''token_hash''] x = tuple [''token_hash''] y \<longleftrightarrow>
     sess_token_hash (to_session rt x) = sess_token_hash (to_session rt y)"
  "tuple [''token_hash''] x = tuple [''token_hash''] y \<longleftrightarrow>
     tok_token_hash (to_token rt x) = tok_token_hash (to_token rt y)"
  "tuple [''email''] x = tuple [''email''] y \<longleftrightarrow> user_email (to_user x) = user_email (to_user y)"
  by (simp_all add: tuple_def to_user_def to_account_def to_credential_def to_session_def to_token_def)

lemma tuple_provider:
  "tuple [''provider'', ''provider_id''] x = tuple [''provider'', ''provider_id''] y \<longleftrightarrow>
     acc_provider (to_account rt x) = acc_provider (to_account rt y) \<and>
     acc_provider_id (to_account rt x) = acc_provider_id (to_account rt y)"
  by (simp add: tuple_def to_account_def)

lemma bview_db_ok: "binv s \<Longrightarrow> db_ok (bview s)"
  unfolding db_ok_def bview_sel
  using uniq_col [of s ModelUsers "[''id'']" user_id to_user]
    uniq_col [of s ModelAccounts "[''id'']" acc_id "to_account rt"]
    uniq_col [of s ModelCredentials "[''id'']" cred_id "to_credential rt"]
    uniq_col [of s ModelSessions "[''id'']" sess_id "to_session rt"]
    uniq_col [of s ModelVerifications "[''id'']" tok_id "to_token rt"]
    uniq_col [of s ModelSessions "[''token_hash'']" sess_token_hash "to_session rt"]
    uniq_col [of s ModelVerifications "[''token_hash'']" tok_token_hash "to_token rt"]
    uniq_col [of s ModelAccounts "[''provider'', ''provider_id'']"
      "\<lambda>a. (acc_provider a, acc_provider_id a)" "to_account rt"]
  by (simp add: kept_unique_simps tuple_eqs [symmetric] tuple_provider)

lemma bview_plain_user: "binv s \<Longrightarrow> u \<in># db_users (bview s) \<Longrightarrow> plain (user_id u)"
  using binv_row [of s ModelUsers] by (auto simp: bview_sel row_ok_def to_user_def)

lemma bview_plain_account: "binv s \<Longrightarrow> u \<in># db_accounts (bview s) \<Longrightarrow> plain (acc_id u)"
  using binv_row [of s ModelAccounts] by (auto simp: bview_sel row_ok_def to_account_def)

text \<open>The operations.\<close>

lemma b_users_create:
  assumes b: "binv s" and p: "plain (user_id u)" and run: "run_state (user_create ad u) s = (r, s')"
  shows "binv s' \<and> (case r of Inl e \<Rightarrow> bview s' = bview s | Inr _ \<Rightarrow>
    bview s' = (bview s)\<lparr>db_users := add_mset u (db_users (bview s))\<rparr> \<and>
    (\<forall>x \<in># db_users (bview s). user_id x \<noteq> user_id u \<and> user_email x \<noteq> user_email u))"
  using create_op [OF b _ row_ok_rows(1) view_upd(1) run [unfolded user_create_def]] p
  by (auto simp: bview_sel to_user_row core_unique_def tuple_def to_user_def user_row_def to_session_def session_row_def to_token_def token_row_def split: sum.splits)

lemma b_accounts_create:
  assumes b: "binv s" and p: "plain (acc_id a)" and run: "run_state (account_create ad a) s = (r, s')"
  shows "binv s' \<and> (case r of Inl e \<Rightarrow> bview s' = bview s | Inr _ \<Rightarrow>
    bview s' = (bview s)\<lparr>db_accounts := add_mset a (db_accounts (bview s))\<rparr>)"
  using create_op [OF b _ row_ok_rows(2) view_upd(2) run [unfolded account_create_def]] p
  by (auto simp: bview_sel to_account_row split: sum.splits)

lemma b_credentials_create:
  assumes b: "binv s" and p: "plain (cred_id c)" "cred_revoked_at c \<noteq> Some 0"
    and run: "run_state (credential_create ad c) s = (r, s')"
  shows "binv s' \<and> (case r of Inl e \<Rightarrow> bview s' = bview s | Inr _ \<Rightarrow>
    bview s' = (bview s)\<lparr>db_credentials := add_mset c (db_credentials (bview s))\<rparr>)"
  using create_op [OF b _ row_ok_rows(3) view_upd(3) run [unfolded credential_create_def]] p
  by (auto simp: bview_sel to_credential_row split: sum.splits)

lemma b_sessions_create:
  assumes b: "binv s" and p: "plain (sess_id x)" "sess_revoked_at x \<noteq> Some 0"
    and run: "run_state (session_create ad x) s = (r, s')"
  shows "binv s' \<and> (case r of Inl e \<Rightarrow> bview s' = bview s | Inr _ \<Rightarrow>
    bview s' = (bview s)\<lparr>db_sessions := add_mset x (db_sessions (bview s))\<rparr> \<and>
    (\<forall>y \<in># db_sessions (bview s). sess_id y \<noteq> sess_id x \<and> sess_token_hash y \<noteq> sess_token_hash x))"
  using create_op [OF b _ row_ok_rows(4) view_upd(4) run [unfolded session_create_def]] p
  by (auto simp: bview_sel to_session_row core_unique_def tuple_def to_user_def user_row_def to_session_def session_row_def to_token_def token_row_def split: sum.splits)

lemma b_tokens_create:
  assumes b: "binv s" and p: "plain (tok_id k)" "tok_used_at k \<noteq> Some 0"
    and run: "run_state (token_create ad k) s = (r, s')"
  shows "binv s' \<and> (case r of Inl e \<Rightarrow> bview s' = bview s | Inr _ \<Rightarrow>
    bview s' = (bview s)\<lparr>db_tokens := add_mset k (db_tokens (bview s))\<rparr> \<and>
    (\<forall>y \<in># db_tokens (bview s). tok_id y \<noteq> tok_id k \<and> tok_token_hash y \<noteq> tok_token_hash k))"
  using create_op [OF b _ row_ok_rows(5) view_upd(5) run [unfolded token_create_def]] p
  by (auto simp: bview_sel to_token_row core_unique_def tuple_def to_user_def user_row_def to_session_def session_row_def to_token_def token_row_def split: sum.splits)

text \<open>Conditions on the rows of a table.\<close>

lemma sat_id_in:
  "binv s \<Longrightarrow> m \<in> set core_models \<Longrightarrow> x \<in># tbl s m \<Longrightarrow>
   sat (Eq ''id'' (VStr i)) x \<longleftrightarrow> get_string x ''id'' = i"
  using sat_id binv_row by blast

lemma sat_string_in:
  assumes "binv s" "m \<in> set core_models" "x \<in># tbl s m" "k \<in> set (string_columns m)"
  shows "get_string x k = b \<Longrightarrow> sat (Eq k (VStr b)) x"
    and "plain b \<Longrightarrow> sat (Eq k (VStr b)) x \<longleftrightarrow> get_string x k = b"
  using sat_string [OF binv_row [OF assms(1-3)] assms(4)] by auto

lemma sat_optional_in:
  "binv s \<Longrightarrow> m \<in> set core_models \<Longrightarrow> x \<in># tbl s m \<Longrightarrow> k \<in> set (optional_columns m) \<Longrightarrow>
   sat (IsNull k) x \<longleftrightarrow> get_optional_time rt x k = None"
  using sat_optional binv_row by blast

lemma sat_time_in:
  "binv s \<Longrightarrow> m \<in> set core_models \<Longrightarrow> x \<in># tbl s m \<Longrightarrow> k \<in> set (time_columns m) \<Longrightarrow>
   sat (Lt k (VTime t0)) x \<longleftrightarrow> get_time rt x k < t0"
  using sat_time binv_row by blast

lemmas to_defs = to_user_def to_account_def to_credential_def to_session_def to_token_def

lemma b_users_get_by_id:
  assumes b: "binv s" and run: "run_state (user_get_by_id ad i) s = (r, s')"
  shows "s' = s \<and> got (db_users (bview s)) (\<lambda>x. user_id x = i) (\<lambda>x. user_id x = i) r"
  unfolding bview_sel
  by (rule find_op [OF b run [unfolded user_get_by_id_def]])
    (simp_all add: sat_id_in [OF b, of ModelUsers] to_defs)

lemma b_users_get_by_email:
  assumes b: "binv s" and run: "run_state (user_get_by_email ad e) s = (r, s')"
  shows "s' = s \<and> got (db_users (bview s)) (\<lambda>x. user_email x = e) (\<lambda>x. plain e \<longrightarrow> user_email x = e) r"
  unfolding bview_sel
  by (rule find_op [OF b run [unfolded user_get_by_email_def]])
    (auto simp: sat_string_in [OF b, of ModelUsers] to_defs column_defs)

lemma b_accounts_get_by_id:
  assumes b: "binv s" and run: "run_state (account_get_by_id rt ad i) s = (r, s')"
  shows "s' = s \<and> got (db_accounts (bview s)) (\<lambda>x. acc_id x = i) (\<lambda>x. acc_id x = i) r"
  unfolding bview_sel
  by (rule find_op [OF b run [unfolded account_get_by_id_def]])
    (simp_all add: sat_id_in [OF b, of ModelAccounts] to_defs)

lemma b_accounts_get_by_provider:
  assumes b: "binv s" and run: "run_state (account_get_by_provider rt ad p i) s = (r, s')"
  shows "s' = s \<and> got (db_accounts (bview s)) (\<lambda>x. acc_provider x = p \<and> acc_provider_id x = i)
    (\<lambda>x. (plain p \<longrightarrow> acc_provider x = p) \<and> (plain i \<longrightarrow> acc_provider_id x = i)) r"
  unfolding bview_sel
  by (rule find_op [OF b run [unfolded account_get_by_provider_def]])
    (auto simp: sat_string_in [OF b, of ModelAccounts] to_defs column_defs)

lemma b_credentials_get_by_id:
  assumes b: "binv s" and run: "run_state (credential_get_by_id rt ad i) s = (r, s')"
  shows "s' = s \<and> got (db_credentials (bview s)) (\<lambda>x. cred_id x = i) (\<lambda>x. cred_id x = i) r"
  unfolding bview_sel
  by (rule find_op [OF b run [unfolded credential_get_by_id_def]])
    (simp_all add: sat_id_in [OF b, of ModelCredentials] to_defs)

lemma b_credentials_get_active:
  assumes b: "binv s" and run: "run_state (credential_get_active rt ad i ty) s = (r, s')"
  shows "s' = s \<and> got (db_credentials (bview s))
    (\<lambda>x. cred_account_id x = i \<and> cred_type x = ty \<and> cred_revoked_at x = None)
    (\<lambda>x. (plain i \<longrightarrow> cred_account_id x = i) \<and> (plain ty \<longrightarrow> cred_type x = ty) \<and>
      cred_revoked_at x = None) r"
  unfolding bview_sel
  by (rule find_op [OF b run [unfolded credential_get_active_def]])
    (auto simp: sat_string_in [OF b, of ModelCredentials] sat_optional_in [OF b, of ModelCredentials]
      to_defs column_defs)

lemma b_sessions_get_by_id:
  assumes b: "binv s" and run: "run_state (session_get_by_id rt ad i) s = (r, s')"
  shows "s' = s \<and> got (db_sessions (bview s)) (\<lambda>x. sess_id x = i) (\<lambda>x. sess_id x = i) r"
  unfolding bview_sel
  by (rule find_op [OF b run [unfolded session_get_by_id_def]])
    (simp_all add: sat_id_in [OF b, of ModelSessions] to_defs)

lemma b_sessions_get_by_hash:
  assumes b: "binv s" and run: "run_state (session_get_by_hash rt ad h) s = (r, s')"
  shows "s' = s \<and> got (db_sessions (bview s)) (\<lambda>x. sess_token_hash x = h)
    (\<lambda>x. plain h \<longrightarrow> sess_token_hash x = h) r"
  unfolding bview_sel
  by (rule find_op [OF b run [unfolded session_get_by_hash_def]])
    (auto simp: sat_string_in [OF b, of ModelSessions] to_defs column_defs)

lemma b_tokens_get_by_hash:
  assumes b: "binv s" and run: "run_state (token_get_by_hash rt ad h) s = (r, s')"
  shows "s' = s \<and> got (db_tokens (bview s)) (\<lambda>x. tok_token_hash x = h)
    (\<lambda>x. plain h \<longrightarrow> tok_token_hash x = h) r"
  unfolding bview_sel
  by (rule find_op [OF b run [unfolded token_get_by_hash_def]])
    (auto simp: sat_string_in [OF b, of ModelVerifications] to_defs column_defs)

lemma b_accounts_list:
  assumes b: "binv s" and run: "run_state (account_list_by_user rt ad i) s = (r, s')"
  shows "s' = s \<and> (case r of Inl _ \<Rightarrow> True | Inr xs \<Rightarrow>
    plain i \<longrightarrow> mset xs = {#x \<in># db_accounts (bview s). acc_user_id x = i#})"
  unfolding bview_sel
  by (rule list_op [OF b run [unfolded account_list_by_user_def]])
    (simp add: sat_string_in [OF b, of ModelAccounts] to_defs column_defs)

lemma b_credentials_list:
  assumes b: "binv s" and run: "run_state (credential_list_by_user rt ad i) s = (r, s')"
  shows "s' = s \<and> (case r of Inl _ \<Rightarrow> True | Inr xs \<Rightarrow>
    plain i \<longrightarrow> mset xs = {#x \<in># db_credentials (bview s). cred_user_id x = i#})"
  unfolding bview_sel
  by (rule list_op [OF b run [unfolded credential_list_by_user_def]])
    (simp add: sat_string_in [OF b, of ModelCredentials] to_defs column_defs)

lemma b_sessions_list:
  assumes b: "binv s" and run: "run_state (session_list_by_user rt ad i) s = (r, s')"
  shows "s' = s \<and> (case r of Inl _ \<Rightarrow> True | Inr xs \<Rightarrow>
    plain i \<longrightarrow> mset xs = {#x \<in># db_sessions (bview s). sess_user_id x = i#})"
  unfolding bview_sel
  by (rule list_op [OF b run [unfolded session_list_by_user_def]])
    (simp add: sat_string_in [OF b, of ModelSessions] to_defs column_defs)

lemmas update_op_id = update_op [where fe = id, unfolded sum.map_id0 id_apply]

lemma b_users_update:
  assumes b: "binv s" and run: "run_state (user_update ad u) s = (r, s')"
  shows "binv s' \<and> (case r of Inl _ \<Rightarrow> bview s' = bview s | Inr _ \<Rightarrow>
    bview s' = (bview s)\<lparr>db_users := upd_where (\<lambda>x. user_id x = user_id u) (set_user u) (db_users (bview s))\<rparr>)"
proof -
  have "binv s' \<and> (case r of Inl _ \<Rightarrow> bview s' = bview s | Inr _ \<Rightarrow>
    (\<exists>x \<in># image_mset to_user (tbl s ModelUsers). user_id x = user_id u) \<and>
    bview s' = (bview s)\<lparr>db_users := upd_where (\<lambda>x. user_id x = user_id u) (set_user u)
      (image_mset to_user (tbl s ModelUsers))\<rparr>)"
    by (rule update_op [where V = "\<lambda>M. (bview s)\<lparr>db_users := M\<rparr>" and f = "to_user" and g = "set_user u"
        and P = "\<lambda>x. user_id x = user_id u", OF b _ _ _ _ run [unfolded user_update_def]])
      (auto simp: sat_id_in [OF b, of ModelUsers] to_defs set_user_def row_ok_def kept_unique_def core_unique_def column_defs intro: view_upd)
  then show ?thesis by (auto simp: bview_sel split: sum.splits)
qed

lemma b_credentials_update:
  assumes b: "binv s" and c: "cred_revoked_at c \<noteq> Some 0"
    and run: "run_state (credential_update ad c) s = (r, s')"
  shows "binv s' \<and> (case r of Inl _ \<Rightarrow> bview s' = bview s | Inr _ \<Rightarrow>
    bview s' = (bview s)\<lparr>db_credentials :=
      upd_where (\<lambda>x. cred_id x = cred_id c) (set_credential c) (db_credentials (bview s))\<rparr>)"
proof -
  have "binv s' \<and> (case r of Inl _ \<Rightarrow> bview s' = bview s | Inr _ \<Rightarrow>
    (\<exists>x \<in># image_mset (to_credential rt) (tbl s ModelCredentials). cred_id x = cred_id c) \<and>
    bview s' = (bview s)\<lparr>db_credentials := upd_where (\<lambda>x. cred_id x = cred_id c) (set_credential c)
      (image_mset (to_credential rt) (tbl s ModelCredentials))\<rparr>)"
    by (rule update_op_id [where V = "\<lambda>M. (bview s)\<lparr>db_credentials := M\<rparr>" and f = "to_credential rt" and g = "set_credential c"
        and P = "\<lambda>x. cred_id x = cred_id c", OF b _ _ _ _ run [unfolded credential_update_def]])
      (auto simp: sat_id_in [OF b, of ModelCredentials] to_defs set_credential_def row_ok_def kept_unique_def core_unique_def
        column_defs c optional_ptr intro: view_upd)
  then show ?thesis by (auto simp: bview_sel split: sum.splits)
qed

lemma b_credentials_revoke:
  assumes b: "binv s" and c: "at \<noteq> 0"
    and run: "run_state (credential_revoke ad i at) s = (r, s')"
  shows "binv s' \<and> (case r of Inl _ \<Rightarrow> bview s' = bview s | Inr _ \<Rightarrow>
    bview s' = (bview s)\<lparr>db_credentials :=
      upd_where (\<lambda>x. cred_id x = i) (revoke_credential at) (db_credentials (bview s))\<rparr>)"
proof -
  have "binv s' \<and> (case r of Inl _ \<Rightarrow> bview s' = bview s | Inr _ \<Rightarrow>
    (\<exists>x \<in># image_mset (to_credential rt) (tbl s ModelCredentials). cred_id x = i) \<and>
    bview s' = (bview s)\<lparr>db_credentials := upd_where (\<lambda>x. cred_id x = i) (revoke_credential at)
      (image_mset (to_credential rt) (tbl s ModelCredentials))\<rparr>)"
    by (rule update_op_id [where V = "\<lambda>M. (bview s)\<lparr>db_credentials := M\<rparr>" and f = "to_credential rt" and g = "revoke_credential at"
        and P = "\<lambda>x. cred_id x = i", OF b _ _ _ _ run [unfolded credential_revoke_def]])
      (auto simp: sat_id_in [OF b, of ModelCredentials] to_defs revoke_credential_def row_ok_def kept_unique_def core_unique_def
        column_defs c optional_time intro: view_upd)
  then show ?thesis by (auto simp: bview_sel split: sum.splits)
qed

lemma b_sessions_revoke:
  assumes b: "binv s" and c: "at \<noteq> 0"
    and run: "run_state (session_revoke ad i at) s = (r, s')"
  shows "binv s' \<and> (case r of Inl _ \<Rightarrow> bview s' = bview s | Inr _ \<Rightarrow>
    bview s' = (bview s)\<lparr>db_sessions :=
      upd_where (\<lambda>x. sess_id x = i) (revoke_session at) (db_sessions (bview s))\<rparr>)"
proof -
  have "binv s' \<and> (case r of Inl _ \<Rightarrow> bview s' = bview s | Inr _ \<Rightarrow>
    (\<exists>x \<in># image_mset (to_session rt) (tbl s ModelSessions). sess_id x = i) \<and>
    bview s' = (bview s)\<lparr>db_sessions := upd_where (\<lambda>x. sess_id x = i) (revoke_session at)
      (image_mset (to_session rt) (tbl s ModelSessions))\<rparr>)"
    by (rule update_op_id [where V = "\<lambda>M. (bview s)\<lparr>db_sessions := M\<rparr>" and f = "to_session rt" and g = "revoke_session at"
        and P = "\<lambda>x. sess_id x = i", OF b _ _ _ _ run [unfolded session_revoke_def]])
      (auto simp: sat_id_in [OF b, of ModelSessions] to_defs revoke_session_def row_ok_def kept_unique_def core_unique_def
        column_defs c optional_time intro: view_upd)
  then show ?thesis by (auto simp: bview_sel split: sum.splits)
qed

lemma b_tokens_mark_used:
  assumes b: "binv s" and c: "at \<noteq> 0"
    and run: "run_state (token_mark_used ad i at) s = (r, s')"
  shows "binv s' \<and> (case r of Inl _ \<Rightarrow> bview s' = bview s | Inr _ \<Rightarrow>
    (\<exists>x \<in># db_tokens (bview s). tok_id x = i \<and> tok_used_at x = None) \<and>
    bview s' = (bview s)\<lparr>db_tokens :=
      upd_where (\<lambda>x. tok_id x = i \<and> tok_used_at x = None) (use_token at) (db_tokens (bview s))\<rparr>)"
proof -
  have "binv s' \<and> (case r of Inl _ \<Rightarrow> bview s' = bview s | Inr _ \<Rightarrow>
    (\<exists>x \<in># image_mset (to_token rt) (tbl s ModelVerifications). tok_id x = i \<and> tok_used_at x = None) \<and>
    bview s' = (bview s)\<lparr>db_tokens := upd_where (\<lambda>x. tok_id x = i \<and> tok_used_at x = None) (use_token at)
      (image_mset (to_token rt) (tbl s ModelVerifications))\<rparr>)"
    by (rule update_op_id [where V = "\<lambda>M. (bview s)\<lparr>db_tokens := M\<rparr>" and f = "to_token rt" and g = "use_token at"
        and P = "\<lambda>x. tok_id x = i \<and> tok_used_at x = None", OF b _ _ _ _ run [unfolded token_mark_used_def]])
      (auto simp: sat_id_in [OF b, of ModelVerifications] sat_optional_in [OF b, of ModelVerifications]
        to_defs use_token_def row_ok_def kept_unique_def core_unique_def column_defs c optional_time intro: view_upd)
  then show ?thesis by (auto simp: bview_sel split: sum.splits)
qed

lemma b_users_delete:
  assumes b: "binv s" and run: "run_state (user_delete ad i) s = (r, s')"
  shows "binv s' \<and> (case r of Inl _ \<Rightarrow> bview s' = bview s | Inr _ \<Rightarrow>
    bview s' = (bview s)\<lparr>db_users := filter_mset (\<lambda>x. user_id x \<noteq> i) (db_users (bview s))\<rparr>)"
  unfolding bview_sel
  by (rule delete_op [where V = "\<lambda>M. (bview s)\<lparr>db_users := M\<rparr>" and f = "to_user" and P = "\<lambda>x. user_id x = i",
        OF b run [unfolded user_delete_def] view_upd(1)])
    (simp_all add: sat_id_in [OF b, of ModelUsers] to_defs)

lemma b_accounts_delete:
  assumes b: "binv s" and run: "run_state (account_delete ad i) s = (r, s')"
  shows "binv s' \<and> (case r of Inl _ \<Rightarrow> bview s' = bview s | Inr _ \<Rightarrow>
    bview s' = (bview s)\<lparr>db_accounts := filter_mset (\<lambda>x. acc_id x \<noteq> i) (db_accounts (bview s))\<rparr>)"
  unfolding bview_sel
  by (rule delete_op [where V = "\<lambda>M. (bview s)\<lparr>db_accounts := M\<rparr>" and f = "to_account rt" and P = "\<lambda>x. acc_id x = i",
        OF b run [unfolded account_delete_def] view_upd(2)])
    (simp_all add: sat_id_in [OF b, of ModelAccounts] to_defs)

lemma b_sessions_delete_expired:
  assumes b: "binv s" and run: "run_state (session_delete_expired ad t) s = (r, s')"
  shows "binv s' \<and> (case r of Inl _ \<Rightarrow> bview s' = bview s | Inr n \<Rightarrow>
    n = int (size {#x \<in># db_sessions (bview s). sess_expires_at x < t#}) \<and>
    bview s' = (bview s)\<lparr>db_sessions := {#x \<in># db_sessions (bview s). \<not> sess_expires_at x < t#}\<rparr>)"
  unfolding bview_sel
  by (rule delete_raw [where V = "\<lambda>M. (bview s)\<lparr>db_sessions := M\<rparr>" and f = "to_session rt" and P = "\<lambda>x. sess_expires_at x < t",
        OF b run [unfolded session_delete_expired_def] view_upd(4)])
    (simp_all add: sat_time_in [OF b, of ModelSessions] to_defs column_defs)

lemma b_tokens_delete_expired:
  assumes b: "binv s" and run: "run_state (token_delete_expired ad t) s = (r, s')"
  shows "binv s' \<and> (case r of Inl _ \<Rightarrow> bview s' = bview s | Inr n \<Rightarrow>
    n = int (size {#x \<in># db_tokens (bview s). tok_expires_at x < t#}) \<and>
    bview s' = (bview s)\<lparr>db_tokens := {#x \<in># db_tokens (bview s). \<not> tok_expires_at x < t#}\<rparr>)"
  unfolding bview_sel
  by (rule delete_raw [where V = "\<lambda>M. (bview s)\<lparr>db_tokens := M\<rparr>" and f = "to_token rt" and P = "\<lambda>x. tok_expires_at x < t",
        OF b run [unfolded token_delete_expired_def] view_upd(5)])
    (simp_all add: sat_time_in [OF b, of ModelVerifications] to_defs column_defs)

lemma b_tokens_delete_by_subject:
  assumes b: "binv s" and p: "plain p" "plain i"
    and run: "run_state (token_delete_by_subject ad p i) s = (r, s')"
  shows "binv s' \<and> (case r of Inl _ \<Rightarrow> bview s' = bview s | Inr _ \<Rightarrow>
    bview s' = (bview s)\<lparr>db_tokens :=
      {#x \<in># db_tokens (bview s). \<not> (tok_purpose x = p \<and> tok_subject x = i)#}\<rparr>)"
proof -
  obtain r0 where r0: "run_state (ad_delete ad ModelVerifications
      [Eq ''purpose'' (VStr p), Eq ''subject'' (VStr i)]) s = (r0, s')" "r = map_sum id (\<lambda>_. ()) r0"
    using run by (auto simp: token_delete_by_subject_def split: prod.splits)
  have "binv s' \<and> (case r0 of Inl _ \<Rightarrow> bview s' = bview s | Inr n \<Rightarrow>
    n = int (size {#x \<in># image_mset (to_token rt) (tbl s ModelVerifications).
      tok_purpose x = p \<and> tok_subject x = i#}) \<and>
    bview s' = (bview s)\<lparr>db_tokens := {#x \<in># image_mset (to_token rt) (tbl s ModelVerifications).
      \<not> (tok_purpose x = p \<and> tok_subject x = i)#}\<rparr>)"
    by (rule delete_raw [where V = "\<lambda>M. (bview s)\<lparr>db_tokens := M\<rparr>" and f = "to_token rt"
        and P = "\<lambda>x. tok_purpose x = p \<and> tok_subject x = i", OF b r0(1) view_upd(5)])
      (simp_all add: sat_string_in [OF b, of ModelVerifications] to_defs column_defs p)
  then show ?thesis using r0(2) by (auto simp: bview_sel split: sum.splits)
qed

text \<open>Revoking the sessions of a user, one by one.\<close>

lemma b_revoke_each:
  assumes "binv s" "at \<noteq> 0" "run_state (session_revoke_each ad at xs) s = (rs, s')"
  shows "binv s' \<and> rs = map (revoke_session at) (filter (\<lambda>x. sess_revoked_at x = None) xs) \<and>
    (\<exists>I \<subseteq> sess_id ` set rs. bview s' = (bview s)\<lparr>db_sessions :=
      upd_where (\<lambda>x. sess_id x \<in> I) (revoke_session at) (db_sessions (bview s))\<rparr>)"
  using assms(1,3)
proof (induction xs arbitrary: s rs)
  case Nil
  then show ?case by (auto simp: upd_where_def)
next
  case (Cons x xs)
  show ?case
  proof (cases "sess_revoked_at x = None")
    case False
    with Cons show ?thesis by simp
  next
    case True
    with Cons.prems obtain q s1 rest where
      q: "run_state (session_revoke ad (sess_id x) at) s = (q, s1)"
      and rest: "run_state (session_revoke_each ad at xs) s1 = (rest, s')"
      and rs: "rs = revoke_session at x # rest"
      by (auto simp: revoke_session_def split: prod.splits)
    from b_sessions_revoke [OF Cons.prems(1) assms(2) q] have s1: "binv s1"
      and "bview s1 = bview s \<or> bview s1 = (bview s)\<lparr>db_sessions :=
        upd_where (\<lambda>y. sess_id y = sess_id x) (revoke_session at) (db_sessions (bview s))\<rparr>"
      by (auto split: sum.splits)
    then obtain J where J: "J \<subseteq> {sess_id x}" "bview s1 = (bview s)\<lparr>db_sessions :=
        upd_where (\<lambda>y. sess_id y \<in> J) (revoke_session at) (db_sessions (bview s))\<rparr>"
    proof (elim disjE)
      assume "bview s1 = bview s" then show ?thesis using that [of "{}"] by (simp add: upd_where_def)
    next
      assume "bview s1 = (bview s)\<lparr>db_sessions :=
        upd_where (\<lambda>y. sess_id y = sess_id x) (revoke_session at) (db_sessions (bview s))\<rparr>"
      then show ?thesis using that [of "{sess_id x}"] by simp
    qed
    from Cons.IH [OF s1 rest] obtain I where I: "binv s'" "I \<subseteq> sess_id ` set rest"
      "rest = map (revoke_session at) (filter (\<lambda>x. sess_revoked_at x = None) xs)"
      "bview s' = (bview s1)\<lparr>db_sessions :=
        upd_where (\<lambda>y. sess_id y \<in> I) (revoke_session at) (db_sessions (bview s1))\<rparr>"
      by blast
    have "upd_where (\<lambda>y. sess_id y \<in> I) (revoke_session at)
        (upd_where (\<lambda>y. sess_id y \<in> J) (revoke_session at) M) =
      upd_where (\<lambda>y. sess_id y \<in> I \<union> J) (revoke_session at) M" for M
      by (auto simp: upd_where_def revoke_session_def multiset.map_comp intro!: image_mset_cong)
    with I J have "bview s' = (bview s)\<lparr>db_sessions :=
      upd_where (\<lambda>y. sess_id y \<in> I \<union> J) (revoke_session at) (db_sessions (bview s))\<rparr>"
      by simp
    moreover have "I \<union> J \<subseteq> sess_id ` set rs"
      using I(2) J(1) by (auto simp: rs revoke_session_def)
    moreover have "rs = map (revoke_session at) (filter (\<lambda>x. sess_revoked_at x = None) (x # xs))"
      using I(3) rs True by simp
    ultimately show ?thesis using I(1) by blast
  qed
qed

lemma b_sessions_revoke_by_user:
  assumes b: "binv s" and c: "at \<noteq> 0" "plain i"
    and run: "run_state (session_revoke_by_user rt ad i at) s = (r, s')"
  shows "binv s' \<and> (case r of Inl _ \<Rightarrow> bview s' = bview s | Inr xs \<Rightarrow>
    mset xs = image_mset (revoke_session at) (filter_mset (active_of i) (db_sessions (bview s))) \<and>
    (\<exists>I \<subseteq> sess_id ` set xs. bview s' = (bview s)\<lparr>db_sessions :=
      upd_where (\<lambda>x. sess_id x \<in> I) (revoke_session at) (db_sessions (bview s))\<rparr>))"
proof -
  obtain q s1 where q: "run_state (session_list_by_user rt ad i) s = (q, s1)" by fastforce
  note l = b_sessions_list [OF b q]
  show ?thesis
  proof (cases q)
    case (Inl e)
    with run q l b show ?thesis by (auto simp: session_revoke_by_user_def)
  next
    case (Inr xs)
    with run q l obtain rs where rs: "run_state (session_revoke_each ad at xs) s = (rs, s')" "r = Inr rs"
      by (auto simp: session_revoke_by_user_def split: prod.splits)
    from l Inr c have "mset xs = {#x \<in># db_sessions (bview s). sess_user_id x = i#}" by simp
    then have "mset (filter (\<lambda>x. sess_revoked_at x = None) xs) =
      filter_mset (active_of i) (db_sessions (bview s))"
      by (auto simp: filter_filter_mset active_of_def intro: filter_mset_cong)
    with b_revoke_each [OF b c(1) rs(1)] have "mset rs =
      image_mset (revoke_session at) (filter_mset (active_of i) (db_sessions (bview s)))"
      by (simp flip: mset_filter)
    with b_revoke_each [OF b c(1) rs(1)] show ?thesis
      unfolding rs(2) sum.case by blast
  qed
qed

lemma b_rollback:
  "binv s0 \<Longrightarrow> binv s1 \<Longrightarrow>
   binv (ad_rollback ad s0 s1) \<and> bview (ad_rollback ad s0 s1) = bview s0"
  using rollback [of s0 s1] by (auto simp: binv_def bview_def)

end

sublocale bridged_adapter \<subseteq> st: store_contract "bridge_new rt ad" binv bview plain
  by (unfold_locales; (simp only: bridge_new_def store.select_convs)?)
    (rule bview_db_ok bview_plain_user bview_plain_account b_users_create b_users_get_by_id b_users_get_by_email b_users_update
      b_users_delete b_accounts_create b_accounts_get_by_id b_accounts_get_by_provider
      b_accounts_list b_accounts_delete b_credentials_create b_credentials_get_by_id
      b_credentials_get_active b_credentials_list b_credentials_update b_credentials_revoke
      b_sessions_create b_sessions_get_by_id b_sessions_get_by_hash b_sessions_list
      b_sessions_revoke b_sessions_revoke_by_user b_sessions_delete_expired b_tokens_create
      b_tokens_get_by_hash b_tokens_mark_used b_tokens_delete_by_subject b_tokens_delete_expired
      b_rollback; assumption)+

section \<open>The bridge on the in-memory adapter\<close>

text \<open>
  \<open>mem_store_inv\<close> is the invariant of the in-memory adapter together with the shape of the
  rows the bridge writes; \<open>mem_store_view\<close> the entities in it.
\<close>

interpretation membridge: bridged_adapter "memory_adapter rt" "mem_inv rt" mem_tbl
  "match_condition rt" plain_string rt
  for rt
  by unfold_locales

definition mem_store :: "runtime \<Rightarrow> mem store" where
  "mem_store rt = bridge_new rt (memory_adapter rt)"

definition mem_store_inv :: "runtime \<Rightarrow> mem \<Rightarrow> bool" where
  "mem_store_inv rt a \<longleftrightarrow> mem_inv rt a \<and> (\<forall>m \<in> set core_models. table_ok plain_string m (mem_tbl a m))"

definition mem_store_view :: "runtime \<Rightarrow> mem \<Rightarrow> db" where
  "mem_store_view rt a = view_of rt (mem_tbl a)"

lemma mem_store_eqs:
  "membridge.binv rt = mem_store_inv rt" "membridge.bview rt = mem_store_view rt"
  by (simp_all add: fun_eq_iff mem_store_inv_def mem_store_view_def membridge.binv_def membridge.bview_def)

lemma mem_update_total: "\<exists>n. fst (run_state (mem_update rt m w u) a) = Inr n"
  by (auto simp: mem_update_def split: option.splits)

lemma upd_where_none: "(\<And>x. x \<in># M \<Longrightarrow> \<not> P x) \<Longrightarrow> upd_where P g M = M"
  unfolding upd_where_def by (induction M) auto

lemma mem_session_revoke:
  assumes b: "membridge.binv rt s" and c: "at \<noteq> 0"
    and run: "run_state (session_revoke (memory_adapter rt) i at) s = (r, s')"
  shows "db_sessions (membridge.bview rt s') =
    upd_where (\<lambda>x. sess_id x = i) (revoke_session at) (db_sessions (membridge.bview rt s))"
proof -
  from mem_update_total obtain n s1 where
    n: "run_state (mem_update rt ModelSessions [Eq ''id'' (VStr i)] [''revoked_at'' \<mapsto> VTime at]) s = (Inr n, s1)"
    by (metis prod.collapse)
  with run have r: "s1 = s'" "r = (if n = 0 then Inl StoreNotFound else Inr ())"
    by (auto simp: session_revoke_def memory_adapter_def split: if_splits)
  show ?thesis
  proof (cases "n = 0")
    case False
    with r membridge.b_sessions_revoke [OF b c run] show ?thesis by simp
  next
    case True
    with n r mem_update_Inr [of rt s "[''revoked_at'' \<mapsto> VTime at]"] membridge.binv_inv [OF b]
    have "size (filter_mset (sats (match_condition rt) [Eq ''id'' (VStr i)]) (mem_tbl s ModelSessions)) = 0"
      by fastforce
    then have "sess_id x \<noteq> i" if "x \<in># db_sessions (membridge.bview rt s)" for x
      using that membridge.sat_id_in [OF b, of ModelSessions]
      by (auto simp: mem.none_sat membridge.bview_sel to_session_def)
    with r True membridge.b_sessions_revoke [OF b c run] show ?thesis
      by (simp add: upd_where_none)
  qed
qed

lemma mem_revoke_each:
  assumes "membridge.binv rt s" "at \<noteq> 0"
    and "run_state (session_revoke_each (memory_adapter rt) at xs) s = (rs, s')"
  shows "db_sessions (membridge.bview rt s') =
    upd_where (\<lambda>x. sess_id x \<in> sess_id ` set rs) (revoke_session at) (db_sessions (membridge.bview rt s))"
  using assms(1,3)
proof (induction xs arbitrary: s rs)
  case (Cons x xs)
  show ?case
  proof (cases "sess_revoked_at x = None")
    case True
    with Cons.prems obtain q s1 rest where
      q: "run_state (session_revoke (memory_adapter rt) (sess_id x) at) s = (q, s1)"
      and rest: "run_state (session_revoke_each (memory_adapter rt) at xs) s1 = (rest, s')"
      and rs: "rs = revoke_session at x # rest"
      by (auto simp: revoke_session_def split: prod.splits)
    have "membridge.binv rt s1"
      using membridge.b_sessions_revoke [OF Cons.prems(1) assms(2) q] by (auto split: sum.splits)
    note Cons.IH [OF this rest] mem_session_revoke [OF Cons.prems(1) assms(2) q]
    then show ?thesis
      by (auto simp: upd_where_def rs revoke_session_def multiset.map_comp intro!: image_mset_cong)
  next
    case False
    then have "session_revoke_each (memory_adapter rt) at (x # xs) = session_revoke_each (memory_adapter rt) at xs"
      by (cases "sess_revoked_at x") simp_all
    with Cons show ?thesis by metis
  qed
qed (auto simp: upd_where_def)

lemma mem_revoke_by_user_all:
  assumes b: "membridge.binv rt s" and c: "at \<noteq> 0" "plain_string i"
    and run: "run_state (session_revoke_by_user rt (memory_adapter rt) i at) s = (Inr xs, s')"
  shows "db_sessions (membridge.bview rt s') =
    upd_where (active_of i) (revoke_session at) (db_sessions (membridge.bview rt s))"
proof -
  obtain q s1 where q: "run_state (session_list_by_user rt (memory_adapter rt) i) s = (q, s1)" by fastforce
  with run obtain ys where ys: "q = Inr ys"
    by (cases q) (auto simp: session_revoke_by_user_def)
  with run q membridge.b_sessions_list [OF b q] have
    rs: "run_state (session_revoke_each (memory_adapter rt) at ys) s = (xs, s')"
    by (auto simp: session_revoke_by_user_def split: prod.splits)
  note u = mem_revoke_each [OF b c(1) rs]
  have xs: "mset xs = image_mset (revoke_session at)
      (filter_mset (active_of i) (db_sessions (membridge.bview rt s)))"
    using membridge.b_sessions_revoke_by_user [OF b c run] by simp
  have ids: "sess_id ` set xs = sess_id ` set_mset (filter_mset (active_of i) (db_sessions (membridge.bview rt s)))"
    using arg_cong [OF xs, of set_mset] by (auto simp: revoke_session_def image_image)
  have "sess_id y \<in> sess_id ` set xs \<longleftrightarrow> active_of i y" if "y \<in># db_sessions (membridge.bview rt s)" for y
  proof
    assume "sess_id y \<in> sess_id ` set xs"
    then obtain z where z: "z \<in># db_sessions (membridge.bview rt s)" "active_of i z" "sess_id y = sess_id z"
      unfolding ids by auto
    with membridge.bview_db_ok [OF b] that have "y = z"
      by (intro uniq_eq [of sess_id "db_sessions (membridge.bview rt s)"]) (auto simp: db_ok_def)
    with z show "active_of i y" by simp
  next
    assume "active_of i y"
    with that show "sess_id y \<in> sess_id ` set xs" unfolding ids by auto
  qed
  then show ?thesis unfolding u upd_where_def by (intro image_mset_cong) auto
qed

interpretation memstore: reliable_store "mem_store rt" "mem_store_inv rt" "mem_store_view rt" plain_string
  for rt
proof (rule reliable_store.intro)
  show "store_contract (mem_store rt) (mem_store_inv rt) (mem_store_view rt) plain_string"
    unfolding mem_store_def mem_store_eqs [symmetric] by (rule membridge.st.store_contract_axioms)
  show "reliable_store_axioms (mem_store rt) (mem_store_inv rt) (mem_store_view rt) plain_string"
    using mem_revoke_by_user_all
    by (auto simp: reliable_store_axioms_def mem_store_def bridge_new_def mem_store_eqs [symmetric])
qed

text \<open>The state right after the schema has been registered is an empty store.\<close>

lemma mem_store_fresh:
  assumes "schema_keyed s" "core_ready s" "validate s = Inr ()"
    and "run_state (mem_register_schema s) mem_new = (r, a)"
  shows "mem_store_inv rt a \<and> mem_store_view rt a = db_empty"
  using mem_register_inv [OF assms, of rt]
  by (auto simp: mem_store_inv_def mem_store_view_def view_of_def db_empty_def table_ok_def)

end
