(* ===== verification/Context.thy ===== *)
theory Context
  imports Go_Prelude
begin

text \<open>
  Request contexts and the values the program keeps in them: \<open>principal.go\<close>, \<open>tenant.go\<close>
  and the transaction mark of the in-memory adapter (\<open>txCtxKey\<close>). \<open>ctx_err\<close> is the answer
  of \<open>ctx.Err()\<close>. A context is a value; deriving one leaves the old one as it was.
\<close>

record principal =
  pr_subject :: string
  pr_type :: string

definition PrincipalUser :: string where "PrincipalUser = ''user''"
definition PrincipalServiceAccount :: string where "PrincipalServiceAccount = ''service_account''"
definition PrincipalAPIKey :: string where "PrincipalAPIKey = ''api_key''"

record ctx =
  ctx_err :: "err option"
  ctx_in_tx :: bool
  ctx_principal :: "principal option"
  ctx_organization :: "string option"

definition background :: ctx where
  "background = \<lparr>ctx_err = None, ctx_in_tx = False, ctx_principal = None, ctx_organization = None\<rparr>"

definition with_principal :: "ctx \<Rightarrow> principal \<Rightarrow> ctx" where
  "with_principal c p = c\<lparr>ctx_principal := Some p\<rparr>"

definition principal_from :: "ctx \<Rightarrow> principal option" where
  "principal_from c = ctx_principal c"

definition with_organization :: "ctx \<Rightarrow> string \<Rightarrow> ctx" where
  "with_organization c org = c\<lparr>ctx_organization := Some org\<rparr>"

text \<open>Both results of \<open>OrganizationFrom\<close>: the identifier and whether there is one.\<close>

definition organization_from :: "ctx \<Rightarrow> string \<times> bool" where
  "organization_from c =
     (case ctx_organization c of None \<Rightarrow> ([], False) | Some org \<Rightarrow> (org, org \<noteq> []))"

definition with_tx :: "ctx \<Rightarrow> ctx" where
  "with_tx c = c\<lparr>ctx_in_tx := True\<rparr>"

end
