(* ===== verification/Cache.thy ===== *)
theory Cache
  imports Context Entities
begin

text \<open>
  The cache contract (\<open>cache/cache.go\<close>), the in-memory cache (\<open>cache/memory/memory.go\<close>) and
  the semantic caches of sessions and users (\<open>cache/semantic.go\<close>).

  A cached value is a JSON text. The model keeps the tree of the text, with the instants in
  it as leaves of their own (\<open>JTime\<close>), and a number written for a \<open>float64\<close> as the fraction
  it stands for (\<open>JFloat\<close>, in lowest terms): it reads back unchanged. \<open>time.Time\<close> is written in RFC 3339 with nanoseconds
  and read back unchanged, and writing fails outside of the years 0 to 9999.
\<close>

section \<open>JSON\<close>

datatype json =
    JNull
  | JBool bool
  | JNum int
  | JFloat int int
  | JStr string
  | JTime time
  | JArr "json list"
  | JObj "(string \<times> json) list"

definition json_time_ok :: "time \<Rightarrow> bool" where
  "json_time_ok t \<longleftrightarrow> - (31622400 * second) \<le> t \<and> t < 315537897600 * second"

definition json_error :: err where
  "json_error = ExtErr ''json''"

text \<open>The first error of a sequence of checks, as \<open>json.Marshal\<close> meets them.\<close>

definition json_times :: "time list \<Rightarrow> json \<Rightarrow> err + json" where
  "json_times ts j = (if list_all json_time_ok ts then Inr j else Inl json_error)"

text \<open>\<open>revoked_at\<close> has \<open>omitempty\<close>: a nil pointer is left out.\<close>

definition optional_field :: "string \<Rightarrow> time option \<Rightarrow> (string \<times> json) list" where
  "optional_field k p = (case p of None \<Rightarrow> [] | Some t \<Rightarrow> [(k, JTime t)])"

definition session_json :: "session \<Rightarrow> err + json" where
  "session_json s =
     json_times ([sess_expires_at s, sess_created_at s] @
                 (case sess_revoked_at s of None \<Rightarrow> [] | Some t \<Rightarrow> [t]))
       (JObj ([(''id'', JStr (sess_id s)),
               (''user_id'', JStr (sess_user_id s)),
               (''token_hash'', JStr (sess_token_hash s)),
               (''ip_address'', JStr (sess_ip_address s)),
               (''user_agent'', JStr (sess_user_agent s)),
               (''expires_at'', JTime (sess_expires_at s))] @
              optional_field ''revoked_at'' (sess_revoked_at s) @
              [(''created_at'', JTime (sess_created_at s))]))"

definition user_json :: "user \<Rightarrow> err + json" where
  "user_json u =
     json_times [user_created_at u, user_updated_at u]
       (JObj [(''id'', JStr (user_id u)),
              (''email'', JStr (user_email u)),
              (''email_verified'', JBool (user_email_verified u)),
              (''created_at'', JTime (user_created_at u)),
              (''updated_at'', JTime (user_updated_at u))])"

text \<open>
  \<open>json.Unmarshal\<close> into a zero struct: an absent or null member leaves the zero value, a
  member of another type is an error.
\<close>

definition str_member :: "(string \<times> json) list \<Rightarrow> string \<Rightarrow> (string \<Rightarrow> err + 'a) \<Rightarrow> err + 'a" where
  "str_member o' k f =
     (case map_of o' k of
        None \<Rightarrow> f []
      | Some JNull \<Rightarrow> f []
      | Some (JStr s) \<Rightarrow> f s
      | Some _ \<Rightarrow> Inl json_error)"

definition bool_member :: "(string \<times> json) list \<Rightarrow> string \<Rightarrow> (bool \<Rightarrow> err + 'a) \<Rightarrow> err + 'a" where
  "bool_member o' k f =
     (case map_of o' k of
        None \<Rightarrow> f False
      | Some JNull \<Rightarrow> f False
      | Some (JBool b) \<Rightarrow> f b
      | Some _ \<Rightarrow> Inl json_error)"

definition time_member :: "(string \<times> json) list \<Rightarrow> string \<Rightarrow> (time \<Rightarrow> err + 'a) \<Rightarrow> err + 'a" where
  "time_member o' k f =
     (case map_of o' k of
        None \<Rightarrow> f 0
      | Some JNull \<Rightarrow> f 0
      | Some (JTime t) \<Rightarrow> f t
      | Some _ \<Rightarrow> Inl json_error)"

definition opt_time_member :: "(string \<times> json) list \<Rightarrow> string \<Rightarrow> (time option \<Rightarrow> err + 'a) \<Rightarrow> err + 'a" where
  "opt_time_member o' k f =
     (case map_of o' k of
        None \<Rightarrow> f None
      | Some JNull \<Rightarrow> f None
      | Some (JTime t) \<Rightarrow> f (Some t)
      | Some _ \<Rightarrow> Inl json_error)"

definition members :: "json \<Rightarrow> err + (string \<times> json) list" where
  "members j = (case j of JNull \<Rightarrow> Inr [] | JObj o' \<Rightarrow> Inr o' | _ \<Rightarrow> Inl json_error)"

definition json_session :: "json \<Rightarrow> err + session" where
  "json_session j = (case members j of Inl e \<Rightarrow> Inl e | Inr o' \<Rightarrow>
     str_member o' ''id'' (\<lambda>i.
     str_member o' ''user_id'' (\<lambda>uid.
     str_member o' ''token_hash'' (\<lambda>h.
     str_member o' ''ip_address'' (\<lambda>ip.
     str_member o' ''user_agent'' (\<lambda>ua.
     time_member o' ''expires_at'' (\<lambda>ex.
     opt_time_member o' ''revoked_at'' (\<lambda>rv.
     time_member o' ''created_at'' (\<lambda>cr.
       Inr \<lparr>sess_id = i, sess_user_id = uid, sess_token_hash = h, sess_ip_address = ip,
            sess_user_agent = ua, sess_expires_at = ex, sess_revoked_at = rv,
            sess_created_at = cr\<rparr>)))))))))"

definition json_user :: "json \<Rightarrow> err + user" where
  "json_user j = (case members j of Inl e \<Rightarrow> Inl e | Inr o' \<Rightarrow>
     str_member o' ''id'' (\<lambda>i.
     str_member o' ''email'' (\<lambda>em.
     bool_member o' ''email_verified'' (\<lambda>ev.
     time_member o' ''created_at'' (\<lambda>cr.
     time_member o' ''updated_at'' (\<lambda>up.
       Inr \<lparr>user_id = i, user_email = em, user_email_verified = ev, user_created_at = cr,
            user_updated_at = up\<rparr>))))))"

section \<open>The contract\<close>

text \<open>
  \<open>Get\<close> decodes into the pointer its caller gives; here it returns the tree and the caller
  decodes. \<open>Set\<close> encodes its argument after its own checks; here the argument is the result
  of encoding it. Durations are nanoseconds.
\<close>

record 'c cache =
  cache_get :: "ctx \<Rightarrow> string \<Rightarrow> ('c, err + json) state"
  cache_set :: "ctx \<Rightarrow> string \<Rightarrow> err + json \<Rightarrow> duration \<Rightarrow> ('c, err + unit) state"
  cache_delete :: "ctx \<Rightarrow> string \<Rightarrow> ('c, err + unit) state"

text \<open>The optional capability \<open>Counter\<close> of a cache: \<open>Increment(ctx, key, delta, ttl)\<close>.\<close>

type_synonym 'c counter = "ctx \<Rightarrow> string \<Rightarrow> 64 word \<Rightarrow> duration \<Rightarrow> ('c, err + 64 word) state"

definition Namespace :: string where
  "Namespace = ''gomodularauth''"

definition cache_key :: "string list \<Rightarrow> string" where
  "cache_key parts = Namespace @ '':'' @ join_with (CHR '':'') parts"

text \<open>
  What the core relies on: an answer was stored under its key, and a cache may forget at
  any time but never invents.
\<close>

locale cache_contract =
  fixes ch :: "'c cache" and cview :: "'c \<Rightarrow> string \<rightharpoonup> json"
  assumes get: "run_state (cache_get ch cx k) c = (r, c') \<Longrightarrow>
      cview c' \<subseteq>\<^sub>m cview c \<and> (case r of Inr j \<Rightarrow> cview c k = Some j | Inl _ \<Rightarrow> True)"
    and set: "run_state (cache_set ch cx k v d) c = (ru, c') \<Longrightarrow>
      (case ru of Inr _ \<Rightarrow> \<exists>j. v = Inr j \<and> cview c' \<subseteq>\<^sub>m (cview c)(k \<mapsto> j) | Inl _ \<Rightarrow> cview c' \<subseteq>\<^sub>m cview c)"
    and delete: "run_state (cache_delete ch cx k) c = (ru, c') \<Longrightarrow>
      (case ru of Inr _ \<Rightarrow> cview c' \<subseteq>\<^sub>m (cview c)(k := None) | Inl _ \<Rightarrow> cview c' \<subseteq>\<^sub>m cview c)"

text \<open>A cache whose invalidations succeed unless the context is cancelled.\<close>

locale reliable_cache = cache_contract +
  assumes delete_ok: "ctx_err cx = None \<Longrightarrow> fst (run_state (cache_delete ch cx k) c) = Inr ()"

section \<open>The semantic caches\<close>

definition session_key :: "string \<Rightarrow> string" where
  "session_key h = cache_key [''session'', h]"

definition user_key :: "string \<Rightarrow> string" where
  "user_key i = cache_key [''user'', i]"

definition session_cache_get :: "'c cache \<Rightarrow> ctx \<Rightarrow> string \<Rightarrow> ('c, err + session) state" where
  "session_cache_get ch cx h =
     bindE (cache_get ch cx (session_key h)) (\<lambda>j. State_Monad.return (json_session j))"

definition session_cache_set :: "'c cache \<Rightarrow> ctx \<Rightarrow> session \<Rightarrow> duration \<Rightarrow> ('c, err + unit) state" where
  "session_cache_set ch cx s ttl = cache_set ch cx (session_key (sess_token_hash s)) (session_json s) ttl"

definition session_cache_delete :: "'c cache \<Rightarrow> ctx \<Rightarrow> string \<Rightarrow> ('c, err + unit) state" where
  "session_cache_delete ch cx h = cache_delete ch cx (session_key h)"

definition user_cache_get :: "'c cache \<Rightarrow> ctx \<Rightarrow> string \<Rightarrow> ('c, err + user) state" where
  "user_cache_get ch cx i =
     bindE (cache_get ch cx (user_key i)) (\<lambda>j. State_Monad.return (json_user j))"

definition user_cache_set :: "'c cache \<Rightarrow> ctx \<Rightarrow> user \<Rightarrow> duration \<Rightarrow> ('c, err + unit) state" where
  "user_cache_set ch cx u ttl = cache_set ch cx (user_key (user_id u)) (user_json u) ttl"

definition user_cache_delete :: "'c cache \<Rightarrow> ctx \<Rightarrow> string \<Rightarrow> ('c, err + unit) state" where
  "user_cache_delete ch cx i = cache_delete ch cx (user_key i)"

section \<open>The in-memory cache\<close>

text \<open>
  \<open>mc_entries\<close> is the map of entries; its order is the one \<open>Len\<close> happens to range in.
  \<open>now\<close> gives the instants the clock answers, \<open>mc_ticks\<close> how often it has been asked. The
  mutex makes each operation one step. Counters are signed 64-bit integers.
\<close>

record cache_entry =
  ce_value :: json
  ce_counter :: "64 word"
  ce_is_counter :: bool
  ce_expires_at :: time

record mcache =
  mc_entries :: "(string \<times> cache_entry) list"
  mc_ticks :: nat

definition mcache_new :: mcache where
  "mcache_new = \<lparr>mc_entries = [], mc_ticks = 0\<rparr>"

definition mc_now :: "(nat \<Rightarrow> time) \<Rightarrow> (mcache, time) state" where
  "mc_now now = State (\<lambda>c. (now (mc_ticks c), c\<lparr>mc_ticks := Suc (mc_ticks c)\<rparr>))"

definition mc_put :: "string \<Rightarrow> cache_entry \<Rightarrow> (mcache, unit) state" where
  "mc_put k e = State (\<lambda>c. ((), c\<lparr>mc_entries := AList.update k e (mc_entries c)\<rparr>))"

definition mc_del :: "string \<Rightarrow> (mcache, unit) state" where
  "mc_del k = State (\<lambda>c. ((), c\<lparr>mc_entries := AList.delete k (mc_entries c)\<rparr>))"

definition mc_lookup :: "string \<Rightarrow> (mcache, cache_entry option) state" where
  "mc_lookup k = State (\<lambda>c. (map_of (mc_entries c) k, c))"

definition mc_live :: "(nat \<Rightarrow> time) \<Rightarrow> string \<Rightarrow> (mcache, cache_entry option) state" where
  "mc_live now k = do {
     e \<leftarrow> mc_lookup k;
     case e of
       None \<Rightarrow> State_Monad.return None
     | Some e \<Rightarrow> do {
         t \<leftarrow> mc_now now;
         if \<not> t < ce_expires_at e then do {
           _ \<leftarrow> mc_del k;
           State_Monad.return None
         } else State_Monad.return (Some e)
       }
   }"

definition entry_json :: "cache_entry \<Rightarrow> json" where
  "entry_json e = (if ce_is_counter e then JNum (sint (ce_counter e)) else ce_value e)"

definition mc_get :: "(nat \<Rightarrow> time) \<Rightarrow> ctx \<Rightarrow> string \<Rightarrow> (mcache, err + json) state" where
  "mc_get now cx k =
     (case ctx_err cx of
        Some e \<Rightarrow> fail e
      | None \<Rightarrow> do {
          e \<leftarrow> mc_live now k;
          case e of None \<Rightarrow> fail CacheMiss | Some e \<Rightarrow> ok (entry_json e)
        })"

definition mc_set :: "(nat \<Rightarrow> time) \<Rightarrow> ctx \<Rightarrow> string \<Rightarrow> err + json \<Rightarrow> duration \<Rightarrow> (mcache, err + unit) state" where
  "mc_set now cx k v ttl =
     (case ctx_err cx of
        Some e \<Rightarrow> fail e
      | None \<Rightarrow>
          if ttl \<le> 0 then fail CacheInvalidTTL
          else check v (\<lambda>b. do {
            t \<leftarrow> mc_now now;
            _ \<leftarrow> mc_put k \<lparr>ce_value = b, ce_counter = 0, ce_is_counter = False, ce_expires_at = t + ttl\<rparr>;
            ok ()
          }))"

definition mc_delete :: "ctx \<Rightarrow> string \<Rightarrow> (mcache, err + unit) state" where
  "mc_delete cx k =
     (case ctx_err cx of
        Some e \<Rightarrow> fail e
      | None \<Rightarrow> do { _ \<leftarrow> mc_del k; ok () })"

definition mc_increment ::
  "(nat \<Rightarrow> time) \<Rightarrow> ctx \<Rightarrow> string \<Rightarrow> 64 word \<Rightarrow> duration \<Rightarrow> (mcache, err + 64 word) state" where
  "mc_increment now cx k delta ttl =
     (case ctx_err cx of
        Some e \<Rightarrow> fail e
      | None \<Rightarrow>
          if ttl \<le> 0 then fail CacheInvalidTTL
          else do {
            l \<leftarrow> mc_live now k;
            e \<leftarrow> (case l of
                   Some e \<Rightarrow>
                     if ce_is_counter e then State_Monad.return e
                     else do { t \<leftarrow> mc_now now; State_Monad.return
                       \<lparr>ce_value = JNull, ce_counter = 0, ce_is_counter = True, ce_expires_at = t + ttl\<rparr> }
                 | None \<Rightarrow> do { t \<leftarrow> mc_now now; State_Monad.return
                       \<lparr>ce_value = JNull, ce_counter = 0, ce_is_counter = True, ce_expires_at = t + ttl\<rparr> });
            let e' = e\<lparr>ce_counter := ce_counter e + delta\<rparr>;
            _ \<leftarrow> mc_put k e';
            ok (ce_counter e')
          })"

fun mc_len_over :: "(nat \<Rightarrow> time) \<Rightarrow> string list \<Rightarrow> (mcache, nat) state" where
  "mc_len_over now [] = State_Monad.return 0"
| "mc_len_over now (k # ks) = do {
     l \<leftarrow> mc_live now k;
     n \<leftarrow> mc_len_over now ks;
     State_Monad.return (if l \<noteq> None then Suc n else n)
   }"

definition mc_len :: "(nat \<Rightarrow> time) \<Rightarrow> (mcache, nat) state" where
  "mc_len now = do {
     c \<leftarrow> State_Monad.get;
     mc_len_over now (map fst (mc_entries c))
   }"

definition memory_cache :: "(nat \<Rightarrow> time) \<Rightarrow> mcache cache" where
  "memory_cache now = \<lparr>cache_get = mc_get now, cache_set = mc_set now, cache_delete = mc_delete\<rparr>"

section \<open>Lemmas\<close>

text \<open>An entity that is encoded is decoded as it was.\<close>

lemmas member_defs = str_member_def bool_member_def time_member_def opt_time_member_def members_def

lemma json_session_of: "session_json s = Inr j \<Longrightarrow> json_session j = Inr s"
  by (cases "sess_revoked_at s")
    (auto simp: session_json_def json_times_def json_session_def member_defs optional_field_def
      split: if_splits)

lemma json_user_of: "user_json u = Inr j \<Longrightarrow> json_user j = Inr u"
  by (auto simp: user_json_def json_times_def json_user_def member_defs split: if_splits)

lemma session_key_inj [simp]: "session_key a = session_key b \<longleftrightarrow> a = b"
  by (simp add: session_key_def cache_key_def)

lemma user_key_inj [simp]: "user_key a = user_key b \<longleftrightarrow> a = b"
  by (simp add: user_key_def cache_key_def)

lemma session_key_user_key [simp]: "session_key a \<noteq> user_key b" "user_key b \<noteq> session_key a"
  by (simp_all add: session_key_def user_key_def cache_key_def)

text \<open>What the in-memory cache holds under a key, expired or not.\<close>

definition mc_view :: "mcache \<Rightarrow> string \<rightharpoonup> json" where
  "mc_view c k = map_option entry_json (map_of (mc_entries c) k)"

lemma run_mc_simps [simp]:
  "run_state (mc_now now) c = (now (mc_ticks c), c\<lparr>mc_ticks := Suc (mc_ticks c)\<rparr>)"
  "run_state (mc_put k e) c = ((), c\<lparr>mc_entries := AList.update k e (mc_entries c)\<rparr>)"
  "run_state (mc_del k) c = ((), c\<lparr>mc_entries := AList.delete k (mc_entries c)\<rparr>)"
  "run_state (mc_lookup k) c = (map_of (mc_entries c) k, c)"
  by (simp_all add: mc_now_def mc_put_def mc_del_def mc_lookup_def)

lemma run_mc_live:
  "run_state (mc_live now k) c = (case map_of (mc_entries c) k of
     None \<Rightarrow> (None, c)
   | Some e \<Rightarrow>
       if now (mc_ticks c) < ce_expires_at e then (Some e, c\<lparr>mc_ticks := Suc (mc_ticks c)\<rparr>)
       else (None, c\<lparr>mc_ticks := Suc (mc_ticks c), mc_entries := AList.delete k (mc_entries c)\<rparr>))"
  by (auto simp: mc_live_def split: option.splits)

lemma map_of_delete: "map_of (AList.delete k xs) k' = (if k' = k then None else map_of xs k')"
  by (simp add: delete_conv')

lemma mc_view_simps:
  "mc_view (c\<lparr>mc_ticks := n\<rparr>) = mc_view c"
  "mc_view (c\<lparr>mc_entries := AList.delete k (mc_entries c)\<rparr>) = (mc_view c)(k := None)"
  "mc_view (c\<lparr>mc_ticks := n, mc_entries := AList.delete k (mc_entries c)\<rparr>) = (mc_view c)(k := None)"
  "mc_view (c\<lparr>mc_entries := AList.update k e (mc_entries c)\<rparr>) = (mc_view c)(k \<mapsto> entry_json e)"
  "mc_view (c\<lparr>mc_ticks := n, mc_entries := AList.update k e (mc_entries c)\<rparr>) = (mc_view c)(k \<mapsto> entry_json e)"
  by (auto simp: mc_view_def fun_eq_iff map_of_delete map_of_update)

interpretation mcache: reliable_cache "memory_cache now" mc_view for now
proof (unfold_locales, goal_cases)
  case (1 cx k c r c')
  then show ?case
    by (auto simp: memory_cache_def mc_get_def run_mc_live mc_view_simps map_le_def
        split: option.splits if_splits prod.splits)
      (simp_all add: mc_view_def)
next
  case (2 cx k v d c ru c')
  then show ?case
    by (cases v) (auto simp: memory_cache_def mc_set_def mc_view_simps entry_json_def
        split: option.splits if_splits)
next
  case (3 cx k c ru c')
  then show ?case
    by (auto simp: memory_cache_def mc_delete_def mc_view_simps split: option.splits)
next
  case (4 cx k c)
  then show ?case by (simp add: memory_cache_def mc_delete_def)
qed

end
