(* ===== verification/Engine.thy ===== *)
theory Engine
  imports Bridge_Correct Cache
begin

text \<open>
  The engine's configuration and infrastructure: \<open>config.go\<close>, \<open>hooks.go\<close>, \<open>events.go\<close>,
  \<open>cache.go\<close> and the plain part of \<open>auth.go\<close> (\<open>New\<close>, \<open>Now\<close>, \<open>publish\<close>, \<open>PurgeExpired\<close>).

  The world of an engine is the state of its store \<open>'s\<close> and of its cache \<open>'c\<close>, how often the
  clock and the entropy source have been asked, what has been published, mailed and logged,
  and the value of the once-computed \<open>dummyHash\<close>. What the engine is built from (\<open>auth\<close>)
  does not change while it runs.
\<close>

section \<open>The world\<close>

text \<open>A payload struct of a plugin is its name with its fields.\<close>

datatype field_val = FStr string | FInt int | FBool bool | FTime time

datatype payload =
    PNil
  | PUser user
  | PSession session
  | PExceeded string string duration time
  | PFields string "(string \<times> field_val) list"

record event =
  ev_name :: string
  ev_time :: time
  ev_subject :: string
  ev_payload :: payload

record message =
  msg_to :: string
  msg_subject :: string
  msg_text :: string
  msg_html :: string

record ('s, 'c) world =
  w_db :: 's
  w_cache :: 'c
  w_clock :: nat
  w_draws :: nat
  w_dummy :: "string option"
  w_events :: "event list"
  w_outbox :: "message list"
  w_log :: "string list"

type_synonym ('s, 'c, 'a) act = "(('s, 'c) world, 'a) state"
type_synonym ('s, 'c, 'a) actE = "(('s, 'c) world, err + 'a) state"

section \<open>Inputs and results of the workflows\<close>

record session_options =
  opt_ip_address :: string
  opt_user_agent :: string

record sign_up_input =
  up_email :: string
  up_password :: string
  up_session :: session_options

record sign_in_input =
  in_email :: string
  in_password :: string
  in_session :: session_options

record sign_out_input =
  out_token :: string

record auth_result =
  res_user :: user
  res_session :: "session option"
  res_token :: string

record session_result =
  sr_session :: session
  sr_user :: user

record issued_session =
  iss_session :: session
  iss_token :: string

definition auth_result_principal :: "auth_result \<Rightarrow> principal" where
  "auth_result_principal r = \<lparr>pr_subject = user_id (res_user r), pr_type = PrincipalUser\<rparr>"

definition session_result_principal :: "session_result \<Rightarrow> principal" where
  "session_result_principal r = \<lparr>pr_subject = user_id (sr_user r), pr_type = PrincipalUser\<rparr>"

section \<open>Hooks and event handlers\<close>

text \<open>
  A hook of a \<open>chain\<close> gets a pointer it may write through and returns an error; it is a
  function to the new value or the error. An \<open>observer\<close> returns the value it leaves behind
  its pointer. Registering appends; the locks make each call one step.

  An event handler returns \<open>Some p\<close> when it panics with \<open>p\<close>. Handlers observe: writing
  through the pointer in the payload is not modelled.
\<close>

type_synonym ('s, 'c, 'a) chain = "(ctx \<Rightarrow> 'a \<Rightarrow> ('s, 'c, 'a) actE) list"
type_synonym ('s, 'c, 'a) observers = "(ctx \<Rightarrow> 'a \<Rightarrow> ('s, 'c, 'a) act) list"
type_synonym ('s, 'c) handler = "ctx \<Rightarrow> event \<Rightarrow> ('s, 'c, string option) act"

record ('s, 'c) hooks =
  hk_before_sign_up :: "('s, 'c, sign_up_input) chain"
  hk_after_sign_up :: "('s, 'c, auth_result) observers"
  hk_before_sign_in :: "('s, 'c, sign_in_input) chain"
  hk_after_sign_in :: "('s, 'c, auth_result) observers"
  hk_before_sign_out :: "('s, 'c, sign_out_input) chain"
  hk_after_sign_out :: "('s, 'c, session) observers"
  hk_before_user_create :: "('s, 'c, user) chain"
  hk_after_user_create :: "('s, 'c, user) observers"
  hk_before_session_create :: "('s, 'c, session) chain"

definition no_hooks :: "('s, 'c) hooks" where
  "no_hooks = \<lparr>hk_before_sign_up = [], hk_after_sign_up = [], hk_before_sign_in = [],
     hk_after_sign_in = [], hk_before_sign_out = [], hk_after_sign_out = [],
     hk_before_user_create = [], hk_after_user_create = [], hk_before_session_create = []\<rparr>"

definition chain_add :: "('s, 'c, 'a) chain \<Rightarrow> (ctx \<Rightarrow> 'a \<Rightarrow> ('s, 'c, 'a) actE) \<Rightarrow> ('s, 'c, 'a) chain" where
  "chain_add c f = c @ [f]"

fun chain_run :: "('s, 'c, 'a) chain \<Rightarrow> ctx \<Rightarrow> 'a \<Rightarrow> ('s, 'c, 'a) actE" where
  "chain_run [] cx v = ok v"
| "chain_run (f # fs) cx v = bindE (f cx v) (\<lambda>v'. chain_run fs cx v')"

definition observers_add :: "('s, 'c, 'a) observers \<Rightarrow> (ctx \<Rightarrow> 'a \<Rightarrow> ('s, 'c, 'a) act) \<Rightarrow> ('s, 'c, 'a) observers" where
  "observers_add c f = c @ [f]"

fun observers_run :: "('s, 'c, 'a) observers \<Rightarrow> ctx \<Rightarrow> 'a \<Rightarrow> ('s, 'c, 'a) act" where
  "observers_run [] cx v = State_Monad.return v"
| "observers_run (f # fs) cx v = do { v' \<leftarrow> f cx v; observers_run fs cx v' }"

record ('s, 'c) events =
  evs_handlers :: "string \<Rightarrow> ('s, 'c) handler list"
  evs_all :: "('s, 'c) handler list"

definition new_events :: "('s, 'c) events" where
  "new_events = \<lparr>evs_handlers = (\<lambda>_. []), evs_all = []\<rparr>"

definition subscribe :: "string \<Rightarrow> ('s, 'c) handler \<Rightarrow> ('s, 'c) events \<Rightarrow> ('s, 'c) events" where
  "subscribe name h e = e\<lparr>evs_handlers := (evs_handlers e)(name := evs_handlers e name @ [h])\<rparr>"

definition subscribe_all :: "('s, 'c) handler \<Rightarrow> ('s, 'c) events \<Rightarrow> ('s, 'c) events" where
  "subscribe_all h e = e\<lparr>evs_all := evs_all e @ [h]\<rparr>"

definition log_line :: "string \<Rightarrow> ('s, 'c, unit) act" where
  "log_line s = State (\<lambda>w. ((), w\<lparr>w_log := w_log w @ [s]\<rparr>))"

definition safe_call :: "ctx \<Rightarrow> ('s, 'c) handler \<Rightarrow> event \<Rightarrow> ('s, 'c, unit) act" where
  "safe_call cx h ev = do {
     p \<leftarrow> h cx ev;
     case p of
       None \<Rightarrow> skip
     | Some _ \<Rightarrow> log_line ''auth: event handler panicked''
   }"

text \<open>\<open>w_events\<close> keeps what has been published, for the statements about it.\<close>

definition record_event :: "event \<Rightarrow> ('s, 'c, unit) act" where
  "record_event ev = State (\<lambda>w. ((), w\<lparr>w_events := w_events w @ [ev]\<rparr>))"

definition events_publish :: "('s, 'c) events \<Rightarrow> ctx \<Rightarrow> event \<Rightarrow> ('s, 'c, unit) act" where
  "events_publish e cx ev = do {
     _ \<leftarrow> record_event ev;
     for_each (\<lambda>h. safe_call cx h ev) (evs_handlers e (ev_name ev) @ evs_all e)
   }"

section \<open>Configuration\<close>

record settings =
  st_session_ttl :: duration
  st_session_cache_ttl :: duration
  st_user_cache_ttl :: duration
  st_password_min :: int
  st_password_max :: int
  st_verification_required :: bool
  st_send_on_sign_up :: bool
  st_verification_ttl :: duration
  st_reset_ttl :: duration

record ('s, 'c) hasher =
  hash_password :: "ctx \<Rightarrow> string \<Rightarrow> ('s, 'c, string) actE"
  verify_hash :: "ctx \<Rightarrow> string \<Rightarrow> string \<Rightarrow> ('s, 'c, unit) actE"

type_synonym ('s, 'c) sender = "ctx \<Rightarrow> message \<Rightarrow> ('s, 'c, unit) actE"

record ('s, 'c) config =
  cf_adapter :: "'s adapter option"
  cf_cache :: "'c cache option"
  cf_email :: "('s, 'c) sender option"
  cf_hasher :: "('s, 'c) hasher option"
  cf_now :: "(nat \<Rightarrow> time) option"
  cf_settings :: settings
  cf_verification_message :: "(user \<Rightarrow> string \<Rightarrow> message) option"
  cf_reset_message :: "(user \<Rightarrow> string \<Rightarrow> message) option"

definition or_default :: "'a \<Rightarrow> 'a \<Rightarrow> 'a \<Rightarrow> 'a" where
  "or_default zero v def = (if v = zero then def else v)"

definition newline :: string where
  "newline = [char_of (10 :: nat)]"

definition default_verification_message :: "user \<Rightarrow> string \<Rightarrow> message" where
  "default_verification_message u token =
     \<lparr>msg_to = [], msg_subject = ''Verify your email address'',
      msg_text = ''Use the following code to verify your email address:'' @ newline @ newline @ token @ newline,
      msg_html = []\<rparr>"

definition default_reset_message :: "user \<Rightarrow> string \<Rightarrow> message" where
  "default_reset_message u token =
     \<lparr>msg_to = [], msg_subject = ''Reset your password'',
      msg_text = ''Use the following code to reset your password:'' @ newline @ newline @ token @ newline @ newline
        @ ''If you did not request it, ignore this email.'' @ newline,
      msg_html = []\<rparr>"

text \<open>
  The defaults that are not values (the Argon2id hasher, the system clock) are the arguments
  \<open>dh\<close> and \<open>dn\<close>. The logger is not a parameter: \<open>w_log\<close> is what it is given.
\<close>

definition with_defaults ::
  "('s, 'c) hasher \<Rightarrow> (nat \<Rightarrow> time) \<Rightarrow> ('s, 'c) config \<Rightarrow> err + ('s, 'c) config" where
  "with_defaults dh dn c =
     (if cf_adapter c = None then Inl ErrAdapterRequired
      else
        let s = cf_settings c;
            s1 = s\<lparr>st_session_ttl := or_default 0 (st_session_ttl s) (7 * 24 * hour),
                   st_session_cache_ttl := or_default 0 (st_session_cache_ttl s) (5 * minute),
                   st_user_cache_ttl := or_default 0 (st_user_cache_ttl s) (5 * minute),
                   st_password_min := or_default 0 (st_password_min s) 8,
                   st_password_max := or_default 0 (st_password_max s) 128\<rparr>
        in
        if st_password_min s1 > st_password_max s1 then Inl ErrPasswordPolicyConfig
        else
          let s2 = s1\<lparr>st_verification_ttl := or_default 0 (st_verification_ttl s1) (24 * hour),
                      st_reset_ttl := or_default 0 (st_reset_ttl s1) hour\<rparr>
          in
          if st_send_on_sign_up s2 \<and> cf_email c = None then Inl ErrEmailNotConfigured
          else Inr (c\<lparr>
            cf_hasher := (case cf_hasher c of None \<Rightarrow> Some dh | Some h \<Rightarrow> Some h),
            cf_now := (case cf_now c of None \<Rightarrow> Some dn | Some n \<Rightarrow> Some n),
            cf_settings := s2,
            cf_verification_message := (case cf_verification_message c of
              None \<Rightarrow> Some default_verification_message | Some m \<Rightarrow> Some m),
            cf_reset_message := (case cf_reset_message c of
              None \<Rightarrow> Some default_reset_message | Some m \<Rightarrow> Some m)\<rparr>))"

section \<open>The engine\<close>

record ('s, 'c) auth =
  au_store :: "'s store"
  au_cache :: "'c cache option"
  au_email :: "('s, 'c) sender option"
  au_hasher :: "('s, 'c) hasher"
  au_now :: "nat \<Rightarrow> time"
  au_entropy :: "nat \<Rightarrow> nat \<Rightarrow> byte"
  au_rt :: runtime
  au_settings :: settings
  au_verification_message :: "user \<Rightarrow> string \<Rightarrow> message"
  au_reset_message :: "user \<Rightarrow> string \<Rightarrow> message"
  au_hooks :: "('s, 'c) hooks"
  au_events :: "('s, 'c) events"

text \<open>
  \<open>New\<close> before the plugins are installed: the store is the bridge on the adapter, there are
  no hooks and no subscriptions. \<open>rt\<close> is the runtime and \<open>en\<close> the entropy source.
\<close>

definition auth_new ::
  "runtime \<Rightarrow> (nat \<Rightarrow> nat \<Rightarrow> byte) \<Rightarrow> ('s, 'c) hasher \<Rightarrow> (nat \<Rightarrow> time) \<Rightarrow> ('s, 'c) config \<Rightarrow>
   err + ('s, 'c) auth" where
  "auth_new rt en dh dn c =
     (case with_defaults dh dn c of
        Inl e \<Rightarrow> Inl e
      | Inr c' \<Rightarrow>
          (case (cf_adapter c', cf_hasher c', cf_now c', cf_verification_message c', cf_reset_message c') of
             (Some ad, Some h, Some n, Some vm, Some rm) \<Rightarrow>
               Inr \<lparr>au_store = bridge_new rt ad, au_cache = cf_cache c', au_email = cf_email c',
                    au_hasher = h, au_now = n, au_entropy = en, au_rt = rt,
                    au_settings = cf_settings c',
                    au_verification_message = vm, au_reset_message = rm,
                    au_hooks = no_hooks, au_events = new_events\<rparr>
           | _ \<Rightarrow> Inl ErrAdapterRequired))"

definition now :: "('s, 'c) auth \<Rightarrow> ('s, 'c, time) act" where
  "now a = State (\<lambda>w. (au_now a (w_clock w), w\<lparr>w_clock := Suc (w_clock w)\<rparr>))"

definition draw :: "('s, 'c) auth \<Rightarrow> ('s, 'c, nat \<Rightarrow> byte) act" where
  "draw a = State (\<lambda>w. (au_entropy a (w_draws w), w\<lparr>w_draws := Suc (w_draws w)\<rparr>))"

definition fresh_id :: "('s, 'c) auth \<Rightarrow> ('s, 'c, string) act" where
  "fresh_id a = do { src \<leftarrow> draw a; State_Monad.return (new_id src) }"

definition fresh_token :: "('s, 'c) auth \<Rightarrow> ('s, 'c, string) act" where
  "fresh_token a = do { src \<leftarrow> draw a; State_Monad.return (new_token src) }"

definition on_db :: "('s, 'a) state \<Rightarrow> ('s, 'c, 'a) act" where
  "on_db m = zoom w_db (\<lambda>s w. w\<lparr>w_db := s\<rparr>) m"

definition on_cache :: "('c, 'a) state \<Rightarrow> ('s, 'c, 'a) act" where
  "on_cache m = zoom w_cache (\<lambda>s w. w\<lparr>w_cache := s\<rparr>) m"

text \<open>
  \<open>store.Transaction\<close>: a nested call joins the outer transaction; the outermost one undoes
  the effect on the store when the function fails. The rest of the world is not undone.
\<close>

definition transaction :: "('s, 'c) auth \<Rightarrow> ctx \<Rightarrow> (ctx \<Rightarrow> ('s, 'c, 'a) actE) \<Rightarrow> ('s, 'c, 'a) actE" where
  "transaction a cx f =
     (if ctx_in_tx cx then f cx
      else State (\<lambda>w.
        case run_state (f (with_tx cx)) w of
          (Inl e, w') \<Rightarrow> (Inl e, w'\<lparr>w_db := store_rollback (au_store a) (w_db w) (w_db w')\<rparr>)
        | (Inr x, w') \<Rightarrow> (Inr x, w')))"

definition publish :: "('s, 'c) auth \<Rightarrow> ctx \<Rightarrow> string \<Rightarrow> string \<Rightarrow> payload \<Rightarrow> ('s, 'c, unit) act" where
  "publish a cx name subject payload = do {
     t \<leftarrow> now a;
     events_publish (au_events a) cx
       \<lparr>ev_name = name, ev_time = t, ev_subject = subject, ev_payload = payload\<rparr>
   }"

definition EventUserCreated :: string where "EventUserCreated = ''user.created''"
definition EventUserSignedIn :: string where "EventUserSignedIn = ''user.signed_in''"
definition EventUserSignedOut :: string where "EventUserSignedOut = ''user.signed_out''"
definition EventSessionCreated :: string where "EventSessionCreated = ''session.created''"
definition EventSessionRevoked :: string where "EventSessionRevoked = ''session.revoked''"
definition EventPasswordChanged :: string where "EventPasswordChanged = ''password.changed''"
definition EventEmailVerified :: string where "EventEmailVerified = ''email.verified''"

lemmas event_names = EventUserCreated_def EventUserSignedIn_def EventUserSignedOut_def
  EventSessionCreated_def EventSessionRevoked_def EventPasswordChanged_def EventEmailVerified_def

text \<open>\<open>PurgeExpired\<close> returns both counts and joins the errors (\<open>None\<close> is a nil error).\<close>

definition count_of :: "err + int \<Rightarrow> int" where
  "count_of r = (case r of Inl _ \<Rightarrow> 0 | Inr n \<Rightarrow> n)"

definition join_errors :: "err + 'a \<Rightarrow> err + 'b \<Rightarrow> err list" where
  "join_errors r1 r2 =
     (case r1 of Inl e \<Rightarrow> [e] | Inr _ \<Rightarrow> []) @ (case r2 of Inl e \<Rightarrow> [e] | Inr _ \<Rightarrow> [])"

definition purge_expired :: "('s, 'c) auth \<Rightarrow> ('s, 'c, int \<times> int \<times> err list) act" where
  "purge_expired a = do {
     t \<leftarrow> now a;
     r1 \<leftarrow> on_db (sessions_delete_expired (au_store a) t);
     r2 \<leftarrow> on_db (tokens_delete_expired (au_store a) t);
     State_Monad.return (count_of r1, count_of r2, join_errors r1 r2)
   }"

section \<open>The cache policy\<close>

definition cached_session :: "('s, 'c) auth \<Rightarrow> ctx \<Rightarrow> string \<Rightarrow> ('s, 'c, session option) act" where
  "cached_session a cx h =
     (case au_cache a of
        None \<Rightarrow> State_Monad.return None
      | Some ch \<Rightarrow> do {
          r \<leftarrow> on_cache (session_cache_get ch cx h);
          case r of
            Inl e \<Rightarrow> do {
              _ \<leftarrow> (if e \<noteq> CacheMiss
                    then log_line ''auth: session cache read failed, falling back to store'' else skip);
              State_Monad.return None
            }
          | Inr s \<Rightarrow> State_Monad.return (Some s)
        })"

definition cache_session :: "('s, 'c) auth \<Rightarrow> ctx \<Rightarrow> session \<Rightarrow> ('s, 'c, unit) act" where
  "cache_session a cx s =
     (case au_cache a of
        None \<Rightarrow> skip
      | Some ch \<Rightarrow> do {
          t \<leftarrow> now a;
          let ttl = min (st_session_cache_ttl (au_settings a)) (time_sub (sess_expires_at s) t);
          (if ttl \<le> 0 then skip
           else do {
             r \<leftarrow> on_cache (session_cache_set ch cx s ttl);
             case r of Inl _ \<Rightarrow> log_line ''auth: session cache write failed'' | Inr _ \<Rightarrow> skip
           })
        })"

definition invalidate_sessions :: "('s, 'c) auth \<Rightarrow> ctx \<Rightarrow> session list \<Rightarrow> ('s, 'c, unit) act" where
  "invalidate_sessions a cx ss =
     (case au_cache a of
        None \<Rightarrow> skip
      | Some ch \<Rightarrow> for_each (\<lambda>s. do {
          r \<leftarrow> on_cache (session_cache_delete ch cx (sess_token_hash s));
          case r of Inl _ \<Rightarrow> log_line ''auth: session cache invalidation failed'' | Inr _ \<Rightarrow> skip
        }) ss)"

definition cached_user :: "('s, 'c) auth \<Rightarrow> ctx \<Rightarrow> string \<Rightarrow> ('s, 'c, user option) act" where
  "cached_user a cx i =
     (case au_cache a of
        None \<Rightarrow> State_Monad.return None
      | Some ch \<Rightarrow> do {
          r \<leftarrow> on_cache (user_cache_get ch cx i);
          case r of
            Inl e \<Rightarrow> do {
              _ \<leftarrow> (if e \<noteq> CacheMiss
                    then log_line ''auth: user cache read failed, falling back to store'' else skip);
              State_Monad.return None
            }
          | Inr u \<Rightarrow> State_Monad.return (Some u)
        })"

definition cache_user :: "('s, 'c) auth \<Rightarrow> ctx \<Rightarrow> user \<Rightarrow> ('s, 'c, unit) act" where
  "cache_user a cx u =
     (case au_cache a of
        None \<Rightarrow> skip
      | Some ch \<Rightarrow> do {
          r \<leftarrow> on_cache (user_cache_set ch cx u (st_user_cache_ttl (au_settings a)));
          case r of Inl _ \<Rightarrow> log_line ''auth: user cache write failed'' | Inr _ \<Rightarrow> skip
        })"

definition invalidate_user :: "('s, 'c) auth \<Rightarrow> ctx \<Rightarrow> string \<Rightarrow> ('s, 'c, unit) act" where
  "invalidate_user a cx i =
     (case au_cache a of
        None \<Rightarrow> skip
      | Some ch \<Rightarrow> do {
          r \<leftarrow> on_cache (user_cache_delete ch cx i);
          case r of Inl _ \<Rightarrow> log_line ''auth: user cache invalidation failed'' | Inr _ \<Rightarrow> skip
        })"

end
