(* ===== verification/Workflows.thy ===== *)
theory Workflows
  imports Engine
begin

text \<open>
  The workflows of the engine: verification tokens (\<open>verification.go\<close>), users (\<open>user.go\<close>),
  sessions (\<open>session.go\<close>), sign up, sign in and sign out (\<open>signin.go\<close>), passwords and email
  verification (\<open>password.go\<close>). Each definition is one function, its steps in the order
  of the code; what a closure assigns to a captured variable is its result.
\<close>

section \<open>Verification tokens\<close>

definition issue_token ::
  "('s, 'c) auth \<Rightarrow> string \<Rightarrow> string \<Rightarrow> duration \<Rightarrow> ('s, 'c, string) actE" where
  "issue_token a purpose subject ttl =
     (if purpose = [] \<or> subject = [] \<or> ttl \<le> 0 then fail ErrIssueTokenArgs
      else do {
        t \<leftarrow> now a;
        tk \<leftarrow> fresh_token a;
        i \<leftarrow> fresh_id a;
        r \<leftarrow> on_db (tokens_create (au_store a)
               \<lparr>tok_id = i, tok_purpose = purpose, tok_subject = subject,
                tok_token_hash = hash_token (au_rt a) tk, tok_expires_at = t + ttl,
                tok_used_at = None, tok_created_at = t\<rparr>);
        check r (\<lambda>_. ok tk)
      })"

definition consume_token :: "('s, 'c) auth \<Rightarrow> string \<Rightarrow> string \<Rightarrow> ('s, 'c, token) actE" where
  "consume_token a purpose tk =
     (if tk = [] then fail ErrInvalidToken
      else do {
        r \<leftarrow> on_db (tokens_get_by_hash (au_store a) (hash_token (au_rt a) tk));
        case r of
          Inl e \<Rightarrow> fail (if e = StoreNotFound then ErrInvalidToken else e)
        | Inr x \<Rightarrow> do {
            t \<leftarrow> now a;
            (if tok_purpose x \<noteq> purpose \<or> tok_used x \<or> tok_expired x t then fail ErrInvalidToken
             else do {
               m \<leftarrow> on_db (tokens_mark_used (au_store a) (tok_id x) t);
               case m of
                 Inl e \<Rightarrow> fail (if e = StoreConflict \<or> e = StoreNotFound then ErrInvalidToken else e)
               | Inr _ \<Rightarrow> ok (x\<lparr>tok_used_at := Some t\<rparr>)
             })
          }
      })"

definition revoke_tokens :: "('s, 'c) auth \<Rightarrow> string \<Rightarrow> string \<Rightarrow> ('s, 'c, unit) actE" where
  "revoke_tokens a purpose subject = on_db (tokens_delete_by_subject (au_store a) purpose subject)"

section \<open>Users\<close>

text \<open>\<open>GetUser\<close> answers \<open>(nil, nil)\<close> for a user that does not exist.\<close>

definition get_user :: "('s, 'c) auth \<Rightarrow> ctx \<Rightarrow> string \<Rightarrow> ('s, 'c, user option) actE" where
  "get_user a cx i =
     (if i = [] then ok None
      else do {
        c \<leftarrow> cached_user a cx i;
        case c of
          Some u \<Rightarrow> ok (Some u)
        | None \<Rightarrow> do {
            r \<leftarrow> on_db (users_get_by_id (au_store a) i);
            case r of
              Inl e \<Rightarrow> if e = StoreNotFound then ok None else fail e
            | Inr u \<Rightarrow> do { _ \<leftarrow> cache_user a cx u; ok (Some u) }
          }
      })"

definition require_user :: "('s, 'c) auth \<Rightarrow> ctx \<Rightarrow> string \<Rightarrow> ('s, 'c, user) actE" where
  "require_user a cx i =
     bindE (get_user a cx i) (\<lambda>u. case u of None \<Rightarrow> fail ErrUserNotFound | Some u \<Rightarrow> ok u)"

section \<open>Sessions\<close>

definition new_session ::
  "('s, 'c) auth \<Rightarrow> ctx \<Rightarrow> string \<Rightarrow> session_options \<Rightarrow> ('s, 'c, issued_session) actE" where
  "new_session a cx uid opts = do {
     t \<leftarrow> now a;
     tk \<leftarrow> fresh_token a;
     i \<leftarrow> fresh_id a;
     bindE (chain_run (hk_before_session_create (au_hooks a)) cx
       \<lparr>sess_id = i, sess_user_id = uid, sess_token_hash = hash_token (au_rt a) tk,
        sess_ip_address = opt_ip_address opts, sess_user_agent = opt_user_agent opts,
        sess_expires_at = t + st_session_ttl (au_settings a), sess_revoked_at = None,
        sess_created_at = t\<rparr>) (\<lambda>s.
     bindE (on_db (sessions_create (au_store a) s)) (\<lambda>_.
     ok \<lparr>iss_session = s, iss_token = tk\<rparr>))
   }"

definition after_session_created :: "('s, 'c) auth \<Rightarrow> ctx \<Rightarrow> session \<Rightarrow> ('s, 'c, unit) act" where
  "after_session_created a cx s = do {
     _ \<leftarrow> cache_session a cx s;
     publish a cx EventSessionCreated (sess_user_id s) (PSession s)
   }"

definition create_session ::
  "('s, 'c) auth \<Rightarrow> ctx \<Rightarrow> string \<Rightarrow> session_options \<Rightarrow> ('s, 'c, issued_session) actE" where
  "create_session a cx uid opts =
     bindE (transaction a cx (\<lambda>cx. do {
       r \<leftarrow> on_db (users_get_by_id (au_store a) uid);
       case r of
         Inl e \<Rightarrow> fail (if e = StoreNotFound then ErrUserNotFound else e)
       | Inr _ \<Rightarrow> new_session a cx uid opts
     })) (\<lambda>issued. do {
     _ \<leftarrow> after_session_created a cx (iss_session issued);
     ok issued
   })"

definition get_session :: "('s, 'c) auth \<Rightarrow> ctx \<Rightarrow> string \<Rightarrow> ('s, 'c, session_result option) actE" where
  "get_session a cx tk =
     (if tk = [] then ok None
      else do {
        let hash = hash_token (au_rt a) tk;
        t \<leftarrow> now a;
        c \<leftarrow> cached_session a cx hash;
        bindE (case c of
            Some s \<Rightarrow> ok (Some s)
          | None \<Rightarrow> do {
              r \<leftarrow> on_db (sessions_get_by_hash (au_store a) hash);
              case r of
                Inl e \<Rightarrow> if e = StoreNotFound then ok None else fail e
              | Inr s \<Rightarrow> do {
                  _ \<leftarrow> (if sess_valid s t then cache_session a cx s else skip);
                  ok (Some s)
                }
            }) (\<lambda>s'.
        case s' of
          None \<Rightarrow> ok None
        | Some s \<Rightarrow>
            if \<not> sess_valid s t then do { _ \<leftarrow> invalidate_sessions a cx [s]; ok None }
            else bindE (get_user a cx (sess_user_id s)) (\<lambda>u.
              case u of
                None \<Rightarrow> do { _ \<leftarrow> invalidate_sessions a cx [s]; ok None }
              | Some u \<Rightarrow> ok (Some \<lparr>sr_session = s, sr_user = u\<rparr>)))
      })"

definition require_session :: "('s, 'c) auth \<Rightarrow> ctx \<Rightarrow> string \<Rightarrow> ('s, 'c, session_result) actE" where
  "require_session a cx tk =
     bindE (get_session a cx tk) (\<lambda>r. case r of None \<Rightarrow> fail ErrUnauthenticated | Some x \<Rightarrow> ok x)"

definition revoke_session_by_id :: "('s, 'c) auth \<Rightarrow> ctx \<Rightarrow> string \<Rightarrow> ('s, 'c, unit) actE" where
  "revoke_session_by_id a cx i = do {
     r \<leftarrow> on_db (sessions_get_by_id (au_store a) i);
     case r of
       Inl e \<Rightarrow> if e = StoreNotFound then ok () else fail e
     | Inr s \<Rightarrow>
         if sess_revoked s then do { _ \<leftarrow> invalidate_sessions a cx [s]; ok () }
         else do {
           t \<leftarrow> now a;
           bindE (on_db (sessions_revoke (au_store a) (sess_id s) t)) (\<lambda>_. do {
             let s' = s\<lparr>sess_revoked_at := Some t\<rparr>;
             _ \<leftarrow> invalidate_sessions a cx [s'];
             _ \<leftarrow> publish a cx EventSessionRevoked (sess_user_id s') (PSession s');
             ok ()
           })
         }
   }"

text \<open>The loop of \<open>revokeUserSessions\<close> over the sessions of the user.\<close>

fun revoke_others ::
  "('s, 'c) auth \<Rightarrow> string \<Rightarrow> time \<Rightarrow> session list \<Rightarrow> ('s, 'c, session list) actE" where
  "revoke_others a ex t [] = ok []"
| "revoke_others a ex t (s # ss) =
     (if sess_id s = ex \<or> sess_revoked s then revoke_others a ex t ss
      else bindE (on_db (sessions_revoke (au_store a) (sess_id s) t)) (\<lambda>_.
           bindE (revoke_others a ex t ss) (\<lambda>rest.
           ok (s\<lparr>sess_revoked_at := Some t\<rparr> # rest))))"

definition revoke_user_sessions_tx ::
  "('s, 'c) auth \<Rightarrow> string \<Rightarrow> string \<Rightarrow> ('s, 'c, session list) actE" where
  "revoke_user_sessions_tx a uid ex = do {
     t \<leftarrow> now a;
     (if ex = [] then on_db (sessions_revoke_by_user (au_store a) uid t)
      else bindE (on_db (sessions_list_by_user (au_store a) uid)) (\<lambda>all. revoke_others a ex t all))
   }"

definition after_sessions_revoked :: "('s, 'c) auth \<Rightarrow> ctx \<Rightarrow> session list \<Rightarrow> ('s, 'c, unit) act" where
  "after_sessions_revoked a cx revoked = do {
     _ \<leftarrow> invalidate_sessions a cx revoked;
     for_each (\<lambda>s. publish a cx EventSessionRevoked (sess_user_id s) (PSession s)) revoked
   }"

definition revoke_user_sessions :: "('s, 'c) auth \<Rightarrow> ctx \<Rightarrow> string \<Rightarrow> string \<Rightarrow> ('s, 'c, unit) actE" where
  "revoke_user_sessions a cx uid ex =
     bindE (transaction a cx (\<lambda>cx. revoke_user_sessions_tx a uid ex)) (\<lambda>revoked. do {
     _ \<leftarrow> after_sessions_revoked a cx revoked;
     ok ()
   })"

section \<open>Passwords\<close>

definition check_password_policy :: "('s, 'c) auth \<Rightarrow> string \<Rightarrow> err + unit" where
  "check_password_policy a p =
     (if int (length p) < st_password_min (au_settings a) \<or> int (length p) > st_password_max (au_settings a)
      then Inl ErrInvalidPassword else Inr ())"

definition password_credential :: "('s, 'c) auth \<Rightarrow> string \<Rightarrow> ('s, 'c, credential) actE" where
  "password_credential a uid =
     bindE (on_db (accounts_get_by_provider (au_store a) ProviderPassword uid)) (\<lambda>acc.
     on_db (credentials_get_active (au_store a) (acc_id acc) TypePassword))"

text \<open>\<open>dummyHash\<close>: computed by the first caller, on a background context, its error dropped.\<close>

definition timing_password :: string where
  "timing_password = ''gomodularauth-timing-equalizer''"

definition set_dummy :: "string \<Rightarrow> ('s, 'c, unit) act" where
  "set_dummy h = State (\<lambda>w. ((), w\<lparr>w_dummy := Some h\<rparr>))"

definition get_dummy :: "('s, 'c, string option) act" where
  "get_dummy = State (\<lambda>w. (w_dummy w, w))"

definition dummy_hash :: "('s, 'c) auth \<Rightarrow> ('s, 'c, string) act" where
  "dummy_hash a = do {
     d \<leftarrow> get_dummy;
     case d of
       Some h \<Rightarrow> State_Monad.return h
     | None \<Rightarrow> do {
         r \<leftarrow> hash_password (au_hasher a) background timing_password;
         let h = (case r of Inl _ \<Rightarrow> [] | Inr h \<Rightarrow> h);
         _ \<leftarrow> set_dummy h;
         State_Monad.return h
       }
   }"

text \<open>\<open>_ = a.hasher.Verify(ctx, a.dummyHash(), plain)\<close>.\<close>

definition verify_dummy :: "('s, 'c) auth \<Rightarrow> ctx \<Rightarrow> string \<Rightarrow> ('s, 'c, unit) act" where
  "verify_dummy a cx plain = do {
     h \<leftarrow> dummy_hash a;
     _ \<leftarrow> verify_hash (au_hasher a) cx h plain;
     skip
   }"

definition verify_password :: "('s, 'c) auth \<Rightarrow> ctx \<Rightarrow> string \<Rightarrow> string \<Rightarrow> ('s, 'c, unit) actE" where
  "verify_password a cx uid plain = do {
     r \<leftarrow> password_credential a uid;
     case r of
       Inl e \<Rightarrow>
         if e = StoreNotFound then do { _ \<leftarrow> verify_dummy a cx plain; fail ErrInvalidCredentials }
         else fail e
     | Inr c \<Rightarrow> do {
         v \<leftarrow> verify_hash (au_hasher a) cx (cred_secret c) plain;
         case v of
           Inl e \<Rightarrow> fail (if e = PasswordMismatch then ErrInvalidCredentials else e)
         | Inr _ \<Rightarrow> ok ()
       }
   }"

section \<open>Email verification messages\<close>

text \<open>
  The callers have checked that there is a sender (\<open>request_email_verification\<close>, and
  \<open>with_defaults\<close> for sign up); without one the code would dereference nil.
\<close>

definition send_verification_email :: "('s, 'c) auth \<Rightarrow> ctx \<Rightarrow> user \<Rightarrow> ('s, 'c, unit) actE" where
  "send_verification_email a cx u =
     (if user_email_verified u then ok ()
      else bindE (revoke_tokens a PurposeEmailVerification (user_id u)) (\<lambda>_.
           bindE (issue_token a PurposeEmailVerification (user_id u) (st_verification_ttl (au_settings a))) (\<lambda>tk.
           let msg = (au_verification_message a u tk)\<lparr>msg_to := user_email u\<rparr> in
           case au_email a of
             None \<Rightarrow> fail ErrEmailNotConfigured
           | Some send \<Rightarrow> send cx msg)))"

section \<open>Sign up, sign in, sign out\<close>

text \<open>
  \<open>u\<close> is shared by pointer between the result and the hooks: what \<open>beforeUserCreate\<close> and
  \<open>afterUserCreate\<close> leave in it is what the rest of the function and the result see.
\<close>

definition sign_up_tx ::
  "('s, 'c) auth \<Rightarrow> ctx \<Rightarrow> sign_up_input \<Rightarrow> string \<Rightarrow> string \<Rightarrow> time \<Rightarrow> user \<Rightarrow>
   ('s, 'c, user \<times> issued_session option) actE" where
  "sign_up_tx a cx inp email hash t u0 = do {
     g \<leftarrow> on_db (users_get_by_email (au_store a) email);
     case g of
       Inr _ \<Rightarrow> fail ErrEmailAlreadyExists
     | Inl e \<Rightarrow>
         if e \<noteq> StoreNotFound then fail e
         else bindE (chain_run (hk_before_user_create (au_hooks a)) cx u0) (\<lambda>u. do {
           c \<leftarrow> on_db (users_create (au_store a) u);
           case c of
             Inl e \<Rightarrow> fail (if e = StoreConflict then ErrEmailAlreadyExists else e)
           | Inr _ \<Rightarrow> do {
               ai \<leftarrow> fresh_id a;
               bindE (on_db (accounts_create (au_store a)
                 \<lparr>acc_id = ai, acc_user_id = user_id u, acc_provider = ProviderPassword,
                  acc_provider_id = user_id u, acc_created_at = t, acc_updated_at = t\<rparr>)) (\<lambda>_. do {
               ci \<leftarrow> fresh_id a;
               bindE (on_db (credentials_create (au_store a)
                 \<lparr>cred_id = ci, cred_user_id = user_id u, cred_account_id = ai,
                  cred_type = TypePassword, cred_secret = hash, cred_created_at = t,
                  cred_updated_at = t, cred_revoked_at = None\<rparr>)) (\<lambda>_.
               if st_verification_required (au_settings a) then ok (u, None)
               else bindE (new_session a cx (user_id u) (up_session inp)) (\<lambda>issued.
                    ok (u, Some issued)))
               })
             }
         })
   }"

definition sign_up :: "('s, 'c) auth \<Rightarrow> ctx \<Rightarrow> sign_up_input \<Rightarrow> ('s, 'c, auth_result) actE" where
  "sign_up a cx inp0 =
     bindE (chain_run (hk_before_sign_up (au_hooks a)) cx inp0) (\<lambda>inp.
     case normalize_email (au_rt a) (up_email inp) of
       Inl _ \<Rightarrow> fail ErrInvalidEmail
     | Inr email \<Rightarrow>
         check (check_password_policy a (up_password inp)) (\<lambda>_.
         bindE (hash_password (au_hasher a) cx (up_password inp)) (\<lambda>hash. do {
           t \<leftarrow> now a;
           ui \<leftarrow> fresh_id a;
           bindE (transaction a cx (\<lambda>cx. sign_up_tx a cx inp email hash t
             \<lparr>user_id = ui, user_email = email, user_email_verified = False,
              user_created_at = t, user_updated_at = t\<rparr>)) (\<lambda>p. do {
             let u1 = fst p;
             let issued = snd p;
             _ \<leftarrow> cache_user a cx u1;
             _ \<leftarrow> publish a cx EventUserCreated (user_id u1) (PUser u1);
             u \<leftarrow> observers_run (hk_after_user_create (au_hooks a)) cx u1;
             _ \<leftarrow> (case issued of
                     None \<Rightarrow> skip
                   | Some i \<Rightarrow> after_session_created a cx (iss_session i));
             _ \<leftarrow> (if st_send_on_sign_up (au_settings a) then do {
                     r \<leftarrow> send_verification_email a cx u;
                     case r of
                       Inl _ \<Rightarrow> log_line ''auth: failed to send verification email on sign up''
                     | Inr _ \<Rightarrow> skip
                   } else skip);
             res \<leftarrow> observers_run (hk_after_sign_up (au_hooks a)) cx
               \<lparr>res_user = u, res_session = map_option iss_session issued,
                res_token = (case issued of None \<Rightarrow> [] | Some i \<Rightarrow> iss_token i)\<rparr>;
             ok res
           })
         })))"

definition sign_in :: "('s, 'c) auth \<Rightarrow> ctx \<Rightarrow> sign_in_input \<Rightarrow> ('s, 'c, auth_result) actE" where
  "sign_in a cx inp0 =
     bindE (chain_run (hk_before_sign_in (au_hooks a)) cx inp0) (\<lambda>inp.
     case normalize_email (au_rt a) (in_email inp) of
       Inl _ \<Rightarrow> fail ErrInvalidCredentials
     | Inr email \<Rightarrow>
         if int (length (in_password inp)) > st_password_max (au_settings a)
         then fail ErrInvalidCredentials
         else do {
           r \<leftarrow> on_db (users_get_by_email (au_store a) email);
           case r of
             Inl e \<Rightarrow>
               if e = StoreNotFound then do {
                 _ \<leftarrow> verify_dummy a cx (in_password inp);
                 fail ErrInvalidCredentials
               } else fail e
           | Inr u \<Rightarrow>
               bindE (verify_password a cx (user_id u) (in_password inp)) (\<lambda>_.
               if st_verification_required (au_settings a) \<and> \<not> user_email_verified u
               then fail ErrEmailNotVerified
               else bindE (transaction a cx (\<lambda>cx. new_session a cx (user_id u) (in_session inp))) (\<lambda>issued. do {
                 _ \<leftarrow> cache_user a cx u;
                 _ \<leftarrow> after_session_created a cx (iss_session issued);
                 _ \<leftarrow> publish a cx EventUserSignedIn (user_id u) (PSession (iss_session issued));
                 res \<leftarrow> observers_run (hk_after_sign_in (au_hooks a)) cx
                   \<lparr>res_user = u, res_session = Some (iss_session issued), res_token = iss_token issued\<rparr>;
                 ok res
               }))
         })"

definition sign_out :: "('s, 'c) auth \<Rightarrow> ctx \<Rightarrow> sign_out_input \<Rightarrow> ('s, 'c, unit) actE" where
  "sign_out a cx inp0 =
     bindE (chain_run (hk_before_sign_out (au_hooks a)) cx inp0) (\<lambda>inp.
     if out_token inp = [] then ok ()
     else do {
       r \<leftarrow> on_db (sessions_get_by_hash (au_store a) (hash_token (au_rt a) (out_token inp)));
       case r of
         Inl e \<Rightarrow> if e = StoreNotFound then ok () else fail e
       | Inr s \<Rightarrow>
           if sess_revoked s then do { _ \<leftarrow> invalidate_sessions a cx [s]; ok () }
           else do {
             t \<leftarrow> now a;
             bindE (on_db (sessions_revoke (au_store a) (sess_id s) t)) (\<lambda>_. do {
               let s' = s\<lparr>sess_revoked_at := Some t\<rparr>;
               _ \<leftarrow> invalidate_sessions a cx [s'];
               _ \<leftarrow> publish a cx EventSessionRevoked (sess_user_id s') (PSession s');
               _ \<leftarrow> publish a cx EventUserSignedOut (sess_user_id s') (PSession s');
               _ \<leftarrow> observers_run (hk_after_sign_out (au_hooks a)) cx s';
               ok ()
             })
           }
     })"

section \<open>Changing and resetting passwords, verifying emails\<close>

record change_password_input =
  chg_user_id :: string
  chg_current_password :: string
  chg_new_password :: string
  chg_current_session_id :: string
  chg_keep_other_sessions :: bool

record reset_password_input =
  rst_token :: string
  rst_new_password :: string

definition rotate_password :: "('s, 'c) auth \<Rightarrow> string \<Rightarrow> string \<Rightarrow> ('s, 'c, unit) actE" where
  "rotate_password a uid hash =
     bindE (password_credential a uid) (\<lambda>old. do {
       t \<leftarrow> now a;
       bindE (on_db (credentials_revoke (au_store a) (cred_id old) t)) (\<lambda>_. do {
         ci \<leftarrow> fresh_id a;
         on_db (credentials_create (au_store a)
           \<lparr>cred_id = ci, cred_user_id = uid, cred_account_id = cred_account_id old,
            cred_type = TypePassword, cred_secret = hash, cred_created_at = t,
            cred_updated_at = t, cred_revoked_at = None\<rparr>)
       })
     })"

definition change_password :: "('s, 'c) auth \<Rightarrow> ctx \<Rightarrow> change_password_input \<Rightarrow> ('s, 'c, unit) actE" where
  "change_password a cx inp =
     check (check_password_policy a (chg_new_password inp)) (\<lambda>_.
     bindE (verify_password a cx (chg_user_id inp) (chg_current_password inp)) (\<lambda>_.
     bindE (hash_password (au_hasher a) cx (chg_new_password inp)) (\<lambda>hash.
     bindE (transaction a cx (\<lambda>cx.
       bindE (rotate_password a (chg_user_id inp) hash) (\<lambda>_.
       if chg_keep_other_sessions inp then ok []
       else revoke_user_sessions_tx a (chg_user_id inp) (chg_current_session_id inp)))) (\<lambda>revoked. do {
     _ \<leftarrow> after_sessions_revoked a cx revoked;
     _ \<leftarrow> publish a cx EventPasswordChanged (chg_user_id inp) PNil;
     ok ()
   }))))"

definition request_password_reset :: "('s, 'c) auth \<Rightarrow> ctx \<Rightarrow> string \<Rightarrow> ('s, 'c, unit) actE" where
  "request_password_reset a cx email0 =
     (case au_email a of
        None \<Rightarrow> fail ErrEmailNotConfigured
      | Some send \<Rightarrow>
          (case normalize_email (au_rt a) email0 of
             Inl _ \<Rightarrow> fail ErrInvalidEmail
           | Inr email \<Rightarrow> do {
               r \<leftarrow> on_db (users_get_by_email (au_store a) email);
               case r of
                 Inl e \<Rightarrow> if e = StoreNotFound then ok () else fail e
               | Inr u \<Rightarrow> do {
                   p \<leftarrow> password_credential a (user_id u);
                   case p of
                     Inl e \<Rightarrow> if e = StoreNotFound then ok () else fail e
                   | Inr _ \<Rightarrow>
                       bindE (revoke_tokens a PurposePasswordReset (user_id u)) (\<lambda>_.
                       bindE (issue_token a PurposePasswordReset (user_id u) (st_reset_ttl (au_settings a))) (\<lambda>tk.
                       send cx ((au_reset_message a u tk)\<lparr>msg_to := user_email u\<rparr>)))
                 }
             }))"

definition reset_password :: "('s, 'c) auth \<Rightarrow> ctx \<Rightarrow> reset_password_input \<Rightarrow> ('s, 'c, unit) actE" where
  "reset_password a cx inp =
     check (check_password_policy a (rst_new_password inp)) (\<lambda>_.
     bindE (hash_password (au_hasher a) cx (rst_new_password inp)) (\<lambda>hash.
     bindE (transaction a cx (\<lambda>cx.
       bindE (consume_token a PurposePasswordReset (rst_token inp)) (\<lambda>x. do {
         r \<leftarrow> rotate_password a (tok_subject x) hash;
         case r of
           Inl e \<Rightarrow> fail (if e = StoreNotFound then ErrInvalidToken else e)
         | Inr _ \<Rightarrow>
             bindE (revoke_user_sessions_tx a (tok_subject x) []) (\<lambda>revoked.
             ok (tok_subject x, revoked))
       }))) (\<lambda>p. do {
     _ \<leftarrow> after_sessions_revoked a cx (snd p);
     _ \<leftarrow> publish a cx EventPasswordChanged (fst p) PNil;
     ok ()
   })))"

definition request_email_verification :: "('s, 'c) auth \<Rightarrow> ctx \<Rightarrow> string \<Rightarrow> ('s, 'c, unit) actE" where
  "request_email_verification a cx i =
     (case au_email a of
        None \<Rightarrow> fail ErrEmailNotConfigured
      | Some _ \<Rightarrow> do {
          r \<leftarrow> on_db (users_get_by_id (au_store a) i);
          case r of
            Inl e \<Rightarrow> fail (if e = StoreNotFound then ErrUserNotFound else e)
          | Inr u \<Rightarrow> send_verification_email a cx u
        })"

definition verify_email :: "('s, 'c) auth \<Rightarrow> ctx \<Rightarrow> string \<Rightarrow> ('s, 'c, user) actE" where
  "verify_email a cx tk =
     bindE (transaction a cx (\<lambda>cx.
       bindE (consume_token a PurposeEmailVerification tk) (\<lambda>x. do {
         r \<leftarrow> on_db (users_get_by_id (au_store a) (tok_subject x));
         case r of
           Inl e \<Rightarrow> fail (if e = StoreNotFound then ErrInvalidToken else e)
         | Inr u \<Rightarrow>
             if user_email_verified u then ok u
             else do {
               t \<leftarrow> now a;
               let u' = u\<lparr>user_email_verified := True, user_updated_at := t\<rparr>;
               bindE (on_db (users_update (au_store a) u')) (\<lambda>_. ok u')
             }
       }))) (\<lambda>u. do {
     _ \<leftarrow> invalidate_user a cx (user_id u);
     _ \<leftarrow> publish a cx EventEmailVerified (user_id u) (PUser u);
     ok u
   })"

end
