(* ===== verification/Engine_Correct.thy ===== *)
theory Engine_Correct
  imports Workflows
begin

text \<open>
  The engine on any store and cache that keep their contracts (locale \<open>engine\<close>): what each
  step may change, and the coherence of the cache with the store.
\<close>

section \<open>Well-behaved environments\<close>

text \<open>
  The hooks, the event handlers, the hasher and the email sender are code of the
  application. A computation is quiet when it leaves the engine's store and cache alone and
  does not turn back the clock. A benign hook is quiet; before a user or a session is created
  it keeps what identifies the entity it is given, and after a workflow it only observes.
\<close>

definition quiet :: "('s, 'c, 'a) act \<Rightarrow> bool" where
  "quiet m \<longleftrightarrow> (\<forall>w r w'. run_state m w = (r, w') \<longrightarrow>
     w_db w' = w_db w \<and> w_cache w' = w_cache w \<and> w_clock w \<le> w_clock w')"

definition keeps_identity :: "session \<Rightarrow> session \<Rightarrow> bool" where
  "keeps_identity s s' \<longleftrightarrow> sess_id s' = sess_id s \<and> sess_user_id s' = sess_user_id s \<and>
     sess_token_hash s' = sess_token_hash s \<and> sess_revoked_at s' = sess_revoked_at s"

definition same_user :: "user \<Rightarrow> user \<Rightarrow> bool" where
  "same_user u u' \<longleftrightarrow> user_id u' = user_id u \<and> user_email u' = user_email u"

definition benign_chain :: "('a \<Rightarrow> 'a \<Rightarrow> bool) \<Rightarrow> ('s, 'c, 'a) chain \<Rightarrow> bool" where
  "benign_chain R fs \<longleftrightarrow> (\<forall>f \<in> set fs. \<forall>cx v. quiet (f cx v) \<and>
     (\<forall>w v' w'. run_state (f cx v) w = (Inr v', w') \<longrightarrow> R v v'))"

definition benign_observers :: "('a \<Rightarrow> 'a \<Rightarrow> bool) \<Rightarrow> ('s, 'c, 'a) observers \<Rightarrow> bool" where
  "benign_observers R fs \<longleftrightarrow> (\<forall>f \<in> set fs. \<forall>cx v. quiet (f cx v) \<and>
     (\<forall>w v' w'. run_state (f cx v) w = (v', w') \<longrightarrow> R v v'))"

definition anything :: "'a \<Rightarrow> 'a \<Rightarrow> bool" where
  "anything x y \<longleftrightarrow> True"

definition benign_hooks :: "('s, 'c) hooks \<Rightarrow> bool" where
  "benign_hooks h \<longleftrightarrow>
     benign_chain anything (hk_before_sign_up h) \<and> benign_observers (=) (hk_after_sign_up h) \<and>
     benign_chain anything (hk_before_sign_in h) \<and> benign_observers (=) (hk_after_sign_in h) \<and>
     benign_chain anything (hk_before_sign_out h) \<and> benign_observers (=) (hk_after_sign_out h) \<and>
     benign_chain same_user (hk_before_user_create h) \<and>
     benign_observers (=) (hk_after_user_create h) \<and>
     benign_chain keeps_identity (hk_before_session_create h)"

definition benign_events :: "('s, 'c) events \<Rightarrow> bool" where
  "benign_events e \<longleftrightarrow> (\<forall>name. \<forall>h \<in> set (evs_handlers e name @ evs_all e). \<forall>cx ev. quiet (h cx ev))"

definition benign :: "('s, 'c) auth \<Rightarrow> bool" where
  "benign a \<longleftrightarrow> benign_hooks (au_hooks a) \<and> benign_events (au_events a) \<and>
     (\<forall>cx p. quiet (hash_password (au_hasher a) cx p)) \<and>
     (\<forall>cx h p. quiet (verify_hash (au_hasher a) cx h p)) \<and>
     (\<forall>send cx m. au_email a = Some send \<longrightarrow> quiet (send cx m))"

text \<open>The clock is past the zero time and does not go back.\<close>

definition clock_ok :: "(nat \<Rightarrow> time) \<Rightarrow> bool" where
  "clock_ok n \<longleftrightarrow> (\<forall>i. 0 < n i) \<and> (\<forall>i j. i \<le> j \<longrightarrow> n i \<le> n j)"

lemma benign_no_hooks [simp]: "benign_hooks no_hooks"
  by (simp add: benign_hooks_def no_hooks_def benign_chain_def benign_observers_def)

lemma benign_new_events [simp]: "benign_events new_events"
  by (simp add: benign_events_def new_events_def)

text \<open>A top-level call: not inside a transaction, and not cancelled.\<close>

definition plain_call :: "ctx \<Rightarrow> bool" where
  "plain_call cx \<longleftrightarrow> ctx_err cx = None \<and> \<not> ctx_in_tx cx"

section \<open>The engine\<close>

locale engine = store_contract "au_store a" inv view plain_string
  for a :: "('s, 'c) auth" and inv view +
  fixes cview :: "'c \<Rightarrow> string \<rightharpoonup> json"
  assumes cache_ok: "au_cache a = Some ch \<Longrightarrow> reliable_cache ch cview"
    and benign_a: "benign a"
    and clock_a: "clock_ok (au_now a)"
begin

definition V :: "('s, 'c) world \<Rightarrow> db" where
  "V w = view (w_db w)"

definition Inv :: "('s, 'c) world \<Rightarrow> bool" where
  "Inv w \<longleftrightarrow> inv (w_db w)"

text \<open>What the cache, when there is one, holds.\<close>

definition cv :: "('s, 'c) world \<Rightarrow> string \<rightharpoonup> json" where
  "cv w = (if au_cache a = None then Map.empty else cview (w_cache w))"

definition still :: "('s, 'c) world \<Rightarrow> ('s, 'c) world \<Rightarrow> bool" where
  "still w w' \<longleftrightarrow> cv w' \<subseteq>\<^sub>m cv w \<and> w_clock w \<le> w_clock w'"

definition calm :: "('s, 'c) world \<Rightarrow> ('s, 'c) world \<Rightarrow> bool" where
  "calm w w' \<longleftrightarrow> w_db w' = w_db w \<and> still w w'"

lemma still_refl [simp]: "still w w"
  by (simp add: still_def)

lemma still_trans: "still w w1 \<Longrightarrow> still w1 w2 \<Longrightarrow> still w w2"
  unfolding still_def using map_le_trans by force

lemma calm_refl [simp]: "calm w w"
  by (simp add: calm_def)

lemma calm_trans: "calm w w1 \<Longrightarrow> calm w1 w2 \<Longrightarrow> calm w w2"
  unfolding calm_def using still_trans by metis

lemma calm_still: "calm w w' \<Longrightarrow> still w w'"
  by (simp add: calm_def)

lemma calm_V: "calm w w' \<Longrightarrow> V w' = V w \<and> Inv w' = Inv w"
  by (simp add: calm_def V_def Inv_def)

lemma calmI: "(\<And>w r w'. run_state m w = (r, w') \<Longrightarrow> calm w w') \<Longrightarrow> keeps (calm w0) m"
  by (rule keepsI) (blast intro: calm_trans)

lemma calmD: "keeps (calm w) m \<Longrightarrow> run_state m w = (r, w') \<Longrightarrow> calm w w'"
  using keepsD [of "calm w" m w r w'] by simp

lemma still_eq: "w_cache w' = w_cache w \<Longrightarrow> w_clock w \<le> w_clock w' \<Longrightarrow> still w w'"
  by (simp add: still_def cv_def)

lemma calm_quiet: "quiet m \<Longrightarrow> keeps (calm w0) m"
  by (rule calmI) (auto simp: quiet_def calm_def intro: still_eq)

lemma calm_now [keeps_rules]: "keeps (calm w0) (now a)"
  by (rule calm_quiet) (simp add: quiet_def now_def)

lemma calm_draw [keeps_rules]: "keeps (calm w0) (draw a)"
  by (rule calm_quiet) (simp add: quiet_def draw_def)

lemma calm_fresh [keeps_rules]: "keeps (calm w0) (fresh_id a)" "keeps (calm w0) (fresh_token a)"
  unfolding fresh_id_def fresh_token_def by (intro keeps_rules)+

lemma calm_log [keeps_rules]: "keeps (calm w0) (log_line s)"
  by (rule calm_quiet) (simp add: quiet_def log_line_def)

lemma calm_record [keeps_rules]: "keeps (calm w0) (record_event ev)"
  by (rule calm_quiet) (simp add: quiet_def record_event_def)

lemma calm_dummy [keeps_rules]: "keeps (calm w0) get_dummy" "keeps (calm w0) (set_dummy h)"
  by (rule calm_quiet, simp add: quiet_def get_dummy_def set_dummy_def)+

lemma calm_hasher [keeps_rules]:
  "keeps (calm w0) (hash_password (au_hasher a) cx p)"
  "keeps (calm w0) (verify_hash (au_hasher a) cx h p)"
  using benign_a by (auto intro: calm_quiet simp: benign_def)

lemma calm_send: "au_email a = Some send \<Longrightarrow> keeps (calm w0) (send cx m)"
  using benign_a by (auto intro: calm_quiet simp: benign_def)

lemma calm_publish [keeps_rules]: "keeps (calm w0) (publish a cx n s p)"
proof -
  have "keeps (calm w0) (h cx ev)" if "h \<in> set (evs_handlers (au_events a) name @ evs_all (au_events a))"
    for h ev name
    using benign_a that by (auto intro!: calm_quiet simp: benign_def benign_events_def)
  then show ?thesis
    unfolding publish_def events_publish_def safe_call_def
    by (intro keeps_rules) auto
qed

lemma benign_chain_Cons:
  "benign_chain R (f # fs) \<longleftrightarrow> benign_chain R fs \<and> (\<forall>cx v. quiet (f cx v) \<and>
     (\<forall>w v' w'. run_state (f cx v) w = (Inr v', w') \<longrightarrow> R v v'))"
  unfolding benign_chain_def by auto

lemma benign_observers_Cons:
  "benign_observers R (f # fs) \<longleftrightarrow> benign_observers R fs \<and> (\<forall>cx v. quiet (f cx v) \<and>
     (\<forall>w v' w'. run_state (f cx v) w = (v', w') \<longrightarrow> R v v'))"
  unfolding benign_observers_def by auto

lemma calm_chain: "benign_chain R fs \<Longrightarrow> keeps (calm w0) (chain_run fs cx v)"
proof (induction fs arbitrary: v)
  case (Cons f fs)
  then show ?case
    unfolding chain_run.simps benign_chain_Cons by (intro keeps_bindE) (auto intro: calm_quiet)
qed (simp add: keeps_ok)

lemma calm_observers: "benign_observers R fs \<Longrightarrow> keeps (calm w0) (observers_run fs cx v)"
proof (induction fs arbitrary: v)
  case (Cons f fs)
  then show ?case
    unfolding observers_run.simps benign_observers_Cons by (intro keeps_bind) (auto intro: calm_quiet)
qed (simp add: keeps_return)

lemma chain_result:
  assumes "\<And>x. R x x" "\<And>x y z. R x y \<Longrightarrow> R y z \<Longrightarrow> R x z"
  shows "benign_chain R fs \<Longrightarrow> run_state (chain_run fs cx v) w = (Inr v', w') \<Longrightarrow> R v v'"
proof (induction fs arbitrary: v w)
  case Nil
  then show ?case using assms(1) by simp
next
  case (Cons f fs)
  from Cons.prems(2) obtain v1 w1 where 1: "run_state (f cx v) w = (Inr v1, w1)"
    "run_state (chain_run fs cx v1) w1 = (Inr v', w')"
    by (auto split: prod.splits sum.splits)
  with Cons.prems(1) have "R v v1" unfolding benign_chain_Cons by blast
  moreover have "R v1 v'" using Cons.IH [OF _ 1(2)] Cons.prems(1) by (simp add: benign_chain_Cons)
  ultimately show ?case using assms(2) by blast
qed

lemma observers_result:
  assumes "\<And>x. R x x" "\<And>x y z. R x y \<Longrightarrow> R y z \<Longrightarrow> R x z"
  shows "benign_observers R fs \<Longrightarrow> run_state (observers_run fs cx v) w = (v', w') \<Longrightarrow> R v v'"
proof (induction fs arbitrary: v w)
  case Nil
  then show ?case using assms(1) by simp
next
  case (Cons f fs)
  from Cons.prems(2) obtain v1 w1 where 1: "run_state (f cx v) w = (v1, w1)"
    "run_state (observers_run fs cx v1) w1 = (v', w')"
    by (auto split: prod.splits)
  with Cons.prems(1) have "R v v1" unfolding benign_observers_Cons by blast
  moreover have "R v1 v'" using Cons.IH [OF _ 1(2)] Cons.prems(1) by (simp add: benign_observers_Cons)
  ultimately show ?case using assms(2) by blast
qed

lemma hooks_benign: "benign_hooks (au_hooks a)"
  using benign_a by (simp add: benign_def)

lemma session_hooks:
  "run_state (chain_run (hk_before_session_create (au_hooks a)) cx s) w = (Inr s', w') \<Longrightarrow> keeps_identity s s'"
  using chain_result [of keeps_identity "hk_before_session_create (au_hooks a)" cx s w s' w'] hooks_benign
  by (simp add: benign_hooks_def keeps_identity_def [abs_def])

lemma user_hooks:
  "run_state (chain_run (hk_before_user_create (au_hooks a)) cx u) w = (Inr u', w') \<Longrightarrow> same_user u u'"
  using chain_result [of same_user "hk_before_user_create (au_hooks a)" cx u w u' w'] hooks_benign
  by (simp add: benign_hooks_def same_user_def [abs_def])

lemma calm_hooks [keeps_rules]:
  "keeps (calm w0) (chain_run (hk_before_sign_up (au_hooks a)) cx v1)"
  "keeps (calm w0) (chain_run (hk_before_sign_in (au_hooks a)) cx v2)"
  "keeps (calm w0) (chain_run (hk_before_sign_out (au_hooks a)) cx v3)"
  "keeps (calm w0) (chain_run (hk_before_user_create (au_hooks a)) cx v4)"
  "keeps (calm w0) (chain_run (hk_before_session_create (au_hooks a)) cx v5)"
  "keeps (calm w0) (observers_run (hk_after_sign_up (au_hooks a)) cx v6)"
  "keeps (calm w0) (observers_run (hk_after_sign_in (au_hooks a)) cx v6)"
  "keeps (calm w0) (observers_run (hk_after_sign_out (au_hooks a)) cx v5)"
  "keeps (calm w0) (observers_run (hk_after_user_create (au_hooks a)) cx v4)"
  using hooks_benign by (auto simp: benign_hooks_def intro: calm_chain calm_observers)

lemma after_hooks:
  "run_state (observers_run (hk_after_sign_up (au_hooks a)) cx x) w = (x', w') \<Longrightarrow> x' = x"
  "run_state (observers_run (hk_after_sign_in (au_hooks a)) cx x) w = (x', w') \<Longrightarrow> x' = x"
  "run_state (observers_run (hk_after_user_create (au_hooks a)) cx u) w = (u', w'') \<Longrightarrow> u' = u"
  using observers_result [of "(=)" "hk_after_sign_up (au_hooks a)" cx x w x' w']
    observers_result [of "(=)" "hk_after_sign_in (au_hooks a)" cx x w x' w']
    observers_result [of "(=)" "hk_after_user_create (au_hooks a)" cx u w u' w''] hooks_benign
  by (simp_all add: benign_hooks_def)

lemma calm_verify_dummy [keeps_rules]: "keeps (calm w0) (verify_dummy a cx p)"
  unfolding verify_dummy_def dummy_hash_def Let_def by (intro keeps_rules)

text \<open>The store alone.\<close>

lemma run_on_db: "run_state (on_db m) w = (case run_state m (w_db w) of (r, s) \<Rightarrow> (r, w\<lparr>w_db := s\<rparr>))"
  by (simp add: on_db_def)

lemma on_db_E:
  assumes "run_state (on_db m) w = (r, w')"
  obtains s' where "run_state m (w_db w) = (r, s')" "w' = w\<lparr>w_db := s'\<rparr>"
  using assms by (auto simp: run_on_db split: prod.splits)

lemma still_db [simp]: "still w (w\<lparr>w_db := s\<rparr>)"
  by (simp add: still_def cv_def)

lemma V_db [simp]: "V (w\<lparr>w_db := s\<rparr>) = view s" "Inv (w\<lparr>w_db := s\<rparr>) = inv s"
  by (simp_all add: V_def Inv_def)

lemma world_db_same [simp]: "w\<lparr>w_db := w_db w\<rparr> = w"
  by simp

text \<open>The cache alone.\<close>

lemma run_on_cache: "run_state (on_cache m) w = (case run_state m (w_cache w) of (r, s) \<Rightarrow> (r, w\<lparr>w_cache := s\<rparr>))"
  by (simp add: on_cache_def)

lemma cache_laws:
  assumes "au_cache a = Some ch"
  shows "cache_contract ch cview"
  using cache_ok [OF assms] by (simp add: reliable_cache_def)

lemma calm_cache_get:
  assumes ch: "au_cache a = Some ch" and run: "run_state (on_cache (cache_get ch cx k)) w = (r, w')"
  shows "calm w w' \<and> (case r of Inr j \<Rightarrow> cv w k = Some j | Inl _ \<Rightarrow> True)"
  using run cache_contract.get [OF cache_laws [OF ch], of cx k "w_cache w"] ch
  by (cases r) (auto simp: run_on_cache calm_def still_def cv_def split: prod.splits)

lemma calm_cache_set_Inl:
  assumes ch: "au_cache a = Some ch" and run: "run_state (on_cache (cache_set ch cx k v d)) w = (Inl e, w')"
  shows "calm w w'"
  using run cache_contract.set [OF cache_laws [OF ch], of cx k v d "w_cache w"] ch
  by (auto simp: run_on_cache calm_def still_def cv_def split: prod.splits)

text \<open>\<open>puts k j w w'\<close>: the step may have stored \<open>j\<close> under \<open>k\<close>, and has done nothing else.\<close>

definition puts :: "string \<Rightarrow> json \<Rightarrow> ('s, 'c) world \<Rightarrow> ('s, 'c) world \<Rightarrow> bool" where
  "puts k j w w' \<longleftrightarrow> w_db w' = w_db w \<and> w_clock w \<le> w_clock w' \<and> cv w' \<subseteq>\<^sub>m (cv w)(k \<mapsto> j)"

lemma puts_cache_set:
  assumes ch: "au_cache a = Some ch" and run: "run_state (on_cache (cache_set ch cx k v d)) w = (Inr u, w')"
  shows "\<exists>j. v = Inr j \<and> puts k j w w'"
  using run cache_contract.set [OF cache_laws [OF ch], of cx k v d "w_cache w"] ch
  by (auto simp: run_on_cache puts_def cv_def split: prod.splits)

lemma calm_puts: "calm w w1 \<Longrightarrow> puts k j w1 w2 \<Longrightarrow> puts k j w w2"
proof -
  assume c: "calm w w1" and p: "puts k j w1 w2"
  then have "(cv w1)(k \<mapsto> j) \<subseteq>\<^sub>m (cv w)(k \<mapsto> j)"
    by (auto simp: calm_def still_def map_le_def)
  with c p show ?thesis by (auto simp: puts_def calm_def still_def intro: map_le_trans)
qed

lemma puts_calm: "puts k j w w1 \<Longrightarrow> calm w1 w2 \<Longrightarrow> puts k j w w2"
  by (auto simp: puts_def calm_def still_def intro: map_le_trans)

text \<open>Dropping a key.\<close>

lemma cache_del:
  assumes ch: "au_cache a = Some ch" and cx: "ctx_err cx = None"
    and run: "run_state (on_cache (cache_delete ch cx k)) w = (r, w')"
  shows "r = Inr () \<and> calm w w' \<and> cv w' k = None"
proof -
  obtain c' where c': "run_state (cache_delete ch cx k) (w_cache w) = (r, c')" "w' = w\<lparr>w_cache := c'\<rparr>"
    using run by (auto simp: run_on_cache split: prod.splits)
  with reliable_cache.delete_ok [OF cache_ok [OF ch] cx, of k "w_cache w"] have r: "r = Inr ()" by simp
  with cache_contract.delete [OF cache_laws [OF ch] c'(1)] have le: "cview c' \<subseteq>\<^sub>m (cview (w_cache w))(k := None)"
    by simp
  then have "cview c' k = None" by (metis domIff fun_upd_same map_le_implies_dom_le subsetD)
  moreover have "cview c' \<subseteq>\<^sub>m cview (w_cache w)"
    by (rule map_le_trans [OF le upd_None_map_le])
  ultimately show ?thesis using r c'(2) ch by (auto simp: calm_def still_def cv_def)
qed

lemma cv_gone: "calm w w' \<Longrightarrow> cv w k = None \<Longrightarrow> cv w' k = None"
  unfolding calm_def still_def by (metis domIff map_le_implies_dom_le subsetD)

lemma still_gone: "still w w' \<Longrightarrow> cv w k = None \<Longrightarrow> cv w' k = None"
  unfolding still_def by (metis domIff map_le_implies_dom_le subsetD)

lemma calm_invalidate_sessions:
  assumes cx: "ctx_err cx = None" and run: "run_state (invalidate_sessions a cx ss) w = (r, w')"
  shows "calm w w' \<and> (\<forall>s \<in> set ss. cv w' (session_key (sess_token_hash s)) = None)"
proof (cases "au_cache a")
  case None
  with run show ?thesis by (auto simp: invalidate_sessions_def cv_def)
next
  case (Some ch)
  let ?f = "\<lambda>s. do {
      r \<leftarrow> on_cache (session_cache_delete ch cx (sess_token_hash s));
      case r of Inl _ \<Rightarrow> log_line ''auth: session cache invalidation failed'' | Inr _ \<Rightarrow> skip }"
  have step: "calm w w1 \<and> cv w1 (session_key (sess_token_hash s)) = None"
    if "run_state (?f s) w = (u, w1)" for s u w w1
    using that cache_del [OF Some cx, of "session_key (sess_token_hash s)" w]
    by (auto simp: session_cache_delete_def split: prod.splits)
  have "run_state (for_each ?f ss) w = (r, w')"
    using run Some by (simp add: invalidate_sessions_def)
  then show ?thesis
  proof (induction ss arbitrary: w)
    case (Cons s ss)
    then obtain u w1 where "run_state (?f s) w = (u, w1)" "run_state (for_each ?f ss) w1 = (r, w')"
      by (auto split: prod.splits)
    with step [OF this(1)] Cons.IH [OF this(2)] show ?case
      by (auto intro: calm_trans cv_gone)
  qed simp
qed

lemma calm_invalidate_user:
  assumes cx: "ctx_err cx = None" and run: "run_state (invalidate_user a cx i) w = (r, w')"
  shows "calm w w' \<and> cv w' (user_key i) = None"
proof (cases "au_cache a")
  case None
  with run show ?thesis by (auto simp: invalidate_user_def cv_def)
next
  case (Some ch)
  with run cache_del [OF Some cx, of "user_key i" w] show ?thesis
    by (auto simp: invalidate_user_def user_cache_delete_def split: prod.splits)
qed

lemma cache_read:
  assumes ch: "au_cache a = Some ch"
    and run: "run_state (on_cache (bindE (cache_get ch cx k) (\<lambda>j. State_Monad.return (f j)))) w = (q, w1)"
  shows "calm w w1 \<and> (\<forall>x. q = Inr x \<longrightarrow> (\<exists>j. cv w k = Some j \<and> f j = Inr x))"
proof -
  obtain r0 c' where r0: "run_state (cache_get ch cx k) (w_cache w) = (r0, c')" "w1 = w\<lparr>w_cache := c'\<rparr>"
    "q = (case r0 of Inl e \<Rightarrow> Inl e | Inr j \<Rightarrow> f j)"
    using run by (auto simp: run_on_cache split: prod.splits sum.splits)
  then have "run_state (on_cache (cache_get ch cx k)) w = (r0, w1)" by (simp add: run_on_cache)
  from calm_cache_get [OF ch this] r0(3) show ?thesis by (auto split: sum.splits)
qed

lemma cached_session_spec:
  assumes run: "run_state (cached_session a cx h) w = (r, w')"
  shows "calm w w' \<and> (\<forall>s. r = Some s \<longrightarrow> (\<exists>j. cv w (session_key h) = Some j \<and> json_session j = Inr s))"
proof (cases "au_cache a")
  case None
  with run show ?thesis by (auto simp: cached_session_def)
next
  case (Some ch)
  obtain q w1 where q: "run_state (on_cache (session_cache_get ch cx h)) w = (q, w1)" by fastforce
  note g = cache_read [OF Some q [unfolded session_cache_get_def]]
  have "calm w1 w'"
  proof (rule calmD)
    show "keeps (calm w1) (case q of
        Inl e \<Rightarrow> do { _ \<leftarrow> (if e \<noteq> CacheMiss
            then log_line ''auth: session cache read failed, falling back to store'' else skip);
          State_Monad.return None }
      | Inr s \<Rightarrow> State_Monad.return (Some s))"
      by (intro keeps_rules)
  qed (use run Some q in \<open>simp add: cached_session_def run_case_sum\<close>)
  moreover have "q = Inr s" if "r = Some s" for s
    using run Some q that by (auto simp: cached_session_def split: sum.splits prod.splits if_splits)
  ultimately show ?thesis using g calm_trans by blast
qed

lemma cached_user_spec:
  assumes run: "run_state (cached_user a cx i) w = (r, w')"
  shows "calm w w' \<and> (\<forall>u. r = Some u \<longrightarrow> (\<exists>j. cv w (user_key i) = Some j \<and> json_user j = Inr u))"
proof (cases "au_cache a")
  case None
  with run show ?thesis by (auto simp: cached_user_def)
next
  case (Some ch)
  obtain q w1 where q: "run_state (on_cache (user_cache_get ch cx i)) w = (q, w1)" by fastforce
  note g = cache_read [OF Some q [unfolded user_cache_get_def]]
  have "calm w1 w'"
  proof (rule calmD)
    show "keeps (calm w1) (case q of
        Inl e \<Rightarrow> do { _ \<leftarrow> (if e \<noteq> CacheMiss
            then log_line ''auth: user cache read failed, falling back to store'' else skip);
          State_Monad.return None }
      | Inr s \<Rightarrow> State_Monad.return (Some s))"
      by (intro keeps_rules)
  qed (use run Some q in \<open>simp add: cached_user_def run_case_sum\<close>)
  moreover have "q = Inr u" if "r = Some u" for u
    using run Some q that by (auto simp: cached_user_def split: sum.splits prod.splits if_splits)
  ultimately show ?thesis using g calm_trans by blast
qed

lemma cache_session_spec:
  assumes run: "run_state (cache_session a cx s) w = (r, w')"
  shows "calm w w' \<or> (\<exists>j. json_session j = Inr s \<and> puts (session_key (sess_token_hash s)) j w w')"
proof (cases "au_cache a")
  case None
  with run show ?thesis by (auto simp: cache_session_def)
next
  case (Some ch)
  obtain t w1 where t: "run_state (now a) w = (t, w1)" by fastforce
  then have c1: "calm w w1" using calmD [OF calm_now] by blast
  define ttl where "ttl = min (st_session_cache_ttl (au_settings a)) (time_sub (sess_expires_at s) t)"
  show ?thesis
  proof (cases "ttl \<le> 0")
    case True
    with run Some t c1 show ?thesis by (auto simp: cache_session_def Let_def ttl_def)
  next
    case False
    obtain q w2 where q: "run_state (on_cache (session_cache_set ch cx s ttl)) w1 = (q, w2)" by fastforce
    with run Some t False have rest: "run_state (case q of
        Inl _ \<Rightarrow> log_line ''auth: session cache write failed'' | Inr _ \<Rightarrow> skip) w2 = (r, w')"
      by (auto simp: cache_session_def Let_def ttl_def [symmetric] split: sum.splits)
    then have c2: "calm w2 w'"
      by (rule calmD [rotated]) (intro keeps_rules)
    show ?thesis
    proof (cases q)
      case (Inl e)
      with calm_cache_set_Inl [OF Some q [unfolded session_cache_set_def Inl]] c1 c2
      show ?thesis by (blast intro: calm_trans)
    next
      case (Inr u)
      with puts_cache_set [OF Some q [unfolded session_cache_set_def Inr]] obtain j
        where "session_json s = Inr j" "puts (session_key (sess_token_hash s)) j w1 w2" by blast
      with json_session_of calm_puts [OF c1] puts_calm [OF _ c2] show ?thesis by blast
    qed
  qed
qed

lemma cache_user_spec:
  assumes run: "run_state (cache_user a cx u) w = (r, w')"
  shows "calm w w' \<or> (\<exists>j. json_user j = Inr u \<and> puts (user_key (user_id u)) j w w')"
proof (cases "au_cache a")
  case None
  with run show ?thesis by (auto simp: cache_user_def)
next
  case (Some ch)
  obtain q w2 where q: "run_state (on_cache (user_cache_set ch cx u (st_user_cache_ttl (au_settings a)))) w = (q, w2)"
    by fastforce
  with run Some have rest: "run_state (case q of
      Inl _ \<Rightarrow> log_line ''auth: user cache write failed'' | Inr _ \<Rightarrow> skip) w2 = (r, w')"
    by (auto simp: cache_user_def split: sum.splits)
  then have c2: "calm w2 w'"
    by (rule calmD [rotated]) (intro keeps_rules)
  show ?thesis
  proof (cases q)
    case (Inl e)
    with calm_cache_set_Inl [OF Some q [unfolded user_cache_set_def Inl]] c2
    show ?thesis by (blast intro: calm_trans)
  next
    case (Inr x)
    with puts_cache_set [OF Some q [unfolded user_cache_set_def Inr]] obtain j
      where "user_json u = Inr j" "puts (user_key (user_id u)) j w w2" by blast
    with json_user_of puts_calm [OF _ c2] show ?thesis by blast
  qed
qed

section \<open>Coherence\<close>

text \<open>
  The cache is coherent with the store: a session it holds is stored under its token hash
  exactly as cached, or has expired, and a user it holds is stored exactly as cached.
\<close>

definition lapsed :: "('s, 'c) world \<Rightarrow> session \<Rightarrow> bool" where
  "lapsed w s \<longleftrightarrow> (\<exists>n < w_clock w. sess_expires_at s < au_now a n)"

definition coherent :: "('s, 'c) world \<Rightarrow> bool" where
  "coherent w \<longleftrightarrow>
     (\<forall>h j s. cv w (session_key h) = Some j \<longrightarrow> json_session j = Inr s \<longrightarrow>
        sess_token_hash s = h \<and> (s \<in># db_sessions (V w) \<or> lapsed w s)) \<and>
     (\<forall>i j u. cv w (user_key i) = Some j \<longrightarrow> json_user j = Inr u \<longrightarrow>
        user_id u = i \<and> u \<in># db_users (V w))"

definition good :: "('s, 'c) world \<Rightarrow> bool" where
  "good w \<longleftrightarrow> Inv w \<and> coherent w"

lemma lapsed_still: "lapsed w s \<Longrightarrow> still w w' \<Longrightarrow> lapsed w' s"
  unfolding lapsed_def still_def using less_le_trans by blast

lemma still_Some: "still w w' \<Longrightarrow> cv w' k = Some j \<Longrightarrow> cv w k = Some j"
  unfolding still_def by (metis domI map_le_def)

text \<open>
  A step that adds nothing to the cache keeps coherence when what it removes or changes in
  the store is not in the cache any more.
\<close>

lemma coherent_step:
  assumes coh: "coherent w" and st: "still w w'"
    and s: "\<And>s. s \<in># db_sessions (V w) \<Longrightarrow> s \<in># db_sessions (V w') \<or> lapsed w' s \<or>
      cv w' (session_key (sess_token_hash s)) = None"
    and u: "\<And>u. u \<in># db_users (V w) \<Longrightarrow> u \<in># db_users (V w') \<or> cv w' (user_key (user_id u)) = None"
  shows "coherent w'"
  unfolding coherent_def
proof (intro conjI allI impI)
  fix h j s assume j: "cv w' (session_key h) = Some j" "json_session j = Inr s"
  with coh still_Some [OF st] have old: "sess_token_hash s = h" "s \<in># db_sessions (V w) \<or> lapsed w s"
    unfolding coherent_def by blast+
  then show "sess_token_hash s = h" by simp
  show "s \<in># db_sessions (V w') \<or> lapsed w' s"
    using old j s lapsed_still [OF _ st] by fastforce
next
  fix i j x assume j: "cv w' (user_key i) = Some j" "json_user j = Inr x"
  with coh still_Some [OF st] have old: "user_id x = i" "x \<in># db_users (V w)"
    unfolding coherent_def by blast+
  then show "user_id x = i" by simp
  show "x \<in># db_users (V w')" using old j u by fastforce
qed

lemma coherent_calm: "coherent w \<Longrightarrow> calm w w' \<Longrightarrow> coherent w'"
  by (rule coherent_step) (auto simp: calm_def V_def)

lemma good_calm: "good w \<Longrightarrow> calm w w' \<Longrightarrow> good w'"
  using calm_V coherent_calm by (auto simp: good_def)

lemma puts_cv: "puts k j w w' \<Longrightarrow> cv w' k' = Some j' \<Longrightarrow> (k' = k \<and> j' = j) \<or> cv w k' = Some j'"
  unfolding puts_def map_le_def by (metis domI fun_upd_apply option.inject)

lemma good_puts_session:
  assumes g: "good w" and p: "puts (session_key (sess_token_hash s)) j w w'" "json_session j = Inr s"
    and s: "s \<in># db_sessions (V w)"
  shows "good w'"
proof -
  from p(1) have same: "V w' = V w" "Inv w' = Inv w" "w_clock w \<le> w_clock w'"
    by (auto simp: puts_def V_def Inv_def)
  have lap: "lapsed w x \<Longrightarrow> lapsed w' x" for x
    using same(3) unfolding lapsed_def by (meson less_le_trans)
  have "coherent w'"
    unfolding coherent_def same
    using g s p(2) lap puts_cv [OF p(1)] unfolding good_def coherent_def by fastforce
  with g same show ?thesis by (simp add: good_def)
qed

lemma good_puts_user:
  assumes g: "good w" and p: "puts (user_key (user_id u)) j w w'" "json_user j = Inr u"
    and u: "u \<in># db_users (V w)"
  shows "good w'"
proof -
  from p(1) have same: "V w' = V w" "Inv w' = Inv w" "w_clock w \<le> w_clock w'"
    by (auto simp: puts_def V_def Inv_def)
  have lap: "lapsed w x \<Longrightarrow> lapsed w' x" for x
    using same(3) unfolding lapsed_def by (meson less_le_trans)
  have "coherent w'"
    unfolding coherent_def same
    using g u p(2) lap puts_cv [OF p(1)] unfolding good_def coherent_def by fastforce
  with g same show ?thesis by (simp add: good_def)
qed

text \<open>The cache steps, as the workflows use them: the store and the clock, and coherence.\<close>

definition same_db :: "('s, 'c) world \<Rightarrow> ('s, 'c) world \<Rightarrow> bool" where
  "same_db w w' \<longleftrightarrow> w_db w' = w_db w \<and> w_clock w \<le> w_clock w'"

lemma calm_same_db: "calm w w' \<Longrightarrow> same_db w w'"
  by (simp add: calm_def still_def same_db_def)

lemma same_db_V: "same_db w w' \<Longrightarrow> V w' = V w \<and> Inv w' = Inv w"
  by (simp add: same_db_def V_def Inv_def)

lemma same_db_trans: "same_db w w1 \<Longrightarrow> same_db w1 w2 \<Longrightarrow> same_db w w2"
  by (auto simp: same_db_def)

lemma good_cache_session:
  assumes "good w" "s \<in># db_sessions (V w)" "run_state (cache_session a cx s) w = (r, w')"
  shows "good w' \<and> same_db w w'"
  using cache_session_spec [OF assms(3)] good_puts_session [OF assms(1) _ _ assms(2)]
    good_calm [OF assms(1)] calm_same_db
  by (auto simp: puts_def same_db_def)

lemma good_cache_user:
  assumes "good w" "u \<in># db_users (V w)" "run_state (cache_user a cx u) w = (r, w')"
  shows "good w' \<and> same_db w w'"
  using cache_user_spec [OF assms(3)] good_puts_user [OF assms(1) _ _ assms(2)]
    good_calm [OF assms(1)] calm_same_db
  by (auto simp: puts_def same_db_def)

section \<open>Transactions and time\<close>

lemma transaction_spec:
  assumes cx: "\<not> ctx_in_tx cx" and i: "Inv w" and run: "run_state (transaction a cx f) w = (r, w')"
    and body: "\<And>r w1. run_state (f (with_tx cx)) w = (r, w1) \<Longrightarrow>
      Inv w1 \<and> still w w1 \<and> (case r of Inl _ \<Rightarrow> True | Inr x \<Rightarrow> P x w1)"
  shows "Inv w' \<and> still w w' \<and> (case r of Inl _ \<Rightarrow> V w' = V w | Inr x \<Rightarrow> P x w')"
proof -
  obtain q w1 where q: "run_state (f (with_tx cx)) w = (q, w1)" by fastforce
  note b = body [OF q]
  show ?thesis
  proof (cases q)
    case (Inl e)
    with run q cx have "r = Inl e" "w' = w1\<lparr>w_db := store_rollback (au_store a) (w_db w) (w_db w1)\<rparr>"
      by (auto simp: transaction_def)
    with b i store_rollback [of "w_db w" "w_db w1"] show ?thesis
      by (auto simp: Inv_def V_def intro: still_trans)
  next
    case (Inr x)
    with run q cx b show ?thesis by (auto simp: transaction_def)
  qed
qed

lemma run_now: "run_state (now a) w = (au_now a (w_clock w), w\<lparr>w_clock := Suc (w_clock w)\<rparr>)"
  by (simp add: now_def)

lemma now_pos: "au_now a n \<noteq> 0"
  using clock_a by (metis clock_ok_def less_irrefl)

lemma now_mono: "i \<le> j \<Longrightarrow> au_now a i \<le> au_now a j"
  using clock_a by (simp add: clock_ok_def)

lemma now_E:
  assumes "run_state (now a) w = (t, w')"
  obtains "t = au_now a (w_clock w)" "t \<noteq> 0" "calm w w'" "w_clock w' = Suc (w_clock w)"
  using assms now_pos calmD [OF calm_now assms] by (auto simp: run_now)

lemma fresh_id_E:
  assumes "run_state (fresh_id a) w = (i, w')"
  obtains "plain_string i" "calm w w'" "i \<noteq> []"
  using assms calmD [OF calm_fresh(1) assms] by (auto simp: fresh_id_def split: prod.splits)

lemma fresh_token_E:
  assumes "run_state (fresh_token a) w = (i, w')"
  obtains "i \<noteq> []" "calm w w'"
  using assms calmD [OF calm_fresh(2) assms] by (auto simp: fresh_token_def split: prod.splits)

section \<open>Verification tokens\<close>

lemma issue_token_spec:
  assumes i: "Inv w" and run: "run_state (issue_token a p sub ttl) w = (r, w')"
  shows "Inv w' \<and> still w w' \<and> (case r of Inl _ \<Rightarrow> V w' = V w | Inr tk \<Rightarrow>
    (\<exists>x. V w' = (V w)\<lparr>db_tokens := add_mset x (db_tokens (V w))\<rparr> \<and>
      tok_token_hash x = hash_token (au_rt a) tk \<and> tok_purpose x = p \<and> tok_subject x = sub \<and>
      tok_used_at x = None \<and> tok_expires_at x = au_now a (w_clock w) + ttl \<and> 0 < ttl \<and> tk \<noteq> [] \<and>
      (\<forall>y \<in># db_tokens (V w). tok_token_hash y \<noteq> tok_token_hash x)))"
proof (cases "p = [] \<or> sub = [] \<or> ttl \<le> 0")
  case True
  with run i show ?thesis by (auto simp: issue_token_def)
next
  case False
  then obtain t w1 tk w2 id w3 q w4 where t: "run_state (now a) w = (t, w1)"
    and tk: "run_state (fresh_token a) w1 = (tk, w2)" and id: "run_state (fresh_id a) w2 = (id, w3)"
    and q: "run_state (on_db (tokens_create (au_store a)
       \<lparr>tok_id = id, tok_purpose = p, tok_subject = sub, tok_token_hash = hash_token (au_rt a) tk,
        tok_expires_at = t + ttl, tok_used_at = None, tok_created_at = t\<rparr>)) w3 = (q, w4)"
    and r: "r = (case q of Inl e \<Rightarrow> Inl e | Inr _ \<Rightarrow> Inr tk)" "w' = w4"
    using run by (auto simp: issue_token_def run_check split: prod.splits sum.splits)
  from t tk id have c: "calm w w3" and id': "plain_string id" and t': "t = au_now a (w_clock w)" "tk \<noteq> []"
    by (auto elim!: now_E fresh_id_E fresh_token_E intro: calm_trans)
  from q obtain s where s: "run_state (tokens_create (au_store a)
       \<lparr>tok_id = id, tok_purpose = p, tok_subject = sub, tok_token_hash = hash_token (au_rt a) tk,
        tok_expires_at = t + ttl, tok_used_at = None, tok_created_at = t\<rparr>) (w_db w3) = (q, s)"
    "w4 = w3\<lparr>w_db := s\<rparr>" by (rule on_db_E)
  have "inv (w_db w3)" and v: "view (w_db w3) = V w" using c i by (auto simp: calm_def Inv_def V_def)
  note l = tokens_create [OF this(1) _ _ s(1)]
  have st: "still w w'" using c s(2) r(2) still_trans calm_still still_db by blast
  show ?thesis
    using l st False id' t' r s(2) v by (cases q) (auto simp: Inv_def)
qed

lemma consume_token_spec:
  assumes i: "Inv w" and run: "run_state (consume_token a p tk) w = (r, w')"
  shows "Inv w' \<and> still w w' \<and> (case r of Inl _ \<Rightarrow> V w' = V w | Inr x \<Rightarrow>
    tk \<noteq> [] \<and> (\<exists>y \<in># db_tokens (V w). tok_token_hash y = hash_token (au_rt a) tk \<and> tok_purpose y = p \<and>
      tok_used_at y = None \<and> au_now a (w_clock w) < tok_expires_at y \<and>
      x = use_token (au_now a (w_clock w)) y \<and>
      V w' = (V w)\<lparr>db_tokens := upd_where (\<lambda>z. tok_id z = tok_id y \<and> tok_used_at z = None)
        (use_token (au_now a (w_clock w))) (db_tokens (V w))\<rparr>))"
proof (cases "tk = []")
  case True
  with run i show ?thesis by (auto simp: consume_token_def)
next
  case False
  obtain q s1 where q: "run_state (tokens_get_by_hash (au_store a) (hash_token (au_rt a) tk)) (w_db w) = (q, s1)"
    by fastforce
  from i have i': "inv (w_db w)" by (simp add: Inv_def)
  note g = tokens_get_by_hash [OF i' q]
  show ?thesis
  proof (cases q)
    case (Inl e)
    with run False q g i show ?thesis by (auto simp: consume_token_def run_on_db V_def split: if_splits)
  next
    case (Inr y)
    with g have y: "y \<in># db_tokens (V w)" "tok_token_hash y = hash_token (au_rt a) tk" "s1 = w_db w"
      by (auto simp: got_def V_def)
    define t where "t = au_now a (w_clock w)"
    define w1 where "w1 = w\<lparr>w_clock := Suc (w_clock w)\<rparr>"
    have c1: "calm w w1" "w_db w1 = w_db w" using calmD [OF calm_now run_now] by (simp_all add: w1_def)
    show ?thesis
    proof (cases "tok_purpose y \<noteq> p \<or> tok_used y \<or> tok_expired y t")
      case True
      with run False q Inr y c1 i show ?thesis
        by (auto simp: consume_token_def run_on_db run_now t_def w1_def calm_def V_def Inv_def)
    next
      case ok: False
      obtain m s2 where m: "run_state (tokens_mark_used (au_store a) (tok_id y) t) (w_db w1) = (m, s2)"
        by fastforce
      note l = tokens_mark_used [OF i' now_pos m [unfolded c1(2) t_def]]
      from run False q Inr y ok m have r:
        "r = (case m of Inl e \<Rightarrow> Inl (if e = StoreConflict \<or> e = StoreNotFound then ErrInvalidToken else e)
            | Inr _ \<Rightarrow> Inr (y\<lparr>tok_used_at := Some t\<rparr>))" "w' = w1\<lparr>w_db := s2\<rparr>"
        by (auto simp: consume_token_def run_on_db run_now t_def w1_def split: sum.splits)
      have "still w w'" using c1 r(2) still_trans calm_still still_db by blast
      with l r ok y False show ?thesis
        by (cases m) (auto simp: t_def V_def Inv_def tok_used_def tok_expired_def use_token_def)
    qed
  qed
qed

lemma revoke_tokens_spec:
  assumes i: "Inv w" and p: "plain_string p" "plain_string sub"
    and run: "run_state (revoke_tokens a p sub) w = (r, w')"
  shows "Inv w' \<and> still w w' \<and> (case r of Inl _ \<Rightarrow> V w' = V w | Inr _ \<Rightarrow>
    V w' = (V w)\<lparr>db_tokens := {#x \<in># db_tokens (V w). \<not> (tok_purpose x = p \<and> tok_subject x = sub)#}\<rparr>)"
proof -
  from run obtain s where s: "run_state (tokens_delete_by_subject (au_store a) p sub) (w_db w) = (r, s)"
    "w' = w\<lparr>w_db := s\<rparr>" unfolding revoke_tokens_def by (rule on_db_E)
  from tokens_delete_by_subject [OF i [unfolded Inv_def] p s(1)] s(2) show ?thesis
    by (auto simp: V_def [of w] split: sum.splits)
qed

end

end
