(* ===== verification/Sessions_Correct.thy ===== *)
theory Sessions_Correct
  imports Engine_Correct
begin

text \<open>
  Users and sessions: what \<open>GetUser\<close>, \<open>CreateSession\<close>, \<open>GetSession\<close>, \<open>RevokeSession\<close>,
  \<open>RevokeUserSessions\<close> do to the store and that they keep the cache coherent with it.
\<close>

context engine
begin

lemma plain_callD: "plain_call cx \<Longrightarrow> ctx_err cx = None \<and> \<not> ctx_in_tx cx"
  by (simp add: plain_call_def)

lemma good_Inv: "good w \<Longrightarrow> Inv w"
  by (simp add: good_def)

lemma Inv_inv: "Inv w \<Longrightarrow> inv (w_db w)"
  by (simp add: Inv_def)

text \<open>Reading from the store.\<close>

lemma on_db_read:
  assumes "run_state (on_db m) w = (r, w')"
    and "\<And>q s'. run_state m (w_db w) = (q, s') \<Longrightarrow> s' = w_db w \<and> Q q"
  shows "w' = w \<and> Q r"
  using assms by (auto simp: run_on_db split: prod.splits)

lemma read_user:
  "Inv w \<Longrightarrow> run_state (on_db (users_get_by_id (au_store a) i)) w = (r, w') \<Longrightarrow>
   w' = w \<and> got (db_users (V w)) (\<lambda>x. user_id x = i) (\<lambda>x. user_id x = i) r"
  unfolding V_def by (erule on_db_read) (rule users_get_by_id [OF Inv_inv])

lemma read_user_email:
  "Inv w \<Longrightarrow> run_state (on_db (users_get_by_email (au_store a) e)) w = (r, w') \<Longrightarrow>
   w' = w \<and> got (db_users (V w)) (\<lambda>x. user_email x = e) (\<lambda>x. plain_string e \<longrightarrow> user_email x = e) r"
  unfolding V_def by (erule on_db_read) (rule users_get_by_email [OF Inv_inv])

lemma read_session:
  "Inv w \<Longrightarrow> run_state (on_db (sessions_get_by_id (au_store a) i)) w = (r, w') \<Longrightarrow>
   w' = w \<and> got (db_sessions (V w)) (\<lambda>x. sess_id x = i) (\<lambda>x. sess_id x = i) r"
  unfolding V_def by (erule on_db_read) (rule sessions_get_by_id [OF Inv_inv])

lemma read_session_hash:
  "Inv w \<Longrightarrow> run_state (on_db (sessions_get_by_hash (au_store a) (hash_token rt tk))) w = (r, w') \<Longrightarrow>
   w' = w \<and> got (db_sessions (V w)) (\<lambda>x. sess_token_hash x = hash_token rt tk)
     (\<lambda>x. sess_token_hash x = hash_token rt tk) r"
  unfolding V_def
  by (erule on_db_read) (use sessions_get_by_hash [OF Inv_inv] in \<open>force simp: got_def split: sum.splits\<close>)

lemma read_sessions_of:
  "Inv w \<Longrightarrow> run_state (on_db (sessions_list_by_user (au_store a) i)) w = (r, w') \<Longrightarrow>
   w' = w \<and> (case r of Inl _ \<Rightarrow> True | Inr xs \<Rightarrow>
     plain_string i \<longrightarrow> mset xs = {#x \<in># db_sessions (V w). sess_user_id x = i#})"
  unfolding V_def by (erule on_db_read) (rule sessions_list [OF Inv_inv])

text \<open>Users.\<close>

lemma get_user_spec:
  assumes g: "good w" and run: "run_state (get_user a cx i) w = (r, w')"
  shows "good w' \<and> same_db w w' \<and> (case r of Inl _ \<Rightarrow> True
    | Inr None \<Rightarrow> i = [] \<or> (\<forall>u \<in># db_users (V w). user_id u \<noteq> i)
    | Inr (Some u) \<Rightarrow> u \<in># db_users (V w) \<and> user_id u = i)"
proof (cases "i = []")
  case True
  with run g show ?thesis by (auto simp: get_user_def same_db_def)
next
  case False
  obtain c w1 where c: "run_state (cached_user a cx i) w = (c, w1)" by (rule prod.exhaust)
  note cs = cached_user_spec [OF c]
  then have g1: "good w1" "same_db w w1" using good_calm [OF g] calm_same_db by blast+
  show ?thesis
  proof (cases c)
    case (Some u)
    with cs g have "u \<in># db_users (V w) \<and> user_id u = i" unfolding good_def coherent_def by blast
    with run c Some False g1 show ?thesis by (auto simp: get_user_def)
  next
    case None
    obtain q w2 where q: "run_state (on_db (users_get_by_id (au_store a) i)) w1 = (q, w2)" by (rule prod.exhaust)
    note gq = read_user [OF good_Inv [OF g1(1)] q] same_db_V [OF g1(2)]
    show ?thesis
    proof (cases q)
      case (Inl e)
      with run c None False q gq g1 show ?thesis
        by (auto simp: get_user_def got_def split: if_splits)
    next
      case (Inr u)
      obtain x w3 where x: "run_state (cache_user a cx u) w2 = (x, w3)" by (rule prod.exhaust)
      from gq Inr have u: "u \<in># db_users (V w2)" "user_id u = i" "w2 = w1" by (auto simp: got_def)
      from good_cache_user [OF _ u(1) x] g1 u(3) have "good w3" "same_db w1 w3" by simp_all
      moreover from run c None False q Inr x have "r = Inr (Some u)" "w' = w3"
        by (auto simp: get_user_def)
      ultimately show ?thesis using u gq g1 same_db_trans by auto
    qed
  qed
qed

text \<open>Creating a session, inside of a transaction.\<close>

definition issued_ok :: "string \<Rightarrow> issued_session \<Rightarrow> bool" where
  "issued_ok uid x \<longleftrightarrow> iss_token x \<noteq> [] \<and> sess_user_id (iss_session x) = uid \<and>
     sess_token_hash (iss_session x) = hash_token (au_rt a) (iss_token x) \<and>
     sess_revoked_at (iss_session x) = None"

lemma new_session_spec:
  assumes i: "Inv w" and run: "run_state (new_session a cx uid opts) w = (r, w')"
  shows "Inv w' \<and> still w w' \<and> (case r of Inl _ \<Rightarrow> V w' = V w | Inr x \<Rightarrow> issued_ok uid x \<and>
    V w' = (V w)\<lparr>db_sessions := add_mset (iss_session x) (db_sessions (V w))\<rparr> \<and>
    (\<forall>y \<in># db_sessions (V w). sess_token_hash y \<noteq> sess_token_hash (iss_session x)))"
proof -
  obtain t w1 tk w2 id w3 where t: "run_state (now a) w = (t, w1)"
    and tk: "run_state (fresh_token a) w1 = (tk, w2)" and id: "run_state (fresh_id a) w2 = (id, w3)"
    by (metis surj_pair)
  let ?s = "\<lparr>sess_id = id, sess_user_id = uid, sess_token_hash = hash_token (au_rt a) tk,
        sess_ip_address = opt_ip_address opts, sess_user_agent = opt_user_agent opts,
        sess_expires_at = t + st_session_ttl (au_settings a), sess_revoked_at = None,
        sess_created_at = t\<rparr>"
  obtain q w4 where q: "run_state (chain_run (hk_before_session_create (au_hooks a)) cx ?s) w3 = (q, w4)"
    by (rule prod.exhaust)
  from t tk id have c3: "calm w w3" and id': "plain_string id" and tk': "tk \<noteq> []"
    by (auto elim!: now_E fresh_id_E fresh_token_E intro: calm_trans)
  from calmD [OF calm_hooks(5) q] c3 have c4: "calm w w4" by (blast intro: calm_trans)
  show ?thesis
  proof (cases q)
    case (Inl e)
    with run t tk id q c4 i show ?thesis using calm_V calm_still by (auto simp: new_session_def)
  next
    case (Inr s)
    with session_hooks q have ks: "keeps_identity ?s s" by simp
    obtain m s5 where m: "run_state (sessions_create (au_store a) s) (w_db w4) = (m, s5)" by (rule prod.exhaust)
    have iv: "inv (w_db w4)" "view (w_db w4) = V w" using c4 i by (auto simp: calm_def Inv_def V_def)
    from ks id' have "plain_string (sess_id s)" "sess_revoked_at s \<noteq> Some 0"
      by (auto simp: keeps_identity_def)
    note l = sessions_create [OF iv(1) this m]
    from run t tk id q Inr m have r: "r = (case m of Inl e \<Rightarrow> Inl e | Inr _ \<Rightarrow> Inr \<lparr>iss_session = s, iss_token = tk\<rparr>)"
      "w' = w4\<lparr>w_db := s5\<rparr>"
      by (auto simp: new_session_def run_on_db split: sum.splits)
    have "still w w'" using c4 r(2) still_trans calm_still still_db by blast
    with l r iv ks tk' show ?thesis
      by (cases m) (auto simp: issued_ok_def keeps_identity_def)
  qed
qed

text \<open>After the commit: a stored session may be cached, and the creation is published.\<close>

lemma after_session_created_spec:
  assumes g: "good w" and s: "s \<in># db_sessions (V w)"
    and run: "run_state (after_session_created a cx s) w = (r, w')"
  shows "good w' \<and> same_db w w'"
proof -
  obtain x w1 where x: "run_state (cache_session a cx s) w = (x, w1)" by (rule prod.exhaust)
  with run have p: "run_state (publish a cx EventSessionCreated (sess_user_id s) (PSession s)) w1 = (r, w')"
    by (simp add: after_session_created_def)
  from good_cache_session [OF g s x] calmD [OF calm_publish p] show ?thesis
    by (blast intro: good_calm same_db_trans calm_same_db)
qed

lemma good_grow:
  assumes g: "good w" and i: "Inv w'" and st: "still w w'"
    and s: "db_sessions (V w) \<subseteq># db_sessions (V w')" and u: "db_users (V w) \<subseteq># db_users (V w')"
  shows "good w'"
proof -
  have "coherent w'"
  proof (rule coherent_step [OF _ st])
    show "coherent w" using g by (simp add: good_def)
  qed (use s u in \<open>auto dest: mset_subset_eqD\<close>)
  with i show ?thesis by (simp add: good_def)
qed

lemma create_session_spec:
  assumes g: "good w" and cx: "plain_call cx"
    and run: "run_state (create_session a cx uid opts) w = (r, w')"
  shows "good w' \<and> (case r of Inl _ \<Rightarrow> V w' = V w | Inr x \<Rightarrow> issued_ok uid x \<and>
    (\<exists>u \<in># db_users (V w). user_id u = uid) \<and>
    V w' = (V w)\<lparr>db_sessions := add_mset (iss_session x) (db_sessions (V w))\<rparr>)"
proof -
  let ?f = "\<lambda>cx. do {
       r \<leftarrow> on_db (users_get_by_id (au_store a) uid);
       case r of
         Inl e \<Rightarrow> fail (if e = StoreNotFound then ErrUserNotFound else e)
       | Inr _ \<Rightarrow> new_session a cx uid opts
     }"
  obtain q w1 where q: "run_state (transaction a cx ?f) w = (q, w1)" by (rule prod.exhaust)
  have tx: "Inv w1 \<and> still w w1 \<and> (case q of Inl _ \<Rightarrow> V w1 = V w | Inr x \<Rightarrow> issued_ok uid x \<and>
    (\<exists>u \<in># db_users (V w). user_id u = uid) \<and>
    V w1 = (V w)\<lparr>db_sessions := add_mset (iss_session x) (db_sessions (V w))\<rparr>)"
  proof (rule transaction_spec [OF _ good_Inv [OF g] q])
    fix r w2 assume b: "run_state (?f (with_tx cx)) w = (r, w2)"
    obtain p w3 where p: "run_state (on_db (users_get_by_id (au_store a) uid)) w = (p, w3)" by (rule prod.exhaust)
    note rd = read_user [OF good_Inv [OF g] p]
    show "Inv w2 \<and> still w w2 \<and> (case r of Inl _ \<Rightarrow> True | Inr x \<Rightarrow> issued_ok uid x \<and>
      (\<exists>u \<in># db_users (V w). user_id u = uid) \<and>
      V w2 = (V w)\<lparr>db_sessions := add_mset (iss_session x) (db_sessions (V w))\<rparr>)"
    proof (cases p)
      case (Inl e)
      with b p rd g show ?thesis by (auto simp: good_Inv)
    next
      case (Inr u)
      with b p rd have "run_state (new_session a (with_tx cx) uid opts) w = (r, w2)"
        "u \<in># db_users (V w)" "user_id u = uid" by (auto simp: got_def)
      with new_session_spec [OF good_Inv [OF g] this(1)] show ?thesis by (auto split: sum.splits)
    qed
  qed (use cx in \<open>simp add: plain_call_def\<close>)
  show ?thesis
  proof (cases q)
    case (Inl e)
    with run q have "r = Inl e" "w' = w1" by (simp_all add: create_session_def)
    with tx Inl good_grow [OF g] show ?thesis by auto
  next
    case (Inr x)
    with tx have "good w1" by (intro good_grow [OF g]) auto
    obtain y w2 where y: "run_state (after_session_created a cx (iss_session x)) w1 = (y, w2)" by (rule prod.exhaust)
    with run q Inr have "r = Inr x" "w' = w2" by (simp_all add: create_session_def)
    moreover have "good w2 \<and> same_db w1 w2"
      using after_session_created_spec [OF \<open>good w1\<close> _ y] tx Inr by simp
    ultimately show ?thesis using tx Inr same_db_V by auto
  qed
qed

text \<open>Resolving a token.\<close>

definition resolves :: "('s, 'c) world \<Rightarrow> string \<Rightarrow> session_result \<Rightarrow> bool" where
  "resolves w tk x \<longleftrightarrow> tk \<noteq> [] \<and> sr_session x \<in># db_sessions (V w) \<and>
     sess_token_hash (sr_session x) = hash_token (au_rt a) tk \<and>
     sess_valid (sr_session x) (au_now a (w_clock w)) \<and>
     sr_user x \<in># db_users (V w) \<and> user_id (sr_user x) = sess_user_id (sr_session x)"

lemma lapsed_invalid: "lapsed w s \<Longrightarrow> \<not> sess_valid s (au_now a (w_clock w))"
proof -
  assume "lapsed w s"
  then obtain n where "n < w_clock w" "sess_expires_at s < au_now a n" by (auto simp: lapsed_def)
  with now_mono [of n "w_clock w"] show ?thesis by (auto simp: sess_valid_def sess_expired_def)
qed

lemma get_session_spec:
  assumes g: "good w" and cx: "ctx_err cx = None"
    and run: "run_state (get_session a cx tk) w = (r, w')"
  shows "good w' \<and> same_db w w' \<and> (\<forall>x. r = Inr (Some x) \<longrightarrow> resolves w tk x)"
proof (cases "tk = []")
  case True
  with run g show ?thesis by (auto simp: get_session_def same_db_def)
next
  case False
  define t where "t = au_now a (w_clock w)"
  obtain w1 where n: "run_state (now a) w = (t, w1)" "calm w w1"
    using run_now calmD [OF calm_now run_now] by (auto simp: t_def)
  obtain c w2 where c: "run_state (cached_session a cx (hash_token (au_rt a) tk)) w1 = (c, w2)" by (rule prod.exhaust)
  note cs = cached_session_spec [OF c]
  have g2: "good w2" "same_db w w2"
    using cs n(2) good_calm [OF g] calm_trans calm_same_db by blast+
  define k where "k = (\<lambda>s'. case s' of
          None \<Rightarrow> ok None
        | Some s \<Rightarrow>
            if \<not> sess_valid s t then do { _ \<leftarrow> invalidate_sessions a cx [s]; ok None }
            else bindE (get_user a cx (sess_user_id s)) (\<lambda>u.
              case u of
                None \<Rightarrow> do { _ \<leftarrow> invalidate_sessions a cx [s]; ok None }
              | Some u \<Rightarrow> ok (Some \<lparr>sr_session = s, sr_user = u\<rparr>)))"
  have tail: "good w' \<and> same_db w w' \<and> (\<forall>x. r = Inr (Some x) \<longrightarrow> resolves w tk x)"
    if k: "run_state (k s') w3 = (r, w')" and g3: "good w3" "same_db w w3"
      and s': "\<And>s. s' = Some s \<Longrightarrow> sess_valid s t \<Longrightarrow>
        s \<in># db_sessions (V w) \<and> sess_token_hash s = hash_token (au_rt a) tk" for s' w3
  proof (cases s')
    case None
    with k g3 show ?thesis by (auto simp: k_def)
  next
    case (Some s)
    show ?thesis
    proof (cases "sess_valid s t")
      case inv: False
      obtain y w4 where y: "run_state (invalidate_sessions a cx [s]) w3 = (y, w4)" by (rule prod.exhaust)
      with k Some inv have "r = Inr None" "w' = w4" by (auto simp: k_def)
      with calm_invalidate_sessions [OF cx y] g3 show ?thesis
        by (auto intro: good_calm same_db_trans calm_same_db)
    next
      case True
      obtain u w4 where u: "run_state (get_user a cx (sess_user_id s)) w3 = (u, w4)" by (rule prod.exhaust)
      note gu = get_user_spec [OF g3(1) u]
      show ?thesis
      proof (cases u)
        case (Inl e)
        with k Some True u gu g3 show ?thesis by (auto simp: k_def intro: same_db_trans)
      next
        case (Inr uo)
        show ?thesis
        proof (cases uo)
          case None
          obtain y w5 where y: "run_state (invalidate_sessions a cx [s]) w4 = (y, w5)" by (rule prod.exhaust)
          with k Some True u Inr None have "r = Inr None" "w' = w5" by (auto simp: k_def)
          with calm_invalidate_sessions [OF cx y] gu g3 show ?thesis
            by (auto intro: good_calm same_db_trans calm_same_db)
        next
          case uu: (Some v)
          with k Some True u Inr have "r = Inr (Some \<lparr>sr_session = s, sr_user = v\<rparr>)" "w' = w4"
            by (auto simp: k_def)
          with gu g3 Inr uu s' [OF Some True] True False same_db_V [OF g3(2)] show ?thesis
            by (auto simp: resolves_def t_def intro: same_db_trans)
        qed
      qed
    qed
  qed
  have run': "run_state (bindE (case c of
            Some s \<Rightarrow> ok (Some s)
          | None \<Rightarrow> do {
              r \<leftarrow> on_db (sessions_get_by_hash (au_store a) (hash_token (au_rt a) tk));
              case r of
                Inl e \<Rightarrow> if e = StoreNotFound then ok None else fail e
              | Inr s \<Rightarrow> do {
                  _ \<leftarrow> (if sess_valid s t then cache_session a cx s else skip);
                  ok (Some s)
                }
            }) k) w2 = (r, w')"
    using run False n(1) c by (simp add: get_session_def Let_def k_def)
  show ?thesis
  proof (cases c)
    case (Some s)
    with run' have k: "run_state (k (Some s)) w2 = (r, w')" by simp
    show ?thesis
    proof (rule tail [OF k g2])
      fix s0 assume s0: "Some s = Some s0" "sess_valid s0 t"
      from cs Some obtain j where "cv w1 (session_key (hash_token (au_rt a) tk)) = Some j"
        "json_session j = Inr s" by blast
      with still_Some [OF calm_still [OF n(2)]] g have
        "sess_token_hash s = hash_token (au_rt a) tk" "s \<in># db_sessions (V w) \<or> lapsed w s"
        unfolding good_def coherent_def by blast+
      with s0 lapsed_invalid show "s0 \<in># db_sessions (V w) \<and> sess_token_hash s0 = hash_token (au_rt a) tk"
        by (auto simp: t_def)
    qed
  next
    case None
    obtain q w3 where q: "run_state (on_db (sessions_get_by_hash (au_store a) (hash_token (au_rt a) tk))) w2 = (q, w3)"
      by (rule prod.exhaust)
    note rd = read_session_hash [OF good_Inv [OF g2(1)] q] same_db_V [OF g2(2)]
    show ?thesis
    proof (cases q)
      case (Inl e)
      with run' None q rd g2 show ?thesis by (auto simp: k_def split: if_splits)
    next
      case (Inr s)
      with rd have s: "s \<in># db_sessions (V w)" "sess_token_hash s = hash_token (au_rt a) tk" "w3 = w2"
        by (auto simp: got_def)
      obtain y w4 where y: "run_state (if sess_valid s t then cache_session a cx s else skip) w2 = (y, w4)"
        by (rule prod.exhaust)
      have "good w4 \<and> same_db w2 w4"
        using y good_cache_session [OF g2(1), of s cx y w4] s rd g2(1)
        by (auto simp: same_db_def split: if_splits)
      moreover have "run_state (k (Some s)) w4 = (r, w')" using run' None q Inr s y by simp
      ultimately show ?thesis using tail [of "Some s" w4] s g2 same_db_trans by blast
    qed
  qed
qed

text \<open>
  Revocations: once what was revoked in the store has been dropped from the cache, the
  cache is coherent again.
\<close>

lemma uniq_sessions: "Inv w \<Longrightarrow> uniq sess_id (db_sessions (V w)) \<and> uniq sess_token_hash (db_sessions (V w))"
  using inv_db_ok [of "w_db w"] by (simp add: Inv_def V_def db_ok_def)

lemma good_revoked:
  assumes g: "good w" and i: "Inv w2" and st: "still w w2" and cx: "ctx_err cx = None"
    and u: "db_users (V w2) = db_users (V w)"
    and s: "db_sessions (V w2) = upd_where P f (db_sessions (V w))"
    and ss: "\<And>x. x \<in># db_sessions (V w) \<Longrightarrow> P x \<Longrightarrow> sess_token_hash x \<in> sess_token_hash ` set ss"
    and run: "run_state (invalidate_sessions a cx ss) w2 = (r, w3)"
  shows "good w3 \<and> calm w2 w3"
proof -
  note c = calm_invalidate_sessions [OF cx run]
  then have v: "V w3 = V w2" "Inv w3" using calm_V i by blast+
  have "coherent w3"
  proof (rule coherent_step)
    show "coherent w" using g by (simp add: good_def)
    show "still w w3" using st c calm_still still_trans by blast
    fix x assume x: "x \<in># db_sessions (V w)"
    show "x \<in># db_sessions (V w3) \<or> lapsed w3 x \<or> cv w3 (session_key (sess_token_hash x)) = None"
    proof (cases "P x")
      case True
      with ss x c show ?thesis by fastforce
    next
      case False
      with x s v show ?thesis by (auto simp: upd_where_def intro!: image_eqI [of _ _ x])
    qed
  qed (use u v in auto)
  with v c show ?thesis by (simp add: good_def)
qed

lemma after_sessions_revoked_spec:
  assumes g: "good w" and i: "Inv w2" and st: "still w w2" and cx: "ctx_err cx = None"
    and u: "db_users (V w2) = db_users (V w)"
    and s: "db_sessions (V w2) = upd_where P f (db_sessions (V w))"
    and ss: "\<And>x. x \<in># db_sessions (V w) \<Longrightarrow> P x \<Longrightarrow> sess_token_hash x \<in> sess_token_hash ` set ss"
    and run: "run_state (after_sessions_revoked a cx ss) w2 = (r, w3)"
  shows "good w3 \<and> calm w2 w3"
proof -
  obtain y w4 where y: "run_state (invalidate_sessions a cx ss) w2 = (y, w4)" by (rule prod.exhaust)
  with run have p: "run_state (for_each (\<lambda>s. publish a cx EventSessionRevoked (sess_user_id s) (PSession s)) ss) w4 = (r, w3)"
    by (simp add: after_sessions_revoked_def)
  have "calm w4 w3" by (rule calmD [OF _ p]) (intro keeps_rules)
  with good_revoked [OF g i st cx u s ss y] show ?thesis
    by (blast intro: good_calm calm_trans)
qed

lemma revoke_one:
  assumes i: "Inv w" and t: "t \<noteq> 0"
    and run: "run_state (on_db (sessions_revoke (au_store a) sid t)) w = (r, w')"
  shows "Inv w' \<and> still w w' \<and> (case r of Inl _ \<Rightarrow> V w' = V w | Inr _ \<Rightarrow>
    V w' = (V w)\<lparr>db_sessions := upd_where (\<lambda>x. sess_id x = sid) (revoke_session t) (db_sessions (V w))\<rparr>)"
proof -
  from run obtain s where s: "run_state (sessions_revoke (au_store a) sid t) (w_db w) = (r, s)"
    "w' = w\<lparr>w_db := s\<rparr>" by (rule on_db_E)
  from sessions_revoke [OF i [unfolded Inv_def] t s(1)] s(2) show ?thesis
    by (auto simp: V_def [of w] split: sum.splits)
qed

lemma revoke_session_simps [simp]:
  "sess_id (revoke_session t x) = sess_id x" "sess_user_id (revoke_session t x) = sess_user_id x"
  "sess_token_hash (revoke_session t x) = sess_token_hash x"
  "sess_expires_at (revoke_session t x) = sess_expires_at x"
  "sess_revoked_at (revoke_session t x) = Some t"
  "revoke_session t (revoke_session t' x) = revoke_session t x"
  by (simp_all add: revoke_session_def)

lemma revoke_session_by_id_spec:
  assumes g: "good w" and cx: "ctx_err cx = None"
    and run: "run_state (revoke_session_by_id a cx sid) w = (r, w')"
  shows "good w' \<and> (case r of Inl _ \<Rightarrow> V w' = V w | Inr _ \<Rightarrow>
    (V w' = V w \<and> (\<forall>x \<in># db_sessions (V w). sess_id x = sid \<longrightarrow> sess_revoked x)) \<or>
    (\<exists>t. V w' = (V w)\<lparr>db_sessions := upd_where (\<lambda>x. sess_id x = sid) (revoke_session t) (db_sessions (V w))\<rparr>))"
proof -
  obtain q w1 where q: "run_state (on_db (sessions_get_by_id (au_store a) sid)) w = (q, w1)" by (rule prod.exhaust)
  note rd = read_session [OF good_Inv [OF g] q]
  show ?thesis
  proof (cases q)
    case (Inl e)
    with run q rd g show ?thesis
      by (auto simp: revoke_session_by_id_def got_def split: if_splits)
  next
    case (Inr s)
    with rd have s: "s \<in># db_sessions (V w)" "sess_id s = sid" "w1 = w" by (auto simp: got_def)
    have same: "x = s" if "x \<in># db_sessions (V w)" "sess_id x = sid" for x
      using uniq_eq [of sess_id "db_sessions (V w)" x s] uniq_sessions [OF good_Inv [OF g]] that s by simp
    show ?thesis
    proof (cases "sess_revoked s")
      case True
      obtain y w2 where y: "run_state (invalidate_sessions a cx [s]) w = (y, w2)" by (rule prod.exhaust)
      with run q Inr True s have "r = Inr ()" "w' = w2" by (auto simp: revoke_session_by_id_def)
      with calm_invalidate_sessions [OF cx y] g same True show ?thesis
        using calm_V by (auto intro: good_calm)
    next
      case False
      define t where "t = au_now a (w_clock w)"
      obtain w2 where n: "run_state (now a) w = (t, w2)" "calm w w2"
        using run_now calmD [OF calm_now run_now] by (auto simp: t_def)
      obtain m w3 where m: "run_state (on_db (sessions_revoke (au_store a) (sess_id s) t)) w2 = (m, w3)"
        by (rule prod.exhaust)
      have "Inv w2" "V w2 = V w" using n(2) g calm_V by (auto simp: good_def)
      note rv = revoke_one [OF this(1) _ m]
      have "still w2 w3" using rv now_pos by (simp add: t_def)
      then have st: "still w w3" using n(2) calm_still still_trans by blast
      show ?thesis
      proof (cases m)
        case (Inl e)
        with run q Inr False s n(1) m have "r = Inl e" "w' = w3" by (auto simp: revoke_session_by_id_def)
        with rv Inl st now_pos g \<open>V w2 = V w\<close> show ?thesis
          by (auto simp: t_def intro: good_grow [OF g])
      next
        case ok: (Inr u)
        let ?s = "s\<lparr>sess_revoked_at := Some t\<rparr>"
        obtain y w4 where y: "run_state (invalidate_sessions a cx [?s]) w3 = (y, w4)" by (rule prod.exhaust)
        obtain z w5 where z: "run_state (publish a cx EventSessionRevoked (sess_user_id ?s) (PSession ?s)) w4 = (z, w5)"
          by (rule prod.exhaust)
        have r: "r = Inr ()" "w' = w5"
          using run q Inr False s n(1) m ok y z by (auto simp: revoke_session_by_id_def Let_def)
        have gr: "good w4 \<and> calm w3 w4"
        proof (rule good_revoked [OF g _ st cx _ _ _ y])
          show "Inv w3" using rv now_pos by (auto simp: t_def)
          show "db_users (V w3) = db_users (V w)"
            and "db_sessions (V w3) = upd_where (\<lambda>x. sess_id x = sid) (revoke_session t) (db_sessions (V w))"
            using rv ok now_pos \<open>V w2 = V w\<close> s by (auto simp: t_def)
        qed (use same in auto)
        moreover have "calm w4 w5" using calmD [OF calm_publish z] .
        ultimately have "good w5" "V w5 = V w3" using good_calm calm_V by metis+
        with r rv ok now_pos \<open>V w2 = V w\<close> s show ?thesis by (auto simp: t_def)
      qed
    qed
  qed
qed

text \<open>Revoking the sessions of a user, inside of a transaction.\<close>

lemma revoke_others_spec:
  assumes "t \<noteq> 0" "Inv w" "run_state (revoke_others a ex t ss) w = (Inr rs, w')"
  shows "Inv w' \<and> still w w' \<and>
    rs = map (revoke_session t) (filter (\<lambda>s. \<not> (sess_id s = ex \<or> sess_revoked s)) ss) \<and>
    V w' = (V w)\<lparr>db_sessions :=
      upd_where (\<lambda>x. sess_id x \<in> sess_id ` set rs) (revoke_session t) (db_sessions (V w))\<rparr>"
  using assms(2,3)
proof (induction ss arbitrary: w rs)
  case Nil
  then show ?case by (auto simp: upd_where_def)
next
  case (Cons s ss)
  show ?case
  proof (cases "sess_id s = ex \<or> sess_revoked s")
    case True
    with Cons show ?thesis by auto
  next
    case False
    with Cons.prems obtain u w1 rest where
      m: "run_state (on_db (sessions_revoke (au_store a) (sess_id s) t)) w = (Inr u, w1)"
      and rest: "run_state (revoke_others a ex t ss) w1 = (Inr rest, w')"
      and rs: "rs = revoke_session t s # rest"
      by (auto simp: revoke_session_def split: prod.splits sum.splits if_splits)
    from revoke_one [OF Cons.prems(1) assms(1) m] have 1: "Inv w1" "still w w1"
      "V w1 = (V w)\<lparr>db_sessions := upd_where (\<lambda>x. sess_id x = sess_id s) (revoke_session t) (db_sessions (V w))\<rparr>"
      by auto
    have "upd_where (\<lambda>x. sess_id x \<in> sess_id ` set rest) (revoke_session t)
        (upd_where (\<lambda>x. sess_id x = sess_id s) (revoke_session t) M) =
      upd_where (\<lambda>x. sess_id x \<in> sess_id ` set rs) (revoke_session t) M" for M
      by (auto simp: upd_where_def rs multiset.map_comp intro!: image_mset_cong)
    with Cons.IH [OF 1(1) rest] 1 False rs show ?thesis by (auto intro: still_trans)
  qed
qed

lemma revoke_others_keeps:
  assumes "t \<noteq> 0" "Inv w" "run_state (revoke_others a ex t ss) w = (r, w')"
  shows "Inv w' \<and> still w w'"
  using assms(2,3)
proof (induction ss arbitrary: w r w')
  case (Cons s ss)
  show ?case
  proof (cases "sess_id s = ex \<or> sess_revoked s")
    case True
    with Cons show ?thesis by auto
  next
    case False
    obtain m w1 where m: "run_state (on_db (sessions_revoke (au_store a) (sess_id s) t)) w = (m, w1)"
      by (rule prod.exhaust)
    note rv = revoke_one [OF Cons.prems(1) assms(1) m]
    show ?thesis
    proof (cases m)
      case (Inl e)
      with Cons.prems False m rv show ?thesis by auto
    next
      case (Inr u)
      obtain q w2 where q: "run_state (revoke_others a ex t ss) w1 = (q, w2)" by (rule prod.exhaust)
      with Cons.prems False m Inr have "w' = w2" by (auto split: sum.splits)
      with Cons.IH [OF _ q] rv show ?thesis by (auto intro: still_trans)
    qed
  qed
qed auto

definition revoked_exactly :: "string \<Rightarrow> string \<Rightarrow> session list \<Rightarrow> ('s, 'c) world \<Rightarrow> ('s, 'c) world \<Rightarrow> bool" where
  "revoked_exactly uid ex rs w w' \<longleftrightarrow> (\<exists>t I. I \<subseteq> sess_id ` set rs \<and>
     (ex \<noteq> [] \<or> reliable_store (au_store a) inv view plain_string \<longrightarrow> I = sess_id ` set rs) \<and>
     mset rs = image_mset (revoke_session t)
       {#x \<in># db_sessions (V w). active_of uid x \<and> (ex = [] \<or> sess_id x \<noteq> ex)#} \<and>
     V w' = (V w)\<lparr>db_sessions :=
       upd_where (\<lambda>x. sess_id x \<in> I) (revoke_session t) (db_sessions (V w))\<rparr>)"

text \<open>Revoking the members of the list is revoking the active sessions of the user.\<close>

lemma revoked_ids:
  assumes "Inv w" "mset rs = image_mset (revoke_session t) (filter_mset (active_of uid) (db_sessions (V w)))"
  shows "upd_where (active_of uid) f (db_sessions (V w)) =
    upd_where (\<lambda>x. sess_id x \<in> sess_id ` set rs) f (db_sessions (V w))"
proof -
  have ids: "sess_id ` set rs = sess_id ` set_mset (filter_mset (active_of uid) (db_sessions (V w)))"
    using arg_cong [OF assms(2), of set_mset] by (auto simp: image_image)
  have "sess_id y \<in> sess_id ` set rs \<longleftrightarrow> active_of uid y" if y: "y \<in># db_sessions (V w)" for y
  proof
    assume "sess_id y \<in> sess_id ` set rs"
    with ids obtain z where z: "z \<in># db_sessions (V w)" "active_of uid z" "sess_id y = sess_id z" by auto
    with y uniq_eq [of sess_id "db_sessions (V w)" y z] uniq_sessions [OF assms(1)] show "active_of uid y" by simp
  qed (use ids y in auto)
  then show ?thesis unfolding upd_where_def by (intro image_mset_cong) auto
qed

lemma revoke_user_sessions_tx_spec:
  assumes i: "Inv w" and p: "plain_string uid"
    and run: "run_state (revoke_user_sessions_tx a uid ex) w = (r, w')"
  shows "Inv w' \<and> still w w' \<and> (case r of Inl _ \<Rightarrow> True | Inr rs \<Rightarrow> revoked_exactly uid ex rs w w')"
proof -
  define t where "t = au_now a (w_clock w)"
  obtain w1 where n: "run_state (now a) w = (t, w1)" "calm w w1"
    using run_now calmD [OF calm_now run_now] by (auto simp: t_def)
  have i1: "Inv w1" "V w1 = V w" and t: "t \<noteq> 0" using n(2) i calm_V now_pos by (auto simp: t_def)
  show ?thesis
  proof (cases "ex = []")
    case True
    with run n(1) have "run_state (on_db (sessions_revoke_by_user (au_store a) uid t)) w1 = (r, w')"
      by (simp add: revoke_user_sessions_tx_def)
    then obtain s where s: "run_state (sessions_revoke_by_user (au_store a) uid t) (w_db w1) = (r, s)"
      "w' = w1\<lparr>w_db := s\<rparr>" by (rule on_db_E)
    have "still w w'" using n(2) s(2) calm_still still_db still_trans by blast
    note l = sessions_revoke_by_user [OF i1(1) [unfolded Inv_def] t p s(1), folded V_def, unfolded i1(2)]
    show ?thesis
    proof (cases r)
      case (Inl e)
      with l \<open>still w w'\<close> s(2) show ?thesis by simp
    next
      case (Inr rs)
      have ex: "\<exists>I \<subseteq> sess_id ` set rs. (reliable_store (au_store a) inv view plain_string \<longrightarrow> I = sess_id ` set rs) \<and>
        view s = (V w)\<lparr>db_sessions := upd_where (\<lambda>x. sess_id x \<in> I) (revoke_session t) (db_sessions (V w))\<rparr>"
      proof (cases "reliable_store (au_store a) inv view plain_string")
        case False
        with l Inr show ?thesis by auto
      next
        case True
        from reliable_store.revoke_by_user_all [OF True i1(1) [unfolded Inv_def] t p s(1) [unfolded Inr]]
        have "db_sessions (view s) = upd_where (active_of uid) (revoke_session t) (db_sessions (V w))"
          using i1(2) by (simp add: V_def)
        moreover have "mset rs = image_mset (revoke_session t) (filter_mset (active_of uid) (db_sessions (V w)))"
          "\<exists>S. view s = (V w)\<lparr>db_sessions := S\<rparr>" using l Inr by auto
        ultimately show ?thesis
          using revoked_ids [OF i, of rs t uid] by (intro exI [of _ "sess_id ` set rs"]) auto
      qed
      then have "revoked_exactly uid ex rs w w'"
        unfolding revoked_exactly_def s(2) V_db using True l Inr by auto
      with Inr l \<open>still w w'\<close> s(2) show ?thesis by simp
    qed
  next
    case False
    obtain q w2 where q: "run_state (on_db (sessions_list_by_user (au_store a) uid)) w1 = (q, w2)"
      by (rule prod.exhaust)
    note rd = read_sessions_of [OF i1(1) q]
    show ?thesis
    proof (cases q)
      case (Inl e)
      with run False n q rd i1 show ?thesis by (auto simp: revoke_user_sessions_tx_def intro: calm_still)
    next
      case (Inr all)
      with run False n(1) q rd have ro: "run_state (revoke_others a ex t all) w1 = (r, w')"
        by (simp add: revoke_user_sessions_tx_def)
      from rd Inr p i1 have all: "mset all = {#x \<in># db_sessions (V w). sess_user_id x = uid#}" by simp
      have keep: "Inv w' \<and> still w w'"
        using revoke_others_keeps [OF t i1(1) ro] n(2) by (blast intro: calm_still still_trans)
      show ?thesis
      proof (cases r)
        case (Inr rs)
        note rs = revoke_others_spec [OF t i1(1) ro [unfolded Inr]]
        have "mset (filter (\<lambda>s. \<not> (sess_id s = ex \<or> sess_revoked s)) all) =
          {#x \<in># db_sessions (V w). active_of uid x \<and> (ex = [] \<or> sess_id x \<noteq> ex)#}"
          using False by (auto simp: all filter_filter_mset active_of_def sess_revoked_def intro: filter_mset_cong)
        then have "mset rs = image_mset (revoke_session t)
          {#x \<in># db_sessions (V w). active_of uid x \<and> (ex = [] \<or> sess_id x \<noteq> ex)#}"
          using rs by (simp del: mset_filter)
        moreover have "V w' = (V w)\<lparr>db_sessions :=
          upd_where (\<lambda>x. sess_id x \<in> sess_id ` set rs) (revoke_session t) (db_sessions (V w))\<rparr>"
          using rs i1(2) by simp
        ultimately have "revoked_exactly uid ex rs w w'" unfolding revoked_exactly_def by blast
        with keep Inr show ?thesis by simp
      qed (use keep in simp)
    qed
  qed
qed

lemma revoked_exactly_hash:
  assumes "Inv w" "revoked_exactly uid ex rs w w'"
  shows "db_users (V w') = db_users (V w) \<and> (\<exists>t P. db_sessions (V w') = upd_where P (revoke_session t) (db_sessions (V w)) \<and>
    (\<forall>x \<in># db_sessions (V w). P x \<longrightarrow> sess_token_hash x \<in> sess_token_hash ` set rs))"
proof -
  from assms(2) obtain t I where I: "I \<subseteq> sess_id ` set rs"
    "mset rs = image_mset (revoke_session t)
       {#x \<in># db_sessions (V w). active_of uid x \<and> (ex = [] \<or> sess_id x \<noteq> ex)#}"
    "V w' = (V w)\<lparr>db_sessions := upd_where (\<lambda>x. sess_id x \<in> I) (revoke_session t) (db_sessions (V w))\<rparr>"
    unfolding revoked_exactly_def by blast
  have "sess_token_hash x \<in> sess_token_hash ` set rs" if x: "x \<in># db_sessions (V w)" "sess_id x \<in> I" for x
  proof -
    from x I(1) obtain z where z: "z \<in> set rs" "sess_id x = sess_id z" by auto
    with arg_cong [OF I(2), of set_mset] obtain y where y: "y \<in># db_sessions (V w)" "z = revoke_session t y"
      by auto
    with z x uniq_sessions [OF assms(1)] have "x = y"
      by (intro uniq_eq [of sess_id "db_sessions (V w)"]) auto
    with y z show ?thesis by (intro image_eqI [of _ _ z]) simp_all
  qed
  with I(3) show ?thesis by auto
qed

text \<open>Afterwards no session of the user is active but the one that is kept.\<close>

lemma revoked_exactly_active:
  assumes re: "revoked_exactly uid ex rs w w'"
    and rel: "ex \<noteq> [] \<or> reliable_store (au_store a) inv view plain_string"
    and x: "x \<in># db_sessions (V w')" "active_of uid x"
  shows "ex \<noteq> [] \<and> sess_id x = ex"
proof (rule ccontr)
  assume no: "\<not> (ex \<noteq> [] \<and> sess_id x = ex)"
  from re rel obtain t where t:
    "mset rs = image_mset (revoke_session t)
       {#x \<in># db_sessions (V w). active_of uid x \<and> (ex = [] \<or> sess_id x \<noteq> ex)#}"
    "V w' = (V w)\<lparr>db_sessions :=
       upd_where (\<lambda>x. sess_id x \<in> sess_id ` set rs) (revoke_session t) (db_sessions (V w))\<rparr>"
    unfolding revoked_exactly_def by blast
  from t(2) x(1) obtain y where y: "y \<in># db_sessions (V w)"
    "x = (if sess_id y \<in> sess_id ` set rs then revoke_session t y else y)"
    by (auto simp: upd_where_def)
  with x(2) have "x = y" "sess_id y \<notin> sess_id ` set rs" by (auto simp: active_of_def split: if_splits)
  with arg_cong [OF t(1), of set_mset] y(1) x(2) no show False
    by (auto simp: image_image)
qed

lemma revoke_user_sessions_spec:
  assumes g: "good w" and cx: "plain_call cx" and p: "plain_string uid"
    and run: "run_state (revoke_user_sessions a cx uid ex) w = (r, w')"
  shows "good w' \<and> (case r of Inl _ \<Rightarrow> V w' = V w | Inr _ \<Rightarrow> \<exists>rs. revoked_exactly uid ex rs w w')"
proof -
  obtain q w1 where q: "run_state (transaction a cx (\<lambda>cx. revoke_user_sessions_tx a uid ex)) w = (q, w1)"
    by (rule prod.exhaust)
  have tx: "Inv w1 \<and> still w w1 \<and> (case q of Inl _ \<Rightarrow> V w1 = V w | Inr rs \<Rightarrow> revoked_exactly uid ex rs w w1)"
    by (rule transaction_spec [OF _ good_Inv [OF g] q])
      (use cx revoke_user_sessions_tx_spec [OF good_Inv [OF g] p] in \<open>auto simp: plain_call_def\<close>)
  show ?thesis
  proof (cases q)
    case (Inl e)
    with run q have "r = Inl e" "w' = w1" by (simp_all add: revoke_user_sessions_def)
    with tx Inl good_grow [OF g] show ?thesis by auto
  next
    case (Inr rs)
    obtain y w2 where y: "run_state (after_sessions_revoked a cx rs) w1 = (y, w2)" by (rule prod.exhaust)
    with run q Inr have r: "r = Inr ()" "w' = w2" by (simp_all add: revoke_user_sessions_def)
    from tx Inr have re: "revoked_exactly uid ex rs w w1" by simp
    from revoked_exactly_hash [OF good_Inv [OF g] re] obtain t P where
      P: "db_users (V w1) = db_users (V w)" "db_sessions (V w1) = upd_where P (revoke_session t) (db_sessions (V w))"
      "\<And>x. x \<in># db_sessions (V w) \<Longrightarrow> P x \<Longrightarrow> sess_token_hash x \<in> sess_token_hash ` set rs" by blast
    have "good w2 \<and> calm w1 w2"
      using after_sessions_revoked_spec [OF g _ _ _ P y] tx cx by (simp add: plain_call_def)
    with calm_V have "good w2" "V w2 = V w1" by blast+
    with r re show ?thesis by (auto simp: revoked_exactly_def)
  qed
qed

end

end
