(* ===== verification/Sign_In_Correct.thy ===== *)
theory Sign_In_Correct
  imports Sessions_Correct
begin

text \<open>
  Sign up, sign in and sign out: which users, accounts, credentials and sessions they read
  and write, on every branch, and that they keep the cache coherent.
\<close>

lemma plain_purposes [simp]:
  "plain_string PurposeEmailVerification" "plain_string PurposePasswordReset"
  "plain_string ProviderPassword" "plain_string TypePassword"
  by (rule plain_no_colon,
      simp add: PurposeEmailVerification_def PurposePasswordReset_def ProviderPassword_def TypePassword_def)+

context engine
begin

text \<open>\<open>c\<close> is the active password credential of the user \<open>uid\<close>.\<close>

definition password_of :: "('s, 'c) world \<Rightarrow> string \<Rightarrow> credential \<Rightarrow> bool" where
  "password_of w uid c \<longleftrightarrow> c \<in># db_credentials (V w) \<and> cred_active c \<and> cred_type c = TypePassword \<and>
     (\<exists>acc \<in># db_accounts (V w). acc_provider acc = ProviderPassword \<and> acc_provider_id acc = uid \<and>
        cred_account_id c = acc_id acc)"

text \<open>The hasher has accepted \<open>p\<close> for the stored hash \<open>h\<close>.\<close>

definition accepted :: "ctx \<Rightarrow> string \<Rightarrow> string \<Rightarrow> bool" where
  "accepted cx h p \<longleftrightarrow> (\<exists>w1 w2. run_state (verify_hash (au_hasher a) cx h p) w1 = (Inr (), w2))"

lemma password_credential_spec:
  assumes i: "Inv w" and p: "plain_string uid"
    and run: "run_state (password_credential a uid) w = (r, w')"
  shows "w' = w \<and> (case r of Inl _ \<Rightarrow> True | Inr c \<Rightarrow> password_of w uid c)"
proof -
  obtain q s where q: "run_state (accounts_get_by_provider (au_store a) ProviderPassword uid) (w_db w) = (q, s)"
    by (rule prod.exhaust)
  note g = accounts_get_by_provider [OF Inv_inv [OF i] q]
  show ?thesis
  proof (cases q)
    case (Inl e)
    with run q g show ?thesis by (auto simp: password_credential_def run_on_db)
  next
    case (Inr acc)
    obtain m s2 where m: "run_state (credentials_get_active (au_store a) (acc_id acc) TypePassword) (w_db w) = (m, s2)"
      by (rule prod.exhaust)
    from run q g Inr m have r: "r = m" "w' = w\<lparr>w_db := s2\<rparr>"
      by (auto simp: password_credential_def run_on_db)
    from g Inr p have acc: "acc \<in># db_accounts (V w)" "acc_provider acc = ProviderPassword" "acc_provider_id acc = uid"
      by (auto simp: got_def V_def)
    then have "plain_string (acc_id acc)"
      using inv_plain_account [OF Inv_inv [OF i]] by (simp add: V_def)
    with credentials_get_active [OF Inv_inv [OF i] m] acc r show ?thesis
      by (auto simp: got_def password_of_def V_def [of w] cred_active_def split: sum.splits)
  qed
qed

lemma verify_password_spec:
  assumes i: "Inv w" and p: "plain_string uid"
    and run: "run_state (verify_password a cx uid pw) w = (r, w')"
  shows "calm w w' \<and> (r = Inr () \<longrightarrow> (\<exists>c. password_of w uid c \<and> accepted cx (cred_secret c) pw))"
proof -
  obtain q w1 where q: "run_state (password_credential a uid) w = (q, w1)" by (rule prod.exhaust)
  note pc = password_credential_spec [OF i p q]
  show ?thesis
  proof (cases q)
    case (Inl e)
    have "calm w w'"
    proof (rule calmD)
      show "keeps (calm w) (if e = StoreNotFound
        then do { _ \<leftarrow> verify_dummy a cx pw; fail ErrInvalidCredentials } else fail e :: (_, err + unit) state)"
        by (intro keeps_rules)
    qed (use run q pc Inl in \<open>simp add: verify_password_def\<close>)
    with run q pc Inl show ?thesis by (auto simp: verify_password_def split: if_splits prod.splits)
  next
    case (Inr c)
    obtain v w2 where v: "run_state (verify_hash (au_hasher a) cx (cred_secret c) pw) w = (v, w2)"
      by (rule prod.exhaust)
    from calmD [OF calm_hasher(2) v] have "calm w w2" .
    with run q pc Inr v show ?thesis
      by (auto simp: verify_password_def accepted_def split: sum.splits)
  qed
qed

section \<open>Sign in\<close>

definition signed_in :: "('s, 'c) world \<Rightarrow> ctx \<Rightarrow> sign_in_input \<Rightarrow> auth_result \<Rightarrow> ('s, 'c) world \<Rightarrow> bool" where
  "signed_in w cx inp res w' \<longleftrightarrow> (\<exists>u c x.
     normalize_email (au_rt a) (in_email inp) = Inr (user_email u) \<and> u \<in># db_users (V w) \<and>
     (st_verification_required (au_settings a) \<longrightarrow> user_email_verified u) \<and>
     password_of w (user_id u) c \<and> accepted cx (cred_secret c) (in_password inp) \<and>
     issued_ok (user_id u) x \<and>
     V w' = (V w)\<lparr>db_sessions := add_mset (iss_session x) (db_sessions (V w))\<rparr> \<and>
     res = \<lparr>res_user = u, res_session = Some (iss_session x), res_token = iss_token x\<rparr>)"

lemma sign_in_spec:
  assumes g: "good w" and cx: "plain_call cx"
    and run: "run_state (sign_in a cx inp0) w = (r, w')"
  shows "good w' \<and> (case r of Inl _ \<Rightarrow> V w' = V w | Inr res \<Rightarrow>
    \<exists>inp w0. run_state (chain_run (hk_before_sign_in (au_hooks a)) cx inp0) w = (Inr inp, w0) \<and>
      signed_in w cx inp res w')"
proof -
  obtain h w0 where h: "run_state (chain_run (hk_before_sign_in (au_hooks a)) cx inp0) w = (h, w0)"
    by (rule prod.exhaust)
  from calmD [OF calm_hooks(2) h] have c0: "calm w w0" .
  then have g0: "good w0" "V w0 = V w" using good_calm [OF g] calm_V by blast+
  show ?thesis
  proof (cases "\<exists>inp e. h = Inr inp \<and> normalize_email (au_rt a) (in_email inp) = Inr e \<and>
      \<not> int (length (in_password inp)) > st_password_max (au_settings a)")
    case False
    with run h have "w' = w0" "\<exists>e. r = Inl e"
      by (auto simp: sign_in_def run_case_sum split: sum.splits if_splits)
    with g0 show ?thesis by auto
  next
    case True
    then obtain inp e where inp: "h = Inr inp" "normalize_email (au_rt a) (in_email inp) = Inr e"
      "\<not> int (length (in_password inp)) > st_password_max (au_settings a)" by blast
    obtain q w1 where q: "run_state (on_db (users_get_by_email (au_store a) e)) w0 = (q, w1)"
      by (rule prod.exhaust)
    note rd = read_user_email [OF good_Inv [OF g0(1)] q]
    show ?thesis
    proof (cases q)
      case (Inl er)
      have "calm w0 w'"
      proof (rule calmD)
        show "keeps (calm w0) (if er = StoreNotFound then do {
                 _ \<leftarrow> verify_dummy a cx (in_password inp);
                 fail ErrInvalidCredentials
               } else fail er :: (_, err + auth_result) state)"
          by (intro keeps_rules)
      qed (use run h inp q rd Inl in \<open>simp add: sign_in_def\<close>)
      moreover have "\<exists>e. r = Inl e"
        using run h inp q rd Inl by (auto simp: sign_in_def split: if_splits prod.splits)
      ultimately show ?thesis using g0 good_calm calm_V by fastforce
    next
      case (Inr u)
      with rd inp(2) plain_email have u: "u \<in># db_users (V w)" "user_email u = e" "w1 = w0"
        by (auto simp: got_def g0)
      then have pu: "plain_string (user_id u)"
        using inv_plain_user [OF Inv_inv [OF good_Inv [OF g]]] by (simp add: V_def)
      obtain v w2 where v: "run_state (verify_password a cx (user_id u) (in_password inp)) w0 = (v, w2)"
        by (rule prod.exhaust)
      note vp = verify_password_spec [OF good_Inv [OF g0(1)] pu v]
      have g2: "good w2" "V w2 = V w" using vp g0 good_calm calm_V by metis+
      show ?thesis
      proof (cases "v = Inr () \<and> \<not> (st_verification_required (au_settings a) \<and> \<not> user_email_verified u)")
        case False
        with run h inp q Inr u v have "w' = w2" "\<exists>e. r = Inl e"
          by (auto simp: sign_in_def split: sum.splits if_splits)
        with g2 show ?thesis by auto
      next
        case ok: True
        obtain t w3 where t: "run_state (transaction a cx (\<lambda>cx. new_session a cx (user_id u) (in_session inp))) w2 = (t, w3)"
          by (rule prod.exhaust)
        have tx: "Inv w3 \<and> still w2 w3 \<and> (case t of Inl _ \<Rightarrow> V w3 = V w2 | Inr x \<Rightarrow> issued_ok (user_id u) x \<and>
            V w3 = (V w2)\<lparr>db_sessions := add_mset (iss_session x) (db_sessions (V w2))\<rparr>)"
          by (rule transaction_spec [OF _ good_Inv [OF g2(1)] t])
            (use cx new_session_spec [OF good_Inv [OF g2(1)]] in \<open>fastforce simp: plain_call_def split: sum.splits\<close>)+
        show ?thesis
        proof (cases t)
          case (Inl er)
          with run h inp q Inr u v ok t have "w' = w3" "r = Inl er"
            by (auto simp: sign_in_def)
          with tx Inl g2 good_grow [OF g2(1)] show ?thesis by auto
        next
          case iss: (Inr x)
          obtain y1 w4 where y1: "run_state (cache_user a cx u) w3 = (y1, w4)" by (rule prod.exhaust)
          obtain y2 w5 where y2: "run_state (after_session_created a cx (iss_session x)) w4 = (y2, w5)"
            by (rule prod.exhaust)
          obtain y3 w6 where y3: "run_state (publish a cx EventUserSignedIn (user_id u) (PSession (iss_session x))) w5 = (y3, w6)"
            by (rule prod.exhaust)
          obtain res w7 where y4: "run_state (observers_run (hk_after_sign_in (au_hooks a)) cx
              \<lparr>res_user = u, res_session = Some (iss_session x), res_token = iss_token x\<rparr>) w6 = (res, w7)"
            by (rule prod.exhaust)
          from run h inp q Inr u v ok t iss y1 y2 y3 y4 have r: "r = Inr res" "w' = w7"
            by (auto simp: sign_in_def)
          have g3: "good w3" using tx iss by (intro good_grow [OF g2(1)]) auto
          have 4: "good w4 \<and> same_db w3 w4"
            using good_cache_user [OF g3 _ y1] tx iss u g2(2) by auto
          have 5: "good w5 \<and> same_db w4 w5"
            using after_session_created_spec [OF _ _ y2] 4 tx iss same_db_V by auto
          have "calm w5 w7"
            using calmD [OF calm_publish y3] calmD [OF calm_hooks(7) y4] calm_trans by blast
          then have "good w7" "V w7 = V w3"
            using 4 5 good_calm calm_V same_db_V by metis+
          moreover have "res = \<lparr>res_user = u, res_session = Some (iss_session x), res_token = iss_token x\<rparr>"
            using after_hooks(2) [OF y4] .
          ultimately have "signed_in w cx inp res w'"
            unfolding signed_in_def
            using r u inp(2) ok tx iss g2(2) vp g0(2) unfolding password_of_def
            by (intro exI [of _ u] exI [of _ x]) (auto simp: password_of_def)
          with r \<open>good w7\<close> h inp(1) show ?thesis by auto
        qed
      qed
    qed
  qed
qed

section \<open>Sign out\<close>

lemma sign_out_spec:
  assumes g: "good w" and cx: "ctx_err cx = None"
    and run: "run_state (sign_out a cx inp0) w = (r, w')"
  shows "good w' \<and> (case r of Inl _ \<Rightarrow> V w' = V w | Inr _ \<Rightarrow>
    \<exists>inp w0. run_state (chain_run (hk_before_sign_out (au_hooks a)) cx inp0) w = (Inr inp, w0) \<and>
      (out_token inp = [] \<and> V w' = V w \<or>
       (\<exists>P t. V w' = (V w)\<lparr>db_sessions := upd_where P (revoke_session t) (db_sessions (V w))\<rparr> \<and>
         (\<forall>x \<in># db_sessions (V w'). sess_token_hash x = hash_token (au_rt a) (out_token inp) \<longrightarrow> sess_revoked x) \<and>
         (\<forall>x \<in># db_sessions (V w). P x \<longrightarrow> sess_token_hash x = hash_token (au_rt a) (out_token inp)))))"
proof -
  obtain h w0 where h: "run_state (chain_run (hk_before_sign_out (au_hooks a)) cx inp0) w = (h, w0)"
    by (rule prod.exhaust)
  from calmD [OF calm_hooks(3) h] have c0: "calm w w0" .
  then have g0: "good w0" "V w0 = V w" using good_calm [OF g] calm_V by blast+
  show ?thesis
  proof (cases h)
    case (Inl e)
    with run h g0 show ?thesis by (auto simp: sign_out_def)
  next
    case (Inr inp)
    let ?h = "hash_token (au_rt a) (out_token inp)"
    have same: "V w' = (V w)\<lparr>db_sessions := upd_where (\<lambda>_. False) (revoke_session 0) (db_sessions (V w))\<rparr>"
      if "V w' = V w" using that by (simp add: upd_where_def)
    show ?thesis
    proof (cases "out_token inp = []")
      case True
      with run h Inr have "r = Inr ()" "w' = w0" by (auto simp: sign_out_def)
      with True g0 h Inr show ?thesis by auto
    next
      case ne: False
      obtain q w1 where q: "run_state (on_db (sessions_get_by_hash (au_store a) ?h)) w0 = (q, w1)"
        by (rule prod.exhaust)
      note rd = read_session_hash [OF good_Inv [OF g0(1)] q]
      show ?thesis
      proof (cases q)
        case (Inl e)
        with run h Inr ne q rd have w': "w' = w0" and r: "r = (if e = StoreNotFound then Inr () else Inl e)"
          by (auto simp: sign_out_def split: if_splits)
        have "\<forall>x \<in># db_sessions (V w'). sess_token_hash x = ?h \<longrightarrow> sess_revoked x" if "e = StoreNotFound"
          using that rd Inl by (auto simp: got_def w')
        then show ?thesis
          using r w' g0 h Inr same by (auto intro!: exI [of _ inp] exI [of _ "\<lambda>_. False"])
      next
        case s: (Inr s)
        with rd have s': "s \<in># db_sessions (V w)" "sess_token_hash s = ?h" "w1 = w0"
          by (auto simp: got_def g0)
        have only: "x = s" if "x \<in># db_sessions (V w)" "sess_token_hash x = ?h" for x
          using uniq_eq [of sess_token_hash "db_sessions (V w)" x s] uniq_sessions [OF good_Inv [OF g]] that s' by simp
        have onlyid: "x = s" if "x \<in># db_sessions (V w)" "sess_id x = sess_id s" for x
          using uniq_eq [of sess_id "db_sessions (V w)" x s] uniq_sessions [OF good_Inv [OF g]] that s' by simp
        show ?thesis
        proof (cases "sess_revoked s")
          case True
          obtain y w2 where y: "run_state (invalidate_sessions a cx [s]) w0 = (y, w2)" by (rule prod.exhaust)
          with run h Inr ne q s s' True have r: "r = Inr ()" "w' = w2" by (auto simp: sign_out_def)
          with calm_invalidate_sessions [OF cx y] g0 have w': "good w'" "V w' = V w"
            using good_calm calm_V by metis+
          with only True have "\<forall>x \<in># db_sessions (V w'). sess_token_hash x = ?h \<longrightarrow> sess_revoked x" by auto
          with r w' h Inr same show ?thesis by (auto intro!: exI [of _ inp] exI [of _ "\<lambda>_. False"])
        next
          case False
          define t where "t = au_now a (w_clock w0)"
          obtain w2 where n: "run_state (now a) w0 = (t, w2)" "calm w0 w2"
            using run_now calmD [OF calm_now run_now] by (auto simp: t_def)
          obtain m w3 where m: "run_state (on_db (sessions_revoke (au_store a) (sess_id s) t)) w2 = (m, w3)"
            by (rule prod.exhaust)
          have i2: "Inv w2" "V w2 = V w" using n(2) g0 calm_V by (auto simp: good_def)
          have t0: "t \<noteq> 0" using now_pos by (simp add: t_def)
          note rv = revoke_one [OF i2(1) t0 m]
          then have st: "still w w3" using c0 n(2) calm_still still_trans by blast
          show ?thesis
          proof (cases m)
            case (Inl e)
            with run h Inr ne q s s' False n(1) m have "r = Inl e" "w' = w3" by (auto simp: sign_out_def)
            with rv Inl st i2 show ?thesis by (auto intro: good_grow [OF g])
          next
            case ok: (Inr u)
            let ?s = "s\<lparr>sess_revoked_at := Some t\<rparr>"
            obtain y w4 where y: "run_state (invalidate_sessions a cx [?s]) w3 = (y, w4)" by (rule prod.exhaust)
            obtain z1 w5 where z1: "run_state (publish a cx EventSessionRevoked (sess_user_id ?s) (PSession ?s)) w4 = (z1, w5)"
              by (rule prod.exhaust)
            obtain z2 w6 where z2: "run_state (publish a cx EventUserSignedOut (sess_user_id ?s) (PSession ?s)) w5 = (z2, w6)"
              by (rule prod.exhaust)
            obtain z3 w7 where z3: "run_state (observers_run (hk_after_sign_out (au_hooks a)) cx ?s) w6 = (z3, w7)"
              by (rule prod.exhaust)
            have r: "r = Inr ()" "w' = w7"
              using run h Inr ne q s s' False n(1) m ok y z1 z2 z3 by (auto simp: sign_out_def Let_def)
            have gr: "good w4 \<and> calm w3 w4"
            proof (rule good_revoked [OF g _ st cx _ _ _ y])
              show "Inv w3" using rv by simp
              show "db_users (V w3) = db_users (V w)"
                and "db_sessions (V w3) = upd_where (\<lambda>x. sess_id x = sess_id s) (revoke_session t) (db_sessions (V w))"
                using rv ok i2 by auto
            qed (use onlyid in auto)
            moreover have "calm w4 w7"
              using calmD [OF calm_publish z1] calmD [OF calm_publish z2] calmD [OF calm_hooks(8) z3]
                calm_trans by blast
            ultimately have w': "good w7" "V w7 = V w3" using good_calm calm_V by metis+
            have all: "\<forall>x \<in># db_sessions (V w7). sess_token_hash x = ?h \<longrightarrow> sess_revoked x"
              using rv ok i2 w' only by (auto simp: upd_where_def sess_revoked_def)
            have "V w7 = (V w)\<lparr>db_sessions := upd_where (\<lambda>x. sess_id x = sess_id s) (revoke_session t) (db_sessions (V w))\<rparr>"
              using rv ok i2 w' by simp
            moreover have "\<forall>x \<in># db_sessions (V w). sess_id x = sess_id s \<longrightarrow> sess_token_hash x = ?h"
              using onlyid s' by auto
            ultimately show ?thesis
              unfolding r sum.case using all w'(1) h Inr by blast
          qed
        qed
      qed
    qed
  qed
qed

end

end
