(* ===== verification/Sign_Up_Correct.thy ===== *)
theory Sign_Up_Correct
  imports Sign_In_Correct
begin

text \<open>
  Sign up and the email verification message: the new user, account, credential and session
  are stored together or not at all.
\<close>

context engine
begin

lemma good_same_sessions_users:
  assumes g: "good w" and i: "Inv w'" and st: "still w w'"
    and s: "db_sessions (V w') = db_sessions (V w)" and u: "db_users (V w') = db_users (V w)"
  shows "good w'"
  using good_grow [OF g i st] s u by simp

text \<open>The subjects of the reset tokens are plain.\<close>

definition plain_subjects :: "('s, 'c) world \<Rightarrow> bool" where
  "plain_subjects w \<longleftrightarrow> (\<forall>x \<in># db_tokens (V w). tok_purpose x = PurposePasswordReset \<longrightarrow>
     plain_string (tok_subject x))"

lemma plain_subjects_cong: "db_tokens (V w') = db_tokens (V w) \<Longrightarrow> plain_subjects w' = plain_subjects w"
  by (simp add: plain_subjects_def)

lemma plain_subjects_sub: "plain_subjects w \<Longrightarrow> db_tokens (V w') \<subseteq># db_tokens (V w) \<Longrightarrow> plain_subjects w'"
  by (auto simp: plain_subjects_def dest: mset_subset_eqD)

text \<open>Issuing and revoking tokens keep the subjects of the reset tokens plain.\<close>

lemma issue_token_subjects:
  assumes "Inv w" "plain_subjects w" "plain_string sub \<or> p \<noteq> PurposePasswordReset"
    "run_state (issue_token a p sub ttl) w = (r, w')"
  shows "plain_subjects w'"
  using assms issue_token_spec [OF assms(1,4)] by (cases r) (auto simp: plain_subjects_def)

lemma revoke_tokens_subjects:
  assumes "Inv w" "plain_subjects w" "plain_string p" "plain_string sub"
    "run_state (revoke_tokens a p sub) w = (r, w')"
  shows "plain_subjects w'"
  using assms revoke_tokens_spec [OF assms(1,3-5)] by (cases r) (auto simp: plain_subjects_def)

lemma send_verification_email_spec:
  assumes g: "good w" and p: "plain_string (user_id u)"
    and run: "run_state (send_verification_email a cx u) w = (r, w')"
  shows "good w' \<and> still w w' \<and> (\<exists>T. V w' = (V w)\<lparr>db_tokens := T\<rparr>) \<and>
    (plain_subjects w \<longrightarrow> plain_subjects w')"
proof (cases "user_email_verified u")
  case True
  with run g show ?thesis by (auto simp: send_verification_email_def intro: exI [of _ "db_tokens (V w)"])
next
  case False
  obtain q w1 where q: "run_state (revoke_tokens a PurposeEmailVerification (user_id u)) w = (q, w1)"
    by (rule prod.exhaust)
  note rv = revoke_tokens_spec [OF good_Inv [OF g] plain_purposes(1) p q]
  have t1: "\<exists>T. V w1 = (V w)\<lparr>db_tokens := T\<rparr>"
    using rv by (cases q) (auto intro: exI [of _ "db_tokens (V w)"])
  have g1: "good w1" using rv t1 by (auto intro: good_same_sessions_users [OF g])
  have p1: "plain_subjects w \<longrightarrow> plain_subjects w1"
    using revoke_tokens_subjects [OF good_Inv [OF g] _ plain_purposes(1) p q] by blast
  show ?thesis
  proof (cases q)
    case (Inl e)
    with run False q rv g1 t1 p1 show ?thesis by (auto simp: send_verification_email_def)
  next
    case (Inr x)
    obtain k w2 where k: "run_state (issue_token a PurposeEmailVerification (user_id u)
        (st_verification_ttl (au_settings a))) w1 = (k, w2)" by (rule prod.exhaust)
    note it = issue_token_spec [OF good_Inv [OF g1] k]
    have t2: "\<exists>T. V w2 = (V w)\<lparr>db_tokens := T\<rparr>"
      using it t1 by (cases k) auto
    have st2: "still w w2" using rv it still_trans by blast
    have g2: "good w2" using it t1 t2 by (auto intro: good_same_sessions_users [OF g1])
    have p2: "plain_subjects w \<longrightarrow> plain_subjects w2"
      using issue_token_subjects [OF good_Inv [OF g1] _ _ k] p p1 by blast
    have "calm w2 w'"
    proof (cases k)
      case (Inl e)
      with run False q Inr k show ?thesis by (auto simp: send_verification_email_def)
    next
      case tk: (Inr tk)
      have "run_state (case au_email a of None \<Rightarrow> fail ErrEmailNotConfigured
        | Some send \<Rightarrow> send cx ((au_verification_message a u tk)\<lparr>msg_to := user_email u\<rparr>)) w2 = (r, w')"
        using run False q Inr k tk by (simp add: send_verification_email_def Let_def)
      then show ?thesis
        by (rule calmD [rotated]) (auto intro!: keeps_rules calm_send split: option.splits)
    qed
    with g2 st2 t2 p2 show ?thesis
      using good_calm calm_V calm_still still_trans plain_subjects_cong by metis
  qed
qed

text \<open>What a successful sign up adds.\<close>

definition signed_up_db ::
  "('s, 'c) world \<Rightarrow> string \<Rightarrow> string \<Rightarrow> user \<Rightarrow> issued_session option \<Rightarrow> ('s, 'c) world \<Rightarrow> bool" where
  "signed_up_db w email hash u io w' \<longleftrightarrow> (\<exists>acc c.
     (\<forall>x \<in># db_users (V w). user_email x \<noteq> email \<and> user_id x \<noteq> user_id u) \<and>
     user_email u = email \<and> plain_string (user_id u) \<and>
     acc_provider acc = ProviderPassword \<and> acc_provider_id acc = user_id u \<and> acc_user_id acc = user_id u \<and>
     cred_user_id c = user_id u \<and> cred_account_id c = acc_id acc \<and> cred_type c = TypePassword \<and>
     cred_secret c = hash \<and> cred_active c \<and>
     (io = None \<longleftrightarrow> st_verification_required (au_settings a)) \<and>
     (\<forall>x. io = Some x \<longrightarrow> issued_ok (user_id u) x) \<and>
     db_users (V w') = add_mset u (db_users (V w)) \<and>
     db_accounts (V w') = add_mset acc (db_accounts (V w)) \<and>
     db_credentials (V w') = add_mset c (db_credentials (V w)) \<and>
     db_sessions (V w') = (case io of None \<Rightarrow> {#} | Some x \<Rightarrow> {#iss_session x#}) + db_sessions (V w))"

lemma on_db_write:
  assumes "run_state (on_db m) w = (r, w')"
    and "\<And>s'. run_state m (w_db w) = (r, s') \<Longrightarrow> inv s' \<and> Q r (view s')"
  shows "Inv w' \<and> still w w' \<and> Q r (V w')"
  using assms by (auto simp: run_on_db split: prod.splits)

lemma write_account:
  assumes "Inv w" "plain_string (acc_id x)" "run_state (on_db (accounts_create (au_store a) x)) w = (r, w')"
  shows "Inv w' \<and> still w w' \<and> (case r of Inl _ \<Rightarrow> True | Inr _ \<Rightarrow>
    V w' = (V w)\<lparr>db_accounts := add_mset x (db_accounts (V w))\<rparr>)"
  by (rule on_db_write [OF assms(3)])
    (use accounts_create [OF Inv_inv [OF assms(1)] assms(2)] in \<open>fastforce simp: V_def split: sum.splits\<close>)

lemma write_credential:
  assumes "Inv w" "plain_string (cred_id x)" "cred_revoked_at x = None"
    "run_state (on_db (credentials_create (au_store a) x)) w = (r, w')"
  shows "Inv w' \<and> still w w' \<and> (case r of Inl _ \<Rightarrow> True | Inr _ \<Rightarrow>
    V w' = (V w)\<lparr>db_credentials := add_mset x (db_credentials (V w))\<rparr>)"
  by (rule on_db_write [OF assms(4)])
    (use credentials_create [OF Inv_inv [OF assms(1)] assms(2)] assms(3) in
      \<open>fastforce simp: V_def split: sum.splits\<close>)

lemma sign_up_tx_spec:
  assumes i: "Inv w" and pe: "plain_string email" and u0: "user_email u0 = email" "plain_string (user_id u0)"
    and run: "run_state (sign_up_tx a cx inp email hash t u0) w = (r, w')"
  shows "Inv w' \<and> still w w' \<and> (case r of Inl _ \<Rightarrow> True | Inr p \<Rightarrow>
    signed_up_db w email hash (fst p) (snd p) w' \<and> db_tokens (V w') = db_tokens (V w))"
proof -
  let ?goal = "Inv w' \<and> still w w' \<and> (case r of Inl _ \<Rightarrow> True | Inr p \<Rightarrow>
    signed_up_db w email hash (fst p) (snd p) w' \<and> db_tokens (V w') = db_tokens (V w))"
  obtain q w1 where q: "run_state (on_db (users_get_by_email (au_store a) email)) w = (q, w1)"
    by (rule prod.exhaust)
  note rd = read_user_email [OF i q]
  show ?thesis
  proof (cases "q = Inl StoreNotFound")
    case False
    with run q rd i show ?thesis by (auto simp: sign_up_tx_def split: sum.splits if_splits)
  next
    case nf: True
    with rd have noemail: "\<forall>x \<in># db_users (V w). user_email x \<noteq> email" and w1: "w1 = w" by (auto simp: got_def)
    obtain h w2 where h: "run_state (chain_run (hk_before_user_create (au_hooks a)) cx u0) w = (h, w2)"
      by (rule prod.exhaust)
    from calmD [OF calm_hooks(4) h] have c2: "calm w w2" .
    then have i2: "Inv w2" "V w2 = V w" "still w w2" using i calm_V calm_still by blast+
    show ?thesis
    proof (cases h)
      case (Inl e)
      with run q nf w1 h i2 show ?thesis by (auto simp: sign_up_tx_def)
    next
      case (Inr u)
      with user_hooks h u0 have u: "user_email u = email" "plain_string (user_id u)" by (auto simp: same_user_def)
      obtain c w3 where c: "run_state (on_db (users_create (au_store a) u)) w2 = (c, w3)" by (rule prod.exhaust)
      have 3: "Inv w3 \<and> still w2 w3 \<and> (case c of Inl _ \<Rightarrow> True | Inr _ \<Rightarrow>
          V w3 = (V w)\<lparr>db_users := add_mset u (db_users (V w))\<rparr> \<and>
          (\<forall>x \<in># db_users (V w). user_id x \<noteq> user_id u))"
        by (rule on_db_write [OF c])
          (use users_create [OF Inv_inv [OF i2(1)] u(2)] i2(2) in \<open>fastforce simp: V_def split: sum.splits\<close>)
      show ?thesis
      proof (cases c)
        case (Inl e)
        with run q nf w1 h Inr c 3 i2 show ?thesis by (auto simp: sign_up_tx_def intro: still_trans)
      next
        case cr: (Inr x)
        obtain ai w4 where ai: "run_state (fresh_id a) w3 = (ai, w4)" by (rule prod.exhaust)
        from ai 3 have 4: "Inv w4" "V w4 = V w3" "still w w4" "plain_string ai"
          using calm_V i2(3) by (auto elim!: fresh_id_E intro: calm_still still_trans)
        let ?acc = "\<lparr>acc_id = ai, acc_user_id = user_id u, acc_provider = ProviderPassword,
                  acc_provider_id = user_id u, acc_created_at = t, acc_updated_at = t\<rparr>"
        obtain m w5 where m: "run_state (on_db (accounts_create (au_store a) ?acc)) w4 = (m, w5)"
          by (rule prod.exhaust)
        have 5: "Inv w5 \<and> still w4 w5 \<and> (case m of Inl _ \<Rightarrow> True | Inr _ \<Rightarrow>
            V w5 = (V w4)\<lparr>db_accounts := add_mset ?acc (db_accounts (V w4))\<rparr>)"
          using write_account [OF 4(1) _ m] 4(4) by simp
        show ?thesis
        proof (cases m)
          case (Inl e)
          with run q nf w1 h Inr c cr ai m 5 4 show ?thesis by (auto simp: sign_up_tx_def intro: still_trans)
        next
          case ac: (Inr y)
          obtain ci w6 where ci: "run_state (fresh_id a) w5 = (ci, w6)" by (rule prod.exhaust)
          from ci 5 have 6: "Inv w6" "V w6 = V w5" "still w w6" "plain_string ci"
            using calm_V 4(3) by (auto elim!: fresh_id_E intro: calm_still still_trans)
          let ?c = "\<lparr>cred_id = ci, cred_user_id = user_id u, cred_account_id = ai,
                  cred_type = TypePassword, cred_secret = hash, cred_created_at = t,
                  cred_updated_at = t, cred_revoked_at = None\<rparr>"
          obtain k w7 where k: "run_state (on_db (credentials_create (au_store a) ?c)) w6 = (k, w7)"
            by (rule prod.exhaust)
          have 7: "Inv w7 \<and> still w6 w7 \<and> (case k of Inl _ \<Rightarrow> True | Inr _ \<Rightarrow>
              V w7 = (V w6)\<lparr>db_credentials := add_mset ?c (db_credentials (V w6))\<rparr>)"
            using write_credential [OF 6(1) _ _ k] 6(4) by simp
          then have st7: "still w w7" using 6(3) still_trans by blast
          show ?thesis
          proof (cases k)
            case (Inl e)
            with run q nf w1 h Inr c cr ai m ac ci k 7 st7 show ?thesis by (auto simp: sign_up_tx_def)
          next
            case cc: (Inr z)
            have v7: "db_users (V w7) = add_mset u (db_users (V w))"
              "db_accounts (V w7) = add_mset ?acc (db_accounts (V w))"
              "db_credentials (V w7) = add_mset ?c (db_credentials (V w))"
              "db_sessions (V w7) = db_sessions (V w)" "db_tokens (V w7) = db_tokens (V w)"
              using 3 4(2) 5 6(2) 7 cr ac cc by auto
            have new: "\<forall>x \<in># db_users (V w). user_email x \<noteq> email \<and> user_id x \<noteq> user_id u"
              using noemail 3 cr by auto
            have fin: "signed_up_db w email hash u io w'"
              if "io = None \<longleftrightarrow> st_verification_required (au_settings a)"
                "\<And>x. io = Some x \<Longrightarrow> issued_ok (user_id u) x"
                "db_users (V w') = db_users (V w7)" "db_accounts (V w') = db_accounts (V w7)"
                "db_credentials (V w') = db_credentials (V w7)"
                "db_sessions (V w') = (case io of None \<Rightarrow> {#} | Some x \<Rightarrow> {#iss_session x#}) + db_sessions (V w7)"
              for io
              unfolding signed_up_db_def using that v7 new u
              by (intro exI [of _ ?acc] exI [of _ ?c]) (simp add: cred_active_def)
            show ?thesis
            proof (cases "st_verification_required (au_settings a)")
              case True
              with run q nf w1 h Inr c cr ai m ac ci k cc have "r = Inr (u, None)" "w' = w7"
                by (auto simp: sign_up_tx_def)
              with fin [of None] True 7 st7 v7 show ?thesis by simp
            next
              case False
              obtain s w8 where s: "run_state (new_session a cx (user_id u) (up_session inp)) w7 = (s, w8)"
                by (rule prod.exhaust)
              have "Inv w7" using 7 by blast
              note ns = new_session_spec [OF this s]
              from run q nf w1 h Inr c cr ai m ac ci k cc s False
              have r: "r = map_sum id (\<lambda>x. (u, Some x)) s" "w' = w8"
                by (auto simp: sign_up_tx_def split: sum.splits)
              have "still w w8" using st7 ns still_trans by blast
              with r ns fin [of "Some (projr s)"] False v7 show ?thesis by (cases s) auto
            qed
          qed
        qed
      qed
    qed
  qed
qed

definition signed_up :: "ctx \<Rightarrow> ('s, 'c) world \<Rightarrow> sign_up_input \<Rightarrow> auth_result \<Rightarrow> ('s, 'c) world \<Rightarrow> bool" where
  "signed_up cx w inp res w' \<longleftrightarrow> (\<exists>email hash io.
     normalize_email (au_rt a) (up_email inp) = Inr email \<and>
     check_password_policy a (up_password inp) = Inr () \<and>
     (\<exists>w1 w2. run_state (hash_password (au_hasher a) cx (up_password inp)) w1 = (Inr hash, w2)) \<and>
     signed_up_db w email hash (res_user res) io w' \<and>
     res_session res = map_option iss_session io \<and>
     res_token res = (case io of None \<Rightarrow> [] | Some i \<Rightarrow> iss_token i))"

lemma signed_up_db_cong:
  "signed_up_db w e h u io w1 \<Longrightarrow> V w0 = V w \<Longrightarrow> db_users (V w2) = db_users (V w1) \<Longrightarrow>
   db_accounts (V w2) = db_accounts (V w1) \<Longrightarrow> db_credentials (V w2) = db_credentials (V w1) \<Longrightarrow>
   db_sessions (V w2) = db_sessions (V w1) \<Longrightarrow> signed_up_db w0 e h u io w2"
  by (simp add: signed_up_db_def)

lemma sign_up_post:
  assumes g: "good w" and u: "u \<in># db_users (V w)" "plain_string (user_id u)"
    and io: "\<And>i. io = Some i \<Longrightarrow> iss_session i \<in># db_sessions (V w)"
    and run: "run_state (do {
             _ \<leftarrow> cache_user a cx u;
             _ \<leftarrow> publish a cx EventUserCreated (user_id u) (PUser u);
             v \<leftarrow> observers_run (hk_after_user_create (au_hooks a)) cx u;
             _ \<leftarrow> (case io of None \<Rightarrow> skip | Some i \<Rightarrow> after_session_created a cx (iss_session i));
             _ \<leftarrow> (if st_send_on_sign_up (au_settings a) then do {
                     r \<leftarrow> send_verification_email a cx v;
                     case r of
                       Inl _ \<Rightarrow> log_line ''auth: failed to send verification email on sign up''
                     | Inr _ \<Rightarrow> skip
                   } else skip);
             res \<leftarrow> observers_run (hk_after_sign_up (au_hooks a)) cx
               \<lparr>res_user = v, res_session = map_option iss_session io,
                res_token = (case io of None \<Rightarrow> [] | Some i \<Rightarrow> iss_token i)\<rparr>;
             ok res }) w = (r, w')"
  shows "good w' \<and> (\<exists>T. V w' = (V w)\<lparr>db_tokens := T\<rparr>) \<and> (plain_subjects w \<longrightarrow> plain_subjects w') \<and>
    r = Inr \<lparr>res_user = u, res_session = map_option iss_session io,
      res_token = (case io of None \<Rightarrow> [] | Some i \<Rightarrow> iss_token i)\<rparr>"
proof -
  obtain y1 w1 where y1: "run_state (cache_user a cx u) w = (y1, w1)" by (rule prod.exhaust)
  obtain y2 w2 where y2: "run_state (publish a cx EventUserCreated (user_id u) (PUser u)) w1 = (y2, w2)"
    by (rule prod.exhaust)
  obtain v w3 where y3: "run_state (observers_run (hk_after_user_create (au_hooks a)) cx u) w2 = (v, w3)"
    by (rule prod.exhaust)
  have v: "v = u" using after_hooks(3) [OF y3] .
  obtain y4 w4 where y4: "run_state (case io of None \<Rightarrow> skip | Some i \<Rightarrow> after_session_created a cx (iss_session i)) w3 = (y4, w4)"
    by (rule prod.exhaust)
  obtain y5 w5 where y5: "run_state (if st_send_on_sign_up (au_settings a) then do {
                     r \<leftarrow> send_verification_email a cx v;
                     case r of
                       Inl _ \<Rightarrow> log_line ''auth: failed to send verification email on sign up''
                     | Inr _ \<Rightarrow> skip
                   } else skip) w4 = (y5, w5)"
    by (rule prod.exhaust)
  let ?res = "\<lparr>res_user = v, res_session = map_option iss_session io,
                res_token = (case io of None \<Rightarrow> [] | Some i \<Rightarrow> iss_token i)\<rparr>"
  obtain res w6 where y6: "run_state (observers_run (hk_after_sign_up (au_hooks a)) cx ?res) w5 = (res, w6)"
    by (rule prod.exhaust)
  from run y1 y2 y3 y4 y5 y6 have r: "r = Inr res" "w' = w6" by simp_all
  have 1: "good w1" "V w1 = V w" using good_cache_user [OF g u(1) y1] same_db_V by blast+
  have "calm w1 w3" using calmD [OF calm_publish y2] calmD [OF calm_hooks(9) y3] calm_trans by blast
  then have 3: "good w3" "V w3 = V w" using 1 good_calm calm_V by metis+
  have 4: "good w4 \<and> V w4 = V w"
  proof (cases io)
    case None
    with y4 3 show ?thesis by simp
  next
    case (Some i)
    with y4 3 io after_session_created_spec [of w3 "iss_session i" cx y4 w4] show ?thesis
      using same_db_V by auto
  qed
  have 5: "good w5 \<and> (\<exists>T. V w5 = (V w)\<lparr>db_tokens := T\<rparr>) \<and> (plain_subjects w \<longrightarrow> plain_subjects w5)"
  proof (cases "st_send_on_sign_up (au_settings a)")
    case False
    with y5 4 show ?thesis by (auto simp: plain_subjects_def intro: exI [of _ "db_tokens (V w)"])
  next
    case True
    obtain z w7 where z: "run_state (send_verification_email a cx v) w4 = (z, w7)" by (rule prod.exhaust)
    have "calm w7 w5"
      by (rule calmD [where m = "case z of
          Inl _ \<Rightarrow> log_line ''auth: failed to send verification email on sign up'' | Inr _ \<Rightarrow> skip"])
        (intro keeps_rules, use y5 True z in simp)
    with send_verification_email_spec [OF _ _ z] 4 u(2) v show ?thesis
      using good_calm calm_V plain_subjects_cong by metis
  qed
  have "calm w5 w6" using calmD [OF calm_hooks(6) y6] .
  then have "good w6" "V w6 = V w5" using 5 good_calm calm_V by metis+
  with 5 r after_hooks(1) [OF y6] v show ?thesis by (simp add: plain_subjects_def)
qed

lemma sign_up_spec:
  assumes g: "good w" and cx: "plain_call cx"
    and run: "run_state (sign_up a cx inp0) w = (r, w')"
  shows "good w' \<and> (case r of Inl _ \<Rightarrow> V w' = V w | Inr res \<Rightarrow>
    \<exists>inp w0. run_state (chain_run (hk_before_sign_up (au_hooks a)) cx inp0) w = (Inr inp, w0) \<and>
      signed_up cx w inp res w' \<and> (plain_subjects w \<longrightarrow> plain_subjects w'))"
proof -
  obtain h w0 where h: "run_state (chain_run (hk_before_sign_up (au_hooks a)) cx inp0) w = (h, w0)"
    by (rule prod.exhaust)
  from calmD [OF calm_hooks(1) h] have c0: "calm w w0" .
  then have g0: "good w0" "V w0 = V w" using good_calm [OF g] calm_V by blast+
  show ?thesis
  proof (cases "\<exists>inp e. h = Inr inp \<and> normalize_email (au_rt a) (up_email inp) = Inr e \<and>
      check_password_policy a (up_password inp) = Inr ()")
    case False
    with run h have "w' = w0" "\<exists>e. r = Inl e"
      by (auto simp: sign_up_def run_case_sum run_check split: sum.splits if_splits)
    with g0 show ?thesis by auto
  next
    case True
    then obtain inp e where inp: "h = Inr inp" "normalize_email (au_rt a) (up_email inp) = Inr e"
      "check_password_policy a (up_password inp) = Inr ()" by blast
    obtain q w1 where q: "run_state (hash_password (au_hasher a) cx (up_password inp)) w0 = (q, w1)"
      by (rule prod.exhaust)
    from calmD [OF calm_hasher(1) q] have c1: "calm w0 w1" .
    show ?thesis
    proof (cases q)
      case (Inl er)
      with run h inp q have "r = Inl er" "w' = w1" by (auto simp: sign_up_def)
      with g0 c1 show ?thesis using good_calm calm_V by auto
    next
      case (Inr hash)
      obtain t w2 where t: "run_state (now a) w1 = (t, w2)" by (rule prod.exhaust)
      obtain ui w3 where ui: "run_state (fresh_id a) w2 = (ui, w3)" by (rule prod.exhaust)
      have "calm w0 w3" and pui: "plain_string ui"
        using c1 t ui by (auto elim!: now_E fresh_id_E intro: calm_trans)
      then have g3: "good w3" "V w3 = V w" using g0 good_calm calm_V by metis+
      let ?u = "\<lparr>user_id = ui, user_email = e, user_email_verified = False,
              user_created_at = t, user_updated_at = t\<rparr>"
      obtain p w4 where p: "run_state (transaction a cx (\<lambda>cx. sign_up_tx a cx inp e hash t ?u)) w3 = (p, w4)"
        by (rule prod.exhaust)
      have tx: "Inv w4 \<and> still w3 w4 \<and> (case p of Inl _ \<Rightarrow> V w4 = V w3 | Inr x \<Rightarrow>
          signed_up_db w3 e hash (fst x) (snd x) w4 \<and> db_tokens (V w4) = db_tokens (V w3))"
      proof (rule transaction_spec [OF _ good_Inv [OF g3(1)] p])
        fix r w5 assume "run_state (sign_up_tx a (with_tx cx) inp e hash t ?u) w3 = (r, w5)"
        from sign_up_tx_spec [OF good_Inv [OF g3(1)] plain_email [OF inp(2)] _ _ this] pui
        show "Inv w5 \<and> still w3 w5 \<and> (case r of Inl _ \<Rightarrow> True | Inr x \<Rightarrow>
          signed_up_db w3 e hash (fst x) (snd x) w5 \<and> db_tokens (V w5) = db_tokens (V w3))" by simp
      qed (use cx in \<open>simp add: plain_call_def\<close>)
      show ?thesis
      proof (cases p)
        case (Inl er)
        with run h inp q Inr t ui p have "r = Inl er" "w' = w4" by (auto simp: sign_up_def)
        with tx Inl g3 show ?thesis by (auto intro: good_grow [OF g3(1)])
      next
        case ok: (Inr x)
        let ?io = "snd x" and ?v = "fst x"
        from tx ok have sd: "signed_up_db w3 e hash ?v ?io w4" by simp
        have g4: "good w4"
          using tx sd by (intro good_grow [OF g3(1)]) (auto simp: signed_up_db_def split: option.splits)
        note post = sign_up_post [where u = "fst x" and io = "snd x" and w = w4 and r = r and w' = w' and cx = cx]
        have "good w' \<and> (\<exists>T. V w' = (V w4)\<lparr>db_tokens := T\<rparr>) \<and> (plain_subjects w4 \<longrightarrow> plain_subjects w') \<and>
          r = Inr \<lparr>res_user = ?v, res_session = map_option iss_session ?io,
            res_token = (case ?io of None \<Rightarrow> [] | Some i \<Rightarrow> iss_token i)\<rparr>"
        proof (rule post [OF g4])
          show "?v \<in># db_users (V w4)" "plain_string (user_id ?v)" using sd by (auto simp: signed_up_db_def)
          show "iss_session i \<in># db_sessions (V w4)" if "?io = Some i" for i
            using sd that by (auto simp: signed_up_db_def)
        qed (use run h inp q Inr t ui p ok in \<open>simp add: sign_up_def Let_def\<close>)
        moreover from this have "signed_up_db w e hash ?v ?io w'"
          using signed_up_db_cong [OF sd, of w w'] g3(2) by auto
        moreover from calculation have "\<And>res. r = Inr res \<Longrightarrow> signed_up cx w inp res w'"
          using inp(2,3) q Inr unfolding signed_up_def
          by (intro exI [of _ e] exI [of _ hash] exI [of _ ?io]) auto
        moreover have "plain_subjects w4 = plain_subjects w"
          using tx ok g3(2) by (intro plain_subjects_cong) simp
        ultimately show ?thesis using h inp(1) by auto
      qed
    qed
  qed
qed

end

end
