(* ===== verification/Passwords_Correct.thy ===== *)
theory Passwords_Correct
  imports Sign_Up_Correct
begin

text \<open>
  Changing and resetting passwords, verifying an email, purging: what they do to the store
  on every branch, and that they keep the cache coherent. A password is rotated: the old
  credential is revoked and a new one created, so its history stays.
\<close>

context engine
begin

definition rotated :: "string \<Rightarrow> string \<Rightarrow> ('s, 'c) world \<Rightarrow> ('s, 'c) world \<Rightarrow> bool" where
  "rotated uid hash w w' \<longleftrightarrow> (\<exists>old new t. password_of w uid old \<and>
     cred_user_id new = uid \<and> cred_account_id new = cred_account_id old \<and>
     cred_type new = TypePassword \<and> cred_secret new = hash \<and> cred_active new \<and>
     db_credentials (V w') = add_mset new
       (upd_where (\<lambda>x. cred_id x = cred_id old) (revoke_credential t) (db_credentials (V w))))"

lemma rotate_password_spec:
  assumes i: "Inv w" and p: "plain_string uid"
    and run: "run_state (rotate_password a uid hash) w = (r, w')"
  shows "Inv w' \<and> still w w' \<and> (case r of Inl _ \<Rightarrow> True | Inr _ \<Rightarrow> rotated uid hash w w' \<and>
    V w' = (V w)\<lparr>db_credentials := db_credentials (V w')\<rparr>)"
proof -
  obtain q w1 where q: "run_state (password_credential a uid) w = (q, w1)" by (rule prod.exhaust)
  note pc = password_credential_spec [OF i p q]
  show ?thesis
  proof (cases q)
    case (Inl e)
    with run q pc i show ?thesis by (auto simp: rotate_password_def)
  next
    case (Inr old)
    obtain t w2 where t: "run_state (now a) w = (t, w2)" by (rule prod.exhaust)
    then have 2: "calm w w2" "t \<noteq> 0" by (auto elim!: now_E)
    then have i2: "Inv w2" "V w2 = V w" using i calm_V by blast+
    obtain m w3 where m: "run_state (on_db (credentials_revoke (au_store a) (cred_id old) t)) w2 = (m, w3)"
      by (rule prod.exhaust)
    have 3: "Inv w3 \<and> still w2 w3 \<and> (case m of Inl _ \<Rightarrow> True | Inr _ \<Rightarrow> V w3 = (V w2)\<lparr>db_credentials :=
        upd_where (\<lambda>x. cred_id x = cred_id old) (revoke_credential t) (db_credentials (V w2))\<rparr>)"
      by (rule on_db_write [OF m])
        (use credentials_revoke [OF Inv_inv [OF i2(1)] 2(2)] in \<open>fastforce simp: V_def split: sum.splits\<close>)
    have st3: "still w w3" using 2 3 calm_still still_trans by blast
    show ?thesis
    proof (cases m)
      case (Inl e)
      with run q pc Inr t m 3 st3 show ?thesis by (auto simp: rotate_password_def)
    next
      case mr: (Inr u)
      obtain ci w4 where ci: "run_state (fresh_id a) w3 = (ci, w4)" by (rule prod.exhaust)
      have 4: "calm w3 w4" "plain_string ci" using ci by (auto elim!: fresh_id_E)
      then have i4: "Inv w4" "V w4 = V w3" "still w w4" using 3 st3 calm_V calm_still still_trans by blast+
      let ?c = "\<lparr>cred_id = ci, cred_user_id = uid, cred_account_id = cred_account_id old,
            cred_type = TypePassword, cred_secret = hash, cred_created_at = t,
            cred_updated_at = t, cred_revoked_at = None\<rparr>"
      have k: "run_state (on_db (credentials_create (au_store a) ?c)) w4 = (r, w')"
        using run q pc Inr t m mr ci by (auto simp: rotate_password_def)
      note wc = write_credential [OF i4(1) _ _ k]
      have "still w w'" using wc 4 i4(3) still_trans by auto
      moreover have "rotated uid hash w w' \<and> V w' = (V w)\<lparr>db_credentials := db_credentials (V w')\<rparr>"
        if "r = Inr u'" for u'
        unfolding rotated_def
        using that wc 4 i4(2) 3 mr i2(2) pc Inr
        by (intro conjI exI [of _ old] exI [of _ ?c] exI [of _ t]) (auto simp: cred_active_def)
      ultimately show ?thesis using wc 4 by (cases r) auto
    qed
  qed
qed

section \<open>Changing a password\<close>

lemma change_password_spec:
  assumes g: "good w" and cx: "plain_call cx" and p: "plain_string (chg_user_id inp)"
    and run: "run_state (change_password a cx inp) w = (r, w')"
  shows "good w' \<and> (case r of Inl _ \<Rightarrow> V w' = V w | Inr _ \<Rightarrow>
    (\<exists>c. password_of w (chg_user_id inp) c \<and> accepted cx (cred_secret c) (chg_current_password inp)) \<and>
    (\<exists>hash. (\<exists>w1 w2. run_state (hash_password (au_hasher a) cx (chg_new_password inp)) w1 = (Inr hash, w2)) \<and>
       rotated (chg_user_id inp) hash w w') \<and>
    db_users (V w') = db_users (V w) \<and> db_accounts (V w') = db_accounts (V w) \<and>
    db_tokens (V w') = db_tokens (V w) \<and>
    (if chg_keep_other_sessions inp then db_sessions (V w') = db_sessions (V w)
     else \<exists>rs w1. db_sessions (V w1) = db_sessions (V w) \<and>
       revoked_exactly (chg_user_id inp) (chg_current_session_id inp) rs w1 w'))"
proof (cases "check_password_policy a (chg_new_password inp)")
  case (Inl e)
  from run Inl have "r = Inl e" "w' = w" by (simp_all add: change_password_def)
  with g show ?thesis by simp
next
  case pol: (Inr u0)
  obtain v w1 where v: "run_state (verify_password a cx (chg_user_id inp) (chg_current_password inp)) w = (v, w1)"
    by (rule prod.exhaust)
  note vp = verify_password_spec [OF good_Inv [OF g] p v]
  then have g1: "good w1" "V w1 = V w" using good_calm [OF g] calm_V by blast+
  show ?thesis
  proof (cases v)
    case (Inl e)
    with run pol v g1 show ?thesis by (auto simp: change_password_def)
  next
    case (Inr u1)
    obtain q w2 where q: "run_state (hash_password (au_hasher a) cx (chg_new_password inp)) w1 = (q, w2)"
      by (rule prod.exhaust)
    from calmD [OF calm_hasher(1) q] have g2: "good w2" "V w2 = V w" using g1 good_calm calm_V by metis+
    show ?thesis
    proof (cases q)
      case (Inl e)
      with run pol v Inr q g2 show ?thesis by (auto simp: change_password_def)
    next
      case h: (Inr hash)
      let ?f = "\<lambda>cx. bindE (rotate_password a (chg_user_id inp) hash) (\<lambda>_.
       if chg_keep_other_sessions inp then ok []
       else revoke_user_sessions_tx a (chg_user_id inp) (chg_current_session_id inp))"
      obtain t w3 where t: "run_state (transaction a cx ?f) w2 = (t, w3)" by (rule prod.exhaust)
      let ?P = "\<lambda>rs w'. rotated (chg_user_id inp) hash w w' \<and>
        db_users (V w') = db_users (V w) \<and> db_accounts (V w') = db_accounts (V w) \<and>
        db_tokens (V w') = db_tokens (V w) \<and>
        (if chg_keep_other_sessions inp then rs = [] \<and> db_sessions (V w') = db_sessions (V w)
         else \<exists>w1. Inv w1 \<and> db_sessions (V w1) = db_sessions (V w) \<and> db_users (V w1) = db_users (V w) \<and>
           revoked_exactly (chg_user_id inp) (chg_current_session_id inp) rs w1 w')"
      have tx: "Inv w3 \<and> still w2 w3 \<and> (case t of Inl _ \<Rightarrow> V w3 = V w2 | Inr rs \<Rightarrow> ?P rs w3)"
      proof (rule transaction_spec [OF _ good_Inv [OF g2(1)] t])
        fix r w5 assume b: "run_state (?f (with_tx cx)) w2 = (r, w5)"
        obtain m w4 where m: "run_state (rotate_password a (chg_user_id inp) hash) w2 = (m, w4)"
          by (rule prod.exhaust)
        note rp = rotate_password_spec [OF good_Inv [OF g2(1)] p m]
        have rot: "rotated (chg_user_id inp) hash w x" if "rotated (chg_user_id inp) hash w2 w4"
          "db_credentials (V x) = db_credentials (V w4)" for x
          using that g2(2) by (simp add: rotated_def password_of_def)
        show "Inv w5 \<and> still w2 w5 \<and> (case r of Inl _ \<Rightarrow> True | Inr rs \<Rightarrow> ?P rs w5)"
        proof (cases m)
          case (Inl e)
          with b m rp show ?thesis by auto
        next
          case mr: (Inr u2)
          with rp have v4: "V w4 = (V w2)\<lparr>db_credentials := db_credentials (V w4)\<rparr>"
            "rotated (chg_user_id inp) hash w2 w4" "Inv w4" "still w2 w4" by auto
          from v4(1) g2(2) have v4': "db_users (V w4) = db_users (V w)" "db_accounts (V w4) = db_accounts (V w)"
            "db_tokens (V w4) = db_tokens (V w)" "db_sessions (V w4) = db_sessions (V w)"
            by (metis db.select_convs db.surjective db.update_convs(3))+
          show ?thesis
          proof (cases "chg_keep_other_sessions inp")
            case True
            with b m mr have "r = Inr []" "w5 = w4" by auto
            with v4 v4' rot True show ?thesis by auto
          next
            case False
            with b m mr have ro: "run_state (revoke_user_sessions_tx a (chg_user_id inp)
              (chg_current_session_id inp)) w4 = (r, w5)" by auto
            note rs = revoke_user_sessions_tx_spec [OF v4(3) p ro]
            have "?P rs0 w5" if "r = Inr rs0" for rs0
            proof -
              from rs that have re: "revoked_exactly (chg_user_id inp) (chg_current_session_id inp) rs0 w4 w5"
                by simp
              then have "db_users (V w5) = db_users (V w4)" "db_accounts (V w5) = db_accounts (V w4)"
                "db_tokens (V w5) = db_tokens (V w4)" "db_credentials (V w5) = db_credentials (V w4)"
                by (auto simp: revoked_exactly_def)
              with re v4 v4' rot False show ?thesis by auto
            qed
            with rs v4(4) show ?thesis by (cases r) (auto intro: still_trans)
          qed
        qed
      qed (use cx in \<open>simp add: plain_call_def\<close>)
      show ?thesis
      proof (cases t)
        case (Inl e)
        with run pol v Inr q h t have "r = Inl e" "w' = w3" by (auto simp: change_password_def)
        with tx Inl g2 show ?thesis by (auto intro: good_grow [OF g2(1)])
      next
        case ok: (Inr rs)
        obtain y w6 where y: "run_state (after_sessions_revoked a cx rs) w3 = (y, w6)" by (rule prod.exhaust)
        obtain z w7 where z: "run_state (publish a cx EventPasswordChanged (chg_user_id inp) PNil) w6 = (z, w7)"
          by (rule prod.exhaust)
        from run pol v Inr q h t ok y z have r: "r = Inr ()" "w' = w7" by (auto simp: change_password_def)
        have "\<exists>P f. db_sessions (V w3) = upd_where P f (db_sessions (V w2)) \<and>
          (\<forall>x \<in># db_sessions (V w2). P x \<longrightarrow> sess_token_hash x \<in> sess_token_hash ` set rs)"
        proof (cases "chg_keep_other_sessions inp")
          case True
          with tx ok g2(2) have "db_sessions (V w3) = upd_where (\<lambda>_. False) id (db_sessions (V w2))"
            by (simp add: upd_where_def)
          then show ?thesis by (intro exI [of _ "\<lambda>_. False"] exI [of _ id]) auto
        next
          case False
          with tx ok obtain w1 where "Inv w1" "db_sessions (V w1) = db_sessions (V w)"
            "revoked_exactly (chg_user_id inp) (chg_current_session_id inp) rs w1 w3" by auto
          with revoked_exactly_hash [OF this(1,3)] g2(2) show ?thesis by auto
        qed
        then obtain P f where P: "db_sessions (V w3) = upd_where P f (db_sessions (V w2))"
          "\<And>x. x \<in># db_sessions (V w2) \<Longrightarrow> P x \<Longrightarrow> sess_token_hash x \<in> sess_token_hash ` set rs" by blast
        have "good w6 \<and> calm w3 w6"
          using after_sessions_revoked_spec [OF g2(1) _ _ _ _ P y] tx cx ok g2(2) by (simp add: plain_call_def)
        moreover have "calm w6 w7" using calmD [OF calm_publish z] .
        ultimately have g7: "good w7" "V w7 = V w3" using good_calm calm_V by metis+
        from tx ok have P3: "?P rs w3" by simp
        have rot: "rotated (chg_user_id inp) hash w w7"
          using P3 g7(2) unfolding rotated_def by simp
        have re: "revoked_exactly u e rs w1 w7" if "revoked_exactly u e rs w1 w3" for u e w1
          using that g7(2) by (simp add: revoked_exactly_def)
        from P3 have "if chg_keep_other_sessions inp then db_sessions (V w7) = db_sessions (V w)
          else \<exists>rs w1. db_sessions (V w1) = db_sessions (V w) \<and>
            revoked_exactly (chg_user_id inp) (chg_current_session_id inp) rs w1 w7"
          using re g7(2) by (cases "chg_keep_other_sessions inp") (auto, blast)
        with P3 rot g7 r vp Inr q h show ?thesis by auto
      qed
    qed
  qed
qed

section \<open>Resetting a password\<close>

text \<open>\<open>y\<close> is the token that \<open>tk\<close> stands for, usable at the time \<open>t\<close>.\<close>

definition usable :: "('s, 'c) world \<Rightarrow> string \<Rightarrow> string \<Rightarrow> time \<Rightarrow> token \<Rightarrow> bool" where
  "usable w p tk t y \<longleftrightarrow> y \<in># db_tokens (V w) \<and> tok_token_hash y = hash_token (au_rt a) tk \<and>
     tok_purpose y = p \<and> tok_used_at y = None \<and> t < tok_expires_at y"

definition token_spent :: "token \<Rightarrow> time \<Rightarrow> ('s, 'c) world \<Rightarrow> ('s, 'c) world \<Rightarrow> bool" where
  "token_spent y t w w' \<longleftrightarrow> db_tokens (V w') =
     upd_where (\<lambda>z. tok_id z = tok_id y \<and> tok_used_at z = None) (use_token t) (db_tokens (V w))"

lemma consume_token_usable:
  assumes i: "Inv w" and run: "run_state (consume_token a p tk) w = (Inr x, w')"
  obtains y where "usable w p tk (au_now a (w_clock w)) y" "x = use_token (au_now a (w_clock w)) y"
    "Inv w'" "still w w'" "token_spent y (au_now a (w_clock w)) w w'"
    "V w' = (V w)\<lparr>db_tokens := db_tokens (V w')\<rparr>"
  using consume_token_spec [OF i run] by (auto simp: usable_def token_spent_def)

lemma use_token_simps [simp]:
  "tok_id (use_token t x) = tok_id x" "tok_subject (use_token t x) = tok_subject x"
  "tok_purpose (use_token t x) = tok_purpose x" "tok_token_hash (use_token t x) = tok_token_hash x"
  "tok_used_at (use_token t x) = Some t"
  by (simp_all add: use_token_def)

definition reset_tx :: "reset_password_input \<Rightarrow> string \<Rightarrow> ('s, 'c, string \<times> session list) actE" where
  "reset_tx inp hash =
     bindE (consume_token a PurposePasswordReset (rst_token inp)) (\<lambda>x. do {
         r \<leftarrow> rotate_password a (tok_subject x) hash;
         case r of
           Inl e \<Rightarrow> fail (if e = StoreNotFound then ErrInvalidToken else e)
         | Inr _ \<Rightarrow>
             bindE (revoke_user_sessions_tx a (tok_subject x) []) (\<lambda>revoked.
             ok (tok_subject x, revoked))
       })"

definition reset_done ::
  "reset_password_input \<Rightarrow> string \<Rightarrow> ('s, 'c) world \<Rightarrow> string \<Rightarrow> session list \<Rightarrow> ('s, 'c) world \<Rightarrow> bool" where
  "reset_done inp hash w uid rs w' \<longleftrightarrow> (\<exists>y t w1.
     usable w PurposePasswordReset (rst_token inp) t y \<and> tok_subject y = uid \<and> token_spent y t w w' \<and>
     rotated uid hash w w' \<and> db_users (V w') = db_users (V w) \<and> db_accounts (V w') = db_accounts (V w) \<and>
     Inv w1 \<and> db_users (V w1) = db_users (V w) \<and> db_sessions (V w1) = db_sessions (V w) \<and>
     revoked_exactly uid [] rs w1 w')"

lemma reset_tx_spec:
  assumes i: "Inv w" and p: "plain_subjects w" and run: "run_state (reset_tx inp hash) w = (r, w')"
  shows "Inv w' \<and> still w w' \<and> (case r of Inl _ \<Rightarrow> True | Inr p \<Rightarrow> reset_done inp hash w (fst p) (snd p) w')"
proof -
  obtain c w1 where c: "run_state (consume_token a PurposePasswordReset (rst_token inp)) w = (c, w1)"
    by (rule prod.exhaust)
  show ?thesis
  proof (cases c)
    case (Inl e)
    with run c consume_token_spec [OF i c] show ?thesis by (auto simp: reset_tx_def)
  next
    case (Inr x)
    from consume_token_usable [OF i c [unfolded Inr]] obtain y where
      y: "usable w PurposePasswordReset (rst_token inp) (au_now a (w_clock w)) y"
        "x = use_token (au_now a (w_clock w)) y" and
      1: "Inv w1" "still w w1" "token_spent y (au_now a (w_clock w)) w w1"
        "V w1 = (V w)\<lparr>db_tokens := db_tokens (V w1)\<rparr>" by metis
    have v1: "db_users (V w1) = db_users (V w)" "db_accounts (V w1) = db_accounts (V w)"
      "db_credentials (V w1) = db_credentials (V w)" "db_sessions (V w1) = db_sessions (V w)"
      by (subst 1(4), simp)+
    have ps: "plain_string (tok_subject y)" and sub: "tok_subject x = tok_subject y"
      using y p by (auto simp: usable_def plain_subjects_def)
    obtain m w2 where m: "run_state (rotate_password a (tok_subject y) hash) w1 = (m, w2)"
      by (rule prod.exhaust)
    note rp = rotate_password_spec [OF 1(1) ps m]
    show ?thesis
    proof (cases m)
      case (Inl e)
      with run c Inr m sub rp 1(2) show ?thesis by (auto simp: reset_tx_def intro: still_trans)
    next
      case mr: (Inr u)
      with rp have 2: "Inv w2" "still w1 w2" "rotated (tok_subject y) hash w1 w2"
        "V w2 = (V w1)\<lparr>db_credentials := db_credentials (V w2)\<rparr>" by auto
      have v2: "db_users (V w2) = db_users (V w)" "db_accounts (V w2) = db_accounts (V w)"
        "db_tokens (V w2) = db_tokens (V w1)" "db_sessions (V w2) = db_sessions (V w)"
        using v1 by (subst 2(4), simp)+
      obtain q w3 where q: "run_state (revoke_user_sessions_tx a (tok_subject y) []) w2 = (q, w3)"
        by (rule prod.exhaust)
      note rs = revoke_user_sessions_tx_spec [OF 2(1) ps q]
      show ?thesis
      proof (cases q)
        case (Inl e)
        with run c Inr m mr sub q rs 1(2) 2(2) show ?thesis by (auto simp: reset_tx_def intro: still_trans)
      next
        case qr: (Inr l)
        with rs have re: "revoked_exactly (tok_subject y) [] l w2 w3" by simp
        then have v3: "db_users (V w3) = db_users (V w2)" "db_accounts (V w3) = db_accounts (V w2)"
          "db_tokens (V w3) = db_tokens (V w2)" "db_credentials (V w3) = db_credentials (V w2)"
          by (auto simp: revoked_exactly_def)
        have "rotated (tok_subject y) hash w w3"
          using 2(3) v1 v3 by (simp add: rotated_def password_of_def)
        with y(1) re 1(3) v2 v3 2(1) have "reset_done inp hash w (tok_subject y) l w3"
          unfolding reset_done_def by (intro exI [of _ y] exI [of _ "au_now a (w_clock w)"] exI [of _ w2])
            (simp add: token_spent_def)
        moreover have "r = Inr (tok_subject y, l)" "w' = w3"
          using run c Inr m mr sub q qr by (auto simp: reset_tx_def)
        ultimately show ?thesis using rs 1(2) 2(2) by (auto intro: still_trans)
      qed
    qed
  qed
qed

end

end
