(* ===== verification/Recovery_Correct.thy ===== *)
theory Recovery_Correct
  imports Passwords_Correct
begin

text \<open>
  The rest of \<open>password.go\<close> and \<open>PurgeExpired\<close>: what they do to the store on every branch, and
  that they keep the cache coherent with it.
\<close>

context engine
begin

section \<open>Completing a password reset\<close>

lemma reset_done_cong:
  "reset_done inp hash w uid rs w1 \<Longrightarrow> V w0 = V w \<Longrightarrow> V w2 = V w1 \<Longrightarrow> reset_done inp hash w0 uid rs w2"
  unfolding reset_done_def usable_def token_spent_def rotated_def password_of_def revoked_exactly_def
  by simp

lemma reset_password_spec:
  assumes g: "good w" and cx: "plain_call cx" and p: "plain_subjects w"
    and run: "run_state (reset_password a cx inp) w = (r, w')"
  shows "good w' \<and> (case r of Inl _ \<Rightarrow> V w' = V w | Inr _ \<Rightarrow>
    \<exists>hash uid rs. (\<exists>w1. run_state (hash_password (au_hasher a) cx (rst_new_password inp)) w = (Inr hash, w1)) \<and>
      check_password_policy a (rst_new_password inp) = Inr () \<and> reset_done inp hash w uid rs w')"
proof (cases "check_password_policy a (rst_new_password inp)")
  case (Inl e)
  from run Inl have "r = Inl e" "w' = w" by (simp_all add: reset_password_def)
  with g show ?thesis by simp
next
  case pol: (Inr u)
  obtain q w1 where q: "run_state (hash_password (au_hasher a) cx (rst_new_password inp)) w = (q, w1)"
    by (rule prod.exhaust)
  from calmD [OF calm_hasher(1) q] have g1: "good w1" "V w1 = V w" using g good_calm calm_V by metis+
  show ?thesis
  proof (cases q)
    case (Inl e)
    from run pol q Inl have "r = Inl e" "w' = w1" by (simp_all add: reset_password_def)
    with g1 show ?thesis by simp
  next
    case (Inr hash)
    obtain t w2 where t: "run_state (transaction a cx (\<lambda>cx. reset_tx inp hash)) w1 = (t, w2)"
      by (rule prod.exhaust)
    have tx: "Inv w2 \<and> still w1 w2 \<and> (case t of Inl _ \<Rightarrow> V w2 = V w1 | Inr p \<Rightarrow>
        reset_done inp hash w1 (fst p) (snd p) w2)"
      by (rule transaction_spec [OF _ good_Inv [OF g1(1)] t])
        (use cx reset_tx_spec [OF good_Inv [OF g1(1)]] p g1(2) in \<open>auto simp: plain_call_def plain_subjects_def\<close>)
    show ?thesis
    proof (cases t)
      case (Inl e)
      from run pol q Inr t Inl have "r = Inl e" "w' = w2"
        by (simp_all add: reset_password_def reset_tx_def)
      with tx Inl g1 show ?thesis by (auto intro: good_grow [OF g1(1)])
    next
      case ok: (Inr x)
      obtain y w3 where y: "run_state (after_sessions_revoked a cx (snd x)) w2 = (y, w3)" by (rule prod.exhaust)
      obtain z w4 where z: "run_state (publish a cx EventPasswordChanged (fst x) PNil) w3 = (z, w4)"
        by (rule prod.exhaust)
      from run pol q Inr t ok y z have r: "r = Inr ()" "w' = w4"
        by (simp_all add: reset_password_def reset_tx_def)
      from tx ok have d: "reset_done inp hash w1 (fst x) (snd x) w2" by simp
      then obtain w0 where w0: "Inv w0" "db_users (V w0) = db_users (V w1)"
        "db_sessions (V w0) = db_sessions (V w1)" "revoked_exactly (fst x) [] (snd x) w0 w2"
        "db_users (V w2) = db_users (V w1)"
        unfolding reset_done_def by blast
      from revoked_exactly_hash [OF w0(1,4)] w0 obtain s P where
        P: "db_sessions (V w2) = upd_where P (revoke_session s) (db_sessions (V w1))"
        "\<And>x'. x' \<in># db_sessions (V w1) \<Longrightarrow> P x' \<Longrightarrow> sess_token_hash x' \<in> sess_token_hash ` set (snd x)"
        by auto
      have "good w3 \<and> calm w2 w3"
        using after_sessions_revoked_spec [OF g1(1) _ _ _ w0(5) P y] tx cx by (simp add: plain_call_def)
      moreover have "calm w3 w4" using calmD [OF calm_publish z] .
      ultimately have "good w4" "V w4 = V w2" using good_calm calm_V by metis+
      with reset_done_cong [OF d g1(2) [symmetric]] r pol q Inr show ?thesis by auto
    qed
  qed
qed

section \<open>Requests for a token by email\<close>

lemma request_email_verification_spec:
  assumes g: "good w" and run: "run_state (request_email_verification a cx i) w = (r, w')"
  shows "good w' \<and> still w w' \<and> (\<exists>T. V w' = (V w)\<lparr>db_tokens := T\<rparr>) \<and>
    (plain_subjects w \<longrightarrow> plain_subjects w')"
proof (cases "au_email a")
  case None
  with run g show ?thesis
    by (auto simp: request_email_verification_def intro: exI [of _ "db_tokens (V w)"])
next
  case (Some send)
  obtain q w1 where q: "run_state (on_db (users_get_by_id (au_store a) i)) w = (q, w1)" by (rule prod.exhaust)
  note rd = read_user [OF good_Inv [OF g] q]
  show ?thesis
  proof (cases q)
    case (Inl e)
    with run Some q rd g show ?thesis
      by (auto simp: request_email_verification_def intro: exI [of _ "db_tokens (V w)"])
  next
    case (Inr u)
    with rd have u: "u \<in># db_users (V w)" "w1 = w" by (auto simp: got_def)
    then have "plain_string (user_id u)" using inv_plain_user good_Inv [OF g] by (auto simp: V_def Inv_def)
    with run Some q Inr u send_verification_email_spec [OF g, of u cx r w'] show ?thesis
      by (simp add: request_email_verification_def)
  qed
qed

text \<open>
  A reset token is issued only for a known email of a user with an active password; nothing
  but the tokens changes, and the caller sees success either way.
\<close>

lemma request_password_reset_spec:
  assumes g: "good w" and run: "run_state (request_password_reset a cx email0) w = (r, w')"
  shows "good w' \<and> still w w' \<and> (\<exists>T. V w' = (V w)\<lparr>db_tokens := T\<rparr>) \<and>
    (plain_subjects w \<longrightarrow> plain_subjects w') \<and>
    (V w' \<noteq> V w \<longrightarrow> (\<exists>u c. u \<in># db_users (V w) \<and>
       normalize_email (au_rt a) email0 = Inr (user_email u) \<and> password_of w (user_id u) c))"
    (is "?goal w'")
proof -
  have same: "?goal w'" if "w' = w" using that g by (auto intro: exI [of _ "db_tokens (V w)"])
  show ?thesis
  proof (cases "\<exists>send email u c. au_email a = Some send \<and> normalize_email (au_rt a) email0 = Inr email \<and>
      run_state (on_db (users_get_by_email (au_store a) email)) w = (Inr u, w) \<and>
      run_state (password_credential a (user_id u)) w = (Inr c, w)")
    case False
    show ?thesis
    proof (cases "\<exists>send email. au_email a = Some send \<and> normalize_email (au_rt a) email0 = Inr email")
      case False
      with run same show ?thesis
        by (auto simp: request_password_reset_def split: option.splits sum.splits)
    next
      case True
      then obtain send email where se: "au_email a = Some send" "normalize_email (au_rt a) email0 = Inr email"
        by blast
      obtain q w1 where q: "run_state (on_db (users_get_by_email (au_store a) email)) w = (q, w1)"
        by (rule prod.exhaust)
      note rd = read_user_email [OF good_Inv [OF g] q]
      show ?thesis
      proof (cases q)
        case (Inl e)
        with run se q rd same show ?thesis by (auto simp: request_password_reset_def split: if_splits)
      next
        case (Inr u)
        with rd have u: "u \<in># db_users (V w)" "w1 = w" by (auto simp: got_def)
        then have pu: "plain_string (user_id u)" using inv_plain_user good_Inv [OF g] by (auto simp: V_def Inv_def)
        obtain c w2 where c: "run_state (password_credential a (user_id u)) w = (c, w2)" by (rule prod.exhaust)
        note pc = password_credential_spec [OF good_Inv [OF g] pu c]
        with False se q u Inr c obtain e where "c = Inl e" by (cases c) auto
        with run se q Inr u c pc same show ?thesis by (auto simp: request_password_reset_def split: if_splits)
      qed
    qed
  next
    case True
    then obtain send email u c where
      se: "au_email a = Some send" "normalize_email (au_rt a) email0 = Inr email" and
      q: "run_state (on_db (users_get_by_email (au_store a) email)) w = (Inr u, w)" and
      c: "run_state (password_credential a (user_id u)) w = (Inr c, w)" by blast
    from read_user_email [OF good_Inv [OF g] q] plain_email [OF se(2)]
    have u: "u \<in># db_users (V w)" "user_email u = email" by (auto simp: got_def)
    then have pu: "plain_string (user_id u)" using inv_plain_user good_Inv [OF g] by (auto simp: V_def Inv_def)
    from password_credential_spec [OF good_Inv [OF g] pu c] have known: "password_of w (user_id u) c" by simp
    obtain m w1 where m: "run_state (revoke_tokens a PurposePasswordReset (user_id u)) w = (m, w1)"
      by (rule prod.exhaust)
    note rv = revoke_tokens_spec [OF good_Inv [OF g] plain_purposes(2) pu m]
    have t1: "\<exists>T. V w1 = (V w)\<lparr>db_tokens := T\<rparr>"
      using rv by (cases m) (auto intro: exI [of _ "db_tokens (V w)"])
    have g1: "good w1" using rv t1 by (auto intro: good_same_sessions_users [OF g])
    have p1: "plain_subjects w \<longrightarrow> plain_subjects w1"
      using revoke_tokens_subjects [OF good_Inv [OF g] _ plain_purposes(2) pu m] by blast
    have "good w' \<and> still w w' \<and> (\<exists>T. V w' = (V w)\<lparr>db_tokens := T\<rparr>) \<and>
      (plain_subjects w \<longrightarrow> plain_subjects w')"
    proof (cases m)
      case (Inl e)
      with run se q c m rv g1 t1 p1 show ?thesis by (auto simp: request_password_reset_def)
    next
      case (Inr x)
      obtain k w2 where k: "run_state (issue_token a PurposePasswordReset (user_id u)
          (st_reset_ttl (au_settings a))) w1 = (k, w2)" by (rule prod.exhaust)
      note it = issue_token_spec [OF good_Inv [OF g1] k]
      have t2: "\<exists>T. V w2 = (V w)\<lparr>db_tokens := T\<rparr>" using it t1 by (cases k) auto
      have st2: "still w w2" using rv it still_trans by blast
      have g2: "good w2" using it t1 t2 by (auto intro: good_same_sessions_users [OF g1])
      have p2: "plain_subjects w \<longrightarrow> plain_subjects w2"
        using issue_token_subjects [OF good_Inv [OF g1] _ _ k] pu p1 by blast
      have "calm w2 w'"
      proof (cases k)
        case (Inl e)
        with run se q c m Inr k show ?thesis by (auto simp: request_password_reset_def)
      next
        case tk: (Inr tk)
        have "run_state (send cx ((au_reset_message a u tk)\<lparr>msg_to := user_email u\<rparr>)) w2 = (r, w')"
          using run se q c m Inr k tk by (simp add: request_password_reset_def)
        then show ?thesis by (rule calmD [OF calm_send [OF se(1)]])
      qed
      with g2 st2 t2 p2 show ?thesis
        using good_calm calm_V calm_still still_trans plain_subjects_cong by metis
    qed
    with se u known show ?thesis by auto
  qed
qed

section \<open>Verifying an email\<close>

definition verify_tx :: "string \<Rightarrow> ('s, 'c, user) actE" where
  "verify_tx tk =
     bindE (consume_token a PurposeEmailVerification tk) (\<lambda>x. do {
         r \<leftarrow> on_db (users_get_by_id (au_store a) (tok_subject x));
         case r of
           Inl e \<Rightarrow> fail (if e = StoreNotFound then ErrInvalidToken else e)
         | Inr u \<Rightarrow>
             if user_email_verified u then ok u
             else do {
               t \<leftarrow> now a;
               let u' = u\<lparr>user_email_verified := True, user_updated_at := t\<rparr>;
               bindE (on_db (users_update (au_store a) u')) (\<lambda>_. ok u')
             }
       })"

definition verified_db :: "string \<Rightarrow> ('s, 'c) world \<Rightarrow> user \<Rightarrow> ('s, 'c) world \<Rightarrow> bool" where
  "verified_db tk w v w' \<longleftrightarrow> (\<exists>y t u. usable w PurposeEmailVerification tk t y \<and> token_spent y t w w' \<and>
     u \<in># db_users (V w) \<and> user_id u = tok_subject y \<and> user_id v = user_id u \<and> user_email v = user_email u \<and>
     user_email_verified v \<and>
     db_accounts (V w') = db_accounts (V w) \<and> db_credentials (V w') = db_credentials (V w) \<and>
     db_sessions (V w') = db_sessions (V w) \<and>
     db_users (V w') = (if user_email_verified u then db_users (V w)
       else upd_where (\<lambda>x. user_id x = user_id v) (set_user v) (db_users (V w))))"

lemma verify_tx_spec:
  assumes i: "Inv w" and run: "run_state (verify_tx tk) w = (r, w')"
  shows "Inv w' \<and> still w w' \<and> (case r of Inl _ \<Rightarrow> True | Inr v \<Rightarrow> verified_db tk w v w')"
proof -
  obtain c w1 where c: "run_state (consume_token a PurposeEmailVerification tk) w = (c, w1)"
    by (rule prod.exhaust)
  show ?thesis
  proof (cases c)
    case (Inl e)
    with run c consume_token_spec [OF i c] show ?thesis by (auto simp: verify_tx_def)
  next
    case (Inr x)
    from consume_token_usable [OF i c [unfolded Inr]] obtain y where
      y: "usable w PurposeEmailVerification tk (au_now a (w_clock w)) y"
        "x = use_token (au_now a (w_clock w)) y" and
      1: "Inv w1" "still w w1" "token_spent y (au_now a (w_clock w)) w w1"
        "V w1 = (V w)\<lparr>db_tokens := db_tokens (V w1)\<rparr>" by metis
    obtain q w2 where q: "run_state (on_db (users_get_by_id (au_store a) (tok_subject y))) w1 = (q, w2)"
      by (rule prod.exhaust)
    note rd = read_user [OF 1(1) q]
    show ?thesis
    proof (cases q)
      case (Inl e)
      with run c Inr y q rd 1 show ?thesis by (auto simp: verify_tx_def)
    next
      case ur: (Inr u)
      have vu: "db_users (V w1) = db_users (V w)" "db_accounts (V w1) = db_accounts (V w)"
        "db_credentials (V w1) = db_credentials (V w)" "db_sessions (V w1) = db_sessions (V w)"
        by (subst 1(4), simp)+
      with rd ur have u: "u \<in># db_users (V w)" "user_id u = tok_subject y" "w2 = w1"
        by (auto simp: got_def)
      show ?thesis
      proof (cases "user_email_verified u")
        case True
        with run c Inr y q ur u have "r = Inr u" "w' = w1" by (auto simp: verify_tx_def)
        moreover have "verified_db tk w u w1"
          unfolding verified_db_def
          using y(1) 1 u True by (intro exI [of _ y] exI [of _ "au_now a (w_clock w)"] exI [of _ u]) (simp add: vu)
        ultimately show ?thesis using 1 by simp
      next
        case False
        obtain t w3 where t: "run_state (now a) w1 = (t, w3)" by (rule prod.exhaust)
        then have "calm w1 w3" by (auto elim!: now_E)
        then have 3: "Inv w3" "V w3 = V w1" "still w1 w3" using 1 calm_V calm_still by blast+
        let ?v = "u\<lparr>user_email_verified := True, user_updated_at := t\<rparr>"
        obtain m w4 where m: "run_state (on_db (users_update (au_store a) ?v)) w3 = (m, w4)" by (rule prod.exhaust)
        have 4: "Inv w4 \<and> still w3 w4 \<and> (case m of Inl _ \<Rightarrow> True | Inr _ \<Rightarrow> V w4 = (V w3)\<lparr>db_users :=
            upd_where (\<lambda>x. user_id x = user_id ?v) (set_user ?v) (db_users (V w3))\<rparr>)"
          by (rule on_db_write [OF m])
            (use users_update [OF Inv_inv [OF 3(1)]] in \<open>fastforce simp: V_def split: sum.splits\<close>)
        have st: "still w w4" using 1 3 4 still_trans by blast
        have rr: "r = (case m of Inl e \<Rightarrow> Inl e | Inr _ \<Rightarrow> Inr ?v)" "w' = w4"
          using run c Inr y q ur u False t m by (auto simp: verify_tx_def Let_def split: sum.splits)
        have "verified_db tk w ?v w4" if "m = Inr uu" for uu
        proof -
          have v4: "V w4 = (V w1)\<lparr>db_users := upd_where (\<lambda>x. user_id x = user_id ?v) (set_user ?v) (db_users (V w1))\<rparr>"
            using 4 that 3 by simp
          then show ?thesis
            unfolding verified_db_def token_spent_def
            using y(1) 1(3) u False vu
            by (intro exI [of _ y] exI [of _ "au_now a (w_clock w)"] exI [of _ u]) (simp add: token_spent_def)
        qed
        with rr 4 st show ?thesis by (cases m) auto
      qed
    qed
  qed
qed

lemma verify_email_spec:
  assumes g: "good w" and cx: "plain_call cx" and run: "run_state (verify_email a cx tk) w = (r, w')"
  shows "good w' \<and> (case r of Inl _ \<Rightarrow> V w' = V w | Inr v \<Rightarrow> verified_db tk w v w')"
proof -
  obtain q w1 where q: "run_state (transaction a cx (\<lambda>cx. verify_tx tk)) w = (q, w1)" by (rule prod.exhaust)
  have tx: "Inv w1 \<and> still w w1 \<and> (case q of Inl _ \<Rightarrow> V w1 = V w | Inr v \<Rightarrow> verified_db tk w v w1)"
    by (rule transaction_spec [OF _ good_Inv [OF g] q])
      (use cx verify_tx_spec [OF good_Inv [OF g]] in \<open>auto simp: plain_call_def\<close>)
  show ?thesis
  proof (cases q)
    case (Inl e)
    from run q Inl have "r = Inl e" "w' = w1" by (simp_all add: verify_email_def verify_tx_def)
    with tx Inl g show ?thesis by (auto intro: good_grow [OF g])
  next
    case (Inr v)
    obtain y w2 where y: "run_state (invalidate_user a cx (user_id v)) w1 = (y, w2)" by (rule prod.exhaust)
    obtain z w3 where z: "run_state (publish a cx EventEmailVerified (user_id v) (PUser v)) w2 = (z, w3)"
      by (rule prod.exhaust)
    from run q Inr y z have r: "r = Inr v" "w' = w3" by (simp_all add: verify_email_def verify_tx_def)
    from tx Inr have d: "verified_db tk w v w1" by simp
    have iv: "calm w1 w2 \<and> cv w2 (user_key (user_id v)) = None"
      using calm_invalidate_user [OF _ y] cx by (simp add: plain_call_def)
    then have v2: "V w2 = V w1" "Inv w2" using tx calm_V by blast+
    have "coherent w2"
    proof (rule coherent_step)
      show "coherent w" using g by (simp add: good_def)
      show "still w w2" using tx iv calm_still still_trans by blast
      fix s assume "s \<in># db_sessions (V w)"
      moreover have "db_sessions (V w1) = db_sessions (V w)" using d unfolding verified_db_def by blast
      ultimately show "s \<in># db_sessions (V w2) \<or> lapsed w2 s \<or> cv w2 (session_key (sess_token_hash s)) = None"
        using v2 by simp
    next
      fix x assume x: "x \<in># db_users (V w)"
      show "x \<in># db_users (V w2) \<or> cv w2 (user_key (user_id x)) = None"
      proof (cases "user_id x = user_id v")
        case True
        with iv show ?thesis by simp
      next
        case False
        from d obtain b where "db_users (V w1) = db_users (V w) \<or>
          db_users (V w1) = upd_where (\<lambda>x. user_id x = user_id v) b (db_users (V w))"
          unfolding verified_db_def by (metis (no_types, lifting))
        with x False v2 show ?thesis by (auto simp: upd_where_def intro!: image_eqI [of _ _ x])
      qed
    qed
    then have "good w2" using v2 by (simp add: good_def)
    with calmD [OF calm_publish z] have "good w3" "V w3 = V w1" using good_calm calm_V v2 by metis+
    with r d show ?thesis by (auto simp: verified_db_def usable_def token_spent_def)
  qed
qed

section \<open>Purging\<close>

lemma purge_expired_spec:
  assumes g: "good w" and run: "run_state (purge_expired a) w = (r, w')"
  shows "good w' \<and> (\<forall>n m. r = (n, m, []) \<longrightarrow> (let t = au_now a (w_clock w) in
    n = int (size {#x \<in># db_sessions (V w). sess_expires_at x < t#}) \<and>
    m = int (size {#x \<in># db_tokens (V w). tok_expires_at x < t#}) \<and>
    V w' = (V w)\<lparr>db_sessions := {#x \<in># db_sessions (V w). \<not> sess_expires_at x < t#},
                 db_tokens := {#x \<in># db_tokens (V w). \<not> tok_expires_at x < t#}\<rparr>))"
proof -
  define t where "t = au_now a (w_clock w)"
  define w1 where "w1 = w\<lparr>w_clock := Suc (w_clock w)\<rparr>"
  have n: "run_state (now a) w = (t, w1)" and c1: "calm w w1"
    using run_now calmD [OF calm_now run_now] by (auto simp: t_def w1_def)
  then have v1: "V w1 = V w" "Inv w1" using calm_V good_Inv [OF g] by blast+
  obtain p w2 where p: "run_state (on_db (sessions_delete_expired (au_store a) t)) w1 = (p, w2)" by (rule prod.exhaust)
  obtain q w3 where q: "run_state (on_db (tokens_delete_expired (au_store a) t)) w2 = (q, w3)" by (rule prod.exhaust)
  have r: "r = (count_of p, count_of q, join_errors p q)" "w' = w3"
    using run n p q by (auto simp: purge_expired_def)
  from p obtain s2 where s2: "run_state (sessions_delete_expired (au_store a) t) (w_db w1) = (p, s2)"
    "w2 = w1\<lparr>w_db := s2\<rparr>" by (rule on_db_E)
  note l2 = sessions_delete_expired [OF Inv_inv [OF v1(2)] s2(1), folded V_def, unfolded v1(1)]
  from q obtain s3 where s3: "run_state (tokens_delete_expired (au_store a) t) (w_db w2) = (q, s3)"
    "w3 = w2\<lparr>w_db := s3\<rparr>" by (rule on_db_E)
  have i2: "Inv w2" using l2 s2 by simp
  note l3 = tokens_delete_expired [OF Inv_inv [OF i2] s3(1), folded V_def]
  have "still w1 w3" unfolding s3(2) s2(2) by (simp add: still_def cv_def)
  with c1 have st: "still w w3" by (blast intro: calm_still still_trans)
  have st2: "w_clock w3 = Suc (w_clock w)" using s2(2) s3(2) by (simp add: w1_def)
  have ss: "db_sessions (V w3) = db_sessions (V w) \<or>
    db_sessions (V w3) = {#x \<in># db_sessions (V w). \<not> sess_expires_at x < t#}"
    and uu: "db_users (V w3) = db_users (V w)"
    using l2 l3 s2(2) s3(2) by (cases p; cases q; auto)+
  have "coherent w3"
  proof (rule coherent_step [OF _ st])
    show "coherent w" using g by (simp add: good_def)
    fix s assume s: "s \<in># db_sessions (V w)"
    show "s \<in># db_sessions (V w3) \<or> lapsed w3 s \<or> cv w3 (session_key (sess_token_hash s)) = None"
    proof (cases "sess_expires_at s < t")
      case True
      then have "lapsed w3 s" unfolding lapsed_def t_def using st2 by auto
      then show ?thesis by simp
    next
      case False
      with s ss show ?thesis by auto
    qed
  qed (use uu in simp)
  moreover have "Inv w3" using l3 s3 by simp
  ultimately have "good w3" by (simp add: good_def)
  moreover have "let t = au_now a (w_clock w) in
    n = int (size {#x \<in># db_sessions (V w). sess_expires_at x < t#}) \<and>
    m = int (size {#x \<in># db_tokens (V w). tok_expires_at x < t#}) \<and>
    V w' = (V w)\<lparr>db_sessions := {#x \<in># db_sessions (V w). \<not> sess_expires_at x < t#},
                 db_tokens := {#x \<in># db_tokens (V w). \<not> tok_expires_at x < t#}\<rparr>" if "r = (n, m, [])" for n m
    using that r l2 l3 s2(2) s3(2)
    by (cases p; cases q) (auto simp: join_errors_def count_of_def t_def [symmetric])
  ultimately show ?thesis using r by blast
qed

lemma purge_expired_tokens:
  assumes i: "Inv w" and run: "run_state (purge_expired a) w = (r, w')"
  shows "db_tokens (V w') \<subseteq># db_tokens (V w)"
proof -
  obtain t w1 where n: "run_state (now a) w = (t, w1)" by (rule prod.exhaust)
  then have v1: "V w1 = V w" "Inv w1" using calm_V i by (auto elim!: now_E)
  obtain p w2 where p: "run_state (on_db (sessions_delete_expired (au_store a) t)) w1 = (p, w2)" by (rule prod.exhaust)
  obtain q w3 where q: "run_state (on_db (tokens_delete_expired (au_store a) t)) w2 = (q, w3)" by (rule prod.exhaust)
  have r: "w' = w3" using run n p q by (auto simp: purge_expired_def)
  from p obtain s2 where s2: "run_state (sessions_delete_expired (au_store a) t) (w_db w1) = (p, s2)"
    "w2 = w1\<lparr>w_db := s2\<rparr>" by (rule on_db_E)
  note l2 = sessions_delete_expired [OF Inv_inv [OF v1(2)] s2(1), folded V_def, unfolded v1(1)]
  from q obtain s3 where s3: "run_state (tokens_delete_expired (au_store a) t) (w_db w2) = (q, s3)"
    "w3 = w2\<lparr>w_db := s3\<rparr>" by (rule on_db_E)
  have i2: "Inv w2" using l2 s2 by simp
  note l3 = tokens_delete_expired [OF Inv_inv [OF i2] s3(1), folded V_def]
  from l2 l3 r s2(2) s3(2) show ?thesis by (cases p; cases q) auto
qed

end

end
