(* ===== verification/Engine_Steps.thy ===== *)
theory Engine_Steps
  imports Recovery_Correct
begin

text \<open>
  The engine as a state machine: a step is one call of its interface, from first to last
  line, or time passing. Every state that calls can reach from a good one is good: the store
  satisfies its invariant and the cache is coherent with it.

  Calls are taken one after the other. Identifiers of users that a caller passes to
  \<open>RevokeUserSessions\<close>, \<open>ChangePassword\<close> and, as the subject of a reset token, to \<open>IssueToken\<close>
  are plain, as the ones the engine generates are; a context that is passed is neither
  cancelled nor inside a transaction.
\<close>

section \<open>Steps\<close>

inductive engine_step :: "('s, 'c) auth \<Rightarrow> ('s, 'c) world \<Rightarrow> ('s, 'c) world \<Rightarrow> bool" for a where
  step_sign_up: "plain_call cx \<Longrightarrow> run_state (sign_up a cx up) w = (r1, w') \<Longrightarrow> engine_step a w w'"
| step_sign_in: "plain_call cx \<Longrightarrow> run_state (sign_in a cx si) w = (r2, w') \<Longrightarrow> engine_step a w w'"
| step_sign_out: "plain_call cx \<Longrightarrow> run_state (sign_out a cx so) w = (r3, w') \<Longrightarrow> engine_step a w w'"
| step_get_user: "plain_call cx \<Longrightarrow> run_state (get_user a cx i) w = (r4, w') \<Longrightarrow> engine_step a w w'"
| step_create_session: "plain_call cx \<Longrightarrow> run_state (create_session a cx i opts) w = (r5, w') \<Longrightarrow>
    engine_step a w w'"
| step_get_session: "plain_call cx \<Longrightarrow> run_state (get_session a cx tk) w = (r6, w') \<Longrightarrow> engine_step a w w'"
| step_revoke_session: "plain_call cx \<Longrightarrow> run_state (revoke_session_by_id a cx i) w = (r7, w') \<Longrightarrow>
    engine_step a w w'"
| step_revoke_user_sessions: "plain_call cx \<Longrightarrow> plain_string i \<Longrightarrow>
    run_state (revoke_user_sessions a cx i ex) w = (r7, w') \<Longrightarrow> engine_step a w w'"
| step_change_password: "plain_call cx \<Longrightarrow> plain_string (chg_user_id ci) \<Longrightarrow>
    run_state (change_password a cx ci) w = (r7, w') \<Longrightarrow> engine_step a w w'"
| step_request_reset: "plain_call cx \<Longrightarrow> run_state (request_password_reset a cx i) w = (r7, w') \<Longrightarrow>
    engine_step a w w'"
| step_reset_password: "plain_call cx \<Longrightarrow> run_state (reset_password a cx ri) w = (r7, w') \<Longrightarrow>
    engine_step a w w'"
| step_request_verification: "plain_call cx \<Longrightarrow> run_state (request_email_verification a cx i) w = (r7, w') \<Longrightarrow>
    engine_step a w w'"
| step_verify_email: "plain_call cx \<Longrightarrow> run_state (verify_email a cx tk) w = (r8, w') \<Longrightarrow> engine_step a w w'"
| step_issue_token: "plain_string sub \<Longrightarrow> run_state (issue_token a p sub ttl) w = (r9, w') \<Longrightarrow>
    engine_step a w w'"
| step_consume_token: "run_state (consume_token a p tk) w = (r10, w') \<Longrightarrow> engine_step a w w'"
| step_revoke_tokens: "plain_string p \<Longrightarrow> plain_string sub \<Longrightarrow>
    run_state (revoke_tokens a p sub) w = (r7, w') \<Longrightarrow> engine_step a w w'"
| step_purge: "run_state (purge_expired a) w = (r11, w') \<Longrightarrow> engine_step a w w'"
| step_wait: "w_clock w \<le> n \<Longrightarrow> w' = w\<lparr>w_clock := n\<rparr> \<Longrightarrow> engine_step a w w'"

inductive reachable :: "('s, 'c) auth \<Rightarrow> ('s, 'c) world \<Rightarrow> ('s, 'c) world \<Rightarrow> bool" for a w0 where
  start: "reachable a w0 w0"
| step: "reachable a w0 w \<Longrightarrow> engine_step a w w' \<Longrightarrow> reachable a w0 w'"

section \<open>Every step keeps the engine good\<close>

context engine
begin

definition sound :: "('s, 'c) world \<Rightarrow> bool" where
  "sound w \<longleftrightarrow> good w \<and> plain_subjects w"

lemma sound_same: "good w' \<Longrightarrow> V w' = V w \<Longrightarrow> sound w \<Longrightarrow> sound w'"
  by (simp add: sound_def plain_subjects_def)

lemma sound_tokens: "good w' \<Longrightarrow> db_tokens (V w') = db_tokens (V w) \<Longrightarrow> sound w \<Longrightarrow> sound w'"
  by (simp add: sound_def plain_subjects_def)

lemma sound_spent: "good w' \<Longrightarrow> token_spent y t w w' \<Longrightarrow> sound w \<Longrightarrow> sound w'"
  by (auto simp: sound_def plain_subjects_def token_spent_def upd_where_def)

lemma sound_good: "sound w \<Longrightarrow> good w" "sound w \<Longrightarrow> plain_subjects w" "sound w \<Longrightarrow> Inv w"
  by (auto simp: sound_def good_def)

lemma sound_sign_up: "sound w \<Longrightarrow> plain_call cx \<Longrightarrow> run_state (sign_up a cx up) w = (r, w') \<Longrightarrow> sound w'"
  using sign_up_spec [of w cx up r w'] by (cases r) (auto simp: sound_def plain_subjects_def)

lemma sound_sign_in: "sound w \<Longrightarrow> plain_call cx \<Longrightarrow> run_state (sign_in a cx si) w = (r, w') \<Longrightarrow> sound w'"
  using sign_in_spec [of w cx si r w'] by (cases r) (auto simp: signed_in_def sound_def plain_subjects_def)

lemma sound_sign_out: "sound w \<Longrightarrow> plain_call cx \<Longrightarrow> run_state (sign_out a cx so) w = (r, w') \<Longrightarrow> sound w'"
  using sign_out_spec [of w cx so r w'] by (cases r) (auto simp: plain_call_def sound_def plain_subjects_def)

lemma sound_create_session:
  "sound w \<Longrightarrow> plain_call cx \<Longrightarrow> run_state (create_session a cx i opts) w = (r, w') \<Longrightarrow> sound w'"
  using create_session_spec [of w cx i opts r w'] by (cases r) (auto simp: sound_def plain_subjects_def)

lemma sound_revoke_session:
  "sound w \<Longrightarrow> plain_call cx \<Longrightarrow> run_state (revoke_session_by_id a cx i) w = (r, w') \<Longrightarrow> sound w'"
  using revoke_session_by_id_spec [of w cx i r w']
  by (cases r) (auto simp: plain_call_def sound_def plain_subjects_def)

lemma sound_revoke_user_sessions:
  "sound w \<Longrightarrow> plain_call cx \<Longrightarrow> plain_string i \<Longrightarrow>
   run_state (revoke_user_sessions a cx i ex) w = (r, w') \<Longrightarrow> sound w'"
  using revoke_user_sessions_spec [of w cx i ex r w']
  by (cases r) (auto simp: revoked_exactly_def sound_def plain_subjects_def)

lemma sound_change_password:
  "sound w \<Longrightarrow> plain_call cx \<Longrightarrow> plain_string (chg_user_id ci) \<Longrightarrow>
   run_state (change_password a cx ci) w = (r, w') \<Longrightarrow> sound w'"
  using change_password_spec [of w cx ci r w'] sound_tokens [of w' w] sound_same [of w' w]
  by (cases r) (auto dest: sound_good)

lemma sound_request_reset:
  "sound w \<Longrightarrow> run_state (request_password_reset a cx i) w = (r, w') \<Longrightarrow> sound w'"
  using request_password_reset_spec [of w cx i r w'] by (auto simp: sound_def)

lemma sound_request_verification:
  "sound w \<Longrightarrow> run_state (request_email_verification a cx i) w = (r, w') \<Longrightarrow> sound w'"
  using request_email_verification_spec [of w cx i r w'] by (auto simp: sound_def)

lemma sound_reset_password:
  "sound w \<Longrightarrow> plain_call cx \<Longrightarrow> run_state (reset_password a cx ri) w = (r, w') \<Longrightarrow> sound w'"
  using reset_password_spec [of w cx ri r w'] sound_same [of w' w] sound_spent [of w' _ _ w]
  by (cases r) (auto simp: reset_done_def dest: sound_good)

lemma sound_verify_email:
  "sound w \<Longrightarrow> plain_call cx \<Longrightarrow> run_state (verify_email a cx tk) w = (r, w') \<Longrightarrow> sound w'"
  using verify_email_spec [of w cx tk r w'] sound_same [of w' w] sound_spent [of w' _ _ w]
  by (cases r) (auto simp: verified_db_def dest: sound_good)

lemma sound_get_user:
  "sound w \<Longrightarrow> run_state (get_user a cx i) w = (r, w') \<Longrightarrow> sound w'"
  using get_user_spec [of w cx i r w'] sound_same [of w' w] same_db_V by (auto dest: sound_good)

lemma sound_get_session:
  "sound w \<Longrightarrow> plain_call cx \<Longrightarrow> run_state (get_session a cx tk) w = (r, w') \<Longrightarrow> sound w'"
  using get_session_spec [of w cx tk r w'] sound_same [of w' w] same_db_V
  by (auto simp: plain_call_def dest: sound_good)

lemma sound_issue_token:
  assumes s: "sound w" and p: "plain_string sub" and run: "run_state (issue_token a p sub ttl) w = (r, w')"
  shows "sound w'"
proof -
  have i: "Inv w" and g: "good w" and ps: "plain_subjects w" using s sound_good by blast+
  note it = issue_token_spec [OF i run]
  then have "good w'" by (cases r) (auto intro!: good_grow [OF g])
  moreover have "plain_subjects w'" using issue_token_subjects [OF i ps _ run] p by simp
  ultimately show ?thesis by (simp add: sound_def)
qed

lemma sound_consume_token:
  assumes s: "sound w" and run: "run_state (consume_token a p tk) w = (r, w')"
  shows "sound w'"
proof -
  have i: "Inv w" and g: "good w" using s sound_good by blast+
  note ct = consume_token_spec [OF i run]
  then have g': "good w'" by (cases r) (auto intro!: good_grow [OF g])
  show ?thesis
  proof (cases r)
    case (Inl e)
    with ct sound_same [OF g' _ s] show ?thesis by simp
  next
    case (Inr x)
    with consume_token_usable [OF i run [unfolded Inr]] sound_spent [OF g' _ s] show ?thesis by metis
  qed
qed

lemma sound_revoke_tokens:
  assumes s: "sound w" and p: "plain_string p" "plain_string sub"
    and run: "run_state (revoke_tokens a p sub) w = (r, w')"
  shows "sound w'"
proof -
  have i: "Inv w" and g: "good w" and ps: "plain_subjects w" using s sound_good by blast+
  have "good w'" using revoke_tokens_spec [OF i p run] by (cases r) (auto intro!: good_grow [OF g])
  with revoke_tokens_subjects [OF i ps p run] show ?thesis by (simp add: sound_def)
qed

lemma sound_purge:
  assumes s: "sound w" and run: "run_state (purge_expired a) w = (r, w')"
  shows "sound w'"
  using purge_expired_spec [OF sound_good(1) [OF s] run] purge_expired_tokens [OF sound_good(3) [OF s] run] s
  by (auto simp: sound_def intro: plain_subjects_sub)

lemma sound_wait: "sound w \<Longrightarrow> w_clock w \<le> n \<Longrightarrow> sound (w\<lparr>w_clock := n\<rparr>)"
proof -
  assume s: "sound w" and "w_clock w \<le> n"
  then have c: "calm w (w\<lparr>w_clock := n\<rparr>)" by (simp add: calm_def still_def cv_def)
  with s have "good (w\<lparr>w_clock := n\<rparr>)" using sound_good good_calm by blast
  moreover have "V (w\<lparr>w_clock := n\<rparr>) = V w" by (simp add: V_def)
  ultimately show ?thesis using sound_same s by blast
qed

lemma engine_step_sound:
  assumes st: "engine_step a w w'" and s: "sound w"
  shows "sound w'"
  using st
proof (cases rule: engine_step.cases)
  case step_sign_up
  with sound_sign_up [OF s] show ?thesis by blast
next
  case step_sign_in
  with sound_sign_in [OF s] show ?thesis by blast
next
  case step_sign_out
  with sound_sign_out [OF s] show ?thesis by blast
next
  case step_get_user
  with sound_get_user [OF s] show ?thesis by blast
next
  case step_create_session
  with sound_create_session [OF s] show ?thesis by blast
next
  case step_get_session
  with sound_get_session [OF s] show ?thesis by blast
next
  case step_revoke_session
  with sound_revoke_session [OF s] show ?thesis by blast
next
  case step_revoke_user_sessions
  with sound_revoke_user_sessions [OF s] show ?thesis by blast
next
  case step_change_password
  with sound_change_password [OF s] show ?thesis by blast
next
  case step_request_reset
  with sound_request_reset [OF s] show ?thesis by blast
next
  case step_reset_password
  with sound_reset_password [OF s] show ?thesis by blast
next
  case step_request_verification
  with sound_request_verification [OF s] show ?thesis by blast
next
  case step_verify_email
  with sound_verify_email [OF s] show ?thesis by blast
next
  case step_issue_token
  with sound_issue_token [OF s] show ?thesis by blast
next
  case step_consume_token
  with sound_consume_token [OF s] show ?thesis by blast
next
  case step_revoke_tokens
  with sound_revoke_tokens [OF s] show ?thesis by blast
next
  case step_purge
  with sound_purge [OF s] show ?thesis by blast
next
  case (step_wait n)
  with sound_wait [OF s] show ?thesis by simp
qed

lemma reachable_sound: "reachable a w0 w \<Longrightarrow> sound w0 \<Longrightarrow> sound w"
  by (induction rule: reachable.induct) (simp, rule engine_step_sound)

end

end
