(* ===== verification/Memory_Engine.thy ===== *)
theory Memory_Engine
  imports Engine_Steps
begin

text \<open>
  The engine on the in-memory adapter and the in-memory cache, with the recording email
  sender of \<open>email/memory\<close>: every law of the locale \<open>engine\<close> holds of it, so what is proved of
  the workflows holds of this engine, from the world right after \<open>RegisterSchema\<close> on.
\<close>

section \<open>The recording sender (email/memory/memory.go)\<close>

definition memory_send :: "('s, 'c) sender" where
  "memory_send cx m =
     (case ctx_err cx of
        Some e \<Rightarrow> fail e
      | None \<Rightarrow> State (\<lambda>w. (Inr (), w\<lparr>w_outbox := w_outbox w @ [m]\<rparr>)))"

definition memory_messages :: "('s, 'c) world \<Rightarrow> message list" where
  "memory_messages w = w_outbox w"

definition memory_last :: "('s, 'c) world \<Rightarrow> message option" where
  "memory_last w = (if length (w_outbox w) = 0 then None else Some (w_outbox w ! (length (w_outbox w) - 1)))"

section \<open>Engines on memory\<close>

text \<open>
  The engines the statements are about: store and cache in memory, benign hooks, handlers,
  hasher and sender, and a clock that does not go back.
\<close>

definition on_memory :: "runtime \<Rightarrow> (mem, mcache) auth \<Rightarrow> bool" where
  "on_memory rt a \<longleftrightarrow> au_store a = mem_store rt \<and> au_rt a = rt \<and>
     (au_cache a = None \<or> (\<exists>cn. au_cache a = Some (memory_cache cn))) \<and>
     benign a \<and> clock_ok (au_now a)"

lemma on_memory_engine: "on_memory rt a \<Longrightarrow> engine a (mem_store_inv rt) (mem_store_view rt) mc_view"
  unfolding on_memory_def engine_def engine_axioms_def
  using memstore.store_contract_axioms mcache.reliable_cache_axioms by auto

lemma on_memory_reliable:
  "on_memory rt a \<Longrightarrow> reliable_store (au_store a) (mem_store_inv rt) (mem_store_view rt) plain_string"
  using memstore.reliable_store_axioms by (simp add: on_memory_def)

text \<open>What is stored in a world, and the world being sound.\<close>

definition stored :: "runtime \<Rightarrow> (mem, mcache) world \<Rightarrow> db" where
  "stored rt w = mem_store_view rt (w_db w)"

definition in_order :: "runtime \<Rightarrow> (mem, mcache) auth \<Rightarrow> (mem, mcache) world \<Rightarrow> bool" where
  "in_order rt a w \<longleftrightarrow> engine.sound a (mem_store_inv rt) (mem_store_view rt) mc_view w"

definition start_world :: "mem \<Rightarrow> (mem, mcache) world" where
  "start_world s = \<lparr>w_db = s, w_cache = mcache_new, w_clock = 0, w_draws = 0, w_dummy = None,
     w_events = [], w_outbox = [], w_log = []\<rparr>"

section \<open>A standard engine\<close>

text \<open>
  A hasher whose answer depends on its arguments only, and a clock given by the time that
  passes between two readings.
\<close>

definition plain_hasher :: "(string \<Rightarrow> err + string) \<Rightarrow> (string \<Rightarrow> string \<Rightarrow> err + unit) \<Rightarrow> ('s, 'c) hasher" where
  "plain_hasher hf vf = \<lparr>hash_password = (\<lambda>cx p. State (\<lambda>w. (hf p, w))),
     verify_hash = (\<lambda>cx h p. State (\<lambda>w. (vf h p, w)))\<rparr>"

fun passing :: "(nat \<Rightarrow> nat) \<Rightarrow> nat \<Rightarrow> time" where
  "passing d 0 = 1 + int (d 0)"
| "passing d (Suc n) = passing d n + int (d (Suc n))"

definition memory_config ::
  "runtime \<Rightarrow> (nat \<Rightarrow> time) option \<Rightarrow> (string \<Rightarrow> err + string) \<Rightarrow> (string \<Rightarrow> string \<Rightarrow> err + unit) \<Rightarrow>
   (nat \<Rightarrow> nat) \<Rightarrow> settings \<Rightarrow> (mem, mcache) config" where
  "memory_config rt cn hf vf d s = \<lparr>cf_adapter = Some (memory_adapter rt), cf_cache = map_option memory_cache cn,
     cf_email = Some memory_send, cf_hasher = Some (plain_hasher hf vf), cf_now = Some (passing d),
     cf_settings = s, cf_verification_message = None, cf_reset_message = None\<rparr>"

definition memory_auth ::
  "runtime \<Rightarrow> (nat \<Rightarrow> nat \<Rightarrow> byte) \<Rightarrow> (nat \<Rightarrow> time) option \<Rightarrow> (string \<Rightarrow> err + string) \<Rightarrow>
   (string \<Rightarrow> string \<Rightarrow> err + unit) \<Rightarrow> (nat \<Rightarrow> nat) \<Rightarrow> settings \<Rightarrow> (mem, mcache) auth" where
  "memory_auth rt en cn hf vf d s = \<lparr>au_store = mem_store rt, au_cache = map_option memory_cache cn,
     au_email = Some memory_send, au_hasher = plain_hasher hf vf, au_now = passing d, au_entropy = en,
     au_rt = rt, au_settings = s, au_verification_message = default_verification_message,
     au_reset_message = default_reset_message, au_hooks = no_hooks, au_events = new_events\<rparr>"

text \<open>It is what \<open>New\<close> makes of that configuration.\<close>

lemma auth_new_memory:
  assumes "with_defaults dh dn (memory_config rt cn hf vf d s) = Inr c"
  shows "auth_new rt en dh dn (memory_config rt cn hf vf d s) =
    Inr (memory_auth rt en cn hf vf d (cf_settings c))"
proof -
  from assms have c: "cf_adapter c = Some (memory_adapter rt)" "cf_cache c = map_option memory_cache cn"
    "cf_email c = Some memory_send" "cf_hasher c = Some (plain_hasher hf vf)" "cf_now c = Some (passing d)"
    "cf_verification_message c = Some default_verification_message"
    "cf_reset_message c = Some default_reset_message"
    by (auto simp: with_defaults_def memory_config_def Let_def split: if_splits)
  show ?thesis by (simp add: auth_new_def assms c memory_auth_def mem_store_def)
qed

lemma passing_pos: "0 < passing d n"
  by (induction n) auto

lemma passing_mono: "i \<le> j \<Longrightarrow> passing d i \<le> passing d j"
  by (rule lift_Suc_mono_le) simp_all

lemma clock_ok_passing: "clock_ok (passing d)"
  by (simp add: clock_ok_def passing_pos passing_mono)

lemma quiet_memory_send: "quiet (memory_send cx m)"
  by (auto simp: quiet_def memory_send_def split: option.splits)

lemma quiet_plain_hasher:
  "quiet (hash_password (plain_hasher hf vf) cx p)" "quiet (verify_hash (plain_hasher hf vf) cx h p)"
  by (auto simp: quiet_def plain_hasher_def)

lemma memory_auth_ok: "on_memory rt (memory_auth rt en cn hf vf d s)"
  by (cases cn)
    (auto simp: on_memory_def memory_auth_def benign_def clock_ok_passing quiet_memory_send quiet_plain_hasher)

interpretation memengine: engine "memory_auth rt en cn hf vf d s" "mem_store_inv rt" "mem_store_view rt" mc_view
  for rt en cn hf vf d s
  by (rule on_memory_engine [OF memory_auth_ok])

section \<open>The start\<close>

lemma start_in_order:
  assumes e: "on_memory rt a"
    and s: "schema_keyed s" "core_ready s" "validate s = Inr ()"
      "run_state (mem_register_schema s) mem_new = (r, m)"
  shows "in_order rt a (start_world m) \<and> stored rt (start_world m) = db_empty"
proof -
  note en = on_memory_engine [OF e]
  have fresh: "mem_store_inv rt m" "mem_store_view rt m = db_empty"
    using mem_store_fresh [OF s] by blast+
  have v: "engine.V (mem_store_view rt) (start_world m) = db_empty"
    by (simp add: engine.V_def [OF en] start_world_def fresh)
  have "engine.cv a mc_view (start_world m) = Map.empty"
    by (auto simp: engine.cv_def [OF en] start_world_def mc_view_def mcache_new_def fun_eq_iff)
  then have "in_order rt a (start_world m)"
    unfolding in_order_def engine.sound_def [OF en] engine.good_def [OF en] engine.coherent_def [OF en]
      engine.plain_subjects_def [OF en] engine.Inv_def [OF en] v
    using fresh by (simp add: db_empty_def start_world_def)
  with fresh show ?thesis by (simp add: stored_def start_world_def)
qed

lemma reachable_in_order:
  "on_memory rt a \<Longrightarrow> in_order rt a w0 \<Longrightarrow> reachable a w0 w \<Longrightarrow> in_order rt a w"
  unfolding in_order_def by (rule engine.reachable_sound [OF on_memory_engine])

end
