(* ===== verification/Samples.thy ===== *)
theory Samples
  imports Memory_Engine
begin

text \<open>A concrete engine on memory, with which statements about the workflows are instantiated.\<close>

definition sample_runtime :: runtime where
  "sample_runtime = \<lparr>map_order = (\<lambda>ks. [0..<length ks]), rfc3339nano = (\<lambda>_. None), rfc3339 = (\<lambda>_. None),
     show_time = (\<lambda>_. ''time''), sha256 = map (\<lambda>c. of_nat (of_char c)),
     parse_address = (\<lambda>s. if CHR ''@'' \<in> set s then Some ([], s) else None), show_float = (\<lambda>_ _. []),
     format_time = (\<lambda>_. []), read_time = (\<lambda>_. None)\<rparr>"

text \<open>The draws of the sample entropy source differ in every byte.\<close>

definition sample_entropy :: "nat \<Rightarrow> nat \<Rightarrow> byte" where
  "sample_entropy n i = of_nat n"

definition sample_settings :: settings where
  "sample_settings = \<lparr>st_session_ttl = hour, st_session_cache_ttl = minute, st_user_cache_ttl = minute,
     st_password_min = 4, st_password_max = 16, st_verification_required = False,
     st_send_on_sign_up = False, st_verification_ttl = hour, st_reset_ttl = hour\<rparr>"

definition sample_verify :: "string \<Rightarrow> string \<Rightarrow> err + unit" where
  "sample_verify h p = (if h = p then Inr () else Inl PasswordMismatch)"

definition sample_auth :: "(mem, mcache) auth" where
  "sample_auth = memory_auth sample_runtime sample_entropy (Some (passing (\<lambda>_. 1))) Inr sample_verify
     (\<lambda>_. 1) sample_settings"

definition sample_schema :: schema where
  "sample_schema = (case default_core_schema of Inl _ \<Rightarrow> [] | Inr s \<Rightarrow> s)"

definition sample_start :: "(mem, mcache) world" where
  "sample_start = start_world (snd (run_state (mem_register_schema sample_schema) mem_new))"

definition sample_sign_up :: sign_up_input where
  "sample_sign_up = \<lparr>up_email = ''A@b'', up_password = ''secret'',
     up_session = \<lparr>opt_ip_address = [], opt_user_agent = []\<rparr>\<rparr>"

text \<open>The schema and the models in it, evaluated once.\<close>

lemma sample_schema_eq:
  "sample_schema = [(ModelUsers, user_model), (ModelAccounts, account_model),
     (ModelCredentials, credential_model), (ModelSessions, session_model),
     (ModelVerifications, verification_model)] \<and>
   validate sample_schema = Inr () \<and> clone_schema sample_schema = sample_schema"
  by code_simp

lemma sample_primary_keys [simp]:
  "m_primary_key user_model = ''id''" "m_primary_key account_model = ''id''"
  "m_primary_key credential_model = ''id''" "m_primary_key session_model = ''id''"
  "m_primary_key verification_model = ''id''"
  by code_simp+

lemma sample_map_of:
  "map_of sample_schema ModelUsers = Some user_model"
  "map_of sample_schema ModelAccounts = Some account_model"
  "map_of sample_schema ModelCredentials = Some credential_model"
  "map_of sample_schema ModelSessions = Some session_model"
  "map_of sample_schema ModelVerifications = Some verification_model"
  by (simp_all add: conjunct1 [OF sample_schema_eq])

lemma sample_names:
  "map fst sample_schema = [ModelUsers, ModelAccounts, ModelCredentials, ModelSessions, ModelVerifications]"
  by (simp add: conjunct1 [OF sample_schema_eq])

text \<open>An adapter with that schema and given tables.\<close>

definition sample_mem :: "(string \<rightharpoonup> table) \<Rightarrow> mem" where
  "sample_mem ts = \<lparr>mem_schema = Some sample_schema, mem_tables = ts\<rparr>"

definition empty_tables :: "string \<rightharpoonup> table" where
  "empty_tables = [ModelUsers \<mapsto> [], ModelAccounts \<mapsto> [], ModelCredentials \<mapsto> [],
     ModelSessions \<mapsto> [], ModelVerifications \<mapsto> []]"

lemma empty_tables_simps [simp]:
  "empty_tables ModelUsers = Some []" "empty_tables ModelAccounts = Some []"
  "empty_tables ModelSessions = Some []" "empty_tables ModelCredentials = Some []"
  "empty_tables ModelVerifications = Some []"
  by (simp_all add: empty_tables_def)

lemma sample_get_model [simp]:
  "mem_get_model (sample_mem ts) ModelUsers = Some user_model"
  "mem_get_model (sample_mem ts) ModelAccounts = Some account_model"
  "mem_get_model (sample_mem ts) ModelCredentials = Some credential_model"
  "mem_get_model (sample_mem ts) ModelSessions = Some session_model"
  "mem_get_model (sample_mem ts) ModelVerifications = Some verification_model"
  by (simp_all add: sample_map_of sample_mem_def mem_get_model_def get_model_def clone_model_def)

lemma sample_start_eq: "sample_start = start_world (sample_mem empty_tables)"
  using conjunct2 [OF sample_schema_eq]
  by (simp add: sample_start_def mem_register_schema_def sample_mem_def empty_tables_def Let_def
      ensure_table_def schema_models_def mem_new_def clone_model_def sample_names comp_def split_def)

text \<open>Creating the first row of a table, and looking into an empty one.\<close>

lemma create_first:
  assumes "mem_get_model (sample_mem ts) m = Some mo" "m_primary_key mo = ''id''"
    "d ''id'' = Some (VStr i)" "i \<noteq> []" "ts m = Some []"
  shows "run_state (mem_create rt m d) (sample_mem ts) = (Inr d, sample_mem (ts(m \<mapsto> [(i, d)])))"
  using assms
  by (auto simp: mem_create_def Let_def row_get_def ensure_table_def table_of_def sample_mem_def
      list_ex_iff field_conflict_def index_conflict_def split: option.splits)

lemma find_none:
  assumes "ts m = Some []"
  shows "run_state (mem_find_one rt m w) (sample_mem ts) = (Inl AdapterNotFound, sample_mem ts)"
  using assms by (simp add: mem_find_one_def sample_mem_def iterate_def Let_def)

lemma find_single:
  assumes "ts m = Some [(i, r)]"
  shows "run_state (mem_find_one sample_runtime m w) (sample_mem ts) =
    ((if match_conditions sample_runtime w r then Inr r else Inl AdapterNotFound), sample_mem ts)"
  using assms by (simp add: mem_find_one_def sample_mem_def iterate_def Let_def sample_runtime_def)

section \<open>The world after a sign up\<close>

text \<open>The identifiers and tokens the entropy source gives.\<close>

definition sample_id :: "nat \<Rightarrow> string" where
  "sample_id n = new_id (sample_entropy n)"

definition sample_token :: "nat \<Rightarrow> string" where
  "sample_token n = new_token (sample_entropy n)"

definition sample_user :: user where
  "sample_user = \<lparr>user_id = sample_id 0, user_email = ''a@b'', user_email_verified = False,
     user_created_at = 2, user_updated_at = 2\<rparr>"

definition sample_account :: account where
  "sample_account = \<lparr>acc_id = sample_id 1, acc_user_id = sample_id 0, acc_provider = ProviderPassword,
     acc_provider_id = sample_id 0, acc_created_at = 2, acc_updated_at = 2\<rparr>"

definition sample_credential :: credential where
  "sample_credential = \<lparr>cred_id = sample_id 2, cred_user_id = sample_id 0, cred_account_id = sample_id 1,
     cred_type = TypePassword, cred_secret = ''secret'', cred_created_at = 2, cred_updated_at = 2,
     cred_revoked_at = None\<rparr>"

definition sample_session :: session where
  "sample_session = \<lparr>sess_id = sample_id 4, sess_user_id = sample_id 0,
     sess_token_hash = hash_token sample_runtime (sample_token 3), sess_ip_address = [], sess_user_agent = [],
     sess_expires_at = 3600000000003, sess_revoked_at = None, sess_created_at = 3\<rparr>"

definition sample_result :: auth_result where
  "sample_result = \<lparr>res_user = sample_user, res_session = Some sample_session, res_token = sample_token 3\<rparr>"

definition sample_tables :: "string \<rightharpoonup> table" where
  "sample_tables = empty_tables(
     ModelUsers \<mapsto> [(sample_id 0, user_row sample_user)],
     ModelAccounts \<mapsto> [(sample_id 1, account_row sample_account)],
     ModelCredentials \<mapsto> [(sample_id 2, credential_row sample_credential)],
     ModelSessions \<mapsto> [(sample_id 4, session_row sample_session)])"

definition sample_cached :: "json \<Rightarrow> time \<Rightarrow> cache_entry" where
  "sample_cached j t = \<lparr>ce_value = j, ce_counter = 0, ce_is_counter = False, ce_expires_at = t\<rparr>"

definition sample_json_user :: json where
  "sample_json_user = JObj [(''id'', JStr (sample_id 0)), (''email'', JStr ''a@b''),
     (''email_verified'', JBool False), (''created_at'', JTime 2), (''updated_at'', JTime 2)]"

definition sample_json_session :: json where
  "sample_json_session = JObj [(''id'', JStr (sample_id 4)), (''user_id'', JStr (sample_id 0)),
     (''token_hash'', JStr (hash_token sample_runtime (sample_token 3))), (''ip_address'', JStr []),
     (''user_agent'', JStr []), (''expires_at'', JTime 3600000000003), (''created_at'', JTime 3)]"

definition sample_world :: "(mem, mcache) world" where
  "sample_world = \<lparr>w_db = sample_mem sample_tables,
     w_cache = \<lparr>mc_entries = [(user_key (sample_id 0), sample_cached sample_json_user 60000000002),
       (session_key (hash_token sample_runtime (sample_token 3)), sample_cached sample_json_session 60000000003)],
       mc_ticks = 2\<rparr>,
     w_clock = 5, w_draws = 5, w_dummy = None,
     w_events = [\<lparr>ev_name = EventUserCreated, ev_time = 4, ev_subject = sample_id 0, ev_payload = PUser sample_user\<rparr>,
       \<lparr>ev_name = EventSessionCreated, ev_time = 6, ev_subject = sample_id 0, ev_payload = PSession sample_session\<rparr>],
     w_outbox = [], w_log = []\<rparr>"

lemma sample_id_simps [simp]: "sample_id n \<noteq> []" "plain_string (sample_id n)"
  using length_new_id [of "sample_entropy n"] by (auto simp: sample_id_def)

lemma sample_auth_simps [simp]:
  "au_hooks sample_auth = no_hooks" "au_rt sample_auth = sample_runtime"
  "au_settings sample_auth = sample_settings" "au_store sample_auth = mem_store sample_runtime"
  "au_hasher sample_auth = plain_hasher Inr sample_verify" "au_events sample_auth = new_events"
  "au_now sample_auth = passing (\<lambda>_. 1)" "au_entropy sample_auth = sample_entropy"
  "au_cache sample_auth = Some (memory_cache (passing (\<lambda>_. 1)))" "au_email sample_auth = Some memory_send"
  by (simp_all add: sample_auth_def memory_auth_def)

lemma fresh_sample:
  "run_state (fresh_id sample_auth) w = (sample_id (w_draws w), w\<lparr>w_draws := Suc (w_draws w)\<rparr>)"
  "run_state (fresh_token sample_auth) w = (sample_token (w_draws w), w\<lparr>w_draws := Suc (w_draws w)\<rparr>)"
  by (simp_all add: fresh_id_def fresh_token_def draw_def sample_id_def sample_token_def)

text \<open>The definitions that an evaluation of a workflow on the sample engine unfolds.\<close>

lemmas sample_store = on_db_def mem_store_def bridge_new_def memory_adapter_def
  user_get_by_email_def user_get_by_id_def user_create_def account_create_def credential_create_def
  session_create_def not_found_err_def conflict_err_def find_none find_single
  create_first [where i = "sample_id n" for n]

lemmas sample_caching = cache_user_def cache_session_def user_cache_set_def session_cache_set_def on_cache_def
  memory_cache_def mc_set_def user_json_def session_json_def json_times_def json_time_ok_def optional_field_def
  time_sub_def max_duration_def min_duration_def mcache_new_def duration_units

lemmas sample_running = run_check run_case_sum now_def fresh_sample Let_def plain_hasher_def background_def
  with_tx_def transaction_def start_world_def publish_def record_event_def events_publish_def new_events_def
  sample_settings_def no_hooks_def check_password_policy_def

lemmas sample_entities = sample_user_def sample_account_def sample_credential_def sample_session_def

lemma sample_email: "normalize_email sample_runtime ''A@b'' = Inr ''a@b''"
  by code_simp

lemma sample_sign_up_run:
  "run_state (sign_up sample_auth background sample_sign_up) sample_start = (Inr sample_result, sample_world)"
  unfolding sample_start_eq
  apply (simp add: sign_up_def sample_sign_up_def sample_email sign_up_tx_def new_session_def
      user_row_def account_row_def credential_row_def session_row_def sample_store sample_running)
  apply (simp add: sample_caching sample_running after_session_created_def)
  apply (simp add: sample_result_def sample_world_def sample_entities sample_tables_def sample_cached_def
      sample_json_user_def sample_json_session_def user_row_def account_row_def credential_row_def session_row_def
      eval_nat_numeral)
  done

section \<open>Resolving and ending the session of the sample sign up\<close>

lemma sample_json [simp]: "json_session sample_json_session = Inr sample_session" "json_user sample_json_user = Inr sample_user"
  by (simp_all add: sample_json_session_def sample_json_user_def json_session_def json_user_def member_defs sample_session_def sample_user_def)

lemma sample_token_simps [simp]: "sample_token n \<noteq> []"
  by (simp add: sample_token_def)

lemma sample_get_session:
  "fst (run_state (get_session sample_auth background (sample_token 3)) sample_world) =
   Inr (Some \<lparr>sr_session = sample_session, sr_user = sample_user\<rparr>)"
  apply (simp add: get_session_def Let_def now_def cached_session_def run_case_option session_cache_get_def on_cache_def memory_cache_def mc_get_def background_def
    run_mc_live sample_world_def eval_nat_numeral sample_cached_def entry_json_def run_case_sum run_if)
  apply (simp add: sess_valid_def sess_revoked_def sess_expired_def run_if run_case_option get_user_def cached_user_def user_cache_get_def on_cache_def memory_cache_def mc_get_def run_mc_live
   entry_json_def sample_session_def run_case_sum)
  done

definition sample_sign_out :: sign_out_input where
  "sample_sign_out = \<lparr>out_token = sample_token 3\<rparr>"


lemma update_single:
  assumes "ts m = Some [(i, r)]"
  shows "run_state (mem_update rt m w u) (sample_mem ts) =
    (Inr (if match_conditions rt w r then 1 else 0),
     sample_mem (ts(m \<mapsto> [(i, if match_conditions rt w r then r ++ u else r)])))"
  using assms by (simp add: mem_update_def sample_mem_def)

lemma match_eq_str:
  "r k = Some (VStr x) \<Longrightarrow> plain_string x \<or> plain_string y \<Longrightarrow>
   match_conditions rt (Eq k (VStr y) # w) r \<longleftrightarrow> x = y \<and> match_conditions rt w r"
  by (simp add: match_conditions_def match_condition_def Eq_def row_get_def match_equal_str)

lemma match_nil: "match_conditions rt [] r"
  by (simp add: match_conditions_def)

lemma sample_tables_simps [simp]:
  "sample_tables ModelUsers = Some [(sample_id 0, user_row sample_user)]"
  "sample_tables ModelAccounts = Some [(sample_id 1, account_row sample_account)]"
  "sample_tables ModelCredentials = Some [(sample_id 2, credential_row sample_credential)]"
  "sample_tables ModelSessions = Some [(sample_id 4, session_row sample_session)]"
  "sample_tables ModelVerifications = Some []"
  by (simp_all add: sample_tables_def)

lemma sample_sign_out_run:
  "fst (run_state (sign_out sample_auth background sample_sign_out) sample_world) = Inr ()"
  apply (simp add: sign_out_def sample_sign_out_def no_hooks_def mem_store_def bridge_new_def memory_adapter_def
      on_db_def session_get_by_hash_def sample_world_def find_single match_eq_str match_nil session_row_def
      sample_session_def)
  apply (simp add: to_session_def session_row_def sess_revoked_def run_if now_def session_revoke_def update_single
      match_eq_str match_nil run_check sample_session_def Let_def eval_nat_numeral)
  apply (simp add: invalidate_sessions_def session_cache_delete_def on_cache_def memory_cache_def mc_delete_def
      publish_def record_event_def events_publish_def new_events_def now_def background_def run_case_sum)
  done

end
