(* ===== verification/Sample_Reset.thy ===== *)
theory Sample_Reset
  imports Samples
begin

text \<open>
  The sample engine with a reset token for the sample user, and the reset with it, evaluated
  step by step.
\<close>

definition sample_reset_token :: token where
  "sample_reset_token = \<lparr>tok_id = sample_id 6, tok_purpose = PurposePasswordReset, tok_subject = sample_id 0,
     tok_token_hash = hash_token sample_runtime (sample_token 5), tok_expires_at = 3600000000007,
     tok_used_at = None, tok_created_at = 7\<rparr>"

definition sample_issued :: "(mem, mcache) world" where
  "sample_issued = sample_world\<lparr>w_db := sample_mem (sample_tables(ModelVerifications \<mapsto>
     [(sample_id 6, token_row sample_reset_token)])), w_clock := 6, w_draws := 7\<rparr>"

lemma sample_issue_run:
  "run_state (issue_token sample_auth PurposePasswordReset (sample_id 0) hour) sample_world =
     (Inr (sample_token 5), sample_issued)"
  apply (simp add: issue_token_def duration_units PurposePasswordReset_def now_def sample_world_def fresh_sample
    on_db_def mem_store_def bridge_new_def memory_adapter_def token_create_def create_first [where i =
      "sample_id n" for n]
    token_row_def run_check)
  apply (simp add: sample_issued_def sample_reset_token_def sample_world_def token_row_def
      PurposePasswordReset_def eval_nat_numeral)
  done

lemma to_session_sample: "to_session rt (session_row sample_session) = sample_session"
  by (rule to_session_row) (simp add: sample_session_def)
lemma to_credential_sample: "to_credential rt (credential_row sample_credential) = sample_credential"
  by (rule to_credential_row) (simp add: sample_credential_def)
lemma to_token_sample: "to_token rt (token_row sample_reset_token) = sample_reset_token"
  by (rule to_token_row) (simp add: sample_reset_token_def)

lemmas sample_to = to_session_sample to_credential_sample to_token_sample to_user_row to_account_row

lemma sample_ops:
  "tokens_get_by_hash (mem_store rt) = token_get_by_hash rt (memory_adapter rt)"
  "tokens_mark_used (mem_store rt) = token_mark_used (memory_adapter rt)"
  "accounts_get_by_provider (mem_store rt) = account_get_by_provider rt (memory_adapter rt)"
  "credentials_get_active (mem_store rt) = credential_get_active rt (memory_adapter rt)"
  "credentials_revoke (mem_store rt) = credential_revoke (memory_adapter rt)"
  "credentials_create (mem_store rt) = credential_create (memory_adapter rt)"
  "sessions_revoke_by_user (mem_store rt) = session_revoke_by_user rt (memory_adapter rt)"
  "ad_find_one (memory_adapter rt) = mem_find_one rt" "ad_update (memory_adapter rt) = mem_update rt"
  "ad_create (memory_adapter rt) = mem_create rt" "ad_find_many (memory_adapter rt) = mem_find_many rt"
  by (simp_all add: mem_store_def bridge_new_def memory_adapter_def)

lemma sample_reset_fields:
  "tok_token_hash sample_reset_token = hash_token sample_runtime (sample_token 5)"
  "tok_id sample_reset_token = sample_id 6" "tok_purpose sample_reset_token = PurposePasswordReset"
  "tok_used_at sample_reset_token = None" "tok_expires_at sample_reset_token = 3600000000007"
  "tok_subject sample_reset_token = sample_id 0"
  by (simp_all add: sample_reset_token_def)

lemma row_fields:
  "token_row t ''id'' = Some (VStr (tok_id t))" "token_row t ''token_hash'' = Some (VStr (tok_token_hash t))"
  "token_row t ''used_at'' = Some (VTimePtr (tok_used_at t))"
  by (simp_all add: token_row_def)

lemma match_is_null:
  "r k = Some (VTimePtr None) \<Longrightarrow> match_conditions rt (IsNull k # w) r \<longleftrightarrow> match_conditions rt w r"
  by (simp add: match_conditions_def match_condition_def IsNull_def row_get_def)

lemma sample_issued_simps:
  "w_db sample_issued = sample_mem (sample_tables(ModelVerifications \<mapsto>
     [(sample_id 6, token_row sample_reset_token)]))"
  "w_clock sample_issued = 6"
  by (simp_all add: sample_issued_def)

lemma sample_consume_run:
  "run_state (consume_token sample_auth PurposePasswordReset (sample_token 5)) sample_issued =
    (Inr (use_token 8 sample_reset_token), sample_issued\<lparr>w_db := sample_mem
      (sample_tables(ModelVerifications \<mapsto>
     [(sample_id 6, token_row sample_reset_token ++ [''used_at'' \<mapsto> VTime 8])])), w_clock := 7\<rparr>)"
  apply (simp add: consume_token_def on_db_def sample_ops token_get_by_hash_def find_single match_eq_str
      match_nil row_fields
    sample_reset_fields sample_to sample_issued_simps now_def tok_used_def tok_expired_def run_if
      token_mark_used_def update_single
    match_is_null run_check eval_nat_numeral use_token_def)
  done


lemma credential_model_free:
  "list_all (\<lambda>nf. \<not> f_unique (snd nf)) (m_fields credential_model) \<and>
   list_all (\<lambda>idx. \<not> idx_unique idx) (m_indexes credential_model)"
  by code_simp

lemma sample_id_next:
  "sample_id (Suc (Suc 0)) \<noteq> sample_id (Suc (Suc (Suc (Suc (Suc (Suc (Suc 0)))))))"
  by code_simp

lemma create_credential:
  assumes "d ''id'' = Some (VStr i)" "i \<noteq> []" "ts ModelCredentials = Some t" "map_of t i = None"
  shows "run_state (mem_create rt ModelCredentials d) (sample_mem ts) =
    (Inr d, sample_mem (ts(ModelCredentials \<mapsto> t @ [(i, d)])))"
proof -
  have "\<not> list_ex (field_conflict rt t d) (m_fields credential_model)"
    "\<not> list_ex (index_conflict rt t d) (m_indexes credential_model)"
    using credential_model_free by (auto simp: list_ex_iff list_all_iff field_conflict_def index_conflict_def)
  with assms show ?thesis
    by (simp add: mem_create_def Let_def row_get_def ensure_table_def table_of_def)
     (simp add: sample_mem_def)
qed

lemma credential_fields:
  "credential_row c ''id'' = Some (VStr (cred_id c))" "credential_row c ''account_id'' = Some (VStr (cred_account_id c))"
  "credential_row c ''type'' = Some (VStr (cred_type c))" "credential_row c ''revoked_at'' = Some (VTimePtr (cred_revoked_at c))"
  "account_row x ''provider'' = Some (VStr (acc_provider x))" "account_row x ''provider_id'' = Some (VStr (acc_provider_id x))"
  "session_row s ''id'' = Some (VStr (sess_id s))" "session_row s ''user_id'' = Some (VStr (sess_user_id s))"
  "session_row s ''token_hash'' = Some (VStr (sess_token_hash s))"
  by (simp_all add: credential_row_def account_row_def session_row_def)

lemma sample_fields:
  "cred_id sample_credential = sample_id 2" "cred_account_id sample_credential = sample_id 1"
  "cred_type sample_credential = TypePassword" "cred_revoked_at sample_credential = None"
  "acc_id sample_account = sample_id 1" "acc_provider sample_account = ProviderPassword"
  "acc_provider_id sample_account = sample_id 0"
  "sess_id sample_session = sample_id 4" "sess_user_id sample_session = sample_id 0" "sess_revoked_at sample_session = None"
  by (simp_all add: sample_credential_def sample_account_def sample_session_def)

lemma find_many_single:
  assumes "ts m = Some [(i, r)]"
  shows "run_state (mem_find_many sample_runtime (query_where m w)) (sample_mem ts) =
    (Inr (if match_conditions sample_runtime w r then [r] else []), sample_mem ts)"
  using assms by (simp add: mem_find_many_def query_where_def sample_mem_def iterate_def Let_def sample_runtime_def)

lemma create_second_credential:
  assumes "ts ModelCredentials = Some [(j, r)]" "cred_id c \<noteq> []" "j \<noteq> cred_id c"
  shows "run_state (mem_create rt ModelCredentials (credential_row c)) (sample_mem ts) =
    (Inr (credential_row c), sample_mem (ts(ModelCredentials \<mapsto> [(j, r), (cred_id c, credential_row
      c)])))"
  using create_credential [of "credential_row c" "cred_id c" ts "[(j, r)]"] assms
  by (auto simp: credential_fields)

definition sample_reset :: reset_password_input where
  "sample_reset = \<lparr>rst_token = sample_token 5, rst_new_password = ''changed''\<rparr>"

lemma sample_reset_run:
  "fst (run_state (reset_password sample_auth background sample_reset) sample_issued) = Inr ()"
  apply (simp add: sample_reset_def reset_password_def check_password_policy_def sample_settings_def
      run_check plain_hasher_def transaction_def background_def with_tx_def
    sample_consume_run use_token_def sample_reset_fields rotate_password_def password_credential_def)
  apply (simp add: on_db_def sample_ops account_get_by_provider_def find_single match_eq_str match_nil
      credential_fields sample_fields sample_to
    credential_get_active_def match_is_null now_def eval_nat_numeral credential_revoke_def update_single
      run_check fresh_sample sample_issued_def sample_world_def)
  apply (simp add: credential_create_def sample_ops create_second_credential credential_fields
      sample_id_next revoke_user_sessions_tx_def now_def on_db_def
    session_revoke_by_user_def session_list_by_user_def find_many_single match_eq_str match_nil
      sample_fields sample_to run_check session_revoke_def update_single run_if
    sess_revoked_def)
  apply (simp add: after_sessions_revoked_def invalidate_sessions_def session_cache_delete_def on_cache_def
      memory_cache_def mc_delete_def
      publish_def record_event_def events_publish_def new_events_def now_def background_def run_case_sum)
  done

end
