(* ===== verification/Sample_Sign_In.thy ===== *)
theory Sample_Sign_In
  imports Sample_Reset
begin

text \<open>A second sign in of the sample user, evaluated step by step.\<close>

definition sample_sign_in :: sign_in_input where
  "sample_sign_in = \<lparr>in_email = ''A@b'', in_password = ''secret'',
     in_session = \<lparr>opt_ip_address = [], opt_user_agent = []\<rparr>\<rparr>"

lemma session_model_unique:
  "\<forall>nf \<in> set (m_fields session_model). f_unique (snd nf) \<longrightarrow> fst nf = ''token_hash''"
  "\<forall>idx \<in> set (m_indexes session_model). idx_unique idx \<longrightarrow> idx_fields idx = [''token_hash'']"
  by code_simp+

lemma sample_next:
  "hash_token sample_runtime (sample_token 3) \<noteq> hash_token sample_runtime (sample_token 5)" "sample_id 4 \<noteq> sample_id 6"
  by code_simp+

lemma create_second_session:
  assumes ts: "ts ModelSessions = Some [(sess_id s, session_row s)]" and i: "sess_id s \<noteq> sess_id s'" "sess_id s' \<noteq> []"
    and h: "sess_token_hash s \<noteq> sess_token_hash s'" "plain_string (sess_token_hash s)" "plain_string (sess_token_hash s')"
  shows "run_state (mem_create rt ModelSessions (session_row s')) (sample_mem ts) =
    (Inr (session_row s'), sample_mem (ts(ModelSessions \<mapsto> [(sess_id s, session_row s), (sess_id s', session_row s')])))"
proof -
  have f: "\<not> list_ex (field_conflict rt [(sess_id s, session_row s)] (session_row s')) (m_fields session_model)"
    using session_model_unique(1) h by (auto simp: list_ex_iff field_conflict_def session_row_def match_equal_str)
  have x: "\<not> list_ex (index_conflict rt [(sess_id s, session_row s)] (session_row s')) (m_indexes session_model)"
    using session_model_unique(2) h by (auto simp: list_ex_iff index_conflict_def session_row_def match_equal_str)
  from f x ts i show ?thesis
    by (simp add: mem_create_def Let_def row_get_def ensure_table_def table_of_def credential_fields)
      (simp add: sample_mem_def)
qed

lemma sample_email_plain: "plain_string ''a@b''"
  by code_simp

lemma sample_found:
  "run_state (on_db (users_get_by_email (mem_store sample_runtime) ''a@b'')) sample_world = (Inr sample_user, sample_world)"
proof -
  have "match_conditions sample_runtime [Eq ''email'' (VStr ''a@b'')] (user_row sample_user)"
    by (subst match_eq_str [where x = "''a@b''"]) (simp_all add: user_row_def sample_user_def match_nil sample_email_plain)
  then show ?thesis
    by (simp add: mem_store_def bridge_new_def memory_adapter_def on_db_def user_get_by_email_def sample_world_def
        find_single to_user_row)
qed

lemma sample_verified:
  "run_state (verify_password sample_auth background (sample_id 0) ''secret'') sample_world =
   (Inr (), sample_world)"
  by (simp add: verify_password_def password_credential_def on_db_def sample_ops account_get_by_provider_def
      find_single match_eq_str match_nil credential_fields sample_fields sample_to credential_get_active_def
      match_is_null run_check sample_verify_def plain_hasher_def sample_world_def)
   (simp add: sample_credential_def)

lemma sample_user_id: "user_id sample_user = sample_id 0"
  by (simp add: sample_user_def)

definition sample_new_session :: session where
  "sample_new_session = \<lparr>sess_id = sample_id 6, sess_user_id = sample_id 0,
     sess_token_hash = hash_token sample_runtime (sample_token 5), sess_ip_address = [], sess_user_agent = [],
     sess_expires_at = 3600000000007, sess_revoked_at = None, sess_created_at = 7\<rparr>"

lemma sample_new_session_run:
  "fst (run_state (new_session sample_auth (with_tx background) (sample_id 0) \<lparr>opt_ip_address = [], opt_user_agent = []\<rparr>) sample_world) =
     Inr \<lparr>iss_session = sample_new_session, iss_token = sample_token 5\<rparr>"
proof -
  have "run_state (mem_create sample_runtime ModelSessions (session_row sample_new_session)) (w_db sample_world) =
    (Inr (session_row sample_new_session), sample_mem (sample_tables(ModelSessions \<mapsto>
       [(sess_id sample_session, session_row sample_session), (sess_id sample_new_session, session_row sample_new_session)])))"
    using create_second_session [of sample_tables sample_session sample_new_session sample_runtime] sample_next
    by (simp add: sample_world_def sample_session_def sample_new_session_def)
  then show ?thesis
    by (simp add: new_session_def no_hooks_def now_def fresh_sample sample_settings_def duration_units on_db_def
        session_create_def mem_store_def bridge_new_def memory_adapter_def sample_new_session_def
        sample_world_def run_check eval_nat_numeral)
qed

lemma sample_sign_in_run:
  "fst (run_state (sign_in sample_auth background sample_sign_in) sample_world) =
     Inr \<lparr>res_user = sample_user, res_session = Some sample_new_session, res_token = sample_token 5\<rparr>"
proof -
  obtain w' where "run_state (new_session sample_auth (with_tx background) (sample_id 0)
      \<lparr>opt_ip_address = [], opt_user_agent = []\<rparr>) sample_world =
    (Inr \<lparr>iss_session = sample_new_session, iss_token = sample_token 5\<rparr>, w')"
    using sample_new_session_run by (metis prod.exhaust_sel)
  moreover have "\<not> ctx_in_tx background" by (simp add: background_def)
  ultimately show ?thesis
    by (simp add: sign_in_def sample_sign_in_def sample_email sample_found sample_verified sample_settings_def
        run_check no_hooks_def sample_user_id transaction_def split: prod.splits)
qed

end
