(* ===== verification/Core_Properties.thy ===== *)
theory Core_Properties
  imports Sample_Sign_In
begin

text \<open>
  What the workflows of the engine guarantee on the in-memory adapter and cache, for every
  world that is in order; by \<open>reachable_in_order\<close> every world is that calls can reach from a
  freshly started engine.
\<close>

section \<open>The sample worlds are in order\<close>

lemma sample_on_memory: "on_memory sample_runtime sample_auth"
  by (simp add: sample_auth_def memory_auth_ok)

lemma sample_runtime_auth: "au_rt sample_auth = sample_runtime"
  by simp

lemma plain_call_background: "plain_call background"
  by (simp add: plain_call_def background_def)

lemma sample_schema_fits: "schema_keyed sample_schema" "core_ready sample_schema" "validate sample_schema = Inr ()"
  by code_simp+

lemma sample_start_in_order: "in_order sample_runtime sample_auth sample_start"
proof -
  obtain r m where "run_state (mem_register_schema sample_schema) mem_new = (r, m)" by (rule prod.exhaust)
  with start_in_order [OF sample_on_memory sample_schema_fits this] show ?thesis
    by (simp add: sample_start_def)
qed

lemma sample_world_in_order: "in_order sample_runtime sample_auth sample_world"
proof (rule reachable_in_order [OF sample_on_memory sample_start_in_order])
  show "reachable sample_auth sample_start sample_world"
    by (rule reachable.step [OF reachable.start step_sign_up [OF plain_call_background sample_sign_up_run]])
qed

lemma sample_issued_in_order: "in_order sample_runtime sample_auth sample_issued"
proof (rule reachable_in_order [OF sample_on_memory sample_world_in_order])
  show "reachable sample_auth sample_world sample_issued"
    by (rule reachable.step [OF reachable.start step_issue_token [OF sample_id_simps(2) sample_issue_run]])
qed

section \<open>From the engine on any store to the engine on memory\<close>

lemma engine_stored: "on_memory rt a \<Longrightarrow> engine.V (mem_store_view rt) w = stored rt w"
  by (simp add: engine.V_def [OF on_memory_engine] stored_def)

lemma engine_in_order:
  assumes "on_memory rt a" "in_order rt a w"
  shows "engine.good a (mem_store_inv rt) (mem_store_view rt) mc_view w"
    "engine.plain_subjects (mem_store_view rt) w" "engine.Inv (mem_store_inv rt) w"
  using assms engine.sound_good [OF on_memory_engine [OF assms(1)]] by (auto simp: in_order_def)

lemma memory_runtime: "on_memory rt a \<Longrightarrow> au_rt a = rt"
  by (simp add: on_memory_def)

section \<open>Passwords and sessions in what is stored\<close>

text \<open>\<open>c\<close> is the active password credential of the password account of the user \<open>uid\<close>.\<close>

definition password_in :: "db \<Rightarrow> string \<Rightarrow> credential \<Rightarrow> bool" where
  "password_in d uid c \<longleftrightarrow> c \<in># db_credentials d \<and> cred_revoked_at c = None \<and> cred_type c = TypePassword \<and>
     (\<exists>acc \<in># db_accounts d. acc_provider acc = ProviderPassword \<and> acc_provider_id acc = uid \<and>
        cred_account_id c = acc_id acc)"

definition hasher_accepts :: "('s, 'c) auth \<Rightarrow> ctx \<Rightarrow> string \<Rightarrow> string \<Rightarrow> bool" where
  "hasher_accepts a cx h p \<longleftrightarrow> (\<exists>w1 w2. run_state (verify_hash (au_hasher a) cx h p) w1 = (Inr (), w2))"

definition hashes_to :: "('s, 'c) auth \<Rightarrow> ctx \<Rightarrow> string \<Rightarrow> string \<Rightarrow> bool" where
  "hashes_to a cx p h \<longleftrightarrow> (\<exists>w1 w2. run_state (hash_password (au_hasher a) cx p) w1 = (Inr h, w2))"

text \<open>\<open>s\<close> is a fresh session of \<open>uid\<close> that the token \<open>tk\<close> stands for.\<close>

definition session_for :: "runtime \<Rightarrow> string \<Rightarrow> string \<Rightarrow> session \<Rightarrow> bool" where
  "session_for rt tk uid s \<longleftrightarrow> tk \<noteq> [] \<and> sess_user_id s = uid \<and> sess_token_hash s = hash_token rt tk \<and>
     sess_revoked_at s = None"

text \<open>The credential \<open>old\<close> has been revoked and one with the secret \<open>hash\<close> added.\<close>

definition credential_rotated :: "string \<Rightarrow> string \<Rightarrow> db \<Rightarrow> db \<Rightarrow> bool" where
  "credential_rotated uid hash d d' \<longleftrightarrow> (\<exists>old new t. password_in d uid old \<and>
     cred_user_id new = uid \<and> cred_account_id new = cred_account_id old \<and> cred_type new = TypePassword \<and>
     cred_secret new = hash \<and> cred_revoked_at new = None \<and>
     db_credentials d' = add_mset new
       (upd_where (\<lambda>x. cred_id x = cred_id old) (revoke_credential t) (db_credentials d)))"

lemma engine_password_of:
  "on_memory rt a \<Longrightarrow> engine.password_of (mem_store_view rt) w uid c \<longleftrightarrow> password_in (stored rt w) uid c"
  by (simp add: engine.password_of_def [OF on_memory_engine] password_in_def engine_stored cred_active_def)

lemma engine_accepted:
  "on_memory rt a \<Longrightarrow> engine.accepted a cx h p \<longleftrightarrow> hasher_accepts a cx h p"
  by (simp add: engine.accepted_def [OF on_memory_engine] hasher_accepts_def)

lemma engine_issued:
  "on_memory rt a \<Longrightarrow> engine.issued_ok a uid x \<longleftrightarrow> session_for rt (iss_token x) uid (iss_session x)"
  by (simp add: engine.issued_ok_def [OF on_memory_engine] session_for_def memory_runtime)

lemma engine_rotated:
  "on_memory rt a \<Longrightarrow> engine.rotated (mem_store_view rt) uid h w w' \<longleftrightarrow>
   credential_rotated uid h (stored rt w) (stored rt w')"
  by (simp add: engine.rotated_def [OF on_memory_engine] credential_rotated_def engine_password_of
      engine_stored cred_active_def)

lemmas engine_words = engine_stored engine_password_of engine_accepted engine_issued engine_rotated memory_runtime

text \<open>An update leaves the members it is not about as they were.\<close>

lemma untouched_others:
  assumes "\<And>x. f (g x) = f x"
  shows "{#x \<in># upd_where (\<lambda>x. f x = k) g M. f x \<noteq> k#} = {#x \<in># M. f x \<noteq> k#}"
  using assms by (induction M) (auto simp: upd_where_def)

section \<open>Sign in\<close>

lemma sign_in_on_memory:
  assumes e: "on_memory rt a" and o: "in_order rt a w" and cx: "plain_call cx"
    and run: "run_state (sign_in a cx inp0) w = (r, w')"
  shows "in_order rt a w' \<and> (case r of
      Inl _ \<Rightarrow> stored rt w' = stored rt w
    | Inr res \<Rightarrow> \<exists>inp w0 c s.
        run_state (chain_run (hk_before_sign_in (au_hooks a)) cx inp0) w = (Inr inp, w0) \<and>
        normalize_email rt (in_email inp) = Inr (user_email (res_user res)) \<and>
        res_user res \<in># db_users (stored rt w) \<and>
        (st_verification_required (au_settings a) \<longrightarrow> user_email_verified (res_user res)) \<and>
        password_in (stored rt w) (user_id (res_user res)) c \<and>
        hasher_accepts a cx (cred_secret c) (in_password inp) \<and>
        res_session res = Some s \<and> session_for rt (res_token res) (user_id (res_user res)) s \<and>
        stored rt w' = (stored rt w)\<lparr>db_sessions := add_mset s (db_sessions (stored rt w))\<rparr>)"
proof -
  note en = on_memory_engine [OF e]
  have "in_order rt a w'"
    using engine.sound_sign_in [OF en o [unfolded in_order_def] cx run] by (simp add: in_order_def)
  moreover note engine.sign_in_spec [OF en engine_in_order(1) [OF e o] cx run]
  ultimately show ?thesis
    by (cases r) (fastforce simp: engine.signed_in_def [OF en] engine_words [OF e])+
qed

text \<open>C2: Signing in is safe and atomic. A sign in that succeeds has found a stored user with the
  normalized email (a verified one, when the configuration asks for it), whose active password
  credential the hasher accepts for the given password; all it has changed in the store is one
  new unrevoked session of that user, which the returned token stands for. A sign in that fails
  leaves the store as it was. In both cases the engine stays in order.\<close>

theorem sign_in_correct:
  assumes "on_memory rt a" and "in_order rt a w" and "plain_call cx"
  shows "case run_state (sign_in a cx inp0) w of (r, w') \<Rightarrow> in_order rt a w' \<and> (case r of
      Inl _ \<Rightarrow> stored rt w' = stored rt w
    | Inr res \<Rightarrow> \<exists>inp w0 c s.
        run_state (chain_run (hk_before_sign_in (au_hooks a)) cx inp0) w = (Inr inp, w0) \<and>
        normalize_email rt (in_email inp) = Inr (user_email (res_user res)) \<and>
        res_user res \<in># db_users (stored rt w) \<and>
        (st_verification_required (au_settings a) \<longrightarrow> user_email_verified (res_user res)) \<and>
        password_in (stored rt w) (user_id (res_user res)) c \<and>
        hasher_accepts a cx (cred_secret c) (in_password inp) \<and>
        res_session res = Some s \<and> session_for rt (res_token res) (user_id (res_user res)) s \<and>
        stored rt w' = (stored rt w)\<lparr>db_sessions := add_mset s (db_sessions (stored rt w))\<rparr>)"
  using sign_in_on_memory [OF assms] by (auto split: prod.split)

text \<open>The sample user signs in a second time.\<close>

theorem sign_in_correct_witness:
  "case run_state (sign_in sample_auth background sample_sign_in) sample_world of (r, w') \<Rightarrow>
     r = Inr \<lparr>res_user = sample_user, res_session = Some sample_new_session, res_token = sample_token 5\<rparr> \<and>
     in_order sample_runtime sample_auth w' \<and>
     stored sample_runtime w' = (stored sample_runtime sample_world)\<lparr>db_sessions :=
       add_mset sample_new_session (db_sessions (stored sample_runtime sample_world))\<rparr>"
  using sign_in_correct [OF sample_on_memory sample_world_in_order plain_call_background, of sample_sign_in]
    sample_sign_in_run by (auto split: prod.splits)

section \<open>Sign up\<close>

definition account_in :: "string \<Rightarrow> account \<Rightarrow> bool" where
  "account_in uid acc \<longleftrightarrow> acc_provider acc = ProviderPassword \<and> acc_provider_id acc = uid \<and> acc_user_id acc = uid"

lemma sign_up_on_memory:
  assumes e: "on_memory rt a" and o: "in_order rt a w" and cx: "plain_call cx"
    and run: "run_state (sign_up a cx inp0) w = (r, w')"
  shows "in_order rt a w' \<and> (case r of
      Inl _ \<Rightarrow> stored rt w' = stored rt w
    | Inr res \<Rightarrow> \<exists>inp w0 email hash acc c S.
        run_state (chain_run (hk_before_sign_up (au_hooks a)) cx inp0) w = (Inr inp, w0) \<and>
        normalize_email rt (up_email inp) = Inr email \<and> user_email (res_user res) = email \<and>
        check_password_policy a (up_password inp) = Inr () \<and> hashes_to a cx (up_password inp) hash \<and>
        (\<forall>x \<in># db_users (stored rt w). user_email x \<noteq> email \<and> user_id x \<noteq> user_id (res_user res)) \<and>
        db_users (stored rt w') = add_mset (res_user res) (db_users (stored rt w)) \<and>
        db_accounts (stored rt w') = add_mset acc (db_accounts (stored rt w)) \<and>
        account_in (user_id (res_user res)) acc \<and>
        db_credentials (stored rt w') = add_mset c (db_credentials (stored rt w)) \<and>
        cred_account_id c = acc_id acc \<and> cred_secret c = hash \<and> cred_active c \<and>
        db_sessions (stored rt w') = S + db_sessions (stored rt w) \<and>
        (case res_session res of
           None \<Rightarrow> st_verification_required (au_settings a) \<and> S = {#}
         | Some s \<Rightarrow> \<not> st_verification_required (au_settings a) \<and> S = {#s#} \<and>
             session_for rt (res_token res) (user_id (res_user res)) s))"
proof -
  note en = on_memory_engine [OF e]
  have io: "in_order rt a w'"
    using engine.sound_sign_up [OF en o [unfolded in_order_def] cx run] by (simp add: in_order_def)
  note sp = engine.sign_up_spec [OF en engine_in_order(1) [OF e o] cx run]
  show ?thesis
  proof (cases r)
    case (Inl er)
    with sp io show ?thesis by (simp add: engine_words [OF e])
  next
    case (Inr res)
    with sp obtain inp w0 where inp: "run_state (chain_run (hk_before_sign_up (au_hooks a)) cx inp0) w = (Inr inp, w0)"
      and su: "engine.signed_up a (mem_store_view rt) cx w inp res w'" by auto
    from su obtain email hash ios where
      f: "normalize_email rt (up_email inp) = Inr email" "check_password_policy a (up_password inp) = Inr ()"
        "hashes_to a cx (up_password inp) hash"
        "engine.signed_up_db a (mem_store_view rt) w email hash (res_user res) ios w'"
        "res_session res = map_option iss_session ios"
        "res_token res = (case ios of None \<Rightarrow> [] | Some i \<Rightarrow> iss_token i)"
      unfolding engine.signed_up_def [OF en] hashes_to_def memory_runtime [OF e] by blast
    from f(4) obtain acc c where
      g: "\<forall>x \<in># db_users (stored rt w). user_email x \<noteq> email \<and> user_id x \<noteq> user_id (res_user res)"
        "user_email (res_user res) = email" "account_in (user_id (res_user res)) acc"
        "cred_account_id c = acc_id acc" "cred_secret c = hash" "cred_active c"
        "ios = None \<longleftrightarrow> st_verification_required (au_settings a)"
        "\<forall>x. ios = Some x \<longrightarrow> session_for rt (iss_token x) (user_id (res_user res)) (iss_session x)"
        "db_users (stored rt w') = add_mset (res_user res) (db_users (stored rt w))"
        "db_accounts (stored rt w') = add_mset acc (db_accounts (stored rt w))"
        "db_credentials (stored rt w') = add_mset c (db_credentials (stored rt w))"
        "db_sessions (stored rt w') = (case ios of None \<Rightarrow> {#} | Some x \<Rightarrow> {#iss_session x#}) + db_sessions (stored rt w)"
      unfolding engine.signed_up_db_def [OF en] engine_words [OF e] account_in_def by blast
    show ?thesis
      unfolding Inr sum.case
      by (intro conjI io exI [of _ inp] exI [of _ w0] exI [of _ email] exI [of _ hash] exI [of _ acc]
          exI [of _ c] exI [of _ "case ios of None \<Rightarrow> {#} | Some x \<Rightarrow> {#iss_session x#}"])
        (use inp f g in \<open>auto split: option.splits\<close>)
  qed
qed

text \<open>C5: Signing up is atomic and never gives an email twice. When it succeeds, no stored user
  had the normalized email, the password met the policy, and the store has gained exactly the
  user, one password account, one active credential holding the hash, and one session unless
  the email has to be verified first. When it fails, the store is as it was.\<close>

theorem sign_up_correct:
  assumes "on_memory rt a" and "in_order rt a w" and "plain_call cx"
  shows "case run_state (sign_up a cx inp0) w of (r, w') \<Rightarrow> in_order rt a w' \<and> (case r of
      Inl _ \<Rightarrow> stored rt w' = stored rt w
    | Inr res \<Rightarrow> \<exists>inp w0 email hash acc c S.
        run_state (chain_run (hk_before_sign_up (au_hooks a)) cx inp0) w = (Inr inp, w0) \<and>
        normalize_email rt (up_email inp) = Inr email \<and> user_email (res_user res) = email \<and>
        check_password_policy a (up_password inp) = Inr () \<and> hashes_to a cx (up_password inp) hash \<and>
        (\<forall>x \<in># db_users (stored rt w). user_email x \<noteq> email \<and> user_id x \<noteq> user_id (res_user res)) \<and>
        db_users (stored rt w') = add_mset (res_user res) (db_users (stored rt w)) \<and>
        db_accounts (stored rt w') = add_mset acc (db_accounts (stored rt w)) \<and>
        account_in (user_id (res_user res)) acc \<and>
        db_credentials (stored rt w') = add_mset c (db_credentials (stored rt w)) \<and>
        cred_account_id c = acc_id acc \<and> cred_secret c = hash \<and> cred_active c \<and>
        db_sessions (stored rt w') = S + db_sessions (stored rt w) \<and>
        (case res_session res of
           None \<Rightarrow> st_verification_required (au_settings a) \<and> S = {#}
         | Some s \<Rightarrow> \<not> st_verification_required (au_settings a) \<and> S = {#s#} \<and>
             session_for rt (res_token res) (user_id (res_user res)) s))"
  using sign_up_on_memory [OF assms] by (auto split: prod.split)

text \<open>The sample sign up succeeds.\<close>

theorem sign_up_correct_witness:
  "run_state (sign_up sample_auth background sample_sign_up) sample_start = (Inr sample_result, sample_world) \<and>
   in_order sample_runtime sample_auth sample_world \<and>
   db_users (stored sample_runtime sample_world) = add_mset sample_user (db_users (stored sample_runtime sample_start))"
  using sign_up_correct [OF sample_on_memory sample_start_in_order plain_call_background, of sample_sign_up]
    sample_sign_up_run by (auto simp: sample_result_def)

section \<open>Resolving and ending sessions\<close>

text \<open>C3: A session token is resolved only to what is stored: when \<open>GetSession\<close> answers, the session
  is in the store under the hash of the token, neither revoked nor expired at the time of the
  call, and the user is the stored user of that session - whether the answer came from the cache
  or from the store. The call changes nothing in the store.\<close>

theorem get_session_correct:
  assumes "on_memory rt a" and "in_order rt a w" and "plain_call cx"
  shows "case run_state (get_session a cx tk) w of (r, w') \<Rightarrow>
    in_order rt a w' \<and> stored rt w' = stored rt w \<and>
    (\<forall>x. r = Inr (Some x) \<longrightarrow> tk \<noteq> [] \<and> sr_session x \<in># db_sessions (stored rt w) \<and>
       sess_token_hash (sr_session x) = hash_token rt tk \<and>
       sess_valid (sr_session x) (au_now a (w_clock w)) \<and>
       sr_user x \<in># db_users (stored rt w) \<and> user_id (sr_user x) = sess_user_id (sr_session x))"
proof -
  note en = on_memory_engine [OF assms(1)]
  obtain r w' where run: "run_state (get_session a cx tk) w = (r, w')" by (rule prod.exhaust)
  have "in_order rt a w'"
    using engine.sound_get_session [OF en assms(2) [unfolded in_order_def] assms(3) run] by (simp add: in_order_def)
  with engine.get_session_spec [OF en engine_in_order(1) [OF assms(1,2)] _ run] assms(3) show ?thesis
    by (auto simp: run plain_call_def engine.resolves_def [OF en] engine_words [OF assms(1)]
        dest!: engine.same_db_V [OF en])
qed

lemma sign_out_on_memory:
  assumes "on_memory rt a" and "in_order rt a w" and "plain_call cx"
    and run: "run_state (sign_out a cx inp0) w = (r, w')"
  shows "in_order rt a w' \<and> (case r of
      Inl _ \<Rightarrow> stored rt w' = stored rt w
    | Inr _ \<Rightarrow> \<exists>inp w0. run_state (chain_run (hk_before_sign_out (au_hooks a)) cx inp0) w = (Inr inp, w0) \<and>
        (out_token inp = [] \<and> stored rt w' = stored rt w \<or>
         (\<exists>P t. stored rt w' = (stored rt w)\<lparr>db_sessions :=
             upd_where P (revoke_session t) (db_sessions (stored rt w))\<rparr> \<and>
           (\<forall>x \<in># db_sessions (stored rt w'). sess_token_hash x = hash_token rt (out_token inp) \<longrightarrow> sess_revoked x) \<and>
           (\<forall>x \<in># db_sessions (stored rt w). P x \<longrightarrow> sess_token_hash x = hash_token rt (out_token inp)))))"
proof -
  note en = on_memory_engine [OF assms(1)]
  have "in_order rt a w'"
    using engine.sound_sign_out [OF en assms(2) [unfolded in_order_def] assms(3) run] by (simp add: in_order_def)
  with engine.sign_out_spec [OF en engine_in_order(1) [OF assms(1,2)] _ run] assms(3) show ?thesis
    by (cases r) (simp_all add: plain_call_def engine_words [OF assms(1)])
qed

text \<open>C8: Signing out ends the session. After a successful \<open>SignOut\<close> with a token, every stored
  session with the hash of that token is revoked, no other session has been touched, and nothing
  else in the store has changed; after a failed one the store is as it was.\<close>

theorem sign_out_correct:
  assumes "on_memory rt a" and "in_order rt a w" and "plain_call cx"
  shows "case run_state (sign_out a cx inp0) w of (r, w') \<Rightarrow> in_order rt a w' \<and> (case r of
      Inl _ \<Rightarrow> stored rt w' = stored rt w
    | Inr _ \<Rightarrow> \<exists>inp w0. run_state (chain_run (hk_before_sign_out (au_hooks a)) cx inp0) w = (Inr inp, w0) \<and>
        (out_token inp = [] \<and> stored rt w' = stored rt w \<or>
         (\<exists>P t. stored rt w' = (stored rt w)\<lparr>db_sessions :=
             upd_where P (revoke_session t) (db_sessions (stored rt w))\<rparr> \<and>
           (\<forall>x \<in># db_sessions (stored rt w'). sess_token_hash x = hash_token rt (out_token inp) \<longrightarrow> sess_revoked x) \<and>
           (\<forall>x \<in># db_sessions (stored rt w). P x \<longrightarrow> sess_token_hash x = hash_token rt (out_token inp)))))"
  using sign_out_on_memory [OF assms] by (auto split: prod.split)

text \<open>The token of the sample sign up resolves, and after signing out with it, it does not.\<close>

theorem get_session_correct_witness:
  "case run_state (get_session sample_auth background (sample_token 3)) sample_world of (r, w') \<Rightarrow>
     stored sample_runtime w' = stored sample_runtime sample_world \<and>
     r = Inr (Some \<lparr>sr_session = sample_session, sr_user = sample_user\<rparr>)"
  using get_session_correct [OF sample_on_memory sample_world_in_order plain_call_background, of "sample_token 3"]
    sample_get_session by (simp split: prod.splits)

theorem sign_out_correct_witness:
  "case run_state (sign_out sample_auth background sample_sign_out) sample_world of (r, w') \<Rightarrow>
     in_order sample_runtime sample_auth w'"
  using sign_out_correct [OF sample_on_memory sample_world_in_order plain_call_background, of sample_sign_out]
  by (auto split: prod.splits)


lemma sample_out:
  "in_order sample_runtime sample_auth (snd (run_state (sign_out sample_auth background sample_sign_out) sample_world)) \<and>
   (\<forall>x \<in># db_sessions (stored sample_runtime (snd (run_state (sign_out sample_auth background sample_sign_out) sample_world))).
     sess_token_hash x = hash_token sample_runtime (sample_token 3) \<longrightarrow> sess_revoked x)"
proof -
  obtain r w' where run: "run_state (sign_out sample_auth background sample_sign_out) sample_world = (r, w')"
    by (rule prod.exhaust)
  with sample_sign_out_run have "r = Inr ()" by simp
  have out: "out_token sample_sign_out = sample_token 3" by (simp add: sample_sign_out_def)
  from \<open>r = Inr ()\<close> sign_out_on_memory [OF sample_on_memory sample_world_in_order plain_call_background run] show ?thesis
    by (auto simp: run no_hooks_def out)
qed


end
