(* ===== verification/Recovery_Properties.thy ===== *)
theory Recovery_Properties
  imports Core_Properties
begin

text \<open>
  Passwords, verification tokens, revocations and purging on the in-memory adapter and cache.
\<close>

text \<open>Token hashes are unique in the store.\<close>

lemma stored_uniq_tokens:
  assumes "on_memory rt a" "in_order rt a w"
  shows "uniq tok_token_hash (db_tokens (stored rt w))"
proof -
  have "mem_store_inv rt (w_db w)"
    using engine_in_order(3) [OF assms] by (simp add: engine.Inv_def [OF on_memory_engine [OF assms(1)]])
  from memstore.inv_db_ok [OF this] show ?thesis by (simp add: stored_def db_ok_def)
qed

section \<open>Revoking\<close>

text \<open>\<open>RevokeUserSessions\<close> leaves a user with at most the excepted session: after it succeeds no
  stored session of the user is active but the one with the identifier \<open>ex\<close>, and none at all
  when \<open>ex\<close> is empty; users, accounts, credentials and tokens are untouched. When it fails
  nothing has changed.\<close>

theorem revoke_user_sessions_correct:
  assumes "on_memory rt a" and "in_order rt a w" and "plain_call cx" and "plain_string uid"
  shows "case run_state (revoke_user_sessions a cx uid ex) w of (r, w') \<Rightarrow> in_order rt a w' \<and> (case r of
      Inl _ \<Rightarrow> stored rt w' = stored rt w
    | Inr _ \<Rightarrow> stored rt w' = (stored rt w)\<lparr>db_sessions := db_sessions (stored rt w')\<rparr> \<and>
        (\<forall>s \<in># db_sessions (stored rt w'). active_of uid s \<longrightarrow> ex \<noteq> [] \<and> sess_id s = ex))"
proof -
  note en = on_memory_engine [OF assms(1)]
  obtain r w' where run: "run_state (revoke_user_sessions a cx uid ex) w = (r, w')" by (rule prod.exhaust)
  have io: "in_order rt a w'"
    using engine.sound_revoke_user_sessions [OF en assms(2) [unfolded in_order_def] assms(3,4) run]
    by (simp add: in_order_def)
  note sp = engine.revoke_user_sessions_spec [OF en engine_in_order(1) [OF assms(1,2)] assms(3,4) run]
  show ?thesis
  proof (cases r)
    case (Inl e)
    with sp io show ?thesis by (simp add: run engine_words [OF assms(1)])
  next
    case (Inr u)
    with sp obtain rs where re: "engine.revoked_exactly a (mem_store_inv rt) (mem_store_view rt) uid ex rs w w'"
      by auto
    have "\<forall>s \<in># db_sessions (stored rt w'). active_of uid s \<longrightarrow> ex \<noteq> [] \<and> sess_id s = ex"
      using engine.revoked_exactly_active [OF en re] on_memory_reliable [OF assms(1)]
      by (simp add: engine_words [OF assms(1)])
    moreover from re obtain S where "stored rt w' = (stored rt w)\<lparr>db_sessions := S\<rparr>"
      unfolding engine.revoked_exactly_def [OF en] engine_words [OF assms(1)] by blast
    ultimately show ?thesis using io Inr by (simp add: run)
  qed
qed

theorem revoke_user_sessions_correct_witness:
  "case run_state (revoke_user_sessions sample_auth background (sample_id 0) []) sample_world of (r, w') \<Rightarrow>
     in_order sample_runtime sample_auth w'"
  using revoke_user_sessions_correct [OF sample_on_memory sample_world_in_order plain_call_background
      sample_id_simps(2), of 0 "[]"] by (auto split: prod.splits)

lemma all_revoked:
  "\<forall>s \<in># upd_where (\<lambda>s. sess_id s = sid) (revoke_session t) M. sess_id s = sid \<longrightarrow> sess_revoked s"
  by (induction M) (simp_all add: upd_where_def revoke_session_def sess_revoked_def)

text \<open>\<open>RevokeSession\<close> ends exactly the session with the given identifier: after it succeeds
  every stored session with that identifier is revoked, and the other sessions and all other
  entities are as they were. When it fails nothing has changed.\<close>

theorem revoke_session_correct:
  assumes "on_memory rt a" and "in_order rt a w" and "plain_call cx"
  shows "case run_state (revoke_session_by_id a cx sid) w of (r, w') \<Rightarrow> in_order rt a w' \<and> (case r of
      Inl _ \<Rightarrow> stored rt w' = stored rt w
    | Inr _ \<Rightarrow> (\<forall>s \<in># db_sessions (stored rt w'). sess_id s = sid \<longrightarrow> sess_revoked s) \<and>
        stored rt w' = (stored rt w)\<lparr>db_sessions := db_sessions (stored rt w')\<rparr> \<and>
        {#s \<in># db_sessions (stored rt w'). sess_id s \<noteq> sid#} = {#s \<in># db_sessions (stored rt w). sess_id s \<noteq> sid#})"
proof -
  note en = on_memory_engine [OF assms(1)]
  obtain r w' where run: "run_state (revoke_session_by_id a cx sid) w = (r, w')" by (rule prod.exhaust)
  have io: "in_order rt a w'"
    using engine.sound_revoke_session [OF en assms(2) [unfolded in_order_def] assms(3) run]
    by (simp add: in_order_def)
  note sp = engine.revoke_session_by_id_spec [OF en engine_in_order(1) [OF assms(1,2)] _ run]
  show ?thesis
  proof (cases r)
    case (Inl e)
    with sp io assms(3) show ?thesis by (simp add: run plain_call_def engine_words [OF assms(1)])
  next
    case (Inr u)
    with sp assms(3) have "(stored rt w' = stored rt w \<and>
        (\<forall>s \<in># db_sessions (stored rt w). sess_id s = sid \<longrightarrow> sess_revoked s)) \<or>
      (\<exists>t. stored rt w' = (stored rt w)\<lparr>db_sessions :=
          upd_where (\<lambda>s. sess_id s = sid) (revoke_session t) (db_sessions (stored rt w))\<rparr>)"
      by (simp add: plain_call_def engine_words [OF assms(1)])
    then consider "stored rt w' = stored rt w" "\<forall>s \<in># db_sessions (stored rt w). sess_id s = sid \<longrightarrow> sess_revoked s"
      | t where "stored rt w' = (stored rt w)\<lparr>db_sessions :=
          upd_where (\<lambda>s. sess_id s = sid) (revoke_session t) (db_sessions (stored rt w))\<rparr>"
      by blast
    then show ?thesis
    proof cases
      case 1
      with io Inr show ?thesis by (simp add: run)
    next
      case 2
      then have S: "db_sessions (stored rt w') =
        upd_where (\<lambda>s. sess_id s = sid) (revoke_session t) (db_sessions (stored rt w))" by simp
      have A: "\<forall>s \<in># db_sessions (stored rt w'). sess_id s = sid \<longrightarrow> sess_revoked s"
        unfolding S by (rule all_revoked)
      have B: "{#s \<in># db_sessions (stored rt w'). sess_id s \<noteq> sid#} = {#s \<in># db_sessions (stored rt w). sess_id s \<noteq> sid#}"
        unfolding S by (rule untouched_others) simp
      have C: "stored rt w' = (stored rt w)\<lparr>db_sessions := db_sessions (stored rt w')\<rparr>"
        unfolding S by (rule 2)
      show ?thesis unfolding run Inr prod.case sum.case by (intro conjI io A B C)
    qed
  qed
qed

text \<open>The sample session is revoked by its identifier.\<close>

theorem revoke_session_correct_witness:
  "case run_state (revoke_session_by_id sample_auth background (sample_id 4)) sample_world of (r, w') \<Rightarrow>
     in_order sample_runtime sample_auth w'"
  using revoke_session_correct [OF sample_on_memory sample_world_in_order plain_call_background, of "sample_id 4"]
  by (auto split: prod.splits)

section \<open>Changing and resetting passwords\<close>

text \<open>C6: \<open>ChangePassword\<close> needs the current password and rotates the credential: when it succeeds
  the new password met the policy, the hasher had accepted the current password for the active
  credential, that credential is revoked and a new one with the hash of the new password is
  active, and - unless other sessions are kept - no session of the user is active but the
  current one. When it fails the store is as it was.\<close>

theorem change_password_correct:
  assumes "on_memory rt a" and "in_order rt a w" and "plain_call cx" and "plain_string (chg_user_id inp)"
  shows "case run_state (change_password a cx inp) w of (r, w') \<Rightarrow> in_order rt a w' \<and> (case r of
      Inl _ \<Rightarrow> stored rt w' = stored rt w
    | Inr _ \<Rightarrow> (\<exists>c hash. password_in (stored rt w) (chg_user_id inp) c \<and>
          hasher_accepts a cx (cred_secret c) (chg_current_password inp) \<and>
          check_password_policy a (chg_new_password inp) = Inr () \<and>
          hashes_to a cx (chg_new_password inp) hash \<and>
          credential_rotated (chg_user_id inp) hash (stored rt w) (stored rt w')) \<and>
        db_users (stored rt w') = db_users (stored rt w) \<and>
        (if chg_keep_other_sessions inp then db_sessions (stored rt w') = db_sessions (stored rt w)
         else \<forall>s \<in># db_sessions (stored rt w'). active_of (chg_user_id inp) s \<longrightarrow>
           chg_current_session_id inp \<noteq> [] \<and> sess_id s = chg_current_session_id inp))"
proof -
  note en = on_memory_engine [OF assms(1)]
  obtain r w' where run: "run_state (change_password a cx inp) w = (r, w')" by (rule prod.exhaust)
  have io: "in_order rt a w'"
    using engine.sound_change_password [OF en assms(2) [unfolded in_order_def] assms(3,4) run]
    by (simp add: in_order_def)
  note sp = engine.change_password_spec [OF en engine_in_order(1) [OF assms(1,2)] assms(3,4) run]
  show ?thesis
  proof (cases r)
    case (Inl e)
    with sp io show ?thesis by (simp add: run engine_words [OF assms(1)])
  next
    case (Inr u)
    have pol: "check_password_policy a (chg_new_password inp) = Inr ()"
      using run Inr by (cases "check_password_policy a (chg_new_password inp)") (auto simp: change_password_def)
    note sp' = sp [unfolded Inr sum.case engine_words [OF assms(1)]]
    have A: "\<exists>c hash. password_in (stored rt w) (chg_user_id inp) c \<and>
          hasher_accepts a cx (cred_secret c) (chg_current_password inp) \<and>
          check_password_policy a (chg_new_password inp) = Inr () \<and>
          hashes_to a cx (chg_new_password inp) hash \<and>
          credential_rotated (chg_user_id inp) hash (stored rt w) (stored rt w')"
      using sp' pol unfolding hashes_to_def by blast
    have B: "if chg_keep_other_sessions inp then db_sessions (stored rt w') = db_sessions (stored rt w)
         else \<forall>s \<in># db_sessions (stored rt w'). active_of (chg_user_id inp) s \<longrightarrow>
           chg_current_session_id inp \<noteq> [] \<and> sess_id s = chg_current_session_id inp"
    proof (cases "chg_keep_other_sessions inp")
      case True
      with sp' show ?thesis by simp
    next
      case False
      with sp' obtain rs w1 where "engine.revoked_exactly a (mem_store_inv rt) (mem_store_view rt)
          (chg_user_id inp) (chg_current_session_id inp) rs w1 w'" by auto
      from engine.revoked_exactly_active [OF en this] on_memory_reliable [OF assms(1)] False
      show ?thesis by (simp add: engine_words [OF assms(1)])
    qed
    from sp' have C: "db_users (stored rt w') = db_users (stored rt w)" by simp
    show ?thesis unfolding run Inr prod.case sum.case by (intro conjI io A B C)
  qed
qed

definition sample_change :: change_password_input where
  "sample_change = \<lparr>chg_user_id = sample_id 0, chg_current_password = ''secret'',
     chg_new_password = ''changed'', chg_current_session_id = sample_id 4, chg_keep_other_sessions = False\<rparr>"

theorem change_password_correct_witness:
  "case run_state (change_password sample_auth background sample_change) sample_world of (r, w') \<Rightarrow>
     in_order sample_runtime sample_auth w'"
  using change_password_correct [OF sample_on_memory sample_world_in_order plain_call_background, of sample_change]
  by (auto split: prod.splits simp: sample_change_def)

text \<open>C1: \<open>ResetPassword\<close> is safe: when it succeeds, the token was stored for resets, unused and not
  expired; afterwards it is used, the active credential of its subject has been rotated to the
  hash of the new password, and no session of the subject is active any more. When it fails -
  whatever the step - the store is as it was, so the token has not been spent.\<close>

theorem reset_password_correct:
  assumes "on_memory rt a" and "in_order rt a w" and "plain_call cx"
  shows "case run_state (reset_password a cx inp) w of (r, w') \<Rightarrow> in_order rt a w' \<and> (case r of
      Inl _ \<Rightarrow> stored rt w' = stored rt w
    | Inr _ \<Rightarrow> \<exists>y t hash. y \<in># db_tokens (stored rt w) \<and> tok_token_hash y = hash_token rt (rst_token inp) \<and>
        tok_purpose y = PurposePasswordReset \<and> tok_used_at y = None \<and> t < tok_expires_at y \<and>
        check_password_policy a (rst_new_password inp) = Inr () \<and>
        hashes_to a cx (rst_new_password inp) hash \<and>
        db_tokens (stored rt w') = upd_where (\<lambda>z. tok_id z = tok_id y \<and> tok_used_at z = None) (use_token t)
          (db_tokens (stored rt w)) \<and>
        credential_rotated (tok_subject y) hash (stored rt w) (stored rt w') \<and>
        db_users (stored rt w') = db_users (stored rt w) \<and>
        (\<forall>s \<in># db_sessions (stored rt w'). sess_user_id s = tok_subject y \<longrightarrow> sess_revoked s))"
proof -
  note en = on_memory_engine [OF assms(1)]
  obtain r w' where run: "run_state (reset_password a cx inp) w = (r, w')" by (rule prod.exhaust)
  have io: "in_order rt a w'"
    using engine.sound_reset_password [OF en assms(2) [unfolded in_order_def] assms(3) run]
    by (simp add: in_order_def)
  note sp = engine.reset_password_spec [OF en engine_in_order(1) [OF assms(1,2)] assms(3)
      engine_in_order(2) [OF assms(1,2)] run]
  show ?thesis
  proof (cases r)
    case (Inl e)
    with sp io show ?thesis by (simp add: run engine_words [OF assms(1)])
  next
    case (Inr u)
    from sp obtain hash uid rs where h: "hashes_to a cx (rst_new_password inp) hash"
        "check_password_policy a (rst_new_password inp) = Inr ()"
      and d: "engine.reset_done a (mem_store_inv rt) (mem_store_view rt) inp hash w uid rs w'"
      unfolding Inr sum.case hashes_to_def by blast
    from d obtain y t w1 where
      y: "engine.usable a (mem_store_view rt) w PurposePasswordReset (rst_token inp) t y" "tok_subject y = uid"
        "engine.token_spent (mem_store_view rt) y t w w'"
        "credential_rotated uid hash (stored rt w) (stored rt w')"
        "db_users (stored rt w') = db_users (stored rt w)"
        "engine.revoked_exactly a (mem_store_inv rt) (mem_store_view rt) uid [] rs w1 w'"
      unfolding engine.reset_done_def [OF en] engine_words [OF assms(1)] by blast
    have S: "\<forall>s \<in># db_sessions (stored rt w'). sess_user_id s = tok_subject y \<longrightarrow> sess_revoked s"
      using engine.revoked_exactly_active [OF en y(6)] on_memory_reliable [OF assms(1)] y(2)
      by (fastforce simp: engine_words [OF assms(1)] active_of_def sess_revoked_def)
    show ?thesis
      unfolding run Inr prod.case sum.case
      using y(1,3,4,5) h S io y(2)
      unfolding engine.usable_def [OF en] engine.token_spent_def [OF en] engine_words [OF assms(1)] by blast
  qed
qed

theorem reset_password_correct_witness:
  "case run_state (reset_password sample_auth background sample_reset) sample_issued of (r, w') \<Rightarrow>
     r = Inr () \<and> in_order sample_runtime sample_auth w' \<and>
     (\<exists>y \<in># db_tokens (stored sample_runtime sample_issued). tok_purpose y = PurposePasswordReset)"
  using reset_password_correct [OF sample_on_memory sample_issued_in_order plain_call_background, of sample_reset]
    sample_reset_run by (auto split: prod.splits)

section \<open>Verification tokens\<close>

text \<open>A token that \<open>IssueToken\<close> returns is stored by its hash only, unused, for exactly the
  purpose and subject asked for, expiring \<open>ttl\<close> after the time of the call, and no other stored
  token has that hash. A failed call stores nothing.\<close>

theorem issue_token_correct:
  assumes "on_memory rt a" and "in_order rt a w"
  shows "case run_state (issue_token a p sub ttl) w of (r, w') \<Rightarrow> (case r of
      Inl _ \<Rightarrow> stored rt w' = stored rt w
    | Inr tk \<Rightarrow> tk \<noteq> [] \<and> 0 < ttl \<and> (\<exists>x. stored rt w' = (stored rt w)\<lparr>db_tokens := add_mset x (db_tokens (stored rt w))\<rparr> \<and>
        tok_token_hash x = hash_token rt tk \<and> tok_purpose x = p \<and> tok_subject x = sub \<and>
        tok_used_at x = None \<and> tok_expires_at x = au_now a (w_clock w) + ttl \<and>
        (\<forall>y \<in># db_tokens (stored rt w). tok_token_hash y \<noteq> tok_token_hash x)))"
proof -
  note en = on_memory_engine [OF assms(1)]
  obtain r w' where run: "run_state (issue_token a p sub ttl) w = (r, w')" by (rule prod.exhaust)
  from engine.issue_token_spec [OF en engine_in_order(3) [OF assms] run] show ?thesis
    by (cases r) (auto simp: run engine_words [OF assms(1)])
qed

theorem issue_token_correct_witness:
  "case run_state (issue_token sample_auth ''invite'' (sample_id 0) minute) sample_world of (r, w') \<Rightarrow>
     (\<forall>tk. r = Inr tk \<longrightarrow> tk \<noteq> [])"
  using issue_token_correct [OF sample_on_memory sample_world_in_order, where p = "''invite''" and sub = "sample_id 0" and ttl = minute]
  by (auto split: prod.splits)

lemma consume_token_on_memory:
  assumes "on_memory rt a" and "in_order rt a w" and run: "run_state (consume_token a p tk) w = (r, w')"
  shows "in_order rt a w' \<and> (case r of
      Inl _ \<Rightarrow> stored rt w' = stored rt w
    | Inr x \<Rightarrow> \<exists>y t. y \<in># db_tokens (stored rt w) \<and> tok_token_hash y = hash_token rt tk \<and> tok_purpose y = p \<and>
        tok_used_at y = None \<and> t < tok_expires_at y \<and> x = use_token t y \<and>
        stored rt w' = (stored rt w)\<lparr>db_tokens :=
          upd_where (\<lambda>z. tok_id z = tok_id y \<and> tok_used_at z = None) (use_token t) (db_tokens (stored rt w))\<rparr>)"
proof -
  note en = on_memory_engine [OF assms(1)]
  have "in_order rt a w'"
    using engine.sound_consume_token [OF en assms(2) [unfolded in_order_def] run] by (simp add: in_order_def)
  with engine.consume_token_spec [OF en engine_in_order(3) [OF assms(1,2)] run] show ?thesis
    by (cases r) (auto simp: engine_words [OF assms(1)])
qed



section \<open>Emails\<close>

text \<open>\<open>VerifyEmail\<close> marks exactly the user the token was issued for: when it succeeds, the token
  was stored for email verification, unused and unexpired, and is used afterwards; the user it
  returns is that user, now verified; every other user, and all accounts, credentials and
  sessions, are as they were. When it fails nothing has changed.\<close>

theorem verify_email_correct:
  assumes "on_memory rt a" and "in_order rt a w" and "plain_call cx"
  shows "case run_state (verify_email a cx tk) w of (r, w') \<Rightarrow> in_order rt a w' \<and> (case r of
      Inl _ \<Rightarrow> stored rt w' = stored rt w
    | Inr v \<Rightarrow> \<exists>y t u. y \<in># db_tokens (stored rt w) \<and> tok_token_hash y = hash_token rt tk \<and>
        tok_purpose y = PurposeEmailVerification \<and> tok_used_at y = None \<and> t < tok_expires_at y \<and>
        db_tokens (stored rt w') = upd_where (\<lambda>z. tok_id z = tok_id y \<and> tok_used_at z = None) (use_token t)
          (db_tokens (stored rt w)) \<and>
        u \<in># db_users (stored rt w) \<and> user_id u = tok_subject y \<and> user_id v = user_id u \<and>
        user_email v = user_email u \<and> user_email_verified v \<and>
        db_users (stored rt w') = (if user_email_verified u then db_users (stored rt w)
          else upd_where (\<lambda>x. user_id x = user_id u) (set_user v) (db_users (stored rt w))) \<and>
        db_accounts (stored rt w') = db_accounts (stored rt w) \<and>
        db_credentials (stored rt w') = db_credentials (stored rt w) \<and>
        db_sessions (stored rt w') = db_sessions (stored rt w))"
proof -
  note en = on_memory_engine [OF assms(1)]
  obtain r w' where run: "run_state (verify_email a cx tk) w = (r, w')" by (rule prod.exhaust)
  have io: "in_order rt a w'"
    using engine.sound_verify_email [OF en assms(2) [unfolded in_order_def] assms(3) run]
    by (simp add: in_order_def)
  note sp = engine.verify_email_spec [OF en engine_in_order(1) [OF assms(1,2)] assms(3) run]
  show ?thesis
  proof (cases r)
    case (Inl e)
    with sp io show ?thesis by (simp add: run engine_words [OF assms(1)])
  next
    case (Inr v)
    from sp have vd: "engine.verified_db a (mem_store_view rt) tk w v w'" unfolding Inr sum.case by blast
    then obtain y t u where v:
      "engine.usable a (mem_store_view rt) w PurposeEmailVerification tk t y"
      "engine.token_spent (mem_store_view rt) y t w w'"
      "u \<in># db_users (stored rt w)" "user_id u = tok_subject y" "user_id v = user_id u"
      "user_email v = user_email u" "user_email_verified v"
      "db_accounts (stored rt w') = db_accounts (stored rt w)"
      "db_credentials (stored rt w') = db_credentials (stored rt w)"
      "db_sessions (stored rt w') = db_sessions (stored rt w)"
      "db_users (stored rt w') = (if user_email_verified u then db_users (stored rt w)
         else upd_where (\<lambda>x. user_id x = user_id v) (set_user v) (db_users (stored rt w)))"
      unfolding engine.verified_db_def [OF en] engine_words [OF assms(1)] by (elim exE conjE)
    show ?thesis
      unfolding run Inr prod.case sum.case
      by (intro conjI io exI [of _ y] exI [of _ t] exI [of _ u])
        (use v in \<open>simp_all add: engine.usable_def [OF en] engine.token_spent_def [OF en] engine_words [OF assms(1)]\<close>)
  qed
qed

theorem verify_email_correct_witness:
  "case run_state (verify_email sample_auth background (sample_token 5)) sample_issued of (r, w') \<Rightarrow>
     in_order sample_runtime sample_auth w'"
  using verify_email_correct [OF sample_on_memory sample_issued_in_order plain_call_background, of "sample_token 5"]
  by (auto split: prod.splits)

text \<open>Asking for a password reset changes nothing but verification tokens, and those only for the
  stored user with that email who has an active password; so users, accounts, credentials and
  sessions are never touched by an unauthenticated caller.\<close>

theorem request_password_reset_correct:
  assumes "on_memory rt a" and "in_order rt a w" and "plain_call cx"
  shows "case run_state (request_password_reset a cx email) w of (r, w') \<Rightarrow> in_order rt a w' \<and>
    (\<exists>T. stored rt w' = (stored rt w)\<lparr>db_tokens := T\<rparr>) \<and>
    (stored rt w' \<noteq> stored rt w \<longrightarrow> (\<exists>u c. u \<in># db_users (stored rt w) \<and>
       normalize_email rt email = Inr (user_email u) \<and> password_in (stored rt w) (user_id u) c))"
proof -
  note en = on_memory_engine [OF assms(1)]
  obtain r w' where run: "run_state (request_password_reset a cx email) w = (r, w')" by (rule prod.exhaust)
  have io: "in_order rt a w'"
    using engine.sound_request_reset [OF en assms(2) [unfolded in_order_def] run] by (simp add: in_order_def)
  with engine.request_password_reset_spec [OF en engine_in_order(1) [OF assms(1,2)] run]
  show ?thesis unfolding run prod.case engine_words [OF assms(1)] by blast
qed

theorem request_password_reset_correct_witness:
  "case run_state (request_password_reset sample_auth background ''A@b'') sample_world of (r, w') \<Rightarrow>
     in_order sample_runtime sample_auth w' \<and>
     db_users (stored sample_runtime w') = db_users (stored sample_runtime sample_world)"
  using request_password_reset_correct [OF sample_on_memory sample_world_in_order plain_call_background, of "''A@b''"]
  by (auto split: prod.splits)

section \<open>Purging\<close>

text \<open>\<open>PurgeExpired\<close> without errors removes exactly the sessions and tokens that had expired at the
  time of the call, and reports how many of each; a session that is still alive is never
  removed.\<close>

theorem purge_expired_correct:
  assumes "on_memory rt a" and "in_order rt a w"
  shows "case run_state (purge_expired a) w of ((n, m, es), w') \<Rightarrow> in_order rt a w' \<and>
    (es = [] \<longrightarrow> (let t = au_now a (w_clock w) in
      n = int (size {#x \<in># db_sessions (stored rt w). sess_expires_at x < t#}) \<and>
      m = int (size {#x \<in># db_tokens (stored rt w). tok_expires_at x < t#}) \<and>
      stored rt w' = (stored rt w)\<lparr>db_sessions := {#x \<in># db_sessions (stored rt w). \<not> sess_expires_at x < t#},
                   db_tokens := {#x \<in># db_tokens (stored rt w). \<not> tok_expires_at x < t#}\<rparr>))"
proof -
  note en = on_memory_engine [OF assms(1)]
  obtain r w' where run: "run_state (purge_expired a) w = (r, w')" by (rule prod.exhaust)
  obtain n m es where r: "r = (n, m, es)" by (metis prod_cases3)
  have io: "in_order rt a w'"
    using engine.sound_purge [OF en assms(2) [unfolded in_order_def] run] by (simp add: in_order_def)
  with engine.purge_expired_spec [OF en engine_in_order(1) [OF assms(1,2)] run]
  show ?thesis by (simp add: run r engine_words [OF assms(1)])
qed

theorem purge_expired_correct_witness:
  "case run_state (purge_expired sample_auth) sample_issued of (r, w') \<Rightarrow>
     in_order sample_runtime sample_auth w'"
  using purge_expired_correct [OF sample_on_memory sample_issued_in_order] by (auto split: prod.splits)

section \<open>Reachability\<close>



end
