(* ===== verification/Plugin_Order.thy ===== *)
theory Plugin_Order
  imports Go_Prelude
begin

text \<open>
  \<open>initOrder\<close> (\<open>plugin.go\<close>): the depth-first search that puts the plugin modules in an order in
  which every module comes after the modules it depends on.
\<close>

section \<open>The search\<close>

text \<open>
  What the search looks at: a module's \<open>ID()\<close> and, for a \<open>Dependent\<close>, its \<open>Dependencies()\<close>.
  \<open>plugin_module\<close> in \<open>Plugin_Host\<close> extends the record with the rest of a module.
\<close>

record dependent =
  mod_id :: string
  mod_dependencies :: "string list option"

definition dependencies :: "'a dependent_scheme \<Rightarrow> string list" where
  "dependencies m = (case mod_dependencies m of None \<Rightarrow> [] | Some ds \<Rightarrow> ds)"

text \<open>Both errors wrap \<open>ErrPluginDependency\<close>; they carry what their messages show.\<close>

datatype dependency_error =
    Dependency_Cycle "string list"
  | Missing_Dependency string string

datatype mark = Unvisited | Visiting | Visited

type_synonym 'a visit_state = "(string \<Rightarrow> mark) \<times> 'a dependent_scheme list"

text \<open>
  The loop over the dependencies of the module \<open>i\<close>, with \<open>v\<close> the recursive call. The search
  runs on fuel and answers \<open>None\<close> when it is used up; \<open>init_order\<close> gives it one more than
  there are modules, which is enough (\<open>visit_spec\<close>).
\<close>

fun visit_deps ::
  "('a dependent_scheme \<Rightarrow> string list \<Rightarrow> 'a visit_state \<Rightarrow> (dependency_error + 'a visit_state) option) \<Rightarrow>
   (string \<rightharpoonup> 'a dependent_scheme) \<Rightarrow> string \<Rightarrow> string list \<Rightarrow> string list \<Rightarrow> 'a visit_state \<Rightarrow>
   (dependency_error + 'a visit_state) option" where
  "visit_deps v by_id i path [] s = Some (Inr s)"
| "visit_deps v by_id i path (d # ds) s =
     (case by_id d of
        None \<Rightarrow> Some (Inl (Missing_Dependency i d))
      | Some dm \<Rightarrow>
          (case v dm (path @ [i]) s of
             None \<Rightarrow> None
           | Some (Inl e) \<Rightarrow> Some (Inl e)
           | Some (Inr s') \<Rightarrow> visit_deps v by_id i path ds s'))"

fun visit ::
  "nat \<Rightarrow> (string \<rightharpoonup> 'a dependent_scheme) \<Rightarrow> 'a dependent_scheme \<Rightarrow> string list \<Rightarrow> 'a visit_state \<Rightarrow>
   (dependency_error + 'a visit_state) option" where
  "visit 0 by_id m path s = None"
| "visit (Suc n) by_id m path (st, order) =
     (case st (mod_id m) of
        Visited \<Rightarrow> Some (Inr (st, order))
      | Visiting \<Rightarrow> Some (Inl (Dependency_Cycle (path @ [mod_id m])))
      | Unvisited \<Rightarrow>
          (case visit_deps (visit n by_id) by_id (mod_id m) path (dependencies m)
                  (st(mod_id m := Visiting), order) of
             None \<Rightarrow> None
           | Some (Inl e) \<Rightarrow> Some (Inl e)
           | Some (Inr (st', order')) \<Rightarrow> Some (Inr (st'(mod_id m := Visited), order' @ [m]))))"

fun visit_all ::
  "nat \<Rightarrow> (string \<rightharpoonup> 'a dependent_scheme) \<Rightarrow> 'a dependent_scheme list \<Rightarrow> 'a visit_state \<Rightarrow>
   (dependency_error + 'a visit_state) option" where
  "visit_all n by_id [] s = Some (Inr s)"
| "visit_all n by_id (m # ms) s =
     (case visit n by_id m [] s of
        None \<Rightarrow> None
      | Some (Inl e) \<Rightarrow> Some (Inl e)
      | Some (Inr s') \<Rightarrow> visit_all n by_id ms s')"

definition init_order ::
  "'a dependent_scheme list \<Rightarrow> (string \<rightharpoonup> 'a dependent_scheme) \<Rightarrow>
   (dependency_error + 'a dependent_scheme list) option" where
  "init_order modules by_id =
     map_option (map_sum id snd) (visit_all (Suc (length modules)) by_id modules (\<lambda>_. Unvisited, []))"

text \<open>The index \<open>byID\<close> that \<open>initPlugins\<close> builds in its first loop.\<close>

definition index_modules :: "'a dependent_scheme list \<Rightarrow> (string \<rightharpoonup> 'a dependent_scheme)" where
  "index_modules ms = foldl (\<lambda>f m. f(mod_id m \<mapsto> m)) Map.empty ms"

section \<open>What an order and an error have to satisfy\<close>

definition depends_on :: "(string \<rightharpoonup> 'a dependent_scheme) \<Rightarrow> string \<Rightarrow> string \<Rightarrow> bool" where
  "depends_on by_id i j \<longleftrightarrow> (\<exists>m. by_id i = Some m \<and> j \<in> set (dependencies m))"

definition deps_first :: "'a dependent_scheme list \<Rightarrow> bool" where
  "deps_first order \<longleftrightarrow>
     (\<forall>xs m ys. order = xs @ m # ys \<longrightarrow> set (dependencies m) \<subseteq> mod_id ` set xs)"

text \<open>An error is right when what it reports is the case.\<close>

fun error_right :: "(string \<rightharpoonup> 'a dependent_scheme) \<Rightarrow> dependency_error \<Rightarrow> bool" where
  "error_right by_id (Missing_Dependency i d) \<longleftrightarrow> depends_on by_id i d \<and> by_id d = None"
| "error_right by_id (Dependency_Cycle p) \<longleftrightarrow>
     (\<exists>q i. p = q @ [i] \<and> i \<in> set q) \<and> successively (depends_on by_id) p"

lemma deps_first_Nil [simp]: "deps_first []"
  by (simp add: deps_first_def)

lemma deps_first_snoc [simp]:
  "deps_first (xs @ [m]) \<longleftrightarrow> deps_first xs \<and> set (dependencies m) \<subseteq> mod_id ` set xs"
proof
  assume *: "deps_first (xs @ [m])"
  have "deps_first xs" unfolding deps_first_def
  proof (intro allI impI)
    fix us x vs assume "xs = us @ x # vs"
    then have "xs @ [m] = us @ x # (vs @ [m])" by simp
    with * show "set (dependencies x) \<subseteq> mod_id ` set us" unfolding deps_first_def by blast
  qed
  with * show "deps_first xs \<and> set (dependencies m) \<subseteq> mod_id ` set xs"
    unfolding deps_first_def by blast
next
  assume *: "deps_first xs \<and> set (dependencies m) \<subseteq> mod_id ` set xs"
  show "deps_first (xs @ [m])" unfolding deps_first_def
  proof (intro allI impI)
    fix us x vs assume "xs @ [m] = us @ x # vs"
    then consider "vs = []" "us = xs" "x = m" | ws where "vs = ws @ [m]" "xs = us @ x # ws"
      by (cases vs rule: rev_cases) auto
    then show "set (dependencies x) \<subseteq> mod_id ` set us"
    proof cases
      case 1
      with * show ?thesis by simp
    next
      case 2
      with * show ?thesis unfolding deps_first_def by blast
    qed
  qed
qed

lemma index_modules_snoc: "index_modules (ms @ [m]) = (index_modules ms)(mod_id m \<mapsto> m)"
  by (simp add: index_modules_def)

lemma index_modules_dom: "dom (index_modules ms) = mod_id ` set ms"
proof (induction ms rule: rev_induct)
  case Nil
  show ?case by (simp add: index_modules_def)
next
  case (snoc x xs)
  have "dom (f(k \<mapsto> v)) = insert k (dom f)" for f k and v :: "'a dependent_scheme" by auto
  with snoc show ?case by (simp add: index_modules_snoc del: fun_upd_apply)
qed

lemma index_modules_in:
  "distinct (map mod_id ms) \<Longrightarrow> index_modules ms i = Some m \<longleftrightarrow> m \<in> set ms \<and> mod_id m = i"
proof (induction ms rule: rev_induct)
  case Nil
  show ?case by (simp add: index_modules_def)
next
  case (snoc x xs)
  then have "mod_id x \<notin> mod_id ` set xs" "index_modules xs i = Some m \<longleftrightarrow> m \<in> set xs \<and> mod_id m = i"
    by auto
  then show ?case by (cases "i = mod_id x") (auto simp: index_modules_snoc image_iff)
qed

section \<open>The invariant of the search\<close>

definition search_ok :: "(string \<rightharpoonup> 'a dependent_scheme) \<Rightarrow> string list \<Rightarrow> 'a visit_state \<Rightarrow> bool" where
  "search_ok by_id path s \<longleftrightarrow>
     (\<forall>i. fst s i = Visited \<longleftrightarrow> i \<in> mod_id ` set (snd s)) \<and>
     (\<forall>i. fst s i = Visiting \<longleftrightarrow> i \<in> set path) \<and>
     distinct (map mod_id (snd s)) \<and> (\<forall>m \<in> set (snd s). by_id (mod_id m) = Some m) \<and> deps_first (snd s)"

text \<open>The path leads along dependencies to the module that is visited, and never twice to one.\<close>

definition path_ok :: "(string \<rightharpoonup> 'a dependent_scheme) \<Rightarrow> string list \<Rightarrow> string \<Rightarrow> bool" where
  "path_ok by_id path i \<longleftrightarrow>
     distinct path \<and> set path \<subseteq> dom by_id \<and> successively (depends_on by_id) (path @ [i])"

text \<open>What a visit that ends in \<open>r\<close> has done to the search.\<close>

definition advanced ::
  "(string \<rightharpoonup> 'a dependent_scheme) \<Rightarrow> string list \<Rightarrow> string set \<Rightarrow> 'a visit_state \<Rightarrow>
   dependency_error + 'a visit_state \<Rightarrow> bool" where
  "advanced by_id path V s r \<longleftrightarrow>
     (case r of
        Inl e \<Rightarrow> error_right by_id e
      | Inr s' \<Rightarrow> search_ok by_id path s' \<and> (\<forall>i. fst s i = Visited \<longrightarrow> fst s' i = Visited) \<and>
          (\<forall>i \<in> V. fst s' i = Visited))"

lemma path_length:
  assumes "finite (dom by_id)" "distinct path" "set path \<subseteq> dom by_id"
  shows "length path \<le> card (dom by_id)"
  using card_mono [OF assms(1,3)] distinct_card [OF assms(2)] by simp

lemma visit_deps_spec:
  assumes v: "\<And>dm s. by_id (mod_id dm) = Some dm \<Longrightarrow> depends_on by_id i (mod_id dm) \<Longrightarrow>
      search_ok by_id (path @ [i]) s \<Longrightarrow>
      \<exists>r. v dm (path @ [i]) s = Some r \<and> advanced by_id (path @ [i]) {mod_id dm} s r"
    and ids: "\<And>j dm. by_id j = Some dm \<Longrightarrow> mod_id dm = j"
    and ds: "\<forall>d \<in> set ds. depends_on by_id i d"
    and s: "search_ok by_id (path @ [i]) s"
  shows "\<exists>r. visit_deps v by_id i path ds s = Some r \<and> advanced by_id (path @ [i]) (set ds) s r"
  using ds s
proof (induction ds arbitrary: s)
  case Nil
  then show ?case by (simp add: advanced_def)
next
  case (Cons d ds)
  show ?case
  proof (cases "by_id d")
    case None
    with Cons.prems show ?thesis by (simp add: advanced_def)
  next
    case (Some dm)
    have d: "mod_id dm = d" using ids [OF Some] .
    then obtain r where r: "v dm (path @ [i]) s = Some r" "advanced by_id (path @ [i]) {d} s r"
      using v [of dm s] Some Cons.prems by auto
    show ?thesis
    proof (cases r)
      case (Inl e)
      with r Some show ?thesis by (simp add: advanced_def)
    next
      case (Inr s')
      with r have s': "search_ok by_id (path @ [i]) s'" "fst s' d = Visited"
        "\<forall>j. fst s j = Visited \<longrightarrow> fst s' j = Visited" by (simp_all add: advanced_def)
      from Cons.IH [OF _ s'(1)] Cons.prems obtain r2 where
        "visit_deps v by_id i path ds s' = Some r2" "advanced by_id (path @ [i]) (set ds) s' r2" by auto
      with s' r Inr Some show ?thesis by (cases r2) (auto simp: advanced_def)
    qed
  qed
qed

text \<open>A visit ends within the fuel and advances the search.\<close>

lemma visit_spec:
  assumes "finite (dom by_id)" and ids: "\<And>j dm. by_id j = Some dm \<Longrightarrow> mod_id dm = j"
    and "by_id (mod_id m) = Some m" "search_ok by_id path s" "path_ok by_id path (mod_id m)"
    and "card (dom by_id) < n + length path"
  shows "\<exists>r. visit n by_id m path s = Some r \<and> advanced by_id path {mod_id m} s r"
  using assms(3-)
proof (induction n arbitrary: m path s)
  case 0
  then show ?case using path_length [OF assms(1)] by (fastforce simp: path_ok_def)
next
  case (Suc n)
  obtain st order where s: "s = (st, order)" by (cases s)
  let ?i = "mod_id m"
  show ?case
  proof (cases "st ?i")
    case Visited
    with Suc.prems show ?thesis by (simp add: s advanced_def)
  next
    case Visiting
    with Suc.prems(2) have "?i \<in> set path" by (simp add: s search_ok_def)
    with Visiting Suc.prems(3) show ?thesis by (auto simp: s advanced_def path_ok_def)
  next
    case Unvisited
    let ?s = "(st(?i := Visiting), order)"
    have fresh: "?i \<notin> set path" "?i \<notin> mod_id ` set order"
      using Unvisited Suc.prems(2) unfolding search_ok_def s by (metis fst_conv mark.distinct(1,3) snd_conv)+
    have s1: "search_ok by_id (path @ [?i]) ?s"
      using Suc.prems(2) fresh by (auto simp: s search_ok_def)
    have "\<exists>r. visit_deps (visit n by_id) by_id ?i path (dependencies m) ?s = Some r \<and>
        advanced by_id (path @ [?i]) (set (dependencies m)) ?s r"
    proof (rule visit_deps_spec [OF _ ids _ s1])
      fix dm s' assume dm: "by_id (mod_id dm) = Some dm" "depends_on by_id ?i (mod_id dm)"
        and "search_ok by_id (path @ [?i]) s'"
      moreover have "path_ok by_id (path @ [?i]) (mod_id dm)"
        using Suc.prems(1,3) dm(2) fresh by (auto simp: path_ok_def successively_append_iff)
      ultimately show "\<exists>r. visit n by_id dm (path @ [?i]) s' = Some r \<and>
          advanced by_id (path @ [?i]) {mod_id dm} s' r"
        using Suc.IH [where m = dm and s = s' and path = "path @ [?i]"] Suc.prems(4) by auto
    next
      show "\<forall>d \<in> set (dependencies m). depends_on by_id ?i d"
        using Suc.prems(1) by (simp add: depends_on_def)
    qed auto
    then obtain r where r: "visit_deps (visit n by_id) by_id ?i path (dependencies m) ?s = Some r"
      "advanced by_id (path @ [?i]) (set (dependencies m)) ?s r" by auto
    show ?thesis
    proof (cases r)
      case (Inl e)
      with r Unvisited show ?thesis by (simp add: s advanced_def)
    next
      case (Inr s')
      obtain st' order' where s': "s' = (st', order')" by (cases s')
      from r(2) have A: "search_ok by_id (path @ [?i]) (st', order')"
        "\<forall>j. (st(?i := Visiting)) j = Visited \<longrightarrow> st' j = Visited"
        "\<forall>d \<in> set (dependencies m). st' d = Visited" by (simp_all add: advanced_def Inr s')
      then have "st' ?i = Visiting" by (simp add: search_ok_def)
      with A(1) have "?i \<notin> mod_id ` set order'" unfolding search_ok_def by (metis fst_conv mark.distinct(5) snd_conv)
      then have "search_ok by_id path (st'(?i := Visited), order' @ [m])"
        using A(1,3) Suc.prems(1) fresh by (auto simp: search_ok_def)
      moreover have "\<forall>j. st j = Visited \<longrightarrow> (st'(?i := Visited)) j = Visited"
        using A(2) Unvisited by auto
      ultimately show ?thesis using r(1) Unvisited by (simp add: s Inr s' advanced_def)
    qed
  qed
qed

section \<open>The whole search\<close>

lemma visit_all_spec:
  assumes "finite (dom by_id)" and ids: "\<And>j dm. by_id j = Some dm \<Longrightarrow> mod_id dm = j"
    and "\<forall>m \<in> set ms. by_id (mod_id m) = Some m" "search_ok by_id [] s" "card (dom by_id) < n"
  shows "\<exists>r. visit_all n by_id ms s = Some r \<and> advanced by_id [] (mod_id ` set ms) s r"
  using assms(3-)
proof (induction ms arbitrary: s)
  case Nil
  then show ?case by (simp add: advanced_def)
next
  case (Cons m ms)
  then obtain r where r: "visit n by_id m [] s = Some r" "advanced by_id [] {mod_id m} s r"
    using visit_spec [OF assms(1) ids, of m "[]" s n] by (auto simp: path_ok_def)
  show ?case
  proof (cases r)
    case (Inl e)
    with r show ?thesis by (simp add: advanced_def)
  next
    case (Inr s')
    with r(2) have s': "search_ok by_id [] s'" "fst s' (mod_id m) = Visited"
      "\<forall>i. fst s i = Visited \<longrightarrow> fst s' i = Visited" by (simp_all add: advanced_def)
    from Cons.IH [OF _ s'(1)] Cons.prems obtain r2 where
      "visit_all n by_id ms s' = Some r2" "advanced by_id [] (mod_id ` set ms) s' r2" by auto
    with s' r Inr show ?thesis by (cases r2) (auto simp: advanced_def)
  qed
qed

lemma search_start: "search_ok by_id [] (\<lambda>_. Unvisited, [])"
  by (simp add: search_ok_def)

lemma init_order_run:
  assumes "distinct (map mod_id ms)"
  obtains r where "init_order ms (index_modules ms) = Some r"
    and "case r of
        Inl e \<Rightarrow> error_right (index_modules ms) e
      | Inr order \<Rightarrow> mset order = mset ms \<and> deps_first order"
proof -
  let ?b = "index_modules ms"
  note inx = index_modules_in [OF assms]
  have fin: "finite (dom ?b)" and card: "card (dom ?b) < Suc (length ms)"
    using card_image_le [of "set ms" mod_id] card_length [of ms] by (simp_all add: index_modules_dom)
  obtain r where r: "visit_all (Suc (length ms)) ?b ms (\<lambda>_. Unvisited, []) = Some r"
    "advanced ?b [] (mod_id ` set ms) (\<lambda>_. Unvisited, []) r"
    using visit_all_spec [OF fin _ _ search_start card, of ms] inx by auto
  show thesis
  proof (cases r)
    case (Inl e)
    with r that [of "Inl e"] show thesis by (simp add: init_order_def advanced_def)
  next
    case (Inr s)
    with r(2) have a: "search_ok ?b [] s" "\<forall>i \<in> mod_id ` set ms. fst s i = Visited"
      by (simp_all add: advanced_def)
    have sub: "set (snd s) \<subseteq> set ms" using a(1) inx by (auto simp: search_ok_def)
    moreover have "set ms \<subseteq> set (snd s)"
    proof
      fix m assume m: "m \<in> set ms"
      with a have "mod_id m \<in> mod_id ` set (snd s)" by (simp add: search_ok_def)
      then obtain x where "x \<in> set (snd s)" "mod_id x = mod_id m" by auto
      with m sub assms show "m \<in> set (snd s)" by (metis eq_key_imp_eq_value inj_on_def distinct_map subsetD)
    qed
    moreover have "distinct (snd s)" using a(1) by (simp add: search_ok_def distinct_map)
    moreover have "distinct ms" using assms by (simp add: distinct_map)
    ultimately have "mset (snd s) = mset ms" by (metis set_eq_iff_mset_eq_distinct subset_antisym)
    with a(1) r(1) Inr that [of "Inr (snd s)"] show thesis
      by (simp add: init_order_def search_ok_def)
  qed
qed

text \<open>Modules whose dependencies have all been visited are taken in the order they come.\<close>

lemma visit_deps_visited:
  assumes "\<forall>d \<in> set ds. \<exists>dm. by_id d = Some dm \<and> mod_id dm = d \<and> fst s d = Visited"
  shows "visit_deps (visit (Suc n) by_id) by_id i path ds s = Some (Inr s)"
  using assms by (induction ds) (auto, cases s, auto)

lemma visit_all_stable:
  assumes "distinct (map mod_id (xs @ ys))" "deps_first (xs @ ys)"
    and "\<And>m. m \<in> set (xs @ ys) \<Longrightarrow> by_id (mod_id m) = Some m"
    and "\<And>i. st i = (if i \<in> mod_id ` set xs then Visited else Unvisited)"
  shows "\<exists>st'. visit_all (Suc (Suc n)) by_id ys (st, xs) = Some (Inr (st', xs @ ys))"
  using assms
proof (induction ys arbitrary: xs st)
  case Nil
  then show ?case by simp
next
  case (Cons m ys)
  let ?i = "mod_id m"
  have un: "st ?i = Unvisited" using Cons.prems(1) by (simp add: Cons.prems(4))
  have "set (dependencies m) \<subseteq> mod_id ` set xs"
    using Cons.prems(2) unfolding deps_first_def by blast
  then have "\<forall>d \<in> set (dependencies m). \<exists>dm. by_id d = Some dm \<and> mod_id dm = d \<and>
      fst (st(?i := Visiting), xs) d = Visited"
    using Cons.prems(1,3) un by (auto simp: Cons.prems(4) subset_iff)
  then have "visit (Suc (Suc n)) by_id m [] (st, xs) = Some (Inr (st(?i := Visited), xs @ [m]))"
    using visit_deps_visited [where s = "(st(?i := Visiting), xs)"] un by simp
  moreover have "\<exists>st'. visit_all (Suc (Suc n)) by_id ys (st(?i := Visited), xs @ [m]) =
      Some (Inr (st', (xs @ [m]) @ ys))"
    by (rule Cons.IH) (use Cons.prems in auto)
  ultimately show ?case by simp
qed

section \<open>Properties\<close>

text \<open>C12: The plugin order is decided: the search always ends within its fuel. It answers either an
  order that holds exactly the configured modules, each after all the modules it depends on, or
  an error that is right - a dependency that no module has the identifier of, or a path of
  dependencies that closes into a cycle.\<close>

theorem init_order_correct:
  assumes "distinct (map mod_id ms)"
  shows "case init_order ms (index_modules ms) of
      None \<Rightarrow> False
    | Some (Inl (Missing_Dependency i d)) \<Rightarrow> depends_on (index_modules ms) i d \<and> d \<notin> mod_id ` set ms
    | Some (Inl (Dependency_Cycle p)) \<Rightarrow> (\<exists>q i. p = q @ [i] \<and> i \<in> set q) \<and>
        successively (depends_on (index_modules ms)) p
    | Some (Inr order) \<Rightarrow> mset order = mset ms \<and> deps_first order"
proof -
  obtain r where r: "init_order ms (index_modules ms) = Some r"
    "case r of
        Inl e \<Rightarrow> error_right (index_modules ms) e
      | Inr order \<Rightarrow> mset order = mset ms \<and> deps_first order"
    by (rule init_order_run [OF assms])
  have "index_modules ms d = None \<longleftrightarrow> d \<notin> mod_id ` set ms" for d
    using index_modules_dom [of ms] by (auto simp: domIff [symmetric] image_iff)
  with r show ?thesis by (auto split: sum.splits dependency_error.splits)
qed

definition sample_module :: "string \<Rightarrow> string list \<Rightarrow> dependent" where
  "sample_module i ds = \<lparr>mod_id = i, mod_dependencies = Some ds\<rparr>"

theorem init_order_correct_witness:
  "init_order [sample_module ''a'' [''c''], sample_module ''b'' [], sample_module ''c'' [''b'']]
     (index_modules [sample_module ''a'' [''c''], sample_module ''b'' [], sample_module ''c'' [''b'']]) =
   Some (Inr [sample_module ''b'' [], sample_module ''c'' [''b''], sample_module ''a'' [''c'']]) \<and>
   deps_first [sample_module ''b'' [], sample_module ''c'' [''b''], sample_module ''a'' [''c'']]"
proof -
  let ?ms = "[sample_module ''a'' [''c''], sample_module ''b'' [], sample_module ''c'' [''b'']]"
  have "init_order ?ms (index_modules ?ms) =
      Some (Inr [sample_module ''b'' [], sample_module ''c'' [''b''], sample_module ''a'' [''c'']])"
    by (simp add: init_order_def index_modules_def sample_module_def dependencies_def)
  moreover have "distinct (map mod_id ?ms)" by (simp add: sample_module_def)
  from init_order_correct [OF this] calculation show ?thesis by simp
qed

text \<open>The configured order is kept where it can be: when every configured module already comes
  after the modules it depends on, the plugins are initialized in the configured order.\<close>

theorem init_order_keeps:
  assumes "distinct (map mod_id ms)" and "deps_first ms"
  shows "init_order ms (index_modules ms) = Some (Inr ms)"
proof (cases ms)
  case Nil
  then show ?thesis by (simp add: init_order_def)
next
  case (Cons m xs)
  have "\<exists>st'. visit_all (Suc (Suc (length xs))) (index_modules ms) ms (\<lambda>_. Unvisited, []) =
      Some (Inr (st', [] @ ms))"
    by (rule visit_all_stable) (use assms index_modules_in [OF assms(1)] in auto)
  with Cons show ?thesis by (auto simp: init_order_def)
qed

theorem init_order_keeps_witness:
  "init_order [sample_module ''a'' [], sample_module ''b'' []]
     (index_modules [sample_module ''a'' [], sample_module ''b'' []]) =
   Some (Inr [sample_module ''a'' [], sample_module ''b'' []])"
  by (rule init_order_keeps) (auto simp: sample_module_def deps_first_def dependencies_def Cons_eq_append_conv)

end
