(* ===== verification/Plugin_Host.thy ===== *)
theory Plugin_Host
  imports Engine Plugin_Order
begin

text \<open>
  Plugins and lifecycles: the capability registry (\<open>plugin/registry.go\<close>), the host that a
  module is given and the installation of the configured modules (\<open>plugin.go\<close>), and the part
  of \<open>auth.go\<close> about them (\<open>New\<close>, \<open>Get\<close>, \<open>MustGet\<close>, \<open>Schema\<close>, \<open>ExportSchema\<close>,
  \<open>registerLifecycle\<close>, \<open>Close\<close>).
\<close>

section \<open>The registry\<close>

text \<open>
  Capabilities are keyed by their static type, a value of \<open>'t\<close>; a capability is a value of \<open>'v\<close>,
  \<open>None\<close> the nil interface.
\<close>

record 'v cap_entry =
  ent_module :: string
  ent_value :: "'v option"

record ('t, 'v) registry =
  rg_modules :: "string list"
  rg_capabilities :: "'t \<rightharpoonup> 'v cap_entry"

definition new_registry :: "('t, 'v) registry" where
  "new_registry = \<lparr>rg_modules = [], rg_capabilities = Map.empty\<rparr>"

definition add_module :: "string \<Rightarrow> ('t, 'v) registry \<Rightarrow> err + ('t, 'v) registry" where
  "add_module i r =
     (if i \<in> set (rg_modules r) then Inl PluginDuplicate
      else Inr (r\<lparr>rg_modules := rg_modules r @ [i]\<rparr>))"

definition has_module :: "('t, 'v) registry \<Rightarrow> string \<Rightarrow> bool" where
  "has_module r i \<longleftrightarrow> i \<in> set (rg_modules r)"

text \<open>\<open>Modules\<close> lists the keys of a map, so in whatever order the runtime visits them.\<close>

definition registry_modules :: "(string list \<Rightarrow> nat list) \<Rightarrow> ('t, 'v) registry \<Rightarrow> string list" where
  "registry_modules visits r = map ((!) (rg_modules r)) (visits (rg_modules r))"

definition provide_cap ::
  "'t \<Rightarrow> string \<Rightarrow> 'v option \<Rightarrow> ('t, 'v) registry \<Rightarrow> err + ('t, 'v) registry" where
  "provide_cap t m v r =
     (case rg_capabilities r t of
        Some _ \<Rightarrow> Inl PluginDuplicate
      | None \<Rightarrow> Inr (r\<lparr>rg_capabilities := (rg_capabilities r)(t \<mapsto> \<lparr>ent_module = m, ent_value = v\<rparr>)\<rparr>))"

text \<open>\<open>e.value.(T)\<close> panics when the value is the nil interface.\<close>

definition lookup_cap :: "('t, 'v) registry \<Rightarrow> 't \<Rightarrow> 'v call" where
  "lookup_cap r t =
     (case rg_capabilities r t of
        None \<Rightarrow> Returned (Inl PluginNotFound)
      | Some e \<Rightarrow> (case ent_value e of None \<Rightarrow> Panic | Some v \<Rightarrow> Returned (Inr v)))"

section \<open>Lifecycles\<close>

text \<open>
  What \<open>isSameLifecycle\<close> can see of a \<open>Lifecycle\<close>: the address of a pointer, or the dynamic type
  and the value of something else, which may be of a type that cannot be compared. \<open>Allocated\<close>
  is the address of the \<open>n\<close>-th \<open>closerLifecycle\<close> that has been allocated.
\<close>

datatype identity =
    Address nat | Allocated nat
  | Comparable_Value nat nat | Incomparable_Value nat

record 'w lifecycle =
  lc_identity :: identity
  lc_stop :: "ctx \<Rightarrow> ('w, err + unit) state"

fun same_identity :: "identity \<Rightarrow> identity \<Rightarrow> bool" where
  "same_identity (Address p) (Address q) \<longleftrightarrow> p = q"
| "same_identity (Allocated n) (Allocated k) \<longleftrightarrow> n = k"
| "same_identity (Comparable_Value t x) (Comparable_Value u y) \<longleftrightarrow> t = u \<and> x = y"
| "same_identity _ _ \<longleftrightarrow> False"

definition is_same_lifecycle :: "'w lifecycle option \<Rightarrow> 'w lifecycle option \<Rightarrow> bool" where
  "is_same_lifecycle a b =
     (case (a, b) of
        (Some x, Some y) \<Rightarrow> same_identity (lc_identity x) (lc_identity y)
      | (None, None) \<Rightarrow> True
      | _ \<Rightarrow> False)"

section \<open>The installed engine\<close>

text \<open>
  The fields of \<open>Auth\<close> that installing plugins and closing change, with the part that stays (\<open>auth\<close>)
  and the world the engine runs in.
\<close>

record ('s, 'c, 't, 'v) installed =
  ins_auth :: "('s, 'c) auth"
  ins_adapter :: "'s adapter option"
  ins_exporter :: "(ctx \<Rightarrow> ('s, err + string list) state) option"
  ins_schema :: "schema option"
  ins_registry :: "('t, 'v) registry"
  ins_lifecycles :: "('s, 'c) world lifecycle list"
  ins_allocated :: nat
  ins_closed :: bool
  ins_world :: "('s, 'c) world"

type_synonym ('s, 'c, 't, 'v, 'a) ins_act = "(('s, 'c, 't, 'v) installed, 'a) state"

definition register_lifecycle ::
  "('s, 'c) world lifecycle option \<Rightarrow> ('s, 'c, 't, 'v, unit) ins_act" where
  "register_lifecycle lo =
     (case lo of
        None \<Rightarrow> skip
      | Some l \<Rightarrow> State (\<lambda>i. ((),
          if list_ex (\<lambda>x. is_same_lifecycle (Some x) (Some l)) (ins_lifecycles i) then i
          else i\<lparr>ins_lifecycles := ins_lifecycles i @ [l]\<rparr>)))"

text \<open>\<open>&closerLifecycle{closer: c}\<close>: a fresh pointer, whose \<open>Stop\<close> closes \<open>c\<close>.\<close>

definition closer_lifecycle :: "('s, 'c, err + unit) act \<Rightarrow> ('s, 'c, 't, 'v, ('s, 'c) world lifecycle) ins_act" where
  "closer_lifecycle close = State (\<lambda>i.
     (\<lparr>lc_identity = Allocated (ins_allocated i), lc_stop = (\<lambda>_. close)\<rparr>,
      i\<lparr>ins_allocated := Suc (ins_allocated i)\<rparr>))"

text \<open>The interfaces a module or a capability may implement besides its own.\<close>

datatype ('s, 'c) backing =
    Is_Lifecycle "('s, 'c) world lifecycle"
  | Is_Closer "('s, 'c, err + unit) act"
  | Plain

definition register_backing :: "('s, 'c) backing \<Rightarrow> ('s, 'c, 't, 'v, unit) ins_act" where
  "register_backing b =
     (case b of
        Is_Lifecycle l \<Rightarrow> register_lifecycle (Some l)
      | Is_Closer c \<Rightarrow> do { l \<leftarrow> closer_lifecycle c; register_lifecycle (Some l) }
      | Plain \<Rightarrow> skip)"

definition on_registry ::
  "(('t, 'v) registry \<Rightarrow> err + ('t, 'v) registry) \<Rightarrow> ('s, 'c, 't, 'v, err + unit) ins_act" where
  "on_registry f = State (\<lambda>i.
     case f (ins_registry i) of
       Inl e \<Rightarrow> (Inl e, i)
     | Inr r \<Rightarrow> (Inr (), i\<lparr>ins_registry := r\<rparr>))"

definition host_provide ::
  "'t \<Rightarrow> string \<Rightarrow> 'v option \<Rightarrow> ('s, 'c) backing \<Rightarrow> ('s, 'c, 't, 'v, err + unit) ins_act" where
  "host_provide t m impl b = do {
     _ \<leftarrow> register_backing b;
     on_registry (provide_cap t m impl)
   }"

section \<open>Registering hooks\<close>

text \<open>\<open>h.Hooks()\<close> is shared by the host and the engine; registering appends.\<close>

definition before_sign_up ::
  "(ctx \<Rightarrow> sign_up_input \<Rightarrow> ('s, 'c, sign_up_input) actE) \<Rightarrow> ('s, 'c) hooks \<Rightarrow> ('s, 'c) hooks" where
  "before_sign_up f h = h\<lparr>hk_before_sign_up := chain_add (hk_before_sign_up h) f\<rparr>"

definition after_sign_up ::
  "(ctx \<Rightarrow> auth_result \<Rightarrow> ('s, 'c, auth_result) act) \<Rightarrow> ('s, 'c) hooks \<Rightarrow> ('s, 'c) hooks" where
  "after_sign_up f h = h\<lparr>hk_after_sign_up := observers_add (hk_after_sign_up h) f\<rparr>"

definition before_sign_in ::
  "(ctx \<Rightarrow> sign_in_input \<Rightarrow> ('s, 'c, sign_in_input) actE) \<Rightarrow> ('s, 'c) hooks \<Rightarrow> ('s, 'c) hooks" where
  "before_sign_in f h = h\<lparr>hk_before_sign_in := chain_add (hk_before_sign_in h) f\<rparr>"

definition after_sign_in ::
  "(ctx \<Rightarrow> auth_result \<Rightarrow> ('s, 'c, auth_result) act) \<Rightarrow> ('s, 'c) hooks \<Rightarrow> ('s, 'c) hooks" where
  "after_sign_in f h = h\<lparr>hk_after_sign_in := observers_add (hk_after_sign_in h) f\<rparr>"

definition before_sign_out ::
  "(ctx \<Rightarrow> sign_out_input \<Rightarrow> ('s, 'c, sign_out_input) actE) \<Rightarrow> ('s, 'c) hooks \<Rightarrow> ('s, 'c) hooks" where
  "before_sign_out f h = h\<lparr>hk_before_sign_out := chain_add (hk_before_sign_out h) f\<rparr>"

definition after_sign_out ::
  "(ctx \<Rightarrow> session \<Rightarrow> ('s, 'c, session) act) \<Rightarrow> ('s, 'c) hooks \<Rightarrow> ('s, 'c) hooks" where
  "after_sign_out f h = h\<lparr>hk_after_sign_out := observers_add (hk_after_sign_out h) f\<rparr>"

definition before_user_create ::
  "(ctx \<Rightarrow> user \<Rightarrow> ('s, 'c, user) actE) \<Rightarrow> ('s, 'c) hooks \<Rightarrow> ('s, 'c) hooks" where
  "before_user_create f h = h\<lparr>hk_before_user_create := chain_add (hk_before_user_create h) f\<rparr>"

definition after_user_create ::
  "(ctx \<Rightarrow> user \<Rightarrow> ('s, 'c, user) act) \<Rightarrow> ('s, 'c) hooks \<Rightarrow> ('s, 'c) hooks" where
  "after_user_create f h = h\<lparr>hk_after_user_create := observers_add (hk_after_user_create h) f\<rparr>"

definition before_session_create ::
  "(ctx \<Rightarrow> session \<Rightarrow> ('s, 'c, session) actE) \<Rightarrow> ('s, 'c) hooks \<Rightarrow> ('s, 'c) hooks" where
  "before_session_create f h = h\<lparr>hk_before_session_create := chain_add (hk_before_session_create h) f\<rparr>"

definition host_hooks :: "(('s, 'c) hooks \<Rightarrow> ('s, 'c) hooks) \<Rightarrow> ('s, 'c, 't, 'v, unit) ins_act" where
  "host_hooks f = State (\<lambda>i. ((), i\<lparr>ins_auth := (ins_auth i)\<lparr>au_hooks := f (au_hooks (ins_auth i))\<rparr>\<rparr>))"

definition host_events :: "(('s, 'c) events \<Rightarrow> ('s, 'c) events) \<Rightarrow> ('s, 'c, 't, 'v, unit) ins_act" where
  "host_events f = State (\<lambda>i. ((), i\<lparr>ins_auth := (ins_auth i)\<lparr>au_events := f (au_events (ins_auth i))\<rparr>\<rparr>))"

section \<open>Installing the modules\<close>

text \<open>A module: \<open>mod_init\<close> is its \<open>Init\<close>, given the identifier of the host it is called with.\<close>

record ('s, 'c, 't, 'v) plugin_module = dependent +
  mod_register_schema :: "(schema \<Rightarrow> err + schema) option"
  mod_backing :: "('s, 'c) backing"
  mod_init :: "string \<Rightarrow> ('s, 'c, 't, 'v, err + unit) ins_act"

text \<open>The first loop of \<open>initPlugins\<close>; a nil module is \<open>None\<close>.\<close>

fun register_modules ::
  "('s, 'c, 't, 'v) plugin_module option list \<Rightarrow>
   ('s, 'c, 't, 'v, err + ('s, 'c, 't, 'v) plugin_module list) ins_act" where
  "register_modules [] = ok []"
| "register_modules (None # ms) = fail ErrNilModule"
| "register_modules (Some m # ms) =
     bindE (on_registry (add_module (mod_id m))) (\<lambda>_.
     bindE (register_modules ms) (\<lambda>xs. ok (m # xs)))"

fun provider_schemas :: "('s, 'c, 't, 'v) plugin_module list \<Rightarrow> schema \<Rightarrow> err + schema" where
  "provider_schemas [] s = Inr s"
| "provider_schemas (m # ms) s =
     (case mod_register_schema m of
        None \<Rightarrow> provider_schemas ms s
      | Some f \<Rightarrow> (case f s of Inl e \<Rightarrow> Inl e | Inr s' \<Rightarrow> provider_schemas ms s'))"

definition compile_schema :: "('s, 'c, 't, 'v) plugin_module list \<Rightarrow> err + schema" where
  "compile_schema ms =
     (case default_core_schema of
        Inl e \<Rightarrow> Inl e
      | Inr s0 \<Rightarrow>
          (case provider_schemas ms s0 of
             Inl e \<Rightarrow> Inl e
           | Inr s \<Rightarrow> (case validate s of Inl e \<Rightarrow> Inl e | Inr _ \<Rightarrow> Inr s)))"

definition set_schema :: "schema \<Rightarrow> ('s, 'c, 't, 'v, unit) ins_act" where
  "set_schema s = State (\<lambda>i. ((), i\<lparr>ins_schema := Some s\<rparr>))"

definition adapter_register :: "schema \<Rightarrow> ('s, 'c, 't, 'v, err + unit) ins_act" where
  "adapter_register s = State (\<lambda>i.
     case ins_adapter i of
       None \<Rightarrow> (Inr (), i)
     | Some ad \<Rightarrow>
         (case run_state (on_db (ad_register_schema ad s)) (ins_world i) of
            (r, w) \<Rightarrow> (r, i\<lparr>ins_world := w\<rparr>)))"

fun init_modules :: "('s, 'c, 't, 'v) plugin_module list \<Rightarrow> ('s, 'c, 't, 'v, err + unit) ins_act" where
  "init_modules [] = ok ()"
| "init_modules (m # ms) = do {
     _ \<leftarrow> register_backing (mod_backing m);
     bindE (mod_init m (mod_id m)) (\<lambda>_. init_modules ms)
   }"

definition init_plugins ::
  "('s, 'c, 't, 'v) plugin_module option list \<Rightarrow> ('s, 'c, 't, 'v, err + unit) ins_act" where
  "init_plugins modules =
     bindE (register_modules modules) (\<lambda>ms.
     check (compile_schema ms) (\<lambda>s. do {
       _ \<leftarrow> set_schema s;
       bindE (adapter_register s) (\<lambda>_.
       case init_order ms (index_modules ms) of
         Some (Inr order) \<Rightarrow> init_modules order
       | _ \<Rightarrow> fail ErrPluginDependency)
     }))"

text \<open>\<open>New\<close>; the world stays as the failed installation has left it.\<close>

definition engine_new ::
  "runtime \<Rightarrow> (nat \<Rightarrow> nat \<Rightarrow> byte) \<Rightarrow> ('s, 'c) hasher \<Rightarrow> (nat \<Rightarrow> time) \<Rightarrow> ('s, 'c) config \<Rightarrow>
   (ctx \<Rightarrow> ('s, err + string list) state) option \<Rightarrow> ('s, 'c, 't, 'v) plugin_module option list \<Rightarrow>
   ('s, 'c) world \<Rightarrow> (err + ('s, 'c, 't, 'v) installed) \<times> ('s, 'c) world" where
  "engine_new rt en dh dn c exporter modules w =
     (case auth_new rt en dh dn c of
        Inl e \<Rightarrow> (Inl e, w)
      | Inr a \<Rightarrow>
          (case run_state (init_plugins modules)
                  \<lparr>ins_auth = a, ins_adapter = cf_adapter c, ins_exporter = exporter, ins_schema = None,
                   ins_registry = new_registry, ins_lifecycles = [], ins_allocated = 0,
                   ins_closed = False, ins_world = w\<rparr> of
             (Inl e, i) \<Rightarrow> (Inl e, ins_world i)
           | (Inr _, i) \<Rightarrow> (Inr i, ins_world i)))"

section \<open>Using and closing the engine\<close>

definition get_capability :: "('s, 'c, 't, 'v) installed option \<Rightarrow> 't \<Rightarrow> 'v call" where
  "get_capability io t =
     (case io of None \<Rightarrow> Returned (Inl PluginNotFound) | Some i \<Rightarrow> lookup_cap (ins_registry i) t)"

definition must_get :: "('s, 'c, 't, 'v) installed option \<Rightarrow> 't \<Rightarrow> 'v call" where
  "must_get io t = (case get_capability io t of Returned (Inl _) \<Rightarrow> Panic | r \<Rightarrow> r)"

definition engine_schema :: "('s, 'c, 't, 'v) installed \<Rightarrow> schema option" where
  "engine_schema i = map_option clone_schema (ins_schema i)"

definition export_schema :: "ctx \<Rightarrow> ('s, 'c, 't, 'v, err + string list) ins_act" where
  "export_schema cx = State (\<lambda>i.
     case ins_adapter i of
       None \<Rightarrow> (Inl (ExtErr ''auth: no adapter configured''), i)
     | Some _ \<Rightarrow>
         (case ins_exporter i of
            None \<Rightarrow> (Inl ErrSchemaExportUnsupported, i)
          | Some ex \<Rightarrow>
              (case run_state (on_db (ex cx)) (ins_world i) of (r, w) \<Rightarrow> (r, i\<lparr>ins_world := w\<rparr>))))"

text \<open>The loop of \<open>Close\<close>; the joined errors are their list.\<close>

fun stop_all :: "ctx \<Rightarrow> ('s, 'c) world lifecycle list \<Rightarrow> ('s, 'c, err list) act" where
  "stop_all cx [] = State_Monad.return []"
| "stop_all cx (l # ls) = do {
     r \<leftarrow> lc_stop l cx;
     es \<leftarrow> stop_all cx ls;
     State_Monad.return (case r of Inl e \<Rightarrow> e # es | Inr _ \<Rightarrow> es)
   }"

definition close_engine :: "ctx \<Rightarrow> ('s, 'c, 't, 'v, err list) ins_act" where
  "close_engine cx = State (\<lambda>i.
     if ins_closed i then ([], i)
     else case run_state (stop_all cx (rev (ins_lifecycles i))) (ins_world i) of
            (es, w) \<Rightarrow> (es, i\<lparr>ins_world := w, ins_closed := True\<rparr>))"

end
