(* ===== verification/Plugin_Properties.thy ===== *)
theory Plugin_Properties
  imports Core_Properties Plugin_Host
begin

text \<open>
  What the registry, the installation of plugins and closing guarantee, and that \<open>New\<close> on memory
  starts the engine in order.
\<close>

section \<open>The registry\<close>

text \<open>A capability is found under its type once it has been provided, and cannot be replaced:
  providing a type that is free makes \<open>Get\<close> answer the value for it and changes no other type;
  providing it a second time is rejected and leaves the registry as it was.\<close>

theorem provide_get:
  "case run_state (host_provide t m (Some v) b) i of (r, i') \<Rightarrow>
     (\<forall>u. u = t \<or> get_capability (Some i') u = get_capability (Some i) u) \<and>
     (if rg_capabilities (ins_registry i) t = None
      then r = Inr () \<and> get_capability (Some i') t = Returned (Inr v) \<and> must_get (Some i') t = Returned (Inr v)
      else r = Inl PluginDuplicate \<and> ins_registry i' = ins_registry i)"
proof -
  obtain i1 where "run_state (register_backing b) i = ((), i1)" "ins_registry i1 = ins_registry i"
    by (cases b) (auto simp: register_backing_def register_lifecycle_def closer_lifecycle_def)
  then show ?thesis
    by (auto simp: host_provide_def on_registry_def provide_cap_def get_capability_def must_get_def
        lookup_cap_def split: option.splits)
qed

section \<open>Lifecycles\<close>

lemma stop_all_world:
  "snd (run_state (stop_all cx ls) w) = fold (\<lambda>l w. snd (run_state (lc_stop l cx) w)) ls w"
  by (induction ls arbitrary: w) (simp_all add: split_def)

lemma stop_all_errors: "length (fst (run_state (stop_all cx ls) w)) \<le> length ls"
proof (induction ls arbitrary: w)
  case (Cons l ls)
  obtain r w' where "run_state (lc_stop l cx) w = (r, w')" by (rule prod.exhaust)
  with Cons.IH [of w'] show ?case by (cases r) (auto split: prod.splits)
qed simp

text \<open>Closing stops every registered lifecycle exactly once, in the reverse of the order of
  registration, whatever errors the stops return; it is safe to call twice, the second call
  does nothing and reports no error.\<close>

theorem close_stops_once:
  "\<not> ins_closed i \<Longrightarrow> case run_state (close_engine cx) i of (es, i') \<Rightarrow>
     ins_world i' = foldr (\<lambda>l w. snd (run_state (lc_stop l cx) w)) (ins_lifecycles i) (ins_world i) \<and>
     length es \<le> length (ins_lifecycles i) \<and>
     run_state (close_engine cx') i' = ([], i')"
  using stop_all_world [of cx "rev (ins_lifecycles i)" "ins_world i"]
    stop_all_errors [of cx "rev (ins_lifecycles i)" "ins_world i"]
  by (auto simp: close_engine_def foldr_conv_fold split: prod.splits)

text \<open>An engine with two lifecycles that log their names when they are stopped.\<close>

definition sample_lifecycle :: "nat \<Rightarrow> string \<Rightarrow> (mem, mcache) world lifecycle" where
  "sample_lifecycle p name = \<lparr>lc_identity = Address p,
     lc_stop = (\<lambda>_. do { _ \<leftarrow> log_line name; fail (ExtErr name) })\<rparr>"

definition sample_installed :: "(mem, mcache, string, nat) installed" where
  "sample_installed = \<lparr>ins_auth = sample_auth, ins_adapter = None, ins_exporter = None, ins_schema = None,
     ins_registry = new_registry, ins_lifecycles = [sample_lifecycle 1 ''first'', sample_lifecycle 2 ''second''],
     ins_allocated = 0, ins_closed = False, ins_world = sample_start\<rparr>"

theorem close_stops_once_witness:
  "case run_state (close_engine background) sample_installed of (es, i') \<Rightarrow>
     w_log (ins_world i') = [''second'', ''first''] \<and> es = [ExtErr ''second'', ExtErr ''first''] \<and>
     run_state (close_engine background) i' = ([], i')"
proof -
  have "\<not> ins_closed sample_installed" by (simp add: sample_installed_def)
  note close_stops_once [OF this, of background background]
  moreover have "fst (run_state (close_engine background) sample_installed) = [ExtErr ''second'', ExtErr ''first'']"
    by (simp add: close_engine_def sample_installed_def sample_lifecycle_def log_line_def)
  ultimately show ?thesis
    by (auto simp: sample_installed_def sample_lifecycle_def log_line_def sample_start_def start_world_def
        split: prod.splits)
qed

text \<open>No two registered lifecycles are the same.\<close>

definition lifecycles_distinct :: "('s, 'c, 't, 'v) installed \<Rightarrow> bool" where
  "lifecycles_distinct i \<longleftrightarrow>
     sorted_wrt (\<lambda>x y. \<not> is_same_lifecycle (Some x) (Some y)) (ins_lifecycles i)"

lemma keeps_register_lifecycle: "keeps lifecycles_distinct (register_lifecycle lo)"
  by (auto simp: keeps_def register_lifecycle_def lifecycles_distinct_def sorted_wrt_append list_ex_iff
      split: option.splits)

lemma keeps_closer_lifecycle: "keeps lifecycles_distinct (closer_lifecycle c)"
  by (simp add: keeps_def closer_lifecycle_def lifecycles_distinct_def)

lemma keeps_register_backing: "keeps lifecycles_distinct (register_backing b)"
  unfolding register_backing_def
  by (cases b) (auto intro!: keeps_rules keeps_register_lifecycle keeps_closer_lifecycle)

lemma keeps_on_registry: "keeps lifecycles_distinct (on_registry f)"
  by (auto simp: keeps_def on_registry_def lifecycles_distinct_def split: sum.splits)

lemma distinct_run:
  "keeps lifecycles_distinct m \<Longrightarrow> lifecycles_distinct i \<Longrightarrow> lifecycles_distinct (snd (run_state m i))"
  by (simp add: keeps_def)

text \<open>Registering never makes two lifecycles the same: whatever a module or a provided capability
  implements, the registered lifecycles stay pairwise different, so \<open>Close\<close> never stops one
  pointer twice.\<close>

theorem lifecycles_stay_distinct:
  assumes "lifecycles_distinct i"
  shows "lifecycles_distinct (snd (run_state (host_provide t m impl b) i)) \<and>
    lifecycles_distinct (snd (run_state (register_lifecycle lo) i))"
proof -
  have "keeps lifecycles_distinct (host_provide t m impl b)"
    unfolding host_provide_def by (auto intro!: keeps_rules keeps_register_backing keeps_on_registry)
  then show ?thesis by (intro conjI distinct_run assms keeps_register_lifecycle)
qed

theorem lifecycles_stay_distinct_witness:
  "lifecycles_distinct (snd (run_state (register_lifecycle (Some (sample_lifecycle 2 ''again''))) sample_installed))"
proof -
  have "lifecycles_distinct sample_installed"
    by (simp add: lifecycles_distinct_def sample_installed_def is_same_lifecycle_def sample_lifecycle_def)
  from lifecycles_stay_distinct [OF this] show ?thesis by simp
qed

text \<open>
  An \<open>io.Closer\<close> is another matter: each registration wraps it in a new \<open>closerLifecycle\<close>, so a value
  that is installed as a module and provided as a capability is closed twice.
\<close>

lemma closer_closed_twice:
  "w_log (ins_world (snd (run_state (do {
      _ \<leftarrow> register_backing (Is_Closer (do { _ \<leftarrow> log_line ''closed''; ok () }));
      _ \<leftarrow> host_provide ''t'' ''m'' (Some 0) (Is_Closer (do { _ \<leftarrow> log_line ''closed''; ok () }));
      close_engine background }) (sample_installed\<lparr>ins_lifecycles := []\<rparr>)))) = [''closed'', ''closed'']"
  by (simp add: sample_installed_def register_backing_def closer_lifecycle_def register_lifecycle_def
      is_same_lifecycle_def host_provide_def on_registry_def provide_cap_def new_registry_def close_engine_def
      log_line_def sample_start_def start_world_def)

section \<open>Installing plugins\<close>

text \<open>
  What Go's visibility rules give of an \<open>Init\<close>: it cannot change the compiled schema nor which modules
  are registered. \<open>P\<close> is what else it is assumed to keep.
\<close>

definition init_keeps ::
  "(('s, 'c, 't, 'v) installed \<Rightarrow> bool) \<Rightarrow> ('s, 'c, 't, 'v) plugin_module \<Rightarrow> bool" where
  "init_keeps P m \<longleftrightarrow> keeps P (mod_init m (mod_id m))"

lemma register_modules_Inr:
  assumes "run_state (register_modules mos) i = (Inr ms, i')"
  shows "mos = map Some ms \<and> i' = i\<lparr>ins_registry := ins_registry i'\<rparr> \<and>
    rg_modules (ins_registry i') = rg_modules (ins_registry i) @ map mod_id ms \<and>
    (distinct (rg_modules (ins_registry i)) \<longrightarrow> distinct (rg_modules (ins_registry i) @ map mod_id ms))"
  using assms
proof (induction mos arbitrary: i ms)
  case Nil
  then show ?case by simp
next
  case (Cons mo mos)
  then obtain m where mo: "mo = Some m" by (cases mo) auto
  from Cons.prems obtain i1 xs where
    i1: "run_state (on_registry (add_module (mod_id m))) i = (Inr (), i1)"
    and xs: "run_state (register_modules mos) i1 = (Inr xs, i')" and ms: "ms = m # xs"
    unfolding mo register_modules.simps by (elim run_bindE_E) auto
  from i1 have i1': "mod_id m \<notin> set (rg_modules (ins_registry i))"
    "i1 = i\<lparr>ins_registry := (ins_registry i)\<lparr>rg_modules := rg_modules (ins_registry i) @ [mod_id m]\<rparr>\<rparr>"
    by (auto simp: on_registry_def add_module_def split: if_splits)
  have r1: "rg_modules (ins_registry i1) = rg_modules (ins_registry i) @ [mod_id m]"
    by (simp add: i1'(2))
  note IH = Cons.IH [OF xs, unfolded r1]
  have "i' = i\<lparr>ins_registry := ins_registry i'\<rparr>"
    by (rule trans [OF conjunct1 [OF conjunct2 [OF IH]]]) (simp add: i1'(2))
  moreover from IH have "mos = map Some xs"
    "rg_modules (ins_registry i') = rg_modules (ins_registry i) @ mod_id m # map mod_id xs"
    "distinct (rg_modules (ins_registry i)) \<longrightarrow> distinct (rg_modules (ins_registry i) @ mod_id m # map mod_id xs)"
    using i1'(1) by simp_all
  ultimately show ?case unfolding mo ms by (intro conjI impI) simp_all
qed

lemma keeps_register_backing_rest:
  "keeps (\<lambda>i. Q (ins_auth i) (ins_schema i) (ins_registry i) (ins_world i)) (register_backing b)"
  by (cases b) (auto simp: keeps_def register_backing_def register_lifecycle_def closer_lifecycle_def)

lemma keeps_init_modules:
  assumes "\<And>m. m \<in> set ms \<Longrightarrow>
      init_keeps (\<lambda>i. Q (ins_auth i) (ins_schema i) (ins_registry i) (ins_world i)) m"
  shows "keeps (\<lambda>i. Q (ins_auth i) (ins_schema i) (ins_registry i) (ins_world i)) (init_modules ms)"
  using assms
  by (induction ms) (auto intro!: keeps_rules keeps_register_backing_rest simp: init_keeps_def)

lemma compile_schema_Inr:
  assumes "compile_schema ms = Inr s"
  obtains s0 where "default_core_schema = Inr s0" "provider_schemas ms s0 = Inr s" "validate s = Inr ()"
proof -
  obtain s0 where s0: "default_core_schema = Inr s0"
    using default_core_schema_ready by (auto split: sum.splits)
  from assms have "(case provider_schemas ms s0 of Inl e \<Rightarrow> Inl e
      | Inr s \<Rightarrow> (case validate s of Inl e \<Rightarrow> Inl e | Inr _ \<Rightarrow> Inr s)) = Inr s"
    unfolding compile_schema_def s0 sum.case .
  with s0 that show thesis
    by (cases "provider_schemas ms s0") (auto split: sum.splits)
qed

text \<open>What a successful installation has done before the modules are initialized.\<close>

lemma init_plugins_Inr:
  assumes "run_state (init_plugins modules) i = (Inr (), i')" "rg_modules (ins_registry i) = []"
  obtains ms s order i1 where "modules = map Some ms" "distinct (map mod_id ms)"
    "compile_schema ms = Inr s" "mset order = mset ms" "deps_first order"
    "run_state (init_modules order) i1 = (Inr (), i')"
    "rg_modules (ins_registry i1) = map mod_id ms" "ins_schema i1 = Some s" "ins_auth i1 = ins_auth i"
    "(case ins_adapter i of None \<Rightarrow> ins_world i1 = ins_world i
      | Some ad \<Rightarrow> run_state (on_db (ad_register_schema ad s)) (ins_world i) = (Inr (), ins_world i1))"
proof -
  from assms(1) obtain ms i0 where r: "run_state (register_modules modules) i = (Inr ms, i0)"
    and k: "run_state (check (compile_schema ms) (\<lambda>s. do {
       _ \<leftarrow> set_schema s;
       bindE (adapter_register s) (\<lambda>_.
       case init_order ms (index_modules ms) of
         Some (Inr order) \<Rightarrow> init_modules order
       | _ \<Rightarrow> fail ErrPluginDependency)
     })) i0 = (Inr (), i')"
    unfolding init_plugins_def by (elim run_bindE_E) auto
  from register_modules_Inr [OF r] assms(2) have m: "modules = map Some ms" "distinct (map mod_id ms)"
    "rg_modules (ins_registry i0) = map mod_id ms" and i0: "i0 = i\<lparr>ins_registry := ins_registry i0\<rparr>" by auto
  from k obtain s where s: "compile_schema ms = Inr s" by (cases "compile_schema ms") auto
  let ?i1 = "i0\<lparr>ins_schema := Some s\<rparr>"
  from k s obtain i2 where a: "run_state (adapter_register s) ?i1 = (Inr (), i2)"
    and o: "run_state (case init_order ms (index_modules ms) of
         Some (Inr order) \<Rightarrow> init_modules order | _ \<Rightarrow> fail ErrPluginDependency) i2 = (Inr (), i')"
    by (auto simp: set_schema_def split: prod.splits sum.splits)
  obtain ro where ro: "init_order ms (index_modules ms) = Some ro"
    "case ro of Inl e \<Rightarrow> error_right (index_modules ms) e | Inr order \<Rightarrow> mset order = mset ms \<and> deps_first order"
    by (rule init_order_run [OF m(2)])
  with o obtain order where order: "ro = Inr order" by (cases ro) auto
  have keep: "ins_auth i0 = ins_auth i" "ins_adapter i0 = ins_adapter i" "ins_world i0 = ins_world i"
    by (subst i0, simp)+
  have "ins_auth i2 = ins_auth i" "ins_schema i2 = Some s" "ins_registry i2 = ins_registry i0"
    "case ins_adapter i of None \<Rightarrow> ins_world i2 = ins_world i
      | Some ad \<Rightarrow> run_state (on_db (ad_register_schema ad s)) (ins_world i) = (Inr (), ins_world i2)"
    using a keep by (auto simp: adapter_register_def split: option.splits prod.splits)
  with that [of ms s order i2] m s ro order o show thesis by simp
qed

text \<open>\<open>New\<close> installs what it was configured with or fails: when it succeeds, no module was nil and
  their identifiers were distinct, all of them and nothing else are registered, the compiled
  schema - the core models and what the modules added - is valid, and the modules were
  initialized in an order that holds each of them once, after all it depends on.\<close>

theorem engine_new_installs:
  assumes "\<And>m s xs. Some m \<in> set modules \<Longrightarrow>
      init_keeps (\<lambda>i. ins_schema i = s \<and> rg_modules (ins_registry i) = xs) m"
  shows "case engine_new rt en dh dn c ex modules w of
      (Inl _, _) \<Rightarrow> True
    | (Inr i, w') \<Rightarrow> ins_world i = w' \<and> (\<exists>ms s order i1. modules = map Some ms \<and> distinct (map mod_id ms) \<and>
        rg_modules (ins_registry i) = map mod_id ms \<and>
        compile_schema ms = Inr s \<and> ins_schema i = Some s \<and> validate s = Inr () \<and>
        mset order = mset ms \<and> deps_first order \<and>
        run_state (init_modules order) i1 = (Inr (), i))"
proof (cases "\<exists>i w'. engine_new rt en dh dn c ex modules w = (Inr i, w')")
  case False
  then show ?thesis by (cases "engine_new rt en dh dn c ex modules w") (auto split: sum.splits)
next
  case True
  then obtain i w' where run: "engine_new rt en dh dn c ex modules w = (Inr i, w')" by blast
  then obtain i0 where r: "run_state (init_plugins modules) i0 = (Inr (), i)" "ins_world i = w'"
    and i0: "rg_modules (ins_registry i0) = []"
    by (auto simp: engine_new_def new_registry_def split: sum.splits prod.splits)
  obtain ms s order i1 where
    m: "modules = map Some ms" "distinct (map mod_id ms)" "compile_schema ms = Inr s"
      "mset order = mset ms" "deps_first order" "run_state (init_modules order) i1 = (Inr (), i)"
      "rg_modules (ins_registry i1) = map mod_id ms" "ins_schema i1 = Some s"
    by (rule init_plugins_Inr [OF r(1) i0]) (rule that)
  have "keeps (\<lambda>i. ins_schema i = Some s \<and> rg_modules (ins_registry i) = map mod_id ms) (init_modules order)"
    by (rule keeps_init_modules [where Q = "\<lambda>_ sc rg _. sc = Some s \<and> rg_modules rg = map mod_id ms"])
      (use m(1) mset_eq_setD [OF m(4)] in \<open>auto intro!: assms\<close>)
  from keepsD [OF this _ m(6)] m(7,8) have "ins_schema i = Some s \<and> rg_modules (ins_registry i) = map mod_id ms"
    by simp
  moreover have "validate s = Inr ()"
    using m(3) by (rule compile_schema_Inr)
  ultimately show ?thesis using run r(2) m by auto
qed

text \<open>
  Two plugins: \<open>phone\<close>, which extends the users by a field, depends on \<open>base\<close>; each provides a
  capability under its own name.
\<close>

definition sample_field :: field where
  "sample_field = \<lparr>f_name = ''phone'', f_dbname = [], f_type = TypeString, f_required = False,
     f_unique = True, f_indexed = False, f_default = None, f_references = None\<rparr>"

definition sample_provider :: "schema \<Rightarrow> err + schema" where
  "sample_provider s =
     (case run_state (extend_model ModelUsers [sample_field]) s of
        (Inl e, _) \<Rightarrow> Inl e
      | (Inr _, s') \<Rightarrow> Inr s')"

definition sample_plugin ::
  "string \<Rightarrow> string list \<Rightarrow> (schema \<Rightarrow> err + schema) option \<Rightarrow> (mem, mcache, string, string) plugin_module" where
  "sample_plugin n ds f = \<lparr>mod_id = n, mod_dependencies = Some ds, mod_register_schema = f, mod_backing = Plain,
     mod_init = (\<lambda>h. host_provide h h (Some h) Plain)\<rparr>"

definition sample_plugins :: "(mem, mcache, string, string) plugin_module option list" where
  "sample_plugins = [Some (sample_plugin ''phone'' [''base''] (Some sample_provider)),
     Some (sample_plugin ''base'' [] None)]"

definition sample_new :: "(err + (mem, mcache, string, string) installed) \<times> (mem, mcache) world" where
  "sample_new = engine_new sample_runtime sample_entropy (plain_hasher Inr sample_verify) (passing (\<lambda>_. 1))
     (memory_config sample_runtime (Some (passing (\<lambda>_. 1))) Inr sample_verify (\<lambda>_. 1) sample_settings)
     None sample_plugins (start_world mem_new)"

lemma sample_provided:
  "case default_core_schema of
     Inl _ \<Rightarrow> False
   | Inr s0 \<Rightarrow> (case sample_provider s0 of Inl _ \<Rightarrow> False | Inr s \<Rightarrow> validate s = Inr ())"
  by code_simp

lemma sample_auth_new:
  "auth_new sample_runtime sample_entropy (plain_hasher Inr sample_verify) (passing (\<lambda>_. 1))
     (memory_config sample_runtime (Some (passing (\<lambda>_. 1))) Inr sample_verify (\<lambda>_. 1) sample_settings) = Inr sample_auth"
proof -
  obtain c where c: "with_defaults (plain_hasher Inr sample_verify) (passing (\<lambda>_. 1))
     (memory_config sample_runtime (Some (passing (\<lambda>_. 1))) Inr sample_verify (\<lambda>_. 1) sample_settings) = Inr c"
    "cf_settings c = sample_settings"
    by (simp add: with_defaults_def memory_config_def sample_settings_def or_default_def Let_def duration_units)
  show ?thesis unfolding sample_auth_def auth_new_memory [OF c(1)] c(2) ..
qed

lemma sample_new_succeeds:
  obtains i w' where "sample_new = (Inr i, w')" "get_capability (Some i) ''phone'' = Returned (Inr ''phone'')"
proof -
  obtain s0 s where s0: "default_core_schema = Inr s0" and s: "sample_provider s0 = Inr s" "validate s = Inr ()"
    using sample_provided by (auto split: sum.splits)
  have "provider_schemas [sample_plugin ''phone'' [''base''] (Some sample_provider), sample_plugin ''base'' [] None] s0 = Inr s"
    by (simp add: sample_plugin_def s(1))
  then have c: "compile_schema [sample_plugin ''phone'' [''base''] (Some sample_provider), sample_plugin ''base'' [] None] = Inr s"
    unfolding compile_schema_def s0 sum.case by (simp add: s(2))
  obtain m where m: "run_state (mem_register_schema s) mem_new = (Inr (), m)"
    using s(2) by (simp add: mem_register_schema_def Let_def)
  have o: "init_order [sample_plugin ''phone'' [''base''] (Some sample_provider), sample_plugin ''base'' [] None]
     (index_modules [sample_plugin ''phone'' [''base''] (Some sample_provider), sample_plugin ''base'' [] None]) =
    Some (Inr [sample_plugin ''base'' [] None, sample_plugin ''phone'' [''base''] (Some sample_provider)])"
    by (simp add: init_order_def index_modules_def sample_plugin_def dependencies_def)
  have "\<exists>i w'. sample_new = (Inr i, w') \<and> get_capability (Some i) ''phone'' = Returned (Inr ''phone'')"
    unfolding sample_new_def engine_new_def sample_auth_new sum.case sample_plugins_def
    by (simp add: init_plugins_def c o on_registry_def add_module_def new_registry_def set_schema_def
        adapter_register_def memory_config_def memory_adapter_def on_db_def m start_world_def)
      (simp add: sample_plugin_def register_backing_def host_provide_def on_registry_def provide_cap_def
        get_capability_def lookup_cap_def)
  then show thesis using that by blast
qed

theorem engine_new_installs_witness:
  "case sample_new of (r, w') \<Rightarrow> \<exists>i s. r = Inr i \<and> ins_world i = w' \<and>
     rg_modules (ins_registry i) = [''phone'', ''base''] \<and> ins_schema i = Some s \<and> validate s = Inr ()"
proof -
  have "init_keeps (\<lambda>i. ins_schema i = s \<and> rg_modules (ins_registry i) = xs) m"
    if "Some m \<in> set sample_plugins" for m s xs
    using that
    by (auto simp: sample_plugins_def sample_plugin_def init_keeps_def keeps_def host_provide_def
        register_backing_def on_registry_def provide_cap_def split: option.splits)
  note installs = engine_new_installs [where modules = sample_plugins, OF this]
  obtain i w' where run: "sample_new = (Inr i, w')" by (rule sample_new_succeeds)
  from installs [of sample_runtime sample_entropy "plain_hasher Inr sample_verify" "passing (\<lambda>_. 1)"
      "memory_config sample_runtime (Some (passing (\<lambda>_. 1))) Inr sample_verify (\<lambda>_. 1) sample_settings" None
      "start_world mem_new", folded sample_new_def, unfolded run prod.case sum.case]
  obtain ms s where "ins_world i = w'" "sample_plugins = map Some ms" "rg_modules (ins_registry i) = map mod_id ms"
    "ins_schema i = Some s" "validate s = Inr ()" by blast
  moreover from this(2) [symmetric] have "map mod_id ms = [''phone'', ''base'']"
    by (auto simp: sample_plugins_def sample_plugin_def)
  ultimately show ?thesis by (simp add: run)
qed

section \<open>A new engine is in order\<close>

text \<open>A schema provider that leaves the core models usable, as \<open>ExtendModel\<close> does.\<close>

definition keeps_core :: "(schema \<Rightarrow> err + schema) \<Rightarrow> bool" where
  "keeps_core f \<longleftrightarrow> (\<forall>s s'. schema_keyed s \<longrightarrow> core_ready s \<longrightarrow> f s = Inr s' \<longrightarrow> schema_keyed s' \<and> core_ready s')"

lemma provider_schemas_core:
  assumes "\<forall>m \<in> set ms. \<forall>f. mod_register_schema m = Some f \<longrightarrow> keeps_core f"
    and "schema_keyed s" "core_ready s" "provider_schemas ms s = Inr s'"
  shows "schema_keyed s' \<and> core_ready s'"
  using assms
proof (induction ms arbitrary: s)
  case (Cons m ms)
  show ?case
  proof (cases "mod_register_schema m")
    case None
    with Cons.prems(4) have "provider_schemas ms s = Inr s'" by simp
    from Cons.IH [OF _ Cons.prems(2,3) this] Cons.prems(1) show ?thesis by simp
  next
    case (Some f)
    with Cons.prems(4) obtain s1 where s1: "f s = Inr s1" "provider_schemas ms s1 = Inr s'"
      by (auto split: sum.splits)
    have "keeps_core f" using Cons.prems(1) Some by simp
    with s1(1) Cons.prems(2,3) have "schema_keyed s1" "core_ready s1" unfolding keeps_core_def by blast+
    from Cons.IH [OF _ this s1(2)] Cons.prems(1) show ?thesis by simp
  qed
qed simp

lemma core_schema_keyed:
  "case default_core_schema of Inl _ \<Rightarrow> False | Inr s \<Rightarrow> schema_keyed s"
  by code_simp

lemma compile_schema_core:
  assumes "\<forall>m \<in> set ms. \<forall>f. mod_register_schema m = Some f \<longrightarrow> keeps_core f"
    and "compile_schema ms = Inr s"
  shows "schema_keyed s" "core_ready s" "validate s = Inr ()"
proof -
  from assms(2) obtain s0 where s0: "default_core_schema = Inr s0" "provider_schemas ms s0 = Inr s"
    and v: "validate s = Inr ()" by (rule compile_schema_Inr)
  have "schema_keyed s0" "core_ready s0"
    using core_schema_keyed default_core_schema_ready by (simp_all add: s0(1))
  with provider_schemas_core [OF assms(1) _ _ s0(2)] v
  show "schema_keyed s" "core_ready s" "validate s = Inr ()" by auto
qed

text \<open>C11: A new engine on memory is in order: whatever plugins are installed - as long as their schema
  contributions keep the core models, and their \<open>Init\<close> registers only benign hooks and does not
  yet use the store - the engine that \<open>New\<close> returns satisfies the invariant that every workflow
  keeps, with an empty store.\<close>

theorem engine_new_in_order:
  assumes "with_defaults dh dn (memory_config rt cn hf vf d st) = Inr c"
    and "\<And>m f. Some m \<in> set modules \<Longrightarrow> mod_register_schema m = Some f \<Longrightarrow> keeps_core f"
    and "\<And>m w. Some m \<in> set modules \<Longrightarrow> init_keeps (\<lambda>i. on_memory rt (ins_auth i) \<and> ins_world i = w) m"
  shows "case engine_new rt en dh dn (memory_config rt cn hf vf d st) ex modules (start_world mem_new) of
      (Inl _, _) \<Rightarrow> True
    | (Inr i, w') \<Rightarrow> on_memory rt (ins_auth i) \<and> in_order rt (ins_auth i) w' \<and> stored rt w' = db_empty"
proof (cases "\<exists>i w'. engine_new rt en dh dn (memory_config rt cn hf vf d st) ex modules (start_world mem_new) =
    (Inr i, w')")
  case False
  then show ?thesis
    by (cases "engine_new rt en dh dn (memory_config rt cn hf vf d st) ex modules (start_world mem_new)")
      (auto split: sum.splits)
next
  case True
  then obtain i w' where
    run: "engine_new rt en dh dn (memory_config rt cn hf vf d st) ex modules (start_world mem_new) = (Inr i, w')"
    by blast
  let ?a = "memory_auth rt en cn hf vf d (cf_settings c)"
  from run obtain i0 where r: "run_state (init_plugins modules) i0 = (Inr (), i)" "ins_world i = w'"
    and i0: "rg_modules (ins_registry i0) = []" "ins_auth i0 = ?a" "ins_adapter i0 = Some (memory_adapter rt)"
      "ins_world i0 = start_world mem_new"
    unfolding engine_new_def auth_new_memory [OF assms(1)] sum.case
    by (auto simp: new_registry_def memory_config_def split: sum.splits prod.splits)
  obtain ms s order i1 where
    m: "modules = map Some ms" "compile_schema ms = Inr s" "mset order = mset ms"
      "run_state (init_modules order) i1 = (Inr (), i)" "ins_auth i1 = ins_auth i0"
      "case ins_adapter i0 of None \<Rightarrow> ins_world i1 = ins_world i0
        | Some ad \<Rightarrow> run_state (on_db (ad_register_schema ad s)) (ins_world i0) = (Inr (), ins_world i1)"
    by (rule init_plugins_Inr [OF r(1) i0(1)]) (rule that)
  have core: "schema_keyed s" "core_ready s" "validate s = Inr ()"
    using compile_schema_core [OF _ m(2)] assms(2) m(1) by auto
  obtain u mm where reg: "run_state (mem_register_schema s) mem_new = (u, mm)" by (rule prod.exhaust)
  have "run_state (on_db (mem_register_schema s)) (start_world mem_new) = (Inr (), ins_world i1)"
    using m(6) by (simp add: i0 memory_adapter_def)
  then have w1: "ins_world i1 = start_world mm"
    by (simp add: on_db_def start_world_def reg)
  have "keeps (\<lambda>i. on_memory rt (ins_auth i) \<and> ins_world i = start_world mm) (init_modules order)"
    by (rule keeps_init_modules [where Q = "\<lambda>a _ _ w. on_memory rt a \<and> w = start_world mm"])
      (use m(1) mset_eq_setD [OF m(3)] in \<open>auto intro!: assms\<close>)
  from keepsD [OF this _ m(4)] have "on_memory rt (ins_auth i) \<and> ins_world i = start_world mm"
    by (simp add: m(5) i0(2) w1 memory_auth_ok)
  with start_in_order [OF _ core reg] run r(2) show ?thesis by auto
qed

lemma sample_provider_keeps: "keeps_core sample_provider"
proof -
  have keyed: "schema_keyed s'" if "run_state (extend_model name flds) s = (r, s')" "schema_keyed s" for name flds s r s'
  proof (cases "map_of s name")
    case None
    with that show ?thesis by (simp add: extend_model_def)
  next
    case (Some m)
    obtain r' m' where af: "add_fields m flds = (r', m')" by (cases "add_fields m flds")
    with Some that(1) have s': "s' = AList.update name m' s" by (simp add: extend_model_def)
    have "(name, m) \<in> set s" using Some by (rule map_of_SomeD)
    with that(2) add_fields_keeps [OF af] have "name = m_name m'" "name \<noteq> []" "m_primary_key m' \<noteq> []"
      "m_table_name m' \<noteq> []" by (auto simp: schema_keyed_def)
    with that(2) show ?thesis
      using set_update_cases [of _ name m' s] distinct_update [of s name m']
      by (fastforce simp: schema_keyed_def s')
  qed
  show ?thesis
    by (auto simp: keeps_core_def sample_provider_def split: prod.splits sum.splits
        dest: keyed core_ready_extend)
qed

theorem engine_new_in_order_witness:
  "case sample_new of (r, w') \<Rightarrow> \<exists>i. r = Inr i \<and> in_order sample_runtime (ins_auth i) w' \<and>
     stored sample_runtime w' = db_empty"
proof -
  obtain c where c: "with_defaults (plain_hasher Inr sample_verify) (passing (\<lambda>_. 1))
     (memory_config sample_runtime (Some (passing (\<lambda>_. 1))) Inr sample_verify (\<lambda>_. 1) sample_settings) = Inr c"
    by (simp add: with_defaults_def memory_config_def sample_settings_def or_default_def Let_def duration_units)
  have k: "keeps_core f" if "Some m \<in> set sample_plugins" "mod_register_schema m = Some f" for m f
    using that sample_provider_keeps by (auto simp: sample_plugins_def sample_plugin_def)
  have j: "init_keeps (\<lambda>i. on_memory sample_runtime (ins_auth i) \<and> ins_world i = w) m"
    if "Some m \<in> set sample_plugins" for m w
    using that
    by (auto simp: sample_plugins_def sample_plugin_def init_keeps_def keeps_def host_provide_def
        register_backing_def on_registry_def provide_cap_def split: option.splits)
  obtain i w' where run: "sample_new = (Inr i, w')" by (rule sample_new_succeeds)
  from engine_new_in_order [where ex = None and en = sample_entropy and modules = sample_plugins, OF c k j, folded sample_new_def, unfolded run prod.case sum.case]
  show ?thesis by (simp add: run)
qed

end
