(* ===== verification/Argon2id.thy ===== *)
theory Argon2id
  imports Entities Context
begin

text \<open>
  The Argon2id hasher (\<open>password/password.go\<close>): the PHC string it writes, how it reads one back,
  and hashing and verifying on top. The key derivation (\<open>golang.org/x/crypto/argon2\<close>) is a
  parameter; \<open>fmt.Sscanf\<close> and raw base64 are modelled as far as the code uses them.
\<close>

section \<open>Reading numbers with \<open>fmt.Sscanf\<close>\<close>

definition decimal :: "char \<Rightarrow> bool" where
  "decimal c \<longleftrightarrow> 48 \<le> (of_char c :: nat) \<and> (of_char c :: nat) \<le> 57"

definition digits_value :: "string \<Rightarrow> nat" where
  "digits_value ds = foldl (\<lambda>n c. 10 * n + (of_char c - 48)) 0 ds"

text \<open>\<open>SkipSpace\<close>: leading white space is skipped, but a newline is an error.\<close>

fun skip_space :: "string \<Rightarrow> string option" where
  "skip_space [] = Some []"
| "skip_space (c # cs) =
     (if of_char c = (10 :: nat) then None
      else if space_char c then skip_space cs else Some (c # cs))"

text \<open>\<open>%d\<close> into an unsigned integer of \<open>w\<close> bits: the value and the rest of the input.\<close>

definition scan_uint :: "nat \<Rightarrow> string \<Rightarrow> (nat \<times> string) option" where
  "scan_uint w s =
     (case skip_space s of
        None \<Rightarrow> None
      | Some s' \<Rightarrow>
          let ds = takeWhile decimal s' in
          if ds = [] \<or> digits_value ds \<ge> 2 ^ w then None
          else Some (digits_value ds, dropWhile decimal s'))"

text \<open>\<open>%d\<close> into an \<open>int\<close>: a sign is accepted, the value has to fit 64 bits.\<close>

definition scan_int :: "string \<Rightarrow> (int \<times> string) option" where
  "scan_int s =
     (case skip_space s of
        None \<Rightarrow> None
      | Some s' \<Rightarrow>
          let neg = (case s' of c # _ \<Rightarrow> c = CHR ''-'' | [] \<Rightarrow> False);
              s2 = (case s' of c # cs \<Rightarrow> if c = CHR ''-'' \<or> c = CHR ''+'' then cs else s' | [] \<Rightarrow> s');
              ds = takeWhile decimal s2;
              n = (if neg then - int (digits_value ds) else int (digits_value ds)) in
          if ds = [] \<or> n < - (2 ^ 63) \<or> n \<ge> 2 ^ 63 then None
          else Some (n, dropWhile decimal s2))"

text \<open>The literal text of a format.\<close>

fun literal :: "string \<Rightarrow> string \<Rightarrow> string option" where
  "literal [] s = Some s"
| "literal (c # cs) [] = None"
| "literal (c # cs) (d # s) = (if c = d then literal cs s else None)"

section \<open>Raw base64\<close>

definition b64_value :: "char \<Rightarrow> nat option" where
  "b64_value = map_of (zip b64_alphabet [0..<64])"

fun b64_groups :: "nat list \<Rightarrow> byte list option" where
  "b64_groups [] = Some []"
| "b64_groups [a] = None"
| "b64_groups [a, b] = Some [of_nat (a * 4 + b div 16)]"
| "b64_groups [a, b, c] = Some [of_nat (a * 4 + b div 16), of_nat (b mod 16 * 16 + c div 4)]"
| "b64_groups (a # b # c # d # r) =
     map_option (\<lambda>bs. of_nat (a * 4 + b div 16) # of_nat (b mod 16 * 16 + c div 4) #
       of_nat (c mod 4 * 64 + d) # bs) (b64_groups r)"

text \<open>\<open>RawStdEncoding.DecodeString\<close>: line breaks are ignored, unused bits are not checked.\<close>

definition b64_raw_decode :: "string \<Rightarrow> byte list option" where
  "b64_raw_decode s =
     (let s' = filter (\<lambda>c. of_char c \<noteq> (10 :: nat) \<and> of_char c \<noteq> (13 :: nat)) s in
      if list_all (\<lambda>c. b64_value c \<noteq> None) s' then b64_groups (map (the \<circ> b64_value) s') else None)"

definition b64_raw :: "byte list \<Rightarrow> string" where
  "b64_raw = b64_encode b64_alphabet False"

section \<open>The hasher\<close>

record argon2id_params =
  ar_memory :: "32 word"
  ar_iterations :: "32 word"
  ar_parallelism :: "8 word"
  ar_salt_length :: "32 word"
  ar_key_length :: "32 word"

definition default_argon2id_params :: argon2id_params where
  "default_argon2id_params =
     \<lparr>ar_memory = 19 * 1024, ar_iterations = 2, ar_parallelism = 1, ar_salt_length = 16, ar_key_length = 32\<rparr>"

definition new_argon2id :: "argon2id_params \<Rightarrow> argon2id_params" where
  "new_argon2id p =
     (let d = default_argon2id_params in
      p\<lparr>ar_memory := (if ar_memory p = 0 then ar_memory d else ar_memory p),
        ar_iterations := (if ar_iterations p = 0 then ar_iterations d else ar_iterations p),
        ar_parallelism := (if ar_parallelism p = 0 then ar_parallelism d else ar_parallelism p),
        ar_salt_length := (if ar_salt_length p = 0 then ar_salt_length d else ar_salt_length p),
        ar_key_length := (if ar_key_length p = 0 then ar_key_length d else ar_key_length p)\<rparr>)"

text \<open>
  \<open>argon2.IDKey(password, salt, time, memory, threads, keyLen)\<close>; \<open>None\<close> is a panic, which is
  documented for a time or a number of threads below one. Otherwise it returns \<open>keyLen\<close> bytes.
\<close>

type_synonym id_key = "string \<Rightarrow> byte list \<Rightarrow> 32 word \<Rightarrow> 32 word \<Rightarrow> 8 word \<Rightarrow> 32 word \<Rightarrow> byte list option"

definition id_key_law :: "id_key \<Rightarrow> bool" where
  "id_key_law idk \<longleftrightarrow>
     (\<forall>pw salt t m p n. t \<noteq> 0 \<longrightarrow> p \<noteq> 0 \<longrightarrow> (\<exists>k. idk pw salt t m p n = Some k \<and> length k = unat n))"

definition argon2_version :: nat where "argon2_version = 19"

definition dollar :: char where "dollar = CHR 0x24"

definition phc_string :: "argon2id_params \<Rightarrow> byte list \<Rightarrow> byte list \<Rightarrow> string" where
  "phc_string p salt key =
     dollar # ''argon2id'' @ dollar # ''v='' @ show_nat argon2_version
       @ dollar # ''m='' @ show_nat (unat (ar_memory p)) @ '',t='' @ show_nat (unat (ar_iterations p))
       @ '',p='' @ show_nat (unat (ar_parallelism p)) @ dollar # b64_raw salt @ dollar # b64_raw key"

text \<open>\<open>rd n\<close> is what reading \<open>n\<close> bytes from the entropy source answers.\<close>

definition argon2id_hash ::
  "id_key \<Rightarrow> (nat \<Rightarrow> err + byte list) \<Rightarrow> argon2id_params \<Rightarrow> ctx \<Rightarrow> string \<Rightarrow> string call" where
  "argon2id_hash idk rd p cx pw =
     (case ctx_err cx of
        Some e \<Rightarrow> Returned (Inl e)
      | None \<Rightarrow>
          (case rd (unat (ar_salt_length p)) of
             Inl e \<Rightarrow> Returned (Inl e)
           | Inr salt \<Rightarrow>
               (case idk pw salt (ar_iterations p) (ar_memory p) (ar_parallelism p) (ar_key_length p) of
                  None \<Rightarrow> Panic
                | Some key \<Rightarrow> Returned (Inr (phc_string p salt key)))))"

text \<open>\<open>decode\<close>; the lengths of the parameters it returns are not set.\<close>

definition zero_params :: argon2id_params where
  "zero_params = \<lparr>ar_memory = 0, ar_iterations = 0, ar_parallelism = 0, ar_salt_length = 0, ar_key_length = 0\<rparr>"

definition scan_version :: "string \<Rightarrow> int option" where
  "scan_version s = (case literal ''v='' s of None \<Rightarrow> None | Some s1 \<Rightarrow> map_option fst (scan_int s1))"

definition scan_params :: "string \<Rightarrow> argon2id_params option" where
  "scan_params s =
     Option.bind (literal ''m='' s) (\<lambda>s1.
     Option.bind (scan_uint 32 s1) (\<lambda>(m, s2).
     Option.bind (literal '',t='' s2) (\<lambda>s3.
     Option.bind (scan_uint 32 s3) (\<lambda>(t, s4).
     Option.bind (literal '',p='' s4) (\<lambda>s5.
     Option.bind (scan_uint 8 s5) (\<lambda>(p, s6).
     Some (zero_params\<lparr>ar_memory := of_nat m, ar_iterations := of_nat t, ar_parallelism := of_nat p\<rparr>)))))))"

definition phc_decode :: "string \<Rightarrow> err + argon2id_params \<times> byte list \<times> byte list" where
  "phc_decode encoded =
     (case split_on dollar encoded of
        [p0, p1, p2, p3, p4, p5] \<Rightarrow>
          if p1 \<noteq> ''argon2id'' then Inl PasswordInvalidHash
          else (case scan_version p2 of
            None \<Rightarrow> Inl PasswordInvalidHash
          | Some v \<Rightarrow>
              if v \<noteq> int argon2_version then Inl PasswordIncompatibleVersion
              else (case scan_params p3 of
                None \<Rightarrow> Inl PasswordInvalidHash
              | Some p \<Rightarrow>
                  (case b64_raw_decode p4 of
                     None \<Rightarrow> Inl PasswordInvalidHash
                   | Some salt \<Rightarrow>
                       (case b64_raw_decode p5 of
                          None \<Rightarrow> Inl PasswordInvalidHash
                        | Some key \<Rightarrow> if key = [] then Inl PasswordInvalidHash else Inr (p, salt, key)))))
      | _ \<Rightarrow> Inl PasswordInvalidHash)"

definition argon2id_verify :: "id_key \<Rightarrow> ctx \<Rightarrow> string \<Rightarrow> string \<Rightarrow> unit call" where
  "argon2id_verify idk cx encoded pw =
     (case ctx_err cx of
        Some e \<Rightarrow> Returned (Inl e)
      | None \<Rightarrow>
          (case phc_decode encoded of
             Inl e \<Rightarrow> Returned (Inl e)
           | Inr (p, salt, key) \<Rightarrow>
               (case idk pw salt (ar_iterations p) (ar_memory p) (ar_parallelism p) (of_nat (length key)) of
                  None \<Rightarrow> Panic
                | Some other \<Rightarrow>
                    if key = other then Returned (Inr ()) else Returned (Inl PasswordMismatch))))"

section \<open>Numbers and base64 read back\<close>

lemma hex_digit_decimal: "n < 10 \<Longrightarrow> decimal (hex_digit n) \<and> of_char (hex_digit n) - 48 = n"
proof -
  have "\<forall>n \<in> set [0..<10]. decimal (hex_digit n) \<and> of_char (hex_digit n) - 48 = n" by code_simp
  then show "n < 10 \<Longrightarrow> ?thesis" by simp
qed

lemma show_nat_digits: "show_nat n \<noteq> [] \<and> (\<forall>c \<in> set (show_nat n). decimal c) \<and> digits_value (show_nat n) = n"
proof (induction n rule: show_nat.induct)
  case (1 n)
  show ?case
  proof (cases "n < 10")
    case True
    with hex_digit_decimal [OF True] show ?thesis by (simp add: show_nat.simps [of n] digits_value_def)
  next
    case False
    with 1 hex_digit_decimal [of "n mod 10"] show ?thesis
      by (auto simp: show_nat.simps [of n] digits_value_def)
  qed
qed

lemma decimal_no_space: "decimal c \<Longrightarrow> \<not> space_char c \<and> of_char c \<noteq> (10 :: nat)"
  by (auto simp: decimal_def space_char_def Let_def)

lemma skip_space_show: "skip_space (show_nat n @ s) = Some (show_nat n @ s)"
  using show_nat_digits [of n] by (cases "show_nat n") (auto simp: decimal_no_space)

lemma span_show:
  assumes "s = [] \<or> \<not> decimal (hd s)"
  shows "takeWhile decimal (show_nat n @ s) = show_nat n" "dropWhile decimal (show_nat n @ s) = s"
  using show_nat_digits [of n] assms
  by (cases s; simp add: takeWhile_append2 dropWhile_append2)+

lemma scan_uint_show:
  assumes "s = [] \<or> \<not> decimal (hd s)" "n < 2 ^ w"
  shows "scan_uint w (show_nat n @ s) = Some (n, s)"
  unfolding scan_uint_def skip_space_show option.case span_show [OF assms(1)] Let_def
  using assms(2) show_nat_digits [of n] by simp

lemma b64_alphabet_distinct: "distinct b64_alphabet" and b64_alphabet_length: "length b64_alphabet = 64"
  by (code_simp)+

lemma b64_value_nth: "i < 64 \<Longrightarrow> b64_value (b64_alphabet ! i) = Some i"
  using map_of_zip_nth [of b64_alphabet "[0..<64]" i]
  by (simp add: b64_value_def b64_alphabet_distinct b64_alphabet_length)

lemma b64_alphabet_plain: "i < 64 \<Longrightarrow> b64_alphabet ! i \<in> set b64_alphabet"
  by (simp add: b64_alphabet_length)

lemma b64_alphabet_chars: "c \<in> set b64_alphabet \<Longrightarrow> c \<noteq> dollar \<and> of_char c \<noteq> (10 :: nat) \<and> of_char c \<noteq> (13 :: nat)"
proof -
  have "\<forall>c \<in> set b64_alphabet. c \<noteq> dollar \<and> of_char c \<noteq> (10 :: nat) \<and> of_char c \<noteq> (13 :: nat)" by code_simp
  then show "c \<in> set b64_alphabet \<Longrightarrow> ?thesis" by blast
qed

lemma unat_byte_bounds: "unat (b :: byte) < 256"
  using unsigned_less [of b, where ?'a = nat] by simp

lemma byte_bounds:
  "unat (b :: byte) div 4 < 64" "unat b div 16 < 16" "unat b div 64 < 4"
  "unat (a :: byte) mod 4 * 16 + unat b div 16 < 64" "unat a mod 16 * 4 + unat b div 64 < 64"
proof -
  show b: "unat b div 4 < 64" "unat b div 16 < 16" "unat b div 64 < 4"
    using unat_byte_bounds [of b] by simp_all
  have "unat a mod 4 < 4" "unat a mod 16 < 16" by simp_all
  with b show "unat a mod 4 * 16 + unat b div 16 < 64" "unat a mod 16 * 4 + unat b div 64 < 64" by linarith+
qed

lemma set_b64_raw: "set (b64_encode b64_alphabet False bs) \<subseteq> set b64_alphabet"
  by (induction b64_alphabet False bs rule: b64_encode.induct)
    (use byte_bounds in \<open>auto intro!: b64_alphabet_plain simp: less_eq_Suc_le\<close>)

lemma b64_groups_encode:
  "b64_groups (map (the \<circ> b64_value) (b64_encode b64_alphabet False bs)) = Some bs"
proof (induction b64_alphabet False bs rule: b64_encode.induct)
  case (2 a)
  have "(of_nat (unat a div 4 * 4 + unat a mod 4 * 16 div 16) :: byte) = of_nat (unat a)" by simp
  then show ?case using byte_bounds(1) [of a] by (simp add: b64_value_nth)
next
  case (3 a b)
  have "(unat a mod 4 * 16 + unat b div 16) div 16 = unat a mod 4"
    "(unat a mod 4 * 16 + unat b div 16) mod 16 = unat b div 16"
    using byte_bounds(2) [of b] by (simp_all add: div_mult_self3 mod_mult_self3 div_add1_eq)
  moreover have "unat b div 16 * 16 + unat b mod 16 * 4 div 4 = unat b" by simp
  ultimately show ?case using byte_bounds(1) [of a] byte_bounds(4) [of a b] byte_bounds(5) [of b b]
    by (simp add: b64_value_nth del: of_nat_add of_nat_mult)
next
  case (4 a b c bs)
  have "(unat a mod 4 * 16 + unat b div 16) div 16 = unat a mod 4"
    "(unat a mod 4 * 16 + unat b div 16) mod 16 = unat b div 16"
    "(unat b mod 16 * 4 + unat c div 64) div 4 = unat b mod 16"
    "(unat b mod 16 * 4 + unat c div 64) mod 4 = unat c div 64"
    using byte_bounds(2) [of b] byte_bounds(3) [of c]
    by (simp_all add: div_mult_self3 mod_mult_self3 div_add1_eq)
  moreover have "unat c mod 64 < 64" by simp
  ultimately show ?case using 4 byte_bounds(1) [of a] byte_bounds(4) [of a b] byte_bounds(5) [of b c]
    by (simp add: b64_value_nth del: of_nat_add of_nat_mult)
qed simp

lemma b64_raw_decode_encode: "b64_raw_decode (b64_raw bs) = Some bs"
proof -
  have A: "\<forall>c \<in> set (b64_raw bs). c \<in> set b64_alphabet" using set_b64_raw [of bs] by (auto simp: b64_raw_def)
  then have "filter (\<lambda>c. of_char c \<noteq> (10 :: nat) \<and> of_char c \<noteq> (13 :: nat)) (b64_raw bs) = b64_raw bs"
    using b64_alphabet_chars by (auto intro!: filter_True)
  moreover have "list_all (\<lambda>c. b64_value c \<noteq> None) (b64_raw bs)"
    using A b64_value_nth unfolding list_all_iff
    by (metis b64_alphabet_length in_set_conv_nth option.distinct(1))
  ultimately show ?thesis
    by (simp add: b64_raw_decode_def Let_def) (simp add: b64_raw_def b64_groups_encode)
qed

lemma dollar_free: "dollar \<notin> set (show_nat n)" "dollar \<notin> set (b64_raw bs)"
  using show_nat_digits [of n] set_b64_raw [of bs] b64_alphabet_chars
  by (auto simp: dollar_def decimal_def b64_raw_def)

lemma split_phc:
  "split_on dollar (phc_string p salt key) =
     [[], ''argon2id'', ''v='' @ show_nat argon2_version,
      ''m='' @ show_nat (unat (ar_memory p)) @ '',t='' @ show_nat (unat (ar_iterations p))
        @ '',p='' @ show_nat (unat (ar_parallelism p)), b64_raw salt, b64_raw key]"
proof -
  have "split_on dollar (phc_string p salt key) =
    split_on dollar ([] @ dollar # (''argon2id'' @ dollar # ((''v='' @ show_nat argon2_version)
       @ dollar # ((''m='' @ show_nat (unat (ar_memory p)) @ '',t='' @ show_nat (unat (ar_iterations p))
       @ '',p='' @ show_nat (unat (ar_parallelism p))) @ dollar # (b64_raw salt @ dollar # b64_raw key)))))"
    by (simp add: phc_string_def)
  also have "\<dots> = [[], ''argon2id'', ''v='' @ show_nat argon2_version,
      ''m='' @ show_nat (unat (ar_memory p)) @ '',t='' @ show_nat (unat (ar_iterations p))
        @ '',p='' @ show_nat (unat (ar_parallelism p)), b64_raw salt, b64_raw key]"
  proof -
    have "dollar \<notin> set ''argon2id''" "dollar \<notin> set (''v='' @ show_nat argon2_version)"
      "dollar \<notin> set (''m='' @ show_nat (unat (ar_memory p)) @ '',t='' @ show_nat (unat (ar_iterations p))
        @ '',p='' @ show_nat (unat (ar_parallelism p)))"
      using dollar_free(1) by (auto simp: dollar_def)
    then show ?thesis
      by (simp only: split_on_append split_on_single dollar_free not_False_eq_True set_empty empty_iff list.set(1))
  qed
  finally show ?thesis .
qed

lemma unat_bounds: "unat (x :: 32 word) < 2 ^ 32" "unat (y :: 8 word) < 2 ^ 8"
  using unsigned_less [of x, where ?'a = nat] unsigned_less [of y, where ?'a = nat] by simp_all

lemma literal_append [simp]: "literal l (l @ s) = Some s"
  by (induction l) auto

lemma scan_params_phc:
  "scan_params (''m='' @ show_nat (unat (ar_memory p)) @ '',t='' @ show_nat (unat (ar_iterations p))
        @ '',p='' @ show_nat (unat (ar_parallelism p))) =
   Some (zero_params\<lparr>ar_memory := ar_memory p, ar_iterations := ar_iterations p, ar_parallelism := ar_parallelism p\<rparr>)"
proof -
  have l: "literal (x # xs) (x # s) = literal xs s" for x xs s by simp
  have m: "scan_uint 32 (show_nat (unat (ar_memory p)) @ CHR '','' # s) = Some (unat (ar_memory p), CHR '','' # s)"
    for s by (rule scan_uint_show) (use unat_bounds(1) [of "ar_memory p"] in \<open>simp_all add: decimal_def\<close>)
  have t: "scan_uint 32 (show_nat (unat (ar_iterations p)) @ CHR '','' # s) = Some (unat (ar_iterations p), CHR '','' # s)"
    for s by (rule scan_uint_show) (use unat_bounds(1) [of "ar_iterations p"] in \<open>simp_all add: decimal_def\<close>)
  have q: "scan_uint 8 (show_nat (unat (ar_parallelism p))) = Some (unat (ar_parallelism p), [])"
    using scan_uint_show [of "[]" "unat (ar_parallelism p)" 8] unat_bounds(2) [of "ar_parallelism p"] by simp
  show ?thesis by (simp add: scan_params_def m t q)
qed

lemma scan_version_phc: "scan_version (''v='' @ show_nat argon2_version) = Some (int argon2_version)"
  by code_simp

lemma phc_decode_string:
  assumes "key \<noteq> []"
  shows "phc_decode (phc_string p salt key) = Inr (zero_params\<lparr>ar_memory := ar_memory p,
     ar_iterations := ar_iterations p, ar_parallelism := ar_parallelism p\<rparr>, salt, key)"
  unfolding phc_decode_def split_phc list.case scan_version_phc scan_params_phc b64_raw_decode_encode option.case
  using assms by simp

section \<open>Properties\<close>

text \<open>C14: A hash reads back as what it was made from: decoding the PHC string of some parameters, a salt
  and a non-empty key gives exactly these parameters, this salt and this key.\<close>

theorem phc_roundtrip:
  assumes "key \<noteq> []"
  shows "phc_decode (phc_string p salt key) = Inr (zero_params\<lparr>ar_memory := ar_memory p,
     ar_iterations := ar_iterations p, ar_parallelism := ar_parallelism p\<rparr>, salt, key)"
  using assms by (rule phc_decode_string)

theorem phc_roundtrip_witness:
  "phc_decode (phc_string default_argon2id_params [1, 2, 3] [255, 0]) =
    Inr (zero_params\<lparr>ar_memory := 19456, ar_iterations := 2, ar_parallelism := 1\<rparr>, [1, 2, 3], [255, 0])"
  using phc_roundtrip [of "[255, 0]" default_argon2id_params "[1, 2, 3]"]
  by (simp add: default_argon2id_params_def)

text \<open>C13: What \<open>Hash\<close> writes, \<open>Verify\<close> accepts, with every hasher \<open>NewArgon2id\<close> makes and whatever the
  parameters of the hasher that verifies: hashing does not panic, the same password verifies,
  and any other password is accepted or answered \<open>ErrMismatch\<close> just as its derived key is equal
  or not.\<close>

theorem argon2id_verifies:
  assumes "id_key_law idk" and "ctx_err cx = None" and "rd (unat (ar_salt_length (new_argon2id q))) = Inr salt"
  shows "\<exists>h key. argon2id_hash idk rd (new_argon2id q) cx pw = Returned (Inr h) \<and>
    argon2id_verify idk cx h pw = Returned (Inr ()) \<and>
    (\<forall>pw'. argon2id_verify idk cx h pw' = Returned
       (if idk pw' salt (ar_iterations (new_argon2id q)) (ar_memory (new_argon2id q))
            (ar_parallelism (new_argon2id q)) (ar_key_length (new_argon2id q)) = Some key
        then Inr () else Inl PasswordMismatch))"
proof -
  let ?p = "new_argon2id q"
  have nz: "ar_iterations ?p \<noteq> 0" "ar_parallelism ?p \<noteq> 0" "ar_key_length ?p \<noteq> 0"
    by (simp_all add: new_argon2id_def default_argon2id_params_def Let_def)
  then have law: "\<exists>k. idk pw' salt (ar_iterations ?p) (ar_memory ?p) (ar_parallelism ?p) (ar_key_length ?p) = Some k \<and>
      length k = unat (ar_key_length ?p)" for pw'
    using assms(1) by (simp add: id_key_law_def)
  then obtain key where key: "idk pw salt (ar_iterations ?p) (ar_memory ?p) (ar_parallelism ?p) (ar_key_length ?p) = Some key"
    "length key = unat (ar_key_length ?p)" by blast
  with nz(3) have "key \<noteq> []" by (auto simp: unat_eq_0 dest: sym)
  have len: "of_nat (length key) = ar_key_length ?p" by (simp add: key(2))
  have V: "argon2id_verify idk cx (phc_string ?p salt key) pw' = Returned
      (if idk pw' salt (ar_iterations ?p) (ar_memory ?p) (ar_parallelism ?p) (ar_key_length ?p) = Some key
       then Inr () else Inl PasswordMismatch)" for pw'
  proof -
    obtain k where k: "idk pw' salt (ar_iterations ?p) (ar_memory ?p) (ar_parallelism ?p) (ar_key_length ?p) = Some k"
      using law by blast
    show ?thesis
      unfolding argon2id_verify_def assms(2) option.case phc_decode_string [OF \<open>key \<noteq> []\<close>]
      by (simp add: len k eq_commute)
  qed
  have "argon2id_hash idk rd ?p cx pw = Returned (Inr (phc_string ?p salt key))"
    by (simp add: argon2id_hash_def assms(2,3) key(1))
  with V [of pw] V key(1) show ?thesis by auto
qed

text \<open>A toy key derivation: the password and the salt, repeated up to the wanted length.\<close>

definition toy_id_key :: id_key where
  "toy_id_key pw salt t m p n =
     (if t = 0 \<or> p = 0 then None
      else Some (take (unat n) (map (\<lambda>c. of_nat (of_char c)) pw @ salt @ replicate (unat n) 0)))"

lemma toy_id_key_law: "id_key_law toy_id_key"
  by (auto simp: id_key_law_def toy_id_key_def min_def)

theorem argon2id_verifies_witness:
  "\<exists>h. argon2id_hash toy_id_key (\<lambda>n. Inr (replicate n 7)) (new_argon2id zero_params) background ''secret'' =
      Returned (Inr h) \<and> argon2id_verify toy_id_key background h ''secret'' = Returned (Inr ())"
proof -
  have "unat (ar_salt_length (new_argon2id zero_params)) = 16"
    by (simp add: new_argon2id_def default_argon2id_params_def zero_params_def)
  with argon2id_verifies [OF toy_id_key_law, where cx = background and rd = "\<lambda>n. Inr (replicate n 7)"
      and q = zero_params and salt = "replicate 16 7" and pw = "''secret''"]
  show ?thesis by (auto simp: background_def)
qed

text \<open>
  \<open>Verify\<close> reads the parameters from the hash and does not check them: a hash with no iterations
  is decoded, and the key derivation panics on it.
\<close>

lemma verify_panics:
  assumes "\<And>pw salt m p n. idk pw salt 0 m p n = None" and "ar_iterations p = 0" and "key \<noteq> []"
  shows "argon2id_verify idk background (phc_string p salt key) pw = Panic"
  using assms by (simp add: argon2id_verify_def background_def phc_decode_string)

end
