(* ===== verification/Float64.thy ===== *)
theory Float64
  imports Complex_Main "HOL-Library.Log_Nat"
begin

text \<open>
  Go's \<open>float64\<close> as far as the rate limiter uses it: the value of a float is a rational number,
  and an arithmetic operation is the exact one followed by \<open>fl\<close>, which rounds to 53 significant
  bits, to nearest with ties to even (IEEE 754 binary64). The exponent is not bounded: the
  limiter computes with counts, seconds and rates, far from overflow and from subnormal
  numbers. Infinities and NaN are not modelled.
\<close>

section \<open>Rounding\<close>

text \<open>Rounding to an integer, ties to even.\<close>

definition round_even :: "rat \<Rightarrow> int" where
  "round_even x =
     (let f = \<lfloor>x\<rfloor>; d = x - of_int f in
      if d < 1 / 2 \<or> (d = 1 / 2 \<and> even f) then f else f + 1)"

text \<open>The binary exponent of a positive number: \<open>2 powi e \<le> x < 2 powi (e + 1)\<close>.\<close>

definition exponent :: "rat \<Rightarrow> int" where
  "exponent x =
     (let pq = quotient_of x;
          e = int (floorlog 2 (nat (fst pq))) - int (floorlog 2 (nat (snd pq))) in
      if 2 powi e \<le> x then e else e - 1)"

definition fl_pos :: "rat \<Rightarrow> rat" where
  "fl_pos x = (let e = exponent x - 52 in of_int (round_even (x / 2 powi e)) * 2 powi e)"

definition fl :: "rat \<Rightarrow> rat" where
  "fl x = (if x = 0 then 0 else if x > 0 then fl_pos x else - fl_pos (- x))"

section \<open>Rounding is monotone and keeps small integers\<close>

lemma round_even_bounds: "\<lfloor>x\<rfloor> \<le> round_even x" "round_even x \<le> \<lfloor>x\<rfloor> + 1"
  by (simp_all add: round_even_def Let_def)

lemma round_even_int [simp]: "round_even (of_int n) = n"
  by (simp add: round_even_def)

lemma round_even_mono:
  assumes "x \<le> y"
  shows "round_even x \<le> round_even y"
proof (cases "\<lfloor>x\<rfloor> = \<lfloor>y\<rfloor>")
  case True
  with assms show ?thesis by (auto simp: round_even_def Let_def)
next
  case False
  with assms have "\<lfloor>x\<rfloor> + 1 \<le> \<lfloor>y\<rfloor>" using floor_mono [OF assms] by linarith
  with round_even_bounds [of x] round_even_bounds [of y] show ?thesis by linarith
qed

lemma powi_step: "(2 :: rat) powi (e + 1) = 2 * 2 powi e" "(2 :: rat) powi (e - 1) = 2 powi e / 2"
  by (simp_all add: power_int_add power_int_diff)

lemma floorlog_range:
  assumes "0 < n"
  shows "(2 :: rat) powi (int (floorlog 2 n) - 1) \<le> of_nat n" "(of_nat n :: rat) < 2 powi int (floorlog 2 n)"
proof -
  have b: "2 ^ (floorlog 2 n - 1) \<le> n" "n < 2 ^ floorlog 2 n" and p: "0 < floorlog 2 n"
    using floorlog_bounds [OF assms, of 2] assms by (auto simp: floorlog_eq_zero_iff intro: gr0I)
  have "(2 :: rat) powi (int (floorlog 2 n) - 1) = of_nat (2 ^ (floorlog 2 n - 1))"
    using p by (simp add: power_int_nonneg_exp nat_diff_distrib)
  also have "\<dots> \<le> of_nat n" using b(1) by (rule of_nat_mono)
  finally show "(2 :: rat) powi (int (floorlog 2 n) - 1) \<le> of_nat n" .
  have "(of_nat n :: rat) < of_nat (2 ^ floorlog 2 n)" using b(2) by (simp only: of_nat_less_iff)
  then show "(of_nat n :: rat) < 2 powi int (floorlog 2 n)" by simp
qed

lemma exponent_range:
  assumes "0 < x"
  shows "2 powi exponent x \<le> x" "x < 2 powi (exponent x + 1)"
proof -
  obtain p q where pq: "quotient_of x = (p, q)" by (cases "quotient_of x")
  then have q: "0 < q" and x: "x = of_int p / of_int q"
    by (auto intro: quotient_of_denom_pos quotient_of_div)
  with assms have p: "0 < p" by (simp add: zero_less_divide_iff)
  let ?a = "int (floorlog 2 (nat p))" and ?b = "int (floorlog 2 (nat q))"
  have P: "2 powi (?a - 1) \<le> (of_int p :: rat)" "(of_int p :: rat) < 2 powi ?a"
    using floorlog_range [of "nat p"] p by simp_all
  have Q: "2 powi (?b - 1) \<le> (of_int q :: rat)" "(of_int q :: rat) < 2 powi ?b"
    using floorlog_range [of "nat q"] q by simp_all
  have "x < 2 powi ?a / 2 powi (?b - 1)"
    unfolding x using P(2) Q(1) p q by (intro frac_less) auto
  then have up: "x < 2 powi (?a - ?b + 1)"
    by (simp add: power_int_diff power_int_add)
  have "2 powi (?a - 1) / 2 powi ?b < x"
    unfolding x using P(1) Q(2) p q by (intro frac_less2) auto
  then have low: "2 powi (?a - ?b - 1) \<le> x"
    by (simp add: power_int_diff)
  show "2 powi exponent x \<le> x" "x < 2 powi (exponent x + 1)"
    using up low by (auto simp: exponent_def pq Let_def)
qed

lemma powi_less_imp: "(2 :: rat) powi a < 2 powi b \<Longrightarrow> a < b"
  by (meson linorder_not_less one_le_numeral power_int_increasing)

lemma exponent_mono:
  assumes "0 < x" "x \<le> y"
  shows "exponent x \<le> exponent y"
proof -
  have "(2 :: rat) powi exponent x < 2 powi (exponent y + 1)"
    using exponent_range [of x] exponent_range [of y] assms by linarith
  from powi_less_imp [OF this] show ?thesis by simp
qed

text \<open>The scaled significand is between \<open>2 ^ 52\<close> and \<open>2 ^ 53\<close>.\<close>

lemma significand_range:
  assumes "0 < x"
  shows "2 ^ 52 \<le> round_even (x / 2 powi (exponent x - 52))" "round_even (x / 2 powi (exponent x - 52)) \<le> 2 ^ 53"
proof -
  let ?u = "2 powi (exponent x - 52) :: rat"
  have e: "2 powi exponent x = 2 ^ 52 * ?u" "2 powi (exponent x + 1) = 2 ^ 53 * ?u"
    by (simp_all add: power_int_diff power_int_add)
  have u: "0 < ?u" by simp
  have "of_int (2 ^ 52) \<le> x / ?u" using exponent_range(1) [OF assms] e(1) u by (simp add: pos_le_divide_eq)
  then have "round_even (of_int (2 ^ 52)) \<le> round_even (x / ?u)" by (rule round_even_mono)
  then show "2 ^ 52 \<le> round_even (x / ?u)" by (simp only: round_even_int)
  have "x / ?u \<le> of_int (2 ^ 53)" using exponent_range(2) [OF assms] e(2) u by (simp add: pos_divide_le_eq)
  then have "round_even (x / ?u) \<le> round_even (of_int (2 ^ 53))" by (rule round_even_mono)
  then show "round_even (x / ?u) \<le> 2 ^ 53" by (simp only: round_even_int)
qed

lemma fl_pos_range:
  assumes "0 < x"
  shows "2 powi exponent x \<le> fl_pos x" "fl_pos x \<le> 2 powi (exponent x + 1)"
proof -
  let ?u = "2 powi (exponent x - 52) :: rat" and ?r = "round_even (x / 2 powi (exponent x - 52))"
  have e: "2 powi exponent x = of_int (2 ^ 52) * ?u" "2 powi (exponent x + 1) = of_int (2 ^ 53) * ?u"
    by (simp_all add: power_int_diff power_int_add)
  have "(of_int (2 ^ 52) :: rat) \<le> of_int ?r" "of_int ?r \<le> (of_int (2 ^ 53) :: rat)"
    using significand_range [OF assms] by (simp_all only: of_int_le_iff)
  then show "2 powi exponent x \<le> fl_pos x" "fl_pos x \<le> 2 powi (exponent x + 1)"
    unfolding e fl_pos_def Let_def by (intro mult_right_mono; simp)+
qed

lemma fl_pos_mono:
  assumes "0 < x" "x \<le> y"
  shows "fl_pos x \<le> fl_pos y"
proof (cases "exponent x = exponent y")
  case True
  have "x / 2 powi (exponent x - 52) \<le> y / 2 powi (exponent y - 52)"
    unfolding True using assms(2) by (simp add: divide_right_mono)
  from round_even_mono [OF this] True show ?thesis by (simp add: fl_pos_def Let_def)
next
  case False
  with exponent_mono [OF assms] have "exponent x + 1 \<le> exponent y" by simp
  then have "(2 :: rat) powi (exponent x + 1) \<le> 2 powi exponent y" by (rule power_int_increasing) simp
  with fl_pos_range(2) [OF assms(1)] fl_pos_range(1) [of y] assms show ?thesis by linarith
qed

lemma fl_pos_nonneg: "0 < x \<Longrightarrow> 0 < fl_pos x"
  using fl_pos_range(1) [of x] zero_less_power_int [of "2 :: rat" "exponent x"] by linarith

lemma fl_0 [simp]: "fl 0 = 0"
  by (simp add: fl_def)

lemma fl_minus: "fl (- x) = - fl x"
  by (simp add: fl_def)

lemma fl_mono: "x \<le> y \<Longrightarrow> fl x \<le> fl y"
proof -
  assume le: "x \<le> y"
  consider "0 < x" | "y < 0" | "x \<le> 0" "0 \<le> y" by linarith
  then show ?thesis
  proof cases
    case 1
    with le show ?thesis by (simp add: fl_def fl_pos_mono)
  next
    case 2
    with le show ?thesis using fl_pos_mono [of "- y" "- x"] by (simp add: fl_def)
  next
    case 3
    then have "fl x \<le> 0" "0 \<le> fl y" using fl_pos_nonneg [of "- x"] fl_pos_nonneg [of y]
      by (auto simp: fl_def)
    then show ?thesis by simp
  qed
qed

lemma fl_nonneg: "0 \<le> x \<Longrightarrow> 0 \<le> fl x"
  using fl_mono [of 0 x] by simp

text \<open>Integers of at most 53 bits are floats.\<close>

lemma fl_of_int:
  assumes "\<bar>n\<bar> \<le> 2 ^ 53"
  shows "fl (of_int n) = of_int n"
proof -
  have pos: "fl_pos (of_int n) = of_int n" if n: "0 < n" "n \<le> 2 ^ 53" for n :: int
  proof -
    let ?x = "of_int n :: rat"
    have x: "2 powi exponent ?x \<le> ?x" using exponent_range(1) [of ?x] n by simp
    have "\<exists>k. ?x / 2 powi (exponent ?x - 52) = of_int k"
    proof (cases "exponent ?x \<le> 52")
      case True
      have "?x / 2 powi (exponent ?x - 52) = ?x * 2 powi (52 - exponent ?x)"
        by (simp add: power_int_diff)
      also have "\<dots> = of_int (n * 2 ^ nat (52 - exponent ?x))"
        using True by (simp add: power_int_nonneg_exp)
      finally show ?thesis by blast
    next
      case False
      have "?x \<le> of_int (2 ^ 53)" using n(2) by (simp only: of_int_le_iff)
      with x have "(2 :: rat) powi exponent ?x < 2 powi 54" by simp
      with False have e: "exponent ?x = 53" using powi_less_imp [of "exponent ?x" 54] by simp
      with x have "of_int (2 ^ 53) \<le> ?x" by simp
      then have "n = 2 ^ 53" using n(2) by (simp only: of_int_le_iff order_antisym_conv)
      have "?x / 2 powi (exponent ?x - 52) = of_int (2 ^ 52)" unfolding e by (simp add: \<open>n = 2 ^ 53\<close>)
      then show ?thesis by blast
    qed
    then obtain k where "?x / 2 powi (exponent ?x - 52) = of_int k" ..
    moreover from this have "of_int k * 2 powi (exponent ?x - 52) = ?x" by (simp add: field_simps)
    ultimately show ?thesis by (simp add: fl_pos_def Let_def)
  qed
  show ?thesis
  proof (cases "0 < n")
    case True
    with pos [of n] assms show ?thesis by (simp add: fl_def)
  next
    case False
    with pos [of "- n"] assms show ?thesis by (auto simp: fl_def)
  qed
qed

section \<open>Conversions\<close>

text \<open>\<open>int64(x)\<close> drops the fraction; \<open>math.Ceil\<close> rounds up.\<close>

definition trunc_float :: "rat \<Rightarrow> int" where
  "trunc_float x = (if 0 \<le> x then \<lfloor>x\<rfloor> else \<lceil>x\<rceil>)"

definition float_of :: "int \<Rightarrow> rat" where
  "float_of n = fl (of_int n)"

end
