(* ===== verification/Durations.thy ===== *)
theory Durations
  imports Float64 Go_Prelude "HOL-Library.Signed_Division"
begin

text \<open>\<open>Duration.Seconds\<close>, a \<open>float64\<close>, and its conversion to a whole number, which drops the fraction.\<close>

definition seconds_of :: "duration \<Rightarrow> rat" where
  "seconds_of d = fl (float_of (d sdiv second) + fl (float_of (d smod second) / 10 ^ 9))"

definition whole_seconds :: "duration \<Rightarrow> int" where
  "whole_seconds d = trunc_float (seconds_of d)"

end
