(* ===== verification/Rate_Limit.thy ===== *)
theory Rate_Limit
  imports Durations Engine
begin

text \<open>
  The rate-limit plugin (\<open>plugins/rate-limit\<close>): policies and keys (\<open>domain.go\<close>, \<open>config.go\<close>), the
  sliding window and the token bucket, in memory and on a shared cache (\<open>engine.go\<close>), the
  service on top (\<open>service.go\<close>) and its hooks (\<open>plugin.go\<close>).

  \<open>int64\<close> values are integers, wrapped where the code multiplies durations; \<open>float64\<close> values are
  those of \<open>Float64\<close>. The algorithms, key types and fail modes are strings in the code and stay so.
\<close>

section \<open>Requests, decisions, policies\<close>

definition ActionSignIn :: string where "ActionSignIn = ''signin''"
definition ActionSignUp :: string where "ActionSignUp = ''signup''"
definition ActionPasswordReset :: string where "ActionPasswordReset = ''password_reset''"
definition ActionEmailOTP :: string where "ActionEmailOTP = ''email_otp''"
definition ActionMagicLink :: string where "ActionMagicLink = ''magic_link''"
definition ActionPhoneOTP :: string where "ActionPhoneOTP = ''phone_otp''"
definition ActionAccountRecovery :: string where "ActionAccountRecovery = ''account_recovery''"
definition ActionAPIKey :: string where "ActionAPIKey = ''api_key''"
definition ActionAdmin :: string where "ActionAdmin = ''admin''"

definition AlgorithmSlidingWindow :: string where "AlgorithmSlidingWindow = ''sliding_window''"
definition AlgorithmTokenBucket :: string where "AlgorithmTokenBucket = ''token_bucket''"
definition KeyTypeIP :: string where "KeyTypeIP = ''ip''"
definition KeyTypeIdentity :: string where "KeyTypeIdentity = ''identity''"
definition KeyTypeComposite :: string where "KeyTypeComposite = ''composite''"
definition FailOpen :: string where "FailOpen = ''fail_open''"
definition FailClosed :: string where "FailClosed = ''fail_closed''"

lemmas rate_actions = ActionSignIn_def ActionSignUp_def ActionPasswordReset_def ActionEmailOTP_def
  ActionMagicLink_def ActionPhoneOTP_def ActionAccountRecovery_def ActionAPIKey_def ActionAdmin_def

lemmas rate_names = AlgorithmSlidingWindow_def AlgorithmTokenBucket_def KeyTypeIP_def KeyTypeIdentity_def
  KeyTypeComposite_def FailOpen_def FailClosed_def

record rate_request =
  rq_action :: string
  rq_ip :: string
  rq_identity :: string
  rq_custom_key :: string

record decision =
  dc_allowed :: bool
  dc_remaining :: int
  dc_limit :: int
  dc_reset_after :: duration
  dc_retry_after :: duration
  dc_action :: string
  dc_key :: string

record rate_policy =
  po_action :: string
  po_algorithm :: string
  po_limit :: int
  po_window :: duration
  po_capacity :: int
  po_refill_rate :: rat
  po_key_type :: string
  po_fail_mode :: string

definition normalize_ip :: "string \<Rightarrow> string" where
  "normalize_ip ip =
     (let ip' = trim_space ip in if ip' = [] then [] else replace_char (CHR '':'') ''_'' ip')"

definition hash_identity :: "runtime \<Rightarrow> string \<Rightarrow> string" where
  "hash_identity rt i =
     (let i' = to_lower (trim_space i) in if i' = [] then [] else hex_encode (take 16 (sha256 rt i')))"

definition build_key :: "runtime \<Rightarrow> rate_policy \<Rightarrow> rate_request \<Rightarrow> string" where
  "build_key rt p r =
     (if rq_custom_key r \<noteq> []
      then cache_key [''ratelimit'', po_action p, ''custom'', hash_identity rt (rq_custom_key r)]
      else
        let ip = (if normalize_ip (rq_ip r) = [] then ''unknown_ip'' else normalize_ip (rq_ip r));
            ident = (if hash_identity rt (rq_identity r) = [] then ''anonymous'' else hash_identity rt (rq_identity r))
        in
        if po_key_type p = KeyTypeIP then cache_key [''ratelimit'', po_action p, ''ip'', ip]
        else if po_key_type p = KeyTypeIdentity then cache_key [''ratelimit'', po_action p, ''id'', ident]
        else cache_key [''ratelimit'', po_action p, ''comp'', ip, ident])"

section \<open>Configuration\<close>

record rate_options =
  op_policies :: "string \<rightharpoonup> rate_policy"
  op_default_fail_mode :: string
  op_auto_hooks :: bool
  op_clock :: "nat \<Rightarrow> time"

definition register_default :: "rate_policy \<Rightarrow> rate_options \<Rightarrow> rate_options" where
  "register_default p c = c\<lparr>op_policies := (op_policies c)(po_action p \<mapsto> p)\<rparr>"

definition window_policy :: "string \<Rightarrow> int \<Rightarrow> duration \<Rightarrow> string \<Rightarrow> rate_policy" where
  "window_policy a n w k = \<lparr>po_action = a, po_algorithm = AlgorithmSlidingWindow, po_limit = n, po_window = w,
     po_capacity = 0, po_refill_rate = 0, po_key_type = k, po_fail_mode = FailOpen\<rparr>"

definition default_policies :: "rate_policy list" where
  "default_policies =
     [window_policy ActionSignIn 5 (1 * minute) KeyTypeComposite,
      window_policy ActionSignUp 5 (10 * minute) KeyTypeIP,
      window_policy ActionPasswordReset 3 (15 * minute) KeyTypeIdentity,
      window_policy ActionEmailOTP 3 (5 * minute) KeyTypeIdentity,
      window_policy ActionMagicLink 3 (15 * minute) KeyTypeIdentity,
      window_policy ActionPhoneOTP 3 (5 * minute) KeyTypeIdentity,
      window_policy ActionAccountRecovery 2 (1 * hour) KeyTypeIdentity,
      \<lparr>po_action = ActionAPIKey, po_algorithm = AlgorithmTokenBucket, po_limit = 0, po_window = 0,
       po_capacity = 100, po_refill_rate = 50, po_key_type = KeyTypeIdentity, po_fail_mode = FailOpen\<rparr>,
      window_policy ActionAdmin 30 (1 * minute) KeyTypeIdentity]"

text \<open>\<open>wall\<close> is the system clock \<open>time.Now\<close>.\<close>

definition default_options :: "(nat \<Rightarrow> time) \<Rightarrow> rate_options" where
  "default_options wall = fold register_default default_policies
     \<lparr>op_policies = Map.empty, op_default_fail_mode = FailOpen, op_auto_hooks = True, op_clock = wall\<rparr>"

definition with_policy :: "rate_policy \<Rightarrow> rate_options \<Rightarrow> rate_options" where
  "with_policy p c = c\<lparr>op_policies := (op_policies c)(po_action p \<mapsto> p)\<rparr>"

definition with_default_fail_mode :: "string \<Rightarrow> rate_options \<Rightarrow> rate_options" where
  "with_default_fail_mode m c = c\<lparr>op_default_fail_mode := m\<rparr>"

definition with_auto_hooks :: "bool \<Rightarrow> rate_options \<Rightarrow> rate_options" where
  "with_auto_hooks b c = c\<lparr>op_auto_hooks := b\<rparr>"

definition with_clock :: "(nat \<Rightarrow> time) option \<Rightarrow> rate_options \<Rightarrow> rate_options" where
  "with_clock clk c = (case clk of None \<Rightarrow> c | Some f \<Rightarrow> c\<lparr>op_clock := f\<rparr>)"

section \<open>The state of the limiter\<close>

record bucket =
  bk_tokens :: rat
  bk_last_refill :: time

text \<open>
  What does not change after \<open>newService\<close>, and what does. \<open>lc_counter\<close> is the cache's \<open>Counter\<close>
  capability (\<open>counter\<close>), when it has one; \<open>lc_now\<close> is the limiter's clock and \<open>lc_wall\<close> the system's, each
  with the number of its readings in the state.
\<close>

record ('s, 'c) limiter_config =
  lc_runtime :: runtime
  lc_cache :: "'c cache option"
  lc_counter :: "'c counter option"
  lc_now :: "nat \<Rightarrow> time"
  lc_wall :: "nat \<Rightarrow> time"
  lc_fail_mode :: string
  lc_events :: "('s, 'c) events"

record ('s, 'c) limiter =
  lm_windows :: "string \<rightharpoonup> time list"
  lm_buckets :: "string \<rightharpoonup> bucket"
  lm_last_cleaned :: time
  lm_ticks :: nat
  lm_wall_ticks :: nat
  lm_policies :: "string \<rightharpoonup> rate_policy"
  lm_world :: "('s, 'c) world"

type_synonym ('s, 'c, 'a) lim_act = "(('s, 'c) limiter, 'a) state"

definition lim_now :: "('s, 'c) limiter_config \<Rightarrow> ('s, 'c, time) lim_act" where
  "lim_now c = State (\<lambda>l. (lc_now c (lm_ticks l), l\<lparr>lm_ticks := Suc (lm_ticks l)\<rparr>))"

definition lim_wall :: "('s, 'c) limiter_config \<Rightarrow> ('s, 'c, time) lim_act" where
  "lim_wall c = State (\<lambda>l. (lc_wall c (lm_wall_ticks l), l\<lparr>lm_wall_ticks := Suc (lm_wall_ticks l)\<rparr>))"

definition lim_world :: "('s, 'c, 'a) act \<Rightarrow> ('s, 'c, 'a) lim_act" where
  "lim_world m = zoom lm_world (\<lambda>w l. l\<lparr>lm_world := w\<rparr>) m"

definition lim_cache :: "('c, 'a) state \<Rightarrow> ('s, 'c, 'a) lim_act" where
  "lim_cache m = lim_world (on_cache m)"

text \<open>\<open>newService\<close> with \<open>newEngine\<close>, which reads the clock once.\<close>

definition limiter_start ::
  "('s, 'c) limiter_config \<Rightarrow> rate_options \<Rightarrow> ('s, 'c) world \<Rightarrow> ('s, 'c) limiter" where
  "limiter_start c o' w =
     \<lparr>lm_windows = Map.empty, lm_buckets = Map.empty, lm_last_cleaned = lc_now c 0, lm_ticks = 1,
      lm_wall_ticks = 0, lm_policies = op_policies o', lm_world = w\<rparr>"

section \<open>The sliding window in memory\<close>

text \<open>\<open>cleanupExpiredLocked\<close>.\<close>

definition stale_window :: "time \<Rightarrow> time list \<Rightarrow> bool" where
  "stale_window cutoff ts \<longleftrightarrow> ts = [] \<or> last ts < cutoff"

definition cleanup :: "time \<Rightarrow> ('s, 'c, unit) lim_act" where
  "cleanup t = State (\<lambda>l. ((),
     if time_sub t (lm_last_cleaned l) < 5 * minute then l
     else
       let cutoff = t - 1 * hour in
       l\<lparr>lm_last_cleaned := t,
         lm_windows := (\<lambda>k. case lm_windows l k of
             None \<Rightarrow> None | Some ts \<Rightarrow> if stale_window cutoff ts then None else Some ts),
         lm_buckets := (\<lambda>k. case lm_buckets l k of
             None \<Rightarrow> None | Some b \<Rightarrow> if bk_last_refill b < cutoff then None else Some b)\<rparr>))"

text \<open>The loop that finds the first timestamp of the window; \<open>n\<close> is the number of timestamps.\<close>

fun valid_index :: "time \<Rightarrow> nat \<Rightarrow> nat \<Rightarrow> time list \<Rightarrow> nat" where
  "valid_index cutoff n i [] = 0"
| "valid_index cutoff n i (ts # rest) =
     (if \<not> ts < cutoff then i
      else if i = n - 1 then n
      else valid_index cutoff n (Suc i) rest)"

definition active_times :: "time \<Rightarrow> time list \<Rightarrow> time list" where
  "active_times cutoff tss = drop (valid_index cutoff (length tss) 0 tss) tss"

definition denied :: "rate_policy \<Rightarrow> string \<Rightarrow> int \<Rightarrow> duration \<Rightarrow> decision" where
  "denied p k limit retry = \<lparr>dc_allowed = False, dc_remaining = 0, dc_limit = limit,
     dc_reset_after = retry, dc_retry_after = retry, dc_action = po_action p, dc_key = k\<rparr>"

definition allowed :: "rate_policy \<Rightarrow> string \<Rightarrow> int \<Rightarrow> int \<Rightarrow> duration \<Rightarrow> decision" where
  "allowed p k remaining limit reset = \<lparr>dc_allowed = True, dc_remaining = remaining, dc_limit = limit,
     dc_reset_after = reset, dc_retry_after = 0, dc_action = po_action p, dc_key = k\<rparr>"

definition eff_window :: "rate_policy \<Rightarrow> duration" where
  "eff_window p = (if po_window p \<le> 0 then minute else po_window p)"

definition eff_limit :: "rate_policy \<Rightarrow> int" where
  "eff_limit p = (if po_limit p \<le> 0 then 1 else po_limit p)"

text \<open>The part of \<open>evaluateSlidingWindow\<close> under the mutex, on the timestamps of one key.\<close>

definition window_step ::
  "rate_policy \<Rightarrow> string \<Rightarrow> bool \<Rightarrow> time \<Rightarrow> time list \<Rightarrow> decision \<times> time list option" where
  "window_step p k consume t tss =
     (let active = active_times (t - eff_window p) tss; n = int (length active) in
      if n \<ge> eff_limit p then
        let oldest = (case active of [] \<Rightarrow> t | ts # _ \<Rightarrow> ts);
            retry = eff_window p - time_sub t oldest in
        (denied p k (eff_limit p) (if retry < 0 then second else retry), None)
      else if consume then (allowed p k (max 0 (eff_limit p - (n + 1))) (eff_limit p) (eff_window p), Some (active @ [t]))
      else (allowed p k (max 0 (eff_limit p - n)) (eff_limit p) (eff_window p), None))"

definition memory_window ::
  "rate_policy \<Rightarrow> string \<Rightarrow> bool \<Rightarrow> time \<Rightarrow> ('s, 'c, decision) lim_act" where
  "memory_window p k consume t = do {
     _ \<leftarrow> cleanup t;
     State (\<lambda>l.
       case window_step p k consume t (case lm_windows l k of None \<Rightarrow> [] | Some ts \<Rightarrow> ts) of
         (d, None) \<Rightarrow> (d, l)
       | (d, Some ts) \<Rightarrow> (d, l\<lparr>lm_windows := (lm_windows l)(k \<mapsto> ts)\<rparr>))
   }"

section \<open>The sliding window on a shared cache\<close>

text \<open>\<open>Time.Unix\<close>, and the whole seconds of a window.\<close>

definition unix_time :: "time \<Rightarrow> int" where
  "unix_time t = t div second - 62135596800"

definition window_seconds :: "duration \<Rightarrow> int" where
  "window_seconds d = (let s = whole_seconds d in if s \<le> 0 then 60 else s)"

definition bucket_key :: "string \<Rightarrow> int \<Rightarrow> string" where
  "bucket_key k n = k @ '':b:'' @ show_int n"

text \<open>
  \<open>_ = e.cache.Get(ctx, key, &v)\<close> for an \<open>int64\<close>: an error, also one of decoding, leaves \<open>v\<close> at 0.
\<close>

definition json_int :: "json \<Rightarrow> int" where
  "json_int j =
     (case j of
        JNum n \<Rightarrow> if - (2 ^ 63) \<le> n \<and> n < 2 ^ 63 then n else 0
      | JFloat p q \<Rightarrow> if q = 1 \<and> - (2 ^ 63) \<le> p \<and> p < 2 ^ 63 then p else 0
      | _ \<Rightarrow> 0)"

definition read_counter :: "'c cache \<Rightarrow> ctx \<Rightarrow> string \<Rightarrow> ('s, 'c, int) lim_act" where
  "read_counter ch cx k = do {
     r \<leftarrow> lim_cache (cache_get ch cx k);
     State_Monad.return (case r of Inl _ \<Rightarrow> 0 | Inr j \<Rightarrow> json_int j)
   }"

definition window_estimate :: "int \<Rightarrow> int \<Rightarrow> int \<Rightarrow> int \<Rightarrow> rat" where
  "window_estimate prev cur elapsed ws =
     fl (fl (float_of prev * fl (1 - fl (float_of elapsed / float_of ws))) + float_of cur)"

definition distributed_window ::
  "'c cache \<Rightarrow> 'c counter \<Rightarrow> ctx \<Rightarrow> string \<Rightarrow> rate_policy \<Rightarrow> bool \<Rightarrow> time \<Rightarrow>
   ('s, 'c, err + decision) lim_act" where
  "distributed_window ch ctr cx k p consume t = do {
     let ws = window_seconds (po_window p);
     let n = unix_time t sdiv ws;
     let elapsed = unix_time t smod ws;
     prev \<leftarrow> read_counter ch cx (bucket_key k (n - 1));
     cur \<leftarrow> (if consume then do {
                 r \<leftarrow> lim_cache (ctr cx (bucket_key k n) 1 (wrap64 (po_window p * 2)));
                 State_Monad.return (map_sum id sint r)
               } else do {
                 v \<leftarrow> read_counter ch cx (bucket_key k n);
                 State_Monad.return (Inr v)
               });
     check cur (\<lambda>cur.
       let estimated = window_estimate prev cur elapsed ws in
       if estimated > float_of (po_limit p) then
         ok (denied p k (po_limit p) (wrap64 (trunc_float (fl (float_of ws - float_of elapsed)) * second)))
       else ok (allowed p k (max 0 (wrap64 (po_limit p - \<lceil>estimated\<rceil>))) (po_limit p) (po_window p)))
   }"

definition evaluate_sliding_window ::
  "('s, 'c) limiter_config \<Rightarrow> ctx \<Rightarrow> string \<Rightarrow> rate_policy \<Rightarrow> bool \<Rightarrow> ('s, 'c, err + decision) lim_act" where
  "evaluate_sliding_window c cx k p consume = do {
     t \<leftarrow> lim_now c;
     case (lc_cache c, lc_counter c) of
       (Some ch, Some ctr) \<Rightarrow> do {
         r \<leftarrow> distributed_window ch ctr cx k p consume t;
         case r of
           Inr d \<Rightarrow> ok d
         | Inl _ \<Rightarrow>
             if po_fail_mode p = FailClosed then fail RateLimiterUnavailable
             else ok (allowed p k (eff_limit p) (eff_limit p) (eff_window p))
       }
     | _ \<Rightarrow> do {
         d \<leftarrow> memory_window p k consume t;
         ok d
       }
   }"

section \<open>The token bucket\<close>

definition eff_capacity :: "rate_policy \<Rightarrow> int" where
  "eff_capacity p = (if po_capacity p \<le> 0 then 10 else po_capacity p)"

definition eff_rate :: "rate_policy \<Rightarrow> rat" where
  "eff_rate p = (if po_refill_rate p \<le> 0 then 1 else po_refill_rate p)"

definition refill :: "int \<Rightarrow> rat \<Rightarrow> rat \<Rightarrow> rat \<Rightarrow> rat" where
  "refill capacity rate tokens elapsed = min (float_of capacity) (fl (tokens + fl (elapsed * rate)))"

text \<open>What both variants decide on the refilled tokens: the decision and the tokens that are left.\<close>

definition bucket_denied :: "rate_policy \<Rightarrow> string \<Rightarrow> int \<Rightarrow> rat \<Rightarrow> rat \<Rightarrow> decision" where
  "bucket_denied p k capacity rate tokens =
     (let missing = fl (1 - tokens) in
      denied p k capacity (wrap64 (trunc_float (fl (fl (missing / rate) * float_of second)) + 10 * millisecond)))"

definition bucket_allowed :: "rate_policy \<Rightarrow> string \<Rightarrow> int \<Rightarrow> rat \<Rightarrow> rat \<Rightarrow> decision" where
  "bucket_allowed p k capacity rate tokens =
     allowed p k (trunc_float tokens) capacity
       (wrap64 (trunc_float (fl (fl (float_of capacity - tokens) / rate)) * second))"

definition memory_bucket ::
  "rate_policy \<Rightarrow> string \<Rightarrow> bool \<Rightarrow> time \<Rightarrow> ('s, 'c, decision) lim_act" where
  "memory_bucket p k consume t = State (\<lambda>l.
     let b = (case lm_buckets l k of
                None \<Rightarrow> \<lparr>bk_tokens = float_of (eff_capacity p), bk_last_refill = t\<rparr> | Some b \<Rightarrow> b);
         tokens = refill (eff_capacity p) (eff_rate p) (bk_tokens b) (seconds_of (time_sub t (bk_last_refill b)));
         store = (\<lambda>tk. l\<lparr>lm_buckets := (lm_buckets l)(k \<mapsto> \<lparr>bk_tokens = tk, bk_last_refill = t\<rparr>)\<rparr>) in
     if tokens < 1 then (bucket_denied p k (eff_capacity p) (eff_rate p) tokens, store tokens)
     else
       let tokens' = (if consume then fl (tokens - 1) else tokens) in
       (bucket_allowed p k (eff_capacity p) (eff_rate p) tokens', store tokens'))"

text \<open>The state of a bucket in the cache.\<close>

definition bucket_json :: "bucket \<Rightarrow> err + json" where
  "bucket_json b =
     json_times [bk_last_refill b]
       (JObj [(''tokens'', JFloat (fst (quotient_of (bk_tokens b))) (snd (quotient_of (bk_tokens b)))),
              (''last_refill'', JTime (bk_last_refill b))])"

definition float_member :: "(string \<times> json) list \<Rightarrow> string \<Rightarrow> (rat \<Rightarrow> err + 'a) \<Rightarrow> err + 'a" where
  "float_member o' k f =
     (case map_of o' k of
        None \<Rightarrow> f 0
      | Some JNull \<Rightarrow> f 0
      | Some (JNum n) \<Rightarrow> f (float_of n)
      | Some (JFloat p q) \<Rightarrow> f (of_int p / of_int q)
      | Some _ \<Rightarrow> Inl json_error)"

definition json_bucket :: "json \<Rightarrow> err + bucket" where
  "json_bucket j = (case members j of Inl e \<Rightarrow> Inl e | Inr o' \<Rightarrow>
     float_member o' ''tokens'' (\<lambda>x.
     time_member o' ''last_refill'' (\<lambda>t.
       Inr \<lparr>bk_tokens = x, bk_last_refill = t\<rparr>)))"

definition distributed_bucket ::
  "'c cache \<Rightarrow> ctx \<Rightarrow> string \<Rightarrow> rate_policy \<Rightarrow> int \<Rightarrow> rat \<Rightarrow> bool \<Rightarrow> time \<Rightarrow>
   ('s, 'c, err + decision) lim_act" where
  "distributed_bucket ch cx k p capacity rate consume t = do {
     g \<leftarrow> lim_cache (cache_get ch cx k);
     let st = (case g of
                 Inr j \<Rightarrow> json_bucket j
               | Inl e \<Rightarrow> if e = CacheMiss then Inr \<lparr>bk_tokens = float_of capacity, bk_last_refill = t\<rparr> else Inl e);
     check st (\<lambda>b.
       let elapsed = seconds_of (time_sub t (bk_last_refill b));
           b' = (if elapsed > 0
                 then \<lparr>bk_tokens = refill capacity rate (bk_tokens b) elapsed, bk_last_refill = t\<rparr> else b);
           ttl = wrap64 (wrap64 (trunc_float (fl (fl (float_of capacity / rate) * 2)) * second) + minute) in
       if bk_tokens b' < 1 then ok (bucket_denied p k capacity rate (bk_tokens b'))
       else if consume then do {
         let b2 = b'\<lparr>bk_tokens := fl (bk_tokens b' - 1)\<rparr>;
         bindE (lim_cache (cache_set ch cx k (bucket_json b2) ttl)) (\<lambda>_.
         ok (bucket_allowed p k capacity rate (bk_tokens b2)))
       }
       else ok (bucket_allowed p k capacity rate (bk_tokens b')))
   }"

definition evaluate_token_bucket ::
  "('s, 'c) limiter_config \<Rightarrow> ctx \<Rightarrow> string \<Rightarrow> rate_policy \<Rightarrow> bool \<Rightarrow> ('s, 'c, err + decision) lim_act" where
  "evaluate_token_bucket c cx k p consume = do {
     t \<leftarrow> lim_now c;
     case lc_cache c of
       Some ch \<Rightarrow> do {
         r \<leftarrow> distributed_bucket ch cx k p (eff_capacity p) (eff_rate p) consume t;
         case r of
           Inr d \<Rightarrow> ok d
         | Inl _ \<Rightarrow>
             if po_fail_mode p = FailClosed then fail RateLimiterUnavailable
             else ok (allowed p k (eff_capacity p) (eff_capacity p) second)
       }
     | None \<Rightarrow> do {
         d \<leftarrow> memory_bucket p k consume t;
         ok d
       }
   }"

definition evaluate ::
  "('s, 'c) limiter_config \<Rightarrow> ctx \<Rightarrow> string \<Rightarrow> rate_policy \<Rightarrow> bool \<Rightarrow> ('s, 'c, err + decision) lim_act" where
  "evaluate c cx k p consume =
     (if po_algorithm p = AlgorithmTokenBucket then evaluate_token_bucket c cx k p consume
      else evaluate_sliding_window c cx k p consume)"

definition forget_key :: "string \<Rightarrow> ('s, 'c, unit) lim_act" where
  "forget_key k = State (\<lambda>l. ((), l\<lparr>lm_windows := (lm_windows l)(k := None), lm_buckets := (lm_buckets l)(k := None)\<rparr>))"

definition reset_key :: "('s, 'c) limiter_config \<Rightarrow> ctx \<Rightarrow> string \<Rightarrow> duration \<Rightarrow> ('s, 'c, unit) lim_act" where
  "reset_key c cx k window = do {
     _ \<leftarrow> (case lc_cache c of
             None \<Rightarrow> skip
           | Some ch \<Rightarrow> do {
               _ \<leftarrow> lim_cache (cache_delete ch cx k);
               let ws = window_seconds (if window \<le> 0 then minute else window);
               t \<leftarrow> lim_now c;
               let n = unix_time t sdiv ws;
               _ \<leftarrow> lim_cache (cache_delete ch cx (bucket_key k n));
               _ \<leftarrow> lim_cache (cache_delete ch cx (bucket_key k (n - 1)));
               skip
             });
     forget_key k
   }"

section \<open>The service\<close>

definition get_policy :: "string \<Rightarrow> ('s, 'c, rate_policy option) lim_act" where
  "get_policy a = State (\<lambda>l. (lm_policies l a, l))"

definition unlimited :: "string \<Rightarrow> decision" where
  "unlimited a = \<lparr>dc_allowed = True, dc_remaining = 999999, dc_limit = 999999, dc_reset_after = 0,
     dc_retry_after = 0, dc_action = a, dc_key = []\<rparr>"

definition limit_check :: "('s, 'c) limiter_config \<Rightarrow> ctx \<Rightarrow> rate_request \<Rightarrow> ('s, 'c, err + decision) lim_act" where
  "limit_check c cx r =
     (if rq_action r = [] then fail RateLimitActionRequired
      else do {
        po \<leftarrow> get_policy (rq_action r);
        case po of
          None \<Rightarrow> ok (unlimited (rq_action r))
        | Some p \<Rightarrow> evaluate c cx (build_key (lc_runtime c) p r) p False
      })"

definition EventRateLimitExceeded :: string where "EventRateLimitExceeded = ''ratelimit.exceeded''"

definition limit_allow :: "('s, 'c) limiter_config \<Rightarrow> ctx \<Rightarrow> rate_request \<Rightarrow> ('s, 'c, err + decision) lim_act" where
  "limit_allow c cx r =
     (if rq_action r = [] then fail RateLimitActionRequired
      else do {
        po \<leftarrow> get_policy (rq_action r);
        case po of
          None \<Rightarrow> ok (unlimited (rq_action r))
        | Some p \<Rightarrow> do {
            let k = build_key (lc_runtime c) p r;
            d \<leftarrow> evaluate c cx k p True;
            case d of
              Inl e \<Rightarrow> do {
                _ \<leftarrow> lim_world (log_line ''ratelimit: evaluation failed'');
                fail e
              }
            | Inr d \<Rightarrow>
                if dc_allowed d then ok d
                else do {
                  _ \<leftarrow> lim_world (log_line ''ratelimit: request throttled'');
                  t \<leftarrow> lim_wall c;
                  t2 \<leftarrow> lim_wall c;
                  _ \<leftarrow> lim_world (events_publish (lc_events c) cx
                     \<lparr>ev_name = EventRateLimitExceeded, ev_time = t, ev_subject = rq_identity r,
                      ev_payload = PExceeded (rq_action r) k (dc_retry_after d) t2\<rparr>);
                  ok d
                }
          }
      })"

definition limit_require :: "('s, 'c) limiter_config \<Rightarrow> ctx \<Rightarrow> rate_request \<Rightarrow> ('s, 'c, err + unit) lim_act" where
  "limit_require c cx r =
     bindE (limit_allow c cx r) (\<lambda>d. if dc_allowed d then ok () else fail RateLimitExceeded)"

definition limit_reset :: "('s, 'c) limiter_config \<Rightarrow> ctx \<Rightarrow> rate_request \<Rightarrow> ('s, 'c, err + unit) lim_act" where
  "limit_reset c cx r =
     (if rq_action r = [] then fail RateLimitActionRequired
      else do {
        po \<leftarrow> get_policy (rq_action r);
        case po of
          None \<Rightarrow> ok ()
        | Some p \<Rightarrow> do {
            _ \<leftarrow> reset_key c cx (build_key (lc_runtime c) p r) (po_window p);
            ok ()
          }
      })"

definition set_policy :: "('s, 'c) limiter_config \<Rightarrow> rate_policy \<Rightarrow> ('s, 'c, err + unit) lim_act" where
  "set_policy c p = State (\<lambda>l.
     if po_action p = [] then (Inl RateLimitActionRequired, l)
     else if (if po_algorithm p = AlgorithmTokenBucket then po_capacity p \<le> 0 \<or> po_refill_rate p \<le> 0
              else po_limit p \<le> 0 \<or> po_window p \<le> 0) then (Inl RateLimitInvalidPolicy, l)
     else
       let p' = (if po_fail_mode p = [] then p\<lparr>po_fail_mode := lc_fail_mode c\<rparr> else p) in
       (Inr (), l\<lparr>lm_policies := (lm_policies l)(po_action p \<mapsto> p')\<rparr>))"

section \<open>The hooks\<close>

text \<open>The bodies of the hooks \<open>Init\<close> registers; the request carries no IP address.\<close>

definition hook_request :: "string \<Rightarrow> string \<Rightarrow> rate_request" where
  "hook_request a email = \<lparr>rq_action = a, rq_ip = [], rq_identity = email, rq_custom_key = []\<rparr>"

definition limit_before_sign_in ::
  "('s, 'c) limiter_config \<Rightarrow> ctx \<Rightarrow> sign_in_input \<Rightarrow> ('s, 'c, err + sign_in_input) lim_act" where
  "limit_before_sign_in c cx inp =
     bindE (limit_require c cx (hook_request ActionSignIn (in_email inp))) (\<lambda>_. ok inp)"

definition limit_before_sign_up ::
  "('s, 'c) limiter_config \<Rightarrow> ctx \<Rightarrow> sign_up_input \<Rightarrow> ('s, 'c, err + sign_up_input) lim_act" where
  "limit_before_sign_up c cx inp =
     bindE (limit_require c cx (hook_request ActionSignUp (up_email inp))) (\<lambda>_. ok inp)"

definition limit_after_sign_in ::
  "('s, 'c) limiter_config \<Rightarrow> ctx \<Rightarrow> auth_result \<Rightarrow> ('s, 'c, auth_result) lim_act" where
  "limit_after_sign_in c cx res = do {
     _ \<leftarrow> limit_reset c cx (hook_request ActionSignIn (user_email (res_user res)));
     State_Monad.return res
   }"

end
