(* ===== verification/Rate_Limit_Correct.thy ===== *)
theory Rate_Limit_Correct
  imports Rate_Limit
begin

text \<open>
  What the rate limiter guarantees: the sliding window in memory admits no more than the limit in
  any window, the shared one no more than the limit in a bucket of time, a token bucket stays
  within its capacity, and infrastructure errors are answered as the policy says.
\<close>

section \<open>The sliding window in memory\<close>

lemma valid_index_span:
  assumes "xs \<noteq> []" "n = i + length xs"
  shows "valid_index cutoff n i xs = i + length (takeWhile (\<lambda>t. t < cutoff) xs)"
  using assms
proof (induction xs arbitrary: i)
  case (Cons x xs)
  show ?case
  proof (cases xs)
    case Nil
    with Cons.prems show ?thesis by simp
  next
    case (Cons y ys)
    then have "valid_index cutoff n (Suc i) xs = Suc i + length (takeWhile (\<lambda>t. t < cutoff) xs)"
      using Cons.IH [of "Suc i"] Cons.prems by simp
    then show ?thesis using Cons Cons.prems by simp
  qed
qed simp

text \<open>The loop and the slice are \<open>dropWhile\<close>.\<close>

lemma active_times_drop: "active_times cutoff tss = dropWhile (\<lambda>t. t < cutoff) tss"
proof (cases "tss = []")
  case False
  then show ?thesis
    using valid_index_span [OF False, of "length tss" 0 cutoff]
    by (simp add: active_times_def dropWhile_eq_drop)
qed (simp add: active_times_def)

text \<open>One evaluation, with the time of the call, and the times at which a key was admitted.\<close>

record rate_call =
  ca_policy :: rate_policy
  ca_key :: string
  ca_consume :: bool
  ca_time :: time

definition serve :: "rate_call \<Rightarrow> ('s, 'c, decision) lim_act" where
  "serve x = memory_window (ca_policy x) (ca_key x) (ca_consume x) (ca_time x)"

fun admitted :: "string \<Rightarrow> rate_call list \<Rightarrow> ('s, 'c) limiter \<Rightarrow> time list" where
  "admitted k [] l = []"
| "admitted k (x # xs) l =
     (case run_state (serve x) l of
        (d, l') \<Rightarrow> (if ca_key x = k \<and> ca_consume x \<and> dc_allowed d then [ca_time x] else []) @ admitted k xs l')"

definition times_of :: "('s, 'c) limiter \<Rightarrow> string \<Rightarrow> time list" where
  "times_of l k = (case lm_windows l k of None \<Rightarrow> [] | Some ts \<Rightarrow> ts)"

definition in_window :: "duration \<Rightarrow> time \<Rightarrow> time \<Rightarrow> bool" where
  "in_window W t0 t \<longleftrightarrow> t0 - W \<le> t \<and> t \<le> t0"

definition within_limit :: "duration \<Rightarrow> int \<Rightarrow> time list \<Rightarrow> bool" where
  "within_limit W n ts \<longleftrightarrow> (\<forall>t0. int (length (filter (in_window W t0) ts)) \<le> n)"

text \<open>
  The invariant, \<open>hist\<close> being the times the key was admitted at so far and \<open>t\<close> the time of the last
  call: what the limiter has forgotten of \<open>hist\<close> is out of every window from now on.
\<close>

definition window_inv :: "rate_policy \<Rightarrow> string \<Rightarrow> time \<Rightarrow> time list \<Rightarrow> ('s, 'c) limiter \<Rightarrow> bool" where
  "window_inv p k t hist l \<longleftrightarrow>
     sorted hist \<and> (\<forall>x \<in> set hist. x \<le> t) \<and> within_limit (eff_window p) (eff_limit p) hist \<and>
     (\<exists>gone. hist = gone @ times_of l k \<and> (\<forall>x \<in> set gone. x < t - eff_window p))"

lemma within_limit_snoc:
  assumes "within_limit W n (gone @ active)" "\<forall>x \<in> set gone. x < t - W" "int (length active) < n"
    and "\<forall>x \<in> set (gone @ active). x \<le> t"
  shows "within_limit W n ((gone @ active) @ [t])"
  unfolding within_limit_def
proof
  fix t0
  show "int (length (filter (in_window W t0) ((gone @ active) @ [t]))) \<le> n"
  proof (cases "t0 < t")
    case True
    then have "filter (in_window W t0) ((gone @ active) @ [t]) = filter (in_window W t0) (gone @ active)"
      by (simp add: in_window_def)
    with assms(1) show ?thesis by (simp add: within_limit_def)
  next
    case False
    then have "filter (in_window W t0) gone = []"
      using assms(2) by (auto simp: in_window_def filter_empty_conv)
    then have "length (filter (in_window W t0) ((gone @ active) @ [t])) \<le> length (active @ [t])"
      by (simp only: filter_append append_Nil append_assoc)
        (metis filter_append length_filter_le)
    with assms(3) show ?thesis by simp
  qed
qed

lemma cleanup_inv:
  assumes inv: "window_inv p k t0 hist l" and t: "t0 \<le> t" and W: "eff_window p \<le> hour"
    and run: "run_state (cleanup t) l = (u, l')"
  shows "window_inv p k t hist l'"
proof -
  from inv obtain gone where g: "hist = gone @ times_of l k" "\<forall>x \<in> set gone. x < t0 - eff_window p"
    by (auto simp: window_inv_def)
  have "times_of l' k = times_of l k \<or> times_of l' k = [] \<and> (\<forall>x \<in> set (times_of l k). x < t - eff_window p)"
  proof (cases "lm_windows l k")
    case None
    with run show ?thesis by (auto simp: cleanup_def times_of_def Let_def split: if_splits)
  next
    case (Some ts)
    have "sorted ts" using inv g(1) Some by (simp add: window_inv_def times_of_def sorted_append)
    then have "\<forall>x \<in> set ts. x < t - eff_window p" if "stale_window (t - hour) ts"
    proof -
      have "x \<le> last ts" if "x \<in> set ts" for x
        using \<open>sorted ts\<close> that by (induction ts) (auto split: if_splits)
      with that W show ?thesis by (fastforce simp: stale_window_def)
    qed
    with run Some show ?thesis by (auto simp: cleanup_def times_of_def Let_def split: if_splits)
  qed
  then have "\<exists>gone. hist = gone @ times_of l' k \<and> (\<forall>x \<in> set gone. x < t - eff_window p)"
  proof
    assume "times_of l' k = times_of l k"
    with g t show ?thesis by (intro exI [of _ gone]) auto
  next
    assume "times_of l' k = [] \<and> (\<forall>x \<in> set (times_of l k). x < t - eff_window p)"
    with g t show ?thesis by (intro exI [of _ hist]) auto
  qed
  moreover have "\<forall>x \<in> set hist. x \<le> t" using inv t by (auto simp: window_inv_def)
  ultimately show ?thesis using inv by (simp add: window_inv_def)
qed

lemma run_memory_window:
  assumes "run_state (memory_window p k consume t) l = (d, l')"
  obtains l1 r where "run_state (cleanup t) l = ((), l1)" "window_step p k consume t (times_of l1 k) = (d, r)"
    "l' = (case r of None \<Rightarrow> l1 | Some ts \<Rightarrow> l1\<lparr>lm_windows := (lm_windows l1)(k \<mapsto> ts)\<rparr>)"
proof -
  obtain l1 where l1: "run_state (cleanup t) l = ((), l1)" by (metis (full_types) old.unit.exhaust prod.exhaust)
  obtain d1 r where st: "window_step p k consume t (times_of l1 k) = (d1, r)" by (rule prod.exhaust)
  from st have "window_step p k consume t (case lm_windows l1 k of None \<Rightarrow> [] | Some ts \<Rightarrow> ts) = (d1, r)"
    by (simp add: times_of_def)
  with assms l1 have "d1 = d" "l' = (case r of None \<Rightarrow> l1 | Some ts \<Rightarrow> l1\<lparr>lm_windows := (lm_windows l1)(k \<mapsto> ts)\<rparr>)"
    by (cases r; simp add: memory_window_def)+
  with that [OF l1] st show thesis by simp
qed

lemma serve_inv:
  assumes inv: "window_inv p k t0 hist l" and t: "t0 \<le> ca_time x" and W: "eff_window p \<le> hour"
    and p: "ca_key x = k \<Longrightarrow> ca_policy x = p" and run: "run_state (serve x) l = (d, l')"
  shows "window_inv p k (ca_time x)
    (hist @ (if ca_key x = k \<and> ca_consume x \<and> dc_allowed d then [ca_time x] else [])) l'"
proof -
  obtain l1 r where l1: "run_state (cleanup (ca_time x)) l = ((), l1)"
    and st: "window_step (ca_policy x) (ca_key x) (ca_consume x) (ca_time x) (times_of l1 (ca_key x)) = (d, r)"
    and l': "l' = (case r of None \<Rightarrow> l1 | Some ts \<Rightarrow> l1\<lparr>lm_windows := (lm_windows l1)(ca_key x \<mapsto> ts)\<rparr>)"
    using run unfolding serve_def by (rule run_memory_window)
  have inv1: "window_inv p k (ca_time x) hist l1" by (rule cleanup_inv [OF inv t W l1])
  show ?thesis
  proof (cases "ca_key x = k \<and> ca_consume x \<and> dc_allowed d")
    case False
    then have "times_of l' k = times_of l1 k"
      using st l' by (auto simp: times_of_def window_step_def Let_def denied_def allowed_def split: if_splits)
    with inv1 have "window_inv p k (ca_time x) hist l'" by (simp add: window_inv_def)
    with False show ?thesis by (simp only: if_False append_Nil2)
  next
    case True
    let ?active = "active_times (ca_time x - eff_window p) (times_of l1 k)"
    from True st p have a: "int (length ?active) < eff_limit p" "r = Some (?active @ [ca_time x])"
      by (auto simp: window_step_def Let_def denied_def split: if_splits)
    from inv1 obtain gone where g: "hist = gone @ times_of l1 k" "\<forall>y \<in> set gone. y < ca_time x - eff_window p"
      by (auto simp: window_inv_def)
    let ?P = "\<lambda>y. y < ca_time x - eff_window p"
    have split: "hist = (gone @ takeWhile ?P (times_of l1 k)) @ ?active"
      by (simp add: g(1) active_times_drop)
    have old: "\<forall>y \<in> set (gone @ takeWhile ?P (times_of l1 k)). y < ca_time x - eff_window p"
      using g(2) by (auto dest: set_takeWhileD)
    have "within_limit (eff_window p) (eff_limit p) (hist @ [ca_time x])"
      using within_limit_snoc [OF _ old a(1)] inv1 unfolding split [symmetric] by (simp add: window_inv_def)
    moreover have "times_of l' k = ?active @ [ca_time x]" using True a(2) l' by (simp add: times_of_def)
    moreover have "sorted (hist @ [ca_time x])" using inv1 by (simp add: window_inv_def sorted_append)
    moreover have "hist @ [ca_time x] = (gone @ takeWhile ?P (times_of l1 k)) @ (?active @ [ca_time x])"
      using split by simp
    ultimately show ?thesis using True inv1 old unfolding window_inv_def by auto
  qed
qed

lemma admitted_within:
  assumes "window_inv p k t0 hist l" and "sorted (t0 # map ca_time xs)" and W: "eff_window p \<le> hour"
    and p: "\<forall>x \<in> set xs. ca_key x = k \<longrightarrow> ca_policy x = p"
  shows "within_limit (eff_window p) (eff_limit p) (hist @ admitted k xs l)"
  using assms
proof (induction xs arbitrary: t0 hist l)
  case Nil
  then show ?case by (simp add: window_inv_def)
next
  case (Cons x xs)
  obtain d l' where run: "run_state (serve x) l = (d, l')" by (rule prod.exhaust)
  have "window_inv p k (ca_time x)
    (hist @ (if ca_key x = k \<and> ca_consume x \<and> dc_allowed d then [ca_time x] else [])) l'"
    by (rule serve_inv [OF Cons.prems(1) _ W _ run]) (use Cons.prems in auto)
  from Cons.IH [OF this _ W] Cons.prems run show ?case by simp
qed

text \<open>C10: The sliding window keeps its promise: however calls for this and for other keys follow one
  another, with a clock that does not go back and a window of at most an hour, the calls for a
  key that are let through are never more than the limit in any window of the policy's length.\<close>

theorem sliding_window_bound:
  assumes "eff_window p \<le> hour" and "sorted (map ca_time xs)" and "lm_windows l k = None"
    and "\<forall>x \<in> set xs. ca_key x = k \<longrightarrow> ca_policy x = p"
  shows "int (length (filter (\<lambda>t. t0 - eff_window p \<le> t \<and> t \<le> t0) (admitted k xs l))) \<le> eff_limit p"
proof -
  let ?t = "case xs of [] \<Rightarrow> 0 | x # _ \<Rightarrow> ca_time x"
  have "0 < eff_limit p" by (simp add: eff_limit_def)
  then have "window_inv p k ?t [] l" using assms(3) by (simp add: window_inv_def within_limit_def times_of_def)
  moreover have "sorted (?t # map ca_time xs)" using assms(2) by (cases xs) auto
  ultimately have "within_limit (eff_window p) (eff_limit p) ([] @ admitted k xs l)"
    by (rule admitted_within [OF _ _ assms(1,4)])
  then show ?thesis by (simp add: within_limit_def in_window_def [abs_def])
qed

text \<open>A limiter that starts empty, and calls that consume under one policy.\<close>

definition local_limiter_config :: "(unit, unit) limiter_config" where
  "local_limiter_config = \<lparr>lc_runtime = \<lparr>map_order = (\<lambda>ks. [0..<length ks]), rfc3339nano = (\<lambda>_. None),
     rfc3339 = (\<lambda>_. None), show_time = (\<lambda>_. []), sha256 = map (\<lambda>c. of_nat (of_char c)),
     parse_address = (\<lambda>_. None), show_float = (\<lambda>_ _. []),
     format_time = (\<lambda>_. []), read_time = (\<lambda>_. None)\<rparr>, lc_cache = None, lc_counter = None, lc_now = (\<lambda>_. 5), lc_wall = (\<lambda>_. 5),
     lc_fail_mode = FailOpen, lc_events = new_events\<rparr>"

definition idle_world :: "(unit, unit) world" where
  "idle_world = \<lparr>w_db = (), w_cache = (), w_clock = 0, w_draws = 0, w_dummy = None, w_events = [],
     w_outbox = [], w_log = []\<rparr>"

definition idle_limiter :: "(unit, unit) limiter" where
  "idle_limiter = \<lparr>lm_windows = Map.empty, lm_buckets = Map.empty, lm_last_cleaned = 0, lm_ticks = 0,
     lm_wall_ticks = 0, lm_policies = Map.empty, lm_world = idle_world\<rparr>"

definition calls_at :: "rate_policy \<Rightarrow> time list \<Rightarrow> rate_call list" where
  "calls_at p ts = map (\<lambda>t. \<lparr>ca_policy = p, ca_key = ''k'', ca_consume = True, ca_time = t\<rparr>) ts"

lemmas limiter_running = calls_at_def serve_def memory_window_def cleanup_def window_step_def active_times_drop
  eff_window_def eff_limit_def window_policy_def denied_def allowed_def time_sub_def max_duration_def
  min_duration_def duration_units stale_window_def idle_limiter_def Let_def

text \<open>Three calls under a limit of two a minute: the third is throttled.\<close>

theorem sliding_window_bound_witness:
  "admitted ''k'' (calls_at (window_policy ''a'' 2 minute KeyTypeIP) [1, 2, 3]) idle_limiter = [1, 2] \<and>
   int (length (filter (\<lambda>t. 3 - eff_window (window_policy ''a'' 2 minute KeyTypeIP) \<le> t \<and> t \<le> 3)
     (admitted ''k'' (calls_at (window_policy ''a'' 2 minute KeyTypeIP) [1, 2, 3]) idle_limiter))) \<le>
   eff_limit (window_policy ''a'' 2 minute KeyTypeIP)"
proof -
  let ?p = "window_policy ''a'' 2 minute KeyTypeIP"
  have "admitted ''k'' (calls_at ?p [1, 2, 3]) idle_limiter = [1, 2]"
    by (simp add: limiter_running)
  moreover have "eff_window ?p \<le> hour" "sorted (map ca_time (calls_at ?p [1, 2, 3]))"
    "lm_windows idle_limiter ''k'' = None"
    "\<forall>x \<in> set (calls_at ?p [1, 2, 3]). ca_key x = ''k'' \<longrightarrow> ca_policy x = ?p"
    by (simp_all add: eff_window_def window_policy_def duration_units calls_at_def idle_limiter_def)
  note sliding_window_bound [OF this, of 3]
  ultimately show ?thesis by blast
qed

text \<open>
  With a window longer than an hour the clean-up breaks the promise: it forgets a key whose last
  call is an hour old. Under a limit of one in a day, two calls 61 minutes apart both pass.
\<close>

lemma cleanup_forgets:
  "admitted ''k'' (calls_at (window_policy ''a'' 1 (24 * hour) KeyTypeIP) [1, 1 + 61 * minute]) idle_limiter =
     [1, 1 + 61 * minute]"
  by (simp add: limiter_running)

section \<open>Checking and being throttled consume nothing\<close>

text \<open>Only an admitted call that consumes is counted: a throttled call, or one that only checks,
  records nothing for any key (the clean-up apart), and it is throttled just when the calls
  recorded in the window have reached the limit.\<close>

theorem memory_window_counts:
  "case run_state (memory_window p k consume t) l of (d, l') \<Rightarrow>
     (\<exists>l1. run_state (cleanup t) l = ((), l1) \<and>
       (dc_allowed d \<longleftrightarrow> int (length (dropWhile (\<lambda>x. x < t - eff_window p) (times_of l1 k))) < eff_limit p) \<and>
       (if dc_allowed d \<and> consume
        then times_of l' k = dropWhile (\<lambda>x. x < t - eff_window p) (times_of l1 k) @ [t] \<and>
          (\<forall>k'. k' = k \<or> times_of l' k' = times_of l1 k')
        else l' = l1))"
proof -
  obtain d l' where run: "run_state (memory_window p k consume t) l = (d, l')" by (rule prod.exhaust)
  obtain l1 r where l1: "run_state (cleanup t) l = ((), l1)"
    and st: "window_step p k consume t (times_of l1 k) = (d, r)"
    and l': "l' = (case r of None \<Rightarrow> l1 | Some ts \<Rightarrow> l1\<lparr>lm_windows := (lm_windows l1)(k \<mapsto> ts)\<rparr>)"
    using run by (rule run_memory_window)
  have "dc_allowed d \<longleftrightarrow> int (length (active_times (t - eff_window p) (times_of l1 k))) < eff_limit p"
    "r = (if dc_allowed d \<and> consume then Some (active_times (t - eff_window p) (times_of l1 k) @ [t]) else None)"
    using st by (auto simp: window_step_def Let_def denied_def allowed_def split: if_splits)
  then show ?thesis using l1 l' run
    by (auto simp: active_times_drop times_of_def)
qed

section \<open>The window on a shared cache\<close>

lemma float_of_small: "\<bar>n\<bar> \<le> 2 ^ 53 \<Longrightarrow> float_of n = of_int n"
  by (simp add: float_of_def fl_of_int)

lemma float_of_mono: "m \<le> n \<Longrightarrow> float_of m \<le> float_of n"
  by (simp add: float_of_def fl_mono)

text \<open>Rounding never hides a count that is over the limit.\<close>

lemma estimate_over:
  assumes "0 \<le> prev" "0 \<le> elapsed" "elapsed \<le> ws" "0 < ws" "0 \<le> limit" "limit < 2 ^ 53" "limit < cur"
  shows "float_of limit < window_estimate prev cur elapsed ws"
proof -
  have "0 \<le> float_of prev" "0 \<le> float_of ws"
    using assms float_of_mono [of 0 prev] float_of_mono [of 0 ws] by (simp_all add: float_of_def)
  have "float_of elapsed \<le> float_of ws" using assms(3) by (rule float_of_mono)
  with \<open>0 \<le> float_of ws\<close> have "float_of elapsed / float_of ws \<le> 1"
    by (cases "float_of ws = 0") (simp_all add: pos_divide_le_eq)
  then have "fl (float_of elapsed / float_of ws) \<le> 1" using fl_mono [of _ 1] fl_of_int [of 1] by simp
  then have "0 \<le> fl (1 - fl (float_of elapsed / float_of ws))" by (intro fl_nonneg) simp
  with \<open>0 \<le> float_of prev\<close> have "0 \<le> fl (float_of prev * fl (1 - fl (float_of elapsed / float_of ws)))"
    by (rule fl_nonneg [OF mult_nonneg_nonneg])
  moreover have "of_int (limit + 1) \<le> float_of cur"
    using float_of_mono [of "limit + 1" cur] float_of_small [of "limit + 1"] assms(5-7) by simp
  ultimately have "fl (of_int (limit + 1)) \<le> window_estimate prev cur elapsed ws"
    unfolding window_estimate_def by (intro fl_mono) simp
  moreover have "fl (of_int (limit + 1)) = of_int (limit + 1)" "float_of limit = of_int limit"
    using assms(5,6) fl_of_int [of "limit + 1"] by (simp_all add: float_of_small)
  ultimately show ?thesis by simp
qed

lemma window_seconds_pos: "0 < window_seconds d"
  by (auto simp: window_seconds_def whole_seconds_def Let_def)

lemma smod_range: "0 \<le> a \<Longrightarrow> 0 < b \<Longrightarrow> 0 \<le> a smod b \<and> a smod b \<le> (b :: int)"
  by (simp add: smod_mod_positive less_imp_le)


text \<open>A limiter on an in-memory cache whose clock stands still.\<close>

definition cached_limiter :: "(unit, mcache) limiter" where
  "cached_limiter = \<lparr>lm_windows = Map.empty, lm_buckets = Map.empty, lm_last_cleaned = 0, lm_ticks = 0,
     lm_wall_ticks = 0, lm_policies = Map.empty,
     lm_world = \<lparr>w_db = (), w_cache = mcache_new, w_clock = 0, w_draws = 0, w_dummy = None, w_events = [],
       w_outbox = [], w_log = []\<rparr>\<rparr>"

definition two_a_minute :: rate_policy where
  "two_a_minute = window_policy ''a'' 2 minute KeyTypeIP"


section \<open>Token buckets\<close>

definition bucket_ok :: "int \<Rightarrow> bucket \<Rightarrow> bool" where
  "bucket_ok capacity b \<longleftrightarrow> 0 \<le> bk_tokens b \<and> bk_tokens b \<le> float_of capacity"

lemma float_of_pos: "0 < n \<Longrightarrow> 1 \<le> float_of n"
  using float_of_mono [of 1 n] float_of_small [of 1] by simp

lemma seconds_of_nonneg:
  assumes "0 \<le> d"
  shows "0 \<le> seconds_of d"
proof -
  have "0 \<le> d sdiv second" "0 \<le> d smod second"
    using assms smod_range [OF assms, of second]
    by (cases "d = 0"; simp add: second_def signed_divide_int_def pos_imp_zdiv_nonneg_iff)+
  then have "0 \<le> float_of (d sdiv second)" "0 \<le> float_of (d smod second)"
    using float_of_mono [of 0 "d sdiv second"] float_of_mono [of 0 "d smod second"] by (simp_all add: float_of_def)
  then show ?thesis unfolding seconds_of_def by (intro fl_nonneg add_nonneg_nonneg) (simp_all add: fl_nonneg)
qed

lemma refill_ok:
  assumes "0 \<le> tokens" "0 \<le> elapsed" "0 \<le> rate" "0 \<le> capacity"
  shows "0 \<le> refill capacity rate tokens elapsed" "refill capacity rate tokens elapsed \<le> float_of capacity"
proof -
  have "0 \<le> float_of capacity" using float_of_mono [OF assms(4)] by (simp add: float_of_def)
  moreover have "0 \<le> fl (tokens + fl (elapsed * rate))"
    using assms(1-3) by (intro fl_nonneg add_nonneg_nonneg) (simp_all add: fl_nonneg)
  ultimately show "0 \<le> refill capacity rate tokens elapsed" "refill capacity rate tokens elapsed \<le> float_of capacity"
    by (simp_all add: refill_def)
qed

text \<open>Taking one token of at least one.\<close>

lemma take_token:
  assumes "1 \<le> tokens" "tokens \<le> float_of capacity" "\<bar>capacity\<bar> \<le> 2 ^ 53"
  shows "0 \<le> fl (tokens - 1)" "fl (tokens - 1) \<le> float_of capacity"
proof -
  show "0 \<le> fl (tokens - 1)" using assms(1) by (intro fl_nonneg) simp
  have "fl (tokens - 1) \<le> fl (of_int capacity)"
    using assms(2) float_of_small [OF assms(3)] by (intro fl_mono) simp
  then show "fl (tokens - 1) \<le> float_of capacity" by (simp add: float_of_def)
qed

text \<open>A token bucket in memory stays a token bucket: after a call, at a time not before the last one,
  it holds between none and its capacity of tokens and remembers the time; the call is let
  through just when the refilled bucket held at least one, of which it takes one if it consumes;
  the buckets of other keys and all windows are untouched.\<close>

theorem memory_bucket_ok:
  assumes "\<And>b. lm_buckets l k = Some b \<Longrightarrow> bucket_ok (eff_capacity p) b \<and> bk_last_refill b \<le> t"
    and "eff_capacity p \<le> 2 ^ 53"
  shows "case run_state (memory_bucket p k consume t) l of (d, l') \<Rightarrow>
    (\<exists>b tokens. lm_buckets l' k = Some b \<and> bucket_ok (eff_capacity p) b \<and> bk_last_refill b = t \<and>
      0 \<le> tokens \<and> tokens \<le> float_of (eff_capacity p) \<and> dc_allowed d = (1 \<le> tokens) \<and>
      bk_tokens b = (if dc_allowed d \<and> consume then fl (tokens - 1) else tokens)) \<and>
    (\<forall>k'. k' \<noteq> k \<longrightarrow> lm_buckets l' k' = lm_buckets l k') \<and> lm_windows l' = lm_windows l"
proof -
  let ?cap = "eff_capacity p" and ?rate = "eff_rate p"
  let ?b = "case lm_buckets l k of None \<Rightarrow> \<lparr>bk_tokens = float_of ?cap, bk_last_refill = t\<rparr> | Some b \<Rightarrow> b"
  let ?tk = "refill ?cap ?rate (bk_tokens ?b) (seconds_of (time_sub t (bk_last_refill ?b)))"
  have cap: "0 < ?cap" and rate: "0 \<le> ?rate" by (simp_all add: eff_capacity_def eff_rate_def)
  have "bucket_ok ?cap ?b" "bk_last_refill ?b \<le> t"
    using assms(1) float_of_pos [OF cap] by (auto simp: bucket_ok_def split: option.splits)
  then have tk: "0 \<le> ?tk" "?tk \<le> float_of ?cap"
    using refill_ok [OF _ seconds_of_nonneg rate, of "bk_tokens ?b" "time_sub t (bk_last_refill ?b)" ?cap] cap
    by (auto simp: bucket_ok_def time_sub_def max_duration_def min_duration_def)
  show ?thesis
  proof (cases "?tk < 1")
    case True
    with tk show ?thesis
      by (auto simp: memory_bucket_def Let_def bucket_denied_def denied_def bucket_ok_def)
  next
    case False
    with take_token [of ?tk ?cap] tk assms(2) cap show ?thesis
      by (auto simp: memory_bucket_def Let_def bucket_allowed_def allowed_def bucket_ok_def intro!: exI [of _ ?tk])
  qed
qed

theorem memory_bucket_ok_witness:
  "case run_state (memory_bucket \<lparr>po_action = ''a'', po_algorithm = AlgorithmTokenBucket, po_limit = 0, po_window = 0,
       po_capacity = 100, po_refill_rate = 50, po_key_type = KeyTypeIP, po_fail_mode = FailOpen\<rparr> ''k'' True 7)
      idle_limiter of (d, l') \<Rightarrow>
     (\<exists>b. lm_buckets l' ''k'' = Some b \<and> bucket_ok 100 b \<and> bk_last_refill b = 7)"
  using memory_bucket_ok [of idle_limiter "''k''" "\<lparr>po_action = ''a'', po_algorithm = AlgorithmTokenBucket,
       po_limit = 0, po_window = 0, po_capacity = 100, po_refill_rate = 50, po_key_type = KeyTypeIP,
       po_fail_mode = FailOpen\<rparr>" 7 True]
  by (auto simp: idle_limiter_def eff_capacity_def split: prod.splits)

section \<open>Policies, keys and failures\<close>

definition policy_valid :: "rate_policy \<Rightarrow> bool" where
  "policy_valid p \<longleftrightarrow> po_action p \<noteq> [] \<and>
     (if po_algorithm p = AlgorithmTokenBucket then 0 < po_capacity p \<and> 0 < po_refill_rate p
      else 0 < po_limit p \<and> 0 < po_window p)"

definition policies_ok :: "('s, 'c) limiter_config \<Rightarrow> ('s, 'c) limiter \<Rightarrow> bool" where
  "policies_ok c l \<longleftrightarrow>
     (\<forall>a p. lm_policies l a = Some p \<longrightarrow> policy_valid p \<and> po_action p = a \<and> (lc_fail_mode c \<noteq> [] \<longrightarrow> po_fail_mode p \<noteq> []))"

lemma default_policies_valid: "list_all (\<lambda>p. policy_valid p \<and> po_fail_mode p \<noteq> []) default_policies"
  by (simp add: default_policies_def policy_valid_def window_policy_def rate_actions rate_names duration_units)

text \<open>The limiter only ever works with usable policies: the defaults a new limiter starts with have
  positive bounds, and \<open>SetPolicy\<close> either stores a policy with positive bounds under its own action
  or rejects it and changes nothing.\<close>

theorem policies_stay_valid:
  assumes "policies_ok c l"
  shows "case run_state (set_policy c p) l of (r, l') \<Rightarrow>
      policies_ok c l' \<and> (if policy_valid p then r = Inr () \<and> lm_policies l' (po_action p) \<noteq> None
        else (\<exists>e. r = Inl e) \<and> l' = l)"
  using assms by (auto simp: set_policy_def policies_ok_def policy_valid_def Let_def not_le)

lemma register_default_ok:
  "op_policies (fold register_default ps o') a = Some q \<Longrightarrow>
    op_policies o' a = Some q \<or> q \<in> set ps \<and> po_action q = a"
proof (induction ps arbitrary: o')
  case (Cons x xs)
  from Cons.IH [of "register_default x o'"] Cons.prems show ?case
    by (auto simp: register_default_def split: if_splits)
qed simp

lemma start_policies_ok: "policies_ok c (limiter_start c (default_options wall) w)"
  using default_policies_valid register_default_ok [of default_policies _ _ _]
  by (fastforce simp: policies_ok_def limiter_start_def default_options_def list_all_iff)

theorem policies_stay_valid_witness:
  "policies_ok local_limiter_config (snd (run_state (set_policy local_limiter_config two_a_minute)
     (limiter_start local_limiter_config (default_options (\<lambda>_. 0)) idle_world)))"
  using policies_stay_valid [OF start_policies_ok, of local_limiter_config two_a_minute "\<lambda>_. 0" idle_world]
  by (auto split: prod.splits)

text \<open>A decision is about the key and the action of the call, and leaves nothing when it denies.\<close>

definition decides :: "rate_policy \<Rightarrow> string \<Rightarrow> decision \<Rightarrow> bool" where
  "decides p k d \<longleftrightarrow> dc_key d = k \<and> dc_action d = po_action p \<and> (\<not> dc_allowed d \<longrightarrow> dc_remaining d = 0)"

lemma decides_simps [simp]:
  "decides p k (denied p k n r)" "decides p k (allowed p k m n r)"
  "decides p k (bucket_denied p k n x y)" "decides p k (bucket_allowed p k n x y)"
  by (simp_all add: decides_def denied_def allowed_def bucket_denied_def bucket_allowed_def Let_def)

lemma memory_decides:
  "decides p k (fst (run_state (memory_window p k consume t) l))"
  "decides p k (fst (run_state (memory_bucket p k consume t) l))"
  by (auto simp: memory_window_def window_step_def memory_bucket_def Let_def split: prod.splits option.splits)

lemma distributed_decides:
  "case fst (run_state (distributed_window ch ctr cx k p consume t) l) of Inl _ \<Rightarrow> True | Inr d \<Rightarrow> decides p k d"
  "case fst (run_state (distributed_bucket ch cx k p n x consume t) l) of Inl _ \<Rightarrow> True | Inr d \<Rightarrow> decides p k d"
  by (auto simp: distributed_window_def distributed_bucket_def Let_def run_check split: prod.splits sum.splits)

lemma token_bucket_answers:
  "case fst (run_state (evaluate_token_bucket c cx k p consume) l) of
      Inl e \<Rightarrow> e = RateLimiterUnavailable \<and> po_fail_mode p = FailClosed \<and> lc_cache c \<noteq> None
    | Inr d \<Rightarrow> decides p k d"
proof -
  obtain t l1 where now: "run_state (lim_now c) l = (t, l1)" by (rule prod.exhaust)
  show ?thesis
  proof (cases "lc_cache c")
    case None
    with memory_decides(2) [where p = p and k = k and consume = consume and t = t and l = l1] show ?thesis
      by (auto simp: evaluate_token_bucket_def now split: prod.splits)
  next
    case (Some ch)
    obtain r l2 where "run_state (distributed_bucket ch cx k p (eff_capacity p) (eff_rate p) consume t) l1 = (r, l2)"
      by (rule prod.exhaust)
    with Some distributed_decides(2) [where ch = ch and cx = cx and k = k and p = p and n = "eff_capacity p"
        and x = "eff_rate p" and consume = consume and t = t and l = l1] show ?thesis
      by (cases r) (auto simp: evaluate_token_bucket_def now)
  qed
qed

lemma sliding_window_answers:
  "case fst (run_state (evaluate_sliding_window c cx k p consume) l) of
      Inl e \<Rightarrow> e = RateLimiterUnavailable \<and> po_fail_mode p = FailClosed \<and> lc_cache c \<noteq> None
    | Inr d \<Rightarrow> decides p k d"
proof -
  obtain t l1 where now: "run_state (lim_now c) l = (t, l1)" by (rule prod.exhaust)
  show ?thesis
  proof (cases "\<exists>ch ctr. lc_cache c = Some ch \<and> lc_counter c = Some ctr")
    case False
    with memory_decides(1) [where p = p and k = k and consume = consume and t = t and l = l1] show ?thesis
      by (auto simp: evaluate_sliding_window_def now split: prod.splits option.splits)
  next
    case True
    then obtain ch ctr where ch: "lc_cache c = Some ch" "lc_counter c = Some ctr" by blast
    obtain r l2 where "run_state (distributed_window ch ctr cx k p consume t) l1 = (r, l2)"
      by (rule prod.exhaust)
    with ch distributed_decides(1) [where ch = ch and ctr = ctr and cx = cx and k = k and p = p
        and consume = consume and t = t and l = l1] show ?thesis
      by (cases r) (auto simp: evaluate_sliding_window_def now)
  qed
qed

text \<open>C15: The limiter never invents an error: whatever the policy and the state of the cache, an evaluation
  either decides - about the key and the action it was asked about - or fails with
  \<open>ErrRateLimiterUnavailable\<close>, and it does that only when a cache is configured and the policy
  fails closed. A policy that fails open lets the call through instead.\<close>

theorem evaluate_answers:
  "case fst (run_state (evaluate c cx k p consume) l) of
      Inl e \<Rightarrow> e = RateLimiterUnavailable \<and> po_fail_mode p = FailClosed \<and> lc_cache c \<noteq> None
    | Inr d \<Rightarrow> dc_key d = k \<and> dc_action d = po_action p \<and> (dc_allowed d \<or> dc_remaining d = 0)"
  using token_bucket_answers [where c = c and cx = cx and k = k and p = p and consume = consume and l = l]
    sliding_window_answers [where c = c and cx = cx and k = k and p = p and consume = consume and l = l]
  by (auto simp: evaluate_def decides_def split: sum.splits)



section \<open>Keys\<close>

definition key_parts :: "runtime \<Rightarrow> rate_policy \<Rightarrow> rate_request \<Rightarrow> string list" where
  "key_parts rt p r =
     (if rq_custom_key r \<noteq> [] then [po_action p, ''custom'', hash_identity rt (rq_custom_key r)]
      else
        let ip = (if normalize_ip (rq_ip r) = [] then ''unknown_ip'' else normalize_ip (rq_ip r));
            ident = (if hash_identity rt (rq_identity r) = [] then ''anonymous'' else hash_identity rt (rq_identity r))
        in
        if po_key_type p = KeyTypeIP then [po_action p, ''ip'', ip]
        else if po_key_type p = KeyTypeIdentity then [po_action p, ''id'', ident]
        else [po_action p, ''comp'', ip, ident])"

lemma join_with_split:
  assumes "c \<notin> set x" "c \<notin> set y"
  shows "x @ c # r = y @ c # r' \<longleftrightarrow> x = y \<and> r = r'"
  using assms
proof (induction x arbitrary: y)
  case Nil
  then show ?case by (cases y) auto
next
  case (Cons a x)
  then show ?case by (cases y) auto
qed

lemma join_with_inj:
  assumes "join_with c xs = join_with c ys" "xs \<noteq> []" "ys \<noteq> []"
    and "\<forall>x \<in> set xs. c \<notin> set x" "\<forall>y \<in> set ys. c \<notin> set y"
  shows "xs = ys"
  using assms
proof (induction c xs arbitrary: ys rule: join_with.induct)
  case (2 c p)
  then show ?case by (cases "(c, ys)" rule: join_with.cases) auto
next
  case (3 c x y xs)
  from 3(2-) obtain a b zs where ys: "ys = a # b # zs"
    by (cases "(c, ys)" rule: join_with.cases) auto
  with 3(2-) have "x = a" "join_with c (y # xs) = join_with c (b # zs)"
    by (auto simp: join_with_split)
  with 3(1) [of "b # zs"] 3(2-) ys show ?case by simp
qed simp

lemma normalize_ip_colon: "CHR '':'' \<notin> set (normalize_ip ip)"
  by (simp add: normalize_ip_def Let_def replace_char_def)

lemma hash_identity_colon: "CHR '':'' \<notin> set (hash_identity rt i)"
  by (simp add: hash_identity_def Let_def hex_encode_colon)

lemma key_parts_colon:
  assumes "CHR '':'' \<notin> set (po_action p)"
  shows "\<forall>x \<in> set (key_parts rt p r). CHR '':'' \<notin> set x"
  using assms by (simp add: key_parts_def Let_def normalize_ip_colon hash_identity_colon)

lemma build_key_parts: "build_key rt p r = cache_key (''ratelimit'' # key_parts rt p r)"
  by (simp add: build_key_def key_parts_def Let_def)

lemma key_parts_cons [simp]: "key_parts rt p r \<noteq> []"
  by (simp add: key_parts_def Let_def)

text \<open>Counters are never shared by accident: two requests have the same key just when their actions,
  the kind of key and the normalized address or hashed identity that kind uses are the same. A
  value the caller chooses, even one with a separator in it, cannot reach the counter of another
  action or of another kind of key.\<close>

theorem build_key_separates:
  assumes "CHR '':'' \<notin> set (po_action p)" "CHR '':'' \<notin> set (po_action q)"
  shows "build_key rt p r = build_key rt q r' \<longleftrightarrow> key_parts rt p r = key_parts rt q r'"
proof
  assume "build_key rt p r = build_key rt q r'"
  then have "join_with (CHR '':'') (key_parts rt p r) = join_with (CHR '':'') (key_parts rt q r')"
    by (cases "key_parts rt p r"; cases "key_parts rt q r'") (simp_all add: build_key_parts cache_key_def)
  then show "key_parts rt p r = key_parts rt q r'"
    by (rule join_with_inj) (auto dest: key_parts_colon [OF assms(1), rule_format] key_parts_colon [OF assms(2), rule_format])
qed (simp add: build_key_parts)

theorem build_key_separates_witness:
  "build_key (lc_runtime local_limiter_config) (window_policy ActionSignIn 5 minute KeyTypeIP)
     \<lparr>rq_action = ActionSignIn, rq_ip = ''::1'', rq_identity = [], rq_custom_key = []\<rparr> \<noteq>
   build_key (lc_runtime local_limiter_config) (window_policy ActionSignUp 5 minute KeyTypeIP)
     \<lparr>rq_action = ActionSignUp, rq_ip = ''::1'', rq_identity = [], rq_custom_key = []\<rparr>"
  by (subst build_key_separates)
    (simp_all add: window_policy_def key_parts_def rate_actions rate_names Let_def)

text \<open>The hook before a sign up sends no address, and the default policy for sign ups counts by address:
  every sign up of every caller falls on one and the same counter.\<close>

lemma sign_up_hook_one_counter:
  "\<exists>p \<in> set default_policies. po_action p = ActionSignUp \<and>
     build_key rt p (hook_request ActionSignUp e) = build_key rt p (hook_request ActionSignUp e')"
  by (simp add: default_policies_def window_policy_def rate_actions rate_names build_key_def hook_request_def normalize_ip_def)

end
