(* ===== verification/Foundation_Properties.thy ===== *)
theory Foundation_Properties
  imports Rate_Limit_Correct Recovery_Properties
begin

text \<open>
  What the layers below the workflows promise: the bridged store, the schema, email addresses and
  the cached entities.
\<close>




text \<open>An email address is normalized once and for all: a normalized address is lower case, has
  no space around it, normalizes to itself, and two spellings that differ only in case and
  surrounding space normalize alike.\<close>

theorem normalize_email_canonical_form:
  "case normalize_email rt email of
     Inl e \<Rightarrow> e = UserInvalidEmail
   | Inr e \<Rightarrow> e = to_lower (trim_space email) \<and> e \<noteq> [] \<and> to_lower e = e \<and> trim_space e = e \<and>
       CHR ''@'' \<in> set e \<and> normalize_email rt e = Inr e"
proof (cases "normalize_email rt email")
  case (Inl e)
  then show ?thesis
    by (auto simp: normalize_email_def Let_def split: if_splits option.splits prod.splits)
next
  case (Inr e)
  then have "e = to_lower (trim_space email)" "e \<noteq> []" "mail_parse_address rt e = Some ([], e)"
    unfolding normalize_email_Inr by blast+
  then show ?thesis
    using Inr normalize_email_canonical [OF Inr] normalize_email_fixed [OF Inr]
    by (auto simp: mail_parse_address_def split: if_splits)
qed

text \<open>A session in the in-memory cache comes back as it was put in, until its time to live is over:
  reading it just after storing it answers the same session while the clock is before the
  instant of storing plus the time to live, and a miss from then on.\<close>

theorem session_cache_roundtrip:
  assumes "ctx_err cx = None" "ctx_err cx' = None" "0 < ttl" and "session_json s = Inr j"
  shows "case run_state (session_cache_set (memory_cache clk) cx s ttl) c of (r, c') \<Rightarrow>
    r = Inr () \<and>
    fst (run_state (session_cache_get (memory_cache clk) cx' (sess_token_hash s)) c') =
      (if clk (Suc (mc_ticks c)) < clk (mc_ticks c) + ttl then Inr s else Inl CacheMiss)"
  using assms json_session_of [OF assms(4)]
  by (simp add: session_cache_set_def session_cache_get_def memory_cache_def mc_set_def mc_get_def
      run_mc_live map_of_update entry_json_def)

theorem session_cache_roundtrip_witness:
  "fst (run_state (session_cache_get (memory_cache (\<lambda>n. int n)) background ''h'')
     (snd (run_state (session_cache_set (memory_cache (\<lambda>n. int n)) background
        \<lparr>sess_id = ''i'', sess_user_id = ''u'', sess_token_hash = ''h'', sess_ip_address = [],
         sess_user_agent = [], sess_expires_at = 10, sess_revoked_at = None, sess_created_at = 1\<rparr> minute)
        mcache_new))) =
   Inr \<lparr>sess_id = ''i'', sess_user_id = ''u'', sess_token_hash = ''h'', sess_ip_address = [],
         sess_user_agent = [], sess_expires_at = 10, sess_revoked_at = None, sess_created_at = 1\<rparr>"
proof -
  define s where "s = \<lparr>sess_id = ''i'', sess_user_id = ''u'', sess_token_hash = ''h'', sess_ip_address = [],
         sess_user_agent = [], sess_expires_at = 10, sess_revoked_at = None, sess_created_at = 1\<rparr>"
  obtain j where "session_json s = Inr j"
    by (simp add: s_def session_json_def json_times_def json_time_ok_def duration_units)
  from session_cache_roundtrip [OF _ _ _ this, where cx = background and cx' = background and ttl = minute
      and clk = "\<lambda>n. int n" and c = mcache_new]
  show ?thesis
    by (simp add: s_def background_def duration_units mcache_new_def split: prod.splits)
qed

end
