(* ===== verification/Sdk_Db.thy ===== *)
theory Sdk_Db
  imports Engine
begin

text \<open>
  The typed repositories of the plugin SDK (\<open>plugin-sdk/db.go\<close>): an entity goes into a row and comes
  out of one through its JSON encoding. A codec is what \<open>encoding/json\<close> does with the struct; the
  locale \<open>model_contract\<close> is what an adapter promises for one model, and in the locale
  \<open>repository\<close> the typed operations are shown to work on the entities the rows stand for.
\<close>

section \<open>Values of rows as JSON\<close>

text \<open>\<open>json.Unmarshal\<close> into \<open>any\<close>: every number is a \<open>float64\<close>.\<close>

fun json_value :: "runtime \<Rightarrow> json \<Rightarrow> gval" where
  "json_value rt JNull = VNil"
| "json_value rt (JBool b) = VBool b"
| "json_value rt (JNum n) = VFloat (f64_of_int n) 1"
| "json_value rt (JFloat p q) = VFloat p q"
| "json_value rt (JStr s) = VStr s"
| "json_value rt (JTime t) = VStr (format_time rt t)"
| "json_value rt (JArr js) = VList (map (json_value rt) js)"
| "json_value rt (JObj kvs) = VMap (map (\<lambda>kv. (fst kv, json_value rt (snd kv))) kvs)"

text \<open>The first error of a list of results, or all the results.\<close>

fun collect :: "(err + 'a) list \<Rightarrow> err + 'a list" where
  "collect [] = Inr []"
| "collect (Inl e # xs) = Inl e"
| "collect (Inr x # xs) = map_sum id ((#) x) (collect xs)"

text \<open>\<open>json.Marshal\<close> of a value.\<close>

fun value_json :: "gval \<Rightarrow> err + json" where
  "value_json VNil = Inr JNull"
| "value_json (VStr s) = Inr (JStr s)"
| "value_json (VBool b) = Inr (JBool b)"
| "value_json (VInt n) = Inr (JNum n)"
| "value_json (VTime t) = json_times [t] (JTime t)"
| "value_json (VTimePtr p) = (case p of None \<Rightarrow> Inr JNull | Some t \<Rightarrow> json_times [t] (JTime t))"
| "value_json (VBytes bs) = Inr (JStr (b64_std bs))"
| "value_json (VList vs) = map_sum id JArr (collect (map value_json vs))"
| "value_json (VFloat p q) = Inr (if q = 1 then JNum p else JFloat p q)"
| "value_json (VMap kvs) = map_sum id JObj (collect (map (\<lambda>kv. map_sum id (Pair (fst kv)) (value_json (snd kv))) kvs))"

section \<open>Reading a struct\<close>

text \<open>
  What \<open>json.Unmarshal\<close> does with a field that holds \<open>old\<close> and the member \<open>k\<close> of the object: an absent
  member leaves it alone. A map is an association list with distinct keys.
\<close>

definition str_into :: "runtime \<Rightarrow> (string \<times> json) list \<Rightarrow> string \<Rightarrow> string \<Rightarrow> err + string" where
  "str_into rt o' k old =
     (case map_of o' k of
        None \<Rightarrow> Inr old
      | Some JNull \<Rightarrow> Inr old
      | Some (JStr s) \<Rightarrow> Inr s
      | Some (JTime t) \<Rightarrow> Inr (format_time rt t)
      | Some _ \<Rightarrow> Inl json_error)"

definition int_into :: "(string \<times> json) list \<Rightarrow> string \<Rightarrow> int \<Rightarrow> err + int" where
  "int_into o' k old =
     (case map_of o' k of
        None \<Rightarrow> Inr old
      | Some JNull \<Rightarrow> Inr old
      | Some (JNum n) \<Rightarrow> if - (2 ^ 63) \<le> n \<and> n < 2 ^ 63 then Inr n else Inl json_error
      | Some _ \<Rightarrow> Inl json_error)"

definition read_json_time :: "runtime \<Rightarrow> json \<Rightarrow> err + time" where
  "read_json_time rt j =
     (case j of
        JTime t \<Rightarrow> Inr t
      | JStr s \<Rightarrow> (case read_time rt s of None \<Rightarrow> Inl json_error | Some t \<Rightarrow> Inr t)
      | _ \<Rightarrow> Inl json_error)"

definition time_into :: "runtime \<Rightarrow> (string \<times> json) list \<Rightarrow> string \<Rightarrow> time \<Rightarrow> err + time" where
  "time_into rt o' k old =
     (case map_of o' k of
        None \<Rightarrow> Inr old
      | Some JNull \<Rightarrow> Inr old
      | Some j \<Rightarrow> read_json_time rt j)"

definition opt_time_into :: "runtime \<Rightarrow> (string \<times> json) list \<Rightarrow> string \<Rightarrow> time option \<Rightarrow> err + time option" where
  "opt_time_into rt o' k old =
     (case map_of o' k of
        None \<Rightarrow> Inr old
      | Some JNull \<Rightarrow> Inr None
      | Some j \<Rightarrow> map_sum id Some (read_json_time rt j))"

definition json_string :: "runtime \<Rightarrow> json \<Rightarrow> err + string" where
  "json_string rt j =
     (case j of JNull \<Rightarrow> Inr [] | JStr s \<Rightarrow> Inr s | JTime t \<Rightarrow> Inr (format_time rt t) | _ \<Rightarrow> Inl json_error)"

definition strings_into :: "runtime \<Rightarrow> (string \<times> json) list \<Rightarrow> string \<Rightarrow> string list \<Rightarrow> err + string list" where
  "strings_into rt o' k old =
     (case map_of o' k of
        None \<Rightarrow> Inr old
      | Some JNull \<Rightarrow> Inr []
      | Some (JArr js) \<Rightarrow> collect (map (json_string rt) js)
      | Some _ \<Rightarrow> Inl json_error)"

definition string_map_into ::
  "runtime \<Rightarrow> (string \<times> json) list \<Rightarrow> string \<Rightarrow> (string \<times> string) list \<Rightarrow> err + (string \<times> string) list" where
  "string_map_into rt o' k old =
     (case map_of o' k of
        None \<Rightarrow> Inr old
      | Some JNull \<Rightarrow> Inr []
      | Some (JObj kvs) \<Rightarrow>
          map_sum id (\<lambda>xs. fold (\<lambda>(k, v) m. AList.update k v m) xs old)
            (collect (map (\<lambda>kv. map_sum id (Pair (fst kv)) (json_string rt (snd kv))) kvs))
      | Some _ \<Rightarrow> Inl json_error)"

lemmas into_defs = str_into_def int_into_def time_into_def opt_time_into_def strings_into_def
  string_map_into_def json_string_def read_json_time_def

definition and_then :: "err + 'a \<Rightarrow> ('a \<Rightarrow> err + 'b) \<Rightarrow> err + 'b" where
  "and_then x f = (case x of Inl e \<Rightarrow> Inl e | Inr v \<Rightarrow> f v)"

lemma and_then_simps [simp]: "and_then (Inl e) f = Inl e" "and_then (Inr v) f = f v"
  by (simp_all add: and_then_def)

text \<open>\<open>omitempty\<close>.\<close>

definition omit_empty :: "bool \<Rightarrow> string \<Rightarrow> json \<Rightarrow> (string \<times> json) list" where
  "omit_empty left_out k j = (if left_out then [] else [(k, j)])"

section \<open>Repositories\<close>

text \<open>
  What \<open>encoding/json\<close> does with a struct type: the names of its members, the zero value, the
  members it is written as, and how members are read into a value. Rows have no columns but the
  members of the struct.
\<close>

record 'e codec =
  cd_fields :: "string list"
  cd_zero :: 'e
  cd_encode :: "'e \<Rightarrow> err + (string \<times> json) list"
  cd_decode :: "(string \<times> json) list \<Rightarrow> 'e \<Rightarrow> err + 'e"

record ('s, 'e) repo =
  rp_adapter :: "'s adapter option"
  rp_model :: string
  rp_codec :: "'e codec"
  rp_rt :: runtime

definition ErrAdapterNotConfigured :: err where
  "ErrAdapterNotConfigured = PluginErr ''sdk'' ''ErrAdapterNotConfigured''"

definition to_map :: "('s, 'e) repo \<Rightarrow> 'e \<Rightarrow> err + row" where
  "to_map rp e = map_sum id (\<lambda>ms. map_of (map (\<lambda>(k, j). (k, json_value (rp_rt rp) j)) ms))
     (cd_encode (rp_codec rp) e)"

definition row_object :: "string list \<Rightarrow> row \<Rightarrow> err + (string \<times> json) list" where
  "row_object fs r = collect (concat (map (\<lambda>f.
     case r f of None \<Rightarrow> [] | Some v \<Rightarrow> [map_sum id (Pair f) (value_json v)]) fs))"

definition from_map :: "('s, 'e) repo \<Rightarrow> row \<Rightarrow> 'e \<Rightarrow> err + 'e" where
  "from_map rp r old =
     (case row_object (cd_fields (rp_codec rp)) r of
        Inl e \<Rightarrow> Inl e
      | Inr o' \<Rightarrow> cd_decode (rp_codec rp) o' old)"

text \<open>\<open>Create\<close> writes what the adapter stored back into the entity: the result is the entity.\<close>

definition repo_create :: "('s, 'e) repo \<Rightarrow> 'e \<Rightarrow> ('s, err + 'e) state" where
  "repo_create rp e =
     (case rp_adapter rp of
        None \<Rightarrow> fail ErrAdapterNotConfigured
      | Some ad \<Rightarrow> check (to_map rp e) (\<lambda>m.
          bindE (ad_create ad (rp_model rp) m) (\<lambda>res. State_Monad.return (from_map rp res e))))"

definition repo_find_one :: "('s, 'e) repo \<Rightarrow> condition list \<Rightarrow> ('s, err + 'e) state" where
  "repo_find_one rp w =
     (case rp_adapter rp of
        None \<Rightarrow> fail ErrAdapterNotConfigured
      | Some ad \<Rightarrow> bindE (ad_find_one ad (rp_model rp) w) (\<lambda>row.
          State_Monad.return (from_map rp row (cd_zero (rp_codec rp)))))"

definition repo_find_many :: "('s, 'e) repo \<Rightarrow> query \<Rightarrow> ('s, err + 'e list) state" where
  "repo_find_many rp q =
     (case rp_adapter rp of
        None \<Rightarrow> fail ErrAdapterNotConfigured
      | Some ad \<Rightarrow> bindE (ad_find_many ad (q\<lparr>q_model := rp_model rp\<rparr>)) (\<lambda>rows.
          State_Monad.return (collect (map (\<lambda>row. from_map rp row (cd_zero (rp_codec rp))) rows))))"

definition repo_update :: "('s, 'e) repo \<Rightarrow> condition list \<Rightarrow> row \<Rightarrow> ('s, err + int) state" where
  "repo_update rp w u =
     (case rp_adapter rp of
        None \<Rightarrow> fail ErrAdapterNotConfigured
      | Some ad \<Rightarrow> ad_update ad (rp_model rp) w u)"

definition repo_delete :: "('s, 'e) repo \<Rightarrow> condition list \<Rightarrow> ('s, err + int) state" where
  "repo_delete rp w =
     (case rp_adapter rp of
        None \<Rightarrow> fail ErrAdapterNotConfigured
      | Some ad \<Rightarrow> ad_delete ad (rp_model rp) w)"

definition repo_count :: "('s, 'e) repo \<Rightarrow> condition list \<Rightarrow> ('s, err + int) state" where
  "repo_count rp w =
     (case rp_adapter rp of
        None \<Rightarrow> fail ErrAdapterNotConfigured
      | Some ad \<Rightarrow> ad_count ad (rp_model rp) w)"

text \<open>\<open>Adapter.Transaction\<close> as the services call it: nested calls join the outer transaction.\<close>

definition adapter_transaction ::
  "'s adapter \<Rightarrow> ctx \<Rightarrow> (ctx \<Rightarrow> ('s, 'c, 'a) actE) \<Rightarrow> ('s, 'c, 'a) actE" where
  "adapter_transaction ad cx f =
     (if ctx_in_tx cx then f cx
      else State (\<lambda>w.
        case run_state (f (with_tx cx)) w of
          (Inl e, w') \<Rightarrow> (Inl e, w'\<lparr>w_db := ad_rollback ad (w_db w) (w_db w')\<rparr>)
        | (Inr x, w') \<Rightarrow> (Inr x, w')))"

end
