(* ===== verification/Sdk_Correct.thy ===== *)
theory Sdk_Correct
  imports Sdk_Db
begin

text \<open>
  The contract of an adapter for one model (\<open>model_contract\<close>), which the in-memory adapter keeps for
  every registered model that is keyed by its identifier, and what the typed operations of a
  repository do on an adapter with this contract (\<open>repository\<close>): a table stands for a multiset of
  entities, and each operation acts on the entities.
\<close>

section \<open>The contract for one model\<close>

locale model_contract =
  fixes ad :: "'s adapter"
    and inv :: "'s \<Rightarrow> bool"
    and tbl :: "'s \<Rightarrow> string \<Rightarrow> row multiset"
    and sat :: "condition \<Rightarrow> row \<Rightarrow> bool"
    and plain :: "string \<Rightarrow> bool"
    and m :: string
    and uq :: "string list list"
  assumes create_Inr: "inv s \<Longrightarrow> run_state (ad_create ad m d) s = (Inr r, s') \<Longrightarrow>
      inv s' \<and> r = d \<and> tbl s' = (tbl s)(m := add_mset d (tbl s m)) \<and>
      (\<forall>fs \<in> set uq. \<forall>r' \<in># tbl s m. \<not> same_strings fs r' d)"
    and create_Inl: "inv s \<Longrightarrow> run_state (ad_create ad m d) s = (Inl e, s') \<Longrightarrow> inv s' \<and> tbl s' = tbl s"
    and find_one_Inr: "inv s \<Longrightarrow> run_state (ad_find_one ad m w) s = (Inr r, s') \<Longrightarrow>
      s' = s \<and> r \<in># tbl s m \<and> sats sat w r"
    and find_one_Inl: "inv s \<Longrightarrow> run_state (ad_find_one ad m w) s = (Inl e, s') \<Longrightarrow>
      s' = s \<and> (e = AdapterNotFound \<longrightarrow> (\<forall>r \<in># tbl s m. \<not> sats sat w r))"
    and find_many_Inr: "inv s \<Longrightarrow> run_state (ad_find_many ad (query_where m w)) s = (Inr rs, s') \<Longrightarrow>
      s' = s \<and> mset rs = filter_mset (sats sat w) (tbl s m)"
    and find_many_Inl: "inv s \<Longrightarrow> run_state (ad_find_many ad (query_where m w)) s = (Inl e, s') \<Longrightarrow> s' = s"
    and update_Inr: "inv s \<Longrightarrow> u ''id'' = None \<Longrightarrow> run_state (ad_update ad m w u) s = (Inr n, s') \<Longrightarrow>
      inv s' \<and> n = int (size (filter_mset (sats sat w) (tbl s m))) \<and>
      tbl s' = (tbl s)(m := image_mset (\<lambda>r. if sats sat w r then r ++ u else r) (tbl s m))"
    and update_Inl: "inv s \<Longrightarrow> run_state (ad_update ad m w u) s = (Inl e, s') \<Longrightarrow> inv s' \<and> tbl s' = tbl s"
    and delete_Inr: "inv s \<Longrightarrow> run_state (ad_delete ad m w) s = (Inr n, s') \<Longrightarrow>
      inv s' \<and> n = int (size (filter_mset (sats sat w) (tbl s m))) \<and>
      tbl s' = (tbl s)(m := filter_mset (\<lambda>r. \<not> sats sat w r) (tbl s m))"
    and delete_Inl: "inv s \<Longrightarrow> run_state (ad_delete ad m w) s = (Inl e, s') \<Longrightarrow> inv s' \<and> tbl s' = tbl s"
    and count_Inr: "inv s \<Longrightarrow> run_state (ad_count ad m w) s = (Inr n, s') \<Longrightarrow>
      s' = s \<and> n = int (size (filter_mset (sats sat w) (tbl s m)))"
    and count_Inl: "inv s \<Longrightarrow> run_state (ad_count ad m w) s = (Inl e, s') \<Longrightarrow> s' = s"
    and rollback: "inv s0 \<Longrightarrow> inv s1 \<Longrightarrow> inv (ad_rollback ad s0 s1) \<and> tbl (ad_rollback ad s0 s1) = tbl s0"
    and sat_eq: "r k = Some (VStr a) \<Longrightarrow> plain a \<or> plain b \<Longrightarrow> sat (Eq k (VStr b)) r \<longleftrightarrow> a = b"

lemma mem_model_create_Inl:
  assumes "model_inv rt m uq a" "run_state (mem_create rt m d) a = (Inl e, a')"
  shows "model_inv rt m uq a' \<and> mem_tbl a' = mem_tbl a"
proof -
  from assms(2) have "a' = a \<or> a' = a\<lparr>mem_tables := ensure_table m (mem_tables a)\<rparr>"
    by (auto simp: mem_create_def Let_def split: option.splits if_splits)
  then have "table_of a' = table_of a" "mem_schema a' = mem_schema a" by (auto simp: table_of_ensure)
  with assms(1) show ?thesis by (simp add: model_inv_def mem_tbl_def fun_eq_iff)
qed

interpretation mem_model: model_contract "memory_adapter rt" "model_inv rt m uq" mem_tbl "match_condition rt"
  plain_string m uq for rt m uq
proof (unfold_locales, goal_cases)
  case (1 s d r s') then show ?case using mem_create_model by (simp add: memory_adapter_def)
next
  case (2 s d e s') then show ?case using mem_model_create_Inl by (simp add: memory_adapter_def)
next
  case (3 s w r s') then show ?case using mem_find_one_Inr by (simp add: memory_adapter_def)
next
  case (4 s w e s') then show ?case using mem_find_one_Inl by (simp add: memory_adapter_def)
next
  case (5 s w rs s') then show ?case using mem_find_many_Inr by (simp add: memory_adapter_def)
next
  case (6 s w e s') then show ?case
    by (auto simp: memory_adapter_def mem_find_many_def Let_def split: option.splits if_splits)
next
  case (7 s u w n s') then show ?case
    using mem_update_model [of rt m uq s u w "Inr n" s'] by (simp add: memory_adapter_def)
next
  case (8 s w u e s') then show ?case
    by (auto simp: memory_adapter_def mem_update_def split: option.splits)
next
  case (9 s w n s') then show ?case
    using mem_delete_model [of rt m uq s w "Inr n" s'] by (simp add: memory_adapter_def)
next
  case (10 s w e s') then show ?case
    by (auto simp: memory_adapter_def mem_delete_def Let_def split: option.splits)
next
  case (11 s w n s') then show ?case by (auto simp: memory_adapter_def mem_count_run)
next
  case (12 s w e s') then show ?case by (simp add: memory_adapter_def mem_count_run)
next
  case (13 s0 s1) then show ?case
    by (auto simp: memory_adapter_def mem_rollback_def clone_tables_def model_inv_def mem_tbl_def
        table_of_def fun_eq_iff)
next
  case (14 r k a b) then show ?case
    by (simp add: match_condition_def Eq_def row_get_def match_equal_str)
qed

section \<open>Repositories\<close>

text \<open>
  \<open>rep e r\<close>: row \<open>r\<close> stands for entity \<open>e\<close>. An entity that is \<open>okay\<close> can be written; what is written
  stands for it, and what stands for it is read as it.
\<close>

locale repository = model_contract ad inv tbl sat plain m uq
  for ad :: "'s adapter" and inv tbl sat plain m uq +
  fixes rp :: "('s, 'e) repo"
    and rep :: "'e \<Rightarrow> row \<Rightarrow> bool"
    and okay :: "'e \<Rightarrow> bool"
  assumes rp: "rp_adapter rp = Some ad" "rp_model rp = m"
    and writes: "okay e \<Longrightarrow> \<exists>r. to_map rp e = Inr r \<and> rep e r \<and> from_map rp r e = Inr e"
    and reads: "rep e r \<Longrightarrow> from_map rp r (cd_zero (rp_codec rp)) = Inr e"
begin

definition entity :: "row \<Rightarrow> 'e" where
  "entity r = (case from_map rp r (cd_zero (rp_codec rp)) of Inr e \<Rightarrow> e | Inl _ \<Rightarrow> cd_zero (rp_codec rp))"

definition ents :: "'s \<Rightarrow> 'e multiset" where
  "ents s = image_mset entity (tbl s m)"

definition rinv :: "'s \<Rightarrow> bool" where
  "rinv s \<longleftrightarrow> inv s \<and> (\<forall>r \<in># tbl s m. rep (entity r) r)"

lemma rep_entity: "rep e r \<Longrightarrow> entity r = e"
  by (simp add: entity_def reads)

lemma rinv_rep: "rinv s \<Longrightarrow> r \<in># tbl s m \<Longrightarrow> rep (entity r) r"
  by (simp add: rinv_def)

text \<open>Conditions on rows that amount to a property of the entities.\<close>

definition means :: "condition list \<Rightarrow> ('e \<Rightarrow> bool) \<Rightarrow> bool" where
  "means w P \<longleftrightarrow> (\<forall>e r. rep e r \<longrightarrow> (sats sat w r \<longleftrightarrow> P e))"

lemma means_filter:
  assumes "means w P" "rinv s"
  shows "image_mset entity (filter_mset (sats sat w) (tbl s m)) = filter_mset P (ents s)"
proof -
  have "\<forall>r \<in># tbl s m. sats sat w r \<longleftrightarrow> P (entity r)"
    using assms rinv_rep by (auto simp: means_def)
  then have "filter_mset (sats sat w) (tbl s m) = filter_mset (\<lambda>r. P (entity r)) (tbl s m)"
    by (intro filter_mset_cong) auto
  then show ?thesis by (simp add: ents_def filter_mset_image_mset)
qed

lemma means_size:
  "means w P \<Longrightarrow> rinv s \<Longrightarrow> size (filter_mset (sats sat w) (tbl s m)) = size (filter_mset P (ents s))"
  using means_filter [of w P s] by (metis size_image_mset)

lemma repo_find_one:
  assumes "rinv s" "means w P" "run_state (repo_find_one rp w) s = (r, s')"
  shows "s' = s \<and> (case r of
      Inl e \<Rightarrow> e = AdapterNotFound \<longrightarrow> (\<forall>x \<in># ents s. \<not> P x)
    | Inr e \<Rightarrow> e \<in># ents s \<and> P e)"
proof -
  obtain q s1 where q: "run_state (ad_find_one ad m w) s = (q, s1)" by (rule prod.exhaust)
  with assms(3) have r: "r = (case q of Inl e \<Rightarrow> Inl e | Inr row \<Rightarrow> from_map rp row (cd_zero (rp_codec rp)))" "s' = s1"
    by (auto simp: repo_find_one_def rp bindE_def check_def fail_def split: sum.splits)
  show ?thesis
  proof (cases q)
    case (Inl e)
    with q assms(1) find_one_Inl [of s w e s1] have "s1 = s \<and> (e = AdapterNotFound \<longrightarrow> (\<forall>r \<in># tbl s m. \<not> sats sat w r))"
      by (auto simp: rinv_def)
    with Inl r assms(1,2) show ?thesis by (auto simp: ents_def means_def dest: rinv_rep)
  next
    case (Inr row)
    with q assms(1) find_one_Inr [of s w row s1] have row: "s1 = s" "row \<in># tbl s m" "sats sat w row"
      by (auto simp: rinv_def)
    with rinv_rep [OF assms(1)] have rep: "rep (entity row) row" by blast
    from reads [OF this] Inr r have "r = Inr (entity row)" by simp
    with row r(2) rep assms(2) show ?thesis by (auto simp: ents_def means_def)
  qed
qed

lemma collect_Inr: "(\<And>x. x \<in> set xs \<Longrightarrow> f x = Inr (g x)) \<Longrightarrow> collect (map f xs) = Inr (map g xs)"
  by (induction xs) auto

lemma repo_find_many:
  assumes "rinv s" "means w P" "run_state (repo_find_many rp (query_where mo w)) s = (r, s')"
  shows "s' = s \<and> (case r of Inl _ \<Rightarrow> True | Inr es \<Rightarrow> mset es = filter_mset P (ents s))"
proof -
  have "(query_where mo w)\<lparr>q_model := rp_model rp\<rparr> = query_where m w" by (simp add: query_where_def rp)
  then obtain q s1 where q: "run_state (ad_find_many ad (query_where m w)) s = (q, s1)"
    and r: "r = (case q of Inl e \<Rightarrow> Inl e
      | Inr rows \<Rightarrow> collect (map (\<lambda>row. from_map rp row (cd_zero (rp_codec rp))) rows))" "s' = s1"
    using assms(3)
    by (cases "run_state (ad_find_many ad (query_where m w)) s")
      (auto simp: repo_find_many_def rp bindE_def check_def fail_def split: sum.splits)
  show ?thesis
  proof (cases q)
    case (Inl e)
    with q r assms(1) find_many_Inl show ?thesis by (auto simp: rinv_def)
  next
    case (Inr rows)
    with q assms(1) find_many_Inr [of s w rows s1] have rows: "s1 = s" "mset rows = filter_mset (sats sat w) (tbl s m)"
      by (auto simp: rinv_def)
    have "from_map rp row (cd_zero (rp_codec rp)) = Inr (entity row)" if "row \<in> set rows" for row
    proof -
      from that rows(2) have "row \<in># tbl s m"
        by (metis filter_mset_eq_conv mset_subset_eqD multiset_filter_subset set_mset_mset)
      then show ?thesis by (rule reads [OF rinv_rep [OF assms(1)]])
    qed
    then have "collect (map (\<lambda>row. from_map rp row (cd_zero (rp_codec rp))) rows) = Inr (map entity rows)"
      by (rule collect_Inr)
    moreover have "mset (map entity rows) = filter_mset P (ents s)"
      using rows(2) means_filter [OF assms(2,1)] by simp
    ultimately show ?thesis using Inr r rows(1) by simp
  qed
qed

lemma repo_create:
  assumes "rinv s" "okay e" "run_state (repo_create rp e) s = (r, s')"
  shows "rinv s' \<and> (\<forall>m'. m' \<noteq> m \<longrightarrow> tbl s' m' = tbl s m') \<and> (case r of
      Inl _ \<Rightarrow> ents s' = ents s
    | Inr e' \<Rightarrow> e' = e \<and> ents s' = add_mset e (ents s) \<and>
        (\<exists>d. rep e d \<and> (\<forall>fs \<in> set uq. \<forall>r' \<in># tbl s m. \<not> same_strings fs r' d)))"
proof -
  from writes [OF assms(2)] obtain d where d: "to_map rp e = Inr d" "rep e d" "from_map rp d e = Inr e" by blast
  obtain q s1 where q: "run_state (ad_create ad m d) s = (q, s1)" by (rule prod.exhaust)
  with assms(3) d have r: "r = (case q of Inl x \<Rightarrow> Inl x | Inr row \<Rightarrow> from_map rp row e)" "s' = s1"
    by (auto simp: repo_create_def rp bindE_def check_def fail_def split: sum.splits)
  show ?thesis
  proof (cases q)
    case (Inl x)
    with q r assms(1) create_Inl [of s d x s1] show ?thesis by (auto simp: rinv_def ents_def)
  next
    case (Inr row)
    with q assms(1) create_Inr [of s d row s1] have c: "inv s1" "row = d" "tbl s1 = (tbl s)(m := add_mset d (tbl s m))"
      "\<forall>fs \<in> set uq. \<forall>r' \<in># tbl s m. \<not> same_strings fs r' d"
      by (auto simp: rinv_def)
    have "rinv s1" using assms(1) c d(2) rep_entity [OF d(2)] by (auto simp: rinv_def)
    then show ?thesis using c d r Inr rep_entity [OF d(2)] by (auto simp: ents_def)
  qed
qed

text \<open>A single unique string field gives entities with different values of the field.\<close>

lemma create_unique:
  assumes "rinv s" "rep e d" "\<forall>fs \<in> set uq. \<forall>r' \<in># tbl s m. \<not> same_strings fs r' d"
    and "[f] \<in> set uq" "\<And>x r. rep x r \<Longrightarrow> r f = Some (VStr (sel x))" "x \<in># ents s"
  shows "sel x \<noteq> sel e"
proof
  assume "sel x = sel e"
  from assms(6) obtain r where r: "r \<in># tbl s m" "x = entity r" by (auto simp: ents_def)
  with rinv_rep [OF assms(1)] have "rep x r" by blast
  from assms(5) [OF this] assms(5) [OF assms(2)] \<open>sel x = sel e\<close> have "same_strings [f] r d"
    by (simp add: same_strings_def)
  with assms(3,4) r show False by blast
qed

lemma repo_update:
  assumes "rinv s" "means w P" "u ''id'' = None" "\<And>e r. rep e r \<Longrightarrow> P e \<Longrightarrow> rep (g e) (r ++ u)"
    and "run_state (repo_update rp w u) s = (r, s')"
  shows "rinv s' \<and> (\<forall>m'. m' \<noteq> m \<longrightarrow> tbl s' m' = tbl s m') \<and> (case r of
      Inl _ \<Rightarrow> ents s' = ents s
    | Inr n \<Rightarrow> n = int (size (filter_mset P (ents s))) \<and> ents s' = upd_where P g (ents s))"
proof -
  from assms(5) have run: "run_state (ad_update ad m w u) s = (r, s')" by (simp add: repo_update_def rp)
  show ?thesis
  proof (cases r)
    case (Inl x)
    with run assms(1) update_Inl [of s w u x s'] show ?thesis by (auto simp: rinv_def ents_def)
  next
    case (Inr n)
    from run Inr assms(1,3) update_Inr [of s u w n s'] have
      c: "inv s'" "n = int (size (filter_mset (sats sat w) (tbl s m)))"
      "tbl s' = (tbl s)(m := image_mset (\<lambda>r. if sats sat w r then r ++ u else r) (tbl s m))"
      by (auto simp: rinv_def)
    have step: "rep (if P (entity r) then g (entity r) else entity r) (if sats sat w r then r ++ u else r)"
      if "r \<in># tbl s m" for r
      using rinv_rep [OF assms(1) that] assms(2,4) by (auto simp: means_def)
    have "rep (entity (if sats sat w r then r ++ u else r)) (if sats sat w r then r ++ u else r)"
      if "r \<in># tbl s m" for r
      using step [OF that] rep_entity by metis
    then have "\<forall>r \<in># tbl s' m. rep (entity r) r" unfolding c by (simp only: fun_upd_same set_image_mset) blast
    with c(1) have "rinv s'" by (simp add: rinv_def)
    moreover have "ents s' = upd_where P g (ents s)"
      unfolding ents_def upd_where_def c(3)
      unfolding fun_upd_same multiset.map_comp comp_def by (rule image_mset_cong) (rule rep_entity [OF step])
    ultimately show ?thesis using Inr c means_size [OF assms(2,1)] by simp
  qed
qed

lemma repo_delete:
  assumes "rinv s" "means w P" "run_state (repo_delete rp w) s = (r, s')"
  shows "rinv s' \<and> (\<forall>m'. m' \<noteq> m \<longrightarrow> tbl s' m' = tbl s m') \<and> (case r of
      Inl _ \<Rightarrow> ents s' = ents s
    | Inr n \<Rightarrow> n = int (size (filter_mset P (ents s))) \<and> ents s' = filter_mset (\<lambda>x. \<not> P x) (ents s))"
proof -
  from assms(3) have run: "run_state (ad_delete ad m w) s = (r, s')" by (simp add: repo_delete_def rp)
  show ?thesis
  proof (cases r)
    case (Inl x)
    with run assms(1) delete_Inl [of s w x s'] show ?thesis by (auto simp: rinv_def ents_def)
  next
    case (Inr n)
    from run Inr assms(1) delete_Inr [of s w n s'] have
      c: "inv s'" "n = int (size (filter_mset (sats sat w) (tbl s m)))"
      "tbl s' = (tbl s)(m := filter_mset (\<lambda>r. \<not> sats sat w r) (tbl s m))"
      by (auto simp: rinv_def)
    have "\<forall>r \<in># tbl s m. sats sat w r \<longleftrightarrow> P (entity r)"
      using assms(1,2) rinv_rep by (auto simp: means_def)
    then have "filter_mset (\<lambda>r. \<not> sats sat w r) (tbl s m) = filter_mset (\<lambda>r. \<not> P (entity r)) (tbl s m)"
      by (intro filter_mset_cong) auto
    then have "ents s' = filter_mset (\<lambda>x. \<not> P x) (ents s)"
      by (simp add: ents_def c filter_mset_image_mset)
    then show ?thesis using Inr c means_size [OF assms(2,1)] assms(1) by (auto simp: rinv_def)
  qed
qed

lemma repo_count:
  assumes "rinv s" "means w P" "run_state (repo_count rp w) s = (r, s')"
  shows "s' = s \<and> (case r of Inl _ \<Rightarrow> True | Inr n \<Rightarrow> n = int (size (filter_mset P (ents s))))"
  using assms count_Inr [of s w _ s'] count_Inl [of s w _ s'] means_size [OF assms(2,1)]
  by (cases r) (auto simp: repo_count_def rp rinv_def)

lemma repo_rollback:
  "rinv s0 \<Longrightarrow> rinv s1 \<Longrightarrow> rinv (ad_rollback ad s0 s1) \<and> ents (ad_rollback ad s0 s1) = ents s0 \<and>
   tbl (ad_rollback ad s0 s1) = tbl s0"
  using rollback by (simp add: rinv_def ents_def)

text \<open>An equality on a string field.\<close>

lemma means_eq:
  assumes "\<And>e r. rep e r \<Longrightarrow> r k = Some (VStr (sel e)) \<and> (plain (sel e) \<or> plain b)"
  shows "means [Eq k (VStr b)] (\<lambda>e. sel e = b)"
  using assms sat_eq by (fastforce simp: means_def)

end

section \<open>Values that stand for fields\<close>

text \<open>
  The values a row can hold for a field of an entity: what \<open>Create\<close> writes through JSON, and what an
  update puts in. An instant is written as a text that is read back as the same instant.
\<close>

definition time_text :: "runtime \<Rightarrow> bool" where
  "time_text rt \<longleftrightarrow> (\<forall>t. json_time_ok t \<longrightarrow> read_time rt (format_time rt t) = Some t)"

definition str_rep :: "gval option \<Rightarrow> string \<Rightarrow> bool" where
  "str_rep v s \<longleftrightarrow> v = Some (VStr s) \<or> v = None \<and> s = []"

definition time_rep :: "runtime \<Rightarrow> gval option \<Rightarrow> time \<Rightarrow> bool" where
  "time_rep rt v t \<longleftrightarrow> json_time_ok t \<and> (v = Some (VTime t) \<or> v = Some (VStr (format_time rt t)))"

definition opt_time_rep :: "runtime \<Rightarrow> gval option \<Rightarrow> time option \<Rightarrow> bool" where
  "opt_time_rep rt v p \<longleftrightarrow> (case p of
     None \<Rightarrow> v = None \<or> v = Some VNil \<or> v = Some (VTimePtr None)
   | Some t \<Rightarrow> json_time_ok t \<and> (v = Some (VTimePtr (Some t)) \<or> v = Some (VStr (format_time rt t))))"

definition int_rep :: "gval option \<Rightarrow> int \<Rightarrow> bool" where
  "int_rep v n \<longleftrightarrow> - (2 ^ 63) \<le> n \<and> n < 2 ^ 63 \<and> (v = Some (VInt n) \<or> v = Some (VFloat n 1))"

definition string_map_rep :: "gval option \<Rightarrow> (string \<times> string) list \<Rightarrow> bool" where
  "string_map_rep v kvs \<longleftrightarrow> distinct (map fst kvs) \<and>
     (v = Some (VMap (map (\<lambda>(k, x). (k, VStr x)) kvs)) \<or> v = None \<and> kvs = [])"

definition strings_rep :: "gval option \<Rightarrow> string list \<Rightarrow> bool" where
  "strings_rep v xs \<longleftrightarrow> v = Some (VList (map VStr xs)) \<or> v = Some VNil \<and> xs = []"

lemmas rep_defs = str_rep_def time_rep_def opt_time_rep_def int_rep_def string_map_rep_def strings_rep_def

text \<open>The member of the JSON object for a value of the row, and when there is one.\<close>

definition member_of :: "gval option \<Rightarrow> json option" where
  "member_of v = (case v of None \<Rightarrow> None | Some x \<Rightarrow>
     (case value_json x of Inl _ \<Rightarrow> None | Inr j \<Rightarrow> Some j))"

definition encodable :: "gval option \<Rightarrow> bool" where
  "encodable v \<longleftrightarrow> (case v of None \<Rightarrow> True | Some x \<Rightarrow> (\<exists>j. value_json x = Inr j))"

lemma collect_append:
  "collect (xs @ ys) = (case collect xs of Inl e \<Rightarrow> Inl e | Inr us \<Rightarrow> map_sum id ((@) us) (collect ys))"
proof (induction xs rule: collect.induct)
  case (3 x xs)
  then show ?case by (cases "collect xs"; cases "collect ys") auto
qed (cases "collect ys"; auto)+

lemma row_object_members:
  assumes "\<And>f. f \<in> set fs \<Longrightarrow> encodable (r f)" "distinct fs"
  obtains o' where "row_object fs r = Inr o'" "\<And>f. f \<in> set fs \<Longrightarrow> map_of o' f = member_of (r f)"
    "fst ` set o' \<subseteq> set fs"
  using assms
proof (induction fs arbitrary: thesis)
  case Nil
  then show ?case by (simp add: row_object_def)
next
  case (Cons f fs)
  obtain o' where o': "row_object fs r = Inr o'" "\<And>f. f \<in> set fs \<Longrightarrow> map_of o' f = member_of (r f)"
    "fst ` set o' \<subseteq> set fs"
    using Cons by auto
  show ?case
  proof (cases "r f")
    case None
    have "map_of o' f = None" using o'(3) Cons.prems(3) by (auto simp: map_of_eq_None_iff)
    then have "map_of o' g = member_of (r g)" if "g \<in> set (f # fs)" for g
      using that o'(2) None by (auto simp: member_of_def)
    moreover from o' None have "row_object (f # fs) r = Inr o'" by (simp add: row_object_def)
    moreover have "fst ` set o' \<subseteq> set (f # fs)" using o'(3) by auto
    ultimately show ?thesis using Cons.prems(1) by blast
  next
    case (Some v)
    with Cons.prems(2) [of f] obtain j where j: "value_json v = Inr j" by (auto simp: encodable_def)
    with o' Some have "row_object (f # fs) r = Inr ((f, j) # o')" by (simp add: row_object_def)
    moreover have "map_of ((f, j) # o') g = member_of (r g)" if "g \<in> set (f # fs)" for g
      using that o'(2) Some j Cons.prems(3) by (auto simp: member_of_def)
    moreover have "fst ` set ((f, j) # o') \<subseteq> set (f # fs)" using o'(3) by auto
    ultimately show ?thesis using Cons.prems(1) by blast
  qed
qed

lemma collect_pairs:
  "collect (map (\<lambda>kv. map_sum id (Pair (fst kv)) (value_json (snd kv))) (map (\<lambda>(k, x). (k, VStr x)) kvs)) =
   Inr (map (\<lambda>(k, x). (k, JStr x)) kvs)"
  by (induction kvs) auto

lemma collect_strings: "collect (map value_json (map VStr xs)) = Inr (map JStr xs)"
  by (induction xs) auto

lemma collect_json_strings: "collect (map (json_string rt) (map JStr xs)) = Inr xs"
  by (induction xs) (auto simp: json_string_def)

lemma collect_json_pairs:
  "collect (map (\<lambda>kv. map_sum id (Pair (fst kv)) (json_string rt (snd kv))) (map (\<lambda>(k, x). (k, JStr x)) kvs)) = Inr kvs"
  by (induction kvs) (auto simp: json_string_def)

lemma update_all_new:
  "distinct (map fst kvs) \<Longrightarrow> fst ` set kvs \<inter> fst ` set m = {} \<Longrightarrow>
   fold (\<lambda>(k, v) m. AList.update k v m) kvs m = m @ kvs"
proof (induction kvs arbitrary: m)
  case (Cons kv kvs)
  obtain k v where kv: "kv = (k, v)" by (rule prod.exhaust)
  with Cons.prems have "k \<notin> fst ` set m" by auto
  then have "AList.update k v m = m @ [(k, v)]" by (induction m) auto
  with Cons kv show ?case by auto
qed simp

lemma update_same: "distinct (map fst m) \<Longrightarrow> (k, v) \<in> set m \<Longrightarrow> AList.update k v m = m"
  by (induction m) (auto simp: rev_image_eqI)

lemma update_all_same: "distinct (map fst m) \<Longrightarrow> set kvs \<subseteq> set m \<Longrightarrow>
   fold (\<lambda>(k, v) m. AList.update k v m) kvs m = m"
  by (induction kvs) (auto simp: update_same)

lemma encodable_reps [simp]:
  "str_rep v s \<Longrightarrow> encodable v"
  "time_rep rt v t \<Longrightarrow> encodable v"
  "opt_time_rep rt v p \<Longrightarrow> encodable v"
  "int_rep v n \<Longrightarrow> encodable v"
  "string_map_rep v kvs \<Longrightarrow> encodable v"
  "strings_rep v xs \<Longrightarrow> encodable v"
  using collect_pairs [of kvs] collect_strings [of xs]
  by (auto simp: rep_defs encodable_def json_times_def split: option.splits)

text \<open>Reading a member that stands for a value, into the zero value or into the value itself.\<close>

lemma str_into_rep:
  "str_rep v s \<Longrightarrow> map_of o' k = member_of v \<Longrightarrow> old = [] \<or> old = s \<Longrightarrow> str_into rt o' k old = Inr s"
  by (auto simp: rep_defs into_defs member_of_def)

lemma int_into_rep:
  "int_rep v n \<Longrightarrow> map_of o' k = member_of v \<Longrightarrow> int_into o' k old = Inr n"
  by (auto simp: rep_defs into_defs member_of_def)

lemma time_into_rep:
  "time_rep rt v t \<Longrightarrow> time_text rt \<Longrightarrow> map_of o' k = member_of v \<Longrightarrow> time_into rt o' k old = Inr t"
  by (auto simp: rep_defs into_defs member_of_def time_text_def json_times_def)

lemma opt_time_into_rep:
  "opt_time_rep rt v p \<Longrightarrow> time_text rt \<Longrightarrow> map_of o' k = member_of v \<Longrightarrow> old = None \<or> old = p \<Longrightarrow>
   opt_time_into rt o' k old = Inr p"
  by (auto simp: rep_defs into_defs member_of_def time_text_def json_times_def split: option.splits)

lemma string_map_into_rep:
  assumes "string_map_rep v kvs" "map_of o' k = member_of v" "old = [] \<or> old = kvs"
  shows "string_map_into rt o' k old = Inr kvs"
proof -
  have "fold (\<lambda>(k, v) m. AList.update k v m) kvs old = kvs" if "distinct (map fst kvs)"
    using assms(3) update_all_new [OF that, of "[]"] update_all_same [OF that, of kvs] by auto
  then show ?thesis
    using assms collect_pairs [of kvs] collect_json_pairs [of rt kvs]
    by (auto simp: rep_defs string_map_into_def member_of_def)
qed

lemma strings_into_rep:
  "strings_rep v xs \<Longrightarrow> map_of o' k = member_of v \<Longrightarrow> strings_into rt o' k old = Inr xs"
  using collect_strings [of xs] collect_json_strings [of rt xs]
  by (auto simp: rep_defs strings_into_def member_of_def)

text \<open>What \<open>Create\<close> writes.\<close>

lemma map_of_omit_empty [simp]:
  "map_of (map (\<lambda>(k, j). (k, f j)) (omit_empty b k j)) x = (if \<not> b \<and> x = k then Some (f j) else None)"
  by (simp add: omit_empty_def)

lemma json_value_pairs:
  "map (\<lambda>kv. (fst kv, json_value rt (snd kv))) (map (\<lambda>(k, v). (k, JStr v)) kvs) = map (\<lambda>(k, x). (k, VStr x)) kvs"
  by (induction kvs) auto

lemma f64_small: "\<bar>n\<bar> < 2 ^ 53 \<Longrightarrow> f64_of_int n = n"
proof -
  assume n: "\<bar>n\<bar> < 2 ^ 53"
  have len: "a < 2 ^ k \<Longrightarrow> bit_length a \<le> k" for a k
  proof (induction k arbitrary: a)
    case (Suc k)
    then have "a div 2 < 2 ^ k" by auto
    with Suc.IH [of "a div 2"] show ?case by (simp add: bit_length.simps [of a])
  qed (simp add: bit_length.simps)
  have "nat \<bar>n\<bar> < 2 ^ 53" using n by (simp add: nat_less_iff)
  from len [OF this] show ?thesis by (simp add: f64_of_int_def Let_def)
qed

end
