(* ===== verification/Device_Authorization.thy ===== *)
theory Device_Authorization
  imports Sdk_Db Workflows Durations
begin

text \<open>
  The device authorization grant (\<open>plugins/device-authorization\<close>, RFC 8628): grants and their rows
  (\<open>domain.go\<close>), codes (\<open>crypto.go\<close>), the configuration (\<open>config.go\<close>), the limiter of code entries
  (\<open>cache/cache.go\<close>) and the service (\<open>service.go\<close>).

  The service is the one \<open>Init\<close> builds: the context, the engine behind it, its events and the adapter
  are there. What \<open>service.go\<close> does for a context without a host (\<open>NewTestContext\<close>) is left out. A
  \<open>DeviceStatus\<close> is a string in the code and stays one.
\<close>

section \<open>Errors\<close>

definition device_err :: "string \<Rightarrow> err" where
  "device_err e = PluginErr ''deviceauth'' e"

definition ErrAuthorizationPending :: err where "ErrAuthorizationPending = device_err ''authorization_pending''"
definition ErrSlowDown :: err where "ErrSlowDown = device_err ''slow_down''"
definition ErrAccessDenied :: err where "ErrAccessDenied = device_err ''access_denied''"
definition ErrExpiredToken :: err where "ErrExpiredToken = device_err ''expired_token''"
definition ErrInvalidGrant :: err where "ErrInvalidGrant = device_err ''invalid_grant''"
definition ErrInvalidUserCode :: err where "ErrInvalidUserCode = device_err ''invalid or unknown user code''"
definition ErrMaxAttemptsExceeded :: err where
  "ErrMaxAttemptsExceeded = device_err ''maximum verification attempts exceeded''"
definition ErrAlreadyAuthorized :: err where "ErrAlreadyAuthorized = device_err ''request is already authorized''"
definition ErrAlreadyDenied :: err where "ErrAlreadyDenied = device_err ''request is already denied''"
definition ErrAlreadyConsumed :: err where "ErrAlreadyConsumed = device_err ''request has already been consumed''"
definition ErrRateLimited :: err where "ErrRateLimited = device_err ''rate limit exceeded''"
definition ErrInvalidInput :: err where "ErrInvalidInput = device_err ''invalid input parameters''"

lemmas device_errors = device_err_def ErrAuthorizationPending_def ErrSlowDown_def ErrAccessDenied_def
  ErrExpiredToken_def ErrInvalidGrant_def ErrInvalidUserCode_def ErrMaxAttemptsExceeded_def
  ErrAlreadyAuthorized_def ErrAlreadyDenied_def ErrAlreadyConsumed_def ErrRateLimited_def ErrInvalidInput_def

section \<open>Grants\<close>

definition StatusPending :: string where "StatusPending = ''pending''"
definition StatusAuthorized :: string where "StatusAuthorized = ''authorized''"
definition StatusDenied :: string where "StatusDenied = ''denied''"
definition StatusConsumed :: string where "StatusConsumed = ''consumed''"

lemmas device_status = StatusPending_def StatusAuthorized_def StatusDenied_def StatusConsumed_def

text \<open>\<open>gr_metadata\<close> is a map: keys are distinct.\<close>

record device_grant =
  gr_id :: string
  gr_client_id :: string
  gr_device_code_hash :: string
  gr_user_code :: string
  gr_status :: string
  gr_user_id :: string
  gr_scope :: string
  gr_metadata :: "(string \<times> string) list"
  gr_expires_at :: time
  gr_last_polled_at :: "time option"
  gr_polling_interval :: int
  gr_failed_attempts :: int
  gr_authorized_at :: "time option"
  gr_consumed_at :: "time option"
  gr_created_at :: time
  gr_updated_at :: time

definition grant_expired :: "device_grant \<Rightarrow> time \<Rightarrow> bool" where
  "grant_expired g t \<longleftrightarrow> \<not> t < gr_expires_at g"

definition ModelDeviceGrants :: string where "ModelDeviceGrants = ''device_grants''"

definition device_grant_model :: model where
  "device_grant_model =
     (fold add_field'
       [mk_field ''id'' TypeString True,
        mk_field ''client_id'' TypeString True,
        (mk_field ''device_code_hash'' TypeString True)\<lparr>f_unique := True\<rparr>,
        (mk_field ''user_code'' TypeString True)\<lparr>f_unique := True\<rparr>,
        mk_field ''status'' TypeString True,
        mk_field ''user_id'' TypeString False,
        mk_field ''scope'' TypeString False,
        mk_field ''metadata'' TypeJSON False,
        mk_field ''expires_at'' TypeTime True,
        mk_field ''last_polled_at'' TypeTime False,
        mk_field ''polling_interval'' TypeInt64 True,
        mk_field ''failed_attempts'' TypeInt64 True,
        mk_field ''authorized_at'' TypeTime False,
        mk_field ''consumed_at'' TypeTime False,
        mk_field ''created_at'' TypeTime True,
        mk_field ''updated_at'' TypeTime True]
       (new_model ModelDeviceGrants ModelDeviceGrants ''id''))
     \<lparr>m_indexes :=
       [\<lparr>idx_name = ''idx_device_code_hash'', idx_fields = [''device_code_hash''], idx_unique = True\<rparr>,
        \<lparr>idx_name = ''idx_device_user_code'', idx_fields = [''user_code''], idx_unique = True\<rparr>]\<rparr>"

definition device_register_schema :: "schema \<Rightarrow> err + schema" where
  "device_register_schema s = add_model s (Some device_grant_model)"

text \<open>A grant as \<open>encoding/json\<close> writes and reads it.\<close>

definition opt_time_json :: "string \<Rightarrow> time option \<Rightarrow> (string \<times> json) list" where
  "opt_time_json k p = (case p of None \<Rightarrow> [] | Some t \<Rightarrow> [(k, JTime t)])"

definition grant_encode :: "device_grant \<Rightarrow> err + (string \<times> json) list" where
  "grant_encode g =
     (if list_all json_time_ok ([gr_expires_at g, gr_created_at g, gr_updated_at g] @
           concat (map (\<lambda>p. case p of None \<Rightarrow> [] | Some t \<Rightarrow> [t])
             [gr_last_polled_at g, gr_authorized_at g, gr_consumed_at g]))
      then Inr
        ([(''id'', JStr (gr_id g)),
          (''client_id'', JStr (gr_client_id g)),
          (''device_code_hash'', JStr (gr_device_code_hash g)),
          (''user_code'', JStr (gr_user_code g)),
          (''status'', JStr (gr_status g))] @
         omit_empty (gr_user_id g = []) ''user_id'' (JStr (gr_user_id g)) @
         omit_empty (gr_scope g = []) ''scope'' (JStr (gr_scope g)) @
         omit_empty (gr_metadata g = []) ''metadata'' (JObj (map (\<lambda>(k, v). (k, JStr v)) (gr_metadata g))) @
         [(''expires_at'', JTime (gr_expires_at g))] @
         opt_time_json ''last_polled_at'' (gr_last_polled_at g) @
         [(''polling_interval'', JNum (gr_polling_interval g)),
          (''failed_attempts'', JNum (gr_failed_attempts g))] @
         opt_time_json ''authorized_at'' (gr_authorized_at g) @
         opt_time_json ''consumed_at'' (gr_consumed_at g) @
         [(''created_at'', JTime (gr_created_at g)),
          (''updated_at'', JTime (gr_updated_at g))])
      else Inl json_error)"

definition grant_decode :: "runtime \<Rightarrow> (string \<times> json) list \<Rightarrow> device_grant \<Rightarrow> err + device_grant" where
  "grant_decode rt o' g =
     and_then (str_into rt o' ''id'' (gr_id g)) (\<lambda>i.
     and_then (str_into rt o' ''client_id'' (gr_client_id g)) (\<lambda>cl.
     and_then (str_into rt o' ''device_code_hash'' (gr_device_code_hash g)) (\<lambda>h.
     and_then (str_into rt o' ''user_code'' (gr_user_code g)) (\<lambda>uc.
     and_then (str_into rt o' ''status'' (gr_status g)) (\<lambda>st.
     and_then (str_into rt o' ''user_id'' (gr_user_id g)) (\<lambda>ui.
     and_then (str_into rt o' ''scope'' (gr_scope g)) (\<lambda>sc.
     and_then (string_map_into rt o' ''metadata'' (gr_metadata g)) (\<lambda>md.
     and_then (time_into rt o' ''expires_at'' (gr_expires_at g)) (\<lambda>ex.
     and_then (opt_time_into rt o' ''last_polled_at'' (gr_last_polled_at g)) (\<lambda>lp.
     and_then (int_into o' ''polling_interval'' (gr_polling_interval g)) (\<lambda>pi.
     and_then (int_into o' ''failed_attempts'' (gr_failed_attempts g)) (\<lambda>fa.
     and_then (opt_time_into rt o' ''authorized_at'' (gr_authorized_at g)) (\<lambda>au.
     and_then (opt_time_into rt o' ''consumed_at'' (gr_consumed_at g)) (\<lambda>co.
     and_then (time_into rt o' ''created_at'' (gr_created_at g)) (\<lambda>cr.
     and_then (time_into rt o' ''updated_at'' (gr_updated_at g)) (\<lambda>up.
       Inr \<lparr>gr_id = i, gr_client_id = cl, gr_device_code_hash = h, gr_user_code = uc, gr_status = st,
            gr_user_id = ui, gr_scope = sc, gr_metadata = md, gr_expires_at = ex, gr_last_polled_at = lp,
            gr_polling_interval = pi, gr_failed_attempts = fa, gr_authorized_at = au, gr_consumed_at = co,
            gr_created_at = cr, gr_updated_at = up\<rparr>))))))))))))))))"

definition no_grant :: device_grant where
  "no_grant = \<lparr>gr_id = [], gr_client_id = [], gr_device_code_hash = [], gr_user_code = [], gr_status = [],
     gr_user_id = [], gr_scope = [], gr_metadata = [], gr_expires_at = 0, gr_last_polled_at = None,
     gr_polling_interval = 0, gr_failed_attempts = 0, gr_authorized_at = None, gr_consumed_at = None,
     gr_created_at = 0, gr_updated_at = 0\<rparr>"

definition grant_codec :: "runtime \<Rightarrow> device_grant codec" where
  "grant_codec rt =
     \<lparr>cd_fields = [''id'', ''client_id'', ''device_code_hash'', ''user_code'', ''status'', ''user_id'', ''scope'',
        ''metadata'', ''expires_at'', ''last_polled_at'', ''polling_interval'', ''failed_attempts'',
        ''authorized_at'', ''consumed_at'', ''created_at'', ''updated_at''],
      cd_zero = no_grant, cd_encode = grant_encode, cd_decode = grant_decode rt\<rparr>"

definition grant_repo :: "runtime \<Rightarrow> 's adapter \<Rightarrow> ('s, device_grant) repo" where
  "grant_repo rt ad =
     \<lparr>rp_adapter = Some ad, rp_model = ModelDeviceGrants, rp_codec = grant_codec rt, rp_rt = rt\<rparr>"

section \<open>Codes\<close>

definition user_code_charset :: string where
  "user_code_charset = ''BCDFGHJKLMNPQRSTVWXYZ23456789''"

definition hash_device_code :: "runtime \<Rightarrow> string \<Rightarrow> string" where
  "hash_device_code rt code = hex_encode (sha256 rt code)"

text \<open>\<open>rand.Read\<close> does not fail.\<close>

definition generate_device_code :: "('s, 'c) auth \<Rightarrow> ('s, 'c, string \<times> string) act" where
  "generate_device_code a = do {
     src \<leftarrow> draw a;
     let code = hex_encode (random_bytes src 32);
     State_Monad.return (code, hash_device_code (au_rt a) code)
   }"

definition user_code_of :: "byte list \<Rightarrow> string" where
  "user_code_of bs = concat (map (\<lambda>(i, b).
     (if i = 4 then ''-'' else []) @ [user_code_charset ! unat (b mod of_nat (length user_code_charset))])
     (enumerate 0 bs))"

definition generate_user_code :: "('s, 'c) auth \<Rightarrow> ('s, 'c, string) act" where
  "generate_user_code a = do {
     src \<leftarrow> draw a;
     State_Monad.return (user_code_of (random_bytes src 8))
   }"

definition normalize_user_code :: "string \<Rightarrow> string" where
  "normalize_user_code code =
     (let cleaned = replace_char (CHR '' '') [] (replace_char (CHR ''-'') [] (to_upper (trim_space code))) in
      if length cleaned = 8 then take 4 cleaned @ ''-'' @ drop 4 cleaned else cleaned)"

definition grant_id :: "('s, 'c) auth \<Rightarrow> ('s, 'c, string) act" where
  "grant_id a = do {
     src \<leftarrow> draw a;
     State_Monad.return (hex_encode (random_bytes src 16))
   }"

section \<open>Configuration\<close>

record device_config =
  dc_verification_uri :: string
  dc_verification_uri_complete :: string
  dc_expires_in :: duration
  dc_polling_interval :: duration
  dc_slow_down_increment :: duration
  dc_max_failed_attempts :: int
  dc_rate_limit_per_minute :: int

definition default_device_config :: device_config where
  "default_device_config =
     \<lparr>dc_verification_uri = ''https://example.com/device'', dc_verification_uri_complete = [],
      dc_expires_in = 10 * minute, dc_polling_interval = 5 * second, dc_slow_down_increment = 5 * second,
      dc_max_failed_attempts = 5, dc_rate_limit_per_minute = 10\<rparr>"

definition with_verification_uri :: "string \<Rightarrow> device_config \<Rightarrow> device_config" where
  "with_verification_uri u c = c\<lparr>dc_verification_uri := u\<rparr>"

definition with_verification_uri_complete :: "string \<Rightarrow> device_config \<Rightarrow> device_config" where
  "with_verification_uri_complete u c = c\<lparr>dc_verification_uri_complete := u\<rparr>"

definition with_expires_in :: "duration \<Rightarrow> device_config \<Rightarrow> device_config" where
  "with_expires_in d c = c\<lparr>dc_expires_in := d\<rparr>"

definition with_polling_interval :: "duration \<Rightarrow> device_config \<Rightarrow> device_config" where
  "with_polling_interval d c = c\<lparr>dc_polling_interval := d\<rparr>"

definition with_max_failed_attempts :: "int \<Rightarrow> device_config \<Rightarrow> device_config" where
  "with_max_failed_attempts n c = c\<lparr>dc_max_failed_attempts := n\<rparr>"

definition with_device_rate_limit :: "int \<Rightarrow> device_config \<Rightarrow> device_config" where
  "with_device_rate_limit n c = c\<lparr>dc_rate_limit_per_minute := n\<rparr>"

section \<open>The service\<close>

text \<open>
  What the service is built from: the engine, the adapter, the \<open>Counter\<close> of the shared cache when it
  has one, the configuration and the system clock, which only the limiter reads.
\<close>

record ('s, 'c) device_service =
  ds_auth :: "('s, 'c) auth"
  ds_adapter :: "'s adapter"
  ds_counter :: "'c counter option"
  ds_cfg :: device_config
  ds_wall :: "nat \<Rightarrow> time"

record start_input =
  si_client_id :: string
  si_scope :: string
  si_metadata :: "(string \<times> string) list"

record start_response =
  sa_device_code :: string
  sa_user_code :: string
  sa_verification_uri :: string
  sa_verification_uri_complete :: string
  sa_expires_in :: int
  sa_interval :: int

definition device_repo :: "('s, 'c) device_service \<Rightarrow> ('s, device_grant) repo" where
  "device_repo sv = grant_repo (au_rt (ds_auth sv)) (ds_adapter sv)"

definition EventDeviceAuthStarted :: string where "EventDeviceAuthStarted = ''deviceauth.started''"
definition EventDeviceAuthAuthorized :: string where "EventDeviceAuthAuthorized = ''deviceauth.authorized''"
definition EventDeviceAuthDenied :: string where "EventDeviceAuthDenied = ''deviceauth.denied''"
definition EventDeviceAuthConsumed :: string where "EventDeviceAuthConsumed = ''deviceauth.consumed''"

text \<open>
  One round of the retry loop: the codes it drew, and the result of storing the grant. \<open>start_loop n e\<close>
  is the loop with \<open>n\<close> rounds left, \<open>e\<close> the error of the round before.
\<close>

definition start_attempt ::
  "('s, 'c) device_service \<Rightarrow> start_input \<Rightarrow>
   ('s, 'c, (string \<times> string \<times> string) \<times> (err + device_grant)) act" where
  "start_attempt sv inp = do {
     let a = ds_auth sv;
     let c = ds_cfg sv;
     (code, h) \<leftarrow> generate_device_code a;
     uc \<leftarrow> generate_user_code a;
     t \<leftarrow> now a;
     let n = whole_seconds (dc_polling_interval c);
     i \<leftarrow> grant_id a;
     r \<leftarrow> on_db (repo_create (device_repo sv)
       \<lparr>gr_id = i, gr_client_id = si_client_id inp, gr_device_code_hash = h, gr_user_code = uc,
        gr_status = StatusPending, gr_user_id = [], gr_scope = si_scope inp, gr_metadata = si_metadata inp,
        gr_expires_at = t + dc_expires_in c, gr_last_polled_at = None,
        gr_polling_interval = (if n \<le> 0 then 5 else n), gr_failed_attempts = 0,
        gr_authorized_at = None, gr_consumed_at = None, gr_created_at = t, gr_updated_at = t\<rparr>);
     State_Monad.return ((code, h, uc), r)
   }"

fun start_loop ::
  "('s, 'c) device_service \<Rightarrow> start_input \<Rightarrow> nat \<Rightarrow> err \<Rightarrow> ('s, 'c, string \<times> string \<times> string) actE" where
  "start_loop sv inp 0 e = fail e"
| "start_loop sv inp (Suc n) e0 = do {
     (codes, r) \<leftarrow> start_attempt sv inp;
     case r of
       Inr _ \<Rightarrow> ok codes
     | Inl e \<Rightarrow> if e \<noteq> AdapterConflict then fail e else start_loop sv inp n e
   }"

definition complete_uri :: "device_config \<Rightarrow> string \<Rightarrow> string" where
  "complete_uri c uc =
     (if dc_verification_uri_complete c = [] \<and> dc_verification_uri c \<noteq> []
      then dc_verification_uri c @ (if CHR ''?'' \<in> set (dc_verification_uri c) then ''&'' else ''?'') @ ''user_code='' @ uc
      else dc_verification_uri_complete c)"

definition device_start ::
  "('s, 'c) device_service \<Rightarrow> ctx \<Rightarrow> start_input \<Rightarrow> ('s, 'c, start_response) actE" where
  "device_start sv cx inp =
     (if trim_space (si_client_id inp) = [] then fail ErrInvalidInput
      else bindE (start_loop sv inp 3 AdapterConflict) (\<lambda>(code, h, uc). do {
        let a = ds_auth sv;
        let c = ds_cfg sv;
        t1 \<leftarrow> now a;
        t2 \<leftarrow> now a;
        _ \<leftarrow> publish a cx EventDeviceAuthStarted (si_client_id inp) (PFields ''DeviceAuthStartedPayload''
          [(''grant_id'', FStr (take 12 h)), (''client_id'', FStr (si_client_id inp)), (''user_code'', FStr uc),
           (''expires_at'', FTime (t1 + dc_expires_in c)),
           (''polling_interval'', FInt (whole_seconds (dc_polling_interval c))), (''created_at'', FTime t2)]);
        ok \<lparr>sa_device_code = code, sa_user_code = uc, sa_verification_uri = dc_verification_uri c,
            sa_verification_uri_complete = complete_uri c uc,
            sa_expires_in = whole_seconds (dc_expires_in c), sa_interval = whole_seconds (dc_polling_interval c)\<rparr>
      }))"

section \<open>Polling\<close>

record poll_input =
  po_device_code :: string
  po_client_id :: string
  po_session :: session_options

record poll_response =
  pr_status :: string
  pr_user_id :: string
  pr_session :: session
  pr_token :: string

text \<open>
  The body of the transaction: an error undoes it; an answer that is an error for the device (\<open>Inl\<close>)
  commits it. \<open>poll_found\<close> is what is done with the grant that was found.
\<close>

definition poll_found ::
  "('s, 'c) device_service \<Rightarrow> poll_input \<Rightarrow> time \<Rightarrow> ctx \<Rightarrow> device_grant \<Rightarrow>
   ('s, 'c, err + (device_grant \<times> issued_session)) actE" where
  "poll_found sv inp t cx g =
     (let rp = device_repo sv in
     if gr_client_id g \<noteq> po_client_id inp then fail ErrInvalidGrant
     else if grant_expired g t then fail ErrExpiredToken
     else if gr_status g = StatusConsumed then fail ErrInvalidGrant
     else if gr_status g = StatusDenied then fail ErrAccessDenied
     else if gr_status g = StatusPending then
       (case gr_last_polled_at g of
          Some l \<Rightarrow>
            if time_sub t l < wrap64 (gr_polling_interval g * second) then do {
              _ \<leftarrow> on_db (repo_update rp [Eq ''id'' (VStr (gr_id g))]
                [''polling_interval'' \<mapsto> VInt (wrap64 (gr_polling_interval g + whole_seconds (dc_slow_down_increment (ds_cfg sv)))),
                 ''last_polled_at'' \<mapsto> VTimePtr (Some t), ''updated_at'' \<mapsto> VTime t]);
              ok (Inl ErrSlowDown)
            } else do {
              _ \<leftarrow> on_db (repo_update rp [Eq ''id'' (VStr (gr_id g))]
                [''last_polled_at'' \<mapsto> VTimePtr (Some t), ''updated_at'' \<mapsto> VTime t]);
              ok (Inl ErrAuthorizationPending)
            }
        | None \<Rightarrow> do {
            _ \<leftarrow> on_db (repo_update rp [Eq ''id'' (VStr (gr_id g))]
              [''last_polled_at'' \<mapsto> VTimePtr (Some t), ''updated_at'' \<mapsto> VTime t]);
            ok (Inl ErrAuthorizationPending)
          })
     else if gr_status g = StatusAuthorized then
       bindE (on_db (repo_update rp [Eq ''id'' (VStr (gr_id g))]
         [''status'' \<mapsto> VStr StatusConsumed, ''consumed_at'' \<mapsto> VTimePtr (Some t), ''updated_at'' \<mapsto> VTime t])) (\<lambda>_.
       bindE (create_session (ds_auth sv) cx (gr_user_id g) (po_session inp)) (\<lambda>iss.
       ok (Inr (g\<lparr>gr_status := StatusConsumed, gr_consumed_at := Some t, gr_updated_at := t\<rparr>, iss))))
     else fail ErrInvalidGrant)"

definition poll_tx ::
  "('s, 'c) device_service \<Rightarrow> poll_input \<Rightarrow> string \<Rightarrow> time \<Rightarrow> ctx \<Rightarrow>
   ('s, 'c, err + (device_grant \<times> issued_session)) actE" where
  "poll_tx sv inp h t cx = do {
     r \<leftarrow> on_db (repo_find_one (device_repo sv) [Eq ''device_code_hash'' (VStr h)]);
     case r of
       Inl e \<Rightarrow> fail (if e = AdapterNotFound then ErrInvalidGrant else e)
     | Inr g \<Rightarrow> poll_found sv inp t cx g
   }"

definition device_poll ::
  "('s, 'c) device_service \<Rightarrow> ctx \<Rightarrow> poll_input \<Rightarrow> ('s, 'c, poll_response) actE" where
  "device_poll sv cx inp =
     (if po_device_code inp = [] \<or> po_client_id inp = [] then fail ErrInvalidInput
      else do {
        let a = ds_auth sv;
        let h = hash_device_code (au_rt a) (po_device_code inp);
        t \<leftarrow> now a;
        bindE (adapter_transaction (ds_adapter sv) cx (poll_tx sv inp h t)) (\<lambda>r.
        case r of
          Inl e \<Rightarrow> fail e
        | Inr (g, iss) \<Rightarrow> do {
            _ \<leftarrow> publish a cx EventDeviceAuthConsumed (gr_user_id g) (PFields ''DeviceAuthConsumedPayload''
              [(''grant_id'', FStr (gr_id g)), (''client_id'', FStr (gr_client_id g)),
               (''user_id'', FStr (gr_user_id g)), (''consumed_at'', FTime t)]);
            ok \<lparr>pr_status = StatusConsumed, pr_user_id = gr_user_id g, pr_session = iss_session iss,
                pr_token = iss_token iss\<rparr>
          })
      })"

section \<open>The user's side\<close>

record authorize_input =
  az_user_code :: string
  az_principal :: principal
  az_scope :: string

definition status_error :: "device_grant \<Rightarrow> err option" where
  "status_error g =
     (if gr_status g = StatusAuthorized then Some ErrAlreadyAuthorized
      else if gr_status g = StatusDenied then Some ErrAlreadyDenied
      else if gr_status g = StatusConsumed then Some ErrAlreadyConsumed
      else None)"

definition authorize_found ::
  "('s, 'c) device_service \<Rightarrow> authorize_input \<Rightarrow> time \<Rightarrow> device_grant \<Rightarrow> ('s, 'c, device_grant) actE" where
  "authorize_found sv inp t g =
     (if gr_failed_attempts g \<ge> dc_max_failed_attempts (ds_cfg sv) then fail ErrMaxAttemptsExceeded
     else if grant_expired g t then fail ErrExpiredToken
     else (case status_error g of
       Some e \<Rightarrow> fail e
     | None \<Rightarrow>
         let g' = g\<lparr>gr_status := StatusAuthorized, gr_user_id := pr_subject (az_principal inp),
                    gr_scope := (if az_scope inp \<noteq> [] then az_scope inp else gr_scope g),
                    gr_authorized_at := Some t, gr_updated_at := t\<rparr> in
         bindE (on_db (repo_update (device_repo sv) [Eq ''id'' (VStr (gr_id g))]
           [''status'' \<mapsto> VStr StatusAuthorized, ''user_id'' \<mapsto> VStr (gr_user_id g'),
            ''scope'' \<mapsto> VStr (gr_scope g'), ''authorized_at'' \<mapsto> VTimePtr (Some t),
            ''updated_at'' \<mapsto> VTime t])) (\<lambda>_. ok g')))"

definition authorize_tx ::
  "('s, 'c) device_service \<Rightarrow> authorize_input \<Rightarrow> string \<Rightarrow> time \<Rightarrow> ctx \<Rightarrow> ('s, 'c, device_grant) actE" where
  "authorize_tx sv inp uc t cx = do {
     r \<leftarrow> on_db (repo_find_one (device_repo sv) [Eq ''user_code'' (VStr uc)]);
     case r of
       Inl e \<Rightarrow> fail (if e = AdapterNotFound then ErrInvalidUserCode else e)
     | Inr g \<Rightarrow> authorize_found sv inp t g
   }"

definition device_authorize ::
  "('s, 'c) device_service \<Rightarrow> ctx \<Rightarrow> authorize_input \<Rightarrow> ('s, 'c, unit) actE" where
  "device_authorize sv cx inp =
     (let uc = normalize_user_code (az_user_code inp) in
      if uc = [] \<or> pr_subject (az_principal inp) = [] then fail ErrInvalidInput
      else do {
        let a = ds_auth sv;
        t \<leftarrow> now a;
        bindE (adapter_transaction (ds_adapter sv) cx (authorize_tx sv inp uc t)) (\<lambda>g. do {
        _ \<leftarrow> publish a cx EventDeviceAuthAuthorized (pr_subject (az_principal inp)) (PFields ''DeviceAuthAuthorizedPayload''
          [(''grant_id'', FStr (gr_id g)), (''client_id'', FStr (gr_client_id g)), (''user_code'', FStr uc),
           (''user_id'', FStr (pr_subject (az_principal inp))), (''authorized_at'', FTime t)]);
        ok ()
        })
      })"

record deny_input =
  dn_user_code :: string
  dn_principal :: principal

definition deny_found ::
  "('s, 'c) device_service \<Rightarrow> time \<Rightarrow> device_grant \<Rightarrow> ('s, 'c, device_grant) actE" where
  "deny_found sv t g =
     (if grant_expired g t then fail ErrExpiredToken
     else (case status_error g of
       Some e \<Rightarrow> fail e
     | None \<Rightarrow>
         bindE (on_db (repo_update (device_repo sv) [Eq ''id'' (VStr (gr_id g))]
           [''status'' \<mapsto> VStr StatusDenied, ''updated_at'' \<mapsto> VTime t])) (\<lambda>_.
         ok (g\<lparr>gr_status := StatusDenied, gr_updated_at := t\<rparr>))))"

definition deny_tx ::
  "('s, 'c) device_service \<Rightarrow> string \<Rightarrow> time \<Rightarrow> ctx \<Rightarrow> ('s, 'c, device_grant) actE" where
  "deny_tx sv uc t cx = do {
     r \<leftarrow> on_db (repo_find_one (device_repo sv) [Eq ''user_code'' (VStr uc)]);
     case r of
       Inl e \<Rightarrow> fail (if e = AdapterNotFound then ErrInvalidUserCode else e)
     | Inr g \<Rightarrow> deny_found sv t g
   }"

definition device_deny :: "('s, 'c) device_service \<Rightarrow> ctx \<Rightarrow> deny_input \<Rightarrow> ('s, 'c, unit) actE" where
  "device_deny sv cx inp =
     (let uc = normalize_user_code (dn_user_code inp) in
      if uc = [] then fail ErrInvalidInput
      else do {
        let a = ds_auth sv;
        t \<leftarrow> now a;
        bindE (adapter_transaction (ds_adapter sv) cx (deny_tx sv uc t)) (\<lambda>g. do {
        _ \<leftarrow> publish a cx EventDeviceAuthDenied (pr_subject (dn_principal inp)) (PFields ''DeviceAuthDeniedPayload''
          [(''grant_id'', FStr (gr_id g)), (''client_id'', FStr (gr_client_id g)), (''user_code'', FStr uc),
           (''denied_at'', FTime t)]);
        ok ()
        })
      })"

section \<open>Entering a code\<close>

text \<open>The state of the limiter in memory: the count and the end of the window of each key.\<close>

record ('s, 'c) device_state =
  dv_world :: "('s, 'c) world"
  dv_limits :: "string \<rightharpoonup> int \<times> time"
  dv_ticks :: nat

type_synonym ('s, 'c, 'a) dev_act = "(('s, 'c) device_state, 'a) state"

definition dev_world :: "('s, 'c, 'a) act \<Rightarrow> ('s, 'c, 'a) dev_act" where
  "dev_world m = zoom dv_world (\<lambda>w s. s\<lparr>dv_world := w\<rparr>) m"

definition dev_wall :: "('s, 'c) device_service \<Rightarrow> ('s, 'c, time) dev_act" where
  "dev_wall sv = State (\<lambda>s. (ds_wall sv (dv_ticks s), s\<lparr>dv_ticks := Suc (dv_ticks s)\<rparr>))"

definition limit_hit :: "string \<Rightarrow> int \<Rightarrow> duration \<Rightarrow> time \<Rightarrow> ('s, 'c, bool) dev_act" where
  "limit_hit k limit window t = State (\<lambda>s.
     case dv_limits s k of
       None \<Rightarrow> (True, s\<lparr>dv_limits := (dv_limits s)(k \<mapsto> (1, t + window))\<rparr>)
     | Some (n, ends) \<Rightarrow>
         if ends < t then (True, s\<lparr>dv_limits := (dv_limits s)(k \<mapsto> (1, t + window))\<rparr>)
         else (wrap64 (n + 1) \<le> limit, s\<lparr>dv_limits := (dv_limits s)(k \<mapsto> (wrap64 (n + 1), ends))\<rparr>))"

definition device_allow ::
  "('s, 'c) device_service \<Rightarrow> ctx \<Rightarrow> string \<Rightarrow> int \<Rightarrow> duration \<Rightarrow> ('s, 'c, bool) dev_act" where
  "device_allow sv cx key limit window =
     (let k = cache_key [''deviceauth'', ''ratelimit'', key] in
      case ds_counter sv of
        Some ctr \<Rightarrow> do {
          r \<leftarrow> dev_world (on_cache (ctr cx k 1 window));
          State_Monad.return (case r of Inl _ \<Rightarrow> True | Inr v \<Rightarrow> sint v \<le> limit)
        }
      | None \<Rightarrow> do {
          t \<leftarrow> dev_wall sv;
          limit_hit k limit window t
        })"

record verify_input =
  vi_user_code :: string
  vi_client_ip :: string

record verify_result =
  vr_grant_id :: string
  vr_client_id :: string
  vr_user_code :: string
  vr_scope :: string
  vr_metadata :: "(string \<times> string) list"
  vr_expires_at :: time

definition lookup_user_code ::
  "('s, 'c) device_service \<Rightarrow> string \<Rightarrow> ('s, 'c, verify_result) actE" where
  "lookup_user_code sv uc = do {
     r \<leftarrow> on_db (repo_find_one (device_repo sv) [Eq ''user_code'' (VStr uc)]);
     case r of
       Inl e \<Rightarrow> fail (if e = AdapterNotFound then ErrInvalidUserCode else e)
     | Inr g \<Rightarrow>
         if gr_failed_attempts g \<ge> dc_max_failed_attempts (ds_cfg sv) then fail ErrMaxAttemptsExceeded
         else do {
           t \<leftarrow> now (ds_auth sv);
           if grant_expired g t then fail ErrExpiredToken
           else if gr_status g = StatusConsumed then fail ErrAlreadyConsumed
           else if gr_status g = StatusDenied then fail ErrAlreadyDenied
           else if gr_status g = StatusAuthorized then fail ErrAlreadyAuthorized
           else ok \<lparr>vr_grant_id = gr_id g, vr_client_id = gr_client_id g, vr_user_code = gr_user_code g,
                    vr_scope = gr_scope g, vr_metadata = gr_metadata g, vr_expires_at = gr_expires_at g\<rparr>
         }
   }"

definition verify_user_code ::
  "('s, 'c) device_service \<Rightarrow> ctx \<Rightarrow> verify_input \<Rightarrow> ('s, 'c, err + verify_result) dev_act" where
  "verify_user_code sv cx inp =
     (let uc = normalize_user_code (vi_user_code inp) in
      if uc = [] then fail ErrInvalidUserCode
      else do {
        b \<leftarrow> (if vi_client_ip inp \<noteq> []
              then device_allow sv cx (''verify:'' @ vi_client_ip inp) (dc_rate_limit_per_minute (ds_cfg sv)) (1 * minute)
              else State_Monad.return True);
        if \<not> b then fail ErrRateLimited
        else dev_world (lookup_user_code sv uc)
      })"

end
