(* ===== verification/Device_Rows.thy ===== *)
theory Device_Rows
  imports Sdk_Correct Device_Authorization
begin

text \<open>
  Which row stands for which device grant: what is written for a grant stands for it, and what stands for
  it is read as it.
\<close>

section \<open>Rows of grants\<close>

definition grant_rep :: "runtime \<Rightarrow> (string \<Rightarrow> bool) \<Rightarrow> device_grant \<Rightarrow> row \<Rightarrow> bool" where
  "grant_rep rt plain g r \<longleftrightarrow> time_text rt \<and>
     r ''id'' = Some (VStr (gr_id g)) \<and> plain (gr_id g) \<and>
     r ''device_code_hash'' = Some (VStr (gr_device_code_hash g)) \<and> plain (gr_device_code_hash g) \<and>
     r ''user_code'' = Some (VStr (gr_user_code g)) \<and> plain (gr_user_code g) \<and>
     str_rep (r ''client_id'') (gr_client_id g) \<and>
     str_rep (r ''status'') (gr_status g) \<and>
     str_rep (r ''user_id'') (gr_user_id g) \<and>
     str_rep (r ''scope'') (gr_scope g) \<and>
     string_map_rep (r ''metadata'') (gr_metadata g) \<and>
     time_rep rt (r ''expires_at'') (gr_expires_at g) \<and>
     opt_time_rep rt (r ''last_polled_at'') (gr_last_polled_at g) \<and>
     int_rep (r ''polling_interval'') (gr_polling_interval g) \<and>
     int_rep (r ''failed_attempts'') (gr_failed_attempts g) \<and>
     opt_time_rep rt (r ''authorized_at'') (gr_authorized_at g) \<and>
     opt_time_rep rt (r ''consumed_at'') (gr_consumed_at g) \<and>
     time_rep rt (r ''created_at'') (gr_created_at g) \<and>
     time_rep rt (r ''updated_at'') (gr_updated_at g)"

definition opt_time_ok :: "time option \<Rightarrow> bool" where
  "opt_time_ok p \<longleftrightarrow> (case p of None \<Rightarrow> True | Some t \<Rightarrow> json_time_ok t)"

text \<open>A grant the service can write: its strings, its metadata and its numbers survive JSON.\<close>

definition grant_okay :: "(string \<Rightarrow> bool) \<Rightarrow> device_grant \<Rightarrow> bool" where
  "grant_okay plain g \<longleftrightarrow>
     plain (gr_id g) \<and> plain (gr_device_code_hash g) \<and> plain (gr_user_code g) \<and>
     distinct (map fst (gr_metadata g)) \<and>
     json_time_ok (gr_expires_at g) \<and> json_time_ok (gr_created_at g) \<and> json_time_ok (gr_updated_at g) \<and>
     opt_time_ok (gr_last_polled_at g) \<and> opt_time_ok (gr_authorized_at g) \<and> opt_time_ok (gr_consumed_at g) \<and>
     \<bar>gr_polling_interval g\<bar> < 2 ^ 53 \<and> \<bar>gr_failed_attempts g\<bar> < 2 ^ 53"

lemma cd_simps [simp]:
  "rp_codec (grant_repo rt ad) = grant_codec rt" "rp_adapter (grant_repo rt ad) = Some ad"
  "rp_model (grant_repo rt ad) = ModelDeviceGrants" "rp_rt (grant_repo rt ad) = rt"
  "cd_zero (grant_codec rt) = no_grant" "cd_encode (grant_codec rt) = grant_encode"
  "cd_decode (grant_codec rt) = grant_decode rt"
  by (simp_all add: grant_repo_def grant_codec_def)

lemma from_map_grant:
  assumes rep: "grant_rep rt plain g r" and old: "old = no_grant \<or> old = g"
  shows "from_map (grant_repo rt ad) r old = Inr g"
proof -
  have tt: "time_text rt" using rep by (simp add: grant_rep_def)
  have c: "str_rep (r ''id'') (gr_id g)"
    "str_rep (r ''client_id'') (gr_client_id g)"
    "str_rep (r ''device_code_hash'') (gr_device_code_hash g)"
    "str_rep (r ''user_code'') (gr_user_code g)"
    "str_rep (r ''status'') (gr_status g)"
    "str_rep (r ''user_id'') (gr_user_id g)"
    "str_rep (r ''scope'') (gr_scope g)"
    "string_map_rep (r ''metadata'') (gr_metadata g)"
    "time_rep rt (r ''expires_at'') (gr_expires_at g)"
    "opt_time_rep rt (r ''last_polled_at'') (gr_last_polled_at g)"
    "int_rep (r ''polling_interval'') (gr_polling_interval g)"
    "int_rep (r ''failed_attempts'') (gr_failed_attempts g)"
    "opt_time_rep rt (r ''authorized_at'') (gr_authorized_at g)"
    "opt_time_rep rt (r ''consumed_at'') (gr_consumed_at g)"
    "time_rep rt (r ''created_at'') (gr_created_at g)"
    "time_rep rt (r ''updated_at'') (gr_updated_at g)"
    using rep by (simp_all add: grant_rep_def str_rep_def)
  note encs = encodable_reps(1) [OF c(1)] encodable_reps(1) [OF c(2)] encodable_reps(1) [OF c(3)]
    encodable_reps(1) [OF c(4)] encodable_reps(1) [OF c(5)] encodable_reps(1) [OF c(6)]
    encodable_reps(1) [OF c(7)] encodable_reps(5) [OF c(8)] encodable_reps(2) [OF c(9)]
    encodable_reps(3) [OF c(10)] encodable_reps(4) [OF c(11)] encodable_reps(4) [OF c(12)]
    encodable_reps(3) [OF c(13)] encodable_reps(3) [OF c(14)] encodable_reps(2) [OF c(15)]
    encodable_reps(2) [OF c(16)]
  have enc: "encodable (r f)" if "f \<in> set (cd_fields (grant_codec rt))" for f
    using that encs by (auto simp: grant_codec_def)
  have dist: "distinct (cd_fields (grant_codec rt))" by (simp add: grant_codec_def)
  obtain o' where o': "row_object (cd_fields (grant_codec rt)) r = Inr o'"
    and mem: "\<And>f. f \<in> set (cd_fields (grant_codec rt)) \<Longrightarrow> map_of o' f = member_of (r f)"
  proof (rule row_object_members [of "cd_fields (grant_codec rt)" r])
    show "encodable (r f)" if "f \<in> set (cd_fields (grant_codec rt))" for f by (rule enc [OF that])
  qed (rule dist, blast)
  have m: "map_of o' ''id'' = member_of (r ''id'')" "map_of o' ''client_id'' = member_of (r ''client_id'')"
    "map_of o' ''device_code_hash'' = member_of (r ''device_code_hash'')"
    "map_of o' ''user_code'' = member_of (r ''user_code'')" "map_of o' ''status'' = member_of (r ''status'')"
    "map_of o' ''user_id'' = member_of (r ''user_id'')" "map_of o' ''scope'' = member_of (r ''scope'')"
    "map_of o' ''metadata'' = member_of (r ''metadata'')" "map_of o' ''expires_at'' = member_of (r ''expires_at'')"
    "map_of o' ''last_polled_at'' = member_of (r ''last_polled_at'')"
    "map_of o' ''polling_interval'' = member_of (r ''polling_interval'')"
    "map_of o' ''failed_attempts'' = member_of (r ''failed_attempts'')"
    "map_of o' ''authorized_at'' = member_of (r ''authorized_at'')"
    "map_of o' ''consumed_at'' = member_of (r ''consumed_at'')"
    "map_of o' ''created_at'' = member_of (r ''created_at'')" "map_of o' ''updated_at'' = member_of (r ''updated_at'')"
    by (rule mem; simp add: grant_codec_def)+
  have zs: "gr_id old = [] \<or> gr_id old = gr_id g" "gr_client_id old = [] \<or> gr_client_id old = gr_client_id g"
    "gr_device_code_hash old = [] \<or> gr_device_code_hash old = gr_device_code_hash g"
    "gr_user_code old = [] \<or> gr_user_code old = gr_user_code g" "gr_status old = [] \<or> gr_status old = gr_status g"
    "gr_user_id old = [] \<or> gr_user_id old = gr_user_id g" "gr_scope old = [] \<or> gr_scope old = gr_scope g"
    "gr_metadata old = [] \<or> gr_metadata old = gr_metadata g"
    "gr_last_polled_at old = None \<or> gr_last_polled_at old = gr_last_polled_at g"
    "gr_authorized_at old = None \<or> gr_authorized_at old = gr_authorized_at g"
    "gr_consumed_at old = None \<or> gr_consumed_at old = gr_consumed_at g"
    using old by (auto simp: no_grant_def)
  note rd = str_into_rep [OF c(1) m(1) zs(1)] str_into_rep [OF c(2) m(2) zs(2)]
    str_into_rep [OF c(3) m(3) zs(3)] str_into_rep [OF c(4) m(4) zs(4)] str_into_rep [OF c(5) m(5) zs(5)]
    str_into_rep [OF c(6) m(6) zs(6)] str_into_rep [OF c(7) m(7) zs(7)]
    string_map_into_rep [OF c(8) m(8) zs(8)] time_into_rep [OF c(9) tt m(9)]
    opt_time_into_rep [OF c(10) tt m(10) zs(9)] int_into_rep [OF c(11) m(11)] int_into_rep [OF c(12) m(12)]
    opt_time_into_rep [OF c(13) tt m(13) zs(10)] opt_time_into_rep [OF c(14) tt m(14) zs(11)]
    time_into_rep [OF c(15) tt m(15)] time_into_rep [OF c(16) tt m(16)]
  have "grant_decode rt o' old = Inr g"
    by (simp only: grant_decode_def rd and_then_simps) simp
  then show ?thesis using o' by (simp add: from_map_def)
qed

lemma map_of_opt_time [simp]:
  "map_of (map (\<lambda>(k, j). (k, f j)) (opt_time_json k p)) x = (if x = k then map_option (\<lambda>t. f (JTime t)) p else None)"
  by (cases p) (auto simp: opt_time_json_def)

lemma to_map_grant:
  assumes ok: "grant_okay plain g" "time_text rt" and rt: "rp_rt rp = rt" "rp_codec rp = grant_codec rt"
  shows "\<exists>r. to_map rp g = Inr r \<and> grant_rep rt plain g r"
proof -
  have times: "list_all json_time_ok ([gr_expires_at g, gr_created_at g, gr_updated_at g] @
      concat (map (\<lambda>p. case p of None \<Rightarrow> [] | Some t \<Rightarrow> [t]) [gr_last_polled_at g, gr_authorized_at g, gr_consumed_at g]))"
    using ok by (auto simp: grant_okay_def opt_time_ok_def split: option.splits)
  then obtain ms where ms: "grant_encode g = Inr ms" by (simp add: grant_encode_def)
  define r where "r = map_of (map (\<lambda>(k, j). (k, json_value rt j)) ms)"
  have r: "to_map rp g = Inr r" by (simp add: to_map_def rt ms r_def)
  note look = r_def ms [symmetric, unfolded grant_encode_def if_P [OF times] sum.inject]
  have "r ''id'' = Some (VStr (gr_id g))" "r ''client_id'' = Some (VStr (gr_client_id g))"
    "r ''device_code_hash'' = Some (VStr (gr_device_code_hash g))"
    "r ''user_code'' = Some (VStr (gr_user_code g))" "r ''status'' = Some (VStr (gr_status g))"
    "r ''user_id'' = (if gr_user_id g = [] then None else Some (VStr (gr_user_id g)))"
    "r ''scope'' = (if gr_scope g = [] then None else Some (VStr (gr_scope g)))"
    "r ''expires_at'' = Some (VStr (format_time rt (gr_expires_at g)))"
    "r ''polling_interval'' = Some (VFloat (f64_of_int (gr_polling_interval g)) 1)"
    "r ''failed_attempts'' = Some (VFloat (f64_of_int (gr_failed_attempts g)) 1)"
    "r ''created_at'' = Some (VStr (format_time rt (gr_created_at g)))"
    "r ''updated_at'' = Some (VStr (format_time rt (gr_updated_at g)))"
    by (simp_all add: look map_add_def)
  moreover have "r ''metadata'' = (if gr_metadata g = [] then None
       else Some (VMap (map (\<lambda>(k, x). (k, VStr x)) (gr_metadata g))))"
    by (auto simp add: look map_add_def)
  moreover have "r ''last_polled_at'' = map_option (\<lambda>t. VStr (format_time rt t)) (gr_last_polled_at g)"
    by (cases "gr_last_polled_at g") (simp_all add: look map_add_def)
  moreover have "r ''authorized_at'' = map_option (\<lambda>t. VStr (format_time rt t)) (gr_authorized_at g)"
    by (cases "gr_authorized_at g") (simp_all add: look map_add_def)
  moreover have "r ''consumed_at'' = map_option (\<lambda>t. VStr (format_time rt t)) (gr_consumed_at g)"
    by (cases "gr_consumed_at g") (simp_all add: look map_add_def)
  ultimately have "grant_rep rt plain g r"
    using ok f64_small [of "gr_polling_interval g"] f64_small [of "gr_failed_attempts g"]
    unfolding grant_rep_def grant_okay_def
    by (intro conjI) (auto simp: rep_defs opt_time_ok_def split: option.splits)
  with r show ?thesis by blast
qed

end
