(* ===== verification/Device_Correct.thy ===== *)
theory Device_Correct
  imports Device_Rows
begin

text \<open>
  The service of device authorization on an adapter that keeps \<open>model_contract\<close> for the model of
  grants: each operation as a function of one grant, and that the service does that to the grants.
\<close>

section \<open>What the operations do to the grants\<close>

text \<open>
  The operations as functions of one grant: the answer and the grant that replaces it. \<open>poll_grants\<close> and
  the others say which grant of a multiset is answered for.
\<close>

definition swap :: "'a \<Rightarrow> 'a \<Rightarrow> 'a multiset \<Rightarrow> 'a multiset" where
  "swap g g' M = add_mset g' (M - {#g#})"

definition polled_too_soon :: "time \<Rightarrow> device_grant \<Rightarrow> bool" where
  "polled_too_soon t g \<longleftrightarrow> (case gr_last_polled_at g of
     None \<Rightarrow> False | Some l \<Rightarrow> time_sub t l < wrap64 (gr_polling_interval g * second))"

definition poll_effect :: "device_config \<Rightarrow> string \<Rightarrow> time \<Rightarrow> device_grant \<Rightarrow> (err + unit) \<times> device_grant" where
  "poll_effect c cl t g =
     (if gr_client_id g \<noteq> cl then (Inl ErrInvalidGrant, g)
      else if grant_expired g t then (Inl ErrExpiredToken, g)
      else if gr_status g = StatusConsumed then (Inl ErrInvalidGrant, g)
      else if gr_status g = StatusDenied then (Inl ErrAccessDenied, g)
      else if gr_status g = StatusPending then
        (if polled_too_soon t g
         then (Inl ErrSlowDown, g\<lparr>gr_polling_interval :=
             wrap64 (gr_polling_interval g + whole_seconds (dc_slow_down_increment c)),
           gr_last_polled_at := Some t, gr_updated_at := t\<rparr>)
         else (Inl ErrAuthorizationPending, g\<lparr>gr_last_polled_at := Some t, gr_updated_at := t\<rparr>))
      else if gr_status g = StatusAuthorized then
        (Inr (), g\<lparr>gr_status := StatusConsumed, gr_consumed_at := Some t, gr_updated_at := t\<rparr>)
      else (Inl ErrInvalidGrant, g))"

definition poll_grants ::
  "device_config \<Rightarrow> string \<Rightarrow> string \<Rightarrow> time \<Rightarrow> device_grant multiset \<Rightarrow> err + string \<Rightarrow> device_grant multiset \<Rightarrow> bool" where
  "poll_grants c h cl t M r M' \<longleftrightarrow>
     (\<forall>g \<in># M. gr_device_code_hash g \<noteq> h) \<and> r = Inl ErrInvalidGrant \<and> M' = M \<or>
     (\<exists>g \<in># M. gr_device_code_hash g = h \<and>
       (case poll_effect c cl t g of
          (Inl e, g') \<Rightarrow> r = Inl e \<and> M' = swap g g' M
        | (Inr _, g') \<Rightarrow> (case r of Inl _ \<Rightarrow> M' = M | Inr u \<Rightarrow> u = gr_user_id g \<and> M' = swap g g' M)))"

definition authorize_effect ::
  "device_config \<Rightarrow> authorize_input \<Rightarrow> time \<Rightarrow> device_grant \<Rightarrow> (err + unit) \<times> device_grant" where
  "authorize_effect c inp t g =
     (if gr_failed_attempts g \<ge> dc_max_failed_attempts c then (Inl ErrMaxAttemptsExceeded, g)
      else if grant_expired g t then (Inl ErrExpiredToken, g)
      else (case status_error g of
          Some e \<Rightarrow> (Inl e, g)
        | None \<Rightarrow> (Inr (), g\<lparr>gr_status := StatusAuthorized, gr_user_id := pr_subject (az_principal inp),
            gr_scope := (if az_scope inp \<noteq> [] then az_scope inp else gr_scope g),
            gr_authorized_at := Some t, gr_updated_at := t\<rparr>)))"

definition deny_effect :: "time \<Rightarrow> device_grant \<Rightarrow> (err + unit) \<times> device_grant" where
  "deny_effect t g =
     (if grant_expired g t then (Inl ErrExpiredToken, g)
      else (case status_error g of
          Some e \<Rightarrow> (Inl e, g)
        | None \<Rightarrow> (Inr (), g\<lparr>gr_status := StatusDenied, gr_updated_at := t\<rparr>)))"

text \<open>Authorizing and denying find the grant by its user code.\<close>

definition user_grants ::
  "(device_grant \<Rightarrow> (err + unit) \<times> device_grant) \<Rightarrow> string \<Rightarrow> device_grant multiset \<Rightarrow> err + unit \<Rightarrow>
   device_grant multiset \<Rightarrow> bool" where
  "user_grants f uc M r M' \<longleftrightarrow>
     (\<forall>g \<in># M. gr_user_code g \<noteq> uc) \<and> r = Inl ErrInvalidUserCode \<and> M' = M \<or>
     (\<exists>g \<in># M. gr_user_code g = uc \<and> r = fst (f g) \<and> M' = swap g (snd (f g)) M)"

lemma swap_same [simp]: "g \<in># M \<Longrightarrow> swap g g M = M"
  by (simp add: swap_def)

lemma upd_where_swap:
  assumes "uniq sel M" "g \<in># M"
  shows "upd_where (\<lambda>e. sel e = sel g) f M = swap g (f g) M"
proof -
  obtain N where N: "M = add_mset g N" using assms(2) by (metis mset_add)
  have "sel x \<noteq> sel g" if "x \<in># N" for x
  proof
    assume "sel x = sel g"
    with that N have "size {#y \<in># M. sel y = sel g#} \<ge> 2"
      by (auto simp: multi_member_split dest!: multi_member_split)
    with assms(1) show False by (auto simp: uniq_def dest: spec [of _ "sel g"])
  qed
  then have "image_mset (\<lambda>x. if sel x = sel g then f x else x) N = image_mset id N"
    by (intro image_mset_cong) auto
  with N show ?thesis by (simp add: upd_where_def swap_def)
qed

lemma uniq_swap:
  assumes "uniq sel M" "g \<in># M" "sel g' = sel g"
  shows "uniq sel (swap g g' M)"
proof -
  obtain N where N: "M = add_mset g N" using assms(2) by (metis mset_add)
  have "size {#x \<in># add_mset g' N. sel x = k#} = size {#x \<in># add_mset g N. sel x = k#}" for k
    using assms(3) by simp
  with assms(1) N show ?thesis by (simp add: uniq_def swap_def)
qed

text \<open>A grant as \<open>Start\<close> makes it.\<close>

definition started :: "device_config \<Rightarrow> start_input \<Rightarrow> string \<Rightarrow> string \<Rightarrow> device_grant \<Rightarrow> bool" where
  "started c inp h uc g \<longleftrightarrow>
     gr_device_code_hash g = h \<and> gr_user_code g = uc \<and> gr_client_id g = si_client_id inp \<and>
     gr_scope g = si_scope inp \<and> gr_metadata g = si_metadata inp \<and>
     gr_status g = StatusPending \<and> gr_user_id g = [] \<and> gr_failed_attempts g = 0 \<and>
     gr_last_polled_at g = None \<and> 0 < gr_polling_interval g \<and>
     gr_expires_at g = gr_created_at g + dc_expires_in c"

lemma user_code_char:
  fixes b :: byte
  shows "user_code_charset ! unat (b mod of_nat (length user_code_charset)) \<in> set user_code_charset"
proof (rule nth_mem)
  have "unat (b mod of_nat (length user_code_charset)) = unat b mod length user_code_charset"
    by (simp add: unat_mod user_code_charset_def)
  then show "unat (b mod of_nat (length user_code_charset)) < length user_code_charset"
    by (simp add: user_code_charset_def)
qed

lemma set_user_code: "set (user_code_of bs) \<subseteq> insert (CHR ''-'') (set user_code_charset)"
  using user_code_char by (auto simp: user_code_of_def split: if_splits)

lemma user_code_colon: "CHR '':'' \<notin> set (user_code_of bs)"
  using set_user_code [of bs] by (auto simp: user_code_charset_def)

section \<open>The service\<close>

definition grant_unique :: "string list list" where
  "grant_unique = [[''id''], [''device_code_hash''], [''user_code'']]"

definition grants_ok :: "device_grant multiset \<Rightarrow> bool" where
  "grants_ok M \<longleftrightarrow> uniq gr_id M \<and> uniq gr_device_code_hash M \<and> uniq gr_user_code M"

lemma grants_ok_swap:
  "grants_ok M \<Longrightarrow> g \<in># M \<Longrightarrow> gr_id g' = gr_id g \<Longrightarrow> gr_device_code_hash g' = gr_device_code_hash g \<Longrightarrow>
   gr_user_code g' = gr_user_code g \<Longrightarrow> grants_ok (swap g g' M)"
  by (simp add: grants_ok_def uniq_swap)

text \<open>
  The laws the service relies on: an adapter that answers, and an engine that leaves the table of grants
  alone. What concerns the runtime, the clock and the configuration is \<open>device_ready\<close>: instants are
  written as texts that are read back, the readings of the clock and the expiry can be written, and
  the interval is a number \<open>float64\<close> holds.
\<close>

definition device_ready :: "('s, 'c) device_service \<Rightarrow> bool" where
  "device_ready sv \<longleftrightarrow> time_text (au_rt (ds_auth sv)) \<and>
     (\<forall>n. json_time_ok (au_now (ds_auth sv) n)) \<and>
     (\<forall>n. json_time_ok (au_now (ds_auth sv) n + dc_expires_in (ds_cfg sv))) \<and>
     \<bar>whole_seconds (dc_polling_interval (ds_cfg sv))\<bar> < 2 ^ 53"

locale device = model_contract ad inv tbl sat plain ModelDeviceGrants grant_unique
  for ad :: "'s adapter" and inv tbl sat plain +
  fixes sv :: "('s, 'c) device_service"
  assumes adapter: "ds_adapter sv = ad"
    and plain: "CHR '':'' \<notin> set x \<Longrightarrow> plain x"
    and total: "run_state (ad_find_one ad ModelDeviceGrants cs) s = (Inl e, s') \<Longrightarrow> e = AdapterNotFound"
      "run_state (ad_update ad ModelDeviceGrants cs u) s \<noteq> (Inl e, s')"
    and session_frame: "inv (w_db w) \<Longrightarrow> run_state (create_session (ds_auth sv) cx i opts) w = (r, w') \<Longrightarrow>
      inv (w_db w') \<and> tbl (w_db w') ModelDeviceGrants = tbl (w_db w) ModelDeviceGrants"
    and publish_frame: "run_state (publish (ds_auth sv) cx nm sub pl) w = (y, w') \<Longrightarrow> w_db w' = w_db w"

sublocale device \<subseteq> grants: repository ad inv tbl sat plain ModelDeviceGrants grant_unique "device_repo sv"
  "grant_rep (au_rt (ds_auth sv)) plain" "\<lambda>e. time_text (au_rt (ds_auth sv)) \<and> grant_okay plain e"
proof (unfold_locales, goal_cases)
  case 1 then show ?case by (simp add: device_repo_def adapter)
next
  case 2 then show ?case by (simp add: device_repo_def)
next
  case (3 e)
  then show ?case
    using to_map_grant [of plain e "au_rt (ds_auth sv)" "device_repo sv"] from_map_grant [of _ plain e _ e ad]
    by (auto simp: device_repo_def adapter)
next
  case (4 e r)
  then show ?case by (simp add: device_repo_def from_map_grant [OF 4])
qed

context device
begin

definition G :: "('s, 'c) world \<Rightarrow> device_grant multiset" where
  "G w = grants.ents (w_db w)"

definition ginv :: "('s, 'c) world \<Rightarrow> bool" where
  "ginv w \<longleftrightarrow> grants.rinv (w_db w) \<and> grants_ok (G w)"

text \<open>The same without the locale \<open>repository\<close>.\<close>

lemma repo_zero: "cd_zero (rp_codec (device_repo sv)) = no_grant"
  by (simp add: device_repo_def)

lemma G_eq:
  "G w = image_mset (\<lambda>r. case from_map (device_repo sv) r no_grant of Inr g \<Rightarrow> g | Inl _ \<Rightarrow> no_grant)
     (tbl (w_db w) ModelDeviceGrants)"
  by (simp add: G_def grants.ents_def grants.entity_def [abs_def] repo_zero cong: sum.case_cong)

lemma ginv_eq:
  "ginv w \<longleftrightarrow> inv (w_db w) \<and> (\<forall>r \<in># tbl (w_db w) ModelDeviceGrants. grant_rep (au_rt (ds_auth sv)) plain
       (case from_map (device_repo sv) r no_grant of Inr g \<Rightarrow> g | Inl _ \<Rightarrow> no_grant) r) \<and> grants_ok (G w)"
  by (simp add: ginv_def grants.rinv_def grants.entity_def repo_zero cong: sum.case_cong)

lemma means_string:
  "grants.means [Eq ''id'' (VStr b)] (\<lambda>g. gr_id g = b)"
  "grants.means [Eq ''device_code_hash'' (VStr b)] (\<lambda>g. gr_device_code_hash g = b)"
  "grants.means [Eq ''user_code'' (VStr b)] (\<lambda>g. gr_user_code g = b)"
  by (rule grants.means_eq; simp add: grant_rep_def)+

lemma run_on_db': "run_state (on_db m) w = (case run_state m (w_db w) of (r, s) \<Rightarrow> (r, w\<lparr>w_db := s\<rparr>))"
  by (simp add: on_db_def)

lemma ready_clock: "device_ready sv \<Longrightarrow> json_time_ok (au_now (ds_auth sv) n)"
  by (simp add: device_ready_def)

lemma find_grant:
  assumes g: "ginv w" and k: "grants.means [Eq k (VStr v)] (\<lambda>g. sel g = v)"
    and run: "run_state (on_db (repo_find_one (device_repo sv) [Eq k (VStr v)])) w = (r, w')"
  obtains "r = Inl AdapterNotFound" "w' = w" "\<forall>g \<in># G w. sel g \<noteq> v"
    | g where "r = Inr g" "w' = w" "g \<in># G w" "sel g = v"
proof -
  obtain s' where q: "run_state (repo_find_one (device_repo sv) [Eq k (VStr v)]) (w_db w) = (r, s')"
    and w': "w' = w\<lparr>w_db := s'\<rparr>"
    using run by (auto simp: run_on_db' split: prod.splits)
  note f = grants.repo_find_one [OF _ k q]
  have rinv: "grants.rinv (w_db w)" using g by (simp add: ginv_def)
  show thesis
  proof (cases r)
    case (Inl e)
    obtain x s1 where x: "run_state (ad_find_one ad ModelDeviceGrants [Eq k (VStr v)]) (w_db w) = (x, s1)"
      by (rule prod.exhaust)
    have "e = AdapterNotFound"
    proof (cases x)
      case (Inl e')
      then show ?thesis using x q \<open>r = Inl e\<close> total(1) [of "[Eq k (VStr v)]" "w_db w" e' s1]
        by (auto simp: repo_find_one_def device_repo_def adapter)
    next
      case (Inr row)
      with x rinv find_one_Inr [of "w_db w" "[Eq k (VStr v)]" row s1]
      have "row \<in># tbl (w_db w) ModelDeviceGrants" by (simp add: grants.rinv_def)
      from grants.reads [OF grants.rinv_rep [OF rinv this]]
      have "from_map (device_repo sv) row no_grant = Inr (grants.entity row)" by (simp add: device_repo_def)
      with Inr x q \<open>r = Inl e\<close> show ?thesis
        by (auto simp: repo_find_one_def device_repo_def adapter)
    qed
    with Inl f [OF rinv] w' that(1) show thesis by (auto simp: G_def)
  next
    case (Inr e)
    with f [OF rinv] w' that(2) show thesis by (auto simp: G_def)
  qed
qed

text \<open>An update of the grant with the identifier of \<open>g\<close>.\<close>

lemma update_grant:
  assumes g: "ginv w" "x \<in># G w" and u: "u ''id'' = None"
    and f: "\<And>e r. grant_rep (au_rt (ds_auth sv)) plain e r \<Longrightarrow> grant_rep (au_rt (ds_auth sv)) plain (f e) (r ++ u)"
    and keep: "gr_id (f x) = gr_id x" "gr_device_code_hash (f x) = gr_device_code_hash x"
      "gr_user_code (f x) = gr_user_code x"
    and run: "run_state (on_db (repo_update (device_repo sv) [Eq ''id'' (VStr (gr_id x))] u)) w = (r, w')"
  obtains n s' where "r = Inr n" "w' = w\<lparr>w_db := s'\<rparr>" "ginv w'" "G w' = swap x (f x) (G w)"
    "\<And>m. m \<noteq> ModelDeviceGrants \<Longrightarrow> tbl s' m = tbl (w_db w) m"
proof -
  obtain s' where q: "run_state (repo_update (device_repo sv) [Eq ''id'' (VStr (gr_id x))] u) (w_db w) = (r, s')"
    and w': "w' = w\<lparr>w_db := s'\<rparr>"
    using run by (auto simp: run_on_db' split: prod.splits)
  have rinv: "grants.rinv (w_db w)" and ok: "grants_ok (G w)" using g by (simp_all add: ginv_def)
  have "\<exists>n. r = Inr n"
    using q total(2) by (cases r) (auto simp: repo_update_def device_repo_def grant_repo_def adapter)
  then obtain n where n: "r = Inr n" by blast
  note up = grants.repo_update [where g = f, OF rinv means_string(1) u f q]
  have "upd_where (\<lambda>e. gr_id e = gr_id x) f (G w) = swap x (f x) (G w)"
    using ok g(2) by (simp add: grants_ok_def upd_where_swap)
  with up n w' grants_ok_swap [OF ok g(2) keep] show thesis
    by (intro that [of n s']) (auto simp: ginv_def G_def)
qed

lemma ginv_frame:
  "ginv w \<Longrightarrow> inv (w_db w') \<Longrightarrow> tbl (w_db w') ModelDeviceGrants = tbl (w_db w) ModelDeviceGrants \<Longrightarrow>
   ginv w' \<and> G w' = G w"
  by (simp add: ginv_def G_def grants.rinv_def grants.ents_def)

lemma rep_polled:
  "grant_rep (au_rt (ds_auth sv)) plain e r \<Longrightarrow> json_time_ok t \<Longrightarrow>
   grant_rep (au_rt (ds_auth sv)) plain (e\<lparr>gr_last_polled_at := Some t, gr_updated_at := t\<rparr>)
     (r ++ [''last_polled_at'' \<mapsto> VTimePtr (Some t), ''updated_at'' \<mapsto> VTime t])"
  by (simp add: grant_rep_def opt_time_rep_def time_rep_def)

lemma rep_slowed:
  "grant_rep (au_rt (ds_auth sv)) plain e r \<Longrightarrow> json_time_ok t \<Longrightarrow>
   grant_rep (au_rt (ds_auth sv)) plain
     (e\<lparr>gr_polling_interval := wrap64 n, gr_last_polled_at := Some t, gr_updated_at := t\<rparr>)
     (r ++ [''polling_interval'' \<mapsto> VInt (wrap64 n), ''last_polled_at'' \<mapsto> VTimePtr (Some t), ''updated_at'' \<mapsto> VTime t])"
  using wrap64_range [of n] by (simp add: grant_rep_def opt_time_rep_def time_rep_def int_rep_def)

lemma rep_consumed:
  "grant_rep (au_rt (ds_auth sv)) plain e r \<Longrightarrow> json_time_ok t \<Longrightarrow>
   grant_rep (au_rt (ds_auth sv)) plain (e\<lparr>gr_status := st, gr_consumed_at := Some t, gr_updated_at := t\<rparr>)
     (r ++ [''status'' \<mapsto> VStr st, ''consumed_at'' \<mapsto> VTimePtr (Some t), ''updated_at'' \<mapsto> VTime t])"
  by (simp add: grant_rep_def opt_time_rep_def time_rep_def str_rep_def)

lemma rep_authorized:
  "grant_rep (au_rt (ds_auth sv)) plain e r \<Longrightarrow> json_time_ok t \<Longrightarrow>
   grant_rep (au_rt (ds_auth sv)) plain
     (e\<lparr>gr_status := st, gr_user_id := u, gr_scope := sc, gr_authorized_at := Some t, gr_updated_at := t\<rparr>)
     (r ++ [''status'' \<mapsto> VStr st, ''user_id'' \<mapsto> VStr u, ''scope'' \<mapsto> VStr sc,
        ''authorized_at'' \<mapsto> VTimePtr (Some t), ''updated_at'' \<mapsto> VTime t])"
  by (simp add: grant_rep_def opt_time_rep_def time_rep_def str_rep_def)

lemma rep_denied:
  "grant_rep (au_rt (ds_auth sv)) plain e r \<Longrightarrow> json_time_ok t \<Longrightarrow>
   grant_rep (au_rt (ds_auth sv)) plain (e\<lparr>gr_status := st, gr_updated_at := t\<rparr>)
     (r ++ [''status'' \<mapsto> VStr st, ''updated_at'' \<mapsto> VTime t])"
  by (simp add: grant_rep_def time_rep_def str_rep_def)

text \<open>The body of the polling transaction; what it leaves behind when it fails is undone.\<close>

definition grant_updated :: "device_grant \<Rightarrow> 's \<Rightarrow> 's \<Rightarrow> bool" where
  "grant_updated g s s1 \<longleftrightarrow> (\<exists>u n. u ''id'' = None \<and>
     run_state (ad_update ad ModelDeviceGrants [Eq ''id'' (VStr (gr_id g))] u) s = (Inr n, s1))"

definition poll_one ::
  "poll_input \<Rightarrow> time \<Rightarrow> ctx \<Rightarrow> device_grant \<Rightarrow> ('s, 'c) world \<Rightarrow> err + err + device_grant \<times> issued_session \<Rightarrow>
   ('s, 'c) world \<Rightarrow> bool" where
  "poll_one inp t cx g w r w' \<longleftrightarrow>
     (case poll_effect (ds_cfg sv) (po_client_id inp) t g of
        (Inl e, g') \<Rightarrow> r = Inl e \<and> g' = g \<and> w' = w \<or> r = Inr (Inl e) \<and> G w' = swap g g' (G w)
      | (Inr _, g') \<Rightarrow>
          (\<exists>s1. grant_updated g (w_db w) s1 \<and> G w' = swap g g' (G w) \<and>
            ((\<exists>e. run_state (create_session (ds_auth sv) cx (gr_user_id g) (po_session inp)) (w\<lparr>w_db := s1\<rparr>) = (Inl e, w') \<and>
                r = Inl e) \<or>
             (\<exists>iss. run_state (create_session (ds_auth sv) cx (gr_user_id g) (po_session inp)) (w\<lparr>w_db := s1\<rparr>) = (Inr iss, w') \<and>
                r = Inr (Inr (g', iss))))))"

lemma poll_one_failed:
  "poll_one inp t cx g w (Inl e) w' \<Longrightarrow> poll_effect (ds_cfg sv) (po_client_id inp) t g = (Inl e, g) \<or>
    (\<exists>g'. poll_effect (ds_cfg sv) (po_client_id inp) t g = (Inr (), g'))"
  by (cases "poll_effect (ds_cfg sv) (po_client_id inp) t g") (auto simp: poll_one_def split: sum.split_asm)

lemma poll_one_answer:
  "poll_one inp t cx g w (Inr (Inl e)) w' \<Longrightarrow>
   \<exists>g'. poll_effect (ds_cfg sv) (po_client_id inp) t g = (Inl e, g') \<and> G w' = swap g g' (G w)"
  by (cases "poll_effect (ds_cfg sv) (po_client_id inp) t g") (auto simp: poll_one_def split: sum.split_asm)

lemma poll_one_done:
  "poll_one inp t cx g w (Inr (Inr (g', iss))) w' \<Longrightarrow>
   poll_effect (ds_cfg sv) (po_client_id inp) t g = (Inr (), g') \<and> G w' = swap g g' (G w) \<and>
   (\<exists>s1. run_state (create_session (ds_auth sv) cx (gr_user_id g) (po_session inp)) (w\<lparr>w_db := s1\<rparr>) = (Inr iss, w') \<and>
     grant_updated g (w_db w) s1)"
  by (cases "poll_effect (ds_cfg sv) (po_client_id inp) t g") (auto simp: poll_one_def split: sum.split_asm)

lemma poll_found_pending:
  assumes g: "ginv w" "g \<in># G w" and t: "json_time_ok t" and run: "run_state (poll_found sv inp t cx g) w = (r, w')"
    and st: "gr_client_id g = po_client_id inp" "\<not> grant_expired g t" "gr_status g = StatusPending"
  shows "ginv w' \<and> poll_one inp t cx g w r w'"
proof -
  let ?slow = "\<lambda>e. e\<lparr>gr_polling_interval := wrap64 (gr_polling_interval g + whole_seconds (dc_slow_down_increment (ds_cfg sv))),
      gr_last_polled_at := Some t, gr_updated_at := t\<rparr>"
  let ?wait = "\<lambda>e. e\<lparr>gr_last_polled_at := Some t, gr_updated_at := t\<rparr>"
  show ?thesis
  proof (cases "polled_too_soon t g")
    case True
    then obtain l where l: "gr_last_polled_at g = Some l" "time_sub t l < wrap64 (gr_polling_interval g * second)"
      by (auto simp: polled_too_soon_def split: option.splits)
    obtain q w1 where q: "run_state (on_db (repo_update (device_repo sv) [Eq ''id'' (VStr (gr_id g))]
        [''polling_interval'' \<mapsto> VInt (wrap64 (gr_polling_interval g + whole_seconds (dc_slow_down_increment (ds_cfg sv)))),
         ''last_polled_at'' \<mapsto> VTimePtr (Some t), ''updated_at'' \<mapsto> VTime t])) w = (q, w1)" by (rule prod.exhaust)
    have "r = Inr (Inl ErrSlowDown)" "w' = w1"
      using run st l q by (simp_all add: poll_found_def device_status)
    moreover have "ginv w1 \<and> G w1 = swap g (?slow g) (G w)"
      by (rule update_grant [where f = ?slow, OF g _ rep_slowed _ _ _ q]) (simp_all add: t)
    ultimately show ?thesis using st True by (simp add: poll_one_def poll_effect_def device_status)
  next
    case False
    obtain q w1 where q: "run_state (on_db (repo_update (device_repo sv) [Eq ''id'' (VStr (gr_id g))]
        [''last_polled_at'' \<mapsto> VTimePtr (Some t), ''updated_at'' \<mapsto> VTime t])) w = (q, w1)" by (rule prod.exhaust)
    have "r = Inr (Inl ErrAuthorizationPending)" "w' = w1"
      using run st False q
      by (auto simp: poll_found_def polled_too_soon_def device_status split: option.splits if_splits)
    moreover have "ginv w1 \<and> G w1 = swap g (?wait g) (G w)"
      by (rule update_grant [where f = ?wait, OF g _ rep_polled _ _ _ q]) (simp_all add: t)
    ultimately show ?thesis using st False by (simp add: poll_one_def poll_effect_def device_status)
  qed
qed

lemma poll_found_authorized:
  assumes g: "ginv w" "g \<in># G w" and t: "json_time_ok t" and run: "run_state (poll_found sv inp t cx g) w = (r, w')"
    and st: "gr_client_id g = po_client_id inp" "\<not> grant_expired g t" "gr_status g = StatusAuthorized"
  shows "ginv w' \<and> poll_one inp t cx g w r w'"
proof -
  let ?use = "\<lambda>e. e\<lparr>gr_status := StatusConsumed, gr_consumed_at := Some t, gr_updated_at := t\<rparr>"
  obtain q w1 where q: "run_state (on_db (repo_update (device_repo sv) [Eq ''id'' (VStr (gr_id g))]
      [''status'' \<mapsto> VStr StatusConsumed, ''consumed_at'' \<mapsto> VTimePtr (Some t), ''updated_at'' \<mapsto> VTime t])) w = (q, w1)"
    by (rule prod.exhaust)
  obtain n s1 where n: "q = Inr n" "w1 = w\<lparr>w_db := s1\<rparr>" "ginv w1" "G w1 = swap g (?use g) (G w)"
    by (rule update_grant [where f = ?use, OF g _ rep_consumed _ _ _ q]) (simp_all add: t)
  have up: "grant_updated g (w_db w) s1"
    unfolding grant_updated_def
    by (rule exI [of _ "[''status'' \<mapsto> VStr StatusConsumed, ''consumed_at'' \<mapsto> VTimePtr (Some t), ''updated_at'' \<mapsto> VTime t]"],
        rule exI [of _ n])
      (use q n(1,2) in \<open>auto simp: run_on_db' repo_update_def device_repo_def adapter split: prod.splits dest: arg_cong [where f = w_db]\<close>)
  obtain p w2 where p: "run_state (create_session (ds_auth sv) cx (gr_user_id g) (po_session inp)) w1 = (p, w2)"
    by (rule prod.exhaust)
  have "w' = w2" "r = (case p of Inl e \<Rightarrow> Inl e | Inr iss \<Rightarrow> Inr (Inr (?use g, iss)))"
    using run st q n(1) p by (cases p; simp add: poll_found_def device_status)+
  moreover have "ginv w2 \<and> G w2 = G w1"
  proof (rule ginv_frame [OF n(3)])
    show "inv (w_db w2)" "tbl (w_db w2) ModelDeviceGrants = tbl (w_db w1) ModelDeviceGrants"
      using session_frame [OF _ p] n(3) by (simp_all add: ginv_def grants.rinv_def)
  qed
  moreover have "poll_effect (ds_cfg sv) (po_client_id inp) t g = (Inr (), ?use g)"
    using st by (simp add: poll_effect_def device_status)
  ultimately show ?thesis using n p up by (cases p) (auto simp: poll_one_def)
qed

lemma poll_found_refused:
  assumes "ginv w" "run_state (poll_found sv inp t cx g) w = (r, w')"
    "gr_client_id g = po_client_id inp \<Longrightarrow> \<not> grant_expired g t \<Longrightarrow>
      gr_status g \<noteq> StatusPending \<and> gr_status g \<noteq> StatusAuthorized"
  shows "ginv w' \<and> poll_one inp t cx g w r w'"
  using assms by (auto simp: poll_found_def Let_def poll_one_def poll_effect_def split: if_splits)

lemma poll_found_spec:
  assumes "ginv w" "g \<in># G w" "json_time_ok t" "run_state (poll_found sv inp t cx g) w = (r, w')"
  shows "ginv w' \<and> poll_one inp t cx g w r w'"
  using poll_found_pending [OF assms] poll_found_authorized [OF assms] poll_found_refused [OF assms(1,4)] by blast

lemma poll_tx_spec:
  assumes g: "ginv w" and t: "json_time_ok t" and run: "run_state (poll_tx sv inp h t cx) w = (r, w')"
  shows "ginv w' \<and> ((\<forall>g \<in># G w. gr_device_code_hash g \<noteq> h) \<and> r = Inl ErrInvalidGrant \<or>
     (\<exists>g \<in># G w. gr_device_code_hash g = h \<and> poll_one inp t cx g w r w'))"
proof -
  obtain q w0 where q: "run_state (on_db (repo_find_one (device_repo sv) [Eq ''device_code_hash'' (VStr h)])) w = (q, w0)"
    by (rule prod.exhaust)
  show ?thesis
  proof (rule find_grant [OF g means_string(2) q])
    assume "q = Inl AdapterNotFound" "w0 = w" "\<forall>g \<in># G w. gr_device_code_hash g \<noteq> h"
    with run q g show ?thesis by (simp add: poll_tx_def)
  next
    fix x assume x: "q = Inr x" "w0 = w" "x \<in># G w" "gr_device_code_hash x = h"
    with run q have "run_state (poll_found sv inp t cx x) w = (r, w')" by (simp add: poll_tx_def)
    from poll_found_spec [OF g x(3) t this] x show ?thesis by blast
  qed
qed

text \<open>A transaction of the adapter that fails leaves the grants as they were.\<close>

lemma run_now': "run_state (now a) w = (au_now a (w_clock w), w\<lparr>w_clock := Suc (w_clock w)\<rparr>)"
  by (simp add: now_def)

lemma tick [simp]: "G (w\<lparr>w_clock := n\<rparr>) = G w" "ginv (w\<lparr>w_clock := n\<rparr>) = ginv w"
  by (simp_all add: G_def ginv_def)

lemma tx_cases:
  assumes run: "run_state (adapter_transaction ad cx f) w = (r, w')" and cx: "\<not> ctx_in_tx cx"
    and g: "ginv w" and body: "\<And>r w2. run_state (f (with_tx cx)) w = (r, w2) \<Longrightarrow> ginv w2"
  obtains e w2 where "r = Inl e" "run_state (f (with_tx cx)) w = (Inl e, w2)" "ginv w'" "G w' = G w"
      "tbl (w_db w') = tbl (w_db w)"
    | x where "r = Inr x" "run_state (f (with_tx cx)) w = (Inr x, w')" "ginv w'"
proof -
  obtain q w2 where q: "run_state (f (with_tx cx)) w = (q, w2)" by (rule prod.exhaust)
  have i: "grants.rinv (w_db w)" "grants.rinv (w_db w2)" using g body [OF q] by (simp_all add: ginv_def)
  show thesis
  proof (cases q)
    case (Inl e)
    with run q cx have "r = Inl e" "w' = w2\<lparr>w_db := ad_rollback ad (w_db w) (w_db w2)\<rparr>"
      by (auto simp: adapter_transaction_def)
    with that(1) Inl q g grants.repo_rollback [OF i] show thesis by (simp add: ginv_def G_def)
  next
    case (Inr x)
    with run q cx body [OF q] that(2) show thesis by (auto simp: adapter_transaction_def)
  qed
qed

lemma publish_grants:
  assumes "ginv w" "run_state (publish (ds_auth sv) cx nm sub pl) w = (y, w')"
  shows "ginv w' \<and> G w' = G w"
  using assms(1) publish_frame [OF assms(2)] by (simp add: ginv_def G_def)

lemma device_poll_spec:
  assumes g: "ginv w" and ready: "device_ready sv" and cx: "\<not> ctx_in_tx cx" and run: "run_state (device_poll sv cx inp) w = (r, w')"
    and inp: "po_device_code inp \<noteq> []" "po_client_id inp \<noteq> []"
  shows "ginv w' \<and> poll_grants (ds_cfg sv) (hash_device_code (au_rt (ds_auth sv)) (po_device_code inp)) (po_client_id inp)
    (au_now (ds_auth sv) (w_clock w)) (G w) (map_sum id pr_user_id r) (G w')"
proof -
  let ?h = "hash_device_code (au_rt (ds_auth sv)) (po_device_code inp)" and ?t = "au_now (ds_auth sv) (w_clock w)"
  let ?w = "w\<lparr>w_clock := Suc (w_clock w)\<rparr>" and ?f = "poll_tx sv inp ?h (au_now (ds_auth sv) (w_clock w))"
  obtain q w1 where q: "run_state (adapter_transaction ad cx ?f) ?w = (q, w1)" by (rule prod.exhaust)
  have g': "ginv ?w" using g by simp
  note spec = poll_tx_spec [OF g' ready_clock [OF ready]]
  show ?thesis
  proof (rule tx_cases [OF q cx g'])
    fix p w2 assume "run_state (?f (with_tx cx)) ?w = (p, w2)"
    from spec [OF this] show "ginv w2" by blast
  next
    fix e w2 assume e: "q = Inl e" "run_state (?f (with_tx cx)) ?w = (Inl e, w2)" "ginv w1" "G w1 = G ?w"
    have "r = Inl e" "w' = w1" using run inp q e(1) by (simp_all add: device_poll_def Let_def run_now' adapter)
    with e spec [OF e(2)] show ?thesis by (fastforce simp: poll_grants_def dest: poll_one_failed)
  next
    fix x assume x: "q = Inr x" "run_state (?f (with_tx cx)) ?w = (Inr x, w1)" "ginv w1"
    from spec [OF x(2)] obtain g0 where g0: "g0 \<in># G w" "gr_device_code_hash g0 = ?h"
      "poll_one inp ?t (with_tx cx) g0 ?w (Inr x) w1" by auto
    show ?thesis
    proof (cases x)
      case (Inl e)
      have "r = Inl e" "w' = w1" using run inp q x(1) Inl by (simp_all add: device_poll_def Let_def run_now' adapter)
      moreover from g0(3) Inl obtain g' where "poll_effect (ds_cfg sv) (po_client_id inp) ?t g0 = (Inl e, g')"
        "G w1 = swap g0 g' (G w)" using poll_one_answer by fastforce
      ultimately show ?thesis using g0(1,2) x(3) by (auto simp: poll_grants_def)
    next
      case (Inr y)
      obtain gr iss where y: "y = (gr, iss)" by (rule prod.exhaust)
      obtain u w3 where u: "run_state (publish (ds_auth sv) cx EventDeviceAuthConsumed (gr_user_id gr)
          (PFields ''DeviceAuthConsumedPayload'' [(''grant_id'', FStr (gr_id gr)), (''client_id'', FStr (gr_client_id gr)),
            (''user_id'', FStr (gr_user_id gr)), (''consumed_at'', FTime ?t)])) w1 = (u, w3)" by (rule prod.exhaust)
      have "r = Inr \<lparr>pr_status = StatusConsumed, pr_user_id = gr_user_id gr, pr_session = iss_session iss,
          pr_token = iss_token iss\<rparr>" "w' = w3"
        using run inp q x(1) Inr y u by (simp_all add: device_poll_def Let_def run_now' adapter)
      moreover have "ginv w3 \<and> G w3 = G w1" using publish_grants [OF x(3) u] .
      moreover have "poll_effect (ds_cfg sv) (po_client_id inp) ?t g0 = (Inr (), gr)" "G w1 = swap g0 gr (G w)"
        using g0(3) Inr y by (auto dest: poll_one_done)
      moreover have "gr_user_id gr = gr_user_id g0"
        using calculation(4) by (auto simp: poll_effect_def split: if_splits)
      ultimately show ?thesis using g0 by (auto simp: poll_grants_def)
    qed
  qed
qed

text \<open>The user's side.\<close>

lemma authorize_found_spec:
  assumes g: "ginv w" "g \<in># G w" and t: "json_time_ok t" and run: "run_state (authorize_found sv inp t g) w = (r, w')"
  shows "ginv w' \<and> G w' = swap g (snd (authorize_effect (ds_cfg sv) inp t g)) (G w) \<and>
    map_sum id (\<lambda>_. ()) r = fst (authorize_effect (ds_cfg sv) inp t g)"
proof (cases "gr_failed_attempts g \<ge> dc_max_failed_attempts (ds_cfg sv) \<or> grant_expired g t \<or> status_error g \<noteq> None")
  case True
  with run g show ?thesis
    by (auto simp: authorize_found_def authorize_effect_def split: if_splits option.splits)
next
  case False
  let ?sc = "if az_scope inp \<noteq> [] then az_scope inp else gr_scope g" and ?u = "pr_subject (az_principal inp)"
  let ?f = "\<lambda>e. e\<lparr>gr_status := StatusAuthorized, gr_user_id := ?u, gr_scope := ?sc,
      gr_authorized_at := Some t, gr_updated_at := t\<rparr>"
  obtain q w1 where q: "run_state (on_db (repo_update (device_repo sv) [Eq ''id'' (VStr (gr_id g))]
      [''status'' \<mapsto> VStr StatusAuthorized, ''user_id'' \<mapsto> VStr ?u, ''scope'' \<mapsto> VStr ?sc,
       ''authorized_at'' \<mapsto> VTimePtr (Some t), ''updated_at'' \<mapsto> VTime t])) w = (q, w1)"
    by (rule prod.exhaust)
  obtain n s1 where n: "q = Inr n" "ginv w1" "G w1 = swap g (?f g) (G w)"
    by (rule update_grant [where f = ?f, OF g _ rep_authorized _ _ _ q]) (simp_all add: t)
  have "authorize_effect (ds_cfg sv) inp t g = (Inr (), ?f g)"
    using False by (simp add: authorize_effect_def)
  moreover have "r = Inr (?f g)" "w' = w1"
    using run False q n(1) by (simp_all add: authorize_found_def Let_def)
  ultimately show ?thesis using n by simp
qed

lemma deny_found_spec:
  assumes g: "ginv w" "g \<in># G w" and t: "json_time_ok t" and run: "run_state (deny_found sv t g) w = (r, w')"
  shows "ginv w' \<and> G w' = swap g (snd (deny_effect t g)) (G w) \<and> map_sum id (\<lambda>_. ()) r = fst (deny_effect t g)"
proof (cases "grant_expired g t \<or> status_error g \<noteq> None")
  case True
  with run g show ?thesis by (auto simp: deny_found_def deny_effect_def split: if_splits option.splits)
next
  case False
  let ?f = "\<lambda>e. e\<lparr>gr_status := StatusDenied, gr_updated_at := t\<rparr>"
  obtain q w1 where q: "run_state (on_db (repo_update (device_repo sv) [Eq ''id'' (VStr (gr_id g))]
      [''status'' \<mapsto> VStr StatusDenied, ''updated_at'' \<mapsto> VTime t])) w = (q, w1)"
    by (rule prod.exhaust)
  obtain n s1 where n: "q = Inr n" "ginv w1" "G w1 = swap g (?f g) (G w)"
    by (rule update_grant [where f = ?f, OF g _ rep_denied _ _ _ q]) (simp_all add: t)
  have "deny_effect t g = (Inr (), ?f g)" using False by (simp add: deny_effect_def)
  moreover have "r = Inr (?f g)" "w' = w1" using run False q n(1) by (simp_all add: deny_found_def)
  ultimately show ?thesis using n by simp
qed

lemma user_tx_spec:
  assumes g: "ginv w" and cx: "\<not> ctx_in_tx cx"
    and found: "\<And>x w r w'. ginv w \<Longrightarrow> x \<in># G w \<Longrightarrow> run_state (F x) w = (r, w') \<Longrightarrow>
      ginv w' \<and> G w' = swap x (snd (f x)) (G w) \<and> map_sum id (\<lambda>_. ()) r = fst (f x)"
    and noop: "\<And>x e. fst (f x) = Inl e \<Longrightarrow> snd (f x) = x"
    and run: "run_state (adapter_transaction ad cx (\<lambda>cx. do {
        r \<leftarrow> on_db (repo_find_one (device_repo sv) [Eq ''user_code'' (VStr uc)]);
        case r of Inl e \<Rightarrow> fail (if e = AdapterNotFound then ErrInvalidUserCode else e) | Inr g \<Rightarrow> F g })) w = (r, w')"
      (is "run_state (adapter_transaction ad cx ?f) w = _")
  shows "ginv w' \<and> user_grants f uc (G w) (map_sum id (\<lambda>_. ()) r) (G w')"
proof -
  have body: "ginv w2 \<and> user_grants f uc (G w) (map_sum id (\<lambda>_. ()) p) (G w2)"
    if b: "run_state (?f cx) w = (p, w2)" for p w2 cx
  proof -
    obtain q w0 where q: "run_state (on_db (repo_find_one (device_repo sv) [Eq ''user_code'' (VStr uc)])) w = (q, w0)"
      by (rule prod.exhaust)
    show ?thesis
    proof (rule find_grant [OF g means_string(3) q])
      assume "q = Inl AdapterNotFound" "w0 = w" "\<forall>g \<in># G w. gr_user_code g \<noteq> uc"
      with b q g show ?thesis by (auto simp: user_grants_def)
    next
      fix x assume x: "q = Inr x" "w0 = w" "x \<in># G w" "gr_user_code x = uc"
      with b q have "run_state (F x) w = (p, w2)" by simp
      from found [OF g x(3) this] x show ?thesis by (auto simp: user_grants_def)
    qed
  qed
  show ?thesis
  proof (rule tx_cases [OF run cx g])
    fix p w2 assume "run_state (?f (with_tx cx)) w = (p, w2)"
    from body [OF this] show "ginv w2" by blast
  next
    fix e w2 assume e: "r = Inl e" "run_state (?f (with_tx cx)) w = (Inl e, w2)" "ginv w'" "G w' = G w"
    from body [OF e(2)] have "(\<forall>g \<in># G w. gr_user_code g \<noteq> uc) \<and> e = ErrInvalidUserCode \<or>
        (\<exists>x \<in># G w. gr_user_code x = uc \<and> fst (f x) = Inl e)"
      by (auto simp: user_grants_def)
    then have "user_grants f uc (G w) (Inl e) (G w)"
    proof (elim disjE bexE conjE)
      fix x assume x: "x \<in># G w" "gr_user_code x = uc" "fst (f x) = Inl e"
      from noop [OF x(3)] x show ?thesis unfolding user_grants_def by (intro disjI2 bexI [of _ x]) simp_all
    qed (simp add: user_grants_def)
    with e show ?thesis by simp
  next
    fix x assume "r = Inr x" "run_state (?f (with_tx cx)) w = (Inr x, w')"
    with body show ?thesis by simp
  qed
qed

lemma after_tx:
  assumes tx: "run_state (adapter_transaction ad cx f) (w\<lparr>w_clock := Suc (w_clock w)\<rparr>) = (q, w1)"
    and g: "ginv w1" and run: "run_state (bindE (adapter_transaction ad cx f) (\<lambda>g. do {
        _ \<leftarrow> publish (ds_auth sv) cx nm sub (pl g);
        ok () })) (w\<lparr>w_clock := Suc (w_clock w)\<rparr>) = (r, w')"
  shows "r = map_sum id (\<lambda>_. ()) q \<and> ginv w' \<and> G w' = G w1"
proof (cases q)
  case (Inl e)
  with run tx g show ?thesis by simp
next
  case (Inr x)
  obtain u w2 where "run_state (publish (ds_auth sv) cx nm sub (pl x)) w1 = (u, w2)" by (rule prod.exhaust)
  with run tx Inr publish_grants [OF g this] show ?thesis by simp
qed

lemma device_authorize_spec:
  assumes g: "ginv w" and ready: "device_ready sv" and cx: "\<not> ctx_in_tx cx" and run: "run_state (device_authorize sv cx inp) w = (r, w')"
    and inp: "normalize_user_code (az_user_code inp) \<noteq> []" "pr_subject (az_principal inp) \<noteq> []"
  shows "ginv w' \<and> user_grants (authorize_effect (ds_cfg sv) inp (au_now (ds_auth sv) (w_clock w)))
    (normalize_user_code (az_user_code inp)) (G w) r (G w')"
proof -
  let ?t = "au_now (ds_auth sv) (w_clock w)" and ?w = "w\<lparr>w_clock := Suc (w_clock w)\<rparr>"
  let ?f = "authorize_tx sv inp (normalize_user_code (az_user_code inp)) ?t"
  obtain q w1 where q: "run_state (adapter_transaction ad cx ?f) ?w = (q, w1)" by (rule prod.exhaust)
  have "ginv w1 \<and> user_grants (authorize_effect (ds_cfg sv) inp ?t) (normalize_user_code (az_user_code inp))
      (G ?w) (map_sum id (\<lambda>_. ()) q) (G w1)"
    by (rule user_tx_spec [OF _ cx authorize_found_spec _ q [unfolded authorize_tx_def [abs_def]]])
      (use g ready_clock [OF ready] in \<open>auto simp: authorize_effect_def split: if_splits option.splits\<close>)
  with after_tx [OF q] run inp show ?thesis
    by (auto simp: device_authorize_def Let_def run_now' adapter)
qed

lemma device_deny_spec:
  assumes g: "ginv w" and ready: "device_ready sv" and cx: "\<not> ctx_in_tx cx" and run: "run_state (device_deny sv cx inp) w = (r, w')"
    and inp: "normalize_user_code (dn_user_code inp) \<noteq> []"
  shows "ginv w' \<and> user_grants (deny_effect (au_now (ds_auth sv) (w_clock w)))
    (normalize_user_code (dn_user_code inp)) (G w) r (G w')"
proof -
  let ?t = "au_now (ds_auth sv) (w_clock w)" and ?w = "w\<lparr>w_clock := Suc (w_clock w)\<rparr>"
  let ?f = "deny_tx sv (normalize_user_code (dn_user_code inp)) ?t"
  obtain q w1 where q: "run_state (adapter_transaction ad cx ?f) ?w = (q, w1)" by (rule prod.exhaust)
  have "ginv w1 \<and> user_grants (deny_effect ?t) (normalize_user_code (dn_user_code inp))
      (G ?w) (map_sum id (\<lambda>_. ()) q) (G w1)"
    by (rule user_tx_spec [OF _ cx deny_found_spec _ q [unfolded deny_tx_def [abs_def]]])
      (use g ready_clock [OF ready] in \<open>auto simp: deny_effect_def split: if_splits option.splits\<close>)
  with after_tx [OF q] run inp show ?thesis
    by (auto simp: device_deny_def Let_def run_now' adapter)
qed

text \<open>Starting: the codes of a new grant belong to no other grant.\<close>

lemma start_attempt_spec:
  assumes g: "ginv w" and ready: "device_ready sv" and md: "distinct (map fst (si_metadata inp))"
    and run: "run_state (start_attempt sv inp) w = (((code, h, uc), r), w')"
  shows "ginv w' \<and> h = hash_device_code (au_rt (ds_auth sv)) code \<and> (case r of
      Inl _ \<Rightarrow> G w' = G w
    | Inr g \<Rightarrow> started (ds_cfg sv) inp h uc g \<and> G w' = add_mset g (G w))"
proof -
  let ?a = "ds_auth sv" and ?n = "whole_seconds (dc_polling_interval (ds_cfg sv))"
  let ?t = "au_now (ds_auth sv) (w_clock w)"
  let ?code = "hex_encode (random_bytes (au_entropy ?a (w_draws w)) 32)"
  let ?uc = "user_code_of (random_bytes (au_entropy ?a (Suc (w_draws w))) 8)"
  let ?i = "hex_encode (random_bytes (au_entropy ?a (Suc (Suc (w_draws w)))) 16)"
  let ?h = "hash_device_code (au_rt ?a) ?code"
  define x where "x = \<lparr>gr_id = ?i, gr_client_id = si_client_id inp, gr_device_code_hash = ?h, gr_user_code = ?uc,
      gr_status = StatusPending, gr_user_id = [], gr_scope = si_scope inp, gr_metadata = si_metadata inp,
      gr_expires_at = ?t + dc_expires_in (ds_cfg sv), gr_last_polled_at = None,
      gr_polling_interval = (if ?n \<le> 0 then 5 else ?n), gr_failed_attempts = 0,
      gr_authorized_at = None, gr_consumed_at = None, gr_created_at = ?t, gr_updated_at = ?t\<rparr>"
  let ?w = "w\<lparr>w_draws := Suc (Suc (Suc (w_draws w))), w_clock := Suc (w_clock w)\<rparr>"
  obtain q s' where q: "run_state (repo_create (device_repo sv) x) (w_db w) = (q, s')" by (rule prod.exhaust)
  have eqs: "code = ?code" "h = ?h" "uc = ?uc" "r = q" "w_db w' = s'"
    using run q by (auto simp: start_attempt_def Let_def generate_device_code_def generate_user_code_def
        grant_id_def draw_def run_now' run_on_db' x_def split: prod.splits)
  have "CHR '':'' \<notin> set ?h" by (simp add: hash_device_code_def hex_encode_colon)
  then have okay: "time_text (au_rt ?a) \<and> grant_okay plain x"
    using md ready user_code_colon
    by (auto simp: device_ready_def grant_okay_def x_def opt_time_ok_def hex_encode_colon intro!: plain)
  have rinv: "grants.rinv (w_db w)" and ok: "grants_ok (G w)" using g by (simp_all add: ginv_def)
  note c = grants.repo_create [OF rinv okay q]
  show ?thesis
  proof (cases q)
    case (Inl e)
    with c eqs ok show ?thesis by (simp add: ginv_def G_def)
  next
    case (Inr y)
    with c obtain d where d: "y = x" "grants.rinv s'" "grants.ents s' = add_mset x (grants.ents (w_db w))"
      "grant_rep (au_rt ?a) plain x d" "\<forall>fs \<in> set grant_unique. \<forall>r' \<in># tbl (w_db w) ModelDeviceGrants. \<not> same_strings fs r' d"
      by auto
    note new = grants.create_unique [OF rinv d(4,5)]
    have "gr_id z \<noteq> gr_id x \<and> gr_device_code_hash z \<noteq> gr_device_code_hash x \<and> gr_user_code z \<noteq> gr_user_code x"
      if "z \<in># G w" for z
      using that unfolding G_def
      by (intro conjI new [of "''id''"] new [of "''device_code_hash''"] new [of "''user_code''"])
        (simp_all add: grant_unique_def grant_rep_def)
    then have "grants_ok (add_mset x (G w))"
      using ok by (auto simp: grants_ok_def intro!: uniq_add)
    moreover have "started (ds_cfg sv) inp h uc x" using eqs by (simp add: started_def x_def)
    ultimately show ?thesis using d eqs Inr by (simp add: ginv_def G_def)
  qed
qed

lemma start_loop_spec:
  assumes "ginv w" "device_ready sv" "distinct (map fst (si_metadata inp))" "run_state (start_loop sv inp n e) w = (r, w')"
  shows "ginv w' \<and> (case r of
      Inl _ \<Rightarrow> G w' = G w
    | Inr (code, h, uc) \<Rightarrow> h = hash_device_code (au_rt (ds_auth sv)) code \<and>
        (\<exists>g. started (ds_cfg sv) inp h uc g \<and> G w' = add_mset g (G w)))"
  using assms
proof (induction n arbitrary: w e)
  case (Suc n)
  obtain code h uc q w1 where q: "run_state (start_attempt sv inp) w = (((code, h, uc), q), w1)"
    by (metis prod.exhaust)
  note a = start_attempt_spec [OF Suc.prems(1,2,3) q]
  show ?case
  proof (cases q)
    case (Inr g)
    with Suc.prems(4) q a show ?thesis by auto
  next
    case (Inl x)
    show ?thesis
    proof (cases "x = AdapterConflict")
      case True
      with Suc.prems(4) q Inl have "run_state (start_loop sv inp n x) w1 = (r, w')" by simp
      with Suc.IH [OF _ Suc.prems(2,3) this] a Inl show ?thesis by (cases r) auto
    next
      case False
      with Suc.prems(4) q Inl a show ?thesis by auto
    qed
  qed
qed auto

lemma device_start_spec:
  assumes g: "ginv w" and ready: "device_ready sv" and md: "distinct (map fst (si_metadata inp))"
    and run: "run_state (device_start sv cx inp) w = (r, w')"
  shows "ginv w' \<and> (case r of
      Inl _ \<Rightarrow> G w' = G w
    | Inr x \<Rightarrow> \<exists>g. started (ds_cfg sv) inp (hash_device_code (au_rt (ds_auth sv)) (sa_device_code x)) (sa_user_code x) g \<and>
        G w' = add_mset g (G w))"
proof (cases "trim_space (si_client_id inp) = []")
  case True
  with run g show ?thesis by (auto simp: device_start_def)
next
  case False
  obtain q w1 where q: "run_state (start_loop sv inp 3 AdapterConflict) w = (q, w1)" by (rule prod.exhaust)
  note l = start_loop_spec [OF g ready md q]
  show ?thesis
  proof (cases q)
    case (Inl e)
    with False run q l show ?thesis by (auto simp: device_start_def)
  next
    case (Inr y)
    obtain code h uc where y: "y = (code, h, uc)" by (metis prod.exhaust)
    let ?w2 = "w1\<lparr>w_clock := Suc (Suc (w_clock w1))\<rparr>"
    obtain u w3 where u: "run_state (publish (ds_auth sv) cx EventDeviceAuthStarted (si_client_id inp)
        (PFields ''DeviceAuthStartedPayload''
          [(''grant_id'', FStr (take 12 h)), (''client_id'', FStr (si_client_id inp)), (''user_code'', FStr uc),
           (''expires_at'', FTime (au_now (ds_auth sv) (w_clock w1) + dc_expires_in (ds_cfg sv))),
           (''polling_interval'', FInt (whole_seconds (dc_polling_interval (ds_cfg sv)))),
           (''created_at'', FTime (au_now (ds_auth sv) (Suc (w_clock w1))))])) ?w2 = (u, w3)" by (rule prod.exhaust)
    have "ginv ?w2" using l by simp
    from publish_grants [OF this u] have "ginv w3 \<and> G w3 = G w1" by simp
    moreover have "w' = w3" "\<exists>x. r = Inr x \<and> sa_device_code x = code \<and> sa_user_code x = uc"
      using False run q Inr y u by (auto simp: device_start_def Let_def run_now')
    ultimately show ?thesis using l Inr y by auto
  qed
qed

text \<open>Looking a code up changes no grant.\<close>

lemma lookup_spec:
  assumes g: "ginv w" and run: "run_state (lookup_user_code sv uc) w = (r, w')"
  shows "ginv w' \<and> G w' = G w \<and> (case r of Inl _ \<Rightarrow> True | Inr v \<Rightarrow>
    \<exists>g \<in># G w. gr_user_code g = uc \<and> gr_id g = vr_grant_id v \<and> \<not> grant_expired g (au_now (ds_auth sv) (w_clock w)) \<and>
      status_error g = None)"
proof -
  obtain q w0 where q: "run_state (on_db (repo_find_one (device_repo sv) [Eq ''user_code'' (VStr uc)])) w = (q, w0)"
    by (rule prod.exhaust)
  show ?thesis
  proof (rule find_grant [OF g means_string(3) q])
    assume "q = Inl AdapterNotFound" "w0 = w" "\<forall>g \<in># G w. gr_user_code g \<noteq> uc"
    with run q g show ?thesis by (auto simp: lookup_user_code_def)
  next
    fix x assume x: "q = Inr x" "w0 = w" "x \<in># G w" "gr_user_code x = uc"
    with run q g show ?thesis
      by (auto simp: lookup_user_code_def run_now' status_error_def split: if_splits)
  qed
qed

text \<open>A poll that succeeds has created the session, on the database with the grant consumed.\<close>

lemma device_poll_session:
  assumes g: "ginv w" and ready: "device_ready sv" and cx: "\<not> ctx_in_tx cx"
    and run: "run_state (device_poll sv cx inp) w = (Inr x, w')"
  obtains g0 s1 w2 iss where "grant_updated g0 (w_db w) s1"
    "run_state (create_session (ds_auth sv) (with_tx cx) (pr_user_id x) (po_session inp))
       (w\<lparr>w_clock := Suc (w_clock w), w_db := s1\<rparr>) = (Inr iss, w2)"
    "pr_session x = iss_session iss" "pr_token x = iss_token iss" "w_db w' = w_db w2"
proof -
  let ?h = "hash_device_code (au_rt (ds_auth sv)) (po_device_code inp)" and ?t = "au_now (ds_auth sv) (w_clock w)"
  let ?w = "w\<lparr>w_clock := Suc (w_clock w)\<rparr>" and ?f = "poll_tx sv inp ?h (au_now (ds_auth sv) (w_clock w))"
  have inp: "po_device_code inp \<noteq> []" "po_client_id inp \<noteq> []"
    using run by (auto simp: device_poll_def split: if_splits)
  obtain q w1 where q: "run_state (adapter_transaction ad cx ?f) ?w = (q, w1)" by (rule prod.exhaust)
  have g': "ginv ?w" using g by simp
  note spec = poll_tx_spec [OF g' ready_clock [OF ready]]
  show thesis
  proof (rule tx_cases [OF q cx g'])
    fix p w2 assume "run_state (?f (with_tx cx)) ?w = (p, w2)"
    from spec [OF this] show "ginv w2" by blast
  next
    fix e w2 assume e: "q = Inl e"
    with run inp q show thesis by (simp add: device_poll_def Let_def run_now' adapter)
  next
    fix y assume y: "q = Inr y" "run_state (?f (with_tx cx)) ?w = (Inr y, w1)"
    from spec [OF y(2)] obtain g0 where g0: "poll_one inp ?t (with_tx cx) g0 ?w (Inr y) w1" by auto
    show thesis
    proof (cases y)
      case (Inl e)
      with run inp q y(1) show thesis by (simp add: device_poll_def Let_def run_now' adapter)
    next
      case (Inr z)
      obtain gr iss where z: "z = (gr, iss)" by (rule prod.exhaust)
      from poll_one_done [of inp ?t _ g0 ?w gr iss w1] g0 Inr z obtain s1 where
        s1: "poll_effect (ds_cfg sv) (po_client_id inp) ?t g0 = (Inr (), gr)" "grant_updated g0 (w_db w) s1"
        "run_state (create_session (ds_auth sv) (with_tx cx) (gr_user_id g0) (po_session inp)) (?w\<lparr>w_db := s1\<rparr>) = (Inr iss, w1)"
        by auto
      obtain u w3 where u: "run_state (publish (ds_auth sv) cx EventDeviceAuthConsumed (gr_user_id gr)
          (PFields ''DeviceAuthConsumedPayload'' [(''grant_id'', FStr (gr_id gr)), (''client_id'', FStr (gr_client_id gr)),
            (''user_id'', FStr (gr_user_id gr)), (''consumed_at'', FTime ?t)])) w1 = (u, w3)" by (rule prod.exhaust)
      have "pr_user_id x = gr_user_id gr" "pr_session x = iss_session iss" "pr_token x = iss_token iss" "w' = w3"
        using run inp q y(1) Inr z u by (auto simp: device_poll_def Let_def run_now' adapter)
      moreover have "gr_user_id gr = gr_user_id g0"
        using s1(1) by (auto simp: poll_effect_def split: if_splits)
      ultimately show thesis using that [OF s1(2), of iss w1] s1(3) publish_frame [OF u] by simp
    qed
  qed
qed

end

end
