(* ===== verification/Engine_Frame.thy ===== *)
theory Engine_Frame
  imports Memory_Engine
begin

text \<open>
  What the engine leaves alone: its store works on the core models only, so a property of the database
  that no operation on a core model changes (such as the contents of a plugin's table) is kept by every
  call of the engine. On memory, the table of every other model is such a property.
\<close>

named_theorems frame_rules "computations that leave what the engine does not own alone"

locale engine_frame =
  fixes a :: "('s, 'c) auth"
    and ad :: "'s adapter"
    and rt :: runtime
    and P :: "'s \<Rightarrow> bool"
  assumes store: "au_store a = bridge_new rt ad"
    and benign: "benign a"
    and create: "m \<in> set core_models \<Longrightarrow> keeps P (ad_create ad m d)"
    and find_one: "m \<in> set core_models \<Longrightarrow> keeps P (ad_find_one ad m w)"
    and find_many: "m \<in> set core_models \<Longrightarrow> keeps P (ad_find_many ad (query_where m w))"
    and update: "m \<in> set core_models \<Longrightarrow> keeps P (ad_update ad m w u)"
    and delete: "m \<in> set core_models \<Longrightarrow> keeps P (ad_delete ad m w)"
    and rollback: "P s0 \<Longrightarrow> P s1 \<Longrightarrow> P (ad_rollback ad s0 s1)"
begin

definition Q :: "('s, 'c) world \<Rightarrow> bool" where
  "Q w \<longleftrightarrow> P (w_db w)"

lemmas adapter_keeps = create find_one find_many update delete

lemma revoke_each_keeps: "keeps P (session_revoke_each ad at xs)"
  by (induction xs) (auto simp: session_revoke_def intro!: keeps_rules update)

lemma store_keeps [frame_rules]:
  "keeps P (users_create (au_store a) u)" "keeps P (users_get_by_id (au_store a) i)"
  "keeps P (users_get_by_email (au_store a) i)" "keeps P (users_update (au_store a) u)"
  "keeps P (accounts_create (au_store a) acc)" "keeps P (accounts_get_by_provider (au_store a) p i)"
  "keeps P (credentials_create (au_store a) c)" "keeps P (credentials_get_active (au_store a) i p)"
  "keeps P (credentials_revoke (au_store a) i t)"
  "keeps P (sessions_create (au_store a) s)" "keeps P (sessions_get_by_id (au_store a) i)"
  "keeps P (sessions_get_by_hash (au_store a) i)" "keeps P (sessions_list_by_user (au_store a) i)"
  "keeps P (sessions_revoke (au_store a) i t)" "keeps P (sessions_revoke_by_user (au_store a) i t)"
  "keeps P (sessions_delete_expired (au_store a) t)"
  "keeps P (tokens_create (au_store a) k)" "keeps P (tokens_get_by_hash (au_store a) i)"
  "keeps P (tokens_mark_used (au_store a) i t)" "keeps P (tokens_delete_by_subject (au_store a) p i)"
  "keeps P (tokens_delete_expired (au_store a) t)"
  unfolding store bridge_new_def store.select_convs user_create_def user_get_by_id_def user_get_by_email_def
    user_update_def account_create_def account_get_by_provider_def credential_create_def
    credential_get_active_def credential_revoke_def session_create_def session_get_by_id_def
    session_get_by_hash_def session_list_by_user_def session_revoke_def session_revoke_by_user_def
    session_delete_expired_def token_create_def token_get_by_hash_def token_mark_used_def
    token_delete_by_subject_def token_delete_expired_def
  by (intro keeps_rules adapter_keeps revoke_each_keeps core_models_simps)+

lemma rollback_keeps: "P s0 \<Longrightarrow> P s1 \<Longrightarrow> P (store_rollback (au_store a) s0 s1)"
  using rollback by (simp add: store bridge_new_def)

lemma on_db_keeps [frame_rules]: "keeps P m \<Longrightarrow> keeps Q (on_db m)"
  by (auto simp: keeps_def Q_def on_db_def split: prod.splits dest: arg_cong [where f = snd])

lemma on_cache_keeps [frame_rules]: "keeps Q (on_cache m)"
  by (auto simp: keeps_def Q_def on_cache_def split: prod.splits)

lemma quiet_keeps: "quiet m \<Longrightarrow> keeps Q m"
  unfolding quiet_def keeps_def Q_def by (metis prod.collapse)

lemma transaction_keeps [frame_rules]:
  "(\<And>cx. keeps Q (f cx)) \<Longrightarrow> keeps Q (transaction a cx f)"
  unfolding transaction_def keeps_def Q_def
  by (auto split: prod.splits sum.splits intro!: rollback_keeps) (metis snd_conv)+

lemma chain_keeps: "benign_chain R fs \<Longrightarrow> keeps Q (chain_run fs cx v)"
proof (induction fs arbitrary: v)
  case (Cons f fs)
  have "keeps Q (f cx v)" using Cons.prems by (auto simp: benign_chain_def intro: quiet_keeps)
  moreover have "keeps Q (chain_run fs cx v')" for v' using Cons by (simp add: benign_chain_def)
  ultimately show ?case by (simp add: keeps_bindE)
qed (simp add: keeps_rules)

lemma observers_keep: "benign_observers R fs \<Longrightarrow> keeps Q (observers_run fs cx v)"
proof (induction fs arbitrary: v)
  case (Cons f fs)
  have "keeps Q (f cx v)" using Cons.prems by (auto simp: benign_observers_def intro: quiet_keeps)
  moreover have "keeps Q (observers_run fs cx v')" for v' using Cons by (simp add: benign_observers_def)
  ultimately show ?case by (simp add: keeps_bind)
qed (simp add: keeps_rules)

lemma hooks_keep [frame_rules]:
  "keeps Q (chain_run (hk_before_sign_up (au_hooks a)) cx up)"
  "keeps Q (observers_run (hk_after_sign_up (au_hooks a)) cx res)"
  "keeps Q (chain_run (hk_before_sign_in (au_hooks a)) cx si)"
  "keeps Q (observers_run (hk_after_sign_in (au_hooks a)) cx res)"
  "keeps Q (chain_run (hk_before_sign_out (au_hooks a)) cx so)"
  "keeps Q (observers_run (hk_after_sign_out (au_hooks a)) cx s)"
  "keeps Q (chain_run (hk_before_user_create (au_hooks a)) cx u)"
  "keeps Q (observers_run (hk_after_user_create (au_hooks a)) cx u)"
  "keeps Q (chain_run (hk_before_session_create (au_hooks a)) cx s)"
  using benign unfolding benign_def benign_hooks_def by (blast intro: chain_keeps observers_keep)+

lemma hasher_keeps [frame_rules]:
  "keeps Q (hash_password (au_hasher a) cx p)" "keeps Q (verify_hash (au_hasher a) cx h p)"
  using benign by (auto simp: benign_def intro: quiet_keeps)

lemma sender_keeps: "au_email a = Some send \<Longrightarrow> keeps Q (send cx m)"
  using benign by (auto simp: benign_def intro: quiet_keeps)

lemma plain_keeps [frame_rules]:
  "keeps Q (now a)" "keeps Q (draw a)" "keeps Q (log_line s)" "keeps Q (record_event ev)"
  "keeps Q (set_dummy h)" "keeps Q get_dummy"
  by (simp_all add: keeps_def Q_def now_def draw_def log_line_def record_event_def set_dummy_def get_dummy_def)

lemma fresh_keeps [frame_rules]: "keeps Q (fresh_id a)" "keeps Q (fresh_token a)"
  unfolding fresh_id_def fresh_token_def by (intro keeps_rules frame_rules)+

lemma publish_keeps [frame_rules]: "keeps Q (publish a cx name subject payload)"
proof -
  have "keeps Q (safe_call cx h ev)" if "h \<in> set (evs_handlers (au_events a) n @ evs_all (au_events a))" for h ev n
  proof -
    have "quiet (h cx ev)" using benign that unfolding benign_def benign_events_def by blast
    then show ?thesis unfolding safe_call_def by (intro keeps_rules frame_rules quiet_keeps)
  qed
  then show ?thesis
    unfolding publish_def events_publish_def by (intro keeps_rules frame_rules) blast
qed

lemma cache_policy_keeps [frame_rules]:
  "keeps Q (cached_session a cx h)" "keeps Q (cache_session a cx s)" "keeps Q (invalidate_sessions a cx ss)"
  "keeps Q (cached_user a cx i)" "keeps Q (cache_user a cx u)" "keeps Q (invalidate_user a cx i)"
  unfolding cached_session_def cache_session_def invalidate_sessions_def cached_user_def cache_user_def
    invalidate_user_def Let_def
  by (intro keeps_rules frame_rules)+

lemma tokens_keep [frame_rules]:
  "keeps Q (issue_token a p s ttl)" "keeps Q (consume_token a p tk)" "keeps Q (revoke_tokens a p s)"
  unfolding issue_token_def consume_token_def revoke_tokens_def by (intro keeps_rules frame_rules)+

lemma users_keep [frame_rules]: "keeps Q (get_user a cx i)" "keeps Q (require_user a cx i)"
  unfolding require_user_def get_user_def by (intro keeps_rules frame_rules)+

lemma new_session_keeps [frame_rules]:
  "keeps Q (new_session a cx i o')" "keeps Q (after_session_created a cx s)"
  unfolding new_session_def after_session_created_def by (intro keeps_rules frame_rules)+

lemma sessions_keep [frame_rules]:
  "keeps Q (create_session a cx i o')" "keeps Q (get_session a cx tk)" "keeps Q (revoke_session_by_id a cx i)"
  unfolding create_session_def get_session_def revoke_session_by_id_def Let_def
  by (intro keeps_rules frame_rules)+

lemma revoke_others_keeps [frame_rules]: "keeps Q (revoke_others a ex t ss)"
proof (induction ss)
  case (Cons s ss)
  show ?case unfolding revoke_others.simps by (intro keeps_rules frame_rules Cons.IH)
qed (simp add: keeps_ok)

lemma revoke_user_sessions_keeps [frame_rules]:
  "keeps Q (revoke_user_sessions_tx a i ex)" "keeps Q (after_sessions_revoked a cx ss)"
  "keeps Q (revoke_user_sessions a cx i ex)"
  unfolding revoke_user_sessions_def revoke_user_sessions_tx_def after_sessions_revoked_def
  by (intro keeps_rules frame_rules)+

lemma keeps_case_prod [frame_rules]: "(\<And>x y. keeps Q (f x y)) \<Longrightarrow> keeps Q (case p of (x, y) \<Rightarrow> f x y)"
  by (cases p) simp

lemma passwords_keep [frame_rules]:
  "keeps Q (password_credential a i)" "keeps Q (dummy_hash a)" "keeps Q (verify_dummy a cx p)"
  "keeps Q (verify_password a cx i p)"
  unfolding verify_password_def verify_dummy_def dummy_hash_def password_credential_def Let_def
  by (intro keeps_rules frame_rules)+

lemma send_verification_keeps [frame_rules]: "keeps Q (send_verification_email a cx u)"
  unfolding send_verification_email_def Let_def
  by (cases "au_email a"; simp only: option.case; intro keeps_rules frame_rules; rule sender_keeps; assumption)

lemma sign_up_keeps [frame_rules]: "keeps Q (sign_up_tx a cx up e h t u)" "keeps Q (sign_up a cx up)"
  unfolding sign_up_def sign_up_tx_def Let_def by (intro keeps_rules frame_rules)+

lemma sign_in_out_keep [frame_rules]: "keeps Q (sign_in a cx si)" "keeps Q (sign_out a cx so)"
  unfolding sign_in_def sign_out_def Let_def by (intro keeps_rules frame_rules)+

lemma change_password_keeps [frame_rules]:
  "keeps Q (rotate_password a i p)" "keeps Q (change_password a cx ci)"
  unfolding change_password_def rotate_password_def Let_def by (intro keeps_rules frame_rules)+

lemma request_reset_keeps [frame_rules]: "keeps Q (request_password_reset a cx i)"
  unfolding request_password_reset_def Let_def
  by (cases "au_email a"; simp only: option.case; intro keeps_rules frame_rules; rule sender_keeps; assumption)

lemma reset_keeps [frame_rules]: "keeps Q (reset_password a cx ri)"
  unfolding reset_password_def Let_def by (intro keeps_rules frame_rules)

lemma verification_keeps [frame_rules]:
  "keeps Q (request_email_verification a cx i)" "keeps Q (verify_email a cx tk)"
  unfolding request_email_verification_def verify_email_def Let_def by (intro keeps_rules frame_rules)+

lemma purge_keeps [frame_rules]: "keeps Q (purge_expired a)"
  unfolding purge_expired_def by (intro keeps_rules frame_rules)

text \<open>Every step of the engine.\<close>

lemma engine_step_keeps: "engine_step a w w' \<Longrightarrow> Q w \<Longrightarrow> Q w'"
  by (induction rule: engine_step.induct) (rule keepsD; (rule frame_rules)?; assumption | simp add: Q_def)+

end

section \<open>The tables of plugins, on memory\<close>

text \<open>The rows of a model, and the schema, are what they were.\<close>

definition table_is :: "runtime \<Rightarrow> string \<Rightarrow> string list list \<Rightarrow> row multiset \<Rightarrow> mem \<Rightarrow> bool" where
  "table_is rt m uq T a \<longleftrightarrow> model_inv rt m uq a \<and> mem_tbl a m = T"

lemma table_is_same:
  "table_is rt m uq T a \<Longrightarrow> table_of a' m = table_of a m \<Longrightarrow> mem_schema a' = mem_schema a \<Longrightarrow> table_is rt m uq T a'"
  by (simp add: table_is_def model_inv_def mem_tbl_def)

lemma other_table:
  assumes "m \<noteq> m'"
  shows "run_state (mem_create rt m' d) a = (r, a') \<Longrightarrow> table_of a' m = table_of a m \<and> mem_schema a' = mem_schema a"
    and "run_state (mem_find_one rt m' w) a = (r', a') \<Longrightarrow> table_of a' m = table_of a m \<and> mem_schema a' = mem_schema a"
    and "run_state (mem_find_many rt q) a = (rs, a') \<Longrightarrow> table_of a' m = table_of a m \<and> mem_schema a' = mem_schema a"
    and "run_state (mem_update rt m' w u) a = (n, a') \<Longrightarrow> table_of a' m = table_of a m \<and> mem_schema a' = mem_schema a"
    and "run_state (mem_delete rt m' w) a = (n, a') \<Longrightarrow> table_of a' m = table_of a m \<and> mem_schema a' = mem_schema a"
  using assms
  by (auto simp: mem_create_def mem_find_one_def mem_find_many_def mem_update_def mem_delete_def Let_def
      table_of_def ensure_table_def split: option.splits if_splits)

lemma table_is_rollback: "table_is rt m uq T s0 \<Longrightarrow> table_is rt m uq T s1 \<Longrightarrow> table_is rt m uq T (mem_rollback s0 s1)"
  by (auto simp: table_is_def mem_rollback_def clone_tables_def model_inv_def mem_tbl_def table_of_def)

lemma memory_frame_any:
  assumes e: "on_memory rt a" and m: "m \<notin> set core_models"
    and same: "\<And>x y. P x \<Longrightarrow> table_of y m = table_of x m \<Longrightarrow> mem_schema y = mem_schema x \<Longrightarrow> P y"
    and rb: "\<And>x y. P x \<Longrightarrow> P y \<Longrightarrow> P (mem_rollback x y)"
  shows "engine_frame a (memory_adapter rt) rt P"
proof (unfold_locales, goal_cases)
  case 1 then show ?case using e by (simp add: on_memory_def mem_store_def)
next
  case 2 then show ?case using e by (simp add: on_memory_def)
next
  case (3 m' d)
  with m have "m \<noteq> m'" by blast
  then show ?case by (intro keepsI) (auto simp: memory_adapter_def dest: other_table(1) intro: same)
next
  case (4 m' w)
  with m have "m \<noteq> m'" by blast
  then show ?case by (intro keepsI) (auto simp: memory_adapter_def dest: other_table(2) intro: same)
next
  case (5 m' w)
  with m have "m \<noteq> m'" by blast
  then show ?case by (intro keepsI) (auto simp: memory_adapter_def dest: other_table(3) intro: same)
next
  case (6 m' w u)
  with m have "m \<noteq> m'" by blast
  then show ?case by (intro keepsI) (auto simp: memory_adapter_def dest: other_table(4) intro: same)
next
  case (7 m' w)
  with m have "m \<noteq> m'" by blast
  then show ?case by (intro keepsI) (auto simp: memory_adapter_def dest: other_table(5) intro: same)
next
  case (8 s0 s1)
  then show ?case using rb by (simp add: memory_adapter_def)
qed

lemma memory_frame:
  "on_memory rt a \<Longrightarrow> m \<notin> set core_models \<Longrightarrow> engine_frame a (memory_adapter rt) rt (table_is rt m uq T)"
  by (rule memory_frame_any) (assumption | erule (2) table_is_same | rule table_is_rollback)+

lemma mem_tbl_rollback: "mem_tbl (mem_rollback x y) m = mem_tbl x m"
  by (simp add: mem_rollback_def clone_tables_def mem_tbl_def table_of_def split: option.split)

lemma memory_frame_rows:
  "on_memory rt a \<Longrightarrow> m \<notin> set core_models \<Longrightarrow> engine_frame a (memory_adapter rt) rt (\<lambda>x. mem_tbl x m = T)"
  by (rule memory_frame_any) (assumption | simp add: mem_tbl_def; fail | simp add: mem_tbl_rollback)+

end
