(* ===== verification/Device_Memory.thy ===== *)
theory Device_Memory
  imports Device_Correct Engine_Frame
begin

text \<open>
  The service of device authorization on the in-memory adapter, beside an engine on memory: it keeps the
  laws of the locale \<open>device\<close>, and the engine leaves its table alone. Steps of the service and of the
  engine, and what every step keeps of the grants.
\<close>

section \<open>The service on memory\<close>

definition device_on_memory :: "runtime \<Rightarrow> (mem, mcache) device_service \<Rightarrow> bool" where
  "device_on_memory rt sv \<longleftrightarrow> ds_adapter sv = memory_adapter rt \<and> au_rt (ds_auth sv) = rt \<and>
     on_memory rt (ds_auth sv) \<and> device_ready sv"

lemma device_model_new: "ModelDeviceGrants \<notin> set core_models"
  by (simp add: core_models_def model_names ModelDeviceGrants_def)

lemma quiet_publish: "benign a \<Longrightarrow> run_state (publish a cx nm sub pl) w = (y, w') \<Longrightarrow> w_db w' = w_db w"
proof -
  assume b: "benign a" and run: "run_state (publish a cx nm sub pl) w = (y, w')"
  have "keeps (\<lambda>x. w_db x = w_db w) (safe_call cx h ev)"
    if "h \<in> set (evs_handlers (au_events a) n @ evs_all (au_events a))" for h ev n
  proof -
    have "quiet (h cx ev)" using b that unfolding benign_def benign_events_def by blast
    then have "keeps (\<lambda>x. w_db x = w_db w) (h cx ev)" unfolding quiet_def by (intro keepsI) metis
    moreover have "keeps (\<lambda>x. w_db x = w_db w) (log_line s)" for s by (simp add: keeps_def log_line_def)
    ultimately show ?thesis unfolding safe_call_def by (intro keeps_rules)
  qed
  moreover have "keeps (\<lambda>x. w_db x = w_db w) (now a)" "keeps (\<lambda>x. w_db x = w_db w) (record_event ev)" for ev
    by (simp_all add: keeps_def now_def record_event_def)
  ultimately have "keeps (\<lambda>x. w_db x = w_db w) (publish a cx nm sub pl)"
    unfolding publish_def events_publish_def by (intro keeps_rules) auto
  from keepsD [OF this _ run] show ?thesis by simp
qed

lemma memory_device:
  assumes ad: "ds_adapter sv = memory_adapter rt" and rt: "au_rt (ds_auth sv) = rt" and e: "on_memory rt (ds_auth sv)"
  shows "device (memory_adapter rt) (model_inv rt ModelDeviceGrants grant_unique) mem_tbl (match_condition rt)
    plain_string sv"
proof (unfold_locales, goal_cases)
  case 1 then show ?case by (rule ad)
next
  case (2 x) then show ?case by (rule plain_no_colon)
next
  case (3 cs s e s') then show ?case by (simp add: memory_adapter_def mem_find_one_Inl)
next
  case (4 cs u s e s') then show ?case
    using mem_update_total [of rt ModelDeviceGrants cs u s] by (auto simp: memory_adapter_def)
next
  case (5 w cx i opts r w')
  note fr = memory_frame [OF e device_model_new]
  from 5(1) have "engine_frame.Q (table_is rt ModelDeviceGrants grant_unique (mem_tbl (w_db w) ModelDeviceGrants)) w"
    by (simp add: engine_frame.Q_def [OF fr] table_is_def)
  with engine_frame.sessions_keep(1) [OF fr] 5(2)
  have "engine_frame.Q (table_is rt ModelDeviceGrants grant_unique (mem_tbl (w_db w) ModelDeviceGrants)) w'"
    by (blast dest: keepsD)
  then show ?case by (simp add: engine_frame.Q_def [OF fr] table_is_def)
next
  case (6 cx nm sub pl w y w') then show ?case using e quiet_publish [OF _ 6] by (simp add: on_memory_def)
qed

definition memory_service ::
  "(mem, mcache) auth \<Rightarrow> mcache counter option \<Rightarrow> device_config \<Rightarrow> (nat \<Rightarrow> time) \<Rightarrow> (mem, mcache) device_service" where
  "memory_service a ctr cfg wall =
     \<lparr>ds_auth = a, ds_adapter = memory_adapter (au_rt a), ds_counter = ctr, ds_cfg = cfg, ds_wall = wall\<rparr>"

interpretation mem_device: device "memory_adapter rt" "model_inv rt ModelDeviceGrants grant_unique" mem_tbl
  "match_condition rt" plain_string "memory_service (memory_auth rt en cn hf vf d s) ctr cfg wall"
  for rt en cn hf vf d s ctr cfg wall
proof (rule memory_device)
  show "on_memory rt (ds_auth (memory_service (memory_auth rt en cn hf vf d s) ctr cfg wall))"
    using memory_auth_ok by (simp add: memory_service_def)
qed (simp_all add: memory_service_def memory_auth_def)

interpretation mem_frame: engine_frame "memory_auth rt en cn hf vf d s" "memory_adapter rt" rt
  "table_is rt ModelDeviceGrants uq T"
  for rt en cn hf vf d s uq T
  by (rule memory_frame [OF memory_auth_ok device_model_new])

text \<open>The grants in a database, and the database being in order for the service.\<close>

definition grant_of :: "runtime \<Rightarrow> row \<Rightarrow> device_grant" where
  "grant_of rt r = (case from_map (grant_repo rt (memory_adapter rt)) r no_grant of Inr g \<Rightarrow> g | Inl _ \<Rightarrow> no_grant)"

definition grants_of :: "runtime \<Rightarrow> (mem, 'c) world \<Rightarrow> device_grant multiset" where
  "grants_of rt w = image_mset (grant_of rt) (mem_tbl (w_db w) ModelDeviceGrants)"

definition device_in_order :: "runtime \<Rightarrow> (mem, 'c) world \<Rightarrow> bool" where
  "device_in_order rt w \<longleftrightarrow> model_inv rt ModelDeviceGrants grant_unique (w_db w) \<and>
     (\<forall>r \<in># mem_tbl (w_db w) ModelDeviceGrants. grant_rep rt plain_string (grant_of rt r) r) \<and>
     grants_ok (grants_of rt w)"

lemma device_view:
  assumes "device_on_memory rt sv"
  shows "device.G mem_tbl sv w = grants_of rt w"
    and "device.ginv (model_inv rt ModelDeviceGrants grant_unique) mem_tbl plain_string sv w \<longleftrightarrow> device_in_order rt w"
proof -
  have m: "ds_adapter sv = memory_adapter rt" "au_rt (ds_auth sv) = rt" "on_memory rt (ds_auth sv)"
    using assms by (simp_all add: device_on_memory_def)
  note d = memory_device [OF m]
  have repo: "device_repo sv = grant_repo rt (memory_adapter rt)" using m by (simp add: device_repo_def)
  show G: "device.G mem_tbl sv w = grants_of rt w"
    unfolding device.G_eq [OF d] repo by (simp add: grants_of_def grant_of_def [abs_def])
  show "device.ginv (model_inv rt ModelDeviceGrants grant_unique) mem_tbl plain_string sv w \<longleftrightarrow> device_in_order rt w"
    unfolding device.ginv_eq [OF d] G repo by (simp add: device_in_order_def grant_of_def m)
qed

text \<open>The specifications of the operations, over the grants in the database.\<close>

lemma on_memory_device:
  "device_on_memory rt sv \<Longrightarrow> device (memory_adapter rt) (model_inv rt ModelDeviceGrants grant_unique) mem_tbl
     (match_condition rt) plain_string sv \<and> device_ready sv \<and> au_rt (ds_auth sv) = rt"
  using memory_device by (auto simp: device_on_memory_def)

lemma mem_device_poll:
  assumes "device_on_memory rt sv" "device_in_order rt w" "\<not> ctx_in_tx cx"
    "run_state (device_poll sv cx inp) w = (r, w')" "po_device_code inp \<noteq> []" "po_client_id inp \<noteq> []"
  shows "device_in_order rt w' \<and> poll_grants (ds_cfg sv) (hash_device_code rt (po_device_code inp)) (po_client_id inp)
    (au_now (ds_auth sv) (w_clock w)) (grants_of rt w) (map_sum id pr_user_id r) (grants_of rt w')"
  using device.device_poll_spec [of "memory_adapter rt" "model_inv rt ModelDeviceGrants grant_unique" mem_tbl
      "match_condition rt" plain_string sv w cx inp r w'] on_memory_device [OF assms(1)] assms(2-)
  unfolding device_view [OF assms(1)] by simp

lemma mem_device_authorize:
  assumes "device_on_memory rt sv" "device_in_order rt w" "\<not> ctx_in_tx cx"
    "run_state (device_authorize sv cx inp) w = (r, w')" "normalize_user_code (az_user_code inp) \<noteq> []"
    "pr_subject (az_principal inp) \<noteq> []"
  shows "device_in_order rt w' \<and> user_grants (authorize_effect (ds_cfg sv) inp (au_now (ds_auth sv) (w_clock w)))
    (normalize_user_code (az_user_code inp)) (grants_of rt w) r (grants_of rt w')"
  using device.device_authorize_spec [of "memory_adapter rt" "model_inv rt ModelDeviceGrants grant_unique" mem_tbl
      "match_condition rt" plain_string sv w cx inp r w'] on_memory_device [OF assms(1)] assms(2-)
  unfolding device_view [OF assms(1)] by simp

lemma mem_device_deny:
  assumes "device_on_memory rt sv" "device_in_order rt w" "\<not> ctx_in_tx cx"
    "run_state (device_deny sv cx inp) w = (r, w')" "normalize_user_code (dn_user_code inp) \<noteq> []"
  shows "device_in_order rt w' \<and> user_grants (deny_effect (au_now (ds_auth sv) (w_clock w)))
    (normalize_user_code (dn_user_code inp)) (grants_of rt w) r (grants_of rt w')"
  using device.device_deny_spec [of "memory_adapter rt" "model_inv rt ModelDeviceGrants grant_unique" mem_tbl
      "match_condition rt" plain_string sv w cx inp r w'] on_memory_device [OF assms(1)] assms(2-)
  unfolding device_view [OF assms(1)] by simp

lemma mem_device_start:
  assumes "device_on_memory rt sv" "device_in_order rt w" "distinct (map fst (si_metadata inp))"
    "run_state (device_start sv cx inp) w = (r, w')"
  shows "device_in_order rt w' \<and> (case r of
      Inl _ \<Rightarrow> grants_of rt w' = grants_of rt w
    | Inr x \<Rightarrow> \<exists>g. started (ds_cfg sv) inp (hash_device_code rt (sa_device_code x)) (sa_user_code x) g \<and>
        grants_of rt w' = add_mset g (grants_of rt w))"
  using device.device_start_spec [of "memory_adapter rt" "model_inv rt ModelDeviceGrants grant_unique" mem_tbl
      "match_condition rt" plain_string sv w inp cx r w'] on_memory_device [OF assms(1)] assms(2-)
  unfolding device_view [OF assms(1)] by (cases r) auto

lemma mem_device_lookup:
  assumes "device_on_memory rt sv" "device_in_order rt w" "run_state (lookup_user_code sv uc) w = (r, w')"
  shows "device_in_order rt w' \<and> grants_of rt w' = grants_of rt w"
  using device.lookup_spec [of "memory_adapter rt" "model_inv rt ModelDeviceGrants grant_unique" mem_tbl
      "match_condition rt" plain_string sv w uc r w'] on_memory_device [OF assms(1)] assms(2-)
  unfolding device_view [OF assms(1)] by simp

lemma device_cache [simp]:
  "device_in_order rt (w\<lparr>w_cache := c\<rparr>) = device_in_order rt w" "grants_of rt (w\<lparr>w_cache := c\<rparr>) = grants_of rt w"
  by (simp_all add: device_in_order_def grants_of_def)

lemma device_in_order_table:
  "device_in_order rt w \<Longrightarrow> table_is rt ModelDeviceGrants grant_unique (mem_tbl (w_db w) ModelDeviceGrants) (w_db w') \<Longrightarrow>
   device_in_order rt w' \<and> grants_of rt w' = grants_of rt w"
  by (simp add: device_in_order_def grants_of_def table_is_def)

text \<open>Checking a user code, with the limiter before it.\<close>

lemma mem_verify_user_code:
  assumes on: "device_on_memory rt sv" and w: "device_in_order rt (dv_world v)"
    and run: "run_state (verify_user_code sv cx inp) v = (r, v')"
  shows "device_in_order rt (dv_world v') \<and> grants_of rt (dv_world v') = grants_of rt (dv_world v)"
proof -
  define P :: "(mem, mcache) device_state \<Rightarrow> bool"
    where "P u \<longleftrightarrow> device_in_order rt (dv_world u) \<and> grants_of rt (dv_world u) = grants_of rt (dv_world v)" for u
  have cache: "keeps P (dev_world (on_cache m))" for m :: "(mcache, 'a) state"
    by (auto simp: keeps_def P_def dev_world_def on_cache_def split: prod.splits)
  have wall: "keeps P (dev_wall sv)" "keeps P (limit_hit k l d t)" for k l d t
    by (auto simp: keeps_def P_def dev_wall_def limit_hit_def split: option.splits prod.splits)
  have look: "keeps P (dev_world (lookup_user_code sv uc))" for uc
    using mem_device_lookup [OF on] by (auto simp: keeps_def P_def dev_world_def split: prod.splits)
  have "keeps P (device_allow sv cx k l d)" for k l d
    unfolding device_allow_def Let_def by (intro keeps_rules cache wall)
  then have "keeps P (verify_user_code sv cx inp)"
    unfolding verify_user_code_def Let_def by (intro keeps_rules look)
  from keepsD [OF this _ run] w show ?thesis by (simp add: P_def)
qed

section \<open>Steps\<close>

text \<open>
  A step of the service, a step of the engine beside it (which includes time passing), or a step of the
  limiter and the check of a code.
\<close>

inductive device_step :: "(mem, mcache) device_service \<Rightarrow> (mem, mcache) world \<Rightarrow> (mem, mcache) world \<Rightarrow> bool" for sv where
  step_start: "distinct (map fst (si_metadata si)) \<Longrightarrow> run_state (device_start sv cx si) w = (r1, w') \<Longrightarrow>
    device_step sv w w'"
| step_poll: "\<not> ctx_in_tx cx \<Longrightarrow> run_state (device_poll sv cx po) w = (r2, w') \<Longrightarrow> device_step sv w w'"
| step_authorize: "\<not> ctx_in_tx cx \<Longrightarrow> run_state (device_authorize sv cx az) w = (r3, w') \<Longrightarrow> device_step sv w w'"
| step_deny: "\<not> ctx_in_tx cx \<Longrightarrow> run_state (device_deny sv cx dn) w = (r3, w') \<Longrightarrow> device_step sv w w'"
| step_verify: "run_state (verify_user_code sv cx vi) v = (r4, v') \<Longrightarrow> device_step sv (dv_world v) (dv_world v')"
| step_engine: "engine_step (ds_auth sv) w w' \<Longrightarrow> device_step sv w w'"

text \<open>
  What a grant can become: who it is for stays, a status other than the three final ones can become one
  of them, an authorized grant can become consumed for the same user, and nothing else changes a status.
\<close>

definition later :: "device_grant \<Rightarrow> device_grant \<Rightarrow> bool" where
  "later g g' \<longleftrightarrow>
     gr_id g' = gr_id g \<and> gr_device_code_hash g' = gr_device_code_hash g \<and> gr_user_code g' = gr_user_code g \<and>
     gr_client_id g' = gr_client_id g \<and> gr_expires_at g' = gr_expires_at g \<and>
     (gr_status g' = gr_status g \<and> gr_user_id g' = gr_user_id g \<or>
      status_error g = None \<and> status_error g' \<noteq> None \<or>
      gr_status g = StatusAuthorized \<and> gr_status g' = StatusConsumed \<and> gr_user_id g' = gr_user_id g)"

definition evolves :: "device_grant multiset \<Rightarrow> device_grant multiset \<Rightarrow> bool" where
  "evolves M M' \<longleftrightarrow> (\<forall>g \<in># M. \<exists>g' \<in># M'. later g g')"

lemma later_refl [simp]: "later g g"
  by (simp add: later_def)

lemma later_trans: "later g g' \<Longrightarrow> later g' g'' \<Longrightarrow> later g g''"
  by (auto simp: later_def status_error_def device_status split: if_splits)

lemma evolves_refl [simp]: "evolves M M"
  unfolding evolves_def using later_refl by blast

lemma evolves_trans: "evolves M M' \<Longrightarrow> evolves M' M'' \<Longrightarrow> evolves M M''"
  unfolding evolves_def using later_trans by meson

lemma evolves_add: "evolves M (add_mset g M)"
  unfolding evolves_def using later_refl by fastforce

lemma evolves_swap: "g \<in># M \<Longrightarrow> later g g' \<Longrightarrow> evolves M (swap g g' M)"
  unfolding evolves_def swap_def by (metis add_mset_remove_trivial_If insert_DiffM insert_iff later_refl set_mset_add_mset_insert)

lemma later_poll: "poll_effect c cl t g = (r, g') \<Longrightarrow> later g g'"
  by (auto simp: poll_effect_def later_def status_error_def device_status split: if_splits)

lemma later_authorize: "later g (snd (authorize_effect c inp t g))"
  by (auto simp: authorize_effect_def later_def status_error_def device_status split: if_splits option.splits)

lemma later_deny: "later g (snd (deny_effect t g))"
  by (auto simp: deny_effect_def later_def status_error_def device_status split: if_splits option.splits)

lemma evolves_user: "user_grants f uc M r M' \<Longrightarrow> (\<And>g. later g (snd (f g))) \<Longrightarrow> evolves M M'"
  by (auto simp: user_grants_def intro: evolves_swap)

lemma evolves_poll: "poll_grants c h cl t M r M' \<Longrightarrow> evolves M M'"
  unfolding poll_grants_def
proof (elim disjE bexE conjE)
  fix g assume g: "g \<in># M" and r: "case poll_effect c cl t g of
      (Inl e, g') \<Rightarrow> r = Inl e \<and> M' = swap g g' M
    | (Inr _, g') \<Rightarrow> (case r of Inl _ \<Rightarrow> M' = M | Inr u \<Rightarrow> u = gr_user_id g \<and> M' = swap g g' M)"
  obtain q g' where q: "poll_effect c cl t g = (q, g')" by (rule prod.exhaust)
  with r have "M' = M \<or> M' = swap g g' M" by (cases q; cases r) auto
  with evolves_swap [OF g later_poll [OF q]] show ?thesis by auto
qed simp

lemma device_step_keeps:
  assumes on: "device_on_memory rt sv" and st: "device_step sv w w'" and w: "device_in_order rt w"
  shows "device_in_order rt w' \<and> evolves (grants_of rt w) (grants_of rt w')"
  using st
proof (cases rule: device_step.cases)
  case (step_start si cx r1)
  with mem_device_start [OF on w step_start] show ?thesis by (cases r1) (auto intro: evolves_add)
next
  case (step_poll cx po r2)
  show ?thesis
  proof (cases "po_device_code po = [] \<or> po_client_id po = []")
    case True
    with step_poll w show ?thesis by (auto simp: device_poll_def)
  next
    case False
    with mem_device_poll [OF on w step_poll] show ?thesis by (auto intro: evolves_poll)
  qed
next
  case (step_authorize cx az r3)
  show ?thesis
  proof (cases "normalize_user_code (az_user_code az) = [] \<or> pr_subject (az_principal az) = []")
    case True
    with step_authorize w show ?thesis by (auto simp: device_authorize_def)
  next
    case False
    with mem_device_authorize [OF on w step_authorize] show ?thesis by (auto intro: evolves_user later_authorize)
  qed
next
  case (step_deny cx dn r3)
  show ?thesis
  proof (cases "normalize_user_code (dn_user_code dn) = []")
    case True
    with step_deny w show ?thesis by (auto simp: device_deny_def)
  next
    case False
    with mem_device_deny [OF on w step_deny] show ?thesis by (auto intro: evolves_user later_deny)
  qed
next
  case (step_verify cx vi v r4 v')
  with mem_verify_user_code [OF on _ step_verify(3)] w show ?thesis by simp
next
  case step_engine
  have e: "on_memory rt (ds_auth sv)" using on by (simp add: device_on_memory_def)
  note fr = memory_frame [OF e device_model_new]
  have "table_is rt ModelDeviceGrants grant_unique (mem_tbl (w_db w) ModelDeviceGrants) (w_db w)"
    using w by (simp add: table_is_def device_in_order_def)
  with engine_frame.engine_step_keeps [OF fr step_engine]
  have "table_is rt ModelDeviceGrants grant_unique (mem_tbl (w_db w) ModelDeviceGrants) (w_db w')"
    by (simp add: engine_frame.Q_def [OF fr])
  from device_in_order_table [OF w this] show ?thesis by simp
qed

lemma device_run_keeps:
  assumes "rtranclp (device_step sv) w w'" "device_on_memory rt sv" "device_in_order rt w"
  shows "device_in_order rt w' \<and> evolves (grants_of rt w) (grants_of rt w')"
  using assms
proof (induction rule: rtranclp_induct)
  case (step y z)
  with device_step_keeps [OF step.prems(1) step.hyps(2)] show ?case by (blast intro: evolves_trans)
qed simp

end
