(* ===== verification/Timed_Samples.thy ===== *)
theory Timed_Samples
  imports Samples Sdk_Correct
begin

text \<open>
  A concrete engine with instants that can be written and read back, for the witnesses of the plugins,
  and what the adapter in memory does to a table of one row.
\<close>

text \<open>Instants as binary texts, least bit first, behind a sign.\<close>

fun bits_text :: "nat \<Rightarrow> string" where
  "bits_text n = (if n = 0 then [] else (if even n then CHR ''0'' else CHR ''1'') # bits_text (n div 2))"

declare bits_text.simps [simp del]

fun text_bits :: "string \<Rightarrow> nat" where
  "text_bits [] = 0"
| "text_bits (c # cs) = (if c = CHR ''1'' then 1 else 0) + 2 * text_bits cs"

lemma text_bits_text: "text_bits (bits_text n) = n"
  by (induction n rule: bits_text.induct) (subst bits_text.simps, auto)

definition timed_runtime :: runtime where
  "timed_runtime = sample_runtime\<lparr>
     format_time := (\<lambda>t. (if t < 0 then CHR ''-'' else CHR ''+'') # bits_text (nat \<bar>t\<bar>)),
     read_time := (\<lambda>s. case s of [] \<Rightarrow> None
       | c # cs \<Rightarrow> Some (if c = CHR ''-'' then - int (text_bits cs) else int (text_bits cs)))\<rparr>"

definition timed_auth :: "(mem, mcache) auth" where
  "timed_auth = memory_auth timed_runtime sample_entropy None Inr sample_verify (\<lambda>_. 0) sample_settings"

lemma time_text_timed: "time_text timed_runtime"
  by (auto simp: time_text_def timed_runtime_def text_bits_text)

lemma passing_still [simp]: "passing (\<lambda>_. 0) n = 1"
  by (induction n) auto

lemma timed_auth_simps [simp]:
  "au_rt timed_auth = timed_runtime"
  "au_store timed_auth = mem_store timed_runtime" "au_cache timed_auth = None" "au_hooks timed_auth = no_hooks"
  "au_events timed_auth = new_events" "au_now timed_auth = passing (\<lambda>_. 0)"
  "au_entropy timed_auth = sample_entropy" "au_settings timed_auth = sample_settings"
  by (simp_all add: timed_auth_def memory_auth_def)

lemma timed_auth_on: "on_memory timed_runtime timed_auth"
  unfolding timed_auth_def by (rule memory_auth_ok)

lemma find_only:
  "ts m = Some [(i, r)] \<Longrightarrow> run_state (mem_find_one timed_runtime m w) \<lparr>mem_schema = sc, mem_tables = ts\<rparr> =
    ((if match_conditions timed_runtime w r then Inr r else Inl AdapterNotFound), \<lparr>mem_schema = sc, mem_tables = ts\<rparr>)"
  by (simp add: mem_find_one_def iterate_def Let_def timed_runtime_def sample_runtime_def)

lemma update_only:
  "ts m = Some [(i, r)] \<Longrightarrow> run_state (mem_update rt m w u) \<lparr>mem_schema = sc, mem_tables = ts\<rparr> =
    (Inr (if match_conditions rt w r then 1 else 0),
     \<lparr>mem_schema = sc, mem_tables = ts(m \<mapsto> [(i, if match_conditions rt w r then r ++ u else r)])\<rparr>)"
  by (simp add: mem_update_def)

lemma memory_ops:
  "ad_find_one (memory_adapter rt) = mem_find_one rt" "ad_update (memory_adapter rt) = mem_update rt"
  "ad_create (memory_adapter rt) = mem_create rt" "ad_rollback (memory_adapter rt) = mem_rollback"
  by (simp_all add: memory_adapter_def)

lemma fresh_timed:
  "run_state (fresh_id timed_auth) w = (sample_id (w_draws w), w\<lparr>w_draws := Suc (w_draws w)\<rparr>)"
  "run_state (fresh_token timed_auth) w = (sample_token (w_draws w), w\<lparr>w_draws := Suc (w_draws w)\<rparr>)"
  by (simp_all add: fresh_id_def fresh_token_def draw_def sample_id_def sample_token_def)

end
