(* ===== verification/Device_Properties.thy ===== *)
theory Device_Properties
  imports Device_Memory Timed_Samples
begin

text \<open>
  What device authorization guarantees on memory: polling refines the grant machine, a device code gives
  at most one session, and that session is the authorizing user's; the witnesses run on a database
  with one authorized grant.
\<close>

section \<open>The session of a poll\<close>

context engine
begin

lemma create_session_joined:
  assumes g: "good w" and cx: "ctx_in_tx cx" and run: "run_state (create_session a cx uid opts) w = (Inr x, w')"
  shows "good w' \<and> issued_ok uid x \<and> (\<exists>u \<in># db_users (V w). user_id u = uid) \<and>
    V w' = (V w)\<lparr>db_sessions := add_mset (iss_session x) (db_sessions (V w))\<rparr>"
proof -
  obtain p w1 where p: "run_state (on_db (users_get_by_id (au_store a) uid)) w = (p, w1)" by (rule prod.exhaust)
  note rd = read_user [OF good_Inv [OF g] p]
  from run p cx obtain u where u: "p = Inr u" by (cases p) (auto simp: create_session_def transaction_def)
  obtain q w2 where q: "run_state (new_session a cx uid opts) w = (q, w2)" by (rule prod.exhaust)
  from run p rd u q cx have qx: "q = Inr x" by (cases q) (auto simp: create_session_def transaction_def split: prod.splits)
  obtain y w3 where y: "run_state (after_session_created a cx (iss_session x)) w2 = (y, w3)" by (rule prod.exhaust)
  from run p rd u q qx y cx have w': "w' = w3" by (auto simp: create_session_def transaction_def)
  note n = new_session_spec [OF good_Inv [OF g] q] 
  with qx have "good w2" by (intro good_grow [OF g]) auto
  moreover have "iss_session x \<in># db_sessions (V w2)" using n qx by simp
  ultimately have "good w3 \<and> same_db w2 w3" by (rule after_session_created_spec [OF _ _ y])
  then show ?thesis using n qx w' u rd same_db_V by (auto simp: got_def)
qed

end

lemma grant_update_stored:
  assumes "mem_store_inv rt s" "run_state (mem_update rt ModelDeviceGrants w u) s = (Inr n, s1)" "u ''id'' = None"
  shows "mem_store_inv rt s1 \<and> mem_store_view rt s1 = mem_store_view rt s"
proof -
  have "mem_inv rt s1 \<and> mem_tbl s1 = (mem_tbl s)(ModelDeviceGrants := image_mset
      (\<lambda>r. if sats (match_condition rt) w r then r ++ u else r) (mem_tbl s ModelDeviceGrants))"
    using mem_update_Inr [of rt s u ModelDeviceGrants w n s1] assms by (simp add: mem_store_inv_def)
  moreover from this have core: "mem_tbl s1 m = mem_tbl s m" if "m \<in> set core_models" for m
    using that device_model_new by auto
  ultimately show ?thesis using assms(1) by (simp add: mem_store_inv_def mem_store_view_def view_of_def core)
qed

lemma in_order_update:
  assumes e: "on_memory rt a" and o': "in_order rt a w"
    and up: "run_state (mem_update rt ModelDeviceGrants cs u) (w_db w) = (Inr n, s1)" "u ''id'' = None"
  shows "in_order rt a (w\<lparr>w_clock := Suc (w_clock w), w_db := s1\<rparr>)"
proof -
  note en = on_memory_engine [OF e]
  have i: "mem_store_inv rt (w_db w)"
    using o' by (simp add: in_order_def engine.sound_def [OF en] engine.good_def [OF en] engine.Inv_def [OF en])
  have c: "in_order rt a (w\<lparr>w_clock := Suc (w_clock w)\<rparr>)"
    using o' engine.sound_wait [OF en, of w "Suc (w_clock w)"] by (simp add: in_order_def)
  note st = grant_update_stored [OF i up]
  show ?thesis
    using c st unfolding in_order_def engine.sound_def [OF en] engine.good_def [OF en] engine.coherent_def [OF en]
      engine.plain_subjects_def [OF en] engine.Inv_def [OF en] engine.V_def [OF en] engine.cv_def [OF en]
      engine.lapsed_def [OF en]
    by simp
qed


section \<open>What the operations do\<close>


lemma poll_granted:
  assumes "poll_grants c h cl t M (Inr u) M'"
  obtains g g' where "g \<in># M" "gr_device_code_hash g = h" "u = gr_user_id g" "poll_effect c cl t g = (Inr (), g')"
    "M' = swap g g' M" "gr_status g' = StatusConsumed" "gr_device_code_hash g' = h"
proof -
  from assms obtain g where g: "g \<in># M" "gr_device_code_hash g = h" and r: "case poll_effect c cl t g of
      (Inl e, g') \<Rightarrow> Inr u = Inl e \<and> M' = swap g g' M
    | (Inr _, g') \<Rightarrow> (case Inr u of Inl (_ :: err) \<Rightarrow> M' = M | Inr u \<Rightarrow> u = gr_user_id g \<and> M' = swap g g' M)"
    by (auto simp: poll_grants_def)
  obtain q g' where q: "poll_effect c cl t g = (q, g')" by (rule prod.exhaust)
  with r have "q = Inr ()" "u = gr_user_id g" "M' = swap g g' M" by (cases q; simp)+
  moreover have "gr_status g' = StatusConsumed" "gr_device_code_hash g' = gr_device_code_hash g"
    using q calculation(1) by (auto simp: poll_effect_def split: if_splits)
  ultimately show thesis using that [OF g] q g(2) by simp
qed

text \<open>C18: A device code is good for one session: when two polls with the same code are made, with any steps of
  the service and of the engine between them, at most one of them succeeds.\<close>

theorem device_code_single_use:
  assumes "device_on_memory rt sv" "device_in_order rt w0"
    and "\<not> ctx_in_tx cx1" "run_state (device_poll sv cx1 p1) w0 = (r1, w1)"
    and "rtranclp (device_step sv) w1 w2"
    and "\<not> ctx_in_tx cx2" "run_state (device_poll sv cx2 p2) w2 = (r2, w3)"
    and "po_device_code p2 = po_device_code p1"
  shows "isl r1 \<or> isl r2"
proof (rule ccontr)
  assume "\<not> (isl r1 \<or> isl r2)"
  then obtain x1 x2 where x: "r1 = Inr x1" "r2 = Inr x2" by (cases r1; cases r2) auto
  let ?h = "hash_device_code rt (po_device_code p1)"
  have in1: "po_device_code p1 \<noteq> []" "po_client_id p1 \<noteq> []" and in2: "po_client_id p2 \<noteq> []"
    using assms(4,7) x by (auto simp: device_poll_def split: if_splits)
  note m1 = mem_device_poll [OF assms(1,2,3,4) in1]
  then have "poll_grants (ds_cfg sv) ?h (po_client_id p1) (au_now (ds_auth sv) (w_clock w0)) (grants_of rt w0)
      (Inr (pr_user_id x1)) (grants_of rt w1)" using x(1) by simp
  then obtain g where g: "g \<in># grants_of rt w1" "gr_device_code_hash g = ?h" "gr_status g = StatusConsumed"
    by (rule poll_granted) (auto simp: swap_def)
  note m2 = device_run_keeps [OF assms(5,1) conjunct1 [OF m1]]
  with g obtain g' where g': "g' \<in># grants_of rt w2" "later g g'" by (auto simp: evolves_def)
  with g have c: "gr_device_code_hash g' = ?h" "gr_status g' = StatusConsumed"
    by (auto simp: later_def status_error_def device_status split: if_splits)
  have "po_device_code p2 \<noteq> []" using in1 assms(8) by simp
  from mem_device_poll [OF assms(1) conjunct1 [OF m2] assms(6,7) this in2]
  have "poll_grants (ds_cfg sv) ?h (po_client_id p2) (au_now (ds_auth sv) (w_clock w2)) (grants_of rt w2)
      (Inr (pr_user_id x2)) (grants_of rt w3)" using assms(8) x(2) by simp
  then obtain y g'' where y: "y \<in># grants_of rt w2" "gr_device_code_hash y = ?h"
    "poll_effect (ds_cfg sv) (po_client_id p2) (au_now (ds_auth sv) (w_clock w2)) y = (Inr (), g'')"
    by (rule poll_granted)
  have "y = g'"
    using m2 y(1,2) g'(1) c(1) by (intro uniq_eq [of gr_device_code_hash "grants_of rt w2"])
      (auto simp: device_in_order_def grants_ok_def)
  with y(3) c(2) show False by (auto simp: poll_effect_def split: if_splits)
qed

text \<open>C21: Whatever steps the service and the engine take, a grant stays for the same codes and the same client, a
  final status is never left except from authorized to consumed, and the user of an authorized
  grant never changes.\<close>

theorem device_grants_evolve:
  assumes "device_on_memory rt sv" "device_in_order rt w" "rtranclp (device_step sv) w w'" "g \<in># grants_of rt w"
  shows "\<exists>g' \<in># grants_of rt w'. later g g'"
  using device_run_keeps [OF assms(3,1,2)] assms(4) by (simp add: evolves_def)

text \<open>C22: Authorizing and denying on memory are transitions of the grant machine: they act on the grant with
  the normalized user code, refuse an expired one or one that has an answer already, and change no
  other grant.\<close>

theorem device_answers_refine:
  assumes "device_on_memory rt sv" "device_in_order rt w" "\<not> ctx_in_tx cx"
    "normalize_user_code uc \<noteq> []" "pr_subject p \<noteq> []"
  shows "(case run_state (device_authorize sv cx \<lparr>az_user_code = uc, az_principal = p, az_scope = sc\<rparr>) w of (r, w1) \<Rightarrow>
      user_grants (authorize_effect (ds_cfg sv) \<lparr>az_user_code = uc, az_principal = p, az_scope = sc\<rparr>
        (au_now (ds_auth sv) (w_clock w))) (normalize_user_code uc) (grants_of rt w) r (grants_of rt w1)) \<and>
    (case run_state (device_deny sv cx \<lparr>dn_user_code = uc, dn_principal = p\<rparr>) w of (r, w1) \<Rightarrow>
      user_grants (deny_effect (au_now (ds_auth sv) (w_clock w))) (normalize_user_code uc)
        (grants_of rt w) r (grants_of rt w1))"
  using mem_device_authorize [OF assms(1-3), of "\<lparr>az_user_code = uc, az_principal = p, az_scope = sc\<rparr>"]
    mem_device_deny [OF assms(1-3), of "\<lparr>dn_user_code = uc, dn_principal = p\<rparr>"] assms(4,5)
  by (auto split: prod.split)

text \<open>Starting adds one pending grant for the client with the codes that are answered, and only that; when
  it fails, after three clashes or another error, it adds nothing.\<close>

theorem device_start_fresh:
  assumes "device_on_memory rt sv" "device_in_order rt w" "distinct (map fst (si_metadata inp))"
    "run_state (device_start sv cx inp) w = (r, w')"
  shows "device_in_order rt w' \<and> (case r of
      Inl _ \<Rightarrow> grants_of rt w' = grants_of rt w
    | Inr x \<Rightarrow> \<exists>g. started (ds_cfg sv) inp (hash_device_code rt (sa_device_code x)) (sa_user_code x) g \<and>
        grants_of rt w' = add_mset g (grants_of rt w))"
  by (rule mem_device_start [OF assms])

section \<open>User codes\<close>

lemma code_letters: "c \<in> set user_code_charset \<Longrightarrow> upper_char c = c \<and> upper_char (lower_char c) = c \<and> \<not> space_char c \<and>
    \<not> space_char (lower_char c) \<and> c \<noteq> CHR ''-'' \<and> c \<noteq> CHR '' '' \<and> lower_char c \<noteq> CHR ''-'' \<and> lower_char c \<noteq> CHR '' ''"
proof -
  have "\<forall>c \<in> set user_code_charset. upper_char c = c \<and> upper_char (lower_char c) = c \<and> \<not> space_char c \<and>
    \<not> space_char (lower_char c) \<and> c \<noteq> CHR ''-'' \<and> c \<noteq> CHR '' '' \<and> lower_char c \<noteq> CHR ''-'' \<and> lower_char c \<noteq> CHR '' ''"
    by code_simp
  then show "c \<in> set user_code_charset \<Longrightarrow> ?thesis" by blast
qed

lemma user_code_letters:
  obtains a b c d e f g h where "user_code_of (random_bytes src 8) = [a, b, c, d, CHR ''-'', e, f, g, h]"
    "{a, b, c, d, e, f, g, h} \<subseteq> set user_code_charset"
proof (rule that)
  show "user_code_of (random_bytes src 8) = [user_code_charset ! unat (src 0 mod of_nat (length user_code_charset)),
      user_code_charset ! unat (src 1 mod of_nat (length user_code_charset)),
      user_code_charset ! unat (src 2 mod of_nat (length user_code_charset)),
      user_code_charset ! unat (src 3 mod of_nat (length user_code_charset)), CHR ''-'',
      user_code_charset ! unat (src 4 mod of_nat (length user_code_charset)),
      user_code_charset ! unat (src 5 mod of_nat (length user_code_charset)),
      user_code_charset ! unat (src 6 mod of_nat (length user_code_charset)),
      user_code_charset ! unat (src 7 mod of_nat (length user_code_charset))]"
    by (simp add: user_code_of_def random_bytes_def upt_rec numeral_eq_Suc)
qed (use user_code_char in auto)

text \<open>A user code the service makes is recognized however it is typed: as it is, in lower case, without
  the dash, or with spaces around it, it normalizes to the code that is stored.\<close>

theorem user_code_normalizes:
  "case user_code_of (random_bytes src 8) of c \<Rightarrow>
     normalize_user_code c = c \<and> normalize_user_code (to_lower c) = c \<and>
     normalize_user_code (replace_char (CHR ''-'') [] c) = c \<and> normalize_user_code ('' '' @ c @ '' '') = c"
proof -
  obtain a b c d e f g h where u: "user_code_of (random_bytes src 8) = [a, b, c, d, CHR ''-'', e, f, g, h]"
    and l: "{a, b, c, d, e, f, g, h} \<subseteq> set user_code_charset" by (rule user_code_letters)
  have "x \<in> set user_code_charset" if "x \<in> {a, b, c, d, e, f, g, h}" for x using l that by blast
  from this [THEN code_letters] have x: "upper_char x = x" "upper_char (lower_char x) = x" "\<not> space_char x"
    "\<not> space_char (lower_char x)" "x \<noteq> CHR ''-''" "x \<noteq> CHR '' ''" "lower_char x \<noteq> CHR ''-''" "lower_char x \<noteq> CHR '' ''"
    if "x \<in> {a, b, c, d, e, f, g, h}" for x using that by blast+
  have dash: "upper_char (CHR ''-'') = CHR ''-''" "lower_char (CHR ''-'') = CHR ''-''" "space_char (CHR '' '')"
    "upper_char (CHR '' '') = CHR '' ''" by code_simp+
  show ?thesis
    by (simp add: u normalize_user_code_def trim_space_def to_upper_def to_lower_def replace_char_def x dash Let_def)
qed

section \<open>What the engine leaves alone\<close>

text \<open>C38: Whatever the engine does, the table of a model it does not own (that of a plugin) holds the rows it
  held: signing up and in, sessions, passwords, tokens, purging and their failed transactions work on
  the core models only.\<close>

theorem engine_leaves_plugin_tables:
  assumes "on_memory rt a" "m \<notin> set core_models" "reachable a w0 w"
  shows "mem_tbl (w_db w) m = mem_tbl (w_db w0) m"
  using assms(3)
proof (induction rule: reachable.induct)
  case (step w w')
  note fr = memory_frame_rows [OF assms(1,2), of "mem_tbl (w_db w0) m"]
  from engine_frame.engine_step_keeps [OF fr step.hyps(2)] step.IH show ?case
    by (simp add: engine_frame.Q_def [OF fr])
qed simp

section \<open>A database with a grant\<close>

definition device_sample :: "(mem, mcache) device_service" where
  "device_sample = memory_service timed_auth None default_device_config (\<lambda>_. 0)"

definition sample_grant :: device_grant where
  "sample_grant = \<lparr>gr_id = ''g'', gr_client_id = ''tv'', gr_device_code_hash = hash_device_code timed_runtime ''code'',
     gr_user_code = ''BCDF-GHJK'', gr_status = StatusAuthorized, gr_user_id = sample_id 0, gr_scope = [],
     gr_metadata = [], gr_expires_at = 9, gr_last_polled_at = None, gr_polling_interval = 5,
     gr_failed_attempts = 0, gr_authorized_at = Some 1, gr_consumed_at = None, gr_created_at = 1,
     gr_updated_at = 1\<rparr>"

definition sample_grant_row :: row where
  "sample_grant_row = [''id'' \<mapsto> VStr ''g'', ''client_id'' \<mapsto> VStr ''tv'',
     ''device_code_hash'' \<mapsto> VStr (hash_device_code timed_runtime ''code''), ''user_code'' \<mapsto> VStr ''BCDF-GHJK'',
     ''status'' \<mapsto> VStr StatusAuthorized, ''user_id'' \<mapsto> VStr (sample_id 0), ''scope'' \<mapsto> VStr [],
     ''expires_at'' \<mapsto> VTime 9, ''polling_interval'' \<mapsto> VFloat 5 1, ''failed_attempts'' \<mapsto> VFloat 0 1,
     ''authorized_at'' \<mapsto> VTimePtr (Some 1), ''created_at'' \<mapsto> VTime 1, ''updated_at'' \<mapsto> VTime 1]"

definition device_schema :: schema where
  "device_schema = sample_schema @ [(ModelDeviceGrants, device_grant_model)]"

definition device_tables :: "string \<rightharpoonup> table" where
  "device_tables = empty_tables(ModelUsers \<mapsto> [(sample_id 0, user_row sample_user)],
     ModelDeviceGrants \<mapsto> [(''g'', sample_grant_row)])"

definition device_world :: "(mem, mcache) world" where
  "device_world = start_world \<lparr>mem_schema = Some device_schema, mem_tables = device_tables\<rparr>"

lemma five_seconds: "whole_seconds (5 * second) = 5"
  by code_simp

lemma device_sample_simps [simp]:
  "ds_auth device_sample = timed_auth" "ds_adapter device_sample = memory_adapter timed_runtime"
  "ds_cfg device_sample = default_device_config"
  by (simp_all add: device_sample_def memory_service_def)

lemma device_sample_on: "device_on_memory timed_runtime device_sample"
  using timed_auth_on time_text_timed five_seconds
  by (simp add: device_on_memory_def device_ready_def json_time_ok_def default_device_config_def duration_units)

lemma device_names [simp]:
  "ModelDeviceGrants \<noteq> ModelUsers" "ModelDeviceGrants \<noteq> ModelAccounts" "ModelDeviceGrants \<noteq> ModelCredentials"
  "ModelDeviceGrants \<noteq> ModelSessions" "ModelDeviceGrants \<noteq> ModelVerifications"
  "ModelUsers \<noteq> ModelDeviceGrants" "ModelAccounts \<noteq> ModelDeviceGrants" "ModelCredentials \<noteq> ModelDeviceGrants"
  "ModelSessions \<noteq> ModelDeviceGrants" "ModelVerifications \<noteq> ModelDeviceGrants"
  by (simp_all add: model_names ModelDeviceGrants_def)

lemma device_schema_models:
  "map_of device_schema ModelDeviceGrants = Some device_grant_model"
  "map_of device_schema m = (if m = ModelDeviceGrants then Some device_grant_model else map_of sample_schema m)"
  by (auto simp: device_schema_def conjunct1 [OF sample_schema_eq])

lemma device_model_unique:
  "m_primary_key device_grant_model = ''id'' \<and> list_all (declares_unique device_grant_model) grant_unique"
  by code_simp

lemma sample_grant_rep: "grant_rep timed_runtime plain_string sample_grant sample_grant_row"
  using time_text_timed
  by (simp add: grant_rep_def sample_grant_def sample_grant_row_def rep_defs json_time_ok_def duration_units
      plain_no_colon hash_device_code_def hex_encode_colon)

lemma sample_grant_of: "grant_of timed_runtime sample_grant_row = sample_grant"
  by (simp add: grant_of_def from_map_grant [OF sample_grant_rep disjI1 [OF refl]])

lemma device_world_grants: "grants_of timed_runtime device_world = {#sample_grant#}"
  by (simp add: grants_of_def device_world_def start_world_def mem_tbl_def table_of_def device_tables_def rows_of_def
      sample_grant_of)

lemma device_world_in_order: "device_in_order timed_runtime device_world"
proof -
  have t: "table_of (w_db device_world) ModelDeviceGrants = [(''g'', sample_grant_row)]"
    by (simp add: device_world_def start_world_def table_of_def device_tables_def)
  have "keyed_by_id timed_runtime (''g'', sample_grant_row)"
    by (simp add: keyed_by_id_def sample_grant_row_def)
  then have "model_inv timed_runtime ModelDeviceGrants grant_unique (w_db device_world)"
    using t device_model_unique
    by (simp add: model_inv_def device_world_def start_world_def device_schema_models)
  moreover have "grants_ok {#sample_grant#}" by (simp add: grants_ok_def uniq_def)
  ultimately show ?thesis
    using device_world_grants sample_grant_rep t
    by (simp add: device_in_order_def mem_tbl_def rows_of_def sample_grant_of)
qed

lemma device_world_engine: "in_order timed_runtime timed_auth device_world"
proof -
  have tables: "table_of (w_db device_world) m = (if m = ModelUsers then [(sample_id 0, user_row sample_user)]
      else if m = ModelDeviceGrants then [(''g'', sample_grant_row)] else [])" for m
    by (auto simp: device_world_def start_world_def table_of_def device_tables_def empty_tables_def)
  have "core_ready device_schema" by code_simp
  moreover have "keyed_by_id timed_runtime (sample_id 0, user_row sample_user)"
    by (simp add: keyed_by_id_def user_row_def sample_user_def)
  ultimately have "mem_inv timed_runtime (w_db device_world)"
    by (simp add: mem_inv_def tables core_models_def, intro exI [of _ device_schema])
      (simp add: device_world_def start_world_def)
  moreover have "table_ok plain_string m (mem_tbl (w_db device_world) m)" if "m \<in> set core_models" for m
    using that row_ok_rows(1) [of plain_string sample_user]
    by (auto simp: table_ok_def mem_tbl_def tables rows_of_def core_models_def uniq_def sample_user_def)
  ultimately have i: "mem_store_inv timed_runtime (w_db device_world)" by (simp add: mem_store_inv_def)
  have v: "mem_store_view timed_runtime (w_db device_world) = db_empty\<lparr>db_users := {#sample_user#}\<rparr>"
    by (simp add: mem_store_view_def view_of_def mem_tbl_def tables rows_of_def to_user_row db_empty_def)
  note en = on_memory_engine [OF timed_auth_on]
  show ?thesis
    unfolding in_order_def engine.sound_def [OF en] engine.good_def [OF en] engine.coherent_def [OF en]
      engine.plain_subjects_def [OF en] engine.Inv_def [OF en] engine.V_def [OF en] engine.cv_def [OF en] v
    using i by (simp add: db_empty_def)
qed

text \<open>Polling there succeeds.\<close>

definition sample_poll :: poll_input where
  "sample_poll = \<lparr>po_device_code = ''code'', po_client_id = ''tv'',
     po_session = \<lparr>opt_ip_address = [], opt_user_agent = []\<rparr>\<rparr>"

lemma create_session_only:
  "ts ModelSessions = Some [] \<Longrightarrow> d ''id'' = Some (VStr i) \<Longrightarrow> i \<noteq> [] \<Longrightarrow>
   run_state (mem_create rt ModelSessions d) \<lparr>mem_schema = Some device_schema, mem_tables = ts\<rparr> =
    (Inr d, \<lparr>mem_schema = Some device_schema, mem_tables = ts(ModelSessions \<mapsto> [(i, d)])\<rparr>)"
  by (auto simp: mem_create_def Let_def row_get_def ensure_table_def table_of_def mem_get_model_def get_model_def
      device_schema_models sample_map_of clone_model_def
      list_ex_iff field_conflict_def index_conflict_def split: option.splits)

lemma sample_poll_succeeds: "\<exists>x. fst (run_state (device_poll device_sample background sample_poll) device_world) = Inr x"
proof -
  have fm: "from_map (grant_repo timed_runtime (memory_adapter timed_runtime)) sample_grant_row no_grant = Inr sample_grant"
    by (rule from_map_grant [OF sample_grant_rep disjI1 [OF refl]])
  have mt: "match_conditions timed_runtime [Eq ''device_code_hash'' (VStr (hash_device_code timed_runtime ''code''))] sample_grant_row"
    "match_conditions timed_runtime [Eq ''id'' (VStr ''g'')] sample_grant_row"
    "match_conditions timed_runtime [Eq ''id'' (VStr (sample_id 0))] (user_row sample_user)"
    by (simp_all add: match_eq_str match_nil sample_grant_row_def user_row_def sample_user_def plain_no_colon
        hash_device_code_def hex_encode_colon)
  show ?thesis
    apply (simp add: device_poll_def sample_poll_def Let_def now_def adapter_transaction_def background_def with_tx_def
        poll_tx_def on_db_def repo_find_one_def device_repo_def device_world_def start_world_def memory_ops
        find_only device_tables_def mt fm)
    apply (simp add: poll_found_def Let_def on_db_def repo_update_def device_repo_def memory_ops update_only mt
        sample_grant_def grant_expired_def device_status)
    apply (simp add: create_session_def transaction_def on_db_def mem_store_def bridge_new_def user_get_by_id_def
        memory_ops find_only mt new_session_def session_create_def now_def fresh_timed no_hooks_def)
    apply (simp add: create_session_only [where i = "sample_id (Suc 0)"] session_row_def conflict_err_def
        after_session_created_def cache_session_def publish_def now_def record_event_def events_publish_def new_events_def)
    done
qed

section \<open>Witnesses\<close>

lemma background_simps: "\<not> ctx_in_tx background"
  by (simp add: background_def)

lemma sample_poll_simps: "po_device_code sample_poll = ''code''" "po_client_id sample_poll = ''tv''"
  by (simp_all add: sample_poll_def)



theorem device_code_single_use_witness:
  "isl (fst (run_state (device_poll device_sample background sample_poll)
     (snd (run_state (device_poll device_sample background sample_poll) device_world))))"
proof -
  let ?w1 = "snd (run_state (device_poll device_sample background sample_poll) device_world)"
  obtain r1 w1 where r1: "run_state (device_poll device_sample background sample_poll) device_world = (r1, w1)"
    by (rule prod.exhaust)
  obtain r2 w2 where r2: "run_state (device_poll device_sample background sample_poll) w1 = (r2, w2)"
    by (rule prod.exhaust)
  have b: "\<not> ctx_in_tx background" by (simp add: background_def)
  have "isl r1 \<or> isl r2"
    by (rule device_code_single_use [OF device_sample_on device_world_in_order b r1 rtranclp.rtrancl_refl b r2 refl])
  then show ?thesis using sample_poll_succeeds r1 r2 by auto
qed

theorem device_grants_evolve_witness:
  "\<exists>g' \<in># grants_of timed_runtime (snd (run_state (device_poll device_sample background sample_poll) device_world)).
     later sample_grant g'"
proof -
  obtain r w1 where r: "run_state (device_poll device_sample background sample_poll) device_world = (r, w1)"
    by (rule prod.exhaust)
  have "\<not> ctx_in_tx background" by (simp add: background_def)
  from step_poll [OF this r] have "rtranclp (device_step device_sample) device_world w1" by simp
  from device_grants_evolve [OF device_sample_on device_world_in_order this] r show ?thesis
    by (simp add: device_world_grants)
qed

theorem device_answers_refine_witness:
  "case run_state (device_deny device_sample background
      \<lparr>dn_user_code = ''bcdfghjk'', dn_principal = \<lparr>pr_subject = sample_id 0, pr_type = PrincipalUser\<rparr>\<rparr>) device_world of
     (r, w') \<Rightarrow> r = Inl ErrAlreadyAuthorized \<and> grants_of timed_runtime w' = {#sample_grant#}"
proof -
  have b: "\<not> ctx_in_tx background" by (simp add: background_def)
  have n: "normalize_user_code ''bcdfghjk'' = ''BCDF-GHJK''" by code_simp
  have "gr_user_code sample_grant = ''BCDF-GHJK''" "deny_effect 1 sample_grant = (Inl ErrAlreadyAuthorized, sample_grant)"
    by (simp_all add: sample_grant_def deny_effect_def grant_expired_def status_error_def device_status)
  with device_answers_refine [OF device_sample_on device_world_in_order b, of "''bcdfghjk''"
      "\<lparr>pr_subject = sample_id 0, pr_type = PrincipalUser\<rparr>" "[]"] n
  show ?thesis
    by (auto simp: device_world_grants user_grants_def split: prod.splits)
qed

theorem device_start_fresh_witness:
  "case run_state (device_start device_sample background \<lparr>si_client_id = ''tv'', si_scope = [], si_metadata = []\<rparr>) device_world of
     (r, w') \<Rightarrow> device_in_order timed_runtime w' \<and> size (grants_of timed_runtime w') = (if isl r then 1 else 2)"
proof -
  obtain r w' where r: "run_state (device_start device_sample background
      \<lparr>si_client_id = ''tv'', si_scope = [], si_metadata = []\<rparr>) device_world = (r, w')" by (rule prod.exhaust)
  from device_start_fresh [OF device_sample_on device_world_in_order _ r] show ?thesis
    unfolding r by (cases r) (auto simp: device_world_grants)
qed

theorem engine_leaves_plugin_tables_witness:
  "mem_tbl (w_db (snd (run_state (purge_expired timed_auth) device_world))) ModelDeviceGrants = {#sample_grant_row#}"
proof -
  obtain r w' where "run_state (purge_expired timed_auth) device_world = (r, w')" by (rule prod.exhaust)
  then have "reachable timed_auth device_world w'"
    by (rule reachable.step [OF reachable.start step_purge])
  from engine_leaves_plugin_tables [OF timed_auth_on device_model_new this] show ?thesis
    using \<open>run_state (purge_expired timed_auth) device_world = (r, w')\<close>
    by (simp add: device_world_def start_world_def mem_tbl_def table_of_def device_tables_def rows_of_def)
qed

end
