(* ===== verification/Decision_Cache.thy ===== *)
theory Decision_Cache
  imports Engine
begin

text \<open>
  What the authorization plugins share: the world of a service with a cache of its own and a system
  clock, and the caches of decisions (\<open>plugins/policy/cache/cache.go\<close>, and with the same text
  \<open>plugins/rbac/cache/cache.go\<close>): the contract, the cache in memory and the one on the core cache.
\<close>

section \<open>The world of a service\<close>

record ('s, 'c, 'k) pworld =
  pw_world :: "('s, 'c) world"
  pw_cache :: 'k
  pw_ticks :: nat

type_synonym ('s, 'c, 'k, 'a) pact = "(('s, 'c, 'k) pworld, 'a) state"

definition in_world :: "('s, 'c, 'a) act \<Rightarrow> ('s, 'c, 'k, 'a) pact" where
  "in_world m = zoom pw_world (\<lambda>w s. s\<lparr>pw_world := w\<rparr>) m"

definition on_own :: "('k, 'a) state \<Rightarrow> ('s, 'c, 'k, 'a) pact" where
  "on_own m = zoom pw_cache (\<lambda>k s. s\<lparr>pw_cache := k\<rparr>) m"

definition tick :: "(nat \<Rightarrow> time) \<Rightarrow> ('s, 'c, 'k, time) pact" where
  "tick wall = State (\<lambda>s. (wall (pw_ticks s), s\<lparr>pw_ticks := Suc (pw_ticks s)\<rparr>))"

section \<open>The contract\<close>

text \<open>
  \<open>GetDecision\<close> answers a pointer, whether it was a hit, and an error: a hit is \<open>Inr (Some d)\<close>. The
  contract of \<open>policy\<close> has one operation more (\<open>policy_cache\<close>).
\<close>

record ('w, 'd) decision_cache =
  dc_get :: "ctx \<Rightarrow> string \<Rightarrow> ('w, err + 'd option) state"
  dc_set :: "ctx \<Rightarrow> string \<Rightarrow> 'd \<Rightarrow> duration \<Rightarrow> ('w, err + unit) state"
  dc_invalidate_principal :: "ctx \<Rightarrow> string \<Rightarrow> ('w, err + unit) state"
  dc_invalidate_all :: "ctx \<Rightarrow> ('w, err + unit) state"

record ('w, 'd) policy_cache = "('w, 'd) decision_cache" +
  pc_invalidate_resource :: "ctx \<Rightarrow> string \<Rightarrow> string \<Rightarrow> ('w, err + unit) state"

definition DefaultDecisionTTL :: duration where
  "DefaultDecisionTTL = 5 * minute"

definition positive_ttl :: "duration \<Rightarrow> duration \<Rightarrow> duration" where
  "positive_ttl dflt ttl = (if ttl \<le> 0 then dflt else ttl)"

section \<open>The cache in memory\<close>

text \<open>Items with the instants they expire at. \<open>wall\<close> is \<open>time.Now\<close>; the mutex makes each call one step.\<close>

type_synonym 'd items = "string \<rightharpoonup> 'd \<times> time"

definition memory_decision_get :: "(nat \<Rightarrow> time) \<Rightarrow> string \<Rightarrow> ('s, 'c, 'd items, err + 'd option) pact" where
  "memory_decision_get wall k = do {
     e \<leftarrow> on_own (State (\<lambda>m. (m k, m)));
     case e of
       None \<Rightarrow> ok None
     | Some (d, ends) \<Rightarrow> do {
         t \<leftarrow> tick wall;
         if ends < t then ok None else ok (Some d)
       }
   }"

definition memory_decision_set ::
  "(nat \<Rightarrow> time) \<Rightarrow> duration \<Rightarrow> string \<Rightarrow> 'd \<Rightarrow> duration \<Rightarrow> ('s, 'c, 'd items, err + unit) pact" where
  "memory_decision_set wall dflt k d ttl = do {
     t \<leftarrow> tick wall;
     _ \<leftarrow> on_own (State (\<lambda>m. ((), m(k \<mapsto> (d, t + positive_ttl dflt ttl)))));
     ok ()
   }"

definition memory_decision_drop :: "(string \<Rightarrow> bool) \<Rightarrow> ('s, 'c, 'd items, err + unit) pact" where
  "memory_decision_drop P = do {
     _ \<leftarrow> on_own (State (\<lambda>m. ((), \<lambda>k. if P k then None else m k)));
     ok ()
   }"

section \<open>The cache on the core cache\<close>

text \<open>
  The keys a principal (or a resource) has decisions under, so that they can be deleted. The runtime
  picks the order in which a set of keys is visited; here it is that of their insertion.
\<close>

type_synonym key_index = "(string \<times> string list) list"

definition index_keys :: "key_index \<Rightarrow> string \<Rightarrow> string list" where
  "index_keys ix p = (case map_of ix p of None \<Rightarrow> [] | Some ks \<Rightarrow> ks)"

definition index_add :: "string \<Rightarrow> string \<Rightarrow> key_index \<Rightarrow> key_index" where
  "index_add p k ix = AList.update p (List.insert k (index_keys ix p)) ix"

definition core_decision_get ::
  "'c cache \<Rightarrow> (json \<Rightarrow> err + 'd) \<Rightarrow> ctx \<Rightarrow> string \<Rightarrow> ('s, 'c, 'k, err + 'd option) pact" where
  "core_decision_get ch dec cx k = do {
     r \<leftarrow> in_world (on_cache (cache_get ch cx k));
     ok (case r of Inl _ \<Rightarrow> None | Inr j \<Rightarrow> (case dec j of Inl _ \<Rightarrow> None | Inr d \<Rightarrow> Some d))
   }"

text \<open>\<open>track\<close> is what is noted of the key once it is stored.\<close>

definition core_decision_set ::
  "'c cache \<Rightarrow> ('d \<Rightarrow> err + json) \<Rightarrow> (string list \<Rightarrow> string \<Rightarrow> 'k \<Rightarrow> 'k) \<Rightarrow> duration \<Rightarrow> ctx \<Rightarrow> string \<Rightarrow> 'd \<Rightarrow>
   duration \<Rightarrow> ('s, 'c, 'k, err + unit) pact" where
  "core_decision_set ch enc track dflt cx k d ttl =
     bindE (in_world (on_cache (cache_set ch cx k (enc d) (positive_ttl dflt ttl)))) (\<lambda>_. do {
     _ \<leftarrow> on_own (State (\<lambda>ix. ((), track (split_on (CHR '':'') k) k ix)));
     ok ()
     })"

definition core_delete_keys :: "'c cache \<Rightarrow> ctx \<Rightarrow> string list \<Rightarrow> ('s, 'c, 'k, unit) pact" where
  "core_delete_keys ch cx ks =
     for_each (\<lambda>k. do { _ \<leftarrow> in_world (on_cache (cache_delete ch cx k)); skip }) ks"

section \<open>What a service relies on\<close>

text \<open>
  \<open>view\<close> is what the cache may answer, \<open>owned p k\<close> that \<open>k\<close> is a key of principal \<open>p\<close>, \<open>sure p\<close> that
  invalidating \<open>p\<close> works, \<open>storable d\<close> that \<open>d\<close> is read back as it was stored. Nothing is asked of an invalidation in a cancelled context.
\<close>

definition only_cache :: "('s, 'c, 'k) pworld \<Rightarrow> ('s, 'c, 'k) pworld \<Rightarrow> bool" where
  "only_cache s s' \<longleftrightarrow> w_db (pw_world s') = w_db (pw_world s)"

definition same_cache :: "('s, 'c, 'k) pworld \<Rightarrow> ('s, 'c, 'k) pworld \<Rightarrow> bool" where
  "same_cache s s' \<longleftrightarrow> pw_cache s' = pw_cache s \<and> w_cache (pw_world s') = w_cache (pw_world s)"

locale decisions =
  fixes dc :: "(('s, 'c, 'k) pworld, 'd) decision_cache"
    and cinv :: "('s, 'c, 'k) pworld \<Rightarrow> bool"
    and view :: "('s, 'c, 'k) pworld \<Rightarrow> string \<rightharpoonup> 'd"
    and owned :: "string \<Rightarrow> string \<Rightarrow> bool"
    and sure :: "string \<Rightarrow> bool"
    and storable :: "'d \<Rightarrow> bool"
  assumes get: "cinv s \<Longrightarrow> owned p k \<Longrightarrow> run_state (dc_get dc cx k) s = (r, s') \<Longrightarrow>
      cinv s' \<and> only_cache s s' \<and> view s' \<subseteq>\<^sub>m view s \<and> (\<forall>d. r = Inr (Some d) \<longrightarrow> view s k = Some d)"
    and set: "cinv s \<Longrightarrow> owned p k \<Longrightarrow> storable d \<Longrightarrow> run_state (dc_set dc cx k d ttl) s = (u, s') \<Longrightarrow>
      cinv s' \<and> only_cache s s' \<and> (view s' \<subseteq>\<^sub>m view s \<or> view s' \<subseteq>\<^sub>m (view s)(k \<mapsto> d))"
    and invalidate: "cinv s \<Longrightarrow> ctx_err cx = None \<Longrightarrow> run_state (dc_invalidate_principal dc cx p) s = (u, s') \<Longrightarrow>
      cinv s' \<and> only_cache s s' \<and> view s' \<subseteq>\<^sub>m view s \<and> (sure p \<longrightarrow> (\<forall>k. owned p k \<longrightarrow> view s' k = None))"
    and invalidate_all: "cinv s \<Longrightarrow> ctx_err cx = None \<Longrightarrow> run_state (dc_invalidate_all dc cx) s = (u, s') \<Longrightarrow>
      cinv s' \<and> only_cache s s' \<and> view s' \<subseteq>\<^sub>m view s \<and> (\<forall>p k. sure p \<longrightarrow> owned p k \<longrightarrow> view s' k = None)"
    and frame: "same_cache s s' \<Longrightarrow> view s' = view s \<and> cinv s' = cinv s"

end
