(* ===== verification/Decision_Correct.thy ===== *)
theory Decision_Correct
  imports Decision_Cache
begin

text \<open>
  What the two caches of decisions have in common, whatever they hold: the view of the cache in memory,
  and of one on a core cache; reading, storing and deleting there.
\<close>

section \<open>Maps with fewer entries\<close>

lemma map_le_Some: "m \<subseteq>\<^sub>m m' \<Longrightarrow> m k = Some v \<Longrightarrow> m' k = Some v"
  by (metis domI map_le_def)

lemma map_leI_Some: "(\<And>k v. m k = Some v \<Longrightarrow> m' k = Some v) \<Longrightarrow> m \<subseteq>\<^sub>m m'"
  by (auto simp: map_le_def)

lemma map_le_None: "m \<subseteq>\<^sub>m m' \<Longrightarrow> m' k = None \<Longrightarrow> m k = None"
  by (metis map_le_Some not_None_eq)

section \<open>In memory\<close>

definition items_view :: "('s, 'c, 'd items) pworld \<Rightarrow> string \<rightharpoonup> 'd" where
  "items_view s k = map_option fst (pw_cache s k)"

lemma run_memory_drop:
  "run_state (memory_decision_drop P) s = (Inr (), s\<lparr>pw_cache := (\<lambda>k. if P k then None else pw_cache s k)\<rparr>)"
  by (simp add: memory_decision_drop_def on_own_def)

lemma memory_get_spec:
  "run_state (memory_decision_get wall k) s = (r, s') \<Longrightarrow>
     only_cache s s' \<and> items_view s' = items_view s \<and> (\<forall>d. r = Inr (Some d) \<longrightarrow> items_view s k = Some d)"
  by (auto simp: memory_decision_get_def on_own_def tick_def only_cache_def items_view_def fun_eq_iff
      split: option.splits prod.splits if_splits)

lemma memory_set_spec:
  "run_state (memory_decision_set wall dflt k d ttl) s = (u, s') \<Longrightarrow>
     only_cache s s' \<and> items_view s' = (items_view s)(k \<mapsto> d)"
  by (auto simp: memory_decision_set_def on_own_def tick_def only_cache_def items_view_def fun_eq_iff)

lemma memory_drop_spec:
  "run_state (memory_decision_drop P) s = (u, s') \<Longrightarrow>
     only_cache s s' \<and> items_view s' \<subseteq>\<^sub>m items_view s \<and> (\<forall>k. P k \<longrightarrow> items_view s' k = None)"
  by (auto simp: run_memory_drop only_cache_def items_view_def map_le_def)

lemma items_view_frame: "same_cache s s' \<Longrightarrow> items_view s' = items_view s"
  by (simp add: same_cache_def items_view_def fun_eq_iff)

section \<open>On a core cache\<close>

definition decoded_view :: "(json \<Rightarrow> err + 'd) \<Rightarrow> ('c \<Rightarrow> string \<rightharpoonup> json) \<Rightarrow> ('s, 'c, 'k) pworld \<Rightarrow> string \<rightharpoonup> 'd" where
  "decoded_view dec cview s k =
     (case cview (w_cache (pw_world s)) k of
        None \<Rightarrow> None
      | Some j \<Rightarrow> (case dec j of Inl _ \<Rightarrow> None | Inr d \<Rightarrow> Some d))"

lemma decoded_view_Some:
  "decoded_view dec cview s k = Some d \<longleftrightarrow> (\<exists>j. cview (w_cache (pw_world s)) k = Some j \<and> dec j = Inr d)"
  by (auto simp: decoded_view_def split: option.splits sum.splits)

lemma decoded_view_None: "cview (w_cache (pw_world s)) k = None \<Longrightarrow> decoded_view dec cview s k = None"
  by (simp add: decoded_view_def)

lemma decoded_view_le:
  "cview (w_cache (pw_world s')) \<subseteq>\<^sub>m cview (w_cache (pw_world s)) \<Longrightarrow> decoded_view dec cview s' \<subseteq>\<^sub>m decoded_view dec cview s"
  by (rule map_leI_Some) (auto simp: decoded_view_Some dest: map_le_Some)

lemma decoded_view_frame: "same_cache s s' \<Longrightarrow> decoded_view dec cview s' = decoded_view dec cview s"
  by (simp add: same_cache_def decoded_view_def fun_eq_iff)

lemma run_in_cache:
  "run_state (in_world (on_cache m)) s =
     (case run_state m (w_cache (pw_world s)) of (r, c) \<Rightarrow> (r, s\<lparr>pw_world := (pw_world s)\<lparr>w_cache := c\<rparr>\<rparr>))"
  by (simp add: in_world_def on_cache_def split: prod.splits)

lemma index_keys_add: "index_keys (index_add p k ix) p' = (if p' = p then List.insert k (index_keys ix p) else index_keys ix p')"
  by (simp add: index_keys_def index_add_def map_of_update)

lemma index_keys_delete: "index_keys (AList.delete p ix) p' = (if p' = p then [] else index_keys ix p')"
  by (simp add: index_keys_def map_of_delete)

lemma index_keys_concat:
  assumes "k \<in> set (index_keys ix p)"
  shows "k \<in> set (concat (map snd ix))"
proof (cases "map_of ix p")
  case (Some ks)
  with assms have "(p, ks) \<in> set ix" "k \<in> set ks" by (auto simp: index_keys_def dest: map_of_SomeD)
  then show ?thesis by force
qed (use assms in \<open>simp add: index_keys_def\<close>)

context reliable_cache
begin

lemma core_delete_spec:
  assumes "run_state (core_delete_keys ch cx ks) s = (u, s')" "ctx_err cx = None"
  shows "only_cache s s' \<and> pw_cache s' = pw_cache s \<and> cview (w_cache (pw_world s')) \<subseteq>\<^sub>m cview (w_cache (pw_world s)) \<and>
    (\<forall>k \<in> set ks. cview (w_cache (pw_world s')) k = None)"
  using assms(1)
proof (induction ks arbitrary: s)
  case Nil
  then show ?case by (simp add: core_delete_keys_def only_cache_def)
next
  case (Cons k ks)
  obtain r c where d: "run_state (cache_delete ch cx k) (w_cache (pw_world s)) = (r, c)" by (rule prod.exhaust)
  define s1 where "s1 = s\<lparr>pw_world := (pw_world s)\<lparr>w_cache := c\<rparr>\<rparr>"
  have rest: "run_state (core_delete_keys ch cx ks) s1 = (u, s')"
    using Cons.prems d by (simp add: core_delete_keys_def run_in_cache s1_def)
  have "r = Inr ()" using delete_ok [OF assms(2), of k "w_cache (pw_world s)"] d by simp
  then have c: "cview c \<subseteq>\<^sub>m (cview (w_cache (pw_world s)))(k := None)" using delete [OF d] by simp
  have c1: "cview c k = None" using map_le_None [OF c] by simp
  have c2: "cview c \<subseteq>\<^sub>m cview (w_cache (pw_world s))"
  proof (rule map_leI_Some)
    fix k' v assume "cview c k' = Some v"
    from map_le_Some [OF c this] show "cview (w_cache (pw_world s)) k' = Some v" by (simp split: if_splits)
  qed
  note ih = Cons.IH [OF rest]
  have "cview (w_cache (pw_world s')) k = None"
    using ih c1 map_le_None [of "cview (w_cache (pw_world s'))" "cview c"] by (simp add: s1_def)
  moreover have "cview (w_cache (pw_world s')) \<subseteq>\<^sub>m cview (w_cache (pw_world s))"
    using ih map_le_trans [OF _ c2] by (simp add: s1_def)
  ultimately show ?case using ih by (simp add: only_cache_def s1_def)
qed

lemma core_get_view:
  assumes "run_state (core_decision_get ch dec cx k) s = (r, s')"
  shows "only_cache s s' \<and> pw_cache s' = pw_cache s \<and> cview (w_cache (pw_world s')) \<subseteq>\<^sub>m cview (w_cache (pw_world s)) \<and>
    (\<forall>d. r = Inr (Some d) \<longrightarrow> decoded_view dec cview s k = Some d)"
proof -
  obtain q c where q: "run_state (cache_get ch cx k) (w_cache (pw_world s)) = (q, c)" by (rule prod.exhaust)
  have s': "s' = s\<lparr>pw_world := (pw_world s)\<lparr>w_cache := c\<rparr>\<rparr>"
    and r: "r = Inr (case q of Inl _ \<Rightarrow> None | Inr j \<Rightarrow> (case dec j of Inl _ \<Rightarrow> None | Inr d \<Rightarrow> Some d))"
    using assms q by (auto simp: core_decision_get_def run_in_cache)
  show ?thesis using get [OF q] by (auto simp: only_cache_def s' r decoded_view_Some split: sum.splits)
qed

text \<open>A decision that is stored is stored under its key, and the key is noted; otherwise nothing is noted.\<close>

lemma core_set_view:
  assumes run: "run_state (core_decision_set ch enc track dflt cx k d ttl) s = (u, s')"
    and trip: "\<And>j. enc d = Inr j \<Longrightarrow> dec j = Inr d"
  obtains "only_cache s s'" "pw_cache s' = pw_cache s" "cview (w_cache (pw_world s')) \<subseteq>\<^sub>m cview (w_cache (pw_world s))"
    | j where "only_cache s s'" "pw_cache s' = track (split_on (CHR '':'') k) k (pw_cache s)"
      "cview (w_cache (pw_world s')) \<subseteq>\<^sub>m (cview (w_cache (pw_world s)))(k \<mapsto> j)"
      "decoded_view dec cview s' \<subseteq>\<^sub>m (decoded_view dec cview s)(k \<mapsto> d)"
proof -
  obtain q c where q: "run_state (cache_set ch cx k (enc d) (positive_ttl dflt ttl)) (w_cache (pw_world s)) = (q, c)"
    by (rule prod.exhaust)
  show thesis
  proof (cases q)
    case (Inl x)
    with run q have s': "s' = s\<lparr>pw_world := (pw_world s)\<lparr>w_cache := c\<rparr>\<rparr>"
      by (auto simp: core_decision_set_def run_in_cache)
    show thesis by (rule that(1)) (use set [OF q] Inl s' in \<open>simp_all add: only_cache_def\<close>)
  next
    case (Inr x)
    with run q have s': "s' = s\<lparr>pw_world := (pw_world s)\<lparr>w_cache := c\<rparr>,
        pw_cache := track (split_on (CHR '':'') k) k (pw_cache s)\<rparr>"
      by (auto simp: core_decision_set_def run_in_cache on_own_def)
    obtain j where j: "enc d = Inr j" "cview c \<subseteq>\<^sub>m (cview (w_cache (pw_world s)))(k \<mapsto> j)"
      using set [OF q] Inr by auto
    have "decoded_view dec cview s' \<subseteq>\<^sub>m (decoded_view dec cview s)(k \<mapsto> d)"
    proof (rule map_leI_Some)
      fix k' e assume "decoded_view dec cview s' k' = Some e"
      then obtain j' where j': "cview c k' = Some j'" "dec j' = Inr e" by (auto simp: decoded_view_Some s')
      from map_le_Some [OF j(2) j'(1)] j'(2) show "((decoded_view dec cview s)(k \<mapsto> d)) k' = Some e"
        using trip [OF j(1)] by (auto simp: decoded_view_Some split: if_splits)
    qed
    then show thesis by (intro that(2) [of j]) (use j(2) in \<open>simp_all add: only_cache_def s'\<close>)
  qed
qed

end

end
