(* ===== verification/Rbac.thy ===== *)
theory Rbac
  imports Decision_Cache Sdk_Db
begin

text \<open>
  Role-based access control (\<open>plugins/rbac\<close>): roles, assignments and their rows (\<open>domain.go\<close>), the
  keys and the caches of decisions (\<open>cache/cache.go\<close>), the configuration (\<open>config.go\<close>) and the
  service (\<open>service.go\<close>).

  The service is the one \<open>Init\<close> builds: the context, its events and the repositories are there.
  \<open>Scope\<close> is a string in the code and stays one. A nil slice of permissions is the empty list.
\<close>

section \<open>Errors\<close>

definition rbac_err :: "string \<Rightarrow> err" where
  "rbac_err e = PluginErr ''rbac'' e"

definition RbacForbidden :: err where "RbacForbidden = rbac_err ''principal is not authorized to perform this action''"
definition ErrRoleNotFound :: err where "ErrRoleNotFound = rbac_err ''role not found''"
definition ErrRoleAlreadyExists :: err where "ErrRoleAlreadyExists = rbac_err ''role already exists''"
definition ErrAssignmentNotFound :: err where "ErrAssignmentNotFound = rbac_err ''role assignment not found''"
definition ErrAssignmentAlreadyExists :: err where
  "ErrAssignmentAlreadyExists = rbac_err ''role assignment already exists''"
definition RbacInvalidInput :: err where "RbacInvalidInput = rbac_err ''invalid rbac input''"
definition ErrInvalidScope :: err where "ErrInvalidScope = rbac_err ''invalid role scope''"
definition RbacPrincipalRequired :: err where "RbacPrincipalRequired = rbac_err ''principal subject is required''"
definition ErrPermissionRequired :: err where "ErrPermissionRequired = rbac_err ''permission is required''"
definition ErrRoleInUse :: err where
  "ErrRoleInUse = rbac_err ''role is currently assigned to one or more principals''"

lemmas rbac_errors = rbac_err_def RbacForbidden_def ErrRoleNotFound_def ErrRoleAlreadyExists_def
  ErrAssignmentNotFound_def ErrAssignmentAlreadyExists_def RbacInvalidInput_def ErrInvalidScope_def
  RbacPrincipalRequired_def ErrPermissionRequired_def ErrRoleInUse_def

section \<open>Roles and assignments\<close>

definition ScopeGlobal :: string where "ScopeGlobal = ''global''"
definition ScopeOrganization :: string where "ScopeOrganization = ''organization''"
definition ScopeService :: string where "ScopeService = ''service''"

lemmas rbac_scopes = ScopeGlobal_def ScopeOrganization_def ScopeService_def

definition scope_valid :: "string \<Rightarrow> bool" where
  "scope_valid s \<longleftrightarrow> s = ScopeGlobal \<or> s = ScopeOrganization \<or> s = ScopeService"

record rbac_role =
  ro_id :: string
  ro_name :: string
  ro_description :: string
  ro_scope :: string
  ro_permissions :: "string list"
  ro_created_at :: time
  ro_updated_at :: time

record role_assignment =
  ra_id :: string
  ra_role_id :: string
  ra_subject :: string
  ra_type :: string
  ra_scope :: string
  ra_scope_id :: string
  ra_created_at :: time

record rbac_resource =
  rr_type :: string
  rr_id :: string
  rr_organization :: string
  rr_service :: string

definition rbac_new_resource :: "string \<Rightarrow> string \<Rightarrow> rbac_resource" where
  "rbac_new_resource ty i = \<lparr>rr_type = ty, rr_id = i, rr_organization = [], rr_service = []\<rparr>"

definition new_organization_resource :: "string \<Rightarrow> string \<Rightarrow> string \<Rightarrow> rbac_resource" where
  "new_organization_resource ty i org = \<lparr>rr_type = ty, rr_id = i, rr_organization = org, rr_service = []\<rparr>"

definition new_service_resource :: "string \<Rightarrow> string \<Rightarrow> string \<Rightarrow> rbac_resource" where
  "new_service_resource ty i sv = \<lparr>rr_type = ty, rr_id = i, rr_organization = [], rr_service = sv\<rparr>"

definition empty_resource :: rbac_resource where
  "empty_resource = \<lparr>rr_type = [], rr_id = [], rr_organization = [], rr_service = []\<rparr>"

record rbac_decision =
  rd_allowed :: bool
  rd_reason :: string
  rd_matched_role :: string
  rd_permission :: string
  rd_subject :: string
  rd_type :: string
  rd_evaluated_at :: time

definition ModelRBACRoles :: string where "ModelRBACRoles = ''rbac_roles''"
definition ModelRBACAssignments :: string where "ModelRBACAssignments = ''rbac_assignments''"

definition rbac_role_model :: model where
  "rbac_role_model =
     (fold add_field'
       [mk_field ''id'' TypeString True,
        (mk_field ''name'' TypeString True)\<lparr>f_unique := True\<rparr>,
        mk_field ''description'' TypeString False,
        mk_field ''scope'' TypeString True,
        mk_field ''permissions'' TypeJSON True,
        mk_field ''created_at'' TypeTime True,
        mk_field ''updated_at'' TypeTime True]
       (new_model ModelRBACRoles ModelRBACRoles ''id''))
     \<lparr>m_indexes :=
       [\<lparr>idx_name = ''idx_rbac_roles_name'', idx_fields = [''name''], idx_unique = True\<rparr>,
        \<lparr>idx_name = ''idx_rbac_roles_scope'', idx_fields = [''scope''], idx_unique = False\<rparr>]\<rparr>"

definition rbac_assignment_model :: model where
  "rbac_assignment_model =
     (fold add_field'
       [mk_field ''id'' TypeString True,
        mk_field ''role_id'' TypeString True,
        mk_field ''principal_subject'' TypeString True,
        mk_field ''principal_type'' TypeString True,
        mk_field ''scope'' TypeString True,
        mk_field ''scope_id'' TypeString False,
        mk_field ''created_at'' TypeTime True]
       (new_model ModelRBACAssignments ModelRBACAssignments ''id''))
     \<lparr>m_indexes :=
       [\<lparr>idx_name = ''idx_rbac_assignments_principal'', idx_fields = [''principal_subject'', ''principal_type''],
         idx_unique = False\<rparr>,
        \<lparr>idx_name = ''idx_rbac_assignments_role'', idx_fields = [''role_id''], idx_unique = False\<rparr>,
        \<lparr>idx_name = ''idx_rbac_assignments_scope'', idx_fields = [''scope'', ''scope_id''], idx_unique = False\<rparr>]\<rparr>"

definition rbac_register_schema :: "schema \<Rightarrow> err + schema" where
  "rbac_register_schema s =
     (case add_model s (Some rbac_role_model) of
        Inl e \<Rightarrow> Inl e
      | Inr s' \<Rightarrow> add_model s' (Some rbac_assignment_model))"

text \<open>A role and an assignment as \<open>encoding/json\<close> writes and reads them.\<close>

definition role_encode :: "rbac_role \<Rightarrow> err + (string \<times> json) list" where
  "role_encode r =
     (if json_time_ok (ro_created_at r) \<and> json_time_ok (ro_updated_at r)
      then Inr
        ([(''id'', JStr (ro_id r)), (''name'', JStr (ro_name r))] @
         omit_empty (ro_description r = []) ''description'' (JStr (ro_description r)) @
         [(''scope'', JStr (ro_scope r)), (''permissions'', JArr (map JStr (ro_permissions r))),
          (''created_at'', JTime (ro_created_at r)), (''updated_at'', JTime (ro_updated_at r))])
      else Inl json_error)"

definition role_decode :: "runtime \<Rightarrow> (string \<times> json) list \<Rightarrow> rbac_role \<Rightarrow> err + rbac_role" where
  "role_decode rt o' r =
     and_then (str_into rt o' ''id'' (ro_id r)) (\<lambda>i.
     and_then (str_into rt o' ''name'' (ro_name r)) (\<lambda>n.
     and_then (str_into rt o' ''description'' (ro_description r)) (\<lambda>d.
     and_then (str_into rt o' ''scope'' (ro_scope r)) (\<lambda>sc.
     and_then (strings_into rt o' ''permissions'' (ro_permissions r)) (\<lambda>ps.
     and_then (time_into rt o' ''created_at'' (ro_created_at r)) (\<lambda>cr.
     and_then (time_into rt o' ''updated_at'' (ro_updated_at r)) (\<lambda>up.
       Inr \<lparr>ro_id = i, ro_name = n, ro_description = d, ro_scope = sc, ro_permissions = ps,
            ro_created_at = cr, ro_updated_at = up\<rparr>)))))))"

definition no_role :: rbac_role where
  "no_role = \<lparr>ro_id = [], ro_name = [], ro_description = [], ro_scope = [], ro_permissions = [],
     ro_created_at = 0, ro_updated_at = 0\<rparr>"

definition role_codec :: "runtime \<Rightarrow> rbac_role codec" where
  "role_codec rt =
     \<lparr>cd_fields = [''id'', ''name'', ''description'', ''scope'', ''permissions'', ''created_at'', ''updated_at''],
      cd_zero = no_role, cd_encode = role_encode, cd_decode = role_decode rt\<rparr>"

definition assignment_encode :: "role_assignment \<Rightarrow> err + (string \<times> json) list" where
  "assignment_encode a =
     (if json_time_ok (ra_created_at a)
      then Inr
        ([(''id'', JStr (ra_id a)), (''role_id'', JStr (ra_role_id a)),
          (''principal_subject'', JStr (ra_subject a)), (''principal_type'', JStr (ra_type a)),
          (''scope'', JStr (ra_scope a))] @
         omit_empty (ra_scope_id a = []) ''scope_id'' (JStr (ra_scope_id a)) @
         [(''created_at'', JTime (ra_created_at a))])
      else Inl json_error)"

definition assignment_decode :: "runtime \<Rightarrow> (string \<times> json) list \<Rightarrow> role_assignment \<Rightarrow> err + role_assignment" where
  "assignment_decode rt o' a =
     and_then (str_into rt o' ''id'' (ra_id a)) (\<lambda>i.
     and_then (str_into rt o' ''role_id'' (ra_role_id a)) (\<lambda>ri.
     and_then (str_into rt o' ''principal_subject'' (ra_subject a)) (\<lambda>su.
     and_then (str_into rt o' ''principal_type'' (ra_type a)) (\<lambda>ty.
     and_then (str_into rt o' ''scope'' (ra_scope a)) (\<lambda>sc.
     and_then (str_into rt o' ''scope_id'' (ra_scope_id a)) (\<lambda>si.
     and_then (time_into rt o' ''created_at'' (ra_created_at a)) (\<lambda>cr.
       Inr \<lparr>ra_id = i, ra_role_id = ri, ra_subject = su, ra_type = ty, ra_scope = sc, ra_scope_id = si,
            ra_created_at = cr\<rparr>)))))))"

definition no_assignment :: role_assignment where
  "no_assignment = \<lparr>ra_id = [], ra_role_id = [], ra_subject = [], ra_type = [], ra_scope = [],
     ra_scope_id = [], ra_created_at = 0\<rparr>"

definition assignment_codec :: "runtime \<Rightarrow> role_assignment codec" where
  "assignment_codec rt =
     \<lparr>cd_fields = [''id'', ''role_id'', ''principal_subject'', ''principal_type'', ''scope'', ''scope_id'', ''created_at''],
      cd_zero = no_assignment, cd_encode = assignment_encode, cd_decode = assignment_decode rt\<rparr>"

section \<open>Cached decisions\<close>

record rbac_cached =
  rc_allowed :: bool
  rc_reason :: string
  rc_matched_role :: string
  rc_permission :: string
  rc_cached_at :: time

text \<open>\<open>BuildKey\<close>: the first 16 bytes of the hash of all that is asked, behind the subject.\<close>

definition rbac_build_key ::
  "runtime \<Rightarrow> principal \<Rightarrow> string \<Rightarrow> string \<Rightarrow> string \<Rightarrow> string \<Rightarrow> string \<Rightarrow> string" where
  "rbac_build_key rt p perm ty i org sv =
     cache_key [''rbac'', ''eval'', pr_subject p, hex_encode (take 16 (sha256 rt
       (join_with (CHR ''|'') [pr_subject p, pr_type p, perm, ty, i, org, sv])))]"

text \<open>A decision as \<open>encoding/json\<close> writes and reads it.\<close>

definition rbac_cached_json :: "rbac_cached \<Rightarrow> err + json" where
  "rbac_cached_json d =
     json_times [rc_cached_at d]
       (JObj ([(''allowed'', JBool (rc_allowed d))] @
              omit_empty (rc_reason d = []) ''reason'' (JStr (rc_reason d)) @
              omit_empty (rc_matched_role d = []) ''matched_role'' (JStr (rc_matched_role d)) @
              [(''permission'', JStr (rc_permission d)), (''cached_at'', JTime (rc_cached_at d))]))"

definition json_rbac_cached :: "json \<Rightarrow> err + rbac_cached" where
  "json_rbac_cached j = (case members j of Inl e \<Rightarrow> Inl e | Inr o' \<Rightarrow>
     bool_member o' ''allowed'' (\<lambda>al.
     str_member o' ''reason'' (\<lambda>rs.
     str_member o' ''matched_role'' (\<lambda>mr.
     str_member o' ''permission'' (\<lambda>pe.
     time_member o' ''cached_at'' (\<lambda>ca.
       Inr \<lparr>rc_allowed = al, rc_reason = rs, rc_matched_role = mr, rc_permission = pe, rc_cached_at = ca\<rparr>))))))"

type_synonym ('s, 'c, 'k) rbac_cache = "(('s, 'c, 'k) pworld, rbac_cached) decision_cache"

text \<open>\<open>MemoryCache\<close>. Its \<open>principalKeys\<close> are never used.\<close>

definition rbac_memory_cache :: "(nat \<Rightarrow> time) \<Rightarrow> duration \<Rightarrow> ('s, 'c, rbac_cached items) rbac_cache" where
  "rbac_memory_cache wall ttl =
     \<lparr>dc_get = (\<lambda>cx. memory_decision_get wall),
      dc_set = (\<lambda>cx. memory_decision_set wall (positive_ttl DefaultDecisionTTL ttl)),
      dc_invalidate_principal = (\<lambda>cx p. memory_decision_drop (\<lambda>k. has_prefix k (cache_key [''rbac'', ''eval'', p]))),
      dc_invalidate_all = (\<lambda>cx. memory_decision_drop (\<lambda>k. True))\<rparr>"

text \<open>\<open>CoreCacheAdapter\<close>: the subject is read back from the key, at the fourth place between colons.\<close>

definition rbac_track :: "string list \<Rightarrow> string \<Rightarrow> key_index \<Rightarrow> key_index" where
  "rbac_track parts k ix = (if length parts \<ge> 4 then index_add (parts ! 3) k ix else ix)"

definition rbac_core_invalidate_principal ::
  "'c cache \<Rightarrow> ctx \<Rightarrow> string \<Rightarrow> ('s, 'c, key_index, err + unit) pact" where
  "rbac_core_invalidate_principal ch cx p = do {
     ks \<leftarrow> on_own (State (\<lambda>ix. (map_of ix p, ix)));
     case ks of
       None \<Rightarrow> ok ()
     | Some ks \<Rightarrow> do {
         _ \<leftarrow> core_delete_keys ch cx ks;
         _ \<leftarrow> on_own (State (\<lambda>ix. ((), AList.delete p ix)));
         ok ()
       }
   }"

definition rbac_core_invalidate_all :: "'c cache \<Rightarrow> ctx \<Rightarrow> ('s, 'c, key_index, err + unit) pact" where
  "rbac_core_invalidate_all ch cx = do {
     ix \<leftarrow> on_own (State (\<lambda>ix. (ix, ix)));
     _ \<leftarrow> core_delete_keys ch cx (concat (map snd ix));
     _ \<leftarrow> on_own (State (\<lambda>_. ((), [])));
     ok ()
   }"

definition rbac_core_cache :: "'c cache \<Rightarrow> duration \<Rightarrow> ('s, 'c, key_index) rbac_cache" where
  "rbac_core_cache ch ttl =
     \<lparr>dc_get = core_decision_get ch json_rbac_cached,
      dc_set = core_decision_set ch rbac_cached_json rbac_track (positive_ttl DefaultDecisionTTL ttl),
      dc_invalidate_principal = rbac_core_invalidate_principal ch,
      dc_invalidate_all = rbac_core_invalidate_all ch\<rparr>"

end
