(* ===== verification/Rbac_Service.thy ===== *)
theory Rbac_Service
  imports Rbac
begin

text \<open>The service of role-based access control (\<open>plugins/rbac/service.go\<close>, \<open>config.go\<close>, \<open>events.go\<close>).\<close>

section \<open>The service\<close>

text \<open>
  What the service is built from: the engine, the adapter behind the repositories, the cache of
  decisions when there is one, its time to live and the configured clock.
\<close>

record rbac_config =
  rcf_cache_ttl :: duration

definition default_rbac_config :: rbac_config where
  "default_rbac_config = \<lparr>rcf_cache_ttl = 5 * minute\<rparr>"

record ('s, 'c, 'k) rbac_service =
  rs_auth :: "('s, 'c) auth"
  rs_adapter :: "'s adapter"
  rs_cache :: "('s, 'c, 'k) rbac_cache option"
  rs_cfg :: rbac_config
  rs_clock :: "nat \<Rightarrow> time"

text \<open>\<open>newService\<close> without a configured cache takes the core cache, when the engine has one.\<close>

definition new_rbac_service ::
  "('s, 'c) auth \<Rightarrow> 's adapter \<Rightarrow> ('s, 'c, key_index) rbac_cache option \<Rightarrow> rbac_config \<Rightarrow> (nat \<Rightarrow> time) \<Rightarrow>
   ('s, 'c, key_index) rbac_service" where
  "new_rbac_service a ad c cfg clk =
     \<lparr>rs_auth = a, rs_adapter = ad,
      rs_cache = (case c of Some x \<Rightarrow> Some x
        | None \<Rightarrow> map_option (\<lambda>ch. rbac_core_cache ch (rcf_cache_ttl cfg)) (au_cache a)),
      rs_cfg = cfg, rs_clock = clk\<rparr>"

definition roles_repo :: "('s, 'c, 'k) rbac_service \<Rightarrow> ('s, rbac_role) repo" where
  "roles_repo sv = \<lparr>rp_adapter = Some (rs_adapter sv), rp_model = ModelRBACRoles,
     rp_codec = role_codec (au_rt (rs_auth sv)), rp_rt = au_rt (rs_auth sv)\<rparr>"

definition assignments_repo :: "('s, 'c, 'k) rbac_service \<Rightarrow> ('s, role_assignment) repo" where
  "assignments_repo sv = \<lparr>rp_adapter = Some (rs_adapter sv), rp_model = ModelRBACAssignments,
     rp_codec = assignment_codec (au_rt (rs_auth sv)), rp_rt = au_rt (rs_auth sv)\<rparr>"

definition in_db :: "('s, 'a) state \<Rightarrow> ('s, 'c, 'k, 'a) pact" where
  "in_db m = in_world (on_db m)"

definition rbac_now :: "('s, 'c, 'k) rbac_service \<Rightarrow> ('s, 'c, 'k, time) pact" where
  "rbac_now sv = tick (rs_clock sv)"

text \<open>\<open>generateID\<close>; \<open>rand.Read\<close> does not fail.\<close>

definition rbac_generate_id :: "('s, 'c, 'k) rbac_service \<Rightarrow> string \<Rightarrow> ('s, 'c, 'k, string) pact" where
  "rbac_generate_id sv pre = do {
     src \<leftarrow> in_world (draw (rs_auth sv));
     State_Monad.return (pre @ hex_encode (random_bytes src 12))
   }"

definition rbac_publish ::
  "('s, 'c, 'k) rbac_service \<Rightarrow> ctx \<Rightarrow> string \<Rightarrow> time \<Rightarrow> string \<Rightarrow> payload \<Rightarrow> ('s, 'c, 'k, unit) pact" where
  "rbac_publish sv cx name t subject payload =
     in_world (events_publish (au_events (rs_auth sv)) cx
       \<lparr>ev_name = name, ev_time = t, ev_subject = subject, ev_payload = payload\<rparr>)"

definition EventRoleCreated :: string where "EventRoleCreated = ''rbac.role.created''"
definition EventRoleUpdated :: string where "EventRoleUpdated = ''rbac.role.updated''"
definition EventRoleDeleted :: string where "EventRoleDeleted = ''rbac.role.deleted''"
definition EventRoleAssigned :: string where "EventRoleAssigned = ''rbac.role.assigned''"
definition EventRoleRevoked :: string where "EventRoleRevoked = ''rbac.role.revoked''"
definition EventAccessEvaluated :: string where "EventAccessEvaluated = ''rbac.access.evaluated''"

section \<open>Permissions and scopes\<close>

definition scope_applies :: "string \<Rightarrow> string \<Rightarrow> rbac_resource \<Rightarrow> bool" where
  "scope_applies sc sid res \<longleftrightarrow>
     (if sc = ScopeGlobal then True
      else if sc = ScopeOrganization then rr_organization res \<noteq> [] \<and> rr_organization res = sid
      else if sc = ScopeService then rr_service res \<noteq> [] \<and> rr_service res = sid
      else False)"

definition match_permission :: "string \<Rightarrow> string \<Rightarrow> bool" where
  "match_permission pattern requested \<longleftrightarrow>
     (if pattern = ''*'' \<or> pattern = requested then True
      else if has_suffix pattern '':*'' then has_prefix requested (butlast pattern)
      else
        let ps = split_on (CHR '':'') pattern; rs = split_on (CHR '':'') requested in
        if length ps \<noteq> length rs then False
        else list_all2 (\<lambda>p r. \<not> (p \<noteq> ''*'' \<and> p \<noteq> r)) ps rs)"

section \<open>Reading roles and assignments\<close>

definition get_role :: "('s, 'c, 'k) rbac_service \<Rightarrow> string \<Rightarrow> ('s, 'c, 'k, err + rbac_role) pact" where
  "get_role sv i =
     (if i = [] then fail RbacInvalidInput
      else do {
        r \<leftarrow> in_db (repo_find_one (roles_repo sv) [Eq ''id'' (VStr i)]);
        case r of
          Inl e \<Rightarrow> fail (if e = AdapterNotFound then ErrRoleNotFound else e)
        | Inr x \<Rightarrow> ok x
      })"

definition get_role_by_name :: "('s, 'c, 'k) rbac_service \<Rightarrow> string \<Rightarrow> ('s, 'c, 'k, err + rbac_role) pact" where
  "get_role_by_name sv n =
     (if n = [] then fail RbacInvalidInput
      else do {
        r \<leftarrow> in_db (repo_find_one (roles_repo sv) [Eq ''name'' (VStr n)]);
        case r of
          Inl e \<Rightarrow> fail (if e = AdapterNotFound then ErrRoleNotFound else e)
        | Inr x \<Rightarrow> ok x
      })"

definition list_roles :: "('s, 'c, 'k) rbac_service \<Rightarrow> string \<Rightarrow> ('s, 'c, 'k, err + rbac_role list) pact" where
  "list_roles sv sc =
     in_db (repo_find_many (roles_repo sv)
       (query_where ModelRBACRoles (if sc \<noteq> [] then [Eq ''scope'' (VStr sc)] else [])))"

definition list_assignments_by_principal ::
  "('s, 'c, 'k) rbac_service \<Rightarrow> principal \<Rightarrow> ('s, 'c, 'k, err + role_assignment list) pact" where
  "list_assignments_by_principal sv p =
     (if pr_subject p = [] then fail RbacPrincipalRequired
      else in_db (repo_find_many (assignments_repo sv) (query_where ModelRBACAssignments
        ([Eq ''principal_subject'' (VStr (pr_subject p))] @
         (if pr_type p \<noteq> [] then [Eq ''principal_type'' (VStr (pr_type p))] else [])))))"

definition list_assignments_by_role ::
  "('s, 'c, 'k) rbac_service \<Rightarrow> string \<Rightarrow> ('s, 'c, 'k, err + role_assignment list) pact" where
  "list_assignments_by_role sv i =
     (if i = [] then fail RbacInvalidInput
      else in_db (repo_find_many (assignments_repo sv)
        (query_where ModelRBACAssignments [Eq ''role_id'' (VStr i)])))"

section \<open>Evaluation\<close>

text \<open>The loop over the assignments: the first role that grants, with the scope it grants in.\<close>

fun first_grant ::
  "('s, 'c, 'k) rbac_service \<Rightarrow> string \<Rightarrow> rbac_resource \<Rightarrow> role_assignment list \<Rightarrow>
   ('s, 'c, 'k, (string \<times> string) option) pact" where
  "first_grant sv perm res [] = State_Monad.return None"
| "first_grant sv perm res (a # as) =
     (if \<not> scope_applies (ra_scope a) (ra_scope_id a) res then first_grant sv perm res as
      else do {
        r \<leftarrow> get_role sv (ra_role_id a);
        case r of
          Inl _ \<Rightarrow> first_grant sv perm res as
        | Inr x \<Rightarrow>
            if list_ex (\<lambda>q. match_permission q perm) (ro_permissions x)
            then State_Monad.return (Some (ro_name x, ra_scope a))
            else first_grant sv perm res as
      })"

definition cached_of :: "rbac_decision \<Rightarrow> rbac_cached" where
  "cached_of d = \<lparr>rc_allowed = rd_allowed d, rc_reason = rd_reason d, rc_matched_role = rd_matched_role d,
     rc_permission = rd_permission d, rc_cached_at = rd_evaluated_at d\<rparr>"

definition decision_of :: "principal \<Rightarrow> rbac_cached \<Rightarrow> rbac_decision" where
  "decision_of p d = \<lparr>rd_allowed = rc_allowed d, rd_reason = rc_reason d, rd_matched_role = rc_matched_role d,
     rd_permission = rc_permission d, rd_subject = pr_subject p, rd_type = pr_type p,
     rd_evaluated_at = rc_cached_at d\<rparr>"

text \<open>The resource with the organization of the context, when it names none.\<close>

definition in_organization :: "ctx \<Rightarrow> rbac_resource \<Rightarrow> rbac_resource" where
  "in_organization cx res =
     (if rr_organization res = []
      then (case organization_from cx of (org, b) \<Rightarrow> if b then res\<lparr>rr_organization := org\<rparr> else res)
      else res)"

definition rbac_lookup :: "('s, 'c, 'k) rbac_service \<Rightarrow> ctx \<Rightarrow> string \<Rightarrow> ('s, 'c, 'k, rbac_cached option) pact" where
  "rbac_lookup sv cx k =
     (case rs_cache sv of
        None \<Rightarrow> State_Monad.return None
      | Some dc \<Rightarrow> do {
          r \<leftarrow> dc_get dc cx k;
          State_Monad.return (case r of Inl _ \<Rightarrow> None | Inr x \<Rightarrow> x)
        })"

definition rbac_remember ::
  "('s, 'c, 'k) rbac_service \<Rightarrow> ctx \<Rightarrow> string \<Rightarrow> rbac_decision \<Rightarrow> ('s, 'c, 'k, unit) pact" where
  "rbac_remember sv cx k d =
     (case rs_cache sv of
        None \<Rightarrow> skip
      | Some dc \<Rightarrow> do { _ \<leftarrow> dc_set dc cx k (cached_of d) (rcf_cache_ttl (rs_cfg sv)); skip })"

definition rbac_key :: "('s, 'c, 'k) rbac_service \<Rightarrow> principal \<Rightarrow> string \<Rightarrow> rbac_resource \<Rightarrow> string" where
  "rbac_key sv p perm res =
     rbac_build_key (au_rt (rs_auth sv)) p perm (rr_type res) (rr_id res) (rr_organization res) (rr_service res)"

definition rbac_decide ::
  "('s, 'c, 'k) rbac_service \<Rightarrow> ctx \<Rightarrow> principal \<Rightarrow> string \<Rightarrow> rbac_resource \<Rightarrow> ('s, 'c, 'k, err + rbac_decision) pact" where
  "rbac_decide sv cx p perm res =
     bindE (list_assignments_by_principal sv p) (\<lambda>as. do {
       m \<leftarrow> first_grant sv perm res as;
       t \<leftarrow> rbac_now sv;
       let d = \<lparr>rd_allowed = (m \<noteq> None),
                rd_reason = (case m of
                   None \<Rightarrow> ''no matching role permission in active scope''
                 | Some (n, sc) \<Rightarrow> ''granted by role '' @ go_quote n @ '' in scope '' @ go_quote sc),
                rd_matched_role = (case m of None \<Rightarrow> [] | Some (n, sc) \<Rightarrow> n),
                rd_permission = perm, rd_subject = pr_subject p, rd_type = pr_type p, rd_evaluated_at = t\<rparr>;
       _ \<leftarrow> rbac_remember sv cx (rbac_key sv p perm res) d;
       _ \<leftarrow> rbac_publish sv cx EventAccessEvaluated t (pr_subject p) (PFields ''AccessEvaluatedPayload''
         [(''principal_subject'', FStr (pr_subject p)), (''principal_type'', FStr (pr_type p)),
          (''permission'', FStr perm), (''allowed'', FBool (rd_allowed d)),
          (''matched_role'', FStr (rd_matched_role d)), (''resource_type'', FStr (rr_type res)),
          (''resource_id'', FStr (rr_id res)), (''organization_id'', FStr (rr_organization res)),
          (''service_id'', FStr (rr_service res)), (''timestamp'', FTime t)]);
       ok d
     })"

definition rbac_evaluate ::
  "('s, 'c, 'k) rbac_service \<Rightarrow> ctx \<Rightarrow> principal \<Rightarrow> string \<Rightarrow> rbac_resource \<Rightarrow> ('s, 'c, 'k, err + rbac_decision) pact" where
  "rbac_evaluate sv cx p perm res0 =
     (if pr_subject p = [] then fail RbacPrincipalRequired
      else if perm = [] then fail ErrPermissionRequired
      else do {
        let res = in_organization cx res0;
        c \<leftarrow> rbac_lookup sv cx (rbac_key sv p perm res);
        case c of
          Some d \<Rightarrow> ok (decision_of p d)
        | None \<Rightarrow> rbac_decide sv cx p perm res
      })"

definition rbac_authorize ::
  "('s, 'c, 'k) rbac_service \<Rightarrow> ctx \<Rightarrow> principal \<Rightarrow> string \<Rightarrow> rbac_resource \<Rightarrow> ('s, 'c, 'k, err + unit) pact" where
  "rbac_authorize sv cx p perm res =
     bindE (rbac_evaluate sv cx p perm res) (\<lambda>d. if \<not> rd_allowed d then fail RbacForbidden else ok ())"

definition is_authorized ::
  "('s, 'c, 'k) rbac_service \<Rightarrow> ctx \<Rightarrow> principal \<Rightarrow> string \<Rightarrow> rbac_resource \<Rightarrow> ('s, 'c, 'k, err + bool) pact" where
  "is_authorized sv cx p perm res =
     bindE (rbac_evaluate sv cx p perm res) (\<lambda>d. ok (rd_allowed d))"

section \<open>Invalidation\<close>

definition rbac_invalidate_principal :: "('s, 'c, 'k) rbac_service \<Rightarrow> ctx \<Rightarrow> string \<Rightarrow> ('s, 'c, 'k, err + unit) pact" where
  "rbac_invalidate_principal sv cx p =
     (case rs_cache sv of
        Some dc \<Rightarrow> if p \<noteq> [] then dc_invalidate_principal dc cx p else ok ()
      | None \<Rightarrow> ok ())"

definition rbac_invalidate_all :: "('s, 'c, 'k) rbac_service \<Rightarrow> ctx \<Rightarrow> ('s, 'c, 'k, err + unit) pact" where
  "rbac_invalidate_all sv cx = (case rs_cache sv of Some dc \<Rightarrow> dc_invalidate_all dc cx | None \<Rightarrow> ok ())"

text \<open>The bare calls \<open>s.cache.InvalidatePrincipal\<close> of the service, with the result dropped.\<close>

definition forget_principal :: "('s, 'c, 'k) rbac_service \<Rightarrow> ctx \<Rightarrow> string \<Rightarrow> ('s, 'c, 'k, unit) pact" where
  "forget_principal sv cx p =
     (case rs_cache sv of
        Some dc \<Rightarrow> do { _ \<leftarrow> dc_invalidate_principal dc cx p; skip }
      | None \<Rightarrow> skip)"

definition invalidate_cache_for_role :: "('s, 'c, 'k) rbac_service \<Rightarrow> ctx \<Rightarrow> string \<Rightarrow> ('s, 'c, 'k, err + unit) pact" where
  "invalidate_cache_for_role sv cx i =
     (case rs_cache sv of
        None \<Rightarrow> ok ()
      | Some dc \<Rightarrow> do {
          as \<leftarrow> list_assignments_by_role sv i;
          case as of
            Inl _ \<Rightarrow> dc_invalidate_all dc cx
          | Inr as \<Rightarrow> do {
              _ \<leftarrow> for_each (\<lambda>a. forget_principal sv cx (ra_subject a)) as;
              ok ()
            }
        })"

section \<open>Roles\<close>

text \<open>The role the caller's pointer holds afterwards is the result.\<close>

definition create_role :: "('s, 'c, 'k) rbac_service \<Rightarrow> ctx \<Rightarrow> rbac_role option \<Rightarrow> ('s, 'c, 'k, err + rbac_role) pact" where
  "create_role sv cx r0 =
     (case r0 of
        None \<Rightarrow> fail RbacInvalidInput
      | Some r \<Rightarrow>
          if trim_space (ro_name r) = [] then fail RbacInvalidInput
          else if \<not> scope_valid (ro_scope r) then fail ErrInvalidScope
          else do {
            x \<leftarrow> in_db (repo_find_one (roles_repo sv) [Eq ''name'' (VStr (ro_name r))]);
            case x of
              Inr _ \<Rightarrow> fail ErrRoleAlreadyExists
            | Inl _ \<Rightarrow> do {
                i \<leftarrow> (if ro_id r = [] then rbac_generate_id sv ''role_'' else State_Monad.return (ro_id r));
                t \<leftarrow> rbac_now sv;
                c \<leftarrow> in_db (repo_create (roles_repo sv) (r\<lparr>ro_id := i, ro_created_at := t, ro_updated_at := t\<rparr>));
                case c of
                  Inl e \<Rightarrow> fail (if e = AdapterConflict then ErrRoleAlreadyExists else e)
                | Inr r' \<Rightarrow> do {
                    _ \<leftarrow> rbac_publish sv cx EventRoleCreated t (ro_id r') (PFields ''RoleCreatedPayload''
                      [(''role_id'', FStr (ro_id r')), (''name'', FStr (ro_name r')),
                       (''scope'', FStr (ro_scope r')), (''timestamp'', FTime t)]);
                    ok r'
                  }
              }
          })"

definition update_role :: "('s, 'c, 'k) rbac_service \<Rightarrow> ctx \<Rightarrow> rbac_role option \<Rightarrow> ('s, 'c, 'k, err + rbac_role) pact" where
  "update_role sv cx r0 =
     (case r0 of
        None \<Rightarrow> fail RbacInvalidInput
      | Some r \<Rightarrow>
          if ro_id r = [] \<or> trim_space (ro_name r) = [] then fail RbacInvalidInput
          else if \<not> scope_valid (ro_scope r) then fail ErrInvalidScope
          else do {
            x \<leftarrow> in_db (repo_find_one (roles_repo sv) [Eq ''name'' (VStr (ro_name r))]);
            if (case x of Inl _ \<Rightarrow> False | Inr y \<Rightarrow> ro_id y \<noteq> ro_id r) then fail ErrRoleAlreadyExists
            else do {
              t \<leftarrow> rbac_now sv;
              n \<leftarrow> in_db (repo_update (roles_repo sv) [Eq ''id'' (VStr (ro_id r))]
                [''name'' \<mapsto> VStr (ro_name r), ''description'' \<mapsto> VStr (ro_description r),
                 ''scope'' \<mapsto> VStr (ro_scope r), ''permissions'' \<mapsto> VList (map VStr (ro_permissions r)),
                 ''updated_at'' \<mapsto> VTime t]);
              case n of
                Inl e \<Rightarrow> fail (if e = AdapterConflict then ErrRoleAlreadyExists else e)
              | Inr n \<Rightarrow>
                  if n = 0 then fail ErrRoleNotFound
                  else do {
                    _ \<leftarrow> invalidate_cache_for_role sv cx (ro_id r);
                    _ \<leftarrow> rbac_publish sv cx EventRoleUpdated t (ro_id r) (PFields ''RoleUpdatedPayload''
                      [(''role_id'', FStr (ro_id r)), (''name'', FStr (ro_name r)),
                       (''scope'', FStr (ro_scope r)), (''timestamp'', FTime t)]);
                    ok (r\<lparr>ro_updated_at := t\<rparr>)
                  }
            }
          })"

definition delete_role :: "('s, 'c, 'k) rbac_service \<Rightarrow> ctx \<Rightarrow> string \<Rightarrow> ('s, 'c, 'k, err + unit) pact" where
  "delete_role sv cx i =
     (if i = [] then fail RbacInvalidInput
      else do {
        c \<leftarrow> in_db (repo_count (assignments_repo sv) [Eq ''role_id'' (VStr i)]);
        if (case c of Inl _ \<Rightarrow> False | Inr n \<Rightarrow> n > 0) then fail ErrRoleInUse
        else bindE (in_db (repo_delete (roles_repo sv) [Eq ''id'' (VStr i)])) (\<lambda>n.
          if n = 0 then fail ErrRoleNotFound
          else do {
            _ \<leftarrow> invalidate_cache_for_role sv cx i;
            t1 \<leftarrow> rbac_now sv;
            t2 \<leftarrow> rbac_now sv;
            _ \<leftarrow> rbac_publish sv cx EventRoleDeleted t1 i (PFields ''RoleDeletedPayload''
              [(''role_id'', FStr i), (''timestamp'', FTime t2)]);
            ok ()
          })
      })"

section \<open>Assignments\<close>

definition assign_role ::
  "('s, 'c, 'k) rbac_service \<Rightarrow> ctx \<Rightarrow> role_assignment option \<Rightarrow> ('s, 'c, 'k, err + role_assignment) pact" where
  "assign_role sv cx a0 =
     (case a0 of
        None \<Rightarrow> fail RbacInvalidInput
      | Some a \<Rightarrow>
          if ra_role_id a = [] \<or> ra_subject a = [] then fail RbacInvalidInput
          else if \<not> scope_valid (ra_scope a) then fail ErrInvalidScope
          else do {
            r \<leftarrow> get_role sv (ra_role_id a);
            case r of
              Inl _ \<Rightarrow> fail ErrRoleNotFound
            | Inr role \<Rightarrow>
                if ro_scope role \<noteq> ra_scope a then fail ErrInvalidScope
                else do {
                  x \<leftarrow> in_db (repo_find_one (assignments_repo sv)
                    [Eq ''role_id'' (VStr (ra_role_id a)), Eq ''principal_subject'' (VStr (ra_subject a)),
                     Eq ''principal_type'' (VStr (ra_type a)), Eq ''scope'' (VStr (ra_scope a)),
                     Eq ''scope_id'' (VStr (ra_scope_id a))]);
                  case x of
                    Inr _ \<Rightarrow> fail ErrAssignmentAlreadyExists
                  | Inl _ \<Rightarrow> do {
                      i \<leftarrow> (if ra_id a = [] then rbac_generate_id sv ''asgn_'' else State_Monad.return (ra_id a));
                      t \<leftarrow> rbac_now sv;
                      c \<leftarrow> in_db (repo_create (assignments_repo sv) (a\<lparr>ra_id := i, ra_created_at := t\<rparr>));
                      case c of
                        Inl e \<Rightarrow> fail (if e = AdapterConflict then ErrAssignmentAlreadyExists else e)
                      | Inr a' \<Rightarrow> do {
                          _ \<leftarrow> forget_principal sv cx (ra_subject a');
                          _ \<leftarrow> rbac_publish sv cx EventRoleAssigned (ra_created_at a') (ra_subject a')
                            (PFields ''RoleAssignedPayload''
                              [(''assignment_id'', FStr (ra_id a')), (''role_id'', FStr (ra_role_id a')),
                               (''principal_subject'', FStr (ra_subject a')), (''principal_type'', FStr (ra_type a')),
                               (''scope'', FStr (ra_scope a')), (''scope_id'', FStr (ra_scope_id a')),
                               (''timestamp'', FTime (ra_created_at a'))]);
                          ok a'
                        }
                    }
                }
          })"

definition revoke_role :: "('s, 'c, 'k) rbac_service \<Rightarrow> ctx \<Rightarrow> string \<Rightarrow> ('s, 'c, 'k, err + unit) pact" where
  "revoke_role sv cx i =
     (if i = [] then fail RbacInvalidInput
      else do {
        x \<leftarrow> in_db (repo_find_one (assignments_repo sv) [Eq ''id'' (VStr i)]);
        case x of
          Inl e \<Rightarrow> fail (if e = AdapterNotFound then ErrAssignmentNotFound else e)
        | Inr a \<Rightarrow> bindE (in_db (repo_delete (assignments_repo sv) [Eq ''id'' (VStr i)])) (\<lambda>n.
            if n = 0 then fail ErrAssignmentNotFound
            else do {
              _ \<leftarrow> forget_principal sv cx (ra_subject a);
              t1 \<leftarrow> rbac_now sv;
              t2 \<leftarrow> rbac_now sv;
              _ \<leftarrow> rbac_publish sv cx EventRoleRevoked t1 (ra_subject a) (PFields ''RoleRevokedPayload''
                [(''assignment_id'', FStr i), (''role_id'', FStr (ra_role_id a)),
                 (''principal_subject'', FStr (ra_subject a)), (''timestamp'', FTime t2)]);
              ok ()
            })
      })"

end
