(* ===== verification/Rbac_Rows.thy ===== *)
theory Rbac_Rows
  imports Sdk_Correct Decision_Correct Rbac_Service
begin

text \<open>
  Which permissions a pattern covers, in terms of the segments between colons, and which rows stand for
  which roles and assignments.
\<close>

section \<open>Patterns\<close>

text \<open>
  A single star covers everything. A pattern with a last segment that is a star covers what begins with
  the segments before it, taken literally, and goes on. Any other pattern covers what has as many
  segments, each equal to its own or under a star.
\<close>

definition permission_covers :: "string \<Rightarrow> string \<Rightarrow> bool" where
  "permission_covers pattern requested \<longleftrightarrow>
     (let ps = split_on (CHR '':'') pattern; rs = split_on (CHR '':'') requested in
      ps = [''*''] \<or>
      (if 2 \<le> length ps \<and> last ps = ''*''
       then length ps \<le> length rs \<and> take (length ps - 1) rs = butlast ps
       else list_all2 (\<lambda>p r. p = ''*'' \<or> p = r) ps rs))"

lemma join_append: "ps \<noteq> [] \<Longrightarrow> qs \<noteq> [] \<Longrightarrow> join_with c (ps @ qs) = join_with c ps @ c # join_with c qs"
proof (induction c ps rule: join_with.induct)
  case (2 c p)
  then show ?case by (cases qs) auto
qed auto

lemma split_star [simp]: "split_on (CHR '':'') ''*'' = [''*'']"
  by simp

lemma has_suffix_iff: "has_suffix s p \<longleftrightarrow> (\<exists>a. s = a @ p)"
proof
  assume "has_suffix s p"
  then have "s = take (length s - length p) s @ p" unfolding has_suffix_def by (metis append_take_drop_id)
  then show "\<exists>a. s = a @ p" by blast
next
  assume "\<exists>a. s = a @ p"
  then obtain a where "s = a @ p" by blast
  then show "has_suffix s p" unfolding has_suffix_def by simp
qed

lemma star_suffix:
  "has_suffix s '':*'' \<longleftrightarrow> 2 \<le> length (split_on (CHR '':'') s) \<and> last (split_on (CHR '':'') s) = ''*''"
    (is "?L \<longleftrightarrow> ?R")
proof
  assume ?L
  then obtain a where a: "s = a @ CHR '':'' # ''*''" by (auto simp: has_suffix_iff)
  have "split_on (CHR '':'') s = split_on (CHR '':'') a @ [''*'']" unfolding a split_on_append_any by simp
  moreover have "split_on (CHR '':'') a \<noteq> []" by simp
  ultimately show ?R by (cases "split_on (CHR '':'') a") auto
next
  assume R: ?R
  define ps where "ps = split_on (CHR '':'') s"
  have R': "2 \<le> length ps" "last ps = ''*''" using R by (simp_all only: ps_def simp_thms)
  then have "ps \<noteq> []" by auto
  then have ps2: "ps = butlast ps @ [''*'']" using append_butlast_last_id [of ps] R'(2) by simp
  have ps1: "butlast ps \<noteq> []"
  proof
    assume "butlast ps = []"
    with ps2 have "length ps = 1" by (metis append_Nil length_Cons list.size(3) One_nat_def)
    with R'(1) show False by simp
  qed
  note ps = ps1 ps2
  have "s = join_with (CHR '':'') ps" by (simp add: ps_def)
  also have "\<dots> = join_with (CHR '':'') (butlast ps) @ '':*''"
    using join_append [OF ps(1), of "[''*'']"] ps(2) by simp
  finally show ?L by (auto simp: has_suffix_iff)
qed

lemma literal_prefix:
  assumes "pattern = a @ '':*''"
  shows "has_prefix requested (butlast pattern) \<longleftrightarrow>
    length (split_on (CHR '':'') pattern) \<le> length (split_on (CHR '':'') requested) \<and>
    take (length (split_on (CHR '':'') pattern) - 1) (split_on (CHR '':'') requested) = butlast (split_on (CHR '':'') pattern)"
    (is "?L \<longleftrightarrow> ?R")
proof -
  define as where "as = split_on (CHR '':'') a"
  define rs where "rs = split_on (CHR '':'') requested"
  have ps: "split_on (CHR '':'') pattern = as @ [''*'']"
    using split_on_append_any [of "CHR '':''" a "''*''"] by (simp add: assms as_def)
  have bl: "butlast pattern = a @ '':''" by (simp add: assms butlast_append)
  have "?L \<longleftrightarrow> (\<exists>t. requested = a @ CHR '':'' # t)" by (auto simp: has_prefix_iff bl)
  also have "\<dots> \<longleftrightarrow> (\<exists>us. us \<noteq> [] \<and> rs = as @ us)"
  proof
    assume "\<exists>t. requested = a @ CHR '':'' # t"
    then show "\<exists>us. us \<noteq> [] \<and> rs = as @ us" by (auto simp: rs_def as_def split_on_append_any)
  next
    assume "\<exists>us. us \<noteq> [] \<and> rs = as @ us"
    then obtain us where us: "us \<noteq> []" "rs = as @ us" by blast
    have "requested = join_with (CHR '':'') (as @ us)" unfolding us(2) [symmetric] by (simp add: rs_def)
    also have "\<dots> = a @ CHR '':'' # join_with (CHR '':'') us"
      using us(1) by (simp add: join_append as_def)
    finally show "\<exists>t. requested = a @ CHR '':'' # t" by blast
  qed
  also have "\<dots> \<longleftrightarrow> Suc (length as) \<le> length rs \<and> take (length as) rs = as"
  proof
    assume "Suc (length as) \<le> length rs \<and> take (length as) rs = as"
    then show "\<exists>us. us \<noteq> [] \<and> rs = as @ us"
      by (metis append_take_drop_id drop_eq_Nil2 not_less_eq_eq)
  qed (auto simp: Suc_le_eq)
  finally show ?thesis by (simp add: ps rs_def)
qed

lemma match_permission_covers: "match_permission pattern requested \<longleftrightarrow> permission_covers pattern requested"
proof -
  define ps where "ps = split_on (CHR '':'') pattern"
  define rs where "rs = split_on (CHR '':'') requested"
  have star: "pattern = ''*'' \<longleftrightarrow> ps = [''*'']"
    unfolding ps_def by (metis join_split join_with.simps(2) split_star)
  have refl: "list_all2 (\<lambda>p r. p = ''*'' \<or> p = r) xs xs" for xs :: "string list"
    by (simp add: list_all2_same)
  show ?thesis
  proof (cases "has_suffix pattern '':*''")
    case True
    then obtain a where a: "pattern = a @ '':*''" by (auto simp: has_suffix_iff)
    have "has_prefix pattern (butlast pattern)"
      unfolding has_prefix_iff by (metis append_butlast_last_id append_Nil2 butlast.simps(1))
    with True show ?thesis
      using star literal_prefix [OF a] star_suffix [of pattern]
      by (auto simp: match_permission_def permission_covers_def Let_def ps_def)
  next
    case False
    have "list_all2 (\<lambda>p r. p = ''*'' \<or> p = r) ps rs \<Longrightarrow> length ps = length rs" by (rule list_all2_lengthD)
    with False show ?thesis
      using star star_suffix [of pattern] refl [of ps]
      by (auto simp: match_permission_def permission_covers_def Let_def ps_def rs_def simp del: list_all2_same)
  qed
qed

section \<open>Rows of roles\<close>

definition role_rep :: "runtime \<Rightarrow> (string \<Rightarrow> bool) \<Rightarrow> rbac_role \<Rightarrow> row \<Rightarrow> bool" where
  "role_rep rt plain x r \<longleftrightarrow> time_text rt \<and>
     r ''id'' = Some (VStr (ro_id x)) \<and> plain (ro_id x) \<and>
     r ''name'' = Some (VStr (ro_name x)) \<and> plain (ro_name x) \<and>
     str_rep (r ''description'') (ro_description x) \<and>
     r ''scope'' = Some (VStr (ro_scope x)) \<and> scope_valid (ro_scope x) \<and>
     strings_rep (r ''permissions'') (ro_permissions x) \<and>
     time_rep rt (r ''created_at'') (ro_created_at x) \<and>
     time_rep rt (r ''updated_at'') (ro_updated_at x)"

definition role_okay :: "(string \<Rightarrow> bool) \<Rightarrow> rbac_role \<Rightarrow> bool" where
  "role_okay plain x \<longleftrightarrow> plain (ro_id x) \<and> plain (ro_name x) \<and> scope_valid (ro_scope x) \<and>
     json_time_ok (ro_created_at x) \<and> json_time_ok (ro_updated_at x)"

lemma roles_repo_simps [simp]:
  "rp_codec (roles_repo sv) = role_codec (au_rt (rs_auth sv))" "rp_adapter (roles_repo sv) = Some (rs_adapter sv)"
  "rp_model (roles_repo sv) = ModelRBACRoles" "rp_rt (roles_repo sv) = au_rt (rs_auth sv)"
  "cd_zero (role_codec rt) = no_role" "cd_encode (role_codec rt) = role_encode"
  "cd_decode (role_codec rt) = role_decode rt"
  by (simp_all add: roles_repo_def role_codec_def)

lemma assignments_repo_simps [simp]:
  "rp_codec (assignments_repo sv) = assignment_codec (au_rt (rs_auth sv))"
  "rp_adapter (assignments_repo sv) = Some (rs_adapter sv)"
  "rp_model (assignments_repo sv) = ModelRBACAssignments" "rp_rt (assignments_repo sv) = au_rt (rs_auth sv)"
  "cd_zero (assignment_codec rt) = no_assignment" "cd_encode (assignment_codec rt) = assignment_encode"
  "cd_decode (assignment_codec rt) = assignment_decode rt"
  by (simp_all add: assignments_repo_def assignment_codec_def)

text \<open>Reading the members of a row whose fields can all be written.\<close>

lemma row_members:
  assumes "distinct fs" "list_all (\<lambda>f. encodable (r f)) fs"
  shows "\<exists>o'. row_object fs r = Inr o' \<and> list_all (\<lambda>f. map_of o' f = member_of (r f)) fs"
proof (rule row_object_members [of fs r])
  show "encodable (r f)" if "f \<in> set fs" for f using assms(2) that by (simp add: list_all_iff)
  show ?thesis if "row_object fs r = Inr o'" "\<And>f. f \<in> set fs \<Longrightarrow> map_of o' f = member_of (r f)" for o'
    using that by (intro exI [of _ o']) (simp add: list_all_iff)
qed (rule assms(1))

lemma from_map_role:
  assumes rep: "role_rep rt plain x r" and old: "old = no_role \<or> old = x" and rp: "rp_codec rp = role_codec rt"
  shows "from_map rp r old = Inr x"
proof -
  have c: "time_text rt" "str_rep (r ''id'') (ro_id x)" "str_rep (r ''name'') (ro_name x)"
    "str_rep (r ''description'') (ro_description x)" "str_rep (r ''scope'') (ro_scope x)"
    "strings_rep (r ''permissions'') (ro_permissions x)"
    "time_rep rt (r ''created_at'') (ro_created_at x)" "time_rep rt (r ''updated_at'') (ro_updated_at x)"
    using rep by (simp_all add: role_rep_def str_rep_def)
  obtain o' where o': "row_object (cd_fields (role_codec rt)) r = Inr o'"
    and m: "list_all (\<lambda>f. map_of o' f = member_of (r f)) (cd_fields (role_codec rt))"
  proof (rule exE [OF row_members [of "cd_fields (role_codec rt)" r]])
    show "distinct (cd_fields (role_codec rt))" by (simp add: role_codec_def)
    show "list_all (\<lambda>f. encodable (r f)) (cd_fields (role_codec rt))"
      using encodable_reps(1) [OF c(2)] encodable_reps(1) [OF c(3)] encodable_reps(1) [OF c(4)]
        encodable_reps(1) [OF c(5)] encodable_reps(6) [OF c(6)] encodable_reps(2) [OF c(7)]
        encodable_reps(2) [OF c(8)]
      by (simp add: role_codec_def)
  qed blast
  have m': "map_of o' ''id'' = member_of (r ''id'')" "map_of o' ''name'' = member_of (r ''name'')"
    "map_of o' ''description'' = member_of (r ''description'')" "map_of o' ''scope'' = member_of (r ''scope'')"
    "map_of o' ''permissions'' = member_of (r ''permissions'')"
    "map_of o' ''created_at'' = member_of (r ''created_at'')"
    "map_of o' ''updated_at'' = member_of (r ''updated_at'')"
    using m by (simp_all add: role_codec_def)
  have z: "ro_id old = [] \<or> ro_id old = ro_id x" "ro_name old = [] \<or> ro_name old = ro_name x"
    "ro_description old = [] \<or> ro_description old = ro_description x" "ro_scope old = [] \<or> ro_scope old = ro_scope x"
    using old by (auto simp: no_role_def)
  note rd = str_into_rep [OF c(2) m'(1) z(1)] str_into_rep [OF c(3) m'(2) z(2)] str_into_rep [OF c(4) m'(3) z(3)]
    str_into_rep [OF c(5) m'(4) z(4)] strings_into_rep [OF c(6) m'(5)] time_into_rep [OF c(7,1) m'(6)]
    time_into_rep [OF c(8,1) m'(7)]
  have "role_decode rt o' old = Inr x" by (simp only: role_decode_def rd and_then_simps) simp
  then show ?thesis using o' by (simp add: from_map_def rp)
qed

lemma to_map_role:
  assumes ok: "role_okay plain x" "time_text rt" and rt: "rp_rt rp = rt" "rp_codec rp = role_codec rt"
  shows "\<exists>r. to_map rp x = Inr r \<and> role_rep rt plain x r"
proof -
  obtain ms where ms: "role_encode x = Inr ms" using ok by (simp add: role_encode_def role_okay_def)
  define r where "r = map_of (map (\<lambda>(k, j). (k, json_value rt j)) ms)"
  have r: "to_map rp x = Inr r" by (simp add: to_map_def rt ms r_def)
  have ts: "json_time_ok (ro_created_at x) \<and> json_time_ok (ro_updated_at x)" using ok by (simp add: role_okay_def)
  note look = r_def ms [symmetric, unfolded role_encode_def if_P [OF ts] sum.inject]
  have "r ''id'' = Some (VStr (ro_id x))" "r ''name'' = Some (VStr (ro_name x))"
    "r ''description'' = (if ro_description x = [] then None else Some (VStr (ro_description x)))"
    "r ''scope'' = Some (VStr (ro_scope x))" "r ''permissions'' = Some (VList (map VStr (ro_permissions x)))"
    "r ''created_at'' = Some (VStr (format_time rt (ro_created_at x)))"
    "r ''updated_at'' = Some (VStr (format_time rt (ro_updated_at x)))"
    by (simp_all add: look map_add_def comp_def)
  then have "role_rep rt plain x r"
    using ok unfolding role_rep_def role_okay_def by (auto simp: rep_defs)
  with r show ?thesis by blast
qed

section \<open>Rows of assignments\<close>

definition assignment_rep :: "runtime \<Rightarrow> (string \<Rightarrow> bool) \<Rightarrow> role_assignment \<Rightarrow> row \<Rightarrow> bool" where
  "assignment_rep rt plain x r \<longleftrightarrow> time_text rt \<and>
     r ''id'' = Some (VStr (ra_id x)) \<and> plain (ra_id x) \<and>
     r ''role_id'' = Some (VStr (ra_role_id x)) \<and> plain (ra_role_id x) \<and>
     r ''principal_subject'' = Some (VStr (ra_subject x)) \<and> plain (ra_subject x) \<and>
     r ''principal_type'' = Some (VStr (ra_type x)) \<and> plain (ra_type x) \<and>
     str_rep (r ''scope'') (ra_scope x) \<and> str_rep (r ''scope_id'') (ra_scope_id x) \<and>
     time_rep rt (r ''created_at'') (ra_created_at x)"

definition assignment_okay :: "(string \<Rightarrow> bool) \<Rightarrow> role_assignment \<Rightarrow> bool" where
  "assignment_okay plain x \<longleftrightarrow> plain (ra_id x) \<and> plain (ra_role_id x) \<and> plain (ra_subject x) \<and>
     plain (ra_type x) \<and> json_time_ok (ra_created_at x)"

lemma from_map_assignment:
  assumes rep: "assignment_rep rt plain x r" and old: "old = no_assignment \<or> old = x"
    and rp: "rp_codec rp = assignment_codec rt"
  shows "from_map rp r old = Inr x"
proof -
  have c: "time_text rt" "str_rep (r ''id'') (ra_id x)" "str_rep (r ''role_id'') (ra_role_id x)"
    "str_rep (r ''principal_subject'') (ra_subject x)" "str_rep (r ''principal_type'') (ra_type x)"
    "str_rep (r ''scope'') (ra_scope x)" "str_rep (r ''scope_id'') (ra_scope_id x)"
    "time_rep rt (r ''created_at'') (ra_created_at x)"
    using rep by (simp_all add: assignment_rep_def str_rep_def)
  obtain o' where o': "row_object (cd_fields (assignment_codec rt)) r = Inr o'"
    and m: "list_all (\<lambda>f. map_of o' f = member_of (r f)) (cd_fields (assignment_codec rt))"
  proof (rule exE [OF row_members [of "cd_fields (assignment_codec rt)" r]])
    show "distinct (cd_fields (assignment_codec rt))" by (simp add: assignment_codec_def)
    show "list_all (\<lambda>f. encodable (r f)) (cd_fields (assignment_codec rt))"
      using encodable_reps(1) [OF c(2)] encodable_reps(1) [OF c(3)] encodable_reps(1) [OF c(4)]
        encodable_reps(1) [OF c(5)] encodable_reps(1) [OF c(6)] encodable_reps(1) [OF c(7)]
        encodable_reps(2) [OF c(8)]
      by (simp add: assignment_codec_def)
  qed blast
  have m': "map_of o' ''id'' = member_of (r ''id'')" "map_of o' ''role_id'' = member_of (r ''role_id'')"
    "map_of o' ''principal_subject'' = member_of (r ''principal_subject'')"
    "map_of o' ''principal_type'' = member_of (r ''principal_type'')" "map_of o' ''scope'' = member_of (r ''scope'')"
    "map_of o' ''scope_id'' = member_of (r ''scope_id'')" "map_of o' ''created_at'' = member_of (r ''created_at'')"
    using m by (simp_all add: assignment_codec_def)
  have z: "ra_id old = [] \<or> ra_id old = ra_id x" "ra_role_id old = [] \<or> ra_role_id old = ra_role_id x"
    "ra_subject old = [] \<or> ra_subject old = ra_subject x" "ra_type old = [] \<or> ra_type old = ra_type x"
    "ra_scope old = [] \<or> ra_scope old = ra_scope x" "ra_scope_id old = [] \<or> ra_scope_id old = ra_scope_id x"
    using old by (auto simp: no_assignment_def)
  note rd = str_into_rep [OF c(2) m'(1) z(1)] str_into_rep [OF c(3) m'(2) z(2)] str_into_rep [OF c(4) m'(3) z(3)]
    str_into_rep [OF c(5) m'(4) z(4)] str_into_rep [OF c(6) m'(5) z(5)] str_into_rep [OF c(7) m'(6) z(6)]
    time_into_rep [OF c(8,1) m'(7)]
  have "assignment_decode rt o' old = Inr x" by (simp only: assignment_decode_def rd and_then_simps) simp
  then show ?thesis using o' by (simp add: from_map_def rp)
qed

lemma to_map_assignment:
  assumes ok: "assignment_okay plain x" "time_text rt" and rt: "rp_rt rp = rt" "rp_codec rp = assignment_codec rt"
  shows "\<exists>r. to_map rp x = Inr r \<and> assignment_rep rt plain x r"
proof -
  have ts: "json_time_ok (ra_created_at x)" using ok by (simp add: assignment_okay_def)
  then obtain ms where ms: "assignment_encode x = Inr ms" by (simp add: assignment_encode_def)
  define r where "r = map_of (map (\<lambda>(k, j). (k, json_value rt j)) ms)"
  have r: "to_map rp x = Inr r" by (simp add: to_map_def rt ms r_def)
  note look = r_def ms [symmetric, unfolded assignment_encode_def if_P [OF ts] sum.inject]
  have "r ''id'' = Some (VStr (ra_id x))" "r ''role_id'' = Some (VStr (ra_role_id x))"
    "r ''principal_subject'' = Some (VStr (ra_subject x))" "r ''principal_type'' = Some (VStr (ra_type x))"
    "r ''scope'' = Some (VStr (ra_scope x))"
    "r ''scope_id'' = (if ra_scope_id x = [] then None else Some (VStr (ra_scope_id x)))"
    "r ''created_at'' = Some (VStr (format_time rt (ra_created_at x)))"
    by (simp_all add: look map_add_def)
  then have "assignment_rep rt plain x r"
    using ok unfolding assignment_rep_def assignment_okay_def by (auto simp: rep_defs)
  with r show ?thesis by blast
qed

end
