(* ===== verification/Rbac_Correct.thy ===== *)
theory Rbac_Correct
  imports Rbac_Rows
begin

text \<open>
  The service of role-based access control on an adapter that keeps \<open>model_contract\<close> for its two models
  and on a cache that keeps \<open>decisions\<close>: every operation as a change of the roles and the assignments, and
  that no operation leaves a stale decision in the cache.
\<close>

section \<open>What access means\<close>

text \<open>
  A principal has a permission on a resource when one of its assignments applies there and gives a role
  with a pattern that covers the permission. A principal without a type stands for all types.
\<close>

definition holds_assignment :: "principal \<Rightarrow> role_assignment \<Rightarrow> bool" where
  "holds_assignment p a \<longleftrightarrow> ra_subject a = pr_subject p \<and> (pr_type p = [] \<or> ra_type a = pr_type p)"

definition role_grants :: "rbac_role multiset \<Rightarrow> string \<Rightarrow> rbac_resource \<Rightarrow> role_assignment \<Rightarrow> bool" where
  "role_grants R perm res a \<longleftrightarrow> scope_applies (ra_scope a) (ra_scope_id a) res \<and>
     (\<exists>x \<in># R. ro_id x = ra_role_id a \<and> (\<exists>q \<in> set (ro_permissions x). permission_covers q perm))"

definition access :: "rbac_role multiset \<Rightarrow> role_assignment multiset \<Rightarrow> principal \<times> string \<times> rbac_resource \<Rightarrow> bool" where
  "access R A q \<longleftrightarrow> (case q of (p, perm, res) \<Rightarrow> \<exists>a \<in># A. holds_assignment p a \<and> role_grants R perm res a)"

text \<open>Roles have identifiers and names of their own, and every assignment is of a role there is.\<close>

definition rbac_ok :: "rbac_role multiset \<Rightarrow> role_assignment multiset \<Rightarrow> bool" where
  "rbac_ok R A \<longleftrightarrow> uniq ro_id R \<and> uniq ro_name R \<and> uniq ra_id A \<and> (\<forall>x \<in># R. ro_id x \<noteq> []) \<and>
     (\<forall>a \<in># A. \<exists>x \<in># R. ro_id x = ra_role_id a)"

lemma uniq_eqD: "uniq f M \<Longrightarrow> x \<in># M \<Longrightarrow> y \<in># M \<Longrightarrow> f x = f y \<Longrightarrow> x = y"
proof (rule ccontr)
  assume u: "uniq f M" "x \<in># M" "y \<in># M" "f x = f y" "x \<noteq> y"
  obtain N where N: "M = add_mset x N" using u(2) by (metis mset_add)
  with u obtain N' where N': "N = add_mset y N'" by (metis insert_noteq_member mset_add)
  with N u have "size {#z \<in># M. f z = f x#} \<ge> 2" by simp
  with u(1) show False by (auto simp: uniq_def dest: spec [of _ "f x"])
qed

lemma access_more_roles:
  assumes "rbac_ok R A" "\<And>y. y \<in># R \<Longrightarrow> ro_id y \<noteq> ro_id x"
  shows "access (add_mset x R) A q = access R A q"
proof -
  have "role_grants (add_mset x R) perm res a = role_grants R perm res a" if "a \<in># A" for a perm res
    using assms that by (fastforce simp: rbac_ok_def role_grants_def)
  then show ?thesis by (auto simp: access_def split: prod.splits)
qed

lemma access_other_role:
  assumes "\<And>a. a \<in># A \<Longrightarrow> ra_subject a = pr_subject (fst q) \<Longrightarrow> ra_role_id a \<noteq> i"
    and "\<And>x. ro_id x \<noteq> i \<Longrightarrow> x \<in># R' \<longleftrightarrow> x \<in># R"
  shows "access R' A q = access R A q"
proof -
  obtain p perm res where q: "q = (p, perm, res)" by (cases q)
  have "role_grants R' perm res a = role_grants R perm res a" if "a \<in># A" "holds_assignment p a" for a
    using assms(1) [of a] assms(2) that q by (auto simp: role_grants_def holds_assignment_def)
  then show ?thesis by (auto simp: access_def q)
qed

lemma access_other_subject:
  assumes "\<And>a. ra_subject a = pr_subject (fst q) \<Longrightarrow> a \<in># A' \<longleftrightarrow> a \<in># A"
  shows "access R A' q = access R A q"
  using assms by (auto simp: access_def holds_assignment_def split: prod.splits)

lemma access_fewer_roles:
  assumes "\<And>a. a \<in># A \<Longrightarrow> ra_role_id a \<noteq> i" "R' = filter_mset (\<lambda>x. ro_id x \<noteq> i) R"
  shows "access R' A q = access R A q"
  using assms by (intro access_other_role [of A q i]) auto

text \<open>What an update does to a role.\<close>

definition role_updated :: "rbac_role \<Rightarrow> time \<Rightarrow> rbac_role \<Rightarrow> rbac_role" where
  "role_updated x t y = y\<lparr>ro_name := ro_name x, ro_description := ro_description x, ro_scope := ro_scope x,
     ro_permissions := ro_permissions x, ro_updated_at := t\<rparr>"

lemma uniq_mapped: "(\<And>x. f (g x) = f x) \<Longrightarrow> uniq f M \<Longrightarrow> uniq f (image_mset g M)"
  by (simp add: uniq_def filter_mset_image_mset)

lemma uniq_updated_name:
  assumes ids: "uniq ro_id M" and names: "uniq ro_name M"
    and own: "\<And>z. z \<in># M \<Longrightarrow> ro_name z = ro_name x \<Longrightarrow> ro_id z = ro_id x"
  shows "uniq ro_name (upd_where (\<lambda>z. ro_id z = ro_id x) (role_updated x t) M)"
proof -
  have "size {#z \<in># M. ro_name (if ro_id z = ro_id x then role_updated x t z else z) = k#} \<le> 1" for k
  proof (cases "k = ro_name x")
    case True
    then have "{#z \<in># M. ro_name (if ro_id z = ro_id x then role_updated x t z else z) = k#} = {#z \<in># M. ro_id z = ro_id x#}"
      using own by (intro filter_mset_cong) (auto simp: role_updated_def)
    with ids show ?thesis by (simp add: uniq_def)
  next
    case False
    then have "{#z \<in># M. ro_name (if ro_id z = ro_id x then role_updated x t z else z) = k#} \<subseteq># {#z \<in># M. ro_name z = k#}"
      by (intro filter_mset_mono_strong) (auto simp: role_updated_def split: if_splits)
    from size_mset_mono [OF this] names show ?thesis unfolding uniq_def by (meson order_trans)
  qed
  then show ?thesis by (simp add: uniq_def upd_where_def filter_mset_image_mset)
qed

section \<open>The laws of the service\<close>

definition rbac_owned :: "string \<Rightarrow> string \<Rightarrow> bool" where
  "rbac_owned p k \<longleftrightarrow> (\<exists>h. k = cache_key [''rbac'', ''eval'', p, h] \<and> CHR '':'' \<notin> set h)"

lemma rbac_key_owned: "rbac_owned (pr_subject p) (rbac_key sv p perm res)"
  unfolding rbac_owned_def rbac_key_def rbac_build_key_def using hex_encode_colon by blast

definition role_unique :: "string list list" where
  "role_unique = [[''id''], [''name'']]"

definition assignment_unique :: "string list list" where
  "assignment_unique = [[''id'']]"

definition rbac_ready :: "('s, 'c, 'k) rbac_service \<Rightarrow> bool" where
  "rbac_ready sv \<longleftrightarrow> time_text (au_rt (rs_auth sv)) \<and> (\<forall>n. json_time_ok (rs_clock sv n))"

text \<open>A cache that keeps the laws, or none.\<close>

definition rbac_caching ::
  "('s, 'c, 'k) rbac_cache option \<Rightarrow> (('s, 'c, 'k) pworld \<Rightarrow> bool) \<Rightarrow> (('s, 'c, 'k) pworld \<Rightarrow> string \<rightharpoonup> rbac_cached) \<Rightarrow>
   (string \<Rightarrow> bool) \<Rightarrow> bool" where
  "rbac_caching c cinv view sure \<longleftrightarrow> (case c of
     None \<Rightarrow> (\<forall>s. cinv s \<and> view s = Map.empty)
   | Some dc \<Rightarrow> decisions dc cinv view rbac_owned sure (\<lambda>_. True))"

locale rbac =
  roles_model: model_contract ad inv tbl sat plain ModelRBACRoles role_unique +
  assignments_model: model_contract ad inv tbl sat plain ModelRBACAssignments assignment_unique
  for ad :: "'s adapter" and inv tbl sat plain +
  fixes sv :: "('s, 'c, 'k) rbac_service"
    and cinv :: "('s, 'c, 'k) pworld \<Rightarrow> bool"
    and view :: "('s, 'c, 'k) pworld \<Rightarrow> string \<rightharpoonup> rbac_cached"
    and sure :: "string \<Rightarrow> bool"
  assumes adapter: "rs_adapter sv = ad"
    and plain: "CHR '':'' \<notin> set x \<Longrightarrow> plain x"
    and total: "run_state (ad_find_one ad m cs) s = (Inl e, s') \<Longrightarrow> e = AdapterNotFound"
      "run_state (ad_find_many ad q) s \<noteq> (Inl e, s')"
      "run_state (ad_update ad m cs u) s \<noteq> (Inl e, s')"
      "run_state (ad_delete ad m cs) s \<noteq> (Inl e, s')"
      "run_state (ad_count ad m cs) s \<noteq> (Inl e, s')"
    and publish_frame: "run_state (events_publish (au_events (rs_auth sv)) cx ev) w = (y, w') \<Longrightarrow>
      w_db w' = w_db w \<and> w_cache w' = w_cache w"
    and caching: "rbac_caching (rs_cache sv) cinv view sure"

sublocale rbac \<subseteq> roles: repository ad inv tbl sat plain ModelRBACRoles role_unique "roles_repo sv"
  "role_rep (au_rt (rs_auth sv)) plain" "\<lambda>x. time_text (au_rt (rs_auth sv)) \<and> role_okay plain x"
proof (unfold_locales, goal_cases)
  case 1 then show ?case by (simp add: adapter)
next
  case 2 then show ?case by simp
next
  case (3 x)
  then show ?case
    using to_map_role [of plain x "au_rt (rs_auth sv)" "roles_repo sv"]
      from_map_role [of "au_rt (rs_auth sv)" plain x _ x "roles_repo sv"] by auto
next
  case (4 x r)
  then show ?case by (simp add: from_map_role [OF 4])
qed

sublocale rbac \<subseteq> assignments: repository ad inv tbl sat plain ModelRBACAssignments assignment_unique
  "assignments_repo sv" "assignment_rep (au_rt (rs_auth sv)) plain"
  "\<lambda>x. time_text (au_rt (rs_auth sv)) \<and> assignment_okay plain x"
proof (unfold_locales, goal_cases)
  case 1 then show ?case by (simp add: adapter)
next
  case 2 then show ?case by simp
next
  case (3 x)
  then show ?case
    using to_map_assignment [of plain x "au_rt (rs_auth sv)" "assignments_repo sv"]
      from_map_assignment [of "au_rt (rs_auth sv)" plain x _ x "assignments_repo sv"] by auto
next
  case (4 x r)
  then show ?case by (simp add: from_map_assignment [OF 4])
qed

section \<open>Reading\<close>

context rbac
begin

abbreviation db :: "('s, 'c, 'k) pworld \<Rightarrow> 's" where
  "db s \<equiv> w_db (pw_world s)"

definition R :: "('s, 'c, 'k) pworld \<Rightarrow> rbac_role multiset" where
  "R s = roles.ents (db s)"

definition A :: "('s, 'c, 'k) pworld \<Rightarrow> role_assignment multiset" where
  "A s = assignments.ents (db s)"

definition sinv :: "('s, 'c, 'k) pworld \<Rightarrow> bool" where
  "sinv s \<longleftrightarrow> roles.rinv (db s) \<and> assignments.rinv (db s) \<and> rbac_ok (R s) (A s) \<and>
     (\<forall>a \<in># A s. sure (ra_subject a))"

text \<open>No cached decision about the requests \<open>Q\<close> differs from what the roles and assignments say.\<close>

definition asked :: "principal \<times> string \<times> rbac_resource \<Rightarrow> string" where
  "asked q = (case q of (p, perm, res) \<Rightarrow> rbac_key sv p perm res)"

definition fresh :: "(principal \<times> string \<times> rbac_resource) set \<Rightarrow> ('s, 'c, 'k) pworld \<Rightarrow> bool" where
  "fresh Q s \<longleftrightarrow> cinv s \<and> (\<forall>q \<in> Q. \<forall>d. view s (asked q) = Some d \<longrightarrow> rc_allowed d = access (R s) (A s) q)"

lemma run_in_db:
  "run_state (in_db m) s = (case run_state m (db s) of (r, d) \<Rightarrow> (r, s\<lparr>pw_world := (pw_world s)\<lparr>w_db := d\<rparr>\<rparr>))"
  by (simp add: in_db_def in_world_def on_db_def split: prod.splits)

lemma same_db_simps [simp]:
  "R (s\<lparr>pw_ticks := n\<rparr>) = R s" "A (s\<lparr>pw_ticks := n\<rparr>) = A s" "sinv (s\<lparr>pw_ticks := n\<rparr>) = sinv s"
  by (simp_all add: R_def A_def sinv_def)

lemma same_db:
  "db s' = db s \<Longrightarrow> R s' = R s \<and> A s' = A s \<and> sinv s' = sinv s"
  by (simp add: R_def A_def sinv_def)

lemma means_role:
  "roles.means [Eq ''id'' (VStr b)] (\<lambda>x. ro_id x = b)" "roles.means [Eq ''name'' (VStr b)] (\<lambda>x. ro_name x = b)"
  by (rule roles.means_eq; simp add: role_rep_def)+

lemma means_assignment:
  "assignments.means [Eq ''id'' (VStr b)] (\<lambda>x. ra_id x = b)"
  "assignments.means [Eq ''role_id'' (VStr b)] (\<lambda>x. ra_role_id x = b)"
  "assignments.means [Eq ''principal_subject'' (VStr b)] (\<lambda>x. ra_subject x = b)"
  "assignments.means [Eq ''principal_type'' (VStr b)] (\<lambda>x. ra_type x = b)"
  by (rule assignments.means_eq; simp add: assignment_rep_def)+

lemma means_held:
  "assignments.means ([Eq ''principal_subject'' (VStr (pr_subject p))] @
     (if pr_type p \<noteq> [] then [Eq ''principal_type'' (VStr (pr_type p))] else [])) (holds_assignment p)"
  using means_assignment(3) [of "pr_subject p"] means_assignment(4) [of "pr_type p"]
  by (auto simp: assignments.means_def holds_assignment_def sats_def)

lemma read_one_error:
  assumes "rp_adapter rp = Some ad" "run_state (repo_find_one rp w) s = (Inl e, s')"
    and "\<And>row. run_state (ad_find_one ad (rp_model rp) w) s = (Inr row, s') \<Longrightarrow>
      \<exists>x. from_map rp row (cd_zero (rp_codec rp)) = Inr x"
  shows "e = AdapterNotFound"
proof -
  obtain q s1 where q: "run_state (ad_find_one ad (rp_model rp) w) s = (q, s1)" by (rule prod.exhaust)
  then show ?thesis using assms total(1) by (cases q) (fastforce simp: repo_find_one_def)+
qed

lemma find_role:
  assumes s: "sinv s" and k: "roles.means [Eq k (VStr v)] (\<lambda>x. sel x = v)"
    and run: "run_state (in_db (repo_find_one (roles_repo sv) [Eq k (VStr v)])) s = (r, s')"
  obtains "r = Inl AdapterNotFound" "s' = s" "\<forall>x \<in># R s. sel x \<noteq> v"
    | x where "r = Inr x" "s' = s" "x \<in># R s" "sel x = v"
proof -
  obtain d where q: "run_state (repo_find_one (roles_repo sv) [Eq k (VStr v)]) (db s) = (r, d)"
    and s': "s' = s\<lparr>pw_world := (pw_world s)\<lparr>w_db := d\<rparr>\<rparr>"
    using run by (auto simp: run_in_db split: prod.splits)
  have rinv: "roles.rinv (db s)" using s by (simp add: sinv_def)
  note f = roles.repo_find_one [OF rinv k q]
  show thesis
  proof (cases r)
    case (Inl e)
    have "e = AdapterNotFound"
    proof (rule read_one_error)
      show "run_state (repo_find_one (roles_repo sv) [Eq k (VStr v)]) (db s) = (Inl e, d)" using q Inl by simp
      fix row assume "run_state (ad_find_one ad (rp_model (roles_repo sv)) [Eq k (VStr v)]) (db s) = (Inr row, d)"
      with roles_model.find_one_Inr rinv have "row \<in># tbl (db s) ModelRBACRoles"
        by (auto simp: roles.rinv_def)
      from roles.reads [OF roles.rinv_rep [OF rinv this]]
      show "\<exists>x. from_map (roles_repo sv) row (cd_zero (rp_codec (roles_repo sv))) = Inr x" by blast
    qed (simp add: adapter)
    with f Inl s' that(1) show thesis by (auto simp: R_def)
  next
    case (Inr x)
    with f s' that(2) show thesis by (auto simp: R_def)
  qed
qed

lemma find_assignment:
  assumes s: "sinv s" and run: "run_state (in_db (repo_find_one (assignments_repo sv) w)) s = (r, s')"
    and k: "assignments.means w P"
  obtains "r = Inl AdapterNotFound" "s' = s" "\<forall>x \<in># A s. \<not> P x"
    | x where "r = Inr x" "s' = s" "x \<in># A s" "P x"
proof -
  obtain d where q: "run_state (repo_find_one (assignments_repo sv) w) (db s) = (r, d)"
    and s': "s' = s\<lparr>pw_world := (pw_world s)\<lparr>w_db := d\<rparr>\<rparr>"
    using run by (auto simp: run_in_db split: prod.splits)
  have rinv: "assignments.rinv (db s)" using s by (simp add: sinv_def)
  note f = assignments.repo_find_one [OF rinv k q]
  show thesis
  proof (cases r)
    case (Inl e)
    have "e = AdapterNotFound"
    proof (rule read_one_error)
      show "run_state (repo_find_one (assignments_repo sv) w) (db s) = (Inl e, d)" using q Inl by simp
      fix row assume "run_state (ad_find_one ad (rp_model (assignments_repo sv)) w) (db s) = (Inr row, d)"
      with assignments_model.find_one_Inr rinv have "row \<in># tbl (db s) ModelRBACAssignments"
        by (auto simp: assignments.rinv_def)
      from assignments.reads [OF assignments.rinv_rep [OF rinv this]]
      show "\<exists>x. from_map (assignments_repo sv) row (cd_zero (rp_codec (assignments_repo sv))) = Inr x" by blast
    qed (simp add: adapter)
    with f Inl s' that(1) show thesis by (auto simp: A_def)
  next
    case (Inr x)
    with f s' that(2) show thesis by (auto simp: A_def)
  qed
qed

lemma find_assignments:
  assumes s: "sinv s" and k: "assignments.means w P"
    and run: "run_state (in_db (repo_find_many (assignments_repo sv) (query_where ModelRBACAssignments w))) s = (r, s')"
  obtains as where "r = Inr as" "s' = s" "mset as = filter_mset P (A s)"
proof -
  obtain d where q: "run_state (repo_find_many (assignments_repo sv) (query_where ModelRBACAssignments w)) (db s) = (r, d)"
    and s': "s' = s\<lparr>pw_world := (pw_world s)\<lparr>w_db := d\<rparr>\<rparr>"
    using run by (auto simp: run_in_db split: prod.splits)
  have rinv: "assignments.rinv (db s)" using s by (simp add: sinv_def)
  note f = assignments.repo_find_many [OF rinv k q]
  have "(query_where ModelRBACAssignments w)\<lparr>q_model := ModelRBACAssignments\<rparr> = query_where ModelRBACAssignments w"
    by (simp add: query_where_def)
  then have "\<exists>rows d1. run_state (ad_find_many ad (query_where ModelRBACAssignments w)) (db s) = (Inr rows, d1)"
    using total(2) by (metis old.sum.exhaust prod.exhaust)
  then obtain rows d1 where rows: "run_state (ad_find_many ad (query_where ModelRBACAssignments w)) (db s) = (Inr rows, d1)"
    by blast
  have "\<forall>row \<in> set rows. row \<in># tbl (db s) ModelRBACAssignments"
    using assignments_model.find_many_Inr [OF _ rows] rinv
    by (metis assignments.rinv_def filter_mset_eq_conv mset_subset_eqD multiset_filter_subset set_mset_mset)
  then have all: "collect (map (\<lambda>row. from_map (assignments_repo sv) row no_assignment) rows) =
      Inr (map assignments.entity rows)"
    using assignments.reads [OF assignments.rinv_rep [OF rinv]]
    by (intro assignments.collect_Inr) simp
  have "r = collect (map (\<lambda>row. from_map (assignments_repo sv) row no_assignment) rows)"
    using q rows by (auto simp: repo_find_many_def adapter query_where_def)
  then have "\<exists>as. r = Inr as" unfolding all by blast
  with f s' that show thesis by (auto simp: A_def)
qed

text \<open>The cache, whichever it is.\<close>

lemma lookup_spec:
  assumes "cinv s" "run_state (rbac_lookup sv cx k) s = (r, s')" "rbac_owned p k"
  shows "cinv s' \<and> db s' = db s \<and> view s' \<subseteq>\<^sub>m view s \<and> (\<forall>d. r = Some d \<longrightarrow> view s k = Some d)"
proof (cases "rs_cache sv")
  case None
  with assms show ?thesis by (simp add: rbac_lookup_def)
next
  case (Some dc)
  with caching have d: "decisions dc cinv view rbac_owned sure (\<lambda>_. True)" by (simp add: rbac_caching_def)
  obtain q s1 where q: "run_state (dc_get dc cx k) s = (q, s1)" by (rule prod.exhaust)
  with assms(2) Some have "r = (case q of Inl _ \<Rightarrow> None | Inr x \<Rightarrow> x)" "s' = s1"
    by (auto simp: rbac_lookup_def)
  with decisions.get [OF d assms(1,3) q] show ?thesis by (cases q) (auto simp: only_cache_def)
qed

lemma remember_spec:
  assumes "cinv s" "run_state (rbac_remember sv cx k d) s = (u, s')" "rbac_owned p k"
  shows "cinv s' \<and> db s' = db s \<and> (view s' \<subseteq>\<^sub>m view s \<or> view s' \<subseteq>\<^sub>m (view s)(k \<mapsto> cached_of d))"
proof (cases "rs_cache sv")
  case None
  with assms show ?thesis by (simp add: rbac_remember_def)
next
  case (Some dc)
  with caching have d: "decisions dc cinv view rbac_owned sure (\<lambda>_. True)" by (simp add: rbac_caching_def)
  obtain q s1 where q: "run_state (dc_set dc cx k (cached_of d) (rcf_cache_ttl (rs_cfg sv))) s = (q, s1)"
    by (rule prod.exhaust)
  with assms(2) Some have "s' = s1" by (auto simp: rbac_remember_def)
  with decisions.set [OF d assms(1,3) TrueI q] show ?thesis by (simp add: only_cache_def)
qed

lemma forget_spec:
  assumes "cinv s" "ctx_err cx = None" "run_state (forget_principal sv cx p) s = (u, s')"
  shows "cinv s' \<and> db s' = db s \<and> view s' \<subseteq>\<^sub>m view s \<and> (sure p \<longrightarrow> (\<forall>k. rbac_owned p k \<longrightarrow> view s' k = None))"
proof (cases "rs_cache sv")
  case None
  with caching have "view x = Map.empty" for x by (simp add: rbac_caching_def)
  with None assms show ?thesis by (simp add: forget_principal_def)
next
  case (Some dc)
  with caching have d: "decisions dc cinv view rbac_owned sure (\<lambda>_. True)" by (simp add: rbac_caching_def)
  obtain q s1 where q: "run_state (dc_invalidate_principal dc cx p) s = (q, s1)" by (rule prod.exhaust)
  with assms(3) Some have "s' = s1" by (auto simp: forget_principal_def)
  with decisions.invalidate [OF d assms(1,2) q] show ?thesis by (auto simp: only_cache_def)
qed

lemma cache_frame: "same_cache s s' \<Longrightarrow> view s' = view s \<and> cinv s' = cinv s"
proof (cases "rs_cache sv")
  case None
  with caching show ?thesis by (simp add: rbac_caching_def)
next
  case (Some dc)
  with caching have "decisions dc cinv view rbac_owned sure (\<lambda>_. True)" by (simp add: rbac_caching_def)
  then show "same_cache s s' \<Longrightarrow> ?thesis" by (rule decisions.frame)
qed

lemma run_now: "run_state (rbac_now sv) s = (rs_clock sv (pw_ticks s), s\<lparr>pw_ticks := Suc (pw_ticks s)\<rparr>)"
  by (simp add: rbac_now_def tick_def)

lemma run_generate_id:
  "run_state (rbac_generate_id sv pre) s = (pre @ hex_encode (random_bytes (au_entropy (rs_auth sv) (w_draws (pw_world s))) 12),
     s\<lparr>pw_world := (pw_world s)\<lparr>w_draws := Suc (w_draws (pw_world s))\<rparr>\<rparr>)"
  by (simp add: rbac_generate_id_def in_world_def draw_def)

text \<open>What changes neither the database nor the cache.\<close>

definition idle :: "('s, 'c, 'k) pworld \<Rightarrow> ('s, 'c, 'k) pworld \<Rightarrow> bool" where
  "idle s s' \<longleftrightarrow> db s' = db s \<and> same_cache s s'"

lemma idle_refl [simp]: "idle s s"
  by (simp add: idle_def same_cache_def)

lemma idle_trans: "idle s s' \<Longrightarrow> idle s' s'' \<Longrightarrow> idle s s''"
  by (simp add: idle_def same_cache_def)

lemma idle_ticks [simp]:
  "idle s (s\<lparr>pw_ticks := n\<rparr>)" "idle s (s\<lparr>pw_world := (pw_world s)\<lparr>w_draws := n\<rparr>\<rparr>)"
  by (simp_all add: idle_def same_cache_def)

lemma idle_publish: "run_state (rbac_publish sv cx nm t sb pl) s = (y, s') \<Longrightarrow> idle s s'"
  by (auto simp: rbac_publish_def in_world_def idle_def same_cache_def dest: publish_frame split: prod.splits)

lemma idle_keeps: "idle s s' \<Longrightarrow> R s' = R s \<and> A s' = A s \<and> sinv s' = sinv s \<and> fresh Q s' = fresh Q s"
  using same_db [of s' s] cache_frame [of s s'] by (simp add: idle_def fresh_def)

lemma fresh_less:
  assumes "fresh Q s" "cinv s'" "db s' = db s" "view s' \<subseteq>\<^sub>m view s"
  shows "fresh Q s'"
proof -
  have same: "R s' = R s" "A s' = A s" using same_db [OF assms(3)] by simp_all
  show ?thesis
    using assms(1,2) map_le_Some [OF assms(4)] unfolding fresh_def same by blast
qed

section \<open>Evaluation\<close>

lemma get_role_spec:
  assumes "sinv s" "run_state (get_role sv i) s = (r, s')"
  shows "s' = s \<and> (case r of
      Inl e \<Rightarrow> (\<forall>x \<in># R s. ro_id x \<noteq> i) \<and> (e = ErrRoleNotFound \<or> e = RbacInvalidInput \<and> i = [])
    | Inr x \<Rightarrow> x \<in># R s \<and> ro_id x = i)"
proof (cases "i = []")
  case True
  with assms show ?thesis by (auto simp: get_role_def sinv_def rbac_ok_def)
next
  case False
  then obtain q s1 where q: "run_state (in_db (repo_find_one (roles_repo sv) [Eq ''id'' (VStr i)])) s = (q, s1)"
    and r: "r = (case q of Inl e \<Rightarrow> Inl (if e = AdapterNotFound then ErrRoleNotFound else e) | Inr x \<Rightarrow> Inr x)" "s' = s1"
    using assms(2) by (auto simp: get_role_def split: prod.splits sum.splits)
  show ?thesis
    by (rule find_role [OF assms(1) means_role(1) q]) (simp_all add: r)
qed

lemma get_role_by_name_spec:
  assumes "sinv s" "run_state (get_role_by_name sv n) s = (r, s')" "n \<noteq> []"
  shows "s' = s \<and> (case r of
      Inl e \<Rightarrow> e = ErrRoleNotFound \<and> (\<forall>x \<in># R s. ro_name x \<noteq> n)
    | Inr x \<Rightarrow> x \<in># R s \<and> ro_name x = n)"
proof -
  obtain q s1 where q: "run_state (in_db (repo_find_one (roles_repo sv) [Eq ''name'' (VStr n)])) s = (q, s1)"
    and r: "r = (case q of Inl e \<Rightarrow> Inl (if e = AdapterNotFound then ErrRoleNotFound else e) | Inr x \<Rightarrow> Inr x)" "s' = s1"
    using assms(2,3) by (auto simp: get_role_by_name_def split: prod.splits sum.splits)
  show ?thesis
    by (rule find_role [OF assms(1) means_role(2) q]) (simp_all add: r)
qed

lemma first_grant_spec:
  assumes s: "sinv s" and run: "run_state (first_grant sv perm res as) s = (m, s')"
  shows "s' = s \<and> (case m of
      None \<Rightarrow> \<forall>a \<in> set as. \<not> role_grants (R s) perm res a
    | Some (n, sc) \<Rightarrow> \<exists>a \<in> set as. ra_scope a = sc \<and> role_grants (R s) perm res a \<and>
        (\<exists>x \<in># R s. ro_id x = ra_role_id a \<and> ro_name x = n))"
  using run
proof (induction as)
  case (Cons a as)
  have uq: "x = y" if "x \<in># R s" "y \<in># R s" "ro_id x = ro_id y" for x y
    using s that by (auto simp: sinv_def rbac_ok_def dest: uniq_eqD)
  show ?case
  proof (cases "scope_applies (ra_scope a) (ra_scope_id a) res")
    case False
    with Cons have "run_state (first_grant sv perm res as) s = (m, s')" by simp
    from Cons.IH [OF this] False show ?thesis by (auto simp: role_grants_def split: option.splits)
  next
    case True
    obtain r s1 where g: "run_state (get_role sv (ra_role_id a)) s = (r, s1)" by (rule prod.exhaust)
    note gr = get_role_spec [OF s g]
    show ?thesis
    proof (cases r)
      case (Inl e)
      with Cons.prems True g gr have "run_state (first_grant sv perm res as) s = (m, s')" by simp
      from Cons.IH [OF this] Inl gr show ?thesis by (auto simp: role_grants_def split: option.splits)
    next
      case (Inr x)
      with gr have x: "x \<in># R s" "ro_id x = ra_role_id a" "s1 = s" by simp_all
      have ex: "list_ex (\<lambda>q. match_permission q perm) (ro_permissions x) \<longleftrightarrow> role_grants (R s) perm res a"
      proof -
        have "y = x" if "y \<in># R s" "ro_id y = ra_role_id a" for y using uq [OF x(1) that(1)] that(2) x(2) by simp
        then have "role_grants (R s) perm res a \<longleftrightarrow> (\<exists>q \<in> set (ro_permissions x). permission_covers q perm)"
          using x True unfolding role_grants_def by blast
        then show ?thesis by (simp add: list_ex_iff match_permission_covers)
      qed
      show ?thesis
      proof (cases "role_grants (R s) perm res a")
        case True
        with Cons.prems \<open>scope_applies _ _ _\<close> g Inr x(3) ex have "m = Some (ro_name x, ra_scope a)" "s' = s" by simp_all
        with True x show ?thesis by auto
      next
        case False
        with Cons.prems \<open>scope_applies _ _ _\<close> g Inr x(3) ex
        have "run_state (first_grant sv perm res as) s = (m, s')" by simp
        from Cons.IH [OF this] False show ?thesis by (auto split: option.splits)
      qed
    qed
  qed
qed simp

lemma held_spec:
  assumes "sinv s" "pr_subject p \<noteq> []" "run_state (list_assignments_by_principal sv p) s = (r, s')"
  obtains as where "r = Inr as" "s' = s" "mset as = filter_mset (holds_assignment p) (A s)"
proof (rule find_assignments [OF assms(1) means_held [of p]])
  show "run_state (in_db (repo_find_many (assignments_repo sv) (query_where ModelRBACAssignments
      ([Eq ''principal_subject'' (VStr (pr_subject p))] @
       (if pr_type p \<noteq> [] then [Eq ''principal_type'' (VStr (pr_type p))] else []))))) s = (r, s')"
    using assms(2,3) by (simp add: list_assignments_by_principal_def)
qed (rule that)

lemma decide_spec:
  assumes s: "sinv s" "fresh Q s" and q: "inj_on asked Q" "(p, perm, res) \<in> Q" and p: "pr_subject p \<noteq> []"
    and run: "run_state (rbac_decide sv cx p perm res) s = (r, s')"
  shows "db s' = db s \<and> fresh Q s' \<and> (\<exists>d. r = Inr d \<and> rd_allowed d = access (R s) (A s) (p, perm, res) \<and>
    (rd_allowed d \<longrightarrow> (\<exists>x \<in># R s. ro_name x = rd_matched_role d)))"
proof -
  obtain as where as: "run_state (list_assignments_by_principal sv p) s = (Inr as, s)"
    "mset as = filter_mset (holds_assignment p) (A s)"
    by (metis held_spec [OF s(1) p] prod.exhaust)
  obtain m s1 where m: "run_state (first_grant sv perm res as) s = (m, s1)" by (rule prod.exhaust)
  note fg = first_grant_spec [OF s(1) m]
  have set_as: "set as = set_mset (filter_mset (holds_assignment p) (A s))"
    by (metis as(2) set_mset_mset)
  define t where "t = rs_clock sv (pw_ticks s)"
  define d where "d = \<lparr>rd_allowed = (m \<noteq> None),
      rd_reason = (case m of None \<Rightarrow> ''no matching role permission in active scope''
        | Some (n, sc) \<Rightarrow> ''granted by role '' @ go_quote n @ '' in scope '' @ go_quote sc),
      rd_matched_role = (case m of None \<Rightarrow> [] | Some (n, sc) \<Rightarrow> n),
      rd_permission = perm, rd_subject = pr_subject p, rd_type = pr_type p, rd_evaluated_at = t\<rparr>"
  let ?s1 = "s\<lparr>pw_ticks := Suc (pw_ticks s)\<rparr>"
  obtain u s2 where u: "run_state (rbac_remember sv cx (rbac_key sv p perm res) d) ?s1 = (u, s2)" by (rule prod.exhaust)
  obtain pl y where y: "run_state (rbac_publish sv cx EventAccessEvaluated t (pr_subject p) pl) s2 = (y, s')" and r: "r = Inr d"
    using run as(1) m fg u unfolding rbac_decide_def Let_def d_def t_def
    by (auto simp: run_now split: prod.splits)
  have c1: "cinv ?s1" "fresh Q ?s1" using idle_keeps [of s ?s1 Q] s(2) by (auto simp: fresh_def)
  note rm = remember_spec [OF c1(1) u rbac_key_owned]
  have al: "rd_allowed d = access (R s) (A s) (p, perm, res)"
    using fg set_as by (auto simp: d_def access_def split: option.splits)
  have mr: "rd_allowed d \<longrightarrow> (\<exists>x \<in># R s. ro_name x = rd_matched_role d)"
    using fg by (auto simp: d_def split: option.splits)
  have "fresh Q s2"
  proof -
    have "rc_allowed e = access (R s2) (A s2) q'" if "q' \<in> Q" "view s2 (asked q') = Some e" for q' e
    proof -
      have same: "R s2 = R s" "A s2 = A s" using rm same_db [of s2 ?s1] by simp_all
      show ?thesis
      proof (cases "q' = (p, perm, res)")
        case True
        then have a: "asked q' = rbac_key sv p perm res" by (simp add: asked_def)
        from rm that a have "view ?s1 (asked q') = Some e \<or> e = cached_of d"
          by (auto dest: map_le_Some)
        then show ?thesis
        proof
          assume "view ?s1 (asked q') = Some e"
          then show ?thesis using c1(2) that(1) same by (simp add: fresh_def)
        qed (simp add: cached_of_def al True same)
      next
        case False
        then have "asked q' \<noteq> rbac_key sv p perm res"
          using inj_onD [OF q(1) _ that(1) q(2)] by (auto simp: asked_def)
        with rm that have "view ?s1 (asked q') = Some e" by (auto dest: map_le_Some)
        then show ?thesis using c1(2) that(1) same by (simp add: fresh_def)
      qed
    qed
    with rm show ?thesis by (simp add: fresh_def)
  qed
  with idle_publish [OF y] idle_keeps have "fresh Q s'" by blast
  moreover have "db s' = db s" using idle_publish [OF y] rm by (simp add: idle_def)
  ultimately show ?thesis using r al mr by blast
qed

lemma evaluate_spec:
  assumes s: "sinv s" "fresh Q s" and q: "inj_on asked Q" "(p, perm, in_organization cx res) \<in> Q"
    and p: "pr_subject p \<noteq> []" "perm \<noteq> []" and run: "run_state (rbac_evaluate sv cx p perm res) s = (r, s')"
  shows "db s' = db s \<and> fresh Q s' \<and> (\<exists>d. r = Inr d \<and> rd_allowed d = access (R s) (A s) (p, perm, in_organization cx res))"
proof -
  let ?k = "rbac_key sv p perm (in_organization cx res)"
  obtain c s1 where c: "run_state (rbac_lookup sv cx ?k) s = (c, s1)" by (rule prod.exhaust)
  have "cinv s" using s by (simp add: fresh_def)
  note l = lookup_spec [OF this c rbac_key_owned]
  have s1: "sinv s1" "R s1 = R s" "A s1 = A s" using l same_db [of s1 s] s(1) by simp_all
  have f1: "fresh Q s1" using fresh_less [OF s(2)] l by blast
  show ?thesis
  proof (cases c)
    case None
    with run p c have "run_state (rbac_decide sv cx p perm (in_organization cx res)) s1 = (r, s')"
      by (simp add: rbac_evaluate_def Let_def)
    from decide_spec [OF s1(1) f1 q p(1) this] s1 l show ?thesis by auto
  next
    case (Some d)
    with run p c have "r = Inr (decision_of p d)" "s' = s1" by (simp_all add: rbac_evaluate_def Let_def)
    moreover have "rc_allowed d = access (R s) (A s) (p, perm, in_organization cx res)"
    proof -
      from l Some have "view s (asked (p, perm, in_organization cx res)) = Some d" by (simp add: asked_def)
      with s(2) q(2) show ?thesis by (simp add: fresh_def)
    qed
    ultimately show ?thesis using f1 l by (simp add: decision_of_def)
  qed
qed

section \<open>Writing roles\<close>

lemma models_differ [simp]: "ModelRBACRoles \<noteq> ModelRBACAssignments" "ModelRBACAssignments \<noteq> ModelRBACRoles"
  by (simp_all add: ModelRBACRoles_def ModelRBACAssignments_def)

lemma other_assignments:
  assumes "roles.rinv d'" "\<forall>m'. m' \<noteq> ModelRBACRoles \<longrightarrow> tbl d' m' = tbl d m'" "assignments.rinv d"
  shows "assignments.rinv d'" "assignments.ents d' = assignments.ents d"
proof -
  have "inv d'" using assms(1) by (simp add: roles.rinv_def)
  moreover have "tbl d' ModelRBACAssignments = tbl d ModelRBACAssignments" using assms(2) models_differ(2) by blast
  ultimately show "assignments.rinv d'" "assignments.ents d' = assignments.ents d"
    using assms(3) by (simp_all add: assignments.rinv_def assignments.ents_def)
qed

lemma other_roles:
  assumes "assignments.rinv d'" "\<forall>m'. m' \<noteq> ModelRBACAssignments \<longrightarrow> tbl d' m' = tbl d m'" "roles.rinv d"
  shows "roles.rinv d'" "roles.ents d' = roles.ents d"
proof -
  have "inv d'" using assms(1) by (simp add: assignments.rinv_def)
  moreover have "tbl d' ModelRBACRoles = tbl d ModelRBACRoles" using assms(2) models_differ(1) by blast
  ultimately show "roles.rinv d'" "roles.ents d' = roles.ents d"
    using assms(3) by (simp_all add: roles.rinv_def roles.ents_def)
qed

lemma fresh_change:
  assumes "fresh Q s" "cinv s'" "view s' \<subseteq>\<^sub>m view s"
    and "\<And>q. q \<in> Q \<Longrightarrow> view s' (asked q) \<noteq> None \<Longrightarrow> access (R s') (A s') q = access (R s) (A s) q"
  shows "fresh Q s'"
  using assms(1,2,4) map_le_Some [OF assms(3)] unfolding fresh_def by (metis option.distinct(1))

lemma same_cache_db: "same_cache s (s\<lparr>pw_world := (pw_world s)\<lparr>w_db := d\<rparr>\<rparr>)"
  by (simp add: same_cache_def)

lemma owned_asked: "rbac_owned (pr_subject (fst q)) (asked q)"
  by (cases q) (simp add: asked_def rbac_key_owned)

lemma ready: "rbac_ready sv \<Longrightarrow> time_text (au_rt (rs_auth sv))" "rbac_ready sv \<Longrightarrow> json_time_ok (rs_clock sv n)"
  by (simp_all add: rbac_ready_def)

lemma generated_plain: "CHR '':'' \<notin> set pre \<Longrightarrow> plain (pre @ hex_encode bs)"
  by (rule plain) (simp add: hex_encode_colon)

lemma store_role:
  assumes s: "sinv s" "fresh Q s" and okay: "time_text (au_rt (rs_auth sv))" "role_okay plain x" "ro_id x \<noteq> []"
    and run: "run_state (in_db (repo_create (roles_repo sv) x)) s = (r, s')"
  shows "sinv s' \<and> fresh Q s' \<and> A s' = A s \<and> (case r of
      Inl _ \<Rightarrow> R s' = R s
    | Inr y \<Rightarrow> y = x \<and> R s' = add_mset x (R s) \<and> (\<forall>z \<in># R s. ro_id z \<noteq> ro_id x \<and> ro_name z \<noteq> ro_name x))"
proof -
  obtain d where q: "run_state (repo_create (roles_repo sv) x) (db s) = (r, d)"
    and s': "s' = s\<lparr>pw_world := (pw_world s)\<lparr>w_db := d\<rparr>\<rparr>"
    using run by (auto simp: run_in_db split: prod.splits)
  have inv: "roles.rinv (db s)" "assignments.rinv (db s)" "rbac_ok (R s) (A s)" using s(1) by (simp_all add: sinv_def)
  note c = roles.repo_create [OF inv(1) conjI [OF okay(1,2)] q]
  from c have o: "assignments.rinv d" "assignments.ents d = assignments.ents (db s)"
    using other_assignments [OF _ _ inv(2)] by blast+
  have A: "A s' = A s" by (simp add: A_def s' o)
  have cv: "cinv s'" "view s' = view s"
    using cache_frame [OF same_cache_db [of s d]] s(2) by (simp_all add: s' fresh_def)
  show ?thesis
  proof (cases r)
    case (Inl e)
    with c have "roles.rinv d" "R s' = R s" by (simp_all add: R_def s')
    with A o inv s cv show ?thesis using Inl by (simp add: sinv_def fresh_def s')
  next
    case (Inr y)
    with c obtain row where d: "y = x" "roles.rinv d" "roles.ents d = add_mset x (roles.ents (db s))"
      "role_rep (au_rt (rs_auth sv)) plain x row" "\<forall>fs \<in> set role_unique. \<forall>r' \<in># tbl (db s) ModelRBACRoles. \<not> same_strings fs r' row"
      by auto
    note new = roles.create_unique [OF inv(1) d(4,5)]
    have nw: "ro_id z \<noteq> ro_id x \<and> ro_name z \<noteq> ro_name x" if "z \<in># R s" for z
      using that unfolding R_def
      by (intro conjI new [of "''id''"] new [of "''name''"]) (simp_all add: role_unique_def role_rep_def)
    have Rs: "R s' = add_mset x (R s)" using d by (simp add: R_def s')
    have "rbac_ok (R s') (A s')"
      using inv(3) nw okay(3) unfolding Rs A rbac_ok_def by (auto intro!: uniq_add)
    then have "sinv s'" using d o s(1) A by (simp add: sinv_def s')
    moreover have "fresh Q s'"
      using access_more_roles [OF inv(3)] nw s(2) cv by (intro fresh_change [OF s(2)]) (simp_all add: Rs A)
    ultimately show ?thesis using Inr d A Rs nw by simp
  qed
qed

lemma create_role_spec:
  assumes s: "sinv s" "fresh Q s" "rbac_ready sv" and x: "plain (ro_id x)" "plain (ro_name x)"
    and run: "run_state (create_role sv cx (Some x)) s = (r, s')"
  shows "sinv s' \<and> fresh Q s' \<and> A s' = A s \<and> (case r of
      Inl _ \<Rightarrow> R s' = R s
    | Inr y \<Rightarrow> R s' = add_mset y (R s) \<and> scope_valid (ro_scope x) \<and> (\<forall>z \<in># R s. ro_name z \<noteq> ro_name x) \<and>
        (\<exists>i t. y = x\<lparr>ro_id := i, ro_created_at := t, ro_updated_at := t\<rparr> \<and> (ro_id x \<noteq> [] \<longrightarrow> i = ro_id x)))"
proof (cases "trim_space (ro_name x) = [] \<or> \<not> scope_valid (ro_scope x)")
  case True
  with run s show ?thesis by (auto simp: create_role_def split: if_splits)
next
  case False
  obtain e s1 where f: "run_state (in_db (repo_find_one (roles_repo sv) [Eq ''name'' (VStr (ro_name x))])) s = (e, s1)"
    by (rule prod.exhaust)
  show ?thesis
  proof (rule find_role [OF s(1) means_role(2) f])
    fix y assume "e = Inr y" "s1 = s"
    with run False f s show ?thesis by (auto simp: create_role_def)
  next
    assume e: "e = Inl AdapterNotFound" "s1 = s" "\<forall>z \<in># R s. ro_name z \<noteq> ro_name x"
    define i where "i = (if ro_id x = [] then ''role_'' @ hex_encode (random_bytes (au_entropy (rs_auth sv) (w_draws (pw_world s))) 12)
      else ro_id x)"
    define s2 where "s2 = (if ro_id x = [] then s\<lparr>pw_world := (pw_world s)\<lparr>w_draws := Suc (w_draws (pw_world s))\<rparr>\<rparr> else s)"
    define s3 where "s3 = s2\<lparr>pw_ticks := Suc (pw_ticks s2)\<rparr>"
    define t where "t = rs_clock sv (pw_ticks s2)"
    define y where "y = x\<lparr>ro_id := i, ro_created_at := t, ro_updated_at := t\<rparr>"
    obtain c s4 where c: "run_state (in_db (repo_create (roles_repo sv) y)) s3 = (c, s4)" by (rule prod.exhaust)
    have idle: "idle s s3" by (simp add: s3_def s2_def idle_def same_cache_def)
    have s3: "sinv s3" "fresh Q s3" "R s3 = R s" "A s3 = A s" using idle_keeps [OF idle] s by simp_all
    have "role_okay plain y" "ro_id y \<noteq> []"
      using False x ready(2) [OF s(3)] generated_plain [of "''role_''"] by (auto simp: role_okay_def y_def i_def t_def)
    note st = store_role [OF s3(1,2) ready(1) [OF s(3)] this c]
    show ?thesis
    proof (cases c)
      case (Inl e')
      with run False f e c have "s' = s4" "\<exists>e''. r = Inl e''"
        by (auto simp: create_role_def run_generate_id run_now y_def i_def t_def s3_def s2_def split: if_splits)
      with st s3 Inl show ?thesis by auto
    next
      case (Inr y')
      with st have y': "y' = y" by simp
      obtain pl u where p: "run_state (rbac_publish sv cx EventRoleCreated t (ro_id y) pl) s4 = (u, s')" and r: "r = Inr y"
        using run False f e c Inr y'
        by (auto simp: create_role_def run_generate_id run_now y_def i_def t_def s3_def s2_def split: if_splits prod.splits)
      show ?thesis
        using st s3 Inr y' r e False idle_keeps [OF idle_publish [OF p]] by (auto simp: y_def i_def)
    qed
  qed
qed

text \<open>Invalidating the decisions of everyone a role is assigned to.\<close>

lemma forget_all_spec:
  assumes "cinv s" "ctx_err cx = None" "run_state (for_each (\<lambda>a. forget_principal sv cx (ra_subject a)) as) s = (u, s')"
  shows "cinv s' \<and> db s' = db s \<and> view s' \<subseteq>\<^sub>m view s \<and>
    (\<forall>a \<in> set as. sure (ra_subject a) \<longrightarrow> (\<forall>k. rbac_owned (ra_subject a) k \<longrightarrow> view s' k = None))"
  using assms
proof (induction as arbitrary: s)
  case (Cons a as)
  obtain u1 s1 where f: "run_state (forget_principal sv cx (ra_subject a)) s = (u1, s1)"
    and rest: "run_state (for_each (\<lambda>a. forget_principal sv cx (ra_subject a)) as) s1 = (u, s')"
    using Cons.prems(3) by (auto split: prod.splits)
  note fs = forget_spec [OF Cons.prems(1,2) f]
  note ih = Cons.IH [OF _ Cons.prems(2) rest]
  have "view s' \<subseteq>\<^sub>m view s" using fs ih map_le_trans by blast
  moreover have "view s' k = None" if "view s1 k = None" for k
    using ih fs that map_le_Some [of "view s'" "view s1" k] by fastforce
  ultimately show ?case using fs ih by (auto split: if_splits)
qed simp

lemma invalidate_role_spec:
  assumes s: "sinv s" "cinv s" "i \<noteq> []" and cx: "ctx_err cx = None"
    and run: "run_state (invalidate_cache_for_role sv cx i) s = (u, s')"
  shows "cinv s' \<and> db s' = db s \<and> view s' \<subseteq>\<^sub>m view s \<and>
    (\<forall>a \<in># A s. ra_role_id a = i \<longrightarrow> (\<forall>k. rbac_owned (ra_subject a) k \<longrightarrow> view s' k = None))"
proof (cases "rs_cache sv")
  case None
  with caching have "view x = Map.empty" for x by (simp add: rbac_caching_def)
  with None run s show ?thesis by (simp add: invalidate_cache_for_role_def)
next
  case (Some dc)
  obtain q s1 where q: "run_state (in_db (repo_find_many (assignments_repo sv)
      (query_where ModelRBACAssignments [Eq ''role_id'' (VStr i)]))) s = (q, s1)" by (rule prod.exhaust)
  show ?thesis
  proof (rule find_assignments [OF s(1) means_assignment(2) q])
    fix as assume as: "q = Inr as" "s1 = s" "mset as = filter_mset (\<lambda>x. ra_role_id x = i) (A s)"
    obtain u1 where f: "run_state (for_each (\<lambda>a. forget_principal sv cx (ra_subject a)) as) s = (u1, s')"
      using run Some q as s(3) by (auto simp: invalidate_cache_for_role_def list_assignments_by_role_def split: prod.splits)
    have "set as = {a. a \<in># A s \<and> ra_role_id a = i}"
      using arg_cong [OF as(3), of set_mset] by auto
    moreover have "\<forall>a \<in># A s. sure (ra_subject a)" using s(1) by (simp add: sinv_def)
    ultimately show ?thesis using forget_all_spec [OF s(2) cx f] by blast
  qed
qed

lemma update_role_spec:
  assumes s: "sinv s" "fresh Q s" "rbac_ready sv" and cx: "ctx_err cx = None" and x: "plain (ro_name x)"
    and run: "run_state (update_role sv cx (Some x)) s = (r, s')"
  shows "sinv s' \<and> fresh Q s' \<and> A s' = A s \<and> (case r of
      Inl _ \<Rightarrow> R s' = R s
    | Inr y \<Rightarrow> \<exists>t. y = x\<lparr>ro_updated_at := t\<rparr> \<and> (\<exists>z \<in># R s. ro_id z = ro_id x) \<and>
        R s' = upd_where (\<lambda>z. ro_id z = ro_id x) (role_updated x t) (R s))"
proof (cases "ro_id x = [] \<or> trim_space (ro_name x) = [] \<or> \<not> scope_valid (ro_scope x)")
  case True
  with run s show ?thesis by (auto simp: update_role_def split: if_splits)
next
  case False
  obtain e s1 where f: "run_state (in_db (repo_find_one (roles_repo sv) [Eq ''name'' (VStr (ro_name x))])) s = (e, s1)"
    by (rule prod.exhaust)
  define taken where "taken = (case e of Inl _ \<Rightarrow> False | Inr y \<Rightarrow> ro_id y \<noteq> ro_id x)"
  have inv: "roles.rinv (db s)" "assignments.rinv (db s)" "rbac_ok (R s) (A s)" using s(1) by (simp_all add: sinv_def)
  have s1: "s1 = s" by (rule find_role [OF s(1) means_role(2) f])
  have own: "ro_id z = ro_id x" if z: "z \<in># R s" "ro_name z = ro_name x" and nt: "\<not> taken" for z
  proof (rule find_role [OF s(1) means_role(2) f])
    fix y assume y: "e = Inr y" "y \<in># R s" "ro_name y = ro_name x"
    with inv(3) z have "z = y" by (auto simp: rbac_ok_def dest: uniq_eqD)
    with y nt show ?thesis by (simp add: taken_def)
  qed (use z in auto)
  show ?thesis
  proof (cases taken)
    case True
    with run False f s1 s show ?thesis by (auto simp: update_role_def taken_def)
  next
    case False': False
    define t where "t = rs_clock sv (pw_ticks s)"
    define u where "u = [''name'' \<mapsto> VStr (ro_name x), ''description'' \<mapsto> VStr (ro_description x),
      ''scope'' \<mapsto> VStr (ro_scope x), ''permissions'' \<mapsto> VList (map VStr (ro_permissions x)), ''updated_at'' \<mapsto> VTime t]"
    define s2 where "s2 = s\<lparr>pw_ticks := Suc (pw_ticks s)\<rparr>"
    have s2: "db s2 = db s" "idle s s2" by (simp_all add: s2_def)
    obtain n d where q: "run_state (repo_update (roles_repo sv) [Eq ''id'' (VStr (ro_id x))] u) (db s) = (n, d)"
      by (rule prod.exhaust)
    define s3 where "s3 = s2\<lparr>pw_world := (pw_world s2)\<lparr>w_db := d\<rparr>\<rparr>"
    have q3: "run_state (in_db (repo_update (roles_repo sv) [Eq ''id'' (VStr (ro_id x))] u)) s2 = (n, s3)"
      using q s2(1) by (simp add: run_in_db s3_def)
    have rep: "role_rep (au_rt (rs_auth sv)) plain (role_updated x t e) (row ++ u)"
      if "role_rep (au_rt (rs_auth sv)) plain e row" for e row
      using that False x ready(2) [OF s(3)]
      by (simp add: role_rep_def u_def role_updated_def str_rep_def strings_rep_def time_rep_def t_def)
    have "u ''id'' = None" by (simp add: u_def)
    note up = roles.repo_update [where g = "role_updated x t", OF inv(1) means_role(1) this rep q]
    obtain n' where n: "n = Inr n'"
      using q total(3) by (cases n) (auto simp: repo_update_def adapter)
    have o: "assignments.rinv d" "assignments.ents d = assignments.ents (db s)"
      using up other_assignments [OF _ _ inv(2)] by blast+
    have A3: "A s3 = A s" using o by (simp add: A_def s3_def)
    have R3: "R s3 = upd_where (\<lambda>z. ro_id z = ro_id x) (role_updated x t) (R s)"
      using up n by (simp add: R_def s3_def)
    have ids: "\<exists>z \<in># R s3. ro_id z = j" if "\<exists>z \<in># R s. ro_id z = j" for j
    proof -
      from that obtain z where "z \<in># R s" "ro_id z = j" by blast
      then show ?thesis
        unfolding R3 upd_where_def
        by (intro bexI [of _ "if ro_id z = ro_id x then role_updated x t z else z"]) (auto simp: role_updated_def)
    qed
    have "rbac_ok (R s3) (A s3)"
      using inv(3) ids uniq_updated_name [of "R s" x t] own [OF _ _ False']
        uniq_mapped [of ro_id "\<lambda>z. if ro_id z = ro_id x then role_updated x t z else z" "R s"]
      unfolding A3 rbac_ok_def by (auto simp: R3 upd_where_def role_updated_def)
    then have s3: "sinv s3" using up n o s(1) A3 by (simp add: sinv_def s3_def)
    have c3: "cinv s3" "view s3 = view s"
      using cache_frame [OF same_cache_db [of s2 d]] cache_frame [of s s2] s2(2) s(2)
      by (simp_all add: s3_def idle_def fresh_def)
    show ?thesis
    proof (cases "n' = 0")
      case True
      with up n have "filter_mset (\<lambda>z. ro_id z = ro_id x) (R s) = {#}" by (simp add: R_def)
      then have "R s3 = R s" unfolding R3 upd_where_def
        by (intro multiset.map_ident_strong) (auto simp: filter_mset_eq_mempty_iff)
      moreover have "s' = s3" "r = Inl ErrRoleNotFound"
        using run False f s1 False' q3 n True unfolding u_def t_def s2_def taken_def
        by (auto simp: update_role_def run_now split: sum.splits)
      ultimately show ?thesis using s3 c3 A3 s(2) by (simp add: fresh_def)
    next
      case nz: False
      then have "filter_mset (\<lambda>z. ro_id z = ro_id x) (R s) \<noteq> {#}" using up n by (auto simp: R_def)
      then have some: "\<exists>z \<in># R s. ro_id z = ro_id x" by (auto simp: filter_mset_eq_mempty_iff)
      obtain v s4 where i: "run_state (invalidate_cache_for_role sv cx (ro_id x)) s3 = (v, s4)" by (rule prod.exhaust)
      obtain pl y where p: "run_state (rbac_publish sv cx EventRoleUpdated t (ro_id x) pl) s4 = (y, s')"
        and r: "r = Inr (x\<lparr>ro_updated_at := t\<rparr>)"
        using run False f s1 False' q3 n nz i unfolding u_def t_def s2_def taken_def
        by (auto simp: update_role_def run_now split: sum.splits prod.splits)
      note iv = invalidate_role_spec [OF s3 c3(1) _ cx i]
      have s4: "R s4 = R s3" "A s4 = A s3" "sinv s4" using iv False same_db [of s4 s3] s3 by simp_all
      have "fresh Q s4"
      proof (rule fresh_change [OF s(2)])
        show "cinv s4" "view s4 \<subseteq>\<^sub>m view s" using iv False c3 by auto
        fix q assume q: "q \<in> Q" "view s4 (asked q) \<noteq> None"
        then have "ra_role_id a \<noteq> ro_id x" if "a \<in># A s" "ra_subject a = pr_subject (fst q)" for a
          using iv False cx that owned_asked [of q] A3 by auto
        moreover have "z \<in># R s3 \<longleftrightarrow> z \<in># R s" if "ro_id z \<noteq> ro_id x" for z
          using that unfolding R3 upd_where_def by (force simp: role_updated_def split: if_splits)
        ultimately show "access (R s4) (A s4) q = access (R s) (A s) q"
          using access_other_role [of "A s" q "ro_id x" "R s3" "R s"] s4 A3 by simp
      qed
      then show ?thesis using s4 idle_keeps [OF idle_publish [OF p]] r some R3 A3 by auto
    qed
  qed
qed

lemma delete_role_spec:
  assumes s: "sinv s" "fresh Q s" and cx: "ctx_err cx = None" and run: "run_state (delete_role sv cx i) s = (r, s')"
  shows "sinv s' \<and> fresh Q s' \<and> A s' = A s \<and> (case r of
      Inl e \<Rightarrow> R s' = R s \<and> (i \<noteq> [] \<longrightarrow> (if \<exists>a \<in># A s. ra_role_id a = i then e = ErrRoleInUse else e = ErrRoleNotFound))
    | Inr _ \<Rightarrow> R s' = filter_mset (\<lambda>x. ro_id x \<noteq> i) (R s) \<and> (\<forall>a \<in># A s. ra_role_id a \<noteq> i) \<and> (\<exists>x \<in># R s. ro_id x = i))"
proof (cases "i = []")
  case True
  with run s show ?thesis by (auto simp: delete_role_def)
next
  case False
  have inv: "roles.rinv (db s)" "assignments.rinv (db s)" "rbac_ok (R s) (A s)" using s(1) by (simp_all add: sinv_def)
  obtain c d0 where c: "run_state (repo_count (assignments_repo sv) [Eq ''role_id'' (VStr i)]) (db s) = (c, d0)"
    by (rule prod.exhaust)
  obtain n where n: "c = Inr n" using c total(5) by (cases c) (auto simp: repo_count_def adapter)
  note cnt = assignments.repo_count [OF inv(2) means_assignment(2) c]
  have c': "run_state (in_db (repo_count (assignments_repo sv) [Eq ''role_id'' (VStr i)])) s = (Inr n, s)"
    using c cnt n by (simp add: run_in_db)
  have used: "n > 0 \<longleftrightarrow> (\<exists>a \<in># A s. ra_role_id a = i)"
    using cnt n by (auto simp: A_def nonempty_has_size [symmetric] filter_mset_eq_mempty_iff)
  show ?thesis
  proof (cases "n > 0")
    case True
    with run False c' used s show ?thesis by (auto simp: delete_role_def)
  next
    case unused: False
    obtain x d where q: "run_state (repo_delete (roles_repo sv) [Eq ''id'' (VStr i)]) (db s) = (x, d)" by (rule prod.exhaust)
    obtain k where k: "x = Inr k" using q total(4) by (cases x) (auto simp: repo_delete_def adapter)
    define s3 where "s3 = s\<lparr>pw_world := (pw_world s)\<lparr>w_db := d\<rparr>\<rparr>"
    have q3: "run_state (in_db (repo_delete (roles_repo sv) [Eq ''id'' (VStr i)])) s = (Inr k, s3)"
      using q k by (simp add: run_in_db s3_def)
    note del = roles.repo_delete [OF inv(1) means_role(1) q]
    have o: "assignments.rinv d" "assignments.ents d = assignments.ents (db s)"
      using del other_assignments [OF _ _ inv(2)] by blast+
    have A3: "A s3 = A s" using o by (simp add: A_def s3_def)
    have R3: "R s3 = filter_mset (\<lambda>x. ro_id x \<noteq> i) (R s)" using del k by (simp add: R_def s3_def)
    have uq: "uniq f (filter_mset P M)" if "uniq f M" for f :: "rbac_role \<Rightarrow> string" and P M
      using that size_mset_mono [OF multiset_filter_mono [OF multiset_filter_subset [of P M]]]
      unfolding uniq_def by (meson order_trans)
    have "rbac_ok (R s3) (A s3)"
      using inv(3) used unused uq [of ro_id "R s"] uq [of ro_name "R s"]
      unfolding A3 R3 rbac_ok_def by fastforce
    then have s3: "sinv s3" using del k o s(1) A3 by (simp add: sinv_def s3_def)
    have c3: "cinv s3" "view s3 = view s"
      using cache_frame [OF same_cache_db [of s d]] s(2) by (simp_all add: s3_def fresh_def)
    have f3: "fresh Q s3"
      using access_fewer_roles [of "A s" i "R s3" "R s"] used unused c3
      by (intro fresh_change [OF s(2)]) (auto simp: A3 R3)
    show ?thesis
    proof (cases "k = 0")
      case True
      with del k have "filter_mset (\<lambda>x. ro_id x = i) (R s) = {#}" by (simp add: R_def)
      then have "R s3 = {#x \<in># R s. True#}" unfolding R3 by (intro filter_mset_cong) auto
      then have "R s3 = R s" by simp
      moreover have "s' = s3" "r = Inl ErrRoleNotFound"
        using run False c' unused q3 True by (auto simp: delete_role_def)
      ultimately show ?thesis using s3 f3 A3 used unused by simp
    next
      case nz: False
      then have "filter_mset (\<lambda>x. ro_id x = i) (R s) \<noteq> {#}" using del k by (auto simp: R_def)
      then have some: "\<exists>x \<in># R s. ro_id x = i" by (auto simp: filter_mset_eq_mempty_iff)
      obtain v s4 where i: "run_state (invalidate_cache_for_role sv cx i) s3 = (v, s4)" by (rule prod.exhaust)
      define s5 where "s5 = s4\<lparr>pw_ticks := Suc (Suc (pw_ticks s4))\<rparr>"
      obtain pl y t where p: "run_state (rbac_publish sv cx EventRoleDeleted t i pl) s5 = (y, s')"
        and r: "r = Inr ()"
        using run False c' unused q3 nz i unfolding s5_def
        by (auto simp: delete_role_def run_now split: prod.splits)
      note iv = invalidate_role_spec [OF s3 c3(1) False cx i]
      have s4: "R s4 = R s3" "A s4 = A s3" "sinv s4" using iv same_db [of s4 s3] s3 by simp_all
      have "fresh Q s4" using iv by (intro fresh_less [OF f3]) auto
      moreover have "idle s4 s'" using idle_trans [OF idle_ticks(1) idle_publish [OF p, unfolded s5_def]] .
      ultimately show ?thesis using s4 idle_keeps [of s4 s' Q] r some R3 A3 used unused by auto
    qed
  qed
qed

section \<open>Writing assignments\<close>

lemma look_assignment:
  assumes "sinv s" "run_state (in_db (repo_find_one (assignments_repo sv) w)) s = (r, s')"
  shows "s' = s"
proof -
  obtain q d where q: "run_state (ad_find_one ad ModelRBACAssignments w) (db s) = (q, d)" by (rule prod.exhaust)
  have inv: "inv (db s)" using assms(1) by (simp add: sinv_def assignments.rinv_def)
  have "d = db s"
    using assignments_model.find_one_Inr [OF inv] assignments_model.find_one_Inl [OF inv] q by (cases q) blast+
  with assms(2) q show ?thesis
    by (cases q) (auto simp: run_in_db repo_find_one_def adapter split: prod.splits)
qed

lemma store_assignment:
  assumes s: "sinv s" "cinv s" and okay: "time_text (au_rt (rs_auth sv))" "assignment_okay plain x"
    and role: "\<exists>z \<in># R s. ro_id z = ra_role_id x" and sub: "sure (ra_subject x)"
    and run: "run_state (in_db (repo_create (assignments_repo sv) x)) s = (r, s')"
  shows "sinv s' \<and> cinv s' \<and> view s' = view s \<and> R s' = R s \<and> (case r of
      Inl _ \<Rightarrow> A s' = A s
    | Inr y \<Rightarrow> y = x \<and> A s' = add_mset x (A s))"
proof -
  obtain d where q: "run_state (repo_create (assignments_repo sv) x) (db s) = (r, d)"
    and s': "s' = s\<lparr>pw_world := (pw_world s)\<lparr>w_db := d\<rparr>\<rparr>"
    using run by (auto simp: run_in_db split: prod.splits)
  have inv: "roles.rinv (db s)" "assignments.rinv (db s)" "rbac_ok (R s) (A s)" using s(1) by (simp_all add: sinv_def)
  note c = assignments.repo_create [OF inv(2) conjI [OF okay] q]
  from c have o: "roles.rinv d" "roles.ents d = roles.ents (db s)"
    using other_roles [OF _ _ inv(1)] by blast+
  have R: "R s' = R s" by (simp add: R_def s' o)
  have cv: "cinv s'" "view s' = view s"
    using cache_frame [OF same_cache_db [of s d]] s(2) by (simp_all add: s')
  show ?thesis
  proof (cases r)
    case (Inl e)
    with c have "assignments.rinv d" "A s' = A s" by (simp_all add: A_def s')
    with R o inv s cv show ?thesis using Inl by (simp add: sinv_def s')
  next
    case (Inr y)
    with c obtain row where d: "y = x" "assignments.rinv d" "assignments.ents d = add_mset x (assignments.ents (db s))"
      "assignment_rep (au_rt (rs_auth sv)) plain x row"
      "\<forall>fs \<in> set assignment_unique. \<forall>r' \<in># tbl (db s) ModelRBACAssignments. \<not> same_strings fs r' row"
      by auto
    note new = assignments.create_unique [OF inv(2) d(4,5)]
    have nw: "ra_id z \<noteq> ra_id x" if "z \<in># A s" for z
      using that unfolding A_def
      by (intro new [of "''id''"]) (simp_all add: assignment_unique_def assignment_rep_def)
    have As: "A s' = add_mset x (A s)" using d by (simp add: A_def s')
    have "rbac_ok (R s') (A s')"
      using inv(3) nw role unfolding As R rbac_ok_def by (auto intro!: uniq_add)
    then have "sinv s'" using d o s(1) R As sub by (simp add: sinv_def s')
    then show ?thesis using Inr d R As cv by simp
  qed
qed

text \<open>The change of one principal's assignments, followed by the invalidation of that principal.\<close>

lemma fresh_forget:
  assumes f: "fresh Q s" and s: "cinv s1" "view s1 = view s" "R s1 = R s"
    and other: "\<And>a. ra_subject a \<noteq> p \<Longrightarrow> a \<in># A s1 \<longleftrightarrow> a \<in># A s"
    and cx: "ctx_err cx = None" "sure p" and run: "run_state (forget_principal sv cx p) s1 = (u, s2)"
  shows "fresh Q s2"
proof (rule fresh_change [OF f])
  note fs = forget_spec [OF s(1) cx(1) run]
  show "cinv s2" "view s2 \<subseteq>\<^sub>m view s" using fs s(2) by auto
  fix q assume q: "q \<in> Q" "view s2 (asked q) \<noteq> None"
  with fs cx owned_asked [of q] have "pr_subject (fst q) \<noteq> p" by auto
  then show "access (R s2) (A s2) q = access (R s) (A s) q"
    using fs same_db [of s2 s1] s(3) access_other_subject [of q "A s1" "A s" "R s"] other by auto
qed

lemma assign_role_spec:
  assumes s: "sinv s" "fresh Q s" "rbac_ready sv" and cx: "ctx_err cx = None"
    and x: "plain (ra_id x)" "plain (ra_role_id x)" "plain (ra_subject x)" "plain (ra_type x)" "sure (ra_subject x)"
    and run: "run_state (assign_role sv cx (Some x)) s = (r, s')"
  shows "sinv s' \<and> fresh Q s' \<and> R s' = R s \<and> (case r of
      Inl _ \<Rightarrow> A s' = A s
    | Inr y \<Rightarrow> A s' = add_mset y (A s) \<and> (\<exists>z \<in># R s. ro_id z = ra_role_id x \<and> ro_scope z = ra_scope x) \<and>
        (\<exists>i t. y = x\<lparr>ra_id := i, ra_created_at := t\<rparr> \<and> (ra_id x \<noteq> [] \<longrightarrow> i = ra_id x)))"
proof (cases "ra_role_id x = [] \<or> ra_subject x = [] \<or> \<not> scope_valid (ra_scope x)")
  case True
  with run s show ?thesis by (auto simp: assign_role_def split: if_splits)
next
  case False
  obtain q s1 where g: "run_state (get_role sv (ra_role_id x)) s = (q, s1)" by (rule prod.exhaust)
  note gr = get_role_spec [OF s(1) g]
  show ?thesis
  proof (cases "\<exists>z. q = Inr z \<and> ro_scope z = ra_scope x")
    case False': False
    with run False g gr s show ?thesis by (auto simp: assign_role_def split: sum.splits)
  next
    case True
    then obtain z where z: "q = Inr z" "ro_scope z = ra_scope x" by blast
    with gr have z': "z \<in># R s" "ro_id z = ra_role_id x" "s1 = s" by simp_all
    let ?w = "[Eq ''role_id'' (VStr (ra_role_id x)), Eq ''principal_subject'' (VStr (ra_subject x)),
       Eq ''principal_type'' (VStr (ra_type x)), Eq ''scope'' (VStr (ra_scope x)), Eq ''scope_id'' (VStr (ra_scope_id x))]"
    obtain e where f: "run_state (in_db (repo_find_one (assignments_repo sv) ?w)) s = (e, s)"
      using look_assignment [OF s(1)] by (metis prod.exhaust)
    show ?thesis
    proof (cases e)
      case (Inr y)
      with run False g z z' f s show ?thesis by (auto simp: assign_role_def)
    next
      case (Inl e')
      define i where "i = (if ra_id x = [] then ''asgn_'' @ hex_encode (random_bytes (au_entropy (rs_auth sv) (w_draws (pw_world s))) 12)
        else ra_id x)"
      define s2 where "s2 = (if ra_id x = [] then s\<lparr>pw_world := (pw_world s)\<lparr>w_draws := Suc (w_draws (pw_world s))\<rparr>\<rparr> else s)"
      define s3 where "s3 = s2\<lparr>pw_ticks := Suc (pw_ticks s2)\<rparr>"
      define t where "t = rs_clock sv (pw_ticks s2)"
      define y where "y = x\<lparr>ra_id := i, ra_created_at := t\<rparr>"
      obtain c s4 where c: "run_state (in_db (repo_create (assignments_repo sv) y)) s3 = (c, s4)" by (rule prod.exhaust)
      have idle: "idle s s3" by (simp add: s3_def s2_def idle_def same_cache_def)
      have s3: "sinv s3" "fresh Q s3" "R s3 = R s" "A s3 = A s" using idle_keeps [OF idle] s by simp_all
      then have c3: "cinv s3" by (simp add: fresh_def)
      have v3: "view s3 = view s" using cache_frame idle by (simp add: idle_def)
      have "assignment_okay plain y"
        using x ready(2) [OF s(3)] generated_plain [of "''asgn_''"] by (auto simp: assignment_okay_def y_def i_def t_def)
      note st = store_assignment [OF s3(1) c3 ready(1) [OF s(3)] this _ _ c]
      have sub: "\<exists>w \<in># R s3. ro_id w = ra_role_id y" "sure (ra_subject y)" "ra_subject y = ra_subject x"
        using z' s3(3) x(5) by (auto simp: y_def)
      note st = st [OF sub(1,2)]
      show ?thesis
      proof (cases c)
        case (Inl e'')
        with run False g z z' f \<open>e = Inl e'\<close> c have "s' = s4" "\<exists>e. r = Inl e"
          by (auto simp: assign_role_def run_generate_id run_now y_def i_def t_def s3_def s2_def split: if_splits)
        moreover have "fresh Q s4" using st Inl s3 v3 s(2) by (auto simp: fresh_def)
        ultimately show ?thesis using st s3 Inl by auto
      next
        case (Inr y')
        with st have y': "y' = y" by simp
        obtain u s5 where i: "run_state (forget_principal sv cx (ra_subject y)) s4 = (u, s5)" by (rule prod.exhaust)
        obtain pl v where p: "run_state (rbac_publish sv cx EventRoleAssigned t (ra_subject y) pl) s5 = (v, s')"
          and r: "r = Inr y"
          using run False g z z' f \<open>e = Inl e'\<close> c Inr y' i
          by (auto simp: assign_role_def run_generate_id run_now y_def i_def t_def s3_def s2_def split: if_splits prod.splits)
        have c4: "cinv s4" "A s4 = add_mset y (A s)" "R s4 = R s" "view s4 = view s" using st Inr y' s3 v3 by simp_all
        have "fresh Q s5"
          using c4 cx sub by (intro fresh_forget [OF s(2) _ _ _ _ _ _ i]) auto
        moreover have "R s5 = R s4" "A s5 = A s4" "sinv s5" using forget_spec [OF c4(1) cx i] same_db [of s5 s4] st by simp_all
        ultimately show ?thesis
          using c4 idle_keeps [OF idle_publish [OF p]] r z z' by (auto simp: y_def i_def)
      qed
    qed
  qed
qed

lemma revoke_role_spec:
  assumes s: "sinv s" "fresh Q s" and cx: "ctx_err cx = None" and run: "run_state (revoke_role sv cx i) s = (r, s')"
  shows "sinv s' \<and> fresh Q s' \<and> R s' = R s \<and> (case r of
      Inl e \<Rightarrow> A s' = A s \<and> (i \<noteq> [] \<longrightarrow> e = ErrAssignmentNotFound \<and> (\<forall>a \<in># A s. ra_id a \<noteq> i))
    | Inr _ \<Rightarrow> A s' = filter_mset (\<lambda>a. ra_id a \<noteq> i) (A s) \<and> (\<exists>a \<in># A s. ra_id a = i))"
proof (cases "i = []")
  case True
  with run s show ?thesis by (auto simp: revoke_role_def)
next
  case False
  have inv: "roles.rinv (db s)" "assignments.rinv (db s)" "rbac_ok (R s) (A s)" using s(1) by (simp_all add: sinv_def)
  obtain q s1 where f: "run_state (in_db (repo_find_one (assignments_repo sv) [Eq ''id'' (VStr i)])) s = (q, s1)"
    by (rule prod.exhaust)
  show ?thesis
  proof (rule find_assignment [OF s(1) f means_assignment(1)])
    assume "q = Inl AdapterNotFound" "s1 = s" "\<forall>x \<in># A s. ra_id x \<noteq> i"
    with run False f s show ?thesis by (auto simp: revoke_role_def)
  next
    fix a assume a: "q = Inr a" "s1 = s" "a \<in># A s" "ra_id a = i"
    obtain x d where q: "run_state (repo_delete (assignments_repo sv) [Eq ''id'' (VStr i)]) (db s) = (x, d)" by (rule prod.exhaust)
    obtain k where k: "x = Inr k" using q total(4) by (cases x) (auto simp: repo_delete_def adapter)
    define s3 where "s3 = s\<lparr>pw_world := (pw_world s)\<lparr>w_db := d\<rparr>\<rparr>"
    have q3: "run_state (in_db (repo_delete (assignments_repo sv) [Eq ''id'' (VStr i)])) s = (Inr k, s3)"
      using q k by (simp add: run_in_db s3_def)
    note del = assignments.repo_delete [OF inv(2) means_assignment(1) q]
    have o: "roles.rinv d" "roles.ents d = roles.ents (db s)"
      using del other_roles [OF _ _ inv(1)] by blast+
    have R3: "R s3 = R s" using o by (simp add: R_def s3_def)
    have A3: "A s3 = filter_mset (\<lambda>a. ra_id a \<noteq> i) (A s)" using del k by (simp add: A_def s3_def)
    have nz: "k \<noteq> 0"
    proof
      assume "k = 0"
      with del k have "filter_mset (\<lambda>a. ra_id a = i) (A s) = {#}" by (simp add: A_def)
      with a show False by auto
    qed
    have uq: "uniq ra_id (filter_mset P M)" if "uniq ra_id M" for P M
      using that size_mset_mono [OF multiset_filter_mono [OF multiset_filter_subset [of P M]]]
      unfolding uniq_def by (meson order_trans)
    have "rbac_ok (R s3) (A s3)" using inv(3) uq [of "A s"] unfolding A3 R3 rbac_ok_def by auto
    then have s3: "sinv s3" using del k o s(1) A3 by (simp add: sinv_def s3_def)
    have c3: "cinv s3" "view s3 = view s"
      using cache_frame [OF same_cache_db [of s d]] s(2) by (simp_all add: s3_def fresh_def)
    obtain u s4 where i: "run_state (forget_principal sv cx (ra_subject a)) s3 = (u, s4)" by (rule prod.exhaust)
    define s5 where "s5 = s4\<lparr>pw_ticks := Suc (Suc (pw_ticks s4))\<rparr>"
    obtain pl y t where p: "run_state (rbac_publish sv cx EventRoleRevoked t (ra_subject a) pl) s5 = (y, s')"
      and r: "r = Inr ()"
      using run False f a q3 nz i unfolding s5_def by (auto simp: revoke_role_def run_now split: prod.splits)
    have "sure (ra_subject a)" using s(1) a by (simp add: sinv_def)
    moreover have "b \<in># A s3 \<longleftrightarrow> b \<in># A s" if "ra_subject b \<noteq> ra_subject a" for b
    proof -
      have "ra_id b \<noteq> i" if "b \<in># A s"
        using inv(3) a that \<open>ra_subject b \<noteq> ra_subject a\<close> by (auto simp: rbac_ok_def dest: uniq_eqD)
      then show ?thesis unfolding A3 by auto
    qed
    ultimately have "fresh Q s4" using c3 R3 cx by (intro fresh_forget [OF s(2) _ _ _ _ _ _ i]) auto
    moreover have "R s4 = R s3" "A s4 = A s3" "sinv s4" using forget_spec [OF c3(1) cx i] same_db [of s4 s3] s3 by simp_all
    moreover have "idle s4 s'" using idle_trans [OF idle_ticks(1) idle_publish [OF p, unfolded s5_def]] .
    ultimately show ?thesis using idle_keeps [of s4 s' Q] r R3 A3 a by auto
  qed
qed

section \<open>Authorization and listing\<close>

lemma authorize_spec:
  assumes "sinv s" "fresh Q s" "inj_on asked Q" "(p, perm, in_organization cx res) \<in> Q" "pr_subject p \<noteq> []" "perm \<noteq> []"
    and run: "run_state (rbac_authorize sv cx p perm res) s = (r, s')"
  shows "db s' = db s \<and> fresh Q s' \<and>
    r = (if access (R s) (A s) (p, perm, in_organization cx res) then Inr () else Inl RbacForbidden)"
proof -
  obtain q s1 where q: "run_state (rbac_evaluate sv cx p perm res) s = (q, s1)" by (rule prod.exhaust)
  from evaluate_spec [OF assms(1-6) q] run q show ?thesis by (auto simp: rbac_authorize_def)
qed

lemma list_roles_spec:
  assumes s: "sinv s" and run: "run_state (list_roles sv sc) s = (r, s')"
  shows "s' = s \<and> (case r of Inl _ \<Rightarrow> True | Inr xs \<Rightarrow>
    mset xs = (if sc = [] then R s else filter_mset (\<lambda>x. ro_scope x = sc) (R s)))"
proof -
  let ?w = "if sc \<noteq> [] then [Eq ''scope'' (VStr sc)] else []"
  have "plain x" if "scope_valid x" for x
    using that by (intro plain) (auto simp: scope_valid_def rbac_scopes)
  then have "roles.means [Eq ''scope'' (VStr sc)] (\<lambda>x. ro_scope x = sc)"
    by (intro roles.means_eq) (simp add: role_rep_def)
  then have m: "roles.means ?w (\<lambda>x. sc = [] \<or> ro_scope x = sc)"
    by (cases "sc = []") (auto simp: roles.means_def sats_def)
  obtain d where q: "run_state (repo_find_many (roles_repo sv) (query_where ModelRBACRoles ?w)) (db s) = (r, d)"
    and s': "s' = s\<lparr>pw_world := (pw_world s)\<lparr>w_db := d\<rparr>\<rparr>"
    using run by (auto simp: list_roles_def run_in_db split: prod.splits)
  have "roles.rinv (db s)" using s by (simp add: sinv_def)
  from roles.repo_find_many [OF this m q] s' show ?thesis by (cases "sc = []"; cases r) (simp_all add: R_def)
qed

end

end
