(* ===== verification/Rbac_Caches.thy ===== *)
theory Rbac_Caches
  imports Rbac_Correct
begin

text \<open>
  The two caches of decisions of role-based access control keep the laws of the locale \<open>decisions\<close>: the
  one in memory for every subject, the one on a core cache for the subjects without a colon. With a
  colon in the subject the adapter tracks a key under the text before it, and misses it when it
  invalidates (\<open>core_cache_misses\<close>).
\<close>

section \<open>The cache in memory\<close>

definition rbac_memory_view :: "('s, 'c, rbac_cached items) pworld \<Rightarrow> string \<rightharpoonup> rbac_cached" where
  "rbac_memory_view = items_view"

lemma owned_prefix: "rbac_owned p k \<Longrightarrow> has_prefix k (cache_key [''rbac'', ''eval'', p])"
  by (auto simp: rbac_owned_def has_prefix_iff cache_key_def)

interpretation rbac_memory: decisions "rbac_memory_cache wall ttl" "\<lambda>_. True" rbac_memory_view rbac_owned "\<lambda>_. True"
  "\<lambda>_. True"
  for wall ttl
proof (unfold_locales, goal_cases)
  case (1 s p k cx r s')
  then show ?case using memory_get_spec by (fastforce simp: rbac_memory_cache_def rbac_memory_view_def)
next
  case (2 s p k cx d ttl u s')
  then show ?case using memory_set_spec by (fastforce simp: rbac_memory_cache_def rbac_memory_view_def)
next
  case (3 s cx p u s')
  then show ?case using memory_drop_spec owned_prefix by (fastforce simp: rbac_memory_cache_def rbac_memory_view_def)
next
  case (4 s cx u s')
  then show ?case using memory_drop_spec by (fastforce simp: rbac_memory_cache_def rbac_memory_view_def)
next
  case (5 s s')
  then show ?case using items_view_frame [OF 5] by (simp add: rbac_memory_view_def)
qed

section \<open>The cache on a core cache\<close>

lemma json_rbac_cached_of: "rbac_cached_json d = Inr j \<Longrightarrow> json_rbac_cached j = Inr d"
  by (auto simp: rbac_cached_json_def json_times_def json_rbac_cached_def member_defs omit_empty_def
      split: if_splits)

lemma split_rbac_key:
  assumes "CHR '':'' \<notin> set h"
  shows "split_on (CHR '':'') (cache_key [''rbac'', ''eval'', p, h]) =
    [''gomodularauth'', ''rbac'', ''eval''] @ split_on (CHR '':'') p @ [h]"
proof -
  have k: "cache_key [''rbac'', ''eval'', p, h] =
      ''gomodularauth'' @ CHR '':'' # (''rbac'' @ CHR '':'' # (''eval'' @ CHR '':'' # (p @ CHR '':'' # h)))"
    by (simp add: cache_key_def Namespace_def)
  show ?thesis unfolding k split_on_append_any using assms by (simp add: split_on_single)
qed

lemma owned_unique:
  assumes "rbac_owned p k" "rbac_owned p' k" "CHR '':'' \<notin> set p"
  shows "p' = p"
proof -
  obtain h where h: "k = cache_key [''rbac'', ''eval'', p, h]" "CHR '':'' \<notin> set h" using assms(1) by (auto simp: rbac_owned_def)
  obtain h' where h': "k = cache_key [''rbac'', ''eval'', p', h']" "CHR '':'' \<notin> set h'" using assms(2) by (auto simp: rbac_owned_def)
  have "split_on (CHR '':'') p @ [h] = split_on (CHR '':'') p' @ [h']"
    using split_rbac_key [OF h(2), of p] split_rbac_key [OF h'(2), of p'] h(1) h'(1) by simp
  then have "split_on (CHR '':'') p = split_on (CHR '':'') p'" by simp
  then show ?thesis by (metis join_split)
qed

definition core_view :: "('c \<Rightarrow> string \<rightharpoonup> json) \<Rightarrow> ('s, 'c, 'k) pworld \<Rightarrow> string \<rightharpoonup> rbac_cached" where
  "core_view = decoded_view json_rbac_cached"

text \<open>Every key of a subject without a colon that is in the cache is tracked under the subject.\<close>

definition plain_subject :: "string \<Rightarrow> bool" where
  "plain_subject p \<longleftrightarrow> CHR '':'' \<notin> set p"

definition core_tracked :: "('c \<Rightarrow> string \<rightharpoonup> json) \<Rightarrow> ('s, 'c, key_index) pworld \<Rightarrow> bool" where
  "core_tracked cview s \<longleftrightarrow> (\<forall>p k. plain_subject p \<longrightarrow> rbac_owned p k \<longrightarrow>
     cview (w_cache (pw_world s)) k \<noteq> None \<longrightarrow> k \<in> set (index_keys (pw_cache s) p))"

lemma core_tracked_le:
  "core_tracked cview s \<Longrightarrow> cview (w_cache (pw_world s')) \<subseteq>\<^sub>m cview (w_cache (pw_world s)) \<Longrightarrow> pw_cache s' = pw_cache s \<Longrightarrow>
   core_tracked cview s'"
  unfolding core_tracked_def map_le_def by (metis domIff)

context reliable_cache
begin

lemma core_get_spec:
  assumes "core_tracked cview s" "run_state (dc_get (rbac_core_cache ch ttl) cx k) s = (r, s')"
  shows "core_tracked cview s' \<and> only_cache s s' \<and> core_view cview s' \<subseteq>\<^sub>m core_view cview s \<and>
    (\<forall>d. r = Inr (Some d) \<longrightarrow> core_view cview s k = Some d)"
proof -
  have g: "run_state (core_decision_get ch json_rbac_cached cx k) s = (r, s')"
    using assms(2) by (simp add: rbac_core_cache_def)
  from core_get_view [OF g] core_tracked_le [OF assms(1), of s'] decoded_view_le [of cview s' s] show ?thesis
    by (simp add: core_view_def)
qed

lemma core_set_spec:
  assumes inv: "core_tracked cview s" and k: "rbac_owned p k"
    and run: "run_state (dc_set (rbac_core_cache ch ttl) cx k d e) s = (u, s')"
  shows "core_tracked cview s' \<and> only_cache s s' \<and>
    (core_view cview s' \<subseteq>\<^sub>m core_view cview s \<or> core_view cview s' \<subseteq>\<^sub>m (core_view cview s)(k \<mapsto> d))"
proof -
  have run': "run_state (core_decision_set ch rbac_cached_json rbac_track (positive_ttl DefaultDecisionTTL ttl) cx k d e) s = (u, s')"
    using run by (simp add: rbac_core_cache_def)
  show ?thesis
  proof (rule core_set_view [OF run', of json_rbac_cached])
    fix j assume "rbac_cached_json d = Inr j"
    then show "json_rbac_cached j = Inr d" by (rule json_rbac_cached_of)
  next
    assume "only_cache s s'" "pw_cache s' = pw_cache s" "cview (w_cache (pw_world s')) \<subseteq>\<^sub>m cview (w_cache (pw_world s))"
    then show ?thesis
      using core_tracked_le [OF inv, of s'] decoded_view_le [of cview s' s json_rbac_cached] by (simp add: core_view_def)
  next
    fix j
    assume s': "only_cache s s'" "pw_cache s' = rbac_track (split_on (CHR '':'') k) k (pw_cache s)"
      "cview (w_cache (pw_world s')) \<subseteq>\<^sub>m (cview (w_cache (pw_world s)))(k \<mapsto> j)"
      "decoded_view json_rbac_cached cview s' \<subseteq>\<^sub>m (decoded_view json_rbac_cached cview s)(k \<mapsto> d)"
    have "core_tracked cview s'"
      unfolding core_tracked_def
    proof (intro allI impI)
      fix p' k' assume p': "plain_subject p'" "rbac_owned p' k'" and n: "cview (w_cache (pw_world s')) k' \<noteq> None"
      obtain h where h: "k = cache_key [''rbac'', ''eval'', p, h]" "CHR '':'' \<notin> List.set h" using k by (auto simp: rbac_owned_def)
      have parts: "split_on (CHR '':'') k = [''gomodularauth'', ''rbac'', ''eval''] @ split_on (CHR '':'') p @ [h]"
        unfolding h(1) by (rule split_rbac_key [OF h(2)])
      obtain w ws where ws: "split_on (CHR '':'') p = w # ws" by (cases "split_on (CHR '':'') p") auto
      have ix: "pw_cache s' = index_add w k (pw_cache s)" using parts ws by (simp add: s' rbac_track_def)
      show "k' \<in> List.set (index_keys (pw_cache s') p')"
      proof (cases "k' = k")
        case True
        with owned_unique [OF p'(2), of p] k p'(1) have "p = p'" by (simp add: plain_subject_def)
        with p'(1) ws have "w = p'" by (simp add: plain_subject_def split_on_single)
        with True show ?thesis by (simp add: ix index_keys_add)
      next
        case False
        obtain j' where "cview (w_cache (pw_world s')) k' = Some j'" using n by auto
        from map_le_Some [OF s'(3) this] False have "cview (w_cache (pw_world s)) k' \<noteq> None" by simp
        with inv p' have "k' \<in> List.set (index_keys (pw_cache s) p')" by (simp add: core_tracked_def)
        then show ?thesis by (auto simp: ix index_keys_add)
      qed
    qed
    with s' show ?thesis by (simp add: core_view_def)
  qed
qed

lemma core_invalidate_spec:
  assumes inv: "core_tracked cview s" and cx: "ctx_err cx = None"
    and run: "run_state (dc_invalidate_principal (rbac_core_cache ch ttl) cx p) s = (u, s')"
  shows "core_tracked cview s' \<and> only_cache s s' \<and> core_view cview s' \<subseteq>\<^sub>m core_view cview s \<and>
    (plain_subject p \<longrightarrow> (\<forall>k. rbac_owned p k \<longrightarrow> core_view cview s' k = None))"
proof (cases "map_of (pw_cache s) p")
  case None
  with run have s': "s' = s" by (auto simp: rbac_core_cache_def rbac_core_invalidate_principal_def on_own_def)
  have "core_view cview s k = None" if "plain_subject p" "rbac_owned p k" for k
    using inv that None by (fastforce simp: core_tracked_def index_keys_def core_view_def decoded_view_def split: option.splits)
  with inv s' show ?thesis by (simp add: only_cache_def)
next
  case (Some ks)
  obtain v s1 where d: "run_state (core_delete_keys ch cx ks) s = (v, s1)" by (rule prod.exhaust)
  note ds = core_delete_spec [OF d cx]
  have s': "s' = s1\<lparr>pw_cache := AList.delete p (pw_cache s1)\<rparr>"
    using run Some d by (auto simp: rbac_core_cache_def rbac_core_invalidate_principal_def on_own_def)
  have ks: "index_keys (pw_cache s) p = ks" using Some by (simp add: index_keys_def)
  have gone: "cview (w_cache (pw_world s')) k = None" if "plain_subject p" "rbac_owned p k" for k
  proof (cases "cview (w_cache (pw_world s)) k")
    case None
    with ds map_le_None [of "cview (w_cache (pw_world s1))" "cview (w_cache (pw_world s))"] show ?thesis by (simp add: s')
  next
    case (Some j)
    with inv that ks have "k \<in> List.set ks" by (auto simp: core_tracked_def)
    with ds show ?thesis by (simp add: s')
  qed
  have "core_tracked cview s'"
    unfolding core_tracked_def
  proof (intro allI impI)
    fix p' k assume p': "plain_subject p'" "rbac_owned p' k" and n: "cview (w_cache (pw_world s')) k \<noteq> None"
    have "cview (w_cache (pw_world s)) k \<noteq> None"
    proof
      assume a: "cview (w_cache (pw_world s)) k = None"
      from ds have le: "cview (w_cache (pw_world s1)) \<subseteq>\<^sub>m cview (w_cache (pw_world s))" by simp
      have "cview (w_cache (pw_world s1)) k = None" by (rule map_le_None [OF le a])
      with n show False by (simp add: s')
    qed
    with inv p' have "k \<in> List.set (index_keys (pw_cache s) p')" by (simp add: core_tracked_def)
    moreover have "p' \<noteq> p"
    proof
      assume "p' = p"
      with p' have "cview (w_cache (pw_world s')) k = None" by (intro gone) simp_all
      with n show False by simp
    qed
    ultimately show "k \<in> List.set (index_keys (pw_cache s') p')" using ds by (simp add: s' index_keys_delete)
  qed
  moreover have "core_view cview s' \<subseteq>\<^sub>m core_view cview s" using ds decoded_view_le [of cview s' s] by (simp add: s' core_view_def)
  ultimately show ?thesis using gone ds by (simp add: only_cache_def s' core_view_def decoded_view_def)
qed

lemma core_invalidate_all_spec:
  assumes inv: "core_tracked cview s" and cx: "ctx_err cx = None"
    and run: "run_state (dc_invalidate_all (rbac_core_cache ch ttl) cx) s = (u, s')"
  shows "core_tracked cview s' \<and> only_cache s s' \<and> core_view cview s' \<subseteq>\<^sub>m core_view cview s \<and>
    (\<forall>p k. plain_subject p \<longrightarrow> rbac_owned p k \<longrightarrow> core_view cview s' k = None)"
proof -
  obtain v s1 where d: "run_state (core_delete_keys ch cx (concat (map snd (pw_cache s)))) s = (v, s1)" by (rule prod.exhaust)
  note ds = core_delete_spec [OF d cx]
  have s': "s' = s1\<lparr>pw_cache := []\<rparr>"
    using run d by (auto simp: rbac_core_cache_def rbac_core_invalidate_all_def on_own_def)
  have gone: "cview (w_cache (pw_world s')) k = None" if "plain_subject p" "rbac_owned p k" for p k
  proof (cases "cview (w_cache (pw_world s)) k")
    case None
    with ds map_le_None [of "cview (w_cache (pw_world s1))" "cview (w_cache (pw_world s))"] show ?thesis by (simp add: s')
  next
    case (Some j)
    with inv that have "k \<in> List.set (index_keys (pw_cache s) p)" by (auto simp: core_tracked_def)
    then have "k \<in> List.set (concat (map snd (pw_cache s)))" by (rule index_keys_concat)
    with ds have "cview (w_cache (pw_world s1)) k = None" by blast
    then show ?thesis by (simp add: s')
  qed
  moreover have "core_view cview s' \<subseteq>\<^sub>m core_view cview s" using ds decoded_view_le [of cview s' s] by (simp add: s' core_view_def)
  ultimately show ?thesis using ds by (auto simp: core_tracked_def only_cache_def s' core_view_def decoded_view_def)
qed

lemma core_decisions:
  "decisions (rbac_core_cache ch ttl) (core_tracked cview) (core_view cview) rbac_owned plain_subject (\<lambda>_. True)"
proof (unfold_locales, goal_cases)
  case (1 s p k cx r s') then show ?case using core_get_spec by blast
next
  case (2 s p k cx d e u s') then show ?case using core_set_spec by blast
next
  case (3 s cx p u s') then show ?case using core_invalidate_spec by blast
next
  case (4 s cx u s') then show ?case using core_invalidate_all_spec by blast
next
  case (5 s s')
  then show ?case using decoded_view_frame [OF 5] by (simp add: core_view_def core_tracked_def same_cache_def)
qed

end

interpretation rbac_core: decisions "rbac_core_cache (memory_cache now) ttl" "core_tracked mc_view" "core_view mc_view"
  rbac_owned plain_subject "\<lambda>_. True" for now ttl
  by (rule mcache.core_decisions)

end
