(* ===== verification/Memory_Models.thy ===== *)
theory Memory_Models
  imports Sdk_Correct Engine_Frame
begin

text \<open>
  Several models of a plugin on one in-memory adapter: an operation on one of them keeps the contract of
  the others, and so does everything the engine does.
\<close>

definition models_inv :: "runtime \<Rightarrow> (string \<times> string list list) list \<Rightarrow> mem \<Rightarrow> bool" where
  "models_inv rt ms a \<longleftrightarrow> (\<forall>(m, uq) \<in> set ms. model_inv rt m uq a)"

lemma models_invD: "models_inv rt ms a \<Longrightarrow> (m, uq) \<in> set ms \<Longrightarrow> model_inv rt m uq a"
  by (auto simp: models_inv_def)

lemma model_inv_same:
  "model_inv rt m uq a \<Longrightarrow> table_of a' m = table_of a m \<Longrightarrow> mem_schema a' = mem_schema a \<Longrightarrow> model_inv rt m uq a'"
  by (simp add: model_inv_def)

lemma models_inv_change:
  assumes "models_inv rt ms a" "distinct (map fst ms)" "(m, uq) \<in> set ms" "model_inv rt m uq a'"
    and "\<And>m'. m' \<noteq> m \<Longrightarrow> table_of a' m' = table_of a m' \<and> mem_schema a' = mem_schema a"
  shows "models_inv rt ms a'"
proof -
  have "model_inv rt m' uq' a'" if "(m', uq') \<in> set ms" for m' uq'
  proof (cases "m' = m")
    case True
    with that assms(2,3) have "uq' = uq" by (auto dest: eq_key_imp_eq_value)
    with True assms(4) show ?thesis by simp
  next
    case False
    with assms(5) [OF False] models_invD [OF assms(1) that] show ?thesis by (blast intro: model_inv_same)
  qed
  then show ?thesis by (auto simp: models_inv_def)
qed

lemma memory_models:
  assumes ms: "distinct (map fst ms)" "(m, uq) \<in> set ms"
  shows "model_contract (memory_adapter rt) (models_inv rt ms) mem_tbl (match_condition rt) plain_string m uq"
proof (unfold_locales, goal_cases)
  case (1 s d r s')
  then have run: "run_state (mem_create rt m d) s = (Inr r, s')" by (simp add: memory_adapter_def)
  from mem_create_model [OF models_invD [OF 1(1) ms(2)] run] models_inv_change [OF 1(1) ms] other_table(1) [OF _ run]
  show ?case by blast
next
  case (2 s d e s')
  then have run: "run_state (mem_create rt m d) s = (Inl e, s')" by (simp add: memory_adapter_def)
  from mem_model_create_Inl [OF models_invD [OF 2(1) ms(2)] run] models_inv_change [OF 2(1) ms] other_table(1) [OF _ run]
  show ?case by blast
next
  case (3 s w r s') then show ?case using mem_find_one_Inr by (simp add: memory_adapter_def)
next
  case (4 s w e s') then show ?case using mem_find_one_Inl by (simp add: memory_adapter_def)
next
  case (5 s w rs s') then show ?case using mem_find_many_Inr by (simp add: memory_adapter_def)
next
  case (6 s w e s') then show ?case
    by (auto simp: memory_adapter_def mem_find_many_def Let_def split: option.splits if_splits)
next
  case (7 s u w n s')
  then have run: "run_state (mem_update rt m w u) s = (Inr n, s')" by (simp add: memory_adapter_def)
  from mem_update_model [OF models_invD [OF 7(1) ms(2)] 7(2) run] models_inv_change [OF 7(1) ms] other_table(4) [OF _ run]
  show ?case by blast
next
  case (8 s w u e s') then show ?case
    by (auto simp: memory_adapter_def mem_update_def split: option.splits)
next
  case (9 s w n s')
  then have run: "run_state (mem_delete rt m w) s = (Inr n, s')" by (simp add: memory_adapter_def)
  from mem_delete_model [OF models_invD [OF 9(1) ms(2)] run] models_inv_change [OF 9(1) ms] other_table(5) [OF _ run]
  show ?case by blast
next
  case (10 s w e s') then show ?case
    by (auto simp: memory_adapter_def mem_delete_def Let_def split: option.splits)
next
  case (11 s w n s') then show ?case by (auto simp: memory_adapter_def mem_count_run)
next
  case (12 s w e s') then show ?case by (simp add: memory_adapter_def mem_count_run)
next
  case (13 s0 s1)
  have "model_inv rt m' uq' (mem_rollback s0 s1)" if "(m', uq') \<in> set ms" for m' uq'
    using models_invD [OF 13(1) that] models_invD [OF 13(2) that]
    by (auto simp: mem_rollback_def clone_tables_def model_inv_def table_of_def)
  then show ?case
    by (auto simp: memory_adapter_def models_inv_def mem_rollback_def clone_tables_def mem_tbl_def table_of_def fun_eq_iff)
next
  case (14 r k a b) then show ?case
    by (simp add: match_condition_def Eq_def row_get_def match_equal_str)
qed

text \<open>The in-memory adapter answers, but for a row that is not there.\<close>

lemma memory_total:
  "run_state (ad_find_one (memory_adapter rt) m cs) s = (Inl e, s') \<Longrightarrow> e = AdapterNotFound"
  "run_state (ad_find_many (memory_adapter rt) q) s \<noteq> (Inl e, s')"
  "run_state (ad_update (memory_adapter rt) m cs u) s \<noteq> (Inl e, s')"
  "run_state (ad_delete (memory_adapter rt) m cs) s \<noteq> (Inl e, s')"
  "run_state (ad_count (memory_adapter rt) m cs) s \<noteq> (Inl e, s')"
  by (auto simp: memory_adapter_def mem_find_one_def mem_find_many_def mem_update_def mem_delete_def mem_count_def
      Let_def split: option.splits)

text \<open>A benign engine publishes without touching the database or the cache.\<close>

lemma benign_publish:
  assumes b: "benign a" and run: "run_state (events_publish (au_events a) cx ev) w = (y, w')"
  shows "w_db w' = w_db w \<and> w_cache w' = w_cache w"
proof -
  let ?P = "\<lambda>x :: ('a, 'b) world. w_db x = w_db w \<and> w_cache x = w_cache w"
  have "keeps ?P (safe_call cx h ev)"
    if "h \<in> set (evs_handlers (au_events a) n @ evs_all (au_events a))" for h n
  proof -
    have "quiet (h cx ev)" using b that unfolding benign_def benign_events_def by blast
    then have "keeps ?P (h cx ev)" unfolding quiet_def by (intro keepsI) metis
    moreover have "keeps ?P (log_line s)" for s by (simp add: keeps_def log_line_def)
    ultimately show ?thesis unfolding safe_call_def by (intro keeps_rules)
  qed
  moreover have "keeps ?P (record_event ev)" by (simp add: keeps_def record_event_def)
  ultimately have "keeps ?P (events_publish (au_events a) cx ev)"
    unfolding events_publish_def by (intro keeps_rules) auto
  from keepsD [OF this _ run] show ?thesis by simp
qed

text \<open>The engine keeps the models of a plugin and their rows.\<close>

lemma engine_keeps_models:
  assumes "on_memory rt a" "engine_step a w w'" "models_inv rt ms (w_db w)" "fst ` set ms \<inter> set core_models = {}"
  shows "models_inv rt ms (w_db w') \<and> (\<forall>m \<in> fst ` set ms. mem_tbl (w_db w') m = mem_tbl (w_db w) m)"
proof -
  have "model_inv rt m uq (w_db w') \<and> mem_tbl (w_db w') m = mem_tbl (w_db w) m" if "(m, uq) \<in> set ms" for m uq
  proof -
    have "m \<notin> set core_models" using that assms(4) by force
    note fr = memory_frame [OF assms(1) this]
    have "engine_frame.Q (table_is rt m uq (mem_tbl (w_db w) m)) w"
      using models_invD [OF assms(3) that] by (simp add: engine_frame.Q_def [OF fr] table_is_def)
    from engine_frame.engine_step_keeps [OF fr assms(2) this] show ?thesis
      by (simp add: engine_frame.Q_def [OF fr] table_is_def)
  qed
  then show ?thesis by (auto simp: models_inv_def)
qed

end
