(* ===== verification/Rbac_Memory.thy ===== *)
theory Rbac_Memory
  imports Rbac_Caches Memory_Models
begin

text \<open>
  Role-based access control on the in-memory adapter, with either cache of decisions or none: it keeps
  the laws of the locale \<open>rbac\<close>. Steps of the service, and what they keep.
\<close>

section \<open>The service on memory\<close>

definition rbac_models :: "(string \<times> string list list) list" where
  "rbac_models = [(ModelRBACRoles, role_unique), (ModelRBACAssignments, assignment_unique)]"

definition rbac_on_memory :: "runtime \<Rightarrow> (mem, mcache, 'k) rbac_service \<Rightarrow> bool" where
  "rbac_on_memory rt sv \<longleftrightarrow> rs_adapter sv = memory_adapter rt \<and> au_rt (rs_auth sv) = rt \<and>
     on_memory rt (rs_auth sv) \<and> rbac_ready sv"

lemma memory_rbac_laws:
  assumes "rs_adapter sv = memory_adapter rt" "on_memory rt (rs_auth sv)" "rbac_caching (rs_cache sv) cinv view sure"
  shows "rbac (memory_adapter rt) (models_inv rt rbac_models) mem_tbl (match_condition rt) plain_string sv cinv view sure"
proof -
  have m: "model_contract (memory_adapter rt) (models_inv rt rbac_models) mem_tbl (match_condition rt) plain_string
      ModelRBACRoles role_unique"
    "model_contract (memory_adapter rt) (models_inv rt rbac_models) mem_tbl (match_condition rt) plain_string
      ModelRBACAssignments assignment_unique"
    by (rule memory_models; simp add: rbac_models_def ModelRBACRoles_def ModelRBACAssignments_def)+
  have b: "benign (rs_auth sv)" using assms(2) by (simp add: on_memory_def)
  show ?thesis
  proof (intro rbac.intro rbac_axioms.intro, goal_cases)
    case 1 then show ?case by (rule m(1))
  next
    case 2 then show ?case by (rule m(2))
  next
    case 3 then show ?case by (rule assms(1))
  next
    case (4 x) then show ?case by (rule plain_no_colon)
  next
    case (5 m cs s e s') then show ?case by (rule memory_total)
  next
    case (6 q s e s') then show ?case by (rule memory_total)
  next
    case (7 m cs u s e s') then show ?case by (rule memory_total)
  next
    case (8 m cs s e s') then show ?case by (rule memory_total)
  next
    case (9 m cs s e s') then show ?case by (rule memory_total)
  next
    case (10 cx ev w y w') then show ?case by (rule benign_publish [OF b])
  next
    case 11 then show ?case by (rule assms(3))
  qed
qed

lemma memory_rbac:
  assumes "rbac_on_memory rt sv" "rbac_caching (rs_cache sv) cinv view sure"
  shows "rbac (memory_adapter rt) (models_inv rt rbac_models) mem_tbl (match_condition rt) plain_string sv cinv view sure"
  using assms by (intro memory_rbac_laws) (simp_all add: rbac_on_memory_def)

lemma caching_memory: "rbac_caching (Some (rbac_memory_cache wall ttl)) (\<lambda>_. True) rbac_memory_view (\<lambda>_. True)"
  using rbac_memory.decisions_axioms by (simp add: rbac_caching_def)

lemma caching_core:
  "rbac_caching (Some (rbac_core_cache (memory_cache clk) ttl)) (core_tracked mc_view) (core_view mc_view) plain_subject"
  using rbac_core.decisions_axioms by (simp add: rbac_caching_def)

lemma caching_none: "rbac_caching None (\<lambda>_. True) (\<lambda>_. Map.empty) (\<lambda>_. True)"
  by (simp add: rbac_caching_def)

definition memory_rbac_service ::
  "(mem, mcache) auth \<Rightarrow> (mem, mcache, 'k) rbac_cache option \<Rightarrow> rbac_config \<Rightarrow> (mem, mcache, 'k) rbac_service" where
  "memory_rbac_service a c cfg =
     \<lparr>rs_auth = a, rs_adapter = memory_adapter (au_rt a), rs_cache = c, rs_cfg = cfg, rs_clock = au_now a\<rparr>"

lemma memory_auth_rt: "au_rt (memory_auth rt en cn hf vf d s) = rt"
  by (simp add: memory_auth_def)

interpretation mem_rbac: rbac "memory_adapter rt" "models_inv rt rbac_models" mem_tbl "match_condition rt" plain_string
  "memory_rbac_service (memory_auth rt en cn hf vf d s) (Some (rbac_memory_cache wall ttl)) cfg"
  "\<lambda>_. True" rbac_memory_view "\<lambda>_. True"
  for rt en cn hf vf d s wall ttl cfg
  by (rule memory_rbac_laws) (simp_all add: memory_rbac_service_def memory_auth_rt memory_auth_ok caching_memory)

text \<open>The roles and the assignments in a database, and the database being in order for the service.\<close>

definition role_of :: "runtime \<Rightarrow> row \<Rightarrow> rbac_role" where
  "role_of rt r = (case from_map \<lparr>rp_adapter = Some (memory_adapter rt), rp_model = ModelRBACRoles,
     rp_codec = role_codec rt, rp_rt = rt\<rparr> r no_role of Inr x \<Rightarrow> x | Inl _ \<Rightarrow> no_role)"

definition assignment_of :: "runtime \<Rightarrow> row \<Rightarrow> role_assignment" where
  "assignment_of rt r = (case from_map \<lparr>rp_adapter = Some (memory_adapter rt), rp_model = ModelRBACAssignments,
     rp_codec = assignment_codec rt, rp_rt = rt\<rparr> r no_assignment of Inr x \<Rightarrow> x | Inl _ \<Rightarrow> no_assignment)"

definition roles_of :: "runtime \<Rightarrow> (mem, 'c, 'k) pworld \<Rightarrow> rbac_role multiset" where
  "roles_of rt s = image_mset (role_of rt) (mem_tbl (w_db (pw_world s)) ModelRBACRoles)"

definition assignments_of :: "runtime \<Rightarrow> (mem, 'c, 'k) pworld \<Rightarrow> role_assignment multiset" where
  "assignments_of rt s = image_mset (assignment_of rt) (mem_tbl (w_db (pw_world s)) ModelRBACAssignments)"

definition rbac_in_order :: "runtime \<Rightarrow> (string \<Rightarrow> bool) \<Rightarrow> (mem, 'c, 'k) pworld \<Rightarrow> bool" where
  "rbac_in_order rt sure s \<longleftrightarrow> models_inv rt rbac_models (w_db (pw_world s)) \<and>
     (\<forall>r \<in># mem_tbl (w_db (pw_world s)) ModelRBACRoles. role_rep rt plain_string (role_of rt r) r) \<and>
     (\<forall>r \<in># mem_tbl (w_db (pw_world s)) ModelRBACAssignments. assignment_rep rt plain_string (assignment_of rt r) r) \<and>
     rbac_ok (roles_of rt s) (assignments_of rt s) \<and> (\<forall>a \<in># assignments_of rt s. sure (ra_subject a))"

definition request_key :: "runtime \<Rightarrow> principal \<times> string \<times> rbac_resource \<Rightarrow> string" where
  "request_key rt q = (case q of (p, perm, res) \<Rightarrow>
     rbac_build_key rt p perm (rr_type res) (rr_id res) (rr_organization res) (rr_service res))"

definition rbac_fresh ::
  "runtime \<Rightarrow> ((mem, 'c, 'k) pworld \<Rightarrow> bool) \<Rightarrow> ((mem, 'c, 'k) pworld \<Rightarrow> string \<rightharpoonup> rbac_cached) \<Rightarrow>
   (principal \<times> string \<times> rbac_resource) set \<Rightarrow> (mem, 'c, 'k) pworld \<Rightarrow> bool" where
  "rbac_fresh rt cinv view Q s \<longleftrightarrow> cinv s \<and> (\<forall>q \<in> Q. \<forall>d. view s (request_key rt q) = Some d \<longrightarrow>
     rc_allowed d = access (roles_of rt s) (assignments_of rt s) q)"

context rbac
begin

text \<open>The definitions of the locale without the locale \<open>repository\<close>.\<close>

lemma R_eq:
  "R s = image_mset (\<lambda>r. case from_map (roles_repo sv) r no_role of Inr x \<Rightarrow> x | Inl _ \<Rightarrow> no_role) (tbl (db s) ModelRBACRoles)"
  by (simp add: R_def roles.ents_def roles.entity_def [abs_def] cong: sum.case_cong)

lemma A_eq:
  "A s = image_mset (\<lambda>r. case from_map (assignments_repo sv) r no_assignment of Inr x \<Rightarrow> x | Inl _ \<Rightarrow> no_assignment)
     (tbl (db s) ModelRBACAssignments)"
  by (simp add: A_def assignments.ents_def assignments.entity_def [abs_def] cong: sum.case_cong)

lemma sinv_eq:
  "sinv s \<longleftrightarrow> inv (db s) \<and>
     (\<forall>r \<in># tbl (db s) ModelRBACRoles. role_rep (au_rt (rs_auth sv)) plain
        (case from_map (roles_repo sv) r no_role of Inr x \<Rightarrow> x | Inl _ \<Rightarrow> no_role) r) \<and>
     (\<forall>r \<in># tbl (db s) ModelRBACAssignments. assignment_rep (au_rt (rs_auth sv)) plain
        (case from_map (assignments_repo sv) r no_assignment of Inr x \<Rightarrow> x | Inl _ \<Rightarrow> no_assignment) r) \<and>
     rbac_ok (R s) (A s) \<and> (\<forall>a \<in># A s. sure (ra_subject a))"
  by (auto simp: sinv_def roles.rinv_def roles.entity_def assignments.rinv_def assignments.entity_def
      cong: sum.case_cong)

end

lemma rbac_view:
  assumes on: "rbac_on_memory rt sv" and c: "rbac_caching (rs_cache sv) cinv view sure"
  shows "rbac.R mem_tbl sv s = roles_of rt s" "rbac.A mem_tbl sv s = assignments_of rt s"
    "rbac.sinv (models_inv rt rbac_models) mem_tbl plain_string sv sure s = rbac_in_order rt sure s"
    "rbac.asked sv = request_key rt" "rbac.fresh mem_tbl sv cinv view Q s = rbac_fresh rt cinv view Q s"
proof -
  note i = memory_rbac [OF on c]
  have repo: "roles_repo sv = \<lparr>rp_adapter = Some (memory_adapter rt), rp_model = ModelRBACRoles,
      rp_codec = role_codec rt, rp_rt = rt\<rparr>"
    "assignments_repo sv = \<lparr>rp_adapter = Some (memory_adapter rt), rp_model = ModelRBACAssignments,
      rp_codec = assignment_codec rt, rp_rt = rt\<rparr>"
    using on by (simp_all add: rbac_on_memory_def roles_repo_def assignments_repo_def)
  show R: "rbac.R mem_tbl sv s = roles_of rt s"
    unfolding rbac.R_eq [OF i] repo by (simp add: roles_of_def role_of_def [abs_def])
  show A: "rbac.A mem_tbl sv s = assignments_of rt s"
    unfolding rbac.A_eq [OF i] repo by (simp add: assignments_of_def assignment_of_def [abs_def])
  show "rbac.sinv (models_inv rt rbac_models) mem_tbl plain_string sv sure s = rbac_in_order rt sure s"
    unfolding rbac.sinv_eq [OF i] R A repo using on
    by (simp add: rbac_in_order_def role_of_def assignment_of_def rbac_on_memory_def)
  show k: "rbac.asked sv = request_key rt"
    using on by (auto simp: fun_eq_iff rbac.asked_def [OF i] request_key_def rbac_key_def rbac_on_memory_def)
  show "rbac.fresh mem_tbl sv cinv view Q s = rbac_fresh rt cinv view Q s"
    unfolding rbac.fresh_def [OF i] R A k rbac_fresh_def ..
qed

section \<open>Steps\<close>

text \<open>
  The calls of the service. Identifiers, names and subjects are not texts the adapter would read as an
  instant; changes are made in a context that is not cancelled; \<open>Q\<close> are the requests that are evaluated,
  \<open>sure\<close> the subjects that roles are assigned to.
\<close>

inductive rbac_step ::
  "(mem, mcache, 'k) rbac_service \<Rightarrow> (string \<Rightarrow> bool) \<Rightarrow> (principal \<times> string \<times> rbac_resource) set \<Rightarrow>
   (mem, mcache, 'k) pworld \<Rightarrow> (mem, mcache, 'k) pworld \<Rightarrow> bool" for sv sure Q where
  step_create_role: "plain_string (ro_id x) \<Longrightarrow> plain_string (ro_name x) \<Longrightarrow>
    run_state (create_role sv cx (Some x)) s = (r1, s') \<Longrightarrow> rbac_step sv sure Q s s'"
| step_update_role: "ctx_err cx = None \<Longrightarrow> plain_string (ro_name x) \<Longrightarrow>
    run_state (update_role sv cx (Some x)) s = (r1, s') \<Longrightarrow> rbac_step sv sure Q s s'"
| step_delete_role: "ctx_err cx = None \<Longrightarrow> run_state (delete_role sv cx i) s = (r2, s') \<Longrightarrow> rbac_step sv sure Q s s'"
| step_assign_role: "ctx_err cx = None \<Longrightarrow> plain_string (ra_id a) \<Longrightarrow> plain_string (ra_role_id a) \<Longrightarrow>
    plain_string (ra_subject a) \<Longrightarrow> plain_string (ra_type a) \<Longrightarrow> sure (ra_subject a) \<Longrightarrow>
    run_state (assign_role sv cx (Some a)) s = (r3, s') \<Longrightarrow> rbac_step sv sure Q s s'"
| step_revoke_role: "ctx_err cx = None \<Longrightarrow> run_state (revoke_role sv cx i) s = (r2, s') \<Longrightarrow> rbac_step sv sure Q s s'"
| step_evaluate: "(p, perm, in_organization cx res) \<in> Q \<Longrightarrow> run_state (rbac_evaluate sv cx p perm res) s = (r4, s') \<Longrightarrow>
    rbac_step sv sure Q s s'"

text \<open>A step of the engine beside the service.\<close>

definition beside :: "(mem, mcache) auth \<Rightarrow> (mem, mcache, 'k) pworld \<Rightarrow> (mem, mcache, 'k) pworld \<Rightarrow> bool" where
  "beside a s s' \<longleftrightarrow> (\<exists>w'. engine_step a (pw_world s) w' \<and> s' = s\<lparr>pw_world := w'\<rparr>)"

lemma rbac_step_keeps:
  assumes on: "rbac_on_memory rt sv" and c: "rbac_caching (rs_cache sv) cinv view sure"
    and Q: "inj_on (request_key rt) Q" and st: "rbac_step sv sure Q s s'"
    and s: "rbac_in_order rt sure s" "rbac_fresh rt cinv view Q s"
  shows "rbac_in_order rt sure s' \<and> rbac_fresh rt cinv view Q s'"
proof -
  note i = memory_rbac [OF on c] and v = rbac_view [OF on c]
  have rd: "rbac_ready sv" using on by (simp add: rbac_on_memory_def)
  note s' = s [folded v(3) v(5)]
  show ?thesis
    using st unfolding v(3,5) [symmetric]
  proof (cases rule: rbac_step.cases)
    case (step_create_role x cx r1)
    from rbac.create_role_spec [OF i s' rd step_create_role] show
      "rbac.sinv (models_inv rt rbac_models) mem_tbl plain_string sv sure s' \<and> rbac.fresh mem_tbl sv cinv view Q s'" by blast
  next
    case (step_update_role cx x r1)
    from rbac.update_role_spec [OF i s' rd step_update_role] show
      "rbac.sinv (models_inv rt rbac_models) mem_tbl plain_string sv sure s' \<and> rbac.fresh mem_tbl sv cinv view Q s'" by blast
  next
    case (step_delete_role cx j r2)
    from rbac.delete_role_spec [OF i s' step_delete_role] show
      "rbac.sinv (models_inv rt rbac_models) mem_tbl plain_string sv sure s' \<and> rbac.fresh mem_tbl sv cinv view Q s'" by blast
  next
    case (step_assign_role cx a r3)
    from rbac.assign_role_spec [OF i s' rd step_assign_role] show
      "rbac.sinv (models_inv rt rbac_models) mem_tbl plain_string sv sure s' \<and> rbac.fresh mem_tbl sv cinv view Q s'" by blast
  next
    case (step_revoke_role cx j r2)
    from rbac.revoke_role_spec [OF i s' step_revoke_role] show
      "rbac.sinv (models_inv rt rbac_models) mem_tbl plain_string sv sure s' \<and> rbac.fresh mem_tbl sv cinv view Q s'" by blast
  next
    case (step_evaluate p perm cx res r4)
    show "rbac.sinv (models_inv rt rbac_models) mem_tbl plain_string sv sure s' \<and> rbac.fresh mem_tbl sv cinv view Q s'"
    proof (cases "pr_subject p = [] \<or> perm = []")
      case True
      with step_evaluate s' show ?thesis by (auto simp: rbac_evaluate_def split: if_splits)
    next
      case False
      from rbac.evaluate_spec [OF i s' _ step_evaluate(1) _ _ step_evaluate(2)] False Q v(4)
      show ?thesis using rbac.same_db [OF i, of s' s] s'(1) by auto
    qed
  qed
qed

lemma beside_keeps:
  assumes on: "rbac_on_memory rt sv" and st: "beside (rs_auth sv) s s'" and s: "rbac_in_order rt sure s"
  shows "rbac_in_order rt sure s' \<and> roles_of rt s' = roles_of rt s \<and> assignments_of rt s' = assignments_of rt s \<and>
    pw_cache s' = pw_cache s"
proof -
  obtain w' where w': "engine_step (rs_auth sv) (pw_world s) w'" "s' = s\<lparr>pw_world := w'\<rparr>"
    using st by (auto simp: beside_def)
  have e: "on_memory rt (rs_auth sv)" using on by (simp add: rbac_on_memory_def)
  have "fst ` set rbac_models \<inter> set core_models = {}"
    by (simp add: rbac_models_def core_models_def model_names ModelRBACRoles_def ModelRBACAssignments_def)
  from engine_keeps_models [OF e w'(1) _ this] s w'(2) show ?thesis
    by (simp add: rbac_in_order_def roles_of_def assignments_of_def rbac_models_def)
qed

lemma rbac_run_keeps:
  assumes run: "rtranclp (rbac_step sv sure Q) s s'" and on: "rbac_on_memory rt sv"
    and c: "rbac_caching (rs_cache sv) cinv view sure" and Q: "inj_on (request_key rt) Q"
    and s: "rbac_in_order rt sure s" "rbac_fresh rt cinv view Q s"
  shows "rbac_in_order rt sure s' \<and> rbac_fresh rt cinv view Q s'"
  using run
proof (induction rule: rtranclp_induct)
  case (step y z)
  with rbac_step_keeps [OF on c Q step.hyps(2)] show ?case by blast
qed (use s in simp)

text \<open>With the cache in memory, also beside an engine.\<close>

lemma rbac_run_beside_keeps:
  assumes run: "rtranclp (sup (rbac_step sv (\<lambda>_. True) Q) (beside (rs_auth sv))) s s'" and on: "rbac_on_memory rt sv"
    and c: "rs_cache sv = Some (rbac_memory_cache wall ttl)" and Q: "inj_on (request_key rt) Q"
    and s: "rbac_in_order rt (\<lambda>_. True) s" "rbac_fresh rt (\<lambda>_. True) rbac_memory_view Q s"
  shows "rbac_in_order rt (\<lambda>_. True) s' \<and> rbac_fresh rt (\<lambda>_. True) rbac_memory_view Q s'"
  using run
proof (induction rule: rtranclp_induct)
  case (step y z)
  from step.hyps(2) show ?case
  proof (rule sup2E)
    assume "rbac_step sv (\<lambda>_. True) Q y z"
    from rbac_step_keeps [OF on _ Q this, of "\<lambda>_. True" rbac_memory_view] step.IH show ?thesis
      unfolding c using caching_memory by blast
  next
    assume "beside (rs_auth sv) y z"
    with beside_keeps [OF on this, of "\<lambda>_. True"] step.IH
    show ?thesis by (simp add: rbac_fresh_def rbac_memory_view_def items_view_def)
  qed
qed (use s in simp)

end
