(* ===== verification/Rbac_Properties.thy ===== *)
theory Rbac_Properties
  imports Rbac_Memory Timed_Samples
begin

text \<open>
  The properties of role-based access control on memory, a concrete service for their witnesses, and
  what the code does not do: the lemmas of the last section show it on examples.
\<close>

section \<open>Properties\<close>


text \<open>The same with the decision cache on the core cache, for subjects without a colon, however calls
  of the service came before.\<close>

theorem rbac_core_cache_authorize:
  assumes "rbac_on_memory rt sv" "rs_cache sv = Some (rbac_core_cache (memory_cache clk) ttl)"
    and "inj_on (request_key rt) Q" "rbac_in_order rt plain_subject s0"
    and "rbac_fresh rt (core_tracked mc_view) (core_view mc_view) Q s0"
    and "rtranclp (rbac_step sv plain_subject Q) s0 s"
    and "(p, perm, in_organization cx res) \<in> Q" "pr_subject p \<noteq> []" "perm \<noteq> []"
  shows "fst (run_state (rbac_authorize sv cx p perm res) s) =
    (if access (roles_of rt s) (assignments_of rt s) (p, perm, in_organization cx res)
     then Inr () else Inl RbacForbidden)"
proof -
  obtain r s' where run: "run_state (rbac_authorize sv cx p perm res) s = (r, s')" by (rule prod.exhaust)
  have c: "rbac_caching (rs_cache sv) (core_tracked mc_view) (core_view mc_view) plain_subject"
    unfolding assms(2) by (rule caching_core)
  note v = rbac_view [OF assms(1) c]
  from rbac_run_keeps [OF assms(6,1) c assms(3,4,5)]
  have k: "rbac_in_order rt plain_subject s" "rbac_fresh rt (core_tracked mc_view) (core_view mc_view) Q s" by simp_all
  from rbac.authorize_spec [OF memory_rbac [OF assms(1) c], unfolded v, OF k assms(3,7,8,9) run] run
  show ?thesis by simp
qed

text \<open>C29: Along any calls of the service, with any cache of decisions that keeps its contract, role
  identifiers and names stay unique and every assignment is of a role that exists.\<close>

theorem rbac_integrity:
  assumes "rbac_on_memory rt sv" "rbac_caching (rs_cache sv) cinv view sure" "inj_on (request_key rt) Q"
    and "rbac_in_order rt sure s0" "rbac_fresh rt cinv view Q s0" "rtranclp (rbac_step sv sure Q) s0 s"
  shows "uniq ro_id (roles_of rt s) \<and> uniq ro_name (roles_of rt s) \<and>
    (\<forall>a \<in># assignments_of rt s. \<exists>x \<in># roles_of rt s. ro_id x = ra_role_id a)"
  using rbac_run_keeps [OF assms(6,1-5)] by (simp add: rbac_in_order_def rbac_ok_def)

text \<open>C30: Creating, updating and deleting a role change the roles as specified and the assignments not at
  all; a call that fails changes neither, and a role that is assigned is not deleted.\<close>

theorem rbac_roles_refine:
  assumes "rbac_on_memory rt sv" "rbac_caching (rs_cache sv) cinv view sure"
    and "rbac_in_order rt sure s" "rbac_fresh rt cinv view {} s" "ctx_err cx = None"
    and "plain_string (ro_id x)" "plain_string (ro_name x)"
  shows "(case run_state (create_role sv cx (Some x)) s of (r, s') \<Rightarrow> assignments_of rt s' = assignments_of rt s \<and>
      (case r of
         Inl _ \<Rightarrow> roles_of rt s' = roles_of rt s
       | Inr y \<Rightarrow> roles_of rt s' = add_mset y (roles_of rt s) \<and> scope_valid (ro_scope x) \<and>
           (\<forall>z \<in># roles_of rt s. ro_name z \<noteq> ro_name x) \<and>
           (\<exists>i t. y = x\<lparr>ro_id := i, ro_created_at := t, ro_updated_at := t\<rparr>))) \<and>
    (case run_state (update_role sv cx (Some x)) s of (r, s') \<Rightarrow> assignments_of rt s' = assignments_of rt s \<and>
      (case r of
         Inl _ \<Rightarrow> roles_of rt s' = roles_of rt s
       | Inr y \<Rightarrow> \<exists>t. roles_of rt s' = upd_where (\<lambda>z. ro_id z = ro_id x) (role_updated x t) (roles_of rt s))) \<and>
    (case run_state (delete_role sv cx i) s of (r, s') \<Rightarrow> assignments_of rt s' = assignments_of rt s \<and>
      (case r of
         Inl _ \<Rightarrow> roles_of rt s' = roles_of rt s
       | Inr _ \<Rightarrow> roles_of rt s' = filter_mset (\<lambda>z. ro_id z \<noteq> i) (roles_of rt s) \<and>
           (\<forall>a \<in># assignments_of rt s. ra_role_id a \<noteq> i)))"
proof -
  note v = rbac_view [OF assms(1,2)] and m = memory_rbac [OF assms(1,2)]
  have rd: "rbac_ready sv" using assms(1) by (simp add: rbac_on_memory_def)
  obtain r1 s1 where c: "run_state (create_role sv cx (Some x)) s = (r1, s1)" by (rule prod.exhaust)
  obtain r2 s2 where u: "run_state (update_role sv cx (Some x)) s = (r2, s2)" by (rule prod.exhaust)
  obtain r3 s3 where d: "run_state (delete_role sv cx i) s = (r3, s3)" by (rule prod.exhaust)
  note cs = rbac.create_role_spec [OF m, unfolded v, OF assms(3,4) rd assms(6,7) c]
    and us = rbac.update_role_spec [OF m, unfolded v, OF assms(3,4) rd assms(5,7) u]
    and ds = rbac.delete_role_spec [OF m, unfolded v, OF assms(3,4,5) d]
  show ?thesis
    using cs us ds unfolding c u d by (cases r1; cases r2; cases r3) (simp; blast)+
qed

text \<open>C31: Assigning adds exactly the assignment, of a role that exists and has its scope; revoking removes
  exactly the assignment with the identifier; a call that fails changes nothing, and neither call changes
  a role.\<close>

theorem rbac_assignments_refine:
  assumes "rbac_on_memory rt sv" "rbac_caching (rs_cache sv) cinv view sure"
    and "rbac_in_order rt sure s" "rbac_fresh rt cinv view {} s" "ctx_err cx = None"
    and "plain_string (ra_id x)" "plain_string (ra_role_id x)" "plain_string (ra_subject x)"
    and "plain_string (ra_type x)" "sure (ra_subject x)"
  shows "(case run_state (assign_role sv cx (Some x)) s of (r, s') \<Rightarrow> roles_of rt s' = roles_of rt s \<and>
      (case r of
         Inl _ \<Rightarrow> assignments_of rt s' = assignments_of rt s
       | Inr y \<Rightarrow> assignments_of rt s' = add_mset y (assignments_of rt s) \<and>
           (\<exists>z \<in># roles_of rt s. ro_id z = ra_role_id x \<and> ro_scope z = ra_scope x) \<and>
           (\<exists>i t. y = x\<lparr>ra_id := i, ra_created_at := t\<rparr>))) \<and>
    (case run_state (revoke_role sv cx i) s of (r, s') \<Rightarrow> roles_of rt s' = roles_of rt s \<and>
      (case r of
         Inl _ \<Rightarrow> assignments_of rt s' = assignments_of rt s
       | Inr _ \<Rightarrow> assignments_of rt s' = filter_mset (\<lambda>a. ra_id a \<noteq> i) (assignments_of rt s) \<and>
           (\<exists>a \<in># assignments_of rt s. ra_id a = i)))"
proof -
  note v = rbac_view [OF assms(1,2)] and m = memory_rbac [OF assms(1,2)]
  have rd: "rbac_ready sv" using assms(1) by (simp add: rbac_on_memory_def)
  obtain r1 s1 where a: "run_state (assign_role sv cx (Some x)) s = (r1, s1)" by (rule prod.exhaust)
  obtain r2 s2 where d: "run_state (revoke_role sv cx i) s = (r2, s2)" by (rule prod.exhaust)
  note as = rbac.assign_role_spec [OF m, unfolded v, OF assms(3,4) rd assms(5-10) a]
    and ds = rbac.revoke_role_spec [OF m, unfolded v, OF assms(3,4,5) d]
  show ?thesis
    using as ds unfolding a d by (cases r1; cases r2) (simp; blast)+
qed

text \<open>C32: A permission pattern matches what it covers segment by segment: a lone star everything, a star at
  the end whatever goes on after the literal segments before it, a star in another place one segment.\<close>

theorem match_permission_reference: "match_permission pattern requested = permission_covers pattern requested"
  by (rule match_permission_covers)

section \<open>A database with a role and an assignment\<close>

definition sample_role :: rbac_role where
  "sample_role = \<lparr>ro_id = ''r'', ro_name = ''viewer'', ro_description = [], ro_scope = ScopeGlobal,
     ro_permissions = [''doc:*''], ro_created_at = 1, ro_updated_at = 1\<rparr>"

definition sample_assignment :: role_assignment where
  "sample_assignment = \<lparr>ra_id = ''a'', ra_role_id = ''r'', ra_subject = ''ann'', ra_type = ''user'',
     ra_scope = ScopeGlobal, ra_scope_id = [], ra_created_at = 1\<rparr>"

definition sample_role_row :: row where
  "sample_role_row = [''id'' \<mapsto> VStr ''r'', ''name'' \<mapsto> VStr ''viewer'', ''scope'' \<mapsto> VStr ScopeGlobal,
     ''permissions'' \<mapsto> VList [VStr ''doc:*''], ''created_at'' \<mapsto> VTime 1, ''updated_at'' \<mapsto> VTime 1]"

definition sample_assignment_row :: row where
  "sample_assignment_row = [''id'' \<mapsto> VStr ''a'', ''role_id'' \<mapsto> VStr ''r'', ''principal_subject'' \<mapsto> VStr ''ann'',
     ''principal_type'' \<mapsto> VStr ''user'', ''scope'' \<mapsto> VStr ScopeGlobal, ''created_at'' \<mapsto> VTime 1]"

definition rbac_tables :: "string \<rightharpoonup> table" where
  "rbac_tables = empty_tables(ModelRBACRoles \<mapsto> [(''r'', sample_role_row)],
     ModelRBACAssignments \<mapsto> [(''a'', sample_assignment_row)])"

definition rbac_schema :: schema where
  "rbac_schema = sample_schema @ [(ModelRBACRoles, rbac_role_model), (ModelRBACAssignments, rbac_assignment_model)]"

definition rbac_world :: "'k \<Rightarrow> (mem, mcache, 'k) pworld" where
  "rbac_world c = \<lparr>pw_world = start_world \<lparr>mem_schema = Some rbac_schema, mem_tables = rbac_tables\<rparr>,
     pw_cache = c, pw_ticks = 0\<rparr>"

definition memory_sample :: "(mem, mcache, rbac_cached items) rbac_service" where
  "memory_sample = memory_rbac_service timed_auth (Some (rbac_memory_cache (\<lambda>_. 0) minute)) default_rbac_config"

definition core_sample :: "(mem, mcache, key_index) rbac_service" where
  "core_sample = memory_rbac_service timed_auth (Some (rbac_core_cache (memory_cache (\<lambda>_. 0)) minute)) default_rbac_config"

definition ann :: principal where
  "ann = \<lparr>pr_subject = ''ann'', pr_type = ''user''\<rparr>"

definition a_document :: rbac_resource where
  "a_document = rbac_new_resource ''doc'' ''1''"

lemma rbac_sample_simps [simp]:
  "rs_auth memory_sample = timed_auth" "rs_adapter memory_sample = memory_adapter timed_runtime"
  "rs_cache memory_sample = Some (rbac_memory_cache (\<lambda>_. 0) minute)" "rs_clock memory_sample = passing (\<lambda>_. 0)"
  "rs_auth core_sample = timed_auth" "rs_adapter core_sample = memory_adapter timed_runtime"
  "rs_cache core_sample = Some (rbac_core_cache (memory_cache (\<lambda>_. 0)) minute)" "rs_clock core_sample = passing (\<lambda>_. 0)"
  by (simp_all add: memory_sample_def core_sample_def memory_rbac_service_def)

lemma rbac_sample_on: "rbac_on_memory timed_runtime memory_sample" "rbac_on_memory timed_runtime core_sample"
  using timed_auth_on time_text_timed
  by (simp_all add: rbac_on_memory_def rbac_ready_def json_time_ok_def duration_units)

lemma sample_role_reps:
  "role_rep timed_runtime plain_string sample_role sample_role_row"
  "assignment_rep timed_runtime plain_string sample_assignment sample_assignment_row"
  using time_text_timed
  by (simp_all add: role_rep_def assignment_rep_def sample_role_def sample_role_row_def sample_assignment_def
      sample_assignment_row_def rep_defs json_time_ok_def duration_units plain_no_colon scope_valid_def rbac_scopes)

lemma sample_roles_of:
  "role_of timed_runtime sample_role_row = sample_role"
  "assignment_of timed_runtime sample_assignment_row = sample_assignment"
  by (simp_all add: role_of_def assignment_of_def from_map_role [OF sample_role_reps(1) disjI1 [OF refl]]
      from_map_assignment [OF sample_role_reps(2) disjI1 [OF refl]])

lemma rbac_world_tables:
  "table_of (w_db (pw_world (rbac_world c))) ModelRBACRoles = [(''r'', sample_role_row)]"
  "table_of (w_db (pw_world (rbac_world c))) ModelRBACAssignments = [(''a'', sample_assignment_row)]"
  "mem_schema (w_db (pw_world (rbac_world c))) = Some rbac_schema"
  by (simp_all add: rbac_world_def start_world_def table_of_def rbac_tables_def ModelRBACRoles_def ModelRBACAssignments_def)

lemma rbac_world_rows [simp]:
  "roles_of timed_runtime (rbac_world c) = {#sample_role#}"
  "assignments_of timed_runtime (rbac_world c) = {#sample_assignment#}"
  by (simp_all add: roles_of_def assignments_of_def mem_tbl_def rbac_world_tables rows_of_def sample_roles_of)

lemma rbac_schema_models:
  "map_of rbac_schema ModelRBACRoles = Some rbac_role_model"
  "map_of rbac_schema ModelRBACAssignments = Some rbac_assignment_model"
  "m_primary_key rbac_role_model = ''id'' \<and> list_all (declares_unique rbac_role_model) role_unique"
  "m_primary_key rbac_assignment_model = ''id'' \<and> list_all (declares_unique rbac_assignment_model) assignment_unique"
  by code_simp+

lemma rbac_world_in_order: "sure ''ann'' \<Longrightarrow> rbac_in_order timed_runtime sure (rbac_world c)"
proof -
  assume "sure ''ann''"
  moreover have "keyed_by_id timed_runtime (''r'', sample_role_row)" "keyed_by_id timed_runtime (''a'', sample_assignment_row)"
    by (simp_all add: keyed_by_id_def sample_role_row_def sample_assignment_row_def)
  then have "models_inv timed_runtime rbac_models (w_db (pw_world (rbac_world c)))"
    using rbac_schema_models by (simp add: models_inv_def rbac_models_def model_inv_def rbac_world_tables)
  moreover have "rbac_ok {#sample_role#} {#sample_assignment#}"
    by (simp add: rbac_ok_def uniq_def sample_role_def sample_assignment_def)
  ultimately show ?thesis
    using sample_role_reps
    by (simp add: rbac_in_order_def mem_tbl_def rbac_world_tables rows_of_def sample_roles_of sample_assignment_def)
qed

lemma rbac_world_fresh:
  "rbac_fresh timed_runtime (\<lambda>_. True) rbac_memory_view Q (rbac_world Map.empty)"
  "rbac_fresh timed_runtime (core_tracked mc_view) (core_view mc_view) Q (rbac_world [])"
  by (simp_all add: rbac_fresh_def rbac_memory_view_def items_view_def rbac_world_def core_tracked_def core_view_def decoded_view_def
      start_world_def mcache_new_def mc_view_def)

lemma ann_reads: "access {#sample_role#} {#sample_assignment#} (ann, ''doc:read'', in_organization background a_document)"
proof -
  have "permission_covers ''doc:*'' ''doc:read''" unfolding match_permission_covers [symmetric] by code_simp
  then show ?thesis
    by (simp add: access_def holds_assignment_def role_grants_def ann_def sample_role_def sample_assignment_def scope_applies_def)
qed

section \<open>Witnesses\<close>

lemma ann_alone: "inj_on f {(ann, ''doc:read'', in_organization background a_document)}"
  by simp


theorem rbac_core_cache_authorize_witness:
  "fst (run_state (rbac_authorize core_sample background ann ''doc:read'' a_document) (rbac_world [])) = Inr ()"
  using rbac_core_cache_authorize [OF rbac_sample_on(2) rbac_sample_simps(7) ann_alone
      rbac_world_in_order rbac_world_fresh(2) rtranclp.rtrancl_refl,
      where p = ann and perm = "''doc:read''" and cx = background and res = a_document]
    ann_reads
  by (auto simp: ann_def plain_subject_def)

lemma memory_sample_caching: "rbac_caching (rs_cache memory_sample) (\<lambda>_. True) rbac_memory_view (\<lambda>_. True)"
  by (simp add: caching_memory)

lemma background_live: "ctx_err background = None"
  by (simp add: background_def)

theorem rbac_integrity_witness:
  "uniq ro_name (roles_of timed_runtime (snd (run_state (revoke_role memory_sample background ''a'') (rbac_world Map.empty))))"
proof -
  obtain r s where run: "run_state (revoke_role memory_sample background ''a'') (rbac_world Map.empty) = (r, s)"
    by (rule prod.exhaust)
  have "rtranclp (rbac_step memory_sample (\<lambda>_. True) {}) (rbac_world Map.empty) s"
    by (rule r_into_rtranclp) (rule step_revoke_role [OF background_live run])
  from rbac_integrity [OF rbac_sample_on(1) memory_sample_caching _ rbac_world_in_order rbac_world_fresh(1) this] run
  show ?thesis by simp
qed

theorem rbac_roles_refine_witness:
  "case run_state (delete_role memory_sample background ''r'') (rbac_world Map.empty) of (r, s') \<Rightarrow>
     isl r \<and> roles_of timed_runtime s' = {#sample_role#}"
  using rbac_roles_refine [OF rbac_sample_on(1) memory_sample_caching rbac_world_in_order rbac_world_fresh(1) background_live,
      where x = sample_role and i = "''r''"]
  by (auto simp: sample_role_def sample_assignment_def plain_no_colon split: prod.splits sum.splits)

theorem rbac_assignments_refine_witness:
  "case run_state (revoke_role memory_sample background ''b'') (rbac_world Map.empty) of (r, s') \<Rightarrow>
     isl r \<and> assignments_of timed_runtime s' = {#sample_assignment#}"
  using rbac_assignments_refine [OF rbac_sample_on(1) memory_sample_caching rbac_world_in_order rbac_world_fresh(1) background_live,
      where x = sample_assignment and i = "''b''"]
  by (auto simp: sample_assignment_def plain_no_colon split: prod.splits sum.splits)

section \<open>What the service does not do\<close>

text \<open>A star before a star at the end is taken literally.\<close>

lemma star_before_star: "\<not> match_permission ''org:*:*'' ''org:1:read'' \<and> match_permission ''org:*:read'' ''org:1:read''"
  by code_simp

text \<open>Different requests of a principal can have one key, when a value has a bar in it.\<close>

lemma key_with_bar: "rbac_build_key rt p ''a|b'' ''c'' i org sv = rbac_build_key rt p ''a'' ''b|c'' i org sv"
  by (simp add: rbac_build_key_def)

text \<open>An assignment without a scope identifier is not found when it is made again: there are two then.\<close>

definition again :: role_assignment where
  "again = sample_assignment\<lparr>ra_id := ''b''\<rparr>"

lemma sample_reads:
  "run_state (get_role memory_sample ''r'') (rbac_world c) = (Inr sample_role, rbac_world c)"
  "run_state (in_db (repo_find_one (assignments_repo memory_sample)
     [Eq ''role_id'' (VStr ''r''), Eq ''principal_subject'' (VStr ''ann''), Eq ''principal_type'' (VStr ''user''),
      Eq ''scope'' (VStr ScopeGlobal), Eq ''scope_id'' (VStr [])])) (rbac_world c) = (Inl AdapterNotFound, rbac_world c)"
proof -
  have t: "rbac_tables ModelRBACRoles = Some [(''r'', sample_role_row)]"
    "rbac_tables ModelRBACAssignments = Some [(''a'', sample_assignment_row)]"
    by (simp_all add: rbac_tables_def ModelRBACRoles_def ModelRBACAssignments_def)
  have m: "match_conditions timed_runtime [Eq ''id'' (VStr ''r'')] sample_role_row"
    by (simp add: match_eq_str match_nil sample_role_row_def plain_no_colon)
  have n: "\<not> match_conditions timed_runtime
     [Eq ''role_id'' (VStr ''r''), Eq ''principal_subject'' (VStr ''ann''), Eq ''principal_type'' (VStr ''user''),
      Eq ''scope'' (VStr ScopeGlobal), Eq ''scope_id'' (VStr [])] sample_assignment_row"
    by (simp add: match_conditions_def match_condition_def Eq_def row_get_def sample_assignment_row_def)
  show "run_state (get_role memory_sample ''r'') (rbac_world c) = (Inr sample_role, rbac_world c)"
    using find_only [of rbac_tables ModelRBACRoles, OF t(1), of "[Eq ''id'' (VStr ''r'')]" "Some rbac_schema"] m
      from_map_role [OF sample_role_reps(1) disjI1 [OF refl], of "roles_repo memory_sample"]
    by (simp add: get_role_def in_db_def in_world_def on_db_def repo_find_one_def rbac_world_def start_world_def memory_ops)
  show "run_state (in_db (repo_find_one (assignments_repo memory_sample)
     [Eq ''role_id'' (VStr ''r''), Eq ''principal_subject'' (VStr ''ann''), Eq ''principal_type'' (VStr ''user''),
      Eq ''scope'' (VStr ScopeGlobal), Eq ''scope_id'' (VStr [])])) (rbac_world c) = (Inl AdapterNotFound, rbac_world c)"
    using find_only [of rbac_tables ModelRBACAssignments, OF t(2), of _ "Some rbac_schema"] n
    by (simp add: in_db_def in_world_def on_db_def repo_find_one_def rbac_world_def start_world_def memory_ops)
qed

lemma sample_creates:
  "\<exists>s'. run_state (in_db (repo_create (assignments_repo memory_sample) (again\<lparr>ra_created_at := 1\<rparr>))) (rbac_world c\<lparr>pw_ticks := n\<rparr>) =
     (Inr (again\<lparr>ra_created_at := 1\<rparr>), s')"
proof -
  let ?x = "again\<lparr>ra_created_at := 1\<rparr>"
  have "assignment_okay plain_string ?x"
    by (simp add: assignment_okay_def again_def sample_assignment_def plain_no_colon json_time_ok_def duration_units)
  from to_map_assignment [OF this time_text_timed, of "assignments_repo memory_sample"]
  obtain d where d: "to_map (assignments_repo memory_sample) ?x = Inr d" "assignment_rep timed_runtime plain_string ?x d"
    by auto
  then have k: "d ''id'' = Some (VStr ''b'')" by (simp add: assignment_rep_def again_def)
  have u: "list_all (\<lambda>f. \<not> f_unique (snd f)) (m_fields rbac_assignment_model)"
    "list_all (\<lambda>i. \<not> idx_unique i) (m_indexes rbac_assignment_model)" by code_simp+
  have c: "\<not> list_ex (field_conflict rt t d) (m_fields rbac_assignment_model)"
    "\<not> list_ex (index_conflict rt t d) (m_indexes rbac_assignment_model)" for rt t
    using u by (auto simp: list_all_iff list_ex_iff field_conflict_def index_conflict_def)
  have "\<exists>a. run_state (mem_create timed_runtime ModelRBACAssignments d) (w_db (pw_world (rbac_world c))) = (Inr d, a)"
    using k c rbac_schema_models
    by (simp add: mem_create_def Let_def row_get_def mem_get_model_def get_model_def clone_model_def rbac_world_tables)
  then show ?thesis
    using d(1) from_map_assignment [OF d(2) disjI2 [OF refl], of "assignments_repo memory_sample"]
    by (auto simp: in_db_def in_world_def on_db_def repo_create_def memory_ops)
qed

lemma again_id: "again\<lparr>ra_id := ''b'', ra_created_at := t\<rparr> = again\<lparr>ra_created_at := t\<rparr>"
  by (simp add: again_def)

lemma assigned_again: "\<exists>y. fst (run_state (assign_role memory_sample background (Some again)) (rbac_world Map.empty)) = Inr y"
proof -
  let ?w = "rbac_world (Map.empty :: rbac_cached items)"
  obtain s where "run_state (in_db (repo_create (assignments_repo memory_sample) (again\<lparr>ra_created_at := 1\<rparr>)))
      (?w\<lparr>pw_ticks := Suc 0\<rparr>) = (Inr (again\<lparr>ra_created_at := 1\<rparr>), s)"
    using sample_creates [where c = "Map.empty :: rbac_cached items" and n = "Suc 0"] by auto
  moreover have "ra_role_id again = ''r''" "ra_subject again = ''ann''" "ra_type again = ''user''" "ra_id again = ''b''"
    "ra_scope again = ScopeGlobal" "ra_scope_id again = []" "ro_scope sample_role = ScopeGlobal"
    by (simp_all add: again_def sample_assignment_def sample_role_def)
  moreover have "pw_ticks ?w = 0" by (simp add: rbac_world_def)
  ultimately show ?thesis
    using sample_reads [of "Map.empty :: rbac_cached items"]
    by (simp add: assign_role_def scope_valid_def rbac_now_def tick_def again_id split: prod.splits)
qed

text \<open>With the cache of decisions on the core cache, invalidating a subject with a colon deletes nothing.\<close>

lemma core_cache_misses:
  assumes "pw_cache s = []" "k = cache_key [''rbac'', ''eval'', ''a:b'', ''00'']"
    and "run_state (dc_set (rbac_core_cache ch ttl) cx k d e) s = (u, s1)"
  shows "run_state (dc_invalidate_principal (rbac_core_cache ch ttl) cx ''a:b'') s1 = (Inr (), s1)"
proof -
  have "rbac_track (split_on (CHR '':'') k) k [] = [(''a'', [k])]" unfolding assms(2) by code_simp
  then have "pw_cache s1 = [] \<or> pw_cache s1 = [(''a'', [k])]"
    using assms(1,3) by (auto simp: rbac_core_cache_def core_decision_set_def run_in_cache on_own_def
        split: prod.splits sum.splits)
  then show ?thesis by (auto simp: rbac_core_cache_def rbac_core_invalidate_principal_def on_own_def)
qed

text \<open>An update can widen the scope of a role; the assignments keep the scope they were made in.\<close>

lemma update_leaves_assignments:
  assumes "rbac_in_order timed_runtime (\<lambda>_. True) s" "rbac_fresh timed_runtime (\<lambda>_. True) rbac_memory_view {} s"
    and "plain_string (ro_name x)" "run_state (update_role memory_sample background (Some x)) s = (r, s')"
  shows "assignments_of timed_runtime s' = assignments_of timed_runtime s"
  using rbac.update_role_spec [OF memory_rbac [OF rbac_sample_on(1) memory_sample_caching],
      unfolded rbac_view [OF rbac_sample_on(1) memory_sample_caching], OF assms(1,2) _ background_live assms(3,4)]
    rbac_sample_on(1)
  by (simp add: rbac_on_memory_def)

end
