(* ===== verification/Policy.thy ===== *)
theory Policy
  imports Decision_Cache Sdk_Db
begin

text \<open>
  Composable policies (\<open>plugins/policy\<close>): requests and decisions (\<open>domain.go\<close>), evaluators and their
  combinators (\<open>evaluator.go\<close>), the keys and the caches of decisions (\<open>cache/cache.go\<close>).

  An evaluator is any code that implements the interface: here a function on the world of the service,
  which can read and change it. \<open>wall\<close> is \<open>time.Now\<close>. The values of \<open>any\<close> in attributes are the
  values a row can hold, those in the details of a challenge are JSON.
\<close>

section \<open>Errors\<close>

definition policy_err :: "string \<Rightarrow> err" where
  "policy_err e = PluginErr ''policy'' e"

definition PolicyForbidden :: err where "PolicyForbidden = policy_err ''access denied by policy''"
definition ErrChallengeRequired :: err where
  "ErrChallengeRequired = policy_err ''authentication challenge required by policy''"
definition PolicyPrincipalRequired :: err where
  "PolicyPrincipalRequired = policy_err ''authenticated principal is required''"
definition ErrPolicyNotFound :: err where "ErrPolicyNotFound = policy_err ''policy not found''"
definition ErrPolicyAlreadyExists :: err where "ErrPolicyAlreadyExists = policy_err ''policy already registered''"
definition ErrInvalidRequest :: err where "ErrInvalidRequest = policy_err ''invalid authorization request''"
definition ErrNoApplicablePolicy :: err where
  "ErrNoApplicablePolicy = policy_err ''no applicable policy found for request''"

lemmas policy_errors = policy_err_def PolicyForbidden_def ErrChallengeRequired_def PolicyPrincipalRequired_def
  ErrPolicyNotFound_def ErrPolicyAlreadyExists_def ErrInvalidRequest_def ErrNoApplicablePolicy_def

section \<open>Decisions\<close>

definition EffectAllow :: string where "EffectAllow = ''allow''"
definition EffectDeny :: string where "EffectDeny = ''deny''"
definition EffectChallenge :: string where "EffectChallenge = ''challenge''"

lemmas effects = EffectAllow_def EffectDeny_def EffectChallenge_def

record challenge_info =
  ch_type :: string
  ch_message :: string
  ch_details :: "(string \<times> json) list option"

record policy_decision =
  pd_effect :: string
  pd_reason :: string
  pd_challenge :: "challenge_info option"
  pd_policy_id :: string
  pd_evaluated_at :: time

definition is_allowed :: "policy_decision \<Rightarrow> bool" where
  "is_allowed d \<longleftrightarrow> pd_effect d = EffectAllow"

definition is_denied :: "policy_decision \<Rightarrow> bool" where
  "is_denied d \<longleftrightarrow> pd_effect d = EffectDeny"

definition is_challenge :: "policy_decision \<Rightarrow> bool" where
  "is_challenge d \<longleftrightarrow> pd_effect d = EffectChallenge"

definition allow_decision :: "(nat \<Rightarrow> time) \<Rightarrow> string \<Rightarrow> string \<Rightarrow> ('s, 'c, 'k, policy_decision) pact" where
  "allow_decision wall i reason = do {
     t \<leftarrow> tick wall;
     State_Monad.return \<lparr>pd_effect = EffectAllow, pd_reason = reason, pd_challenge = None, pd_policy_id = i,
       pd_evaluated_at = t\<rparr>
   }"

definition deny_decision :: "(nat \<Rightarrow> time) \<Rightarrow> string \<Rightarrow> string \<Rightarrow> ('s, 'c, 'k, policy_decision) pact" where
  "deny_decision wall i reason = do {
     t \<leftarrow> tick wall;
     State_Monad.return \<lparr>pd_effect = EffectDeny, pd_reason = reason, pd_challenge = None, pd_policy_id = i,
       pd_evaluated_at = t\<rparr>
   }"

definition challenge_decision ::
  "(nat \<Rightarrow> time) \<Rightarrow> string \<Rightarrow> challenge_info \<Rightarrow> ('s, 'c, 'k, policy_decision) pact" where
  "challenge_decision wall i ch = do {
     t \<leftarrow> tick wall;
     State_Monad.return \<lparr>pd_effect = EffectChallenge, pd_reason = ch_message ch, pd_challenge = Some ch,
       pd_policy_id = i, pd_evaluated_at = t\<rparr>
   }"

text \<open>The same as the last thing an evaluator does.\<close>

definition allow_ok :: "(nat \<Rightarrow> time) \<Rightarrow> string \<Rightarrow> string \<Rightarrow> ('s, 'c, 'k, err + policy_decision) pact" where
  "allow_ok wall i reason = do { d \<leftarrow> allow_decision wall i reason; ok d }"

definition deny_ok :: "(nat \<Rightarrow> time) \<Rightarrow> string \<Rightarrow> string \<Rightarrow> ('s, 'c, 'k, err + policy_decision) pact" where
  "deny_ok wall i reason = do { d \<leftarrow> deny_decision wall i reason; ok d }"

section \<open>Requests\<close>

text \<open>A nil map of attributes reads like one without entries. \<open>int\<close> of a float cuts the fraction off.\<close>

type_synonym attributes = "string \<rightharpoonup> gval"

definition attr_get :: "attributes \<Rightarrow> string \<Rightarrow> gval" where
  "attr_get a k = (case a k of None \<Rightarrow> VNil | Some v \<Rightarrow> v)"

definition attr_string :: "attributes \<Rightarrow> string \<Rightarrow> string" where
  "attr_string a k = (case attr_get a k of VStr s \<Rightarrow> s | _ \<Rightarrow> [])"

definition attr_bool :: "attributes \<Rightarrow> string \<Rightarrow> bool" where
  "attr_bool a k = (case attr_get a k of VBool b \<Rightarrow> b | _ \<Rightarrow> False)"

definition attr_int :: "attributes \<Rightarrow> string \<Rightarrow> int" where
  "attr_int a k = (case attr_get a k of VInt n \<Rightarrow> n | VFloat p q \<Rightarrow> sgn p * (\<bar>p\<bar> div q) | _ \<Rightarrow> 0)"

record policy_resource =
  ps_type :: string
  ps_id :: string
  ps_organization :: string
  ps_owner :: string
  ps_attributes :: attributes

definition policy_new_resource :: "string \<Rightarrow> string \<Rightarrow> policy_resource" where
  "policy_new_resource ty i =
     \<lparr>ps_type = ty, ps_id = i, ps_organization = [], ps_owner = [], ps_attributes = Map.empty\<rparr>"

definition with_org :: "policy_resource \<Rightarrow> string \<Rightarrow> policy_resource" where
  "with_org r org = r\<lparr>ps_organization := org\<rparr>"

definition with_owner :: "policy_resource \<Rightarrow> string \<Rightarrow> policy_resource" where
  "with_owner r owner = r\<lparr>ps_owner := owner\<rparr>"

definition with_attribute :: "policy_resource \<Rightarrow> string \<Rightarrow> gval \<Rightarrow> policy_resource" where
  "with_attribute r k v = r\<lparr>ps_attributes := (ps_attributes r)(k \<mapsto> v)\<rparr>"

record policy_request =
  pq_principal :: principal
  pq_user :: "user option"
  pq_organization :: string
  pq_resource :: policy_resource
  pq_action :: string
  pq_attributes :: attributes

section \<open>Evaluators\<close>

record ('s, 'c, 'k) evaluator =
  pe_id :: string
  pe_description :: string
  pe_evaluate :: "ctx \<Rightarrow> policy_request \<Rightarrow> ('s, 'c, 'k, err + policy_decision) pact"

definition new_rule ::
  "string \<Rightarrow> string \<Rightarrow> (ctx \<Rightarrow> policy_request \<Rightarrow> ('s, 'c, 'k, err + policy_decision) pact) \<Rightarrow> ('s, 'c, 'k) evaluator" where
  "new_rule i desc f = \<lparr>pe_id = i, pe_description = desc, pe_evaluate = f\<rparr>"

text \<open>The first challenge is kept. An error of an evaluator is returned with the policy named in front.\<close>

definition keep_challenge :: "policy_decision option \<Rightarrow> policy_decision \<Rightarrow> policy_decision option" where
  "keep_challenge pending d = (if is_challenge d \<and> pending = None then Some d else pending)"

definition denied_by :: "string \<Rightarrow> ('s, 'c, 'k) evaluator \<Rightarrow> policy_decision \<Rightarrow> string" where
  "denied_by what e d = ''denied by '' @ what @ '' '' @ go_quote (pe_id e) @ '': '' @ pd_reason d"

fun all_of_loop ::
  "(nat \<Rightarrow> time) \<Rightarrow> string \<Rightarrow> ctx \<Rightarrow> policy_request \<Rightarrow> policy_decision option \<Rightarrow> ('s, 'c, 'k) evaluator list \<Rightarrow>
   ('s, 'c, 'k, err + policy_decision) pact" where
  "all_of_loop wall i cx q pending [] =
     (case pending of Some d \<Rightarrow> ok d | None \<Rightarrow> allow_ok wall i ''all sub-policies allowed'')"
| "all_of_loop wall i cx q pending (e # es) =
     bindE (pe_evaluate e cx q) (\<lambda>d.
       if is_denied d then deny_ok wall i (denied_by ''sub-policy'' e d)
       else all_of_loop wall i cx q (keep_challenge pending d) es)"

definition all_of :: "(nat \<Rightarrow> time) \<Rightarrow> string \<Rightarrow> string \<Rightarrow> ('s, 'c, 'k) evaluator list \<Rightarrow> ('s, 'c, 'k) evaluator" where
  "all_of wall i desc es = new_rule i desc (\<lambda>cx q.
     if es = [] then deny_ok wall i ''empty AllOf policy denies by default''
     else all_of_loop wall i cx q None es)"

fun any_of_loop ::
  "(nat \<Rightarrow> time) \<Rightarrow> string \<Rightarrow> ctx \<Rightarrow> policy_request \<Rightarrow> policy_decision option \<Rightarrow> ('s, 'c, 'k) evaluator list \<Rightarrow>
   ('s, 'c, 'k, err + policy_decision) pact" where
  "any_of_loop wall i cx q pending [] =
     (case pending of Some d \<Rightarrow> ok d | None \<Rightarrow> deny_ok wall i ''no sub-policy in AnyOf allowed access'')"
| "any_of_loop wall i cx q pending (e # es) =
     bindE (pe_evaluate e cx q) (\<lambda>d.
       if is_allowed d then allow_ok wall i (''allowed by sub-policy '' @ go_quote (pe_id e))
       else any_of_loop wall i cx q (keep_challenge pending d) es)"

definition any_of :: "(nat \<Rightarrow> time) \<Rightarrow> string \<Rightarrow> string \<Rightarrow> ('s, 'c, 'k) evaluator list \<Rightarrow> ('s, 'c, 'k) evaluator" where
  "any_of wall i desc es = new_rule i desc (\<lambda>cx q.
     if es = [] then deny_ok wall i ''empty AnyOf policy denies by default''
     else any_of_loop wall i cx q None es)"

fun deny_overrides_loop ::
  "(nat \<Rightarrow> time) \<Rightarrow> string \<Rightarrow> ctx \<Rightarrow> policy_request \<Rightarrow> bool \<Rightarrow> policy_decision option \<Rightarrow> ('s, 'c, 'k) evaluator list \<Rightarrow>
   ('s, 'c, 'k, err + policy_decision) pact" where
  "deny_overrides_loop wall i cx q allowed pending [] =
     (case pending of
        Some d \<Rightarrow> ok d
      | None \<Rightarrow> if allowed then allow_ok wall i ''allowed under deny-overrides''
          else deny_ok wall i ''no policy explicitly allowed access'')"
| "deny_overrides_loop wall i cx q allowed pending (e # es) =
     bindE (pe_evaluate e cx q) (\<lambda>d.
       if is_denied d then deny_ok wall i (denied_by ''sub-policy'' e d)
       else deny_overrides_loop wall i cx q (allowed \<or> is_allowed d) (keep_challenge pending d) es)"

definition deny_overrides ::
  "(nat \<Rightarrow> time) \<Rightarrow> string \<Rightarrow> string \<Rightarrow> ('s, 'c, 'k) evaluator list \<Rightarrow> ('s, 'c, 'k) evaluator" where
  "deny_overrides wall i desc es = new_rule i desc (\<lambda>cx q.
     if es = [] then deny_ok wall i ''empty policy set denies by default''
     else deny_overrides_loop wall i cx q False None es)"

definition not_policy :: "(nat \<Rightarrow> time) \<Rightarrow> string \<Rightarrow> string \<Rightarrow> ('s, 'c, 'k) evaluator \<Rightarrow> ('s, 'c, 'k) evaluator" where
  "not_policy wall i desc e = new_rule i desc (\<lambda>cx q.
     bindE (pe_evaluate e cx q) (\<lambda>d.
       if is_challenge d then ok d
       else if is_allowed d then deny_ok wall i (''inverted from allow in '' @ go_quote (pe_id e))
       else allow_ok wall i (''inverted from deny in '' @ go_quote (pe_id e))))"

definition require_authenticated :: "(nat \<Rightarrow> time) \<Rightarrow> ('s, 'c, 'k) evaluator" where
  "require_authenticated wall = new_rule ''core:require_authenticated'' ''Requires authenticated principal'' (\<lambda>cx q.
     if pr_subject (pq_principal q) = []
     then deny_ok wall ''core:require_authenticated'' ''anonymous or unauthenticated principal not permitted''
     else allow_ok wall ''core:require_authenticated'' ''principal authenticated'')"

definition require_resource_owner :: "(nat \<Rightarrow> time) \<Rightarrow> ('s, 'c, 'k) evaluator" where
  "require_resource_owner wall = new_rule ''core:require_owner'' ''Requires principal to be resource owner'' (\<lambda>cx q.
     if pr_subject (pq_principal q) = [] then deny_ok wall ''core:require_owner'' ''unauthenticated principal''
     else if ps_owner (pq_resource q) = [] then deny_ok wall ''core:require_owner'' ''resource has no owner specified''
     else if pr_subject (pq_principal q) \<noteq> ps_owner (pq_resource q)
     then deny_ok wall ''core:require_owner'' ''principal is not resource owner''
     else allow_ok wall ''core:require_owner'' ''principal is resource owner'')"

definition require_organization_boundary :: "(nat \<Rightarrow> time) \<Rightarrow> ('s, 'c, 'k) evaluator" where
  "require_organization_boundary wall =
     new_rule ''core:require_org_boundary'' ''Enforces organization tenant boundary'' (\<lambda>cx q.
     if ps_organization (pq_resource q) = []
     then allow_ok wall ''core:require_org_boundary'' ''resource not scoped to organization''
     else if pq_organization q = []
     then deny_ok wall ''core:require_org_boundary'' ''request has no active organization context''
     else if pq_organization q \<noteq> ps_organization (pq_resource q)
     then deny_ok wall ''core:require_org_boundary'' ''cross-organization access prohibited''
     else allow_ok wall ''core:require_org_boundary'' ''organization boundary matches'')"

section \<open>Records of policies\<close>

record policy_record =
  pr_id :: string
  pr_description :: string
  pr_combinator :: string
  pr_created_at :: time
  pr_updated_at :: time

definition ModelPolicies :: string where "ModelPolicies = ''policies''"

definition policy_model :: model where
  "policy_model =
     fold add_field'
       [mk_field ''id'' TypeString True,
        mk_field ''description'' TypeString False,
        mk_field ''combinator'' TypeString True,
        mk_field ''created_at'' TypeTime True,
        mk_field ''updated_at'' TypeTime True]
       (new_model ModelPolicies ModelPolicies ''id'')"

definition policy_register_schema :: "schema \<Rightarrow> err + schema" where
  "policy_register_schema s = add_model s (Some policy_model)"

definition policy_record_encode :: "policy_record \<Rightarrow> err + (string \<times> json) list" where
  "policy_record_encode r =
     (if json_time_ok (pr_created_at r) \<and> json_time_ok (pr_updated_at r)
      then Inr
        ([(''id'', JStr (pr_id r))] @
         omit_empty (pr_description r = []) ''description'' (JStr (pr_description r)) @
         omit_empty (pr_combinator r = []) ''combinator'' (JStr (pr_combinator r)) @
         [(''created_at'', JTime (pr_created_at r)), (''updated_at'', JTime (pr_updated_at r))])
      else Inl json_error)"

definition policy_record_decode :: "runtime \<Rightarrow> (string \<times> json) list \<Rightarrow> policy_record \<Rightarrow> err + policy_record" where
  "policy_record_decode rt o' r =
     and_then (str_into rt o' ''id'' (pr_id r)) (\<lambda>i.
     and_then (str_into rt o' ''description'' (pr_description r)) (\<lambda>d.
     and_then (str_into rt o' ''combinator'' (pr_combinator r)) (\<lambda>c.
     and_then (time_into rt o' ''created_at'' (pr_created_at r)) (\<lambda>cr.
     and_then (time_into rt o' ''updated_at'' (pr_updated_at r)) (\<lambda>up.
       Inr \<lparr>pr_id = i, pr_description = d, pr_combinator = c, pr_created_at = cr, pr_updated_at = up\<rparr>)))))"

definition no_policy_record :: policy_record where
  "no_policy_record = \<lparr>pr_id = [], pr_description = [], pr_combinator = [], pr_created_at = 0, pr_updated_at = 0\<rparr>"

definition policy_record_codec :: "runtime \<Rightarrow> policy_record codec" where
  "policy_record_codec rt =
     \<lparr>cd_fields = [''id'', ''description'', ''combinator'', ''created_at'', ''updated_at''],
      cd_zero = no_policy_record, cd_encode = policy_record_encode, cd_decode = policy_record_decode rt\<rparr>"

section \<open>Cached decisions\<close>

text \<open>The challenge is a map of \<open>any\<close>: \<open>None\<close> is the nil map.\<close>

record policy_cached =
  pk_effect :: string
  pk_reason :: string
  pk_challenge :: "(string \<times> json) list option"
  pk_policy_id :: string
  pk_cached_at :: time

definition policy_build_key ::
  "runtime \<Rightarrow> string \<Rightarrow> string \<Rightarrow> string \<Rightarrow> string \<Rightarrow> string \<Rightarrow> string \<Rightarrow> string" where
  "policy_build_key rt subject ty org res_ty res_id action =
     cache_key [''policy'', ''eval'', subject, res_ty, res_id, hex_encode (take 16 (sha256 rt
       (join_with (CHR ''|'') [subject, ty, org, res_ty, res_id, action])))]"

definition policy_cached_json :: "policy_cached \<Rightarrow> err + json" where
  "policy_cached_json d =
     json_times [pk_cached_at d]
       (JObj ([(''effect'', JStr (pk_effect d))] @
              omit_empty (pk_reason d = []) ''reason'' (JStr (pk_reason d)) @
              (case pk_challenge d of None \<Rightarrow> [] | Some m \<Rightarrow> omit_empty (m = []) ''challenge'' (JObj m)) @
              omit_empty (pk_policy_id d = []) ''policy_id'' (JStr (pk_policy_id d)) @
              [(''cached_at'', JTime (pk_cached_at d))]))"

definition object_member ::
  "(string \<times> json) list \<Rightarrow> string \<Rightarrow> ((string \<times> json) list option \<Rightarrow> err + 'a) \<Rightarrow> err + 'a" where
  "object_member o' k f =
     (case map_of o' k of
        None \<Rightarrow> f None
      | Some JNull \<Rightarrow> f None
      | Some (JObj m) \<Rightarrow> f (Some m)
      | Some _ \<Rightarrow> Inl json_error)"

definition json_policy_cached :: "json \<Rightarrow> err + policy_cached" where
  "json_policy_cached j = (case members j of Inl e \<Rightarrow> Inl e | Inr o' \<Rightarrow>
     str_member o' ''effect'' (\<lambda>ef.
     str_member o' ''reason'' (\<lambda>rs.
     object_member o' ''challenge'' (\<lambda>ch.
     str_member o' ''policy_id'' (\<lambda>pid.
     time_member o' ''cached_at'' (\<lambda>ca.
       Inr \<lparr>pk_effect = ef, pk_reason = rs, pk_challenge = ch, pk_policy_id = pid, pk_cached_at = ca\<rparr>))))))"

type_synonym ('s, 'c, 'k) policy_decisions = "(('s, 'c, 'k) pworld, policy_cached) policy_cache"

definition policy_memory_cache :: "(nat \<Rightarrow> time) \<Rightarrow> duration \<Rightarrow> ('s, 'c, policy_cached items) policy_decisions" where
  "policy_memory_cache wall ttl =
     \<lparr>dc_get = (\<lambda>cx. memory_decision_get wall),
      dc_set = (\<lambda>cx. memory_decision_set wall (positive_ttl DefaultDecisionTTL ttl)),
      dc_invalidate_principal = (\<lambda>cx p. memory_decision_drop (\<lambda>k. has_prefix k (cache_key [''policy'', ''eval'', p]))),
      dc_invalidate_all = (\<lambda>cx. memory_decision_drop (\<lambda>k. True)),
      pc_invalidate_resource = (\<lambda>cx ty i. memory_decision_drop (\<lambda>k. str_contains k ('':'' @ ty @ '':'' @ i @ '':'')))\<rparr>"

text \<open>The keys of the principals and those of the resources.\<close>

type_synonym policy_index = "key_index \<times> key_index"

definition policy_track :: "string list \<Rightarrow> string \<Rightarrow> policy_index \<Rightarrow> policy_index" where
  "policy_track parts k ix =
     (if length parts \<ge> 6
      then (index_add (parts ! 3) k (fst ix), index_add (parts ! 4 @ '':'' @ parts ! 5) k (snd ix))
      else ix)"

definition policy_core_invalidate_principal ::
  "'c cache \<Rightarrow> ctx \<Rightarrow> string \<Rightarrow> ('s, 'c, policy_index, err + unit) pact" where
  "policy_core_invalidate_principal ch cx p = do {
     ks \<leftarrow> on_own (State (\<lambda>ix. (map_of (fst ix) p, ix)));
     case ks of
       None \<Rightarrow> ok ()
     | Some ks \<Rightarrow> do {
         _ \<leftarrow> core_delete_keys ch cx ks;
         _ \<leftarrow> on_own (State (\<lambda>ix. ((), (AList.delete p (fst ix), snd ix))));
         ok ()
       }
   }"

definition policy_core_invalidate_resource ::
  "'c cache \<Rightarrow> ctx \<Rightarrow> string \<Rightarrow> string \<Rightarrow> ('s, 'c, policy_index, err + unit) pact" where
  "policy_core_invalidate_resource ch cx ty i = do {
     ks \<leftarrow> on_own (State (\<lambda>ix. (map_of (snd ix) (ty @ '':'' @ i), ix)));
     case ks of
       None \<Rightarrow> ok ()
     | Some ks \<Rightarrow> do {
         _ \<leftarrow> core_delete_keys ch cx ks;
         _ \<leftarrow> on_own (State (\<lambda>ix. ((), (fst ix, AList.delete (ty @ '':'' @ i) (snd ix)))));
         ok ()
       }
   }"

definition policy_core_invalidate_all :: "'c cache \<Rightarrow> ctx \<Rightarrow> ('s, 'c, policy_index, err + unit) pact" where
  "policy_core_invalidate_all ch cx = do {
     ix \<leftarrow> on_own (State (\<lambda>ix. (ix, ix)));
     _ \<leftarrow> core_delete_keys ch cx (concat (map snd (fst ix)));
     _ \<leftarrow> on_own (State (\<lambda>_. ((), ([], []))));
     ok ()
   }"

definition policy_core_cache :: "'c cache \<Rightarrow> duration \<Rightarrow> ('s, 'c, policy_index) policy_decisions" where
  "policy_core_cache ch ttl =
     \<lparr>dc_get = core_decision_get ch json_policy_cached,
      dc_set = core_decision_set ch policy_cached_json policy_track (positive_ttl DefaultDecisionTTL ttl),
      dc_invalidate_principal = policy_core_invalidate_principal ch,
      dc_invalidate_all = policy_core_invalidate_all ch,
      pc_invalidate_resource = policy_core_invalidate_resource ch\<rparr>"

end
