(* ===== verification/Policy_Service.thy ===== *)
theory Policy_Service
  imports Policy
begin

text \<open>The service of composable policies (\<open>plugins/policy/service.go\<close>, \<open>config.go\<close>, \<open>events.go\<close>).\<close>

section \<open>The service\<close>

definition CombinatorDenyOverrides :: string where "CombinatorDenyOverrides = ''deny_overrides''"
definition CombinatorAllOf :: string where "CombinatorAllOf = ''all_of''"
definition CombinatorAnyOf :: string where "CombinatorAnyOf = ''any_of''"

record policy_config =
  pcf_cache_ttl :: duration
  pcf_combinator :: string

definition default_policy_config :: policy_config where
  "default_policy_config = \<lparr>pcf_cache_ttl = 5 * minute, pcf_combinator = CombinatorDenyOverrides\<rparr>"

text \<open>
  What the service is built from: the engine, the adapter when there is one, the cache of decisions when
  there is one, the configuration with its clock, and \<open>time.Now\<close>.
\<close>

record ('s, 'c, 'k) policy_service =
  ls_auth :: "('s, 'c) auth"
  ls_adapter :: "'s adapter option"
  ls_cache :: "('s, 'c, 'k) policy_decisions option"
  ls_cfg :: policy_config
  ls_clock :: "nat \<Rightarrow> time"
  ls_wall :: "nat \<Rightarrow> time"

text \<open>The world the evaluators see, and beside it the registered policies. The mutex makes each change one step.\<close>

record ('s, 'c, 'k) policy_state =
  po_world :: "('s, 'c, 'k) pworld"
  po_policies :: "string \<rightharpoonup> ('s, 'c, 'k) evaluator"
  po_order :: "string list"

type_synonym ('s, 'c, 'k, 'a) polact = "(('s, 'c, 'k) policy_state, 'a) state"

definition in_pol :: "('s, 'c, 'k, 'a) pact \<Rightarrow> ('s, 'c, 'k, 'a) polact" where
  "in_pol m = zoom po_world (\<lambda>w s. s\<lparr>po_world := w\<rparr>) m"

definition policy_repo :: "('s, 'c, 'k) policy_service \<Rightarrow> ('s, policy_record) repo" where
  "policy_repo sv = \<lparr>rp_adapter = ls_adapter sv, rp_model = ModelPolicies,
     rp_codec = policy_record_codec (au_rt (ls_auth sv)), rp_rt = au_rt (ls_auth sv)\<rparr>"

definition EventPolicyEvaluated :: string where "EventPolicyEvaluated = ''policy.evaluated''"
definition EventPolicyRegistered :: string where "EventPolicyRegistered = ''policy.registered''"
definition EventPolicyRemoved :: string where "EventPolicyRemoved = ''policy.removed''"

definition policy_publish ::
  "('s, 'c, 'k) policy_service \<Rightarrow> ctx \<Rightarrow> string \<Rightarrow> time \<Rightarrow> string \<Rightarrow> payload \<Rightarrow> ('s, 'c, 'k, unit) pact" where
  "policy_publish sv cx name t subject payload =
     in_world (events_publish (au_events (ls_auth sv)) cx
       \<lparr>ev_name = name, ev_time = t, ev_subject = subject, ev_payload = payload\<rparr>)"

section \<open>The combination at the root\<close>

fun eval_deny_overrides ::
  "(nat \<Rightarrow> time) \<Rightarrow> ctx \<Rightarrow> policy_request \<Rightarrow> string option \<Rightarrow> policy_decision option \<Rightarrow> ('s, 'c, 'k) evaluator list \<Rightarrow>
   ('s, 'c, 'k, err + policy_decision) pact" where
  "eval_deny_overrides wall cx q allowed pending [] =
     (case pending of
        Some d \<Rightarrow> ok d
      | None \<Rightarrow>
         (case allowed of
            Some i \<Rightarrow> allow_ok wall i ''access granted under deny-overrides''
          | None \<Rightarrow> deny_ok wall ''core:default'' ''no policy granted access under deny-overrides''))"
| "eval_deny_overrides wall cx q allowed pending (e # es) =
     bindE (pe_evaluate e cx q) (\<lambda>d.
       if is_denied d then deny_ok wall (pe_id e) (denied_by ''policy'' e d)
       else eval_deny_overrides wall cx q (if is_allowed d then Some (pe_id e) else allowed) (keep_challenge pending d) es)"

fun eval_all_of ::
  "(nat \<Rightarrow> time) \<Rightarrow> ctx \<Rightarrow> policy_request \<Rightarrow> policy_decision option \<Rightarrow> ('s, 'c, 'k) evaluator list \<Rightarrow>
   ('s, 'c, 'k, err + policy_decision) pact" where
  "eval_all_of wall cx q pending [] =
     (case pending of Some d \<Rightarrow> ok d | None \<Rightarrow> allow_ok wall ''composite:all_of'' ''all policies satisfied'')"
| "eval_all_of wall cx q pending (e # es) =
     bindE (pe_evaluate e cx q) (\<lambda>d.
       if is_denied d then deny_ok wall (pe_id e) (denied_by ''policy'' e d)
       else eval_all_of wall cx q (keep_challenge pending d) es)"

fun eval_any_of ::
  "(nat \<Rightarrow> time) \<Rightarrow> ctx \<Rightarrow> policy_request \<Rightarrow> policy_decision option \<Rightarrow> ('s, 'c, 'k) evaluator list \<Rightarrow>
   ('s, 'c, 'k, err + policy_decision) pact" where
  "eval_any_of wall cx q pending [] =
     (case pending of
        Some d \<Rightarrow> ok d
      | None \<Rightarrow> deny_ok wall ''composite:any_of'' ''no policy in AnyOf granted access'')"
| "eval_any_of wall cx q pending (e # es) =
     bindE (pe_evaluate e cx q) (\<lambda>d.
       if is_allowed d then allow_ok wall (pe_id e) (''granted by policy '' @ go_quote (pe_id e))
       else eval_any_of wall cx q (keep_challenge pending d) es)"

definition eval_root ::
  "('s, 'c, 'k) policy_service \<Rightarrow> ctx \<Rightarrow> policy_request \<Rightarrow> ('s, 'c, 'k) evaluator list \<Rightarrow>
   ('s, 'c, 'k, err + policy_decision) pact" where
  "eval_root sv cx q es =
     (if es = [] then deny_ok (ls_wall sv) ''core:default'' ''no active policies registered; deny by default''
      else if pcf_combinator (ls_cfg sv) = CombinatorAllOf then eval_all_of (ls_wall sv) cx q None es
      else if pcf_combinator (ls_cfg sv) = CombinatorAnyOf then eval_any_of (ls_wall sv) cx q None es
      else eval_deny_overrides (ls_wall sv) cx q None None es)"

section \<open>Evaluation\<close>

definition policy_key :: "('s, 'c, 'k) policy_service \<Rightarrow> policy_request \<Rightarrow> string" where
  "policy_key sv q =
     policy_build_key (au_rt (ls_auth sv)) (pr_subject (pq_principal q)) (pr_type (pq_principal q)) (pq_organization q)
       (ps_type (pq_resource q)) (ps_id (pq_resource q)) (pq_action q)"

text \<open>The map a challenge is cached as, with its keys in the order JSON writes them, and the challenge read back.\<close>

definition challenge_map :: "challenge_info \<Rightarrow> (string \<times> json) list" where
  "challenge_map ch =
     [(''details'', case ch_details ch of None \<Rightarrow> JNull | Some m \<Rightarrow> JObj m),
      (''message'', JStr (ch_message ch)), (''type'', JStr (ch_type ch))]"

definition any_text :: "runtime \<Rightarrow> json option \<Rightarrow> string" where
  "any_text rt v = sprint rt (case v of None \<Rightarrow> VNil | Some j \<Rightarrow> json_value rt j)"

definition map_challenge :: "runtime \<Rightarrow> (string \<times> json) list \<Rightarrow> challenge_info" where
  "map_challenge rt m =
     \<lparr>ch_type = any_text rt (map_of m ''type''), ch_message = any_text rt (map_of m ''message''),
      ch_details = (case map_of m ''details'' of Some (JObj d) \<Rightarrow> Some d | _ \<Rightarrow> None)\<rparr>"

definition policy_decision_of :: "runtime \<Rightarrow> policy_cached \<Rightarrow> policy_decision" where
  "policy_decision_of rt c =
     \<lparr>pd_effect = pk_effect c, pd_reason = pk_reason c, pd_challenge = map_option (map_challenge rt) (pk_challenge c),
      pd_policy_id = pk_policy_id c, pd_evaluated_at = pk_cached_at c\<rparr>"

definition policy_cached_of :: "policy_decision \<Rightarrow> policy_cached" where
  "policy_cached_of d =
     \<lparr>pk_effect = pd_effect d, pk_reason = pd_reason d, pk_challenge = map_option challenge_map (pd_challenge d),
      pk_policy_id = pd_policy_id d, pk_cached_at = pd_evaluated_at d\<rparr>"

definition policy_lookup :: "('s, 'c, 'k) policy_service \<Rightarrow> ctx \<Rightarrow> string \<Rightarrow> ('s, 'c, 'k, policy_cached option) pact" where
  "policy_lookup sv cx k =
     (case ls_cache sv of
        None \<Rightarrow> State_Monad.return None
      | Some dc \<Rightarrow> do {
          r \<leftarrow> dc_get dc cx k;
          State_Monad.return (case r of Inl _ \<Rightarrow> None | Inr x \<Rightarrow> x)
        })"

definition policy_remember ::
  "('s, 'c, 'k) policy_service \<Rightarrow> ctx \<Rightarrow> string \<Rightarrow> policy_decision \<Rightarrow> ('s, 'c, 'k, unit) pact" where
  "policy_remember sv cx k d =
     (case ls_cache sv of
        None \<Rightarrow> skip
      | Some dc \<Rightarrow> do { _ \<leftarrow> dc_set dc cx k (policy_cached_of d) (pcf_cache_ttl (ls_cfg sv)); skip })"

definition policy_decide ::
  "('s, 'c, 'k) policy_service \<Rightarrow> ctx \<Rightarrow> policy_request \<Rightarrow> ('s, 'c, 'k) evaluator list \<Rightarrow>
   ('s, 'c, 'k, err + policy_decision) pact" where
  "policy_decide sv cx q es =
     bindE (eval_root sv cx q es) (\<lambda>d0. do {
       t \<leftarrow> tick (ls_clock sv);
       let d = d0\<lparr>pd_evaluated_at := t\<rparr>;
       _ \<leftarrow> policy_remember sv cx (policy_key sv q) d;
       _ \<leftarrow> policy_publish sv cx EventPolicyEvaluated t (pr_subject (pq_principal q)) (PFields ''PolicyEvaluatedPayload''
         [(''principal_subject'', FStr (pr_subject (pq_principal q))), (''principal_type'', FStr (pr_type (pq_principal q))),
          (''organization'', FStr (pq_organization q)), (''resource_type'', FStr (ps_type (pq_resource q))),
          (''resource_id'', FStr (ps_id (pq_resource q))), (''action'', FStr (pq_action q)),
          (''effect'', FStr (pd_effect d)), (''reason'', FStr (pd_reason d)), (''policy_id'', FStr (pd_policy_id d)),
          (''timestamp'', FTime t)]);
       ok d
     })"

definition list_policies :: "('s, 'c, 'k, ('s, 'c, 'k) evaluator list) polact" where
  "list_policies = State (\<lambda>s. (List.map_filter (po_policies s) (po_order s), s))"

definition policy_evaluate ::
  "('s, 'c, 'k) policy_service \<Rightarrow> ctx \<Rightarrow> policy_request \<Rightarrow> ('s, 'c, 'k, err + policy_decision) polact" where
  "policy_evaluate sv cx q =
     (if ps_type (pq_resource q) = [] \<or> pq_action q = [] then fail ErrInvalidRequest
      else do {
        c \<leftarrow> in_pol (policy_lookup sv cx (policy_key sv q));
        case c of
          Some x \<Rightarrow> ok (policy_decision_of (au_rt (ls_auth sv)) x)
        | None \<Rightarrow> do { es \<leftarrow> list_policies; in_pol (policy_decide sv cx q es) }
      })"

definition policy_authorize ::
  "('s, 'c, 'k) policy_service \<Rightarrow> ctx \<Rightarrow> policy_request \<Rightarrow> ('s, 'c, 'k, err + unit) polact" where
  "policy_authorize sv cx q =
     bindE (policy_evaluate sv cx q) (\<lambda>d.
       if is_allowed d then ok ()
       else if is_challenge d then fail ErrChallengeRequired
       else fail PolicyForbidden)"

section \<open>The registered policies\<close>

definition forget_decisions :: "('s, 'c, 'k) policy_service \<Rightarrow> ('s, 'c, 'k, unit) pact" where
  "forget_decisions sv =
     (case ls_cache sv of None \<Rightarrow> skip | Some dc \<Rightarrow> do { _ \<leftarrow> dc_invalidate_all dc background; skip })"

text \<open>What the adapter answers is dropped.\<close>

definition persist_policy :: "('s, 'c, 'k) policy_service \<Rightarrow> ('s, 'c, 'k) evaluator \<Rightarrow> ('s, 'c, 'k, unit) pact" where
  "persist_policy sv p =
     (case ls_adapter sv of
        None \<Rightarrow> skip
      | Some _ \<Rightarrow> do {
          t \<leftarrow> tick (ls_clock sv);
          _ \<leftarrow> in_world (on_db (repo_create (policy_repo sv)
            \<lparr>pr_id = pe_id p, pr_description = pe_description p, pr_combinator = pcf_combinator (ls_cfg sv),
             pr_created_at = t, pr_updated_at = t\<rparr>));
          skip
        })"

definition unpersist_policy :: "('s, 'c, 'k) policy_service \<Rightarrow> string \<Rightarrow> ('s, 'c, 'k, unit) pact" where
  "unpersist_policy sv i =
     (case ls_adapter sv of
        None \<Rightarrow> skip
      | Some _ \<Rightarrow> do { _ \<leftarrow> in_world (on_db (repo_delete (policy_repo sv) [Eq ''id'' (VStr i)])); skip })"

definition announce_registered :: "('s, 'c, 'k) policy_service \<Rightarrow> ('s, 'c, 'k) evaluator \<Rightarrow> ('s, 'c, 'k, unit) pact" where
  "announce_registered sv p = do {
     t1 \<leftarrow> tick (ls_clock sv);
     t2 \<leftarrow> tick (ls_clock sv);
     policy_publish sv background EventPolicyRegistered t1 (pe_id p) (PFields ''PolicyRegisteredPayload''
       [(''policy_id'', FStr (pe_id p)), (''description'', FStr (pe_description p)), (''timestamp'', FTime t2)])
   }"

definition announce_removed :: "('s, 'c, 'k) policy_service \<Rightarrow> string \<Rightarrow> ('s, 'c, 'k, unit) pact" where
  "announce_removed sv i = do {
     t1 \<leftarrow> tick (ls_clock sv);
     t2 \<leftarrow> tick (ls_clock sv);
     policy_publish sv background EventPolicyRemoved t1 i (PFields ''PolicyRemovedPayload''
       [(''policy_id'', FStr i), (''timestamp'', FTime t2)])
   }"

definition register_policy ::
  "('s, 'c, 'k) policy_service \<Rightarrow> ('s, 'c, 'k) evaluator option \<Rightarrow> ('s, 'c, 'k, err + unit) polact" where
  "register_policy sv p0 =
     (case p0 of
        None \<Rightarrow> fail ErrInvalidRequest
      | Some p \<Rightarrow>
          if pe_id p = [] then fail ErrInvalidRequest
          else do {
            ex \<leftarrow> State (\<lambda>s. (po_policies s (pe_id p) \<noteq> None, s));
            if ex then fail ErrPolicyAlreadyExists
            else do {
              _ \<leftarrow> State (\<lambda>s. ((), s\<lparr>po_policies := (po_policies s)(pe_id p \<mapsto> p), po_order := po_order s @ [pe_id p]\<rparr>));
              in_pol (do {
                _ \<leftarrow> persist_policy sv p;
                _ \<leftarrow> forget_decisions sv;
                _ \<leftarrow> announce_registered sv p;
                ok ()
              })
            }
          })"

definition remove_policy :: "('s, 'c, 'k) policy_service \<Rightarrow> string \<Rightarrow> ('s, 'c, 'k, err + unit) polact" where
  "remove_policy sv i =
     (if i = [] then fail ErrInvalidRequest
      else do {
        ex \<leftarrow> State (\<lambda>s. (po_policies s i \<noteq> None, s));
        if \<not> ex then fail ErrPolicyNotFound
        else do {
          _ \<leftarrow> State (\<lambda>s. ((), s\<lparr>po_policies := (po_policies s)(i := None),
            po_order := filter (\<lambda>j. j \<noteq> i) (po_order s)\<rparr>));
          in_pol (do {
            _ \<leftarrow> unpersist_policy sv i;
            _ \<leftarrow> forget_decisions sv;
            _ \<leftarrow> announce_removed sv i;
            ok ()
          })
        }
      })"

definition get_policy :: "string \<Rightarrow> ('s, 'c, 'k, err + ('s, 'c, 'k) evaluator) polact" where
  "get_policy i = State (\<lambda>s. (case po_policies s i of None \<Rightarrow> Inl ErrPolicyNotFound | Some p \<Rightarrow> Inr p, s))"

definition policy_invalidate_principal ::
  "('s, 'c, 'k) policy_service \<Rightarrow> ctx \<Rightarrow> string \<Rightarrow> ('s, 'c, 'k, err + unit) polact" where
  "policy_invalidate_principal sv cx p =
     (case ls_cache sv of
        Some dc \<Rightarrow> if p \<noteq> [] then in_pol (dc_invalidate_principal dc cx p) else ok ()
      | None \<Rightarrow> ok ())"

definition policy_invalidate_resource ::
  "('s, 'c, 'k) policy_service \<Rightarrow> ctx \<Rightarrow> string \<Rightarrow> string \<Rightarrow> ('s, 'c, 'k, err + unit) polact" where
  "policy_invalidate_resource sv cx ty i =
     (case ls_cache sv of
        Some dc \<Rightarrow> if ty \<noteq> [] \<and> i \<noteq> [] then in_pol (pc_invalidate_resource dc cx ty i) else ok ()
      | None \<Rightarrow> ok ())"

definition policy_invalidate_all :: "('s, 'c, 'k) policy_service \<Rightarrow> ctx \<Rightarrow> ('s, 'c, 'k, err + unit) polact" where
  "policy_invalidate_all sv cx =
     (case ls_cache sv of Some dc \<Rightarrow> in_pol (dc_invalidate_all dc cx) | None \<Rightarrow> ok ())"

text \<open>
  \<open>newService\<close>: the cache in the configuration, or the adapter on the engine's cache; the initial policies
  are registered and what registering answers is dropped.
\<close>

definition new_policy_service ::
  "('s, 'c) auth \<Rightarrow> 's adapter option \<Rightarrow> ('s, 'c, policy_index) policy_decisions option \<Rightarrow> policy_config \<Rightarrow>
   (nat \<Rightarrow> time) \<Rightarrow> (nat \<Rightarrow> time) \<Rightarrow> ('s, 'c, policy_index) policy_service" where
  "new_policy_service a ad c cfg clk wall =
     \<lparr>ls_auth = a, ls_adapter = ad,
      ls_cache = (case c of Some x \<Rightarrow> Some x
        | None \<Rightarrow> map_option (\<lambda>ch. policy_core_cache ch (pcf_cache_ttl cfg)) (au_cache a)),
      ls_cfg = cfg, ls_clock = clk, ls_wall = wall\<rparr>"

definition no_policies :: "('s, 'c, 'k) pworld \<Rightarrow> ('s, 'c, 'k) policy_state" where
  "no_policies w = \<lparr>po_world = w, po_policies = Map.empty, po_order = []\<rparr>"

definition register_initial ::
  "('s, 'c, 'k) policy_service \<Rightarrow> ('s, 'c, 'k) evaluator option list \<Rightarrow> ('s, 'c, 'k, unit) polact" where
  "register_initial sv ps = for_each (\<lambda>p. do { _ \<leftarrow> register_policy sv p; skip }) ps"

end
