(* ===== verification/Policy_Correct.thy ===== *)
theory Policy_Correct
  imports Policy_Service Decision_Correct
begin

text \<open>
  What the combinators of policies decide, as functions of what the policies decide, and the registry of
  the service as a list of policies.
\<close>

section \<open>Verdicts\<close>

text \<open>
  A verdict is an error or an effect. The answers of a list of policies up to the first that stops the
  loop, and what they amount to.
\<close>

type_synonym verdict = "err + string"

definition effect_of :: "err + policy_decision \<Rightarrow> verdict" where
  "effect_of r = map_sum id pd_effect r"

fun answers :: "string \<Rightarrow> verdict list \<Rightarrow> err + string list" where
  "answers stop [] = Inr []"
| "answers stop (Inl e # vs) = Inl e"
| "answers stop (Inr x # vs) = (if x = stop then Inr [x] else map_sum id ((#) x) (answers stop vs))"

definition deny_overrides_verdict :: "verdict list \<Rightarrow> verdict" where
  "deny_overrides_verdict vs = map_sum id (\<lambda>xs.
     if EffectDeny \<in> set xs then EffectDeny
     else if EffectChallenge \<in> set xs then EffectChallenge
     else if EffectAllow \<in> set xs then EffectAllow else EffectDeny) (answers EffectDeny vs)"

definition all_of_verdict :: "verdict list \<Rightarrow> verdict" where
  "all_of_verdict vs = map_sum id (\<lambda>xs.
     if xs = [] \<or> EffectDeny \<in> set xs then EffectDeny
     else if EffectChallenge \<in> set xs then EffectChallenge else EffectAllow) (answers EffectDeny vs)"

definition any_of_verdict :: "verdict list \<Rightarrow> verdict" where
  "any_of_verdict vs = map_sum id (\<lambda>xs.
     if EffectAllow \<in> set xs then EffectAllow
     else if EffectChallenge \<in> set xs then EffectChallenge else EffectDeny) (answers EffectAllow vs)"

definition not_verdict :: "verdict \<Rightarrow> verdict" where
  "not_verdict v = map_sum id (\<lambda>x. if x = EffectChallenge then EffectChallenge
     else if x = EffectAllow then EffectDeny else EffectAllow) v"

definition root_verdict :: "string \<Rightarrow> verdict list \<Rightarrow> verdict" where
  "root_verdict comb vs =
     (if comb = CombinatorAllOf then all_of_verdict vs
      else if comb = CombinatorAnyOf then any_of_verdict vs else deny_overrides_verdict vs)"

text \<open>\<open>e\<close> decides \<open>v\<close> about a request, whatever the state of the world is.\<close>

definition decides ::
  "('s, 'c, 'k) evaluator \<Rightarrow> ctx \<Rightarrow> policy_request \<Rightarrow> verdict \<Rightarrow> bool" where
  "decides e cx q v \<longleftrightarrow> (\<forall>s. effect_of (fst (run_state (pe_evaluate e cx q) s)) = v)"

lemma effect_distinct [simp]:
  "EffectAllow \<noteq> EffectDeny" "EffectDeny \<noteq> EffectAllow" "EffectAllow \<noteq> EffectChallenge"
  "EffectChallenge \<noteq> EffectAllow" "EffectDeny \<noteq> EffectChallenge" "EffectChallenge \<noteq> EffectDeny"
  by (simp_all add: effects)

lemma effect_of_simps [simp]: "effect_of (Inl e) = Inl e" "effect_of (Inr d) = Inr (pd_effect d)"
  by (simp_all add: effect_of_def)

lemma run_allow_ok [simp]: "effect_of (fst (run_state (allow_ok wall i r) s)) = Inr EffectAllow"
  by (simp add: allow_ok_def allow_decision_def tick_def)

lemma run_deny_ok [simp]: "effect_of (fst (run_state (deny_ok wall i r) s)) = Inr EffectDeny"
  by (simp add: deny_ok_def deny_decision_def tick_def)

lemma decides_cases:
  assumes "decides e cx q v"
  obtains x s' where "v = Inl x" "run_state (pe_evaluate e cx q) s = (Inl x, s')"
    | d s' where "v = Inr (pd_effect d)" "run_state (pe_evaluate e cx q) s = (Inr d, s')"
proof -
  obtain r s' where r: "run_state (pe_evaluate e cx q) s = (r, s')" by (rule prod.exhaust)
  with assms have "effect_of r = v" unfolding decides_def by (metis fst_conv)
  with r that show thesis by (cases r) auto
qed

definition pending_ok :: "policy_decision option \<Rightarrow> bool" where
  "pending_ok p \<longleftrightarrow> (\<forall>d. p = Some d \<longrightarrow> is_challenge d)"

lemma pending_keep: "pending_ok p \<Longrightarrow> pending_ok (keep_challenge p d)"
  by (simp add: pending_ok_def keep_challenge_def)

lemma keep_None: "keep_challenge p d = None \<longleftrightarrow> p = None \<and> \<not> is_challenge d"
  by (auto simp: keep_challenge_def)

lemmas decision_tests = is_allowed_def is_denied_def is_challenge_def

text \<open>The loops, with a challenge pending or not.\<close>

definition settle :: "bool \<Rightarrow> string \<Rightarrow> string \<Rightarrow> (string list \<Rightarrow> string) \<Rightarrow> err + string list \<Rightarrow> verdict" where
  "settle pending stop verdict dflt r = map_sum id (\<lambda>xs.
     if stop \<in> set xs then verdict
     else if pending \<or> EffectChallenge \<in> set xs then EffectChallenge else dflt xs) r"

lemma settle_Inr [simp]: "settle p st vd df (Inr xs) =
    Inr (if st \<in> set xs then vd else if p \<or> EffectChallenge \<in> set xs then EffectChallenge else df xs)"
  by (simp add: settle_def)

lemma settle_Inl [simp]: "settle p st vd df (Inl e) = Inl e"
  by (simp add: settle_def)

lemma settle_step:
  "x \<noteq> st \<Longrightarrow> settle p st vd df (map_sum id ((#) x) r) = settle (p \<or> x = EffectChallenge) st vd (\<lambda>xs. df (x # xs)) r"
  by (cases r) auto

lemma all_of_loop_effect:
  "list_all2 (\<lambda>e v. decides e cx q v) es vs \<Longrightarrow> pending_ok p \<Longrightarrow>
   effect_of (fst (run_state (all_of_loop wall i cx q p es) s)) =
     settle (p \<noteq> None) EffectDeny EffectDeny (\<lambda>_. EffectAllow) (answers EffectDeny vs)"
proof (induction es arbitrary: vs p s)
  case Nil
  then show ?case by (auto simp: pending_ok_def is_challenge_def split: option.split)
next
  case (Cons e es)
  then obtain v ws where v: "vs = v # ws" "decides e cx q v" "list_all2 (\<lambda>e v. decides e cx q v) es ws"
    by (auto simp: list_all2_Cons1)
  show ?case
  proof (rule decides_cases [OF v(2), of s])
    fix x s' assume "v = Inl x" "run_state (pe_evaluate e cx q) s = (Inl x, s')"
    then show ?thesis by (simp add: v(1))
  next
    fix d s' assume d: "v = Inr (pd_effect d)" "run_state (pe_evaluate e cx q) s = (Inr d, s')"
    show ?thesis
      using Cons.IH [OF v(3) pending_keep [OF Cons.prems(2)], of d s'] d
      by (auto simp: v(1) settle_step keep_None decision_tests)
  qed
qed

lemma any_of_loop_effect:
  "list_all2 (\<lambda>e v. decides e cx q v) es vs \<Longrightarrow> pending_ok p \<Longrightarrow>
   effect_of (fst (run_state (any_of_loop wall i cx q p es) s)) =
     settle (p \<noteq> None) EffectAllow EffectAllow (\<lambda>_. EffectDeny) (answers EffectAllow vs)"
proof (induction es arbitrary: vs p s)
  case Nil
  then show ?case by (auto simp: pending_ok_def is_challenge_def split: option.split)
next
  case (Cons e es)
  then obtain v ws where v: "vs = v # ws" "decides e cx q v" "list_all2 (\<lambda>e v. decides e cx q v) es ws"
    by (auto simp: list_all2_Cons1)
  show ?case
  proof (rule decides_cases [OF v(2), of s])
    fix x s' assume "v = Inl x" "run_state (pe_evaluate e cx q) s = (Inl x, s')"
    then show ?thesis by (simp add: v(1))
  next
    fix d s' assume d: "v = Inr (pd_effect d)" "run_state (pe_evaluate e cx q) s = (Inr d, s')"
    show ?thesis
      using Cons.IH [OF v(3) pending_keep [OF Cons.prems(2)], of d s'] d
      by (auto simp: v(1) settle_step keep_None decision_tests)
  qed
qed

lemma deny_overrides_loop_effect:
  "list_all2 (\<lambda>e v. decides e cx q v) es vs \<Longrightarrow> pending_ok p \<Longrightarrow>
   effect_of (fst (run_state (deny_overrides_loop wall i cx q al p es) s)) =
     settle (p \<noteq> None) EffectDeny EffectDeny (\<lambda>xs. if al \<or> EffectAllow \<in> set xs then EffectAllow else EffectDeny)
       (answers EffectDeny vs)"
proof (induction es arbitrary: vs p al s)
  case Nil
  then show ?case by (auto simp: pending_ok_def is_challenge_def split: option.split)
next
  case (Cons e es)
  then obtain v ws where v: "vs = v # ws" "decides e cx q v" "list_all2 (\<lambda>e v. decides e cx q v) es ws"
    by (auto simp: list_all2_Cons1)
  show ?case
  proof (rule decides_cases [OF v(2), of s])
    fix x s' assume "v = Inl x" "run_state (pe_evaluate e cx q) s = (Inl x, s')"
    then show ?thesis by (simp add: v(1))
  next
    fix d s' assume d: "v = Inr (pd_effect d)" "run_state (pe_evaluate e cx q) s = (Inr d, s')"
    show ?thesis
      using Cons.IH [OF v(3) pending_keep [OF Cons.prems(2)], of "al \<or> is_allowed d" d s'] d eq_commute [of EffectAllow "pd_effect d"]
      by (auto simp: v(1) settle_step keep_None decision_tests)
  qed
qed

text \<open>The loops of the service go the same way.\<close>

lemma eval_all_of_effect:
  "effect_of (fst (run_state (eval_all_of wall cx q p es) s)) = effect_of (fst (run_state (all_of_loop wall [] cx q p es) s))"
  by (induction es arbitrary: p s) (auto split: option.split prod.split sum.split)

lemma eval_any_of_effect:
  "effect_of (fst (run_state (eval_any_of wall cx q p es) s)) = effect_of (fst (run_state (any_of_loop wall [] cx q p es) s))"
  by (induction es arbitrary: p s) (auto split: option.split prod.split sum.split)

lemma eval_deny_overrides_effect:
  "effect_of (fst (run_state (eval_deny_overrides wall cx q al p es) s)) =
   effect_of (fst (run_state (deny_overrides_loop wall [] cx q (al \<noteq> None) p es) s))"
  by (induction es arbitrary: al p s) (auto split: option.split prod.split sum.split)

lemma answers_some: "answers st (v # vs) \<noteq> Inr []"
  by (cases v; cases "answers st vs") auto

lemma verdicts_settle:
  "deny_overrides_verdict vs =
     settle False EffectDeny EffectDeny (\<lambda>xs. if EffectAllow \<in> set xs then EffectAllow else EffectDeny) (answers EffectDeny vs)"
  "any_of_verdict vs = settle False EffectAllow EffectAllow (\<lambda>_. EffectDeny) (answers EffectAllow vs)"
  "vs \<noteq> [] \<Longrightarrow> all_of_verdict vs = settle False EffectDeny EffectDeny (\<lambda>_. EffectAllow) (answers EffectDeny vs)"
proof -
  show "deny_overrides_verdict vs =
     settle False EffectDeny EffectDeny (\<lambda>xs. if EffectAllow \<in> set xs then EffectAllow else EffectDeny) (answers EffectDeny vs)"
    by (cases "answers EffectDeny vs") (auto simp: deny_overrides_verdict_def)
  show "any_of_verdict vs = settle False EffectAllow EffectAllow (\<lambda>_. EffectDeny) (answers EffectAllow vs)"
    by (cases "answers EffectAllow vs") (auto simp: any_of_verdict_def)
  assume "vs \<noteq> []"
  then have "answers EffectDeny vs \<noteq> Inr []" using answers_some by (cases vs) auto
  then show "all_of_verdict vs = settle False EffectDeny EffectDeny (\<lambda>_. EffectAllow) (answers EffectDeny vs)"
    by (cases "answers EffectDeny vs") (auto simp: all_of_verdict_def)
qed

lemma pending_None [simp]: "pending_ok None"
  by (simp add: pending_ok_def)

lemma decides_combined:
  assumes "list_all2 (\<lambda>e v. decides e cx q v) es vs"
  shows "decides (deny_overrides wall i desc es) cx q (deny_overrides_verdict vs)"
    "decides (all_of wall i desc es) cx q (all_of_verdict vs)"
    "decides (any_of wall i desc es) cx q (any_of_verdict vs)"
proof -
  have Nil: "es = [] \<longleftrightarrow> vs = []" using assms by auto
  show "decides (deny_overrides wall i desc es) cx q (deny_overrides_verdict vs)"
    using deny_overrides_loop_effect [OF assms pending_None] Nil
    by (auto simp: decides_def deny_overrides_def new_rule_def verdicts_settle)
  show "decides (all_of wall i desc es) cx q (all_of_verdict vs)"
    using all_of_loop_effect [OF assms pending_None] Nil
    by (cases "vs = []") (simp_all add: decides_def all_of_def new_rule_def verdicts_settle(3), simp add: all_of_verdict_def)
  show "decides (any_of wall i desc es) cx q (any_of_verdict vs)"
    using any_of_loop_effect [OF assms pending_None] Nil
    by (auto simp: decides_def any_of_def new_rule_def verdicts_settle)
qed

lemma decides_not:
  assumes "decides e cx q v"
  shows "decides (not_policy wall i desc e) cx q (not_verdict v)"
  unfolding decides_def
proof
  fix s
  show "effect_of (fst (run_state (pe_evaluate (not_policy wall i desc e) cx q) s)) = not_verdict v"
    by (rule decides_cases [OF assms, of s])
      (auto simp: not_policy_def new_rule_def not_verdict_def decision_tests split: prod.splits)
qed

lemma eval_root_effect:
  assumes "list_all2 (\<lambda>e v. decides e cx q v) es vs"
  shows "effect_of (fst (run_state (eval_root sv cx q es) s)) = root_verdict (pcf_combinator (ls_cfg sv)) vs"
proof (cases "es = []")
  case True
  with assms show ?thesis
    by (simp add: eval_root_def root_verdict_def all_of_verdict_def any_of_verdict_def deny_overrides_verdict_def)
next
  case False
  with assms have "vs \<noteq> []" by auto
  with False assms show ?thesis
    by (simp add: eval_root_def root_verdict_def eval_all_of_effect eval_any_of_effect eval_deny_overrides_effect
        all_of_loop_effect any_of_loop_effect deny_overrides_loop_effect verdicts_settle)
qed

text \<open>Without errors the order of the policies does not matter to deny-overrides.\<close>

lemma answers_effects:
  "answers st (map Inr xs) = Inr (takeWhile (\<lambda>x. x \<noteq> st) xs @ (if st \<in> set xs then [st] else []))"
  by (induction xs) auto

definition deny_overrides_of :: "string set \<Rightarrow> string" where
  "deny_overrides_of E =
     (if EffectDeny \<in> E then EffectDeny else if EffectChallenge \<in> E then EffectChallenge
      else if EffectAllow \<in> E then EffectAllow else EffectDeny)"

lemma deny_overrides_effects: "deny_overrides_verdict (map Inr xs) = Inr (deny_overrides_of (set xs))"
proof (cases "EffectDeny \<in> set xs")
  case True
  then show ?thesis by (simp add: deny_overrides_verdict_def answers_effects deny_overrides_of_def)
next
  case False
  then have t: "takeWhile (\<lambda>x. x \<noteq> EffectDeny) xs = xs" by (intro takeWhile_eq_all_conv [THEN iffD2]) auto
  show ?thesis by (simp add: deny_overrides_verdict_def answers_effects deny_overrides_of_def t False)
qed

lemma answers_all: "stop \<notin> set xs \<Longrightarrow> answers stop (map Inr xs) = Inr xs"
  by (induction xs) auto

lemma all_of_effects: "all_of_verdict (map Inr xs) =
    Inr (if xs = [] \<or> EffectDeny \<in> set xs then EffectDeny
      else if EffectChallenge \<in> set xs then EffectChallenge else EffectAllow)"
  by (cases "EffectDeny \<in> set xs") (simp_all add: all_of_verdict_def answers_all, simp add: answers_effects)

lemma any_of_effects: "any_of_verdict (map Inr xs) =
    Inr (if EffectAllow \<in> set xs then EffectAllow
      else if EffectChallenge \<in> set xs then EffectChallenge else EffectDeny)"
  by (cases "EffectAllow \<in> set xs") (simp_all add: any_of_verdict_def answers_all, simp add: answers_effects)

section \<open>The registry\<close>

definition registered :: "('s, 'c, 'k) policy_state \<Rightarrow> ('s, 'c, 'k) evaluator list" where
  "registered s = List.map_filter (po_policies s) (po_order s)"

definition registry_ok :: "('s, 'c, 'k) policy_state \<Rightarrow> bool" where
  "registry_ok s \<longleftrightarrow> distinct (po_order s) \<and> set (po_order s) = dom (po_policies s) \<and>
     (\<forall>i p. po_policies s i = Some p \<longrightarrow> pe_id p = i \<and> i \<noteq> [])"

definition registering ::
  "('s, 'c, 'k) evaluator option \<Rightarrow> ('s, 'c, 'k) evaluator list \<Rightarrow> err + ('s, 'c, 'k) evaluator list" where
  "registering p ps = (case p of
     None \<Rightarrow> Inl ErrInvalidRequest
   | Some p \<Rightarrow>
       if pe_id p = [] then Inl ErrInvalidRequest
       else if pe_id p \<in> pe_id ` set ps then Inl ErrPolicyAlreadyExists
       else Inr (ps @ [p]))"

definition removing :: "string \<Rightarrow> ('s, 'c, 'k) evaluator list \<Rightarrow> err + ('s, 'c, 'k) evaluator list" where
  "removing i ps =
     (if i = [] then Inl ErrInvalidRequest
      else if i \<notin> pe_id ` set ps then Inl ErrPolicyNotFound
      else Inr (filter (\<lambda>p. pe_id p \<noteq> i) ps))"

lemma run_in_pol [simp]:
  "run_state (in_pol m) s = (case run_state m (po_world s) of (r, w) \<Rightarrow> (r, s\<lparr>po_world := w\<rparr>))"
  by (simp add: in_pol_def)

lemma registered_simps [simp]:
  "registered (s\<lparr>po_world := w\<rparr>) = registered s" "registry_ok (s\<lparr>po_world := w\<rparr>) = registry_ok s"
  by (simp_all add: registered_def registry_ok_def)

lemma set_map_filter: "set (List.map_filter f xs) = {y. \<exists>x \<in> set xs. f x = Some y}"
  by (induction xs) (auto simp: List.map_filter_def)

lemma registered_ids:
  assumes "registry_ok s"
  shows "map pe_id (registered s) = po_order s" "set (registered s) = ran (po_policies s)"
    "pe_id ` set (registered s) = dom (po_policies s)"
proof -
  have d: "\<forall>i \<in> set (po_order s). \<exists>p. po_policies s i = Some p" using assms by (auto simp: registry_ok_def)
  have "map pe_id (List.map_filter (po_policies s) is) = is" if "set is \<subseteq> set (po_order s)" for "is"
    using that d assms by (induction "is") (auto simp: List.map_filter_def registry_ok_def)
  then show ids: "map pe_id (registered s) = po_order s" by (simp add: registered_def)
  show "set (registered s) = ran (po_policies s)"
    using assms by (auto simp: set_map_filter registry_ok_def registered_def ran_def)
  show "pe_id ` set (registered s) = dom (po_policies s)"
    using ids assms by (metis image_set registry_ok_def)
qed

lemma register_added:
  assumes s: "registry_ok s" and p: "pe_id p \<noteq> []" "po_policies s (pe_id p) = None"
  defines "s1 \<equiv> s\<lparr>po_policies := (po_policies s)(pe_id p \<mapsto> p), po_order := po_order s @ [pe_id p]\<rparr>"
  shows "registry_ok s1 \<and> registered s1 = registered s @ [p]"
proof
  have new: "pe_id p \<notin> set (po_order s)" using s p by (auto simp: registry_ok_def)
  then show "registry_ok s1" using s p by (auto simp: registry_ok_def s1_def)
  have "List.map_filter ((po_policies s)(pe_id p \<mapsto> p)) is = List.map_filter (po_policies s) is"
    if "pe_id p \<notin> set is" for "is"
    using that by (induction "is") (auto simp: List.map_filter_def)
  from this [OF new] show "registered s1 = registered s @ [p]" by (simp add: registered_def s1_def List.map_filter_def)
qed

lemma remove_removed:
  fixes i :: string
  assumes s: "registry_ok s"
  defines "s1 \<equiv> s\<lparr>po_policies := (po_policies s)(i := None), po_order := filter (\<lambda>j. j \<noteq> i) (po_order s)\<rparr>"
  shows "registry_ok s1 \<and> registered s1 = filter (\<lambda>p. pe_id p \<noteq> i) (registered s)"
proof
  show "registry_ok s1" using s by (auto simp: registry_ok_def s1_def)
  have "List.map_filter ((po_policies s)(i := None)) (filter (\<lambda>j. j \<noteq> i) is) =
      filter (\<lambda>p. pe_id p \<noteq> i) (List.map_filter (po_policies s) is)" for "is"
    using s by (induction "is") (auto simp: List.map_filter_def registry_ok_def)
  then show "registered s1 = filter (\<lambda>p. pe_id p \<noteq> i) (registered s)" by (simp add: registered_def s1_def)
qed

lemma register_refines:
  assumes s: "registry_ok s" and run: "run_state (register_policy sv p) s = (r, s')"
  shows "registry_ok s' \<and> (case registering p (registered s) of
      Inl e \<Rightarrow> r = Inl e \<and> s' = s
    | Inr ps \<Rightarrow> r = Inr () \<and> registered s' = ps)"
proof (cases "p = None \<or> pe_id (the p) = [] \<or> po_policies s (pe_id (the p)) \<noteq> None")
  case True
  with run s show ?thesis
    by (auto simp: register_policy_def registering_def registered_ids(3) split: option.splits if_splits)
next
  case False
  then obtain x where x: "p = Some x" "pe_id x \<noteq> []" "po_policies s (pe_id x) = None" by auto
  then have "pe_id x \<notin> pe_id ` set (registered s)" using registered_ids [OF s] by auto
  with x run register_added [OF s x(2,3)] show ?thesis
    by (auto simp: register_policy_def registering_def split: prod.splits)
qed

lemma remove_refines:
  assumes s: "registry_ok s" and run: "run_state (remove_policy sv i) s = (r, s')"
  shows "registry_ok s' \<and> (case removing i (registered s) of
      Inl e \<Rightarrow> r = Inl e \<and> s' = s
    | Inr ps \<Rightarrow> r = Inr () \<and> registered s' = ps)"
proof (cases "i = [] \<or> po_policies s i = None")
  case True
  with run s show ?thesis by (auto simp: remove_policy_def removing_def registered_ids(3))
next
  case False
  then have "i \<in> pe_id ` set (registered s)" using registered_ids [OF s] by auto
  with False run remove_removed [OF s] show ?thesis
    by (auto simp: remove_policy_def removing_def split: prod.splits)
qed

lemma get_refines:
  assumes s: "registry_ok s"
  shows "run_state (get_policy i) s = (case List.find (\<lambda>p. pe_id p = i) (registered s) of
    None \<Rightarrow> Inl ErrPolicyNotFound | Some p \<Rightarrow> Inr p, s)"
proof (cases "po_policies s i")
  case None
  then have "i \<notin> pe_id ` set (registered s)" using registered_ids [OF s] by auto
  then have "List.find (\<lambda>p. pe_id p = i) (registered s) = None" by (auto simp: find_None_iff)
  with None show ?thesis by (simp add: get_policy_def)
next
  case (Some p)
  then have p: "p \<in> set (registered s)" "pe_id p = i" using s registered_ids [OF s] by (auto simp: ran_def registry_ok_def)
  then obtain p' where p': "List.find (\<lambda>p. pe_id p = i) (registered s) = Some p'"
    by (metis (mono_tags, lifting) find_None_iff option.exhaust)
  then have "p' \<in> set (registered s)" "pe_id p' = i" by (auto simp: find_Some_iff)
  then have "p' = p" using Some s registered_ids [OF s] by (auto simp: ran_def registry_ok_def)
  with p' Some show ?thesis by (simp add: get_policy_def)
qed

end
