(* ===== verification/Policy_Fresh.thy ===== *)
theory Policy_Fresh
  imports Policy_Correct
begin

text \<open>
  The service of composable policies on a cache of decisions that keeps its laws: registering and removing
  leave no decision in the cache that the registered policies would not make, and an evaluation
  answers what they decide. The locale \<open>policy\<close> holds the service, \<open>resource_decisions\<close> the laws of
  its cache.
\<close>

section \<open>The cache of decisions\<close>

definition policy_owned :: "string \<Rightarrow> string \<Rightarrow> bool" where
  "policy_owned p k \<longleftrightarrow> (\<exists>ty i h. k = cache_key [''policy'', ''eval'', p, ty, i, h] \<and> CHR '':'' \<notin> set h)"

text \<open>The keys of a resource that can be read back from the text of the key.\<close>

definition policy_about :: "string \<Rightarrow> string \<Rightarrow> string \<Rightarrow> bool" where
  "policy_about ty i k \<longleftrightarrow> (\<exists>p h. k = cache_key [''policy'', ''eval'', p, ty, i, h] \<and> CHR '':'' \<notin> set h \<and>
     CHR '':'' \<notin> set p \<and> CHR '':'' \<notin> set ty \<and> CHR '':'' \<notin> set i)"

lemma policy_key_owned: "policy_owned (pr_subject (pq_principal q)) (policy_key sv q)"
  unfolding policy_owned_def policy_key_def policy_build_key_def using hex_encode_colon by blast

locale resource_decisions =
  decisions "decision_cache.truncate pc" cinv view owned sure storable
  for pc :: "(('s, 'c, 'k) pworld, 'd) policy_cache"
    and cinv :: "('s, 'c, 'k) pworld \<Rightarrow> bool"
    and view :: "('s, 'c, 'k) pworld \<Rightarrow> string \<rightharpoonup> 'd"
    and owned :: "string \<Rightarrow> string \<Rightarrow> bool"
    and sure :: "string \<Rightarrow> bool"
    and storable :: "'d \<Rightarrow> bool" +
  fixes about :: "string \<Rightarrow> string \<Rightarrow> string \<Rightarrow> bool"
  assumes invalidate_resource:
    "cinv s \<Longrightarrow> ctx_err cx = None \<Longrightarrow> run_state (pc_invalidate_resource pc cx ty i) s = (u, s') \<Longrightarrow>
      cinv s' \<and> only_cache s s' \<and> view s' \<subseteq>\<^sub>m view s \<and> (\<forall>k. about ty i k \<longrightarrow> view s' k = None)"
begin

text \<open>The laws in terms of the cache itself.\<close>

lemma get_law: "cinv s \<Longrightarrow> owned p k \<Longrightarrow> run_state (dc_get pc cx k) s = (r, s') \<Longrightarrow>
    cinv s' \<and> only_cache s s' \<and> view s' \<subseteq>\<^sub>m view s \<and> (\<forall>d. r = Inr (Some d) \<longrightarrow> view s k = Some d)"
  using get [of s p k cx r s'] by (simp add: decision_cache.truncate_def)

lemma set_law: "cinv s \<Longrightarrow> owned p k \<Longrightarrow> storable d \<Longrightarrow> run_state (dc_set pc cx k d ttl) s = (u, s') \<Longrightarrow>
    cinv s' \<and> only_cache s s' \<and> (view s' \<subseteq>\<^sub>m view s \<or> view s' \<subseteq>\<^sub>m (view s)(k \<mapsto> d))"
  using set [of s p k d cx ttl u s'] by (simp add: decision_cache.truncate_def)

lemma invalidate_law: "cinv s \<Longrightarrow> ctx_err cx = None \<Longrightarrow> run_state (dc_invalidate_principal pc cx p) s = (u, s') \<Longrightarrow>
    cinv s' \<and> only_cache s s' \<and> view s' \<subseteq>\<^sub>m view s \<and> (sure p \<longrightarrow> (\<forall>k. owned p k \<longrightarrow> view s' k = None))"
  using invalidate [of s cx p u s'] by (simp add: decision_cache.truncate_def)

lemma invalidate_all_law: "cinv s \<Longrightarrow> ctx_err cx = None \<Longrightarrow> run_state (dc_invalidate_all pc cx) s = (u, s') \<Longrightarrow>
    cinv s' \<and> only_cache s s' \<and> view s' \<subseteq>\<^sub>m view s \<and> (\<forall>p k. sure p \<longrightarrow> owned p k \<longrightarrow> view s' k = None)"
  using invalidate_all [of s cx u s'] by (simp add: decision_cache.truncate_def)

end

text \<open>A challenge that is an empty map is not written to a core cache; the service stores none.\<close>

definition challenge_stored :: "policy_cached \<Rightarrow> bool" where
  "challenge_stored d \<longleftrightarrow> pk_challenge d \<noteq> Some []"

lemma challenge_stored_of: "challenge_stored (policy_cached_of d)"
  by (auto simp: challenge_stored_def policy_cached_of_def challenge_map_def)

definition policy_caching ::
  "('s, 'c, 'k) policy_decisions option \<Rightarrow> (('s, 'c, 'k) pworld \<Rightarrow> bool) \<Rightarrow>
   (('s, 'c, 'k) pworld \<Rightarrow> string \<rightharpoonup> policy_cached) \<Rightarrow> (string \<Rightarrow> bool) \<Rightarrow> bool" where
  "policy_caching c cinv view sure \<longleftrightarrow> (case c of
     None \<Rightarrow> (\<forall>s. cinv s \<and> view s = Map.empty)
   | Some pc \<Rightarrow> resource_decisions pc cinv view policy_owned sure challenge_stored policy_about)"

section \<open>The service\<close>

text \<open>
  Policies that can be cached: what they decide depends on the request alone, and they leave the caches
  alone. \<open>J e q\<close> is what \<open>e\<close> decides about \<open>q\<close>.
\<close>

definition cacheable ::
  "(('s, 'c, 'k) evaluator \<Rightarrow> policy_request \<Rightarrow> verdict) \<Rightarrow> ('s, 'c, 'k) evaluator \<Rightarrow> bool" where
  "cacheable J e \<longleftrightarrow> (\<forall>cx q. decides e cx q (J e q)) \<and>
     (\<forall>cx q s. same_cache s (snd (run_state (pe_evaluate e cx q) s)))"

lemma same_cache_refl [simp]: "same_cache s s"
  by (simp add: same_cache_def)

lemma same_cache_trans: "same_cache a b \<Longrightarrow> same_cache b c \<Longrightarrow> same_cache a c"
  by (simp add: same_cache_def)

lemma keeps_same_cache: "(\<And>s. same_cache s (snd (run_state m s))) \<Longrightarrow> keeps (same_cache s0) m"
  unfolding keeps_def using same_cache_trans by blast

lemma tick_keeps: "keeps (same_cache s0) (tick wall)"
  by (rule keeps_same_cache) (simp add: tick_def same_cache_def)

lemma verdict_ok_keeps: "keeps (same_cache s0) (allow_ok wall i r)" "keeps (same_cache s0) (deny_ok wall i r)"
  unfolding allow_ok_def allow_decision_def deny_ok_def deny_decision_def by (intro keeps_rules tick_keeps)+

lemma loops_keep:
  assumes "\<And>e cx q. e \<in> set es \<Longrightarrow> keeps (same_cache s0) (pe_evaluate e cx q)"
  shows "keeps (same_cache s0) (eval_all_of wall cx q p es)" "keeps (same_cache s0) (eval_any_of wall cx q p es)"
    "keeps (same_cache s0) (eval_deny_overrides wall cx q al p es)"
  using assms
proof (induction es arbitrary: p al)
  case Nil
  { case 1 then show ?case by (cases p) (auto intro: keeps_rules verdict_ok_keeps) }
  { case 2 then show ?case by (cases p) (auto intro: keeps_rules verdict_ok_keeps) }
  { case 3 then show ?case by (cases p; cases al) (auto intro: keeps_rules verdict_ok_keeps) }
next
  case (Cons e es)
  { case 1 then show ?case using Cons.IH(1) by (auto intro!: keeps_rules verdict_ok_keeps) }
  { case 2 then show ?case using Cons.IH(2) by (auto intro!: keeps_rules verdict_ok_keeps) }
  { case 3 then show ?case using Cons.IH(3) by (auto intro!: keeps_rules verdict_ok_keeps) }
qed

lemma root_keeps:
  assumes "\<And>e. e \<in> set es \<Longrightarrow> cacheable J e"
  shows "keeps (same_cache s0) (eval_root sv cx q es)"
proof -
  have "keeps (same_cache s0) (pe_evaluate e cx q)" if "e \<in> set es" for e cx q
    using assms [OF that] by (intro keeps_same_cache) (simp add: cacheable_def)
  then show ?thesis unfolding eval_root_def by (auto intro!: loops_keep verdict_ok_keeps)
qed

locale policy =
  fixes sv :: "('s, 'c, 'k) policy_service"
    and cinv :: "('s, 'c, 'k) pworld \<Rightarrow> bool"
    and view :: "('s, 'c, 'k) pworld \<Rightarrow> string \<rightharpoonup> policy_cached"
    and sure :: "string \<Rightarrow> bool"
  assumes publish_frame: "run_state (events_publish (au_events (ls_auth sv)) cx ev) w = (y, w') \<Longrightarrow> w_cache w' = w_cache w"
    and caching: "policy_caching (ls_cache sv) cinv view sure"
begin

lemma view_frame:
  assumes "same_cache s s'"
  shows "view s' = view s \<and> cinv s' = cinv s"
proof (cases "ls_cache sv")
  case None
  with caching show ?thesis by (simp add: policy_caching_def)
next
  case (Some pc)
  with caching have "resource_decisions pc cinv view policy_owned sure challenge_stored policy_about" by (simp add: policy_caching_def)
  then show ?thesis using assms decisions.frame by (metis resource_decisions.axioms(1))
qed

text \<open>No cached decision about the requests \<open>Q\<close> differs from the registered policies' decision.\<close>

definition decided :: "(('s, 'c, 'k) evaluator \<Rightarrow> policy_request \<Rightarrow> verdict) \<Rightarrow> ('s, 'c, 'k) policy_state \<Rightarrow>
    policy_request \<Rightarrow> verdict" where
  "decided J s q = root_verdict (pcf_combinator (ls_cfg sv)) (map (\<lambda>e. J e q) (registered s))"

definition fresh :: "(('s, 'c, 'k) evaluator \<Rightarrow> policy_request \<Rightarrow> verdict) \<Rightarrow> policy_request set \<Rightarrow>
    ('s, 'c, 'k) policy_state \<Rightarrow> bool" where
  "fresh J Q s \<longleftrightarrow> cinv (po_world s) \<and>
     (\<forall>q \<in> Q. \<forall>d. view (po_world s) (policy_key sv q) = Some d \<longrightarrow> decided J s q = Inr (pk_effect d))"

lemma lookup_spec:
  assumes "cinv s" "run_state (policy_lookup sv cx (policy_key sv q)) s = (r, s')"
  shows "cinv s' \<and> view s' \<subseteq>\<^sub>m view s \<and> (\<forall>d. r = Some d \<longrightarrow> view s (policy_key sv q) = Some d)"
proof (cases "ls_cache sv")
  case None
  with assms show ?thesis by (simp add: policy_lookup_def)
next
  case (Some pc)
  with caching have d: "resource_decisions pc cinv view policy_owned sure challenge_stored policy_about" by (simp add: policy_caching_def)
  obtain x s1 where x: "run_state (dc_get pc cx (policy_key sv q)) s = (x, s1)" by (rule prod.exhaust)
  with assms(2) Some have "r = (case x of Inl _ \<Rightarrow> None | Inr y \<Rightarrow> y)" "s' = s1" by (auto simp: policy_lookup_def)
  with resource_decisions.get_law [OF d assms(1) policy_key_owned x] show ?thesis by (cases x) auto
qed

lemma remember_spec:
  assumes "cinv s" "run_state (policy_remember sv cx (policy_key sv q) d) s = (u, s')"
  shows "cinv s' \<and> (view s' \<subseteq>\<^sub>m view s \<or> view s' \<subseteq>\<^sub>m (view s)(policy_key sv q \<mapsto> policy_cached_of d))"
proof (cases "ls_cache sv")
  case None
  with assms show ?thesis by (simp add: policy_remember_def)
next
  case (Some pc)
  with caching have r: "resource_decisions pc cinv view policy_owned sure challenge_stored policy_about" by (simp add: policy_caching_def)
  obtain x s1 where x: "run_state (dc_set pc cx (policy_key sv q) (policy_cached_of d) (pcf_cache_ttl (ls_cfg sv))) s = (x, s1)"
    by (rule prod.exhaust)
  with assms(2) Some have "s' = s1" by (auto simp: policy_remember_def)
  with resource_decisions.set_law [OF r assms(1) policy_key_owned challenge_stored_of x] show ?thesis by simp
qed

lemma forget_spec:
  assumes "cinv s" "run_state (forget_decisions sv) s = (u, s')"
  shows "cinv s' \<and> (\<forall>p k. sure p \<longrightarrow> policy_owned p k \<longrightarrow> view s' k = None)"
proof (cases "ls_cache sv")
  case None
  with caching have "view x = Map.empty" for x by (simp add: policy_caching_def)
  with None assms show ?thesis by (simp add: forget_decisions_def)
next
  case (Some pc)
  with caching have r: "resource_decisions pc cinv view policy_owned sure challenge_stored policy_about" by (simp add: policy_caching_def)
  obtain x s1 where x: "run_state (dc_invalidate_all pc background) s = (x, s1)" by (rule prod.exhaust)
  with assms(2) Some have "s' = s1" by (auto simp: forget_decisions_def)
  moreover have "ctx_err background = None" by (simp add: background_def)
  ultimately show ?thesis using resource_decisions.invalidate_all_law [OF r assms(1) _ x] by simp
qed

lemma publish_keeps: "keeps (same_cache s0) (policy_publish sv cx n t sub pl)"
  unfolding policy_publish_def
  by (rule keeps_same_cache) (auto simp: same_cache_def in_world_def split: prod.split dest: publish_frame)

lemma db_keeps: "keeps (same_cache s0) (in_world (on_db m))"
  by (rule keeps_same_cache) (auto simp: same_cache_def in_world_def on_db_def split: prod.split)

lemma decide_spec:
  assumes inv: "cinv s" and es: "\<And>e. e \<in> set es \<Longrightarrow> cacheable J e"
    and run: "run_state (policy_decide sv cx q es) s = (r, s')"
  shows "cinv s' \<and> effect_of r = root_verdict (pcf_combinator (ls_cfg sv)) (map (\<lambda>e. J e q) es) \<and>
    (view s' \<subseteq>\<^sub>m view s \<or> (\<exists>d. effect_of r = Inr (pk_effect d) \<and> view s' \<subseteq>\<^sub>m (view s)(policy_key sv q \<mapsto> d)))"
proof -
  obtain r0 s1 where r0: "run_state (eval_root sv cx q es) s = (r0, s1)" by (rule prod.exhaust)
  have "list_all2 (\<lambda>e v. decides e cx q v) es (map (\<lambda>e. J e q) es)"
    using es by (auto simp: cacheable_def list_all2_conv_all_nth)
  from eval_root_effect [OF this, of sv s] r0
  have v: "effect_of r0 = root_verdict (pcf_combinator (ls_cfg sv)) (map (\<lambda>e. J e q) es)" by simp
  have "same_cache s s1" by (rule keepsD [OF root_keeps [OF es] same_cache_refl r0])
  then have f1: "view s1 = view s" "cinv s1" using view_frame inv by auto
  show ?thesis
  proof (cases r0)
    case (Inl e)
    with run r0 have "r = r0" "s' = s1" by (auto simp: policy_decide_def)
    with v f1 show ?thesis by simp
  next
    case (Inr d0)
    obtain t s2 where t: "run_state (tick (ls_clock sv)) s1 = (t, s2)" by (rule prod.exhaust)
    define d where "d = d0\<lparr>pd_evaluated_at := t\<rparr>"
    obtain u s3 where u: "run_state (policy_remember sv cx (policy_key sv q) d) s2 = (u, s3)" by (rule prod.exhaust)
    have s': "r = Inr d \<and> same_cache s3 s'"
      using run r0 Inr t u keepsD [OF publish_keeps same_cache_refl]
      by (auto simp: policy_decide_def Let_def d_def [symmetric] split: prod.splits)
    have "same_cache s1 s2" by (rule keepsD [OF tick_keeps same_cache_refl t])
    then have f2: "view s2 = view s" "cinv s2" using view_frame f1 by auto
    have f3: "view s' = view s3" "cinv s' = cinv s3" using view_frame s' by auto
    have "effect_of r = effect_of r0" using s' Inr by (simp add: d_def)
    moreover have "pk_effect (policy_cached_of d) = pd_effect d" by (simp add: policy_cached_of_def)
    ultimately show ?thesis using remember_spec [OF f2(2) u] v s' unfolding f2(1) f3 by fastforce
  qed
qed

lemma evaluate_spec:
  assumes f: "fresh J Q s" and ok: "\<And>e. e \<in> set (registered s) \<Longrightarrow> cacheable J e"
    and Q: "inj_on (policy_key sv) Q" "q \<in> Q" and q: "ps_type (pq_resource q) \<noteq> []" "pq_action q \<noteq> []"
    and run: "run_state (policy_evaluate sv cx q) s = (r, s')"
  shows "fresh J Q s' \<and> po_policies s' = po_policies s \<and> po_order s' = po_order s \<and> effect_of r = decided J s q"
proof -
  obtain c w where c: "run_state (policy_lookup sv cx (policy_key sv q)) (po_world s) = (c, w)" by (rule prod.exhaust)
  have inv: "cinv (po_world s)" using f by (simp add: fresh_def)
  note l = lookup_spec [OF inv c]
  show ?thesis
  proof (cases c)
    case (Some d)
    with run c q have r: "r = Inr (policy_decision_of (au_rt (ls_auth sv)) d)" "s' = s\<lparr>po_world := w\<rparr>"
      by (auto simp: policy_evaluate_def)
    have "fresh J Q s'" using f l by (auto simp: fresh_def r decided_def dest: map_le_Some)
    moreover have "decided J s q = Inr (pk_effect d)" using f l Some Q(2) by (simp add: fresh_def)
    ultimately show ?thesis by (simp add: r policy_decision_of_def)
  next
    case None
    obtain x w' where x: "run_state (policy_decide sv cx q (registered s)) w = (x, w')" by (rule prod.exhaust)
    with run c q None have r: "r = x" "s' = s\<lparr>po_world := w'\<rparr>"
      by (auto simp: policy_evaluate_def list_policies_def registered_def)
    note d = decide_spec [OF conjunct1 [OF l] ok x]
    have dec: "decided J s' p = decided J s p" for p by (simp add: decided_def r)
    have "fresh J Q s'"
      unfolding fresh_def dec
    proof (intro conjI ballI allI impI)
      show "cinv (po_world s')" using d by (simp add: r)
      fix p e assume p: "p \<in> Q" "view (po_world s') (policy_key sv p) = Some e"
      have old: "decided J s p = Inr (pk_effect e)" if "view w (policy_key sv p) = Some e"
        using f p(1) map_le_Some [OF conjunct1 [OF conjunct2 [OF l]] that] by (simp add: fresh_def)
      from d consider "view w' \<subseteq>\<^sub>m view w"
        | e' where "effect_of x = Inr (pk_effect e')" "view w' \<subseteq>\<^sub>m (view w)(policy_key sv q \<mapsto> e')" by blast
      then show "decided J s p = Inr (pk_effect e)"
      proof cases
        case 1
        with p(2) have "view w (policy_key sv p) = Some e" by (auto simp: r dest: map_le_Some)
        then show ?thesis by (rule old)
      next
        case 2
        from map_le_Some [OF 2(2)] p(2) have m: "((view w)(policy_key sv q \<mapsto> e')) (policy_key sv p) = Some e" by (simp add: r)
        show ?thesis
        proof (cases "p = q")
          case True
          with m 2(1) d show ?thesis by (simp add: decided_def)
        next
          case False
          with Q p(1) have "policy_key sv p \<noteq> policy_key sv q" by (auto dest: inj_onD)
          with m old show ?thesis by simp
        qed
      qed
    qed
    with d show ?thesis by (simp add: r decided_def)
  qed
qed

text \<open>Changes of the registry, and the invalidations.\<close>

lemma forgotten_fresh:
  assumes "cinv (po_world s)" "run_state (forget_decisions sv) (po_world s) = (u, w)"
    "same_cache w (po_world s')" "\<And>q. q \<in> Q \<Longrightarrow> sure (pr_subject (pq_principal q))"
  shows "fresh J Q s'"
  using forget_spec [OF assms(1,2)] view_frame [OF assms(3)] assms(4) policy_key_owned unfolding fresh_def
  by (metis option.distinct(1))

lemma changed_fresh:
  assumes f: "fresh J Q s" and Q: "\<And>q. q \<in> Q \<Longrightarrow> sure (pr_subject (pq_principal q))"
    and kept: "\<And>s0. keeps (same_cache s0) before" "\<And>s0. keeps (same_cache s0) after"
    and run: "run_state (do { _ \<leftarrow> before; _ \<leftarrow> forget_decisions sv; _ \<leftarrow> after; ok () }) (po_world s) = (r, po_world s')"
  shows "fresh J Q s'"
proof -
  obtain u0 w0 where w0: "run_state before (po_world s) = (u0, w0)" by (rule prod.exhaust)
  obtain u w where w: "run_state (forget_decisions sv) w0 = (u, w)" by (rule prod.exhaust)
  obtain u2 w2 where w2: "run_state after w = (u2, w2)" by (rule prod.exhaust)
  have "cinv w0"
    using view_frame [OF keepsD [OF kept(1) same_cache_refl w0]] f by (simp add: fresh_def)
  moreover have "po_world s' = w2" using run w0 w w2 by auto
  ultimately show ?thesis
    using forgotten_fresh [of "s\<lparr>po_world := w0\<rparr>" u w s' Q J] w Q keepsD [OF kept(2) same_cache_refl w2] by simp
qed

lemma registry_keeps:
  "keeps (same_cache s0) (persist_policy sv p)" "keeps (same_cache s0) (unpersist_policy sv i)"
  "keeps (same_cache s0) (announce_registered sv p)" "keeps (same_cache s0) (announce_removed sv i)"
  unfolding persist_policy_def unpersist_policy_def announce_registered_def announce_removed_def
  by (cases "ls_adapter sv"; auto intro!: keeps_rules tick_keeps db_keeps publish_keeps)+

lemma register_keeps_fresh:
  assumes f: "fresh J Q s" and Q: "\<And>q. q \<in> Q \<Longrightarrow> sure (pr_subject (pq_principal q))"
    and run: "run_state (register_policy sv p) s = (r, s')"
  shows "fresh J Q s'"
proof (cases "p = None \<or> pe_id (the p) = [] \<or> po_policies s (pe_id (the p)) \<noteq> None")
  case True
  with run f show ?thesis by (auto simp: register_policy_def split: option.splits if_splits)
next
  case False
  then obtain x where x: "p = Some x" "pe_id x \<noteq> []" "po_policies s (pe_id x) = None" by auto
  have "run_state (do { _ \<leftarrow> persist_policy sv x; _ \<leftarrow> forget_decisions sv; _ \<leftarrow> announce_registered sv x; ok () })
      (po_world s) = (r, po_world s')"
    using run x by (auto simp: register_policy_def split: prod.splits)
  from changed_fresh [OF f Q registry_keeps(1,3) this] show ?thesis .
qed

lemma remove_keeps_fresh:
  assumes f: "fresh J Q s" and Q: "\<And>q. q \<in> Q \<Longrightarrow> sure (pr_subject (pq_principal q))"
    and run: "run_state (remove_policy sv i) s = (r, s')"
  shows "fresh J Q s'"
proof (cases "i = [] \<or> po_policies s i = None")
  case True
  with run f show ?thesis by (cases "i = []") (auto simp: remove_policy_def)
next
  case False
  have "run_state (do { _ \<leftarrow> unpersist_policy sv i; _ \<leftarrow> forget_decisions sv; _ \<leftarrow> announce_removed sv i; ok () })
      (po_world s) = (r, po_world s')"
    using run False by (auto simp: remove_policy_def split: prod.splits)
  from changed_fresh [OF f Q registry_keeps(2,4) this] show ?thesis .
qed

lemma fresh_less:
  assumes "fresh J Q s" "cinv w" "view w \<subseteq>\<^sub>m view (po_world s)"
  shows "fresh J Q (s\<lparr>po_world := w\<rparr>)"
  using assms by (auto simp: fresh_def decided_def dest: map_le_Some)

lemma invalidations_keep_fresh:
  assumes f: "fresh J Q s" and cx: "ctx_err cx = None"
  shows "run_state (policy_invalidate_principal sv cx p) s = (r, s') \<Longrightarrow> fresh J Q s'"
    and "run_state (policy_invalidate_resource sv cx ty i) s = (r, s') \<Longrightarrow> fresh J Q s'"
    and "run_state (policy_invalidate_all sv cx) s = (r, s') \<Longrightarrow> fresh J Q s'"
proof -
  have inv: "cinv (po_world s)" using f by (simp add: fresh_def)
  { fix pc assume "ls_cache sv = Some pc"
    with caching have "resource_decisions pc cinv view policy_owned sure challenge_stored policy_about" by (simp add: policy_caching_def) }
  note rd = this
  show "run_state (policy_invalidate_principal sv cx p) s = (r, s') \<Longrightarrow> fresh J Q s'"
    using f resource_decisions.invalidate_law [OF rd inv cx]
    by (auto simp: policy_invalidate_principal_def intro!: fresh_less split: option.splits if_splits prod.splits)
  show "run_state (policy_invalidate_resource sv cx ty i) s = (r, s') \<Longrightarrow> fresh J Q s'"
    using f resource_decisions.invalidate_resource [OF rd inv cx]
    by (auto simp: policy_invalidate_resource_def intro!: fresh_less split: option.splits if_splits prod.splits)
  show "run_state (policy_invalidate_all sv cx) s = (r, s') \<Longrightarrow> fresh J Q s'"
    using f resource_decisions.invalidate_all_law [OF rd inv cx]
    by (auto simp: policy_invalidate_all_def intro!: fresh_less split: option.splits if_splits prod.splits)
qed

end

end
