(* ===== verification/Policy_Caches.thy ===== *)
theory Policy_Caches
  imports Policy_Fresh
begin

text \<open>
  The two caches of decisions of composable policies keep the laws of the locale \<open>resource_decisions\<close>:
  the one in memory for every subject, the one on a core cache for the subjects without a colon.
\<close>

section \<open>The cache in memory\<close>

definition policy_memory_view :: "('s, 'c, policy_cached items) pworld \<Rightarrow> string \<rightharpoonup> policy_cached" where
  "policy_memory_view = items_view"

lemma policy_owned_prefix: "policy_owned p k \<Longrightarrow> has_prefix k (cache_key [''policy'', ''eval'', p])"
  by (auto simp: policy_owned_def has_prefix_iff cache_key_def)

lemma policy_about_contains:
  assumes "policy_about ty i k"
  shows "str_contains k ('':'' @ ty @ '':'' @ i @ '':'')"
proof -
  obtain p h where "k = cache_key [''policy'', ''eval'', p, ty, i, h]" using assms by (auto simp: policy_about_def)
  then have "k = (Namespace @ '':policy:eval:'' @ p) @ ('':'' @ ty @ '':'' @ i @ '':'') @ h"
    by (simp add: cache_key_def)
  then show ?thesis unfolding str_contains_iff by blast
qed

interpretation policy_memory: resource_decisions "policy_memory_cache wall ttl" "\<lambda>_. True" policy_memory_view
  policy_owned "\<lambda>_. True" challenge_stored policy_about
  for wall ttl
proof (unfold_locales, goal_cases)
  case (1 s p k cx r s')
  then show ?case
    using memory_get_spec by (fastforce simp: policy_memory_cache_def decision_cache.truncate_def policy_memory_view_def)
next
  case 2
  then show ?case
    using memory_set_spec by (fastforce simp: policy_memory_cache_def decision_cache.truncate_def policy_memory_view_def)
next
  case (3 s cx p u s')
  then show ?case
    using memory_drop_spec policy_owned_prefix
    by (fastforce simp: policy_memory_cache_def decision_cache.truncate_def policy_memory_view_def)
next
  case (4 s cx u s')
  then show ?case
    using memory_drop_spec by (fastforce simp: policy_memory_cache_def decision_cache.truncate_def policy_memory_view_def)
next
  case (5 s s')
  then show ?case using items_view_frame [OF 5] by (simp add: policy_memory_view_def)
next
  case (6 s cx ty i u s')
  then show ?case
    using memory_drop_spec policy_about_contains by (fastforce simp: policy_memory_cache_def policy_memory_view_def)
qed

section \<open>The cache on a core cache\<close>

lemma json_policy_cached_of: "policy_cached_json d = Inr j \<Longrightarrow> challenge_stored d \<Longrightarrow> json_policy_cached j = Inr d"
  by (cases "pk_challenge d")
    (auto simp: policy_cached_json_def json_times_def json_policy_cached_def member_defs object_member_def omit_empty_def
      challenge_stored_def split: if_splits)

lemma split_policy_key:
  assumes "CHR '':'' \<notin> set h"
  shows "split_on (CHR '':'') (cache_key [''policy'', ''eval'', p, ty, i, h]) =
    [''gomodularauth'', ''policy'', ''eval''] @ split_on (CHR '':'') p @ split_on (CHR '':'') ty @ split_on (CHR '':'') i @ [h]"
proof -
  have k: "cache_key [''policy'', ''eval'', p, ty, i, h] = ''gomodularauth'' @ CHR '':'' # (''policy'' @ CHR '':'' #
      (''eval'' @ CHR '':'' # (p @ CHR '':'' # (ty @ CHR '':'' # (i @ CHR '':'' # h)))))"
    by (simp add: cache_key_def Namespace_def)
  show ?thesis unfolding k split_on_append_any using assms by (simp add: split_on_single)
qed

definition policy_core_view :: "('c \<Rightarrow> string \<rightharpoonup> json) \<Rightarrow> ('s, 'c, 'k) pworld \<Rightarrow> string \<rightharpoonup> policy_cached" where
  "policy_core_view = decoded_view json_policy_cached"

definition colon_free :: "string \<Rightarrow> bool" where
  "colon_free p \<longleftrightarrow> CHR '':'' \<notin> set p"

text \<open>The keys in the cache are tracked under their subjects and resources, where these have no colons.\<close>

definition policy_tracked :: "('c \<Rightarrow> string \<rightharpoonup> json) \<Rightarrow> ('s, 'c, policy_index) pworld \<Rightarrow> bool" where
  "policy_tracked cview s \<longleftrightarrow> (\<forall>k. cview (w_cache (pw_world s)) k \<noteq> None \<longrightarrow>
     (\<forall>p. colon_free p \<longrightarrow> policy_owned p k \<longrightarrow> k \<in> set (index_keys (fst (pw_cache s)) p)) \<and>
     (\<forall>ty i. policy_about ty i k \<longrightarrow> k \<in> set (index_keys (snd (pw_cache s)) (ty @ '':'' @ i))))"

lemma policy_tracked_le:
  "policy_tracked cview s \<Longrightarrow> cview (w_cache (pw_world s')) \<subseteq>\<^sub>m cview (w_cache (pw_world s)) \<Longrightarrow> pw_cache s' = pw_cache s \<Longrightarrow>
   policy_tracked cview s'"
  unfolding policy_tracked_def map_le_def by (metis domIff)

text \<open>The parts of a key that are noted.\<close>

lemma owned_part:
  assumes "policy_owned p k" "colon_free p"
  shows "length (split_on (CHR '':'') k) \<ge> 6 \<and> split_on (CHR '':'') k ! 3 = p"
proof -
  obtain ty i h where k: "k = cache_key [''policy'', ''eval'', p, ty, i, h]" "CHR '':'' \<notin> set h"
    using assms(1) by (auto simp: policy_owned_def)
  obtain a as where a: "split_on (CHR '':'') ty = a # as" by (cases "split_on (CHR '':'') ty") auto
  obtain b bs where b: "split_on (CHR '':'') i = b # bs" by (cases "split_on (CHR '':'') i") auto
  show ?thesis
    unfolding k(1) split_policy_key [OF k(2)] using assms(2) by (simp add: colon_free_def split_on_single a b)
qed

lemma about_part:
  assumes "policy_about ty i k"
  shows "length (split_on (CHR '':'') k) \<ge> 6 \<and>
    split_on (CHR '':'') k ! 4 @ '':'' @ split_on (CHR '':'') k ! 5 = ty @ '':'' @ i"
proof -
  obtain p h where k: "k = cache_key [''policy'', ''eval'', p, ty, i, h]" "CHR '':'' \<notin> set h"
    "CHR '':'' \<notin> set p" "CHR '':'' \<notin> set ty" "CHR '':'' \<notin> set i"
    using assms by (auto simp: policy_about_def)
  show ?thesis unfolding k(1) split_policy_key [OF k(2)] using k by (simp add: split_on_single eval_nat_numeral)
qed

lemma policy_track_index:
  "length (split_on (CHR '':'') k) \<ge> 6 \<Longrightarrow> policy_track (split_on (CHR '':'') k) k ix =
    (index_add (split_on (CHR '':'') k ! 3) k (fst ix),
     index_add (split_on (CHR '':'') k ! 4 @ '':'' @ split_on (CHR '':'') k ! 5) k (snd ix))"
  by (simp add: policy_track_def)

lemma policy_track_keeps:
  "k' \<in> set (index_keys (fst ix) p) \<Longrightarrow> k' \<in> set (index_keys (fst (policy_track ps k ix)) p)"
  "k' \<in> set (index_keys (snd ix) r) \<Longrightarrow> k' \<in> set (index_keys (snd (policy_track ps k ix)) r)"
  by (auto simp: policy_track_def index_keys_add)

context reliable_cache
begin

lemma policy_core_get:
  assumes "policy_tracked cview s" "run_state (dc_get (policy_core_cache ch ttl) cx k) s = (r, s')"
  shows "policy_tracked cview s' \<and> only_cache s s' \<and> policy_core_view cview s' \<subseteq>\<^sub>m policy_core_view cview s \<and>
    (\<forall>d. r = Inr (Some d) \<longrightarrow> policy_core_view cview s k = Some d)"
proof -
  have g: "run_state (core_decision_get ch json_policy_cached cx k) s = (r, s')"
    using assms(2) by (simp add: policy_core_cache_def)
  from core_get_view [OF g] policy_tracked_le [OF assms(1), of s'] decoded_view_le [of cview s' s json_policy_cached]
  show ?thesis by (simp add: policy_core_view_def)
qed

lemma policy_core_set:
  assumes inv: "policy_tracked cview s" and d: "challenge_stored d"
    and run: "run_state (dc_set (policy_core_cache ch ttl) cx k d e) s = (u, s')"
  shows "policy_tracked cview s' \<and> only_cache s s' \<and>
    (policy_core_view cview s' \<subseteq>\<^sub>m policy_core_view cview s \<or>
     policy_core_view cview s' \<subseteq>\<^sub>m (policy_core_view cview s)(k \<mapsto> d))"
proof -
  have run': "run_state (core_decision_set ch policy_cached_json policy_track (positive_ttl DefaultDecisionTTL ttl) cx k d e) s =
      (u, s')"
    using run by (simp add: policy_core_cache_def)
  show ?thesis
  proof (rule core_set_view [OF run', of json_policy_cached])
    fix j assume "policy_cached_json d = Inr j"
    then show "json_policy_cached j = Inr d" using d by (rule json_policy_cached_of)
  next
    assume "only_cache s s'" "pw_cache s' = pw_cache s" "cview (w_cache (pw_world s')) \<subseteq>\<^sub>m cview (w_cache (pw_world s))"
    then show ?thesis
      using policy_tracked_le [OF inv, of s'] decoded_view_le [of cview s' s json_policy_cached] by (simp add: policy_core_view_def)
  next
    fix j
    assume s': "only_cache s s'" "pw_cache s' = policy_track (split_on (CHR '':'') k) k (pw_cache s)"
      "cview (w_cache (pw_world s')) \<subseteq>\<^sub>m (cview (w_cache (pw_world s)))(k \<mapsto> j)"
      "decoded_view json_policy_cached cview s' \<subseteq>\<^sub>m (decoded_view json_policy_cached cview s)(k \<mapsto> d)"
    have "policy_tracked cview s'"
      unfolding policy_tracked_def
    proof (intro allI impI)
      fix k' assume n: "cview (w_cache (pw_world s')) k' \<noteq> None"
      show "(\<forall>p. colon_free p \<longrightarrow> policy_owned p k' \<longrightarrow> k' \<in> List.set (index_keys (fst (pw_cache s')) p)) \<and>
        (\<forall>ty i. policy_about ty i k' \<longrightarrow> k' \<in> List.set (index_keys (snd (pw_cache s')) (ty @ '':'' @ i)))"
      proof (cases "k' = k")
        case True
        then show ?thesis
          using owned_part [of _ k] about_part [of _ _ k] policy_track_index [of k "pw_cache s"]
          by (auto simp: s'(2) index_keys_add)
      next
        case False
        obtain j' where "cview (w_cache (pw_world s')) k' = Some j'" using n by auto
        from map_le_Some [OF s'(3) this] False have "cview (w_cache (pw_world s)) k' \<noteq> None" by simp
        with inv show ?thesis unfolding policy_tracked_def s'(2) using policy_track_keeps by blast
      qed
    qed
    with s' show ?thesis by (simp add: policy_core_view_def)
  qed
qed

text \<open>Deleting the keys of an index entry, and the entry.\<close>

lemma tracked_delete:
  assumes inv: "policy_tracked cview s" and cx: "ctx_err cx = None"
    and run: "run_state (core_delete_keys ch cx ks) s = (u, s1)"
    and ix: "\<And>p k. k \<notin> List.set ks \<Longrightarrow> k \<in> List.set (index_keys (fst (pw_cache s)) p) \<Longrightarrow> k \<in> List.set (index_keys (fst ix) p)"
      "\<And>p k. k \<notin> List.set ks \<Longrightarrow> k \<in> List.set (index_keys (snd (pw_cache s)) p) \<Longrightarrow> k \<in> List.set (index_keys (snd ix) p)"
  shows "policy_tracked cview (s1\<lparr>pw_cache := ix\<rparr>) \<and> only_cache s (s1\<lparr>pw_cache := ix\<rparr>) \<and>
    policy_core_view cview (s1\<lparr>pw_cache := ix\<rparr>) \<subseteq>\<^sub>m policy_core_view cview s \<and>
    (\<forall>k \<in> List.set ks. policy_core_view cview (s1\<lparr>pw_cache := ix\<rparr>) k = None)"
proof -
  note d = core_delete_spec [OF run cx]
  have "policy_tracked cview (s1\<lparr>pw_cache := ix\<rparr>)"
    unfolding policy_tracked_def
  proof (intro allI impI)
    fix k assume "cview (w_cache (pw_world (s1\<lparr>pw_cache := ix\<rparr>))) k \<noteq> None"
    then have k: "cview (w_cache (pw_world s1)) k \<noteq> None" by simp
    have ks: "k \<notin> List.set ks" using k conjunct2 [OF conjunct2 [OF conjunct2 [OF d]]] by metis
    have "cview (w_cache (pw_world s)) k \<noteq> None" by (metis k conjunct1 [OF conjunct2 [OF conjunct2 [OF d]]] map_le_None)
    with inv have "(\<forall>p. colon_free p \<longrightarrow> policy_owned p k \<longrightarrow> k \<in> List.set (index_keys (fst (pw_cache s)) p)) \<and>
       (\<forall>ty i. policy_about ty i k \<longrightarrow> k \<in> List.set (index_keys (snd (pw_cache s)) (ty @ '':'' @ i)))"
      by (simp add: policy_tracked_def)
    with ix ks show "(\<forall>p. colon_free p \<longrightarrow> policy_owned p k \<longrightarrow>
        k \<in> List.set (index_keys (fst (pw_cache (s1\<lparr>pw_cache := ix\<rparr>))) p)) \<and>
      (\<forall>ty i. policy_about ty i k \<longrightarrow> k \<in> List.set (index_keys (snd (pw_cache (s1\<lparr>pw_cache := ix\<rparr>))) (ty @ '':'' @ i)))"
      by simp
  qed
  moreover have "policy_core_view cview (s1\<lparr>pw_cache := ix\<rparr>) \<subseteq>\<^sub>m policy_core_view cview s"
    using d decoded_view_le [of cview "s1\<lparr>pw_cache := ix\<rparr>" s json_policy_cached] by (simp add: policy_core_view_def)
  ultimately show ?thesis using d by (simp add: only_cache_def policy_core_view_def decoded_view_def)
qed

text \<open>A decision of a key that is not tracked is not in the cache.\<close>

lemma untracked_view:
  assumes "policy_tracked cview s"
  shows "colon_free p \<Longrightarrow> policy_owned p k \<Longrightarrow> k \<notin> List.set (index_keys (fst (pw_cache s)) p) \<Longrightarrow>
      policy_core_view cview s k = None"
    and "policy_about ty i k \<Longrightarrow> k \<notin> List.set (index_keys (snd (pw_cache s)) (ty @ '':'' @ i)) \<Longrightarrow>
      policy_core_view cview s k = None"
  using assms unfolding policy_tracked_def policy_core_view_def by (metis decoded_view_None)+

lemma policy_core_principal:
  assumes inv: "policy_tracked cview s" and cx: "ctx_err cx = None"
    and run: "run_state (dc_invalidate_principal (policy_core_cache ch ttl) cx p) s = (u, s')"
  shows "policy_tracked cview s' \<and> only_cache s s' \<and> policy_core_view cview s' \<subseteq>\<^sub>m policy_core_view cview s \<and>
    (colon_free p \<longrightarrow> (\<forall>k. policy_owned p k \<longrightarrow> policy_core_view cview s' k = None))"
proof (cases "map_of (fst (pw_cache s)) p")
  case None
  with run have "s' = s" by (auto simp: policy_core_cache_def policy_core_invalidate_principal_def on_own_def)
  moreover have "index_keys (fst (pw_cache s)) p = []" using None by (simp add: index_keys_def)
  ultimately show ?thesis using inv untracked_view(1) [OF inv] by (simp add: only_cache_def)
next
  case (Some ks)
  obtain v s1 where d: "run_state (core_delete_keys ch cx ks) s = (v, s1)" by (rule prod.exhaust)
  let ?ix = "(AList.delete p (fst (pw_cache s)), snd (pw_cache s))"
  have ks: "index_keys (fst (pw_cache s)) p = ks" using Some by (simp add: index_keys_def)
  have s': "s' = s1\<lparr>pw_cache := ?ix\<rparr>"
    using run Some d core_delete_spec [OF d cx]
    by (auto simp: policy_core_cache_def policy_core_invalidate_principal_def on_own_def)
  have t: "policy_tracked cview s' \<and> only_cache s s' \<and> policy_core_view cview s' \<subseteq>\<^sub>m policy_core_view cview s \<and>
      (\<forall>k \<in> List.set ks. policy_core_view cview s' k = None)"
    unfolding s' by (rule tracked_delete [OF inv cx d]) (use ks in \<open>auto simp: index_keys_delete\<close>)
  have "policy_core_view cview s' k = None" if "colon_free p" "policy_owned p k" for k
  proof (cases "k \<in> List.set ks")
    case True with t show ?thesis by blast
  next
    case False
    with untracked_view(1) [OF inv that] ks t show ?thesis by (auto intro: map_le_None)
  qed
  with t show ?thesis by blast
qed

lemma policy_core_resource:
  assumes inv: "policy_tracked cview s" and cx: "ctx_err cx = None"
    and run: "run_state (pc_invalidate_resource (policy_core_cache ch ttl) cx ty i) s = (u, s')"
  shows "policy_tracked cview s' \<and> only_cache s s' \<and> policy_core_view cview s' \<subseteq>\<^sub>m policy_core_view cview s \<and>
    (\<forall>k. policy_about ty i k \<longrightarrow> policy_core_view cview s' k = None)"
proof (cases "map_of (snd (pw_cache s)) (ty @ '':'' @ i)")
  case None
  with run have "s' = s" by (auto simp: policy_core_cache_def policy_core_invalidate_resource_def on_own_def)
  moreover have "index_keys (snd (pw_cache s)) (ty @ '':'' @ i) = []" using None by (simp add: index_keys_def)
  ultimately show ?thesis using inv untracked_view(2) [OF inv] by (simp add: only_cache_def)
next
  case (Some ks)
  obtain v s1 where d: "run_state (core_delete_keys ch cx ks) s = (v, s1)" by (rule prod.exhaust)
  let ?ix = "(fst (pw_cache s), AList.delete (ty @ '':'' @ i) (snd (pw_cache s)))"
  have ks: "index_keys (snd (pw_cache s)) (ty @ '':'' @ i) = ks" using Some by (simp add: index_keys_def)
  have s': "s' = s1\<lparr>pw_cache := ?ix\<rparr>"
    using run Some d core_delete_spec [OF d cx]
    by (auto simp: policy_core_cache_def policy_core_invalidate_resource_def on_own_def)
  have t: "policy_tracked cview s' \<and> only_cache s s' \<and> policy_core_view cview s' \<subseteq>\<^sub>m policy_core_view cview s \<and>
      (\<forall>k \<in> List.set ks. policy_core_view cview s' k = None)"
    unfolding s' by (rule tracked_delete [OF inv cx d]) (use ks in \<open>auto simp: index_keys_delete\<close>)
  have "policy_core_view cview s' k = None" if "policy_about ty i k" for k
  proof (cases "k \<in> List.set ks")
    case True with t show ?thesis by blast
  next
    case False
    with untracked_view(2) [OF inv that] ks t show ?thesis by (auto intro: map_le_None)
  qed
  with t show ?thesis by blast
qed

lemma policy_core_all:
  assumes inv: "policy_tracked cview s" and cx: "ctx_err cx = None"
    and run: "run_state (dc_invalidate_all (policy_core_cache ch ttl) cx) s = (u, s')"
  shows "policy_tracked cview s' \<and> only_cache s s' \<and> policy_core_view cview s' \<subseteq>\<^sub>m policy_core_view cview s \<and>
    (\<forall>p k. colon_free p \<longrightarrow> policy_owned p k \<longrightarrow> policy_core_view cview s' k = None)"
proof -
  let ?ks = "concat (map snd (fst (pw_cache s)))"
  obtain v s1 where d: "run_state (core_delete_keys ch cx ?ks) s = (v, s1)" by (rule prod.exhaust)
  have s': "s' = s1\<lparr>pw_cache := ([], [])\<rparr>"
    using run d by (auto simp: policy_core_cache_def policy_core_invalidate_all_def on_own_def)
  have c: "cview (w_cache (pw_world s1)) \<subseteq>\<^sub>m cview (w_cache (pw_world s)) \<and> only_cache s s1 \<and>
      (\<forall>k \<in> List.set ?ks. cview (w_cache (pw_world s1)) k = None)"
    using core_delete_spec [OF d cx] by blast
  have le: "policy_core_view cview s' \<subseteq>\<^sub>m policy_core_view cview s"
    using c decoded_view_le [of cview s' s json_policy_cached] by (simp add: s' policy_core_view_def)
  have gone: "cview (w_cache (pw_world s')) k = None" if "colon_free p" "policy_owned p k" for p k
  proof (cases "k \<in> List.set ?ks")
    case True
    with c have "cview (w_cache (pw_world s1)) k = None" by blast
    then show ?thesis by (simp add: s')
  next
    case False
    with index_keys_concat have "k \<notin> List.set (index_keys (fst (pw_cache s)) p)" by blast
    with inv that have "cview (w_cache (pw_world s)) k = None" by (auto simp: policy_tracked_def)
    with c show ?thesis by (auto simp: s' intro: map_le_None)
  qed
  have "policy_tracked cview s'"
    unfolding policy_tracked_def
  proof (intro allI impI)
    fix k assume n: "cview (w_cache (pw_world s')) k \<noteq> None"
    have "\<not> policy_about ty i k" for ty i
    proof
      assume "policy_about ty i k"
      then have "\<exists>p. colon_free p \<and> policy_owned p k"
        by (auto simp: policy_about_def policy_owned_def colon_free_def)
      then obtain p where "colon_free p" "policy_owned p k" by blast
      from gone [OF this] n show False by simp
    qed
    moreover have "\<not> (colon_free p \<and> policy_owned p k)" for p using gone [of p k] n by auto
    ultimately show "(\<forall>p. colon_free p \<longrightarrow> policy_owned p k \<longrightarrow> k \<in> List.set (index_keys (fst (pw_cache s')) p)) \<and>
      (\<forall>ty i. policy_about ty i k \<longrightarrow> k \<in> List.set (index_keys (snd (pw_cache s')) (ty @ '':'' @ i)))"
      by blast
  qed
  with le gone c show ?thesis by (simp add: s' only_cache_def policy_core_view_def decoded_view_None)
qed

lemma policy_core_decisions:
  "resource_decisions (policy_core_cache ch ttl) (policy_tracked cview) (policy_core_view cview) policy_owned colon_free
     challenge_stored policy_about"
proof (unfold_locales, goal_cases)
  case 1
  then show ?case using policy_core_get [of _ ttl] by (simp add: decision_cache.truncate_def)
next
  case 2
  then show ?case using policy_core_set [of _ _ ttl] by (simp add: decision_cache.truncate_def)
next
  case 3
  then show ?case using policy_core_principal [of _ _ ttl] by (simp add: decision_cache.truncate_def)
next
  case 4
  then show ?case using policy_core_all [of _ _ ttl] by (simp add: decision_cache.truncate_def)
next
  case (5 s s')
  then show ?case
    using decoded_view_frame [OF 5] by (simp add: policy_core_view_def policy_tracked_def same_cache_def)
next
  case (6 s cx ty i u s') then show ?case by (rule policy_core_resource)
qed

end

interpretation policy_core: resource_decisions "policy_core_cache (memory_cache now) ttl" "policy_tracked mc_view"
  "policy_core_view mc_view" policy_owned colon_free challenge_stored policy_about
  for now ttl
  by (rule mcache.policy_core_decisions)

end
