(* ===== verification/Policy_Properties.thy ===== *)
theory Policy_Properties
  imports Policy_Caches Memory_Models Timed_Samples
begin

text \<open>
  Composable policies on an engine whose event handlers leave the cache alone, the in-memory one among
  them: the properties, a concrete service for their witnesses, and what the code does not do.
\<close>

section \<open>The service beside an engine on memory\<close>

definition memory_policy_service ::
  "(mem, mcache) auth \<Rightarrow> (mem, mcache, 'k) policy_decisions option \<Rightarrow> policy_config \<Rightarrow> (nat \<Rightarrow> time) \<Rightarrow>
   (mem, mcache, 'k) policy_service" where
  "memory_policy_service a c cfg wall =
     \<lparr>ls_auth = a, ls_adapter = Some (memory_adapter (au_rt a)), ls_cache = c, ls_cfg = cfg, ls_clock = wall, ls_wall = wall\<rparr>"

definition policy_on_memory :: "runtime \<Rightarrow> (mem, mcache, 'k) policy_service \<Rightarrow> bool" where
  "policy_on_memory rt sv \<longleftrightarrow> on_memory rt (ls_auth sv)"

lemma memory_policy:
  assumes "policy_on_memory rt sv" "policy_caching (ls_cache sv) cinv view sure"
  shows "policy sv cinv view sure"
proof (unfold_locales, goal_cases)
  case (1 cx ev w y w')
  have "benign (ls_auth sv)" using assms(1) by (simp add: policy_on_memory_def on_memory_def)
  from benign_publish [OF this 1] show ?case by simp
next
  case 2 then show ?case by (rule assms(2))
qed

lemma policy_caches:
  "policy_caching (Some (policy_memory_cache wall ttl)) (\<lambda>_. True) policy_memory_view (\<lambda>_. True)"
  "policy_caching (Some (policy_core_cache (memory_cache clk) ttl)) (policy_tracked mc_view) (policy_core_view mc_view) colon_free"
  "policy_caching None (\<lambda>_. True) (\<lambda>_. Map.empty) (\<lambda>_. True)"
  using policy_memory.resource_decisions_axioms policy_core.resource_decisions_axioms
  by (simp_all add: policy_caching_def)

interpretation mem_policy: policy
  "memory_policy_service (memory_auth rt en cn hf vf d s) (Some (policy_memory_cache wall ttl)) cfg clk"
  "\<lambda>_. True" policy_memory_view "\<lambda>_. True"
  for rt en cn hf vf d s wall ttl cfg clk
  by (rule memory_policy [of rt]) (simp_all add: policy_on_memory_def memory_policy_service_def memory_auth_ok policy_caches)

section \<open>Steps\<close>

text \<open>
  What the registered policies decide about a request, and that no cached decision about the requests \<open>Q\<close>
  differs from it.
\<close>

definition current_verdict ::
  "(mem, mcache, 'k) policy_service \<Rightarrow> ((mem, mcache, 'k) evaluator \<Rightarrow> policy_request \<Rightarrow> verdict) \<Rightarrow>
   (mem, mcache, 'k) policy_state \<Rightarrow> policy_request \<Rightarrow> verdict" where
  "current_verdict sv J s q = root_verdict (pcf_combinator (ls_cfg sv)) (map (\<lambda>e. J e q) (registered s))"

definition policy_in_order ::
  "(mem, mcache, 'k) policy_service \<Rightarrow> ((mem, mcache, 'k) pworld \<Rightarrow> bool) \<Rightarrow>
   ((mem, mcache, 'k) pworld \<Rightarrow> string \<rightharpoonup> policy_cached) \<Rightarrow>
   ((mem, mcache, 'k) evaluator \<Rightarrow> policy_request \<Rightarrow> verdict) \<Rightarrow> policy_request set \<Rightarrow>
   (mem, mcache, 'k) policy_state \<Rightarrow> bool" where
  "policy_in_order sv cinv view J Q s \<longleftrightarrow> registry_ok s \<and> (\<forall>e \<in> set (registered s). cacheable J e) \<and> cinv (po_world s) \<and>
     (\<forall>q \<in> Q. \<forall>d. view (po_world s) (policy_key sv q) = Some d \<longrightarrow> current_verdict sv J s q = Inr (pk_effect d))"

text \<open>
  The calls of the service. Policies that are registered can be cached; the requests \<open>Q\<close> are those
  that are evaluated; invalidations are made in a context that is not cancelled.
\<close>

inductive policy_step ::
  "(mem, mcache, 'k) policy_service \<Rightarrow> ((mem, mcache, 'k) evaluator \<Rightarrow> policy_request \<Rightarrow> verdict) \<Rightarrow> policy_request set \<Rightarrow>
   (mem, mcache, 'k) policy_state \<Rightarrow> (mem, mcache, 'k) policy_state \<Rightarrow> bool" for sv J Q where
  step_policy_evaluate: "q \<in> Q \<Longrightarrow> run_state (policy_evaluate sv cx q) s = (r1, s') \<Longrightarrow> policy_step sv J Q s s'"
| step_register_policy: "\<forall>e. p = Some e \<longrightarrow> cacheable J e \<Longrightarrow> run_state (register_policy sv p) s = (r2, s') \<Longrightarrow>
    policy_step sv J Q s s'"
| step_remove_policy: "run_state (remove_policy sv i) s = (r2, s') \<Longrightarrow> policy_step sv J Q s s'"
| step_policy_invalidate_principal: "ctx_err cx = None \<Longrightarrow> run_state (policy_invalidate_principal sv cx p') s = (r2, s') \<Longrightarrow>
    policy_step sv J Q s s'"
| step_policy_invalidate_resource: "ctx_err cx = None \<Longrightarrow> run_state (policy_invalidate_resource sv cx ty i) s = (r2, s') \<Longrightarrow>
    policy_step sv J Q s s'"
| step_policy_invalidate_all: "ctx_err cx = None \<Longrightarrow> run_state (policy_invalidate_all sv cx) s = (r2, s') \<Longrightarrow>
    policy_step sv J Q s s'"

lemma invalidations_registry:
  "run_state (policy_invalidate_principal sv cx p) s = (r, s') \<Longrightarrow> registered s' = registered s \<and> registry_ok s' = registry_ok s"
  "run_state (policy_invalidate_resource sv cx ty i) s = (r, s') \<Longrightarrow> registered s' = registered s \<and> registry_ok s' = registry_ok s"
  "run_state (policy_invalidate_all sv cx) s = (r, s') \<Longrightarrow> registered s' = registered s \<and> registry_ok s' = registry_ok s"
  by (auto simp: policy_invalidate_principal_def policy_invalidate_resource_def policy_invalidate_all_def
      split: option.splits if_splits prod.splits)

context policy
begin

text \<open>The definitions of the locale, as equations outside.\<close>

lemma decided_eq: "decided J s q = root_verdict (pcf_combinator (ls_cfg sv)) (map (\<lambda>e. J e q) (registered s))"
  by (rule decided_def)

lemma fresh_eq: "fresh J Q s \<longleftrightarrow> cinv (po_world s) \<and>
    (\<forall>q \<in> Q. \<forall>d. view (po_world s) (policy_key sv q) = Some d \<longrightarrow> decided J s q = Inr (pk_effect d))"
  by (rule fresh_def)

end

lemma policy_view:
  assumes "policy sv cinv view sure"
  shows "policy.decided sv J s q = current_verdict sv J s q"
    "policy.fresh sv cinv view J Q s \<longleftrightarrow> cinv (po_world s) \<and>
      (\<forall>q \<in> Q. \<forall>d. view (po_world s) (policy_key sv q) = Some d \<longrightarrow> current_verdict sv J s q = Inr (pk_effect d))"
  by (simp_all add: policy.decided_eq [OF assms] policy.fresh_eq [OF assms] current_verdict_def)

lemma policy_order_eq:
  assumes "policy sv cinv view sure"
  shows "policy_in_order sv cinv view J Q s \<longleftrightarrow>
    registry_ok s \<and> (\<forall>e \<in> set (registered s). cacheable J e) \<and> policy.fresh sv cinv view J Q s"
  by (simp add: policy_in_order_def policy_view [OF assms])

lemma evaluate_invalid:
  "ps_type (pq_resource q) = [] \<or> pq_action q = [] \<Longrightarrow> run_state (policy_evaluate sv cx q) s = (r, s') \<Longrightarrow>
   r = Inl ErrInvalidRequest \<and> s' = s"
  by (auto simp: policy_evaluate_def)

lemma policy_step_keeps:
  assumes on: "policy_on_memory rt sv" and c: "policy_caching (ls_cache sv) cinv view sure"
    and Q: "inj_on (policy_key sv) Q" "\<And>q. q \<in> Q \<Longrightarrow> sure (pr_subject (pq_principal q))"
    and st: "policy_step sv J Q s s'" and s: "policy_in_order sv cinv view J Q s"
  shows "policy_in_order sv cinv view J Q s'"
proof -
  note p = memory_policy [OF on c]
  have reg: "registry_ok s" and cb: "\<And>e. e \<in> set (registered s) \<Longrightarrow> cacheable J e" and f: "policy.fresh sv cinv view J Q s"
    using s by (simp_all add: policy_order_eq [OF p])
  show ?thesis
    using st
  proof (cases rule: policy_step.cases)
    case (step_policy_evaluate q cx r1)
    show ?thesis
    proof (cases "ps_type (pq_resource q) = [] \<or> pq_action q = []")
      case True
      with evaluate_invalid [OF True step_policy_evaluate(2)] s show ?thesis by simp
    next
      case False
      then have "ps_type (pq_resource q) \<noteq> []" "pq_action q \<noteq> []" by simp_all
      from policy.evaluate_spec [OF p f cb Q(1) step_policy_evaluate(1) this step_policy_evaluate(2)] reg cb
      show ?thesis by (simp add: policy_order_eq [OF p] registered_def registry_ok_def)
    qed
  next
    case (step_register_policy x r2)
    from register_refines [OF reg step_register_policy(2)] cb step_register_policy(1)
      policy.register_keeps_fresh [OF p f Q(2) step_register_policy(2)]
    show ?thesis by (auto simp: policy_order_eq [OF p] registering_def split: option.splits if_splits)
  next
    case (step_remove_policy i r2)
    from remove_refines [OF reg step_remove_policy] cb policy.remove_keeps_fresh [OF p f Q(2) step_remove_policy]
    show ?thesis by (auto simp: policy_order_eq [OF p] removing_def split: if_splits)
  next
    case (step_policy_invalidate_principal cx p' r2)
    with invalidations_registry(1) [OF step_policy_invalidate_principal(2)] policy.invalidations_keep_fresh(1) [OF p f] reg cb show ?thesis
      by (simp add: policy_order_eq [OF p])
  next
    case (step_policy_invalidate_resource cx ty i r2)
    with invalidations_registry(2) [OF step_policy_invalidate_resource(2)] policy.invalidations_keep_fresh(2) [OF p f] reg cb show ?thesis
      by (simp add: policy_order_eq [OF p])
  next
    case (step_policy_invalidate_all cx r2)
    with invalidations_registry(3) [OF step_policy_invalidate_all(2)] policy.invalidations_keep_fresh(3) [OF p f] reg cb show ?thesis
      by (simp add: policy_order_eq [OF p])
  qed
qed

lemma policy_run_keeps:
  assumes run: "rtranclp (policy_step sv J Q) s s'" and on: "policy_on_memory rt sv"
    and c: "policy_caching (ls_cache sv) cinv view sure"
    and Q: "inj_on (policy_key sv) Q" "\<And>q. q \<in> Q \<Longrightarrow> sure (pr_subject (pq_principal q))"
    and s: "policy_in_order sv cinv view J Q s"
  shows "policy_in_order sv cinv view J Q s'"
  using run
proof (induction rule: rtranclp_induct)
  case (step y z)
  from policy_step_keeps [OF on c Q step.hyps(2) step.IH] show ?case .
qed (use s in simp)

section \<open>Properties\<close>


text \<open>C34: The registry is a list of policies with identifiers of their own, in the order of registration:
  registering appends, and refuses no policy, an empty identifier or one that is taken; removing
  takes out exactly the policy with the identifier; reading finds it; a call that fails changes nothing.\<close>

theorem policy_registry_refines:
  assumes "registry_ok s"
  shows "(case run_state (register_policy sv p) s of (r, s') \<Rightarrow> registry_ok s' \<and> (case registering p (registered s) of
       Inl e \<Rightarrow> r = Inl e \<and> s' = s
     | Inr ps \<Rightarrow> r = Inr () \<and> registered s' = ps)) \<and>
   (case run_state (remove_policy sv i) s of (r, s') \<Rightarrow> registry_ok s' \<and> (case removing i (registered s) of
       Inl e \<Rightarrow> r = Inl e \<and> s' = s
     | Inr ps \<Rightarrow> r = Inr () \<and> registered s' = ps)) \<and>
   run_state (get_policy i) s = (case List.find (\<lambda>p. pe_id p = i) (registered s) of
     None \<Rightarrow> Inl ErrPolicyNotFound | Some p \<Rightarrow> Inr p, s) \<and>
   run_state list_policies s = (registered s, s) \<and> distinct (map pe_id (registered s))"
  using register_refines [OF assms, of sv p] remove_refines [OF assms, of sv i] get_refines [OF assms, of i]
    registered_ids(1) [OF assms] assms
  by (auto simp: list_policies_def registered_def registry_ok_def split: prod.splits)


text \<open>A decision with its challenge comes back from a cache as it was made: from the fields that are cached
  in memory, and from the JSON text a core cache keeps, unless its instant has none.\<close>

theorem policy_decision_roundtrip:
  "policy_decision_of rt (policy_cached_of d) = d \<and>
   (case policy_cached_json (policy_cached_of d) of
      Inl e \<Rightarrow> e = json_error
    | Inr j \<Rightarrow> map_sum id (policy_decision_of rt) (json_policy_cached j) = Inr d)"
proof -
  have m: "map_challenge rt (challenge_map ch) = ch" for ch
    by (cases "ch_details ch") (auto simp: map_challenge_def challenge_map_def any_text_def)
  have d: "policy_decision_of rt (policy_cached_of d) = d"
    by (cases "pd_challenge d") (simp_all add: policy_decision_of_def policy_cached_of_def m)
  show ?thesis
  proof (cases "policy_cached_json (policy_cached_of d)")
    case (Inl e)
    then show ?thesis using d by (simp add: policy_cached_json_def json_times_def split: if_splits)
  next
    case (Inr j)
    from json_policy_cached_of [OF Inr challenge_stored_of] d Inr show ?thesis by simp
  qed
qed


section \<open>A service with one policy\<close>

definition policy_sample :: "(mem, mcache, policy_cached items) policy_service" where
  "policy_sample = memory_policy_service timed_auth (Some (policy_memory_cache (\<lambda>_. 0) minute)) default_policy_config (\<lambda>_. 0)"

definition owner_state :: "(mem, mcache, policy_cached items) policy_state" where
  "owner_state =
     \<lparr>po_world = \<lparr>pw_world = sample_start, pw_cache = Map.empty, pw_ticks = 0\<rparr>,
      po_policies = [''core:require_owner'' \<mapsto> require_resource_owner (\<lambda>_. 0)], po_order = [''core:require_owner'']\<rparr>"

definition owner_verdict :: "policy_request \<Rightarrow> verdict" where
  "owner_verdict q = Inr
     (if pr_subject (pq_principal q) \<noteq> [] \<and> pr_subject (pq_principal q) = ps_owner (pq_resource q)
      then EffectAllow else EffectDeny)"

definition edit_of :: "string \<Rightarrow> policy_request" where
  "edit_of owner = \<lparr>pq_principal = \<lparr>pr_subject = ''ann'', pr_type = PrincipalUser\<rparr>, pq_user = None, pq_organization = [],
     pq_resource = with_owner (policy_new_resource ''doc'' ''1'') owner, pq_action = ''edit'', pq_attributes = Map.empty\<rparr>"

lemma owner_cacheable: "cacheable (\<lambda>_. owner_verdict) (require_resource_owner wall)"
  by (auto simp: cacheable_def decides_def require_resource_owner_def new_rule_def owner_verdict_def same_cache_def
      allow_ok_def deny_ok_def allow_decision_def deny_decision_def tick_def)

lemma owner_registered [simp]: "registered owner_state = [require_resource_owner (\<lambda>_. 0)]" "registry_ok owner_state"
  by (simp_all add: registered_def registry_ok_def owner_state_def List.map_filter_def require_resource_owner_def new_rule_def)

lemma policy_sample_simps [simp]:
  "ls_cache policy_sample = Some (policy_memory_cache (\<lambda>_. 0) minute)" "ls_auth policy_sample = timed_auth"
  "ls_cfg policy_sample = default_policy_config" "ls_clock policy_sample = (\<lambda>_. 0)" "ls_wall policy_sample = (\<lambda>_. 0)"
  by (simp_all add: policy_sample_def memory_policy_service_def)

lemma policy_sample_on: "policy_on_memory timed_runtime policy_sample"
  using timed_auth_on by (simp add: policy_on_memory_def)

lemma policy_sample_caching: "policy_caching (ls_cache policy_sample) (\<lambda>_. True) policy_memory_view (\<lambda>_. True)"
  by (simp add: policy_caches)

lemma owner_in_order:
  "policy_in_order policy_sample (\<lambda>_. True) policy_memory_view (\<lambda>_. owner_verdict) Q owner_state"
  by (simp add: policy_in_order_def owner_cacheable policy_memory_view_def items_view_def)
    (simp add: owner_state_def)

lemma edit_simps [simp]: "ps_type (pq_resource (edit_of o')) = ''doc''" "ps_id (pq_resource (edit_of o')) = ''1''"
  "pq_action (edit_of o') = ''edit''" "pr_subject (pq_principal (edit_of o')) = ''ann''" "ps_owner (pq_resource (edit_of o')) = o'"
  by (simp_all add: edit_of_def with_owner_def policy_new_resource_def)

lemma bob_denied: "decides (require_resource_owner wall) background (edit_of ''bob'') (Inr EffectDeny)"
proof -
  have "decides (require_resource_owner wall) background (edit_of ''bob'') (owner_verdict (edit_of ''bob''))"
    using owner_cacheable [of wall] unfolding cacheable_def by blast
  then show ?thesis by (simp add: owner_verdict_def)
qed

lemma edit_alone: "inj_on f {edit_of o'}"
  by simp

section \<open>Witnesses\<close>


theorem policy_registry_refines_witness:
  "fst (run_state (remove_policy policy_sample ''other'') owner_state) = Inl ErrPolicyNotFound"
  using policy_registry_refines [OF owner_registered(2), where sv = policy_sample and p = None and i = "''other''"]
  by (auto simp: removing_def require_resource_owner_def new_rule_def split: prod.splits)



section \<open>What the service does not do\<close>

text \<open>
  The key of the cache has neither the owner nor the organization of the resource, nor the attributes or
  the user of the request: who may edit the document of one owner is answered from the cache for the
  document of another.
\<close>

lemma owner_not_in_key: "policy_key sv (edit_of ''ann'') = policy_key sv (edit_of ''bob'')"
  by (simp add: policy_key_def edit_of_def with_owner_def policy_new_resource_def)

lemma owner_answered_from_cache:
  assumes "view (po_world s) (policy_key sv (edit_of ''ann'')) = Some d" "pk_effect d = EffectAllow"
    and "run_state (policy_lookup sv cx (policy_key sv (edit_of ''ann''))) (po_world s) = (Some d, w)"
  shows "fst (run_state (policy_authorize sv cx (edit_of ''bob'')) s) = Inr () \<and> owner_verdict (edit_of ''bob'') = Inr EffectDeny"
  using assms(2,3)
  by (simp add: policy_authorize_def policy_evaluate_def owner_not_in_key [symmetric] policy_decision_of_def is_allowed_def
      owner_verdict_def)

text \<open>An evaluator that abstains, with the zero decision, counts as one that allows to all-of, and Not makes it allow.\<close>

definition abstaining :: "('s, 'c, 'k) evaluator" where
  "abstaining = new_rule ''abstains'' [] (\<lambda>cx q. ok
     \<lparr>pd_effect = [], pd_reason = [], pd_challenge = None, pd_policy_id = [], pd_evaluated_at = 0\<rparr>)"

lemma abstaining_allows:
  "decides (all_of wall i desc [abstaining]) cx q (Inr EffectAllow) \<and> decides (not_policy wall i desc abstaining) cx q (Inr EffectAllow)"
  by (simp add: decides_def all_of_def not_policy_def abstaining_def new_rule_def decision_tests effects
      keep_challenge_def allow_ok_def allow_decision_def tick_def)

end
