(* ===== verification/Sdk_Total.thy ===== *)
theory Sdk_Total
  imports Sdk_Correct
begin

text \<open>
  Repositories on an adapter that always answers: reads fail only for what is not there, updates and
  deletions do not fail. What each call does, in the world it is made in, with the tables of other
  models left alone; and what a transaction of the adapter does.
\<close>

text \<open>Only the database may differ, and there only the rows of one model.\<close>

definition only_model :: "('s \<Rightarrow> string \<Rightarrow> row multiset) \<Rightarrow> string \<Rightarrow> ('s, 'c) world \<Rightarrow> ('s, 'c) world \<Rightarrow> bool" where
  "only_model tbl m w w' \<longleftrightarrow> w' = w\<lparr>w_db := w_db w'\<rparr> \<and> (\<forall>m'. m' \<noteq> m \<longrightarrow> tbl (w_db w') m' = tbl (w_db w) m')"

locale total_repository = repository +
  assumes find_one_total: "run_state (ad_find_one ad m cs) s = (Inl e, s') \<Longrightarrow> e = AdapterNotFound"
    and find_many_total: "run_state (ad_find_many ad q) s \<noteq> (Inl e, s')"
    and update_total: "run_state (ad_update ad m cs u) s \<noteq> (Inl e, s')"
    and delete_total: "run_state (ad_delete ad m cs) s \<noteq> (Inl e, s')"
begin

lemma run_on_db: "run_state (on_db f) w = (case run_state f (w_db w) of (r, s) \<Rightarrow> (r, w\<lparr>w_db := s\<rparr>))"
  by (simp add: on_db_def)

lemma find_one_db:
  assumes s: "rinv (w_db w)" and k: "means cs P" and run: "run_state (on_db (repo_find_one rp cs)) w = (r, w')"
  shows "w' = w \<and> (case r of Inl e \<Rightarrow> e = AdapterNotFound \<and> (\<forall>x \<in># ents (w_db w). \<not> P x)
    | Inr x \<Rightarrow> x \<in># ents (w_db w) \<and> P x)"
proof -
  obtain d where q: "run_state (repo_find_one rp cs) (w_db w) = (r, d)" and w': "w' = w\<lparr>w_db := d\<rparr>"
    using run by (auto simp: run_on_db split: prod.splits)
  note f = repo_find_one [OF s k q]
  have "e = AdapterNotFound" if e: "r = Inl e" for e
  proof -
    obtain y s1 where y: "run_state (ad_find_one ad m cs) (w_db w) = (y, s1)" by (rule prod.exhaust)
    show ?thesis
    proof (cases y)
      case (Inl e')
      with q y e find_one_total show ?thesis by (auto simp: repo_find_one_def rp)
    next
      case (Inr row)
      with y s find_one_Inr have "row \<in># tbl (w_db w) m" by (auto simp: rinv_def)
      from reads [OF rinv_rep [OF s this]] q y Inr e show ?thesis by (simp add: repo_find_one_def rp)
    qed
  qed
  with f w' show ?thesis by (cases r) auto
qed

lemma find_many_db:
  assumes s: "rinv (w_db w)" and k: "means cs P"
    and run: "run_state (on_db (repo_find_many rp (query_where mo cs))) w = (r, w')"
  obtains es where "r = Inr es" "w' = w" "mset es = filter_mset P (ents (w_db w))"
proof -
  obtain d where q: "run_state (repo_find_many rp (query_where mo cs)) (w_db w) = (r, d)" and w': "w' = w\<lparr>w_db := d\<rparr>"
    using run by (auto simp: run_on_db split: prod.splits)
  note f = repo_find_many [OF s k q]
  have qm: "(query_where mo cs)\<lparr>q_model := rp_model rp\<rparr> = query_where m cs" by (simp add: query_where_def rp)
  obtain y d1 where y: "run_state (ad_find_many ad (query_where m cs)) (w_db w) = (y, d1)" by (rule prod.exhaust)
  with find_many_total [of "query_where m cs" "w_db w"] obtain rows where rows: "y = Inr rows" by (cases y) auto
  have "row \<in># tbl (w_db w) m" if "row \<in> set rows" for row
    using find_many_Inr [of "w_db w" cs rows d1] s y rows that
    by (metis filter_mset_eq_conv mset_subset_eqD multiset_filter_subset rinv_def set_mset_mset)
  then have c: "collect (map (\<lambda>row. from_map rp row (cd_zero (rp_codec rp))) rows) = Inr (map entity rows)"
    using reads [OF rinv_rep [OF s]] by (intro collect_Inr) simp
  have "r = Inr (map entity rows)" using q y rows by (auto simp: repo_find_many_def rp(1) qm c)
  with f w' that show thesis by auto
qed

lemma create_db:
  assumes s: "rinv (w_db w)" and ok: "okay e" and run: "run_state (on_db (repo_create rp e)) w = (r, w')"
  shows "only_model tbl m w w' \<and> rinv (w_db w') \<and> (case r of
      Inl _ \<Rightarrow> ents (w_db w') = ents (w_db w)
    | Inr e' \<Rightarrow> e' = e \<and> ents (w_db w') = add_mset e (ents (w_db w)) \<and>
        (\<exists>d. rep e d \<and> (\<forall>fs \<in> set uq. \<forall>r' \<in># tbl (w_db w) m. \<not> same_strings fs r' d)))"
proof -
  obtain d where q: "run_state (repo_create rp e) (w_db w) = (r, d)" and w': "w' = w\<lparr>w_db := d\<rparr>"
    using run by (auto simp: run_on_db split: prod.splits)
  from repo_create [OF s ok q] show ?thesis unfolding w' by (cases r) (simp_all add: only_model_def)
qed

lemma update_db:
  assumes s: "rinv (w_db w)" and k: "means cs P" and u: "u ''id'' = None" "\<And>e r. rep e r \<Longrightarrow> P e \<Longrightarrow> rep (g e) (r ++ u)"
    and run: "run_state (on_db (repo_update rp cs u)) w = (r, w')"
  shows "only_model tbl m w w' \<and> rinv (w_db w') \<and> (\<exists>n. r = Inr n) \<and> ents (w_db w') = upd_where P g (ents (w_db w))"
proof -
  obtain d where q: "run_state (repo_update rp cs u) (w_db w) = (r, d)" and w': "w' = w\<lparr>w_db := d\<rparr>"
    using run by (auto simp: run_on_db split: prod.splits)
  have "run_state (ad_update ad m cs u) (w_db w) = (r, d)" using q by (simp add: repo_update_def rp)
  with update_total obtain n where n: "r = Inr n" by (cases r) auto
  from repo_update [OF s k u q] w' n show ?thesis by (simp add: only_model_def)
qed

lemma delete_db:
  assumes s: "rinv (w_db w)" and k: "means cs P" and run: "run_state (on_db (repo_delete rp cs)) w = (r, w')"
  shows "only_model tbl m w w' \<and> rinv (w_db w') \<and> r = Inr (int (size (filter_mset P (ents (w_db w))))) \<and>
    ents (w_db w') = filter_mset (\<lambda>x. \<not> P x) (ents (w_db w))"
proof -
  obtain d where q: "run_state (repo_delete rp cs) (w_db w) = (r, d)" and w': "w' = w\<lparr>w_db := d\<rparr>"
    using run by (auto simp: run_on_db split: prod.splits)
  have "run_state (ad_delete ad m cs) (w_db w) = (r, d)" using q by (simp add: repo_delete_def rp)
  with delete_total obtain n where n: "r = Inr n" by (cases r) auto
  from repo_delete [OF s k q] w' n show ?thesis by (simp add: only_model_def)
qed

text \<open>Two unique string fields: the new entity differs from each of the others in one of them.\<close>

lemma create_unique_pair:
  assumes s: "rinv s" and d: "rep e d" "\<forall>fs \<in> set uq. \<forall>r' \<in># tbl s m. \<not> same_strings fs r' d"
    and f: "[f, g] \<in> set uq" "\<And>x r. rep x r \<Longrightarrow> r f = Some (VStr (a x)) \<and> r g = Some (VStr (b x))" and x: "x \<in># ents s"
  shows "a x \<noteq> a e \<or> b x \<noteq> b e"
proof (rule ccontr)
  assume same: "\<not> (a x \<noteq> a e \<or> b x \<noteq> b e)"
  from x obtain r where r: "r \<in># tbl s m" "x = entity r" by (auto simp: ents_def)
  with rinv_rep [OF s] have "rep x r" by blast
  from f(2) [OF this] f(2) [OF d(1)] same have "same_strings [f, g] r d" by (simp add: same_strings_def)
  with d(2) f(1) r show False by blast
qed

text \<open>What leaves the rows of the model alone leaves its entities alone.\<close>

lemma other_model:
  assumes "only_model tbl m' w w'" "m' \<noteq> m" "rinv (w_db w)" "inv (w_db w')"
  shows "rinv (w_db w') \<and> ents (w_db w') = ents (w_db w)"
  using assms by (auto simp: only_model_def rinv_def ents_def)

end

lemma adapter_transaction_cases:
  assumes "run_state (adapter_transaction ad cx f) w = (r, w')" "\<not> ctx_in_tx cx"
  obtains x where "run_state (f (with_tx cx)) w = (Inr x, w')" "r = Inr x"
    | e w1 where "run_state (f (with_tx cx)) w = (Inl e, w1)" "r = Inl e"
        "w' = w1\<lparr>w_db := ad_rollback ad (w_db w) (w_db w1)\<rparr>"
  using assms by (auto simp: adapter_transaction_def split: prod.splits sum.splits)

end
