(* ===== verification/Organizations.thy ===== *)
theory Organizations
  imports Sdk_Db
begin

text \<open>
  Organizations (\<open>plugins/organizations\<close>): roles, organizations, memberships, teams and invitations with
  their rows (\<open>domain.go\<close>), identifiers and tokens (\<open>crypto.go\<close>), and the cache of organizations and
  memberships (\<open>cache.go\<close>). A \<open>Role\<close> and a \<open>MembershipStatus\<close> are strings in the code and stay so; the
  metadata of an organization is an association list with distinct keys, empty for the nil map.
\<close>

section \<open>Errors\<close>

definition org_err :: "string \<Rightarrow> err" where
  "org_err e = PluginErr ''organizations'' e"

definition ErrOrganizationNotFound :: err where "ErrOrganizationNotFound = org_err ''organization not found''"
definition ErrOrganizationAlreadyExists :: err where "ErrOrganizationAlreadyExists = org_err ''organization already exists''"
definition ErrMemberNotFound :: err where "ErrMemberNotFound = org_err ''member not found''"
definition ErrMemberAlreadyExists :: err where "ErrMemberAlreadyExists = org_err ''member already exists''"
definition ErrCannotRemoveOwner :: err where "ErrCannotRemoveOwner = org_err ''cannot remove or demote organization owner''"
definition ErrUnauthorized :: err where "ErrUnauthorized = org_err ''unauthorized operation''"
definition ErrCrossOrganizationAccess :: err where "ErrCrossOrganizationAccess = org_err ''cross-organization access forbidden''"
definition ErrTeamNotFound :: err where "ErrTeamNotFound = org_err ''team not found''"
definition ErrTeamAlreadyExists :: err where "ErrTeamAlreadyExists = org_err ''team already exists''"
definition ErrTeamMemberNotFound :: err where "ErrTeamMemberNotFound = org_err ''team member not found''"
definition ErrTeamMemberAlreadyExists :: err where "ErrTeamMemberAlreadyExists = org_err ''team member already exists''"
definition ErrInvitationNotFound :: err where "ErrInvitationNotFound = org_err ''invitation not found''"
definition ErrInvitationExpired :: err where "ErrInvitationExpired = org_err ''invitation expired''"
definition ErrInvitationAlreadyAccepted :: err where "ErrInvitationAlreadyAccepted = org_err ''invitation already accepted''"
definition OrgInvalidInput :: err where "OrgInvalidInput = org_err ''invalid input''"
definition ErrStoreRequired :: err where "ErrStoreRequired = org_err ''store is required''"

lemmas org_errors = org_err_def ErrOrganizationNotFound_def ErrOrganizationAlreadyExists_def ErrMemberNotFound_def ErrMemberAlreadyExists_def ErrCannotRemoveOwner_def ErrUnauthorized_def ErrCrossOrganizationAccess_def ErrTeamNotFound_def ErrTeamAlreadyExists_def ErrTeamMemberNotFound_def ErrTeamMemberAlreadyExists_def ErrInvitationNotFound_def ErrInvitationExpired_def ErrInvitationAlreadyAccepted_def OrgInvalidInput_def ErrStoreRequired_def

section \<open>Roles and status\<close>

definition RoleOwner :: string where "RoleOwner = ''owner''"
definition RoleAdmin :: string where "RoleAdmin = ''admin''"
definition RoleMember :: string where "RoleMember = ''member''"

definition role_level :: "string \<Rightarrow> int" where
  "role_level r =
     (if r = RoleOwner then 30 else if r = RoleAdmin then 20 else if r = RoleMember then 10 else 0)"

definition role_at_least :: "string \<Rightarrow> string \<Rightarrow> bool" where
  "role_at_least r target \<longleftrightarrow> role_level r \<ge> role_level target"

definition MembershipActive :: string where "MembershipActive = ''active''"
definition MembershipSuspended :: string where "MembershipSuspended = ''suspended''"

lemmas org_names = RoleOwner_def RoleAdmin_def RoleMember_def MembershipActive_def MembershipSuspended_def

section \<open>Entities\<close>

record organization =
  og_id :: string
  og_name :: string
  og_slug :: string
  og_owner :: string
  og_metadata :: "(string \<times> string) list"
  og_created_at :: time
  og_updated_at :: time

record membership =
  mb_id :: string
  mb_org :: string
  mb_user :: string
  mb_role :: string
  mb_status :: string
  mb_created_at :: time
  mb_updated_at :: time

record team =
  te_id :: string
  te_org :: string
  te_name :: string
  te_slug :: string
  te_description :: string
  te_created_at :: time
  te_updated_at :: time

record team_membership =
  tu_id :: string
  tu_team :: string
  tu_user :: string
  tu_created_at :: time

record invitation =
  iv_id :: string
  iv_org :: string
  iv_email :: string
  iv_role :: string
  iv_inviter :: string
  iv_token_hash :: string
  iv_expires_at :: time
  iv_accepted_at :: "time option"
  iv_created_at :: time

definition mb_active :: "membership \<Rightarrow> bool" where
  "mb_active m \<longleftrightarrow> mb_status m = MembershipActive"

definition iv_expired :: "invitation \<Rightarrow> time \<Rightarrow> bool" where
  "iv_expired i t \<longleftrightarrow> iv_expires_at i \<noteq> 0 \<and> \<not> t < iv_expires_at i"

definition iv_accepted :: "invitation \<Rightarrow> bool" where
  "iv_accepted i \<longleftrightarrow> iv_accepted_at i \<noteq> None"

section \<open>Models\<close>

definition ModelOrganizations :: string where "ModelOrganizations = ''organizations''"
definition ModelOrganizationMemberships :: string where "ModelOrganizationMemberships = ''organization_memberships''"
definition ModelOrganizationTeams :: string where "ModelOrganizationTeams = ''organization_teams''"
definition ModelOrganizationTeamMembers :: string where "ModelOrganizationTeamMembers = ''organization_team_members''"
definition ModelOrganizationInvitations :: string where "ModelOrganizationInvitations = ''organization_invitations''"

lemmas org_models = ModelOrganizations_def ModelOrganizationMemberships_def ModelOrganizationTeams_def
  ModelOrganizationTeamMembers_def ModelOrganizationInvitations_def

definition organization_model :: model where
  "organization_model =
     (fold add_field'
       [mk_field ''id'' TypeString True,
        mk_field ''name'' TypeString True,
        (mk_field ''slug'' TypeString True)\<lparr>f_unique := True\<rparr>,
        mk_field ''owner_id'' TypeString True,
        mk_field ''metadata'' TypeJSON False,
        mk_field ''created_at'' TypeTime True,
        mk_field ''updated_at'' TypeTime True]
       (new_model ModelOrganizations ModelOrganizations ''id''))
     \<lparr>m_indexes :=
       [\<lparr>idx_name = ''idx_organizations_slug'', idx_fields = [''slug''], idx_unique = True\<rparr>,
        \<lparr>idx_name = ''idx_organizations_owner_id'', idx_fields = [''owner_id''], idx_unique = False\<rparr>]\<rparr>"

definition membership_model :: model where
  "membership_model =
     (fold add_field'
       [mk_field ''id'' TypeString True,
        mk_field ''organization_id'' TypeString True,
        mk_field ''user_id'' TypeString True,
        mk_field ''role'' TypeString True,
        mk_field ''status'' TypeString True,
        mk_field ''created_at'' TypeTime True,
        mk_field ''updated_at'' TypeTime True]
       (new_model ModelOrganizationMemberships ModelOrganizationMemberships ''id''))
     \<lparr>m_indexes :=
       [\<lparr>idx_name = ''idx_org_memberships_user'', idx_fields = [''user_id'', ''status''], idx_unique = False\<rparr>,
        \<lparr>idx_name = ''idx_org_memberships_org_role'', idx_fields = [''organization_id'', ''role''], idx_unique = False\<rparr>,
        \<lparr>idx_name = ''uq_org_memberships'', idx_fields = [''organization_id'', ''user_id''], idx_unique = True\<rparr>]\<rparr>"

definition team_model :: model where
  "team_model =
     (fold add_field'
       [mk_field ''id'' TypeString True,
        mk_field ''organization_id'' TypeString True,
        mk_field ''name'' TypeString True,
        mk_field ''slug'' TypeString True,
        mk_field ''description'' TypeString False,
        mk_field ''created_at'' TypeTime True,
        mk_field ''updated_at'' TypeTime True]
       (new_model ModelOrganizationTeams ModelOrganizationTeams ''id''))
     \<lparr>m_indexes :=
       [\<lparr>idx_name = ''idx_org_teams_org_id'', idx_fields = [''organization_id''], idx_unique = False\<rparr>,
        \<lparr>idx_name = ''uq_org_teams_slug'', idx_fields = [''organization_id'', ''slug''], idx_unique = True\<rparr>]\<rparr>"

definition team_member_model :: model where
  "team_member_model =
     (fold add_field'
       [mk_field ''id'' TypeString True,
        mk_field ''team_id'' TypeString True,
        mk_field ''user_id'' TypeString True,
        mk_field ''created_at'' TypeTime True]
       (new_model ModelOrganizationTeamMembers ModelOrganizationTeamMembers ''id''))
     \<lparr>m_indexes :=
       [\<lparr>idx_name = ''idx_org_team_members_user'', idx_fields = [''user_id''], idx_unique = False\<rparr>,
        \<lparr>idx_name = ''uq_org_team_members'', idx_fields = [''team_id'', ''user_id''], idx_unique = True\<rparr>]\<rparr>"

definition invitation_model :: model where
  "invitation_model =
     (fold add_field'
       [mk_field ''id'' TypeString True,
        mk_field ''organization_id'' TypeString True,
        mk_field ''email'' TypeString True,
        mk_field ''role'' TypeString True,
        mk_field ''inviter_user_id'' TypeString True,
        (mk_field ''token_hash'' TypeString True)\<lparr>f_unique := True\<rparr>,
        mk_field ''expires_at'' TypeTime True,
        mk_field ''accepted_at'' TypeTime False,
        mk_field ''created_at'' TypeTime True]
       (new_model ModelOrganizationInvitations ModelOrganizationInvitations ''id''))
     \<lparr>m_indexes :=
       [\<lparr>idx_name = ''idx_org_invitations_token_hash'', idx_fields = [''token_hash''], idx_unique = True\<rparr>,
        \<lparr>idx_name = ''idx_org_invitations_org_email'', idx_fields = [''organization_id'', ''email''], idx_unique = False\<rparr>]\<rparr>"

definition org_register_schema :: "schema \<Rightarrow> err + schema" where
  "org_register_schema s =
     and_then (add_model s (Some organization_model)) (\<lambda>s.
     and_then (add_model s (Some membership_model)) (\<lambda>s.
     and_then (add_model s (Some team_model)) (\<lambda>s.
     and_then (add_model s (Some team_member_model)) (\<lambda>s.
     add_model s (Some invitation_model)))))"

section \<open>Entities as JSON\<close>

definition org_encode :: "organization \<Rightarrow> err + (string \<times> json) list" where
  "org_encode x =
     (if list_all json_time_ok [og_created_at x, og_updated_at x]
      then Inr
        ([(''id'', JStr (og_id x)), (''name'', JStr (og_name x)), (''slug'', JStr (og_slug x)), (''owner_id'', JStr (og_owner x))] @
         omit_empty (og_metadata x = []) ''metadata'' (JObj (map (\<lambda>(k, v). (k, JStr v)) (og_metadata x))) @
         [(''created_at'', JTime (og_created_at x)), (''updated_at'', JTime (og_updated_at x))])
      else Inl json_error)"

definition org_decode :: "runtime \<Rightarrow> (string \<times> json) list \<Rightarrow> organization \<Rightarrow> err + organization" where
  "org_decode rt o' x =
     and_then (str_into rt o' ''id'' (og_id x)) (\<lambda>v0.
     and_then (str_into rt o' ''name'' (og_name x)) (\<lambda>v1.
     and_then (str_into rt o' ''slug'' (og_slug x)) (\<lambda>v2.
     and_then (str_into rt o' ''owner_id'' (og_owner x)) (\<lambda>v3.
     and_then (string_map_into rt o' ''metadata'' (og_metadata x)) (\<lambda>v4.
     and_then (time_into rt o' ''created_at'' (og_created_at x)) (\<lambda>v5.
     and_then (time_into rt o' ''updated_at'' (og_updated_at x)) (\<lambda>v6.
       Inr \<lparr>og_id = v0, og_name = v1, og_slug = v2, og_owner = v3, og_metadata = v4, og_created_at = v5, og_updated_at = v6\<rparr>)))))))"

definition no_org :: organization where
  "no_org = \<lparr>og_id = [], og_name = [], og_slug = [], og_owner = [], og_metadata = [], og_created_at = 0, og_updated_at = 0\<rparr>"

definition org_codec :: "runtime \<Rightarrow> organization codec" where
  "org_codec rt =
     \<lparr>cd_fields = [''id'', ''name'', ''slug'', ''owner_id'', ''metadata'', ''created_at'', ''updated_at''],
      cd_zero = no_org, cd_encode = org_encode, cd_decode = org_decode rt\<rparr>"

definition member_encode :: "membership \<Rightarrow> err + (string \<times> json) list" where
  "member_encode x =
     (if list_all json_time_ok [mb_created_at x, mb_updated_at x]
      then Inr
        ([(''id'', JStr (mb_id x)), (''organization_id'', JStr (mb_org x)), (''user_id'', JStr (mb_user x)), (''role'', JStr (mb_role x)), (''status'', JStr (mb_status x)), (''created_at'', JTime (mb_created_at x)), (''updated_at'', JTime (mb_updated_at x))])
      else Inl json_error)"

definition member_decode :: "runtime \<Rightarrow> (string \<times> json) list \<Rightarrow> membership \<Rightarrow> err + membership" where
  "member_decode rt o' x =
     and_then (str_into rt o' ''id'' (mb_id x)) (\<lambda>v0.
     and_then (str_into rt o' ''organization_id'' (mb_org x)) (\<lambda>v1.
     and_then (str_into rt o' ''user_id'' (mb_user x)) (\<lambda>v2.
     and_then (str_into rt o' ''role'' (mb_role x)) (\<lambda>v3.
     and_then (str_into rt o' ''status'' (mb_status x)) (\<lambda>v4.
     and_then (time_into rt o' ''created_at'' (mb_created_at x)) (\<lambda>v5.
     and_then (time_into rt o' ''updated_at'' (mb_updated_at x)) (\<lambda>v6.
       Inr \<lparr>mb_id = v0, mb_org = v1, mb_user = v2, mb_role = v3, mb_status = v4, mb_created_at = v5, mb_updated_at = v6\<rparr>)))))))"

definition no_member :: membership where
  "no_member = \<lparr>mb_id = [], mb_org = [], mb_user = [], mb_role = [], mb_status = [], mb_created_at = 0, mb_updated_at = 0\<rparr>"

definition member_codec :: "runtime \<Rightarrow> membership codec" where
  "member_codec rt =
     \<lparr>cd_fields = [''id'', ''organization_id'', ''user_id'', ''role'', ''status'', ''created_at'', ''updated_at''],
      cd_zero = no_member, cd_encode = member_encode, cd_decode = member_decode rt\<rparr>"

definition team_encode :: "team \<Rightarrow> err + (string \<times> json) list" where
  "team_encode x =
     (if list_all json_time_ok [te_created_at x, te_updated_at x]
      then Inr
        ([(''id'', JStr (te_id x)), (''organization_id'', JStr (te_org x)), (''name'', JStr (te_name x)), (''slug'', JStr (te_slug x))] @
         omit_empty (te_description x = []) ''description'' (JStr (te_description x)) @
         [(''created_at'', JTime (te_created_at x)), (''updated_at'', JTime (te_updated_at x))])
      else Inl json_error)"

definition team_decode :: "runtime \<Rightarrow> (string \<times> json) list \<Rightarrow> team \<Rightarrow> err + team" where
  "team_decode rt o' x =
     and_then (str_into rt o' ''id'' (te_id x)) (\<lambda>v0.
     and_then (str_into rt o' ''organization_id'' (te_org x)) (\<lambda>v1.
     and_then (str_into rt o' ''name'' (te_name x)) (\<lambda>v2.
     and_then (str_into rt o' ''slug'' (te_slug x)) (\<lambda>v3.
     and_then (str_into rt o' ''description'' (te_description x)) (\<lambda>v4.
     and_then (time_into rt o' ''created_at'' (te_created_at x)) (\<lambda>v5.
     and_then (time_into rt o' ''updated_at'' (te_updated_at x)) (\<lambda>v6.
       Inr \<lparr>te_id = v0, te_org = v1, te_name = v2, te_slug = v3, te_description = v4, te_created_at = v5, te_updated_at = v6\<rparr>)))))))"

definition no_team :: team where
  "no_team = \<lparr>te_id = [], te_org = [], te_name = [], te_slug = [], te_description = [], te_created_at = 0, te_updated_at = 0\<rparr>"

definition team_codec :: "runtime \<Rightarrow> team codec" where
  "team_codec rt =
     \<lparr>cd_fields = [''id'', ''organization_id'', ''name'', ''slug'', ''description'', ''created_at'', ''updated_at''],
      cd_zero = no_team, cd_encode = team_encode, cd_decode = team_decode rt\<rparr>"

definition team_member_encode :: "team_membership \<Rightarrow> err + (string \<times> json) list" where
  "team_member_encode x =
     (if list_all json_time_ok [tu_created_at x]
      then Inr
        ([(''id'', JStr (tu_id x)), (''team_id'', JStr (tu_team x)), (''user_id'', JStr (tu_user x)), (''created_at'', JTime (tu_created_at x))])
      else Inl json_error)"

definition team_member_decode :: "runtime \<Rightarrow> (string \<times> json) list \<Rightarrow> team_membership \<Rightarrow> err + team_membership" where
  "team_member_decode rt o' x =
     and_then (str_into rt o' ''id'' (tu_id x)) (\<lambda>v0.
     and_then (str_into rt o' ''team_id'' (tu_team x)) (\<lambda>v1.
     and_then (str_into rt o' ''user_id'' (tu_user x)) (\<lambda>v2.
     and_then (time_into rt o' ''created_at'' (tu_created_at x)) (\<lambda>v3.
       Inr \<lparr>tu_id = v0, tu_team = v1, tu_user = v2, tu_created_at = v3\<rparr>))))"

definition no_team_member :: team_membership where
  "no_team_member = \<lparr>tu_id = [], tu_team = [], tu_user = [], tu_created_at = 0\<rparr>"

definition team_member_codec :: "runtime \<Rightarrow> team_membership codec" where
  "team_member_codec rt =
     \<lparr>cd_fields = [''id'', ''team_id'', ''user_id'', ''created_at''],
      cd_zero = no_team_member, cd_encode = team_member_encode, cd_decode = team_member_decode rt\<rparr>"

definition invitation_encode :: "invitation \<Rightarrow> err + (string \<times> json) list" where
  "invitation_encode x =
     (if list_all json_time_ok ([iv_expires_at x, iv_created_at x] @ (case iv_accepted_at x of None \<Rightarrow> [] | Some t \<Rightarrow> [t]))
      then Inr
        ([(''id'', JStr (iv_id x)), (''organization_id'', JStr (iv_org x)), (''email'', JStr (iv_email x)), (''role'', JStr (iv_role x)), (''inviter_user_id'', JStr (iv_inviter x)), (''token_hash'', JStr (iv_token_hash x)), (''expires_at'', JTime (iv_expires_at x))] @
         optional_field ''accepted_at'' (iv_accepted_at x) @
         [(''created_at'', JTime (iv_created_at x))])
      else Inl json_error)"

definition invitation_decode :: "runtime \<Rightarrow> (string \<times> json) list \<Rightarrow> invitation \<Rightarrow> err + invitation" where
  "invitation_decode rt o' x =
     and_then (str_into rt o' ''id'' (iv_id x)) (\<lambda>v0.
     and_then (str_into rt o' ''organization_id'' (iv_org x)) (\<lambda>v1.
     and_then (str_into rt o' ''email'' (iv_email x)) (\<lambda>v2.
     and_then (str_into rt o' ''role'' (iv_role x)) (\<lambda>v3.
     and_then (str_into rt o' ''inviter_user_id'' (iv_inviter x)) (\<lambda>v4.
     and_then (str_into rt o' ''token_hash'' (iv_token_hash x)) (\<lambda>v5.
     and_then (time_into rt o' ''expires_at'' (iv_expires_at x)) (\<lambda>v6.
     and_then (opt_time_into rt o' ''accepted_at'' (iv_accepted_at x)) (\<lambda>v7.
     and_then (time_into rt o' ''created_at'' (iv_created_at x)) (\<lambda>v8.
       Inr \<lparr>iv_id = v0, iv_org = v1, iv_email = v2, iv_role = v3, iv_inviter = v4, iv_token_hash = v5, iv_expires_at = v6, iv_accepted_at = v7, iv_created_at = v8\<rparr>)))))))))"

definition no_invitation :: invitation where
  "no_invitation = \<lparr>iv_id = [], iv_org = [], iv_email = [], iv_role = [], iv_inviter = [], iv_token_hash = [], iv_expires_at = 0, iv_accepted_at = None, iv_created_at = 0\<rparr>"

definition invitation_codec :: "runtime \<Rightarrow> invitation codec" where
  "invitation_codec rt =
     \<lparr>cd_fields = [''id'', ''organization_id'', ''email'', ''role'', ''inviter_user_id'', ''token_hash'', ''expires_at'', ''accepted_at'', ''created_at''],
      cd_zero = no_invitation, cd_encode = invitation_encode, cd_decode = invitation_decode rt\<rparr>"

section \<open>Identifiers and tokens\<close>

text \<open>\<open>GenerateID\<close>, \<open>GenerateToken\<close>, \<open>HashToken\<close>; \<open>rand.Read\<close> does not fail.\<close>

definition org_generate_id :: "('s, 'c) auth \<Rightarrow> string \<Rightarrow> ('s, 'c, string) act" where
  "org_generate_id a prefix = do {
     src \<leftarrow> draw a;
     State_Monad.return (prefix @ ''_'' @ hex_encode (random_bytes src 16))
   }"

definition org_generate_token :: "('s, 'c) auth \<Rightarrow> ('s, 'c, string) act" where
  "org_generate_token a = do {
     src \<leftarrow> draw a;
     State_Monad.return (hex_encode (random_bytes src 32))
   }"

definition org_hash_token :: "runtime \<Rightarrow> string \<Rightarrow> string" where
  "org_hash_token rt raw = hex_encode (sha256 rt raw)"

section \<open>The cache\<close>

text \<open>\<open>Cache\<close> with its core cache, when there is one; a miss and an error read alike to its callers.\<close>

definition org_id_key :: "string \<Rightarrow> string" where
  "org_id_key i = cache_key [''organizations'', ''org'', i]"

definition org_slug_key :: "string \<Rightarrow> string" where
  "org_slug_key s = cache_key [''organizations'', ''slug'', s]"

definition membership_key :: "string \<Rightarrow> string \<Rightarrow> string" where
  "membership_key o' u = cache_key [''organizations'', ''membership'', o', u]"

definition org_json :: "organization \<Rightarrow> err + json" where
  "org_json x = map_sum id JObj (org_encode x)"

definition json_org :: "runtime \<Rightarrow> json \<Rightarrow> err + organization" where
  "json_org rt j = and_then (members j) (\<lambda>o'. org_decode rt o' no_org)"

definition member_json :: "membership \<Rightarrow> err + json" where
  "member_json x = map_sum id JObj (member_encode x)"

definition json_member :: "runtime \<Rightarrow> json \<Rightarrow> err + membership" where
  "json_member rt j = and_then (members j) (\<lambda>o'. member_decode rt o' no_member)"

definition org_cache_set :: "'c cache option \<Rightarrow> ctx \<Rightarrow> organization \<Rightarrow> duration \<Rightarrow> ('c, err + unit) state" where
  "org_cache_set c cx x ttl =
     (case c of
        None \<Rightarrow> ok ()
      | Some ch \<Rightarrow>
          if ttl \<le> 0 then ok ()
          else bindE (cache_set ch cx (org_id_key (og_id x)) (org_json x) ttl) (\<lambda>_.
            cache_set ch cx (org_slug_key (og_slug x)) (org_json x) ttl))"

definition org_cache_by_id :: "'c cache option \<Rightarrow> runtime \<Rightarrow> ctx \<Rightarrow> string \<Rightarrow> ('c, err + organization) state" where
  "org_cache_by_id c rt cx i =
     (case c of
        None \<Rightarrow> fail CacheMiss
      | Some ch \<Rightarrow>
          if i = [] then fail CacheMiss
          else bindE (cache_get ch cx (org_id_key i)) (\<lambda>j. State_Monad.return (json_org rt j)))"

definition org_cache_by_slug :: "'c cache option \<Rightarrow> runtime \<Rightarrow> ctx \<Rightarrow> string \<Rightarrow> ('c, err + organization) state" where
  "org_cache_by_slug c rt cx s =
     (case c of
        None \<Rightarrow> fail CacheMiss
      | Some ch \<Rightarrow>
          if s = [] then fail CacheMiss
          else bindE (cache_get ch cx (org_slug_key s)) (\<lambda>j. State_Monad.return (json_org rt j)))"

definition org_cache_delete :: "'c cache option \<Rightarrow> ctx \<Rightarrow> string \<Rightarrow> string \<Rightarrow> ('c, unit) state" where
  "org_cache_delete c cx i s =
     (case c of
        None \<Rightarrow> skip
      | Some ch \<Rightarrow> do {
          _ \<leftarrow> (if i \<noteq> [] then do { _ \<leftarrow> cache_delete ch cx (org_id_key i); skip } else skip);
          (if s \<noteq> [] then do { _ \<leftarrow> cache_delete ch cx (org_slug_key s); skip } else skip)
        })"

definition member_cache_set :: "'c cache option \<Rightarrow> ctx \<Rightarrow> membership \<Rightarrow> duration \<Rightarrow> ('c, err + unit) state" where
  "member_cache_set c cx m ttl =
     (case c of
        None \<Rightarrow> ok ()
      | Some ch \<Rightarrow> if ttl \<le> 0 then ok () else cache_set ch cx (membership_key (mb_org m) (mb_user m)) (member_json m) ttl)"

definition member_cache_get ::
  "'c cache option \<Rightarrow> runtime \<Rightarrow> ctx \<Rightarrow> string \<Rightarrow> string \<Rightarrow> ('c, err + membership) state" where
  "member_cache_get c rt cx o' u =
     (case c of
        None \<Rightarrow> fail CacheMiss
      | Some ch \<Rightarrow>
          if o' = [] \<or> u = [] then fail CacheMiss
          else bindE (cache_get ch cx (membership_key o' u)) (\<lambda>j. State_Monad.return (json_member rt j)))"

definition member_cache_delete :: "'c cache option \<Rightarrow> ctx \<Rightarrow> string \<Rightarrow> string \<Rightarrow> ('c, err + unit) state" where
  "member_cache_delete c cx o' u =
     (case c of
        None \<Rightarrow> ok ()
      | Some ch \<Rightarrow> if o' = [] \<or> u = [] then ok () else cache_delete ch cx (membership_key o' u))"

end
