(* ===== verification/Organizations_Service.thy ===== *)
theory Organizations_Service
  imports Organizations
begin

text \<open>
  The service of organizations (\<open>plugins/organizations/service.go\<close>, \<open>config.go\<close>, \<open>hooks.go\<close>, \<open>events.go\<close>), as
  \<open>Init\<close> builds it: the adapter is there, the cache is the one of the engine when it has one.
\<close>

section \<open>Configuration\<close>

record org_config =
  ocf_cache_ttl :: duration
  ocf_invitation_ttl :: duration

definition DefaultOrgCacheTTL :: duration where "DefaultOrgCacheTTL = 5 * minute"
definition DefaultInvitationTTL :: duration where "DefaultInvitationTTL = 7 * 24 * hour"

definition default_org_config :: org_config where
  "default_org_config = \<lparr>ocf_cache_ttl = DefaultOrgCacheTTL, ocf_invitation_ttl = DefaultInvitationTTL\<rparr>"

definition with_org_cache_ttl :: "duration \<Rightarrow> org_config \<Rightarrow> org_config" where
  "with_org_cache_ttl d c = c\<lparr>ocf_cache_ttl := d\<rparr>"

definition with_default_invitation_ttl :: "duration \<Rightarrow> org_config \<Rightarrow> org_config" where
  "with_default_invitation_ttl d c = (if d > 0 then c\<lparr>ocf_invitation_ttl := d\<rparr> else c)"

section \<open>Inputs and hooks\<close>

record create_organization_input =
  co_name :: string
  co_slug :: string
  co_owner :: string
  co_metadata :: "(string \<times> string) list"

text \<open>A nil pointer or map is \<open>None\<close>: nothing to change.\<close>

record update_organization_input =
  uo_name :: "string option"
  uo_metadata :: "(string \<times> string) list option"

record add_member_input =
  am_org :: string
  am_user :: string
  am_role :: string

record create_team_input =
  ct_org :: string
  ct_name :: string
  ct_slug :: string
  ct_description :: string

record update_team_input =
  ut_name :: "string option"
  ut_description :: "string option"

record create_invitation_input =
  ci_org :: string
  ci_email :: string
  ci_role :: string
  ci_inviter :: string
  ci_ttl :: duration

text \<open>
  The hooks before an operation may write through the pointer they get and may refuse. Those after it
  leave a value behind their pointer, and an error that only ends the run of hooks.
\<close>

type_synonym ('s, 'c, 'a) after_hooks = "(ctx \<Rightarrow> 'a \<Rightarrow> ('s, 'c, 'a \<times> err option) act) list"

fun after_run :: "('s, 'c, 'a) after_hooks \<Rightarrow> ctx \<Rightarrow> 'a \<Rightarrow> ('s, 'c, 'a) act" where
  "after_run [] cx v = State_Monad.return v"
| "after_run (f # fs) cx v = do {
     (v', e) \<leftarrow> f cx v;
     case e of Some _ \<Rightarrow> State_Monad.return v' | None \<Rightarrow> after_run fs cx v'
   }"

record ('s, 'c) org_hooks =
  oh_before_create :: "('s, 'c, create_organization_input) chain"
  oh_after_create :: "('s, 'c, organization) after_hooks"
  oh_before_member_add :: "('s, 'c, add_member_input) chain"
  oh_after_member_add :: "('s, 'c, membership) after_hooks"

definition no_org_hooks :: "('s, 'c) org_hooks" where
  "no_org_hooks = \<lparr>oh_before_create = [], oh_after_create = [], oh_before_member_add = [], oh_after_member_add = []\<rparr>"

section \<open>The service\<close>

record ('s, 'c) org_service =
  os_auth :: "('s, 'c) auth"
  os_adapter :: "'s adapter"
  os_cfg :: org_config
  os_hooks :: "('s, 'c) org_hooks"

definition new_org_service :: "('s, 'c) auth \<Rightarrow> 's adapter \<Rightarrow> org_config \<Rightarrow> ('s, 'c) org_service" where
  "new_org_service a ad cfg = \<lparr>os_auth = a, os_adapter = ad, os_cfg = cfg, os_hooks = no_org_hooks\<rparr>"

definition orgs_repo :: "('s, 'c) org_service \<Rightarrow> ('s, organization) repo" where
  "orgs_repo sv = \<lparr>rp_adapter = Some (os_adapter sv), rp_model = ModelOrganizations,
     rp_codec = org_codec (au_rt (os_auth sv)), rp_rt = au_rt (os_auth sv)\<rparr>"

definition members_repo :: "('s, 'c) org_service \<Rightarrow> ('s, membership) repo" where
  "members_repo sv = \<lparr>rp_adapter = Some (os_adapter sv), rp_model = ModelOrganizationMemberships,
     rp_codec = member_codec (au_rt (os_auth sv)), rp_rt = au_rt (os_auth sv)\<rparr>"

definition teams_repo :: "('s, 'c) org_service \<Rightarrow> ('s, team) repo" where
  "teams_repo sv = \<lparr>rp_adapter = Some (os_adapter sv), rp_model = ModelOrganizationTeams,
     rp_codec = team_codec (au_rt (os_auth sv)), rp_rt = au_rt (os_auth sv)\<rparr>"

definition team_members_repo :: "('s, 'c) org_service \<Rightarrow> ('s, team_membership) repo" where
  "team_members_repo sv = \<lparr>rp_adapter = Some (os_adapter sv), rp_model = ModelOrganizationTeamMembers,
     rp_codec = team_member_codec (au_rt (os_auth sv)), rp_rt = au_rt (os_auth sv)\<rparr>"

definition invitations_repo :: "('s, 'c) org_service \<Rightarrow> ('s, invitation) repo" where
  "invitations_repo sv = \<lparr>rp_adapter = Some (os_adapter sv), rp_model = ModelOrganizationInvitations,
     rp_codec = invitation_codec (au_rt (os_auth sv)), rp_rt = au_rt (os_auth sv)\<rparr>"

definition EventOrganizationCreated :: string where "EventOrganizationCreated = ''organizations.created''"
definition EventOrganizationUpdated :: string where "EventOrganizationUpdated = ''organizations.updated''"
definition EventOrganizationDeleted :: string where "EventOrganizationDeleted = ''organizations.deleted''"
definition EventOwnershipTransferred :: string where "EventOwnershipTransferred = ''organizations.ownership_transferred''"
definition EventMemberAdded :: string where "EventMemberAdded = ''organizations.member_added''"
definition EventMemberUpdated :: string where "EventMemberUpdated = ''organizations.member_updated''"
definition EventMemberRemoved :: string where "EventMemberRemoved = ''organizations.member_removed''"
definition EventTeamCreated :: string where "EventTeamCreated = ''organizations.team_created''"
definition EventTeamUpdated :: string where "EventTeamUpdated = ''organizations.team_updated''"
definition EventTeamDeleted :: string where "EventTeamDeleted = ''organizations.team_deleted''"
definition EventTeamMemberAdded :: string where "EventTeamMemberAdded = ''organizations.team_member_added''"
definition EventTeamMemberRemoved :: string where "EventTeamMemberRemoved = ''organizations.team_member_removed''"
definition EventInvitationCreated :: string where "EventInvitationCreated = ''organizations.invitation_created''"
definition EventInvitationAccepted :: string where "EventInvitationAccepted = ''organizations.invitation_accepted''"
definition EventInvitationRevoked :: string where "EventInvitationRevoked = ''organizations.invitation_revoked''"

definition org_publish :: "('s, 'c) org_service \<Rightarrow> ctx \<Rightarrow> string \<Rightarrow> string \<Rightarrow> payload \<Rightarrow> ('s, 'c, unit) act" where
  "org_publish sv cx name subject payload = publish (os_auth sv) cx name subject payload"

definition org_transaction :: "('s, 'c) org_service \<Rightarrow> ctx \<Rightarrow> (ctx \<Rightarrow> ('s, 'c, 'a) actE) \<Rightarrow> ('s, 'c, 'a) actE" where
  "org_transaction sv = adapter_transaction (os_adapter sv)"

text \<open>Errors of an adapter, as the operations translate them.\<close>

definition org_missing :: "err \<Rightarrow> err \<Rightarrow> err" where
  "org_missing e0 e = (if e = AdapterNotFound then e0 else e)"

definition org_taken :: "err \<Rightarrow> err \<Rightarrow> err" where
  "org_taken e0 e = (if e = AdapterConflict then e0 else e)"

definition or_else :: "('w, err + 'a) state \<Rightarrow> (err \<Rightarrow> err) \<Rightarrow> ('w, err + 'a) state" where
  "or_else m f = State_Monad.bind m (\<lambda>r. case r of Inl e \<Rightarrow> fail (f e) | Inr x \<Rightarrow> ok x)"

text \<open>The regular expression \<open>^[a-z0-9]+(?:-[a-z0-9]+)*$\<close>: the parts between dashes.\<close>

definition slug_char :: "char \<Rightarrow> bool" where
  "slug_char c = (let n = of_char c :: nat in 97 \<le> n \<and> n \<le> 122 \<or> 48 \<le> n \<and> n \<le> 57)"

definition slug_regex :: "string \<Rightarrow> bool" where
  "slug_regex s \<longleftrightarrow> list_all (\<lambda>p. p \<noteq> [] \<and> list_all slug_char p) (split_on (CHR ''-'') s)"

definition validate_slug :: "string \<Rightarrow> err + unit" where
  "validate_slug s0 =
     (let s = trim_space (to_lower s0) in
      if length s < 2 \<or> length s > 63 \<or> \<not> slug_regex s then Inl OrgInvalidInput else Inr ())"

section \<open>Reading\<close>

definition remember_org :: "('s, 'c) org_service \<Rightarrow> ctx \<Rightarrow> organization \<Rightarrow> ('s, 'c, unit) act" where
  "remember_org sv cx x = do {
     _ \<leftarrow> on_cache (org_cache_set (au_cache (os_auth sv)) cx x (ocf_cache_ttl (os_cfg sv)));
     skip
   }"

definition remember_member :: "('s, 'c) org_service \<Rightarrow> ctx \<Rightarrow> membership \<Rightarrow> ('s, 'c, unit) act" where
  "remember_member sv cx m = do {
     _ \<leftarrow> on_cache (member_cache_set (au_cache (os_auth sv)) cx m (ocf_cache_ttl (os_cfg sv)));
     skip
   }"

definition forget_org :: "('s, 'c) org_service \<Rightarrow> ctx \<Rightarrow> string \<Rightarrow> string \<Rightarrow> ('s, 'c, unit) act" where
  "forget_org sv cx i s = on_cache (org_cache_delete (au_cache (os_auth sv)) cx i s)"

definition forget_member :: "('s, 'c) org_service \<Rightarrow> ctx \<Rightarrow> string \<Rightarrow> string \<Rightarrow> ('s, 'c, unit) act" where
  "forget_member sv cx o' u = do { _ \<leftarrow> on_cache (member_cache_delete (au_cache (os_auth sv)) cx o' u); skip }"

definition get_organization :: "('s, 'c) org_service \<Rightarrow> ctx \<Rightarrow> string \<Rightarrow> ('s, 'c, organization) actE" where
  "get_organization sv cx i0 =
     (let i = trim_space i0 in
      if i = [] then fail OrgInvalidInput
      else do {
        r \<leftarrow> on_cache (org_cache_by_id (au_cache (os_auth sv)) (au_rt (os_auth sv)) cx i);
        case r of
          Inr x \<Rightarrow> ok x
        | Inl _ \<Rightarrow>
            bindE (or_else (on_db (repo_find_one (orgs_repo sv) [Eq ''id'' (VStr i)])) (org_missing ErrOrganizationNotFound)) (\<lambda>x.
              do { _ \<leftarrow> remember_org sv cx x; ok x })
      })"

definition get_organization_by_slug :: "('s, 'c) org_service \<Rightarrow> ctx \<Rightarrow> string \<Rightarrow> ('s, 'c, organization) actE" where
  "get_organization_by_slug sv cx s0 =
     (let s = trim_space (to_lower s0) in
      if s = [] then fail OrgInvalidInput
      else do {
        r \<leftarrow> on_cache (org_cache_by_slug (au_cache (os_auth sv)) (au_rt (os_auth sv)) cx s);
        case r of
          Inr x \<Rightarrow> ok x
        | Inl _ \<Rightarrow>
            bindE (or_else (on_db (repo_find_one (orgs_repo sv) [Eq ''slug'' (VStr s)])) (org_missing ErrOrganizationNotFound)) (\<lambda>x.
              do { _ \<leftarrow> remember_org sv cx x; ok x })
      })"

definition get_member :: "('s, 'c) org_service \<Rightarrow> ctx \<Rightarrow> string \<Rightarrow> string \<Rightarrow> ('s, 'c, membership) actE" where
  "get_member sv cx o0 u0 =
     (let o' = trim_space o0; u = trim_space u0 in
      if o' = [] \<or> u = [] then fail OrgInvalidInput
      else do {
        r \<leftarrow> on_cache (member_cache_get (au_cache (os_auth sv)) (au_rt (os_auth sv)) cx o' u);
        case r of
          Inr m \<Rightarrow> ok m
        | Inl _ \<Rightarrow>
            bindE (or_else (on_db (repo_find_one (members_repo sv) [Eq ''organization_id'' (VStr o'), Eq ''user_id'' (VStr u)]))
              (org_missing ErrMemberNotFound)) (\<lambda>m.
              do { _ \<leftarrow> remember_member sv cx m; ok m })
      })"

section \<open>Authorization\<close>

definition org_authorize :: "('s, 'c) org_service \<Rightarrow> ctx \<Rightarrow> string \<Rightarrow> string \<Rightarrow> ('s, 'c, membership) actE" where
  "org_authorize sv cx o' min_role =
     (case principal_from cx of
        None \<Rightarrow> fail ErrUnauthorized
      | Some p \<Rightarrow>
          if pr_subject p = [] then fail ErrUnauthorized
          else
            let (bound, bound_ok) = organization_from cx in
            if bound_ok \<and> bound \<noteq> o' then fail ErrCrossOrganizationAccess
            else bindE (or_else (get_member sv cx o' (pr_subject p)) (\<lambda>e. if e = ErrMemberNotFound then ErrUnauthorized else e)) (\<lambda>m.
              if \<not> mb_active m then fail ErrUnauthorized
              else if \<not> role_at_least (mb_role m) min_role then fail ErrUnauthorized
              else ok m))"

text \<open>The principal of the context, when it has one with a subject.\<close>

definition acting :: "ctx \<Rightarrow> string option" where
  "acting cx = (case principal_from cx of None \<Rightarrow> None | Some p \<Rightarrow> if pr_subject p = [] then None else Some (pr_subject p))"

definition check_principal_auth :: "('s, 'c) org_service \<Rightarrow> ctx \<Rightarrow> string \<Rightarrow> string \<Rightarrow> ('s, 'c, unit) actE" where
  "check_principal_auth sv cx o' min_role =
     (case acting cx of None \<Rightarrow> ok () | Some _ \<Rightarrow> bindE (org_authorize sv cx o' min_role) (\<lambda>_. ok ()))"

text \<open>Removing a member: an administrator, or the member itself.\<close>

definition check_self_or_admin :: "('s, 'c) org_service \<Rightarrow> ctx \<Rightarrow> string \<Rightarrow> string \<Rightarrow> ('s, 'c, unit) actE" where
  "check_self_or_admin sv cx o' u =
     (case acting cx of
        None \<Rightarrow> ok ()
      | Some p \<Rightarrow> bindE (org_authorize sv cx o' (if p \<noteq> u then RoleAdmin else RoleMember)) (\<lambda>_. ok ()))"

section \<open>Organizations\<close>

definition create_org_tx ::
  "('s, 'c) org_service \<Rightarrow> organization \<Rightarrow> membership \<Rightarrow> ctx \<Rightarrow> ('s, 'c, organization \<times> membership) actE" where
  "create_org_tx sv x m cx =
     bindE (or_else (on_db (repo_create (orgs_repo sv) x)) (org_taken ErrOrganizationAlreadyExists)) (\<lambda>x'.
     bindE (or_else (on_db (repo_create (members_repo sv) m)) (org_taken ErrMemberAlreadyExists)) (\<lambda>m'.
     ok (x', m')))"

definition announce_member_added :: "('s, 'c) org_service \<Rightarrow> ctx \<Rightarrow> string \<Rightarrow> string \<Rightarrow> string \<Rightarrow> ('s, 'c, unit) act" where
  "announce_member_added sv cx o' u r = org_publish sv cx EventMemberAdded o' (PFields ''MemberAddedPayload''
     [(''organization_id'', FStr o'), (''user_id'', FStr u), (''role'', FStr r)])"

definition create_organization ::
  "('s, 'c) org_service \<Rightarrow> ctx \<Rightarrow> create_organization_input \<Rightarrow> ('s, 'c, organization) actE" where
  "create_organization sv cx in0 =
     (let in1 = in0\<lparr>co_name := trim_space (co_name in0), co_slug := trim_space (to_lower (co_slug in0)),
        co_owner := trim_space (co_owner in0)\<rparr> in
      if co_name in1 = [] \<or> co_owner in1 = [] then fail OrgInvalidInput
      else check (validate_slug (co_slug in1)) (\<lambda>_.
        bindE (chain_run (oh_before_create (os_hooks sv)) cx in1) (\<lambda>inp. do {
          t \<leftarrow> now (os_auth sv);
          oi \<leftarrow> org_generate_id (os_auth sv) ''org'';
          mi \<leftarrow> org_generate_id (os_auth sv) ''mem'';
          let x = \<lparr>og_id = oi, og_name = co_name inp, og_slug = co_slug inp, og_owner = co_owner inp,
            og_metadata = co_metadata inp, og_created_at = t, og_updated_at = t\<rparr>;
          let m = \<lparr>mb_id = mi, mb_org = oi, mb_user = co_owner inp, mb_role = RoleOwner,
            mb_status = MembershipActive, mb_created_at = t, mb_updated_at = t\<rparr>;
          bindE (org_transaction sv cx (create_org_tx sv x m)) (\<lambda>(x, m). do {
            _ \<leftarrow> remember_org sv cx x;
            _ \<leftarrow> remember_member sv cx m;
            _ \<leftarrow> org_publish sv cx EventOrganizationCreated (og_id x) (PFields ''OrganizationCreatedPayload''
              [(''organization_id'', FStr (og_id x)), (''slug'', FStr (og_slug x)), (''owner_id'', FStr (og_owner x)),
               (''created_at'', FTime (og_created_at x))]);
            _ \<leftarrow> announce_member_added sv cx (og_id x) (mb_user m) (mb_role m);
            x' \<leftarrow> after_run (oh_after_create (os_hooks sv)) cx x;
            ok x'
          })
        })))"

definition organization_updates :: "update_organization_input \<Rightarrow> time \<Rightarrow> organization \<Rightarrow> organization \<times> row" where
  "organization_updates inp t x =
     (let (x1, u1) = (case uo_name inp of
            None \<Rightarrow> (x, Map.empty)
          | Some n \<Rightarrow> (x\<lparr>og_name := trim_space n\<rparr>, [''name'' \<mapsto> VStr (trim_space n)]));
          (x2, u2) = (case uo_metadata inp of
            None \<Rightarrow> (x1, u1)
          | Some md \<Rightarrow> (x1\<lparr>og_metadata := md\<rparr>, u1(''metadata'' \<mapsto> VMap (map (\<lambda>(k, v). (k, VStr v)) md))))
      in (x2\<lparr>og_updated_at := t\<rparr>, u2(''updated_at'' \<mapsto> VTime t)))"

definition update_organization ::
  "('s, 'c) org_service \<Rightarrow> ctx \<Rightarrow> string \<Rightarrow> update_organization_input \<Rightarrow> ('s, 'c, organization) actE" where
  "update_organization sv cx i inp =
     bindE (check_principal_auth sv cx i RoleAdmin) (\<lambda>_.
     bindE (get_organization sv cx i) (\<lambda>x.
       if map_option trim_space (uo_name inp) = Some [] then fail OrgInvalidInput
       else do {
         t \<leftarrow> now (os_auth sv);
         let (x', u) = organization_updates inp t x;
         bindE (on_db (repo_update (orgs_repo sv) [Eq ''id'' (VStr (og_id x))] u)) (\<lambda>_. do {
           _ \<leftarrow> forget_org sv cx (og_id x') (og_slug x');
           _ \<leftarrow> remember_org sv cx x';
           _ \<leftarrow> org_publish sv cx EventOrganizationUpdated (og_id x') (PFields ''OrganizationUpdatedPayload''
             [(''organization_id'', FStr (og_id x')), (''updated_at'', FTime (og_updated_at x'))]);
           ok x'
         })
       }))"

text \<open>What the deletions of the parts answer is dropped.\<close>

definition dropped :: "('s, 'c, 'a) act \<Rightarrow> ('s, 'c, unit) act" where
  "dropped m = do { _ \<leftarrow> m; skip }"

definition delete_org_tx :: "('s, 'c) org_service \<Rightarrow> string \<Rightarrow> ctx \<Rightarrow> ('s, 'c, unit) actE" where
  "delete_org_tx sv i cx = do {
     let w = [Eq ''organization_id'' (VStr i)];
     ts \<leftarrow> on_db (repo_find_many (teams_repo sv) (query_where ModelOrganizationTeams w));
     _ \<leftarrow> for_each (\<lambda>t. dropped (on_db (repo_delete (team_members_repo sv) [Eq ''team_id'' (VStr (te_id t))])))
       (case ts of Inl _ \<Rightarrow> [] | Inr ts \<Rightarrow> ts);
     _ \<leftarrow> dropped (on_db (repo_delete (teams_repo sv) w));
     _ \<leftarrow> dropped (on_db (repo_delete (members_repo sv) w));
     _ \<leftarrow> dropped (on_db (repo_delete (invitations_repo sv) w));
     bindE (on_db (repo_delete (orgs_repo sv) [Eq ''id'' (VStr i)])) (\<lambda>n.
       if n = 0 then fail ErrOrganizationNotFound else ok ())
   }"

definition delete_organization :: "('s, 'c) org_service \<Rightarrow> ctx \<Rightarrow> string \<Rightarrow> ('s, 'c, unit) actE" where
  "delete_organization sv cx i =
     bindE (check_principal_auth sv cx i RoleOwner) (\<lambda>_.
     bindE (get_organization sv cx i) (\<lambda>x.
     bindE (org_transaction sv cx (delete_org_tx sv i)) (\<lambda>_. do {
       _ \<leftarrow> forget_org sv cx (og_id x) (og_slug x);
       t \<leftarrow> now (os_auth sv);
       _ \<leftarrow> org_publish sv cx EventOrganizationDeleted (og_id x) (PFields ''OrganizationDeletedPayload''
         [(''organization_id'', FStr (og_id x)), (''deleted_at'', FTime t)]);
       ok ()
     })))"

fun organizations_of :: "('s, 'c) org_service \<Rightarrow> ctx \<Rightarrow> membership list \<Rightarrow> ('s, 'c, organization list) act" where
  "organizations_of sv cx [] = State_Monad.return []"
| "organizations_of sv cx (m # ms) = do {
     r \<leftarrow> get_organization sv cx (mb_org m);
     xs \<leftarrow> organizations_of sv cx ms;
     State_Monad.return (case r of Inl _ \<Rightarrow> xs | Inr x \<Rightarrow> x # xs)
   }"

definition list_user_organizations :: "('s, 'c) org_service \<Rightarrow> ctx \<Rightarrow> string \<Rightarrow> ('s, 'c, organization list) actE" where
  "list_user_organizations sv cx u0 =
     (let u = trim_space u0 in
      if u = [] then fail OrgInvalidInput
      else bindE (on_db (repo_find_many (members_repo sv) (query_where ModelOrganizationMemberships
          [Eq ''user_id'' (VStr u), Eq ''status'' (VStr MembershipActive)]))) (\<lambda>ms. do {
        xs \<leftarrow> organizations_of sv cx ms;
        ok xs
      }))"

definition transfer_tx ::
  "('s, 'c) org_service \<Rightarrow> organization \<Rightarrow> membership \<Rightarrow> membership \<Rightarrow> string \<Rightarrow> time \<Rightarrow> ctx \<Rightarrow> ('s, 'c, int) actE" where
  "transfer_tx sv x old new u t cx =
     bindE (on_db (repo_update (members_repo sv) [Eq ''id'' (VStr (mb_id old))]
       [''role'' \<mapsto> VStr RoleAdmin, ''updated_at'' \<mapsto> VTime t])) (\<lambda>_.
     bindE (on_db (repo_update (members_repo sv) [Eq ''id'' (VStr (mb_id new))]
       [''role'' \<mapsto> VStr RoleOwner, ''updated_at'' \<mapsto> VTime t])) (\<lambda>_.
     on_db (repo_update (orgs_repo sv) [Eq ''id'' (VStr (og_id x))]
       [''owner_id'' \<mapsto> VStr u, ''updated_at'' \<mapsto> VTime t])))"

definition transfer_ownership :: "('s, 'c) org_service \<Rightarrow> ctx \<Rightarrow> string \<Rightarrow> string \<Rightarrow> ('s, 'c, unit) actE" where
  "transfer_ownership sv cx i u0 =
     bindE (check_principal_auth sv cx i RoleOwner) (\<lambda>_.
     bindE (get_organization sv cx i) (\<lambda>x.
       let u = trim_space u0 in
       if u = [] \<or> u = og_owner x then fail OrgInvalidInput
       else bindE (get_member sv cx i u) (\<lambda>new.
         if \<not> mb_active new then fail OrgInvalidInput
         else bindE (get_member sv cx i (og_owner x)) (\<lambda>old. do {
           t \<leftarrow> now (os_auth sv);
           bindE (org_transaction sv cx (transfer_tx sv x old new u t)) (\<lambda>_. do {
             _ \<leftarrow> forget_org sv cx (og_id x) (og_slug x);
             _ \<leftarrow> forget_member sv cx i (mb_user old);
             _ \<leftarrow> forget_member sv cx i (mb_user new);
             _ \<leftarrow> org_publish sv cx EventOwnershipTransferred (og_id x) (PFields ''OwnershipTransferredPayload''
               [(''organization_id'', FStr (og_id x)), (''old_owner_id'', FStr (mb_user old)), (''new_owner_id'', FStr u)]);
             ok ()
           })
         }))))"

section \<open>Members\<close>

definition add_member :: "('s, 'c) org_service \<Rightarrow> ctx \<Rightarrow> add_member_input \<Rightarrow> ('s, 'c, membership) actE" where
  "add_member sv cx in0 =
     (let in1 = in0\<lparr>am_org := trim_space (am_org in0), am_user := trim_space (am_user in0)\<rparr> in
      if am_org in1 = [] \<or> am_user in1 = [] then fail OrgInvalidInput
      else
        let in2 = (if am_role in1 = [] then in1\<lparr>am_role := RoleMember\<rparr> else in1) in
        bindE (check_principal_auth sv cx (am_org in2) RoleAdmin) (\<lambda>_.
        bindE (chain_run (oh_before_member_add (os_hooks sv)) cx in2) (\<lambda>inp. do {
          t \<leftarrow> now (os_auth sv);
          i \<leftarrow> org_generate_id (os_auth sv) ''mem'';
          let m = \<lparr>mb_id = i, mb_org = am_org inp, mb_user = am_user inp, mb_role = am_role inp,
            mb_status = MembershipActive, mb_created_at = t, mb_updated_at = t\<rparr>;
          bindE (or_else (on_db (repo_create (members_repo sv) m)) (org_taken ErrMemberAlreadyExists)) (\<lambda>m. do {
            _ \<leftarrow> remember_member sv cx m;
            _ \<leftarrow> announce_member_added sv cx (am_org inp) (am_user inp) (am_role inp);
            m' \<leftarrow> after_run (oh_after_member_add (os_hooks sv)) cx m;
            ok m'
          })
        })))"

definition announce_member_updated :: "('s, 'c) org_service \<Rightarrow> ctx \<Rightarrow> string \<Rightarrow> string \<Rightarrow> membership \<Rightarrow> ('s, 'c, unit) act" where
  "announce_member_updated sv cx o' u m = org_publish sv cx EventMemberUpdated o' (PFields ''MemberUpdatedPayload''
     [(''organization_id'', FStr o'), (''user_id'', FStr u), (''role'', FStr (mb_role m)), (''status'', FStr (mb_status m))])"

text \<open>The common end of the two updates of a member.\<close>

definition save_member ::
  "('s, 'c) org_service \<Rightarrow> ctx \<Rightarrow> string \<Rightarrow> string \<Rightarrow> membership \<Rightarrow> row \<Rightarrow> ('s, 'c, membership) actE" where
  "save_member sv cx o' u m upd =
     bindE (on_db (repo_update (members_repo sv) [Eq ''id'' (VStr (mb_id m))] upd)) (\<lambda>_. do {
       _ \<leftarrow> forget_member sv cx o' u;
       _ \<leftarrow> remember_member sv cx m;
       _ \<leftarrow> announce_member_updated sv cx o' u m;
       ok m
     })"

definition check_role_change :: "('s, 'c) org_service \<Rightarrow> ctx \<Rightarrow> string \<Rightarrow> string \<Rightarrow> string \<Rightarrow> ('s, 'c, unit) actE" where
  "check_role_change sv cx o' u role =
     (case acting cx of
        None \<Rightarrow> ok ()
      | Some _ \<Rightarrow>
          bindE (org_authorize sv cx o' (if role = RoleOwner then RoleOwner else RoleAdmin)) (\<lambda>caller. do {
            r \<leftarrow> get_member sv cx o' u;
            case r of
              Inr target \<Rightarrow>
                if mb_role target = RoleOwner \<and> mb_role caller \<noteq> RoleOwner then fail ErrUnauthorized else ok ()
            | Inl _ \<Rightarrow> ok ()
          }))"

definition update_member_role ::
  "('s, 'c) org_service \<Rightarrow> ctx \<Rightarrow> string \<Rightarrow> string \<Rightarrow> string \<Rightarrow> ('s, 'c, membership) actE" where
  "update_member_role sv cx o' u role =
     bindE (check_role_change sv cx o' u role) (\<lambda>_.
     bindE (get_member sv cx o' u) (\<lambda>m.
       if mb_role m = RoleOwner \<and> role \<noteq> RoleOwner then fail ErrCannotRemoveOwner
       else do {
         t \<leftarrow> now (os_auth sv);
         save_member sv cx o' u (m\<lparr>mb_role := role, mb_updated_at := t\<rparr>) [''role'' \<mapsto> VStr role, ''updated_at'' \<mapsto> VTime t]
       }))"

definition update_member_status ::
  "('s, 'c) org_service \<Rightarrow> ctx \<Rightarrow> string \<Rightarrow> string \<Rightarrow> string \<Rightarrow> ('s, 'c, membership) actE" where
  "update_member_status sv cx o' u status =
     bindE (check_principal_auth sv cx o' RoleAdmin) (\<lambda>_.
     bindE (get_member sv cx o' u) (\<lambda>m.
       if mb_role m = RoleOwner \<and> status \<noteq> MembershipActive then fail ErrCannotRemoveOwner
       else do {
         t \<leftarrow> now (os_auth sv);
         save_member sv cx o' u (m\<lparr>mb_status := status, mb_updated_at := t\<rparr>)
           [''status'' \<mapsto> VStr status, ''updated_at'' \<mapsto> VTime t]
       }))"

definition remove_member :: "('s, 'c) org_service \<Rightarrow> ctx \<Rightarrow> string \<Rightarrow> string \<Rightarrow> ('s, 'c, unit) actE" where
  "remove_member sv cx o0 u0 =
     (let o' = trim_space o0; u = trim_space u0 in
      if o' = [] \<or> u = [] then fail OrgInvalidInput
      else bindE (check_self_or_admin sv cx o' u) (\<lambda>_.
        bindE (get_member sv cx o' u) (\<lambda>m.
          if mb_role m = RoleOwner then fail ErrCannotRemoveOwner
          else bindE (on_db (repo_delete (members_repo sv) [Eq ''organization_id'' (VStr o'), Eq ''user_id'' (VStr u)])) (\<lambda>n.
            if n = 0 then fail ErrMemberNotFound
            else do {
              _ \<leftarrow> forget_member sv cx o' u;
              _ \<leftarrow> org_publish sv cx EventMemberRemoved o' (PFields ''MemberRemovedPayload''
                [(''organization_id'', FStr o'), (''user_id'', FStr u)]);
              ok ()
            }))))"

definition list_members :: "('s, 'c) org_service \<Rightarrow> string \<Rightarrow> ('s, 'c, membership list) actE" where
  "list_members sv o0 =
     (let o' = trim_space o0 in
      if o' = [] then fail OrgInvalidInput
      else on_db (repo_find_many (members_repo sv)
        (query_where ModelOrganizationMemberships [Eq ''organization_id'' (VStr o')])))"

section \<open>Teams\<close>

definition create_team :: "('s, 'c) org_service \<Rightarrow> ctx \<Rightarrow> create_team_input \<Rightarrow> ('s, 'c, team) actE" where
  "create_team sv cx in0 =
     (let o' = trim_space (ct_org in0); n = trim_space (ct_name in0); s = trim_space (to_lower (ct_slug in0)) in
      if o' = [] \<or> n = [] then fail OrgInvalidInput
      else check (validate_slug s) (\<lambda>_.
        bindE (check_principal_auth sv cx o' RoleAdmin) (\<lambda>_. do {
          t \<leftarrow> now (os_auth sv);
          i \<leftarrow> org_generate_id (os_auth sv) ''team'';
          bindE (or_else (on_db (repo_create (teams_repo sv)
            \<lparr>te_id = i, te_org = o', te_name = n, te_slug = s, te_description = ct_description in0,
             te_created_at = t, te_updated_at = t\<rparr>)) (org_taken ErrTeamAlreadyExists)) (\<lambda>x. do {
            _ \<leftarrow> org_publish sv cx EventTeamCreated o' (PFields ''TeamCreatedPayload''
              [(''organization_id'', FStr o'), (''team_id'', FStr (te_id x)), (''slug'', FStr (te_slug x))]);
            ok x
          })
        })))"

definition team_where :: "string \<Rightarrow> string \<Rightarrow> condition list" where
  "team_where o' i = [Eq ''organization_id'' (VStr o'), Eq ''id'' (VStr i)]"

definition get_team :: "('s, 'c) org_service \<Rightarrow> string \<Rightarrow> string \<Rightarrow> ('s, 'c, team) actE" where
  "get_team sv o' i = or_else (on_db (repo_find_one (teams_repo sv) (team_where o' i))) (org_missing ErrTeamNotFound)"

definition team_updates :: "update_team_input \<Rightarrow> time \<Rightarrow> team \<Rightarrow> team \<times> row" where
  "team_updates inp t x =
     (let (x1, u1) = (case ut_name inp of
            None \<Rightarrow> (x, Map.empty)
          | Some n \<Rightarrow> (x\<lparr>te_name := trim_space n\<rparr>, [''name'' \<mapsto> VStr (trim_space n)]));
          (x2, u2) = (case ut_description inp of
            None \<Rightarrow> (x1, u1)
          | Some d \<Rightarrow> (x1\<lparr>te_description := d\<rparr>, u1(''description'' \<mapsto> VStr d)))
      in (x2\<lparr>te_updated_at := t\<rparr>, u2(''updated_at'' \<mapsto> VTime t)))"

definition update_team ::
  "('s, 'c) org_service \<Rightarrow> ctx \<Rightarrow> string \<Rightarrow> string \<Rightarrow> update_team_input \<Rightarrow> ('s, 'c, team) actE" where
  "update_team sv cx o' i inp =
     bindE (check_principal_auth sv cx o' RoleAdmin) (\<lambda>_.
     bindE (get_team sv o' i) (\<lambda>x.
       if map_option trim_space (ut_name inp) = Some [] then fail OrgInvalidInput
       else do {
         t \<leftarrow> now (os_auth sv);
         let (x', u) = team_updates inp t x;
         bindE (on_db (repo_update (teams_repo sv) (team_where o' i) u)) (\<lambda>_. do {
           _ \<leftarrow> org_publish sv cx EventTeamUpdated o' (PFields ''TeamUpdatedPayload''
             [(''organization_id'', FStr o'), (''team_id'', FStr i)]);
           ok x'
         })
       }))"

definition delete_team_tx :: "('s, 'c) org_service \<Rightarrow> string \<Rightarrow> string \<Rightarrow> ctx \<Rightarrow> ('s, 'c, unit) actE" where
  "delete_team_tx sv o' i cx = do {
     _ \<leftarrow> dropped (on_db (repo_delete (team_members_repo sv) [Eq ''team_id'' (VStr i)]));
     bindE (on_db (repo_delete (teams_repo sv) (team_where o' i))) (\<lambda>n.
       if n = 0 then fail ErrTeamNotFound else ok ())
   }"

definition delete_team :: "('s, 'c) org_service \<Rightarrow> ctx \<Rightarrow> string \<Rightarrow> string \<Rightarrow> ('s, 'c, unit) actE" where
  "delete_team sv cx o' i =
     bindE (check_principal_auth sv cx o' RoleAdmin) (\<lambda>_.
     bindE (get_team sv o' i) (\<lambda>_.
     bindE (org_transaction sv cx (delete_team_tx sv o' i)) (\<lambda>_. do {
       _ \<leftarrow> org_publish sv cx EventTeamDeleted o' (PFields ''TeamDeletedPayload''
         [(''organization_id'', FStr o'), (''team_id'', FStr i)]);
       ok ()
     })))"

definition list_teams :: "('s, 'c) org_service \<Rightarrow> string \<Rightarrow> ('s, 'c, team list) actE" where
  "list_teams sv o0 =
     (let o' = trim_space o0 in
      if o' = [] then fail OrgInvalidInput
      else on_db (repo_find_many (teams_repo sv) (query_where ModelOrganizationTeams [Eq ''organization_id'' (VStr o')])))"

definition announce_team_member :: "('s, 'c) org_service \<Rightarrow> ctx \<Rightarrow> string \<Rightarrow> string \<Rightarrow> string \<Rightarrow> string \<Rightarrow> ('s, 'c, unit) act" where
  "announce_team_member sv cx name o' i u = org_publish sv cx name o' (PFields ''TeamMemberPayload''
     [(''organization_id'', FStr o'), (''team_id'', FStr i), (''user_id'', FStr u)])"

definition add_team_member :: "('s, 'c) org_service \<Rightarrow> ctx \<Rightarrow> string \<Rightarrow> string \<Rightarrow> string \<Rightarrow> ('s, 'c, unit) actE" where
  "add_team_member sv cx o' i u =
     bindE (check_principal_auth sv cx o' RoleAdmin) (\<lambda>_.
     bindE (get_team sv o' i) (\<lambda>_.
     bindE (get_member sv cx o' u) (\<lambda>m.
       if \<not> mb_active m then fail ErrUnauthorized
       else do {
         t \<leftarrow> now (os_auth sv);
         bindE (or_else (on_db (repo_create (team_members_repo sv)
           \<lparr>tu_id = i @ '':'' @ u, tu_team = i, tu_user = u, tu_created_at = t\<rparr>)) (org_taken ErrTeamMemberAlreadyExists)) (\<lambda>_. do {
           _ \<leftarrow> announce_team_member sv cx EventTeamMemberAdded o' i u;
           ok ()
         })
       })))"

definition remove_team_member :: "('s, 'c) org_service \<Rightarrow> ctx \<Rightarrow> string \<Rightarrow> string \<Rightarrow> string \<Rightarrow> ('s, 'c, unit) actE" where
  "remove_team_member sv cx o' i u =
     bindE (check_self_or_admin sv cx o' u) (\<lambda>_.
     bindE (get_team sv o' i) (\<lambda>_.
     bindE (on_db (repo_delete (team_members_repo sv) [Eq ''team_id'' (VStr i), Eq ''user_id'' (VStr u)])) (\<lambda>n.
       if n = 0 then fail ErrTeamMemberNotFound
       else do {
         _ \<leftarrow> announce_team_member sv cx EventTeamMemberRemoved o' i u;
         ok ()
       })))"

definition list_team_members :: "('s, 'c) org_service \<Rightarrow> string \<Rightarrow> string \<Rightarrow> ('s, 'c, string list) actE" where
  "list_team_members sv o' i =
     bindE (get_team sv o' i) (\<lambda>_.
     bindE (on_db (repo_find_many (team_members_repo sv)
       (query_where ModelOrganizationTeamMembers [Eq ''team_id'' (VStr i)]))) (\<lambda>xs. ok (map tu_user xs)))"

section \<open>Invitations\<close>

definition create_invitation ::
  "('s, 'c) org_service \<Rightarrow> ctx \<Rightarrow> create_invitation_input \<Rightarrow> ('s, 'c, invitation \<times> string) actE" where
  "create_invitation sv cx in0 =
     (let o' = trim_space (ci_org in0); em = trim_space (to_lower (ci_email in0)); u = trim_space (ci_inviter in0) in
      if o' = [] \<or> em = [] \<or> u = [] then fail OrgInvalidInput
      else bindE (check_principal_auth sv cx o' RoleAdmin) (\<lambda>_. do {
        let role = (if ci_role in0 = [] then RoleMember else ci_role in0);
        let ttl = (if ci_ttl in0 = 0 then ocf_invitation_ttl (os_cfg sv) else ci_ttl in0);
        raw \<leftarrow> org_generate_token (os_auth sv);
        t \<leftarrow> now (os_auth sv);
        i \<leftarrow> org_generate_id (os_auth sv) ''inv'';
        bindE (on_db (repo_create (invitations_repo sv)
          \<lparr>iv_id = i, iv_org = o', iv_email = em, iv_role = role, iv_inviter = u,
           iv_token_hash = org_hash_token (au_rt (os_auth sv)) raw, iv_expires_at = t + ttl,
           iv_accepted_at = None, iv_created_at = t\<rparr>)) (\<lambda>inv. do {
          _ \<leftarrow> org_publish sv cx EventInvitationCreated o' (PFields ''InvitationCreatedPayload''
            [(''organization_id'', FStr o'), (''invitation_id'', FStr (iv_id inv)), (''email'', FStr (iv_email inv)),
             (''role'', FStr (iv_role inv)), (''inviter_user_id'', FStr u), (''expires_at'', FTime (iv_expires_at inv))]);
          ok (inv, raw)
        })
      }))"

definition get_invitation :: "('s, 'c) org_service \<Rightarrow> string \<Rightarrow> string \<Rightarrow> ('s, 'c, invitation) actE" where
  "get_invitation sv o' i =
     or_else (on_db (repo_find_one (invitations_repo sv) (team_where o' i))) (org_missing ErrInvitationNotFound)"

definition list_invitations :: "('s, 'c) org_service \<Rightarrow> string \<Rightarrow> ('s, 'c, invitation list) actE" where
  "list_invitations sv o0 =
     (let o' = trim_space o0 in
      if o' = [] then fail OrgInvalidInput
      else on_db (repo_find_many (invitations_repo sv)
        (query_where ModelOrganizationInvitations [Eq ''organization_id'' (VStr o')])))"

definition accept_tx ::
  "('s, 'c) org_service \<Rightarrow> string \<Rightarrow> string \<Rightarrow> time \<Rightarrow> ctx \<Rightarrow> ('s, 'c, membership \<times> invitation) actE" where
  "accept_tx sv h u t cx =
     bindE (or_else (on_db (repo_find_one (invitations_repo sv) [Eq ''token_hash'' (VStr h)])) (org_missing ErrInvitationNotFound)) (\<lambda>inv.
       if iv_accepted inv then fail ErrInvitationAlreadyAccepted
       else if iv_expired inv t then fail ErrInvitationExpired
       else do {
         ex \<leftarrow> on_db (repo_find_one (members_repo sv) [Eq ''organization_id'' (VStr (iv_org inv)), Eq ''user_id'' (VStr u)]);
         case ex of
           Inr _ \<Rightarrow> fail ErrMemberAlreadyExists
         | Inl _ \<Rightarrow>
             bindE (on_db (repo_update (invitations_repo sv) [Eq ''id'' (VStr (iv_id inv))] [''accepted_at'' \<mapsto> VTime t])) (\<lambda>_. do {
               i \<leftarrow> org_generate_id (os_auth sv) ''mem'';
               bindE (on_db (repo_create (members_repo sv)
                 \<lparr>mb_id = i, mb_org = iv_org inv, mb_user = u, mb_role = iv_role inv, mb_status = MembershipActive,
                  mb_created_at = t, mb_updated_at = t\<rparr>)) (\<lambda>m. ok (m, inv))
             })
       })"

definition accept_invitation :: "('s, 'c) org_service \<Rightarrow> ctx \<Rightarrow> string \<Rightarrow> string \<Rightarrow> ('s, 'c, membership) actE" where
  "accept_invitation sv cx raw0 u0 =
     (let raw = trim_space raw0; u = trim_space u0 in
      if raw = [] \<or> u = [] then fail OrgInvalidInput
      else do {
        t \<leftarrow> now (os_auth sv);
        bindE (org_transaction sv cx (accept_tx sv (org_hash_token (au_rt (os_auth sv)) raw) u t)) (\<lambda>(m, inv). do {
          _ \<leftarrow> remember_member sv cx m;
          _ \<leftarrow> org_publish sv cx EventInvitationAccepted (iv_org inv) (PFields ''InvitationAcceptedPayload''
            [(''organization_id'', FStr (iv_org inv)), (''invitation_id'', FStr (iv_id inv)), (''user_id'', FStr u),
             (''accepted_at'', FTime t)]);
          _ \<leftarrow> announce_member_added sv cx (iv_org inv) u (mb_role m);
          ok m
        })
      })"

definition revoke_invitation :: "('s, 'c) org_service \<Rightarrow> ctx \<Rightarrow> string \<Rightarrow> string \<Rightarrow> ('s, 'c, unit) actE" where
  "revoke_invitation sv cx o' i =
     bindE (check_principal_auth sv cx o' RoleAdmin) (\<lambda>_.
     bindE (get_invitation sv o' i) (\<lambda>_.
     bindE (on_db (repo_delete (invitations_repo sv) (team_where o' i))) (\<lambda>n.
       if n = 0 then fail ErrInvitationNotFound
       else do {
         _ \<leftarrow> org_publish sv cx EventInvitationRevoked o' (PFields ''InvitationRevokedPayload''
           [(''organization_id'', FStr o'), (''invitation_id'', FStr i)]);
         ok ()
       })))"

end
