(* ===== verification/Organizations_Rows.thy ===== *)
theory Organizations_Rows
  imports Sdk_Correct Organizations_Service
begin

text \<open>
  Which rows stand for which organizations, memberships, teams, team members and invitations, and that
  the repositories write and read them. \<open>plain\<close> are the texts an adapter compares as texts.
\<close>

section \<open>Reading and writing a struct\<close>

lemma row_members_all:
  assumes "distinct fs" "list_all (\<lambda>f. encodable (r f)) fs"
  shows "\<exists>o'. row_object fs r = Inr o' \<and> list_all (\<lambda>f. map_of o' f = member_of (r f)) fs"
proof (rule row_object_members [of fs r])
  show "encodable (r f)" if "f \<in> set fs" for f using assms(2) that by (simp add: list_all_iff)
  show ?thesis if "row_object fs r = Inr o'" "\<And>f. f \<in> set fs \<Longrightarrow> map_of o' f = member_of (r f)" for o'
    using that by (intro exI [of _ o']) (simp add: list_all_iff)
qed (rule assms(1))

lemma from_map_by:
  assumes "distinct (cd_fields (rp_codec rp))" "list_all (\<lambda>f. encodable (r f)) (cd_fields (rp_codec rp))"
    and "\<And>o'. list_all (\<lambda>f. map_of o' f = member_of (r f)) (cd_fields (rp_codec rp)) \<Longrightarrow> cd_decode (rp_codec rp) o' old = Inr x"
  shows "from_map rp r old = Inr x"
  using row_members_all [OF assms(1,2)] assms(3) by (auto simp: from_map_def)

text \<open>A pointer to an instant, also as an update puts it in.\<close>

definition set_time_rep :: "runtime \<Rightarrow> gval option \<Rightarrow> time option \<Rightarrow> bool" where
  "set_time_rep rt v p \<longleftrightarrow> opt_time_rep rt v p \<or> (\<exists>t. p = Some t \<and> json_time_ok t \<and> v = Some (VTime t))"

lemma encodable_set_time: "set_time_rep rt v p \<Longrightarrow> encodable v"
  by (auto simp: set_time_rep_def encodable_def json_times_def dest: encodable_reps(3))

lemma set_time_into_rep:
  "set_time_rep rt v p \<Longrightarrow> time_text rt \<Longrightarrow> map_of o' k = member_of v \<Longrightarrow> old = None \<or> old = p \<Longrightarrow>
   opt_time_into rt o' k old = Inr p"
  using opt_time_into_rep [of rt v p o' k old]
  unfolding set_time_rep_def opt_time_into_def [of rt o' k old] read_json_time_def member_of_def
  by (auto simp: json_times_def)

lemma str_repI: "v = Some (VStr s) \<Longrightarrow> str_rep v s"
  by (simp add: str_rep_def)

section \<open>Rows of organizations\<close>

definition org_rep :: "runtime \<Rightarrow> (string \<Rightarrow> bool) \<Rightarrow> organization \<Rightarrow> row \<Rightarrow> bool" where
  "org_rep rt plain x r \<longleftrightarrow> time_text rt \<and>
     r ''id'' = Some (VStr (og_id x)) \<and> plain (og_id x) \<and>
     r ''name'' = Some (VStr (og_name x)) \<and>
     r ''slug'' = Some (VStr (og_slug x)) \<and> plain (og_slug x) \<and>
     r ''owner_id'' = Some (VStr (og_owner x)) \<and>
     string_map_rep (r ''metadata'') (og_metadata x) \<and>
     time_rep rt (r ''created_at'') (og_created_at x) \<and>
     time_rep rt (r ''updated_at'') (og_updated_at x)"

definition org_okay :: "(string \<Rightarrow> bool) \<Rightarrow> organization \<Rightarrow> bool" where
  "org_okay plain x \<longleftrightarrow> plain (og_id x) \<and> plain (og_slug x) \<and> json_time_ok (og_created_at x) \<and> json_time_ok (og_updated_at x) \<and> distinct (map fst (og_metadata x))"

lemma orgs_repo_simps [simp]:
  "rp_codec (orgs_repo sv) = org_codec (au_rt (os_auth sv))" "rp_adapter (orgs_repo sv) = Some (os_adapter sv)"
  "rp_model (orgs_repo sv) = ModelOrganizations" "rp_rt (orgs_repo sv) = au_rt (os_auth sv)"
  "cd_zero (org_codec rt) = no_org" "cd_encode (org_codec rt) = org_encode"
  "cd_decode (org_codec rt) = org_decode rt"
  by (simp_all add: orgs_repo_def org_codec_def)

lemma from_map_org:
  assumes rep: "org_rep rt plain x r" and old: "old = no_org \<or> old = x" and rp: "rp_codec rp = org_codec rt"
  shows "from_map rp r old = Inr x"
proof (rule from_map_by)
  have tt: "time_text rt" using rep by (simp add: org_rep_def)
  have c: "str_rep (r ''id'') (og_id x)" "str_rep (r ''name'') (og_name x)" "str_rep (r ''slug'') (og_slug x)" "str_rep (r ''owner_id'') (og_owner x)" "string_map_rep (r ''metadata'') (og_metadata x)" "time_rep rt (r ''created_at'') (og_created_at x)" "time_rep rt (r ''updated_at'') (og_updated_at x)"
    using rep by (simp_all add: org_rep_def str_repI)
  show "distinct (cd_fields (rp_codec rp))" by (simp add: rp org_codec_def)
  show "list_all (\<lambda>f. encodable (r f)) (cd_fields (rp_codec rp))"
    using encodable_reps(1) [OF c(1)] encodable_reps(1) [OF c(2)] encodable_reps(1) [OF c(3)] encodable_reps(1) [OF c(4)] encodable_reps(5) [OF c(5)] encodable_reps(2) [OF c(6)] encodable_reps(2) [OF c(7)]
    by (simp add: rp org_codec_def)
  fix o' assume m: "list_all (\<lambda>f. map_of o' f = member_of (r f)) (cd_fields (rp_codec rp))"
  have m': "map_of o' ''id'' = member_of (r ''id'')" "map_of o' ''name'' = member_of (r ''name'')" "map_of o' ''slug'' = member_of (r ''slug'')" "map_of o' ''owner_id'' = member_of (r ''owner_id'')" "map_of o' ''metadata'' = member_of (r ''metadata'')" "map_of o' ''created_at'' = member_of (r ''created_at'')" "map_of o' ''updated_at'' = member_of (r ''updated_at'')"
    using m by (simp_all add: rp org_codec_def)
  have z: "og_id old = [] \<or> og_id old = og_id x" "og_name old = [] \<or> og_name old = og_name x" "og_slug old = [] \<or> og_slug old = og_slug x" "og_owner old = [] \<or> og_owner old = og_owner x" "og_metadata old = [] \<or> og_metadata old = og_metadata x"
    using old by (auto simp: no_org_def)
  note rd = str_into_rep [OF c(1) m'(1) z(1)] str_into_rep [OF c(2) m'(2) z(2)] str_into_rep [OF c(3) m'(3) z(3)] str_into_rep [OF c(4) m'(4) z(4)] string_map_into_rep [OF c(5) m'(5) z(5)] time_into_rep [OF c(6) tt m'(6)] time_into_rep [OF c(7) tt m'(7)]
  have "org_decode rt o' old = Inr x" by (simp only: org_decode_def rd and_then_simps) simp
  then show "cd_decode (rp_codec rp) o' old = Inr x" by (simp add: rp)
qed

lemma to_map_org:
  assumes ok: "org_okay plain x" "time_text rt" and rt: "rp_rt rp = rt" "rp_codec rp = org_codec rt"
  shows "\<exists>r. to_map rp x = Inr r \<and> org_rep rt plain x r"
proof -
  have ts: "list_all json_time_ok [og_created_at x, og_updated_at x]"
    using ok by (auto simp: org_okay_def split: option.splits)
  then obtain ms where ms: "org_encode x = Inr ms" by (simp add: org_encode_def)
  define r where "r = map_of (map (\<lambda>(k, j). (k, json_value rt j)) ms)"
  have r: "to_map rp x = Inr r" by (simp add: to_map_def rt ms r_def)
  note look = r_def ms [symmetric, unfolded org_encode_def if_P [OF ts] sum.inject]
  have "r ''id'' = Some (VStr (og_id x))" "r ''name'' = Some (VStr (og_name x))" "r ''slug'' = Some (VStr (og_slug x))" "r ''owner_id'' = Some (VStr (og_owner x))" "r ''metadata'' = (if og_metadata x = [] then None else Some (VMap (map (\<lambda>(k, v). (k, VStr v)) (og_metadata x))))" "r ''created_at'' = Some (VStr (format_time rt (og_created_at x)))" "r ''updated_at'' = Some (VStr (format_time rt (og_updated_at x)))"
    by (auto simp: look map_add_def)
  then have "org_rep rt plain x r"
    using ok unfolding org_rep_def org_okay_def by (auto simp: rep_defs set_time_rep_def split: option.splits)
  with r show ?thesis by blast
qed

section \<open>Rows of memberships\<close>

definition member_rep :: "runtime \<Rightarrow> (string \<Rightarrow> bool) \<Rightarrow> membership \<Rightarrow> row \<Rightarrow> bool" where
  "member_rep rt plain x r \<longleftrightarrow> time_text rt \<and>
     r ''id'' = Some (VStr (mb_id x)) \<and> plain (mb_id x) \<and>
     r ''organization_id'' = Some (VStr (mb_org x)) \<and> plain (mb_org x) \<and>
     r ''user_id'' = Some (VStr (mb_user x)) \<and> plain (mb_user x) \<and>
     r ''role'' = Some (VStr (mb_role x)) \<and>
     r ''status'' = Some (VStr (mb_status x)) \<and>
     time_rep rt (r ''created_at'') (mb_created_at x) \<and>
     time_rep rt (r ''updated_at'') (mb_updated_at x)"

definition member_okay :: "(string \<Rightarrow> bool) \<Rightarrow> membership \<Rightarrow> bool" where
  "member_okay plain x \<longleftrightarrow> plain (mb_id x) \<and> plain (mb_org x) \<and> plain (mb_user x) \<and> json_time_ok (mb_created_at x) \<and> json_time_ok (mb_updated_at x)"

lemma members_repo_simps [simp]:
  "rp_codec (members_repo sv) = member_codec (au_rt (os_auth sv))" "rp_adapter (members_repo sv) = Some (os_adapter sv)"
  "rp_model (members_repo sv) = ModelOrganizationMemberships" "rp_rt (members_repo sv) = au_rt (os_auth sv)"
  "cd_zero (member_codec rt) = no_member" "cd_encode (member_codec rt) = member_encode"
  "cd_decode (member_codec rt) = member_decode rt"
  by (simp_all add: members_repo_def member_codec_def)

lemma from_map_member:
  assumes rep: "member_rep rt plain x r" and old: "old = no_member \<or> old = x" and rp: "rp_codec rp = member_codec rt"
  shows "from_map rp r old = Inr x"
proof (rule from_map_by)
  have tt: "time_text rt" using rep by (simp add: member_rep_def)
  have c: "str_rep (r ''id'') (mb_id x)" "str_rep (r ''organization_id'') (mb_org x)" "str_rep (r ''user_id'') (mb_user x)" "str_rep (r ''role'') (mb_role x)" "str_rep (r ''status'') (mb_status x)" "time_rep rt (r ''created_at'') (mb_created_at x)" "time_rep rt (r ''updated_at'') (mb_updated_at x)"
    using rep by (simp_all add: member_rep_def str_repI)
  show "distinct (cd_fields (rp_codec rp))" by (simp add: rp member_codec_def)
  show "list_all (\<lambda>f. encodable (r f)) (cd_fields (rp_codec rp))"
    using encodable_reps(1) [OF c(1)] encodable_reps(1) [OF c(2)] encodable_reps(1) [OF c(3)] encodable_reps(1) [OF c(4)] encodable_reps(1) [OF c(5)] encodable_reps(2) [OF c(6)] encodable_reps(2) [OF c(7)]
    by (simp add: rp member_codec_def)
  fix o' assume m: "list_all (\<lambda>f. map_of o' f = member_of (r f)) (cd_fields (rp_codec rp))"
  have m': "map_of o' ''id'' = member_of (r ''id'')" "map_of o' ''organization_id'' = member_of (r ''organization_id'')" "map_of o' ''user_id'' = member_of (r ''user_id'')" "map_of o' ''role'' = member_of (r ''role'')" "map_of o' ''status'' = member_of (r ''status'')" "map_of o' ''created_at'' = member_of (r ''created_at'')" "map_of o' ''updated_at'' = member_of (r ''updated_at'')"
    using m by (simp_all add: rp member_codec_def)
  have z: "mb_id old = [] \<or> mb_id old = mb_id x" "mb_org old = [] \<or> mb_org old = mb_org x" "mb_user old = [] \<or> mb_user old = mb_user x" "mb_role old = [] \<or> mb_role old = mb_role x" "mb_status old = [] \<or> mb_status old = mb_status x"
    using old by (auto simp: no_member_def)
  note rd = str_into_rep [OF c(1) m'(1) z(1)] str_into_rep [OF c(2) m'(2) z(2)] str_into_rep [OF c(3) m'(3) z(3)] str_into_rep [OF c(4) m'(4) z(4)] str_into_rep [OF c(5) m'(5) z(5)] time_into_rep [OF c(6) tt m'(6)] time_into_rep [OF c(7) tt m'(7)]
  have "member_decode rt o' old = Inr x" by (simp only: member_decode_def rd and_then_simps) simp
  then show "cd_decode (rp_codec rp) o' old = Inr x" by (simp add: rp)
qed

lemma to_map_member:
  assumes ok: "member_okay plain x" "time_text rt" and rt: "rp_rt rp = rt" "rp_codec rp = member_codec rt"
  shows "\<exists>r. to_map rp x = Inr r \<and> member_rep rt plain x r"
proof -
  have ts: "list_all json_time_ok [mb_created_at x, mb_updated_at x]"
    using ok by (auto simp: member_okay_def split: option.splits)
  then obtain ms where ms: "member_encode x = Inr ms" by (simp add: member_encode_def)
  define r where "r = map_of (map (\<lambda>(k, j). (k, json_value rt j)) ms)"
  have r: "to_map rp x = Inr r" by (simp add: to_map_def rt ms r_def)
  note look = r_def ms [symmetric, unfolded member_encode_def if_P [OF ts] sum.inject]
  have "r ''id'' = Some (VStr (mb_id x))" "r ''organization_id'' = Some (VStr (mb_org x))" "r ''user_id'' = Some (VStr (mb_user x))" "r ''role'' = Some (VStr (mb_role x))" "r ''status'' = Some (VStr (mb_status x))" "r ''created_at'' = Some (VStr (format_time rt (mb_created_at x)))" "r ''updated_at'' = Some (VStr (format_time rt (mb_updated_at x)))"
    by (auto simp: look map_add_def)
  then have "member_rep rt plain x r"
    using ok unfolding member_rep_def member_okay_def by (auto simp: rep_defs set_time_rep_def split: option.splits)
  with r show ?thesis by blast
qed

section \<open>Rows of teams\<close>

definition team_rep :: "runtime \<Rightarrow> (string \<Rightarrow> bool) \<Rightarrow> team \<Rightarrow> row \<Rightarrow> bool" where
  "team_rep rt plain x r \<longleftrightarrow> time_text rt \<and>
     r ''id'' = Some (VStr (te_id x)) \<and> plain (te_id x) \<and>
     r ''organization_id'' = Some (VStr (te_org x)) \<and> plain (te_org x) \<and>
     r ''name'' = Some (VStr (te_name x)) \<and>
     r ''slug'' = Some (VStr (te_slug x)) \<and>
     str_rep (r ''description'') (te_description x) \<and>
     time_rep rt (r ''created_at'') (te_created_at x) \<and>
     time_rep rt (r ''updated_at'') (te_updated_at x)"

definition team_okay :: "(string \<Rightarrow> bool) \<Rightarrow> team \<Rightarrow> bool" where
  "team_okay plain x \<longleftrightarrow> plain (te_id x) \<and> plain (te_org x) \<and> json_time_ok (te_created_at x) \<and> json_time_ok (te_updated_at x)"

lemma teams_repo_simps [simp]:
  "rp_codec (teams_repo sv) = team_codec (au_rt (os_auth sv))" "rp_adapter (teams_repo sv) = Some (os_adapter sv)"
  "rp_model (teams_repo sv) = ModelOrganizationTeams" "rp_rt (teams_repo sv) = au_rt (os_auth sv)"
  "cd_zero (team_codec rt) = no_team" "cd_encode (team_codec rt) = team_encode"
  "cd_decode (team_codec rt) = team_decode rt"
  by (simp_all add: teams_repo_def team_codec_def)

lemma from_map_team:
  assumes rep: "team_rep rt plain x r" and old: "old = no_team \<or> old = x" and rp: "rp_codec rp = team_codec rt"
  shows "from_map rp r old = Inr x"
proof (rule from_map_by)
  have tt: "time_text rt" using rep by (simp add: team_rep_def)
  have c: "str_rep (r ''id'') (te_id x)" "str_rep (r ''organization_id'') (te_org x)" "str_rep (r ''name'') (te_name x)" "str_rep (r ''slug'') (te_slug x)" "str_rep (r ''description'') (te_description x)" "time_rep rt (r ''created_at'') (te_created_at x)" "time_rep rt (r ''updated_at'') (te_updated_at x)"
    using rep by (simp_all add: team_rep_def str_repI)
  show "distinct (cd_fields (rp_codec rp))" by (simp add: rp team_codec_def)
  show "list_all (\<lambda>f. encodable (r f)) (cd_fields (rp_codec rp))"
    using encodable_reps(1) [OF c(1)] encodable_reps(1) [OF c(2)] encodable_reps(1) [OF c(3)] encodable_reps(1) [OF c(4)] encodable_reps(1) [OF c(5)] encodable_reps(2) [OF c(6)] encodable_reps(2) [OF c(7)]
    by (simp add: rp team_codec_def)
  fix o' assume m: "list_all (\<lambda>f. map_of o' f = member_of (r f)) (cd_fields (rp_codec rp))"
  have m': "map_of o' ''id'' = member_of (r ''id'')" "map_of o' ''organization_id'' = member_of (r ''organization_id'')" "map_of o' ''name'' = member_of (r ''name'')" "map_of o' ''slug'' = member_of (r ''slug'')" "map_of o' ''description'' = member_of (r ''description'')" "map_of o' ''created_at'' = member_of (r ''created_at'')" "map_of o' ''updated_at'' = member_of (r ''updated_at'')"
    using m by (simp_all add: rp team_codec_def)
  have z: "te_id old = [] \<or> te_id old = te_id x" "te_org old = [] \<or> te_org old = te_org x" "te_name old = [] \<or> te_name old = te_name x" "te_slug old = [] \<or> te_slug old = te_slug x" "te_description old = [] \<or> te_description old = te_description x"
    using old by (auto simp: no_team_def)
  note rd = str_into_rep [OF c(1) m'(1) z(1)] str_into_rep [OF c(2) m'(2) z(2)] str_into_rep [OF c(3) m'(3) z(3)] str_into_rep [OF c(4) m'(4) z(4)] str_into_rep [OF c(5) m'(5) z(5)] time_into_rep [OF c(6) tt m'(6)] time_into_rep [OF c(7) tt m'(7)]
  have "team_decode rt o' old = Inr x" by (simp only: team_decode_def rd and_then_simps) simp
  then show "cd_decode (rp_codec rp) o' old = Inr x" by (simp add: rp)
qed

lemma to_map_team:
  assumes ok: "team_okay plain x" "time_text rt" and rt: "rp_rt rp = rt" "rp_codec rp = team_codec rt"
  shows "\<exists>r. to_map rp x = Inr r \<and> team_rep rt plain x r"
proof -
  have ts: "list_all json_time_ok [te_created_at x, te_updated_at x]"
    using ok by (auto simp: team_okay_def split: option.splits)
  then obtain ms where ms: "team_encode x = Inr ms" by (simp add: team_encode_def)
  define r where "r = map_of (map (\<lambda>(k, j). (k, json_value rt j)) ms)"
  have r: "to_map rp x = Inr r" by (simp add: to_map_def rt ms r_def)
  note look = r_def ms [symmetric, unfolded team_encode_def if_P [OF ts] sum.inject]
  have "r ''id'' = Some (VStr (te_id x))" "r ''organization_id'' = Some (VStr (te_org x))" "r ''name'' = Some (VStr (te_name x))" "r ''slug'' = Some (VStr (te_slug x))" "r ''description'' = (if te_description x = [] then None else Some (VStr (te_description x)))" "r ''created_at'' = Some (VStr (format_time rt (te_created_at x)))" "r ''updated_at'' = Some (VStr (format_time rt (te_updated_at x)))"
    by (auto simp: look map_add_def)
  then have "team_rep rt plain x r"
    using ok unfolding team_rep_def team_okay_def by (auto simp: rep_defs set_time_rep_def split: option.splits)
  with r show ?thesis by blast
qed

section \<open>Rows of team members\<close>

definition team_member_rep :: "runtime \<Rightarrow> (string \<Rightarrow> bool) \<Rightarrow> team_membership \<Rightarrow> row \<Rightarrow> bool" where
  "team_member_rep rt plain x r \<longleftrightarrow> time_text rt \<and>
     r ''id'' = Some (VStr (tu_id x)) \<and>
     r ''team_id'' = Some (VStr (tu_team x)) \<and> plain (tu_team x) \<and>
     r ''user_id'' = Some (VStr (tu_user x)) \<and> plain (tu_user x) \<and>
     time_rep rt (r ''created_at'') (tu_created_at x)"

definition team_member_okay :: "(string \<Rightarrow> bool) \<Rightarrow> team_membership \<Rightarrow> bool" where
  "team_member_okay plain x \<longleftrightarrow> plain (tu_team x) \<and> plain (tu_user x) \<and> json_time_ok (tu_created_at x)"

lemma team_members_repo_simps [simp]:
  "rp_codec (team_members_repo sv) = team_member_codec (au_rt (os_auth sv))" "rp_adapter (team_members_repo sv) = Some (os_adapter sv)"
  "rp_model (team_members_repo sv) = ModelOrganizationTeamMembers" "rp_rt (team_members_repo sv) = au_rt (os_auth sv)"
  "cd_zero (team_member_codec rt) = no_team_member" "cd_encode (team_member_codec rt) = team_member_encode"
  "cd_decode (team_member_codec rt) = team_member_decode rt"
  by (simp_all add: team_members_repo_def team_member_codec_def)

lemma from_map_team_member:
  assumes rep: "team_member_rep rt plain x r" and old: "old = no_team_member \<or> old = x" and rp: "rp_codec rp = team_member_codec rt"
  shows "from_map rp r old = Inr x"
proof (rule from_map_by)
  have tt: "time_text rt" using rep by (simp add: team_member_rep_def)
  have c: "str_rep (r ''id'') (tu_id x)" "str_rep (r ''team_id'') (tu_team x)" "str_rep (r ''user_id'') (tu_user x)" "time_rep rt (r ''created_at'') (tu_created_at x)"
    using rep by (simp_all add: team_member_rep_def str_repI)
  show "distinct (cd_fields (rp_codec rp))" by (simp add: rp team_member_codec_def)
  show "list_all (\<lambda>f. encodable (r f)) (cd_fields (rp_codec rp))"
    using encodable_reps(1) [OF c(1)] encodable_reps(1) [OF c(2)] encodable_reps(1) [OF c(3)] encodable_reps(2) [OF c(4)]
    by (simp add: rp team_member_codec_def)
  fix o' assume m: "list_all (\<lambda>f. map_of o' f = member_of (r f)) (cd_fields (rp_codec rp))"
  have m': "map_of o' ''id'' = member_of (r ''id'')" "map_of o' ''team_id'' = member_of (r ''team_id'')" "map_of o' ''user_id'' = member_of (r ''user_id'')" "map_of o' ''created_at'' = member_of (r ''created_at'')"
    using m by (simp_all add: rp team_member_codec_def)
  have z: "tu_id old = [] \<or> tu_id old = tu_id x" "tu_team old = [] \<or> tu_team old = tu_team x" "tu_user old = [] \<or> tu_user old = tu_user x"
    using old by (auto simp: no_team_member_def)
  note rd = str_into_rep [OF c(1) m'(1) z(1)] str_into_rep [OF c(2) m'(2) z(2)] str_into_rep [OF c(3) m'(3) z(3)] time_into_rep [OF c(4) tt m'(4)]
  have "team_member_decode rt o' old = Inr x" by (simp only: team_member_decode_def rd and_then_simps) simp
  then show "cd_decode (rp_codec rp) o' old = Inr x" by (simp add: rp)
qed

lemma to_map_team_member:
  assumes ok: "team_member_okay plain x" "time_text rt" and rt: "rp_rt rp = rt" "rp_codec rp = team_member_codec rt"
  shows "\<exists>r. to_map rp x = Inr r \<and> team_member_rep rt plain x r"
proof -
  have ts: "list_all json_time_ok [tu_created_at x]"
    using ok by (auto simp: team_member_okay_def split: option.splits)
  then obtain ms where ms: "team_member_encode x = Inr ms" by (simp add: team_member_encode_def)
  define r where "r = map_of (map (\<lambda>(k, j). (k, json_value rt j)) ms)"
  have r: "to_map rp x = Inr r" by (simp add: to_map_def rt ms r_def)
  note look = r_def ms [symmetric, unfolded team_member_encode_def if_P [OF ts] sum.inject]
  have "r ''id'' = Some (VStr (tu_id x))" "r ''team_id'' = Some (VStr (tu_team x))" "r ''user_id'' = Some (VStr (tu_user x))" "r ''created_at'' = Some (VStr (format_time rt (tu_created_at x)))"
    by (auto simp: look map_add_def)
  then have "team_member_rep rt plain x r"
    using ok unfolding team_member_rep_def team_member_okay_def by (auto simp: rep_defs set_time_rep_def split: option.splits)
  with r show ?thesis by blast
qed

section \<open>Rows of invitations\<close>

definition invitation_rep :: "runtime \<Rightarrow> (string \<Rightarrow> bool) \<Rightarrow> invitation \<Rightarrow> row \<Rightarrow> bool" where
  "invitation_rep rt plain x r \<longleftrightarrow> time_text rt \<and>
     r ''id'' = Some (VStr (iv_id x)) \<and> plain (iv_id x) \<and>
     r ''organization_id'' = Some (VStr (iv_org x)) \<and> plain (iv_org x) \<and>
     r ''email'' = Some (VStr (iv_email x)) \<and>
     r ''role'' = Some (VStr (iv_role x)) \<and>
     r ''inviter_user_id'' = Some (VStr (iv_inviter x)) \<and>
     r ''token_hash'' = Some (VStr (iv_token_hash x)) \<and> plain (iv_token_hash x) \<and>
     time_rep rt (r ''expires_at'') (iv_expires_at x) \<and>
     set_time_rep rt (r ''accepted_at'') (iv_accepted_at x) \<and>
     time_rep rt (r ''created_at'') (iv_created_at x)"

definition invitation_okay :: "(string \<Rightarrow> bool) \<Rightarrow> invitation \<Rightarrow> bool" where
  "invitation_okay plain x \<longleftrightarrow> plain (iv_id x) \<and> plain (iv_org x) \<and> plain (iv_token_hash x) \<and> json_time_ok (iv_expires_at x) \<and> json_time_ok (iv_created_at x) \<and> (case iv_accepted_at x of None \<Rightarrow> True | Some t \<Rightarrow> json_time_ok t)"

lemma invitations_repo_simps [simp]:
  "rp_codec (invitations_repo sv) = invitation_codec (au_rt (os_auth sv))" "rp_adapter (invitations_repo sv) = Some (os_adapter sv)"
  "rp_model (invitations_repo sv) = ModelOrganizationInvitations" "rp_rt (invitations_repo sv) = au_rt (os_auth sv)"
  "cd_zero (invitation_codec rt) = no_invitation" "cd_encode (invitation_codec rt) = invitation_encode"
  "cd_decode (invitation_codec rt) = invitation_decode rt"
  by (simp_all add: invitations_repo_def invitation_codec_def)

lemma from_map_invitation:
  assumes rep: "invitation_rep rt plain x r" and old: "old = no_invitation \<or> old = x" and rp: "rp_codec rp = invitation_codec rt"
  shows "from_map rp r old = Inr x"
proof (rule from_map_by)
  have tt: "time_text rt" using rep by (simp add: invitation_rep_def)
  have c: "str_rep (r ''id'') (iv_id x)" "str_rep (r ''organization_id'') (iv_org x)" "str_rep (r ''email'') (iv_email x)" "str_rep (r ''role'') (iv_role x)" "str_rep (r ''inviter_user_id'') (iv_inviter x)" "str_rep (r ''token_hash'') (iv_token_hash x)" "time_rep rt (r ''expires_at'') (iv_expires_at x)" "set_time_rep rt (r ''accepted_at'') (iv_accepted_at x)" "time_rep rt (r ''created_at'') (iv_created_at x)"
    using rep by (simp_all add: invitation_rep_def str_repI)
  show "distinct (cd_fields (rp_codec rp))" by (simp add: rp invitation_codec_def)
  show "list_all (\<lambda>f. encodable (r f)) (cd_fields (rp_codec rp))"
    using encodable_reps(1) [OF c(1)] encodable_reps(1) [OF c(2)] encodable_reps(1) [OF c(3)] encodable_reps(1) [OF c(4)] encodable_reps(1) [OF c(5)] encodable_reps(1) [OF c(6)] encodable_reps(2) [OF c(7)] encodable_set_time [OF c(8)] encodable_reps(2) [OF c(9)]
    by (simp add: rp invitation_codec_def)
  fix o' assume m: "list_all (\<lambda>f. map_of o' f = member_of (r f)) (cd_fields (rp_codec rp))"
  have m': "map_of o' ''id'' = member_of (r ''id'')" "map_of o' ''organization_id'' = member_of (r ''organization_id'')" "map_of o' ''email'' = member_of (r ''email'')" "map_of o' ''role'' = member_of (r ''role'')" "map_of o' ''inviter_user_id'' = member_of (r ''inviter_user_id'')" "map_of o' ''token_hash'' = member_of (r ''token_hash'')" "map_of o' ''expires_at'' = member_of (r ''expires_at'')" "map_of o' ''accepted_at'' = member_of (r ''accepted_at'')" "map_of o' ''created_at'' = member_of (r ''created_at'')"
    using m by (simp_all add: rp invitation_codec_def)
  have z: "iv_id old = [] \<or> iv_id old = iv_id x" "iv_org old = [] \<or> iv_org old = iv_org x" "iv_email old = [] \<or> iv_email old = iv_email x" "iv_role old = [] \<or> iv_role old = iv_role x" "iv_inviter old = [] \<or> iv_inviter old = iv_inviter x" "iv_token_hash old = [] \<or> iv_token_hash old = iv_token_hash x" "iv_accepted_at old = None \<or> iv_accepted_at old = iv_accepted_at x"
    using old by (auto simp: no_invitation_def)
  note rd = str_into_rep [OF c(1) m'(1) z(1)] str_into_rep [OF c(2) m'(2) z(2)] str_into_rep [OF c(3) m'(3) z(3)] str_into_rep [OF c(4) m'(4) z(4)] str_into_rep [OF c(5) m'(5) z(5)] str_into_rep [OF c(6) m'(6) z(6)] time_into_rep [OF c(7) tt m'(7)] set_time_into_rep [OF c(8) tt m'(8) z(7)] time_into_rep [OF c(9) tt m'(9)]
  have "invitation_decode rt o' old = Inr x" by (simp only: invitation_decode_def rd and_then_simps) simp
  then show "cd_decode (rp_codec rp) o' old = Inr x" by (simp add: rp)
qed

lemma to_map_invitation:
  assumes ok: "invitation_okay plain x" "time_text rt" and rt: "rp_rt rp = rt" "rp_codec rp = invitation_codec rt"
  shows "\<exists>r. to_map rp x = Inr r \<and> invitation_rep rt plain x r"
proof -
  have ts: "list_all json_time_ok ([iv_expires_at x, iv_created_at x] @ (case iv_accepted_at x of None \<Rightarrow> [] | Some t \<Rightarrow> [t]))"
    using ok by (auto simp: invitation_okay_def split: option.splits)
  then obtain ms where ms: "invitation_encode x = Inr ms" by (simp add: invitation_encode_def)
  define r where "r = map_of (map (\<lambda>(k, j). (k, json_value rt j)) ms)"
  have r: "to_map rp x = Inr r" by (simp add: to_map_def rt ms r_def)
  note look = r_def ms [symmetric, unfolded invitation_encode_def if_P [OF ts] sum.inject]
  have "r ''id'' = Some (VStr (iv_id x))" "r ''organization_id'' = Some (VStr (iv_org x))" "r ''email'' = Some (VStr (iv_email x))" "r ''role'' = Some (VStr (iv_role x))" "r ''inviter_user_id'' = Some (VStr (iv_inviter x))" "r ''token_hash'' = Some (VStr (iv_token_hash x))" "r ''expires_at'' = Some (VStr (format_time rt (iv_expires_at x)))" "r ''accepted_at'' = (case iv_accepted_at x of None \<Rightarrow> None | Some t \<Rightarrow> Some (VStr (format_time rt t)))" "r ''created_at'' = Some (VStr (format_time rt (iv_created_at x)))"
    by (cases "iv_accepted_at x"; simp add: look map_add_def optional_field_def)+
  then have "invitation_rep rt plain x r"
    using ok unfolding invitation_rep_def invitation_okay_def by (auto simp: rep_defs set_time_rep_def split: option.splits)
  with r show ?thesis by blast
qed

end
