(* ===== verification/Organizations_Spec.thy ===== *)
theory Organizations_Spec
  imports Organizations_Service Sdk_Correct
begin

text \<open>
  What the service of organizations promises, on sets of organizations, memberships, teams and
  invitations: who may make a call, and what a successful call changes.
\<close>

record org_view =
  v_orgs :: "organization multiset"
  v_members :: "membership multiset"
  v_teams :: "team multiset"
  v_team_members :: "team_membership multiset"
  v_invitations :: "invitation multiset"

section \<open>Calls\<close>

datatype org_call =
    CreateOrganization create_organization_input
  | UpdateOrganization string update_organization_input
  | DeleteOrganization string
  | TransferOwnership string string
  | AddMember add_member_input
  | UpdateMemberRole string string string
  | UpdateMemberStatus string string string
  | RemoveMember string string
  | CreateTeam create_team_input
  | UpdateTeam string string update_team_input
  | DeleteTeam string string
  | AddTeamMember string string string
  | RemoveTeamMember string string string
  | CreateInvitation create_invitation_input
  | AcceptInvitation string string
  | RevokeInvitation string string
  | GetOrganization string
  | GetOrganizationBySlug string
  | ListUserOrganizations string
  | GetMember string string
  | AuthorizeOrg string string

definition answered :: "('w, err + 'a) state \<Rightarrow> ('w, err + unit) state" where
  "answered f = bindE f (\<lambda>_. ok ())"

fun org_run :: "('s, 'c) org_service \<Rightarrow> ctx \<Rightarrow> org_call \<Rightarrow> ('s, 'c, unit) actE" where
  "org_run sv cx (CreateOrganization inp) = answered (create_organization sv cx inp)"
| "org_run sv cx (UpdateOrganization i inp) = answered (update_organization sv cx i inp)"
| "org_run sv cx (DeleteOrganization i) = delete_organization sv cx i"
| "org_run sv cx (TransferOwnership i u) = transfer_ownership sv cx i u"
| "org_run sv cx (AddMember inp) = answered (add_member sv cx inp)"
| "org_run sv cx (UpdateMemberRole o' u r) = answered (update_member_role sv cx o' u r)"
| "org_run sv cx (UpdateMemberStatus o' u st) = answered (update_member_status sv cx o' u st)"
| "org_run sv cx (RemoveMember o' u) = remove_member sv cx o' u"
| "org_run sv cx (CreateTeam inp) = answered (create_team sv cx inp)"
| "org_run sv cx (UpdateTeam o' i inp) = answered (update_team sv cx o' i inp)"
| "org_run sv cx (DeleteTeam o' i) = delete_team sv cx o' i"
| "org_run sv cx (AddTeamMember o' i u) = add_team_member sv cx o' i u"
| "org_run sv cx (RemoveTeamMember o' i u) = remove_team_member sv cx o' i u"
| "org_run sv cx (CreateInvitation inp) = answered (create_invitation sv cx inp)"
| "org_run sv cx (AcceptInvitation raw u) = answered (accept_invitation sv cx raw u)"
| "org_run sv cx (RevokeInvitation o' i) = revoke_invitation sv cx o' i"
| "org_run sv cx (GetOrganization i) = answered (get_organization sv cx i)"
| "org_run sv cx (GetOrganizationBySlug s) = answered (get_organization_by_slug sv cx s)"
| "org_run sv cx (ListUserOrganizations u) = answered (list_user_organizations sv cx u)"
| "org_run sv cx (GetMember o' u) = answered (get_member sv cx o' u)"
| "org_run sv cx (AuthorizeOrg o' r) = answered (org_authorize sv cx o' r)"

section \<open>Authority\<close>

text \<open>Membership \<open>m\<close> lets the principal of the context act in the organization with at least the role.\<close>

definition may_act :: "org_view \<Rightarrow> ctx \<Rightarrow> string \<Rightarrow> string \<Rightarrow> membership \<Rightarrow> bool" where
  "may_act v cx o' role m \<longleftrightarrow> m \<in># v_members v \<and> mb_org m = trim_space o' \<and>
     (\<exists>p. acting cx = Some p \<and> mb_user m = trim_space p) \<and> mb_active m \<and> role_at_least (mb_role m) role \<and>
     (case organization_from cx of (bound, bound_ok) \<Rightarrow> bound_ok \<longrightarrow> bound = o')"

text \<open>A context without a principal is the program itself.\<close>

definition allowed :: "org_view \<Rightarrow> ctx \<Rightarrow> string \<Rightarrow> string \<Rightarrow> bool" where
  "allowed v cx o' role \<longleftrightarrow> acting cx = None \<or> (\<exists>m. may_act v cx o' role m)"

definition self_or_admin :: "ctx \<Rightarrow> string \<Rightarrow> string" where
  "self_or_admin cx u = (if acting cx = Some u then RoleMember else RoleAdmin)"

fun call_allowed :: "org_view \<Rightarrow> ctx \<Rightarrow> org_call \<Rightarrow> bool" where
  "call_allowed v cx (UpdateOrganization i inp) = allowed v cx i RoleAdmin"
| "call_allowed v cx (DeleteOrganization i) = allowed v cx i RoleOwner"
| "call_allowed v cx (TransferOwnership i u) = allowed v cx i RoleOwner"
| "call_allowed v cx (AddMember inp) = allowed v cx (trim_space (am_org inp)) RoleAdmin"
| "call_allowed v cx (UpdateMemberRole o' u r) = (acting cx = None \<or>
     (\<exists>m. may_act v cx o' (if r = RoleOwner then RoleOwner else RoleAdmin) m \<and>
       (\<forall>m' \<in># v_members v. mb_org m' = trim_space o' \<and> mb_user m' = trim_space u \<and> mb_role m' = RoleOwner \<longrightarrow>
          mb_role m = RoleOwner)))"
| "call_allowed v cx (UpdateMemberStatus o' u st) = allowed v cx o' RoleAdmin"
| "call_allowed v cx (RemoveMember o' u) = allowed v cx (trim_space o') (self_or_admin cx (trim_space u))"
| "call_allowed v cx (CreateTeam inp) = allowed v cx (trim_space (ct_org inp)) RoleAdmin"
| "call_allowed v cx (UpdateTeam o' i inp) = allowed v cx o' RoleAdmin"
| "call_allowed v cx (DeleteTeam o' i) = allowed v cx o' RoleAdmin"
| "call_allowed v cx (AddTeamMember o' i u) = allowed v cx o' RoleAdmin"
| "call_allowed v cx (RemoveTeamMember o' i u) = allowed v cx o' (self_or_admin cx u)"
| "call_allowed v cx (CreateInvitation inp) = allowed v cx (trim_space (ci_org inp)) RoleAdmin"
| "call_allowed v cx (RevokeInvitation o' i) = allowed v cx o' RoleAdmin"
| "call_allowed v cx (AuthorizeOrg o' r) = (\<exists>m. may_act v cx o' r m)"
| "call_allowed v cx _ = True"

section \<open>Changes\<close>

definition member_in :: "org_view \<Rightarrow> string \<Rightarrow> string \<Rightarrow> membership \<Rightarrow> bool" where
  "member_in v o' u m \<longleftrightarrow> m \<in># v_members v \<and> mb_org m = o' \<and> mb_user m = u"

definition new_member :: "org_view \<Rightarrow> string \<Rightarrow> string \<Rightarrow> string \<Rightarrow> membership \<Rightarrow> bool" where
  "new_member v o' u role m \<longleftrightarrow> mb_org m = o' \<and> mb_user m = u \<and> mb_role m = role \<and> mb_active m \<and>
     (\<forall>y \<in># v_members v. mb_id y \<noteq> mb_id m \<and> (mb_org y \<noteq> o' \<or> mb_user y \<noteq> u))"

text \<open>What a successful call does to the organizations, memberships, teams and invitations.\<close>

inductive org_change :: "runtime \<Rightarrow> org_view \<Rightarrow> org_call \<Rightarrow> org_view \<Rightarrow> bool" for rt v where
  ch_create: "og_name x = trim_space (co_name inp) \<Longrightarrow> og_slug x = trim_space (to_lower (co_slug inp)) \<Longrightarrow>
    og_owner x = trim_space (co_owner inp) \<Longrightarrow> og_metadata x = co_metadata inp \<Longrightarrow>
    \<forall>y \<in># v_orgs v. og_id y \<noteq> og_id x \<and> og_slug y \<noteq> og_slug x \<Longrightarrow>
    no_colon (og_id x) \<Longrightarrow> og_id x \<noteq> [] \<Longrightarrow> og_slug x \<noteq> [] \<Longrightarrow> og_owner x \<noteq> [] \<Longrightarrow>
    new_member v (og_id x) (og_owner x) RoleOwner m \<Longrightarrow>
    org_change rt v (CreateOrganization inp)
      (v\<lparr>v_orgs := add_mset x (v_orgs v), v_members := add_mset m (v_members v)\<rparr>)"
| ch_update: "x \<in># v_orgs v \<Longrightarrow> og_id x = trim_space i \<Longrightarrow>
    org_change rt v (UpdateOrganization i inp)
      (v\<lparr>v_orgs := upd_where (\<lambda>y. og_id y = trim_space i) (\<lambda>y. fst (organization_updates inp t y)) (v_orgs v)\<rparr>)"
| ch_delete: "x \<in># v_orgs v \<Longrightarrow> og_id x = i \<Longrightarrow>
    org_change rt v (DeleteOrganization i)
      (v\<lparr>v_orgs := filter_mset (\<lambda>y. og_id y \<noteq> i) (v_orgs v),
         v_members := filter_mset (\<lambda>y. mb_org y \<noteq> i) (v_members v),
         v_teams := filter_mset (\<lambda>y. te_org y \<noteq> i) (v_teams v),
         v_team_members := filter_mset (\<lambda>y. \<not> (\<exists>t \<in># v_teams v. te_org t = i \<and> te_id t = tu_team y)) (v_team_members v),
         v_invitations := filter_mset (\<lambda>y. iv_org y \<noteq> i) (v_invitations v)\<rparr>)"
| ch_transfer: "x \<in># v_orgs v \<Longrightarrow> og_id x = trim_space i \<Longrightarrow> trim_space u \<noteq> og_owner x \<Longrightarrow>
    member_in v (trim_space i) (og_owner x) old \<Longrightarrow> member_in v (trim_space i) (trim_space u) new \<Longrightarrow> mb_active new \<Longrightarrow>
    org_change rt v (TransferOwnership i u)
      (v\<lparr>v_orgs := upd_where (\<lambda>y. og_id y = trim_space i) (\<lambda>y. y\<lparr>og_owner := trim_space u, og_updated_at := t\<rparr>) (v_orgs v),
         v_members := upd_where (\<lambda>y. mb_id y = mb_id new) (\<lambda>y. y\<lparr>mb_role := RoleOwner, mb_updated_at := t\<rparr>)
           (upd_where (\<lambda>y. mb_id y = mb_id old) (\<lambda>y. y\<lparr>mb_role := RoleAdmin, mb_updated_at := t\<rparr>) (v_members v))\<rparr>)"
| ch_add_member: "new_member v (trim_space (am_org inp)) (trim_space (am_user inp))
      (if am_role inp = [] then RoleMember else am_role inp) m \<Longrightarrow>
    trim_space (am_org inp) \<noteq> [] \<Longrightarrow> trim_space (am_user inp) \<noteq> [] \<Longrightarrow>
    org_change rt v (AddMember inp) (v\<lparr>v_members := add_mset m (v_members v)\<rparr>)"
| ch_role: "member_in v (trim_space o') (trim_space u) m \<Longrightarrow> mb_role m = RoleOwner \<longrightarrow> r = RoleOwner \<Longrightarrow>
    org_change rt v (UpdateMemberRole o' u r)
      (v\<lparr>v_members := upd_where (\<lambda>y. mb_id y = mb_id m) (\<lambda>y. y\<lparr>mb_role := r, mb_updated_at := t\<rparr>) (v_members v)\<rparr>)"
| ch_status: "member_in v (trim_space o') (trim_space u) m \<Longrightarrow> mb_role m = RoleOwner \<longrightarrow> st = MembershipActive \<Longrightarrow>
    org_change rt v (UpdateMemberStatus o' u st)
      (v\<lparr>v_members := upd_where (\<lambda>y. mb_id y = mb_id m) (\<lambda>y. y\<lparr>mb_status := st, mb_updated_at := t\<rparr>) (v_members v)\<rparr>)"
| ch_remove: "member_in v (trim_space o') (trim_space u) m \<Longrightarrow> mb_role m \<noteq> RoleOwner \<Longrightarrow>
    org_change rt v (RemoveMember o' u)
      (v\<lparr>v_members := filter_mset (\<lambda>y. \<not> (mb_org y = trim_space o' \<and> mb_user y = trim_space u)) (v_members v)\<rparr>)"
| ch_create_team: "te_org x = trim_space (ct_org inp) \<Longrightarrow> te_name x = trim_space (ct_name inp) \<Longrightarrow>
    te_slug x = trim_space (to_lower (ct_slug inp)) \<Longrightarrow> te_description x = ct_description inp \<Longrightarrow>
    \<forall>y \<in># v_teams v. te_id y \<noteq> te_id x \<and> (te_org y \<noteq> te_org x \<or> te_slug y \<noteq> te_slug x) \<Longrightarrow>
    org_change rt v (CreateTeam inp) (v\<lparr>v_teams := add_mset x (v_teams v)\<rparr>)"
| ch_update_team: "x \<in># v_teams v \<Longrightarrow> te_org x = o' \<Longrightarrow> te_id x = i \<Longrightarrow>
    org_change rt v (UpdateTeam o' i inp)
      (v\<lparr>v_teams := upd_where (\<lambda>y. te_org y = o' \<and> te_id y = i) (\<lambda>y. fst (team_updates inp t y)) (v_teams v)\<rparr>)"
| ch_delete_team: "x \<in># v_teams v \<Longrightarrow> te_org x = o' \<Longrightarrow> te_id x = i \<Longrightarrow>
    org_change rt v (DeleteTeam o' i)
      (v\<lparr>v_teams := filter_mset (\<lambda>y. \<not> (te_org y = o' \<and> te_id y = i)) (v_teams v),
         v_team_members := filter_mset (\<lambda>y. tu_team y \<noteq> i) (v_team_members v)\<rparr>)"
| ch_add_team_member: "x \<in># v_teams v \<Longrightarrow> te_org x = o' \<Longrightarrow> te_id x = i \<Longrightarrow>
    member_in v (trim_space o') (trim_space u) m \<Longrightarrow> mb_active m \<Longrightarrow>
    tu_team y = i \<Longrightarrow> tu_user y = u \<Longrightarrow> \<forall>z \<in># v_team_members v. tu_team z \<noteq> i \<or> tu_user z \<noteq> u \<Longrightarrow>
    org_change rt v (AddTeamMember o' i u) (v\<lparr>v_team_members := add_mset y (v_team_members v)\<rparr>)"
| ch_remove_team_member: "x \<in># v_teams v \<Longrightarrow> te_org x = o' \<Longrightarrow> te_id x = i \<Longrightarrow>
    \<exists>y \<in># v_team_members v. tu_team y = i \<and> tu_user y = u \<Longrightarrow>
    org_change rt v (RemoveTeamMember o' i u)
      (v\<lparr>v_team_members := filter_mset (\<lambda>y. \<not> (tu_team y = i \<and> tu_user y = u)) (v_team_members v)\<rparr>)"
| ch_invite: "iv_org x = trim_space (ci_org inp) \<Longrightarrow> iv_email x = trim_space (to_lower (ci_email inp)) \<Longrightarrow>
    iv_role x = (if ci_role inp = [] then RoleMember else ci_role inp) \<Longrightarrow> iv_inviter x = trim_space (ci_inviter inp) \<Longrightarrow>
    iv_accepted_at x = None \<Longrightarrow> iv_org x \<noteq> [] \<Longrightarrow>
    \<forall>y \<in># v_invitations v. iv_id y \<noteq> iv_id x \<and> iv_token_hash y \<noteq> iv_token_hash x \<Longrightarrow>
    org_change rt v (CreateInvitation inp) (v\<lparr>v_invitations := add_mset x (v_invitations v)\<rparr>)"
| ch_accept: "x \<in># v_invitations v \<Longrightarrow> iv_token_hash x = org_hash_token rt (trim_space raw) \<Longrightarrow> \<not> iv_accepted x \<Longrightarrow>
    \<not> iv_expired x t \<Longrightarrow> new_member v (iv_org x) (trim_space u) (iv_role x) m \<Longrightarrow> trim_space u \<noteq> [] \<Longrightarrow>
    org_change rt v (AcceptInvitation raw u)
      (v\<lparr>v_invitations := upd_where (\<lambda>y. iv_id y = iv_id x) (\<lambda>y. y\<lparr>iv_accepted_at := Some t\<rparr>) (v_invitations v),
         v_members := add_mset m (v_members v)\<rparr>)"
| ch_revoke: "x \<in># v_invitations v \<Longrightarrow> iv_org x = o' \<Longrightarrow> iv_id x = i \<Longrightarrow>
    org_change rt v (RevokeInvitation o' i)
      (v\<lparr>v_invitations := filter_mset (\<lambda>y. \<not> (iv_org y = o' \<and> iv_id y = i)) (v_invitations v)\<rparr>)"
| ch_get_org: "org_change rt v (GetOrganization i) v"
| ch_get_slug: "org_change rt v (GetOrganizationBySlug s) v"
| ch_list_user: "org_change rt v (ListUserOrganizations u) v"
| ch_get_member: "org_change rt v (GetMember o' u) v"
| ch_authorize: "org_change rt v (AuthorizeOrg o' r) v"

section \<open>The invariant\<close>

definition no_colon :: "string \<Rightarrow> bool" where
  "no_colon s \<longleftrightarrow> CHR '':'' \<notin> set s"

text \<open>The owner of an organization is an active member of it with the role of owner.\<close>

definition owned :: "org_view \<Rightarrow> organization \<Rightarrow> bool" where
  "owned v x \<longleftrightarrow> (\<exists>m \<in># v_members v. mb_org m = og_id x \<and> mb_user m = og_owner x \<and> mb_role m = RoleOwner \<and> mb_active m)"

definition orgs_ok :: "org_view \<Rightarrow> bool" where
  "orgs_ok v \<longleftrightarrow> uniq og_id (v_orgs v) \<and> uniq og_slug (v_orgs v) \<and> uniq mb_id (v_members v) \<and>
     uniq (\<lambda>m. (mb_org m, mb_user m)) (v_members v) \<and> uniq te_id (v_teams v) \<and>
     uniq iv_id (v_invitations v) \<and> uniq iv_token_hash (v_invitations v) \<and>
     (\<forall>m \<in># v_members v. no_colon (mb_org m) \<and> mb_org m \<noteq> [] \<and> mb_user m \<noteq> []) \<and>
     (\<forall>i \<in># v_invitations v. no_colon (iv_org i) \<and> iv_org i \<noteq> []) \<and>
     (\<forall>x \<in># v_orgs v. og_slug x \<noteq> [] \<and> trim_space (og_owner x) = og_owner x \<and> owned v x)"

text \<open>What the cache holds is what is stored; a membership is looked up for an organization without a colon.\<close>

definition coherent :: "runtime \<Rightarrow> org_view \<Rightarrow> (string \<rightharpoonup> json) \<Rightarrow> bool" where
  "coherent rt v c \<longleftrightarrow>
     (\<forall>o' u j. no_colon o' \<longrightarrow> c (membership_key o' u) = Some j \<longrightarrow> (\<exists>m. json_member rt j = Inr m \<and> member_in v o' u m)) \<and>
     (\<forall>i j. c (org_id_key i) = Some j \<longrightarrow> (\<exists>x \<in># v_orgs v. json_org rt j = Inr x \<and> og_id x = i)) \<and>
     (\<forall>s j. c (org_slug_key s) = Some j \<longrightarrow> (\<exists>x \<in># v_orgs v. json_org rt j = Inr x \<and> og_slug x = s))"

text \<open>Calls in a context that is alive and outside of a transaction, with identifiers without spaces around and colons.\<close>

definition clean :: "string \<Rightarrow> bool" where
  "clean s \<longleftrightarrow> trim_space s = s \<and> no_colon s"

text \<open>
  What a call is made with. \<open>plain\<close> are the texts the adapter compares as texts, \<open>c\<close> is what the cache holds.
  An organization is deleted by the program itself, when no membership of it is cached.
\<close>

fun call_ok :: "(string \<Rightarrow> bool) \<Rightarrow> ('s, 'c) org_service \<Rightarrow> (string \<rightharpoonup> json) \<Rightarrow> ctx \<Rightarrow> org_call \<Rightarrow> bool" where
  "call_ok plain sv c cx (CreateOrganization inp) = (plain (trim_space (co_owner inp)) \<and> distinct (map fst (co_metadata inp)))"
| "call_ok plain sv c cx (UpdateOrganization i inp) = (no_colon (trim_space i) \<and>
     (case uo_metadata inp of None \<Rightarrow> True | Some md \<Rightarrow> distinct (map fst md)))"
| "call_ok plain sv c cx (DeleteOrganization i) = (clean i \<and>
     (au_cache (os_auth sv) = None \<or> acting cx = None \<and> (\<forall>u. c (membership_key i u) = None)))"
| "call_ok plain sv c cx (TransferOwnership i u) = clean i"
| "call_ok plain sv c cx (AddMember inp) = (no_colon (trim_space (am_org inp)) \<and> plain (trim_space (am_user inp)))"
| "call_ok plain sv c cx (UpdateMemberRole o' u r) = (clean o' \<and> trim_space u = u)"
| "call_ok plain sv c cx (UpdateMemberStatus o' u st) = (clean o' \<and> trim_space u = u)"
| "call_ok plain sv c cx (RemoveMember o' u) = no_colon (trim_space o')"
| "call_ok plain sv c cx (CreateTeam inp) = no_colon (trim_space (ct_org inp))"
| "call_ok plain sv c cx (UpdateTeam o' i inp) = no_colon (trim_space o')"
| "call_ok plain sv c cx (DeleteTeam o' i) = no_colon (trim_space o')"
| "call_ok plain sv c cx (AddTeamMember o' i u) = (no_colon (trim_space o') \<and> plain u)"
| "call_ok plain sv c cx (RemoveTeamMember o' i u) = no_colon (trim_space o')"
| "call_ok plain sv c cx (CreateInvitation inp) = (no_colon (trim_space (ci_org inp)) \<and> (\<forall>n. json_time_ok
     (au_now (os_auth sv) n + (if ci_ttl inp = 0 then ocf_invitation_ttl (os_cfg sv) else ci_ttl inp))))"
| "call_ok plain sv c cx (AcceptInvitation raw u) = plain (trim_space u)"
| "call_ok plain sv c cx (RevokeInvitation o' i) = no_colon (trim_space o')"
| "call_ok plain sv c cx (GetMember o' u) = no_colon (trim_space o')"
| "call_ok plain sv c cx (AuthorizeOrg o' r) = no_colon (trim_space o')"
| "call_ok plain sv c cx (GetOrganization i) = True"
| "call_ok plain sv c cx (GetOrganizationBySlug i) = True"
| "call_ok plain sv c cx (ListUserOrganizations u) = True"

section \<open>The invariant is kept\<close>

lemma uniq_upd: "uniq f M \<Longrightarrow> (\<And>x. x \<in># M \<Longrightarrow> P x \<Longrightarrow> f (g x) = f x) \<Longrightarrow> uniq f (upd_where P g M)"
  unfolding upd_where_def by (rule uniq_image) auto

lemma in_upd_where: "y \<in># upd_where P g M \<longleftrightarrow> (\<exists>x \<in># M. y = (if P x then g x else x))"
  by (auto simp: upd_where_def)

lemma organization_updates_simps [simp]:
  "og_id (fst (organization_updates inp t x)) = og_id x" "og_slug (fst (organization_updates inp t x)) = og_slug x"
  "og_owner (fst (organization_updates inp t x)) = og_owner x"
  by (auto simp: organization_updates_def split: option.splits)

lemma team_updates_simps [simp]:
  "te_id (fst (team_updates inp t x)) = te_id x" "te_org (fst (team_updates inp t x)) = te_org x"
  "te_slug (fst (team_updates inp t x)) = te_slug x"
  by (auto simp: team_updates_def split: option.splits)

lemma owned_mono:
  assumes "owned v x" "og_id y = og_id x" "og_owner y = og_owner x"
    and "\<And>m. m \<in># v_members v \<Longrightarrow> mb_org m = og_id x \<Longrightarrow> mb_user m = og_owner x \<Longrightarrow> mb_role m = RoleOwner \<Longrightarrow> mb_active m \<Longrightarrow>
      \<exists>m' \<in># v_members v'. mb_org m' = mb_org m \<and> mb_user m' = mb_user m \<and> mb_role m' = RoleOwner \<and> mb_active m'"
  shows "owned v' y"
  using assms unfolding owned_def by metis

lemma new_memberD:
  assumes "new_member v o' u r m"
  shows "mb_org m = o'" "mb_user m = u" "mb_active m" "mb_role m = r" "\<And>y. y \<in># v_members v \<Longrightarrow> mb_id y \<noteq> mb_id m"
    "\<And>y. y \<in># v_members v \<Longrightarrow> (mb_org y, mb_user y) \<noteq> (o', u)"
  using assms by (auto simp: new_member_def)

lemma ok_more_members:
  assumes ok: "orgs_ok v" and m: "new_member v o' u r m" "no_colon o'" "o' \<noteq> []" "u \<noteq> []"
  shows "orgs_ok (v\<lparr>v_members := add_mset m (v_members v)\<rparr>)"
proof -
  have "owned (v\<lparr>v_members := add_mset m (v_members v)\<rparr>) x" if "x \<in># v_orgs v" for x
    by (rule owned_mono [of v x]) (use ok that in \<open>auto simp: orgs_ok_def\<close>)
  with ok m show ?thesis
    using new_memberD [OF m(1)] by (auto simp: orgs_ok_def intro!: uniq_add)
qed

lemma ok_updated_member:
  assumes ok: "orgs_ok v" and m: "m \<in># v_members v" and g: "\<And>y. mb_id (g y) = mb_id y \<and> mb_org (g y) = mb_org y \<and> mb_user (g y) = mb_user y"
    and own: "mb_role m = RoleOwner \<Longrightarrow> mb_active m \<Longrightarrow> mb_role (g m) = RoleOwner \<and> mb_active (g m)"
  shows "orgs_ok (v\<lparr>v_members := upd_where (\<lambda>y. mb_id y = mb_id m) g (v_members v)\<rparr>)"
proof -
  have one: "y = m" if "y \<in># v_members v" "mb_id y = mb_id m" for y
    using uniq_eq [of mb_id "v_members v" y m] ok m that by (auto simp: orgs_ok_def)
  have "owned (v\<lparr>v_members := upd_where (\<lambda>y. mb_id y = mb_id m) g (v_members v)\<rparr>) x" if "x \<in># v_orgs v" for x
  proof (rule owned_mono [of v x])
    fix y assume y: "y \<in># v_members v" "mb_role y = RoleOwner" "mb_active y"
    define y' where "y' = (if mb_id y = mb_id m then g y else y)"
    have "mb_role y' = RoleOwner \<and> mb_active y'" "mb_org y' = mb_org y \<and> mb_user y' = mb_user y"
      using y one [OF y(1)] own g by (auto simp: y'_def)
    moreover have "y' \<in># upd_where (\<lambda>y. mb_id y = mb_id m) g (v_members v)" using y(1) by (auto simp: in_upd_where y'_def)
    ultimately show "\<exists>m' \<in># v_members (v\<lparr>v_members := upd_where (\<lambda>y. mb_id y = mb_id m) g (v_members v)\<rparr>).
        mb_org m' = mb_org y \<and> mb_user m' = mb_user y \<and> mb_role m' = RoleOwner \<and> mb_active m'" by auto
  qed (use ok that in \<open>auto simp: orgs_ok_def\<close>)
  moreover have "no_colon (mb_org z) \<and> mb_org z \<noteq> [] \<and> mb_user z \<noteq> []"
    if z: "z \<in># upd_where (\<lambda>y. mb_id y = mb_id m) g (v_members v)" for z
  proof -
    from z obtain y where "y \<in># v_members v" "z = (if mb_id y = mb_id m then g y else y)" unfolding in_upd_where by blast
    with ok g [of y] show ?thesis by (cases "mb_id y = mb_id m") (simp_all add: orgs_ok_def)
  qed
  moreover have "uniq mb_id (upd_where (\<lambda>y. mb_id y = mb_id m) g (v_members v))"
    "uniq (\<lambda>m. (mb_org m, mb_user m)) (upd_where (\<lambda>y. mb_id y = mb_id m) g (v_members v))"
    using ok g by (auto simp: orgs_ok_def intro!: uniq_upd)
  ultimately show ?thesis using ok unfolding orgs_ok_def by simp
qed

lemma ok_fewer:
  assumes ok: "orgs_ok v" and p: "\<And>x m. x \<in># v_orgs v \<Longrightarrow> P x \<Longrightarrow> m \<in># v_members v \<Longrightarrow> mb_org m = og_id x \<Longrightarrow>
      mb_user m = og_owner x \<Longrightarrow> mb_role m = RoleOwner \<Longrightarrow> R m"
    and v': "v_orgs v' = filter_mset P (v_orgs v)" "v_members v' = filter_mset R (v_members v)"
      "v_teams v' = filter_mset Q1 (v_teams v)" "v_invitations v' = filter_mset Q2 (v_invitations v)"
  shows "orgs_ok v'"
proof -
  have "owned v' x" if "x \<in># v_orgs v" "P x" for x
  proof (rule owned_mono [of v x])
    show "owned v x" using ok that by (simp add: orgs_ok_def)
  qed (use p [OF that] v'(2) in auto)
  with ok show ?thesis unfolding orgs_ok_def v' by (auto intro!: uniq_filter)
qed

lemma ok_transferred:
  assumes ok: "orgs_ok v" and x: "x \<in># v_orgs v" "og_id x = i" "u \<noteq> og_owner x" "trim_space u = u"
    and old: "member_in v i (og_owner x) old" and new: "member_in v i u new" "mb_active new"
  shows "orgs_ok (v\<lparr>v_orgs := upd_where (\<lambda>y. og_id y = i) (\<lambda>y. y\<lparr>og_owner := u, og_updated_at := t\<rparr>) (v_orgs v),
    v_members := upd_where (\<lambda>y. mb_id y = mb_id new) (\<lambda>y. y\<lparr>mb_role := RoleOwner, mb_updated_at := t\<rparr>)
      (upd_where (\<lambda>y. mb_id y = mb_id old) (\<lambda>y. y\<lparr>mb_role := RoleAdmin, mb_updated_at := t\<rparr>) (v_members v))\<rparr>)"
    (is "orgs_ok ?v")
proof -
  have id1: "y = m" if "y \<in># v_members v" "m \<in># v_members v" "mb_id y = mb_id m" for y m
    using uniq_eq [of mb_id "v_members v" y m] ok that by (auto simp: orgs_ok_def)
  have on: "old \<in># v_members v" "mb_org old = i" "mb_user old = og_owner x" "new \<in># v_members v" "mb_org new = i" "mb_user new = u"
    using old new by (auto simp: member_in_def)
  have ne: "mb_id old \<noteq> mb_id new" using id1 [OF on(1,4)] on(3,6) x(3) by auto
  have i1: "y = x" if "y \<in># v_orgs v" "og_id y = i" for y
    using uniq_eq [of og_id "v_orgs v" y x] ok that x by (auto simp: orgs_ok_def)
  have own: "owned ?v (if og_id y = i then y\<lparr>og_owner := u, og_updated_at := t\<rparr> else y)" if y: "y \<in># v_orgs v" for y
  proof (cases "og_id y = i")
    case True
    have "new\<lparr>mb_role := RoleOwner, mb_updated_at := t\<rparr> \<in># v_members ?v"
      using on(4) ne by (auto simp: in_upd_where intro!: bexI [of _ new])
    moreover have "mb_active (new\<lparr>mb_role := RoleOwner, mb_updated_at := t\<rparr>)" using new(2) by (simp add: mb_active_def)
    ultimately show ?thesis using True on unfolding owned_def by (intro bexI [of _ "new\<lparr>mb_role := RoleOwner, mb_updated_at := t\<rparr>"]) auto
  next
    case False
    have "owned ?v y"
    proof (rule owned_mono [of v y])
      fix m assume m: "m \<in># v_members v" "mb_org m = og_id y" "mb_role m = RoleOwner" "mb_active m"
      with False on id1 [OF m(1)] have "mb_id m \<noteq> mb_id old" "mb_id m \<noteq> mb_id new" by auto
      with m(1) have "m \<in># v_members ?v" by (auto simp: in_upd_where intro!: bexI [of _ m])
      with m show "\<exists>m' \<in># v_members ?v. mb_org m' = mb_org m \<and> mb_user m' = mb_user m \<and> mb_role m' = RoleOwner \<and> mb_active m'" by blast
    qed (use ok y in \<open>auto simp: orgs_ok_def\<close>)
    with False show ?thesis by simp
  qed
  have tr: "og_slug z \<noteq> [] \<and> trim_space (og_owner z) = og_owner z \<and> owned ?v z" if "z \<in># v_orgs ?v" for z
  proof -
    from that have "\<exists>y \<in># v_orgs v. z = (if og_id y = i then y\<lparr>og_owner := u, og_updated_at := t\<rparr> else y)"
      by (simp add: in_upd_where)
    then obtain y where y: "y \<in># v_orgs v" "z = (if og_id y = i then y\<lparr>og_owner := u, og_updated_at := t\<rparr> else y)" by blast
    with own [OF y(1)] ok x(4) show ?thesis by (auto simp: orgs_ok_def)
  qed
  have mm: "no_colon (mb_org z) \<and> mb_org z \<noteq> [] \<and> mb_user z \<noteq> []" if "z \<in># v_members ?v" for z
    using that ok by (auto simp: in_upd_where orgs_ok_def split: if_splits)
  have "uniq og_id (v_orgs ?v)" "uniq og_slug (v_orgs ?v)" "uniq mb_id (v_members ?v)"
    "uniq (\<lambda>m. (mb_org m, mb_user m)) (v_members ?v)"
    using ok by (auto simp: orgs_ok_def intro!: uniq_upd)
  with tr mm ok show ?thesis unfolding orgs_ok_def by simp
qed

section \<open>Keys\<close>

lemma key_eqs [simp]:
  "org_id_key i = org_id_key j \<longleftrightarrow> i = j" "org_slug_key i = org_slug_key j \<longleftrightarrow> i = j"
  "membership_key o' u \<noteq> org_id_key i" "org_id_key i \<noteq> membership_key o' u"
  "membership_key o' u \<noteq> org_slug_key s" "org_slug_key s \<noteq> membership_key o' u"
  "org_id_key i \<noteq> org_slug_key s" "org_slug_key s \<noteq> org_id_key i"
  by (simp_all add: org_id_key_def org_slug_key_def membership_key_def cache_key_def)

lemma membership_key_eq:
  assumes "no_colon o1" "no_colon o2" "membership_key o1 u1 = membership_key o2 u2"
  shows "o1 = o2 \<and> u1 = u2"
proof -
  have e: "o1 @ CHR '':'' # u1 = o2 @ CHR '':'' # u2" using assms(3) by (simp add: membership_key_def cache_key_def)
  then have "split_on (CHR '':'') (o1 @ CHR '':'' # u1) = split_on (CHR '':'') (o2 @ CHR '':'' # u2)" by simp
  then have "o1 # split_on (CHR '':'') u1 = o2 # split_on (CHR '':'') u2"
    using assms(1,2) by (simp add: split_on_append no_colon_def)
  with e show ?thesis by simp
qed

section \<open>Coherence\<close>

lemma coherent_sub: "coherent rt v c \<Longrightarrow> c' \<subseteq>\<^sub>m c \<Longrightarrow> coherent rt v c'"
  unfolding coherent_def map_le_def by (metis domI)

lemma coherent_set_member:
  assumes "coherent rt v c" "m \<in># v_members v" "no_colon (mb_org m)" "json_member rt j = Inr m"
  shows "coherent rt v (c(membership_key (mb_org m) (mb_user m) \<mapsto> j))"
  using assms membership_key_eq [OF _ assms(3), of _ _ "mb_user m"]
  unfolding coherent_def member_in_def by (auto split: if_splits)

lemma coherent_set_org:
  assumes "coherent rt v c" "x \<in># v_orgs v" "json_org rt j = Inr x"
  shows "coherent rt v (c(org_id_key (og_id x) \<mapsto> j))" "coherent rt v (c(org_slug_key (og_slug x) \<mapsto> j))"
  using assms unfolding coherent_def by (auto split: if_splits)

text \<open>Changes of what is stored, when the cache holds nothing of what is no longer there.\<close>

lemma coherent_change:
  assumes "coherent rt v c"
    and "\<And>o' u m. no_colon o' \<Longrightarrow> c (membership_key o' u) \<noteq> None \<Longrightarrow> member_in v o' u m \<Longrightarrow> member_in v' o' u m"
    and "\<And>x. x \<in># v_orgs v \<Longrightarrow> c (org_id_key (og_id x)) \<noteq> None \<or> c (org_slug_key (og_slug x)) \<noteq> None \<Longrightarrow> x \<in># v_orgs v'"
  shows "coherent rt v' c"
proof -
  have "\<exists>m. json_member rt j = Inr m \<and> member_in v' o' u m" if "no_colon o'" "c (membership_key o' u) = Some j" for o' u j
    using assms(1) assms(2) [OF that(1)] that by (force simp: coherent_def)
  moreover have "\<exists>x \<in># v_orgs v'. json_org rt j = Inr x \<and> og_id x = i" if "c (org_id_key i) = Some j" for i j
    using assms(1,3) that by (force simp: coherent_def)
  moreover have "\<exists>x \<in># v_orgs v'. json_org rt j = Inr x \<and> og_slug x = i" if "c (org_slug_key i) = Some j" for i j
    using assms(1,3) that by (force simp: coherent_def)
  ultimately show ?thesis by (simp add: coherent_def)
qed

text \<open>What is encoded for the cache is decoded as it was.\<close>

lemma json_member_of: "member_json m = Inr j \<Longrightarrow> json_member rt j = Inr m"
  by (auto simp: member_json_def member_encode_def json_member_def members_def member_decode_def no_member_def
      str_into_def time_into_def read_json_time_def split: if_splits)

lemma json_org_of:
  assumes "org_json x = Inr j" "distinct (map fst (og_metadata x))"
  shows "json_org rt j = Inr x"
proof -
  have m: "string_map_into rt [(''metadata'', JObj (map (\<lambda>(k, v). (k, JStr v)) (og_metadata x)))] ''metadata'' [] = Inr (og_metadata x)"
    using collect_json_pairs [of rt "og_metadata x"] update_all_new [OF assms(2), of "[]"] by (simp add: string_map_into_def)
  show ?thesis
    using assms m
    by (auto simp: org_json_def org_encode_def json_org_def members_def org_decode_def no_org_def omit_empty_def
        str_into_def time_into_def read_json_time_def string_map_into_def split: if_splits)
qed

end
