(* ===== verification/Organizations_Correct.thy ===== *)
theory Organizations_Correct
  imports Sdk_Total Organizations_Rows Organizations_Spec
begin

text \<open>
  The service of organizations on an adapter that keeps \<open>model_contract\<close> for its five models and on a
  reliable cache, or none (locale \<open>organizations\<close>): reading, authority, and the parts the operations share.
\<close>

definition org_unique :: "string list list" where "org_unique = [[''id''], [''slug'']]"
definition member_unique :: "string list list" where "member_unique = [[''id''], [''organization_id'', ''user_id'']]"
definition team_unique :: "string list list" where "team_unique = [[''id''], [''organization_id'', ''slug'']]"
definition team_member_unique :: "string list list" where "team_member_unique = [[''id''], [''team_id'', ''user_id'']]"
definition invitation_unique :: "string list list" where "invitation_unique = [[''id''], [''token_hash'']]"

text \<open>Hooks that may refuse but change nothing, hooks that only look.\<close>

definition refusing_chain :: "('s, 'c, 'a) chain \<Rightarrow> bool" where
  "refusing_chain c \<longleftrightarrow> (\<forall>cx v w r w'. run_state (chain_run c cx v) w = (r, w') \<longrightarrow>
     w_db w' = w_db w \<and> w_cache w' = w_cache w \<and> (\<forall>v'. r = Inr v' \<longrightarrow> v' = v))"

definition looking_hooks :: "('s, 'c, 'a) after_hooks \<Rightarrow> bool" where
  "looking_hooks c \<longleftrightarrow> (\<forall>cx v w v' w'. run_state (after_run c cx v) w = (v', w') \<longrightarrow>
     w_db w' = w_db w \<and> w_cache w' = w_cache w)"

definition org_ready :: "('s, 'c) org_service \<Rightarrow> bool" where
  "org_ready sv \<longleftrightarrow> time_text (au_rt (os_auth sv)) \<and> (\<forall>n. json_time_ok (au_now (os_auth sv) n)) \<and>
     refusing_chain (oh_before_create (os_hooks sv)) \<and> refusing_chain (oh_before_member_add (os_hooks sv)) \<and>
     looking_hooks (oh_after_create (os_hooks sv)) \<and> looking_hooks (oh_after_member_add (os_hooks sv))"

lemma only_model_cache: "only_model tbl m w w' \<Longrightarrow> w_cache w' = w_cache w"
  unfolding only_model_def by (metis world.ext_inject world.surjective world.update_convs(1))

lemma map_le_twice:
  assumes "f \<subseteq>\<^sub>m g(a := None)" "h \<subseteq>\<^sub>m f(b := None)"
  shows "h \<subseteq>\<^sub>m g(a := None, b := None)"
  unfolding map_le_def
proof
  fix k assume k: "k \<in> dom h"
  with assms(2) have "h k = (f(b := None)) k" unfolding map_le_def by blast
  with k have h: "k \<noteq> b" "h k = f k" by (cases "k = b"; simp add: dom_def)+
  with k have k': "k \<in> dom f" by (auto simp: dom_def)
  with assms(1) have "f k = (g(a := None)) k" unfolding map_le_def by blast
  with k' have "k \<noteq> a" "f k = g k" by (auto split: if_splits)
  with h show "h k = (g(a := None, b := None)) k" by simp
qed

locale organizations =
  orgs_model: model_contract ad inv tbl sat plain ModelOrganizations org_unique +
  members_model: model_contract ad inv tbl sat plain ModelOrganizationMemberships member_unique +
  teams_model: model_contract ad inv tbl sat plain ModelOrganizationTeams team_unique +
  team_members_model: model_contract ad inv tbl sat plain ModelOrganizationTeamMembers team_member_unique +
  invitations_model: model_contract ad inv tbl sat plain ModelOrganizationInvitations invitation_unique
  for ad :: "'s adapter" and inv tbl sat plain +
  fixes sv :: "('s, 'c) org_service"
    and cview :: "'c \<Rightarrow> string \<rightharpoonup> json"
  assumes adapter: "os_adapter sv = ad"
    and plain: "CHR '':'' \<notin> set x \<Longrightarrow> plain x"
    and total: "run_state (ad_find_one ad m cs) s = (Inl e, s') \<Longrightarrow> e = AdapterNotFound"
      "run_state (ad_find_many ad q) s \<noteq> (Inl e, s')"
      "run_state (ad_update ad m cs u) s \<noteq> (Inl e, s')"
      "run_state (ad_delete ad m cs) s \<noteq> (Inl e, s')"
    and publish_frame: "run_state (events_publish (au_events (os_auth sv)) cx ev) w = (y, w') \<Longrightarrow>
      w_db w' = w_db w \<and> w_cache w' = w_cache w"
    and caching: "au_cache (os_auth sv) = Some ch \<Longrightarrow> reliable_cache ch cview"
    and ready: "org_ready sv"

sublocale organizations \<subseteq> orgs: total_repository ad inv tbl sat plain ModelOrganizations org_unique "orgs_repo sv"
  "org_rep (au_rt (os_auth sv)) plain" "org_okay plain"
proof (unfold_locales, goal_cases)
  case (3 x)
  then show ?case
    using ready to_map_org [of plain x "au_rt (os_auth sv)" "orgs_repo sv"]
      from_map_org [of "au_rt (os_auth sv)" plain x _ x "orgs_repo sv"] by (auto simp: org_ready_def)
next
  case (4 x r)
  then show ?case by (simp add: from_map_org [OF 4])
qed (simp_all add: adapter total)

sublocale organizations \<subseteq> mems: total_repository ad inv tbl sat plain ModelOrganizationMemberships member_unique
  "members_repo sv" "member_rep (au_rt (os_auth sv)) plain" "member_okay plain"
proof (unfold_locales, goal_cases)
  case (3 x)
  then show ?case
    using ready to_map_member [of plain x "au_rt (os_auth sv)" "members_repo sv"]
      from_map_member [of "au_rt (os_auth sv)" plain x _ x "members_repo sv"] by (auto simp: org_ready_def)
next
  case (4 x r)
  then show ?case by (simp add: from_map_member [OF 4])
qed (simp_all add: adapter total)

sublocale organizations \<subseteq> teams: total_repository ad inv tbl sat plain ModelOrganizationTeams team_unique
  "teams_repo sv" "team_rep (au_rt (os_auth sv)) plain" "team_okay plain"
proof (unfold_locales, goal_cases)
  case (3 x)
  then show ?case
    using ready to_map_team [of plain x "au_rt (os_auth sv)" "teams_repo sv"]
      from_map_team [of "au_rt (os_auth sv)" plain x _ x "teams_repo sv"] by (auto simp: org_ready_def)
next
  case (4 x r)
  then show ?case by (simp add: from_map_team [OF 4])
qed (simp_all add: adapter total)

sublocale organizations \<subseteq> tmems: total_repository ad inv tbl sat plain ModelOrganizationTeamMembers
  team_member_unique "team_members_repo sv" "team_member_rep (au_rt (os_auth sv)) plain" "team_member_okay plain"
proof (unfold_locales, goal_cases)
  case (3 x)
  then show ?case
    using ready to_map_team_member [of plain x "au_rt (os_auth sv)" "team_members_repo sv"]
      from_map_team_member [of "au_rt (os_auth sv)" plain x _ x "team_members_repo sv"] by (auto simp: org_ready_def)
next
  case (4 x r)
  then show ?case by (simp add: from_map_team_member [OF 4])
qed (simp_all add: adapter total)

sublocale organizations \<subseteq> invs: total_repository ad inv tbl sat plain ModelOrganizationInvitations
  invitation_unique "invitations_repo sv" "invitation_rep (au_rt (os_auth sv)) plain" "invitation_okay plain"
proof (unfold_locales, goal_cases)
  case (3 x)
  then show ?case
    using ready to_map_invitation [of plain x "au_rt (os_auth sv)" "invitations_repo sv"]
      from_map_invitation [of "au_rt (os_auth sv)" plain x _ x "invitations_repo sv"] by (auto simp: org_ready_def)
next
  case (4 x r)
  then show ?case by (simp add: from_map_invitation [OF 4])
qed (simp_all add: adapter total)

section \<open>States\<close>

context organizations
begin

definition V :: "('s, 'c) world \<Rightarrow> org_view" where
  "V w = \<lparr>v_orgs = orgs.ents (w_db w), v_members = mems.ents (w_db w), v_teams = teams.ents (w_db w),
     v_team_members = tmems.ents (w_db w), v_invitations = invs.ents (w_db w)\<rparr>"

definition rows_ok :: "'s \<Rightarrow> bool" where
  "rows_ok d \<longleftrightarrow> orgs.rinv d \<and> mems.rinv d \<and> teams.rinv d \<and> tmems.rinv d \<and> invs.rinv d"

definition cached :: "('s, 'c) world \<Rightarrow> string \<rightharpoonup> json" where
  "cached w = (if au_cache (os_auth sv) = None then Map.empty else cview (w_cache w))"

definition good :: "('s, 'c) world \<Rightarrow> bool" where
  "good w \<longleftrightarrow> rows_ok (w_db w) \<and> orgs_ok (V w) \<and> coherent (au_rt (os_auth sv)) (V w) (cached w)"

lemma good_rows: "good w \<Longrightarrow> orgs.rinv (w_db w) \<and> mems.rinv (w_db w) \<and> teams.rinv (w_db w) \<and> tmems.rinv (w_db w) \<and> invs.rinv (w_db w)"
  by (simp add: good_def rows_ok_def)

definition idle :: "('s, 'c) world \<Rightarrow> ('s, 'c) world \<Rightarrow> bool" where
  "idle w w' \<longleftrightarrow> w_db w' = w_db w \<and> w_cache w' = w_cache w"

lemma idle_refl [simp]: "idle w w"
  by (simp add: idle_def)

lemma idle_trans: "idle w w' \<Longrightarrow> idle w' w'' \<Longrightarrow> idle w w''"
  by (simp add: idle_def)

lemma idle_keeps: "idle w w' \<Longrightarrow> V w' = V w \<and> good w' = good w \<and> cached w' = cached w"
  by (simp add: idle_def V_def good_def cached_def)

lemma same_db: "w_db w' = w_db w \<Longrightarrow> V w' = V w"
  by (simp add: V_def)

lemma run_now: "run_state (now (os_auth sv)) w = (t, w') \<Longrightarrow> idle w w' \<and> json_time_ok t"
  using ready by (auto simp: now_def idle_def org_ready_def)

lemma run_generate_id: "run_state (org_generate_id (os_auth sv) p) w = (i, w') \<Longrightarrow>
    idle w w' \<and> (\<exists>bs. i = p @ ''_'' @ hex_encode bs)"
  by (auto simp: org_generate_id_def draw_def idle_def)

lemma run_generate_token: "run_state (org_generate_token (os_auth sv)) w = (i, w') \<Longrightarrow> idle w w'"
  by (auto simp: org_generate_token_def draw_def idle_def)

lemma idle_publish: "run_state (org_publish sv cx nm sb pl) w = (y, w') \<Longrightarrow> idle w w'"
  by (auto simp: org_publish_def publish_def now_def idle_def dest: publish_frame split: prod.splits)

lemma announce_idle:
  "run_state (announce_member_added sv cx o' u r) w = (y, w') \<Longrightarrow> idle w w'"
  "run_state (announce_member_updated sv cx o' u m) w = (y, w') \<Longrightarrow> idle w w'"
  "run_state (announce_team_member sv cx nm o' i u) w = (y, w') \<Longrightarrow> idle w w'"
  by (auto simp: announce_member_added_def announce_member_updated_def announce_team_member_def dest: idle_publish)

lemma plain_id: "(\<And>c. c \<in> set p \<Longrightarrow> c \<noteq> CHR '':'') \<Longrightarrow> plain (p @ ''_'' @ hex_encode bs)"
  using hex_encode_colon by (intro plain) auto

lemma plain_token_hash: "plain (org_hash_token rt raw)"
  unfolding org_hash_token_def by (rule plain) (rule hex_encode_colon)

section \<open>Conditions\<close>

lemma means_org: "orgs.means [Eq ''id'' (VStr b)] (\<lambda>x. og_id x = b)" "orgs.means [Eq ''slug'' (VStr b)] (\<lambda>x. og_slug x = b)"
  by (rule orgs.means_eq; simp add: org_rep_def)+

lemma means_member_1:
  "mems.means [Eq ''id'' (VStr b)] (\<lambda>x. mb_id x = b)" "mems.means [Eq ''organization_id'' (VStr b)] (\<lambda>x. mb_org x = b)"
  "mems.means [Eq ''user_id'' (VStr b)] (\<lambda>x. mb_user x = b)"
  by (rule mems.means_eq; simp add: member_rep_def)+

lemma means_member_status: "mems.means [Eq ''status'' (VStr MembershipActive)] mb_active"
  unfolding mb_active_def by (rule mems.means_eq) (simp add: member_rep_def plain org_names)

lemma means_member:
  "mems.means [Eq ''organization_id'' (VStr o'), Eq ''user_id'' (VStr u)] (\<lambda>x. mb_org x = o' \<and> mb_user x = u)"
  "mems.means [Eq ''user_id'' (VStr u), Eq ''status'' (VStr MembershipActive)] (\<lambda>x. mb_user x = u \<and> mb_active x)"
  using means_member_1(2) [of o'] means_member_1(3) [of u] means_member_status
  by (auto simp: mems.means_def sats_def)

lemma means_team_1: "teams.means [Eq ''id'' (VStr b)] (\<lambda>x. te_id x = b)" "teams.means [Eq ''organization_id'' (VStr b)] (\<lambda>x. te_org x = b)"
  by (rule teams.means_eq; simp add: team_rep_def)+

lemma means_team: "teams.means (team_where o' i) (\<lambda>x. te_org x = o' \<and> te_id x = i)"
  using means_team_1(2) [of o'] means_team_1(1) [of i] by (auto simp: teams.means_def sats_def team_where_def)

lemma means_team_member_1:
  "tmems.means [Eq ''team_id'' (VStr b)] (\<lambda>x. tu_team x = b)" "tmems.means [Eq ''user_id'' (VStr b)] (\<lambda>x. tu_user x = b)"
  by (rule tmems.means_eq; simp add: team_member_rep_def)+

lemma means_team_member: "tmems.means [Eq ''team_id'' (VStr i), Eq ''user_id'' (VStr u)] (\<lambda>x. tu_team x = i \<and> tu_user x = u)"
  using means_team_member_1(1) [of i] means_team_member_1(2) [of u] by (auto simp: tmems.means_def sats_def)

lemma means_invitation_1:
  "invs.means [Eq ''id'' (VStr b)] (\<lambda>x. iv_id x = b)" "invs.means [Eq ''organization_id'' (VStr b)] (\<lambda>x. iv_org x = b)"
  "invs.means [Eq ''token_hash'' (VStr b)] (\<lambda>x. iv_token_hash x = b)"
  by (rule invs.means_eq; simp add: invitation_rep_def)+

lemma means_invitation: "invs.means (team_where o' i) (\<lambda>x. iv_org x = o' \<and> iv_id x = i)"
  using means_invitation_1(2) [of o'] means_invitation_1(1) [of i] by (auto simp: invs.means_def sats_def team_where_def)

section \<open>One model changes\<close>

lemma change_orgs:
  assumes "rows_ok (w_db w)" "only_model tbl ModelOrganizations w w'" "orgs.rinv (w_db w')"
  shows "rows_ok (w_db w') \<and> V w' = (V w)\<lparr>v_orgs := orgs.ents (w_db w')\<rparr> \<and> cached w' = cached w"
proof -
  have "inv (w_db w')" using assms(3) by (simp add: orgs.rinv_def)
  with mems.other_model [OF assms(2)] teams.other_model [OF assms(2)] tmems.other_model [OF assms(2)] invs.other_model [OF assms(2)] assms only_model_cache [OF assms(2)]
  show ?thesis by (simp add: rows_ok_def V_def org_models cached_def)
qed

lemma change_members:
  assumes "rows_ok (w_db w)" "only_model tbl ModelOrganizationMemberships w w'" "mems.rinv (w_db w')"
  shows "rows_ok (w_db w') \<and> V w' = (V w)\<lparr>v_members := mems.ents (w_db w')\<rparr> \<and> cached w' = cached w"
proof -
  have "inv (w_db w')" using assms(3) by (simp add: mems.rinv_def)
  with orgs.other_model [OF assms(2)] teams.other_model [OF assms(2)] tmems.other_model [OF assms(2)] invs.other_model [OF assms(2)] assms only_model_cache [OF assms(2)]
  show ?thesis by (simp add: rows_ok_def V_def org_models cached_def)
qed

lemma change_teams:
  assumes "rows_ok (w_db w)" "only_model tbl ModelOrganizationTeams w w'" "teams.rinv (w_db w')"
  shows "rows_ok (w_db w') \<and> V w' = (V w)\<lparr>v_teams := teams.ents (w_db w')\<rparr> \<and> cached w' = cached w"
proof -
  have "inv (w_db w')" using assms(3) by (simp add: teams.rinv_def)
  with orgs.other_model [OF assms(2)] mems.other_model [OF assms(2)] tmems.other_model [OF assms(2)] invs.other_model [OF assms(2)] assms only_model_cache [OF assms(2)]
  show ?thesis by (simp add: rows_ok_def V_def org_models cached_def)
qed

lemma change_team_members:
  assumes "rows_ok (w_db w)" "only_model tbl ModelOrganizationTeamMembers w w'" "tmems.rinv (w_db w')"
  shows "rows_ok (w_db w') \<and> V w' = (V w)\<lparr>v_team_members := tmems.ents (w_db w')\<rparr> \<and> cached w' = cached w"
proof -
  have "inv (w_db w')" using assms(3) by (simp add: tmems.rinv_def)
  with orgs.other_model [OF assms(2)] mems.other_model [OF assms(2)] teams.other_model [OF assms(2)] invs.other_model [OF assms(2)] assms only_model_cache [OF assms(2)]
  show ?thesis by (simp add: rows_ok_def V_def org_models cached_def)
qed

lemma change_invitations:
  assumes "rows_ok (w_db w)" "only_model tbl ModelOrganizationInvitations w w'" "invs.rinv (w_db w')"
  shows "rows_ok (w_db w') \<and> V w' = (V w)\<lparr>v_invitations := invs.ents (w_db w')\<rparr> \<and> cached w' = cached w"
proof -
  have "inv (w_db w')" using assms(3) by (simp add: invs.rinv_def)
  with orgs.other_model [OF assms(2)] mems.other_model [OF assms(2)] teams.other_model [OF assms(2)] tmems.other_model [OF assms(2)] assms only_model_cache [OF assms(2)]
  show ?thesis by (simp add: rows_ok_def V_def org_models cached_def)
qed

section \<open>The cache\<close>

lemma run_on_cache: "run_state (on_cache f) w = (case run_state f (w_cache w) of (r, c) \<Rightarrow> (r, w\<lparr>w_cache := c\<rparr>))"
  by (simp add: on_cache_def)

lemma good_less:
  assumes "good w" "w_db w' = w_db w" "cached w' \<subseteq>\<^sub>m cached w"
  shows "good w' \<and> V w' = V w"
  using assms same_db [OF assms(2)] coherent_sub [OF _ assms(3)] by (auto simp: good_def)

lemma cache_rules:
  assumes "au_cache (os_auth sv) = Some ch"
  shows "run_state (cache_get ch cx k) c = (r, c') \<Longrightarrow> cview c' \<subseteq>\<^sub>m cview c \<and> (\<forall>j. r = Inr j \<longrightarrow> cview c k = Some j)"
    "run_state (cache_set ch cx k e d) c = (ru, c') \<Longrightarrow>
       cview c' \<subseteq>\<^sub>m cview c \<or> (\<exists>j. e = Inr j \<and> cview c' \<subseteq>\<^sub>m (cview c)(k \<mapsto> j))"
    "run_state (cache_delete ch cx k) c = (ru, c') \<Longrightarrow> ctx_err cx = None \<Longrightarrow> cview c' \<subseteq>\<^sub>m (cview c)(k := None)"
proof -
  have ok: "reliable_cache ch cview" by (rule caching [OF assms])
  then have "cache_contract ch cview" by (rule reliable_cache.axioms(1))
  note get = cache_contract.get [OF this] and set = cache_contract.set [OF this] and delete = cache_contract.delete [OF this]
  show "run_state (cache_get ch cx k) c = (r, c') \<Longrightarrow> cview c' \<subseteq>\<^sub>m cview c \<and> (\<forall>j. r = Inr j \<longrightarrow> cview c k = Some j)"
    using get by (cases r) force+
  show "run_state (cache_set ch cx k e d) c = (ru, c') \<Longrightarrow>
       cview c' \<subseteq>\<^sub>m cview c \<or> (\<exists>j. e = Inr j \<and> cview c' \<subseteq>\<^sub>m (cview c)(k \<mapsto> j))"
    using set by (cases ru) force+
  show "run_state (cache_delete ch cx k) c = (ru, c') \<Longrightarrow> ctx_err cx = None \<Longrightarrow> cview c' \<subseteq>\<^sub>m (cview c)(k := None)"
    using delete [of cx k c ru c'] reliable_cache.delete_ok [OF ok, of cx k c] by (cases ru) auto
qed

lemma remember_member_spec:
  assumes g: "good w" and m: "m \<in># v_members (V w)" and run: "run_state (remember_member sv cx m) w = (y, w')"
  shows "good w' \<and> w_db w' = w_db w"
proof (cases "au_cache (os_auth sv) = None \<or> ocf_cache_ttl (os_cfg sv) \<le> 0")
  case True
  with run have "w' = w" by (auto simp: remember_member_def run_on_cache member_cache_set_def split: option.splits)
  with g show ?thesis by simp
next
  case False
  then obtain ch where ch: "au_cache (os_auth sv) = Some ch" by auto
  obtain ru c where c: "run_state (cache_set ch cx (membership_key (mb_org m) (mb_user m)) (member_json m)
      (ocf_cache_ttl (os_cfg sv))) (w_cache w) = (ru, c)" by (rule prod.exhaust)
  with run False ch have w': "w' = w\<lparr>w_cache := c\<rparr>"
    by (simp add: remember_member_def run_on_cache member_cache_set_def)
  have nc: "no_colon (mb_org m)" using g m by (simp add: good_def orgs_ok_def)
  have co: "coherent (au_rt (os_auth sv)) (V w) (cview (w_cache w))" using g ch by (simp add: good_def cached_def)
  have "coherent (au_rt (os_auth sv)) (V w) (cview c)"
    using cache_rules(2) [OF ch c] coherent_sub [OF co] coherent_sub [OF coherent_set_member [OF co m nc]] json_member_of
    by blast
  then show ?thesis using g w' ch by (simp add: good_def V_def cached_def)
qed

lemma metadata_distinct: "rows_ok (w_db w) \<Longrightarrow> x \<in># v_orgs (V w) \<Longrightarrow> distinct (map fst (og_metadata x))"
  using orgs.rinv_rep by (auto simp: V_def rows_ok_def orgs.ents_def org_rep_def string_map_rep_def)

lemma coherent_org_set:
  assumes ch: "au_cache (os_auth sv) = Some ch" and co: "coherent (au_rt (os_auth sv)) v (cview c0)"
    and x: "x \<in># v_orgs v" "distinct (map fst (og_metadata x))" and k: "k = org_id_key (og_id x) \<or> k = org_slug_key (og_slug x)"
    and c: "run_state (cache_set ch cx k (org_json x) d) c0 = (ru, c)"
  shows "coherent (au_rt (os_auth sv)) v (cview c)"
  using cache_rules(2) [OF ch c] k coherent_sub [OF co] coherent_sub [OF coherent_set_org(1) [OF co x(1)]]
    coherent_sub [OF coherent_set_org(2) [OF co x(1)]] json_org_of [OF _ x(2)]
  by blast

lemma remember_org_spec:
  assumes g: "good w" and x: "x \<in># v_orgs (V w)" and run: "run_state (remember_org sv cx x) w = (y, w')"
  shows "good w' \<and> w_db w' = w_db w"
proof (cases "au_cache (os_auth sv) = None \<or> ocf_cache_ttl (os_cfg sv) \<le> 0")
  case True
  with run have "w' = w" by (auto simp: remember_org_def run_on_cache org_cache_set_def split: option.splits)
  with g show ?thesis by simp
next
  case False
  then obtain ch where ch: "au_cache (os_auth sv) = Some ch" by auto
  let ?ttl = "ocf_cache_ttl (os_cfg sv)"
  obtain r1 c1 where c1: "run_state (cache_set ch cx (org_id_key (og_id x)) (org_json x) ?ttl) (w_cache w) = (r1, c1)"
    by (rule prod.exhaust)
  obtain r2 c2 where c2: "run_state (cache_set ch cx (org_slug_key (og_slug x)) (org_json x) ?ttl) c1 = (r2, c2)"
    by (rule prod.exhaust)
  have w': "w' = w\<lparr>w_cache := c1\<rparr> \<or> w' = w\<lparr>w_cache := c2\<rparr>"
    using run False ch c1 c2 by (cases r1) (auto simp: remember_org_def run_on_cache org_cache_set_def)
  have d: "distinct (map fst (og_metadata x))" using g metadata_distinct [OF _ x] by (simp add: good_def)
  have co: "coherent (au_rt (os_auth sv)) (V w) (cview (w_cache w))" using g ch by (simp add: good_def cached_def)
  from coherent_org_set [OF ch co x d disjI1 c1] have co1: "coherent (au_rt (os_auth sv)) (V w) (cview c1)" by simp
  from coherent_org_set [OF ch co1 x d disjI2 c2] have "coherent (au_rt (os_auth sv)) (V w) (cview c2)" by simp
  with co1 show ?thesis using g w' ch by (auto simp: good_def V_def cached_def)
qed

lemma forget_member_spec:
  assumes "ctx_err cx = None" "o' \<noteq> []" "u \<noteq> []" "run_state (forget_member sv cx o' u) w = (y, w')"
  shows "w_db w' = w_db w \<and> cached w' \<subseteq>\<^sub>m (cached w)(membership_key o' u := None)"
proof (cases "au_cache (os_auth sv)")
  case None
  with assms(4) show ?thesis by (simp add: forget_member_def run_on_cache member_cache_delete_def cached_def)
next
  case (Some ch)
  obtain ru c where c: "run_state (cache_delete ch cx (membership_key o' u)) (w_cache w) = (ru, c)" by (rule prod.exhaust)
  with assms Some have "w' = w\<lparr>w_cache := c\<rparr>" by (simp add: forget_member_def run_on_cache member_cache_delete_def)
  with cache_rules(3) [OF Some c assms(1)] Some show ?thesis by (simp add: cached_def)
qed

lemma forget_org_spec:
  assumes "ctx_err cx = None" "i \<noteq> []" "s \<noteq> []" "run_state (forget_org sv cx i s) w = (y, w')"
  shows "w_db w' = w_db w \<and> cached w' \<subseteq>\<^sub>m (cached w)(org_id_key i := None, org_slug_key s := None)"
proof (cases "au_cache (os_auth sv)")
  case None
  with assms(4) show ?thesis by (simp add: forget_org_def run_on_cache org_cache_delete_def cached_def)
next
  case (Some ch)
  obtain r1 c1 where c1: "run_state (cache_delete ch cx (org_id_key i)) (w_cache w) = (r1, c1)" by (rule prod.exhaust)
  obtain r2 c2 where c2: "run_state (cache_delete ch cx (org_slug_key s)) c1 = (r2, c2)" by (rule prod.exhaust)
  have w': "w' = w\<lparr>w_cache := c2\<rparr>" using assms Some c1 c2 by (simp add: forget_org_def run_on_cache org_cache_delete_def)
  have "cview c2 \<subseteq>\<^sub>m (cview (w_cache w))(org_id_key i := None, org_slug_key s := None)"
    by (rule map_le_twice [OF cache_rules(3) [OF Some c1 assms(1)] cache_rules(3) [OF Some c2 assms(1)]])
  with Some w' show ?thesis by (simp add: cached_def)
qed

section \<open>Reading\<close>

lemma members_V: "v_members (V w) = mems.ents (w_db w)" and orgs_V: "v_orgs (V w) = orgs.ents (w_db w)"
  by (simp_all add: V_def)

lemma or_else_run: "run_state (or_else f h) w = (case run_state f w of (Inl e, w') \<Rightarrow> (Inl (h e), w') | (Inr x, w') \<Rightarrow> (Inr x, w'))"
  by (auto simp: or_else_def split: prod.splits sum.splits)

text \<open>Asking the cache: what it answers is stored; its answers leave the state as good as it was.\<close>

lemma ask_member:
  assumes g: "good w" and nc: "no_colon o'"
    and run: "run_state (on_cache (member_cache_get (au_cache (os_auth sv)) (au_rt (os_auth sv)) cx o' u)) w = (r, w')"
  shows "good w' \<and> w_db w' = w_db w \<and> (\<forall>m. r = Inr m \<longrightarrow> member_in (V w) o' u m)"
proof (cases "au_cache (os_auth sv) = None \<or> o' = [] \<or> u = []")
  case True
  with run have "w' = w \<and> r = Inl CacheMiss" by (auto simp: run_on_cache member_cache_get_def split: option.splits)
  with g show ?thesis by simp
next
  case False
  then obtain ch where ch: "au_cache (os_auth sv) = Some ch" by auto
  obtain q c where c: "run_state (cache_get ch cx (membership_key o' u)) (w_cache w) = (q, c)" by (rule prod.exhaust)
  with run False ch have w': "w' = w\<lparr>w_cache := c\<rparr>" and r: "r = (case q of Inl e \<Rightarrow> Inl e | Inr j \<Rightarrow> json_member (au_rt (os_auth sv)) j)"
    by (auto simp: run_on_cache member_cache_get_def split: sum.splits)
  note cr = cache_rules(1) [OF ch c]
  have "cached w' \<subseteq>\<^sub>m cached w" using cr w' ch by (simp add: cached_def)
  with good_less [OF g] w' have g': "good w'" by simp
  have "member_in (V w) o' u m" if m: "r = Inr m" for m
  proof -
    from m r obtain j where j: "q = Inr j" "json_member (au_rt (os_auth sv)) j = Inr m" by (cases q) auto
    with cr ch have "cached w (membership_key o' u) = Some j" by (simp add: cached_def)
    with g nc j(2) show ?thesis unfolding good_def coherent_def by fastforce
  qed
  with g' w' show ?thesis by simp
qed

definition member_answer :: "('s, 'c) world \<Rightarrow> string \<Rightarrow> string \<Rightarrow> err + membership \<Rightarrow> bool" where
  "member_answer w o' u r \<longleftrightarrow> (case r of
     Inr m \<Rightarrow> member_in (V w) (trim_space o') (trim_space u) m
   | Inl e \<Rightarrow> \<forall>m. \<not> member_in (V w) (trim_space o') (trim_space u) m)"

lemma member_named: "good w \<Longrightarrow> member_in (V w) o' u m \<Longrightarrow> o' \<noteq> [] \<and> u \<noteq> [] \<and> no_colon o'"
  by (auto simp: good_def orgs_ok_def member_in_def)

lemma member_unique: "good w \<Longrightarrow> member_in (V w) o' u m \<Longrightarrow> member_in (V w) o' u m' \<Longrightarrow> m' = m"
  unfolding good_def orgs_ok_def member_in_def by (auto dest: uniq_eq [of "\<lambda>m. (mb_org m, mb_user m)"])

lemma get_member_spec:
  assumes g: "good w" and nc: "no_colon (trim_space o')" and run: "run_state (get_member sv cx o' u) w = (r, w')"
  shows "good w' \<and> w_db w' = w_db w \<and> member_answer w o' u r"
proof (cases "trim_space o' = [] \<or> trim_space u = []")
  case True
  with run have "r = Inl OrgInvalidInput" "w' = w" by (auto simp: get_member_def Let_def)
  with g True show ?thesis by (auto simp: member_answer_def dest: member_named)
next
  case False
  let ?o = "trim_space o'" and ?u = "trim_space u"
  obtain q w1 where q: "run_state (on_cache (member_cache_get (au_cache (os_auth sv)) (au_rt (os_auth sv)) cx ?o ?u)) w = (q, w1)"
    by (rule prod.exhaust)
  note a = ask_member [OF g nc q]
  show ?thesis
  proof (cases q)
    case (Inr m)
    with run False q have "r = Inr m" "w' = w1" by (auto simp: get_member_def Let_def)
    with a Inr False show ?thesis by (simp add: member_answer_def)
  next
    case (Inl e)
    obtain f w2 where f: "run_state (on_db (repo_find_one (members_repo sv) [Eq ''organization_id'' (VStr ?o), Eq ''user_id'' (VStr ?u)])) w1 = (f, w2)"
      by (rule prod.exhaust)
    have ri: "mems.rinv (w_db w1)" using a good_rows by blast
    note fs = mems.find_one_db [OF ri means_member(1) f]
    have v: "v_members (V w) = mems.ents (w_db w1)" using a by (simp add: members_V)
    show ?thesis
    proof (cases f)
      case e': (Inl e')
      with run False q Inl f have "r = Inl (org_missing ErrMemberNotFound e')" "w' = w2"
        by (auto simp: get_member_def Let_def or_else_run)
      with a fs e' v show ?thesis by (auto simp: member_answer_def member_in_def)
    next
      case (Inr m)
      obtain y w3 where y: "run_state (remember_member sv cx m) w2 = (y, w3)" by (rule prod.exhaust)
      with run False q Inl f Inr have "r = Inr m" "w' = w3"
        by (auto simp: get_member_def Let_def or_else_run)
      moreover have "m \<in># v_members (V w2)" "good w2" using fs Inr a by (auto simp: members_V)
      note remember_member_spec [OF this(2,1) y]
      ultimately show ?thesis using fs Inr a v False by (auto simp: member_answer_def member_in_def)
    qed
  qed
qed

lemma ask_org:
  assumes g: "good w"
    and run: "run_state (on_cache (org_cache_by_id (au_cache (os_auth sv)) (au_rt (os_auth sv)) cx i)) w = (r, w') \<and>
        k = org_id_key i \<and> sel = og_id \<or>
      run_state (on_cache (org_cache_by_slug (au_cache (os_auth sv)) (au_rt (os_auth sv)) cx i)) w = (r, w') \<and>
        k = org_slug_key i \<and> sel = og_slug"
  shows "good w' \<and> w_db w' = w_db w \<and> (\<forall>x. r = Inr x \<longrightarrow> x \<in># v_orgs (V w) \<and> sel x = i)"
proof (cases "au_cache (os_auth sv) = None \<or> i = []")
  case True
  with run have "w' = w \<and> r = Inl CacheMiss"
    by (auto simp: run_on_cache org_cache_by_id_def org_cache_by_slug_def split: option.splits)
  with g show ?thesis by simp
next
  case False
  then obtain ch where ch: "au_cache (os_auth sv) = Some ch" by auto
  obtain q c where c: "run_state (cache_get ch cx k) (w_cache w) = (q, c)" by (rule prod.exhaust)
  with run False ch have w': "w' = w\<lparr>w_cache := c\<rparr>" and r: "r = (case q of Inl e \<Rightarrow> Inl e | Inr j \<Rightarrow> json_org (au_rt (os_auth sv)) j)"
    by (auto simp: run_on_cache org_cache_by_id_def org_cache_by_slug_def split: sum.splits)
  note cr = cache_rules(1) [OF ch c]
  have "cached w' \<subseteq>\<^sub>m cached w" using cr w' ch by (simp add: cached_def)
  with good_less [OF g] w' have g': "good w'" by simp
  have "x \<in># v_orgs (V w) \<and> sel x = i" if x: "r = Inr x" for x
  proof -
    from x r obtain j where j: "q = Inr j" "json_org (au_rt (os_auth sv)) j = Inr x" by (cases q) auto
    with cr ch have "cached w k = Some j" by (simp add: cached_def)
    with g run j(2) show ?thesis unfolding good_def coherent_def by fastforce
  qed
  with g' w' show ?thesis by simp
qed

lemma get_organization_spec:
  assumes g: "good w" and run: "run_state (get_organization sv cx i) w = (r, w')"
  shows "good w' \<and> w_db w' = w_db w \<and> (\<forall>x. r = Inr x \<longrightarrow> x \<in># v_orgs (V w) \<and> og_id x = trim_space i \<and> trim_space i \<noteq> [])"
proof (cases "trim_space i = []")
  case True
  with run have "r = Inl OrgInvalidInput" "w' = w" by (auto simp: get_organization_def Let_def)
  with g True show ?thesis by simp
next
  case False
  let ?i = "trim_space i"
  obtain q w1 where q: "run_state (on_cache (org_cache_by_id (au_cache (os_auth sv)) (au_rt (os_auth sv)) cx ?i)) w = (q, w1)"
    by (rule prod.exhaust)
  note a = ask_org [OF g disjI1, OF conjI [OF q conjI [OF refl refl]]]
  show ?thesis
  proof (cases q)
    case (Inr x)
    with run False q have "r = Inr x" "w' = w1" by (auto simp: get_organization_def Let_def)
    with a Inr False show ?thesis by simp
  next
    case (Inl e)
    obtain f w2 where f: "run_state (on_db (repo_find_one (orgs_repo sv) [Eq ''id'' (VStr ?i)])) w1 = (f, w2)"
      by (rule prod.exhaust)
    have ri: "orgs.rinv (w_db w1)" using a good_rows by blast
    note fs = orgs.find_one_db [OF ri means_org(1) f]
    show ?thesis
    proof (cases f)
      case e': (Inl e')
      with run False q Inl f have "r = Inl (org_missing ErrOrganizationNotFound e')" "w' = w2"
        by (auto simp: get_organization_def Let_def or_else_run)
      with a fs e' show ?thesis by simp
    next
      case (Inr x)
      obtain y w3 where y: "run_state (remember_org sv cx x) w2 = (y, w3)" by (rule prod.exhaust)
      with run False q Inl f Inr have r: "r = Inr x" "w' = w3"
        by (auto simp: get_organization_def Let_def or_else_run)
      have "x \<in># v_orgs (V w2)" "good w2" using fs Inr a by (auto simp: orgs_V)
      note remember_org_spec [OF this(2,1) y]
      then show ?thesis using r fs Inr a False by (auto simp: orgs_V)
    qed
  qed
qed

lemma get_organization_by_slug_spec:
  assumes g: "good w" and run: "run_state (get_organization_by_slug sv cx i) w = (r, w')"
  shows "good w' \<and> w_db w' = w_db w \<and> (\<forall>x. r = Inr x \<longrightarrow> x \<in># v_orgs (V w) \<and> og_slug x = trim_space (to_lower i))"
proof (cases "trim_space (to_lower i) = []")
  case True
  with run have "r = Inl OrgInvalidInput" "w' = w" by (auto simp: get_organization_by_slug_def Let_def)
  with g True show ?thesis by simp
next
  case False
  let ?i = "trim_space (to_lower i)"
  obtain q w1 where q: "run_state (on_cache (org_cache_by_slug (au_cache (os_auth sv)) (au_rt (os_auth sv)) cx ?i)) w = (q, w1)"
    by (rule prod.exhaust)
  note a = ask_org [OF g disjI2, OF conjI [OF q conjI [OF refl refl]]]
  show ?thesis
  proof (cases q)
    case (Inr x)
    with run False q have "r = Inr x" "w' = w1" by (auto simp: get_organization_by_slug_def Let_def)
    with a Inr False show ?thesis by simp
  next
    case (Inl e)
    obtain f w2 where f: "run_state (on_db (repo_find_one (orgs_repo sv) [Eq ''slug'' (VStr ?i)])) w1 = (f, w2)"
      by (rule prod.exhaust)
    have ri: "orgs.rinv (w_db w1)" using a good_rows by blast
    note fs = orgs.find_one_db [OF ri means_org(2) f]
    show ?thesis
    proof (cases f)
      case e': (Inl e')
      with run False q Inl f have "r = Inl (org_missing ErrOrganizationNotFound e')" "w' = w2"
        by (auto simp: get_organization_by_slug_def Let_def or_else_run)
      with a fs e' show ?thesis by simp
    next
      case (Inr x)
      obtain y w3 where y: "run_state (remember_org sv cx x) w2 = (y, w3)" by (rule prod.exhaust)
      with run False q Inl f Inr have r: "r = Inr x" "w' = w3"
        by (auto simp: get_organization_by_slug_def Let_def or_else_run)
      have "x \<in># v_orgs (V w2)" "good w2" using fs Inr a by (auto simp: orgs_V)
      note remember_org_spec [OF this(2,1) y]
      then show ?thesis using r fs Inr a False by (auto simp: orgs_V)
    qed
  qed
qed

section \<open>Authority\<close>

lemma authorize_spec:
  assumes g: "good w" and nc: "no_colon (trim_space o')" and run: "run_state (org_authorize sv cx o' role) w = (r, w')"
  shows "good w' \<and> w_db w' = w_db w \<and> (case r of Inr m \<Rightarrow> may_act (V w) cx o' role m
    | Inl _ \<Rightarrow> \<forall>m. \<not> may_act (V w) cx o' role m)"
proof (cases "acting cx")
  case None
  with run have "r = Inl ErrUnauthorized" "w' = w"
    by (auto simp: org_authorize_def acting_def split: option.splits if_splits)
  with g None show ?thesis by (simp add: may_act_def)
next
  case (Some p)
  then obtain pr where pr: "principal_from cx = Some pr" "pr_subject pr = p" "p \<noteq> []"
    by (auto simp: acting_def split: option.splits if_splits)
  obtain bound bok where b: "organization_from cx = (bound, bok)" by (rule prod.exhaust)
  show ?thesis
  proof (cases "bok \<and> bound \<noteq> o'")
    case True
    with run pr b have "r = Inl ErrCrossOrganizationAccess" "w' = w" by (auto simp: org_authorize_def)
    with g True b show ?thesis by (simp add: may_act_def)
  next
    case False
    obtain q w1 where q: "run_state (get_member sv cx o' p) w = (q, w1)" by (rule prod.exhaust)
    note m = get_member_spec [OF g nc q]
    have may: "may_act (V w) cx o' role x \<longleftrightarrow> member_in (V w) (trim_space o') (trim_space p) x \<and> mb_active x \<and>
      role_at_least (mb_role x) role" for x
      unfolding may_act_def member_in_def Some b using False by auto
    show ?thesis
    proof (cases q)
      case (Inl e)
      with run pr b False q have "\<exists>e. r = Inl e" "w' = w1" by (auto simp: org_authorize_def or_else_run)
      with m Inl may show ?thesis by (auto simp: member_answer_def)
    next
      case (Inr x)
      with m have x: "member_in (V w) (trim_space o') (trim_space p) x" by (simp add: member_answer_def)
      from run pr b False q Inr have "w' = w1" "r = (if mb_active x \<and> role_at_least (mb_role x) role then Inr x else Inl ErrUnauthorized)"
        by (auto simp: org_authorize_def or_else_run split: if_splits)
      moreover have "y = x" if "may_act (V w) cx o' role y" for y
        by (rule member_unique [OF g x]) (use that may in blast)
      then have "(\<exists>y. may_act (V w) cx o' role y) \<longleftrightarrow> may_act (V w) cx o' role x" by blast
      ultimately show ?thesis using m x may [of x] by (cases "may_act (V w) cx o' role x") auto
    qed
  qed
qed

lemma check_principal_auth_spec:
  assumes g: "good w" and nc: "no_colon (trim_space o')" and run: "run_state (check_principal_auth sv cx o' role) w = (r, w')"
  shows "good w' \<and> w_db w' = w_db w \<and> ((\<exists>u. r = Inr u) \<longleftrightarrow> allowed (V w) cx o' role)"
proof (cases "acting cx")
  case None
  with run g show ?thesis by (simp add: check_principal_auth_def allowed_def)
next
  case (Some p)
  obtain q w1 where q: "run_state (org_authorize sv cx o' role) w = (q, w1)" by (rule prod.exhaust)
  from authorize_spec [OF g nc q] run q Some show ?thesis
    by (cases q) (auto simp: check_principal_auth_def allowed_def)
qed

lemma check_self_or_admin_spec:
  assumes g: "good w" and nc: "no_colon (trim_space o')" and run: "run_state (check_self_or_admin sv cx o' u) w = (r, w')"
  shows "good w' \<and> w_db w' = w_db w \<and> ((\<exists>x. r = Inr x) \<longleftrightarrow> allowed (V w) cx o' (self_or_admin cx u))"
proof (cases "acting cx")
  case None
  with run g show ?thesis by (simp add: check_self_or_admin_def allowed_def)
next
  case (Some p)
  obtain q w1 where q: "run_state (org_authorize sv cx o' (self_or_admin cx u)) w = (q, w1)" by (rule prod.exhaust)
  have eq: "self_or_admin cx u = (if p \<noteq> u then RoleAdmin else RoleMember)" using Some by (simp add: self_or_admin_def)
  from authorize_spec [OF g nc q] run q Some show ?thesis
    by (cases q) (auto simp: check_self_or_admin_def allowed_def eq)
qed

lemma check_role_change_spec:
  assumes g: "good w" and nc: "no_colon (trim_space o')" and run: "run_state (check_role_change sv cx o' u role) w = (r, w')"
  shows "good w' \<and> w_db w' = w_db w \<and> ((\<exists>x. r = Inr x) \<longrightarrow> call_allowed (V w) cx (UpdateMemberRole o' u role))"
proof (cases "acting cx")
  case None
  with run g show ?thesis by (simp add: check_role_change_def)
next
  case (Some p)
  let ?role = "if role = RoleOwner then RoleOwner else RoleAdmin"
  obtain q w1 where q: "run_state (org_authorize sv cx o' ?role) w = (q, w1)" by (rule prod.exhaust)
  note a = authorize_spec [OF g nc q]
  show ?thesis
  proof (cases q)
    case (Inl e)
    with run q Some have "r = Inl e" "w' = w1" by (auto simp: check_role_change_def)
    with a show ?thesis by simp
  next
    case (Inr caller)
    obtain t w2 where t: "run_state (get_member sv cx o' u) w1 = (t, w2)" by (rule prod.exhaust)
    have g1: "good w1" "V w1 = V w" using a same_db [of w1 w] by simp_all
    note m = get_member_spec [OF g1(1) nc t]
    have r: "w' = w2" "r = (case t of Inr x \<Rightarrow> if mb_role x = RoleOwner \<and> mb_role caller \<noteq> RoleOwner then Inl ErrUnauthorized else Inr ()
        | Inl _ \<Rightarrow> Inr ())"
      using run q Some Inr t by (auto simp: check_role_change_def split: sum.splits if_splits)
    have c: "may_act (V w) cx o' ?role caller" using a Inr by simp
    have "call_allowed (V w) cx (UpdateMemberRole o' u role)" if ok: "\<exists>x. r = Inr x"
    proof -
      have "mb_role caller = RoleOwner" if x: "member_in (V w) (trim_space o') (trim_space u) x" "mb_role x = RoleOwner" for x
      proof (cases t)
        case (Inl e)
        with m g1 x(1) show ?thesis by (simp add: member_answer_def)
      next
        case (Inr y)
        with m g1 have "member_in (V w) (trim_space o') (trim_space u) y" by (simp add: member_answer_def)
        from member_unique [OF g this x(1)] ok r Inr x(2) show ?thesis by (auto split: if_splits)
      qed
      then show ?thesis using c unfolding call_allowed.simps member_in_def by blast
    qed
    with r(1) m a show ?thesis by simp
  qed
qed

end

end
