(* ===== verification/Organizations_Changes.thy ===== *)
theory Organizations_Changes
  imports Organizations_Correct
begin

text \<open>
  Every operation of the service of organizations as a change of what is stored (\<open>org_change\<close>), made only
  with authority (\<open>call_allowed\<close>), that keeps the invariant and leaves the cache coherent; an error changes
  nothing.
\<close>

context organizations
begin

definition outcome :: "ctx \<Rightarrow> org_call \<Rightarrow> ('s, 'c) world \<Rightarrow> err + 'x \<Rightarrow> ('s, 'c) world \<Rightarrow> bool" where
  "outcome cx call w r w' \<longleftrightarrow> good w' \<and> (case r of
     Inl _ \<Rightarrow> V w' = V w
   | Inr _ \<Rightarrow> call_allowed (V w) cx call \<and> org_change (au_rt (os_auth sv)) (V w) call (V w'))"

lemma outcome_Inl: "r = Inl e \<Longrightarrow> good w' \<Longrightarrow> V w' = V w \<Longrightarrow> outcome cx call w r w'"
  by (simp add: outcome_def)

lemma outcome_Inr:
  "r = Inr x \<Longrightarrow> good w' \<Longrightarrow> call_allowed (V w) cx call \<Longrightarrow> org_change (au_rt (os_auth sv)) (V w) call (V w') \<Longrightarrow>
   outcome cx call w r w'"
  by (simp add: outcome_def)

lemma outcome_done:
  "\<exists>x. r = Inr x \<Longrightarrow> good w' \<Longrightarrow> call_allowed (V w) cx call \<Longrightarrow> org_change (au_rt (os_auth sv)) (V w) call (V w') \<Longrightarrow>
   outcome cx call w r w'"
  by (auto simp: outcome_def)

lemma goodI: "rows_ok (w_db w) \<Longrightarrow> orgs_ok (V w) \<Longrightarrow> coherent (au_rt (os_auth sv)) (V w) (cached w) \<Longrightarrow> good w"
  by (simp add: good_def)

lemma goodD:
  assumes "good w"
  shows "rows_ok (w_db w)" "orgs_ok (V w)" "coherent (au_rt (os_auth sv)) (V w) (cached w)"
    "orgs.rinv (w_db w)" "mems.rinv (w_db w)" "teams.rinv (w_db w)" "tmems.rinv (w_db w)" "invs.rinv (w_db w)"
  using assms by (simp_all add: good_def rows_ok_def)

lemma V_parts:
  "v_orgs (V w) = orgs.ents (w_db w)" "v_members (V w) = mems.ents (w_db w)" "v_teams (V w) = teams.ents (w_db w)"
  "v_team_members (V w) = tmems.ents (w_db w)" "v_invitations (V w) = invs.ents (w_db w)"
  by (simp_all add: V_def)

lemma guarded:
  assumes "good w" "no_colon (trim_space o')" "run_state (bindE (check_principal_auth sv cx o' role) (\<lambda>_. f)) w = (r, w')"
  obtains e where "r = Inl e" "good w'" "V w' = V w"
    | w1 where "good w1" "V w1 = V w" "allowed (V w) cx o' role" "run_state f w1 = (r, w')" "cached w1 = cached w \<or> acting cx \<noteq> None"
proof -
  obtain q w1 where q: "run_state (check_principal_auth sv cx o' role) w = (q, w1)" by (rule prod.exhaust)
  note c = check_principal_auth_spec [OF assms(1,2) q]
  have same: "cached w1 = cached w \<or> acting cx \<noteq> None"
    using q by (cases "acting cx") (auto simp: check_principal_auth_def)
  from c q assms(3) same that same_db [of w1 w] show thesis by (cases q) auto
qed

lemma self_guarded:
  assumes "good w" "no_colon (trim_space o')" "run_state (bindE (check_self_or_admin sv cx o' u) (\<lambda>_. f)) w = (r, w')"
  obtains e where "r = Inl e" "good w'" "V w' = V w"
    | w1 where "good w1" "V w1 = V w" "allowed (V w) cx o' (self_or_admin cx u)" "run_state f w1 = (r, w')"
proof -
  obtain q w1 where q: "run_state (check_self_or_admin sv cx o' u) w = (q, w1)" by (rule prod.exhaust)
  from check_self_or_admin_spec [OF assms(1,2) q] q assms(3) that same_db [of w1 w] show thesis by (cases q) auto
qed

lemma with_member:
  assumes "good w" "no_colon (trim_space o')" "run_state (bindE (get_member sv cx o' u) f) w = (r, w')"
  obtains e where "r = Inl e" "good w'" "V w' = V w"
    | m w1 where "good w1" "V w1 = V w" "member_in (V w) (trim_space o') (trim_space u) m" "run_state (f m) w1 = (r, w')"
proof -
  obtain q w1 where q: "run_state (get_member sv cx o' u) w = (q, w1)" by (rule prod.exhaust)
  from get_member_spec [OF assms(1,2) q] q assms(3) that same_db [of w1 w] show thesis
    by (cases q) (auto simp: member_answer_def)
qed

lemma with_org:
  assumes "good w" "run_state (bindE (get_organization sv cx i) f) w = (r, w')"
  obtains e where "r = Inl e" "good w'" "V w' = V w"
    | x w1 where "good w1" "V w1 = V w" "x \<in># v_orgs (V w)" "og_id x = trim_space i" "trim_space i \<noteq> []" "run_state (f x) w1 = (r, w')"
proof -
  obtain q w1 where q: "run_state (get_organization sv cx i) w = (q, w1)" by (rule prod.exhaust)
  from get_organization_spec [OF assms(1) q] q assms(2) that same_db [of w1 w] show thesis by (cases q) auto
qed

section \<open>Transactions\<close>

lemma cached_db: "cached (w\<lparr>w_db := d\<rparr>) = cached w"
  by (simp add: cached_def)

lemma rollback_V:
  assumes "rows_ok (w_db w)" "rows_ok (w_db w1)" "cached w1 = cached w"
  shows "rows_ok (ad_rollback ad (w_db w) (w_db w1)) \<and> V (w1\<lparr>w_db := ad_rollback ad (w_db w) (w_db w1)\<rparr>) = V w \<and>
    cached (w1\<lparr>w_db := ad_rollback ad (w_db w) (w_db w1)\<rparr>) = cached w"
  using assms orgs.repo_rollback [of "w_db w" "w_db w1"] mems.repo_rollback [of "w_db w" "w_db w1"]
    teams.repo_rollback [of "w_db w" "w_db w1"] tmems.repo_rollback [of "w_db w" "w_db w1"]
    invs.repo_rollback [of "w_db w" "w_db w1"]
  by (simp add: rows_ok_def V_def cached_db)

lemma in_transaction:
  assumes g: "good w" and cx: "\<not> ctx_in_tx cx" and run: "run_state (org_transaction sv cx f) w = (r, w')"
    and f: "\<And>e w1. run_state (f (with_tx cx)) w = (Inl e, w1) \<Longrightarrow> rows_ok (w_db w1) \<and> cached w1 = cached w"
  obtains e where "r = Inl e" "good w'" "V w' = V w"
    | x where "r = Inr x" "run_state (f (with_tx cx)) w = (Inr x, w')"
proof (rule adapter_transaction_cases [OF run [unfolded org_transaction_def adapter] cx])
  fix e w1 assume e: "run_state (f (with_tx cx)) w = (Inl e, w1)" "r = Inl e"
    and w': "w' = w1\<lparr>w_db := ad_rollback ad (w_db w) (w_db w1)\<rparr>"
  have "rows_ok (w_db w1)" "cached w1 = cached w" using f [OF e(1)] by simp_all
  from rollback_V [OF goodD(1) [OF g] this] w' goodD(2,3) [OF g] have "good w' \<and> V w' = V w" by (simp add: good_def)
  with e that(1) show thesis by simp
qed (use that(2) in blast)

section \<open>Members\<close>

lemma row_upd [simp]: "(r ++ [k \<mapsto> v]) k' = (if k' = k then Some v else r k')"
  "(r ++ [k \<mapsto> v, k2 \<mapsto> v2]) k' = (if k' = k2 then Some v2 else if k' = k then Some v else r k')"
  by (auto simp: map_add_def)

lemma save_member_spec:
  assumes g: "good w" and m: "member_in (V w) o' u m" and cx: "ctx_err cx = None"
    and h: "\<And>y. mb_id (h y) = mb_id y \<and> mb_org (h y) = mb_org y \<and> mb_user (h y) = mb_user y"
    and own: "mb_role m = RoleOwner \<Longrightarrow> mb_active m \<Longrightarrow> mb_role (h m) = RoleOwner \<and> mb_active (h m)"
    and upd: "upd ''id'' = None"
      "\<And>e r. member_rep (au_rt (os_auth sv)) plain e r \<Longrightarrow> member_rep (au_rt (os_auth sv)) plain (h e) (r ++ upd)"
    and run: "run_state (save_member sv cx o' u (h m) upd) w = (r, w')"
  shows "good w' \<and> (\<exists>y. r = Inr y) \<and>
    V w' = (V w)\<lparr>v_members := upd_where (\<lambda>y. mb_id y = mb_id m) h (v_members (V w))\<rparr>"
proof -
  note gd = goodD [OF g]
  obtain q w1 where q: "run_state (on_db (repo_update (members_repo sv) [Eq ''id'' (VStr (mb_id (h m)))] upd)) w = (q, w1)"
    by (rule prod.exhaust)
  have u: "only_model tbl ModelOrganizationMemberships w w1 \<and> mems.rinv (w_db w1) \<and> (\<exists>n. q = Inr n) \<and>
      mems.ents (w_db w1) = upd_where (\<lambda>x. mb_id x = mb_id m) h (mems.ents (w_db w))"
    using mems.update_db [OF gd(5) means_member_1(1) upd(1) _ q, of h] upd(2) h by auto
  then have c: "rows_ok (w_db w1)" "cached w1 = cached w"
    "V w1 = (V w)\<lparr>v_members := upd_where (\<lambda>y. mb_id y = mb_id m) h (v_members (V w))\<rparr>"
    using change_members [OF gd(1)] V_parts by auto
  have mm: "m \<in># v_members (V w)" "mb_org m = o'" "mb_user m = u" using m by (simp_all add: member_in_def)
  have ok1: "orgs_ok (V w1)" unfolding c(3) by (rule ok_updated_member [OF gd(2) mm(1) h own])
  obtain y2 w2 where w2: "run_state (forget_member sv cx o' u) w1 = (y2, w2)" by (rule prod.exhaust)
  obtain y3 w3 where w3: "run_state (remember_member sv cx (h m)) w2 = (y3, w3)" by (rule prod.exhaust)
  obtain y4 w4 where w4: "run_state (announce_member_updated sv cx o' u (h m)) w3 = (y4, w4)" by (rule prod.exhaust)
  have r: "r = Inr (h m)" "w' = w4"
    using run q u w2 w3 w4 by (auto simp: save_member_def)
  note fm = forget_member_spec [OF cx _ _ w2] member_named [OF g m]
  then have f2: "w_db w2 = w_db w1" "cached w2 \<subseteq>\<^sub>m (cached w)(membership_key o' u := None)" using c(2) by auto
  have V2: "V w2 = V w1" using f2(1) by (rule same_db)
  have "coherent (au_rt (os_auth sv)) (V w2) (cached w2)"
  proof (rule coherent_sub [OF coherent_change f2(2)])
    show "coherent (au_rt (os_auth sv)) (V w) ((cached w)(membership_key o' u := None))"
      by (rule coherent_sub [OF gd(3)]) (auto simp: map_le_def)
  next
    fix o1 u1 x assume a: "((cached w)(membership_key o' u := None)) (membership_key o1 u1) \<noteq> None" "member_in (V w) o1 u1 x"
    then have "(o1, u1) \<noteq> (o', u)" by auto
    with a(2) mm have "mb_id x \<noteq> mb_id m" using gd(2) uniq_eq [of mb_id "v_members (V w)" x m]
      by (auto simp: member_in_def orgs_ok_def)
    with a(2) show "member_in (V w2) o1 u1 x" unfolding V2 c(3) by (auto simp: member_in_def in_upd_where)
  next
    fix x assume "x \<in># v_orgs (V w)"
    then show "x \<in># v_orgs (V w2)" by (simp add: V2 c(3))
  qed
  then have g2: "good w2" using c(1) ok1 f2(1) V2 by (intro goodI) simp_all
  have "h m \<in># v_members (V w2)" using mm(1) by (auto simp: V2 c(3) in_upd_where)
  from remember_member_spec [OF g2 this w3] have g3: "good w3" "V w3 = V w2" using same_db [of w3 w2] by auto
  from idle_keeps [OF announce_idle(2) [OF w4]] g3 have "good w4" "V w4 = V w2" by auto
  with r V2 c(3) show ?thesis by simp
qed

lemma update_member_role_spec:
  assumes g: "good w" and cx: "ctx_err cx = None" and ok: "call_ok plain sv c cx (UpdateMemberRole o' u role)"
    and run: "run_state (update_member_role sv cx o' u role) w = (r, w')"
  shows "outcome cx (UpdateMemberRole o' u role) w r w'"
proof -
  have nc: "no_colon (trim_space o')" and t: "trim_space o' = o'" "trim_space u = u" using ok by (simp_all add: clean_def)
  obtain q w1 where q: "run_state (check_role_change sv cx o' u role) w = (q, w1)" by (rule prod.exhaust)
  note a = check_role_change_spec [OF g nc q]
  have g1: "good w1" "V w1 = V w" using a same_db [of w1 w] by auto
  show ?thesis
  proof (cases q)
    case (Inl e)
    with run q have "r = Inl e" "w' = w1" by (auto simp: update_member_role_def)
    with g1 show ?thesis by (simp add: outcome_Inl)
  next
    case (Inr x)
    with a have allow: "call_allowed (V w) cx (UpdateMemberRole o' u role)" by blast
    let ?f = "\<lambda>m. if mb_role m = RoleOwner \<and> role \<noteq> RoleOwner then fail ErrCannotRemoveOwner
       else do { t \<leftarrow> now (os_auth sv);
         save_member sv cx o' u (m\<lparr>mb_role := role, mb_updated_at := t\<rparr>) [''role'' \<mapsto> VStr role, ''updated_at'' \<mapsto> VTime t] }"
    have "run_state (bindE (get_member sv cx o' u) ?f) w1 = (r, w')" using run q Inr by (simp add: update_member_role_def)
    then show ?thesis
    proof (rule with_member [OF g1(1) nc])
      fix e assume "r = Inl e" "good w'" "V w' = V w1"
      then show ?thesis using g1 by (simp add: outcome_Inl)
    next
      fix m w2 assume w2: "good w2" "V w2 = V w1" and m: "member_in (V w1) (trim_space o') (trim_space u) m"
        and r2: "run_state (?f m) w2 = (r, w')"
      show ?thesis
      proof (cases "mb_role m = RoleOwner \<and> role \<noteq> RoleOwner")
        case True
        with r2 w2 g1 show ?thesis by (auto simp: outcome_def)
      next
        case False
        obtain ti w3 where w3: "run_state (now (os_auth sv)) w2 = (ti, w3)" by (rule prod.exhaust)
        note id = run_now [OF w3]
        have g3: "good w3" "V w3 = V w" using idle_keeps [OF conjunct1 [OF id]] w2 g1 by auto
        have m3: "member_in (V w3) o' u m" using m g1 g3 t by simp
        let ?h = "\<lambda>y. y\<lparr>mb_role := role, mb_updated_at := ti\<rparr>"
        have "run_state (save_member sv cx o' u (?h m) [''role'' \<mapsto> VStr role, ''updated_at'' \<mapsto> VTime ti]) w3 = (r, w')"
          using r2 False w3 by (simp del: fun_upd_apply)
        from save_member_spec [where h = ?h and m = m, OF g3(1) m3 cx _ _ _ _ this] False id
        have s: "good w'" "\<exists>y. r = Inr y" "V w' = (V w3)\<lparr>v_members := upd_where (\<lambda>y. mb_id y = mb_id m) ?h (v_members (V w3))\<rparr>"
          by (auto simp: member_rep_def time_rep_def mb_active_def)
        have "org_change (au_rt (os_auth sv)) (V w) (UpdateMemberRole o' u role) (V w')"
          unfolding s(3) g3(2) using m3 False t g3(2) by (intro ch_role) auto
        from outcome_done [OF s(2,1) allow this] show ?thesis .
      qed
    qed
  qed
qed

lemma update_member_status_spec:
  assumes g: "good w" and cx: "ctx_err cx = None" and ok: "call_ok plain sv c cx (UpdateMemberStatus o' u st)"
    and run: "run_state (update_member_status sv cx o' u st) w = (r, w')"
  shows "outcome cx (UpdateMemberStatus o' u st) w r w'"
proof -
  have nc: "no_colon (trim_space o')" and t: "trim_space o' = o'" "trim_space u = u" using ok by (simp_all add: clean_def)
  let ?f = "\<lambda>m. if mb_role m = RoleOwner \<and> st \<noteq> MembershipActive then fail ErrCannotRemoveOwner
     else do { t \<leftarrow> now (os_auth sv);
       save_member sv cx o' u (m\<lparr>mb_status := st, mb_updated_at := t\<rparr>) [''status'' \<mapsto> VStr st, ''updated_at'' \<mapsto> VTime t] }"
  show ?thesis
    using run unfolding update_member_status_def
  proof (rule guarded [OF g nc])
    fix e assume "r = Inl e" "good w'" "V w' = V w"
    then show ?thesis by (rule outcome_Inl)
  next
    fix w1 assume g1: "good w1" "V w1 = V w" and al: "allowed (V w) cx o' RoleAdmin"
      and r1: "run_state (bindE (get_member sv cx o' u) ?f) w1 = (r, w')"
    from r1 show ?thesis
    proof (rule with_member [OF g1(1) nc])
      fix e assume "r = Inl e" "good w'" "V w' = V w1"
      then show ?thesis using g1 by (simp add: outcome_Inl)
    next
      fix m w2 assume w2: "good w2" "V w2 = V w1" and m: "member_in (V w1) (trim_space o') (trim_space u) m"
        and r2: "run_state (?f m) w2 = (r, w')"
      show ?thesis
      proof (cases "mb_role m = RoleOwner \<and> st \<noteq> MembershipActive")
        case True
        with r2 w2 g1 show ?thesis by (auto simp: outcome_def)
      next
        case False
        obtain ti w3 where w3: "run_state (now (os_auth sv)) w2 = (ti, w3)" by (rule prod.exhaust)
        note id = run_now [OF w3]
        have g3: "good w3" "V w3 = V w" using idle_keeps [OF conjunct1 [OF id]] w2 g1 by auto
        have m3: "member_in (V w3) o' u m" using m g1 g3 t by simp
        let ?h = "\<lambda>y. y\<lparr>mb_status := st, mb_updated_at := ti\<rparr>"
        have "run_state (save_member sv cx o' u (?h m) [''status'' \<mapsto> VStr st, ''updated_at'' \<mapsto> VTime ti]) w3 = (r, w')"
          using r2 False w3 by (simp del: fun_upd_apply)
        from save_member_spec [where h = ?h and m = m, OF g3(1) m3 cx _ _ _ _ this] False id
        have s: "good w'" "\<exists>y. r = Inr y" "V w' = (V w3)\<lparr>v_members := upd_where (\<lambda>y. mb_id y = mb_id m) ?h (v_members (V w3))\<rparr>"
          by (auto simp: member_rep_def time_rep_def mb_active_def)
        have "org_change (au_rt (os_auth sv)) (V w) (UpdateMemberStatus o' u st) (V w')"
          unfolding s(3) g3(2) using m3 False t g3(2) by (intro ch_status) auto
        from outcome_done [OF s(2,1) _ this] al show ?thesis by simp
      qed
    qed
  qed
qed

text \<open>Fewer memberships, when none of those that are gone is cached.\<close>

lemma coherent_fewer_members:
  assumes co: "coherent (au_rt (os_auth sv)) v c"
    and gone: "\<And>o' u m. no_colon o' \<Longrightarrow> c (membership_key o' u) \<noteq> None \<Longrightarrow> member_in v o' u m \<Longrightarrow> R m"
    and v': "v_members v' = filter_mset R (v_members v)" "v_orgs v' = v_orgs v"
  shows "coherent (au_rt (os_auth sv)) v' c"
  by (rule coherent_change [OF co]) (use gone v' in \<open>auto simp: member_in_def\<close>)

lemma coherent_more_members:
  assumes "coherent (au_rt (os_auth sv)) v c" "v_members v' = add_mset m (v_members v)" "v_orgs v' = v_orgs v"
  shows "coherent (au_rt (os_auth sv)) v' c"
  by (rule coherent_change [OF assms(1)]) (use assms(2,3) in \<open>auto simp: member_in_def\<close>)

lemma coherent_same_parts:
  "coherent (au_rt (os_auth sv)) v c \<Longrightarrow> v_members v' = v_members v \<Longrightarrow> v_orgs v' = v_orgs v \<Longrightarrow>
   coherent (au_rt (os_auth sv)) v' c"
  by (simp add: coherent_def member_in_def)

lemma remove_member_spec:
  assumes g: "good w" and cx: "ctx_err cx = None" and ok: "call_ok plain sv c cx (RemoveMember o0 u0)"
    and run: "run_state (remove_member sv cx o0 u0) w = (r, w')"
  shows "outcome cx (RemoveMember o0 u0) w r w'"
proof (cases "trim_space o0 = [] \<or> trim_space u0 = []")
  case True
  with run g show ?thesis by (auto simp: remove_member_def Let_def outcome_def)
next
  case ne: False
  let ?o = "trim_space o0" and ?u = "trim_space u0"
  have nc: "no_colon (trim_space ?o)" using ok by simp
  let ?f = "\<lambda>m. if mb_role m = RoleOwner then fail ErrCannotRemoveOwner
    else bindE (on_db (repo_delete (members_repo sv) [Eq ''organization_id'' (VStr ?o), Eq ''user_id'' (VStr ?u)])) (\<lambda>n.
      if n = 0 then fail ErrMemberNotFound
      else do {
        _ \<leftarrow> forget_member sv cx ?o ?u;
        _ \<leftarrow> org_publish sv cx EventMemberRemoved ?o (PFields ''MemberRemovedPayload''
          [(''organization_id'', FStr ?o), (''user_id'', FStr ?u)]);
        ok ()
      })"
  have run': "run_state (bindE (check_self_or_admin sv cx ?o ?u) (\<lambda>_. bindE (get_member sv cx ?o ?u) ?f)) w = (r, w')"
    using run ne by (simp add: remove_member_def Let_def)
  show ?thesis
    using run'
  proof (rule self_guarded [OF g nc])
    fix e assume "r = Inl e" "good w'" "V w' = V w"
    then show ?thesis by (rule outcome_Inl)
  next
    fix w1 assume g1: "good w1" "V w1 = V w" and al: "allowed (V w) cx ?o (self_or_admin cx ?u)"
      and r1: "run_state (bindE (get_member sv cx ?o ?u) ?f) w1 = (r, w')"
    from r1 show ?thesis
    proof (rule with_member [OF g1(1) nc])
      fix e assume "r = Inl e" "good w'" "V w' = V w1"
      then show ?thesis using g1 by (simp add: outcome_Inl)
    next
      fix m w2 assume w2: "good w2" "V w2 = V w1" and m: "member_in (V w1) (trim_space ?o) (trim_space ?u) m"
        and r2: "run_state (?f m) w2 = (r, w')"
      have m2: "member_in (V w2) ?o ?u m" "V w2 = V w" using m w2 g1 by simp_all
      show ?thesis
      proof (cases "mb_role m = RoleOwner")
        case True
        with r2 w2 g1 show ?thesis by (auto simp: outcome_def)
      next
        case False
        note gd = goodD [OF w2(1)]
        obtain q w3 where q: "run_state (on_db (repo_delete (members_repo sv) [Eq ''organization_id'' (VStr ?o), Eq ''user_id'' (VStr ?u)])) w2 = (q, w3)"
          by (rule prod.exhaust)
        let ?P = "\<lambda>x. mb_org x = ?o \<and> mb_user x = ?u"
        note d = mems.delete_db [OF gd(5) means_member(1) q]
        then have c: "rows_ok (w_db w3)" "cached w3 = cached w2"
          "V w3 = (V w2)\<lparr>v_members := filter_mset (\<lambda>x. \<not> ?P x) (v_members (V w2))\<rparr>"
          using change_members [OF gd(1)] V_parts by auto
        have "m \<in># filter_mset ?P (mems.ents (w_db w2))" using m2(1) by (simp add: member_in_def V_parts)
        then have "size (filter_mset ?P (mems.ents (w_db w2))) \<noteq> 0" by (metis size_eq_0_iff_empty empty_iff set_mset_empty)
        with d have n: "q = Inr n \<Longrightarrow> n \<noteq> 0" "\<exists>n. q = Inr n" for n by auto
        obtain y4 w4 where w4: "run_state (forget_member sv cx ?o ?u) w3 = (y4, w4)" by (rule prod.exhaust)
        obtain y5 w5 where w5: "run_state (org_publish sv cx EventMemberRemoved ?o (PFields ''MemberRemovedPayload''
          [(''organization_id'', FStr ?o), (''user_id'', FStr ?u)])) w4 = (y5, w5)" by (rule prod.exhaust)
        have r: "r = Inr ()" "w' = w5" using r2 False q n w4 w5 by auto
        have fm: "w_db w4 = w_db w3" "cached w4 \<subseteq>\<^sub>m (cached w2)(membership_key ?o ?u := None)"
          using forget_member_spec [OF cx _ _ w4] ne c(2) by auto
        have V4: "V w4 = V w3" using fm(1) by (rule same_db)
        have "coherent (au_rt (os_auth sv)) (V w2) ((cached w2)(membership_key ?o ?u := None))"
          by (rule coherent_sub [OF gd(3)]) (auto simp: map_le_def)
        then have "coherent (au_rt (os_auth sv)) (V w4) (cached w4)" unfolding V4
          by (rule coherent_sub [OF coherent_fewer_members fm(2)]) (auto simp: c(3) member_in_def split: if_splits)
        moreover have "orgs_ok (V w4)" unfolding V4
        proof (rule ok_fewer [OF gd(2), where P = "\<lambda>_. True" and ?Q1.0 = "\<lambda>_. True" and ?Q2.0 = "\<lambda>_. True" and R = "\<lambda>x. \<not> ?P x"])
          fix x m' assume "m' \<in># v_members (V w2)" "mb_role m' = RoleOwner"
          with False member_unique [OF w2(1) m2(1), of m'] show "\<not> ?P m'" by (auto simp: member_in_def)
        qed (simp_all add: c(3))
        ultimately have g4: "good w4" using c(1) fm(1) by (intro goodI) simp_all
        from idle_keeps [OF idle_publish [OF w5]] g4 V4 have g5: "good w'" "V w' = V w3" using r by auto
        have "org_change (au_rt (os_auth sv)) (V w) (RemoveMember o0 u0) (V w')"
          unfolding g5 c(3) m2(2) using m2 False by (intro ch_remove) auto
        moreover have "\<exists>x. r = Inr x" using r by simp
        ultimately show ?thesis using outcome_done [of r w' w cx "RemoveMember o0 u0"] g5(1) al by simp
      qed
    qed
  qed
qed

end

end
