(* ===== verification/Organizations_Parts.thy ===== *)
theory Organizations_Parts
  imports Organizations_Changes
begin

text \<open>
  Teams and invitations: each operation as a change of what is stored, with the rules that take an
  operation apart at its checks and reads (\<open>guarded_outcome\<close>, \<open>member_outcome\<close>, \<open>team_outcome\<close>).
\<close>

lemma snd_team_updates: "snd (team_updates inp t x) = snd (team_updates inp t y)"
  by (simp add: team_updates_def split: option.splits)

lemma team_rep_updates:
  "team_rep rt plain e r \<Longrightarrow> json_time_ok t \<Longrightarrow>
   team_rep rt plain (fst (team_updates inp t e)) (r ++ snd (team_updates inp t x))"
  by (auto simp: team_updates_def team_rep_def str_rep_def time_rep_def map_add_def split: option.splits)

context organizations
begin

section \<open>Taking an operation apart\<close>

lemma outcome_cong: "V w1 = V w \<Longrightarrow> outcome cx call w1 r w' \<Longrightarrow> outcome cx call w r w'"
  unfolding outcome_def by (simp split: sum.splits)

lemma guarded_outcome:
  assumes "good w" "no_colon (trim_space o')" "run_state (bindE (check_principal_auth sv cx o' role) (\<lambda>_. f)) w = (r, w')"
    and "\<And>w1. good w1 \<Longrightarrow> V w1 = V w \<Longrightarrow> allowed (V w1) cx o' role \<Longrightarrow> run_state f w1 = (r, w') \<Longrightarrow>
      outcome cx call w1 r w'"
  shows "outcome cx call w r w'"
  using assms(3)
proof (rule guarded [OF assms(1,2)])
  fix w1 assume a: "good w1" "V w1 = V w" "allowed (V w) cx o' role" "run_state f w1 = (r, w')"
  show ?thesis by (rule outcome_cong [OF a(2) assms(4) [OF a(1,2) _ a(4)]]) (simp add: a)
qed (rule outcome_Inl)

lemma self_outcome:
  assumes "good w" "no_colon (trim_space o')" "run_state (bindE (check_self_or_admin sv cx o' u) (\<lambda>_. f)) w = (r, w')"
    and "\<And>w1. good w1 \<Longrightarrow> V w1 = V w \<Longrightarrow> allowed (V w1) cx o' (self_or_admin cx u) \<Longrightarrow> run_state f w1 = (r, w') \<Longrightarrow>
      outcome cx call w1 r w'"
  shows "outcome cx call w r w'"
  using assms(3)
proof (rule self_guarded [OF assms(1,2)])
  fix w1 assume a: "good w1" "V w1 = V w" "allowed (V w) cx o' (self_or_admin cx u)" "run_state f w1 = (r, w')"
  show ?thesis by (rule outcome_cong [OF a(2) assms(4) [OF a(1,2) _ a(4)]]) (simp add: a)
qed (rule outcome_Inl)

lemma member_outcome:
  assumes "good w" "no_colon (trim_space o')" "run_state (bindE (get_member sv cx o' u) f) w = (r, w')"
    and "\<And>m w1. good w1 \<Longrightarrow> V w1 = V w \<Longrightarrow> member_in (V w1) (trim_space o') (trim_space u) m \<Longrightarrow>
      run_state (f m) w1 = (r, w') \<Longrightarrow> outcome cx call w1 r w'"
  shows "outcome cx call w r w'"
  using assms(3)
proof (rule with_member [OF assms(1,2)])
  fix m w1 assume a: "good w1" "V w1 = V w" "member_in (V w) (trim_space o') (trim_space u) m" "run_state (f m) w1 = (r, w')"
  show ?thesis by (rule outcome_cong [OF a(2) assms(4) [OF a(1,2) _ a(4)]]) (simp add: a)
qed (rule outcome_Inl)

lemma get_team_spec:
  assumes "good w" "run_state (get_team sv o' i) w = (r, w')"
  shows "w' = w \<and> (\<forall>x. r = Inr x \<longrightarrow> x \<in># v_teams (V w) \<and> te_org x = o' \<and> te_id x = i)"
proof -
  obtain q w1 where q: "run_state (on_db (repo_find_one (teams_repo sv) (team_where o' i))) w = (q, w1)" by (rule prod.exhaust)
  from teams.find_one_db [OF goodD(6) [OF assms(1)] means_team q] assms(2) q show ?thesis
    by (cases q) (auto simp: get_team_def or_else_run V_parts)
qed

lemma team_outcome:
  assumes "good w" "run_state (bindE (get_team sv o' i) f) w = (r, w')"
    and "\<And>x. x \<in># v_teams (V w) \<Longrightarrow> te_org x = o' \<Longrightarrow> te_id x = i \<Longrightarrow> run_state (f x) w = (r, w') \<Longrightarrow> outcome cx call w r w'"
  shows "outcome cx call w r w'"
proof -
  obtain q w1 where q: "run_state (get_team sv o' i) w = (q, w1)" by (rule prod.exhaust)
  note t = get_team_spec [OF assms(1) q]
  show ?thesis
  proof (cases q)
    case (Inl e)
    with t q assms(1,2) show ?thesis by (auto simp: outcome_def)
  next
    case (Inr x)
    with t q assms(2) have "run_state (f x) w = (r, w')" by simp
    with t Inr assms(3) [of x] show ?thesis by simp
  qed
qed

lemma get_invitation_spec:
  assumes "good w" "run_state (get_invitation sv o' i) w = (r, w')"
  shows "w' = w \<and> (\<forall>x. r = Inr x \<longrightarrow> x \<in># v_invitations (V w) \<and> iv_org x = o' \<and> iv_id x = i)"
proof -
  obtain q w1 where q: "run_state (on_db (repo_find_one (invitations_repo sv) (team_where o' i))) w = (q, w1)" by (rule prod.exhaust)
  from invs.find_one_db [OF goodD(8) [OF assms(1)] means_invitation q] assms(2) q show ?thesis
    by (cases q) (auto simp: get_invitation_def or_else_run V_parts)
qed

text \<open>Changes of teams and invitations keep the invariant when they keep theirs.\<close>

lemma good_parts:
  assumes "good w"
  shows "uniq te_id (v_teams (V w))" "uniq iv_id (v_invitations (V w))" "uniq iv_token_hash (v_invitations (V w))"
    "\<forall>i \<in># v_invitations (V w). no_colon (iv_org i) \<and> iv_org i \<noteq> []"
  using assms by (simp_all add: good_def orgs_ok_def)

lemma parts_good:
  assumes "good w" "rows_ok (w_db w')" "cached w' = cached w" "v_orgs (V w') = v_orgs (V w)" "v_members (V w') = v_members (V w)"
    and "uniq te_id (v_teams (V w'))" "uniq iv_id (v_invitations (V w'))" "uniq iv_token_hash (v_invitations (V w'))"
      "\<forall>i \<in># v_invitations (V w'). no_colon (iv_org i) \<and> iv_org i \<noteq> []"
  shows "good w'"
proof (rule goodI)
  have "owned (V w') x = owned (V w) x" for x by (simp add: owned_def assms)
  with goodD(2) [OF assms(1)] assms show "orgs_ok (V w')" by (simp add: orgs_ok_def)
  show "coherent (au_rt (os_auth sv)) (V w') (cached w')"
    unfolding assms(3) by (rule coherent_same_parts [OF goodD(3) [OF assms(1)]]) (simp_all add: assms)
qed (rule assms)

lemma by_publish: "run_state (org_publish sv cx nm sb pl) w1 = (y, w') \<Longrightarrow> good w1 \<Longrightarrow> V w' = V w1 \<and> good w'"
  using idle_keeps [OF idle_publish] by blast

lemma now_idle:
  assumes "run_state (now (os_auth sv)) w = (t, w')" "good w"
  shows "good w'" "V w' = V w" "cached w' = cached w" "json_time_ok t" "\<exists>n. t = au_now (os_auth sv) n"
  using idle_keeps [OF conjunct1 [OF run_now [OF assms(1)]]] run_now [OF assms(1)] assms by (auto simp: now_def)

section \<open>Rows that come, change and go\<close>

lemma member_created:
  assumes r: "rows_ok (w_db w)" and m: "member_okay plain m" and run: "run_state (on_db (repo_create (members_repo sv) m)) w = (r, w')"
  shows "rows_ok (w_db w') \<and> cached w' = cached w \<and> (case r of Inl _ \<Rightarrow> V w' = V w
    | Inr m' \<Rightarrow> m' = m \<and> V w' = (V w)\<lparr>v_members := add_mset m (v_members (V w))\<rparr> \<and>
        (\<forall>y \<in># v_members (V w). mb_id y \<noteq> mb_id m \<and> (mb_org y \<noteq> mb_org m \<or> mb_user y \<noteq> mb_user m)))"
proof -
  have ri: "mems.rinv (w_db w)" using r by (simp add: rows_ok_def)
  note c = mems.create_db [OF ri m run]
  then have k: "rows_ok (w_db w') \<and> V w' = (V w)\<lparr>v_members := mems.ents (w_db w')\<rparr> \<and> cached w' = cached w"
    using change_members [OF r] by blast
  show ?thesis
  proof (cases r)
    case (Inl e)
    with c k show ?thesis by (simp add: V_def)
  next
    case (Inr m')
    with c obtain d where d: "member_rep (au_rt (os_auth sv)) plain m d"
      "\<forall>fs \<in> set member_unique. \<forall>r' \<in># tbl (w_db w) ModelOrganizationMemberships. \<not> same_strings fs r' d" by auto
    have "mb_id y \<noteq> mb_id m \<and> (mb_org y \<noteq> mb_org m \<or> mb_user y \<noteq> mb_user m)" if "y \<in># mems.ents (w_db w)" for y
      using mems.create_unique [OF ri d, of "''id''" mb_id y] that
        mems.create_unique_pair [OF ri d, of "''organization_id''" "''user_id''" mb_org mb_user y]
      by (simp add: member_unique_def member_rep_def)
    with c k Inr show ?thesis by (simp add: V_parts)
  qed
qed

lemma org_created:
  assumes r: "rows_ok (w_db w)" and x: "org_okay plain x" and run: "run_state (on_db (repo_create (orgs_repo sv) x)) w = (r, w')"
  shows "rows_ok (w_db w') \<and> cached w' = cached w \<and> (case r of Inl _ \<Rightarrow> V w' = V w
    | Inr x' \<Rightarrow> x' = x \<and> V w' = (V w)\<lparr>v_orgs := add_mset x (v_orgs (V w))\<rparr> \<and>
        (\<forall>y \<in># v_orgs (V w). og_id y \<noteq> og_id x \<and> og_slug y \<noteq> og_slug x))"
proof -
  have ri: "orgs.rinv (w_db w)" using r by (simp add: rows_ok_def)
  note c = orgs.create_db [OF ri x run]
  then have k: "rows_ok (w_db w') \<and> V w' = (V w)\<lparr>v_orgs := orgs.ents (w_db w')\<rparr> \<and> cached w' = cached w"
    using change_orgs [OF r] by blast
  show ?thesis
  proof (cases r)
    case (Inl e)
    with c k show ?thesis by (simp add: V_def)
  next
    case (Inr x')
    with c obtain d where d: "org_rep (au_rt (os_auth sv)) plain x d"
      "\<forall>fs \<in> set org_unique. \<forall>r' \<in># tbl (w_db w) ModelOrganizations. \<not> same_strings fs r' d" by auto
    have "og_id y \<noteq> og_id x \<and> og_slug y \<noteq> og_slug x" if "y \<in># orgs.ents (w_db w)" for y
      using orgs.create_unique [OF ri d, of "''id''" og_id y] orgs.create_unique [OF ri d, of "''slug''" og_slug y] that
      by (simp add: org_unique_def org_rep_def)
    with c k Inr show ?thesis by (simp add: V_parts)
  qed
qed

lemma team_created:
  assumes r: "rows_ok (w_db w)" and x: "team_okay plain x" and run: "run_state (on_db (repo_create (teams_repo sv) x)) w = (r, w')"
  shows "rows_ok (w_db w') \<and> cached w' = cached w \<and> (case r of Inl _ \<Rightarrow> V w' = V w
    | Inr x' \<Rightarrow> x' = x \<and> V w' = (V w)\<lparr>v_teams := add_mset x (v_teams (V w))\<rparr> \<and>
        (\<forall>y \<in># v_teams (V w). te_id y \<noteq> te_id x \<and> (te_org y \<noteq> te_org x \<or> te_slug y \<noteq> te_slug x)))"
proof -
  have ri: "teams.rinv (w_db w)" using r by (simp add: rows_ok_def)
  note c = teams.create_db [OF ri x run]
  then have k: "rows_ok (w_db w') \<and> V w' = (V w)\<lparr>v_teams := teams.ents (w_db w')\<rparr> \<and> cached w' = cached w"
    using change_teams [OF r] by blast
  show ?thesis
  proof (cases r)
    case (Inl e)
    with c k show ?thesis by (simp add: V_def)
  next
    case (Inr x')
    with c obtain d where d: "team_rep (au_rt (os_auth sv)) plain x d"
      "\<forall>fs \<in> set team_unique. \<forall>r' \<in># tbl (w_db w) ModelOrganizationTeams. \<not> same_strings fs r' d" by auto
    have "te_id y \<noteq> te_id x \<and> (te_org y \<noteq> te_org x \<or> te_slug y \<noteq> te_slug x)" if "y \<in># teams.ents (w_db w)" for y
      using teams.create_unique [OF ri d, of "''id''" te_id y] that
        teams.create_unique_pair [OF ri d, of "''organization_id''" "''slug''" te_org te_slug y]
      by (simp add: team_unique_def team_rep_def)
    with c k Inr show ?thesis by (simp add: V_parts)
  qed
qed

lemma team_member_created:
  assumes r: "rows_ok (w_db w)" and x: "team_member_okay plain x"
    and run: "run_state (on_db (repo_create (team_members_repo sv) x)) w = (r, w')"
  shows "rows_ok (w_db w') \<and> cached w' = cached w \<and> (case r of Inl _ \<Rightarrow> V w' = V w
    | Inr x' \<Rightarrow> x' = x \<and> V w' = (V w)\<lparr>v_team_members := add_mset x (v_team_members (V w))\<rparr> \<and>
        (\<forall>y \<in># v_team_members (V w). tu_team y \<noteq> tu_team x \<or> tu_user y \<noteq> tu_user x))"
proof -
  have ri: "tmems.rinv (w_db w)" using r by (simp add: rows_ok_def)
  note c = tmems.create_db [OF ri x run]
  then have k: "rows_ok (w_db w') \<and> V w' = (V w)\<lparr>v_team_members := tmems.ents (w_db w')\<rparr> \<and> cached w' = cached w"
    using change_team_members [OF r] by blast
  show ?thesis
  proof (cases r)
    case (Inl e)
    with c k show ?thesis by (simp add: V_def)
  next
    case (Inr x')
    with c obtain d where d: "team_member_rep (au_rt (os_auth sv)) plain x d"
      "\<forall>fs \<in> set team_member_unique. \<forall>r' \<in># tbl (w_db w) ModelOrganizationTeamMembers. \<not> same_strings fs r' d" by auto
    have "tu_team y \<noteq> tu_team x \<or> tu_user y \<noteq> tu_user x" if "y \<in># tmems.ents (w_db w)" for y
      using that tmems.create_unique_pair [OF ri d, of "''team_id''" "''user_id''" tu_team tu_user y]
      by (simp add: team_member_unique_def team_member_rep_def)
    with c k Inr show ?thesis by (simp add: V_parts)
  qed
qed

lemma invitation_created:
  assumes r: "rows_ok (w_db w)" and x: "invitation_okay plain x"
    and run: "run_state (on_db (repo_create (invitations_repo sv) x)) w = (r, w')"
  shows "rows_ok (w_db w') \<and> cached w' = cached w \<and> (case r of Inl _ \<Rightarrow> V w' = V w
    | Inr x' \<Rightarrow> x' = x \<and> V w' = (V w)\<lparr>v_invitations := add_mset x (v_invitations (V w))\<rparr> \<and>
        (\<forall>y \<in># v_invitations (V w). iv_id y \<noteq> iv_id x \<and> iv_token_hash y \<noteq> iv_token_hash x))"
proof -
  have ri: "invs.rinv (w_db w)" using r by (simp add: rows_ok_def)
  note c = invs.create_db [OF ri x run]
  then have k: "rows_ok (w_db w') \<and> V w' = (V w)\<lparr>v_invitations := invs.ents (w_db w')\<rparr> \<and> cached w' = cached w"
    using change_invitations [OF r] by blast
  show ?thesis
  proof (cases r)
    case (Inl e)
    with c k show ?thesis by (simp add: V_def)
  next
    case (Inr x')
    with c obtain d where d: "invitation_rep (au_rt (os_auth sv)) plain x d"
      "\<forall>fs \<in> set invitation_unique. \<forall>r' \<in># tbl (w_db w) ModelOrganizationInvitations. \<not> same_strings fs r' d" by auto
    have "iv_id y \<noteq> iv_id x \<and> iv_token_hash y \<noteq> iv_token_hash x" if "y \<in># invs.ents (w_db w)" for y
      using invs.create_unique [OF ri d, of "''id''" iv_id y] invs.create_unique [OF ri d, of "''token_hash''" iv_token_hash y] that
      by (simp add: invitation_unique_def invitation_rep_def)
    with c k Inr show ?thesis by (simp add: V_parts)
  qed
qed

lemma org_deleted:
  "rows_ok (w_db w) \<Longrightarrow> orgs.means cs P \<Longrightarrow> run_state (on_db (repo_delete (orgs_repo sv) cs)) w = (y, w') \<Longrightarrow>
   rows_ok (w_db w') \<and> cached w' = cached w \<and> y = Inr (int (size (filter_mset P (v_orgs (V w))))) \<and>
   V w' = (V w)\<lparr>v_orgs := filter_mset (\<lambda>x. \<not> P x) (v_orgs (V w))\<rparr>"
  using orgs.delete_db [of w cs P y w'] change_orgs [of w w'] by (auto simp: V_parts rows_ok_def)

lemma member_deleted:
  "rows_ok (w_db w) \<Longrightarrow> mems.means cs P \<Longrightarrow> run_state (on_db (repo_delete (members_repo sv) cs)) w = (y, w') \<Longrightarrow>
   rows_ok (w_db w') \<and> cached w' = cached w \<and> y = Inr (int (size (filter_mset P (v_members (V w))))) \<and>
   V w' = (V w)\<lparr>v_members := filter_mset (\<lambda>x. \<not> P x) (v_members (V w))\<rparr>"
  using mems.delete_db [of w cs P y w'] change_members [of w w'] by (auto simp: V_parts rows_ok_def)

lemma team_deleted:
  "rows_ok (w_db w) \<Longrightarrow> teams.means cs P \<Longrightarrow> run_state (on_db (repo_delete (teams_repo sv) cs)) w = (y, w') \<Longrightarrow>
   rows_ok (w_db w') \<and> cached w' = cached w \<and> y = Inr (int (size (filter_mset P (v_teams (V w))))) \<and>
   V w' = (V w)\<lparr>v_teams := filter_mset (\<lambda>x. \<not> P x) (v_teams (V w))\<rparr>"
  using teams.delete_db [of w cs P y w'] change_teams [of w w'] by (auto simp: V_parts rows_ok_def)

lemma team_member_deleted:
  "rows_ok (w_db w) \<Longrightarrow> tmems.means cs P \<Longrightarrow> run_state (on_db (repo_delete (team_members_repo sv) cs)) w = (y, w') \<Longrightarrow>
   rows_ok (w_db w') \<and> cached w' = cached w \<and> y = Inr (int (size (filter_mset P (v_team_members (V w))))) \<and>
   V w' = (V w)\<lparr>v_team_members := filter_mset (\<lambda>x. \<not> P x) (v_team_members (V w))\<rparr>"
  using tmems.delete_db [of w cs P y w'] change_team_members [of w w'] by (auto simp: V_parts rows_ok_def)

lemma invitation_deleted:
  "rows_ok (w_db w) \<Longrightarrow> invs.means cs P \<Longrightarrow> run_state (on_db (repo_delete (invitations_repo sv) cs)) w = (y, w') \<Longrightarrow>
   rows_ok (w_db w') \<and> cached w' = cached w \<and> y = Inr (int (size (filter_mset P (v_invitations (V w))))) \<and>
   V w' = (V w)\<lparr>v_invitations := filter_mset (\<lambda>x. \<not> P x) (v_invitations (V w))\<rparr>"
  using invs.delete_db [of w cs P y w'] change_invitations [of w w'] by (auto simp: V_parts rows_ok_def)

lemma none_filtered: "size (filter_mset P M) = 0 \<Longrightarrow> filter_mset (\<lambda>x. \<not> P x) M = M"
  by (metis add_0 multiset_partition size_eq_0_iff_empty)

section \<open>Teams\<close>

lemma create_team_spec:
  assumes g: "good w" and ok: "call_ok plain sv c cx (CreateTeam inp)" and run: "run_state (create_team sv cx inp) w = (r, w')"
  shows "outcome cx (CreateTeam inp) w r w'"
proof -
  let ?o = "trim_space (ct_org inp)" and ?n = "trim_space (ct_name inp)" and ?s = "trim_space (to_lower (ct_slug inp))"
  have nc: "no_colon ?o" using ok by simp
  let ?f = "do {
          t \<leftarrow> now (os_auth sv);
          i \<leftarrow> org_generate_id (os_auth sv) ''team'';
          bindE (or_else (on_db (repo_create (teams_repo sv)
            \<lparr>te_id = i, te_org = ?o, te_name = ?n, te_slug = ?s, te_description = ct_description inp,
             te_created_at = t, te_updated_at = t\<rparr>)) (org_taken ErrTeamAlreadyExists)) (\<lambda>x. do {
            _ \<leftarrow> org_publish sv cx EventTeamCreated ?o (PFields ''TeamCreatedPayload''
              [(''organization_id'', FStr ?o), (''team_id'', FStr (te_id x)), (''slug'', FStr (te_slug x))]);
            ok x
          })
        }"
  show ?thesis
  proof (cases "(?o = [] \<or> ?n = []) \<or> validate_slug ?s \<noteq> Inr ()")
    case True
    then have "\<exists>e. r = Inl e \<and> w' = w" using run by (cases "validate_slug ?s") (auto simp: create_team_def Let_def split: if_splits)
    with g show ?thesis by (auto simp: outcome_def)
  next
    case False
    then have run': "run_state (bindE (check_principal_auth sv cx ?o RoleAdmin) (\<lambda>_. ?f)) w = (r, w')"
      using run by (simp add: create_team_def Let_def check_def)
    show ?thesis
    proof (rule guarded_outcome [OF g _ run'])
      show "no_colon (trim_space ?o)" using nc by simp
    next
      fix w1 assume g1: "good w1" and al: "allowed (V w1) cx ?o RoleAdmin" and r1: "run_state ?f w1 = (r, w')"
      obtain t w2 where t: "run_state (now (os_auth sv)) w1 = (t, w2)" by (rule prod.exhaust)
      obtain i w3 where i: "run_state (org_generate_id (os_auth sv) ''team'') w2 = (i, w3)" by (rule prod.exhaust)
      note n2 = now_idle [OF t g1]
      note i3 = run_generate_id [OF i]
      have g3: "good w3" "V w3 = V w1" "cached w3 = cached w1" using idle_keeps [OF conjunct1 [OF i3]] n2 by auto
      let ?x = "\<lparr>te_id = i, te_org = ?o, te_name = ?n, te_slug = ?s, te_description = ct_description inp,
             te_created_at = t, te_updated_at = t\<rparr>"
      have okx: "team_okay plain ?x"
        using i3 n2(4) plain_id [of "''team''"] nc plain by (auto simp: team_okay_def no_colon_def)
      obtain q w4 where q: "run_state (on_db (repo_create (teams_repo sv) ?x)) w3 = (q, w4)" by (rule prod.exhaust)
      note c = team_created [OF goodD(1) [OF g3(1)] okx q]
      show "outcome cx (CreateTeam inp) w1 r w'"
      proof (cases q)
        case (Inl e)
        with r1 t i q have "r = Inl (org_taken ErrTeamAlreadyExists e)" "w' = w4" by (auto simp: or_else_run)
        moreover have "good w4" using c Inl good_parts [OF g3(1)] by (intro parts_good [OF g3(1)]) auto
        ultimately show ?thesis using c Inl g3 by (simp add: outcome_def)
      next
        case (Inr x)
        with c have x: "x = ?x" by simp
        obtain y w5 where y: "run_state (org_publish sv cx EventTeamCreated ?o (PFields ''TeamCreatedPayload''
              [(''organization_id'', FStr ?o), (''team_id'', FStr (te_id x)), (''slug'', FStr (te_slug x))])) w4 = (y, w5)"
          by (rule prod.exhaust)
        have r: "r = Inr x" "w' = w5" using r1 t i q Inr y by (auto simp: or_else_run)
        have c4: "V w4 = (V w1)\<lparr>v_teams := add_mset ?x (v_teams (V w1))\<rparr>"
          "\<forall>y \<in># v_teams (V w1). te_id y \<noteq> te_id ?x \<and> (te_org y \<noteq> te_org ?x \<or> te_slug y \<noteq> te_slug ?x)"
          using c Inr g3 by simp_all
        have "good w4" using c c4 Inr good_parts [OF g3(1)] g3 by (intro parts_good [OF g3(1)]) (auto intro!: uniq_add)
        from by_publish [OF y this] have g5: "good w'" "V w' = V w4" using r by auto
        have "org_change (au_rt (os_auth sv)) (V w1) (CreateTeam inp) (V w')"
          unfolding g5 c4(1) by (rule ch_create_team) (use c4(2) in simp_all)
        with r g5 al show ?thesis by (simp add: outcome_def)
      qed
    qed
  qed
qed

lemma update_team_spec:
  assumes g: "good w" and ok: "call_ok plain sv c cx (UpdateTeam o' i inp)" and run: "run_state (update_team sv cx o' i inp) w = (r, w')"
  shows "outcome cx (UpdateTeam o' i inp) w r w'"
proof (rule guarded_outcome [OF g _ run [unfolded update_team_def]], goal_cases)
  case 1 show ?case using ok by simp
next
  case (2 w1)
  note g1 = 2(1) and al = 2(3)
  show ?case
  proof (rule team_outcome [OF 2(1,4)], goal_cases)
    case (1 x)
    note x = 1(1-3)
    show ?case
    proof (cases "map_option trim_space (ut_name inp) = Some []")
      case True
      with 1(4) g1 show ?thesis by (auto simp: outcome_def)
    next
      case False
      obtain t w2 where t: "run_state (now (os_auth sv)) w1 = (t, w2)" by (rule prod.exhaust)
      note n2 = now_idle [OF t g1]
      let ?u = "snd (team_updates inp t x)"
      obtain q w3 where q: "run_state (on_db (repo_update (teams_repo sv) (team_where o' i) ?u)) w2 = (q, w3)" by (rule prod.exhaust)
      note gd = goodD [OF n2(1)]
      have id: "?u ''id'' = None" by (simp add: team_updates_def split: option.splits)
      have e: "teams.ents (w_db w2) = v_teams (V w1)" using V_parts(3) [of w2] n2(2) by simp
      note u = teams.update_db [where g = "\<lambda>y. fst (team_updates inp t y)", OF gd(6) means_team id team_rep_updates [OF _ n2(4)] q]
      then have c: "rows_ok (w_db w3)" "cached w3 = cached w2" "\<exists>n. q = Inr n"
        "V w3 = (V w1)\<lparr>v_teams := upd_where (\<lambda>y. te_org y = o' \<and> te_id y = i) (\<lambda>y. fst (team_updates inp t y)) (v_teams (V w1))\<rparr>"
        using change_teams [OF gd(1)] n2(2) e by auto
      have g3: "good w3" using c good_parts [OF g1] n2 by (intro parts_good [OF n2(1)]) (auto intro!: uniq_upd)
      obtain y w4 where y: "run_state (org_publish sv cx EventTeamUpdated o' (PFields ''TeamUpdatedPayload''
             [(''organization_id'', FStr o'), (''team_id'', FStr i)])) w3 = (y, w4)" by (rule prod.exhaust)
      have r: "\<exists>x. r = Inr x" "w' = w4" using 1(4) False t q c(3) y by (auto simp: Let_def split: prod.splits if_splits)
      from by_publish [OF y g3] r have g4: "good w'" "V w' = V w3" by auto
      have "org_change (au_rt (os_auth sv)) (V w1) (UpdateTeam o' i inp) (V w')"
        unfolding g4 c(4) by (rule ch_update_team [OF x])
      with r(1) g4 al show ?thesis by (auto simp: outcome_def)
    qed
  qed
qed

lemma run_dropped: "run_state (dropped m) w = ((), snd (run_state m w))"
  by (simp add: dropped_def skip_def split: prod.splits)

lemma delete_team_tx_spec:
  assumes r: "rows_ok (w_db w)" and run: "run_state (delete_team_tx sv o' i cx) w = (r, w')"
  shows "rows_ok (w_db w') \<and> cached w' = cached w \<and> ((\<exists>y. r = Inr y) \<longrightarrow> V w' = (V w)
    \<lparr>v_teams := filter_mset (\<lambda>y. \<not> (te_org y = o' \<and> te_id y = i)) (v_teams (V w)),
     v_team_members := filter_mset (\<lambda>y. tu_team y \<noteq> i) (v_team_members (V w))\<rparr>)"
proof -
  obtain q1 w1 where q1: "run_state (on_db (repo_delete (team_members_repo sv) [Eq ''team_id'' (VStr i)])) w = (q1, w1)" by (rule prod.exhaust)
  note c1 = team_member_deleted [OF r means_team_member_1(1) q1]
  obtain q2 w2 where q2: "run_state (on_db (repo_delete (teams_repo sv) (team_where o' i))) w1 = (q2, w2)" by (rule prod.exhaust)
  have "rows_ok (w_db w1)" using c1 by blast
  note c2 = team_deleted [OF this means_team q2]
  have "w' = w2" using run q1 q2 c2 by (auto simp: delete_team_tx_def run_dropped split: if_splits)
  with c1 c2 show ?thesis by simp
qed

lemma delete_team_spec:
  assumes g: "good w" and cx: "\<not> ctx_in_tx cx" and ok: "call_ok plain sv c cx (DeleteTeam o' i)"
    and run: "run_state (delete_team sv cx o' i) w = (r, w')"
  shows "outcome cx (DeleteTeam o' i) w r w'"
proof (rule guarded_outcome [OF g _ run [unfolded delete_team_def]], goal_cases)
  case 1 show ?case using ok by simp
next
  case (2 w1)
  note g1 = 2(1) and al = 2(3)
  show ?case
  proof (rule team_outcome [OF 2(1,4)], goal_cases)
    case (1 x)
    note x = 1(1-3)
    obtain q w2 where q: "run_state (org_transaction sv cx (delete_team_tx sv o' i)) w1 = (q, w2)" by (rule prod.exhaust)
    show ?case
    proof (rule in_transaction [OF g1 cx q])
      show "rows_ok (w_db v) \<and> cached v = cached w1" if "run_state (delete_team_tx sv o' i (with_tx cx)) w1 = (Inl e, v)" for e v
        using delete_team_tx_spec [OF goodD(1) [OF g1] that] by blast
    next
      fix e assume "q = Inl e" "good w2" "V w2 = V w1"
      with 1(4) q show ?thesis by (auto simp: outcome_def)
    next
      fix u assume u: "q = Inr u" "run_state (delete_team_tx sv o' i (with_tx cx)) w1 = (Inr u, w2)"
      note d = delete_team_tx_spec [OF goodD(1) [OF g1] u(2)]
      then have V2: "V w2 = (V w1)\<lparr>v_teams := filter_mset (\<lambda>y. \<not> (te_org y = o' \<and> te_id y = i)) (v_teams (V w1)),
        v_team_members := filter_mset (\<lambda>y. tu_team y \<noteq> i) (v_team_members (V w1))\<rparr>" by simp
      have g2: "good w2" using d V2 good_parts [OF g1] by (intro parts_good [OF g1]) (auto intro!: uniq_filter)
      obtain y w3 where y: "run_state (org_publish sv cx EventTeamDeleted o' (PFields ''TeamDeletedPayload''
         [(''organization_id'', FStr o'), (''team_id'', FStr i)])) w2 = (y, w3)" by (rule prod.exhaust)
      have r: "r = Inr ()" "w' = w3" using 1(4) q u(1) y by auto
      from by_publish [OF y g2] r have g3: "good w'" "V w' = V w2" by auto
      have "org_change (au_rt (os_auth sv)) (V w1) (DeleteTeam o' i) (V w')"
        unfolding g3 V2 by (rule ch_delete_team [OF x])
      with r(1) g3 al show ?thesis by (simp add: outcome_def)
    qed
  qed
qed

lemma add_team_member_spec:
  assumes g: "good w" and ok: "call_ok plain sv c cx (AddTeamMember o' i u)" and run: "run_state (add_team_member sv cx o' i u) w = (r, w')"
  shows "outcome cx (AddTeamMember o' i u) w r w'"
proof (rule guarded_outcome [OF g _ run [unfolded add_team_member_def]], goal_cases)
  case 1 show ?case using ok by simp
next
  case (2 w1)
  note g1 = 2(1) and al = 2(3)
  show ?case
  proof (rule team_outcome [OF 2(1,4)], goal_cases)
    case (1 x)
    note x = 1(1-3)
    show ?case
    proof (rule member_outcome [OF g1 _ 1(4)], goal_cases)
      case 1 show ?case using ok by simp
    next
      case (2 m w2)
      note g2 = 2(1) and V2 = 2(2) and m = 2(3)
      show ?case
      proof (cases "mb_active m")
        case False
        with 2(4) g2 show ?thesis by (auto simp: outcome_def)
      next
        case True
        obtain t w3 where t: "run_state (now (os_auth sv)) w2 = (t, w3)" by (rule prod.exhaust)
        note n3 = now_idle [OF t g2]
        let ?y = "\<lparr>tu_id = i @ '':'' @ u, tu_team = i, tu_user = u, tu_created_at = t\<rparr>"
        have "plain i" using teams.rinv_rep [OF goodD(6) [OF g1]] x by (auto simp: V_parts teams.ents_def team_rep_def)
        with ok n3(4) have oky: "team_member_okay plain ?y" by (simp add: team_member_okay_def)
        obtain q w4 where q: "run_state (on_db (repo_create (team_members_repo sv) ?y)) w3 = (q, w4)" by (rule prod.exhaust)
        note c = team_member_created [OF goodD(1) [OF n3(1)] oky q]
        have g4: "good w4" using c good_parts [OF n3(1)] by (cases q) (auto intro!: parts_good [OF n3(1)])
        show ?thesis
        proof (cases q)
          case (Inl e)
          with 2(4) True t q have "r = Inl (org_taken ErrTeamMemberAlreadyExists e)" "w' = w4" by (auto simp: or_else_run)
          then show ?thesis using c Inl g4 n3 by (simp add: outcome_def)
        next
          case (Inr y)
          obtain z w5 where z: "run_state (announce_team_member sv cx EventTeamMemberAdded o' i u) w4 = (z, w5)" by (rule prod.exhaust)
          have r: "r = Inr ()" "w' = w5" using 2(4) True t q Inr z by (auto simp: or_else_run)
          have g5: "good w'" "V w' = V w4" using idle_keeps [OF announce_idle(3) [OF z]] g4 r by auto
          have c4: "V w4 = (V w2)\<lparr>v_team_members := add_mset ?y (v_team_members (V w2))\<rparr>"
            "\<forall>y \<in># v_team_members (V w2). tu_team y \<noteq> i \<or> tu_user y \<noteq> u" using c Inr n3 by simp_all
          have "org_change (au_rt (os_auth sv)) (V w2) (AddTeamMember o' i u) (V w')"
            unfolding g5 c4(1) using x V2 m True c4(2) by (intro ch_add_team_member) simp_all
          with r g5 al V2 show ?thesis by (simp add: outcome_def)
        qed
      qed
    qed
  qed
qed

lemma remove_team_member_spec:
  assumes g: "good w" and ok: "call_ok plain sv c cx (RemoveTeamMember o' i u)"
    and run: "run_state (remove_team_member sv cx o' i u) w = (r, w')"
  shows "outcome cx (RemoveTeamMember o' i u) w r w'"
proof (rule self_outcome [OF g _ run [unfolded remove_team_member_def]], goal_cases)
  case 1 show ?case using ok by simp
next
  case (2 w1)
  note g1 = 2(1) and al = 2(3)
  show ?case
  proof (rule team_outcome [OF 2(1,4)], goal_cases)
    case (1 x)
    note x = 1(1-3)
    obtain q w2 where q: "run_state (on_db (repo_delete (team_members_repo sv) [Eq ''team_id'' (VStr i), Eq ''user_id'' (VStr u)])) w1 = (q, w2)"
      by (rule prod.exhaust)
    note d = team_member_deleted [OF goodD(1) [OF g1] means_team_member q]
    let ?n = "size {#x \<in># v_team_members (V w1). tu_team x = i \<and> tu_user x = u#}"
    have g2: "good w2" using d good_parts [OF g1] by (intro parts_good [OF g1]) auto
    show ?case
    proof (cases "?n = 0")
      case True
      then have "V w2 = V w1" using d none_filtered [OF True] by simp
      with 1(4) q d True g2 show ?thesis by (auto simp: outcome_def)
    next
      case False
      then obtain y0 where "y0 \<in># {#x \<in># v_team_members (V w1). tu_team x = i \<and> tu_user x = u#}"
        by (metis multiset_nonemptyE size_eq_0_iff_empty)
      then have ex: "\<exists>y \<in># v_team_members (V w1). tu_team y = i \<and> tu_user y = u" by auto
      obtain z w3 where z: "run_state (announce_team_member sv cx EventTeamMemberRemoved o' i u) w2 = (z, w3)" by (rule prod.exhaust)
      have r: "r = Inr ()" "w' = w3" using 1(4) q d False z by (auto split: if_splits)
      have g3: "good w'" "V w' = V w2" using idle_keeps [OF announce_idle(3) [OF z]] g2 r by auto
      have V2: "V w2 = (V w1)\<lparr>v_team_members := {#y \<in># v_team_members (V w1). \<not> (tu_team y = i \<and> tu_user y = u)#}\<rparr>"
        using d by blast
      have "org_change (au_rt (os_auth sv)) (V w1) (RemoveTeamMember o' i u) (V w')"
        unfolding g3 V2 by (rule ch_remove_team_member [OF x ex])
      with r g3 al show ?thesis by (simp add: outcome_def)
    qed
  qed
qed

end

end
