(* ===== verification/Organizations_Joining.thy ===== *)
theory Organizations_Joining
  imports Organizations_Parts
begin

text \<open>
  How users come to be members: added by an administrator, or by an invitation that is created, revoked
  and accepted once.
\<close>

context organizations
begin

text \<open>A membership more.\<close>

lemma good_more_members:
  assumes g: "good w" and r: "rows_ok (w_db w')" "cached w' = cached w"
    and m: "new_member (V w) o' u role m" "no_colon o'" "o' \<noteq> []" "u \<noteq> []"
    and V: "V w' = (V w)\<lparr>v_members := add_mset m (v_members (V w))\<rparr>"
  shows "good w'"
proof (rule goodI [OF r(1)])
  show "orgs_ok (V w')" unfolding V by (rule ok_more_members [OF goodD(2) [OF g] m])
  show "coherent (au_rt (os_auth sv)) (V w') (cached w')"
    unfolding r(2) by (rule coherent_more_members [OF goodD(3) [OF g]]) (simp_all add: V)
qed

lemma remembered:
  assumes "good w" "m \<in># v_members (V w)" "run_state (remember_member sv cx m) w = (y, w')"
  shows "good w'" "V w' = V w"
  using remember_member_spec [OF assms] same_db [of w' w] by simp_all

lemma before_member_add:
  assumes "run_state (chain_run (oh_before_member_add (os_hooks sv)) cx v) w = (r, w')"
  shows "idle w w'" "\<And>v'. r = Inr v' \<Longrightarrow> v' = v"
  using ready assms unfolding org_ready_def refusing_chain_def idle_def by blast+

lemma after_member_add:
  "run_state (after_run (oh_after_member_add (os_hooks sv)) cx v) w = (r, w') \<Longrightarrow> idle w w'"
  using ready unfolding org_ready_def looking_hooks_def idle_def by blast

lemma add_member_spec:
  assumes g: "good w" and ok: "call_ok plain sv c cx (AddMember inp)" and run: "run_state (add_member sv cx inp) w = (r, w')"
  shows "outcome cx (AddMember inp) w r w'"
proof -
  let ?o = "trim_space (am_org inp)" and ?u = "trim_space (am_user inp)"
    and ?role = "if am_role inp = [] then RoleMember else am_role inp"
  let ?in = "\<lparr>am_org = ?o, am_user = ?u, am_role = ?role\<rparr>"
  have nc: "no_colon ?o" using ok by simp
  let ?g = "\<lambda>inp. do {
          t \<leftarrow> now (os_auth sv);
          i \<leftarrow> org_generate_id (os_auth sv) ''mem'';
          let m = \<lparr>mb_id = i, mb_org = am_org inp, mb_user = am_user inp, mb_role = am_role inp,
            mb_status = MembershipActive, mb_created_at = t, mb_updated_at = t\<rparr>;
          bindE (or_else (on_db (repo_create (members_repo sv) m)) (org_taken ErrMemberAlreadyExists)) (\<lambda>m. do {
            _ \<leftarrow> remember_member sv cx m;
            _ \<leftarrow> announce_member_added sv cx (am_org inp) (am_user inp) (am_role inp);
            m' \<leftarrow> after_run (oh_after_member_add (os_hooks sv)) cx m;
            ok m'
          })
        }"
  show ?thesis
  proof (cases "?o = [] \<or> ?u = []")
    case True
    then have "r = Inl OrgInvalidInput" "w' = w" using run by (auto simp: add_member_def Let_def)
    with g show ?thesis by (simp add: outcome_def)
  next
    case False
    have in2: "(if am_role (inp\<lparr>am_org := ?o, am_user := ?u\<rparr>) = [] then inp\<lparr>am_org := ?o, am_user := ?u\<rparr>\<lparr>am_role := RoleMember\<rparr>
      else inp\<lparr>am_org := ?o, am_user := ?u\<rparr>) = ?in" by (cases inp) simp
    have run': "run_state (bindE (check_principal_auth sv cx ?o RoleAdmin) (\<lambda>_.
      bindE (chain_run (oh_before_member_add (os_hooks sv)) cx ?in) ?g)) w = (r, w')"
      using run False unfolding add_member_def Let_def in2 by simp
    show ?thesis
    proof (rule guarded_outcome [OF g _ run'])
      show "no_colon (trim_space ?o)" using nc by simp
    next
      fix w1 assume g1: "good w1" and al: "allowed (V w1) cx ?o RoleAdmin"
        and r1: "run_state (bindE (chain_run (oh_before_member_add (os_hooks sv)) cx ?in) ?g) w1 = (r, w')"
      obtain h w2 where h: "run_state (chain_run (oh_before_member_add (os_hooks sv)) cx ?in) w1 = (h, w2)" by (rule prod.exhaust)
      note bh = before_member_add [OF h]
      have g2: "good w2" "V w2 = V w1" using idle_keeps [OF bh(1)] g1 by auto
      show "outcome cx (AddMember inp) w1 r w'"
      proof (cases h)
        case (Inl e)
        with r1 h g2 show ?thesis by (auto simp: outcome_def)
      next
        case (Inr v)
        with bh(2) have r2: "run_state (?g ?in) w2 = (r, w')" using r1 h by simp
        obtain t w3 where t: "run_state (now (os_auth sv)) w2 = (t, w3)" by (rule prod.exhaust)
        obtain i w4 where i: "run_state (org_generate_id (os_auth sv) ''mem'') w3 = (i, w4)" by (rule prod.exhaust)
        note n3 = now_idle [OF t g2(1)]
        note i4 = run_generate_id [OF i]
        have g4: "good w4" "V w4 = V w1" using idle_keeps [OF conjunct1 [OF i4]] n3 g2 by auto
        let ?m = "\<lparr>mb_id = i, mb_org = ?o, mb_user = ?u, mb_role = ?role,
            mb_status = MembershipActive, mb_created_at = t, mb_updated_at = t\<rparr>"
        have okm: "member_okay plain ?m"
          using i4 n3(4) plain_id [of "''mem''"] nc plain ok by (auto simp: member_okay_def no_colon_def)
        obtain q w5 where q: "run_state (on_db (repo_create (members_repo sv) ?m)) w4 = (q, w5)" by (rule prod.exhaust)
        note c = member_created [OF goodD(1) [OF g4(1)] okm q]
        show ?thesis
        proof (cases q)
          case e: (Inl e)
          have "r = Inl (org_taken ErrMemberAlreadyExists e)" "w' = w5" using r2 t i q e by (simp_all add: or_else_run Let_def)
          moreover have "good w5" using c e goodD [OF g4(1)] by (intro goodI) simp_all
          ultimately show ?thesis using c e g4 by (simp add: outcome_def)
        next
          case m: (Inr m)
          have c5: "m = ?m" "V w5 = (V w4)\<lparr>v_members := add_mset ?m (v_members (V w4))\<rparr>" "rows_ok (w_db w5)" "cached w5 = cached w4"
            using c m by simp_all
          have new: "new_member (V w4) ?o ?u ?role ?m" using c m by (simp add: new_member_def mb_active_def)
          have g5: "good w5" using good_more_members [OF g4(1) c5(3,4) new nc _ _ c5(2)] False by simp
          obtain y6 w6 where w6: "run_state (remember_member sv cx ?m) w5 = (y6, w6)" by (rule prod.exhaust)
          obtain y7 w7 where w7: "run_state (announce_member_added sv cx ?o ?u ?role) w6 = (y7, w7)" by (rule prod.exhaust)
          obtain y8 w8 where w8: "run_state (after_run (oh_after_member_add (os_hooks sv)) cx ?m) w7 = (y8, w8)" by (rule prod.exhaust)
          have r: "r = Inr y8" "w' = w8" using r2 t i q m c5(1) w6 w7 w8 by (simp_all add: or_else_run Let_def)
          have g6: "good w6" "V w6 = V w5" using remembered [OF g5 _ w6] c5(2) by simp_all
          have g8: "good w'" "V w' = V w5"
            using idle_keeps [OF announce_idle(1) [OF w7]] idle_keeps [OF after_member_add [OF w8]] g6 r by auto
          have "org_change (au_rt (os_auth sv)) (V w1) (AddMember inp) (V w')"
            unfolding g8 c5(2) g4(2) using new g4(2) False by (intro ch_add_member) simp_all
          with r g8 al show ?thesis by (simp add: outcome_def)
        qed
      qed
    qed
  qed
qed

section \<open>Invitations\<close>

lemma create_invitation_spec:
  assumes g: "good w" and ok: "call_ok plain sv c cx (CreateInvitation inp)" and run: "run_state (create_invitation sv cx inp) w = (r, w')"
  shows "outcome cx (CreateInvitation inp) w r w'"
proof -
  let ?o = "trim_space (ci_org inp)" and ?em = "trim_space (to_lower (ci_email inp))" and ?u = "trim_space (ci_inviter inp)"
    and ?role = "if ci_role inp = [] then RoleMember else ci_role inp"
    and ?ttl = "if ci_ttl inp = 0 then ocf_invitation_ttl (os_cfg sv) else ci_ttl inp"
  have nc: "no_colon ?o" using ok by simp
  show ?thesis
  proof (cases "?o = [] \<or> ?em = [] \<or> ?u = []")
    case True
    then have "r = Inl OrgInvalidInput" "w' = w" using run by (auto simp: create_invitation_def Let_def)
    with g show ?thesis by (simp add: outcome_def)
  next
    case False
    note run' = run [unfolded create_invitation_def Let_def, simplified False if_False]
    show ?thesis
    proof (rule guarded_outcome [OF g _ run'], goal_cases)
      case 1 show ?case using nc by simp
    next
      case (2 w1)
      note g1 = 2(1) and al = 2(3)
      obtain raw w2 where raw: "run_state (org_generate_token (os_auth sv)) w1 = (raw, w2)" by (rule prod.exhaust)
      obtain t w3 where t: "run_state (now (os_auth sv)) w2 = (t, w3)" by (rule prod.exhaust)
      obtain i w4 where i: "run_state (org_generate_id (os_auth sv) ''inv'') w3 = (i, w4)" by (rule prod.exhaust)
      have g2: "good w2" "V w2 = V w1" using idle_keeps [OF run_generate_token [OF raw]] g1 by auto
      note n3 = now_idle [OF t g2(1)]
      note i4 = run_generate_id [OF i]
      have g4: "good w4" "V w4 = V w1" using idle_keeps [OF conjunct1 [OF i4]] n3 g2 by auto
      let ?x = "\<lparr>iv_id = i, iv_org = ?o, iv_email = ?em, iv_role = ?role, iv_inviter = ?u,
           iv_token_hash = org_hash_token (au_rt (os_auth sv)) raw, iv_expires_at = t + ?ttl,
           iv_accepted_at = None, iv_created_at = t\<rparr>"
      have okx: "invitation_okay plain ?x"
        using i4 n3(4,5) plain_id [of "''inv''"] nc plain plain_token_hash ok by (auto simp: invitation_okay_def no_colon_def)
      obtain q w5 where q: "run_state (on_db (repo_create (invitations_repo sv) ?x)) w4 = (q, w5)" by (rule prod.exhaust)
      note c = invitation_created [OF goodD(1) [OF g4(1)] okx q]
      have g5: "good w5" using c good_parts [OF g4(1)] nc False by (cases q) (auto intro!: parts_good [OF g4(1)] uniq_add)
      show ?case
      proof (cases q)
        case (Inl e)
        with 2(4) raw t i q have "r = Inl e" "w' = w5" by simp_all
        with c Inl g4 g5 show ?thesis by (simp add: outcome_def)
      next
        case (Inr x)
        with c have x: "x = ?x" by simp
        obtain y w6 where y: "run_state (org_publish sv cx EventInvitationCreated ?o (PFields ''InvitationCreatedPayload''
            [(''organization_id'', FStr ?o), (''invitation_id'', FStr (iv_id x)), (''email'', FStr (iv_email x)),
             (''role'', FStr (iv_role x)), (''inviter_user_id'', FStr ?u), (''expires_at'', FTime (iv_expires_at x))])) w5 = (y, w6)"
          by (rule prod.exhaust)
        have r: "r = Inr (x, raw)" "w' = w6" using 2(4) raw t i q Inr y by simp_all
        from by_publish [OF y g5] r have g6: "good w'" "V w' = V w5" by auto
        have V5: "V w5 = (V w1)\<lparr>v_invitations := add_mset ?x (v_invitations (V w1))\<rparr>"
          "\<forall>y \<in># v_invitations (V w1). iv_id y \<noteq> iv_id ?x \<and> iv_token_hash y \<noteq> iv_token_hash ?x"
          using c Inr g4 by simp_all
        have "org_change (au_rt (os_auth sv)) (V w1) (CreateInvitation inp) (V w')"
          unfolding g6 V5(1) by (rule ch_invite) (use V5(2) False in simp_all)
        with r g6 al show ?thesis by (simp add: outcome_def)
      qed
    qed
  qed
qed

lemma revoke_invitation_spec:
  assumes g: "good w" and ok: "call_ok plain sv c cx (RevokeInvitation o' i)"
    and run: "run_state (revoke_invitation sv cx o' i) w = (r, w')"
  shows "outcome cx (RevokeInvitation o' i) w r w'"
proof (rule guarded_outcome [OF g _ run [unfolded revoke_invitation_def]], goal_cases)
  case 1 show ?case using ok by simp
next
  case (2 w1)
  note g1 = 2(1) and al = 2(3)
  obtain f w2 where f: "run_state (get_invitation sv o' i) w1 = (f, w2)" by (rule prod.exhaust)
  note fs = get_invitation_spec [OF g1 f]
  show ?case
  proof (cases f)
    case (Inl e)
    with 2(4) f fs g1 show ?thesis by (auto simp: outcome_def)
  next
    case (Inr x)
    with fs have x: "w2 = w1" "x \<in># v_invitations (V w1)" "iv_org x = o'" "iv_id x = i" by simp_all
    obtain q w3 where q: "run_state (on_db (repo_delete (invitations_repo sv) (team_where o' i))) w1 = (q, w3)" by (rule prod.exhaust)
    note d = invitation_deleted [OF goodD(1) [OF g1] means_invitation q]
    have g3: "good w3" using d good_parts [OF g1] by (intro parts_good [OF g1]) (auto intro!: uniq_filter)
    have n: "size {#x \<in># v_invitations (V w1). iv_org x = o' \<and> iv_id x = i#} \<noteq> 0"
      using x none_filtered [of "\<lambda>x. iv_org x = o' \<and> iv_id x = i" "v_invitations (V w1)"] by (metis (mono_tags, lifting) mem_Collect_eq set_mset_filter)
    obtain y w4 where y: "run_state (org_publish sv cx EventInvitationRevoked o' (PFields ''InvitationRevokedPayload''
           [(''organization_id'', FStr o'), (''invitation_id'', FStr i)])) w3 = (y, w4)" by (rule prod.exhaust)
    have r: "r = Inr ()" "w' = w4" using 2(4) f Inr x(1) q d n y by (auto split: if_splits)
    from by_publish [OF y g3] r have g4: "good w'" "V w' = V w3" by auto
    have V3: "V w3 = (V w1)\<lparr>v_invitations := {#y \<in># v_invitations (V w1). \<not> (iv_org y = o' \<and> iv_id y = i)#}\<rparr>" using d by blast
    have "org_change (au_rt (os_auth sv)) (V w1) (RevokeInvitation o' i) (V w')"
      unfolding g4 V3 by (rule ch_revoke [OF x(2-4)])
    with r g4 al show ?thesis by (simp add: outcome_def)
  qed
qed

definition accept_result :: "string \<Rightarrow> string \<Rightarrow> time \<Rightarrow> org_view \<Rightarrow> org_view \<Rightarrow> membership \<Rightarrow> invitation \<Rightarrow> bool" where
  "accept_result h u t v v' m x \<longleftrightarrow> x \<in># v_invitations v \<and> iv_token_hash x = h \<and> \<not> iv_accepted x \<and> \<not> iv_expired x t \<and>
     new_member v (iv_org x) u (iv_role x) m \<and>
     v' = v\<lparr>v_invitations := upd_where (\<lambda>y. iv_id y = iv_id x) (\<lambda>y. y\<lparr>iv_accepted_at := Some t\<rparr>) (v_invitations v),
        v_members := add_mset m (v_members v)\<rparr>"

lemma accept_tx_spec:
  assumes g: "good w" and u: "plain u" "json_time_ok t" and run: "run_state (accept_tx sv h u t cx) w = (r, w')"
  shows "rows_ok (w_db w') \<and> cached w' = cached w \<and> (case r of Inl _ \<Rightarrow> True | Inr (m, x) \<Rightarrow> accept_result h u t (V w) (V w') m x)"
proof -
  note gd = goodD [OF g]
  obtain f w1 where f: "run_state (on_db (repo_find_one (invitations_repo sv) [Eq ''token_hash'' (VStr h)])) w = (f, w1)" by (rule prod.exhaust)
  note fs = invs.find_one_db [OF gd(8) means_invitation_1(3) f]
  have w1: "w1 = w" using fs by blast
  show ?thesis
  proof (cases f)
    case (Inl e)
    with run f w1 have "r = Inl (org_missing ErrInvitationNotFound e)" "w' = w" by (simp_all add: accept_tx_def or_else_run)
    with gd show ?thesis by simp
  next
    case (Inr x)
    with fs have x: "x \<in># v_invitations (V w)" "iv_token_hash x = h" by (simp_all add: V_parts)
    obtain e w2 where e: "run_state (on_db (repo_find_one (members_repo sv)
      [Eq ''organization_id'' (VStr (iv_org x)), Eq ''user_id'' (VStr u)])) w = (e, w2)" by (rule prod.exhaust)
    note es = mems.find_one_db [OF gd(5) means_member(1) e]
    show ?thesis
    proof (cases "iv_accepted x \<or> iv_expired x t \<or> (\<exists>m. e = Inr m)")
      case True
      then have "\<exists>e. r = Inl e" "w' = w" using run f w1 Inr e es
        by (auto simp: accept_tx_def or_else_run split: if_splits)
      with gd show ?thesis by auto
    next
      case False
      then obtain e0 where e0: "e = Inl e0" by (cases e) auto
      obtain q w3 where q: "run_state (on_db (repo_update (invitations_repo sv) [Eq ''id'' (VStr (iv_id x))] [''accepted_at'' \<mapsto> VTime t])) w = (q, w3)"
        by (rule prod.exhaust)
      have up: "only_model tbl ModelOrganizationInvitations w w3 \<and> invs.rinv (w_db w3) \<and> (\<exists>n. q = Inr n) \<and>
        invs.ents (w_db w3) = upd_where (\<lambda>y. iv_id y = iv_id x) (\<lambda>y. y\<lparr>iv_accepted_at := Some t\<rparr>) (invs.ents (w_db w))"
        by (rule invs.update_db [OF gd(8) means_invitation_1(1) _ _ q])
          (use u(2) in \<open>auto simp: invitation_rep_def set_time_rep_def time_rep_def\<close>)
      then have c3: "rows_ok (w_db w3)" "cached w3 = cached w" "\<exists>n. q = Inr n"
        "V w3 = (V w)\<lparr>v_invitations := upd_where (\<lambda>y. iv_id y = iv_id x) (\<lambda>y. y\<lparr>iv_accepted_at := Some t\<rparr>) (v_invitations (V w))\<rparr>"
        using change_invitations [OF gd(1)] V_parts(5) [of w] by auto
      obtain i w4 where i: "run_state (org_generate_id (os_auth sv) ''mem'') w3 = (i, w4)" by (rule prod.exhaust)
      note i4 = run_generate_id [OF i]
      have g4: "rows_ok (w_db w4)" "V w4 = V w3" "cached w4 = cached w3" using i4 c3(1) idle_keeps [of w3 w4] by (auto simp: idle_def)
      let ?m = "\<lparr>mb_id = i, mb_org = iv_org x, mb_user = u, mb_role = iv_role x, mb_status = MembershipActive,
                  mb_created_at = t, mb_updated_at = t\<rparr>"
      have "plain (iv_org x)" using g x(1) plain by (auto simp: good_def orgs_ok_def no_colon_def)
      then have okm: "member_okay plain ?m" using i4 u plain_id [of "''mem''"] by (auto simp: member_okay_def)
      obtain y w5 where y: "run_state (on_db (repo_create (members_repo sv) ?m)) w4 = (y, w5)" by (rule prod.exhaust)
      note c = member_created [OF g4(1) okm y]
      have run5: "w' = w5" "r = (case y of Inl e \<Rightarrow> Inl e | Inr m \<Rightarrow> Inr (m, x))"
        using run f w1 Inr e es e0 False q c3(3) i y by (auto simp: accept_tx_def or_else_run split: sum.splits)
      show ?thesis
      proof (cases y)
        case e5: (Inl e5)
        with c run5 g4 c3 show ?thesis by simp
      next
        case m5: (Inr m)
        with c have c5: "m = ?m" "V w5 = (V w4)\<lparr>v_members := add_mset ?m (v_members (V w4))\<rparr>"
          "\<forall>y \<in># v_members (V w4). mb_id y \<noteq> mb_id ?m \<and> (mb_org y \<noteq> mb_org ?m \<or> mb_user y \<noteq> mb_user ?m)" by simp_all
        have "new_member (V w) (iv_org x) u (iv_role x) ?m" using c5(3) g4(2) c3(4) by (simp add: new_member_def mb_active_def)
        then have "accept_result h u t (V w) (V w5) ?m x"
          unfolding accept_result_def c5(2) g4(2) c3(4) using x False by simp
        with m5 run5 c5(1) c g4 c3 show ?thesis by simp
      qed
    qed
  qed
qed

lemma good_accepted:
  assumes g: "good w" and r: "rows_ok (w_db w')" "cached w' = cached w" and a: "accept_result h u t (V w) (V w') m x" and u: "u \<noteq> []"
  shows "good w'"
proof (rule goodI [OF r(1)])
  let ?i = "upd_where (\<lambda>y. iv_id y = iv_id x) (\<lambda>y. y\<lparr>iv_accepted_at := Some t\<rparr>) (v_invitations (V w))"
  let ?v = "(V w)\<lparr>v_invitations := ?i\<rparr>"
  have x: "no_colon (iv_org x)" "iv_org x \<noteq> []" using good_parts(4) [OF g] a by (auto simp: accept_result_def)
  have "owned ?v y = owned (V w) y" for y by (simp add: owned_def)
  moreover have "no_colon (iv_org y) \<and> iv_org y \<noteq> []" if "y \<in># ?i" for y
    using that good_parts(4) [OF g] by (auto simp: in_upd_where split: if_splits)
  ultimately have ok: "orgs_ok ?v" using goodD(2) [OF g] by (auto simp: orgs_ok_def intro!: uniq_upd)
  have new: "new_member ?v (iv_org x) u (iv_role x) m" using a by (simp add: accept_result_def new_member_def)
  have V: "V w' = ?v\<lparr>v_members := add_mset m (v_members ?v)\<rparr>" using a by (simp add: accept_result_def)
  show "orgs_ok (V w')" unfolding V by (rule ok_more_members [OF ok new x u])
  show "coherent (au_rt (os_auth sv)) (V w') (cached w')"
    unfolding r(2) by (rule coherent_more_members [OF goodD(3) [OF g], of _ m]) (use a in \<open>simp_all add: accept_result_def\<close>)
qed

lemma accept_invitation_spec:
  assumes g: "good w" and cx: "\<not> ctx_in_tx cx" and ok: "call_ok plain sv c cx (AcceptInvitation raw0 u0)"
    and run: "run_state (accept_invitation sv cx raw0 u0) w = (r, w')"
  shows "outcome cx (AcceptInvitation raw0 u0) w r w'"
proof (cases "trim_space raw0 = [] \<or> trim_space u0 = []")
  case True
  then have "r = Inl OrgInvalidInput" "w' = w" using run by (auto simp: accept_invitation_def Let_def)
  with g show ?thesis by (simp add: outcome_def)
next
  case False
  let ?u = "trim_space u0" and ?h = "org_hash_token (au_rt (os_auth sv)) (trim_space raw0)"
  obtain t w1 where t: "run_state (now (os_auth sv)) w = (t, w1)" by (rule prod.exhaust)
  note n1 = now_idle [OF t g]
  have pu: "plain ?u" using ok by simp
  obtain q w2 where q: "run_state (org_transaction sv cx (accept_tx sv ?h ?u t)) w1 = (q, w2)" by (rule prod.exhaust)
  show ?thesis
  proof (rule in_transaction [OF n1(1) cx q])
    show "rows_ok (w_db v) \<and> cached v = cached w1" if "run_state (accept_tx sv ?h ?u t (with_tx cx)) w1 = (Inl e, v)" for e v
      using accept_tx_spec [OF n1(1) pu n1(4) that] by blast
  next
    fix e assume e: "q = Inl e" "good w2" "V w2 = V w1"
    have "r = Inl e" "w' = w2" using run False t q e by (simp_all add: accept_invitation_def Let_def)
    with e n1 show ?thesis by (simp add: outcome_def)
  next
    fix p assume p: "q = Inr p" "run_state (accept_tx sv ?h ?u t (with_tx cx)) w1 = (Inr p, w2)"
    obtain m x where mx: "p = (m, x)" by (rule prod.exhaust)
    note a = accept_tx_spec [OF n1(1) pu n1(4) p(2), unfolded mx, simplified]
    have g2: "good w2" using good_accepted [OF n1(1) _ _ conjunct2 [OF conjunct2 [OF a]]] a False by simp
    have m2: "m \<in># v_members (V w2)" using a by (simp add: accept_result_def)
    obtain y3 w3 where w3: "run_state (remember_member sv cx m) w2 = (y3, w3)" by (rule prod.exhaust)
    obtain y4 w4 where w4: "run_state (org_publish sv cx EventInvitationAccepted (iv_org x) (PFields ''InvitationAcceptedPayload''
            [(''organization_id'', FStr (iv_org x)), (''invitation_id'', FStr (iv_id x)), (''user_id'', FStr ?u),
             (''accepted_at'', FTime t)])) w3 = (y4, w4)" by (rule prod.exhaust)
    obtain y5 w5 where w5: "run_state (announce_member_added sv cx (iv_org x) ?u (mb_role m)) w4 = (y5, w5)" by (rule prod.exhaust)
    have r: "r = Inr m" "w' = w5" using run False t q p(1) mx w3 w4 w5 by (simp_all add: accept_invitation_def Let_def)
    have g3: "good w3" "V w3 = V w2" using remembered [OF g2 m2 w3] by simp_all
    have g5: "good w'" "V w' = V w2" using by_publish [OF w4 g3(1)] idle_keeps [OF announce_idle(1) [OF w5]] g3 r by auto
    have ar: "accept_result ?h ?u t (V w) (V w2) m x" using a n1(2) by simp
    have "org_change (au_rt (os_auth sv)) (V w) (AcceptInvitation raw0 u0) (V w')"
      unfolding g5 using ar False unfolding accept_result_def by (auto intro: ch_accept)
    with r g5 show ?thesis by (simp add: outcome_def)
  qed
qed

end

end
