(* ===== verification/Organizations_Whole.thy ===== *)
theory Organizations_Whole
  imports Organizations_Joining
begin

text \<open>
  Organizations as a whole: created with their owner, updated, handed over and deleted with all their
  parts; and the outcome of every call of the service (\<open>org_run_outcome\<close>).
\<close>

lemma in_split_on: "x \<in> set s \<Longrightarrow> x = c \<or> (\<exists>p \<in> set (split_on c s). x \<in> set p)"
  by (induction c s rule: split_on.induct) (auto split: list.splits if_splits)

lemma slug_no_colon: "slug_regex s \<Longrightarrow> CHR '':'' \<notin> set s"
  using in_split_on [of "CHR '':''" s "CHR ''-''"] by (force simp: slug_regex_def slug_char_def list_all_iff Let_def)

lemma valid_slug:
  assumes "validate_slug (trim_space (to_lower s)) = Inr ()"
  shows "trim_space (to_lower s) \<noteq> []" "CHR '':'' \<notin> set (trim_space (to_lower s))"
  using assms slug_no_colon by (auto simp: validate_slug_def Let_def to_lower_trim split: if_splits)

lemma snd_organization_updates: "snd (organization_updates inp t x) = snd (organization_updates inp t y)"
  by (simp add: organization_updates_def split: option.splits)

lemma org_rep_updates:
  "org_rep rt plain e r \<Longrightarrow> json_time_ok t \<Longrightarrow> (\<And>md. uo_metadata inp = Some md \<Longrightarrow> distinct (map fst md)) \<Longrightarrow>
   org_rep rt plain (fst (organization_updates inp t e)) (r ++ snd (organization_updates inp t x))"
  by (auto simp: organization_updates_def org_rep_def string_map_rep_def time_rep_def map_add_def split: option.splits)

lemma ok_created:
  assumes ok: "orgs_ok v" and x: "\<forall>y \<in># v_orgs v. og_id y \<noteq> og_id x \<and> og_slug y \<noteq> og_slug x"
    and xs: "no_colon (og_id x)" "og_id x \<noteq> []" "og_slug x \<noteq> []" "og_owner x \<noteq> []" "trim_space (og_owner x) = og_owner x"
    and m: "new_member v (og_id x) (og_owner x) RoleOwner m"
  shows "orgs_ok (v\<lparr>v_orgs := add_mset x (v_orgs v), v_members := add_mset m (v_members v)\<rparr>)" (is "orgs_ok ?v")
proof -
  let ?v1 = "v\<lparr>v_members := add_mset m (v_members v)\<rparr>"
  have ok1: "orgs_ok ?v1" by (rule ok_more_members [OF ok m xs(1,2,4)])
  have same: "owned ?v y = owned ?v1 y" for y by (simp add: owned_def)
  have "owned ?v1 x" using new_memberD(1-4) [OF m] by (auto simp: owned_def)
  with ok1 xs x show ?thesis unfolding orgs_ok_def same by (auto intro!: uniq_add)
qed

lemma coherent_forgot:
  assumes co: "coherent rt v c" and c': "c' \<subseteq>\<^sub>m c" "\<And>k. k \<in> K \<Longrightarrow> c' k = None"
    and m: "\<And>o' u m. no_colon o' \<Longrightarrow> membership_key o' u \<notin> K \<Longrightarrow> c (membership_key o' u) \<noteq> None \<Longrightarrow> member_in v o' u m \<Longrightarrow>
      member_in v' o' u m"
    and x: "\<And>x. x \<in># v_orgs v \<Longrightarrow> org_id_key (og_id x) \<notin> K \<or> org_slug_key (og_slug x) \<notin> K \<Longrightarrow> x \<in># v_orgs v'"
  shows "coherent rt v' c'"
proof (rule coherent_change [OF coherent_sub [OF co c'(1)]])
  fix o' u y assume a: "no_colon o'" "c' (membership_key o' u) \<noteq> None" "member_in v o' u y"
  have "c (membership_key o' u) \<noteq> None" using c'(1) a(2) unfolding map_le_def by (metis domIff)
  with a c'(2) show "member_in v' o' u y" by (intro m) auto
next
  fix y assume "y \<in># v_orgs v" "c' (org_id_key (og_id y)) \<noteq> None \<or> c' (org_slug_key (og_slug y)) \<noteq> None"
  with c'(2) show "y \<in># v_orgs v'" by (intro x) auto
qed

lemma map_le_without: "f \<subseteq>\<^sub>m g(a := None) \<Longrightarrow> f \<subseteq>\<^sub>m g \<and> f a = None"
  unfolding map_le_def by (metis domIff fun_upd_apply)

context organizations
begin

lemma org_outcome:
  assumes "good w" "run_state (bindE (get_organization sv cx i) f) w = (r, w')"
    and "\<And>x w1. good w1 \<Longrightarrow> V w1 = V w \<Longrightarrow> x \<in># v_orgs (V w1) \<Longrightarrow> og_id x = trim_space i \<Longrightarrow> trim_space i \<noteq> [] \<Longrightarrow>
      run_state (f x) w1 = (r, w') \<Longrightarrow> outcome cx call w1 r w'"
  shows "outcome cx call w r w'"
  using assms(2)
proof (rule with_org [OF assms(1)])
  fix x w1 assume a: "good w1" "V w1 = V w" "x \<in># v_orgs (V w)" "og_id x = trim_space i" "trim_space i \<noteq> []" "run_state (f x) w1 = (r, w')"
  show ?thesis by (rule outcome_cong [OF a(2) assms(3) [OF a(1,2) _ a(4-6)]]) (simp add: a)
qed (rule outcome_Inl)

lemma good_org:
  assumes "good w" "x \<in># v_orgs (V w)"
  shows "og_slug x \<noteq> []" "trim_space (og_owner x) = og_owner x" "owned (V w) x"
    "\<And>y. y \<in># v_orgs (V w) \<Longrightarrow> og_id y = og_id x \<Longrightarrow> y = x"
  using assms uniq_eq [of og_id "v_orgs (V w)" _ x] by (auto simp: good_def orgs_ok_def)

lemma run_forget_org:
  assumes cx: "ctx_err cx = None" and x: "og_id x \<noteq> []" "og_slug x \<noteq> []"
    and run: "run_state (forget_org sv cx (og_id x) (og_slug x)) w = (y, w')"
  shows "w_db w' = w_db w" "cached w' \<subseteq>\<^sub>m cached w" "cached w' (org_id_key (og_id x)) = None" "cached w' (org_slug_key (og_slug x)) = None"
  using forget_org_spec [OF cx x run] map_le_without [of "cached w'" "(cached w)(org_id_key (og_id x) := None)"]
    map_le_without [of "cached w'" "cached w" "org_id_key (og_id x)"] by blast+

lemma run_forget_member:
  assumes "ctx_err cx = None" "o' \<noteq> []" "u \<noteq> []" "run_state (forget_member sv cx o' u) w = (y, w')"
  shows "w_db w' = w_db w" "cached w' \<subseteq>\<^sub>m cached w" "cached w' (membership_key o' u) = None"
  using forget_member_spec [OF assms] map_le_without [of "cached w'" "cached w" "membership_key o' u"] by blast+

lemma before_create:
  assumes "run_state (chain_run (oh_before_create (os_hooks sv)) cx v) w = (r, w')"
  shows "idle w w'" "\<And>v'. r = Inr v' \<Longrightarrow> v' = v"
  using ready assms unfolding org_ready_def refusing_chain_def idle_def by blast+

lemma after_create:
  "run_state (after_run (oh_after_create (os_hooks sv)) cx v) w = (r, w') \<Longrightarrow> idle w w'"
  using ready unfolding org_ready_def looking_hooks_def idle_def by blast

section \<open>Creation\<close>

lemma create_org_tx_spec:
  assumes r: "rows_ok (w_db w)" and ok: "org_okay plain x" "member_okay plain m"
    and run: "run_state (create_org_tx sv x m cx) w = (r, w')"
  shows "rows_ok (w_db w') \<and> cached w' = cached w \<and> (case r of Inl _ \<Rightarrow> True | Inr p \<Rightarrow> p = (x, m) \<and>
    V w' = (V w)\<lparr>v_orgs := add_mset x (v_orgs (V w)), v_members := add_mset m (v_members (V w))\<rparr> \<and>
    (\<forall>y \<in># v_orgs (V w). og_id y \<noteq> og_id x \<and> og_slug y \<noteq> og_slug x) \<and>
    (\<forall>y \<in># v_members (V w). mb_id y \<noteq> mb_id m \<and> (mb_org y \<noteq> mb_org m \<or> mb_user y \<noteq> mb_user m)))"
proof -
  obtain q w1 where q: "run_state (on_db (repo_create (orgs_repo sv) x)) w = (q, w1)" by (rule prod.exhaust)
  note c1 = org_created [OF r ok(1) q]
  show ?thesis
  proof (cases q)
    case (Inl e)
    with run q c1 show ?thesis by (auto simp: create_org_tx_def or_else_run)
  next
    case (Inr x')
    obtain p w2 where p: "run_state (on_db (repo_create (members_repo sv) m)) w1 = (p, w2)" by (rule prod.exhaust)
    have "rows_ok (w_db w1)" using c1 by blast
    note c2 = member_created [OF this ok(2) p]
    from run q Inr p c1 c2 show ?thesis by (cases p) (auto simp: create_org_tx_def or_else_run)
  qed
qed

lemma create_organization_spec:
  assumes g: "good w" and cx: "\<not> ctx_in_tx cx" and ok: "call_ok plain sv c cx (CreateOrganization inp)"
    and run: "run_state (create_organization sv cx inp) w = (r, w')"
  shows "outcome cx (CreateOrganization inp) w r w'"
proof -
  let ?in = "inp\<lparr>co_name := trim_space (co_name inp), co_slug := trim_space (to_lower (co_slug inp)), co_owner := trim_space (co_owner inp)\<rparr>"
  have po: "plain (trim_space (co_owner inp))" and d: "distinct (map fst (co_metadata inp))" using ok by simp_all
  show ?thesis
  proof (cases "(trim_space (co_name inp) = [] \<or> trim_space (co_owner inp) = []) \<or> validate_slug (co_slug ?in) \<noteq> Inr ()")
    case True
    then have "\<exists>e. r = Inl e \<and> w' = w" using run
      by (cases "validate_slug (co_slug ?in)") (auto simp: create_organization_def Let_def split: if_splits)
    with g show ?thesis by (auto simp: outcome_def)
  next
    case False
    then have vs: "validate_slug (trim_space (to_lower (co_slug inp))) = Inr ()" and
      ne: "trim_space (co_name inp) \<noteq> []" "trim_space (co_owner inp) \<noteq> []" by simp_all
    note slug = valid_slug [OF vs]
    obtain h w1 where h: "run_state (chain_run (oh_before_create (os_hooks sv)) cx ?in) w = (h, w1)" by (rule prod.exhaust)
    note bh = before_create [OF h]
    have g1: "good w1" "V w1 = V w" using idle_keeps [OF bh(1)] g by auto
    show ?thesis
    proof (cases h)
      case (Inl e)
      with run h ne vs have "r = Inl e" "w' = w1" by (simp_all add: create_organization_def Let_def)
      with g1 show ?thesis by (simp add: outcome_def)
    next
      case (Inr v)
      with bh(2) have h1: "h = Inr ?in" by simp
      obtain t w2 where t: "run_state (now (os_auth sv)) w1 = (t, w2)" by (rule prod.exhaust)
      obtain oi w3 where oi: "run_state (org_generate_id (os_auth sv) ''org'') w2 = (oi, w3)" by (rule prod.exhaust)
      obtain mi w4 where mi: "run_state (org_generate_id (os_auth sv) ''mem'') w3 = (mi, w4)" by (rule prod.exhaust)
      note n2 = now_idle [OF t g1(1)]
      note i3 = run_generate_id [OF oi] and i4 = run_generate_id [OF mi]
      have g4: "good w4" "V w4 = V w" "cached w4 = cached w2"
        using idle_keeps [OF idle_trans [OF conjunct1 [OF i3] conjunct1 [OF i4]]] n2 g1 by auto
      let ?x = "\<lparr>og_id = oi, og_name = co_name ?in, og_slug = co_slug ?in, og_owner = co_owner ?in,
            og_metadata = co_metadata ?in, og_created_at = t, og_updated_at = t\<rparr>"
      let ?m = "\<lparr>mb_id = mi, mb_org = oi, mb_user = co_owner ?in, mb_role = RoleOwner,
            mb_status = MembershipActive, mb_created_at = t, mb_updated_at = t\<rparr>"
      have oi': "no_colon oi" "oi \<noteq> []" using i3 hex_encode_colon by (auto simp: no_colon_def)
      have okx: "org_okay plain ?x" using oi' slug n2(4) plain d by (auto simp: org_okay_def no_colon_def)
      have okm: "member_okay plain ?m"
        using oi' i4 n2(4) plain_id [of "''mem''"] plain po by (auto simp: member_okay_def no_colon_def)
      obtain q w5 where q: "run_state (org_transaction sv cx (create_org_tx sv ?x ?m)) w4 = (q, w5)" by (rule prod.exhaust)
      show ?thesis
      proof (rule in_transaction [OF g4(1) cx q])
        show "rows_ok (w_db v) \<and> cached v = cached w4" if "run_state (create_org_tx sv ?x ?m (with_tx cx)) w4 = (Inl e, v)" for e v
          using create_org_tx_spec [OF goodD(1) [OF g4(1)] okx okm that] by blast
      next
        fix e assume e: "q = Inl e" "good w5" "V w5 = V w4"
        have "r = Inl e" "w' = w5" using run h h1 ne vs t oi mi q e(1) by (simp_all add: create_organization_def Let_def)
        with e g4 show ?thesis by (simp add: outcome_def)
      next
        fix p assume p: "q = Inr p" "run_state (create_org_tx sv ?x ?m (with_tx cx)) w4 = (Inr p, w5)"
        note a = create_org_tx_spec [OF goodD(1) [OF g4(1)] okx okm p(2)]
        then have a5: "p = (?x, ?m)" "rows_ok (w_db w5)" "cached w5 = cached w4"
          "V w5 = (V w4)\<lparr>v_orgs := add_mset ?x (v_orgs (V w4)), v_members := add_mset ?m (v_members (V w4))\<rparr>"
          "\<forall>y \<in># v_orgs (V w4). og_id y \<noteq> og_id ?x \<and> og_slug y \<noteq> og_slug ?x" by simp_all
        have new: "new_member (V w4) (og_id ?x) (og_owner ?x) RoleOwner ?m" using a by (simp add: new_member_def mb_active_def)
        have "orgs_ok (V w5)" unfolding a5(4)
          by (rule ok_created [OF goodD(2) [OF g4(1)] a5(5) _ _ _ _ _ new]) (use oi' slug ne in simp_all)
        moreover have "coherent (au_rt (os_auth sv)) (V w5) (cached w5)"
          unfolding a5(3) by (rule coherent_change [OF goodD(3) [OF g4(1)]]) (auto simp: a5(4) member_in_def)
        ultimately have g5: "good w5" using a5(2) by (intro goodI)
        obtain y6 w6 where w6: "run_state (remember_org sv cx ?x) w5 = (y6, w6)" by (rule prod.exhaust)
        obtain y7 w7 where w7: "run_state (remember_member sv cx ?m) w6 = (y7, w7)" by (rule prod.exhaust)
        obtain y8 w8 where w8: "run_state (org_publish sv cx EventOrganizationCreated oi (PFields ''OrganizationCreatedPayload''
              [(''organization_id'', FStr oi), (''slug'', FStr (co_slug ?in)), (''owner_id'', FStr (co_owner ?in)),
               (''created_at'', FTime t)])) w7 = (y8, w8)" by (rule prod.exhaust)
        obtain y9 w9 where w9: "run_state (announce_member_added sv cx oi (co_owner ?in) RoleOwner) w8 = (y9, w9)" by (rule prod.exhaust)
        obtain z w10 where w10: "run_state (after_run (oh_after_create (os_hooks sv)) cx ?x) w9 = (z, w10)" by (rule prod.exhaust)
        have r: "r = Inr z" "w' = w10"
          using run h h1 ne vs t oi mi q p(1) a5(1) w6 w7 w8 w9 w10 by (simp_all add: create_organization_def Let_def)
        have "?x \<in># v_orgs (V w5)" "?m \<in># v_members (V w5)" by (simp_all add: a5(4))
        with remember_org_spec [OF g5 _ w6] same_db [of w6 w5] have g6: "good w6" "V w6 = V w5" "?m \<in># v_members (V w6)" by auto
        note g7 = remembered [OF g6(1,3) w7]
        have g10: "good w'" "V w' = V w5"
          using by_publish [OF w8 g7(1)] idle_keeps [OF announce_idle(1) [OF w9]] idle_keeps [OF after_create [OF w10]] g7 g6 r by auto
        have "org_change (au_rt (os_auth sv)) (V w) (CreateOrganization inp) (V w')"
          unfolding g10 a5(4) g4(2) using a5(5) new oi' slug ne by (intro ch_create) (simp_all add: g4(2))
        with r g10 show ?thesis by (simp add: outcome_def)
      qed
    qed
  qed
qed

section \<open>Update\<close>

lemma update_organization_spec:
  assumes g: "good w" and cx: "ctx_err cx = None" and ok: "call_ok plain sv c cx (UpdateOrganization i inp)"
    and run: "run_state (update_organization sv cx i inp) w = (r, w')"
  shows "outcome cx (UpdateOrganization i inp) w r w'"
proof (rule guarded_outcome [OF g _ run [unfolded update_organization_def]], goal_cases)
  case 1 show ?case using ok by simp
next
  case (2 w0)
  note al = 2(3)
  show ?case
  proof (rule org_outcome [OF 2(1,4)], goal_cases)
    case (1 x w1)
    note g1 = 1(1) and V1 = 1(2) and x = 1(3-5)
    show ?case
    proof (cases "map_option trim_space (uo_name inp) = Some []")
      case True
      with 1(6) g1 show ?thesis by (auto simp: outcome_def split: if_splits)
    next
      case False
      obtain t w2 where t: "run_state (now (os_auth sv)) w1 = (t, w2)" by (rule prod.exhaust)
      note n2 = now_idle [OF t g1]
      let ?x = "fst (organization_updates inp t x)" and ?u = "snd (organization_updates inp t x)"
      obtain q w3 where q: "run_state (on_db (repo_update (orgs_repo sv) [Eq ''id'' (VStr (og_id x))] ?u)) w2 = (q, w3)" by (rule prod.exhaust)
      note gd = goodD [OF n2(1)]
      have id: "?u ''id'' = None" by (simp add: organization_updates_def split: option.splits)
      have md: "uo_metadata inp = Some md \<Longrightarrow> distinct (map fst md)" for md using ok by simp
      have e: "orgs.ents (w_db w2) = v_orgs (V w1)" using V_parts(1) [of w2] n2(2) by simp
      note u = orgs.update_db [where g = "\<lambda>y. fst (organization_updates inp t y)", OF gd(4) means_org(1) id
          org_rep_updates [OF _ n2(4) md] q]
      then have c3: "rows_ok (w_db w3)" "cached w3 = cached w2" "\<exists>n. q = Inr n"
        "V w3 = (V w1)\<lparr>v_orgs := upd_where (\<lambda>y. og_id y = og_id x) (\<lambda>y. fst (organization_updates inp t y)) (v_orgs (V w1))\<rparr>"
        using change_orgs [OF gd(1)] n2(2) e by auto
      obtain y4 w4 where w4: "run_state (forget_org sv cx (og_id ?x) (og_slug ?x)) w3 = (y4, w4)" by (rule prod.exhaust)
      obtain y5 w5 where w5: "run_state (remember_org sv cx ?x) w4 = (y5, w5)" by (rule prod.exhaust)
      obtain y6 w6 where w6: "run_state (org_publish sv cx EventOrganizationUpdated (og_id ?x) (PFields ''OrganizationUpdatedPayload''
             [(''organization_id'', FStr (og_id ?x)), (''updated_at'', FTime (og_updated_at ?x))])) w5 = (y6, w6)" by (rule prod.exhaust)
      have r: "r = Inr ?x" "w' = w6" using 1(6) False t q c3(3) w4 w5 w6 by (auto simp: Let_def case_prod_beta split: if_splits)
      note sx = good_org [OF g1 x(1)]
      note f4 = run_forget_org [OF cx _ _ w4]
      have f: "w_db w4 = w_db w3" "cached w4 \<subseteq>\<^sub>m cached w2" "cached w4 (org_id_key (og_id x)) = None" "cached w4 (org_slug_key (og_slug x)) = None"
        using f4 x(2,3) sx(1) c3(2) by simp_all
      have V4: "V w4 = V w3" using f(1) by (rule same_db)
      have "owned (V w3) z = owned (V w1) z" for z by (simp add: owned_def c3(4))
      moreover have "owned (V w1) (fst (organization_updates inp t z)) = owned (V w1) z" for z by (simp add: owned_def)
      ultimately have ok4: "orgs_ok (V w4)" using goodD(2) [OF g1] unfolding V4
        by (auto simp: orgs_ok_def c3(4) in_upd_where split: if_splits intro!: uniq_upd)
      have "coherent (au_rt (os_auth sv)) (V w4) (cached w4)"
      proof (rule coherent_forgot [OF gd(3) f(2), where K = "{org_id_key (og_id x), org_slug_key (og_slug x)}"], goal_cases)
        case (3 z)
        then have "z \<noteq> x" by auto
        with sx(4) [of z] 3(1) n2(2) have "og_id z \<noteq> og_id x" by auto
        with 3(1) n2(2) show ?case unfolding V4 c3(4) by (auto simp: in_upd_where intro!: bexI [of _ z])
      qed (use f n2(2) V4 c3(4) in \<open>auto simp: member_in_def\<close>)
      then have g4: "good w4" using ok4 c3(1) f(1) by (intro goodI) simp_all
      have "?x \<in># v_orgs (V w4)" using x(1) unfolding V4 c3(4) by (auto simp: in_upd_where intro!: bexI [of _ x])
      from remember_org_spec [OF g4 this w5] same_db [of w5 w4] have g5: "good w5" "V w5 = V w4" by auto
      from by_publish [OF w6 g5(1)] g5 V4 r have g6: "good w'" "V w' = V w3" by auto
      have "org_change (au_rt (os_auth sv)) (V w1) (UpdateOrganization i inp) (V w')"
        unfolding g6 c3(4) x(2) by (rule ch_update [OF x(1,2)])
      with r g6 al V1 show ?thesis by (simp add: outcome_def)
    qed
  qed
qed

section \<open>Transfer\<close>

lemma member_role_update:
  assumes r: "rows_ok (w_db w)" and t: "json_time_ok t"
    and run: "run_state (on_db (repo_update (members_repo sv) [Eq ''id'' (VStr i)] [''role'' \<mapsto> VStr ro, ''updated_at'' \<mapsto> VTime t])) w = (q, w')"
  shows "rows_ok (w_db w') \<and> cached w' = cached w \<and> (\<exists>n. q = Inr n) \<and>
    V w' = (V w)\<lparr>v_members := upd_where (\<lambda>y. mb_id y = i) (\<lambda>y. y\<lparr>mb_role := ro, mb_updated_at := t\<rparr>) (v_members (V w))\<rparr>"
proof -
  have ri: "mems.rinv (w_db w)" using r by (simp add: rows_ok_def)
  have "only_model tbl ModelOrganizationMemberships w w' \<and> mems.rinv (w_db w') \<and> (\<exists>n. q = Inr n) \<and>
    mems.ents (w_db w') = upd_where (\<lambda>y. mb_id y = i) (\<lambda>y. y\<lparr>mb_role := ro, mb_updated_at := t\<rparr>) (mems.ents (w_db w))"
    by (rule mems.update_db [OF ri means_member_1(1) _ _ run]) (use t in \<open>auto simp: member_rep_def time_rep_def\<close>)
  with change_members [OF r] V_parts(2) [of w] show ?thesis by auto
qed

lemma org_owner_update:
  assumes r: "rows_ok (w_db w)" and t: "json_time_ok t"
    and run: "run_state (on_db (repo_update (orgs_repo sv) [Eq ''id'' (VStr i)] [''owner_id'' \<mapsto> VStr u, ''updated_at'' \<mapsto> VTime t])) w = (q, w')"
  shows "rows_ok (w_db w') \<and> cached w' = cached w \<and> (\<exists>n. q = Inr n) \<and>
    V w' = (V w)\<lparr>v_orgs := upd_where (\<lambda>y. og_id y = i) (\<lambda>y. y\<lparr>og_owner := u, og_updated_at := t\<rparr>) (v_orgs (V w))\<rparr>"
proof -
  have ri: "orgs.rinv (w_db w)" using r by (simp add: rows_ok_def)
  have "only_model tbl ModelOrganizations w w' \<and> orgs.rinv (w_db w') \<and> (\<exists>n. q = Inr n) \<and>
    orgs.ents (w_db w') = upd_where (\<lambda>y. og_id y = i) (\<lambda>y. y\<lparr>og_owner := u, og_updated_at := t\<rparr>) (orgs.ents (w_db w))"
    by (rule orgs.update_db [OF ri means_org(1) _ _ run]) (use t in \<open>auto simp: org_rep_def time_rep_def\<close>)
  with change_orgs [OF r] V_parts(1) [of w] show ?thesis by auto
qed

definition transferred :: "organization \<Rightarrow> membership \<Rightarrow> membership \<Rightarrow> string \<Rightarrow> time \<Rightarrow> org_view \<Rightarrow> org_view" where
  "transferred x old new u t v = v
     \<lparr>v_orgs := upd_where (\<lambda>y. og_id y = og_id x) (\<lambda>y. y\<lparr>og_owner := u, og_updated_at := t\<rparr>) (v_orgs v),
      v_members := upd_where (\<lambda>y. mb_id y = mb_id new) (\<lambda>y. y\<lparr>mb_role := RoleOwner, mb_updated_at := t\<rparr>)
        (upd_where (\<lambda>y. mb_id y = mb_id old) (\<lambda>y. y\<lparr>mb_role := RoleAdmin, mb_updated_at := t\<rparr>) (v_members v))\<rparr>"

lemma transfer_tx_spec:
  assumes r: "rows_ok (w_db w)" and t: "json_time_ok t" and run: "run_state (transfer_tx sv x old new u t cx) w = (q, w')"
  shows "rows_ok (w_db w') \<and> cached w' = cached w \<and> (\<exists>n. q = Inr n) \<and> V w' = transferred x old new u t (V w)"
proof -
  obtain q1 w1 where q1: "run_state (on_db (repo_update (members_repo sv) [Eq ''id'' (VStr (mb_id old))]
    [''role'' \<mapsto> VStr RoleAdmin, ''updated_at'' \<mapsto> VTime t])) w = (q1, w1)" by (rule prod.exhaust)
  note c1 = member_role_update [OF r t q1]
  obtain q2 w2 where q2: "run_state (on_db (repo_update (members_repo sv) [Eq ''id'' (VStr (mb_id new))]
    [''role'' \<mapsto> VStr RoleOwner, ''updated_at'' \<mapsto> VTime t])) w1 = (q2, w2)" by (rule prod.exhaust)
  note c2 = member_role_update [OF conjunct1 [OF c1] t q2]
  obtain q3 w3 where q3: "run_state (on_db (repo_update (orgs_repo sv) [Eq ''id'' (VStr (og_id x))]
    [''owner_id'' \<mapsto> VStr u, ''updated_at'' \<mapsto> VTime t])) w2 = (q3, w3)" by (rule prod.exhaust)
  note c3 = org_owner_update [OF conjunct1 [OF c2] t q3]
  have "q = q3" "w' = w3" using run q1 q2 q3 c1 c2 by (auto simp: transfer_tx_def)
  with c1 c2 c3 show ?thesis by (simp add: transferred_def)
qed

lemma transfer_ownership_spec:
  assumes g: "good w" and cx: "ctx_err cx = None" "\<not> ctx_in_tx cx" and ok: "call_ok plain sv c cx (TransferOwnership i u0)"
    and run: "run_state (transfer_ownership sv cx i u0) w = (r, w')"
  shows "outcome cx (TransferOwnership i u0) w r w'"
proof (rule guarded_outcome [OF g _ run [unfolded transfer_ownership_def]], goal_cases)
  case 1 show ?case using ok by (simp add: clean_def)
next
  case (2 w0)
  note al = 2(3)
  have ti: "trim_space i = i" and nc: "no_colon (trim_space i)" using ok by (simp_all add: clean_def)
  let ?u = "trim_space u0"
  show ?case
  proof (rule org_outcome [OF 2(1,4)], goal_cases)
    case (1 x w1)
    note g1 = 1(1) and V1 = 1(2) and x = 1(3-5)
    show ?case
    proof (cases "?u = [] \<or> ?u = og_owner x")
      case True
      with 1(6) g1 show ?thesis by (auto simp: outcome_def Let_def)
    next
      case u: False
      note run1 = 1(6) [unfolded Let_def, simplified u if_False]
      show ?thesis
      proof (rule member_outcome [OF g1 nc run1], goal_cases)
        case (1 new w2)
        note g2 = 1(1) and V2 = 1(2)
        have new: "member_in (V w1) i ?u new" using 1(2,3) ti by simp
        show ?case
        proof (cases "mb_active new")
          case False
          with 1(4) g2 show ?thesis by (auto simp: outcome_def)
        next
          case act: True
          note run2 = 1(4) [simplified act not_True_eq_False if_False]
          show ?thesis
          proof (rule member_outcome [OF g2 nc run2], goal_cases)
            case (1 old w3)
            note g3 = 1(1) and V3 = 1(2)
            have x3: "x \<in># v_orgs (V w3)" using x V2 V3 by simp
            note sx = good_org [OF g3 x3]
            have old: "member_in (V w3) i (og_owner x) old" using 1(2,3) ti sx(2) by simp
            have new3: "member_in (V w3) i ?u new" using new V2 V3 by simp
            obtain t w4 where t: "run_state (now (os_auth sv)) w3 = (t, w4)" by (rule prod.exhaust)
            note n4 = now_idle [OF t g3]
            obtain q w5 where q: "run_state (org_transaction sv cx (transfer_tx sv x old new ?u t)) w4 = (q, w5)" by (rule prod.exhaust)
            show ?case
            proof (rule in_transaction [OF n4(1) cx(2) q])
              show "rows_ok (w_db v) \<and> cached v = cached w4" if "run_state (transfer_tx sv x old new ?u t (with_tx cx)) w4 = (Inl e, v)" for e v
                using transfer_tx_spec [OF goodD(1) [OF n4(1)] n4(4) that] by blast
            next
              fix e assume "q = Inl e" "good w5" "V w5 = V w4"
              with 1(4) t q n4 show ?thesis by (auto simp: outcome_def)
            next
              fix n assume n: "q = Inr n" "run_state (transfer_tx sv x old new ?u t (with_tx cx)) w4 = (Inr n, w5)"
              note a = transfer_tx_spec [OF goodD(1) [OF n4(1)] n4(4) n(2)]
              have V5: "V w5 = transferred x old new ?u t (V w3)" using a n4(2) by simp
              obtain y6 w6 where w6: "run_state (forget_org sv cx (og_id x) (og_slug x)) w5 = (y6, w6)" by (rule prod.exhaust)
              obtain y7 w7 where w7: "run_state (forget_member sv cx i (mb_user old)) w6 = (y7, w7)" by (rule prod.exhaust)
              obtain y8 w8 where w8: "run_state (forget_member sv cx i (mb_user new)) w7 = (y8, w8)" by (rule prod.exhaust)
              obtain y9 w9 where w9: "run_state (org_publish sv cx EventOwnershipTransferred (og_id x) (PFields ''OwnershipTransferredPayload''
                 [(''organization_id'', FStr (og_id x)), (''old_owner_id'', FStr (mb_user old)), (''new_owner_id'', FStr ?u)])) w8 = (y9, w9)"
                by (rule prod.exhaust)
              have r: "r = Inr ()" "w' = w9" using 1(4) t q n(1) w6 w7 w8 w9 by simp_all
              have us: "mb_user old = og_owner x" "mb_user new = ?u" "i \<noteq> []" "og_owner x \<noteq> []" "?u \<noteq> []"
                using old new3 member_named [OF g3 old] member_named [OF g3 new3] by (simp_all add: member_in_def)
              have f6: "w_db w6 = w_db w5" "cached w6 \<subseteq>\<^sub>m cached w3" "cached w6 (org_id_key (og_id x)) = None"
                "cached w6 (org_slug_key (og_slug x)) = None"
                using run_forget_org [OF cx(1) _ _ w6] x(2,3) sx(1) a n4(3) by simp_all
              have f7: "w_db w7 = w_db w6" "cached w7 \<subseteq>\<^sub>m cached w6" "cached w7 (membership_key i (og_owner x)) = None"
                using run_forget_member [OF cx(1) us(3) _ w7] us by simp_all
              have f8: "w_db w8 = w_db w7" "cached w8 \<subseteq>\<^sub>m cached w7" "cached w8 (membership_key i ?u) = None"
                using run_forget_member [OF cx(1) us(3) _ w8] us by simp_all
              have le: "cached w8 \<subseteq>\<^sub>m cached w3" using f6(2) f7(2) f8(2) by (metis map_le_trans)
              have V8: "V w8 = transferred x old new ?u t (V w3)" using f6(1) f7(1) f8(1) same_db [of w8 w5] V5 by simp
              have V8': "V w8 = (V w3)\<lparr>v_orgs := upd_where (\<lambda>y. og_id y = i) (\<lambda>y. y\<lparr>og_owner := ?u, og_updated_at := t\<rparr>) (v_orgs (V w3)),
                 v_members := upd_where (\<lambda>y. mb_id y = mb_id new) (\<lambda>y. y\<lparr>mb_role := RoleOwner, mb_updated_at := t\<rparr>)
                   (upd_where (\<lambda>y. mb_id y = mb_id old) (\<lambda>y. y\<lparr>mb_role := RoleAdmin, mb_updated_at := t\<rparr>) (v_members (V w3)))\<rparr>"
                using V8 x(2) ti by (simp add: transferred_def)
              have ok8: "orgs_ok (V w8)" unfolding V8'
                by (rule ok_transferred [OF goodD(2) [OF g3] x3 _ _ _ old new3 act]) (use x(2) ti u in simp_all)
              have co: "coherent (au_rt (os_auth sv)) (V w8) (cached w8)"
              proof (rule coherent_forgot [OF goodD(3) [OF g3] le, where K = "{org_id_key (og_id x), org_slug_key (og_slug x),
                  membership_key i (og_owner x), membership_key i ?u}"], goal_cases)
                case (1 k)
                have "cached w8 k = None" if "cached w6 k = None \<or> cached w7 k = None" for k
                  using that f7(2) f8(2) unfolding map_le_def by (metis domIff)
                with 1 f6 f7 f8 show ?case by auto
              next
                case (2 o' v m)
                then have "(o', v) \<noteq> (i, og_owner x)" "(o', v) \<noteq> (i, ?u)" by auto
                then have "m \<noteq> old" "m \<noteq> new" using 2(4) old new3 by (auto simp: member_in_def)
                then have "mb_id m \<noteq> mb_id old" "mb_id m \<noteq> mb_id new"
                  using goodD(2) [OF g3] 2(4) old new3 uniq_eq [of mb_id "v_members (V w3)" m] by (auto simp: member_in_def orgs_ok_def)
                with 2(4) show ?case unfolding V8' by (auto simp: member_in_def in_upd_where intro!: bexI [of _ m])
              next
                case (3 z)
                then have "z \<noteq> x" by auto
                with sx(4) [of z] 3(1) have "og_id z \<noteq> i" using x(2) ti by auto
                with 3(1) show ?case unfolding V8' by (auto simp: in_upd_where intro!: bexI [of _ z])
              qed
              have "rows_ok (w_db w8)" using a f6(1) f7(1) f8(1) by simp
              from goodI [OF this ok8 co] by_publish [OF w9] r have g9: "good w'" "V w' = V w8" by auto
              have "org_change (au_rt (os_auth sv)) (V w3) (TransferOwnership i u0) (V w')"
                unfolding g9 V8' using ch_transfer [where t = t and u = u0 and old = old, OF x3 x(2) _ _ _ act] u old new3 ti by simp
              with r g9 al V1 V2 V3 show ?thesis by (simp add: outcome_def)
            qed
          qed
        qed
      qed
    qed
  qed
qed

end

end
