(* ===== verification/Organizations_Outcome.thy ===== *)
theory Organizations_Outcome
  imports Organizations_Whole
begin

text \<open>
  The deletion of an organization with all its parts, the listing of the organizations of a user, and
  the outcome of every call of the service (\<open>org_run_outcome\<close>).
\<close>

context organizations
begin

section \<open>Deletion\<close>

lemma team_members_of_teams_deleted:
  assumes "rows_ok (w_db w)"
    and "run_state (for_each (\<lambda>t. dropped (on_db (repo_delete (team_members_repo sv) [Eq ''team_id'' (VStr (te_id t))]))) ts) w = (y, w')"
  shows "rows_ok (w_db w') \<and> cached w' = cached w \<and>
    V w' = (V w)\<lparr>v_team_members := filter_mset (\<lambda>z. tu_team z \<notin> te_id ` set ts) (v_team_members (V w))\<rparr>"
  using assms
proof (induction ts arbitrary: w)
  case Nil
  then show ?case by (simp add: skip_def)
next
  case (Cons t ts)
  obtain q w1 where q: "run_state (on_db (repo_delete (team_members_repo sv) [Eq ''team_id'' (VStr (te_id t))])) w = (q, w1)"
    by (rule prod.exhaust)
  note d = team_member_deleted [OF Cons.prems(1) means_team_member_1(1) q]
  have "run_state (for_each (\<lambda>t. dropped (on_db (repo_delete (team_members_repo sv) [Eq ''team_id'' (VStr (te_id t))]))) ts) w1 = (y, w')"
    using Cons.prems(2) q by (simp add: run_dropped)
  note ih = Cons.IH [OF conjunct1 [OF d] this]
  have "filter_mset (\<lambda>z. tu_team z \<notin> te_id ` set ts) (filter_mset (\<lambda>z. tu_team z \<noteq> te_id t) M) =
    filter_mset (\<lambda>z. tu_team z \<notin> te_id ` set (t # ts)) M" for M :: "team_membership multiset"
    by (induction M) auto
  with ih d show ?case by simp
qed

lemma delete_org_tx_spec:
  assumes r: "rows_ok (w_db w)" and run: "run_state (delete_org_tx sv i cx) w = (q, w')"
  shows "rows_ok (w_db w') \<and> cached w' = cached w \<and> V w' = (V w)
    \<lparr>v_orgs := filter_mset (\<lambda>y. og_id y \<noteq> i) (v_orgs (V w)),
     v_members := filter_mset (\<lambda>y. mb_org y \<noteq> i) (v_members (V w)),
     v_teams := filter_mset (\<lambda>y. te_org y \<noteq> i) (v_teams (V w)),
     v_team_members := filter_mset (\<lambda>y. \<not> (\<exists>t \<in># v_teams (V w). te_org t = i \<and> te_id t = tu_team y)) (v_team_members (V w)),
     v_invitations := filter_mset (\<lambda>y. iv_org y \<noteq> i) (v_invitations (V w))\<rparr>"
proof -
  have ri: "teams.rinv (w_db w)" using r by (simp add: rows_ok_def)
  obtain ts w0 where w0: "run_state (on_db (repo_find_many (teams_repo sv)
    (query_where ModelOrganizationTeams [Eq ''organization_id'' (VStr i)]))) w = (ts, w0)" by (rule prod.exhaust)
  then show ?thesis
  proof (rule teams.find_many_db [OF ri means_team_1(2)])
    fix es assume es: "ts = Inr es" "w0 = w" "mset es = filter_mset (\<lambda>x. te_org x = i) (teams.ents (w_db w))"
    obtain y1 w1 where w1: "run_state (for_each (\<lambda>t. dropped (on_db (repo_delete (team_members_repo sv) [Eq ''team_id'' (VStr (te_id t))]))) es) w = (y1, w1)"
      by (rule prod.exhaust)
    note c1 = team_members_of_teams_deleted [OF r w1]
    obtain y2 w2 where w2: "run_state (on_db (repo_delete (teams_repo sv) [Eq ''organization_id'' (VStr i)])) w1 = (y2, w2)" by (rule prod.exhaust)
    note c2 = team_deleted [OF conjunct1 [OF c1] means_team_1(2) w2]
    obtain y3 w3 where w3: "run_state (on_db (repo_delete (members_repo sv) [Eq ''organization_id'' (VStr i)])) w2 = (y3, w3)" by (rule prod.exhaust)
    note c3 = member_deleted [OF conjunct1 [OF c2] means_member_1(2) w3]
    obtain y4 w4 where w4: "run_state (on_db (repo_delete (invitations_repo sv) [Eq ''organization_id'' (VStr i)])) w3 = (y4, w4)" by (rule prod.exhaust)
    note c4 = invitation_deleted [OF conjunct1 [OF c3] means_invitation_1(2) w4]
    obtain y5 w5 where w5: "run_state (on_db (repo_delete (orgs_repo sv) [Eq ''id'' (VStr i)])) w4 = (y5, w5)" by (rule prod.exhaust)
    note c5 = org_deleted [OF conjunct1 [OF c4] means_org(1) w5]
    have w': "w' = w5" using run w0 es(1,2) w1 w2 w3 w4 w5 c5
      by (auto simp: delete_org_tx_def run_dropped Let_def split: if_splits)
    have "set es = {t \<in> set_mset (v_teams (V w)). te_org t = i}" using arg_cong [OF es(3), of set_mset] by (simp add: V_parts)
    then have "te_id ` set es = te_id ` {t \<in> set_mset (v_teams (V w)). te_org t = i}" by simp
    then have "tu_team z \<notin> te_id ` set es \<longleftrightarrow> \<not> (\<exists>t \<in># v_teams (V w). te_org t = i \<and> te_id t = tu_team z)" for z
      by (simp only: image_iff) auto
    then have "(\<lambda>z. tu_team z \<notin> te_id ` set es) = (\<lambda>z. \<not> (\<exists>t \<in># v_teams (V w). te_org t = i \<and> te_id t = tu_team z))" by (rule ext)
    from arg_cong [OF this, of "\<lambda>P. filter_mset P (v_team_members (V w))"]
    have "{#z \<in># v_team_members (V w). tu_team z \<notin> te_id ` set es#} =
      {#z \<in># v_team_members (V w). \<not> (\<exists>t \<in># v_teams (V w). te_org t = i \<and> te_id t = tu_team z)#}" .
    with c1 c2 c3 c4 c5 w' show ?thesis by simp
  qed
qed

lemma get_organization_cached:
  assumes run: "run_state (get_organization sv cx i) w = (r, w')" and c: "cached w (membership_key o' u) = None"
  shows "cached w' (membership_key o' u) = None"
proof (cases "au_cache (os_auth sv)")
  case None
  then show ?thesis by (simp add: cached_def)
next
  case (Some ch)
  have less: "cached w2 (membership_key o' u) = None"
    if "cached w1 (membership_key o' u) = None" "cview (w_cache w2) \<subseteq>\<^sub>m cview (w_cache w1)" for w1 w2 :: "('s, 'c) world"
    using that Some unfolding cached_def map_le_def by (metis domIff option.distinct(1))
  have set: "cached (w1\<lparr>w_cache := c2\<rparr>) (membership_key o' u) = None"
    if "cached w1 (membership_key o' u) = None" "run_state (cache_set ch cx k e d) (w_cache w1) = (z, c2)" "k \<noteq> membership_key o' u"
    for w1 :: "('s, 'c) world" and k e d z c2
  proof -
    from cache_rules(2) [OF Some that(2)] consider "cview c2 \<subseteq>\<^sub>m cview (w_cache w1)"
      | j where "cview c2 \<subseteq>\<^sub>m (cview (w_cache w1))(k \<mapsto> j)" by blast
    then show ?thesis
      using that(1,3) Some unfolding cached_def map_le_def by cases (simp_all, (metis domIff fun_upd_other)+)
  qed
  have remember: "cached w2 (membership_key o' u) = None"
    if "cached w1 (membership_key o' u) = None" "run_state (remember_org sv cx x) w1 = (z, w2)" for w1 w2 x z
  proof (cases "ocf_cache_ttl (os_cfg sv) \<le> 0")
    case True
    with that Some show ?thesis by (simp add: remember_org_def run_on_cache org_cache_set_def)
  next
    case False
    obtain r1 c1 where c1: "run_state (cache_set ch cx (org_id_key (og_id x)) (org_json x) (ocf_cache_ttl (os_cfg sv))) (w_cache w1) = (r1, c1)"
      by (rule prod.exhaust)
    have s1: "cached (w1\<lparr>w_cache := c1\<rparr>) (membership_key o' u) = None" by (rule set [OF that(1) c1]) simp
    obtain r2 c2 where c2: "run_state (cache_set ch cx (org_slug_key (og_slug x)) (org_json x) (ocf_cache_ttl (os_cfg sv))) c1 = (r2, c2)"
      by (rule prod.exhaust)
    have "cached (w1\<lparr>w_cache := c1\<rparr>\<lparr>w_cache := c2\<rparr>) (membership_key o' u) = None" by (rule set [OF s1, of "org_slug_key (og_slug x)"]) (use c2 in simp_all)
    moreover have "w2 = w1\<lparr>w_cache := c1\<rparr> \<or> w2 = w1\<lparr>w_cache := c2\<rparr>"
      using that(2) Some False c1 c2 by (cases r1) (auto simp: remember_org_def run_on_cache org_cache_set_def)
    ultimately show ?thesis using s1 by auto
  qed
  show ?thesis
  proof (cases "trim_space i = []")
    case True
    with run c show ?thesis by (auto simp: get_organization_def Let_def)
  next
    case False
    obtain q c1 where q: "run_state (cache_get ch cx (org_id_key (trim_space i))) (w_cache w) = (q, c1)" by (rule prod.exhaust)
    let ?w1 = "w\<lparr>w_cache := c1\<rparr>"
    have c1: "cached ?w1 (membership_key o' u) = None" using less [OF c, of ?w1] cache_rules(1) [OF Some q] by simp
    obtain z where z: "run_state (on_cache (org_cache_by_id (au_cache (os_auth sv)) (au_rt (os_auth sv)) cx (trim_space i))) w = (z, ?w1)"
      using q Some False by (cases q) (auto simp: run_on_cache org_cache_by_id_def)
    obtain f d where f: "run_state (repo_find_one (orgs_repo sv) [Eq ''id'' (VStr (trim_space i))]) (w_db w) = (f, d)" by (rule prod.exhaust)
    have c2: "cached (?w1\<lparr>w_db := d\<rparr>) (membership_key o' u) = None" using c1 by (simp add: cached_db)
    have "w' = ?w1 \<or> w' = ?w1\<lparr>w_db := d\<rparr> \<or> (\<exists>x y. run_state (remember_org sv cx x) (?w1\<lparr>w_db := d\<rparr>) = (y, w'))"
      using run False z f by (cases z; cases f) (auto simp: get_organization_def Let_def or_else_run orgs.run_on_db split: prod.splits)
    with c1 c2 remember [OF c2] show ?thesis by blast
  qed
qed

lemma delete_organization_spec:
  assumes g: "good w" and cx: "ctx_err cx = None" "\<not> ctx_in_tx cx" and ok: "call_ok plain sv (cached w) cx (DeleteOrganization i)"
    and run: "run_state (delete_organization sv cx i) w = (r, w')"
  shows "outcome cx (DeleteOrganization i) w r w'"
proof -
  have ti: "trim_space i = i" and nc: "no_colon i" using ok by (simp_all add: clean_def)
  let ?rest = "\<lambda>x. bindE (org_transaction sv cx (delete_org_tx sv i)) (\<lambda>_. do {
       _ \<leftarrow> forget_org sv cx (og_id x) (og_slug x);
       t \<leftarrow> now (os_auth sv);
       _ \<leftarrow> org_publish sv cx EventOrganizationDeleted (og_id x) (PFields ''OrganizationDeletedPayload''
         [(''organization_id'', FStr (og_id x)), (''deleted_at'', FTime t)]);
       ok ()
     })"
  obtain a w1 where a: "run_state (check_principal_auth sv cx i RoleOwner) w = (a, w1)" by (rule prod.exhaust)
  note as = check_principal_auth_spec [OF g _ a, unfolded ti, OF nc]
  have g1: "good w1" "V w1 = V w" using as same_db [of w1 w] by auto
  have no1: "cached w1 (membership_key i u) = None" for u
  proof (cases "au_cache (os_auth sv)")
    case (Some ch)
    with ok a have "w1 = w" by (simp add: check_principal_auth_def)
    with ok Some show ?thesis by simp
  qed (simp add: cached_def)
  show ?thesis
  proof (cases a)
    case (Inl e)
    with run a have "r = Inl e" "w' = w1" by (simp_all add: delete_organization_def)
    with g1 show ?thesis by (simp add: outcome_def)
  next
    case (Inr u)
    obtain f w2 where f: "run_state (get_organization sv cx i) w1 = (f, w2)" by (rule prod.exhaust)
    note fs = get_organization_spec [OF g1(1) f, unfolded ti]
    have g2: "good w2" "V w2 = V w" using fs same_db [of w2 w1] g1 by auto
    have no2: "cached w2 (membership_key i u) = None" for u by (rule get_organization_cached [OF f no1])
    show ?thesis
    proof (cases f)
      case e: (Inl e)
      with run a Inr f have "r = Inl e" "w' = w2" by (simp_all add: delete_organization_def)
      with g2 show ?thesis by (simp add: outcome_def)
    next
      case x: (Inr x)
      then have x2: "x \<in># v_orgs (V w2)" "og_id x = i" "i \<noteq> []" using fs g1 g2 by auto
      have run2: "run_state (?rest x) w2 = (r, w')" using run a Inr f x by (simp add: delete_organization_def)
      obtain q w3 where q: "run_state (org_transaction sv cx (delete_org_tx sv i)) w2 = (q, w3)" by (rule prod.exhaust)
      show ?thesis
      proof (rule in_transaction [OF g2(1) cx(2) q])
        show "rows_ok (w_db v) \<and> cached v = cached w2" if "run_state (delete_org_tx sv i (with_tx cx)) w2 = (Inl e, v)" for e v
          using delete_org_tx_spec [OF goodD(1) [OF g2(1)] that] by blast
      next
        fix e assume "q = Inl e" "good w3" "V w3 = V w2"
        with run2 q g2 show ?thesis by (auto simp: outcome_def)
      next
        fix n assume n: "q = Inr n" "run_state (delete_org_tx sv i (with_tx cx)) w2 = (Inr n, w3)"
        note d = delete_org_tx_spec [OF goodD(1) [OF g2(1)] n(2)]
        note V3 = conjunct2 [OF conjunct2 [OF d]]
        obtain y4 w4 where w4: "run_state (forget_org sv cx (og_id x) (og_slug x)) w3 = (y4, w4)" by (rule prod.exhaust)
        obtain t w5 where t: "run_state (now (os_auth sv)) w4 = (t, w5)" by (rule prod.exhaust)
        obtain y6 w6 where w6: "run_state (org_publish sv cx EventOrganizationDeleted (og_id x) (PFields ''OrganizationDeletedPayload''
         [(''organization_id'', FStr (og_id x)), (''deleted_at'', FTime t)])) w5 = (y6, w6)" by (rule prod.exhaust)
        have r: "r = Inr ()" "w' = w6" using run2 q n(1) w4 t w6 by simp_all
        note sx = good_org [OF g2(1) x2(1)]
        have f4: "w_db w4 = w_db w3" "cached w4 \<subseteq>\<^sub>m cached w2" "cached w4 (org_id_key i) = None" "cached w4 (org_slug_key (og_slug x)) = None"
          using run_forget_org [OF cx(1) _ sx(1) w4] x2(2,3) d by simp_all
        have V4: "V w4 = V w3" using f4(1) by (rule same_db)
        have "orgs_ok (V w4)" unfolding V4
          by (rule ok_fewer [OF goodD(2) [OF g2(1)], where P = "\<lambda>y. og_id y \<noteq> i" and R = "\<lambda>y. mb_org y \<noteq> i" and
              ?Q1.0 = "\<lambda>y. te_org y \<noteq> i" and ?Q2.0 = "\<lambda>y. iv_org y \<noteq> i"]) (simp_all add: V3)
        moreover have "coherent (au_rt (os_auth sv)) (V w4) (cached w4)"
        proof (rule coherent_forgot [OF goodD(3) [OF g2(1)] f4(2), where K = "{org_id_key i, org_slug_key (og_slug x)}"], goal_cases)
          case (2 o' u m)
          then have "o' \<noteq> i" using no2 [of u] by auto
          with 2(4) show ?case unfolding V4 V3 by (simp add: member_in_def)
        next
          case (3 z)
          then have "z \<noteq> x" using x2 by auto
          with sx(4) [of z] 3(1) x2 have "og_id z \<noteq> i" by auto
          with 3(1) show ?case unfolding V4 V3 by simp
        qed (use f4 in auto)
        ultimately have g4: "good w4" using d f4(1) by (intro goodI) simp_all
        note n5 = now_idle [OF t g4]
        from by_publish [OF w6 n5(1)] n5 r V4 have g6: "good w'" "V w' = V w3" by auto
        have "org_change (au_rt (os_auth sv)) (V w2) (DeleteOrganization i) (V w')"
          unfolding g6 V3 by (rule ch_delete [OF x2(1,2)])
        moreover have "allowed (V w) cx i RoleOwner" using as Inr by blast
        ultimately show ?thesis using r g6 g2 by (simp add: outcome_def)
      qed
    qed
  qed
qed

section \<open>Listing and reading\<close>

lemma organizations_of_spec:
  "good w \<Longrightarrow> run_state (organizations_of sv cx ms) w = (xs, w') \<Longrightarrow> good w' \<and> w_db w' = w_db w \<and>
    (\<forall>x \<in> set xs. x \<in># v_orgs (V w) \<and> (\<exists>m \<in> set ms. og_id x = trim_space (mb_org m)))"
proof (induction ms arbitrary: w xs)
  case (Cons m ms)
  obtain r w1 where r: "run_state (get_organization sv cx (mb_org m)) w = (r, w1)" by (rule prod.exhaust)
  note g = get_organization_spec [OF Cons.prems(1) r]
  obtain ys w2 where ys: "run_state (organizations_of sv cx ms) w1 = (ys, w2)" by (rule prod.exhaust)
  have "w' = w2" "xs = (case r of Inl _ \<Rightarrow> ys | Inr x \<Rightarrow> x # ys)" using Cons.prems(2) r ys by auto
  with Cons.IH [of w1 ys] g ys same_db [of w1 w] show ?case by (cases r) auto
qed simp

lemma list_user_organizations_spec:
  assumes g: "good w" and run: "run_state (list_user_organizations sv cx u) w = (r, w')"
  shows "good w' \<and> w_db w' = w_db w \<and> (\<forall>xs. r = Inr xs \<longrightarrow> (\<forall>x \<in> set xs. x \<in># v_orgs (V w) \<and>
    (\<exists>m \<in># v_members (V w). mb_user m = trim_space u \<and> mb_active m \<and> og_id x = trim_space (mb_org m))))"
proof (cases "trim_space u = []")
  case True
  with run have "r = Inl OrgInvalidInput" "w' = w" by (auto simp: list_user_organizations_def Let_def)
  with g show ?thesis by simp
next
  case False
  obtain q w1 where q: "run_state (on_db (repo_find_many (members_repo sv) (query_where ModelOrganizationMemberships
          [Eq ''user_id'' (VStr (trim_space u)), Eq ''status'' (VStr MembershipActive)]))) w = (q, w1)" by (rule prod.exhaust)
  then show ?thesis
  proof (rule mems.find_many_db [OF goodD(5) [OF g] means_member(2)])
    fix ms assume ms: "q = Inr ms" "w1 = w" "mset ms = {#x \<in># mems.ents (w_db w). mb_user x = trim_space u \<and> mb_active x#}"
    obtain xs w2 where xs: "run_state (organizations_of sv cx ms) w = (xs, w2)" by (rule prod.exhaust)
    have r: "r = Inr xs" "w' = w2" using run False q ms xs by (auto simp: list_user_organizations_def Let_def)
    have "m \<in># v_members (V w) \<and> mb_user m = trim_space u \<and> mb_active m" if "m \<in> set ms" for m
      using that arg_cong [OF ms(3), of set_mset] by (auto simp: V_parts)
    with organizations_of_spec [OF g xs] r show ?thesis by fastforce
  qed
qed

lemma reading_outcome:
  assumes "good w'" "w_db w' = w_db w" "call_allowed (V w) cx call \<or> (\<exists>e. r = Inl e)" "\<And>rt v. org_change rt v call v"
  shows "outcome cx call w r w'"
  using assms same_db [OF assms(2)] by (cases r) (auto simp: outcome_def)

lemma answered_outcome:
  assumes "run_state (answered f) w = (r, w')" "\<And>q. run_state f w = (q, w') \<Longrightarrow> outcome cx call w q w'"
  shows "outcome cx call w r w'"
proof -
  obtain q w1 where q: "run_state f w = (q, w1)" by (rule prod.exhaust)
  with assms(1) have r: "w1 = w'" "r = (case q of Inl e \<Rightarrow> Inl e | Inr _ \<Rightarrow> Inr ())"
    by (auto simp: answered_def split: sum.splits)
  with assms(2) [of q] q show ?thesis by (cases q) (simp_all add: outcome_def)
qed

theorem org_run_outcome:
  assumes g: "good w" and cx: "ctx_err cx = None" "\<not> ctx_in_tx cx" and ok: "call_ok plain sv (cached w) cx call"
    and run: "run_state (org_run sv cx call) w = (r, w')"
  shows "outcome cx call w r w'"
proof (cases call)
  case (CreateOrganization inp)
  from run [unfolded this org_run.simps] create_organization_spec [OF g cx(2) ok [unfolded this]] show ?thesis
    unfolding CreateOrganization by (rule answered_outcome)
next
  case (UpdateOrganization i inp)
  from run [unfolded this org_run.simps] update_organization_spec [OF g cx(1) ok [unfolded this]] show ?thesis
    unfolding UpdateOrganization by (rule answered_outcome)
next
  case (DeleteOrganization i)
  from delete_organization_spec [OF g cx ok [unfolded this]] run [unfolded this] show ?thesis unfolding DeleteOrganization by simp
next
  case (TransferOwnership i u)
  from transfer_ownership_spec [OF g cx ok [unfolded this]] run [unfolded this] show ?thesis unfolding TransferOwnership by simp
next
  case (AddMember inp)
  from run [unfolded this org_run.simps] add_member_spec [OF g ok [unfolded this]] show ?thesis
    unfolding AddMember by (rule answered_outcome)
next
  case (UpdateMemberRole o' u role)
  from run [unfolded this org_run.simps] update_member_role_spec [OF g cx(1) ok [unfolded this]] show ?thesis
    unfolding UpdateMemberRole by (rule answered_outcome)
next
  case (UpdateMemberStatus o' u st)
  from run [unfolded this org_run.simps] update_member_status_spec [OF g cx(1) ok [unfolded this]] show ?thesis
    unfolding UpdateMemberStatus by (rule answered_outcome)
next
  case (RemoveMember o' u)
  from remove_member_spec [OF g cx(1) ok [unfolded this]] run [unfolded this] show ?thesis unfolding RemoveMember by simp
next
  case (CreateTeam inp)
  from run [unfolded this org_run.simps] create_team_spec [OF g ok [unfolded this]] show ?thesis
    unfolding CreateTeam by (rule answered_outcome)
next
  case (UpdateTeam o' i inp)
  from run [unfolded this org_run.simps] update_team_spec [OF g ok [unfolded this]] show ?thesis
    unfolding UpdateTeam by (rule answered_outcome)
next
  case (DeleteTeam o' i)
  from delete_team_spec [OF g cx(2) ok [unfolded this]] run [unfolded this] show ?thesis unfolding DeleteTeam by simp
next
  case (AddTeamMember o' i u)
  from add_team_member_spec [OF g ok [unfolded this]] run [unfolded this] show ?thesis unfolding AddTeamMember by simp
next
  case (RemoveTeamMember o' i u)
  from remove_team_member_spec [OF g ok [unfolded this]] run [unfolded this] show ?thesis unfolding RemoveTeamMember by simp
next
  case (CreateInvitation inp)
  from run [unfolded this org_run.simps] create_invitation_spec [OF g ok [unfolded this]] show ?thesis
    unfolding CreateInvitation by (rule answered_outcome)
next
  case (AcceptInvitation raw u)
  from run [unfolded this org_run.simps] accept_invitation_spec [OF g cx(2) ok [unfolded this]] show ?thesis
    unfolding AcceptInvitation by (rule answered_outcome)
next
  case (RevokeInvitation o' i)
  from revoke_invitation_spec [OF g ok [unfolded this]] run [unfolded this] show ?thesis unfolding RevokeInvitation by simp
next
  case (GetOrganization i)
  from run [unfolded this org_run.simps] show ?thesis unfolding GetOrganization
    by (rule answered_outcome) (use get_organization_spec [OF g] in \<open>auto intro!: reading_outcome ch_get_org\<close>)
next
  case (GetOrganizationBySlug s)
  from run [unfolded this org_run.simps] show ?thesis unfolding GetOrganizationBySlug
    by (rule answered_outcome) (use get_organization_by_slug_spec [OF g] in \<open>auto intro!: reading_outcome ch_get_slug\<close>)
next
  case (ListUserOrganizations u)
  from run [unfolded this org_run.simps] show ?thesis unfolding ListUserOrganizations
    by (rule answered_outcome) (use list_user_organizations_spec [OF g] in \<open>auto intro!: reading_outcome ch_list_user\<close>)
next
  case (GetMember o' u)
  from run [unfolded this org_run.simps] show ?thesis unfolding GetMember
    by (rule answered_outcome) (use get_member_spec [OF g] ok GetMember in \<open>auto intro!: reading_outcome ch_get_member\<close>)
next
  case (AuthorizeOrg o' role)
  have nc: "no_colon (trim_space o')" using ok AuthorizeOrg by simp
  show ?thesis unfolding AuthorizeOrg
  proof (rule answered_outcome [OF run [unfolded AuthorizeOrg org_run.simps]])
    fix q assume "run_state (org_authorize sv cx o' role) w = (q, w')"
    from authorize_spec [OF g nc this] show "outcome cx (AuthorizeOrg o' role) w q w'"
      by (cases q) (auto intro!: reading_outcome ch_authorize)
  qed
qed

end

end
