(* ===== verification/Organizations_Memory.thy ===== *)
theory Organizations_Memory
  imports Organizations_Outcome Memory_Models Timed_Samples
begin

text \<open>
  The service of organizations on the in-memory adapter, with the cache in memory or none: it keeps the
  laws of the locale \<open>organizations\<close>. Steps of the service, and what they keep.
\<close>

definition org_models :: "(string \<times> string list list) list" where
  "org_models = [(ModelOrganizations, org_unique), (ModelOrganizationMemberships, member_unique),
     (ModelOrganizationTeams, team_unique), (ModelOrganizationTeamMembers, team_member_unique),
     (ModelOrganizationInvitations, invitation_unique)]"

definition org_on_memory :: "runtime \<Rightarrow> (mem, mcache) org_service \<Rightarrow> bool" where
  "org_on_memory rt sv \<longleftrightarrow> os_adapter sv = memory_adapter rt \<and> on_memory rt (os_auth sv) \<and> org_ready sv"

lemma org_models_distinct: "distinct (map fst org_models)"
  by (simp add: org_models_def org_models)

lemma in_org_models:
  "(ModelOrganizations, org_unique) \<in> set org_models" "(ModelOrganizationMemberships, member_unique) \<in> set org_models"
  "(ModelOrganizationTeams, team_unique) \<in> set org_models" "(ModelOrganizationTeamMembers, team_member_unique) \<in> set org_models"
  "(ModelOrganizationInvitations, invitation_unique) \<in> set org_models"
  by (simp_all add: org_models_def)

lemma memory_organizations:
  assumes on: "org_on_memory rt sv"
  shows "organizations (memory_adapter rt) (models_inv rt org_models) mem_tbl (match_condition rt) plain_string sv mc_view"
proof -
  note m = in_org_models [THEN memory_models [OF org_models_distinct], of rt]
  have b: "benign (os_auth sv)" using on by (simp add: org_on_memory_def on_memory_def)
  have c: "reliable_cache ch mc_view" if "au_cache (os_auth sv) = Some ch" for ch
    using on that mcache.reliable_cache_axioms by (auto simp: org_on_memory_def on_memory_def)
  show ?thesis
  proof (intro organizations.intro organizations_axioms.intro, goal_cases)
    case (7 x) then show ?case by (rule plain_no_colon)
  next
    case (8 m cs s e s') then show ?case by (rule memory_total)
  next
    case (9 q s e s') then show ?case by (rule memory_total)
  next
    case (10 m cs u s e s') then show ?case by (rule memory_total)
  next
    case (11 m cs s e s') then show ?case by (rule memory_total)
  next
    case (12 cx ev w y w') then show ?case by (rule benign_publish [OF b])
  qed (use on c in \<open>auto simp: org_on_memory_def intro: m\<close>)
qed

section \<open>The view\<close>

text \<open>The entities of a repository in a database.\<close>

definition read_row :: "('s, 'e) repo \<Rightarrow> row \<Rightarrow> 'e" where
  "read_row rp r = (case from_map rp r (cd_zero (rp_codec rp)) of Inr e \<Rightarrow> e | Inl _ \<Rightarrow> cd_zero (rp_codec rp))"

definition read_rows :: "(mem, 'e) repo \<Rightarrow> mem \<Rightarrow> 'e multiset" where
  "read_rows rp d = image_mset (read_row rp) (mem_tbl d (rp_model rp))"

definition rows_in_order :: "(mem, 'e) repo \<Rightarrow> ('e \<Rightarrow> row \<Rightarrow> bool) \<Rightarrow> mem \<Rightarrow> bool" where
  "rows_in_order rp rep d \<longleftrightarrow> (\<forall>r \<in># mem_tbl d (rp_model rp). rep (read_row rp r) r)"

definition orgs_view :: "(mem, mcache) org_service \<Rightarrow> (mem, mcache) world \<Rightarrow> org_view" where
  "orgs_view sv w = \<lparr>v_orgs = read_rows (orgs_repo sv) (w_db w), v_members = read_rows (members_repo sv) (w_db w),
     v_teams = read_rows (teams_repo sv) (w_db w), v_team_members = read_rows (team_members_repo sv) (w_db w),
     v_invitations = read_rows (invitations_repo sv) (w_db w)\<rparr>"

definition orgs_cached :: "(mem, mcache) org_service \<Rightarrow> (mem, mcache) world \<Rightarrow> string \<rightharpoonup> json" where
  "orgs_cached sv w = (if au_cache (os_auth sv) = None then Map.empty else mc_view (w_cache w))"

text \<open>The database and the cache being in order for the service.\<close>

definition orgs_in_order :: "runtime \<Rightarrow> (mem, mcache) org_service \<Rightarrow> (mem, mcache) world \<Rightarrow> bool" where
  "orgs_in_order rt sv w \<longleftrightarrow> models_inv rt org_models (w_db w) \<and>
     rows_in_order (orgs_repo sv) (org_rep rt plain_string) (w_db w) \<and>
     rows_in_order (members_repo sv) (member_rep rt plain_string) (w_db w) \<and>
     rows_in_order (teams_repo sv) (team_rep rt plain_string) (w_db w) \<and>
     rows_in_order (team_members_repo sv) (team_member_rep rt plain_string) (w_db w) \<and>
     rows_in_order (invitations_repo sv) (invitation_rep rt plain_string) (w_db w) \<and>
     orgs_ok (orgs_view sv w) \<and> coherent rt (orgs_view sv w) (orgs_cached sv w)"



context organizations
begin

text \<open>The definitions of the locale without the locale \<open>repository\<close>.\<close>

lemma entity_eq:
  "orgs.entity = read_row (orgs_repo sv)" "mems.entity = read_row (members_repo sv)" "teams.entity = read_row (teams_repo sv)"
  "tmems.entity = read_row (team_members_repo sv)" "invs.entity = read_row (invitations_repo sv)"
  by (simp_all add: fun_eq_iff read_row_def orgs.entity_def mems.entity_def teams.entity_def tmems.entity_def invs.entity_def)

lemma V_eq:
  "V w = \<lparr>v_orgs = image_mset (read_row (orgs_repo sv)) (tbl (w_db w) ModelOrganizations),
     v_members = image_mset (read_row (members_repo sv)) (tbl (w_db w) ModelOrganizationMemberships),
     v_teams = image_mset (read_row (teams_repo sv)) (tbl (w_db w) ModelOrganizationTeams),
     v_team_members = image_mset (read_row (team_members_repo sv)) (tbl (w_db w) ModelOrganizationTeamMembers),
     v_invitations = image_mset (read_row (invitations_repo sv)) (tbl (w_db w) ModelOrganizationInvitations)\<rparr>"
  by (simp add: V_def orgs.ents_def mems.ents_def teams.ents_def tmems.ents_def invs.ents_def entity_eq)

lemma rows_ok_eq:
  "rows_ok d \<longleftrightarrow> inv d \<and>
     (\<forall>r \<in># tbl d ModelOrganizations. org_rep (au_rt (os_auth sv)) plain (read_row (orgs_repo sv) r) r) \<and>
     (\<forall>r \<in># tbl d ModelOrganizationMemberships. member_rep (au_rt (os_auth sv)) plain (read_row (members_repo sv) r) r) \<and>
     (\<forall>r \<in># tbl d ModelOrganizationTeams. team_rep (au_rt (os_auth sv)) plain (read_row (teams_repo sv) r) r) \<and>
     (\<forall>r \<in># tbl d ModelOrganizationTeamMembers. team_member_rep (au_rt (os_auth sv)) plain (read_row (team_members_repo sv) r) r) \<and>
     (\<forall>r \<in># tbl d ModelOrganizationInvitations. invitation_rep (au_rt (os_auth sv)) plain (read_row (invitations_repo sv) r) r)"
  by (auto simp: rows_ok_def orgs.rinv_def mems.rinv_def teams.rinv_def tmems.rinv_def invs.rinv_def entity_eq)

end

lemma org_views:
  assumes on: "org_on_memory rt sv"
  shows "organizations.V mem_tbl sv w = orgs_view sv w" "organizations.cached sv mc_view w = orgs_cached sv w"
    "organizations.good (models_inv rt org_models) mem_tbl plain_string sv mc_view w = orgs_in_order rt sv w"
proof -
  note i = memory_organizations [OF on]
  have rt: "au_rt (os_auth sv) = rt" using on by (simp add: org_on_memory_def on_memory_def)
  show V: "organizations.V mem_tbl sv w = orgs_view sv w"
    by (simp add: organizations.V_eq [OF i] orgs_view_def read_rows_def)
  show c: "organizations.cached sv mc_view w = orgs_cached sv w"
    by (simp add: organizations.cached_def [OF i] orgs_cached_def)
  show "organizations.good (models_inv rt org_models) mem_tbl plain_string sv mc_view w = orgs_in_order rt sv w"
    by (simp add: organizations.good_def [OF i] organizations.rows_ok_eq [OF i] V c orgs_in_order_def rows_in_order_def rt)
qed

section \<open>Steps\<close>

text \<open>
  A call of the service, in a context that is alive and not in a transaction, with the identifiers the
  operations expect (\<open>call_ok\<close>).
\<close>

inductive org_step :: "(mem, mcache) org_service \<Rightarrow> (mem, mcache) world \<Rightarrow> (mem, mcache) world \<Rightarrow> bool" for sv where
  org_call_step: "ctx_err cx = None \<Longrightarrow> \<not> ctx_in_tx cx \<Longrightarrow> call_ok plain_string sv (orgs_cached sv w) cx call \<Longrightarrow>
    run_state (org_run sv cx call) w = (r, w') \<Longrightarrow> org_step sv w w'"

inductive_cases org_stepE: "org_step sv w w'"

lemma org_call_outcome:
  assumes on: "org_on_memory rt sv" and w: "orgs_in_order rt sv w" and cx: "ctx_err cx = None" "\<not> ctx_in_tx cx"
    and ok: "call_ok plain_string sv (orgs_cached sv w) cx call" and run: "run_state (org_run sv cx call) w = (r, w')"
  shows "orgs_in_order rt sv w' \<and> (case r of
      Inl _ \<Rightarrow> orgs_view sv w' = orgs_view sv w
    | Inr _ \<Rightarrow> call_allowed (orgs_view sv w) cx call \<and> org_change rt (orgs_view sv w) call (orgs_view sv w'))"
proof -
  note i = memory_organizations [OF on] and v = org_views [OF on]
  have rt: "au_rt (os_auth sv) = rt" using on by (simp add: org_on_memory_def on_memory_def)
  have g: "organizations.good (models_inv rt org_models) mem_tbl plain_string sv mc_view w" using w by (simp add: v)
  from organizations.org_run_outcome [OF i g cx _ run, unfolded organizations.outcome_def [OF i] v rt, OF ok] show ?thesis .
qed

lemma org_step_keeps:
  assumes "org_on_memory rt sv" "orgs_in_order rt sv w" "org_step sv w w'"
  shows "orgs_in_order rt sv w'"
  using assms(3) by (rule org_stepE) (use org_call_outcome [OF assms(1,2)] in blast)

lemma org_run_keeps:
  assumes "rtranclp (org_step sv) w w'" "org_on_memory rt sv" "orgs_in_order rt sv w"
  shows "orgs_in_order rt sv w'"
  using assms(1) by (induction rule: rtranclp_induct) (use assms(2,3) org_step_keeps in blast)+

section \<open>A service\<close>

definition org_auth :: "(nat \<Rightarrow> time) option \<Rightarrow> (mem, mcache) auth" where
  "org_auth c = memory_auth timed_runtime sample_entropy c Inr sample_verify (\<lambda>_. 0) sample_settings"

definition org_sample :: "(nat \<Rightarrow> time) option \<Rightarrow> org_config \<Rightarrow> (mem, mcache) org_service" where
  "org_sample c cfg = new_org_service (org_auth c) (memory_adapter timed_runtime) cfg"

lemma org_sample_on: "org_on_memory timed_runtime (org_sample c cfg)"
  using time_text_timed memory_auth_ok
  by (simp add: org_on_memory_def org_sample_def new_org_service_def org_auth_def org_ready_def no_org_hooks_def
      refusing_chain_def looking_hooks_def memory_auth_def json_time_ok_def duration_units)

interpretation mem_orgs: organizations "memory_adapter timed_runtime" "models_inv timed_runtime org_models" mem_tbl
  "match_condition timed_runtime" plain_string "org_sample c cfg" mc_view for c cfg
  by (rule memory_organizations [OF org_sample_on])

end
