(* ===== verification/Organizations_Properties.thy ===== *)
theory Organizations_Properties
  imports Organizations_Memory
begin

text \<open>
  The properties of the service of organizations on memory, a concrete service and database for their
  witnesses, and what the code does not do: the lemmas of the last section show it on examples.
\<close>

inductive_cases org_change_deleteE: "org_change rt v (DeleteOrganization i) v'"
inductive_cases org_change_acceptE: "org_change rt v (AcceptInvitation raw u) v'"

section \<open>Tokens of invitations\<close>

text \<open>Every invitation with the token has been accepted; no new invitation gets a token there already is.\<close>

definition token_spent :: "string \<Rightarrow> org_view \<Rightarrow> bool" where
  "token_spent h v \<longleftrightarrow> (\<forall>x \<in># v_invitations v. iv_token_hash x = h \<longrightarrow> iv_accepted x)"

definition no_new_token :: "string \<Rightarrow> org_view \<Rightarrow> org_view \<Rightarrow> bool" where
  "no_new_token h v v' \<longleftrightarrow> ((\<exists>x \<in># v_invitations v'. iv_token_hash x = h) \<longrightarrow> (\<exists>x \<in># v_invitations v. iv_token_hash x = h))"

lemma accept_spends:
  assumes "orgs_ok v" "org_change rt v (AcceptInvitation raw u) v'"
  shows "token_spent (org_hash_token rt (trim_space raw)) v'"
  using assms(2)
proof (rule org_change_acceptE)
  fix x t m
  assume v': "v' = v\<lparr>v_invitations := upd_where (\<lambda>y. iv_id y = iv_id x) (\<lambda>y. y\<lparr>iv_accepted_at := Some t\<rparr>) (v_invitations v),
      v_members := add_mset m (v_members v)\<rparr>"
    and x: "x \<in># v_invitations v" "iv_token_hash x = org_hash_token rt (trim_space raw)"
  have u: "uniq iv_token_hash (v_invitations v)" using assms(1) by (simp add: orgs_ok_def)
  show ?thesis
    unfolding token_spent_def
  proof (intro ballI impI)
    fix z assume z: "z \<in># v_invitations v'" "iv_token_hash z = org_hash_token rt (trim_space raw)"
    then obtain y where y: "y \<in># v_invitations v" "z = (if iv_id y = iv_id x then y\<lparr>iv_accepted_at := Some t\<rparr> else y)"
      unfolding v' by (auto simp: in_upd_where)
    then have "iv_token_hash y = iv_token_hash x" using z(2) x(2) by (simp split: if_splits)
    from uniq_eq [OF u y(1) x(1) this] y(2) show "iv_accepted z" by (simp add: iv_accepted_def)
  qed
qed

lemma spent_stays:
  assumes "org_change rt v call v'" "token_spent h v" "no_new_token h v v'"
  shows "token_spent h v'"
  using assms(1)
proof (cases rule: org_change.cases)
  case (ch_invite x inp)
  have "iv_token_hash x \<noteq> h"
  proof
    assume "iv_token_hash x = h"
    with assms(3) ch_invite obtain y where "y \<in># v_invitations v" "iv_token_hash y = h" by (auto simp: no_new_token_def)
    with \<open>iv_token_hash x = h\<close> ch_invite show False by auto
  qed
  with assms(2) ch_invite show ?thesis by (auto simp: token_spent_def)
next
  case (ch_accept x raw t u m)
  then show ?thesis using assms(2) by (auto simp: token_spent_def in_upd_where iv_accepted_def split: if_splits)
qed (use assms(2) in \<open>auto simp: token_spent_def\<close>)

lemma spent_refused: "token_spent (org_hash_token rt (trim_space raw)) v \<Longrightarrow> \<not> org_change rt v (AcceptInvitation raw u) v'"
  by (auto simp: token_spent_def elim!: org_change_acceptE)

section \<open>Properties\<close>




text \<open>C26: An invitation is accepted at most once: after its token was accepted, whatever calls of the service
  come between that draw no such token again, accepting it fails for every user and changes nothing.\<close>

theorem invitation_single_use:
  assumes on: "org_on_memory rt sv" and w: "orgs_in_order rt sv w"
    and cx: "ctx_err cx = None" "\<not> ctx_in_tx cx" and u: "plain_string (trim_space u)"
    and run: "run_state (accept_invitation sv cx raw u) w = (Inr m, w1)"
    and steps: "rtranclp (\<lambda>x y. org_step sv x y \<and>
      no_new_token (org_hash_token rt (trim_space raw)) (orgs_view sv x) (orgs_view sv y)) w1 w2"
    and cx2: "ctx_err cx2 = None" "\<not> ctx_in_tx cx2" and u2: "plain_string (trim_space u2)"
  shows "case run_state (accept_invitation sv cx2 raw u2) w2 of (r, w3) \<Rightarrow>
    (\<exists>e. r = Inl e) \<and> orgs_view sv w3 = orgs_view sv w2"
proof -
  let ?h = "org_hash_token rt (trim_space raw)"
  have r1: "run_state (org_run sv cx (AcceptInvitation raw u)) w = (Inr (), w1)" using run by (simp add: answered_def)
  have k: "call_ok plain_string sv c cx' (AcceptInvitation raw u')" if "plain_string (trim_space u')" for c cx' u'
    using that by simp
  note a = org_call_outcome [OF on w cx k [OF u] r1]
  have ok: "orgs_ok (orgs_view sv w)" using w by (simp add: orgs_in_order_def)
  have c: "org_change rt (orgs_view sv w) (AcceptInvitation raw u) (orgs_view sv w1)" using a by simp
  have a1: "orgs_in_order rt sv w1 \<and> token_spent ?h (orgs_view sv w1)" using accept_spends [OF ok c] a by simp
  have "orgs_in_order rt sv w2 \<and> token_spent ?h (orgs_view sv w2)"
    using steps
  proof (induction rule: rtranclp_induct)
    case base
    show ?case by (rule a1)
  next
    case (step x y)
    from step.hyps(2) have st: "org_step sv x y" "no_new_token ?h (orgs_view sv x) (orgs_view sv y)" by simp_all
    from st(1) show ?case
    proof (rule org_stepE)
      fix cx' call r
      assume c: "ctx_err cx' = None" "\<not> ctx_in_tx cx'" "call_ok plain_string sv (orgs_cached sv x) cx' call"
        "run_state (org_run sv cx' call) x = (r, y)"
      from org_call_outcome [OF on _ c] step.IH spent_stays [OF _ _ st(2)] show ?thesis by (cases r) auto
    qed
  qed
  then have w2: "orgs_in_order rt sv w2" "token_spent ?h (orgs_view sv w2)" by simp_all
  obtain r w3 where r: "run_state (accept_invitation sv cx2 raw u2) w2 = (r, w3)" by (rule prod.exhaust)
  then obtain q where q: "run_state (org_run sv cx2 (AcceptInvitation raw u2)) w2 = (q, w3)"
    "(\<exists>e. q = Inl e) \<longleftrightarrow> (\<exists>e. r = Inl e)" by (cases r) (auto simp: answered_def)
  from org_call_outcome [OF on w2(1) cx2 k [OF u2] q(1)] spent_refused [OF w2(2)] q(2) r show ?thesis by (cases q) auto
qed


section \<open>A database with an organization, its owner and an invitation\<close>

definition sample_org :: organization where
  "sample_org = \<lparr>og_id = ''o'', og_name = ''Acme'', og_slug = ''acme'', og_owner = ''ann'', og_metadata = [],
     og_created_at = 1, og_updated_at = 1\<rparr>"

definition sample_owner :: membership where
  "sample_owner = \<lparr>mb_id = ''m'', mb_org = ''o'', mb_user = ''ann'', mb_role = RoleOwner, mb_status = MembershipActive,
     mb_created_at = 1, mb_updated_at = 1\<rparr>"

definition sample_invitation :: invitation where
  "sample_invitation = \<lparr>iv_id = ''i'', iv_org = ''o'', iv_email = ''bob@x'', iv_role = RoleMember, iv_inviter = ''ann'',
     iv_token_hash = org_hash_token timed_runtime ''tok'', iv_expires_at = 5, iv_accepted_at = None, iv_created_at = 1\<rparr>"

definition sample_org_row :: row where
  "sample_org_row = [''id'' \<mapsto> VStr ''o'', ''name'' \<mapsto> VStr ''Acme'', ''slug'' \<mapsto> VStr ''acme'', ''owner_id'' \<mapsto> VStr ''ann'',
     ''created_at'' \<mapsto> VTime 1, ''updated_at'' \<mapsto> VTime 1]"

definition sample_owner_row :: row where
  "sample_owner_row = [''id'' \<mapsto> VStr ''m'', ''organization_id'' \<mapsto> VStr ''o'', ''user_id'' \<mapsto> VStr ''ann'',
     ''role'' \<mapsto> VStr RoleOwner, ''status'' \<mapsto> VStr MembershipActive, ''created_at'' \<mapsto> VTime 1, ''updated_at'' \<mapsto> VTime 1]"

definition sample_invitation_row :: row where
  "sample_invitation_row = [''id'' \<mapsto> VStr ''i'', ''organization_id'' \<mapsto> VStr ''o'', ''email'' \<mapsto> VStr ''bob@x'',
     ''role'' \<mapsto> VStr RoleMember, ''inviter_user_id'' \<mapsto> VStr ''ann'',
     ''token_hash'' \<mapsto> VStr (org_hash_token timed_runtime ''tok''), ''expires_at'' \<mapsto> VTime 5, ''created_at'' \<mapsto> VTime 1]"

definition org_tables :: "string \<rightharpoonup> table" where
  "org_tables = empty_tables(ModelOrganizations \<mapsto> [(''o'', sample_org_row)],
     ModelOrganizationMemberships \<mapsto> [(''m'', sample_owner_row)], ModelOrganizationTeams \<mapsto> [],
     ModelOrganizationTeamMembers \<mapsto> [], ModelOrganizationInvitations \<mapsto> [(''i'', sample_invitation_row)])"

definition org_schema :: schema where
  "org_schema = sample_schema @ [(ModelOrganizations, organization_model), (ModelOrganizationMemberships, membership_model),
     (ModelOrganizationTeams, team_model), (ModelOrganizationTeamMembers, team_member_model),
     (ModelOrganizationInvitations, invitation_model)]"

definition org_world :: "(mem, mcache) world" where
  "org_world = start_world \<lparr>mem_schema = Some org_schema, mem_tables = org_tables\<rparr>"

abbreviation a_service :: "(nat \<Rightarrow> time) option \<Rightarrow> (mem, mcache) org_service" where
  "a_service c \<equiv> org_sample c default_org_config"

lemma org_sample_simps [simp]:
  "os_auth (org_sample c cfg) = org_auth c" "os_adapter (org_sample c cfg) = memory_adapter timed_runtime"
  "os_cfg (org_sample c cfg) = cfg" "os_hooks (org_sample c cfg) = no_org_hooks"
  "au_rt (org_auth c) = timed_runtime" "au_cache (org_auth c) = map_option memory_cache c"
  "au_now (org_auth c) = passing (\<lambda>_. 0)" "au_events (org_auth c) = new_events" "au_entropy (org_auth c) = sample_entropy"
  by (simp_all add: org_sample_def new_org_service_def org_auth_def memory_auth_def)

lemma sample_org_reps:
  "org_rep timed_runtime plain_string sample_org sample_org_row"
  "member_rep timed_runtime plain_string sample_owner sample_owner_row"
  "invitation_rep timed_runtime plain_string sample_invitation sample_invitation_row"
  using time_text_timed hex_encode_colon
  by (simp_all add: org_rep_def sample_org_def sample_org_row_def member_rep_def sample_owner_def sample_owner_row_def
      invitation_rep_def sample_invitation_def sample_invitation_row_def org_hash_token_def rep_defs set_time_rep_def
      json_time_ok_def duration_units plain_no_colon)

lemma sample_org_reads:
  "read_row (orgs_repo (org_sample c cfg)) sample_org_row = sample_org"
  "read_row (members_repo (org_sample c cfg)) sample_owner_row = sample_owner"
  "read_row (invitations_repo (org_sample c cfg)) sample_invitation_row = sample_invitation"
  using from_map_org [OF sample_org_reps(1) disjI1 [OF refl], of "orgs_repo (org_sample c cfg)"]
    from_map_member [OF sample_org_reps(2) disjI1 [OF refl], of "members_repo (org_sample c cfg)"]
    from_map_invitation [OF sample_org_reps(3) disjI1 [OF refl], of "invitations_repo (org_sample c cfg)"]
  by (simp_all add: read_row_def)

lemma org_world_tables:
  "table_of (w_db org_world) ModelOrganizations = [(''o'', sample_org_row)]"
  "table_of (w_db org_world) ModelOrganizationMemberships = [(''m'', sample_owner_row)]"
  "table_of (w_db org_world) ModelOrganizationTeams = []" "table_of (w_db org_world) ModelOrganizationTeamMembers = []"
  "table_of (w_db org_world) ModelOrganizationInvitations = [(''i'', sample_invitation_row)]"
  "mem_schema (w_db org_world) = Some org_schema"
  by (simp_all add: org_world_def start_world_def table_of_def org_tables_def org_models)

lemma org_world_view: "orgs_view (org_sample c cfg) org_world =
    \<lparr>v_orgs = {#sample_org#}, v_members = {#sample_owner#}, v_teams = {#}, v_team_members = {#}, v_invitations = {#sample_invitation#}\<rparr>"
  by (simp add: orgs_view_def read_rows_def mem_tbl_def org_world_tables rows_of_def sample_org_reads)

lemma org_schema_models:
  "map_of org_schema ModelOrganizations = Some organization_model \<and> map_of org_schema ModelOrganizationMemberships = Some membership_model \<and>
   map_of org_schema ModelOrganizationTeams = Some team_model \<and> map_of org_schema ModelOrganizationTeamMembers = Some team_member_model \<and>
   map_of org_schema ModelOrganizationInvitations = Some invitation_model"
  "m_primary_key organization_model = ''id'' \<and> list_all (declares_unique organization_model) org_unique"
  "m_primary_key membership_model = ''id'' \<and> list_all (declares_unique membership_model) member_unique"
  "m_primary_key team_model = ''id'' \<and> list_all (declares_unique team_model) team_unique"
  "m_primary_key team_member_model = ''id'' \<and> list_all (declares_unique team_member_model) team_member_unique"
  "m_primary_key invitation_model = ''id'' \<and> list_all (declares_unique invitation_model) invitation_unique"
  by code_simp+

lemma org_world_in_order: "orgs_in_order timed_runtime (org_sample c cfg) org_world"
proof -
  have k: "keyed_by_id timed_runtime (''o'', sample_org_row)" "keyed_by_id timed_runtime (''m'', sample_owner_row)"
    "keyed_by_id timed_runtime (''i'', sample_invitation_row)"
    by (simp_all add: keyed_by_id_def sample_org_row_def sample_owner_row_def sample_invitation_row_def)
  have m: "models_inv timed_runtime org_models (w_db org_world)"
    using k org_schema_models by (simp add: models_inv_def org_models_def model_inv_def org_world_tables)
  have "mcache_new = w_cache org_world" by (simp add: org_world_def start_world_def)
  then have "orgs_cached (org_sample c cfg) org_world = Map.empty"
    by (simp add: orgs_cached_def org_world_def start_world_def mcache_new_def mc_view_def fun_eq_iff)
  then have co: "coherent timed_runtime v (orgs_cached (org_sample c cfg) org_world)" for v by (simp add: coherent_def)
  have "orgs_ok (orgs_view (org_sample c cfg) org_world)"
    unfolding org_world_view
    by (simp add: orgs_ok_def owned_def uniq_def sample_org_def sample_owner_def sample_invitation_def mb_active_def no_colon_def trim_space_def
        space_char_def)
  with m co sample_org_reps show ?thesis
    by (simp add: orgs_in_order_def rows_in_order_def mem_tbl_def org_world_tables rows_of_def sample_org_reads)
qed

section \<open>Witnesses\<close>

lemma background_free: "ctx_err background = None" "\<not> ctx_in_tx background" "acting background = None"
  by (simp_all add: background_def acting_def principal_from_def)

definition as_user :: "string \<Rightarrow> ctx" where
  "as_user u = with_principal background \<lparr>pr_subject = u, pr_type = ''user''\<rparr>"

lemma as_user_simps: "ctx_err (as_user u) = None" "\<not> ctx_in_tx (as_user u)" "u \<noteq> [] \<Longrightarrow> acting (as_user u) = Some u"
  by (simp_all add: as_user_def with_principal_def background_def acting_def principal_from_def)




text \<open>Accepting the invitation and deleting the organization there succeed.\<close>

lemma only_index: "idx_unique i \<Longrightarrow> i \<in> set (m_indexes membership_model) \<Longrightarrow> idx_fields i = [''organization_id'', ''user_id'']"
  by (auto simp: membership_model_def)

lemma no_unique_field: "nf \<in> set (m_fields membership_model) \<Longrightarrow> \<not> f_unique (snd nf)"
proof -
  have "list_all (\<lambda>nf. \<not> f_unique (snd nf)) (m_fields membership_model)" by code_simp
  then show "nf \<in> set (m_fields membership_model) \<Longrightarrow> \<not> f_unique (snd nf)" by (auto simp: list_all_iff)
qed

lemma create_second_member:
  assumes d: "member_rep timed_runtime plain_string x d" "mb_id x \<noteq> ''m''" "mb_id x \<noteq> []" "mb_user x \<noteq> ''ann''"
    and ts: "ts ModelOrganizationMemberships = Some [(''m'', sample_owner_row)]"
  shows "\<exists>s. run_state (mem_create timed_runtime ModelOrganizationMemberships d) \<lparr>mem_schema = Some org_schema, mem_tables = ts\<rparr> = (Inr d, s)"
proof -
  have k: "d ''id'' = Some (VStr (mb_id x))" "d ''user_id'' = Some (VStr (mb_user x))" "plain_string (mb_user x)"
    using d(1) by (simp_all add: member_rep_def)
  have "\<not> list_ex (field_conflict timed_runtime t d) (m_fields membership_model)" for t
    using no_unique_field by (auto simp: list_ex_iff field_conflict_def)
  moreover have "\<not> list_ex (index_conflict timed_runtime [(''m'', sample_owner_row)] d) (m_indexes membership_model)"
    using only_index k d(4) by (auto simp: list_ex_iff index_conflict_def sample_owner_row_def match_equal_str split: option.splits)
  ultimately show ?thesis
    using k(1) d(2,3) ts org_schema_models
    by (simp add: mem_create_def Let_def row_get_def mem_get_model_def get_model_def clone_model_def table_of_def)
qed

lemma org_tables_simps:
  "org_tables ModelOrganizations = Some [(''o'', sample_org_row)]"
  "org_tables ModelOrganizationMemberships = Some [(''m'', sample_owner_row)]"
  "org_tables ModelOrganizationTeams = Some []" "org_tables ModelOrganizationTeamMembers = Some []"
  "org_tables ModelOrganizationInvitations = Some [(''i'', sample_invitation_row)]"
  by (simp_all add: org_tables_def org_models)

lemma org_apart:
  "ModelOrganizationMemberships \<noteq> ModelOrganizationInvitations" "ModelOrganizations \<noteq> ModelOrganizationInvitations"
  "ModelOrganizations \<noteq> ModelOrganizationMemberships" "ModelOrganizations \<noteq> ModelOrganizationTeams"
  "ModelOrganizationMemberships \<noteq> ModelOrganizationTeams" "ModelOrganizationInvitations \<noteq> ModelOrganizationTeams"
  "ModelOrganizationInvitations \<noteq> ModelOrganizationMemberships"
  by (simp_all add: org_models)

lemma sample_matches:
  "match_conditions timed_runtime [Eq ''token_hash'' (VStr (org_hash_token timed_runtime ''tok''))] sample_invitation_row"
  "match_conditions timed_runtime [Eq ''id'' (VStr ''i'')] sample_invitation_row"
  "\<not> match_conditions timed_runtime [Eq ''organization_id'' (VStr ''o''), Eq ''user_id'' (VStr ''bob'')] sample_owner_row"
  "match_conditions timed_runtime [Eq ''id'' (VStr ''o'')] sample_org_row"
  using hex_encode_colon
  by (simp_all add: match_eq_str match_nil sample_invitation_row_def sample_owner_row_def sample_org_row_def plain_no_colon org_hash_token_def)

lemma plain_texts: "trim_space ''tok'' = ''tok''" "trim_space ''bob'' = ''bob''" "trim_space ''o'' = ''o''" "plain_string ''bob''"
  by (simp_all add: trim_space_def space_char_def plain_no_colon)

lemma sample_from_map:
  "from_map (invitations_repo (a_service None)) sample_invitation_row no_invitation = Inr sample_invitation"
  "from_map (orgs_repo (a_service None)) sample_org_row no_org = Inr sample_org"
  using from_map_invitation [OF sample_org_reps(3) disjI1 [OF refl], of "invitations_repo (a_service None)"]
    from_map_org [OF sample_org_reps(1) disjI1 [OF refl], of "orgs_repo (a_service None)"] by simp_all

abbreviation org_mem :: "(string \<rightharpoonup> table) \<Rightarrow> mem" where
  "org_mem ts \<equiv> \<lparr>mem_schema = Some org_schema, mem_tables = ts\<rparr>"

lemma org_world_db: "w_db org_world = org_mem org_tables" "w_clock org_world = 0"
  by (simp_all add: org_world_def start_world_def)

lemma sample_finds:
  assumes "w_db w = org_mem org_tables"
  shows "run_state (on_db (repo_find_one (invitations_repo (a_service None)) [Eq ''token_hash'' (VStr (org_hash_token timed_runtime ''tok''))])) w =
      (Inr sample_invitation, w)"
    "run_state (on_db (repo_find_one (members_repo (a_service None)) [Eq ''organization_id'' (VStr ''o''), Eq ''user_id'' (VStr ''bob'')])) w =
      (Inl AdapterNotFound, w)"
    "run_state (on_db (repo_find_one (orgs_repo (a_service None)) [Eq ''id'' (VStr ''o'')])) w = (Inr sample_org, w)"
    "run_state (on_db (repo_update (invitations_repo (a_service None)) [Eq ''id'' (VStr ''i'')] u)) w =
      (Inr 1, w\<lparr>w_db := org_mem (org_tables(ModelOrganizationInvitations \<mapsto> [(''i'', sample_invitation_row ++ u)]))\<rparr>)"
  using assms
  by (simp_all add: on_db_def repo_find_one_def repo_update_def memory_ops find_only [of org_tables] update_only [of org_tables]
      org_tables_simps sample_matches sample_from_map)

lemma sample_accept_succeeds: "\<exists>m. fst (run_state (accept_invitation (a_service None) background ''tok'' ''bob'') org_world) = Inr m"
proof -
  let ?i = "''mem'' @ ''_'' @ hex_encode (random_bytes (sample_entropy (w_draws org_world)) 16)"
  let ?m = "\<lparr>mb_id = ?i, mb_org = ''o'', mb_user = ''bob'', mb_role = RoleMember, mb_status = MembershipActive,
    mb_created_at = 1, mb_updated_at = 1\<rparr>"
  let ?w = "org_world\<lparr>w_clock := 1\<rparr>"
  have "plain_string ?i" using hex_encode_colon by (intro plain_no_colon) auto
  then have okm: "member_okay plain_string ?m"
    by (simp add: member_okay_def json_time_ok_def duration_units plain_no_colon)
  from to_map_member [OF okm time_text_timed, of "members_repo (a_service None)"]
  obtain d where d: "to_map (members_repo (a_service None)) ?m = Inr d" "member_rep timed_runtime plain_string ?m d" by auto
  have fm: "from_map (members_repo (a_service None)) d ?m = Inr ?m"
    using from_map_member [OF d(2) disjI2 [OF refl], of "members_repo (a_service None)"] by simp
  let ?ts = "org_tables(ModelOrganizationInvitations \<mapsto> [(''i'', sample_invitation_row ++ [''accepted_at'' \<mapsto> VTime 1])])"
  have ts: "?ts ModelOrganizationMemberships = Some [(''m'', sample_owner_row)]" by (simp add: org_tables_simps org_apart)
  obtain s where s: "run_state (mem_create timed_runtime ModelOrganizationMemberships d) (org_mem ?ts) = (Inr d, s)"
    using create_second_member [where ts = ?ts, OF d(2) _ _ _ ts] by auto
  let ?w1 = "?w\<lparr>w_db := org_mem ?ts\<rparr>"
  have gi: "run_state (org_generate_id (org_auth None) ''mem'') ?w1 = (?i, ?w1\<lparr>w_draws := Suc (w_draws org_world)\<rparr>)"
    by (simp add: org_generate_id_def draw_def)
  have cr: "run_state (on_db (repo_create (members_repo (a_service None)) ?m)) (?w1\<lparr>w_draws := Suc (w_draws org_world)\<rparr>) =
      (Inr ?m, ?w1\<lparr>w_draws := Suc (w_draws org_world), w_db := s\<rparr>)"
    using s d(1) fm by (simp add: on_db_def repo_create_def memory_ops)
  have db: "w_db ?w = org_mem org_tables" by (simp add: org_world_db)
  have tx: "run_state (accept_tx (a_service None) (org_hash_token timed_runtime ''tok'') ''bob'' 1 (with_tx background)) ?w =
      (Inr (?m, sample_invitation), ?w1\<lparr>w_draws := Suc (w_draws org_world), w_db := s\<rparr>)"
    using sample_finds [OF db] gi cr
    by (simp add: accept_tx_def or_else_def sample_invitation_def iv_accepted_def iv_expired_def)
  have "run_state (org_transaction (a_service None) background
      (accept_tx (a_service None) (org_hash_token timed_runtime ''tok'') ''bob'' 1)) ?w =
      (Inr (?m, sample_invitation), ?w1\<lparr>w_draws := Suc (w_draws org_world), w_db := s\<rparr>)"
    using tx by (simp add: org_transaction_def adapter_transaction_def background_free)
  moreover have "run_state (now (org_auth None)) org_world = (1, ?w)" by (simp add: now_def org_world_db)
  ultimately show ?thesis
    by (simp add: accept_invitation_def plain_texts Let_def split: prod.splits)
qed

lemma delete_somewhere:
  assumes "w_db w = org_mem ts" "ts m \<noteq> None" "rp_adapter rp = Some (memory_adapter timed_runtime)" "rp_model rp = m"
  shows "\<exists>n t. run_state (on_db (repo_delete rp cs)) w = (Inr n, w\<lparr>w_db := org_mem (ts(m \<mapsto> t))\<rparr>)"
  using assms by (auto simp: on_db_def repo_delete_def memory_adapter_def mem_delete_def Let_def)

lemma sample_delete_succeeds: "\<exists>w'. run_state (delete_organization (a_service None) background ''o'') org_world = (Inr (), w')"
proof -
  note db = org_world_db(1)
  have g: "run_state (get_organization (a_service None) background ''o'') org_world = (Inr sample_org, org_world)"
    using sample_finds(3) [OF db]
    by (simp add: get_organization_def plain_texts Let_def or_else_def on_cache_def org_cache_by_id_def remember_org_def org_cache_set_def)
  have t: "run_state (on_db (repo_find_many (teams_repo (a_service None)) (query_where ModelOrganizationTeams cs))) org_world = (Inr [], org_world)" for cs
    using db by (simp add: on_db_def repo_find_many_def query_where_def memory_adapter_def mem_find_many_def org_tables_simps iterate_def Let_def)
  obtain n1 t1 where d1: "run_state (on_db (repo_delete (teams_repo (a_service None)) [Eq ''organization_id'' (VStr ''o'')])) org_world =
      (Inr n1, org_world\<lparr>w_db := org_mem (org_tables(ModelOrganizationTeams \<mapsto> t1))\<rparr>)"
    using delete_somewhere [OF db, of ModelOrganizationTeams "teams_repo (a_service None)" "[Eq ''organization_id'' (VStr ''o'')]"]
    by (simp add: org_tables_simps) blast
  let ?ts1 = "org_tables(ModelOrganizationTeams \<mapsto> t1)" let ?w1 = "org_world\<lparr>w_db := org_mem ?ts1\<rparr>"
  obtain n2 t2 where d2: "run_state (on_db (repo_delete (members_repo (a_service None)) [Eq ''organization_id'' (VStr ''o'')])) ?w1 =
      (Inr n2, ?w1\<lparr>w_db := org_mem (?ts1(ModelOrganizationMemberships \<mapsto> t2))\<rparr>)"
    using delete_somewhere [of ?w1 ?ts1 ModelOrganizationMemberships "members_repo (a_service None)" "[Eq ''organization_id'' (VStr ''o'')]"]
    by (simp add: org_tables_simps org_apart) blast
  let ?ts2 = "?ts1(ModelOrganizationMemberships \<mapsto> t2)" let ?w2 = "org_world\<lparr>w_db := org_mem ?ts2\<rparr>"
  obtain n3 t3 where d3: "run_state (on_db (repo_delete (invitations_repo (a_service None)) [Eq ''organization_id'' (VStr ''o'')])) ?w2 =
      (Inr n3, ?w2\<lparr>w_db := org_mem (?ts2(ModelOrganizationInvitations \<mapsto> t3))\<rparr>)"
    using delete_somewhere [of ?w2 ?ts2 ModelOrganizationInvitations "invitations_repo (a_service None)" "[Eq ''organization_id'' (VStr ''o'')]"]
    by (simp add: org_tables_simps org_apart) blast
  let ?ts3 = "?ts2(ModelOrganizationInvitations \<mapsto> t3)" let ?w3 = "org_world\<lparr>w_db := org_mem ?ts3\<rparr>"
  have "?ts3 ModelOrganizations = Some [(''o'', sample_org_row)]" by (simp add: org_tables_simps org_apart)
  then have d4: "\<exists>s. run_state (on_db (repo_delete (orgs_repo (a_service None)) [Eq ''id'' (VStr ''o'')])) ?w3 = (Inr 1, s)"
    using sample_matches(4) by (simp add: on_db_def repo_delete_def memory_adapter_def mem_delete_def Let_def iterate_def)
  then obtain s where d4: "run_state (on_db (repo_delete (orgs_repo (a_service None)) [Eq ''id'' (VStr ''o'')])) ?w3 = (Inr 1, s)" by blast
  have "run_state (delete_org_tx (a_service None) ''o'' (with_tx background)) org_world = (Inr (), s)"
    using t [of "[Eq ''organization_id'' (VStr ''o'')]"] d1 d2 d3 d4
    by (simp add: delete_org_tx_def dropped_def Let_def skip_def)
  then have "run_state (org_transaction (a_service None) background (delete_org_tx (a_service None) ''o'')) org_world = (Inr (), s)"
    by (simp add: org_transaction_def adapter_transaction_def background_free)
  with g show ?thesis
    by (simp add: delete_organization_def check_principal_auth_def background_free split: prod.splits)
qed

theorem invitation_single_use_witness:
  "\<exists>m w'. run_state (accept_invitation (a_service None) background ''tok'' ''bob'') org_world = (Inr m, w') \<and>
     isl (fst (run_state (accept_invitation (a_service None) background ''tok'' ''bob'') w'))"
proof -
  obtain m w' where run: "run_state (accept_invitation (a_service None) background ''tok'' ''bob'') org_world = (Inr m, w')"
    using sample_accept_succeeds by (metis prod.collapse)
  have "plain_string (trim_space ''bob'')" by (simp add: plain_texts)
  from invitation_single_use [OF org_sample_on org_world_in_order background_free(1,2) this run rtranclp.rtrancl_refl
      background_free(1,2) this] run
  show ?thesis by (auto split: prod.splits)
qed


section \<open>What the service does not do\<close>

text \<open>The key of a cached membership joins its identifiers without escaping: another organization and
  another user have the same key when an identifier has a colon. The cached record is not compared with
  the identifiers that were asked for.\<close>

lemma membership_key_collides: "membership_key ''a:b'' ''c'' = membership_key ''a'' ''b:c''"
  by (simp add: membership_key_def cache_key_def)

text \<open>An administrator may add and invite owners, although only an owner may make a member an owner.\<close>

lemma admin_adds_owner:
  assumes "may_act v cx o' RoleAdmin m" "mb_role m = RoleAdmin" "trim_space o' = o'" "acting cx \<noteq> None"
  shows "call_allowed v cx (AddMember \<lparr>am_org = o', am_user = u, am_role = RoleOwner\<rparr>)"
    and "\<not> may_act v cx o' RoleOwner m"
  using assms by (auto simp: allowed_def may_act_def role_at_least_def role_level_def RoleOwner_def RoleAdmin_def)

end
