(* ===== verification/One_Time_Token.thy ===== *)
theory One_Time_Token
  imports Recovery_Properties
begin

text \<open>
  The plugin of one-time tokens (\<open>plugins/one-time-token\<close>): its options, its configuration and its service
  on the verification tokens of the engine, and what it promises: a token that was generated is accepted
  once and for its purpose only, and not any more after a revocation.
\<close>

section \<open>Errors, events, options and configuration\<close>

definition ott_err :: "string \<Rightarrow> err" where
  "ott_err n = PluginErr ''ott'' n"

definition ErrInvalidSubject :: err where "ErrInvalidSubject = ott_err ''ErrInvalidSubject''"
definition OttInvalidToken :: err where "OttInvalidToken = ott_err ''ErrInvalidToken''"
definition ErrInvalidTTL :: err where "ErrInvalidTTL = ott_err ''ErrInvalidTTL''"

definition EventTokenCreated :: string where "EventTokenCreated = ''one_time_token.created''"
definition EventTokenConsumed :: string where "EventTokenConsumed = ''one_time_token.consumed''"
definition EventTokenRevoked :: string where "EventTokenRevoked = ''one_time_token.revoked''"

definition OttDefaultPurpose :: string where "OttDefaultPurpose = ''ott:token''"

record generate_options =
  go_ttl :: duration
  go_purpose :: string

definition with_custom_ttl :: "duration \<Rightarrow> generate_options \<Rightarrow> generate_options" where
  "with_custom_ttl d x = x\<lparr>go_ttl := d\<rparr>"

definition with_custom_purpose :: "string \<Rightarrow> generate_options \<Rightarrow> generate_options" where
  "with_custom_purpose p x = x\<lparr>go_purpose := p\<rparr>"

record ott_config =
  oc_default_ttl :: duration
  oc_purpose :: string

definition with_ttl :: "duration \<Rightarrow> ott_config \<Rightarrow> ott_config" where
  "with_ttl d c = c\<lparr>oc_default_ttl := d\<rparr>"

definition with_purpose :: "string \<Rightarrow> ott_config \<Rightarrow> ott_config" where
  "with_purpose p c = c\<lparr>oc_purpose := p\<rparr>"

definition ott_with_defaults :: "ott_config \<Rightarrow> ott_config" where
  "ott_with_defaults c =
     (let c1 = (if oc_default_ttl c \<le> 0 then c\<lparr>oc_default_ttl := 10 * minute\<rparr> else c) in
      if oc_purpose c1 = [] then c1\<lparr>oc_purpose := OttDefaultPurpose\<rparr> else c1)"

text \<open>\<open>New\<close> applies the options to the empty configuration, in their order.\<close>

definition ott_new :: "(ott_config \<Rightarrow> ott_config) list \<Rightarrow> ott_config" where
  "ott_new opts = ott_with_defaults (fold (\<lambda>f c. f c) opts \<lparr>oc_default_ttl = 0, oc_purpose = []\<rparr>)"

section \<open>The service\<close>

record ('s, 'c) ott_service =
  ot_auth :: "('s, 'c) auth"
  ot_cfg :: ott_config

type_synonym generate_option = "generate_options \<Rightarrow> generate_options"

definition apply_options :: "generate_option list \<Rightarrow> generate_options \<Rightarrow> generate_options" where
  "apply_options opts x = fold (\<lambda>f x. f x) opts x"

definition ott_generate ::
  "('s, 'c) ott_service \<Rightarrow> ctx \<Rightarrow> string \<Rightarrow> generate_option list \<Rightarrow> ('s, 'c, string) actE" where
  "ott_generate sv cx subject opts =
     (if subject = [] then fail ErrInvalidSubject
      else
        let opt = apply_options opts \<lparr>go_ttl = oc_default_ttl (ot_cfg sv), go_purpose = oc_purpose (ot_cfg sv)\<rparr> in
        if go_ttl opt \<le> 0 then fail ErrInvalidTTL
        else bindE (issue_token (ot_auth sv) (go_purpose opt) subject (go_ttl opt)) (\<lambda>tk. do {
          _ \<leftarrow> publish (ot_auth sv) cx EventTokenCreated subject
            (PFields ''TokenCreatedPayload'' [(''subject'', FStr subject), (''purpose'', FStr (go_purpose opt))]);
          ok tk
        }))"

definition ott_consume ::
  "('s, 'c) ott_service \<Rightarrow> ctx \<Rightarrow> string \<Rightarrow> generate_option list \<Rightarrow> ('s, 'c, token) actE" where
  "ott_consume sv cx tk opts =
     (if tk = [] then fail OttInvalidToken
      else do {
        let opt = apply_options opts \<lparr>go_ttl = 0, go_purpose = oc_purpose (ot_cfg sv)\<rparr>;
        r \<leftarrow> consume_token (ot_auth sv) (go_purpose opt) tk;
        case r of
          Inl _ \<Rightarrow> fail OttInvalidToken
        | Inr vt \<Rightarrow> do {
            _ \<leftarrow> publish (ot_auth sv) cx EventTokenConsumed (tok_subject vt)
              (PFields ''TokenConsumedPayload'' [(''token_id'', FStr (tok_id vt)), (''subject'', FStr (tok_subject vt)),
                (''purpose'', FStr (tok_purpose vt))]);
            ok vt
          }
      })"

definition ott_revoke ::
  "('s, 'c) ott_service \<Rightarrow> ctx \<Rightarrow> string \<Rightarrow> generate_option list \<Rightarrow> ('s, 'c, unit) actE" where
  "ott_revoke sv cx subject opts =
     (if subject = [] then fail ErrInvalidSubject
      else
        let opt = apply_options opts \<lparr>go_ttl = 0, go_purpose = oc_purpose (ot_cfg sv)\<rparr> in
        bindE (revoke_tokens (ot_auth sv) (go_purpose opt) subject) (\<lambda>_. do {
          _ \<leftarrow> publish (ot_auth sv) cx EventTokenRevoked subject
            (PFields ''TokenCreatedPayload'' [(''subject'', FStr subject), (''purpose'', FStr (go_purpose opt))]);
          ok ()
        }))"

text \<open>The purpose a call is for, and how long a generated token lives.\<close>

definition ott_purpose :: "('s, 'c) ott_service \<Rightarrow> generate_option list \<Rightarrow> string" where
  "ott_purpose sv opts = go_purpose (apply_options opts \<lparr>go_ttl = 0, go_purpose = oc_purpose (ot_cfg sv)\<rparr>)"

text \<open>Options the package offers.\<close>

definition ott_options :: "generate_option list \<Rightarrow> bool" where
  "ott_options opts \<longleftrightarrow> (\<forall>f \<in> set opts. (\<exists>d. f = with_custom_ttl d) \<or> (\<exists>p. f = with_custom_purpose p))"

lemma purpose_without_ttl:
  "ott_options opts \<Longrightarrow> go_purpose (apply_options opts \<lparr>go_ttl = d, go_purpose = p\<rparr>) =
   go_purpose (apply_options opts \<lparr>go_ttl = d', go_purpose = p\<rparr>)"
proof (induction opts arbitrary: d d' p)
  case (Cons f fs)
  then have fs: "ott_options fs" by (simp add: ott_options_def)
  from Cons.prems consider e where "f = with_custom_ttl e" | q where "f = with_custom_purpose q"
    by (auto simp: ott_options_def)
  then show ?case
  proof cases
    case 1
    then show ?thesis by (simp add: apply_options_def with_custom_ttl_def)
  next
    case 2
    with Cons.IH [OF fs, of d q d'] show ?thesis by (simp add: apply_options_def with_custom_purpose_def)
  qed
qed (simp add: apply_options_def)

section \<open>Tokens in memory\<close>

text \<open>In memory a stored token is found by its hash, and an unused one can be marked.\<close>

lemma mem_token_found:
  assumes "membridge.binv rt s" "x \<in># db_tokens (membridge.bview rt s)"
  shows "\<exists>y. run_state (tokens_get_by_hash (mem_store rt) (tok_token_hash x)) s = (Inr y, s)"
proof -
  obtain r s' where run: "run_state (token_get_by_hash rt (memory_adapter rt) (tok_token_hash x)) s = (r, s')"
    by (rule prod.exhaust)
  note g = membridge.b_tokens_get_by_hash [OF assms(1) run]
  have "e = StoreNotFound" if "r = Inl e" for e
    using run that by (auto simp: token_get_by_hash_def memory_adapter_def mem_find_one_def not_found_err_def
        split: option.splits sum.splits prod.splits)
  with g assms(2) have "\<exists>y. r = Inr y" by (cases r) (auto simp: got_def)
  with g run show ?thesis by (auto simp: mem_store_def bridge_new_def)
qed

lemma mem_token_marked:
  assumes b: "membridge.binv rt s" and c: "at \<noteq> 0"
    and x: "x \<in># db_tokens (membridge.bview rt s)" "tok_used_at x = None"
  shows "\<exists>s'. run_state (tokens_mark_used (mem_store rt) (tok_id x) at) s = (Inr (), s')"
proof -
  let ?w = "[Eq ''id'' (VStr (tok_id x)), IsNull ''used_at'']"
  from mem_update_total obtain n s1 where
    n: "run_state (mem_update rt ModelVerifications ?w [''used_at'' \<mapsto> VTime at]) s = (Inr n, s1)"
    by (metis prod.collapse)
  have "n \<noteq> 0"
  proof
    assume "n = 0"
    with n mem_update_Inr [of rt s "[''used_at'' \<mapsto> VTime at]"] membridge.binv_inv [OF b]
    have "size (filter_mset (sats (match_condition rt) ?w) (mem_tbl s ModelVerifications)) = 0" by fastforce
    then have "\<not> (tok_id y = tok_id x \<and> tok_used_at y = None)" if "y \<in># db_tokens (membridge.bview rt s)" for y
      using that membridge.sat_id_in [OF b, of ModelVerifications] membridge.sat_optional_in [OF b, of ModelVerifications]
      by (auto simp: mem.none_sat membridge.bview_sel to_token_def column_defs)
    with x show False by blast
  qed
  with n show ?thesis by (simp add: mem_store_def bridge_new_def token_mark_used_def memory_adapter_def)
qed

lemma consume_succeeds:
  assumes on: "on_memory rt a" and w: "in_order rt a w" and x: "x \<in># db_tokens (stored rt w)"
    and tk: "tok_token_hash x = hash_token rt tk" "tk \<noteq> []" "tok_purpose x = p" "tok_used_at x = None"
      "au_now a (w_clock w) < tok_expires_at x"
  shows "\<exists>w'. run_state (consume_token a p tk) w = (Inr (use_token (au_now a (w_clock w)) x), w')"
proof -
  let ?t = "au_now a (w_clock w)"
  have a: "au_store a = mem_store rt" "au_rt a = rt" "?t \<noteq> 0"
    using on by (auto simp: on_memory_def) (metis clock_ok_def less_irrefl)+
  from w on have b: "membridge.binv rt (w_db w)"
    using engine_in_order(3) [OF on w] by (simp add: engine.Inv_def [OF on_memory_engine [OF on]] mem_store_eqs)
  have xs: "x \<in># db_tokens (membridge.bview rt (w_db w))" using x by (simp add: stored_def mem_store_eqs)
  from mem_token_found [OF b xs] obtain y where
    y: "run_state (tokens_get_by_hash (mem_store rt) (tok_token_hash x)) (w_db w) = (Inr y, w_db w)" by blast
  from y membridge.b_tokens_get_by_hash [OF b, of "tok_token_hash x" "Inr y" "w_db w"]
  have "y \<in># db_tokens (stored rt w)" "tok_token_hash y = tok_token_hash x"
    using tk(1) by (auto simp: mem_store_def bridge_new_def got_def stored_def mem_store_eqs)
  from uniq_eq [OF stored_uniq_tokens [OF on w] this(1) x this(2)] have "y = x" .
  with y have f: "run_state (tokens_get_by_hash (mem_store rt) (hash_token rt tk)) (w_db w) = (Inr x, w_db w)"
    using tk(1) by simp
  from mem_token_marked [OF b a(3) xs tk(4)] obtain s where
    s: "run_state (tokens_mark_used (mem_store rt) (tok_id x) ?t) (w_db w) = (Inr (), s)" by blast
  show ?thesis
    using f s a tk by (simp add: consume_token_def on_db_def zoom_def now_def tok_used_def tok_expired_def use_token_def)
qed

section \<open>The calls on memory\<close>

lemma publish_stored:
  assumes "on_memory rt a" "in_order rt a w" "run_state (publish a cx nm sub pl) w = (y, w')"
  shows "in_order rt a w' \<and> stored rt w' = stored rt w"
proof -
  note en = on_memory_engine [OF assms(1)]
  from engine.calmD [OF en engine.calm_publish [OF en] assms(3)] have c: "engine.calm a mc_view w w'" .
  from engine.good_calm [OF en engine_in_order(1) [OF assms(1,2)] c] engine.calm_V [OF en c]
    engine.sound_same [OF en, of w' w] assms(2) show ?thesis
    by (simp add: in_order_def engine_words [OF assms(1)])
qed

lemma consume_in_order:
  assumes on: "on_memory rt (ot_auth sv)" and w: "in_order rt (ot_auth sv) w"
    and run: "run_state (ott_consume sv cx tk opts) w = (r, w')"
  shows "in_order rt (ot_auth sv) w' \<and> (case r of
      Inl e \<Rightarrow> e = OttInvalidToken \<and> stored rt w' = stored rt w \<and>
        (tk = [] \<or> (\<exists>e. fst (run_state (consume_token (ot_auth sv) (ott_purpose sv opts) tk) w) = Inl e))
    | Inr x \<Rightarrow> tk \<noteq> [] \<and> (\<exists>w1. run_state (consume_token (ot_auth sv) (ott_purpose sv opts) tk) w = (Inr x, w1) \<and>
        stored rt w' = stored rt w1))"
proof (cases "tk = []")
  case True
  with run w show ?thesis by (auto simp: ott_consume_def)
next
  case False
  obtain q w1 where q: "run_state (consume_token (ot_auth sv) (ott_purpose sv opts) tk) w = (q, w1)" by (rule prod.exhaust)
  note c = consume_token_on_memory [OF on w q]
  show ?thesis
  proof (cases q)
    case (Inl e)
    with run q False c show ?thesis by (auto simp: ott_consume_def ott_purpose_def Let_def)
  next
    case (Inr x)
    with run q False obtain pl y where p: "run_state (publish (ot_auth sv) cx EventTokenConsumed (tok_subject x) pl) w1 = (y, w')"
      and r: "r = Inr x" by (auto simp: ott_consume_def ott_purpose_def Let_def split: prod.splits)
    from publish_stored [OF on _ p] c q r False Inr show ?thesis by auto
  qed
qed

text \<open>A token with no unused record of the purpose is refused.\<close>

lemma consume_refused:
  assumes on: "on_memory rt (ot_auth sv)" and w: "in_order rt (ot_auth sv) w"
    and none: "\<forall>y \<in># db_tokens (stored rt w). tok_token_hash y = hash_token rt tk \<and> tok_purpose y = ott_purpose sv opts \<longrightarrow>
      tok_used_at y \<noteq> None"
  shows "\<exists>w'. run_state (ott_consume sv cx tk opts) w = (Inl OttInvalidToken, w') \<and> stored rt w' = stored rt w"
proof -
  obtain r w' where run: "run_state (ott_consume sv cx tk opts) w = (r, w')" by (rule prod.exhaust)
  note c = consume_in_order [OF on w run]
  have "r \<noteq> Inr x" for x
  proof
    assume "r = Inr x"
    with c obtain w1 where "run_state (consume_token (ot_auth sv) (ott_purpose sv opts) tk) w = (Inr x, w1)" by auto
    from consume_token_on_memory [OF on w this] none show False by auto
  qed
  with c run show ?thesis by (cases r) auto
qed

lemma generate_stores:
  assumes on: "on_memory rt (ot_auth sv)" and w: "in_order rt (ot_auth sv) w" and opts: "ott_options opts"
    and run: "run_state (ott_generate sv cx sub opts) w = (Inr tk, w')"
  obtains x where "x \<in># db_tokens (stored rt w')" "tok_token_hash x = hash_token rt tk" "tok_purpose x = ott_purpose sv opts"
    "tok_subject x = sub" "tok_used_at x = None" "tk \<noteq> []"
    "tok_expires_at x = au_now (ot_auth sv) (w_clock w) +
      go_ttl (apply_options opts \<lparr>go_ttl = oc_default_ttl (ot_cfg sv), go_purpose = oc_purpose (ot_cfg sv)\<rparr>)"
proof -
  let ?a = "ot_auth sv" and ?o = "apply_options opts \<lparr>go_ttl = oc_default_ttl (ot_cfg sv), go_purpose = oc_purpose (ot_cfg sv)\<rparr>"
  note en = on_memory_engine [OF on]
  from run obtain pl y w1 where i: "run_state (issue_token ?a (go_purpose ?o) sub (go_ttl ?o)) w = (Inr tk, w1)"
    and p: "run_state (publish ?a cx EventTokenCreated sub pl) w1 = (y, w')"
    by (auto simp: ott_generate_def Let_def split: if_splits prod.splits sum.splits)
  have c: "engine.calm ?a mc_view w1 w'" by (rule engine.calmD [OF en engine.calm_publish [OF en] p])
  from engine.calm_V [OF en c] have "stored rt w' = stored rt w1" by (simp add: engine_words [OF on])
  moreover have "go_purpose ?o = ott_purpose sv opts" unfolding ott_purpose_def by (rule purpose_without_ttl [OF opts])
  moreover from engine.issue_token_spec [OF en engine_in_order(3) [OF on w] i] obtain x where
    "stored rt w1 = (stored rt w)\<lparr>db_tokens := add_mset x (db_tokens (stored rt w))\<rparr>"
    "tok_token_hash x = hash_token rt tk" "tok_purpose x = go_purpose ?o" "tok_subject x = sub" "tok_used_at x = None"
    "tk \<noteq> []" "tok_expires_at x = au_now ?a (w_clock w) + go_ttl ?o"
    by (auto simp: engine_words [OF on])
  ultimately show thesis by (intro that [of x]) simp_all
qed

section \<open>Properties\<close>


text \<open>After Revoke no stored token of the purpose belongs to the subject, so Consume for the purpose
  answers none of its tokens; the tokens of other purposes and other subjects are as they were.\<close>

theorem ott_revoke_ends:
  assumes on: "on_memory rt (ot_auth sv)" and w: "in_order rt (ot_auth sv) w"
    and plain: "plain_string (ott_purpose sv opts)" "plain_string sub"
    and run: "run_state (ott_revoke sv cx sub opts) w = (Inr (), w')"
  shows "in_order rt (ot_auth sv) w' \<and>
    stored rt w' = (stored rt w)\<lparr>db_tokens := {#x \<in># db_tokens (stored rt w).
      \<not> (tok_purpose x = ott_purpose sv opts \<and> tok_subject x = sub)#}\<rparr> \<and>
    (\<forall>cy tk opts' x w2. ott_purpose sv opts' = ott_purpose sv opts \<longrightarrow>
      run_state (ott_consume sv cy tk opts') w' = (Inr x, w2) \<longrightarrow> tok_subject x \<noteq> sub)"
proof -
  let ?a = "ot_auth sv"
  note en = on_memory_engine [OF on]
  from run obtain pl y w1 where i: "run_state (revoke_tokens ?a (ott_purpose sv opts) sub) w = (Inr (), w1)"
    and p: "run_state (publish ?a cx EventTokenRevoked sub pl) w1 = (y, w')"
    by (auto simp: ott_revoke_def ott_purpose_def Let_def split: if_splits prod.splits sum.splits)
  have w1: "in_order rt ?a w1"
    using engine.sound_revoke_tokens [OF en w [unfolded in_order_def] plain i] by (simp add: in_order_def)
  note pub = publish_stored [OF on w1 p]
  have v: "stored rt w' = (stored rt w)\<lparr>db_tokens := {#x \<in># db_tokens (stored rt w).
      \<not> (tok_purpose x = ott_purpose sv opts \<and> tok_subject x = sub)#}\<rparr>"
    using engine.revoke_tokens_spec [OF en engine_in_order(3) [OF on w] plain i] pub by (simp add: engine_words [OF on])
  have "tok_subject x \<noteq> sub" if c: "ott_purpose sv opts' = ott_purpose sv opts"
    "run_state (ott_consume sv cy tk opts') w' = (Inr x, w2)" for cy tk opts' x w2
  proof -
    from consume_in_order [OF on _ c(2)] pub obtain w3 where
      "run_state (consume_token ?a (ott_purpose sv opts') tk) w' = (Inr x, w3)" by auto
    from consume_token_on_memory [OF on _ this] pub obtain z t where
      "z \<in># db_tokens (stored rt w')" "tok_purpose z = ott_purpose sv opts" "x = use_token t z" using c(1) by auto
    with v show ?thesis by (auto simp: use_token_def)
  qed
  with v pub show ?thesis by blast
qed

section \<open>A service on the sample engine\<close>

definition sample_ott :: "(mem, mcache) ott_service" where
  "sample_ott = \<lparr>ot_auth = sample_auth, ot_cfg = ott_new [with_ttl hour]\<rparr>"

abbreviation for_reset :: "generate_option list" where
  "for_reset \<equiv> [with_custom_purpose PurposePasswordReset]"

lemma sample_ott_simps:
  "ot_auth sample_ott = sample_auth" "oc_default_ttl (ot_cfg sample_ott) = hour"
  "apply_options for_reset \<lparr>go_ttl = d, go_purpose = p\<rparr> = \<lparr>go_ttl = d, go_purpose = PurposePasswordReset\<rparr>"
  "ott_purpose sample_ott for_reset = PurposePasswordReset" "ott_options for_reset"
  by (auto simp: sample_ott_def ott_new_def ott_with_defaults_def with_ttl_def duration_units Let_def apply_options_def
      with_custom_purpose_def ott_purpose_def ott_options_def)

lemma publish_sample:
  "run_state (publish sample_auth cx nm sub pl) w =
    ((), w\<lparr>w_clock := Suc (w_clock w), w_events := w_events w @ [\<lparr>ev_name = nm, ev_time = passing (\<lambda>_. 1) (w_clock w),
      ev_subject = sub, ev_payload = pl\<rparr>]\<rparr>)"
  by (simp add: publish_def record_event_def events_publish_def new_events_def now_def skip_def)

lemma sample_generate: "\<exists>w1. run_state (ott_generate sample_ott background (sample_id 0) for_reset) sample_world =
    (Inr (sample_token 5), w1) \<and> in_order sample_runtime sample_auth w1 \<and> w_clock w1 = 7 \<and>
    stored sample_runtime w1 = stored sample_runtime sample_issued"
proof -
  obtain w1 where p: "run_state (publish sample_auth background EventTokenCreated (sample_id 0) (PFields ''TokenCreatedPayload''
      [(''subject'', FStr (sample_id 0)), (''purpose'', FStr PurposePasswordReset)])) sample_issued = ((), w1)" "w_clock w1 = 7"
    by (simp add: publish_sample sample_issued_def)
  have n: "sample_id 0 \<noteq> []" using sample_issue_run by (auto simp: issue_token_def)
  have "run_state (ott_generate sample_ott background (sample_id 0) for_reset) sample_world = (Inr (sample_token 5), w1)"
    using sample_issue_run p(1) n by (simp add: ott_generate_def sample_ott_simps duration_units)
  with publish_stored [OF sample_on_memory sample_issued_in_order p(1)] p(2) show ?thesis by blast
qed


theorem ott_revoke_ends_witness:
  "\<exists>w'. run_state (ott_revoke sample_ott background (sample_id 0) for_reset) sample_issued = (Inr (), w') \<and>
     in_order sample_runtime sample_auth w' \<and>
     (\<forall>x \<in># db_tokens (stored sample_runtime w'). \<not> (tok_purpose x = PurposePasswordReset \<and> tok_subject x = sample_id 0))"
proof -
  have "\<exists>w1. run_state (revoke_tokens sample_auth PurposePasswordReset (sample_id 0)) sample_issued = (Inr (), w1)"
    by (cases "mem_tables (w_db sample_issued) ModelVerifications")
      (simp_all add: revoke_tokens_def on_db_def mem_store_def bridge_new_def token_delete_by_subject_def memory_adapter_def
        mem_delete_def Let_def)
  then obtain w1 where d: "run_state (revoke_tokens sample_auth PurposePasswordReset (sample_id 0)) sample_issued = (Inr (), w1)"
    by blast
  have n: "sample_id 0 \<noteq> []" using sample_issue_run by (auto simp: issue_token_def)
  from d n obtain w' where run: "run_state (ott_revoke sample_ott background (sample_id 0) for_reset) sample_issued = (Inr (), w')"
    by (simp add: ott_revoke_def sample_ott_simps publish_sample)
  have ok: "on_memory sample_runtime (ot_auth sample_ott)" "in_order sample_runtime (ot_auth sample_ott) sample_issued"
    using sample_on_memory sample_issued_in_order by (simp_all add: sample_ott_simps)
  have pl: "plain_string (ott_purpose sample_ott for_reset)" "plain_string (sample_id 0)"
    by (simp_all add: sample_ott_simps plain_purposes sample_id_simps)
  from ott_revoke_ends [OF ok pl run] run show ?thesis by (auto simp: sample_ott_simps)
qed

end
