(* ===== verification/Spec2Isabelle.thy ===== *)
theory Spec2Isabelle
  imports Recovery_Properties Plugin_Properties Argon2id Rate_Limit_Correct Foundation_Properties
    Device_Properties Rbac_Properties Policy_Properties
    Organizations_Properties One_Time_Token
begin

text \<open>
  A verification development of go-modular-auth, a modular authentication library in Go.

  The program. \<open>auth.New\<close> (\<open>auth.go\<close>) builds an engine \<open>Auth\<close> from a configuration, plugin modules
  and an adapter. The workflows of the engine (\<open>signin.go\<close>, \<open>session.go\<close>, \<open>password.go\<close>,
  \<open>verification.go\<close>, \<open>user.go\<close>) call a typed store (\<open>store/store.go\<close>), which the bridge
  (\<open>adapter/bridge\<close>) implements on a generic adapter of tables and rows (\<open>adapter/adapter.go\<close>),
  here the in-memory one (\<open>adapter/memory\<close>); rows are checked against the schema the core and the
  plugins compile (\<open>schema\<close>). Sessions and users are read through an optional cache (\<open>cache\<close>,
  \<open>cache.go\<close>). Every workflow runs the hooks registered for it (\<open>hooks.go\<close>), publishes events
  (\<open>events.go\<close>), hashes passwords (\<open>password\<close>) and draws identifiers and tokens
  (\<open>internal/secure\<close>). Plugins are initialized in the order of their dependencies and offer
  capabilities (\<open>plugin.go\<close>, \<open>plugin/registry.go\<close>).

  Theories and sources.
  \<^item> \<open>Go_Prelude\<close>: error values (the sentinels of the packages as one datatype), Go's strings,
    bytes, instants, the state monad with error results (\<open>bindE\<close>, \<open>ok\<close>, \<open>fail\<close>), and \<open>triple\<close> and
    \<open>keeps\<close>, in which the workflow proofs are written.
  \<^item> \<open>Schema\<close> (\<open>schema/schema.go\<close>, \<open>core_models.go\<close>), \<open>Adapter\<close> (\<open>adapter/adapter.go\<close>: the interface as
    a record of operations and the locale of its laws), \<open>Memory_Adapter\<close> (\<open>adapter/memory\<close>).
  \<^item> \<open>Entities\<close> (\<open>user\<close>, \<open>account\<close>, \<open>credential\<close>, \<open>session\<close>, \<open>verification\<close>, \<open>internal/secure\<close>),
    \<open>Store\<close> (\<open>store/store.go\<close> and the locale \<open>store_contract\<close>, the abstract specification of
    persistence), \<open>Bridge\<close> and \<open>Bridge_Correct\<close> (\<open>adapter/bridge\<close>, a refinement of \<open>store_contract\<close>
    on every adapter that keeps the adapter's laws, and on the in-memory one in particular).
  \<^item> \<open>Context\<close> (\<open>principal.go\<close>, \<open>tenant.go\<close>), \<open>Cache\<close> (\<open>cache/cache.go\<close>, \<open>semantic.go\<close>,
    \<open>cache/memory\<close>; the locale \<open>cache_contract\<close>), \<open>Engine\<close> (\<open>config.go\<close>, \<open>hooks.go\<close>, \<open>events.go\<close>,
    \<open>cache.go\<close>, \<open>auth.go\<close>).
  \<^item> \<open>Workflows\<close>: every operation of the engine. \<open>Engine_Correct\<close>, \<open>Sessions_Correct\<close>,
    \<open>Sign_In_Correct\<close>, \<open>Sign_Up_Correct\<close>, \<open>Passwords_Correct\<close>, \<open>Recovery_Correct\<close> prove, in the
    locale \<open>engine\<close>, what each operation does to the store on every branch and that it keeps the
    caches coherent; \<open>Engine_Steps\<close> makes the calls a step relation and proves the invariant of
    its reachable states; \<open>Memory_Engine\<close> interprets the locale on memory. \<open>Samples\<close>,
    \<open>Sample_Reset\<close> and \<open>Sample_Sign_In\<close> evaluate a concrete engine for the witnesses, and
    \<open>Core_Properties\<close> and \<open>Recovery_Properties\<close> state the properties.
  \<^item> \<open>Plugin_Order\<close> (\<open>initOrder\<close>), \<open>Plugin_Host\<close> (the rest of \<open>plugin.go\<close>, \<open>plugin/registry.go\<close>,
    \<open>New\<close> and \<open>Close\<close>), \<open>Plugin_Properties\<close>.
  \<^item> \<open>Argon2id\<close> (\<open>password/password.go\<close>): the PHC format and the hasher.
  \<^item> \<open>Foundation_Properties\<close>: the refinement, equivalence and round-trip properties of the parts above.
  \<^item> \<open>One_Time_Token\<close> (\<open>plugins/one-time-token\<close>): the service on the verification tokens, and its properties.
  \<^item> \<open>Sdk_Db\<close> (\<open>plugin-sdk/db.go\<close>: the typed repositories of the plugins over an adapter, with a codec
    between a record and its row), \<open>Sdk_Correct\<close> (the locale \<open>repository\<close>, proved on every adapter that
    keeps the adapter's laws).
  \<^item> \<open>Device_Authorization\<close> (\<open>plugins/device-authorization\<close>), \<open>Device_Rows\<close> (the grants read back from
    their rows), \<open>Device_Correct\<close> (the abstract machine of the grants, and in the locale \<open>device\<close> the
    refinement of each operation), \<open>Engine_Frame\<close> (the engine leaves the tables of the plugins alone),
    \<open>Device_Memory\<close> (both locales interpreted on memory; the runs of the service and the engine),
    \<open>Device_Properties\<close>. \<open>Timed_Samples\<close> holds the engine of the witnesses.
  \<^item> \<open>Decision_Cache\<close> (the two caches of decisions the authorization plugins share, and the locale
    \<open>decisions\<close>), \<open>Rbac\<close> (\<open>plugins/rbac/domain.go\<close>, \<open>cache\<close>), \<open>Rbac_Service\<close> (\<open>service.go\<close>), \<open>Rbac_Rows\<close> (rows
    read back; the reference semantics of permission patterns), \<open>Rbac_Correct\<close> (what access means, and in
    the locale \<open>rbac\<close> every operation as a change of the roles and assignments that leaves no stale
    decision), \<open>Rbac_Caches\<close> (both caches keep \<open>decisions\<close>), \<open>Memory_Models\<close> (several models of a plugin on
    one adapter), \<open>Rbac_Memory\<close> (the locale interpreted on memory; runs of the service beside an
    engine), \<open>Rbac_Properties\<close>.
  \<^item> \<open>Decision_Correct\<close> (the laws of \<open>decisions\<close> proved once for each kind of cache), \<open>Policy\<close>
    (\<open>plugins/policy/domain.go\<close>, \<open>evaluator.go\<close>, \<open>cache\<close>), \<open>Policy_Service\<close> (\<open>service.go\<close>, \<open>config.go\<close>,
    \<open>events.go\<close>), \<open>Policy_Correct\<close> (the verdicts of the combinators by the effects of their parts; the registry
    as a list), \<open>Policy_Fresh\<close> (in the locales \<open>resource_decisions\<close> and \<open>policy\<close>, that no operation leaves a
    decision of other policies in the cache), \<open>Policy_Caches\<close> (both caches keep the locale),
    \<open>Policy_Properties\<close>.
  \<^item> \<open>Organizations\<close> (\<open>plugins/organizations/domain.go\<close>, \<open>crypto.go\<close>, \<open>cache.go\<close>), \<open>Organizations_Service\<close>
    (\<open>service.go\<close>, \<open>config.go\<close>, \<open>hooks.go\<close>, \<open>events.go\<close>, \<open>capability.go\<close>), \<open>Organizations_Rows\<close> (rows read
    back), \<open>Organizations_Spec\<close> (the abstract state of organizations, memberships, teams and invitations:
    who may make a call, what a call changes, the invariant, when the cache agrees), and in the locale
    \<open>organizations\<close>, \<open>Organizations_Correct\<close> (reads and authorization), \<open>Organizations_Changes\<close> (members),
    \<open>Organizations_Parts\<close> (teams), \<open>Organizations_Joining\<close> (joining and invitations), \<open>Organizations_Whole\<close>
    (creation, update, transfer) and \<open>Organizations_Outcome\<close> (deletion, lists, every call): that each
    operation is the specified change, made with authority, that an error changes nothing, and that
    the cache stays coherent. \<open>Sdk_Total\<close> holds what the repositories answer on an adapter that always
    answers. \<open>Organizations_Memory\<close> (the locale interpreted on memory; runs of the service),
    \<open>Organizations_Properties\<close>.
  \<^item> \<open>Float64\<close> (rounding to \<open>float64\<close>), \<open>Rate_Limit\<close> (\<open>plugins/rate-limit\<close>), \<open>Rate_Limit_Correct\<close>.

  State. A world (\<open>world\<close>) holds the adapter's tables, the cache, the number of clock readings and
  of random draws, the published events, the sent messages and the log. A workflow is a
  function of the engine and its input in the state monad over the world. An error return is
  \<open>Inl\<close> of the sentinel, so every early return of the code is a branch of the model.

  Bounds and fuel. The search for the plugin order runs on fuel, one more than the number of
  modules; \<open>init_order_correct\<close> shows that it never runs out. All other recursions are structural.
  Durations and instants are integers of nanoseconds, wrapped at 64 bits where the code
  multiplies durations. The values of \<open>float64\<close> are rationals rounded to 53 bits after each
  operation, without NaN, infinities and fused operations.

  Assumptions. Calls are taken one after the other: mutexes and goroutines are not modelled. Hooks,
  event handlers and email senders are functions of the model; the properties name what they
  require of them (that they leave the store and the cache alone). SHA-256, Argon2's key
  derivation, the parser of addresses and the iteration order of Go's maps are parameters, and so are
  the texts of instants and floats in JSON; the law \<open>time_text\<close>, that the text of an instant reads
  back as the instant, is the documented behaviour of RFC 3339 in \<open>encoding/json\<close>. The hypothesis
  \<open>device_ready\<close> says that the service is built on an engine whose schema has the table of the grants.
  Random bytes are always available, as \<open>crypto/rand\<close> documents. Codes are upper-cased as ASCII; the
  metadata of a grant is an association list, its status a string. The service of \<open>rbac\<close> is the one
  \<open>Init\<close> builds, with its repositories; a nil slice of permissions is the empty list; the laws of a cache
  of decisions ask nothing of invalidations in a cancelled context, and on the core cache they hold for
  subjects without a colon (\<open>plain_subject\<close>). An evaluator of \<open>policy\<close> is a function on the world, which
  does not reach the registry of the service; a nil map of attributes is the one without entries, and that
  \<open>WithAttribute\<close> writes to a shared map is not modelled; the details of a challenge are JSON. The service
  of \<open>organizations\<close> has an adapter and a context (\<open>org_ready\<close>), its hooks may refuse but change nothing,
  and its runs are calls of the service alone, with contexts that are alive and outside a transaction.
  \<open>call_ok\<close> says of each call what its proof needs: identifiers without colons and without spaces around
  them where the code does not trim or escape them, identifiers and texts that are not read back as
  instants, and for \<open>DeleteOrganization\<close> that no membership of the organization is cached; where the code
  does other than its callers expect without these, the findings of the manifest say so.

  Not modelled. The SQL, database, cache, mail, HTTP and gRPC adapters, whose code is glue to drivers
  that are not in the repository; the federation and billing plugins, which exchange messages
  with services over libraries that are not in the repository; the remaining plugins
  (administration, passwordless and identity plugins, machine access), which have no theory yet.
\<close>

end
